(* ===== verification/Prelude.thy ===== *)
theory Prelude
  imports Main "HOL-Library.Sublist" "HOL-Library.Word"
begin

text \<open>
  Shared vocabulary of the development.

  \<^item> The collections \<open>go_strings\<close> (facts on the model of Go's \<^verbatim>\<open>strings\<close> and
    \<^verbatim>\<open>path/filepath\<close> functions) and \<open>parse_simps\<close>, \<open>policy_simps\<close>, \<open>hitl_simps\<close>,
    \<open>loop_simps\<close>, \<open>flow_simps\<close>, \<open>guard_simps\<close>, \<open>preview_simps\<close>, \<open>leader_simps\<close>
    (unfolding facts of each component).
  \<^item> Type names used by every component: Go integers, instants, errors as sums.
  \<^item> Generic facts on lists, sums and maps.

  A Go \<^verbatim>\<open>string\<close> is a byte sequence and is modelled as a list of \<open>char\<close>, one
  \<open>char\<close> per byte of its UTF-8 encoding. Every character the programs below test for is
  ASCII, so scanning the bytes of a valid UTF-8 string and scanning its runes agree.
  An instant (\<^verbatim>\<open>time.Time\<close>) and a duration are integers of nanoseconds; the wall clock
  is an argument of the operations that read it.
\<close>

named_theorems go_strings \<open>facts on the model of the Go string and path library\<close>
named_theorems parse_simps \<open>unfolding facts of the command tokenizer\<close>
named_theorems policy_simps \<open>unfolding facts of the command policy and its sandbox\<close>
named_theorems hitl_simps \<open>unfolding facts of the human-in-the-loop component\<close>
named_theorems loop_simps \<open>unfolding facts of the closed-loop orchestrator\<close>
named_theorems flow_simps \<open>unfolding facts of the flow engine\<close>
named_theorems guard_simps \<open>unfolding facts of data classification and access\<close>
named_theorems preview_simps \<open>unfolding facts of repair previews\<close>
named_theorems leader_simps \<open>unfolding facts of locks and leader election\<close>

section \<open>Type names\<close>

type_synonym uint64 = "64 word"
type_synonym instant = int
type_synonym ('e, 'a) result = "'e + 'a"

text \<open>A Go \<^verbatim>\<open>error\<close> result with no other value: \<open>None\<close> is \<^verbatim>\<open>nil\<close>.\<close>

type_synonym 'e err = "'e option"

abbreviation Ok :: "'a \<Rightarrow> ('e, 'a) result" where "Ok \<equiv> Inr"
abbreviation Err :: "'e \<Rightarrow> ('e, 'a) result" where "Err \<equiv> Inl"

section \<open>Generic facts\<close>

lemma Ok_or_Err: "(\<exists>e. r = Err e) \<or> (\<exists>a. r = Ok a)"
  by (cases r) auto

lemma find_Some_mem: "find P xs = Some x \<Longrightarrow> x \<in> set xs \<and> P x"
  by (metis find_Some_iff nth_mem)

lemma find_None_iff_all: "find P xs = None \<longleftrightarrow> (\<forall>x\<in>set xs. \<not> P x)"
  by (metis find_None_iff)

lemma find_append:
  "find P (xs @ ys) = (case find P xs of Some x \<Rightarrow> Some x | None \<Rightarrow> find P ys)"
  by (induction xs) auto

lemma find_distinct_key: "distinct (map f xs) \<Longrightarrow> x \<in> set xs \<Longrightarrow> find (\<lambda>y. f y = f x) xs = Some x"
  by (induction xs) auto

lemma take_take_append: "take n (take n xs @ ys) = take n (xs @ ys)"
  by (cases "n \<le> length xs") simp_all

lemma prefix_hd: "prefix w (c # cs) \<Longrightarrow> w \<noteq> [] \<Longrightarrow> hd w = c"
  by (cases w) auto

lemma set_subset_singleton_replicate: "set xs \<subseteq> {x} \<Longrightarrow> xs = replicate (length xs) x"
  by (induction xs) auto

end
