(* ===== verification/Go_Strings.thy ===== *)
theory Go_Strings
  imports Prelude
begin

text \<open>
  The functions of Go's \<^verbatim>\<open>strings\<close> and \<^verbatim>\<open>path/filepath\<close> packages that the
  modelled code calls, on byte strings:
  \<^item> \<open>TrimSpace\<close> removes leading and trailing Unicode white space (the byte sequences of
    \<open>go_spaces\<close>), as \<^verbatim>\<open>strings.TrimSpace\<close> does on valid UTF-8;
  \<^item> \<open>Contains\<close>, \<open>HasPrefix\<close>, \<open>HasSuffix\<close>, \<open>IndexByte\<close>, \<open>IndexStr\<close>, \<open>LastIndexByte\<close>,
    \<open>SplitByte\<close>;
  \<^item> \<open>ToLower\<close> and \<open>EqualFold\<close> on ASCII letters (bytes outside A-Z are left alone);
  \<^item> \<open>path_Base\<close> and \<open>path_Clean\<close> as on Unix.
\<close>

section \<open>Characters\<close>

abbreviation DQUOTE :: char where "DQUOTE \<equiv> CHR 0x22"
abbreviation SQUOTE :: char where "SQUOTE \<equiv> CHR 0x27"
abbreviation BSLASH :: char where "BSLASH \<equiv> CHR 0x5C"
abbreviation BTICK :: char where "BTICK \<equiv> CHR 0x60"
abbreviation TAB :: char where "TAB \<equiv> CHR 0x09"
abbreviation LF :: char where "LF \<equiv> CHR 0x0A"
abbreviation SPACE :: char where "SPACE \<equiv> CHR 0x20"
abbreviation SLASH :: char where "SLASH \<equiv> CHR 0x2F"

section \<open>White space\<close>

text \<open>The UTF-8 encodings of the runes for which \<^verbatim>\<open>unicode.IsSpace\<close> holds.\<close>

definition go_spaces :: "string list" where
  "go_spaces =
     [[CHR 0x09], [CHR 0x0A], [CHR 0x0B], [CHR 0x0C], [CHR 0x0D], [CHR 0x20],
      [CHR 0xC2, CHR 0x85], [CHR 0xC2, CHR 0xA0], [CHR 0xE1, CHR 0x9A, CHR 0x80],
      [CHR 0xE2, CHR 0x80, CHR 0x80], [CHR 0xE2, CHR 0x80, CHR 0x81],
      [CHR 0xE2, CHR 0x80, CHR 0x82], [CHR 0xE2, CHR 0x80, CHR 0x83],
      [CHR 0xE2, CHR 0x80, CHR 0x84], [CHR 0xE2, CHR 0x80, CHR 0x85],
      [CHR 0xE2, CHR 0x80, CHR 0x86], [CHR 0xE2, CHR 0x80, CHR 0x87],
      [CHR 0xE2, CHR 0x80, CHR 0x88], [CHR 0xE2, CHR 0x80, CHR 0x89],
      [CHR 0xE2, CHR 0x80, CHR 0x8A], [CHR 0xE2, CHR 0x80, CHR 0xA8],
      [CHR 0xE2, CHR 0x80, CHR 0xA9], [CHR 0xE2, CHR 0x80, CHR 0xAF],
      [CHR 0xE2, CHR 0x81, CHR 0x9F], [CHR 0xE3, CHR 0x80, CHR 0x80]]"

function trim_with :: "string list \<Rightarrow> string \<Rightarrow> string" where
  "trim_with ws s =
     (case find (\<lambda>w. w \<noteq> [] \<and> prefix w s) ws of
        None \<Rightarrow> s
      | Some w \<Rightarrow> trim_with ws (drop (length w) s))"
  by pat_completeness auto
termination
proof (relation "measure (\<lambda>(ws, s). length s)")
  show "wf (measure (\<lambda>(ws, s). length (s::string)))" by simp
next
  fix ws :: "string list" and s w :: string
  assume "find (\<lambda>w. w \<noteq> [] \<and> prefix w s) ws = Some w"
  then have "w \<noteq> []" "prefix w s" by (auto dest: find_Some_mem)
  then have "0 < length w" and "length w \<le> length s" by (auto dest: prefix_length_le)
  then have "length s - length w < length s" by linarith
  then show "((ws, drop (length w) s), (ws, s)) \<in> measure (\<lambda>(ws, s). length s)"
    by simp
qed

declare trim_with.simps [simp del]

definition TrimLeft :: "string \<Rightarrow> string" where
  "TrimLeft s = trim_with go_spaces s"

definition TrimRight :: "string \<Rightarrow> string" where
  "TrimRight s = rev (trim_with (map rev go_spaces) (rev s))"

definition TrimSpace :: "string \<Rightarrow> string" where
  "TrimSpace s = TrimRight (TrimLeft s)"

text \<open>Well-formed UTF-8, as \<^verbatim>\<open>utf8.ValidString\<close> has it: no overlong form, no surrogate, nothing beyond U+10FFFF.\<close>

definition byte_in :: "nat \<Rightarrow> nat \<Rightarrow> char \<Rightarrow> bool" where
  "byte_in lo hi c = (lo \<le> of_char c \<and> of_char c \<le> hi)"

fun utf8_valid :: "string \<Rightarrow> bool" where
  "utf8_valid [] = True"
| "utf8_valid (a # s) =
    (if byte_in 0 127 a then utf8_valid s
     else (case s of [] \<Rightarrow> False
       | b # s1 \<Rightarrow>
           if byte_in 194 223 a then byte_in 128 191 b \<and> utf8_valid s1
           else (case s1 of [] \<Rightarrow> False
             | c # s2 \<Rightarrow>
                 if byte_in 224 239 a then
                   byte_in (if byte_in 224 224 a then 160 else 128) (if byte_in 237 237 a then 159 else 191) b \<and>
                   byte_in 128 191 c \<and> utf8_valid s2
                 else (case s2 of [] \<Rightarrow> False
                   | d # s3 \<Rightarrow> byte_in 240 244 a \<and>
                       byte_in (if byte_in 240 240 a then 144 else 128) (if byte_in 244 244 a then 143 else 191) b \<and>
                       byte_in 128 191 c \<and> byte_in 128 191 d \<and> utf8_valid s3))))"

text \<open>
  \<^verbatim>\<open>encoding/json\<close> writes each byte that starts no character as U+FFFD. The shortest well-formed prefix is the first
  character.
\<close>

definition utf8_head :: "string \<Rightarrow> nat option" where
  "utf8_head s = find (\<lambda>n. n \<le> length s \<and> utf8_valid (take n s)) [1, 2, 3, 4]"

lemma utf8_head_pos: "utf8_head s = Some n \<Longrightarrow> 0 < n"
  by (simp add: utf8_head_def split: if_splits)

function to_valid_utf8 :: "string \<Rightarrow> string" where
  "to_valid_utf8 s = (if s = [] then [] else case utf8_head s of
     Some n \<Rightarrow> take n s @ to_valid_utf8 (drop n s)
   | None \<Rightarrow> [char_of (239::nat), char_of (191::nat), char_of (189::nat)] @ to_valid_utf8 (tl s))"
  by pat_completeness auto
termination by (relation "measure length") (auto dest: utf8_head_pos)

declare to_valid_utf8.simps [simp del]

lemma utf8_head_valid:
  assumes "utf8_valid s" "s \<noteq> []"
  shows "\<exists>n. utf8_head s = Some n \<and> 0 < n \<and> utf8_valid (drop n s)"
proof -
  obtain a t where s: "s = a # t" using assms(2) by (cases s) auto
  show ?thesis
  proof (cases "byte_in 0 127 a")
    case True
    with assms(1) s show ?thesis by (simp add: utf8_head_def)
  next
    case na: False
    with assms(1) s obtain b s1 where t: "t = b # s1" by (cases t) auto
    show ?thesis
    proof (cases "byte_in 194 223 a")
      case True
      with assms(1) s t na show ?thesis by (simp add: utf8_head_def)
    next
      case nb: False
      with assms(1) s t na obtain c s2 where s1: "s1 = c # s2" by (cases s1) auto
      show ?thesis
      proof (cases "byte_in 224 239 a")
        case True
        with assms(1) s t s1 na nb show ?thesis by (simp add: utf8_head_def eval_nat_numeral)
      next
        case nc: False
        with assms(1) s t s1 na nb obtain d s3 where s2: "s2 = d # s3" by (cases s2) auto
        with assms(1) s t s1 na nb nc show ?thesis by (simp add: utf8_head_def eval_nat_numeral)
      qed
    qed
  qed
qed

lemma to_valid_utf8_id [simp]: "utf8_valid s \<Longrightarrow> to_valid_utf8 s = s"
proof (induction s rule: length_induct)
  case (1 s)
  show ?case
  proof (cases "s = []")
    case False
    from utf8_head_valid[OF 1(2) this] obtain n where n: "utf8_head s = Some n" "0 < n" "utf8_valid (drop n s)" by blast
    with 1(1) False have "to_valid_utf8 (drop n s) = drop n s" by simp
    with n(1) False show ?thesis by (subst to_valid_utf8.simps) simp
  qed (simp add: to_valid_utf8.simps)
qed

section \<open>Searching\<close>

fun Contains :: "string \<Rightarrow> string \<Rightarrow> bool" where
  "Contains [] sub = (sub = [])"
| "Contains (c # cs) sub = (prefix sub (c # cs) \<or> Contains cs sub)"

abbreviation HasPrefix :: "string \<Rightarrow> string \<Rightarrow> bool" where
  "HasPrefix s p \<equiv> prefix p s"

abbreviation HasSuffix :: "string \<Rightarrow> string \<Rightarrow> bool" where
  "HasSuffix s p \<equiv> suffix p s"

text \<open>\<^verbatim>\<open>strings.Index\<close>: the first position at which \<open>sub\<close> occurs, \<open>None\<close> for \<open>-1\<close>.\<close>

fun IndexStr :: "string \<Rightarrow> string \<Rightarrow> nat option" where
  "IndexStr [] sub = (if sub = [] then Some 0 else None)"
| "IndexStr (c # cs) sub =
     (if prefix sub (c # cs) then Some 0 else map_option Suc (IndexStr cs sub))"

definition IndexByte :: "string \<Rightarrow> char \<Rightarrow> nat option" where
  "IndexByte s c = (if c \<in> set s then Some (length (takeWhile (\<lambda>x. x \<noteq> c) s)) else None)"

definition LastIndexByte :: "string \<Rightarrow> char \<Rightarrow> nat option" where
  "LastIndexByte s c =
     (if c \<in> set s then Some (length s - Suc (length (takeWhile (\<lambda>x. x \<noteq> c) (rev s)))) else None)"

text \<open>\<^verbatim>\<open>strings.Split\<close> with a one-byte separator: never the empty list.\<close>

fun SplitByte :: "char \<Rightarrow> string \<Rightarrow> string list" where
  "SplitByte sep [] = [[]]"
| "SplitByte sep (c # cs) =
     (if c = sep then [] # SplitByte sep cs
      else (case SplitByte sep cs of [] \<Rightarrow> [[c]] | p # ps \<Rightarrow> (c # p) # ps))"

section \<open>Case folding\<close>

definition lower_char :: "char \<Rightarrow> char" where
  "lower_char c =
     (if 65 \<le> (of_char c :: nat) \<and> (of_char c :: nat) \<le> 90 then char_of ((of_char c :: nat) + 32) else c)"

definition ToLower :: "string \<Rightarrow> string" where
  "ToLower s = map lower_char s"

definition EqualFold :: "string \<Rightarrow> string \<Rightarrow> bool" where
  "EqualFold s t \<longleftrightarrow> ToLower s = ToLower t"

section \<open>Paths\<close>

definition path_Base :: "string \<Rightarrow> string" where
  "path_Base p =
     (if p = [] then ''.''
      else let q = rev (dropWhile (\<lambda>c. c = SLASH) (rev p))
           in if q = [] then ''/'' else rev (takeWhile (\<lambda>c. c \<noteq> SLASH) (rev q)))"

text \<open>
  \<^verbatim>\<open>filepath.Clean\<close>: empty and \<open>.\<close> elements go, an inner \<open>..\<close> removes the element before
  it, a \<open>..\<close> at the root goes, leading \<open>..\<close> of a relative path stay, the empty result is \<open>.\<close>.
\<close>

fun clean_elems :: "bool \<Rightarrow> string list \<Rightarrow> string list \<Rightarrow> string list" where
  "clean_elems rooted out [] = rev out"
| "clean_elems rooted out (e # es) =
     (if e = [] \<or> e = ''.'' then clean_elems rooted out es
      else if e = ''..'' then
        (case out of
           [] \<Rightarrow> if rooted then clean_elems rooted [] es else clean_elems rooted [''..''] es
         | o1 # out' \<Rightarrow>
             if o1 = ''..'' then clean_elems rooted (''..'' # out) es
             else clean_elems rooted out' es)
      else clean_elems rooted (e # out) es)"

fun join_with :: "string \<Rightarrow> string list \<Rightarrow> string" where
  "join_with sep [] = []"
| "join_with sep [x] = x"
| "join_with sep (x # y # ys) = x @ sep @ join_with sep (y # ys)"

definition path_IsAbs :: "string \<Rightarrow> bool" where
  "path_IsAbs p = HasPrefix p ''/''"

definition path_Clean :: "string \<Rightarrow> string" where
  "path_Clean p =
     (if p = [] then ''.''
      else let rooted = path_IsAbs p;
               body = join_with ''/'' (clean_elems rooted [] (SplitByte SLASH p))
           in if rooted then SLASH # body else if body = [] then ''.'' else body)"

section \<open>Facts\<close>

lemma Contains_sublist [go_strings]: "Contains s sub \<longleftrightarrow> sublist sub s"
  by (induction s) (auto simp: sublist_Cons_right)

lemma trim_with_id: "\<forall>w\<in>set ws. w \<noteq> [] \<longrightarrow> \<not> prefix w s \<Longrightarrow> trim_with ws s = s"
  by (subst trim_with.simps) (auto split: option.splits dest: find_Some_mem)

lemma trim_with_no_more: "w \<in> set ws \<Longrightarrow> w \<noteq> [] \<Longrightarrow> \<not> prefix w (trim_with ws s)"
proof (induction ws s rule: trim_with.induct)
  case (1 ws s)
  show ?case
  proof (cases "find (\<lambda>w. w \<noteq> [] \<and> prefix w s) ws")
    case None
    then have "trim_with ws s = s" by (subst trim_with.simps) simp
    with None 1(2,3) show ?thesis by (auto simp: find_None_iff_all)
  next
    case (Some w')
    then have "trim_with ws s = trim_with ws (drop (length w') s)"
      by (subst trim_with.simps) simp
    with 1(1)[OF Some 1(2,3)] show ?thesis by simp
  qed
qed

lemma trim_with_idem: "trim_with ws (trim_with ws s) = trim_with ws s"
  by (rule trim_with_id) (auto dest: trim_with_no_more)

lemma trim_with_first:
  assumes "\<forall>w\<in>set ws. w \<noteq> [] \<longrightarrow> hd w \<noteq> c"
  shows "trim_with ws (c # cs) = c # cs"
  using assms by (auto intro!: trim_with_id dest: prefix_hd)

text \<open>A string delimited by printable ASCII bytes is left alone by \<open>TrimSpace\<close>.\<close>

definition space_edge :: "char \<Rightarrow> bool" where
  "space_edge c \<longleftrightarrow> (\<exists>w\<in>set go_spaces. hd w = c \<or> last w = c)"

lemma TrimSpace_delimited:
  assumes "\<not> space_edge a" "\<not> space_edge b"
  shows "TrimSpace (a # s @ [b]) = a # s @ [b]"
proof -
  have "TrimLeft (a # s @ [b]) = a # s @ [b]"
    unfolding TrimLeft_def using assms(1)
    by (intro trim_with_first) (auto simp: space_edge_def)
  moreover have "\<forall>w\<in>set (map rev go_spaces). w \<noteq> [] \<longrightarrow> hd w \<noteq> b"
    using assms(2) by (auto simp: space_edge_def hd_rev)
  then have "trim_with (map rev go_spaces) (b # rev s @ [a]) = b # rev s @ [a]"
    by (rule trim_with_first)
  ultimately show ?thesis by (simp add: TrimSpace_def TrimRight_def)
qed

lemma path_Base_no_slash [go_strings]:
  assumes "p \<noteq> []" and "SLASH \<notin> set p"
  shows "path_Base p = p"
proof -
  have d: "dropWhile (\<lambda>c. c = SLASH) (rev p) = rev p"
    using assms by (cases p rule: rev_cases) auto
  have "\<forall>x\<in>set (rev p). x \<noteq> SLASH" using assms(2) by auto
  then have t: "takeWhile (\<lambda>c. c \<noteq> SLASH) (rev p) = rev p"
    by (rule takeWhile_eq_all_conv [THEN iffD2])
  have "path_Base p = rev (takeWhile (\<lambda>c. c \<noteq> SLASH) (rev p))"
    using assms(1) by (simp add: path_Base_def Let_def d)
  also have "\<dots> = p" by (subst t) simp
  finally show ?thesis .
qed

lemma SplitByte_ne [simp]: "SplitByte sep s \<noteq> []"
  by (induction s) (auto split: list.splits)

lemma SplitByte_no_sep: "p \<in> set (SplitByte sep s) \<Longrightarrow> sep \<notin> set p"
  by (induction s arbitrary: p) (auto split: list.splits if_splits)

text \<open>Trimming keeps every part of the text that has no byte of a space in it.\<close>

lemma trim_with_split: "\<exists>l. s = l @ trim_with ws s \<and> set l \<subseteq> \<Union> (set ` set ws)"
proof (induction ws s rule: trim_with.induct)
  case (1 ws s)
  show ?case
  proof (cases "find (\<lambda>w. w \<noteq> [] \<and> prefix w s) ws")
    case None
    then show ?thesis by (subst trim_with.simps) simp
  next
    case (Some w)
    then have w: "w \<in> set ws" "prefix w s" by (auto dest: find_Some_mem)
    from 1[OF Some] obtain l where l: "drop (length w) s = l @ trim_with ws (drop (length w) s)" "set l \<subseteq> \<Union> (set ` set ws)" by blast
    have "s = w @ drop (length w) s" using w(2) by (auto simp: prefix_def)
    with l(1) have "s = (w @ l) @ trim_with ws (drop (length w) s)" by simp
    moreover have "trim_with ws s = trim_with ws (drop (length w) s)" by (subst trim_with.simps) (simp add: Some)
    moreover have "set (w @ l) \<subseteq> \<Union> (set ` set ws)" using w(1) l(2) by auto
    ultimately show ?thesis by metis
  qed
qed

lemma sublist_skip:
  assumes "sublist w (l @ m)" "w \<noteq> []" "set w \<inter> set l = {}"
  shows "sublist w m"
proof -
  from assms(1) consider "sublist w l" | "sublist w m" | a b where "w = a @ b" "suffix a l" "prefix b m"
    by (auto simp: sublist_append)
  then show ?thesis
  proof cases
    case 1
    then have "set w \<subseteq> set l" by (rule set_mono_sublist)
    then have "set w \<inter> set l = set w" by (rule inf.absorb1)
    with assms(2,3) show ?thesis by simp
  next
    case 2
    then show ?thesis .
  next
    case (3 a b)
    have "set a \<subseteq> set l" using 3(2) by (rule set_mono_suffix)
    with 3(1) assms(3) have "a = []" by (cases a) auto
    with 3 show ?thesis by simp
  qed
qed

lemma TrimSpace_keeps_sublist:
  assumes "sublist w s" "w \<noteq> []" "set w \<inter> \<Union> (set ` set go_spaces) = {}"
  shows "sublist w (TrimSpace s)"
proof -
  obtain l where l: "s = l @ TrimLeft s" "set l \<subseteq> \<Union> (set ` set go_spaces)"
    using trim_with_split[of s go_spaces] by (auto simp: TrimLeft_def)
  then have 1: "sublist w (TrimLeft s)" using assms sublist_skip[of w l "TrimLeft s"] by auto
  let ?t = "trim_with (map rev go_spaces) (rev (TrimLeft s))"
  obtain r where r: "rev (TrimLeft s) = r @ ?t" "set r \<subseteq> \<Union> (set ` set go_spaces)"
    using trim_with_split[of "rev (TrimLeft s)" "map rev go_spaces"] by auto
  from 1 have "sublist (rev w) (r @ ?t)" using r(1) by (metis sublist_rev)
  moreover have "set (rev w) \<inter> set r = {}" using assms(3) r(2) by auto
  ultimately have "sublist (rev w) ?t" using assms(2) sublist_skip[of "rev w" r ?t] by simp
  then have "sublist (rev (rev w)) (rev ?t)" by (simp only: sublist_rev)
  then show ?thesis by (simp add: TrimSpace_def TrimRight_def)
qed

end
