(* ===== verification/Cmd_Parse.thy ===== *)
theory Cmd_Parse
  imports Go_Strings
begin

text \<open>
  The command tokenizer of the edge agent, \<^verbatim>\<open>internal/edgeagent/cmdpolicy/parse.go\<close>:
  \<open>readQuoted\<close>, \<open>tokenize\<close>, \<open>SplitPipes\<close> and \<open>ParseSegment\<close>. The position in the rune
  slice is the list of the runes still to read. The parallel slices \<^verbatim>\<open>tokens\<close> and
  \<^verbatim>\<open>breaks\<close> are one list of pairs. Each error message of the source is a constructor
  of \<open>parse_error\<close>.

  The lemmas show that a parsed pipeline is well formed, that no unquoted shell
  metacharacter survives, and that every pipeline can be written so that it parses back
  to itself.
\<close>

section \<open>The tokenizer\<close>

datatype parse_error =
    EmptyCommand | EmptyPipeSegment | EmptyTrailingSegment | NoSegments
  | EmptySegment | PipeInSegment | NoTokens
  | OrForbidden | AmpForbidden | SemicolonForbidden | RedirectForbidden char
  | BacktickForbidden | CmdSubstForbidden | ParamExpansionForbidden | ParenForbidden char
  | TrailingBackslash | SubstInString | BacktickInString | Unterminated char

text \<open>Whether the next rune exists and is one of \<open>cs\<close> (\<^verbatim>\<open>i+1 < len(runes) && runes[i+1] == c\<close>).\<close>

fun peek :: "string \<Rightarrow> string \<Rightarrow> bool" where
  "peek [] cs = False"
| "peek (n # rs) cs = (n \<in> set cs)"

fun readQuoted :: "char \<Rightarrow> string \<Rightarrow> string \<Rightarrow> (parse_error, string \<times> string) result" where
  "readQuoted trm b [] = Err (Unterminated trm)"
| "readQuoted trm b (r # rs) =
     (if r = trm then Ok (b, rs)
      else if trm = DQUOTE \<and> r = BSLASH \<and> rs \<noteq> [] then
        (if peek rs [DQUOTE, BSLASH, CHR ''$'', BTICK]
         then readQuoted trm (b @ [hd rs]) (tl rs)
         else readQuoted trm (b @ [r]) rs)
      else if trm = DQUOTE \<and> r = CHR ''$'' \<and> peek rs ''({'' then Err SubstInString
      else if trm = DQUOTE \<and> r = BTICK then Err BacktickInString
      else readQuoted trm (b @ [r]) rs)"

record scanner =
  toks :: "(string \<times> bool) list"
  buf :: string
  inToken :: bool

definition flush :: "scanner \<Rightarrow> scanner" where
  "flush st =
     (if inToken st then st\<lparr>toks := toks st @ [(buf st, False)], buf := [], inToken := False\<rparr>
      else st)"

definition writeString :: "string \<Rightarrow> scanner \<Rightarrow> scanner" where
  "writeString s st = st\<lparr>buf := buf st @ s, inToken := True\<rparr>"

definition emitPipe :: "scanner \<Rightarrow> scanner" where
  "emitPipe st = (flush st)\<lparr>toks := toks (flush st) @ [(''|'', True)]\<rparr>"

lemma readQuoted_shrinks: "readQuoted q b rs = Ok (s, rest) \<Longrightarrow> length rest < length rs"
  by (induction q b rs rule: readQuoted.induct) (auto split: if_splits)

text \<open>The cases of the scanner's \<^verbatim>\<open>switch r\<close>.\<close>

datatype rune_case =
    CaseSpace | CasePipe | CaseAmp | CaseSemicolon | CaseRedirect | CaseBacktick
  | CaseDollar | CaseParen | CaseBackslash | CaseQuote | CaseDefault

definition rune_switch :: "char \<Rightarrow> rune_case" where
  "rune_switch r =
     (if r = SPACE \<or> r = TAB \<or> r = LF then CaseSpace
      else if r = CHR ''|'' then CasePipe
      else if r = CHR ''&'' then CaseAmp
      else if r = CHR '';'' then CaseSemicolon
      else if r = CHR ''>'' \<or> r = CHR ''<'' then CaseRedirect
      else if r = BTICK then CaseBacktick
      else if r = CHR ''$'' then CaseDollar
      else if r = CHR ''('' \<or> r = CHR '')'' then CaseParen
      else if r = BSLASH then CaseBackslash
      else if r = DQUOTE \<or> r = SQUOTE then CaseQuote
      else CaseDefault)"

function tokenize_loop :: "scanner \<Rightarrow> string \<Rightarrow> (parse_error, (string \<times> bool) list) result" where
  "tokenize_loop st [] = Ok (toks (flush st))"
| "tokenize_loop st (r # rs) =
     (case rune_switch r of
        CaseSpace \<Rightarrow> tokenize_loop (flush st) rs
      | CasePipe \<Rightarrow> if peek rs ''|'' then Err OrForbidden else tokenize_loop (emitPipe st) rs
      | CaseAmp \<Rightarrow> Err AmpForbidden
      | CaseSemicolon \<Rightarrow> Err SemicolonForbidden
      | CaseRedirect \<Rightarrow> Err (RedirectForbidden r)
      | CaseBacktick \<Rightarrow> Err BacktickForbidden
      | CaseDollar \<Rightarrow>
          if peek rs ''('' then Err CmdSubstForbidden
          else if peek rs ''{'' then Err ParamExpansionForbidden
          else tokenize_loop (writeString [r] st) rs
      | CaseParen \<Rightarrow> Err (ParenForbidden r)
      | CaseBackslash \<Rightarrow>
          (case rs of [] \<Rightarrow> Err TrailingBackslash
                    | c # rs' \<Rightarrow> tokenize_loop (writeString [c] st) rs')
      | CaseQuote \<Rightarrow>
          (case readQuoted r [] rs of Err e \<Rightarrow> Err e
             | Ok (s, rest) \<Rightarrow> tokenize_loop (writeString s st) rest)
      | CaseDefault \<Rightarrow> tokenize_loop (writeString [r] st) rs)"
  by pat_completeness auto
termination
  by (relation "measure (\<lambda>(st, rs). length rs)") (auto dest: readQuoted_shrinks)

definition tokenize :: "string \<Rightarrow> (parse_error, (string \<times> bool) list) result" where
  "tokenize s = tokenize_loop \<lparr>toks = [], buf = [], inToken = False\<rparr> s"

text \<open>The loop of \<^verbatim>\<open>SplitPipes\<close> over the tokens, with \<open>segments\<close> and \<open>cur\<close>.\<close>

fun split_segments :: "string list list \<Rightarrow> string list \<Rightarrow> (string \<times> bool) list
    \<Rightarrow> (parse_error, string list list) result" where
  "split_segments segments cur [] =
     (if cur = [] then Err EmptyTrailingSegment
      else if segments @ [cur] = [] then Err NoSegments
      else Ok (segments @ [cur]))"
| "split_segments segments cur ((t, brk) # ts) =
     (if brk then
        (if cur = [] then Err EmptyPipeSegment else split_segments (segments @ [cur]) [] ts)
      else split_segments segments (cur @ [t]) ts)"

definition SplitPipes :: "string \<Rightarrow> (parse_error, string list list) result" where
  "SplitPipes cmd0 =
     (let cmd = TrimSpace cmd0 in
      if cmd = [] then Err EmptyCommand
      else case tokenize cmd of
             Err e \<Rightarrow> Err e
           | Ok ts \<Rightarrow> split_segments [] [] ts)"

definition ParseSegment :: "string \<Rightarrow> (parse_error, string list) result" where
  "ParseSegment seg0 =
     (let seg = TrimSpace seg0 in
      if seg = [] then Err EmptySegment
      else case tokenize seg of
             Err e \<Rightarrow> Err e
           | Ok ts \<Rightarrow>
               if list_ex snd ts then Err PipeInSegment
               else if ts = [] then Err NoTokens
               else Ok (map fst ts))"

section \<open>Specifications\<close>

text \<open>
  What a POSIX shell reads outside quotes: \<open>unquoted None s\<close> are the characters of \<open>s\<close>
  that are neither escaped nor inside a quoted string; \<open>unquoted (Some q) s\<close> starts inside
  a string opened by \<open>q\<close>.
\<close>

fun unquoted :: "char option \<Rightarrow> string \<Rightarrow> string" where
  "unquoted m [] = []"
| "unquoted None (c # cs) =
     (if c = BSLASH then (case cs of [] \<Rightarrow> [] | _ # cs' \<Rightarrow> unquoted None cs')
      else if c = DQUOTE \<or> c = SQUOTE then unquoted (Some c) cs
      else c # unquoted None cs)"
| "unquoted (Some q) (c # cs) =
     (if c = q then unquoted None cs
      else if q = DQUOTE \<and> c = BSLASH then
        (case cs of [] \<Rightarrow> [] | _ # cs' \<Rightarrow> unquoted (Some q) cs')
      else unquoted (Some q) cs)"

definition metachars :: "string" where
  "metachars = ''&;><()'' @ [BTICK]"

text \<open>POSIX single-quote quoting of an argument, and the text of a pipeline.\<close>

definition quote_esc :: "string \<Rightarrow> string" where
  "quote_esc a = concat (map (\<lambda>c. if c = SQUOTE then [SQUOTE, BSLASH, SQUOTE, SQUOTE] else [c]) a)"

definition quote_arg :: "string \<Rightarrow> string" where
  "quote_arg a = SQUOTE # quote_esc a @ [SQUOTE]"

definition render_segment :: "string list \<Rightarrow> string" where
  "render_segment seg = join_with '' '' (map quote_arg seg)"

definition render_pipeline :: "string list list \<Rightarrow> string" where
  "render_pipeline segs = join_with '' | '' (map render_segment segs)"

section \<open>A parsed pipeline is well formed\<close>

lemma split_segments_ne:
  "split_segments segments cur ts = Ok segs \<Longrightarrow> [] \<notin> set segments \<Longrightarrow>
     segs \<noteq> [] \<and> [] \<notin> set segs"
  by (induction segments cur ts rule: split_segments.induct) (auto split: if_splits)

lemma SplitPipes_Ok_tokens:
  assumes "SplitPipes cmd = Ok segs"
  obtains ts where "tokenize (TrimSpace cmd) = Ok ts" "split_segments [] [] ts = Ok segs"
  using assms by (auto simp: SplitPipes_def Let_def split: if_splits sum.splits)

lemma SplitPipes_ne: "SplitPipes cmd = Ok segs \<Longrightarrow> segs \<noteq> [] \<and> [] \<notin> set segs"
  using split_segments_ne[of "[]" "[]"] by (metis SplitPipes_Ok_tokens empty_iff list.set(1))

section \<open>No unquoted metacharacter\<close>

lemma readQuoted_escape:
  assumes "r \<noteq> trm" "trm = DQUOTE" "r = BSLASH"
  shows "readQuoted trm b (r # n # rs) =
    (if n \<in> set [DQUOTE, BSLASH, CHR ''$'', BTICK] then readQuoted trm (b @ [n]) rs
     else readQuoted trm (b @ [r]) (n # rs))"
  using assms by (subst readQuoted.simps) (simp only: peek.simps list.sel if_True if_False simp_thms, simp)

lemma readQuoted_other:
  assumes "r \<noteq> trm" "\<not> (trm = DQUOTE \<and> r = BSLASH \<and> rs \<noteq> [])"
    and "readQuoted trm b (r # rs) = Ok p"
  shows "readQuoted trm (b @ [r]) rs = Ok p"
  using assms by (subst (asm) readQuoted.simps) (auto split: if_splits)

lemma unquoted_escape: "unquoted (Some DQUOTE) (BSLASH # n # rs) = unquoted (Some DQUOTE) rs"
  by simp

lemma unquoted_other:
  "r \<noteq> q \<Longrightarrow> \<not> (q = DQUOTE \<and> r = BSLASH \<and> rs \<noteq> []) \<Longrightarrow>
     unquoted (Some q) (r # rs) = unquoted (Some q) rs"
  by (cases rs) auto

lemma readQuoted_unquoted:
  "readQuoted q b rs = Ok (s, rest) \<Longrightarrow> unquoted (Some q) rs = unquoted None rest"
proof (induction rs arbitrary: b rule: length_induct)
  case (1 rs)
  have IH: "readQuoted q c ys = Ok (s, rest) \<Longrightarrow> unquoted (Some q) ys = unquoted None rest"
    if "length ys < length rs" for c ys
    using 1(1) that by blast
  show ?case
  proof (cases rs)
    case Nil
    with 1 show ?thesis by simp
  next
    case (Cons r rs1)
    show ?thesis
    proof (cases "r = q")
      case True
      with 1 Cons show ?thesis by simp
    next
      case neq: False
      show ?thesis
      proof (cases "q = DQUOTE \<and> r = BSLASH \<and> rs1 \<noteq> []")
        case True
        then obtain n rs2 where rs1: "rs1 = n # rs2" by (cases rs1) auto
        have "readQuoted q (b @ [n]) rs2 = Ok (s, rest) \<or>
              (n \<noteq> DQUOTE \<and> n \<noteq> BSLASH \<and> readQuoted q (b @ [r]) (n # rs2) = Ok (s, rest))"
          using 1(2) neq True unfolding Cons rs1
          by (subst (asm) readQuoted_escape) (auto split: if_splits)
        then have "unquoted (Some q) rs2 = unquoted None rest \<or>
              (n \<noteq> DQUOTE \<and> n \<noteq> BSLASH \<and> unquoted (Some q) (n # rs2) = unquoted None rest)"
          using IH[of rs2 "b @ [n]"] IH[of "n # rs2" "b @ [r]"] unfolding Cons rs1
          by (auto simp del: readQuoted.simps unquoted.simps)
        then have "unquoted (Some q) rs2 = unquoted None rest"
          using True by (auto simp: unquoted_other simp del: unquoted.simps)
        with True show ?thesis unfolding Cons rs1 by (simp only: unquoted_escape)
      next
        case False
        then have "unquoted (Some q) rs = unquoted (Some q) rs1"
          unfolding Cons by (rule unquoted_other[OF neq])
        moreover have "readQuoted q (b @ [r]) rs1 = Ok (s, rest)"
          using 1(2) unfolding Cons by (rule readQuoted_other[OF neq False])
        ultimately show ?thesis using IH[of rs1 "b @ [r]"] by (simp add: Cons)
      qed
    qed
  qed
qed

lemma rune_switch_quote: "rune_switch r = CaseQuote \<Longrightarrow> r = DQUOTE \<or> r = SQUOTE"
  by (auto simp: rune_switch_def split: if_splits)

lemma rune_switch_backslash: "rune_switch r = CaseBackslash \<longleftrightarrow> r = BSLASH"
  by (auto simp: rune_switch_def)

lemma rune_switch_metachar:
  "rune_switch r \<in> {CaseSpace, CasePipe, CaseDollar, CaseDefault} \<Longrightarrow> r \<notin> set metachars"
  by (auto simp: rune_switch_def metachars_def split: if_splits)

lemma unquoted_plain:
  "rune_switch r \<noteq> CaseBackslash \<Longrightarrow> rune_switch r \<noteq> CaseQuote \<Longrightarrow>
     unquoted None (r # rs) = r # unquoted None rs"
  by (auto simp: rune_switch_def)

lemma unquoted_quote:
  "rune_switch r = CaseQuote \<Longrightarrow> unquoted None (r # rs) = unquoted (Some r) rs"
  by (auto dest: rune_switch_quote)

lemma tokenize_loop_metachars:
  "tokenize_loop st rs = Ok ts \<Longrightarrow> set (unquoted None rs) \<inter> set metachars = {}"
proof (induction st rs rule: tokenize_loop.induct)
  case (2 st r rs)
  consider (bs) "rune_switch r = CaseBackslash" | (q) "rune_switch r = CaseQuote"
    | (plain) "rune_switch r \<in> {CaseSpace, CasePipe, CaseDollar, CaseDefault}"
    using "2.prems" by (cases "rune_switch r") auto
  then show ?case
  proof cases
    case bs
    with 2 show ?thesis by (cases rs) (auto simp: rune_switch_backslash)
  next
    case q
    from "2.prems" q obtain s rest where rq: "readQuoted r [] rs = Ok (s, rest)"
      and tl: "tokenize_loop (writeString s st) rest = Ok ts"
      by (auto split: sum.splits)
    from "2.IH"(5)[OF q rq refl tl] show ?thesis
      by (simp only: unquoted_quote[OF q] readQuoted_unquoted[OF rq])
  next
    case plain
    from plain have r: "r \<notin> set metachars" by (rule rune_switch_metachar)
    from plain "2.prems" "2.IH" have "set (unquoted None rs) \<inter> set metachars = {}"
      by (auto split: if_splits)
    with r show ?thesis using plain by (subst unquoted_plain) auto
  qed
qed simp

section \<open>Round trip\<close>

lemma quote_esc_simps [simp]:
  "quote_esc [] = []"
  "quote_esc (c # cs) = (if c = SQUOTE then [SQUOTE, BSLASH, SQUOTE, SQUOTE] else [c]) @ quote_esc cs"
  by (simp_all add: quote_esc_def)

lemma rune_switch_consts [simp]:
  "rune_switch SQUOTE = CaseQuote" "rune_switch BSLASH = CaseBackslash"
  "rune_switch SPACE = CaseSpace" "rune_switch (CHR ''|'') = CasePipe"
  by (simp_all add: rune_switch_def)

lemma readQuoted_single [simp]:
  "readQuoted SQUOTE b (r # rs) = (if r = SQUOTE then Ok (b, rs) else readQuoted SQUOTE (b @ [r]) rs)"
  by simp

lemma writeString_writeString [simp]: "writeString t (writeString s st) = writeString (s @ t) st"
  by (simp add: writeString_def)

lemma tokenize_loop_quoted_tail:
  "(case readQuoted SQUOTE b (quote_esc a @ SQUOTE # rest) of Err e \<Rightarrow> Err e
      | Ok (s, r) \<Rightarrow> tokenize_loop (writeString s st) r)
   = tokenize_loop (writeString (b @ a) st) rest"
  by (induction a arbitrary: b st) (simp_all del: readQuoted.simps)

lemma tokenize_loop_quoted:
  "tokenize_loop st (quote_arg a @ rest) = tokenize_loop (writeString a st) rest"
  using tokenize_loop_quoted_tail[where b = "[]" and a = a and rest = rest and st = st] by (simp add: quote_arg_def del: readQuoted.simps)

definition fresh :: "(string \<times> bool) list \<Rightarrow> scanner" where
  "fresh ts = \<lparr>toks = ts, buf = [], inToken = False\<rparr>"

lemma fresh_simps [simp]:
  "flush (writeString a (fresh ts)) = fresh (ts @ [(a, False)])"
  "flush (fresh ts) = fresh ts"
  "emitPipe (fresh ts) = fresh (ts @ [(''|'', True)])"
  "toks (fresh ts) = ts"
  by (simp_all add: fresh_def flush_def writeString_def emitPipe_def)

lemma tokenize_loop_segment:
  "seg \<noteq> [] \<Longrightarrow> tokenize_loop (fresh ts) (render_segment seg @ SPACE # rest)
     = tokenize_loop (fresh (ts @ map (\<lambda>a. (a, False)) seg)) rest"
  by (induction seg arbitrary: ts rule: induct_list012)
     (simp_all add: render_segment_def tokenize_loop_quoted)

lemma tokenize_loop_last_segment:
  "seg \<noteq> [] \<Longrightarrow> tokenize_loop (fresh ts) (render_segment seg)
     = Ok (ts @ map (\<lambda>a. (a, False)) seg)"
  by (induction seg arbitrary: ts rule: induct_list012)
     (simp_all add: render_segment_def tokenize_loop_quoted tokenize_loop_quoted[where rest = "[]", simplified])

fun token_list :: "string list list \<Rightarrow> (string \<times> bool) list" where
  "token_list [] = []"
| "token_list [seg] = map (\<lambda>a. (a, False)) seg"
| "token_list (seg # seg' # segs) = map (\<lambda>a. (a, False)) seg @ (''|'', True) # token_list (seg' # segs)"

lemma tokenize_loop_pipeline:
  "segs \<noteq> [] \<Longrightarrow> \<forall>seg\<in>set segs. seg \<noteq> [] \<Longrightarrow>
     tokenize_loop (fresh ts) (render_pipeline segs) = Ok (ts @ token_list segs)"
  by (induction segs arbitrary: ts rule: induct_list012)
     (simp_all add: render_pipeline_def tokenize_loop_last_segment tokenize_loop_segment)

lemma split_segments_args:
  "split_segments segments cur (map (\<lambda>a. (a, False)) seg @ ts) = split_segments segments (cur @ seg) ts"
  by (induction seg arbitrary: cur) simp_all

lemma split_segments_token_list:
  "segs \<noteq> [] \<Longrightarrow> \<forall>seg\<in>set segs. seg \<noteq> [] \<Longrightarrow>
     split_segments segments [] (token_list segs) = Ok (segments @ segs)"
  by (induction segs arbitrary: segments rule: induct_list012)
     (simp_all add: split_segments_args split_segments_args[where ts = "[]", simplified])

lemma render_segment_delimited:
  "seg \<noteq> [] \<Longrightarrow> \<exists>s. render_segment seg = SQUOTE # s @ [SQUOTE]"
proof (induction seg rule: induct_list012)
  case (2 x)
  then show ?case by (simp add: render_segment_def quote_arg_def)
next
  case (3 x y zs)
  then obtain s where "render_segment (y # zs) = SQUOTE # s @ [SQUOTE]" by auto
  then show ?case by (simp add: render_segment_def quote_arg_def)
qed simp

lemma render_pipeline_delimited:
  "segs \<noteq> [] \<Longrightarrow> \<forall>seg\<in>set segs. seg \<noteq> [] \<Longrightarrow> \<exists>s. render_pipeline segs = SQUOTE # s @ [SQUOTE]"
proof (induction segs rule: induct_list012)
  case (2 x)
  then show ?case using render_segment_delimited[of x] by (simp add: render_pipeline_def)
next
  case (3 x y zs)
  then obtain s where s: "render_pipeline (y # zs) = SQUOTE # s @ [SQUOTE]" by auto
  from 3 obtain t where "render_segment x = SQUOTE # t @ [SQUOTE]"
    using render_segment_delimited[of x] by auto
  with s show ?case by (simp add: render_pipeline_def)
qed simp

lemma squote_not_space: "\<not> space_edge SQUOTE"
  by (simp add: space_edge_def go_spaces_def)

lemma SplitPipes_render:
  assumes "segs \<noteq> []" "\<forall>seg\<in>set segs. seg \<noteq> []"
  shows "SplitPipes (render_pipeline segs) = Ok segs"
proof -
  obtain s where "render_pipeline segs = SQUOTE # s @ [SQUOTE]"
    using render_pipeline_delimited[OF assms] by blast
  then have trim: "TrimSpace (render_pipeline segs) = render_pipeline segs"
    and ne: "render_pipeline segs \<noteq> []"
    by (simp_all add: TrimSpace_delimited squote_not_space)
  have "tokenize (render_pipeline segs) = Ok (token_list segs)"
    using tokenize_loop_pipeline[OF assms, of "[]"] by (simp add: tokenize_def fresh_def)
  then show ?thesis
    using split_segments_token_list[OF assms, of "[]"] by (simp add: SplitPipes_def trim ne)
qed

section \<open>Properties\<close>

text \<open>
  Quoting and parsing are inverse: every non-empty pipeline of non-empty argument
  vectors, whatever bytes its arguments hold, is what \<open>SplitPipes\<close> returns for its
  POSIX-quoted text.
\<close>

theorem split_pipes_roundtrip:
  "segs \<noteq> [] \<Longrightarrow> [] \<notin> set segs \<Longrightarrow> SplitPipes (render_pipeline segs) = Ok segs"
  by (rule SplitPipes_render) auto

theorem split_pipes_roundtrip_witness:
  "SplitPipes (render_pipeline [[''grep'', ''it'' @ [SQUOTE] @ ''s | done''], [''wc'', []]])
     = Ok [[''grep'', ''it'' @ [SQUOTE] @ ''s | done''], [''wc'', []]]"
  by (rule split_pipes_roundtrip) simp_all

text \<open>
  A command that parses has no shell metacharacter outside quotes (no separator,
  background job, redirection, sub-shell or command substitution a POSIX shell could
  act on), has at least one segment, and every segment has a binary.
\<close>

theorem split_pipes_no_metachars:
  assumes "SplitPipes cmd = Ok segs"
  shows "set (unquoted None (TrimSpace cmd)) \<inter> set metachars = {}
    \<and> segs \<noteq> [] \<and> (\<forall>argv\<in>set segs. argv \<noteq> [])"
proof -
  obtain ts where ts: "tokenize (TrimSpace cmd) = Ok ts" "split_segments [] [] ts = Ok segs"
    using assms by (rule SplitPipes_Ok_tokens)
  from ts(1) have "set (unquoted None (TrimSpace cmd)) \<inter> set metachars = {}"
    unfolding tokenize_def by (rule tokenize_loop_metachars)
  moreover from ts(2) have "segs \<noteq> [] \<and> [] \<notin> set segs" by (rule split_segments_ne) simp
  ultimately show ?thesis by auto
qed

theorem split_pipes_no_metachars_witness:
  "SplitPipes ''ps aux | grep init'' = Ok [[''ps'', ''aux''], [''grep'', ''init'']] \<and>
   set (unquoted None (TrimSpace ''ps aux | grep init'')) \<inter> set metachars = {}"
proof -
  have run: "SplitPipes ''ps aux | grep init'' = Ok [[''ps'', ''aux''], [''grep'', ''init'']]"
    by code_simp
  from split_pipes_no_metachars[OF run] run show ?thesis by simp
qed

end
