(* ===== verification/Cmd_Policy.thy ===== *)
theory Cmd_Policy
  imports Cmd_Parse
begin

text \<open>
  The command policy of the edge agent: \<^verbatim>\<open>internal/edgeagent/cmdpolicy/types.go\<close> and
  the rules of \<^verbatim>\<open>policy.go\<close> (the baseline table of \<^verbatim>\<open>DefaultReadOnly\<close> is in
  \<open>Cmd_Baseline\<close>).

  The class of a binary is the string the source stores, since a \<^verbatim>\<open>BinaryClass\<close> holds
  any string. The map \<^verbatim>\<open>bins\<close> from basenames to policies is a HOL map. Each message of a
  \<^verbatim>\<open>Decision.Reason\<close> is a constructor of \<open>reason\<close>, whose type parameter is the error
  of the path validator. The YAML reader is not code of the repository: \<open>LoadFromYAML\<close>
  takes the outcome of reading and of decoding the file. \<^verbatim>\<open>exec.LookPath\<close> depends on the
  host and is the parameter \<open>LookPath\<close>.
\<close>

section \<open>Data\<close>

type_synonym BinaryClass = string

definition ClassReadFS :: BinaryClass where "ClassReadFS = ''read-fs''"
definition ClassReadSystem :: BinaryClass where "ClassReadSystem = ''read-system''"
definition ClassMixed :: BinaryClass where "ClassMixed = ''mixed''"
definition ClassNetwork :: BinaryClass where "ClassNetwork = ''network''"
definition ClassDenied :: BinaryClass where "ClassDenied = ''denied''"

lemmas class_defs = ClassReadFS_def ClassReadSystem_def ClassMixed_def ClassNetwork_def ClassDenied_def

lemma class_distinct [simp]:
  "ClassReadFS \<noteq> ClassReadSystem" "ClassReadSystem \<noteq> ClassReadFS"
  "ClassReadFS \<noteq> ClassMixed" "ClassMixed \<noteq> ClassReadFS"
  "ClassReadFS \<noteq> ClassNetwork" "ClassNetwork \<noteq> ClassReadFS"
  "ClassReadFS \<noteq> ClassDenied" "ClassDenied \<noteq> ClassReadFS"
  "ClassReadSystem \<noteq> ClassMixed" "ClassMixed \<noteq> ClassReadSystem"
  "ClassReadSystem \<noteq> ClassNetwork" "ClassNetwork \<noteq> ClassReadSystem"
  "ClassReadSystem \<noteq> ClassDenied" "ClassDenied \<noteq> ClassReadSystem"
  "ClassMixed \<noteq> ClassNetwork" "ClassNetwork \<noteq> ClassMixed"
  "ClassMixed \<noteq> ClassDenied" "ClassDenied \<noteq> ClassMixed"
  "ClassNetwork \<noteq> ClassDenied" "ClassDenied \<noteq> ClassNetwork"
  by (simp_all add: class_defs)

record ArgMatcher =
  AnyFlag :: "string list"
  Subcmd :: string
  SubcmdPath :: "string list"

record BinaryPolicy =
  Bin :: string
  AbsPath :: string
  Class :: BinaryClass
  ReadOnlyMatchers :: "ArgMatcher list"
  WriteMatchers :: "ArgMatcher list"
  DeniedArgs :: "string list"

record Policy =
  bins :: "string \<rightharpoonup> BinaryPolicy"
  NetworkHostAllowlist :: "string list"
  StdoutCap :: int
  StderrCap :: int
  Timeout :: int
  MaxArgs :: int
  PathAllowlist :: "string list"

datatype 'p reason =
    NoReason
  | ParseFailed parse_error
  | TooManyArgs nat nat int
  | EmptyArgv
  | NotInPolicy string
  | InDeniedClass string
  | NotInstalled string
  | DeniedArg string string string
  | MountForm
  | KillSignal
  | WriteRule string
  | NoReadOnlyForm string
  | UnknownClass string BinaryClass
  | SandboxNotConfigured
  | PathRejected nat nat 'p
  | NetworkRejected nat string

record 'p Decision =
  Allow :: bool
  Reason :: "'p reason"
  Segments :: "string list list"

text \<open>A Go \<^verbatim>\<open>int\<close> product in 64 bits.\<close>

definition mul_int64 :: "int \<Rightarrow> int \<Rightarrow> int" where
  "mul_int64 a b = signed_take_bit 63 (a * b)"

definition Second :: int where "Second = 1000000000"

definition defaultStdoutCap :: int where "defaultStdoutCap = 64 * 1024"
definition defaultStderrCap :: int where "defaultStderrCap = 16 * 1024"
definition defaultTimeout :: int where "defaultTimeout = 30 * Second"
definition defaultMaxArgs :: int where "defaultMaxArgs = 32"

section \<open>The table of binaries\<close>

definition addBin :: "Policy \<Rightarrow> BinaryPolicy \<Rightarrow> Policy" where
  "addBin p bp = p\<lparr>bins := (bins p)(Bin bp \<mapsto> bp)\<rparr>"

definition Lookup :: "Policy option \<Rightarrow> string \<Rightarrow> BinaryPolicy option" where
  "Lookup po bin = (case po of None \<Rightarrow> None | Some p \<Rightarrow> bins p (path_Base bin))"

definition bin_prefixes :: "string list" where
  "bin_prefixes = [''/usr/bin'', ''/bin'', ''/usr/sbin'', ''/sbin'', ''/usr/local/bin'']"

text \<open>\<^verbatim>\<open>filepath.Join\<close> of two elements.\<close>

definition path_Join2 :: "string \<Rightarrow> string \<Rightarrow> string" where
  "path_Join2 a b =
     (if a = [] \<and> b = [] then []
      else if a = [] then path_Clean b
      else if b = [] then path_Clean a
      else path_Clean (a @ [SLASH] @ b))"

definition discoverBin :: "(string \<Rightarrow> string option) \<Rightarrow> string \<Rightarrow> string" where
  "discoverBin LookPath name =
     (case LookPath name of
        Some absp \<Rightarrow> absp
      | None \<Rightarrow>
          (case find (\<lambda>c. LookPath c \<noteq> None) (map (\<lambda>pre. path_Join2 pre name) bin_prefixes) of
             Some candidate \<Rightarrow> candidate
           | None \<Rightarrow> []))"

section \<open>The YAML override\<close>

record yamlMatcher =
  any_flag :: "string list"
  subcmd :: string
  subcmd_path :: "string list"

record yamlBinary =
  y_name :: string
  y_class :: string
  read_only_matchers :: "yamlMatcher list"
  write_matchers :: "yamlMatcher list"
  denied_args :: "string list"

text \<open>A list that YAML may leave out is an option (\<^verbatim>\<open>nil\<close> is \<open>None\<close>).\<close>

record yamlPolicy =
  binaries :: "yamlBinary list"
  network_host_allowlist :: "string list option"
  stdout_cap_bytes :: int
  stderr_cap_bytes :: int
  timeout_seconds :: int
  max_argv_length :: int
  path_allowlist :: "string list option"

datatype yaml_error =
    YamlRead string | YamlParse string | EmptyName string | InvalidClass string string string

definition validClass :: "BinaryClass \<Rightarrow> bool" where
  "validClass c \<longleftrightarrow> c \<in> {ClassReadFS, ClassReadSystem, ClassMixed, ClassNetwork, ClassDenied}"

definition convertMatchers :: "yamlMatcher list \<Rightarrow> ArgMatcher list" where
  "convertMatchers ms =
     map (\<lambda>m. \<lparr>AnyFlag = any_flag m, Subcmd = subcmd m, SubcmdPath = subcmd_path m\<rparr>) ms"

definition clonePolicy :: "Policy option \<Rightarrow> Policy" where
  "clonePolicy base =
     (case base of
        None \<Rightarrow> \<lparr>bins = Map.empty, NetworkHostAllowlist = [], StdoutCap = defaultStdoutCap,
                 StderrCap = defaultStderrCap, Timeout = defaultTimeout, MaxArgs = defaultMaxArgs,
                 PathAllowlist = []\<rparr>
      | Some p \<Rightarrow> \<lparr>bins = bins p, NetworkHostAllowlist = NetworkHostAllowlist p,
                   StdoutCap = StdoutCap p, StderrCap = StderrCap p, Timeout = Timeout p,
                   MaxArgs = MaxArgs p, PathAllowlist = PathAllowlist p\<rparr>)"

definition yaml_bin :: "(string \<Rightarrow> string option) \<Rightarrow> yamlBinary \<Rightarrow> BinaryPolicy" where
  "yaml_bin LookPath b =
     (let cls = TrimSpace (y_class b)
      in \<lparr>Bin = y_name b,
          AbsPath = (if cls \<noteq> ClassDenied then discoverBin LookPath (y_name b) else []),
          Class = cls,
          ReadOnlyMatchers = convertMatchers (read_only_matchers b),
          WriteMatchers = convertMatchers (write_matchers b),
          DeniedArgs = denied_args b\<rparr>)"

fun merge_bins :: "(string \<Rightarrow> string option) \<Rightarrow> string \<Rightarrow> Policy \<Rightarrow> yamlBinary list
    \<Rightarrow> (yaml_error, Policy) result" where
  "merge_bins LookPath path out [] = Ok out"
| "merge_bins LookPath path out (b # bs) =
     (if TrimSpace (y_name b) = [] then Err (EmptyName path)
      else if \<not> validClass (TrimSpace (y_class b)) then Err (InvalidClass path (y_name b) (y_class b))
      else merge_bins LookPath path (addBin out (yaml_bin LookPath b)) bs)"

definition merge_settings :: "yamlPolicy \<Rightarrow> Policy \<Rightarrow> Policy" where
  "merge_settings raw out =
     out\<lparr>NetworkHostAllowlist :=
           (case network_host_allowlist raw of Some l \<Rightarrow> l | None \<Rightarrow> NetworkHostAllowlist out),
         PathAllowlist := (case path_allowlist raw of Some l \<Rightarrow> l | None \<Rightarrow> PathAllowlist out),
         StdoutCap := (if stdout_cap_bytes raw > 0 then stdout_cap_bytes raw else StdoutCap out),
         StderrCap := (if stderr_cap_bytes raw > 0 then stderr_cap_bytes raw else StderrCap out),
         Timeout := (if timeout_seconds raw > 0 then mul_int64 (timeout_seconds raw) Second
                     else Timeout out),
         MaxArgs := (if max_argv_length raw > 0 then max_argv_length raw else MaxArgs out)\<rparr>"

text \<open>
  \<open>file\<close> is what \<^verbatim>\<open>os.ReadFile\<close> and \<^verbatim>\<open>yaml.Unmarshal\<close> make of the file: \<open>None\<close> when
  reading fails, \<open>Some None\<close> when decoding fails, \<open>Some (Some raw)\<close> otherwise.
\<close>

definition LoadFromYAML :: "(string \<Rightarrow> string option) \<Rightarrow> string \<Rightarrow> yamlPolicy option option
    \<Rightarrow> Policy option \<Rightarrow> (yaml_error, Policy) result" where
  "LoadFromYAML LookPath path file base =
     (case file of
        None \<Rightarrow> Err (YamlRead path)
      | Some None \<Rightarrow> Err (YamlParse path)
      | Some (Some raw) \<Rightarrow>
          (case merge_bins LookPath path (clonePolicy base) (binaries raw) of
             Err e \<Rightarrow> Err e
           | Ok out \<Rightarrow> Ok (merge_settings raw out)))"

section \<open>Matchers\<close>

fun hasAnyFlag :: "string list \<Rightarrow> string list \<Rightarrow> bool" where
  "hasAnyFlag [] flags = False"
| "hasAnyFlag (a # argv) flags = (list_ex (\<lambda>f. a = f) flags \<or> hasAnyFlag argv flags)"

definition hasSubcmdPath :: "string list \<Rightarrow> string list \<Rightarrow> bool" where
  "hasSubcmdPath argv want =
     (if length argv < length want then False
      else list_all (\<lambda>i. argv ! i = want ! i) [0..<length want])"

definition matcherHits :: "string list \<Rightarrow> ArgMatcher \<Rightarrow> bool" where
  "matcherHits argv m =
     (if AnyFlag m = [] \<and> Subcmd m = [] \<and> SubcmdPath m = [] then True
      else if AnyFlag m \<noteq> [] \<and> hasAnyFlag argv (AnyFlag m) then True
      else if Subcmd m \<noteq> [] \<and> argv \<noteq> [] \<and> hd argv = Subcmd m then True
      else if SubcmdPath m \<noteq> [] \<and> hasSubcmdPath argv (SubcmdPath m) then True
      else False)"

definition matcherListMatches :: "string list \<Rightarrow> ArgMatcher list \<Rightarrow> bool" where
  "matcherListMatches argv matchers = list_ex (matcherHits argv) matchers"

definition countAbsolutePaths :: "string list \<Rightarrow> nat" where
  "countAbsolutePaths argv = length (filter (\<lambda>a. HasPrefix a ''/'') argv)"

section \<open>Decisions\<close>

definition allow_decision :: "'p Decision" where
  "allow_decision = \<lparr>Allow = True, Reason = NoReason, Segments = []\<rparr>"

definition reject :: "'p reason \<Rightarrow> 'p Decision" where
  "reject r = \<lparr>Allow = False, Reason = r, Segments = []\<rparr>"

text \<open>The first denied token, in the order of \<^verbatim>\<open>DeniedArgs\<close>, with the first argument that holds it.\<close>

definition denied_hit :: "string list \<Rightarrow> string list \<Rightarrow> (string \<times> string) option" where
  "denied_hit denied rest =
     find (\<lambda>(d, a). Contains a d) (concat (map (\<lambda>d. map (\<lambda>a. (d, a)) rest) denied))"

definition decide_class :: "string \<Rightarrow> BinaryPolicy \<Rightarrow> string list \<Rightarrow> 'p Decision" where
  "decide_class bin bp rest =
     (if Class bp = ClassReadFS \<or> Class bp = ClassReadSystem then allow_decision
      else if Class bp = ClassMixed then
        (if bin = ''mount'' \<and> countAbsolutePaths rest \<ge> 2 then reject MountForm
         else if bin = ''kill'' then
           (if hasAnyFlag rest [''-l'', ''-L''] then allow_decision else reject KillSignal)
         else if matcherListMatches rest (WriteMatchers bp) then reject (WriteRule bin)
         else if matcherListMatches rest (ReadOnlyMatchers bp) then allow_decision
         else reject (NoReadOnlyForm bin))
      else if Class bp = ClassNetwork then
        (if matcherListMatches rest (WriteMatchers bp) then reject (WriteRule bin)
         else allow_decision)
      else reject (UnknownClass bin (Class bp)))"

definition decideSegment :: "Policy \<Rightarrow> string list \<Rightarrow> 'p Decision" where
  "decideSegment p argv =
     (case argv of
        [] \<Rightarrow> reject EmptyArgv
      | arg0 # rest \<Rightarrow>
          (let bin = path_Base arg0 in
           case bins p bin of
             None \<Rightarrow> reject (NotInPolicy bin)
           | Some bp \<Rightarrow>
               if Class bp = ClassDenied then reject (InDeniedClass bin)
               else if AbsPath bp = [] then reject (NotInstalled bin)
               else case denied_hit (DeniedArgs bp) rest of
                      Some (denied, a) \<Rightarrow> reject (DeniedArg bin a denied)
                    | None \<Rightarrow> decide_class bin bp rest))"

text \<open>The loop of \<^verbatim>\<open>Policy.Decide\<close> from segment \<open>i\<close> on; \<open>None\<close> when every segment passes.\<close>

fun decide_loop :: "Policy \<Rightarrow> string list list \<Rightarrow> nat \<Rightarrow> string list list \<Rightarrow> 'p Decision option" where
  "decide_loop p segments i [] = None"
| "decide_loop p segments i (seg # segs) =
     (if int (length seg) > MaxArgs p
      then Some \<lparr>Allow = False, Reason = TooManyArgs i (length seg) (MaxArgs p), Segments = segments\<rparr>
      else if \<not> Allow (decideSegment p seg :: 'p Decision)
      then Some ((decideSegment p seg)\<lparr>Segments := segments\<rparr>)
      else decide_loop p segments (Suc i) segs)"

definition policy_Decide :: "Policy \<Rightarrow> string \<Rightarrow> 'p Decision" where
  "policy_Decide p cmd =
     (case SplitPipes cmd of
        Err e \<Rightarrow> reject (ParseFailed e)
      | Ok segments \<Rightarrow>
          (case decide_loop p segments 0 segments of
             Some d \<Rightarrow> d
           | None \<Rightarrow> \<lparr>Allow = True, Reason = NoReason, Segments = segments\<rparr>))"

section \<open>Facts on the table\<close>

lemma addBin_bins [simp]: "bins (addBin p bp) k = (if k = Bin bp then Some bp else bins p k)"
  by (simp add: addBin_def)

lemma addBin_settings [simp]:
  "NetworkHostAllowlist (addBin p bp) = NetworkHostAllowlist p"
  "StdoutCap (addBin p bp) = StdoutCap p" "StderrCap (addBin p bp) = StderrCap p"
  "Timeout (addBin p bp) = Timeout p" "MaxArgs (addBin p bp) = MaxArgs p"
  "PathAllowlist (addBin p bp) = PathAllowlist p"
  by (simp_all add: addBin_def)

lemma clonePolicy_Some [simp]: "clonePolicy (Some p) = p"
  by (simp add: clonePolicy_def)

text \<open>
  Well-formed policies: every binary is registered under its own name with one of the five
  classes, and a denied binary carries no executable path.
\<close>

definition wf_policy :: "Policy \<Rightarrow> bool" where
  "wf_policy p \<longleftrightarrow> (\<forall>k bp. bins p k = Some bp \<longrightarrow>
      Bin bp = k \<and> validClass (Class bp) \<and> (Class bp = ClassDenied \<longrightarrow> AbsPath bp = []))"

lemma wf_policy_addBin:
  "wf_policy p \<Longrightarrow> validClass (Class bp) \<Longrightarrow> (Class bp = ClassDenied \<Longrightarrow> AbsPath bp = []) \<Longrightarrow>
     wf_policy (addBin p bp)"
  by (auto simp: wf_policy_def)

lemma yaml_bin_simps [simp]:
  "Bin (yaml_bin LookPath b) = y_name b" "Class (yaml_bin LookPath b) = TrimSpace (y_class b)"
  "TrimSpace (y_class b) = ClassDenied \<Longrightarrow> AbsPath (yaml_bin LookPath b) = []"
  by (simp_all add: yaml_bin_def Let_def)

lemma wf_policy_yaml_bin:
  "wf_policy p \<Longrightarrow> validClass (TrimSpace (y_class b)) \<Longrightarrow> wf_policy (addBin p (yaml_bin LookPath b))"
  by (rule wf_policy_addBin) auto

lemma merge_bins_wf:
  "merge_bins LookPath path p bs = Ok q \<Longrightarrow> wf_policy p \<Longrightarrow> wf_policy q"
  by (induction LookPath path p bs rule: merge_bins.induct)
     (auto split: if_splits simp: wf_policy_yaml_bin)

text \<open>The last entry of the file for a name wins; other names keep the base's entry.\<close>

lemma merge_bins_lookup:
  "merge_bins LookPath path p bs = Ok q \<Longrightarrow>
     bins q k = (case find (\<lambda>b. y_name b = k) (rev bs) of
                   Some b \<Rightarrow> Some (yaml_bin LookPath b) | None \<Rightarrow> bins p k)"
proof (induction LookPath path p bs rule: merge_bins.induct)
  case (2 LookPath path out b bs)
  then have IH: "bins q k = (case find (\<lambda>b. y_name b = k) (rev bs) of
      Some b \<Rightarrow> Some (yaml_bin LookPath b) | None \<Rightarrow> bins (addBin out (yaml_bin LookPath b)) k)"
    by (auto split: if_splits)
  then show ?case by (auto simp: find_append split: option.splits)
qed auto

lemma merge_bins_settings:
  "merge_bins LookPath path p bs = Ok q \<Longrightarrow>
     NetworkHostAllowlist q = NetworkHostAllowlist p \<and> PathAllowlist q = PathAllowlist p
     \<and> StdoutCap q = StdoutCap p \<and> StderrCap q = StderrCap p \<and> Timeout q = Timeout p
     \<and> MaxArgs q = MaxArgs p"
  by (induction LookPath path p bs rule: merge_bins.induct) (auto split: if_splits)

lemma merge_bins_Ok_iff:
  "(\<exists>q. merge_bins LookPath path p bs = Ok q) \<longleftrightarrow>
     (\<forall>b\<in>set bs. TrimSpace (y_name b) \<noteq> [] \<and> validClass (TrimSpace (y_class b)))"
  by (induction LookPath path p bs rule: merge_bins.induct) auto

lemma merge_settings_bins [simp]: "bins (merge_settings raw p) = bins p"
  by (simp add: merge_settings_def)

lemma wf_policy_merge_settings [simp]: "wf_policy (merge_settings raw p) = wf_policy p"
  by (simp add: wf_policy_def)

lemma LoadFromYAML_OkE:
  assumes "LoadFromYAML LookPath path file base = Ok q"
  obtains raw m where "file = Some (Some raw)"
    "merge_bins LookPath path (clonePolicy base) (binaries raw) = Ok m" "q = merge_settings raw m"
  using assms by (auto simp: LoadFromYAML_def split: option.splits sum.splits)

section \<open>Declarative reading of the rules\<close>

definition matcher_matches :: "ArgMatcher \<Rightarrow> string list \<Rightarrow> bool" where
  "matcher_matches m argv \<longleftrightarrow>
     (AnyFlag m = [] \<and> Subcmd m = [] \<and> SubcmdPath m = [])
     \<or> set (AnyFlag m) \<inter> set argv \<noteq> {}
     \<or> (Subcmd m \<noteq> [] \<and> prefix [Subcmd m] argv)
     \<or> (SubcmdPath m \<noteq> [] \<and> prefix (SubcmdPath m) argv)"

text \<open>
  The rule documented with \<^verbatim>\<open>BinaryPolicy\<close> in \<^verbatim>\<open>types.go\<close>: reading classes are allowed; for the others a write matcher
  rejects, then a read-only matcher allows, and failing both a network binary is allowed (its host is checked by
  the sandbox) and a mixed one rejected.
\<close>

definition documented_rule :: "BinaryPolicy \<Rightarrow> string list \<Rightarrow> bool" where
  "documented_rule bp rest \<longleftrightarrow>
     Class bp \<in> {ClassReadFS, ClassReadSystem}
     \<or> (Class bp \<in> {ClassMixed, ClassNetwork}
        \<and> (\<forall>m\<in>set (WriteMatchers bp). \<not> matcher_matches m rest)
        \<and> ((\<exists>m\<in>set (ReadOnlyMatchers bp). matcher_matches m rest) \<or> Class bp = ClassNetwork))"

text \<open>
  The code follows it but for two mixed binaries it knows by name: \<open>kill\<close> is allowed exactly with the flag that lists
  signals, whatever its matchers say, and \<open>mount\<close> is rejected when it is given two absolute paths.
\<close>

definition class_allows :: "string \<Rightarrow> BinaryPolicy \<Rightarrow> string list \<Rightarrow> bool" where
  "class_allows bin bp rest \<longleftrightarrow>
     (if Class bp = ClassMixed \<and> bin = ''kill'' then ''-l'' \<in> set rest \<or> ''-L'' \<in> set rest
      else documented_rule bp rest
        \<and> \<not> (Class bp = ClassMixed \<and> bin = ''mount'' \<and> 2 \<le> length (filter (\<lambda>a. prefix ''/'' a) rest)))"

definition segment_allowed :: "Policy \<Rightarrow> string list \<Rightarrow> bool" where
  "segment_allowed p argv \<longleftrightarrow> argv \<noteq> [] \<and>
     (\<exists>bp. bins p (path_Base (hd argv)) = Some bp \<and> Class bp \<noteq> ClassDenied \<and> AbsPath bp \<noteq> []
        \<and> (\<forall>d\<in>set (DeniedArgs bp). \<forall>a\<in>set (tl argv). \<not> sublist d a)
        \<and> class_allows (path_Base (hd argv)) bp (tl argv))"

lemma hasAnyFlag_iff [policy_simps]: "hasAnyFlag argv flags \<longleftrightarrow> set flags \<inter> set argv \<noteq> {}"
  by (induction argv) (auto simp: list_ex_iff)

lemma hasSubcmdPath_iff [policy_simps]: "hasSubcmdPath argv want \<longleftrightarrow> prefix want argv"
proof
  assume "hasSubcmdPath argv want"
  then have "length want \<le> length argv" "\<forall>i<length want. argv ! i = want ! i"
    by (auto simp: hasSubcmdPath_def list_all_iff split: if_splits)
  then have "want = take (length want) argv" by (intro nth_equalityI) auto
  then show "prefix want argv" by (metis take_is_prefix)
next
  assume "prefix want argv"
  then show "hasSubcmdPath argv want"
    by (auto simp: hasSubcmdPath_def list_all_iff prefix_def nth_append)
qed

lemma matcherHits_iff [policy_simps]: "matcherHits argv m \<longleftrightarrow> matcher_matches m argv"
  by (cases argv) (auto simp: matcherHits_def matcher_matches_def hasAnyFlag_iff hasSubcmdPath_iff)

lemma matcherListMatches_iff [policy_simps]:
  "matcherListMatches argv ms \<longleftrightarrow> (\<exists>m\<in>set ms. matcher_matches m argv)"
  by (simp add: matcherListMatches_def list_ex_iff matcherHits_iff)

lemma decision_sel [simp]:
  "Allow allow_decision" "\<not> Allow (reject r)" "Reason (reject r) = r"
  "Reason allow_decision = NoReason" "Segments allow_decision = []" "Segments (reject r) = []"
  by (simp_all add: allow_decision_def reject_def)

lemma denied_hit_None [policy_simps]:
  "denied_hit ds rest = None \<longleftrightarrow> (\<forall>d\<in>set ds. \<forall>a\<in>set rest. \<not> sublist d a)"
  by (auto simp: denied_hit_def find_None_iff_all Contains_sublist)

lemma decide_class_iff:
  "Class bp \<noteq> ClassDenied \<Longrightarrow> Allow (decide_class bin bp rest) \<longleftrightarrow> class_allows bin bp rest"
  by (auto simp: decide_class_def class_allows_def documented_rule_def countAbsolutePaths_def policy_simps class_defs)

lemma decideSegment_iff: "Allow (decideSegment p argv) \<longleftrightarrow> segment_allowed p argv"
proof (cases argv)
  case (Cons a rest)
  show ?thesis
  proof (cases "bins p (path_Base a)")
    case (Some bp)
    show ?thesis
    proof (cases "denied_hit (DeniedArgs bp) rest")
      case None
      then have "\<forall>d\<in>set (DeniedArgs bp). \<forall>a\<in>set rest. \<not> sublist d a"
        by (simp add: denied_hit_None)
      with None Cons Some show ?thesis
        using decide_class_iff[of bp "path_Base a" rest]
        by (auto simp: decideSegment_def segment_allowed_def Let_def)
    next
      case (Some y)
      then have "\<not> (\<forall>d\<in>set (DeniedArgs bp). \<forall>a\<in>set rest. \<not> sublist d a)"
        using denied_hit_None[of "DeniedArgs bp" rest] by simp
      with Some \<open>bins p (path_Base a) = Some bp\<close> Cons show ?thesis
        by (auto simp: decideSegment_def segment_allowed_def Let_def split: prod.splits)
    qed
  qed (simp add: Cons decideSegment_def segment_allowed_def Let_def)
qed (simp add: decideSegment_def segment_allowed_def)

lemma decide_class_reason: "\<not> Allow (decide_class bin bp rest) \<Longrightarrow> Reason (decide_class bin bp rest) \<noteq> NoReason"
  by (auto simp: decide_class_def)

lemma decideSegment_reason:
  "\<not> Allow (decideSegment p argv :: 'p Decision) \<Longrightarrow> Reason (decideSegment p argv :: 'p Decision) \<noteq> NoReason"
  by (auto simp: decideSegment_def Let_def decide_class_reason split: list.splits option.splits)

lemma decide_loop_None:
  "decide_loop p segments i segs = None \<longleftrightarrow>
     (\<forall>seg\<in>set segs. int (length seg) \<le> MaxArgs p \<and> segment_allowed p seg)"
  by (induction p segments i segs rule: decide_loop.induct) (auto simp: decideSegment_iff)

lemma decide_loop_Some:
  "decide_loop p segments i segs = Some d \<Longrightarrow> \<not> Allow d \<and> Reason d \<noteq> NoReason \<and> Segments d = segments"
  by (induction p segments i segs rule: decide_loop.induct)
     (auto split: if_splits dest: decideSegment_reason)

lemma policy_Decide_iff:
  "Allow (policy_Decide p cmd :: 'p Decision) \<longleftrightarrow>
     (\<exists>segs. SplitPipes cmd = Ok segs
        \<and> (\<forall>seg\<in>set segs. int (length seg) \<le> MaxArgs p \<and> segment_allowed p seg))"
proof (cases "SplitPipes cmd")
  case (Inr segs)
  then show ?thesis
    using decide_loop_None[of p segs 0 segs, where 'a = 'p]
    by (auto simp: policy_Decide_def split: option.splits dest: decide_loop_Some)
qed (simp add: policy_Decide_def)

lemma policy_Decide_segments:
  "SplitPipes cmd = Ok segs \<Longrightarrow> Segments (policy_Decide p cmd) = segs"
  by (auto simp: policy_Decide_def split: option.splits dest: decide_loop_Some)

lemma policy_Decide_reason:
  "Reason (policy_Decide p cmd :: 'p Decision) = NoReason \<longleftrightarrow> Allow (policy_Decide p cmd :: 'p Decision)"
proof (cases "SplitPipes cmd")
  case (Inr segs)
  then show ?thesis
    by (cases "decide_loop p segs 0 segs :: 'p Decision option")
       (auto simp: policy_Decide_def dest: decide_loop_Some)
qed (simp add: policy_Decide_def)

section \<open>Properties\<close>

text \<open>
  C12. \<open>Policy.Decide\<close> allows a command exactly when it parses and every pipe segment keeps
  within \<open>MaxArgs\<close> and names a binary that is registered, not denied and installed, no argument holds a denied token,
  and the class admits the arguments. For every binary but two that is the documented rule (a write
  matcher rejects, a mixed binary needs a read-only match). The exceptions are mixed binaries the code knows by name: \<open>kill\<close> is
  allowed exactly with \<open>-l\<close> or \<open>-L\<close>, its matchers are not consulted, and \<open>mount\<close> is rejected with two absolute paths.
\<close>

theorem policy_decide_spec:
  "Allow (policy_Decide p cmd :: 'p Decision) \<longleftrightarrow>
     (case SplitPipes cmd of
        Err _ \<Rightarrow> False
      | Ok segs \<Rightarrow> list_all (\<lambda>seg. int (length seg) \<le> MaxArgs p \<and> segment_allowed p seg) segs)"
  by (auto simp: policy_Decide_iff list_all_iff split: sum.splits)

text \<open>
  What a decision reports: the parsed pipeline whenever the command parses, rejected or
  not, and a reason exactly when it is rejected.
\<close>

theorem policy_decide_report:
  "Segments (policy_Decide p cmd :: 'p Decision) = (case SplitPipes cmd of Err _ \<Rightarrow> [] | Ok segs \<Rightarrow> segs)
   \<and> (Reason (policy_Decide p cmd :: 'p Decision) = NoReason \<longleftrightarrow> Allow (policy_Decide p cmd :: 'p Decision))"
proof (cases "SplitPipes cmd")
  case (Inl e)
  then show ?thesis by (simp add: policy_Decide_def)
next
  case (Inr segs)
  then show ?thesis by (simp add: policy_Decide_segments policy_Decide_reason)
qed

text \<open>
  The YAML override merges as documented: loading succeeds exactly when every entry has
  a name and a valid class; the last entry for a name replaces the base's entry
  completely, other names keep theirs; a list replaces the base's when present; a cap
  replaces the base's when positive; and a well-formed base gives a well-formed policy.
\<close>

theorem load_from_yaml_merge:
  assumes "LoadFromYAML LookPath path (Some (Some raw)) base = Ok q"
  shows "list_all (\<lambda>b. TrimSpace (y_name b) \<noteq> [] \<and> validClass (TrimSpace (y_class b))) (binaries raw)
    \<and> bins q k = (case find (\<lambda>b. y_name b = k) (rev (binaries raw)) of
                     Some b \<Rightarrow> Some (yaml_bin LookPath b) | None \<Rightarrow> bins (clonePolicy base) k)
    \<and> NetworkHostAllowlist q =
        (case network_host_allowlist raw of Some l \<Rightarrow> l | None \<Rightarrow> NetworkHostAllowlist (clonePolicy base))
    \<and> PathAllowlist q = (case path_allowlist raw of Some l \<Rightarrow> l | None \<Rightarrow> PathAllowlist (clonePolicy base))
    \<and> StdoutCap q = (if stdout_cap_bytes raw > 0 then stdout_cap_bytes raw else StdoutCap (clonePolicy base))
    \<and> StderrCap q = (if stderr_cap_bytes raw > 0 then stderr_cap_bytes raw else StderrCap (clonePolicy base))
    \<and> MaxArgs q = (if max_argv_length raw > 0 then max_argv_length raw else MaxArgs (clonePolicy base))
    \<and> (wf_policy (clonePolicy base) \<longrightarrow> wf_policy q)"
proof -
  obtain m where m: "merge_bins LookPath path (clonePolicy base) (binaries raw) = Ok m"
    and q: "q = merge_settings raw m"
    using assms by (auto elim: LoadFromYAML_OkE)
  have "list_all (\<lambda>b. TrimSpace (y_name b) \<noteq> [] \<and> validClass (TrimSpace (y_class b))) (binaries raw)"
    using m merge_bins_Ok_iff[of LookPath path "clonePolicy base" "binaries raw"]
    by (auto simp: list_all_iff)
  moreover have "wf_policy (clonePolicy base) \<longrightarrow> wf_policy q"
    using merge_bins_wf[OF m] by (simp add: q)
  ultimately show ?thesis
    using merge_bins_lookup[OF m, of k] merge_bins_settings[OF m]
    by (simp add: q) (simp add: merge_settings_def cong: option.case_cong)
qed

definition demo_yaml :: yamlPolicy where
  "demo_yaml =
     \<lparr>binaries = [\<lparr>y_name = ''ls'', y_class = '' denied '', read_only_matchers = [],
                   write_matchers = [], denied_args = []\<rparr>],
      network_host_allowlist = Some [''.internal''], stdout_cap_bytes = 0, stderr_cap_bytes = 10,
      timeout_seconds = 5, max_argv_length = 0, path_allowlist = None\<rparr>"

theorem load_from_yaml_merge_witness:
  "\<exists>q. LoadFromYAML (\<lambda>_. None) ''p.yaml'' (Some (Some demo_yaml)) None = Ok q
     \<and> MaxArgs q = 32 \<and> NetworkHostAllowlist q = [''.internal'']
     \<and> map_option Class (bins q ''ls'') = Some ClassDenied"
proof -
  have trim: "TrimSpace '' denied '' = ''denied''" "TrimSpace ''ls'' = ''ls''" by code_simp+
  have ex: "\<exists>q. LoadFromYAML (\<lambda>_. None) ''p.yaml'' (Some (Some demo_yaml)) None = Ok q"
    by (simp add: LoadFromYAML_def demo_yaml_def trim validClass_def class_defs)
  then obtain q where q: "LoadFromYAML (\<lambda>_. None) ''p.yaml'' (Some (Some demo_yaml)) None = Ok q"
    by blast
  from load_from_yaml_merge[OF q, of "''ls''"] q show ?thesis
    by (auto simp: demo_yaml_def clonePolicy_def defaultMaxArgs_def trim class_defs)
qed

text \<open>
  A timeout of the override is multiplied in 64-bit arithmetic: it is the number of
  seconds asked for as long as that fits, and above 9223372036 seconds it wraps.
\<close>

theorem load_from_yaml_timeout:
  "Timeout (merge_settings raw p) =
     (if timeout_seconds raw \<le> 0 then Timeout p
      else if timeout_seconds raw \<le> 9223372036 then timeout_seconds raw * 1000000000
      else signed_take_bit 63 (timeout_seconds raw * 1000000000))"
  by (auto simp: merge_settings_def mul_int64_def Second_def signed_take_bit_int_eq_self)

end
