(* ===== verification/Cmd_Baseline.thy ===== *)
theory Cmd_Baseline
  imports Cmd_Policy
begin

text \<open>
  \<^verbatim>\<open>DefaultReadOnly\<close> of \<^verbatim>\<open>internal/edgeagent/cmdpolicy/policy.go\<close>: the curated table of
  binaries, one definition per block of the source in the order of its \<^verbatim>\<open>addBin\<close> calls,
  and the construction of the policy from it. A later entry for a name replaces an
  earlier one (\<^verbatim>\<open>find\<close> is registered twice).

  The lemmas show that the policy is well formed, that no shell, interpreter or
  destructive binary can run at any position of an allowed pipeline, and what the table
  admits for the binaries whose arguments decide.
\<close>

section \<open>The table\<close>

definition any_flags :: "string list \<Rightarrow> ArgMatcher" where
  "any_flags fs = \<lparr>AnyFlag = fs, Subcmd = [], SubcmdPath = []\<rparr>"

definition sub_cmd :: "string \<Rightarrow> ArgMatcher" where
  "sub_cmd c = \<lparr>AnyFlag = [], Subcmd = c, SubcmdPath = []\<rparr>"

definition sub_path :: "string list \<Rightarrow> ArgMatcher" where
  "sub_path cs = \<lparr>AnyFlag = [], Subcmd = [], SubcmdPath = cs\<rparr>"

definition catch_all :: ArgMatcher where
  "catch_all = \<lparr>AnyFlag = [], Subcmd = [], SubcmdPath = []\<rparr>"

definition plain_bin :: "BinaryClass \<Rightarrow> string \<Rightarrow> BinaryPolicy" where
  "plain_bin c b = \<lparr>Bin = b, AbsPath = [], Class = c, ReadOnlyMatchers = [], WriteMatchers = [],
                    DeniedArgs = []\<rparr>"

definition plain_bins :: "BinaryClass \<Rightarrow> string list \<Rightarrow> BinaryPolicy list" where
  "plain_bins c bs = map (plain_bin c) bs"

definition read_fs_bins :: "BinaryPolicy list" where
  "read_fs_bins =
     plain_bins ClassReadFS
      [''cat'', ''head'', ''tail'', ''tac'', ''less'', ''ls'', ''find'', ''du'', ''stat'',
       ''readlink'', ''file'', ''tree'', ''wc'', ''grep'', ''egrep'', ''fgrep'']
   @ [\<lparr>Bin = ''find'', AbsPath = [], Class = ClassReadFS,
       ReadOnlyMatchers = [],
       WriteMatchers = [],
       DeniedArgs = [''-delete'', ''-exec'', ''-execdir'', ''-ok'', ''-okdir'', ''-fprint'', ''-fprintf'',
          ''-fls'']\<rparr>,
      \<lparr>Bin = ''awk'', AbsPath = [], Class = ClassReadFS,
       ReadOnlyMatchers = [],
       WriteMatchers = [],
       DeniedArgs = [''system('', ''| sh'', ''| bash'', ''exec('']\<rparr>,
      \<lparr>Bin = ''sed'', AbsPath = [], Class = ClassReadFS,
       ReadOnlyMatchers = [],
       WriteMatchers = [],
       DeniedArgs = [''-i'', ''--in-place'']\<rparr>]"

definition read_system_bins :: "BinaryPolicy list" where
  "read_system_bins =
     plain_bins ClassReadSystem
      [''ps'', ''top'', ''uptime'', ''free'', ''df'', ''iostat'', ''vmstat'', ''mpstat'',
       ''pidstat'', ''lsof'', ''ss'', ''netstat'', ''dmesg'', ''who'', ''w'', ''uname'', ''id'',
       ''groups'']
   @ [\<lparr>Bin = ''hostname'', AbsPath = [], Class = ClassReadSystem,
       ReadOnlyMatchers = [],
       WriteMatchers = [],
       DeniedArgs = [''-b'', ''-s'', ''--set'']\<rparr>,
      \<lparr>Bin = ''date'', AbsPath = [], Class = ClassReadSystem,
       ReadOnlyMatchers = [],
       WriteMatchers = [],
       DeniedArgs = [''-s'', ''--set'']\<rparr>,
      \<lparr>Bin = ''journalctl'', AbsPath = [], Class = ClassReadSystem,
       ReadOnlyMatchers = [],
       WriteMatchers = [],
       DeniedArgs = [''--rotate'', ''--vacuum-time'', ''--vacuum-size'', ''--vacuum-files'', ''--flush'',
          ''--sync'', ''--relinquish-var'', ''--smart-relinquish-var'']\<rparr>]"

definition mixed_bins :: "BinaryPolicy list" where
  "mixed_bins =
     [\<lparr>Bin = ''iptables'', AbsPath = [], Class = ClassMixed,
       ReadOnlyMatchers = [any_flags [''-L'', ''--list'', ''-S'', ''--list-rules'', ''-C'', ''--check'', ''-n'',
                      ''--numeric'']],
       WriteMatchers = [any_flags [''-A'', ''-I'', ''-D'', ''-R'', ''-F'', ''--flush'', ''-X'', ''-N'',
                      ''-P'', ''-Z'']],
       DeniedArgs = []\<rparr>,
      \<lparr>Bin = ''ip6tables'', AbsPath = [], Class = ClassMixed,
       ReadOnlyMatchers = [any_flags [''-L'', ''--list'', ''-S'', ''--list-rules'', ''-C'', ''--check'', ''-n'',
                      ''--numeric'']],
       WriteMatchers = [any_flags [''-A'', ''-I'', ''-D'', ''-R'', ''-F'', ''--flush'', ''-X'', ''-N'',
                      ''-P'', ''-Z'']],
       DeniedArgs = []\<rparr>,
      \<lparr>Bin = ''tc'', AbsPath = [], Class = ClassMixed,
       ReadOnlyMatchers = [sub_path [''qdisc'', ''show''],
          sub_path [''class'', ''show''],
          sub_path [''filter'', ''show''],
          sub_cmd ''-s''],
       WriteMatchers = [any_flags [''add'', ''del'', ''replace'', ''change'', ''link'']],
       DeniedArgs = []\<rparr>,
      \<lparr>Bin = ''systemctl'', AbsPath = [], Class = ClassMixed,
       ReadOnlyMatchers = [any_flags [''status'', ''show'', ''cat'', ''list-units'', ''list-jobs'',
                      ''list-sockets'', ''list-timers'', ''list-dependencies'', ''is-active'',
                      ''is-enabled'', ''is-failed'', ''get-default'', ''show-environment'']],
       WriteMatchers = [any_flags [''start'', ''stop'', ''restart'', ''reload'', ''try-restart'', ''enable'',
                      ''disable'', ''mask'', ''unmask'', ''kill'', ''reboot'', ''poweroff'',
                      ''halt'', ''kexec'', ''rescue'', ''emergency'', ''set-default'',
                      ''set-property'', ''import-environment'', ''unset-environment'',
                      ''reset-failed'', ''daemon-reload'', ''edit'']],
       DeniedArgs = []\<rparr>]"

definition mixed_ip_bins :: "BinaryPolicy list" where
  "mixed_ip_bins =
     [\<lparr>Bin = ''ip'', AbsPath = [], Class = ClassMixed,
       ReadOnlyMatchers = [sub_path [''addr'', ''show''],
          sub_path [''link'', ''show''],
          sub_path [''route'', ''show''],
          sub_path [''neigh'', ''show''],
          sub_path [''rule'', ''show''],
          sub_path [''netns'', ''list''],
          sub_path [''netns'', ''identify''],
          sub_path [''netns'', ''pids''],
          sub_cmd ''-s'',
          sub_cmd ''addr'',
          sub_cmd ''link'',
          sub_cmd ''route'',
          sub_cmd ''neigh'',
          sub_cmd ''rule'',
          sub_cmd ''netns'',
          sub_cmd ''tunnel'',
          sub_cmd ''monitor''],
       WriteMatchers = [any_flags [''add'', ''del'', ''set'', ''replace'', ''change'', ''flush''],
          sub_path [''netns'', ''exec''],
          sub_path [''netns'', ''add''],
          sub_path [''netns'', ''del'']],
       DeniedArgs = []\<rparr>,
      \<lparr>Bin = ''mount'', AbsPath = [], Class = ClassMixed,
       ReadOnlyMatchers = [any_flags [''-l'', ''--list'', ''-t'', ''--types''],
          catch_all],
       WriteMatchers = [],
       DeniedArgs = []\<rparr>,
      \<lparr>Bin = ''crontab'', AbsPath = [], Class = ClassMixed,
       ReadOnlyMatchers = [any_flags [''-l'', ''--list'']],
       WriteMatchers = [any_flags [''-e'', ''-r'', ''-i'']],
       DeniedArgs = []\<rparr>]"

definition netprobe_ovs_bins :: "BinaryPolicy list" where
  "netprobe_ovs_bins =
     [\<lparr>Bin = ''ovs-vsctl'', AbsPath = [], Class = ClassMixed,
       ReadOnlyMatchers = [any_flags [''list-br'', ''list-ports'', ''list-ifaces'', ''list-managers'',
                      ''list-controller'', ''list-cmds'', ''show'', ''get'', ''find'', ''list'',
                      ''br-exists'', ''iface-to-br'', ''port-to-br'']],
       WriteMatchers = [any_flags [''add-br'', ''del-br'', ''add-port'', ''del-port'', ''add-bond'', ''set'',
                      ''remove'', ''clear'', ''destroy'', ''set-controller'', ''del-controller'',
                      ''set-fail-mode'', ''del-fail-mode'', ''set-manager'', ''del-manager'',
                      ''init'']],
       DeniedArgs = []\<rparr>,
      \<lparr>Bin = ''ovs-ofctl'', AbsPath = [], Class = ClassMixed,
       ReadOnlyMatchers = [any_flags [''show'', ''dump-flows'', ''dump-aggregate'', ''dump-tables'',
                      ''dump-ports'', ''dump-ports-desc'', ''dump-table-features'',
                      ''dump-groups'', ''dump-group-stats'', ''dump-group-features'',
                      ''dump-meters'', ''dump-meter-stats'', ''dump-tlv-map'', ''queue-stats'',
                      ''queue-get-config'', ''monitor'', ''snoop'', ''get-frags'', ''probe'',
                      ''ping'']],
       WriteMatchers = [any_flags [''add-flow'', ''add-flows'', ''mod-flows'', ''del-flows'',
                      ''replace-flows'', ''add-group'', ''mod-group'', ''del-groups'',
                      ''insert-buckets'', ''remove-buckets'', ''add-meter'', ''mod-meter'',
                      ''del-meters'', ''set-frags'', ''mod-port'', ''mod-table'']],
       DeniedArgs = []\<rparr>,
      \<lparr>Bin = ''ovs-dpctl'', AbsPath = [], Class = ClassMixed,
       ReadOnlyMatchers = [any_flags [''show'', ''dump-flows'', ''dump-conntrack'', ''dump-dps'', ''ct-bkts'']],
       WriteMatchers = [any_flags [''add-dp'', ''del-dp'', ''add-if'', ''del-if'', ''add-flow'', ''del-flow'',
                      ''del-flows'', ''set-if'', ''flush-conntrack'']],
       DeniedArgs = []\<rparr>,
      \<lparr>Bin = ''ovs-appctl'', AbsPath = [], Class = ClassMixed,
       ReadOnlyMatchers = [catch_all],
       WriteMatchers = [any_flags [''vlog/set'', ''fdb/flush'', ''fdb/del'', ''lacp/show-stats-clear'',
                      ''bond/set-active-slave'', ''bridge/destroy'', ''exit'', ''stop'']],
       DeniedArgs = []\<rparr>]"

definition netprobe_bins :: "BinaryPolicy list" where
  "netprobe_bins =
     [\<lparr>Bin = ''nft'', AbsPath = [], Class = ClassMixed,
       ReadOnlyMatchers = [sub_cmd ''list'',
          sub_cmd ''describe'',
          sub_cmd ''monitor''],
       WriteMatchers = [any_flags [''add'', ''delete'', ''flush'', ''create'', ''insert'', ''replace'',
                      ''rename'', ''reset'']],
       DeniedArgs = []\<rparr>,
      \<lparr>Bin = ''conntrack'', AbsPath = [], Class = ClassMixed,
       ReadOnlyMatchers = [any_flags [''-L'', ''--dump'', ''-S'', ''--stats'', ''-G'', ''--get'', ''-E'',
                      ''--event'', ''-C'', ''--count'']],
       WriteMatchers = [any_flags [''-D'', ''--delete'', ''-F'', ''--flush'', ''-I'', ''--create'', ''-U'',
                      ''--update'']],
       DeniedArgs = []\<rparr>,
      \<lparr>Bin = ''ipset'', AbsPath = [], Class = ClassMixed,
       ReadOnlyMatchers = [any_flags [''list'', ''save'', ''test'', ''version'', ''help'']],
       WriteMatchers = [any_flags [''create'', ''add'', ''del'', ''flush'', ''destroy'', ''rename'', ''swap'',
                      ''restore'']],
       DeniedArgs = []\<rparr>,
      \<lparr>Bin = ''ethtool'', AbsPath = [], Class = ClassMixed,
       ReadOnlyMatchers = [catch_all],
       WriteMatchers = [any_flags [''-A'', ''--pause'', ''-C'', ''--coalesce'', ''-G'', ''--set-ring'',
                      ''-K'', ''--features'', ''--offload'', ''-L'', ''--set-channels'', ''-X'',
                      ''--set-rxfh-indir'', ''-s'', ''--change'', ''-r'', ''--negotiate'',
                      ''-N'', ''--config-nfc'', ''-U'', ''--config-ntuple'', ''--reset'',
                      ''--set-priv-flags'', ''--set-eee'']],
       DeniedArgs = []\<rparr>,
      \<lparr>Bin = ''bpftool'', AbsPath = [], Class = ClassMixed,
       ReadOnlyMatchers = [sub_path [''prog'', ''show''],
          sub_path [''prog'', ''list''],
          sub_path [''prog'', ''dump''],
          sub_path [''map'', ''show''],
          sub_path [''map'', ''list''],
          sub_path [''map'', ''dump''],
          sub_path [''map'', ''lookup''],
          sub_path [''btf'', ''show''],
          sub_path [''btf'', ''list''],
          sub_path [''btf'', ''dump''],
          sub_path [''net'', ''show''],
          sub_path [''net'', ''list''],
          sub_path [''link'', ''show''],
          sub_path [''link'', ''list''],
          sub_path [''iter'', ''list''],
          sub_path [''feature'', ''probe''],
          sub_path [''perf'', ''show''],
          sub_path [''perf'', ''list''],
          sub_cmd ''version'',
          sub_cmd ''help'',
          sub_cmd ''prog'',
          sub_cmd ''map'',
          sub_cmd ''btf'',
          sub_cmd ''net'',
          sub_cmd ''link'',
          sub_cmd ''iter'',
          sub_cmd ''feature''],
       WriteMatchers = [sub_path [''prog'', ''load''],
          sub_path [''prog'', ''loadall''],
          sub_path [''prog'', ''attach''],
          sub_path [''prog'', ''detach''],
          sub_path [''prog'', ''pin''],
          sub_path [''prog'', ''unpin''],
          sub_path [''map'', ''create''],
          sub_path [''map'', ''update''],
          sub_path [''map'', ''delete''],
          sub_path [''map'', ''pin''],
          sub_path [''map'', ''unpin''],
          sub_path [''link'', ''create''],
          sub_path [''link'', ''detach''],
          sub_path [''link'', ''pin''],
          sub_path [''cgroup'', ''attach''],
          sub_path [''cgroup'', ''detach'']],
       DeniedArgs = []\<rparr>]"

definition network_bins :: "BinaryPolicy list" where
  "network_bins =
     [\<lparr>Bin = ''nc'', AbsPath = [], Class = ClassNetwork,
       ReadOnlyMatchers = [any_flags [''-z'']],
       WriteMatchers = [],
       DeniedArgs = [''-e'', ''-c'', ''-l'']\<rparr>,
      \<lparr>Bin = ''curl'', AbsPath = [], Class = ClassNetwork,
       ReadOnlyMatchers = [any_flags [''--head'', ''-I'']],
       WriteMatchers = [],
       DeniedArgs = [''-o'', ''-O'', ''--output'', ''-T'', ''--upload-file'']\<rparr>,
      \<lparr>Bin = ''wget'', AbsPath = [], Class = ClassNetwork,
       ReadOnlyMatchers = [any_flags [''--spider'']],
       WriteMatchers = [],
       DeniedArgs = [''-O'', ''-o'']\<rparr>,
      plain_bin ClassNetwork ''dig'',
      plain_bin ClassNetwork ''host'',
      plain_bin ClassNetwork ''nslookup'',
      \<lparr>Bin = ''ping'', AbsPath = [], Class = ClassNetwork,
       ReadOnlyMatchers = [],
       WriteMatchers = [],
       DeniedArgs = [''-f'']\<rparr>,
      plain_bin ClassNetwork ''traceroute'']"

definition denied_bins :: "BinaryPolicy list" where
  "denied_bins =
     plain_bins ClassDenied
      [''bash'', ''sh'', ''zsh'', ''dash'', ''ash'', ''python'', ''python3'', ''perl'', ''ruby'',
       ''node'', ''lua'', ''tcl'', ''rm'', ''rmdir'', ''mv'', ''cp'', ''dd'', ''mkfs'',
       ''truncate'', ''shred'', ''chmod'', ''chown'', ''chgrp'', ''setfacl'', ''shutdown'',
       ''reboot'', ''halt'', ''poweroff'', ''kexec'', ''useradd'', ''userdel'', ''usermod'',
       ''groupadd'', ''groupdel'', ''passwd'', ''chpasswd'', ''iptables-restore'',
       ''ip6tables-restore'']"

definition baseline_entries :: "BinaryPolicy list" where
  "baseline_entries = read_fs_bins @ read_system_bins @ mixed_bins @ mixed_ip_bins
     @ netprobe_ovs_bins @ netprobe_bins @ network_bins @ denied_bins"

section \<open>The policy\<close>

definition resolve_bin :: "(string \<Rightarrow> string option) \<Rightarrow> BinaryPolicy \<Rightarrow> BinaryPolicy" where
  "resolve_bin LookPath bp =
     (if Class bp = ClassDenied then bp else bp\<lparr>AbsPath := discoverBin LookPath (Bin bp)\<rparr>)"

definition empty_default :: Policy where
  "empty_default =
     \<lparr>bins = Map.empty, NetworkHostAllowlist = [], StdoutCap = defaultStdoutCap,
      StderrCap = defaultStderrCap, Timeout = defaultTimeout, MaxArgs = defaultMaxArgs,
      PathAllowlist = [''/var'', ''/opt'', ''/home'', ''/tmp'', ''/srv'', ''/data'']\<rparr>"

definition DefaultReadOnly :: "(string \<Rightarrow> string option) \<Rightarrow> Policy" where
  "DefaultReadOnly LookPath =
     (let p = foldl addBin empty_default baseline_entries
      in p\<lparr>bins := \<lambda>k. map_option (resolve_bin LookPath) (bins p k)\<rparr>)"

section \<open>Looking up the table\<close>

definition baseline_lookup :: "string \<Rightarrow> BinaryPolicy option" where
  "baseline_lookup k = find (\<lambda>b. Bin b = k) (rev baseline_entries)"

lemma foldl_addBin_bins:
  "bins (foldl addBin p es) k =
     (case find (\<lambda>b. Bin b = k) (rev es) of Some b \<Rightarrow> Some b | None \<Rightarrow> bins p k)"
  by (induction es arbitrary: p) (auto simp: find_append split: option.splits)

lemma foldl_addBin_settings [simp]:
  "NetworkHostAllowlist (foldl addBin p es) = NetworkHostAllowlist p"
  "MaxArgs (foldl addBin p es) = MaxArgs p"
  "PathAllowlist (foldl addBin p es) = PathAllowlist p"
  by (induction es arbitrary: p) auto

lemma DefaultReadOnly_bins [policy_simps]:
  "bins (DefaultReadOnly LookPath) k = map_option (resolve_bin LookPath) (baseline_lookup k)"
  by (simp add: DefaultReadOnly_def Let_def foldl_addBin_bins baseline_lookup_def empty_default_def
      split: option.splits)

lemma DefaultReadOnly_settings [policy_simps]:
  "NetworkHostAllowlist (DefaultReadOnly LookPath) = []"
  "MaxArgs (DefaultReadOnly LookPath) = 32"
  by (simp_all add: DefaultReadOnly_def Let_def empty_default_def defaultMaxArgs_def)

lemma resolve_bin_simps [simp]:
  "Bin (resolve_bin L bp) = Bin bp" "Class (resolve_bin L bp) = Class bp"
  "ReadOnlyMatchers (resolve_bin L bp) = ReadOnlyMatchers bp"
  "WriteMatchers (resolve_bin L bp) = WriteMatchers bp"
  "DeniedArgs (resolve_bin L bp) = DeniedArgs bp"
  "AbsPath (resolve_bin L bp) = (if Class bp = ClassDenied then AbsPath bp else discoverBin L (Bin bp))"
  by (simp_all add: resolve_bin_def)

lemma baseline_classes:
  "list_all (\<lambda>b. validClass (Class b) \<and> AbsPath b = []) baseline_entries"
  by code_simp

lemma baseline_lookup_Some:
  "baseline_lookup k = Some b \<Longrightarrow> b \<in> set baseline_entries \<and> Bin b = k"
  by (auto simp: baseline_lookup_def dest: find_Some_mem)

lemma wf_DefaultReadOnly: "wf_policy (DefaultReadOnly LookPath)"
  using baseline_classes
  by (auto simp: wf_policy_def DefaultReadOnly_bins list_all_iff dest!: baseline_lookup_Some)

text \<open>Shells, interpreters, and binaries that destroy data, permissions, hosts or accounts.\<close>

definition destructive :: "string list" where
  "destructive =
     [''bash'', ''sh'', ''zsh'', ''dash'', ''ash'', ''python'', ''python3'', ''perl'', ''ruby'',
      ''node'', ''lua'', ''tcl'', ''rm'', ''rmdir'', ''mv'', ''cp'', ''dd'', ''mkfs'', ''truncate'',
      ''shred'', ''chmod'', ''chown'', ''chgrp'', ''setfacl'', ''shutdown'', ''reboot'', ''halt'',
      ''poweroff'', ''kexec'', ''useradd'', ''userdel'', ''usermod'', ''groupadd'', ''groupdel'',
      ''passwd'', ''chpasswd'', ''iptables-restore'', ''ip6tables-restore'']"

lemma denied_names: "map Bin denied_bins = destructive"
  by (simp add: denied_bins_def plain_bins_def plain_bin_def destructive_def)

lemma denied_lookup:
  assumes "k \<in> set destructive"
  shows "\<exists>b. baseline_lookup k = Some b \<and> Class b = ClassDenied"
proof -
  have "find (\<lambda>b. Bin b = k) (rev denied_bins) \<noteq> None"
    using assms unfolding denied_names[symmetric] by (auto simp: find_None_iff_all)
  then obtain b where b: "find (\<lambda>b. Bin b = k) (rev denied_bins) = Some b" by auto
  then have "b \<in> set denied_bins" by (auto dest: find_Some_mem)
  then have "Class b = ClassDenied"
    by (auto simp: denied_bins_def plain_bins_def plain_bin_def)
  with b show ?thesis by (simp add: baseline_lookup_def baseline_entries_def find_append)
qed

lemma class_allows_resolve [simp]: "class_allows bin (resolve_bin L b) rest = class_allows bin b rest"
  by (simp add: class_allows_def documented_rule_def)

lemma segment_allowed_default:
  "segment_allowed (DefaultReadOnly LookPath) seg \<longleftrightarrow> seg \<noteq> [] \<and>
     (\<exists>b. baseline_lookup (path_Base (hd seg)) = Some b \<and> Class b \<noteq> ClassDenied
        \<and> discoverBin LookPath (path_Base (hd seg)) \<noteq> []
        \<and> (\<forall>d\<in>set (DeniedArgs b). \<forall>a\<in>set (tl seg). \<not> sublist d a)
        \<and> class_allows (path_Base (hd seg)) b (tl seg))"
proof (cases "baseline_lookup (path_Base (hd seg))")
  case (Some b)
  then have "Bin b = path_Base (hd seg)" by (simp add: baseline_lookup_Some)
  with Some show ?thesis by (auto simp: segment_allowed_def DefaultReadOnly_bins)
qed (simp add: segment_allowed_def DefaultReadOnly_bins)

lemma baseline_lookup_values:
  "map_option DeniedArgs (baseline_lookup ''find'') =
     Some [''-delete'', ''-exec'', ''-execdir'', ''-ok'', ''-okdir'', ''-fprint'', ''-fprintf'', ''-fls'']"
  "map_option DeniedArgs (baseline_lookup ''sed'') = Some [''-i'', ''--in-place'']"
  "map_option DeniedArgs (baseline_lookup ''awk'') = Some [''system('', ''| sh'', ''| bash'', ''exec('']"
  by code_simp+

lemma allowed_default_segments:
  assumes "Allow (policy_Decide (DefaultReadOnly LookPath) cmd :: 'p Decision)"
  shows "\<forall>seg\<in>set (Segments (policy_Decide (DefaultReadOnly LookPath) cmd :: 'p Decision)).
           segment_allowed (DefaultReadOnly LookPath) seg"
  using assms by (auto simp: policy_Decide_iff policy_Decide_segments)

lemma not_destructive:
  "segment_allowed (DefaultReadOnly LookPath) seg \<Longrightarrow> path_Base (hd seg) \<notin> set destructive"
  by (auto simp: segment_allowed_default dest: denied_lookup)

lemma denied_token_free:
  assumes "segment_allowed (DefaultReadOnly LookPath) seg"
    and "map_option DeniedArgs (baseline_lookup (path_Base (hd seg))) = Some ds" "d \<in> set ds"
  shows "\<forall>a\<in>set (tl seg). \<not> sublist d a"
  using assms by (auto simp: segment_allowed_default)

section \<open>Properties\<close>

text \<open>
  Under the default policy no shell, scripting language or destructive binary runs at
  any position of an allowed pipeline, by its bare name or by any path, and neither
  \<open>find\<close> with a deleting, executing or writing action nor \<open>sed\<close> with in-place editing nor an
  \<open>awk\<close> program that calls out does. Binaries outside the table never run.
\<close>

theorem default_blocks_destructive:
  assumes "Allow (policy_Decide (DefaultReadOnly LookPath) cmd :: 'p Decision)"
  shows "\<forall>seg\<in>set (Segments (policy_Decide (DefaultReadOnly LookPath) cmd :: 'p Decision)).
      path_Base (hd seg) \<notin> set destructive
    \<and> path_Base (hd seg) \<in> set (map Bin baseline_entries)
    \<and> (path_Base (hd seg) = ''find'' \<longrightarrow>
         (\<forall>a\<in>set (tl seg). \<not> sublist ''-delete'' a \<and> \<not> sublist ''-exec'' a \<and> \<not> sublist ''-ok'' a
             \<and> \<not> sublist ''-fprint'' a \<and> \<not> sublist ''-fls'' a))
    \<and> (path_Base (hd seg) = ''sed'' \<longrightarrow> (\<forall>a\<in>set (tl seg). \<not> sublist ''-i'' a))
    \<and> (path_Base (hd seg) = ''awk'' \<longrightarrow> (\<forall>a\<in>set (tl seg). \<not> sublist ''system('' a))"
proof
  fix seg assume "seg \<in> set (Segments (policy_Decide (DefaultReadOnly LookPath) cmd :: 'p Decision))"
  then have ok: "segment_allowed (DefaultReadOnly LookPath) seg"
    using allowed_default_segments[OF assms] by blast
  then obtain b where "baseline_lookup (path_Base (hd seg)) = Some b"
    by (auto simp: segment_allowed_default)
  then have "path_Base (hd seg) \<in> set (map Bin baseline_entries)"
    by (metis baseline_lookup_Some image_eqI list.set_map)
  with not_destructive[OF ok] denied_token_free[OF ok] baseline_lookup_values
  show "path_Base (hd seg) \<notin> set destructive
    \<and> path_Base (hd seg) \<in> set (map Bin baseline_entries)
    \<and> (path_Base (hd seg) = ''find'' \<longrightarrow>
         (\<forall>a\<in>set (tl seg). \<not> sublist ''-delete'' a \<and> \<not> sublist ''-exec'' a \<and> \<not> sublist ''-ok'' a
             \<and> \<not> sublist ''-fprint'' a \<and> \<not> sublist ''-fls'' a))
    \<and> (path_Base (hd seg) = ''sed'' \<longrightarrow> (\<forall>a\<in>set (tl seg). \<not> sublist ''-i'' a))
    \<and> (path_Base (hd seg) = ''awk'' \<longrightarrow> (\<forall>a\<in>set (tl seg). \<not> sublist ''system('' a))"
    by (intro conjI impI ballI) simp_all
qed

theorem default_blocks_destructive_witness:
  "Allow (policy_Decide (DefaultReadOnly (\<lambda>b. Some (''/usr/bin/'' @ b))) ''ps aux | grep init'' :: unit Decision)
   \<and> list_all (\<lambda>seg. path_Base (hd seg) \<notin> set destructive)
       (Segments (policy_Decide (DefaultReadOnly (\<lambda>b. Some (''/usr/bin/'' @ b))) ''ps aux | grep init'' :: unit Decision))"
proof -
  have run: "Allow (policy_Decide (DefaultReadOnly (\<lambda>b. Some (''/usr/bin/'' @ b))) ''ps aux | grep init'' :: unit Decision)"
    by code_simp
  from default_blocks_destructive[OF run] run show ?thesis by (auto simp: list_all_iff)
qed

text \<open>
  The default policy on the firewall: an \<open>iptables\<close> call is admitted exactly when the
  binary is installed, no argument is one of the listed write flags and some argument is
  one of the listed read flags.
\<close>

theorem default_iptables:
  "segment_allowed (DefaultReadOnly LookPath) (''iptables'' # args) \<longleftrightarrow>
     discoverBin LookPath ''iptables'' \<noteq> []
     \<and> set args \<inter> {''-A'', ''-I'', ''-D'', ''-R'', ''-F'', ''--flush'', ''-X'', ''-N'', ''-P'', ''-Z''} = {}
     \<and> set args \<inter> {''-L'', ''--list'', ''-S'', ''--list-rules'', ''-C'', ''--check'', ''-n'', ''--numeric''} \<noteq> {}"
proof -
  have base: "path_Base ''iptables'' = ''iptables''" by code_simp
  have look: "baseline_lookup ''iptables'' = Some \<lparr>Bin = ''iptables'', AbsPath = [], Class = ClassMixed,
       ReadOnlyMatchers = [any_flags [''-L'', ''--list'', ''-S'', ''--list-rules'', ''-C'', ''--check'', ''-n'', ''--numeric'']],
       WriteMatchers = [any_flags [''-A'', ''-I'', ''-D'', ''-R'', ''-F'', ''--flush'', ''-X'', ''-N'', ''-P'', ''-Z'']],
       DeniedArgs = []\<rparr>"
    by code_simp
  show ?thesis
    unfolding segment_allowed_default list.sel base look
    by (simp add: class_allows_def documented_rule_def matcher_matches_def any_flags_def Int_commute)
qed

text \<open>
  Write forms the table lets through. With the binaries installed the default policy
  allows \<open>ip route delete default\<close> (the write matchers list only \<open>del\<close>), a firewall rule
  appended by the long flag \<open>--append\<close> next to \<open>-n\<close>, and a real mount
  \<open>mount -t tmpfs tmpfs /mnt\<close>, which has only one absolute path.
\<close>

theorem default_write_forms_allowed:
  "list_all (\<lambda>cmd. Allow (policy_Decide (DefaultReadOnly (\<lambda>b. Some (''/usr/sbin/'' @ b))) cmd :: unit Decision))
     [''ip route delete default'', ''iptables --append INPUT -j DROP -n'', ''mount -t tmpfs tmpfs /mnt'']"
  by code_simp

end
