(* ===== verification/Host_Paths.thy ===== *)
theory Host_Paths
  imports Go_Strings
begin

text \<open>
  The path gate of the edge agent, \<^verbatim>\<open>internal/edgeagent/host_files/sandbox.go\<close>:
  \<open>SandboxConfig\<close>, its defaults, \<open>Validate\<close>, \<open>ValidatePath\<close> with its helpers,
  \<open>ResolveBinary\<close> and \<open>discoverBinaries\<close>. The file system is the parameter
  \<open>EvalSymlinks\<close> (\<open>None\<close> when resolution fails) and the search path is the parameter
  \<open>LookPath\<close>. A nil receiver is \<open>None\<close>.

  The lemmas relate the string tests of the code to path components, so that the
  properties speak of directories: a path is under a denied directory when its
  components after cleaning start with the directory's components.
\<close>

section \<open>The configuration\<close>

record SandboxConfig =
  DeniedReadPaths :: "string list"
  AllowedReadPaths :: "string list"
  AllowedBinaries :: "string \<rightharpoonup> string"

datatype path_error =
    NotConfigured | PathRequired | NotAbsolute string | DeniedPath string string
  | UserSecret string string string | OutsideAllowList string "string list"

datatype config_error = ConfigNil | MissingBinary string

definition DefaultDeniedReadPaths :: "string list" where
  "DefaultDeniedReadPaths =
     [''/proc'', ''/sys'', ''/dev'', ''/run'', ''/etc/shadow'', ''/etc/gshadow'', ''/etc/sudoers'',
      ''/etc/sudoers.d'', ''/root/.ssh'', ''/root/.gnupg'']"

definition host_prefixes :: "string list" where
  "host_prefixes = [''/usr/bin'', ''/bin'', ''/usr/local/bin'', ''/sbin'', ''/usr/sbin'']"

definition discoverBinaries :: "(string \<Rightarrow> string option) \<Rightarrow> string list \<Rightarrow> string \<rightharpoonup> string" where
  "discoverBinaries LookPath names =
     foldl (\<lambda>out n.
       case LookPath n of
         Some absp \<Rightarrow> out(n \<mapsto> absp)
       | None \<Rightarrow>
           (case find (\<lambda>c. LookPath c \<noteq> None) (map (\<lambda>pre. path_Clean (pre @ ''/'' @ n)) host_prefixes) of
              Some candidate \<Rightarrow> out(n \<mapsto> candidate)
            | None \<Rightarrow> out)) Map.empty names"

definition DefaultSandboxConfig :: "(string \<Rightarrow> string option) \<Rightarrow> SandboxConfig" where
  "DefaultSandboxConfig LookPath =
     \<lparr>DeniedReadPaths = DefaultDeniedReadPaths, AllowedReadPaths = [],
      AllowedBinaries = discoverBinaries LookPath [''find'', ''du'', ''df'', ''stat'', ''ls'']\<rparr>"

definition Validate :: "SandboxConfig option \<Rightarrow> config_error err" where
  "Validate so =
     (case so of
        None \<Rightarrow> Some ConfigNil
      | Some s \<Rightarrow>
          (case find (\<lambda>n. AllowedBinaries s n = None) [''find'', ''du''] of
             Some n \<Rightarrow> Some (MissingBinary n)
           | None \<Rightarrow> None))"

datatype resolve_error = ResolveNotConfigured | NotInAllowList string

definition ResolveBinary :: "SandboxConfig option \<Rightarrow> string \<Rightarrow> (resolve_error, string) result" where
  "ResolveBinary so n =
     (case so of
        None \<Rightarrow> Err ResolveNotConfigured
      | Some s \<Rightarrow> (case AllowedBinaries s n of None \<Rightarrow> Err (NotInAllowList n) | Some absp \<Rightarrow> Ok absp))"

section \<open>Validation of a path\<close>

text \<open>The test \<^verbatim>\<open>p == d || strings.HasPrefix(p, d+"/")\<close> of the three matching loops.\<close>

definition path_under :: "string \<Rightarrow> string \<Rightarrow> bool" where
  "path_under d p \<longleftrightarrow> p = d \<or> HasPrefix p (d @ [SLASH])"

definition matchesDenied :: "SandboxConfig \<Rightarrow> string \<Rightarrow> string \<Rightarrow> string option" where
  "matchesDenied s clean resolved =
     find (\<lambda>d. list_ex (path_under d) [clean, resolved]) (map path_Clean (DeniedReadPaths s))"

definition matchesPerUserSensitive :: "string \<Rightarrow> string option" where
  "matchesPerUserSensitive p =
     (if \<not> HasPrefix p ''/home/'' then None
      else let parts = SplitByte SLASH p in
           if length parts < 4 then None
           else if parts ! 3 = ''.ssh'' \<or> parts ! 3 = ''.gnupg''
           then Some (''/home/'' @ parts ! 2 @ ''/'' @ parts ! 3)
           else None)"

definition lexicalInAllowList :: "SandboxConfig \<Rightarrow> string \<Rightarrow> bool" where
  "lexicalInAllowList s p = list_ex (\<lambda>a. path_under (path_Clean a) p) (AllowedReadPaths s)"

definition resolve_or_clean :: "(string \<Rightarrow> string option) \<Rightarrow> string \<Rightarrow> string" where
  "resolve_or_clean EvalSymlinks p =
     (case EvalSymlinks p of Some r \<Rightarrow> r | None \<Rightarrow> p)"

definition resolvedInAllowList :: "(string \<Rightarrow> string option) \<Rightarrow> SandboxConfig \<Rightarrow> string \<Rightarrow> bool" where
  "resolvedInAllowList EvalSymlinks s p =
     list_ex (\<lambda>a. path_under (resolve_or_clean EvalSymlinks (path_Clean a)) p) (AllowedReadPaths s)"

definition ValidatePath :: "(string \<Rightarrow> string option) \<Rightarrow> SandboxConfig option \<Rightarrow> string \<Rightarrow> path_error err" where
  "ValidatePath EvalSymlinks so path =
     (case so of
        None \<Rightarrow> Some NotConfigured
      | Some s \<Rightarrow>
          if path = [] then Some PathRequired
          else if \<not> path_IsAbs path then Some (NotAbsolute path)
          else
            let clean = path_Clean path;
                resolved = resolve_or_clean EvalSymlinks clean
            in case matchesDenied s clean resolved of
                 Some hit \<Rightarrow> Some (DeniedPath path hit)
               | None \<Rightarrow>
                   (case matchesPerUserSensitive resolved of
                      Some hit \<Rightarrow> Some (UserSecret path resolved hit)
                    | None \<Rightarrow>
                        if AllowedReadPaths s \<noteq> [] \<and> \<not> lexicalInAllowList s clean
                           \<and> \<not> resolvedInAllowList EvalSymlinks s resolved
                        then Some (OutsideAllowList path (AllowedReadPaths s))
                        else None))"

section \<open>Paths as lists of components\<close>

lemma SplitByte_append_sep: "SplitByte c (xs @ c # ys) = SplitByte c xs @ SplitByte c ys"
  by (induction xs) (auto split: list.splits)

lemma join_Split: "join_with [c] (SplitByte c s) = s"
proof (induction s)
  case (Cons x s)
  then show ?case by (cases "SplitByte c s"; cases "tl (SplitByte c s)") auto
qed simp

lemma Split_join:
  "es \<noteq> [] \<Longrightarrow> \<forall>e\<in>set es. c \<notin> set e \<Longrightarrow> SplitByte c (join_with [c] es) = es"
proof (induction es rule: induct_list012)
  case (2 x)
  have "SplitByte c x = [x]" if "c \<notin> set x" for x using that by (induction x) auto
  with 2 show ?case by simp
next
  case (3 x y zs)
  have "SplitByte c x = [x]" if "c \<notin> set x" for x using that by (induction x) auto
  with 3 show ?case by (simp add: SplitByte_append_sep)
qed simp

lemma join_with_append:
  "xs \<noteq> [] \<Longrightarrow> ys \<noteq> [] \<Longrightarrow> join_with sep (xs @ ys) = join_with sep xs @ sep @ join_with sep ys"
  by (induction xs rule: induct_list012) (auto simp: neq_Nil_conv)

lemma path_under_components [go_strings]:
  "path_under d p \<longleftrightarrow> prefix (SplitByte SLASH d) (SplitByte SLASH p)"
proof
  assume "path_under d p"
  then show "prefix (SplitByte SLASH d) (SplitByte SLASH p)"
    by (auto simp: path_under_def prefix_def SplitByte_append_sep)
next
  assume "prefix (SplitByte SLASH d) (SplitByte SLASH p)"
  then obtain zs where zs: "SplitByte SLASH p = SplitByte SLASH d @ zs" by (auto simp: prefix_def)
  have p: "p = join_with [SLASH] (SplitByte SLASH d @ zs)"
    using join_Split[of SLASH p] by (simp add: zs)
  show "path_under d p"
  proof (cases "zs = []")
    case True
    with p show ?thesis by (simp add: path_under_def join_Split)
  next
    case False
    with p show ?thesis by (simp add: path_under_def join_with_append join_Split)
  qed
qed

text \<open>A cleaned rooted path has no empty, \<open>.\<close> or \<open>..\<close> component.\<close>

definition plain_elem :: "string \<Rightarrow> bool" where
  "plain_elem e \<longleftrightarrow> e \<noteq> [] \<and> e \<noteq> ''.'' \<and> e \<noteq> ''..''"

lemma clean_elems_all:
  "list_all P out \<Longrightarrow> list_all P (filter plain_elem es) \<Longrightarrow> list_all P (clean_elems True out es)"
proof (induction es arbitrary: out)
  case (Cons x es)
  show ?case
  proof (cases "plain_elem x")
    case True
    with Cons show ?thesis by (simp add: plain_elem_def)
  next
    case False
    with Cons show ?thesis by (cases out) (auto simp: plain_elem_def)
  qed
qed (simp add: list_all_iff)

definition clean_parts :: "string \<Rightarrow> string list" where
  "clean_parts p = clean_elems True [] (SplitByte SLASH p)"

lemma clean_parts_plain: "e \<in> set (clean_parts p) \<Longrightarrow> plain_elem e"
  using clean_elems_all[of plain_elem "[]" "SplitByte SLASH p"] by (auto simp: clean_parts_def list_all_iff)

lemma clean_parts_no_slash: "e \<in> set (clean_parts p) \<Longrightarrow> SLASH \<notin> set e"
  using clean_elems_all[of "\<lambda>e. SLASH \<notin> set e" "[]" "SplitByte SLASH p"] SplitByte_no_sep[of _ SLASH p]
  by (auto simp: clean_parts_def list_all_iff)

lemma path_Clean_components:
  assumes "path_IsAbs p"
  shows "SplitByte SLASH (path_Clean p) = [] # (if clean_parts p = [] then [[]] else clean_parts p)"
proof -
  have clean: "path_Clean p = SLASH # join_with ''/'' (clean_parts p)"
    using assms by (auto simp: path_Clean_def path_IsAbs_def Let_def clean_parts_def)
  show ?thesis
    using Split_join[of "clean_parts p" SLASH] clean_parts_no_slash[of _ p] by (auto simp: clean)
qed

section \<open>What validation means\<close>

definition resolved_form :: "(string \<Rightarrow> string option) \<Rightarrow> string \<Rightarrow> string" where
  "resolved_form EvalSymlinks p = resolve_or_clean EvalSymlinks (path_Clean p)"

definition inside :: "string list \<Rightarrow> string \<Rightarrow> bool" where
  "inside dirs p \<longleftrightarrow> (\<exists>d\<in>set dirs. prefix (SplitByte SLASH d) (SplitByte SLASH p))"

lemma matchesDenied_None:
  "matchesDenied s clean resolved = None \<longleftrightarrow>
     \<not> inside (map path_Clean (DeniedReadPaths s)) clean
     \<and> \<not> inside (map path_Clean (DeniedReadPaths s)) resolved"
  by (auto simp: matchesDenied_def find_None_iff_all inside_def path_under_components)

lemma matchesPerUserSensitive_None:
  "matchesPerUserSensitive p = None \<longleftrightarrow>
     \<not> (prefix ''/home/'' p \<and> 4 \<le> length (SplitByte SLASH p)
         \<and> SplitByte SLASH p ! 3 \<in> {''.ssh'', ''.gnupg''})"
  by (auto simp: matchesPerUserSensitive_def Let_def)

lemma lexicalInAllowList_iff:
  "lexicalInAllowList s p \<longleftrightarrow> inside (map path_Clean (AllowedReadPaths s)) p"
  by (auto simp: lexicalInAllowList_def list_ex_iff inside_def path_under_components)

lemma resolvedInAllowList_iff:
  "resolvedInAllowList E s p \<longleftrightarrow> inside (map (resolved_form E) (AllowedReadPaths s)) p"
  by (auto simp: resolvedInAllowList_def list_ex_iff inside_def path_under_components resolved_form_def)

lemma ValidatePath_None:
  "ValidatePath E (Some s) p = None \<longleftrightarrow>
     path_IsAbs p
     \<and> \<not> inside (map path_Clean (DeniedReadPaths s)) (path_Clean p)
     \<and> \<not> inside (map path_Clean (DeniedReadPaths s)) (resolved_form E p)
     \<and> matchesPerUserSensitive (resolved_form E p) = None
     \<and> (AllowedReadPaths s = [] \<or> inside (map path_Clean (AllowedReadPaths s)) (path_Clean p)
         \<or> inside (map (resolved_form E) (AllowedReadPaths s)) (resolved_form E p))"
  using matchesDenied_None[of s "path_Clean p" "resolved_form E p"]
  by (cases "matchesDenied s (path_Clean p) (resolved_form E p)";
      cases "matchesPerUserSensitive (resolved_form E p)")
     (auto simp: ValidatePath_def Let_def resolved_form_def[symmetric] lexicalInAllowList_iff
        resolvedInAllowList_iff path_IsAbs_def)

text \<open>The denied directories of the default configuration, as components below the root.\<close>

definition denied_dirs :: "string list list" where
  "denied_dirs =
     [[''proc''], [''sys''], [''dev''], [''run''], [''etc'', ''shadow''], [''etc'', ''gshadow''],
      [''etc'', ''sudoers''], [''etc'', ''sudoers.d''], [''root'', ''.ssh''], [''root'', ''.gnupg'']]"

lemma inside_default:
  "inside (map path_Clean DefaultDeniedReadPaths) q \<longleftrightarrow>
     list_ex (\<lambda>d. prefix ([] # d) (SplitByte SLASH q)) denied_dirs"
proof -
  have "map (\<lambda>d. SplitByte SLASH (path_Clean d)) DefaultDeniedReadPaths = map (Cons []) denied_dirs"
    by code_simp
  moreover have "inside (map path_Clean ds) q \<longleftrightarrow>
      list_ex (\<lambda>d. prefix d (SplitByte SLASH q)) (map (\<lambda>d. SplitByte SLASH (path_Clean d)) ds)" for ds
    by (auto simp: inside_def list_ex_iff)
  ultimately have "inside (map path_Clean DefaultDeniedReadPaths) q \<longleftrightarrow>
      list_ex (\<lambda>d. prefix d (SplitByte SLASH q)) (map (Cons []) denied_dirs)"
    by (simp only:)
  then show ?thesis by (simp add: list_ex_iff)
qed

section \<open>Properties\<close>

text \<open>
  \<open>ValidatePath\<close> accepts a path exactly when it is absolute, neither its cleaned nor its
  symlink-resolved form lies, component by component, in a denied directory, the resolved
  form is not a user's \<open>.ssh\<close> or \<open>.gnupg\<close>, and, when an allow-list is set, the cleaned or
  the resolved form lies in it.
\<close>

theorem validate_path_spec:
  "ValidatePath E (Some s) p = None \<longleftrightarrow>
     path_IsAbs p
     \<and> \<not> inside (map path_Clean (DeniedReadPaths s)) (path_Clean p)
     \<and> \<not> inside (map path_Clean (DeniedReadPaths s)) (resolved_form E p)
     \<and> \<not> (prefix ''/home/'' (resolved_form E p) \<and> 4 \<le> length (SplitByte SLASH (resolved_form E p))
           \<and> SplitByte SLASH (resolved_form E p) ! 3 \<in> {''.ssh'', ''.gnupg''})
     \<and> (AllowedReadPaths s = [] \<or> inside (map path_Clean (AllowedReadPaths s)) (path_Clean p)
         \<or> inside (map (resolved_form E) (AllowedReadPaths s)) (resolved_form E p))"
  unfolding ValidatePath_None matchesPerUserSensitive_None ..

lemma clean_elems_no_dotdot:
  "''..'' \<notin> set es \<Longrightarrow> clean_elems r out es = rev out @ filter (\<lambda>e. e \<noteq> [] \<and> e \<noteq> ''.'') es"
  by (induction es arbitrary: out) auto

text \<open>
  C40. What the denied directories of the default configuration guarantee. For an accepted path, the components left after
  \<^verbatim>\<open>filepath.Clean\<close> removes every \<open>.\<close>, \<open>..\<close> and repeated slash from the text do not start with \<open>proc\<close>, \<open>sys\<close>,
  \<open>dev\<close>, \<open>run\<close>, \<open>etc/shadow\<close>, \<open>etc/sudoers\<close> or \<open>root/.ssh\<close>; when the cleaned path can be resolved, neither do those of the
  file it resolves to. For a path without a component \<open>..\<close> the cleaned components are the ones written, so it is the
  path that is opened. With \<open>..\<close> after a symlink the kernel may open another file than the one checked, and
  when resolving fails only the text is checked.
\<close>

theorem validate_path_no_traversal:
  assumes "ValidatePath E (Some (DefaultSandboxConfig LookPath)) p = None" and "d \<in> set denied_dirs"
  shows "\<not> prefix d (clean_parts p)
    \<and> (\<forall>e\<in>set (clean_parts p). e \<noteq> '''' \<and> e \<noteq> ''.'' \<and> e \<noteq> ''..'')
    \<and> (''..'' \<notin> set (SplitByte SLASH p) \<longrightarrow> clean_parts p = filter (\<lambda>e. e \<noteq> '''' \<and> e \<noteq> ''.'') (SplitByte SLASH p))
    \<and> (\<forall>r. E (path_Clean p) = Some r \<longrightarrow> \<not> prefix ([] # d) (SplitByte SLASH r))"
proof -
  note ok = assms(1)[unfolded ValidatePath_None DefaultSandboxConfig_def SandboxConfig.simps
      inside_default list_ex_iff]
  have comps: "SplitByte SLASH (path_Clean p) = [] # (if clean_parts p = [] then [[]] else clean_parts p)"
    using ok path_Clean_components by blast
  have "\<not> prefix ([] # d) (SplitByte SLASH (path_Clean p))" using ok assms(2) by blast
  moreover have "d \<noteq> []" using assms(2) by (auto simp: denied_dirs_def)
  ultimately have "\<not> prefix d (clean_parts p)" unfolding comps by (cases "clean_parts p = []") simp_all
  moreover have "\<forall>e\<in>set (clean_parts p). e \<noteq> '''' \<and> e \<noteq> ''.'' \<and> e \<noteq> ''..''"
    using clean_parts_plain by (auto simp: plain_elem_def)
  moreover have "\<forall>r. E (path_Clean p) = Some r \<longrightarrow> \<not> prefix ([] # d) (SplitByte SLASH r)"
  proof (intro allI impI)
    fix r assume "E (path_Clean p) = Some r"
    then have "resolved_form E p = r" by (simp add: resolved_form_def resolve_or_clean_def)
    with ok assms(2) show "\<not> prefix ([] # d) (SplitByte SLASH r)" by blast
  qed
  moreover have "clean_parts p = filter (\<lambda>e. e \<noteq> '''' \<and> e \<noteq> ''.'') (SplitByte SLASH p)" if "''..'' \<notin> set (SplitByte SLASH p)"
    using clean_elems_no_dotdot[OF that] by (simp add: clean_parts_def)
  ultimately show ?thesis by blast
qed

theorem validate_path_no_traversal_witness:
  "ValidatePath (\<lambda>p. Some p) (Some (DefaultSandboxConfig (\<lambda>_. None))) ''/var//log/../lib'' = None
   \<and> \<not> prefix [''proc''] (clean_parts ''/var//log/../lib'')"
proof -
  have run: "ValidatePath (\<lambda>p. Some p) (Some (DefaultSandboxConfig (\<lambda>_. None))) ''/var//log/../lib'' = None"
    by code_simp
  from validate_path_no_traversal[OF run, of "[''proc'']"] run show ?thesis
    by (simp add: denied_dirs_def)
qed

text \<open>
  The limit of the check: \<open>/tmp/l\<close> is a symlink to \<open>/proc/self\<close>. The text of \<open>/tmp/l/../version\<close> is cleaned to
  \<open>/tmp/version\<close>, which is accepted; the kernel follows the link first, and opens \<open>/proc/version\<close>.
\<close>

theorem validate_path_dotdot_after_symlink:
  "path_Clean ''/tmp/l/../version'' = ''/tmp/version'' \<and>
   ValidatePath (\<lambda>p. if prefix ''/tmp/l'' p then Some (''/proc/self'' @ drop 6 p) else None)
     (Some (DefaultSandboxConfig (\<lambda>_. None))) ''/tmp/l/../version'' = None"
  by code_simp

text \<open>
  The allow-list does not stop a symlink: with \<open>AllowedReadPaths = [/tmp]\<close> the path
  \<open>/tmp/escape\<close> is accepted although it resolves to \<open>/etc/passwd\<close>, since it is enough that
  the unresolved form lies in the list.
\<close>

theorem validate_path_symlink_escape:
  "ValidatePath (\<lambda>p. if p = ''/tmp/escape'' then Some ''/etc/passwd'' else Some p)
     (Some \<lparr>DeniedReadPaths = DefaultDeniedReadPaths, AllowedReadPaths = [''/tmp''],
            AllowedBinaries = Map.empty\<rparr>) ''/tmp/escape'' = None"
  by code_simp

end
