(* ===== verification/Go_Net.thy ===== *)
theory Go_Net
  imports Go_Strings
begin

text \<open>
  The functions of Go's \<^verbatim>\<open>net\<close> package that the host allow-list calls: \<open>ParseIP\<close>,
  \<open>ParseCIDR\<close> and \<open>IPNet.Contains\<close>. An address is the list of its bytes. As in Go an IPv4
  address is accepted only in dotted decimal without leading zeros and is held in
  IPv4-mapped form; an IPv6 address may use one ellipsis and a trailing dotted quad, and a
  zone is refused.
\<close>

type_synonym IP = "nat list"

definition is_digit :: "char \<Rightarrow> bool" where
  "is_digit c \<longleftrightarrow> 48 \<le> (of_char c :: nat) \<and> (of_char c :: nat) \<le> 57"

definition hex_value :: "char \<Rightarrow> nat option" where
  "hex_value c =
     (let n = of_char c in
      if 48 \<le> n \<and> n \<le> 57 then Some (n - 48)
      else if 97 \<le> n \<and> n \<le> 102 then Some (n - 87)
      else if 65 \<le> n \<and> n \<le> 70 then Some (n - 55)
      else None)"

definition dec_value :: "string \<Rightarrow> nat" where
  "dec_value s = foldl (\<lambda>v c. v * 10 + (of_char c - 48)) 0 s"

definition parse_octet :: "string \<Rightarrow> nat option" where
  "parse_octet s =
     (if s \<noteq> [] \<and> list_all is_digit s \<and> (length s = 1 \<or> hd s \<noteq> CHR ''0'') \<and> dec_value s \<le> 255
      then Some (dec_value s) else None)"

definition parse_v4 :: "string \<Rightarrow> IP option" where
  "parse_v4 s =
     (let parts = map parse_octet (SplitByte (CHR ''.'') s)
      in if length parts = 4 \<and> list_all (\<lambda>o1. o1 \<noteq> None) parts then Some (map the parts) else None)"

definition v6_finish :: "nat option \<Rightarrow> IP \<Rightarrow> IP option" where
  "v6_finish ell ip =
     (if length ip < 16
      then (case ell of None \<Rightarrow> None
            | Some e \<Rightarrow> Some (take e ip @ replicate (16 - length ip) 0 @ drop e ip))
      else if ell = None then Some ip else None)"

definition hex_run :: "string \<Rightarrow> string" where
  "hex_run s = takeWhile (\<lambda>c. hex_value c \<noteq> None) s"

definition hex_number :: "string \<Rightarrow> nat" where
  "hex_number s = foldl (\<lambda>v c. v * 16 + (case hex_value c of Some d \<Rightarrow> d | None \<Rightarrow> 0)) 0 s"

function v6_loop :: "nat option \<Rightarrow> IP \<Rightarrow> string \<Rightarrow> IP option" where
  "v6_loop ell ip s =
     (if 16 \<le> length ip then (if s = [] then v6_finish ell ip else None)
      else
        let h = hex_run s;
            v = hex_number h;
            ip' = ip @ [v div 256, v mod 256]
        in if h = [] \<or> length h > 4 then None
           else case drop (length h) s of
             [] \<Rightarrow> v6_finish ell ip'
           | c # s1 \<Rightarrow>
               if c = CHR ''.'' then
                 (if (ell = None \<and> length ip \<noteq> 12) \<or> length ip + 4 > 16 then None
                  else case parse_v4 s of None \<Rightarrow> None | Some q \<Rightarrow> v6_finish ell (ip @ q))
               else if c \<noteq> CHR '':'' then None
               else case s1 of
                 [] \<Rightarrow> None
               | d # s2 \<Rightarrow>
                   if d = CHR '':'' then
                     (if ell \<noteq> None then None
                      else if s2 = [] then v6_finish (Some (length ip')) ip'
                      else v6_loop (Some (length ip')) ip' s2)
                   else v6_loop ell ip' s1)"
  by pat_completeness auto
termination
proof (relation "measure (\<lambda>(ell, ip, s). length s)", goal_cases)
  case (2 ell ip s h v ip' c s1 d s2)
  then have "length (drop (length h) s) = Suc (Suc (length s2))" by simp
  then show ?case by simp
next
  case (3 ell ip s h v ip' c s1 d s2)
  then have "length (drop (length h) s) = Suc (length s1)" by simp
  then show ?case by simp
qed simp

declare v6_loop.simps [simp del]

definition parse_v6 :: "string \<Rightarrow> IP option" where
  "parse_v6 s =
     (if HasPrefix s ''::'' then
        (if drop 2 s = [] then Some (replicate 16 0) else v6_loop (Some 0) [] (drop 2 s))
      else v6_loop None [] s)"

text \<open>\<^verbatim>\<open>netip.ParseAddr\<close> without zones: the first of \<open>.\<close> and \<open>:\<close> decides the family.\<close>

definition parse_addr :: "string \<Rightarrow> IP option" where
  "parse_addr s =
     (if CHR ''%'' \<in> set s then None
      else case dropWhile (\<lambda>c. c \<noteq> CHR ''.'' \<and> c \<noteq> CHR '':'') s of
        [] \<Rightarrow> None
      | c # _ \<Rightarrow> if c = CHR ''.'' then parse_v4 s else parse_v6 s)"

definition v4_prefix :: IP where
  "v4_prefix = replicate 10 0 @ [255, 255]"

definition As16 :: "IP \<Rightarrow> IP" where
  "As16 ip = (if length ip = 4 then v4_prefix @ ip else ip)"

definition To4 :: "IP \<Rightarrow> IP" where
  "To4 ip = (if length ip = 16 \<and> take 12 ip = v4_prefix then drop 12 ip else ip)"

definition ParseIP :: "string \<Rightarrow> IP option" where
  "ParseIP s = map_option As16 (parse_addr s)"

text \<open>An \<^verbatim>\<open>IPNet\<close>: the masked address and the number of leading one bits of its mask.\<close>

definition keep_bits :: "nat \<Rightarrow> nat \<Rightarrow> nat" where
  "keep_bits b x = x div 2 ^ (8 - b) * 2 ^ (8 - b)"

definition apply_mask :: "nat \<Rightarrow> IP \<Rightarrow> IP" where
  "apply_mask n ip = map (\<lambda>k. keep_bits (min 8 (n - 8 * k)) (ip ! k)) [0..<length ip]"

definition ParseCIDR :: "string \<Rightarrow> (IP \<times> nat) option" where
  "ParseCIDR s =
     (let addr = takeWhile (\<lambda>c. c \<noteq> SLASH) s;
          mask = tl (dropWhile (\<lambda>c. c \<noteq> SLASH) s)
      in if SLASH \<notin> set s then None
         else case parse_addr addr of
           None \<Rightarrow> None
         | Some ip \<Rightarrow>
             if mask = [] \<or> \<not> list_all is_digit mask \<or> dec_value mask > 8 * length ip then None
             else Some (apply_mask (dec_value mask) ip, dec_value mask))"

text \<open>
  \<^verbatim>\<open>IPNet.Contains\<close>: both addresses are reduced to four bytes where they are IPv4-mapped,
  and compared under the mask; a 128-bit mask on a mapped network loses its first 96 bits.
\<close>

definition net_contains :: "IP \<times> nat \<Rightarrow> IP \<Rightarrow> bool" where
  "net_contains net ip =
     (let nn = To4 (fst net);
          m = (if length (fst net) = 16 \<and> length nn = 4 then snd net - 96 else snd net);
          x = To4 ip
      in length x = length nn \<and> apply_mask m nn = apply_mask m x)"

lemma keep_bits_idem [simp]: "keep_bits b (keep_bits b x) = keep_bits b x"
  by (simp add: keep_bits_def)

lemma apply_mask_length [simp]: "length (apply_mask n ip) = length ip"
  by (simp add: apply_mask_def)

lemma apply_mask_idem [simp]: "apply_mask n (apply_mask n ip) = apply_mask n ip"
  by (rule nth_equalityI) (simp_all add: apply_mask_def)

end
