(* ===== verification/Cmd_Network.thy ===== *)
theory Cmd_Network
  imports Go_Net
begin

text \<open>
  The host a network command is aimed at, and the allow-list of hosts: the second half of
  \<^verbatim>\<open>internal/edgeagent/cmdpolicy/sandbox.go\<close>. The code finds the host by positions in the text; \<open>names_target\<close> and
  \<open>host_permitted\<close> say what it finds and what the list permits, without reference to the code, and the two are
  proved equal.
\<close>

section \<open>Network targets\<close>

definition flag :: "string \<Rightarrow> bool" where
  "flag a \<longleftrightarrow> HasPrefix a ''-''"

definition cut_at :: "string \<Rightarrow> char \<Rightarrow> string" where
  "cut_at s c = (case IndexByte s c of Some i \<Rightarrow> take i s | None \<Rightarrow> s)"

definition hostFromURL :: "string \<Rightarrow> string" where
  "hostFromURL s0 =
     (let s1 = (case IndexStr s0 ''://'' of Some i \<Rightarrow> drop (i + 3) s0 | None \<Rightarrow> s0);
          s2 = foldl cut_at s1 [SLASH, CHR ''?'', CHR ''#''];
          s3 = (case LastIndexByte s2 (CHR ''@'') of Some i \<Rightarrow> drop (i + 1) s2 | None \<Rightarrow> s2)
      in case LastIndexByte s3 (CHR '':'') of
           None \<Rightarrow> s3
         | Some i \<Rightarrow>
             if HasPrefix s3 ''['' then
               (case IndexByte s3 (CHR '']'') of
                  Some e \<Rightarrow> if e > 0 then take (e - 1) (drop 1 s3) else take i s3
                | None \<Rightarrow> take i s3)
             else take i s3)"

definition extractNetworkHost :: "string list \<Rightarrow> string" where
  "extractNetworkHost seg =
     (case seg of
        [] \<Rightarrow> []
      | [bin] \<Rightarrow> []
      | bin # rest \<Rightarrow>
          if bin = ''curl'' \<or> bin = ''wget'' then
            (case find (\<lambda>a. \<not> flag a) rest of Some a \<Rightarrow> hostFromURL a | None \<Rightarrow> [])
          else if bin = ''dig'' \<or> bin = ''host'' \<or> bin = ''nslookup'' then
            (case find (\<lambda>a. \<not> (flag a \<or> HasPrefix a ''+'' \<or> HasPrefix a ''@'')) rest of
               Some a \<Rightarrow> a | None \<Rightarrow> [])
          else if bin = ''ping'' \<or> bin = ''traceroute'' then
            (case find (\<lambda>a. \<not> flag a) (rev rest) of Some a \<Rightarrow> a | None \<Rightarrow> [])
          else if bin = ''nc'' then
            (case filter (\<lambda>a. \<not> flag a) rest of a # _ \<Rightarrow> a | [] \<Rightarrow> [])
          else [])"

definition entry_allows :: "string \<Rightarrow> string \<Rightarrow> bool" where
  "entry_allows host entry0 =
     (let entry = TrimSpace entry0 in
      if entry = [] then False
      else if Contains entry ''/'' then
        (case (ParseCIDR entry, ParseIP host) of
           (Some net, Some ip) \<Rightarrow> net_contains net ip
         | _ \<Rightarrow> False)
      else if HasPrefix entry ''.'' then HasSuffix host entry
      else entry = host)"

definition hostAllowed :: "string \<Rightarrow> string list \<Rightarrow> bool" where
  "hostAllowed host0 allowlist =
     (if allowlist = [] then False
      else let host = TrimSpace host0 in
           if host = [] then False else list_ex (entry_allows host) allowlist)"

section \<open>What a host is\<close>

text \<open>The parts of a URL: after the first \<open>://\<close>; up to the first slash, question mark or hash; after the last
  at-sign; and without the port, between the brackets of a literal address.\<close>

definition after_scheme :: "string \<Rightarrow> string \<Rightarrow> bool" where
  "after_scheme u s \<longleftrightarrow> (\<exists>sch. u = sch @ ''://'' @ s \<and> \<not> sublist ''://'' (sch @ '':/'')) \<or> (\<not> sublist ''://'' u \<and> s = u)"

definition authority_of :: "string \<Rightarrow> string \<Rightarrow> bool" where
  "authority_of s a \<longleftrightarrow> set a \<inter> {SLASH, CHR ''?'', CHR ''#''} = {} \<and>
     (s = a \<or> (\<exists>c rest. s = a @ c # rest \<and> c \<in> {SLASH, CHR ''?'', CHR ''#''}))"

definition after_user :: "string \<Rightarrow> string \<Rightarrow> bool" where
  "after_user a b \<longleftrightarrow> CHR ''@'' \<notin> set b \<and> (a = b \<or> (\<exists>user. a = user @ CHR ''@'' # b))"

definition without_port :: "string \<Rightarrow> string \<Rightarrow> bool" where
  "without_port b h \<longleftrightarrow>
     (if CHR '':'' \<notin> set b then h = b
      else if prefix ''['' b \<and> CHR '']'' \<in> set b then CHR '']'' \<notin> set h \<and> (\<exists>rest. b = CHR ''['' # h @ CHR '']'' # rest)
      else \<exists>port. CHR '':'' \<notin> set port \<and> b = h @ CHR '':'' # port)"

definition url_host :: "string \<Rightarrow> string \<Rightarrow> bool" where
  "url_host u h \<longleftrightarrow> (\<exists>s a b. after_scheme u s \<and> authority_of s a \<and> after_user a b \<and> without_port b h)"

text \<open>
  The target a network binary's arguments name, by the name of the binary as it is written in the command. A name
  with a directory is none of these, so it has no target.
\<close>

definition names_target :: "string \<Rightarrow> string list \<Rightarrow> string \<Rightarrow> bool" where
  "names_target bin args h \<longleftrightarrow>
     (bin \<in> {''curl'', ''wget''} \<and>
       (\<exists>flags u rest. args = flags @ u # rest \<and> (\<forall>f\<in>set flags. prefix ''-'' f) \<and> \<not> prefix ''-'' u \<and> url_host u h)) \<or>
     (bin \<in> {''dig'', ''host'', ''nslookup''} \<and>
       (\<exists>opts rest. args = opts @ h # rest \<and> (\<forall>x\<in>set opts. prefix ''-'' x \<or> prefix ''+'' x \<or> prefix ''@'' x) \<and>
         \<not> (prefix ''-'' h \<or> prefix ''+'' h \<or> prefix ''@'' h))) \<or>
     (bin \<in> {''ping'', ''traceroute''} \<and>
       (\<exists>before flags. args = before @ h # flags \<and> (\<forall>f\<in>set flags. prefix ''-'' f) \<and> \<not> prefix ''-'' h)) \<or>
     (bin = ''nc'' \<and> (\<exists>flags rest. args = flags @ h # rest \<and> (\<forall>f\<in>set flags. prefix ''-'' f) \<and> \<not> prefix ''-'' h))"

text \<open>An entry with a slash is a network, one with a leading dot a suffix, any other a host; blank entries permit nothing.\<close>

definition host_permitted :: "string list \<Rightarrow> string \<Rightarrow> bool" where
  "host_permitted hosts h \<longleftrightarrow> TrimSpace h \<noteq> [] \<and> (\<exists>e\<in>TrimSpace ` set hosts.
     (SLASH \<in> set e \<and> (\<exists>net ip. ParseCIDR e = Some net \<and> ParseIP (TrimSpace h) = Some ip \<and> net_contains net ip)) \<or>
     (SLASH \<notin> set e \<and> e \<noteq> [] \<and> hd e = CHR ''.'' \<and> suffix e (TrimSpace h)) \<or>
     (SLASH \<notin> set e \<and> e \<noteq> [] \<and> hd e \<noteq> CHR ''.'' \<and> e = TrimSpace h))"

section \<open>The code finds it\<close>

lemma IndexStr_Some_iff:
  "IndexStr s sub = Some i \<longleftrightarrow> i \<le> length s \<and> prefix sub (drop i s) \<and> (\<forall>j<i. \<not> prefix sub (drop j s))"
proof (induction s arbitrary: i)
  case Nil
  then show ?case by auto
next
  case (Cons c s)
  show ?case
  proof (cases i)
    case 0
    then show ?thesis by auto
  next
    case (Suc k)
    have "(\<forall>j<Suc k. \<not> prefix sub (drop j (c # s))) \<longleftrightarrow> \<not> prefix sub (c # s) \<and> (\<forall>j<k. \<not> prefix sub (drop j s))"
      by (auto simp: less_Suc_eq_0_disj)
    then show ?thesis using Suc Cons[of k] by auto
  qed
qed

lemma IndexStr_None_iff: "IndexStr s sub = None \<longleftrightarrow> \<not> sublist sub s"
  by (induction s) (auto simp: sublist_Cons_right)

lemma sublist_drop_prefix: "sublist w s \<longleftrightarrow> (\<exists>j \<le> length s. prefix w (drop j s))"
proof
  assume "sublist w s"
  then obtain a b where "s = a @ w @ b" by (auto simp: sublist_def)
  then show "\<exists>j \<le> length s. prefix w (drop j s)" by (intro exI[of _ "length a"]) simp
next
  assume "\<exists>j \<le> length s. prefix w (drop j s)"
  then show "sublist w s" by (metis append_take_drop_id prefix_def sublist_appendI)
qed

lemma after_scheme_iff:
  "after_scheme u s \<longleftrightarrow> s = (case IndexStr u ''://'' of Some i \<Rightarrow> drop (i + 3) u | None \<Rightarrow> u)"
proof (cases "IndexStr u ''://''")
  case None
  then have no: "\<not> sublist ''://'' u" by (simp add: IndexStr_None_iff)
  then have "u \<noteq> sch @ ''://'' @ s" for sch using sublist_appendI by blast
  with no None show ?thesis unfolding after_scheme_def by auto
next
  case (Some i)
  then have sub: "sublist ''://'' u" by (metis IndexStr_None_iff option.distinct(1))
  have i: "i \<le> length u" "prefix ''://'' (drop i u)" "\<And>j. j < i \<Longrightarrow> \<not> prefix ''://'' (drop j u)"
    using Some by (auto simp: IndexStr_Some_iff)
  obtain t where t: "drop i u = ''://'' @ t" using i(2) by (auto simp: prefix_def)
  have u: "u = take i u @ ''://'' @ t" by (metis append_take_drop_id t)
  have clean: "\<not> sublist ''://'' (sch @ '':/'') \<longleftrightarrow> (\<forall>j<length sch. \<not> prefix ''://'' (drop j (sch @ ''://'' @ s)))" for sch s
  proof -
    have "prefix ''://'' (drop j (sch @ '':/'')) \<longleftrightarrow> j < length sch \<and> prefix ''://'' (drop j (sch @ ''://'' @ s))"
      if "j \<le> length (sch @ '':/'')" for j
    proof (cases "j < length sch")
      case True
      have e: "drop j (sch @ ''://'' @ s) = drop j (sch @ '':/'') @ ''/'' @ s" using True by simp
      have len: "3 \<le> length (drop j (sch @ '':/''))" using True by simp
      have "prefix ''://'' (xs @ ys) \<longleftrightarrow> prefix ''://'' xs" if "3 \<le> length xs" for xs ys :: string
        using that by (cases xs; cases "tl xs"; cases "tl (tl xs)") auto
      then show ?thesis using e len True by metis
    next
      case False
      then have "drop j (sch @ '':/'') = drop (j - length sch) '':/''" by simp
      then have "length (drop j (sch @ '':/'')) \<le> 2" by simp
      then show ?thesis using False by (auto dest: prefix_length_le)
    qed
    then show ?thesis unfolding sublist_drop_prefix by auto
  qed
  have "after_scheme u s \<longleftrightarrow> s = t"
  proof
    assume "after_scheme u s"
    then obtain sch where sch: "u = sch @ ''://'' @ s" "\<forall>j<length sch. \<not> prefix ''://'' (drop j u)"
      using sub clean by (auto simp: after_scheme_def)
    have "\<not> i < length sch" using sch(2) i(2) by blast
    moreover have "\<not> length sch < i" using i(3)[of "length sch"] sch(1) by auto
    ultimately have "length sch = i" by simp
    then show "s = t" using sch(1) t by auto
  next
    assume "s = t"
    then show "after_scheme u s" unfolding after_scheme_def
      using u i(3) clean[of "take i u" t] i(1) by (intro disjI1 exI[of _ "take i u"]) (metis length_take min.absorb2)
  qed
  moreover have "drop (i + 3) u = t" using arg_cong[OF t, of "drop 3"] by (simp add: add.commute)
  ultimately show ?thesis using Some by simp
qed

lemma takeWhile_stop: "\<forall>x\<in>set a. P x \<Longrightarrow> \<not> P c \<Longrightarrow> takeWhile P (a @ c # r) = a"
  by (induction a) auto

lemma takeWhile_whole: "\<forall>x\<in>set a. P x \<Longrightarrow> takeWhile P a = a"
  by (induction a) auto

lemma cut_at_takeWhile: "cut_at s c = takeWhile (\<lambda>x. x \<noteq> c) s"
proof (cases "c \<in> set s")
  case True
  then show ?thesis by (simp add: cut_at_def IndexByte_def takeWhile_eq_take[symmetric])
next
  case False
  then have "takeWhile (\<lambda>x. x \<noteq> c) s = s" by (intro takeWhile_whole) auto
  with False show ?thesis by (simp only: cut_at_def IndexByte_def) simp
qed

lemma takeWhile_takeWhile: "takeWhile P (takeWhile Q xs) = takeWhile (\<lambda>x. Q x \<and> P x) xs"
  by (induction xs) auto

lemma authority_of_iff: "authority_of s a \<longleftrightarrow> a = foldl cut_at s [SLASH, CHR ''?'', CHR ''#'']"
proof -
  let ?D = "{SLASH, CHR ''?'', CHR ''#''}"
  have f: "foldl cut_at s [SLASH, CHR ''?'', CHR ''#''] = takeWhile (\<lambda>x. x \<notin> ?D) s"
    by (simp add: cut_at_takeWhile takeWhile_takeWhile conj_ac)
  have "authority_of s a \<longleftrightarrow> a = takeWhile (\<lambda>x. x \<notin> ?D) s"
  proof
    assume "authority_of s a"
    then have "\<forall>x\<in>set a. x \<notin> ?D" "s = a \<or> (\<exists>c rest. s = a @ c # rest \<and> c \<in> ?D)"
      by (auto simp: authority_of_def)
    then show "a = takeWhile (\<lambda>x. x \<notin> ?D) s"
      using takeWhile_whole[of a "\<lambda>x. x \<notin> ?D"] takeWhile_stop[of a "\<lambda>x. x \<notin> ?D"] by metis
  next
    assume a: "a = takeWhile (\<lambda>x. x \<notin> ?D) s"
    have s: "s = a @ dropWhile (\<lambda>x. x \<notin> ?D) s" unfolding a by (rule takeWhile_dropWhile_id[symmetric])
    have none: "set a \<inter> ?D = {}" using set_takeWhileD[of _ "\<lambda>x. x \<notin> ?D" s] unfolding a by blast
    show "authority_of s a"
    proof (cases "dropWhile (\<lambda>x. x \<notin> ?D) s")
      case Nil
      then have "s = a" using s by (metis append_Nil2)
      then show ?thesis using none by (simp add: authority_of_def)
    next
      case (Cons c rest)
      have "s = a @ c # rest" by (rule s[unfolded Cons])
      moreover have "c \<in> ?D" using hd_dropWhile[of "\<lambda>x. x \<notin> ?D" s] unfolding Cons by simp
      ultimately have "s = a @ c # rest" "c \<in> ?D" by blast+
      then show ?thesis using none unfolding authority_of_def by blast
    qed
  qed
  then show ?thesis by (simp only: f)
qed

lemma LastIndexByte_split:
  assumes "c \<in> set s"
  obtains xs ys where "s = xs @ c # ys" "c \<notin> set ys" "LastIndexByte s c = Some (length xs)"
proof -
  obtain xs ys where s: "s = xs @ c # ys" "c \<notin> set ys" using assms by (metis split_list_last)
  have "takeWhile (\<lambda>x. x \<noteq> c) (rev s) = rev ys" using s takeWhile_stop[of "rev ys" "\<lambda>x. x \<noteq> c" c "rev xs"] by force
  then have "LastIndexByte s c = Some (length xs)" using assms s by (simp add: LastIndexByte_def)
  with s that show thesis by blast
qed

lemma last_split_unique: "xs @ c # ys = xs' @ c # ys' \<Longrightarrow> c \<notin> set ys \<Longrightarrow> c \<notin> set ys' \<Longrightarrow> xs = xs' \<and> ys = ys'"
  by (auto simp: append_eq_append_conv2 Cons_eq_append_conv append_eq_Cons_conv)

lemma after_user_iff:
  "after_user a b \<longleftrightarrow> b = (case LastIndexByte a (CHR ''@'') of Some i \<Rightarrow> drop (i + 1) a | None \<Rightarrow> a)"
proof (cases "CHR ''@'' \<in> set a")
  case True
  then obtain xs ys where s: "a = xs @ CHR ''@'' # ys" "CHR ''@'' \<notin> set ys" "LastIndexByte a (CHR ''@'') = Some (length xs)"
    by (rule LastIndexByte_split)
  have "after_user a b \<longleftrightarrow> b = ys" using s last_split_unique[of xs "CHR ''@''" ys] by (auto simp: after_user_def)
  then show ?thesis using s by simp
next
  case False
  then show ?thesis by (auto simp: after_user_def LastIndexByte_def)
qed

lemma without_port_iff:
  "without_port b h \<longleftrightarrow> h = (case LastIndexByte b (CHR '':'') of
           None \<Rightarrow> b
         | Some i \<Rightarrow>
             if HasPrefix b ''['' then
               (case IndexByte b (CHR '']'') of
                  Some e \<Rightarrow> if e > 0 then take (e - 1) (drop 1 b) else take i b
                | None \<Rightarrow> take i b)
             else take i b)"
proof (cases "CHR '':'' \<in> set b")
  case False
  then show ?thesis by (simp add: without_port_def LastIndexByte_def)
next
  case True
  then obtain xs ys where s: "b = xs @ CHR '':'' # ys" "CHR '':'' \<notin> set ys" "LastIndexByte b (CHR '':'') = Some (length xs)"
    by (rule LastIndexByte_split)
  show ?thesis
  proof (cases "prefix ''['' b \<and> CHR '']'' \<in> set b")
    case br: True
    then obtain t where t: "b = CHR ''['' # t" by (auto simp: prefix_def)
    then have "CHR '']'' \<in> set t" using br by auto
    then obtain p q where pq: "t = p @ CHR '']'' # q" "CHR '']'' \<notin> set p" by (metis split_list_first)
    have ix: "IndexByte b (CHR '']'') = Some (Suc (length p))"
    proof -
      have "takeWhile (\<lambda>x. x \<noteq> CHR '']'') (p @ CHR '']'' # q) = p" using pq(2) by (intro takeWhile_stop) auto
      then show ?thesis using t pq(1) br by (simp add: IndexByte_def)
    qed
    have "without_port b h \<longleftrightarrow> h = p"
    proof -
      have "p @ CHR '']'' # q = h @ CHR '']'' # r \<Longrightarrow> CHR '']'' \<notin> set h \<Longrightarrow> h = p" for r
        using pq(2) by (auto simp: append_eq_append_conv2 Cons_eq_append_conv append_eq_Cons_conv)
      then show ?thesis using True br t pq by (auto simp: without_port_def)
    qed
    moreover have "take (length p) t = p" using pq by simp
    ultimately show ?thesis using s(3) ix br t by simp
  next
    case False
    have "without_port b h \<longleftrightarrow> h = xs"
      unfolding without_port_def using True False s(1,2) last_split_unique[of xs "CHR '':''" ys h] by auto
    moreover have "take (length xs) b = xs" using s(1) by simp
    ultimately show ?thesis using s(3) False by (auto simp: IndexByte_def)
  qed
qed

lemma url_host_iff: "url_host u h \<longleftrightarrow> h = hostFromURL u"
  unfolding url_host_def after_scheme_iff authority_of_iff after_user_iff without_port_iff hostFromURL_def Let_def by blast

lemma find_split: "find P xs = Some a \<longleftrightarrow> (\<exists>ys zs. xs = ys @ a # zs \<and> (\<forall>y\<in>set ys. \<not> P y) \<and> P a)"
proof (induction xs)
  case (Cons x xs)
  show ?case
  proof (cases "P x")
    case True
    then show ?thesis by (auto simp: Cons_eq_append_conv)
  next
    case False
    have "(\<exists>ys zs. x # xs = ys @ a # zs \<and> (\<forall>y\<in>set ys. \<not> P y) \<and> P a) \<longleftrightarrow> (\<exists>ys zs. xs = ys @ a # zs \<and> (\<forall>y\<in>set ys. \<not> P y) \<and> P a)"
      using False by (auto simp: Cons_eq_append_conv) (metis append_Cons set_ConsD)
    then show ?thesis using Cons False by simp
  qed
qed simp

lemma find_rev_split: "find P (rev xs) = Some a \<longleftrightarrow> (\<exists>ys zs. xs = ys @ a # zs \<and> (\<forall>z\<in>set zs. \<not> P z) \<and> P a)"
proof
  assume "find P (rev xs) = Some a"
  then obtain ys zs where s: "rev xs = ys @ a # zs" "\<forall>y\<in>set ys. \<not> P y" "P a" unfolding find_split by blast
  have "xs = rev zs @ a # rev ys" using arg_cong[OF s(1), of rev] by simp
  then show "\<exists>ys zs. xs = ys @ a # zs \<and> (\<forall>z\<in>set zs. \<not> P z) \<and> P a" using s(2,3) by (metis set_rev)
next
  assume "\<exists>ys zs. xs = ys @ a # zs \<and> (\<forall>z\<in>set zs. \<not> P z) \<and> P a"
  then obtain ys zs where s: "xs = ys @ a # zs" "\<forall>z\<in>set zs. \<not> P z" "P a" by blast
  have "rev xs = rev zs @ a # rev ys" using s(1) by simp
  then show "find P (rev xs) = Some a" unfolding find_split using s(2,3) by (metis set_rev)
qed

lemma filter_first: "(case filter P xs of a # _ \<Rightarrow> a | [] \<Rightarrow> []) = (case find P xs of Some a \<Rightarrow> a | None \<Rightarrow> [])"
  by (induction xs) auto

lemma find_target:
  "((case find P xs of Some a \<Rightarrow> f a | None \<Rightarrow> []) = h \<and> h \<noteq> []) \<longleftrightarrow>
     (\<exists>a. find P xs = Some a \<and> h = f a) \<and> h \<noteq> []"
  by (auto split: option.splits)

text \<open>One equation for the code and one for the specification, per group of binaries.\<close>

lemma extract_cases:
  "bin \<in> {''curl'', ''wget''} \<Longrightarrow> extractNetworkHost (bin # x # xs) = (case find (\<lambda>a. \<not> flag a) (x # xs) of Some a \<Rightarrow> hostFromURL a | None \<Rightarrow> [])"
  "bin \<in> {''dig'', ''host'', ''nslookup''} \<Longrightarrow> extractNetworkHost (bin # x # xs) =
     (case find (\<lambda>a. \<not> (flag a \<or> HasPrefix a ''+'' \<or> HasPrefix a ''@'')) (x # xs) of Some a \<Rightarrow> a | None \<Rightarrow> [])"
  "bin \<in> {''ping'', ''traceroute''} \<Longrightarrow> extractNetworkHost (bin # x # xs) = (case find (\<lambda>a. \<not> flag a) (rev (x # xs)) of Some a \<Rightarrow> a | None \<Rightarrow> [])"
  "bin \<in> {''nc''} \<Longrightarrow> extractNetworkHost (bin # x # xs) = (case find (\<lambda>a. \<not> flag a) (x # xs) of Some a \<Rightarrow> a | None \<Rightarrow> [])"
  unfolding extractNetworkHost_def filter_first list.case by (elim insertE emptyE; simp only:; simp del: find.simps rev.simps)+

lemma target_cases:
  "bin \<in> {''curl'', ''wget''} \<Longrightarrow> names_target bin args h \<longleftrightarrow> (\<exists>a. find (\<lambda>a. \<not> flag a) args = Some a \<and> h = hostFromURL a)"
  "bin \<in> {''dig'', ''host'', ''nslookup''} \<Longrightarrow> names_target bin args h \<longleftrightarrow>
     (\<exists>a. find (\<lambda>a. \<not> (flag a \<or> HasPrefix a ''+'' \<or> HasPrefix a ''@'')) args = Some a \<and> h = a)"
  "bin \<in> {''ping'', ''traceroute''} \<Longrightarrow> names_target bin args h \<longleftrightarrow> (\<exists>a. find (\<lambda>a. \<not> flag a) (rev args) = Some a \<and> h = a)"
  "bin \<in> {''nc''} \<Longrightarrow> names_target bin args h \<longleftrightarrow> (\<exists>a. find (\<lambda>a. \<not> flag a) args = Some a \<and> h = a)"
  unfolding names_target_def find_rev_split unfolding find_split flag_def url_host_iff by (elim insertE emptyE; simp; blast)+

lemma no_target: "\<not> names_target bin [] h"
proof -
  have "[] \<noteq> xs @ a # ys" for xs ys :: "string list" and a by simp
  then show ?thesis unfolding names_target_def by blast
qed

lemma extract_target:
  assumes "seg \<noteq> []"
  shows "extractNetworkHost seg = h \<and> h \<noteq> [] \<longleftrightarrow> names_target (hd seg) (tl seg) h \<and> h \<noteq> []"
proof (cases "tl seg")
  case Nil
  then obtain bin where "seg = [bin]" using assms by (cases seg) auto
  then show ?thesis by (simp add: extractNetworkHost_def no_target)
next
  case (Cons x xs)
  then obtain bin where seg: "seg = bin # x # xs" using assms by (cases seg) auto
  consider "bin \<in> {''curl'', ''wget''}" | "bin \<in> {''dig'', ''host'', ''nslookup''}" | "bin \<in> {''ping'', ''traceroute''}" | "bin \<in> {''nc''}"
    | "bin \<notin> {''curl'', ''wget''}" "bin \<notin> {''dig'', ''host'', ''nslookup''}" "bin \<notin> {''ping'', ''traceroute''}" "bin \<notin> {''nc''}" by argo
  then show ?thesis unfolding seg list.sel
  proof cases
    case 5
    then show "extractNetworkHost (bin # x # xs) = h \<and> h \<noteq> [] \<longleftrightarrow> names_target bin (x # xs) h \<and> h \<noteq> []"
      by (simp add: extractNetworkHost_def names_target_def)
  qed (simp_all only: extract_cases target_cases find_target)
qed

lemma entry_allows_iff:
  "entry_allows h e0 \<longleftrightarrow> (let e = TrimSpace e0 in
     (SLASH \<in> set e \<and> (\<exists>net ip. ParseCIDR e = Some net \<and> ParseIP h = Some ip \<and> net_contains net ip)) \<or>
     (SLASH \<notin> set e \<and> e \<noteq> [] \<and> hd e = CHR ''.'' \<and> suffix e h) \<or>
     (SLASH \<notin> set e \<and> e \<noteq> [] \<and> hd e \<noteq> CHR ''.'' \<and> e = h))"
proof -
  have c: "Contains e ''/'' \<longleftrightarrow> SLASH \<in> set e" for e by (induction e) auto
  have d: "HasPrefix e ''.'' \<longleftrightarrow> e \<noteq> [] \<and> hd e = CHR ''.''" for e by (cases e) auto
  show ?thesis unfolding entry_allows_def Let_def c d
    by (cases "ParseCIDR (TrimSpace e0)"; cases "ParseIP h") auto
qed

lemma hostAllowed_iff: "hostAllowed h hosts \<longleftrightarrow> host_permitted hosts h"
  unfolding hostAllowed_def host_permitted_def Let_def list_ex_iff entry_allows_iff by auto

end
