(* ===== verification/Cmd_Sandbox.thy ===== *)
theory Cmd_Sandbox
  imports Cmd_Baseline Host_Paths Cmd_Network
begin

text \<open>
  The sandbox around the policy, \<^verbatim>\<open>internal/edgeagent/cmdpolicy/sandbox.go\<close>, and the
  \<^verbatim>\<open>bash.exec\<close> handler, \<^verbatim>\<open>internal/edgeagent/bash/handlers.go\<close>.

  A \<^verbatim>\<open>PathValidator\<close> interface value is \<open>NilValidator\<close> or \<open>Validator f\<close> with the method
  \<open>f\<close>. The operating system is a parameter: \<open>os budget cmds\<close> is what running the commands
  \<open>cmds\<close> under the time limit \<open>budget\<close> gives (pipe and start failures, the chunks written to
  the captured streams, the results of waiting). \<open>runPipeline\<close> also returns the processes
  it started, so that the properties can say what runs.

  The locale \<open>path_gate\<close> is the contract of the path validator, interpreted on
  \<open>host_files\<close>' \<open>ValidatePath\<close>.
\<close>

section \<open>Bounded output\<close>

record capWriter =
  cw_buf :: string
  cw_cap :: int

definition capWriter_Write :: "capWriter \<Rightarrow> string \<Rightarrow> nat \<times> capWriter" where
  "capWriter_Write w p =
     (if cw_cap w \<le> 0 then (length p, w\<lparr>cw_buf := cw_buf w @ p\<rparr>)
      else let remaining = cw_cap w - int (length (cw_buf w)) in
        if remaining \<le> 0 then (length p, w)
        else if int (length p) \<le> remaining then (length p, w\<lparr>cw_buf := cw_buf w @ p\<rparr>)
        else (length p, w\<lparr>cw_buf := cw_buf w @ take (nat remaining) p\<rparr>))"

definition capHit :: "capWriter \<Rightarrow> bool" where
  "capHit w \<longleftrightarrow> cw_cap w > 0 \<and> int (length (cw_buf w)) \<ge> cw_cap w"

text \<open>The buffer after a process has written the chunks.\<close>

definition write_all :: "int \<Rightarrow> string list \<Rightarrow> capWriter" where
  "write_all cap chunks = foldl (\<lambda>w p. snd (capWriter_Write w p)) \<lparr>cw_buf = [], cw_cap = cap\<rparr> chunks"

definition joinStderrs :: "capWriter list \<Rightarrow> string" where
  "joinStderrs ws = concat (map cw_buf ws)"

definition anyTruncated :: "string \<Rightarrow> capWriter list \<Rightarrow> Policy \<Rightarrow> bool" where
  "anyTruncated stdout stderrs p \<longleftrightarrow>
     (StdoutCap p > 0 \<and> int (length stdout) \<ge> StdoutCap p) \<or> list_ex capHit stderrs"

section \<open>The combined decision\<close>

datatype 'p validator = NilValidator | Validator "string \<Rightarrow> 'p err"

record 'p Sandbox =
  sb_Policy :: "Policy option"
  PathValidator :: "'p validator"

fun scan_args :: "'p validator \<Rightarrow> string list list \<Rightarrow> nat \<Rightarrow> nat \<Rightarrow> string list \<Rightarrow> 'p Decision option" where
  "scan_args pv segs segIdx argIdx [] = None"
| "scan_args pv segs segIdx argIdx (a # as) =
     (if argIdx = 0 \<or> \<not> HasPrefix a ''/'' then scan_args pv segs segIdx (Suc argIdx) as
      else case pv of
        NilValidator \<Rightarrow> scan_args pv segs segIdx (Suc argIdx) as
      | Validator f \<Rightarrow>
          (case f a of
             Some e \<Rightarrow> Some \<lparr>Allow = False, Reason = PathRejected segIdx argIdx e, Segments = segs\<rparr>
           | None \<Rightarrow> scan_args pv segs segIdx (Suc argIdx) as))"

fun scan_paths :: "'p validator \<Rightarrow> string list list \<Rightarrow> nat \<Rightarrow> string list list \<Rightarrow> 'p Decision option" where
  "scan_paths pv segs segIdx [] = None"
| "scan_paths pv segs segIdx (seg # rest) =
     (case scan_args pv segs segIdx 0 seg of
        Some d \<Rightarrow> Some d
      | None \<Rightarrow> scan_paths pv segs (Suc segIdx) rest)"

definition network_rejects :: "Policy \<Rightarrow> string list \<Rightarrow> string option" where
  "network_rejects p seg =
     (case seg of
        [] \<Rightarrow> None
      | arg0 # _ \<Rightarrow>
          (case Lookup (Some p) arg0 of
             None \<Rightarrow> None
           | Some bp \<Rightarrow>
               if Class bp \<noteq> ClassNetwork then None
               else let host = extractNetworkHost seg in
                 if host = [] then None
                 else if \<not> hostAllowed host (NetworkHostAllowlist p) then Some host
                 else None))"

fun scan_network :: "Policy \<Rightarrow> string list list \<Rightarrow> nat \<Rightarrow> string list list \<Rightarrow> 'p Decision option" where
  "scan_network p segs segIdx [] = None"
| "scan_network p segs segIdx (seg # rest) =
     (case network_rejects p seg of
        Some host \<Rightarrow> Some \<lparr>Allow = False, Reason = NetworkRejected segIdx host, Segments = segs\<rparr>
      | None \<Rightarrow> scan_network p segs (Suc segIdx) rest)"

definition sandbox_Decide :: "'p Sandbox option \<Rightarrow> string \<Rightarrow> 'p Decision" where
  "sandbox_Decide so cmd =
     (case so of
        None \<Rightarrow> reject SandboxNotConfigured
      | Some s \<Rightarrow>
          (case sb_Policy s of
             None \<Rightarrow> reject SandboxNotConfigured
           | Some p \<Rightarrow>
               let d = policy_Decide p cmd in
               if \<not> Allow d then d
               else case scan_paths (PathValidator s) (Segments d) 0 (Segments d) of
                 Some d' \<Rightarrow> d'
               | None \<Rightarrow>
                   (case scan_network p (Segments d) 0 (Segments d) of
                      Some d' \<Rightarrow> d'
                    | None \<Rightarrow> d)))"

section \<open>Execution\<close>

text \<open>What \<^verbatim>\<open>exec.CommandContext\<close> is given: path, arguments, environment.\<close>

record command =
  cm_Path :: string
  cm_Args :: "string list"
  cm_Env :: "string list"

definition scrubbed_env :: "string list" where
  "scrubbed_env = [''PATH=/usr/local/sbin:/usr/local/bin:/usr/sbin:/sbin:/usr/bin:/bin'',
     ''LANG=C.UTF-8'', ''LC_ALL=C.UTF-8'']"

text \<open>An error of \<^verbatim>\<open>Wait\<close>: an exit status (with whether SIGPIPE ended the process), or another error.\<close>

datatype wait_error = WaitExit int bool | WaitEPIPE | WaitDeadline | WaitCanceled | WaitOther string

text \<open>An error of \<^verbatim>\<open>Start\<close>: the context had ended (by its deadline or otherwise), or the process could not be made.\<close>

datatype start_error = StartDeadline | StartOther string

record os_run =
  os_pipe :: "nat \<Rightarrow> string err"
  os_start :: "nat \<Rightarrow> start_error err"
  os_stdout :: "string list"
  os_stderr :: "nat \<Rightarrow> string list"
  os_wait :: "nat \<Rightarrow> wait_error err"
  os_timed_out :: bool

type_synonym os_model = "int \<Rightarrow> command list \<Rightarrow> os_run"

datatype run_error =
    NoSegmentsToRun | NotResolvable string | PipeFailed nat string | StartFailed nat string start_error
  | DeadlineExceeded | WaitFailed wait_error

record pipeline_result =
  pl_stdout :: string
  pl_stderr :: string
  pl_exit :: int
  pl_truncated :: bool
  pl_err :: "run_error err"

definition failed_run :: "run_error \<Rightarrow> pipeline_result" where
  "failed_run e = \<lparr>pl_stdout = [], pl_stderr = [], pl_exit = -1, pl_truncated = False, pl_err = Some e\<rparr>"

fun build_cmds :: "Policy \<Rightarrow> string list list \<Rightarrow> (run_error, command list) result" where
  "build_cmds p [] = Ok []"
| "build_cmds p (seg # segs) =
     (case Lookup (Some p) (hd seg) of
        None \<Rightarrow> Err (NotResolvable (hd seg))
      | Some bp \<Rightarrow>
          if AbsPath bp = [] then Err (NotResolvable (hd seg))
          else case build_cmds p segs of
            Err e \<Rightarrow> Err e
          | Ok cs \<Rightarrow> Ok (\<lparr>cm_Path = AbsPath bp, cm_Args = tl seg, cm_Env = scrubbed_env\<rparr> # cs))"

fun isBrokenPipe :: "wait_error \<Rightarrow> bool" where
  "isBrokenPipe WaitEPIPE = True"
| "isBrokenPipe (WaitExit _ sigpipe) = sigpipe"
| "isBrokenPipe _ = False"

text \<open>
  The wait loop over the commands \<open>is\<close> still to wait for; \<open>n\<close> is their number and
  \<open>lastExit\<close> the exit code so far. \<open>Inl\<close> is an early return with its error.
\<close>

fun wait_loop :: "os_run \<Rightarrow> nat \<Rightarrow> int \<Rightarrow> nat list \<Rightarrow> run_error + int" where
  "wait_loop r n lastExit [] = Inr lastExit"
| "wait_loop r n lastExit (i # is) =
     (case os_wait r i of
        None \<Rightarrow> wait_loop r n lastExit is
      | Some e \<Rightarrow>
          if i \<noteq> n - 1 \<and> isBrokenPipe e then wait_loop r n lastExit is
          else case e of
            WaitExit code _ \<Rightarrow>
              if i = n - 1 then wait_loop r n code is else wait_loop r n lastExit is
          | _ \<Rightarrow>
              if i = n - 1 then
                (if e = WaitDeadline \<or> e = WaitCanceled then Inl DeadlineExceeded
                 else Inl (WaitFailed e))
              else wait_loop r n lastExit is)"

definition runPipeline :: "os_model \<Rightarrow> int \<Rightarrow> Policy \<Rightarrow> string list list \<Rightarrow> command list \<times> pipeline_result" where
  "runPipeline os budget p segments =
     (if segments = [] then ([], failed_run NoSegmentsToRun)
      else case build_cmds p segments of
        Err e \<Rightarrow> ([], failed_run e)
      | Ok cmds \<Rightarrow>
          let r = os budget cmds; n = length cmds in
          case find (\<lambda>i. os_pipe r i \<noteq> None) [0..<n - 1] of
            Some i \<Rightarrow> ([], failed_run (PipeFailed i (the (os_pipe r i))))
          | None \<Rightarrow>
              (case find (\<lambda>i. os_start r i \<noteq> None) [0..<n] of
                 Some i \<Rightarrow> (take i cmds,
                            failed_run (StartFailed i (cm_Path (cmds ! i)) (the (os_start r i))))
               | None \<Rightarrow>
                   let out = cw_buf (write_all (StdoutCap p) (os_stdout r));
                       errs = map (\<lambda>i. write_all (StderrCap p) (os_stderr r i)) [0..<n];
                       trunc = anyTruncated out errs p
                   in case wait_loop r n 0 [0..<n] of
                        Inl e \<Rightarrow> (cmds, \<lparr>pl_stdout = out, pl_stderr = joinStderrs errs, pl_exit = -1,
                                         pl_truncated = trunc, pl_err = Some e\<rparr>)
                      | Inr code \<Rightarrow> (cmds, \<lparr>pl_stdout = out, pl_stderr = joinStderrs errs,
                                            pl_exit = code, pl_truncated = trunc, pl_err = None\<rparr>)))"

text \<open>The standard error of a result: captured text, the time-out message or the text of an error.\<close>

datatype stderr_text = ErrText string | TimedOut | ErrOf run_error | RunErr start_error

record 'p ShellResult =
  Allowed :: bool
  sr_Reason :: "'p reason"
  Stdout :: string
  Stderr :: stderr_text
  ExitCode :: int
  Truncated :: bool

definition denied_result :: "'p reason \<Rightarrow> 'p ShellResult" where
  "denied_result r = \<lparr>Allowed = False, sr_Reason = r, Stdout = [], Stderr = ErrText [], ExitCode = 0,
                      Truncated = False\<rparr>"

text \<open>\<^verbatim>\<open>errors.Is(err, context.DeadlineExceeded)\<close>: a start refused because the time was up counts.\<close>

fun is_deadline :: "run_error \<Rightarrow> bool" where
  "is_deadline DeadlineExceeded = True"
| "is_deadline (StartFailed _ _ StartDeadline) = True"
| "is_deadline _ = False"

definition exec_budget :: "int option \<Rightarrow> Policy \<Rightarrow> int" where
  "exec_budget ctx p =
     (let timeout = (if Timeout p \<le> 0 then defaultTimeout else Timeout p)
      in case ctx of None \<Rightarrow> timeout | Some d \<Rightarrow> min d timeout)"

definition Exec :: "os_model \<Rightarrow> 'p Sandbox option \<Rightarrow> int option \<Rightarrow> string \<Rightarrow> command list \<times> 'p ShellResult" where
  "Exec os so ctx cmd =
     (case so of
        None \<Rightarrow> ([], denied_result SandboxNotConfigured)
      | Some s \<Rightarrow>
          (case sb_Policy s of
             None \<Rightarrow> ([], denied_result SandboxNotConfigured)
           | Some p \<Rightarrow>
               let d = sandbox_Decide so cmd in
               if \<not> Allow d then ([], denied_result (Reason d))
               else let (started, r) = runPipeline os (exec_budget ctx p) p (Segments d) in
                 (started,
                  (case pl_err r of
                     None \<Rightarrow> \<lparr>Allowed = True, sr_Reason = NoReason, Stdout = pl_stdout r,
                              Stderr = ErrText (pl_stderr r), ExitCode = pl_exit r,
                              Truncated = pl_truncated r\<rparr>
                   | Some e \<Rightarrow>
                       if is_deadline e
                       then \<lparr>Allowed = True, sr_Reason = NoReason, Stdout = pl_stdout r,
                             Stderr = TimedOut, ExitCode = -1, Truncated = pl_truncated r\<rparr>
                       else \<lparr>Allowed = True, sr_Reason = NoReason, Stdout = pl_stdout r,
                             Stderr = ErrOf e, ExitCode = -1, Truncated = pl_truncated r\<rparr>))))"

definition shell_command :: "string \<Rightarrow> command" where
  "shell_command cmd = \<lparr>cm_Path = ''/bin/sh'', cm_Args = [''-c'', cmd], cm_Env = scrubbed_env\<rparr>"

definition ExecRaw :: "os_model \<Rightarrow> 'p Sandbox option \<Rightarrow> int option \<Rightarrow> string \<Rightarrow> command list \<times> 'p ShellResult" where
  "ExecRaw os so ctx cmd =
     (case so of
        None \<Rightarrow> ([], denied_result SandboxNotConfigured)
      | Some s \<Rightarrow>
          (case sb_Policy s of
             None \<Rightarrow> ([], denied_result SandboxNotConfigured)
           | Some p \<Rightarrow>
               if TrimSpace cmd = [] then ([], denied_result (ParseFailed EmptyCommand))
               else
                 let r = os (exec_budget ctx p) [shell_command cmd];
                     outW = write_all (StdoutCap p) (os_stdout r);
                     errW = write_all (StderrCap p) (os_stderr r 0);
                     trunc = capHit outW \<or> capHit errW;
                     ok = (\<lambda>stderr code. \<lparr>Allowed = True, sr_Reason = NoReason, Stdout = cw_buf outW,
                             Stderr = stderr, ExitCode = code, Truncated = trunc\<rparr>)
                 in (if os_start r 0 = None then [shell_command cmd] else [],
                     if os_timed_out r then ok TimedOut (-1)
                     else case os_start r 0 of
                       Some e \<Rightarrow> ok (RunErr e) (-1)
                     | None \<Rightarrow>
                         (case os_wait r 0 of
                            None \<Rightarrow> ok (ErrText (cw_buf errW)) 0
                          | Some (WaitExit code _) \<Rightarrow> ok (ErrText (cw_buf errW)) code
                          | Some e \<Rightarrow> ok (ErrOf (WaitFailed e)) (-1)))))"

section \<open>The handler\<close>

record BashExecRequest =
  rq_Cmd :: string
  rq_Timeout :: int
  rq_Unrestricted :: bool

datatype handler_error = BadRequest | CmdRequired

text \<open>\<open>body\<close> is the decoded request: \<open>None\<close> when \<^verbatim>\<open>json.Unmarshal\<close> fails, the zero request when empty.\<close>

definition call_ctx :: "int option \<Rightarrow> int \<Rightarrow> int option" where
  "call_ctx ctx t =
     (if t > 0 then
        let d0 = mul_int64 t Second;
            d = (if d0 > 5 * 60 * Second then 5 * 60 * Second else d0)
        in Some (case ctx of None \<Rightarrow> d | Some c \<Rightarrow> min c d)
      else ctx)"

definition bash_handler :: "os_model \<Rightarrow> 'p Sandbox option \<Rightarrow> int option \<Rightarrow> BashExecRequest option
    \<Rightarrow> (handler_error, command list \<times> 'p ShellResult) result" where
  "bash_handler os so ctx body =
     (case body of
        None \<Rightarrow> Err BadRequest
      | Some req \<Rightarrow>
          if rq_Cmd req = [] then Err CmdRequired
          else if rq_Unrestricted req
          then Ok (ExecRaw os so (call_ctx ctx (rq_Timeout req)) (rq_Cmd req))
          else Ok (Exec os so (call_ctx ctx (rq_Timeout req)) (rq_Cmd req)))"

text \<open>
  The sandbox that \<^verbatim>\<open>Register\<close> builds. A validator whose configuration does not validate is
  replaced by a nil pointer of type \<^verbatim>\<open>*SandboxConfig\<close>, which as an interface value is not
  nil: the method runs on a nil receiver.
\<close>

definition register_sandbox :: "(string \<Rightarrow> string option) \<Rightarrow> (string \<Rightarrow> string option)
    \<Rightarrow> yamlPolicy option option option \<Rightarrow> path_error Sandbox" where
  "register_sandbox LookPath EvalSymlinks override =
     (let base = DefaultReadOnly LookPath;
          policy = (case override of
                      None \<Rightarrow> base
                    | Some file \<Rightarrow>
                        (case LoadFromYAML LookPath ''/etc/opskeeper-edge/bash-policy.yaml'' file (Some base) of
                           Err _ \<Rightarrow> base | Ok merged \<Rightarrow> merged));
          cfg = DefaultSandboxConfig LookPath;
          pathValidator = (if Validate (Some cfg) = None then Some cfg else None)
      in \<lparr>sb_Policy = Some policy, PathValidator = Validator (ValidatePath EvalSymlinks pathValidator)\<rparr>)"

section \<open>Facts on bounded output\<close>

lemma capWriter_Write_cap [simp]: "cw_cap (snd (capWriter_Write w p)) = cw_cap w"
  by (simp add: capWriter_Write_def Let_def)

lemma capWriter_Write_buf:
  "cw_cap w > 0 \<Longrightarrow> length (cw_buf w) \<le> nat (cw_cap w) \<Longrightarrow>
     cw_buf (snd (capWriter_Write w p)) = take (nat (cw_cap w)) (cw_buf w @ p)"
  by (auto simp: capWriter_Write_def Let_def nat_diff_distrib)

lemma write_all_cap [simp]: "cw_cap (write_all cap chunks) = cap"
proof -
  have "cw_cap (foldl (\<lambda>w p. snd (capWriter_Write w p)) w chunks) = cw_cap w" for w
    by (induction chunks arbitrary: w) auto
  then show ?thesis by (simp add: write_all_def)
qed

lemma write_all_buf:
  "cw_buf (write_all cap chunks) = (if cap > 0 then take (nat cap) (concat chunks) else concat chunks)"
proof -
  have "cw_buf (foldl (\<lambda>w p. snd (capWriter_Write w p)) w chunks) = take (nat cap) (cw_buf w @ concat chunks)"
    if "cap > 0" "cw_cap w = cap" "length (cw_buf w) \<le> nat cap" for w
    using that
  proof (induction chunks arbitrary: w)
    case (Cons p chunks)
    let ?w = "snd (capWriter_Write w p)"
    have buf: "cw_buf ?w = take (nat cap) (cw_buf w @ p)"
      using Cons.prems by (simp only: capWriter_Write_buf)
    have "cw_buf (foldl (\<lambda>w p. snd (capWriter_Write w p)) ?w chunks) = take (nat cap) (cw_buf ?w @ concat chunks)"
      using Cons.prems buf by (intro Cons.IH) simp_all
    then show ?case by (simp only: buf take_take_append foldl_Cons concat.simps append_assoc)
  qed simp
  moreover have "cw_buf (foldl (\<lambda>w p. snd (capWriter_Write w p)) w chunks) = cw_buf w @ concat chunks"
    if "cap \<le> 0" "cw_cap w = cap" for w
    using that by (induction chunks arbitrary: w) (auto simp: capWriter_Write_def)
  ultimately show ?thesis by (auto simp: write_all_def)
qed

section \<open>Facts on the decision\<close>

fun validator_accepts :: "'p validator \<Rightarrow> string \<Rightarrow> bool" where
  "validator_accepts NilValidator a = True"
| "validator_accepts (Validator f) a = (f a = None)"

lemma scan_args_None:
  "scan_args pv segs si ai as = None \<longleftrightarrow>
     (\<forall>a\<in>set (if ai = 0 then tl as else as). prefix ''/'' a \<longrightarrow> validator_accepts pv a)"
proof (induction as arbitrary: ai)
  case (Cons a as)
  have "scan_args pv segs si (Suc ai) as = None \<longleftrightarrow> (\<forall>a\<in>set as. prefix ''/'' a \<longrightarrow> validator_accepts pv a)"
    using Cons[of "Suc ai"] by simp
  then show ?case by (cases pv) (auto split: option.splits)
qed simp

lemma scan_args_Some:
  "scan_args pv segs si ai as = Some d \<Longrightarrow> \<not> Allow d \<and> Segments d = segs \<and> Reason d \<noteq> NoReason"
  by (induction as arbitrary: ai) (auto split: if_splits option.splits validator.splits)

lemma scan_paths_None:
  "scan_paths pv segs si rest = None \<longleftrightarrow>
     (\<forall>seg\<in>set rest. \<forall>a\<in>set (tl seg). prefix ''/'' a \<longrightarrow> validator_accepts pv a)"
proof (induction rest arbitrary: si)
  case (Cons seg rest)
  then show ?case
    using scan_args_None[of pv segs si 0 seg] by (cases "scan_args pv segs si 0 seg") auto
qed simp

lemma scan_paths_Some:
  "scan_paths pv segs si rest = Some d \<Longrightarrow> \<not> Allow d \<and> Segments d = segs \<and> Reason d \<noteq> NoReason"
  by (induction rest arbitrary: si) (auto split: option.splits dest: scan_args_Some)

lemma scan_network_None:
  "scan_network p segs si rest = None \<longleftrightarrow> (\<forall>seg\<in>set rest. network_rejects p seg = None)"
  by (induction rest arbitrary: si) (auto split: option.splits)

lemma scan_network_Some:
  "scan_network p segs si rest = Some d \<Longrightarrow> \<not> Allow d \<and> Segments d = segs \<and> Reason d \<noteq> NoReason"
  by (induction rest arbitrary: si) (auto split: option.splits)

lemma sandbox_Decide_iff:
  "Allow (sandbox_Decide (Some \<lparr>sb_Policy = Some p, PathValidator = pv\<rparr>) cmd :: 'p Decision) \<longleftrightarrow>
     (\<exists>segs. SplitPipes cmd = Ok segs \<and> Allow (policy_Decide p cmd :: 'p Decision)
        \<and> (\<forall>seg\<in>set segs. \<forall>a\<in>set (tl seg). prefix ''/'' a \<longrightarrow> validator_accepts pv a)
        \<and> (\<forall>seg\<in>set segs. network_rejects p seg = None))"
proof (cases "Allow (policy_Decide p cmd :: 'p Decision)")
  case True
  then obtain segs where segs: "SplitPipes cmd = Ok segs" by (auto simp: policy_Decide_iff)
  then have sg: "Segments (policy_Decide p cmd :: 'p Decision) = segs" by (rule policy_Decide_segments)
  show ?thesis
    using True segs scan_paths_None[of pv segs 0 segs] scan_network_None[of p segs 0 segs, where 'a = 'p]
    by (auto simp: sandbox_Decide_def Let_def sg split: option.splits
        dest: scan_paths_Some scan_network_Some)
qed (simp add: sandbox_Decide_def Let_def)

lemma sandbox_Decide_segments:
  assumes "SplitPipes cmd = Ok segs"
  shows "Segments (sandbox_Decide (Some \<lparr>sb_Policy = Some p, PathValidator = pv\<rparr>) cmd :: 'p Decision) = segs"
  using policy_Decide_segments[OF assms, of p, where 'a = 'p]
  by (auto simp: sandbox_Decide_def Let_def split: option.splits dest: scan_paths_Some scan_network_Some)

lemma sandbox_Decide_not_configured:
  "(case so of None \<Rightarrow> True | Some s \<Rightarrow> sb_Policy s = None) \<Longrightarrow> \<not> Allow (sandbox_Decide so cmd)"
  by (auto simp: sandbox_Decide_def split: option.splits)

section \<open>The contract of the path validator\<close>

locale path_gate =
  fixes validate :: "string \<Rightarrow> 'p err"
    and safe :: "string \<Rightarrow> bool"
  assumes accepts_safe: "validate a = None \<Longrightarrow> safe a"
begin

lemma allowed_paths_safe:
  assumes "Allow (sandbox_Decide (Some \<lparr>sb_Policy = Some p, PathValidator = Validator validate\<rparr>) cmd)"
    and "SplitPipes cmd = Ok segs" and "seg \<in> set segs" and "a \<in> set (tl seg)" and "prefix ''/'' a"
  shows "safe a"
proof -
  from assms have "validator_accepts (Validator validate) a"
    unfolding sandbox_Decide_iff by auto
  then show ?thesis by (simp add: accepts_safe)
qed

end

interpretation host: path_gate "ValidatePath E (Some cfg)"
  "\<lambda>a. \<not> inside (map path_Clean (DeniedReadPaths cfg)) (path_Clean a)
     \<and> \<not> inside (map path_Clean (DeniedReadPaths cfg)) (resolved_form E a)"
  for E cfg
  by unfold_locales (simp add: ValidatePath_None)

section \<open>Facts on execution\<close>

lemma Lookup_Some [simp]: "Lookup (Some p) b = bins p (path_Base b)"
  by (simp add: Lookup_def)

lemma build_cmds_Ok:
  "build_cmds p segs = Ok cmds \<Longrightarrow>
     list_all2 (\<lambda>seg c. \<exists>bp. bins p (path_Base (hd seg)) = Some bp \<and> cm_Path c = AbsPath bp
        \<and> AbsPath bp \<noteq> [] \<and> cm_Args c = tl seg \<and> cm_Env c = scrubbed_env) segs cmds"
  by (induction p segs arbitrary: cmds rule: build_cmds.induct)
     (auto split: option.splits if_splits sum.splits)

lemma build_cmds_allowed:
  "\<forall>seg\<in>set segs. segment_allowed p seg \<Longrightarrow> \<exists>cmds. build_cmds p segs = Ok cmds"
  by (induction segs) (auto simp: segment_allowed_def)

lemma runPipeline_started:
  assumes "segs \<noteq> []" "\<forall>seg\<in>set segs. segment_allowed p seg"
  obtains cmds k where "build_cmds p segs = Ok cmds" "fst (runPipeline os budget p segs) = take k cmds"
proof -
  obtain cmds where cmds: "build_cmds p segs = Ok cmds" using build_cmds_allowed[OF assms(2)] by blast
  let ?started = "fst (runPipeline os budget p segs)"
  have "?started = take 0 cmds \<or> (\<exists>i. ?started = take i cmds) \<or> ?started = take (length cmds) cmds"
    by (auto simp: runPipeline_def Let_def cmds assms(1) split: option.splits sum.splits)
  with cmds that show ?thesis by blast
qed

lemma Exec_denied:
  "\<not> Allow (sandbox_Decide so cmd) \<Longrightarrow> fst (Exec os so ctx cmd) = [] \<and> \<not> Allowed (snd (Exec os so ctx cmd))"
  by (auto simp: Exec_def denied_result_def Let_def split: option.splits)

lemma Exec_allowed:
  assumes "Allow (sandbox_Decide (Some s) cmd)" "sb_Policy s = Some p"
  shows "Allowed (snd (Exec os (Some s) ctx cmd))
    \<and> fst (Exec os (Some s) ctx cmd)
        = fst (runPipeline os (exec_budget ctx p) p (Segments (sandbox_Decide (Some s) cmd)))"
  using assms by (auto simp: Exec_def Let_def split: option.splits prod.splits)

lemma Exec_started:
  fixes pv :: "'p validator" and p :: Policy
  defines "sb \<equiv> \<lparr>sb_Policy = Some p, PathValidator = pv\<rparr>"
  assumes "fst (Exec os (Some sb) ctx cmd) \<noteq> []"
  obtains segs cmds k where "SplitPipes cmd = Ok segs" "Allow (sandbox_Decide (Some sb) cmd)"
    "\<forall>seg\<in>set segs. segment_allowed p seg" "build_cmds p segs = Ok cmds"
    "fst (Exec os (Some sb) ctx cmd) = take k cmds"
proof -
  have al: "Allow (sandbox_Decide (Some sb) cmd)" using assms(2) Exec_denied by blast
  then obtain segs where segs: "SplitPipes cmd = Ok segs"
    and ok: "\<forall>seg\<in>set segs. segment_allowed p seg"
    unfolding sb_def sandbox_Decide_iff policy_Decide_iff by auto
  have "segs \<noteq> []" using segs by (simp add: SplitPipes_ne)
  then obtain cmds k where "build_cmds p segs = Ok cmds"
    "fst (runPipeline os (exec_budget ctx p) p segs) = take k cmds"
    using ok by (rule runPipeline_started)
  moreover have "Segments (sandbox_Decide (Some sb) cmd) = segs"
    unfolding sb_def using segs by (rule sandbox_Decide_segments)
  ultimately show ?thesis using al segs ok Exec_allowed[OF al] that by (simp add: sb_def)
qed

section \<open>Properties\<close>

text \<open>
  What the network allow-list asks of a segment: when its binary is registered as a network binary and its arguments
  name a target, the list permits the target.
\<close>

definition network_ok :: "Policy \<Rightarrow> string list \<Rightarrow> bool" where
  "network_ok p seg \<longleftrightarrow> (\<forall>bp h. bins p (path_Base (hd seg)) = Some bp \<and> Class bp = ClassNetwork \<and>
     names_target (hd seg) (tl seg) h \<and> h \<noteq> [] \<longrightarrow> host_permitted (NetworkHostAllowlist p) h)"

lemma network_rejects_iff:
  assumes ne: "seg \<noteq> []"
  shows "network_rejects p seg = None \<longleftrightarrow> network_ok p seg"
proof (cases "bins p (path_Base (hd seg))")
  case None
  then show ?thesis using ne by (cases seg) (simp_all add: network_rejects_def network_ok_def)
next
  case (Some bp)
  show ?thesis
  proof -
    let ?h = "extractNetworkHost seg"
    have "network_rejects p seg = None \<longleftrightarrow> (Class bp = ClassNetwork \<longrightarrow> ?h \<noteq> [] \<longrightarrow> host_permitted (NetworkHostAllowlist p) ?h)"
      using Some ne by (cases seg) (simp_all add: network_rejects_def hostAllowed_iff Let_def)
    moreover have "(\<forall>h. names_target (hd seg) (tl seg) h \<and> h \<noteq> [] \<longrightarrow> P h) \<longleftrightarrow> (?h \<noteq> [] \<longrightarrow> P ?h)" for P
      using extract_target[OF ne] by metis
    ultimately show ?thesis by (auto simp: network_ok_def Some)
  qed
qed

text \<open>
  C17. \<open>Sandbox.Decide\<close> allows a command exactly when it parses and every segment keeps
  within \<open>MaxArgs\<close>, satisfies the policy, has every argument that starts with a slash accepted by
  the path validator, and, for a binary registered as a network binary, names no host outside the allow-list. The
  host is the one the arguments name for the binary as it is written: \<open>curl\<close>, \<open>wget\<close>, \<open>dig\<close>, \<open>host\<close>, \<open>nslookup\<close>, \<open>ping\<close>, \<open>traceroute\<close>
  and \<open>nc\<close> by their bare names. Written with a directory (\<open>/usr/bin/curl\<close>), the same binary has no target and is not
  held to the list.
\<close>

theorem sandbox_decide_spec:
  "Allow (sandbox_Decide (Some \<lparr>sb_Policy = Some p, PathValidator = pv\<rparr>) cmd :: 'p Decision) \<longleftrightarrow>
     (case SplitPipes cmd of
        Err _ \<Rightarrow> False
      | Ok segs \<Rightarrow>
          list_all (\<lambda>seg. int (length seg) \<le> MaxArgs p \<and> segment_allowed p seg
             \<and> list_all (validator_accepts pv) (filter (\<lambda>a. prefix ''/'' a) (tl seg))
             \<and> network_ok p seg) segs)"
proof -
  have "segment_allowed p seg \<Longrightarrow> network_rejects p seg = None \<longleftrightarrow> network_ok p seg" for seg
    by (rule network_rejects_iff) (simp add: segment_allowed_def)
  then show ?thesis by (auto simp: sandbox_Decide_iff policy_Decide_iff list_all_iff split: sum.splits)
qed

text \<open>
  C1. Nothing runs unless it was allowed, whatever the operating system does: the processes
  \<open>Exec\<close> starts are the first segments of an allowed pipeline, each run from the absolute path
  the policy resolved for its basename (never the path the caller wrote), with the parsed
  arguments and the scrubbed environment.
\<close>

theorem exec_starts_only_allowed:
  assumes "fst (Exec os (Some \<lparr>sb_Policy = Some p, PathValidator = pv\<rparr>) ctx cmd) = cs" and "cs \<noteq> []"
  shows "Allow (sandbox_Decide (Some \<lparr>sb_Policy = Some p, PathValidator = pv\<rparr>) cmd)
    \<and> (\<exists>segs. SplitPipes cmd = Ok segs \<and> length cs \<le> length segs
        \<and> (\<forall>i<length cs. segment_allowed p (segs ! i)
             \<and> (\<exists>bp. bins p (path_Base (hd (segs ! i))) = Some bp \<and> cm_Path (cs ! i) = AbsPath bp)
             \<and> cm_Args (cs ! i) = tl (segs ! i) \<and> cm_Env (cs ! i) = scrubbed_env))"
proof -
  obtain segs cmds k where *: "SplitPipes cmd = Ok segs"
    "Allow (sandbox_Decide (Some \<lparr>sb_Policy = Some p, PathValidator = pv\<rparr>) cmd)"
    "\<forall>seg\<in>set segs. segment_allowed p seg" "build_cmds p segs = Ok cmds" "cs = take k cmds"
    using assms by (auto elim: Exec_started)
  note rel = build_cmds_Ok[OF *(4)]
  then have "length cmds = length segs" by (simp add: list_all2_lengthD)
  with * list_all2_nthD2[OF rel] show ?thesis by (intro conjI exI[of _ segs]) auto
qed

definition quiet_os :: os_model where
  "quiet_os = (\<lambda>_ _. \<lparr>os_pipe = (\<lambda>_. None), os_start = (\<lambda>_. None), os_stdout = [''out''],
     os_stderr = (\<lambda>_. []), os_wait = (\<lambda>_. None), os_timed_out = False\<rparr>)"

definition demo_look :: "string \<Rightarrow> string option" where
  "demo_look b = Some (''/usr/bin/'' @ b)"

theorem exec_starts_only_allowed_witness:
  "map cm_Path (fst (Exec quiet_os (Some \<lparr>sb_Policy = Some (DefaultReadOnly demo_look),
      PathValidator = (NilValidator :: unit validator)\<rparr>) None ''/tmp/ps aux | grep init''))
     = [''/usr/bin/ps'', ''/usr/bin/grep'']
   \<and> Allow (sandbox_Decide (Some \<lparr>sb_Policy = Some (DefaultReadOnly demo_look),
      PathValidator = (NilValidator :: unit validator)\<rparr>) ''/tmp/ps aux | grep init'')"
proof -
  let ?cs = "fst (Exec quiet_os (Some \<lparr>sb_Policy = Some (DefaultReadOnly demo_look),
      PathValidator = (NilValidator :: unit validator)\<rparr>) None ''/tmp/ps aux | grep init'')"
  have run: "map cm_Path ?cs = [''/usr/bin/ps'', ''/usr/bin/grep'']" by code_simp
  then have "?cs \<noteq> []" by auto
  with exec_starts_only_allowed[OF refl this] run show ?thesis by simp
qed

text \<open>
  With the file gate in place an allowed command names no denied file: every argument
  that starts with a slash, after cleaning and after symlink resolution, lies outside the
  denied directories.
\<close>

theorem sandbox_paths_outside_denied:
  assumes "Allow (sandbox_Decide (Some \<lparr>sb_Policy = Some p,
             PathValidator = Validator (ValidatePath E (Some cfg))\<rparr>) cmd)"
    and "SplitPipes cmd = Ok segs" and "seg \<in> set segs" and "a \<in> set (tl seg)" and "prefix ''/'' a"
  shows "\<not> inside (map path_Clean (DeniedReadPaths cfg)) (path_Clean a)
    \<and> \<not> inside (map path_Clean (DeniedReadPaths cfg)) (resolved_form E a)"
  using assms by (rule host.allowed_paths_safe)

theorem sandbox_paths_outside_denied_witness:
  "\<not> inside (map path_Clean DefaultDeniedReadPaths) (path_Clean ''/var/log'')"
proof -
  have run: "Allow (sandbox_Decide (Some \<lparr>sb_Policy = Some (DefaultReadOnly demo_look),
      PathValidator = Validator (ValidatePath Some (Some (DefaultSandboxConfig demo_look)))\<rparr>) ''ls /var/log'')"
    by code_simp
  have split: "SplitPipes ''ls /var/log'' = Ok [[''ls'', ''/var/log'']]" by code_simp
  from sandbox_paths_outside_denied[OF run split, of "[''ls'', ''/var/log'']" "''/var/log''"]
  show ?thesis by (simp add: DefaultSandboxConfig_def)
qed

text \<open>
  The network allow-list binds network binaries called by their bare name: in an allowed
  command the target host the argument heuristics find is in the allow-list, so with an empty
  list there is none.
\<close>

theorem sandbox_network_allowlist:
  assumes "Allow (sandbox_Decide (Some \<lparr>sb_Policy = Some p, PathValidator = pv\<rparr>) cmd)"
    and "SplitPipes cmd = Ok segs" and "seg \<in> set segs"
    and "bins p (path_Base (hd seg)) = Some bp" and "Class bp = ClassNetwork"
  shows "extractNetworkHost seg = [] \<or>
    (hostAllowed (extractNetworkHost seg) (NetworkHostAllowlist p) \<and> NetworkHostAllowlist p \<noteq> [])"
proof -
  have "network_rejects p seg = None" using assms(1-3) unfolding sandbox_Decide_iff by auto
  then show ?thesis
    using assms(4,5) by (cases seg)
      (auto simp: network_rejects_def Let_def extractNetworkHost_def hostAllowed_def split: if_splits)
qed

theorem sandbox_network_allowlist_witness:
  "hostAllowed ''10.2.3.4'' [''10.0.0.0/8'']"
proof -
  let ?p = "(DefaultReadOnly demo_look)\<lparr>NetworkHostAllowlist := [''10.0.0.0/8'']\<rparr>"
  have run: "Allow (sandbox_Decide (Some \<lparr>sb_Policy = Some ?p, PathValidator = (NilValidator :: unit validator)\<rparr>)
      ''ping -c1 10.2.3.4'')"
    by code_simp
  have split: "SplitPipes ''ping -c1 10.2.3.4'' = Ok [[''ping'', ''-c1'', ''10.2.3.4'']]" by code_simp
  have host: "extractNetworkHost [''ping'', ''-c1'', ''10.2.3.4''] = ''10.2.3.4''" by code_simp
  have cls: "map_option Class (bins ?p (path_Base (hd [''ping'', ''-c1'', ''10.2.3.4'']))) = Some ClassNetwork"
    by code_simp
  then obtain bp where bp: "bins ?p (path_Base (hd [''ping'', ''-c1'', ''10.2.3.4''])) = Some bp" "Class bp = ClassNetwork"
    by (auto simp del: list.sel)
  from sandbox_network_allowlist[OF run split _ bp] host show ?thesis by simp
qed

text \<open>
  A network binary named by a path escapes the network allow-list: under the default
  policy, whose list is empty and so should deny all outbound traffic, \<open>curl\<close> by its bare
  name is refused while the same call through \<open>/usr/bin/curl\<close> is allowed and started.
\<close>

theorem sandbox_network_bypass:
  "let sb = Some \<lparr>sb_Policy = Some (DefaultReadOnly demo_look), PathValidator = (NilValidator :: unit validator)\<rparr>
   in Reason (sandbox_Decide sb ''curl http://evil.example/x'') = NetworkRejected 0 ''evil.example''
    \<and> map cm_Path (fst (Exec quiet_os sb None ''/usr/bin/curl http://evil.example/x'')) = [''/usr/bin/curl'']"
  by code_simp

text \<open>
  Output is bounded and truncation is never silent: a stream with a positive cap holds
  exactly the first \<open>cap\<close> bytes the process wrote, however they were chunked, every write
  reports its full length, and when the truncation flag is off nothing is missing.
\<close>

theorem capped_output:
  "cw_buf (write_all cap chunks) = (if cap > 0 then take (nat cap) (concat chunks) else concat chunks)
   \<and> fst (capWriter_Write w chunk) = length chunk
   \<and> (capHit (write_all cap chunks) \<or> cw_buf (write_all cap chunks) = concat chunks)"
  by (auto simp: write_all_buf capHit_def capWriter_Write_def Let_def)

text \<open>
  When \<open>find\<close> or \<open>du\<close> is missing, \<open>Register\<close> means to switch path validation off, but the
  nil pointer it stores is a non-nil interface value: every command with an absolute path
  argument is refused.
\<close>

theorem register_nil_validator_rejects:
  assumes "Validate (Some (DefaultSandboxConfig LookPath)) \<noteq> None"
    and "Allow (sandbox_Decide (Some (register_sandbox LookPath E override)) cmd)"
  shows "\<exists>segs. SplitPipes cmd = Ok segs \<and> (\<forall>seg\<in>set segs. \<forall>a\<in>set (tl seg). \<not> prefix ''/'' a)"
proof -
  obtain p where "register_sandbox LookPath E override =
      \<lparr>sb_Policy = Some p, PathValidator = Validator (ValidatePath E None)\<rparr>"
    using assms(1) by (simp add: register_sandbox_def Let_def)
  with assms(2) show ?thesis by (auto simp: sandbox_Decide_iff ValidatePath_def)
qed

theorem register_nil_validator_rejects_witness:
  "let L = (\<lambda>b. if b = ''ls'' then Some ''/bin/ls'' else None) in
     Validate (Some (DefaultSandboxConfig L)) = Some (MissingBinary ''find'')
   \<and> Reason (sandbox_Decide (Some (register_sandbox L Some None)) ''ls /var'') = PathRejected 0 1 NotConfigured
   \<and> (\<exists>segs. SplitPipes ''ls -l'' = Ok segs \<and> (\<forall>seg\<in>set segs. \<forall>a\<in>set (tl seg). \<not> prefix ''/'' a))"
proof -
  let ?L = "\<lambda>b. if b = ''ls'' then Some ''/bin/ls'' else None"
  have v: "Validate (Some (DefaultSandboxConfig ?L)) = Some (MissingBinary ''find'')" by code_simp
  have r: "Reason (sandbox_Decide (Some (register_sandbox ?L Some None)) ''ls /var'') = PathRejected 0 1 NotConfigured"
    by code_simp
  have a: "Allow (sandbox_Decide (Some (register_sandbox ?L Some None)) ''ls -l'')" by code_simp
  have "\<exists>segs. SplitPipes ''ls -l'' = Ok segs \<and> (\<forall>seg\<in>set segs. \<forall>a\<in>set (tl seg). \<not> prefix ''/'' a)"
    by (rule register_nil_validator_rejects[OF _ a]) (simp add: v)
  with v r show ?thesis by (simp only: Let_def simp_thms)
qed

text \<open>
  The \<open>bash.exec\<close> handler: without the write gate a request runs something only if the
  sandbox allows its command, and the answer says so; a request that asks for a time limit
  never gets more than five minutes.
\<close>

theorem bash_handler_gate:
  assumes "bash_handler os so ctx (Some req) = Ok (cs, r)" and "\<not> rq_Unrestricted req"
  shows "(Allowed r \<longleftrightarrow> Allow (sandbox_Decide so (rq_Cmd req)))
    \<and> (cs = [] \<or> Allow (sandbox_Decide so (rq_Cmd req)))
    \<and> (rq_Timeout req \<le> 0 \<or> exec_budget (call_ctx ctx (rq_Timeout req)) p \<le> 300 * Second)"
proof -
  have ex: "Exec os so (call_ctx ctx (rq_Timeout req)) (rq_Cmd req) = (cs, r)"
    using assms by (auto simp: bash_handler_def split: if_splits)
  have "Allowed r \<longleftrightarrow> Allow (sandbox_Decide so (rq_Cmd req))"
  proof
    assume "Allowed r" then show "Allow (sandbox_Decide so (rq_Cmd req))"
      using Exec_denied[of so "rq_Cmd req" os "call_ctx ctx (rq_Timeout req)"] ex by auto
  next
    assume al: "Allow (sandbox_Decide so (rq_Cmd req))"
    then obtain s p where "so = Some s" "sb_Policy s = Some p"
      using sandbox_Decide_not_configured[of so "rq_Cmd req"] by (cases so; cases "sb_Policy (the so)") auto
    with al Exec_allowed[of s "rq_Cmd req" p os "call_ctx ctx (rq_Timeout req)"] ex show "Allowed r" by simp
  qed
  moreover have "cs = [] \<or> Allow (sandbox_Decide so (rq_Cmd req))"
    using Exec_denied[of so "rq_Cmd req" os "call_ctx ctx (rq_Timeout req)"] ex by auto
  moreover have "rq_Timeout req \<le> 0 \<or> exec_budget (call_ctx ctx (rq_Timeout req)) p \<le> 300 * Second"
    by (auto simp: exec_budget_def call_ctx_def Let_def split: option.splits)
  ultimately show ?thesis by blast
qed

theorem bash_handler_gate_witness:
  "\<exists>cs r. bash_handler quiet_os (None :: unit Sandbox option) None
       (Some \<lparr>rq_Cmd = ''ls'', rq_Timeout = 1, rq_Unrestricted = False\<rparr>) = Ok (cs, r)
     \<and> \<not> Allowed r \<and> cs = []"
proof -
  let ?req = "\<lparr>rq_Cmd = ''ls'', rq_Timeout = 1, rq_Unrestricted = False\<rparr>"
  have run: "bash_handler quiet_os (None :: unit Sandbox option) None (Some ?req)
      = Ok ([], denied_result SandboxNotConfigured)"
    by (simp add: bash_handler_def Exec_def)
  from bash_handler_gate[OF run] run show ?thesis by (simp add: sandbox_Decide_def)
qed

end
