(* ===== verification/Hitl_Model.thy ===== *)
theory Hitl_Model
  imports Go_Strings
begin

text \<open>
  The data of the human-in-the-loop component, \<^verbatim>\<open>internal/manager/model/hitl\<close>:
  \<open>Proposal\<close>, \<open>ProposalState\<close>, \<open>TransitionFields\<close>, the constants and the state machine
  table \<open>ValidTransitions\<close>. A Go pointer to a value is an option. The JSON payload is the
  string the column holds; a zero \<^verbatim>\<open>time.Time\<close> is \<open>0\<close>.

  The lemmas describe the transition graph: which states are terminal, and that every
  run of it is finite apart from pausing and resuming.
\<close>

section \<open>Constants\<close>

abbreviation "SeveritySafe \<equiv> ''safe''"
abbreviation "SeverityMutating \<equiv> ''mutating''"
abbreviation "SeverityDangerous \<equiv> ''dangerous''"

abbreviation "SensitivityPublic \<equiv> ''public''"
abbreviation "SensitivityInternal \<equiv> ''internal''"
abbreviation "SensitivityConfidential \<equiv> ''confidential''"
abbreviation "SensitivityRestricted \<equiv> ''restricted''"
abbreviation "SensitivityTopSecret \<equiv> ''top_secret''"

abbreviation "SourceAgent \<equiv> ''agent''"
abbreviation "SourceMigration \<equiv> ''migration''"

abbreviation "KindAgentTeams \<equiv> ''agentteams_hitl''"

definition StatePending :: string where "StatePending = ''pending''"
definition StateApproved :: string where "StateApproved = ''approved''"
definition StateRejected :: string where "StateRejected = ''rejected''"
definition StateExpired :: string where "StateExpired = ''expired''"
definition StateExecuted :: string where "StateExecuted = ''executed''"
definition StateFailed :: string where "StateFailed = ''failed''"
definition StateExecuting :: string where "StateExecuting = ''executing''"
definition StatePaused :: string where "StatePaused = ''paused''"
definition StateResumed :: string where "StateResumed = ''resumed''"
definition StateRolledBack :: string where "StateRolledBack = ''rolled_back''"

lemmas state_defs = StatePending_def StateApproved_def StateRejected_def StateExpired_def
  StateExecuted_def StateFailed_def StateExecuting_def StatePaused_def StateResumed_def
  StateRolledBack_def

section \<open>Rows\<close>

record Proposal =
  p_ID :: string
  p_Kind :: string
  p_LegacyKind :: string
  p_Title :: string
  p_Summary :: string
  p_PayloadJSON :: string
  p_Source :: string
  p_SessionID :: string
  p_MessageID :: string
  p_IdempotencyKey :: "string option"
  p_ProposedBy :: uint64
  p_ApprovedBy :: "uint64 option"
  p_RejectedBy :: "uint64 option"
  p_PausedBy :: "uint64 option"
  p_ResumedBy :: "uint64 option"
  p_Severity :: string
  p_Sensitivity :: string
  p_State :: string
  p_Reason :: "string option"
  p_ResultJSON :: "string option"
  p_PausedAt :: "instant option"
  p_ResumedAt :: "instant option"
  p_PauseStateVersion :: int
  p_ExpiresAt :: "instant option"
  p_DryRunDiffURL :: "string option"
  p_IMThreadID :: "string option"
  p_MatrixEventID :: string
  p_ExecutionLeaseExpiresAt :: "instant option"
  p_DualWriteAt :: "instant option"
  p_CreatedAt :: instant
  p_DecidedAt :: "instant option"
  p_ExecutedAt :: "instant option"
  p_UpdatedAt :: instant

record ProposalState =
  ps_ProposalID :: string
  ps_StateVersion :: int
  ps_TokenBlob :: string
  ps_CreatedAt :: instant
  ps_UpdatedAt :: instant

record TransitionFields =
  f_ToState :: string
  f_ApprovedBy :: "uint64 option"
  f_RejectedBy :: "uint64 option"
  f_PausedBy :: "uint64 option"
  f_ResumedBy :: "uint64 option"
  f_Reason :: "string option"
  f_ResultJSON :: "string option"
  f_ExpiresAt :: "instant option"
  f_DecidedAt :: "instant option"
  f_ExecutedAt :: "instant option"
  f_PausedAt :: "instant option"
  f_ResumedAt :: "instant option"
  f_IMThreadID :: "string option"
  f_MatrixEventID :: "string option"
  f_DryRunDiffURL :: "string option"
  f_ExecutionLeaseExpiresAt :: "instant option"
  f_IncrementPauseStateVersion :: bool

text \<open>The composite literal \<^verbatim>\<open>TransitionFields{ToState: to}\<close>.\<close>

definition to_state :: "string \<Rightarrow> TransitionFields" where
  "to_state s =
     \<lparr>f_ToState = s, f_ApprovedBy = None, f_RejectedBy = None, f_PausedBy = None, f_ResumedBy = None,
      f_Reason = None, f_ResultJSON = None, f_ExpiresAt = None, f_DecidedAt = None,
      f_ExecutedAt = None, f_PausedAt = None, f_ResumedAt = None, f_IMThreadID = None,
      f_MatrixEventID = None, f_DryRunDiffURL = None, f_ExecutionLeaseExpiresAt = None,
      f_IncrementPauseStateVersion = False\<rparr>"

definition zero_proposal :: Proposal where
  "zero_proposal =
     \<lparr>p_ID = [], p_Kind = [], p_LegacyKind = [], p_Title = [], p_Summary = [], p_PayloadJSON = [],
      p_Source = [], p_SessionID = [], p_MessageID = [], p_IdempotencyKey = None, p_ProposedBy = 0,
      p_ApprovedBy = None, p_RejectedBy = None, p_PausedBy = None, p_ResumedBy = None,
      p_Severity = [], p_Sensitivity = [], p_State = [], p_Reason = None, p_ResultJSON = None,
      p_PausedAt = None, p_ResumedAt = None, p_PauseStateVersion = 0, p_ExpiresAt = None,
      p_DryRunDiffURL = None, p_IMThreadID = None, p_MatrixEventID = [],
      p_ExecutionLeaseExpiresAt = None, p_DualWriteAt = None, p_CreatedAt = 0, p_DecidedAt = None,
      p_ExecutedAt = None, p_UpdatedAt = 0\<rparr>"

definition BeforeCreate :: "string \<Rightarrow> Proposal \<Rightarrow> Proposal" where
  "BeforeCreate uuid p = (if p_ID p = [] then p\<lparr>p_ID := uuid\<rparr> else p)"

section \<open>The state machine\<close>

definition ValidTransitions :: "string \<rightharpoonup> string list" where
  "ValidTransitions = map_of
     [(StatePending, [StateApproved, StateRejected, StateExpired, StatePaused]),
      (StateApproved, [StateExecuting, StateExecuted, StateFailed, StatePaused, StateRolledBack]),
      (StatePaused, [StateResumed, StateRejected, StateExpired]),
      (StateResumed, [StateExecuted, StateFailed, StatePaused, StateRolledBack]),
      (StateExecuting, [StateExecuted, StateFailed]),
      (StateRejected, []),
      (StateExpired, []),
      (StateExecuted, [StateRolledBack]),
      (StateFailed, []),
      (StateRolledBack, [])]"

definition IsTerminal :: "string \<Rightarrow> bool" where
  "IsTerminal s \<longleftrightarrow> s = StateExecuted \<or> s = StateRejected \<or> s = StateExpired \<or> s = StateFailed
     \<or> s = StateRolledBack"

definition IsValidTransition :: "string \<Rightarrow> string \<Rightarrow> bool" where
  "IsValidTransition from to =
     (case ValidTransitions from of None \<Rightarrow> False | Some dests \<Rightarrow> list_ex (\<lambda>d. d = to) dests)"

definition all_states :: "string list" where
  "all_states = [StatePending, StateApproved, StateRejected, StateExpired, StateExecuted, StateFailed,
     StateExecuting, StatePaused, StateResumed, StateRolledBack]"

section \<open>The transition graph\<close>

lemma states_neq [simp]:
  "StatePending \<noteq> StateApproved" "StatePending \<noteq> StateRejected" "StatePending \<noteq> StateExpired"
  "StatePending \<noteq> StateExecuted" "StatePending \<noteq> StateFailed" "StatePending \<noteq> StateExecuting"
  "StatePending \<noteq> StatePaused" "StatePending \<noteq> StateResumed" "StatePending \<noteq> StateRolledBack"
  "StateApproved \<noteq> StatePending" "StateApproved \<noteq> StateRejected" "StateApproved \<noteq> StateExpired"
  "StateApproved \<noteq> StateExecuted" "StateApproved \<noteq> StateFailed" "StateApproved \<noteq> StateExecuting"
  "StateApproved \<noteq> StatePaused" "StateApproved \<noteq> StateResumed" "StateApproved \<noteq> StateRolledBack"
  "StateRejected \<noteq> StatePending" "StateRejected \<noteq> StateApproved" "StateRejected \<noteq> StateExpired"
  "StateRejected \<noteq> StateExecuted" "StateRejected \<noteq> StateFailed" "StateRejected \<noteq> StateExecuting"
  "StateRejected \<noteq> StatePaused" "StateRejected \<noteq> StateResumed" "StateRejected \<noteq> StateRolledBack"
  "StateExpired \<noteq> StatePending" "StateExpired \<noteq> StateApproved" "StateExpired \<noteq> StateRejected"
  "StateExpired \<noteq> StateExecuted" "StateExpired \<noteq> StateFailed" "StateExpired \<noteq> StateExecuting"
  "StateExpired \<noteq> StatePaused" "StateExpired \<noteq> StateResumed" "StateExpired \<noteq> StateRolledBack"
  "StateExecuted \<noteq> StatePending" "StateExecuted \<noteq> StateApproved" "StateExecuted \<noteq> StateRejected"
  "StateExecuted \<noteq> StateExpired" "StateExecuted \<noteq> StateFailed" "StateExecuted \<noteq> StateExecuting"
  "StateExecuted \<noteq> StatePaused" "StateExecuted \<noteq> StateResumed" "StateExecuted \<noteq> StateRolledBack"
  "StateFailed \<noteq> StatePending" "StateFailed \<noteq> StateApproved" "StateFailed \<noteq> StateRejected"
  "StateFailed \<noteq> StateExpired" "StateFailed \<noteq> StateExecuted" "StateFailed \<noteq> StateExecuting"
  "StateFailed \<noteq> StatePaused" "StateFailed \<noteq> StateResumed" "StateFailed \<noteq> StateRolledBack"
  "StateExecuting \<noteq> StatePending" "StateExecuting \<noteq> StateApproved" "StateExecuting \<noteq> StateRejected"
  "StateExecuting \<noteq> StateExpired" "StateExecuting \<noteq> StateExecuted" "StateExecuting \<noteq> StateFailed"
  "StateExecuting \<noteq> StatePaused" "StateExecuting \<noteq> StateResumed" "StateExecuting \<noteq> StateRolledBack"
  "StatePaused \<noteq> StatePending" "StatePaused \<noteq> StateApproved" "StatePaused \<noteq> StateRejected"
  "StatePaused \<noteq> StateExpired" "StatePaused \<noteq> StateExecuted" "StatePaused \<noteq> StateFailed"
  "StatePaused \<noteq> StateExecuting" "StatePaused \<noteq> StateResumed" "StatePaused \<noteq> StateRolledBack"
  "StateResumed \<noteq> StatePending" "StateResumed \<noteq> StateApproved" "StateResumed \<noteq> StateRejected"
  "StateResumed \<noteq> StateExpired" "StateResumed \<noteq> StateExecuted" "StateResumed \<noteq> StateFailed"
  "StateResumed \<noteq> StateExecuting" "StateResumed \<noteq> StatePaused" "StateResumed \<noteq> StateRolledBack"
  "StateRolledBack \<noteq> StatePending" "StateRolledBack \<noteq> StateApproved" "StateRolledBack \<noteq> StateRejected"
  "StateRolledBack \<noteq> StateExpired" "StateRolledBack \<noteq> StateExecuted" "StateRolledBack \<noteq> StateFailed"
  "StateRolledBack \<noteq> StateExecuting" "StateRolledBack \<noteq> StatePaused" "StateRolledBack \<noteq> StateResumed"
  by (simp_all add: state_defs)

lemma IsValidTransition_iff [hitl_simps]:
  "IsValidTransition s t \<longleftrightarrow>
     (s = StatePending \<and> t \<in> {StateApproved, StateRejected, StateExpired, StatePaused})
     \<or> (s = StateApproved \<and> t \<in> {StateExecuting, StateExecuted, StateFailed, StatePaused, StateRolledBack})
     \<or> (s = StatePaused \<and> t \<in> {StateResumed, StateRejected, StateExpired})
     \<or> (s = StateResumed \<and> t \<in> {StateExecuted, StateFailed, StatePaused, StateRolledBack})
     \<or> (s = StateExecuting \<and> t \<in> {StateExecuted, StateFailed})
     \<or> (s = StateExecuted \<and> t = StateRolledBack)"
  by (simp add: IsValidTransition_def ValidTransitions_def eq_commute[of _ t])

end
