(* ===== verification/Hitl_Repo.thy ===== *)
theory Hitl_Repo
  imports Hitl_Model
begin

text \<open>
  The interface \<open>Repo\<close> of \<^verbatim>\<open>internal/manager/biz/hitl/proposal.go\<close>: what the service
  calls of its store. The interface value is a record of its methods over a store state
  \<open>'s\<close>; a method returns its result and the new state. The locale \<open>hitl_repo\<close> is the
  contract: \<open>props\<close> and \<open>rows\<close> are the proposals and the saved resume tokens a store state
  holds, \<open>good\<close> is the store's own invariant, and a call that returns an error leaves the
  tables as they were.
\<close>

section \<open>Errors and column updates\<close>

datatype hitl_error =
    ErrInvalid | ErrConflict | ErrNotFound | ErrStateConflict | DuplicateKey
  | DriverError string | InvalidTransition string string
  | NilProposal | KindRequired
  | CannotPause string | CannotResume string | CannotComplete string
  | NotPaused string string | EmptyToken | BadToken | VersionMismatch int int
  | ErrProposalMismatch | BadPayload

text \<open>Columns with a default take it when the field is zero; creation and update times are filled in.\<close>

definition with_defaults :: "instant \<Rightarrow> Proposal \<Rightarrow> Proposal" where
  "with_defaults now p =
     p\<lparr>p_Source := (if p_Source p = [] then SourceAgent else p_Source p),
       p_Severity := (if p_Severity p = [] then SeverityMutating else p_Severity p),
       p_Sensitivity := (if p_Sensitivity p = [] then SensitivityInternal else p_Sensitivity p),
       p_State := (if p_State p = [] then StatePending else p_State p),
       p_CreatedAt := (if p_CreatedAt p = 0 then now else p_CreatedAt p),
       p_UpdatedAt := (if p_UpdatedAt p = 0 then now else p_UpdatedAt p)\<rparr>"

definition opt_or :: "'a option \<Rightarrow> 'a option \<Rightarrow> 'a option" where
  "opt_or new old = (case new of Some v \<Rightarrow> Some v | None \<Rightarrow> old)"

definition apply_fields :: "instant \<Rightarrow> TransitionFields \<Rightarrow> Proposal \<Rightarrow> Proposal" where
  "apply_fields now f p =
     p\<lparr>p_State := f_ToState f,
       p_UpdatedAt := now,
       p_ApprovedBy := opt_or (f_ApprovedBy f) (p_ApprovedBy p),
       p_RejectedBy := opt_or (f_RejectedBy f) (p_RejectedBy p),
       p_PausedBy := opt_or (f_PausedBy f) (p_PausedBy p),
       p_ResumedBy := opt_or (f_ResumedBy f) (p_ResumedBy p),
       p_Reason := opt_or (f_Reason f) (p_Reason p),
       p_ResultJSON := opt_or (f_ResultJSON f) (p_ResultJSON p),
       p_ExpiresAt := opt_or (f_ExpiresAt f) (p_ExpiresAt p),
       p_DecidedAt := opt_or (f_DecidedAt f) (p_DecidedAt p),
       p_ExecutedAt := opt_or (f_ExecutedAt f) (p_ExecutedAt p),
       p_PausedAt := opt_or (f_PausedAt f) (p_PausedAt p),
       p_ResumedAt := opt_or (f_ResumedAt f) (p_ResumedAt p),
       p_IMThreadID := opt_or (f_IMThreadID f) (p_IMThreadID p),
       p_MatrixEventID := (case f_MatrixEventID f of Some v \<Rightarrow> v | None \<Rightarrow> p_MatrixEventID p),
       p_DryRunDiffURL := opt_or (f_DryRunDiffURL f) (p_DryRunDiffURL p),
       p_ExecutionLeaseExpiresAt := opt_or (f_ExecutionLeaseExpiresAt f) (p_ExecutionLeaseExpiresAt p),
       p_PauseStateVersion := (if f_IncrementPauseStateVersion f then p_PauseStateVersion p + 1
                               else p_PauseStateVersion p)\<rparr>"

section \<open>The interface\<close>

record 's Repo =
  rp_Create :: "Proposal \<Rightarrow> 's \<Rightarrow> (hitl_error, Proposal) result \<times> 's"
  rp_CreateAgentTeamsIdempotent :: "Proposal \<Rightarrow> 's \<Rightarrow> (hitl_error, Proposal) result \<times> 's"
  rp_Get :: "string \<Rightarrow> 's \<Rightarrow> (hitl_error, Proposal) result \<times> 's"
  rp_List :: "string \<Rightarrow> int \<Rightarrow> int \<Rightarrow> 's \<Rightarrow> (hitl_error, Proposal list \<times> nat) result \<times> 's"
  rp_CountByState :: "string \<Rightarrow> 's \<Rightarrow> (hitl_error, nat) result \<times> 's"
  rp_CountByLegacyKind :: "string \<Rightarrow> 's \<Rightarrow> (hitl_error, nat) result \<times> 's"
  rp_Transition :: "string \<Rightarrow> string \<Rightarrow> TransitionFields \<Rightarrow> 's \<Rightarrow> hitl_error err \<times> 's"
  rp_SetResult :: "string \<Rightarrow> string \<Rightarrow> string \<Rightarrow> instant \<Rightarrow> 's \<Rightarrow> hitl_error err \<times> 's"
  rp_UpsertState :: "ProposalState \<Rightarrow> 's \<Rightarrow> hitl_error err \<times> 's"
  rp_LoadState :: "string \<Rightarrow> 's \<Rightarrow> (hitl_error, ProposalState) result \<times> 's"
  rp_DeleteState :: "string \<Rightarrow> 's \<Rightarrow> hitl_error err \<times> 's"

section \<open>The contract\<close>

locale hitl_repo =
  fixes repo :: "'s Repo"
    and props :: "'s \<Rightarrow> string \<rightharpoonup> Proposal"
    and rows :: "'s \<Rightarrow> string \<rightharpoonup> ProposalState"
    and good :: "'s \<Rightarrow> bool"
  assumes ids: "good s \<Longrightarrow> props s i = Some q \<Longrightarrow> p_ID q = i"
    and create_ok:
      "good s \<Longrightarrow> rp_Create repo p s = (Ok q, s') \<Longrightarrow>
         (\<exists>u now. q = with_defaults now (BeforeCreate u p)) \<and> props s (p_ID q) = None
         \<and> props s' = (props s)(p_ID q \<mapsto> q) \<and> rows s' = rows s \<and> good s'"
    and create_err:
      "good s \<Longrightarrow> rp_Create repo p s = (Err err, s') \<Longrightarrow> props s' = props s \<and> rows s' = rows s \<and> good s'"
    and idempotent_ok:
      "good s \<Longrightarrow> rp_CreateAgentTeamsIdempotent repo p s = (Ok q, s') \<Longrightarrow>
         rows s' = rows s \<and> good s' \<and> props s' (p_ID q) = Some q
         \<and> p_IdempotencyKey q = p_IdempotencyKey p \<and> p_Kind q = p_Kind p
         \<and> p_SessionID q = p_SessionID p \<and> p_MessageID q = p_MessageID p \<and> p_PayloadJSON q = p_PayloadJSON p
         \<and> (props s' = props s \<or>
             (\<exists>u now. q = with_defaults now (BeforeCreate u p)) \<and> props s (p_ID q) = None
             \<and> props s' = (props s)(p_ID q \<mapsto> q))"
    and idempotent_err:
      "good s \<Longrightarrow> rp_CreateAgentTeamsIdempotent repo p s = (Err err, s') \<Longrightarrow>
         props s' = props s \<and> rows s' = rows s \<and> good s'"
    and get:
      "good s \<Longrightarrow> rp_Get repo i s = (g, s') \<Longrightarrow>
         props s' = props s \<and> rows s' = rows s \<and> good s' \<and> (\<forall>p. g = Ok p \<longrightarrow> props s i = Some p)"
    and transition_ok:
      "good s \<Longrightarrow> rp_Transition repo i from f s = (None, s') \<Longrightarrow>
         IsValidTransition from (f_ToState f) \<and> rows s' = rows s \<and> good s'
         \<and> (\<exists>p now. props s i = Some p \<and> p_State p = from \<and> props s' = (props s)(i \<mapsto> apply_fields now f p))"
    and transition_err:
      "good s \<Longrightarrow> rp_Transition repo i from f s = (Some err, s') \<Longrightarrow>
         props s' = props s \<and> rows s' = rows s \<and> good s'"
    and upsert:
      "good s \<Longrightarrow> rp_UpsertState repo st s = (r, s') \<Longrightarrow>
         props s' = props s \<and> good s' \<and> rows s' = (if r = None then (rows s)(ps_ProposalID st \<mapsto> st) else rows s)"
    and load:
      "good s \<Longrightarrow> rp_LoadState repo i s = (l, s') \<Longrightarrow>
         props s' = props s \<and> rows s' = rows s \<and> good s' \<and> (\<forall>st. l = Ok st \<longrightarrow> rows s i = Some st)"
    and delete:
      "good s \<Longrightarrow> rp_DeleteState repo i s = (r, s') \<Longrightarrow>
         props s' = props s \<and> good s' \<and> rows s' = (if r = None then (rows s)(i := None) else rows s)"
    and set_result:
      "good s \<Longrightarrow> rp_SetResult repo i to res at s = (r, s') \<Longrightarrow> rows s' = rows s \<and> good s'"

end
