(* ===== verification/Hitl_Store.thy ===== *)
theory Hitl_Store
  imports Hitl_Repo
begin

text \<open>
  The proposal store, \<^verbatim>\<open>internal/manager/data/hitl/store/store.go\<close>, over a model of the
  two tables: \<open>t_proposal\<close> is the list of rows of \<^verbatim>\<open>proposal\<close> in insertion order and
  \<open>t_state\<close> the rows of \<^verbatim>\<open>proposal_state\<close> by their primary key. A statement of the
  database driver may fail: \<open>faults\<close> is the script of outcomes, one per statement, and a
  failing statement changes nothing. \<open>clock\<close> is the database host's time and \<open>uuids\<close> the
  identifiers \<^verbatim>\<open>uuid.NewString\<close> will return. A primary key or a unique index that
  already holds the value makes an insert fail.

  The time columns of \<^verbatim>\<open>proposal_state\<close> are the values the caller passes.

  The locale \<open>hitl_repo\<close> states what \<^verbatim>\<open>biz/hitl\<close> relies on through its \<open>Repo\<close>
  interface; it is interpreted on this store.
\<close>

section \<open>The database\<close>

record hitl_db =
  t_proposal :: "Proposal list"
  t_state :: "string \<rightharpoonup> ProposalState"
  faults :: "string option list"
  clock :: instant
  uuids :: "string list"

text \<open>Run one statement: the head of the script decides whether the driver fails.\<close>

definition next_fault :: "hitl_db \<Rightarrow> string option \<times> hitl_db" where
  "next_fault db =
     (case faults db of
        [] \<Rightarrow> (None, db)
      | f # fs \<Rightarrow> (f, db\<lparr>faults := fs\<rparr>))"

definition find_proposal :: "hitl_db \<Rightarrow> string \<Rightarrow> Proposal option" where
  "find_proposal db pid = find (\<lambda>p. p_ID p = pid) (t_proposal db)"

definition find_by_key :: "hitl_db \<Rightarrow> string \<Rightarrow> Proposal option" where
  "find_by_key db key = find (\<lambda>p. p_IdempotencyKey p = Some key) (t_proposal db)"

definition next_uuid :: "hitl_db \<Rightarrow> string" where
  "next_uuid db = (case uuids db of [] \<Rightarrow> ''uuid'' | u # _ \<Rightarrow> u)"

definition insert_proposal :: "Proposal \<Rightarrow> hitl_db \<Rightarrow> (hitl_error, Proposal) result \<times> hitl_db" where
  "insert_proposal p0 db0 =
     (let (fault, db1) = next_fault db0;
          p = with_defaults (clock db1) (BeforeCreate (next_uuid db1) p0);
          db = db1\<lparr>uuids := (if p_ID p0 = [] then tl (uuids db1) else uuids db1)\<rparr>
      in case fault of
           Some e \<Rightarrow> (Err (DriverError e), db)
         | None \<Rightarrow>
             if find_proposal db (p_ID p) \<noteq> None
                \<or> (p_IdempotencyKey p \<noteq> None \<and> find_by_key db (the (p_IdempotencyKey p)) \<noteq> None)
             then (Err DuplicateKey, db)
             else (Ok p, db\<lparr>t_proposal := t_proposal db @ [p]\<rparr>))"

section \<open>The operations\<close>

definition Create :: "Proposal \<Rightarrow> hitl_db \<Rightarrow> (hitl_error, Proposal) result \<times> hitl_db" where
  "Create p db = insert_proposal p db"

definition assertSame :: "Proposal \<Rightarrow> Proposal \<Rightarrow> hitl_error err" where
  "assertSame ins existing =
     (if p_Kind ins \<noteq> p_Kind existing \<or> p_SessionID ins \<noteq> p_SessionID existing
         \<or> p_MessageID ins \<noteq> p_MessageID existing \<or> p_PayloadJSON ins \<noteq> p_PayloadJSON existing
      then Some ErrConflict else None)"

definition getByIdempotencyKey :: "string \<Rightarrow> hitl_db \<Rightarrow> (hitl_error, Proposal) result \<times> hitl_db" where
  "getByIdempotencyKey key db0 =
     (let (fault, db) = next_fault db0 in
      case fault of
        Some e \<Rightarrow> (Err (DriverError e), db)
      | None \<Rightarrow> (case find_by_key db key of None \<Rightarrow> Err ErrNotFound | Some p \<Rightarrow> Ok p, db))"

text \<open>The transaction of \<^verbatim>\<open>CreateAgentTeamsIdempotent\<close>: query, then compare or insert.\<close>

definition idempotent_tx :: "Proposal \<Rightarrow> string \<Rightarrow> hitl_db \<Rightarrow> (hitl_error, Proposal) result \<times> hitl_db" where
  "idempotent_tx p key db0 =
     (let (fault, db) = next_fault db0 in
      case fault of
        Some e \<Rightarrow> (Err (DriverError e), db)
      | None \<Rightarrow>
          (case find_by_key db key of
             Some existing \<Rightarrow>
               (case assertSame p existing of Some e \<Rightarrow> (Err e, db) | None \<Rightarrow> (Ok existing, db))
           | None \<Rightarrow> insert_proposal p db))"

definition CreateAgentTeamsIdempotent :: "Proposal \<Rightarrow> hitl_db \<Rightarrow> (hitl_error, Proposal) result \<times> hitl_db" where
  "CreateAgentTeamsIdempotent p db0 =
     (case p_IdempotencyKey p of
        None \<Rightarrow> (Err ErrInvalid, db0)
      | Some key \<Rightarrow>
          if key = [] then (Err ErrInvalid, db0)
          else case idempotent_tx p key db0 of
            (Ok q, db) \<Rightarrow> (Ok q, db)
          | (Err e, db) \<Rightarrow>
              (case getByIdempotencyKey key db of
                 (Ok existing, db') \<Rightarrow>
                   (case assertSame p existing of Some e' \<Rightarrow> (Err e', db') | None \<Rightarrow> (Ok existing, db'))
               | (Err _, db') \<Rightarrow> (Err e, db')))"

definition Get :: "string \<Rightarrow> hitl_db \<Rightarrow> (hitl_error, Proposal) result \<times> hitl_db" where
  "Get pid db0 =
     (let (fault, db) = next_fault db0 in
      case fault of
        Some e \<Rightarrow> (Err (DriverError e), db)
      | None \<Rightarrow> (case find_proposal db pid of None \<Rightarrow> Err ErrNotFound | Some p \<Rightarrow> Ok p, db))"

fun insert_desc :: "Proposal \<Rightarrow> Proposal list \<Rightarrow> Proposal list" where
  "insert_desc p [] = [p]"
| "insert_desc p (q # qs) = (if p_CreatedAt q \<ge> p_CreatedAt p then q # insert_desc p qs else p # q # qs)"

definition order_created_desc :: "Proposal list \<Rightarrow> Proposal list" where
  "order_created_desc ps = foldl (\<lambda>acc p. insert_desc p acc) [] ps"

definition List_proposals :: "string \<Rightarrow> int \<Rightarrow> int \<Rightarrow> hitl_db \<Rightarrow> (hitl_error, Proposal list \<times> nat) result \<times> hitl_db" where
  "List_proposals state limit0 offset db0 =
     (let limit = (if limit0 \<le> 0 then 100 else limit0);
          (f1, db1) = next_fault db0
      in case f1 of
           Some e \<Rightarrow> (Err (DriverError e), db1)
         | None \<Rightarrow>
             (let rows = filter (\<lambda>p. state = [] \<or> p_State p = state) (t_proposal db1);
                  (f2, db2) = next_fault db1
              in case f2 of
                   Some e \<Rightarrow> (Err (DriverError e), db2)
                 | None \<Rightarrow> (Ok (take (nat limit) (drop (nat offset) (order_created_desc rows)), length rows), db2)))"

definition count_where :: "(Proposal \<Rightarrow> bool) \<Rightarrow> hitl_db \<Rightarrow> (hitl_error, nat) result \<times> hitl_db" where
  "count_where P db0 =
     (let (fault, db) = next_fault db0 in
      case fault of
        Some e \<Rightarrow> (Err (DriverError e), db)
      | None \<Rightarrow> (Ok (length (filter P (t_proposal db))), db))"

definition CountByState :: "string \<Rightarrow> hitl_db \<Rightarrow> (hitl_error, nat) result \<times> hitl_db" where
  "CountByState state = count_where (\<lambda>p. p_State p = state)"

definition CountByLegacyKind :: "string \<Rightarrow> hitl_db \<Rightarrow> (hitl_error, nat) result \<times> hitl_db" where
  "CountByLegacyKind k = count_where (\<lambda>p. p_LegacyKind p = k)"

text \<open>\<^verbatim>\<open>UPDATE proposal SET .. WHERE ..\<close>: the rows updated and their number.\<close>

definition update_where :: "(Proposal \<Rightarrow> bool) \<Rightarrow> (Proposal \<Rightarrow> Proposal) \<Rightarrow> hitl_db
    \<Rightarrow> (hitl_error, nat) result \<times> hitl_db" where
  "update_where P g db0 =
     (let (fault, db) = next_fault db0 in
      case fault of
        Some e \<Rightarrow> (Err (DriverError e), db)
      | None \<Rightarrow> (Ok (length (filter P (t_proposal db))),
                 db\<lparr>t_proposal := map (\<lambda>p. if P p then g p else p) (t_proposal db)\<rparr>))"

definition Transition :: "string \<Rightarrow> string \<Rightarrow> TransitionFields \<Rightarrow> hitl_db \<Rightarrow> hitl_error err \<times> hitl_db" where
  "Transition pid expectedFrom f db0 =
     (if \<not> IsValidTransition expectedFrom (f_ToState f)
      then (Some (InvalidTransition expectedFrom (f_ToState f)), db0)
      else case update_where (\<lambda>p. p_ID p = pid \<and> p_State p = expectedFrom)
                  (apply_fields (clock db0) f) db0 of
             (Err e, db) \<Rightarrow> (Some e, db)
           | (Ok n, db) \<Rightarrow> (if n = 0 then Some ErrStateConflict else None, db))"

definition SetResult :: "string \<Rightarrow> string \<Rightarrow> string \<Rightarrow> instant \<Rightarrow> hitl_db \<Rightarrow> hitl_error err \<times> hitl_db" where
  "SetResult pid state resultJSON executedAt db0 =
     (case update_where (\<lambda>p. p_ID p = pid)
             (\<lambda>p. p\<lparr>p_State := state, p_ResultJSON := Some resultJSON, p_ExecutedAt := Some executedAt,
                    p_UpdatedAt := clock db0\<rparr>) db0 of
        (Err e, db) \<Rightarrow> (Some e, db)
      | (Ok _, db) \<Rightarrow> (None, db))"

definition UpsertState :: "ProposalState \<Rightarrow> hitl_db \<Rightarrow> hitl_error err \<times> hitl_db" where
  "UpsertState st db0 =
     (let (fault, db) = next_fault db0 in
      case fault of
        Some e \<Rightarrow> (Some (DriverError e), db)
      | None \<Rightarrow> (None, db\<lparr>t_state := (t_state db)(ps_ProposalID st \<mapsto> st)\<rparr>))"

definition LoadState :: "string \<Rightarrow> hitl_db \<Rightarrow> (hitl_error, ProposalState) result \<times> hitl_db" where
  "LoadState pid db0 =
     (let (fault, db) = next_fault db0 in
      case fault of
        Some e \<Rightarrow> (Err (DriverError e), db)
      | None \<Rightarrow> (case t_state db pid of None \<Rightarrow> Err ErrNotFound | Some st \<Rightarrow> Ok st, db))"

definition DeleteState :: "string \<Rightarrow> hitl_db \<Rightarrow> hitl_error err \<times> hitl_db" where
  "DeleteState pid db0 =
     (let (fault, db) = next_fault db0 in
      case fault of
        Some e \<Rightarrow> (Some (DriverError e), db)
      | None \<Rightarrow> (None, db\<lparr>t_state := (t_state db)(pid := None)\<rparr>))"

definition store_repo :: "hitl_db Repo" where
  "store_repo =
     \<lparr>rp_Create = Create, rp_CreateAgentTeamsIdempotent = CreateAgentTeamsIdempotent, rp_Get = Get,
      rp_List = List_proposals, rp_CountByState = CountByState, rp_CountByLegacyKind = CountByLegacyKind,
      rp_Transition = Transition, rp_SetResult = SetResult, rp_UpsertState = UpsertState,
      rp_LoadState = LoadState, rp_DeleteState = DeleteState\<rparr>"

section \<open>The store keeps its contract\<close>

definition keys_of :: "Proposal list \<Rightarrow> string list" where
  "keys_of ps = concat (map (\<lambda>p. case p_IdempotencyKey p of None \<Rightarrow> [] | Some k \<Rightarrow> [k]) ps)"

text \<open>The primary key and the unique index hold.\<close>

definition db_ok :: "hitl_db \<Rightarrow> bool" where
  "db_ok db \<longleftrightarrow> distinct (map p_ID (t_proposal db)) \<and> distinct (keys_of (t_proposal db))"

lemma next_fault_keeps:
  "next_fault db = (f, db') \<Longrightarrow> t_proposal db' = t_proposal db \<and> t_state db' = t_state db \<and> clock db' = clock db"
  by (auto simp: next_fault_def split: list.splits)

lemma find_proposal_keeps: "t_proposal db' = t_proposal db \<Longrightarrow> find_proposal db' = find_proposal db"
  by (simp add: find_proposal_def fun_eq_iff)

lemma find_by_key_keeps: "t_proposal db' = t_proposal db \<Longrightarrow> find_by_key db' = find_by_key db"
  by (simp add: find_by_key_def fun_eq_iff)

lemma db_ok_keeps: "t_proposal db' = t_proposal db \<Longrightarrow> db_ok db' = db_ok db"
  by (simp add: db_ok_def)

lemma keys_of_append [simp]: "keys_of (ps @ qs) = keys_of ps @ keys_of qs"
  by (simp add: keys_of_def)

lemma set_keys_of: "k \<in> set (keys_of ps) \<longleftrightarrow> (\<exists>p\<in>set ps. p_IdempotencyKey p = Some k)"
  by (force simp: keys_of_def split: option.splits)

lemma keys_of_map: "(\<And>p. p_IdempotencyKey (g p) = p_IdempotencyKey p) \<Longrightarrow> keys_of (map g ps) = keys_of ps"
  by (simp add: keys_of_def comp_def)

lemma find_proposal_Some: "find_proposal db i = Some p \<Longrightarrow> p_ID p = i \<and> p \<in> set (t_proposal db)"
  by (auto simp: find_proposal_def dest: find_Some_mem)

lemma find_by_key_Some: "find_by_key db k = Some p \<Longrightarrow> p_IdempotencyKey p = Some k \<and> p \<in> set (t_proposal db)"
  by (auto simp: find_by_key_def dest: find_Some_mem)

lemma find_proposal_mem: "db_ok db \<Longrightarrow> p \<in> set (t_proposal db) \<Longrightarrow> find_proposal db (p_ID p) = Some p"
proof -
  have "distinct (map p_ID ps) \<Longrightarrow> p \<in> set ps \<Longrightarrow> find (\<lambda>q. p_ID q = p_ID p) ps = Some p" for ps
    by (induction ps) (auto simp: image_iff)
  then show "db_ok db \<Longrightarrow> p \<in> set (t_proposal db) \<Longrightarrow> find_proposal db (p_ID p) = Some p"
    by (simp add: db_ok_def find_proposal_def)
qed

lemma db_ok_snoc:
  assumes "db_ok db" "find_proposal db (p_ID q) = None"
    and "p_IdempotencyKey q = None \<or> find_by_key db (the (p_IdempotencyKey q)) = None"
    and "t_proposal db' = t_proposal db @ [q]"
  shows "db_ok db' \<and> find_proposal db' = (find_proposal db)(p_ID q \<mapsto> q)"
proof
  have "set (keys_of [q]) \<inter> set (keys_of (t_proposal db)) = {}"
    using assms(3) by (auto simp: set_keys_of find_by_key_def find_None_iff_all)
  moreover have "distinct (keys_of [q])" by (auto simp: keys_of_def split: option.splits)
  moreover have "p_ID q \<notin> p_ID ` set (t_proposal db)"
    using assms(2) by (auto simp: find_proposal_def find_None_iff_all)
  ultimately show "db_ok db'" using assms(1) by (auto simp: db_ok_def assms(4))
  show "find_proposal db' = (find_proposal db)(p_ID q \<mapsto> q)"
    using assms(2) by (auto simp: find_proposal_def assms(4) find_append fun_eq_iff split: option.splits)
qed

lemma insert_proposal_ok:
  assumes "db_ok db" "insert_proposal p db = (Ok q, db')"
  shows "(\<exists>u now. q = with_defaults now (BeforeCreate u p)) \<and> find_proposal db (p_ID q) = None
    \<and> find_proposal db' = (find_proposal db)(p_ID q \<mapsto> q) \<and> t_state db' = t_state db \<and> db_ok db'"
proof -
  obtain f db1 where nf: "next_fault db = (f, db1)" by (cases "next_fault db")
  define db2 where "db2 = db1\<lparr>uuids := (if p_ID p = [] then tl (uuids db1) else uuids db1)\<rparr>"
  have k: "t_proposal db2 = t_proposal db" "t_state db2 = t_state db"
    using next_fault_keeps[OF nf] by (simp_all add: db2_def)
  define q' where "q' = with_defaults (clock db1) (BeforeCreate (next_uuid db1) p)"
  have ins: "insert_proposal p db = (case f of Some e \<Rightarrow> (Err (DriverError e), db2)
      | None \<Rightarrow> if find_proposal db2 (p_ID q') \<noteq> None
                \<or> (p_IdempotencyKey q' \<noteq> None \<and> find_by_key db2 (the (p_IdempotencyKey q')) \<noteq> None)
             then (Err DuplicateKey, db2) else (Ok q', db2\<lparr>t_proposal := t_proposal db2 @ [q']\<rparr>))"
    unfolding insert_proposal_def nf Let_def case_prod_conv q'_def[symmetric] db2_def[symmetric] ..
  have new: "q = q'" "find_proposal db2 (p_ID q') = None"
    "p_IdempotencyKey q' = None \<or> find_by_key db2 (the (p_IdempotencyKey q')) = None"
    "db' = db2\<lparr>t_proposal := t_proposal db2 @ [q']\<rparr>"
    using assms(2) unfolding ins by (cases f; auto split: if_splits)+
  have "db_ok db' \<and> find_proposal db' = (find_proposal db2)(p_ID q' \<mapsto> q')"
    using assms(1) new(2-) by (intro db_ok_snoc) (auto simp: db_ok_keeps[OF k(1)])
  then show ?thesis
    using new(1,2) k by (auto simp: find_proposal_keeps[OF k(1)] new(4) q'_def)
qed

lemma insert_proposal_err:
  "insert_proposal p db = (Err e, db') \<Longrightarrow> t_proposal db' = t_proposal db \<and> t_state db' = t_state db"
  by (cases "next_fault db")
     (auto simp: insert_proposal_def Let_def split: option.splits if_splits dest: next_fault_keeps)

lemma with_defaults_same [simp]:
  "p_IdempotencyKey (with_defaults now p) = p_IdempotencyKey p" "p_Kind (with_defaults now p) = p_Kind p"
  "p_SessionID (with_defaults now p) = p_SessionID p" "p_MessageID (with_defaults now p) = p_MessageID p"
  "p_PayloadJSON (with_defaults now p) = p_PayloadJSON p" "p_ID (with_defaults now p) = p_ID p"
  "p_ApprovedBy (with_defaults now p) = p_ApprovedBy p" "p_ResumedBy (with_defaults now p) = p_ResumedBy p"
  "p_State (with_defaults now p) = (if p_State p = [] then StatePending else p_State p)"
  by (simp_all add: with_defaults_def)

lemma BeforeCreate_same [simp]:
  "p_IdempotencyKey (BeforeCreate u p) = p_IdempotencyKey p" "p_Kind (BeforeCreate u p) = p_Kind p"
  "p_SessionID (BeforeCreate u p) = p_SessionID p" "p_MessageID (BeforeCreate u p) = p_MessageID p"
  "p_PayloadJSON (BeforeCreate u p) = p_PayloadJSON p" "p_State (BeforeCreate u p) = p_State p"
  "p_ApprovedBy (BeforeCreate u p) = p_ApprovedBy p" "p_ResumedBy (BeforeCreate u p) = p_ResumedBy p"
  by (simp_all add: BeforeCreate_def)

lemma assertSame_None:
  "assertSame p q = None \<longleftrightarrow> p_Kind q = p_Kind p \<and> p_SessionID q = p_SessionID p
     \<and> p_MessageID q = p_MessageID p \<and> p_PayloadJSON q = p_PayloadJSON p"
  by (auto simp: assertSame_def)

lemma getByIdempotencyKey_keeps:
  "getByIdempotencyKey k db = (r, db') \<Longrightarrow>
     t_proposal db' = t_proposal db \<and> t_state db' = t_state db \<and> (\<forall>q. r = Ok q \<longrightarrow> find_by_key db k = Some q)"
  by (cases "next_fault db")
     (auto simp: getByIdempotencyKey_def Let_def find_by_key_def split: option.splits dest: next_fault_keeps)

lemma idempotent_tx_ok:
  assumes "idempotent_tx p key db = (Ok q, db')"
  shows "(find_by_key db key = Some q \<and> assertSame p q = None \<and> t_proposal db' = t_proposal db \<and> t_state db' = t_state db)
    \<or> (\<exists>db1. t_proposal db1 = t_proposal db \<and> t_state db1 = t_state db \<and> find_by_key db key = None
          \<and> insert_proposal p db1 = (Ok q, db'))"
proof -
  obtain f db1 where nf: "next_fault db = (f, db1)" by (cases "next_fault db")
  note k = next_fault_keeps[OF nf]
  then have fk: "find_by_key db1 key = find_by_key db key" by (simp add: find_by_key_def)
  show ?thesis
  proof (cases "find_by_key db key")
    case None
    with assms k fk show ?thesis by (auto simp: idempotent_tx_def nf split: option.splits)
  next
    case (Some e)
    with assms k fk show ?thesis by (auto simp: idempotent_tx_def nf split: option.splits)
  qed
qed

lemma idempotent_tx_err:
  assumes "idempotent_tx p key db = (Err e, db')"
  shows "t_proposal db' = t_proposal db \<and> t_state db' = t_state db"
proof -
  obtain f db1 where nf: "next_fault db = (f, db1)" by (cases "next_fault db")
  from assms next_fault_keeps[OF nf] show ?thesis
    by (auto simp: idempotent_tx_def nf split: option.splits dest: insert_proposal_err)
qed

lemma CreateIdempotent_ok:
  assumes "db_ok db" "CreateAgentTeamsIdempotent p db = (Ok q, db')"
  shows "t_state db' = t_state db \<and> db_ok db' \<and> find_proposal db' (p_ID q) = Some q
    \<and> p_IdempotencyKey q = p_IdempotencyKey p \<and> p_Kind q = p_Kind p
    \<and> p_SessionID q = p_SessionID p \<and> p_MessageID q = p_MessageID p \<and> p_PayloadJSON q = p_PayloadJSON p
    \<and> (find_proposal db' = find_proposal db \<or>
         (\<exists>u now. q = with_defaults now (BeforeCreate u p)) \<and> find_proposal db (p_ID q) = None
         \<and> find_proposal db' = (find_proposal db)(p_ID q \<mapsto> q))"
proof -
  obtain key where key: "p_IdempotencyKey p = Some key"
    using assms(2) by (auto simp: CreateAgentTeamsIdempotent_def split: option.splits)
  consider (old) "find_by_key db key = Some q" "assertSame p q = None"
      "t_proposal db' = t_proposal db" "t_state db' = t_state db"
    | (new) db1 where "t_proposal db1 = t_proposal db" "t_state db1 = t_state db" "insert_proposal p db1 = (Ok q, db')"
  proof (cases "idempotent_tx p key db")
    case (Pair r db2)
    show ?thesis
    proof (cases r)
      case (Inl e)
      with assms(2) key Pair obtain g db3 where "getByIdempotencyKey key db2 = (Ok q, db3)" "assertSame p q = None" "db' = db3"
        by (cases "getByIdempotencyKey key db2")
           (auto simp: CreateAgentTeamsIdempotent_def split: if_splits sum.splits option.splits)
      moreover have tab: "t_proposal db2 = t_proposal db" "t_state db2 = t_state db"
        using idempotent_tx_err[of p key db e db2] Pair Inl by simp_all
      ultimately show ?thesis
        using getByIdempotencyKey_keeps[of key db2 "Ok q" db3]
        by (intro that(1)) (simp_all add: find_by_key_keeps[OF tab(1)])
    next
      case (Inr q2)
      with assms(2) key Pair have "q2 = q" "db2 = db'"
        by (auto simp: CreateAgentTeamsIdempotent_def split: if_splits)
      with idempotent_tx_ok[of p key db q db'] Pair Inr show ?thesis using that by auto
    qed
  qed
  then show ?thesis
  proof cases
    case old
    then have "find_proposal db (p_ID q) = Some q" using assms(1) find_by_key_Some find_proposal_mem by blast
    moreover have "p_IdempotencyKey q = Some key" using old(1) find_by_key_Some by blast
    ultimately show ?thesis
      using old(2,4) assms(1) key
      by (simp add: find_proposal_keeps[OF old(3)] db_ok_keeps[OF old(3)] assertSame_None)
  next
    case (new db1)
    have "db_ok db1" using assms(1) by (simp add: db_ok_keeps[OF new(1)])
    from insert_proposal_ok[OF this new(3)] new(1,2) show ?thesis
      by (auto simp: find_proposal_keeps[OF new(1)])
  qed
qed

lemma CreateIdempotent_err:
  assumes "CreateAgentTeamsIdempotent p db = (Err e, db')"
  shows "t_proposal db' = t_proposal db \<and> t_state db' = t_state db"
proof (cases "p_IdempotencyKey p")
  case (Some key)
  obtain r db2 where tx: "idempotent_tx p key db = (r, db2)" by (cases "idempotent_tx p key db")
  obtain g db3 where gt: "getByIdempotencyKey key db2 = (g, db3)" by (cases "getByIdempotencyKey key db2")
  from assms Some tx gt show ?thesis
    using idempotent_tx_err[of p key db _ db2] getByIdempotencyKey_keeps[OF gt]
    by (auto simp: CreateAgentTeamsIdempotent_def split: if_splits sum.splits option.splits)
qed (use assms in \<open>simp add: CreateAgentTeamsIdempotent_def\<close>)

lemma Get_keeps:
  "Get i db = (g, db') \<Longrightarrow>
     t_proposal db' = t_proposal db \<and> t_state db' = t_state db \<and> (\<forall>p. g = Ok p \<longrightarrow> find_proposal db i = Some p)"
  by (cases "next_fault db")
     (auto simp: Get_def find_proposal_def split: option.splits dest: next_fault_keeps)

lemma LoadState_keeps:
  "LoadState i db = (l, db') \<Longrightarrow>
     t_proposal db' = t_proposal db \<and> t_state db' = t_state db \<and> (\<forall>st. l = Ok st \<longrightarrow> t_state db i = Some st)"
  by (cases "next_fault db") (auto simp: LoadState_def split: option.splits dest: next_fault_keeps)

lemma UpsertState_effect:
  "UpsertState st db = (r, db') \<Longrightarrow>
     t_proposal db' = t_proposal db \<and> t_state db' = (if r = None then (t_state db)(ps_ProposalID st \<mapsto> st) else t_state db)"
  by (cases "next_fault db") (auto simp: UpsertState_def split: option.splits dest: next_fault_keeps)

lemma DeleteState_effect:
  "DeleteState i db = (r, db') \<Longrightarrow>
     t_proposal db' = t_proposal db \<and> t_state db' = (if r = None then (t_state db)(i := None) else t_state db)"
  by (cases "next_fault db") (auto simp: DeleteState_def split: option.splits dest: next_fault_keeps)

lemma update_where_effect:
  "update_where P g db = (r, db') \<Longrightarrow>
     t_state db' = t_state db \<and>
     (case r of Err _ \<Rightarrow> t_proposal db' = t_proposal db
      | Ok n \<Rightarrow> n = length (filter P (t_proposal db))
               \<and> t_proposal db' = map (\<lambda>p. if P p then g p else p) (t_proposal db))"
  by (cases "next_fault db") (auto simp: update_where_def split: option.splits dest: next_fault_keeps)

lemma db_ok_update:
  assumes "db_ok db" "t_proposal db' = map (\<lambda>p. if P p then g p else p) (t_proposal db)"
    and "\<And>p. p_ID (g p) = p_ID p" "\<And>p. p_IdempotencyKey (g p) = p_IdempotencyKey p"
  shows "db_ok db'"
proof -
  have "map p_ID (t_proposal db') = map p_ID (t_proposal db)" by (simp add: assms(2,3))
  moreover have "keys_of (t_proposal db') = keys_of (t_proposal db)"
    unfolding assms(2) by (rule keys_of_map) (simp add: assms(4))
  ultimately show ?thesis using assms(1) by (simp add: db_ok_def)
qed

lemma apply_fields_same [simp]:
  "p_ID (apply_fields now f p) = p_ID p" "p_IdempotencyKey (apply_fields now f p) = p_IdempotencyKey p"
  "p_State (apply_fields now f p) = f_ToState f"
  "p_ApprovedBy (apply_fields now f p) = opt_or (f_ApprovedBy f) (p_ApprovedBy p)"
  "p_ResumedBy (apply_fields now f p) = opt_or (f_ResumedBy f) (p_ResumedBy p)"
  "p_Reason (apply_fields now f p) = opt_or (f_Reason f) (p_Reason p)"
  "p_PauseStateVersion (apply_fields now f p) =
     (if f_IncrementPauseStateVersion f then p_PauseStateVersion p + 1 else p_PauseStateVersion p)"
  "p_MessageID (apply_fields now f p) = p_MessageID p" "p_PayloadJSON (apply_fields now f p) = p_PayloadJSON p"
  "p_MatrixEventID (apply_fields now f p) = (case f_MatrixEventID f of Some v \<Rightarrow> v | None \<Rightarrow> p_MatrixEventID p)"
  by (simp_all add: apply_fields_def)

lemma find_map_row:
  assumes "\<And>p. p_ID (g p) = p_ID p"
  shows "find (\<lambda>p. p_ID p = i) (map g ps) = map_option g (find (\<lambda>p. p_ID p = i) ps)"
  by (induction ps) (simp_all add: assms)

lemma Transition_ok:
  assumes "db_ok db" "Transition i from f db = (None, db')"
  shows "IsValidTransition from (f_ToState f) \<and> t_state db' = t_state db \<and> db_ok db'
    \<and> (\<exists>p now. find_proposal db i = Some p \<and> p_State p = from
           \<and> find_proposal db' = (find_proposal db)(i \<mapsto> apply_fields now f p))"
proof -
  let ?P = "\<lambda>p. p_ID p = i \<and> p_State p = from"
  let ?g = "\<lambda>p. if ?P p then apply_fields (clock db) f p else p"
  obtain r db1 where up: "update_where ?P (apply_fields (clock db) f) db = (r, db1)"
    by (cases "update_where ?P (apply_fields (clock db) f) db")
  have valid: "IsValidTransition from (f_ToState f)" and r: "r = Ok (length (filter ?P (t_proposal db)))"
    and some: "filter ?P (t_proposal db) \<noteq> []" and db': "db' = db1"
    using assms(2) up update_where_effect[OF up]
    by (auto simp: Transition_def split: if_splits sum.splits)
  have tab: "t_proposal db' = map ?g (t_proposal db)" "t_state db' = t_state db"
    using update_where_effect[OF up] r db' by auto
  from some obtain p where p: "p \<in> set (t_proposal db)" "p_ID p = i" "p_State p = from"
    by (auto simp: filter_empty_conv)
  then have look: "find_proposal db i = Some p" using find_proposal_mem[OF assms(1)] by blast
  have "find_proposal db' k = ((find_proposal db)(i \<mapsto> apply_fields (clock db) f p)) k" for k
  proof -
    have "find_proposal db' k = map_option ?g (find_proposal db k)"
      unfolding find_proposal_def tab(1) by (rule find_map_row) simp
    then show ?thesis
      using look p by (cases "find_proposal db k") (auto dest: find_proposal_Some)
  qed
  then have "find_proposal db' = (find_proposal db)(i \<mapsto> apply_fields (clock db) f p)" by (rule ext)
  moreover have "db_ok db'" using assms(1) tab(1) by (rule db_ok_update) simp_all
  ultimately show ?thesis using valid look p(3) tab(2) by blast
qed

lemma Transition_err:
  assumes "Transition i from f db = (Some e, db')"
  shows "t_proposal db' = t_proposal db \<and> t_state db' = t_state db"
proof -
  let ?P = "\<lambda>p. p_ID p = i \<and> p_State p = from"
  have none: "map (\<lambda>p. if ?P p then g p else p) ps = ps" if "filter ?P ps = []" for g ps
    using that by (intro map_idI) (auto simp: filter_empty_conv)
  obtain r db1 where up: "update_where ?P (apply_fields (clock db) f) db = (r, db1)"
    by (cases "update_where ?P (apply_fields (clock db) f) db")
  show ?thesis
    using assms up update_where_effect[OF up] none
    by (auto simp: Transition_def split: if_splits sum.splits)
qed

lemma SetResult_effect:
  assumes "db_ok db" "SetResult i to res at db = (r, db')"
  shows "t_state db' = t_state db \<and> db_ok db'"
proof -
  let ?g = "\<lambda>p. p\<lparr>p_State := to, p_ResultJSON := Some res, p_ExecutedAt := Some at, p_UpdatedAt := clock db\<rparr>"
  obtain u db1 where up: "update_where (\<lambda>p. p_ID p = i) ?g db = (u, db1)"
    by (cases "update_where (\<lambda>p. p_ID p = i) ?g db")
  then have db': "db' = db1" using assms(2) by (auto simp: SetResult_def split: sum.splits)
  show ?thesis
  proof (cases u)
    case (Inl e)
    with update_where_effect[OF up] assms(1) db' show ?thesis by (auto simp: db_ok_def)
  next
    case (Inr n)
    with update_where_effect[OF up] db' show ?thesis
      using db_ok_update[OF assms(1), of db' "\<lambda>p. p_ID p = i" ?g] by simp
  qed
qed

lemma SetResult_find:
  assumes "SetResult i to res at db = (r, db')"
  shows "find_proposal db' k = find_proposal db k \<or>
    k = i \<and> find_proposal db' k = map_option (\<lambda>p. p\<lparr>p_State := to, p_ResultJSON := Some res, p_ExecutedAt := Some at,
      p_UpdatedAt := clock db\<rparr>) (find_proposal db k)"
proof -
  let ?g = "\<lambda>p. p\<lparr>p_State := to, p_ResultJSON := Some res, p_ExecutedAt := Some at, p_UpdatedAt := clock db\<rparr>"
  obtain u db1 where up: "update_where (\<lambda>p. p_ID p = i) ?g db = (u, db1)"
    by (cases "update_where (\<lambda>p. p_ID p = i) ?g db")
  then have db': "db' = db1" using assms by (auto simp: SetResult_def split: sum.splits)
  show ?thesis
  proof (cases u)
    case (Inl e)
    with update_where_effect[OF up] db' show ?thesis by (simp add: find_proposal_def)
  next
    case (Inr n)
    let ?h = "\<lambda>p. if p_ID p = i then ?g p else p"
    have "t_proposal db' = map ?h (t_proposal db)" using update_where_effect[OF up] db' Inr by simp
    then have "find_proposal db' k = map_option ?h (find_proposal db k)"
      unfolding find_proposal_def by (simp add: find_map_row)
    then show ?thesis by (cases "find_proposal db k") (auto dest: find_proposal_Some)
  qed
qed

interpretation store: hitl_repo store_repo find_proposal t_state db_ok
proof (unfold_locales, unfold store_repo_def Repo.simps, goal_cases)
  case (1 s i q)
  then show ?case using find_proposal_Some by blast
next
  case (2 s p q s')
  then show ?case unfolding Create_def by (rule insert_proposal_ok)
next
  case (3 s p err s')
  then show ?case
    using insert_proposal_err[of p s err s'] by (simp add: Create_def find_proposal_def db_ok_def fun_eq_iff)
next
  case (4 s p q s')
  then show ?case by (rule CreateIdempotent_ok)
next
  case (5 s p err s')
  then show ?case using CreateIdempotent_err[of p s err s'] by (simp add: find_proposal_def db_ok_def fun_eq_iff)
next
  case (6 s i g s')
  then show ?case using Get_keeps[of i s g s'] by (simp add: find_proposal_def db_ok_def fun_eq_iff)
next
  case (7 s i frm f s')
  then show ?case by (rule Transition_ok)
next
  case (8 s i frm f err s')
  then show ?case using Transition_err[of i frm f s err s'] by (simp add: find_proposal_def db_ok_def fun_eq_iff)
next
  case (9 s st r s')
  then show ?case using UpsertState_effect[of st s r s'] by (simp add: find_proposal_def db_ok_def fun_eq_iff)
next
  case (10 s i l s')
  then show ?case using LoadState_keeps[of i s l s'] by (simp add: find_proposal_def db_ok_def fun_eq_iff)
next
  case (11 s i r s')
  then show ?case using DeleteState_effect[of i s r s'] by (simp add: find_proposal_def db_ok_def fun_eq_iff)
next
  case (12 s i tst res tm r s')
  then show ?case by (rule SetResult_effect)
qed

end
