(* ===== verification/Hitl_Service.thy ===== *)
theory Hitl_Service
  imports Hitl_Store
begin

text \<open>
  The proposal service, \<^verbatim>\<open>internal/manager/biz/hitl/proposal.go\<close> and the resume token of
  \<^verbatim>\<open>pause.go\<close>. Every operation takes the \<open>Repo\<close> interface value and the result of the
  injected clock. \<^verbatim>\<open>fmt.Errorf\<close> wrapping is transparent: the cause is returned. Token
  decoding (\<^verbatim>\<open>json.Unmarshal\<close>) is the parameter \<open>decode\<close>.

  \<open>Pause\<close> is composed of its three store accesses, so that two calls can be interleaved.
  The invariant is proved in the context of the locale \<open>hitl_repo\<close> for any store that
  keeps the contract, and used on the database store through its interpretation in \<open>Hitl_Reach\<close>.
\<close>

section \<open>Options\<close>

record ApproveOpts = ao_By :: uint64  ao_Reason :: "string option"
record RejectOpts = jo_By :: uint64  jo_Reason :: string
record PauseOpts =
  po_By :: uint64
  po_Reason :: string
  po_ResumeTok :: string
  po_StateVersion :: int
record ResumeOpts = so_By :: uint64  so_Reason :: string
record CompleteOpts =
  co_ExecutedAt :: instant
  co_ResultJSON :: string
  co_State :: string

record DBRowRef = dr_Table :: string  dr_ID :: string  dr_Version :: int

text \<open>A resume token; messages are pairs of role and content, a tool call is its JSON text.\<close>

record ResumeToken =
  rt_ProposalID :: uint64
  rt_LLMMessages :: "(string \<times> string) list"
  rt_ToolCallStack :: "string list"
  rt_DBRefs :: "DBRowRef list"
  rt_DBRowVersion :: int
  rt_CreatedAt :: instant

section \<open>Transition fields\<close>

definition transitionToApprove :: "ApproveOpts \<Rightarrow> instant \<Rightarrow> TransitionFields" where
  "transitionToApprove o1 now =
     (to_state StateApproved)\<lparr>f_ApprovedBy := Some (ao_By o1), f_Reason := ao_Reason o1, f_DecidedAt := Some now\<rparr>"

definition transitionToReject :: "RejectOpts \<Rightarrow> instant \<Rightarrow> TransitionFields" where
  "transitionToReject o1 now =
     (to_state StateRejected)\<lparr>f_RejectedBy := Some (jo_By o1), f_Reason := Some (jo_Reason o1), f_DecidedAt := Some now\<rparr>"

definition transitionToExpire :: "instant \<Rightarrow> TransitionFields" where
  "transitionToExpire now = (to_state StateExpired)\<lparr>f_DecidedAt := Some now\<rparr>"

definition transitionToPause :: "PauseOpts \<Rightarrow> instant \<Rightarrow> TransitionFields" where
  "transitionToPause o1 now =
     (to_state StatePaused)\<lparr>f_PausedBy := Some (po_By o1), f_Reason := Some (po_Reason o1),
        f_PausedAt := Some now, f_IncrementPauseStateVersion := True\<rparr>"

definition transitionToResume :: "ResumeOpts \<Rightarrow> instant \<Rightarrow> TransitionFields" where
  "transitionToResume o1 now =
     (to_state StateResumed)\<lparr>f_ResumedBy := Some (so_By o1), f_Reason := Some (so_Reason o1),
        f_ResumedAt := Some now\<rparr>"

definition transitionToComplete :: "CompleteOpts \<Rightarrow> TransitionFields" where
  "transitionToComplete o1 =
     (to_state (if co_State o1 \<noteq> [] then co_State o1 else StateExecuted))
        \<lparr>f_ResultJSON := Some (co_ResultJSON o1), f_ExecutedAt := Some (co_ExecutedAt o1)\<rparr>"

section \<open>Operations\<close>

definition fill_proposal :: "Proposal \<Rightarrow> Proposal" where
  "fill_proposal p =
     p\<lparr>p_Source := (if p_Source p = [] then SourceAgent else p_Source p),
       p_State := (if p_State p = [] then StatePending else p_State p),
       p_Severity := (if p_Severity p = [] then SeverityMutating else p_Severity p),
       p_Sensitivity := (if p_Sensitivity p = [] then SensitivityInternal else p_Sensitivity p)\<rparr>"

definition CreateProposal :: "'s Repo \<Rightarrow> Proposal option \<Rightarrow> 's \<Rightarrow> hitl_error err \<times> 's" where
  "CreateProposal repo po s =
     (case po of
        None \<Rightarrow> (Some NilProposal, s)
      | Some p \<Rightarrow>
          if p_Kind p = [] then (Some KindRequired, s)
          else case rp_Create repo (fill_proposal p) s of
                 (Err e, s') \<Rightarrow> (Some e, s')
               | (Ok _, s') \<Rightarrow> (None, s'))"

definition Approve :: "'s Repo \<Rightarrow> instant \<Rightarrow> string \<Rightarrow> ApproveOpts \<Rightarrow> 's \<Rightarrow> hitl_error err \<times> 's" where
  "Approve repo now i o1 = rp_Transition repo i StatePending (transitionToApprove o1 now)"

definition Reject :: "'s Repo \<Rightarrow> instant \<Rightarrow> string \<Rightarrow> RejectOpts \<Rightarrow> 's \<Rightarrow> hitl_error err \<times> 's" where
  "Reject repo now i o1 = rp_Transition repo i StatePending (transitionToReject o1 now)"

definition Expire :: "'s Repo \<Rightarrow> instant \<Rightarrow> string \<Rightarrow> 's \<Rightarrow> hitl_error err \<times> 's" where
  "Expire repo now i = rp_Transition repo i StatePending (transitionToExpire now)"

definition pause_read :: "'s Repo \<Rightarrow> string \<Rightarrow> 's \<Rightarrow> (hitl_error, string) result \<times> 's" where
  "pause_read repo i s =
     (case rp_Get repo i s of
        (Err e, s') \<Rightarrow> (Err e, s')
      | (Ok p, s') \<Rightarrow>
          (if p_State p = StatePending \<or> p_State p = StateApproved \<or> p_State p = StateResumed
           then Ok (p_State p) else Err (CannotPause (p_State p)), s'))"

definition pause_save :: "'s Repo \<Rightarrow> instant \<Rightarrow> string \<Rightarrow> PauseOpts \<Rightarrow> 's \<Rightarrow> hitl_error err \<times> 's" where
  "pause_save repo now i o1 =
     rp_UpsertState repo \<lparr>ps_ProposalID = i, ps_StateVersion = po_StateVersion o1,
       ps_TokenBlob = po_ResumeTok o1, ps_CreatedAt = now, ps_UpdatedAt = now\<rparr>"

definition pause_move :: "'s Repo \<Rightarrow> instant \<Rightarrow> string \<Rightarrow> PauseOpts \<Rightarrow> string \<Rightarrow> 's \<Rightarrow> hitl_error err \<times> 's" where
  "pause_move repo now i o1 from s =
     (case rp_Transition repo i from (transitionToPause o1 now) s of
        (None, s') \<Rightarrow> (None, s')
      | (Some e, s') \<Rightarrow> (Some e, snd (rp_DeleteState repo i s')))"

definition Pause :: "'s Repo \<Rightarrow> instant \<Rightarrow> string \<Rightarrow> PauseOpts \<Rightarrow> 's \<Rightarrow> hitl_error err \<times> 's" where
  "Pause repo now i o1 s =
     (case pause_read repo i s of
        (Err e, s1) \<Rightarrow> (Some e, s1)
      | (Ok from, s1) \<Rightarrow>
          (case pause_save repo now i o1 s1 of
             (Some e, s2) \<Rightarrow> (Some e, s2)
           | (None, s2) \<Rightarrow> pause_move repo now i o1 from s2))"

definition Resume :: "'s Repo \<Rightarrow> instant \<Rightarrow> string \<Rightarrow> ResumeOpts \<Rightarrow> 's \<Rightarrow> hitl_error err \<times> 's" where
  "Resume repo now i o1 s =
     (case rp_Get repo i s of
        (Err e, s1) \<Rightarrow> (Some e, s1)
      | (Ok p, s1) \<Rightarrow>
          if p_State p \<noteq> StatePaused then (Some (CannotResume (p_State p)), s1)
          else case rp_Transition repo i StatePaused (transitionToResume o1 now) s1 of
                 (Some e, s2) \<Rightarrow> (Some e, s2)
               | (None, s2) \<Rightarrow> rp_DeleteState repo i s2)"

definition Complete :: "'s Repo \<Rightarrow> string \<Rightarrow> CompleteOpts \<Rightarrow> 's \<Rightarrow> hitl_error err \<times> 's" where
  "Complete repo i o1 s =
     (case rp_Get repo i s of
        (Err e, s1) \<Rightarrow> (Some e, s1)
      | (Ok p, s1) \<Rightarrow>
          if p_State p \<noteq> StateApproved \<and> p_State p \<noteq> StateResumed \<and> p_State p \<noteq> StateExecuted
          then (Some (CannotComplete (p_State p)), s1)
          else rp_Transition repo i (p_State p) (transitionToComplete o1) s1)"

definition DeserializeResumeToken :: "(string \<Rightarrow> ResumeToken option) \<Rightarrow> string \<Rightarrow> (hitl_error, ResumeToken) result" where
  "DeserializeResumeToken decode data =
     (if data = [] then Err EmptyToken
      else case decode data of None \<Rightarrow> Err BadToken | Some t \<Rightarrow> Ok t)"

definition ValidateVersion :: "ResumeToken \<Rightarrow> int \<Rightarrow> hitl_error err" where
  "ValidateVersion t cur =
     (if rt_DBRowVersion t \<noteq> cur then Some (VersionMismatch (rt_DBRowVersion t) cur) else None)"

definition LoadResumeToken :: "'s Repo \<Rightarrow> (string \<Rightarrow> ResumeToken option) \<Rightarrow> string \<Rightarrow> 's
    \<Rightarrow> (hitl_error, ResumeToken) result \<times> 's" where
  "LoadResumeToken repo decode i s =
     (case rp_Get repo i s of
        (Err e, s1) \<Rightarrow> (Err e, s1)
      | (Ok p, s1) \<Rightarrow>
          if p_State p \<noteq> StatePaused then (Err (NotPaused i (p_State p)), s1)
          else case rp_LoadState repo i s1 of
                 (Err e, s2) \<Rightarrow> (Err e, s2)
               | (Ok st, s2) \<Rightarrow>
                   (case DeserializeResumeToken decode (ps_TokenBlob st) of
                      Err e \<Rightarrow> (Err e, s2)
                    | Ok tok \<Rightarrow>
                        (case ValidateVersion tok (p_PauseStateVersion p) of
                           Some e \<Rightarrow> (Err e, s2)
                         | None \<Rightarrow> (Ok tok, s2))))"

definition service_SetResult :: "'s Repo \<Rightarrow> string \<Rightarrow> string \<Rightarrow> string \<Rightarrow> instant \<Rightarrow> 's \<Rightarrow> hitl_error err \<times> 's" where
  "service_SetResult repo i state res at1 = rp_SetResult repo i state res at1"

section \<open>The service as a state machine\<close>

datatype svc_op =
    OpCreate "Proposal option" | OpApprove string ApproveOpts | OpReject string RejectOpts
  | OpExpire string | OpPause string PauseOpts | OpResume string ResumeOpts
  | OpComplete string CompleteOpts

definition run_op :: "'s Repo \<Rightarrow> instant \<Rightarrow> svc_op \<Rightarrow> 's \<Rightarrow> hitl_error err \<times> 's" where
  "run_op repo now op s =
     (case op of
        OpCreate p \<Rightarrow> CreateProposal repo p s
      | OpApprove i o1 \<Rightarrow> Approve repo now i o1 s
      | OpReject i o1 \<Rightarrow> Reject repo now i o1 s
      | OpExpire i \<Rightarrow> Expire repo now i s
      | OpPause i o1 \<Rightarrow> Pause repo now i o1 s
      | OpResume i o1 \<Rightarrow> Resume repo now i o1 s
      | OpComplete i o1 \<Rightarrow> Complete repo i o1 s)"

text \<open>
  Calls within the documented domain: a new proposal starts as pending (the caller leaves
  the state to the service or says so), and \<open>Complete\<close> is given one of its three outcomes.
\<close>

definition op_wf :: "svc_op \<Rightarrow> bool" where
  "op_wf op =
     (case op of
        OpCreate (Some p) \<Rightarrow> p_State p = [] \<or> p_State p = StatePending
      | OpComplete i o1 \<Rightarrow> co_State o1 \<in> {[], StateExecuted, StateFailed, StateRolledBack}
      | _ \<Rightarrow> True)"

text \<open>States that need a human decision on record, and the invariant of the service.\<close>

definition decided_states :: "string list" where
  "decided_states = [StateApproved, StateResumed, StateExecuting, StateExecuted, StateFailed, StateRolledBack]"

definition row_inv :: "Proposal \<Rightarrow> ProposalState option \<Rightarrow> bool" where
  "row_inv p r \<longleftrightarrow>
     (p_State p \<noteq> StatePaused \<or> r \<noteq> None)
     \<and> (p_State p \<notin> set decided_states \<or> p_ApprovedBy p \<noteq> None \<or> p_ResumedBy p \<noteq> None)"

definition hitl_inv :: "(string \<rightharpoonup> Proposal) \<Rightarrow> (string \<rightharpoonup> ProposalState) \<Rightarrow> bool" where
  "hitl_inv P R \<longleftrightarrow> (\<forall>i p. P i = Some p \<longrightarrow> row_inv p (R i))"

lemma inv_upsert: "hitl_inv P R \<Longrightarrow> hitl_inv P (R(i \<mapsto> st))"
  by (auto simp: hitl_inv_def row_inv_def)

lemma inv_delete:
  "hitl_inv P R \<Longrightarrow> (\<And>p. P i = Some p \<Longrightarrow> p_State p \<noteq> StatePaused) \<Longrightarrow> hitl_inv P (R(i := None))"
  by (auto simp: hitl_inv_def row_inv_def)

lemma inv_create:
  "hitl_inv P R \<Longrightarrow> p_State q = StatePending \<Longrightarrow> hitl_inv (P(j \<mapsto> q)) R"
  by (auto simp: hitl_inv_def row_inv_def decided_states_def)

lemma opt_or_None [simp]: "opt_or a b = None \<longleftrightarrow> a = None \<and> b = None"
  by (auto simp: opt_or_def split: option.splits)

lemma valid_from_decided:
  "IsValidTransition s t \<Longrightarrow> t \<in> set decided_states \<Longrightarrow> t = StateApproved \<or> t = StateResumed \<or> s \<in> set decided_states"
  by (auto simp: IsValidTransition_iff decided_states_def)

lemma inv_transition:
  assumes "hitl_inv P R" "P i = Some p" "IsValidTransition (p_State p) (f_ToState f)"
    and "f_ToState f = StatePaused \<Longrightarrow> R i \<noteq> None"
    and "f_ToState f = StateApproved \<Longrightarrow> f_ApprovedBy f \<noteq> None"
    and "f_ToState f = StateResumed \<Longrightarrow> f_ResumedBy f \<noteq> None"
  shows "hitl_inv (P(i \<mapsto> apply_fields now f p)) R"
proof -
  have "row_inv p (R i)" using assms(1,2) by (simp add: hitl_inv_def)
  then have "row_inv (apply_fields now f p) (R i)"
    using assms(4-) valid_from_decided[OF assms(3)] by (auto simp: row_inv_def)
  with assms(1) show ?thesis by (simp add: hitl_inv_def)
qed

lemma to_state_sel [simp]:
  "f_ToState (to_state s) = s" "f_ApprovedBy (to_state s) = None" "f_ResumedBy (to_state s) = None"
  "f_IncrementPauseStateVersion (to_state s) = False" "f_MatrixEventID (to_state s) = None"
  "f_Reason (to_state s) = None"
  by (simp_all add: to_state_def)

lemmas transition_fields = transitionToApprove_def transitionToReject_def transitionToExpire_def
  transitionToPause_def transitionToResume_def transitionToComplete_def

section \<open>Preservation, for every store that keeps the contract\<close>

context hitl_repo
begin

lemma transition_inv:
  assumes "rp_Transition repo i frm f s = (r, s')" "good s" "hitl_inv (props s) (rows s)"
    and "f_ToState f = StatePaused \<Longrightarrow> rows s i \<noteq> None"
    and "f_ToState f = StateApproved \<Longrightarrow> f_ApprovedBy f \<noteq> None"
    and "f_ToState f = StateResumed \<Longrightarrow> f_ResumedBy f \<noteq> None"
  shows "good s' \<and> hitl_inv (props s') (rows s')"
proof (cases r)
  case None
  with transition_ok[OF assms(2), of i frm f s'] assms(1) obtain p now where
    "IsValidTransition frm (f_ToState f)" "rows s' = rows s" "good s'" "props s i = Some p"
    "p_State p = frm" "props s' = (props s)(i \<mapsto> apply_fields now f p)" by auto
  with inv_transition[OF assms(3), of i p f now] assms(4-) show ?thesis by simp
next
  case (Some e)
  with transition_err[OF assms(2)] assms(1,3) show ?thesis by simp
qed

lemma create_inv:
  assumes "CreateProposal repo po s = (r, s')" "good s" "hitl_inv (props s) (rows s)"
    and "\<And>p. po = Some p \<Longrightarrow> p_State p = [] \<or> p_State p = StatePending"
  shows "good s' \<and> hitl_inv (props s') (rows s')"
proof (cases po)
  case (Some p)
  obtain q s1 where cr: "rp_Create repo (fill_proposal p) s = (q, s1)"
    by (cases "rp_Create repo (fill_proposal p) s")
  have same: "s' = s \<or> s' = s1" using assms(1) Some cr by (auto simp: CreateProposal_def split: if_splits sum.splits)
  have "good s1 \<and> hitl_inv (props s1) (rows s1)"
  proof (cases q)
    case (Inl e)
    with create_err[OF assms(2)] cr assms(3) show ?thesis by simp
  next
    case (Inr p')
    with create_ok[OF assms(2)] cr obtain u now where
      *: "p' = with_defaults now (BeforeCreate u (fill_proposal p))"
      "props s1 = (props s)(p_ID p' \<mapsto> p')" "rows s1 = rows s" "good s1" by blast
    have "p_State p' = StatePending" using assms(4)[OF Some] by (auto simp: *(1) fill_proposal_def)
    with inv_create[OF assms(3)] * show ?thesis by simp
  qed
  with same assms(2,3) show ?thesis by blast
qed (use assms in \<open>simp add: CreateProposal_def\<close>)

lemma pause_inv:
  assumes "Pause repo now i o1 s = (r, s')" "good s" "hitl_inv (props s) (rows s)"
  shows "good s' \<and> hitl_inv (props s') (rows s')"
proof -
  obtain g s1 where gt: "rp_Get repo i s = (g, s1)" by (cases "rp_Get repo i s")
  note g1 = get[OF assms(2) gt]
  obtain u s2 where up: "pause_save repo now i o1 s1 = (u, s2)" by (cases "pause_save repo now i o1 s1")
  have g2: "props s2 = props s" "good s2" "hitl_inv (props s2) (rows s2)" "u = None \<Longrightarrow> rows s2 i \<noteq> None"
    using upsert[of s1 _ u s2] up g1 assms(3) by (auto simp: pause_save_def inv_upsert)
  consider (stop) "s' = s1 \<or> s' = s2" | (go) p where "g = Ok p" "u = None"
      "p_State p \<noteq> StatePaused" "pause_move repo now i o1 (p_State p) s2 = (r, s')"
    using assms(1) gt up by (auto simp: Pause_def pause_read_def split: sum.splits if_splits option.splits)
  then show ?thesis
  proof cases
    case stop
    with g1 g2 assms(3) show ?thesis by auto
  next
    case (go p)
    obtain t s3 where tr: "rp_Transition repo i (p_State p) (transitionToPause o1 now) s2 = (t, s3)"
      by (cases "rp_Transition repo i (p_State p) (transitionToPause o1 now) s2")
    have g3: "good s3 \<and> hitl_inv (props s3) (rows s3)"
      using g2 go(2) by (intro transition_inv[OF tr]) (auto simp: transition_fields)
    show ?thesis
    proof (cases t)
      case None
      with go(4) tr g3 show ?thesis by (auto simp: pause_move_def)
    next
      case (Some e)
      have keep: "props s3 = props s" using transition_err[OF g2(2)] tr Some g2(1) by simp
      obtain d s4 where dl: "rp_DeleteState repo i s3 = (d, s4)" by (cases "rp_DeleteState repo i s3")
      have "props s i = Some p" using g1 go(1) by blast
      then have "hitl_inv (props s3) ((rows s3)(i := None))"
        using g3 go(3) keep by (intro inv_delete) auto
      then show ?thesis
        using go(4) tr Some dl g3 delete[of s3 i d s4] by (auto simp: pause_move_def)
    qed
  qed
qed

lemma resume_inv:
  assumes "Resume repo now i o1 s = (r, s')" "good s" "hitl_inv (props s) (rows s)"
  shows "good s' \<and> hitl_inv (props s') (rows s')"
proof -
  obtain g s1 where gt: "rp_Get repo i s = (g, s1)" by (cases "rp_Get repo i s")
  note g1 = get[OF assms(2) gt]
  let ?f = "transitionToResume o1 now"
  obtain t s2 where tr: "rp_Transition repo i StatePaused ?f s1 = (t, s2)"
    by (cases "rp_Transition repo i StatePaused ?f s1")
  have g2: "good s2 \<and> hitl_inv (props s2) (rows s2)"
    using g1 assms(3) by (intro transition_inv[OF tr]) (auto simp: transition_fields)
  consider (stop) "s' = s1 \<or> s' = s2" | (go) "t = None" "rp_DeleteState repo i s2 = (r, s')"
    using assms(1) gt tr by (auto simp: Resume_def split: sum.splits if_splits option.splits)
  then show ?thesis
  proof cases
    case stop
    with g1 g2 assms(3) show ?thesis by auto
  next
    case go
    obtain p t0 where "props s2 i = Some (apply_fields t0 ?f p)"
      using transition_ok[of s1 i StatePaused ?f s2] tr go(1) g1 by auto
    then have "hitl_inv (props s2) ((rows s2)(i := None))"
      using g2 by (intro inv_delete) (auto simp: transition_fields)
    with go(2) g2 delete[of s2 i r s'] show ?thesis by auto
  qed
qed

lemma complete_inv:
  assumes "Complete repo i o1 s = (r, s')" "good s" "hitl_inv (props s) (rows s)"
    and "co_State o1 \<in> {[], StateExecuted, StateFailed, StateRolledBack}"
  shows "good s' \<and> hitl_inv (props s') (rows s')"
proof -
  obtain g s1 where gt: "rp_Get repo i s = (g, s1)" by (cases "rp_Get repo i s")
  note g1 = get[OF assms(2) gt]
  consider (stop) "s' = s1" | (go) frm where "rp_Transition repo i frm (transitionToComplete o1) s1 = (r, s')"
    using assms(1) gt by (auto simp: Complete_def split: sum.splits if_splits)
  then show ?thesis
  proof cases
    case stop
    with g1 assms(3) show ?thesis by simp
  next
    case (go frm)
    have "f_ToState (transitionToComplete o1) \<in> {StateExecuted, StateFailed, StateRolledBack}"
      using assms(4) by (auto simp: transitionToComplete_def)
    with g1 assms(3) show ?thesis by (intro transition_inv[OF go]) auto
  qed
qed

lemma run_op_inv:
  assumes "run_op repo now op s = (r, s')" "op_wf op" "good s" "hitl_inv (props s) (rows s)"
  shows "good s' \<and> hitl_inv (props s') (rows s')"
proof (cases op)
  case (OpCreate po)
  with assms show ?thesis by (intro create_inv[of po s r]) (auto simp: run_op_def op_wf_def)
next
  case (OpApprove i o1)
  with assms show ?thesis
    by (intro transition_inv[of i _ _ s r]) (auto simp: run_op_def Approve_def transition_fields)
next
  case (OpReject i o1)
  with assms show ?thesis
    by (intro transition_inv[of i _ _ s r]) (auto simp: run_op_def Reject_def transition_fields)
next
  case (OpExpire i)
  with assms show ?thesis
    by (intro transition_inv[of i _ _ s r]) (auto simp: run_op_def Expire_def transition_fields)
next
  case (OpPause i o1)
  with assms show ?thesis by (intro pause_inv[of now i o1 s r]) (auto simp: run_op_def)
next
  case (OpResume i o1)
  with assms show ?thesis by (intro resume_inv[of now i o1 s r]) (auto simp: run_op_def)
next
  case (OpComplete i o1)
  with assms show ?thesis by (intro complete_inv[of i o1 s r]) (auto simp: run_op_def op_wf_def)
qed

end

section \<open>Runs without driver failures\<close>

lemma next_fault_none [simp]: "faults db = [] \<Longrightarrow> next_fault db = (None, db)"
  by (simp add: next_fault_def)

lemma Get_run: "faults db = [] \<Longrightarrow> find_proposal db i = Some p \<Longrightarrow> Get i db = (Ok p, db)"
  by (simp add: Get_def)

lemma Transition_run:
  assumes "db_ok db" "faults db = []" "find_proposal db i = Some p" "p_State p = from"
    and "IsValidTransition from (f_ToState f)"
  shows "\<exists>db'. Transition i from f db = (None, db') \<and> faults db' = [] \<and> t_state db' = t_state db
    \<and> find_proposal db' i = Some (apply_fields (clock db) f p)"
proof -
  let ?P = "\<lambda>p. p_ID p = i \<and> p_State p = from"
  let ?db' = "db\<lparr>t_proposal := map (\<lambda>p. if ?P p then apply_fields (clock db) f p else p) (t_proposal db)\<rparr>"
  have "filter ?P (t_proposal db) \<noteq> []"
    using assms(3,4) by (auto simp: filter_empty_conv dest!: find_proposal_Some)
  then have "Transition i from f db = (None, ?db')"
    using assms(2,5) by (simp add: Transition_def update_where_def)
  moreover have "find_proposal ?db' i = Some (apply_fields (clock db) f p)"
  proof -
    have "find_proposal ?db' i = map_option (\<lambda>p. if ?P p then apply_fields (clock db) f p else p) (find_proposal db i)"
      by (simp add: find_proposal_def find_map_row)
    with assms(3,4) show ?thesis by (auto dest: find_proposal_Some)
  qed
  ultimately show ?thesis using assms(2) by auto
qed

lemma valid_irrefl [simp]: "\<not> IsValidTransition a a"
  by (auto simp: IsValidTransition_iff)

lemma Transition_conflict:
  assumes "faults db = []" "IsValidTransition from (f_ToState g)" "\<And>p. find_proposal db i = Some p \<Longrightarrow> p_State p \<noteq> from"
    and "db_ok db"
  shows "fst (Transition i from g db) = Some ErrStateConflict"
proof -
  have "filter (\<lambda>p. p_ID p = i \<and> p_State p = from) (t_proposal db) = []"
    using assms(3) find_proposal_mem[OF assms(4)] by (auto simp: filter_empty_conv)
  then show ?thesis using assms(1,2) by (simp add: Transition_def update_where_def)
qed

section \<open>Properties\<close>

definition empty_db :: hitl_db where
  "empty_db = \<lparr>t_proposal = [], t_state = Map.empty, faults = [], clock = 5, uuids = [''id-1'', ''id-2'']\<rparr>"

definition demo_proposal :: Proposal where
  "demo_proposal = zero_proposal\<lparr>p_Kind := ''restart_service'', p_Title := ''t'', p_PayloadJSON := ''{}''\<rparr>"

definition demo_pending :: hitl_db where
  "demo_pending = snd (CreateProposal store_repo (Some demo_proposal) empty_db)"

definition demo_pause :: PauseOpts where
  "demo_pause = \<lparr>po_By = 7, po_Reason = ''wait'', po_ResumeTok = ''tok'', po_StateVersion = 1\<rparr>"

lemma demo_pending_ok: "db_ok demo_pending"
  by code_simp

text \<open>
  C18. A decision is taken once. A transition succeeds only along the table and only from the
  state the caller expected, it changes that one proposal and nothing else, and the second of
  two transitions expecting the same state is refused with a state conflict.
\<close>

theorem transition_decided_once:
  assumes "db_ok db" and "Transition i from f db = (None, db')"
    and "faults db' = []" and "IsValidTransition from (f_ToState g)"
  shows "IsValidTransition from (f_ToState f) \<and> t_state db' = t_state db
    \<and> (\<exists>p now. find_proposal db i = Some p \<and> p_State p = from
          \<and> find_proposal db' = (find_proposal db)(i \<mapsto> apply_fields now f p))
    \<and> fst (Transition i from g db') = Some ErrStateConflict"
proof -
  note ok = Transition_ok[OF assms(1,2)]
  then have "fst (Transition i from g db') = Some ErrStateConflict"
    using assms(3,4) by (intro Transition_conflict) auto
  with ok show ?thesis by blast
qed

theorem transition_decided_once_witness:
  "let db1 = snd (Approve store_repo 9 ''id-1'' \<lparr>ao_By = 7, ao_Reason = None\<rparr> demo_pending)
   in fst (Reject store_repo 9 ''id-1'' \<lparr>jo_By = 8, jo_Reason = ''no''\<rparr> db1) = Some ErrStateConflict"
proof -
  let ?f = "transitionToApprove \<lparr>ao_By = 7, ao_Reason = None\<rparr> 9"
  let ?g = "transitionToReject \<lparr>jo_By = 8, jo_Reason = ''no''\<rparr> 9"
  let ?db' = "snd (Transition ''id-1'' StatePending ?f demo_pending)"
  have ok: "db_ok demo_pending" by (rule demo_pending_ok)
  have "fst (Transition ''id-1'' StatePending ?f demo_pending) = None" by code_simp
  then have run: "Transition ''id-1'' StatePending ?f demo_pending = (None, ?db')" by (simp add: prod_eq_iff)
  have nf: "faults ?db' = []" by code_simp
  have v: "IsValidTransition StatePending (f_ToState ?g)" by code_simp
  from transition_decided_once[OF ok run nf v] show ?thesis
    by (simp add: Let_def Approve_def Reject_def store_repo_def)
qed

text \<open>
  C33. Pausing and loading the resume token. When no statement fails, pausing a pending, approved
  or resumed proposal succeeds and leaves it paused with the pause version one higher. Loading
  then returns the token that was saved when the token was made for that version, and is refused as
  stale when it was made for any other; an empty or undecodable token is accepted by the pause too and
  refused by the load.
\<close>

theorem pause_load_roundtrip:
  assumes "db_ok db" and "faults db = []" and "find_proposal db i = Some p"
    and "p_State p \<in> {StatePending, StateApproved, StateResumed}"
  shows "\<exists>db' p'. Pause store_repo now i o1 db = (None, db') \<and>
    find_proposal db' i = Some p' \<and> p_State p' = StatePaused \<and> p_PauseStateVersion p' = p_PauseStateVersion p + 1 \<and>
    fst (LoadResumeToken store_repo decode i db') =
      (if po_ResumeTok o1 = [] then Err EmptyToken
       else case decode (po_ResumeTok o1) of None \<Rightarrow> Err BadToken
         | Some tok \<Rightarrow> if rt_DBRowVersion tok = p_PauseStateVersion p + 1 then Ok tok
             else Err (VersionMismatch (rt_DBRowVersion tok) (p_PauseStateVersion p + 1)))"
proof -
  define st where "st = \<lparr>ps_ProposalID = i, ps_StateVersion = po_StateVersion o1,
       ps_TokenBlob = po_ResumeTok o1, ps_CreatedAt = now, ps_UpdatedAt = now\<rparr>"
  define db1 where "db1 = db\<lparr>t_state := (t_state db)(i \<mapsto> st)\<rparr>"
  have save: "pause_save store_repo now i o1 db = (None, db1)"
    using assms(2) by (simp add: pause_save_def store_repo_def UpsertState_def db1_def st_def)
  have db1: "db_ok db1" "faults db1 = []" "find_proposal db1 i = Some p"
    using assms(1-3) by (simp_all add: db1_def db_ok_def find_proposal_def)
  have valid: "IsValidTransition (p_State p) (f_ToState (transitionToPause o1 now))"
    using assms(4) by (auto simp: transition_fields IsValidTransition_iff)
  obtain db' where tr: "Transition i (p_State p) (transitionToPause o1 now) db1 = (None, db')"
    and db': "faults db' = []" "t_state db' = t_state db1"
      "find_proposal db' i = Some (apply_fields (clock db1) (transitionToPause o1 now) p)"
    using Transition_run[OF db1 refl valid] by blast
  have "Pause store_repo now i o1 db = (None, db')"
    using assms(4) save tr Get_run[OF assms(2,3)]
    by (auto simp: Pause_def pause_read_def pause_move_def store_repo_def)
  moreover have "fst (LoadResumeToken store_repo decode i db') =
      (if po_ResumeTok o1 = [] then Err EmptyToken
       else case decode (po_ResumeTok o1) of None \<Rightarrow> Err BadToken
         | Some tok \<Rightarrow> if rt_DBRowVersion tok = p_PauseStateVersion p + 1 then Ok tok
             else Err (VersionMismatch (rt_DBRowVersion tok) (p_PauseStateVersion p + 1)))"
    using db' Get_run[OF db'(1,3)]
    by (auto simp: LoadResumeToken_def store_repo_def LoadState_def db1_def st_def
        DeserializeResumeToken_def ValidateVersion_def transition_fields split: option.splits)
  moreover have "p_State (apply_fields (clock db1) (transitionToPause o1 now) p) = StatePaused"
    "p_PauseStateVersion (apply_fields (clock db1) (transitionToPause o1 now) p) = p_PauseStateVersion p + 1"
    by (simp_all add: transition_fields)
  ultimately show ?thesis using db'(3) by blast
qed

definition demo_token :: ResumeToken where
  "demo_token = \<lparr>rt_ProposalID = 1, rt_LLMMessages = [], rt_ToolCallStack = [], rt_DBRefs = [],
     rt_DBRowVersion = 1, rt_CreatedAt = 0\<rparr>"

theorem pause_load_roundtrip_witness:
  "\<exists>db'. Pause store_repo 9 ''id-1'' demo_pause demo_pending = (None, db')
     \<and> fst (LoadResumeToken store_repo (\<lambda>_. Some demo_token) ''id-1'' db') = Ok demo_token"
proof -
  have nf: "faults demo_pending = []" by code_simp
  have "map_option (\<lambda>p. (p_State p, p_PauseStateVersion p)) (find_proposal demo_pending ''id-1'') = Some (StatePending, 0)"
    by code_simp
  then obtain p where p: "find_proposal demo_pending ''id-1'' = Some p" "p_State p = StatePending" "p_PauseStateVersion p = 0"
    by auto
  from pause_load_roundtrip[OF demo_pending_ok nf p(1), of 9 demo_pause "\<lambda>_. Some demo_token"] p(2,3) show ?thesis
    by (auto simp: demo_pause_def demo_token_def)
qed

text \<open>
  Two concurrent pauses lose the resume token. Caller B reads the proposal before caller A
  pauses it and saves its token after; B's transition is refused as a conflict and B deletes the
  saved row. The proposal stays paused and its token cannot be loaded.
\<close>

theorem pause_race_loses_token:
  "let (readA, db1) = pause_read store_repo ''id-1'' demo_pending;
       (readB, db2) = pause_read store_repo ''id-1'' db1;
       (saveA, db3) = pause_save store_repo 9 ''id-1'' demo_pause db2;
       (moveA, db4) = pause_move store_repo 9 ''id-1'' demo_pause StatePending db3;
       (saveB, db5) = pause_save store_repo 9 ''id-1'' demo_pause db4;
       (moveB, db6) = pause_move store_repo 9 ''id-1'' demo_pause StatePending db5
   in readA = Ok StatePending \<and> readB = Ok StatePending \<and> saveA = None \<and> moveA = None \<and> saveB = None
    \<and> moveB = Some ErrStateConflict
    \<and> map_option p_State (find_proposal db6 ''id-1'') = Some StatePaused
    \<and> fst (LoadResumeToken store_repo (\<lambda>_. Some demo_token) ''id-1'' db6) = Err ErrNotFound"
  by code_simp

text \<open>
  \<open>SetResult\<close> is outside the state machine: although documented to leave the state alone,
  it writes the state it is given, and takes a rejected proposal to executed, which no
  sequence of transitions does.
\<close>

theorem set_result_bypasses_state_machine:
  "let db1 = snd (Reject store_repo 9 ''id-1'' \<lparr>jo_By = 8, jo_Reason = ''no''\<rparr> demo_pending);
       (r, db2) = service_SetResult store_repo ''id-1'' StateExecuted ''{}'' 10 db1
   in r = None
    \<and> map_option p_State (find_proposal db1 ''id-1'') = Some StateRejected
    \<and> map_option p_State (find_proposal db2 ''id-1'') = Some StateExecuted
    \<and> \<not> list_ex (IsValidTransition StateRejected) all_states"
  by code_simp

text \<open>
  Submitting the same AgentTeams proposal twice creates it once: any answered submission
  leaves exactly one row with its key, and a repetition without driver failures answers that
  row and changes nothing.
\<close>

theorem create_agentteams_idempotent:
  assumes "db_ok db" and "CreateAgentTeamsIdempotent p db = (Ok q, db')" and "faults db' = []"
  shows "length (filter (\<lambda>r. p_IdempotencyKey r = p_IdempotencyKey p) (t_proposal db')) = 1
    \<and> CreateAgentTeamsIdempotent p db' = (Ok q, db')"
proof -
  note ok = CreateIdempotent_ok[OF assms(1,2)]
  obtain key where key: "p_IdempotencyKey p = Some key" "key \<noteq> []"
    using assms(2) by (auto simp: CreateAgentTeamsIdempotent_def split: option.splits if_splits)
  have mem: "q \<in> set (t_proposal db')" using ok find_proposal_Some by blast
  have len: "length (filter (\<lambda>r. p_IdempotencyKey r = Some key) ps) = length (filter (\<lambda>k. k = key) (keys_of ps))" for ps
    by (induction ps) (auto simp: keys_of_def split: option.splits)
  have "distinct (filter (\<lambda>k. k = key) (keys_of (t_proposal db')))" using ok by (simp add: db_ok_def)
  moreover have "set (filter (\<lambda>k. k = key) (keys_of (t_proposal db'))) = {key}"
    using mem ok key by (auto simp: set_keys_of)
  ultimately have one: "length (filter (\<lambda>k. k = key) (keys_of (t_proposal db'))) = 1"
    using distinct_card by fastforce
  obtain q' where q': "find_by_key db' key = Some q'"
    using mem ok key by (cases "find_by_key db' key") (auto simp: find_by_key_def find_None_iff_all)
  have "q' = q"
  proof (rule ccontr)
    assume "q' \<noteq> q"
    have "q' \<in> set (t_proposal db')" "p_IdempotencyKey q' = Some key" using q' find_by_key_Some by blast+
    with mem ok key \<open>q' \<noteq> q\<close> have "2 \<le> length (filter (\<lambda>r. p_IdempotencyKey r = Some key) (t_proposal db'))"
      using card_length[of "filter (\<lambda>r. p_IdempotencyKey r = Some key) (t_proposal db')"]
        card_mono[of "set (filter (\<lambda>r. p_IdempotencyKey r = Some key) (t_proposal db'))" "{q, q'}"] by simp
    with one show False by (simp add: len)
  qed
  moreover have "assertSame p q = None" using ok by (simp add: assertSame_None)
  ultimately have "CreateAgentTeamsIdempotent p db' = (Ok q, db')"
    using q' key assms(3) by (simp add: CreateAgentTeamsIdempotent_def idempotent_tx_def)
  with one show ?thesis by (simp add: key len)
qed

theorem create_agentteams_idempotent_witness:
  "let p = demo_proposal\<lparr>p_IdempotencyKey := Some ''k''\<rparr>;
       (r1, db1) = CreateAgentTeamsIdempotent p demo_pending;
       (r2, db2) = CreateAgentTeamsIdempotent p db1
   in map_sum (\<lambda>_. ()) p_ID r1 = Ok ''id-2'' \<and> r2 = r1 \<and> db2 = db1"
proof -
  let ?p = "demo_proposal\<lparr>p_IdempotencyKey := Some ''k''\<rparr>"
  have ok: "db_ok demo_pending" by (rule demo_pending_ok)
  obtain r1 db1 where run: "CreateAgentTeamsIdempotent ?p demo_pending = (r1, db1)"
    by (cases "CreateAgentTeamsIdempotent ?p demo_pending")
  have "map_sum (\<lambda>_. ()) p_ID (fst (CreateAgentTeamsIdempotent ?p demo_pending)) = Ok ''id-2''"
    "faults (snd (CreateAgentTeamsIdempotent ?p demo_pending)) = []" by code_simp+
  then have r1: "map_sum (\<lambda>_. ()) p_ID r1 = Ok ''id-2''" and nf: "faults db1 = []" by (simp_all add: run)
  from r1 obtain q where q: "r1 = Ok q" by (cases r1) auto
  from create_agentteams_idempotent[OF ok run[unfolded q] nf] r1 q run show ?thesis by (simp add: Let_def)
qed

end
