(* ===== verification/Hitl_AgentTeams.thy ===== *)
theory Hitl_AgentTeams
  imports Hitl_Service
begin

text \<open>
  The AgentTeams entry points of the proposal service,
  \<^verbatim>\<open>internal/manager/biz/hitl/agentteams.go\<close>: creation with a strict envelope check and an
  idempotency key, and transitions bound to the fingerprint of the payload people saw.

  The canonical JSON form and its SHA-256 are a \<open>codec\<close>: \<open>cd_encode\<close> is
  \<open>canonicalPayloadJSON\<close>, \<open>cd_decode\<close> is \<^verbatim>\<open>json.Unmarshal\<close>, \<open>cd_hash\<close> the hex digest of the
  bytes. Where a property needs it, it assumes that decoding gives back what was encoded.
\<close>

section \<open>Data\<close>

record RecoveryExecutionParameters =
  rx_Command :: string
  rx_DeviceID :: uint64
  rx_Service :: string
  rx_Reason :: string
  rx_IncidentID :: string
  rx_FixtureManifestID :: string
  rx_PoolManifestID :: string
  rx_PreviewRunID :: string
  rx_PreviewCandidateID :: string

record AgentTeamsPayload =
  pl_Fingerprint :: string
  pl_RequestID :: string
  pl_IncidentID :: string
  pl_Action :: string
  pl_BlastRadius :: string
  pl_Resource :: string
  pl_RoomID :: string
  pl_Parameters :: RecoveryExecutionParameters
  pl_RequestedAt :: instant
  pl_ExpiresAt :: instant

record AgentTeamsCreateInput =
  ci_Kind :: string
  ci_Title :: string
  ci_Summary :: string
  ci_Payload :: AgentTeamsPayload
  ci_Source :: string
  ci_SessionID :: string
  ci_MessageID :: string
  ci_Severity :: string
  ci_Sensitivity :: string
  ci_IMThreadID :: string
  ci_ExpiresAt :: instant
  ci_ProposedBy :: uint64

record ProposalSnapshot =
  sn_ID :: string
  sn_State :: string
  sn_MessageID :: string
  sn_PayloadHash :: string

record AgentTeamsTransitionInput =
  ti_ID :: string
  ti_ToState :: string
  ti_MessageID :: string
  ti_PayloadHash :: string
  ti_MatrixEventID :: string
  ti_Reason :: string
  ti_DecidedBy :: uint64

record codec =
  cd_encode :: "AgentTeamsPayload \<Rightarrow> string"
  cd_decode :: "string \<Rightarrow> AgentTeamsPayload option"
  cd_hash :: "string \<Rightarrow> string"

section \<open>Fingerprints\<close>

definition CanonicalPayloadHash :: "codec \<Rightarrow> AgentTeamsPayload \<Rightarrow> string" where
  "CanonicalPayloadHash cd pl = cd_hash cd (cd_encode cd pl)"

definition SnapshotForProposal :: "codec \<Rightarrow> Proposal \<Rightarrow> (hitl_error, ProposalSnapshot) result" where
  "SnapshotForProposal cd p =
     (case cd_decode cd (p_PayloadJSON p) of
        None \<Rightarrow> Err BadPayload
      | Some pl \<Rightarrow> Ok \<lparr>sn_ID = p_ID p, sn_State = p_State p, sn_MessageID = p_MessageID p,
                       sn_PayloadHash = CanonicalPayloadHash cd pl\<rparr>)"

section \<open>The envelope\<close>

definition manifest_char :: "char \<Rightarrow> bool" where
  "manifest_char c \<longleftrightarrow>
     (97 \<le> (of_char c :: nat) \<and> (of_char c :: nat) \<le> 122) \<or> (48 \<le> (of_char c :: nat) \<and> (of_char c :: nat) \<le> 57)"

text \<open>The pattern \<^verbatim>\<open>^[a-z0-9][a-z0-9._:-]{7,127}$\<close>.\<close>

definition manifest_id_matches :: "string \<Rightarrow> bool" where
  "manifest_id_matches s \<longleftrightarrow>
     8 \<le> length s \<and> length s \<le> 128 \<and> manifest_char (hd s)
     \<and> list_all (\<lambda>c. manifest_char c \<or> c \<in> set ''._:-'') (tl s)"

definition control_char :: "char \<Rightarrow> bool" where
  "control_char c \<longleftrightarrow> c = CHR 0x00 \<or> c = CHR 0x0D \<or> c = CHR 0x0A"

definition valid_parameters :: "AgentTeamsPayload \<Rightarrow> bool" where
  "valid_parameters pl =
     (let x = pl_Parameters pl in
      if pl_Action pl = ''restart_service'' then
        \<not> (rx_DeviceID x = 0 \<or> rx_Service x = [] \<or> length (rx_Service x) > 255 \<or> rx_IncidentID x \<noteq> []
           \<or> rx_FixtureManifestID x \<noteq> [])
      else if pl_Action pl = ''kill_process'' then
        \<not> (rx_IncidentID x = [] \<or> rx_IncidentID x \<noteq> pl_IncidentID pl \<or> rx_FixtureManifestID x = []
           \<or> \<not> manifest_id_matches (rx_FixtureManifestID x) \<or> pl_Resource pl \<noteq> ''host:fixture''
           \<or> rx_DeviceID x \<noteq> 0 \<or> rx_Service x \<noteq> [] \<or> rx_PoolManifestID x \<noteq> []
           \<or> length (rx_IncidentID x) > 64 \<or> length (rx_FixtureManifestID x) > 128)
      else if pl_Action pl = ''resize_pool'' then
        \<not> (rx_IncidentID x = [] \<or> rx_IncidentID x \<noteq> pl_IncidentID pl \<or> rx_PoolManifestID x = []
           \<or> \<not> manifest_id_matches (rx_PoolManifestID x) \<or> pl_Resource pl \<noteq> ''pg:pool-fixture''
           \<or> rx_DeviceID x \<noteq> 0 \<or> rx_Service x \<noteq> [] \<or> rx_FixtureManifestID x \<noteq> []
           \<or> length (rx_IncidentID x) > 64 \<or> length (rx_PoolManifestID x) > 128)
      else False)"

definition Minute :: int where "Minute = 60 * 1000000000"
definition Hour :: int where "Hour = 60 * Minute"

definition validateAgentTeamsEnvelope :: "AgentTeamsCreateInput \<Rightarrow> instant \<Rightarrow> hitl_error err" where
  "validateAgentTeamsEnvelope inp now =
     (let pl = ci_Payload inp; x = pl_Parameters pl in
      if ci_SessionID inp = [] \<or> length (ci_SessionID inp) > 64 \<or> ci_MessageID inp = []
         \<or> length (ci_MessageID inp) > 64 then Some ErrInvalid
      else if pl_RequestID pl = [] \<or> pl_IncidentID pl = [] \<or> pl_Action pl = [] \<or> pl_BlastRadius pl = []
         \<or> pl_Resource pl = [] \<or> pl_RoomID pl = [] \<or> pl_Fingerprint pl = [] \<or> pl_RequestedAt pl = 0
         \<or> pl_ExpiresAt pl = 0 then Some ErrInvalid
      else if pl_RequestID pl \<noteq> ci_MessageID inp \<or> pl_IncidentID pl \<noteq> ci_SessionID inp
         \<or> pl_ExpiresAt pl \<noteq> ci_ExpiresAt inp then Some ErrInvalid
      else if pl_BlastRadius pl \<noteq> ''single_device'' \<and> pl_BlastRadius pl \<noteq> ''cluster''
         \<and> pl_BlastRadius pl \<noteq> ''tenant_wide'' then Some ErrInvalid
      else if rx_Command x \<noteq> pl_Action pl \<or> TrimSpace (rx_Reason x) = [] \<or> length (rx_Reason x) > 512
         \<or> list_ex control_char (rx_Reason x) then Some ErrInvalid
      else if \<not> valid_parameters pl then Some ErrInvalid
      else if pl_RequestedAt pl > now + Minute \<or> \<not> pl_ExpiresAt pl > pl_RequestedAt pl
         \<or> pl_ExpiresAt pl > pl_RequestedAt pl + 4 * Hour \<or> \<not> pl_ExpiresAt pl > now then Some ErrInvalid
      else None)"

section \<open>Creation\<close>

fun show_nat :: "nat \<Rightarrow> string" where
  "show_nat n = (if n < 10 then [char_of (48 + n)] else show_nat (n div 10) @ [char_of (48 + n mod 10)])"

declare show_nat.simps [simp del]

definition idempotency_key :: "AgentTeamsCreateInput \<Rightarrow> string" where
  "idempotency_key inp = ci_Kind inp @ '':'' @ show_nat (length (ci_MessageID inp)) @ '':'' @ ci_MessageID inp"

definition agentteams_proposal :: "codec \<Rightarrow> AgentTeamsCreateInput \<Rightarrow> Proposal" where
  "agentteams_proposal cd inp =
     zero_proposal\<lparr>p_Kind := ci_Kind inp, p_Title := ci_Title inp, p_Summary := ci_Summary inp,
       p_PayloadJSON := cd_encode cd (ci_Payload inp), p_Source := ci_Source inp,
       p_SessionID := ci_SessionID inp, p_MessageID := ci_MessageID inp, p_ProposedBy := ci_ProposedBy inp,
       p_Severity := ci_Severity inp, p_Sensitivity := ci_Sensitivity inp, p_State := StatePending,
       p_ExpiresAt := Some (ci_ExpiresAt inp), p_IMThreadID := Some (ci_IMThreadID inp),
       p_IdempotencyKey := Some (idempotency_key inp)\<rparr>"

definition CreateAgentTeams :: "'s Repo \<Rightarrow> codec \<Rightarrow> instant \<Rightarrow> AgentTeamsCreateInput \<Rightarrow> 's
    \<Rightarrow> (hitl_error, ProposalSnapshot) result \<times> 's" where
  "CreateAgentTeams repo cd now inp s =
     (if ci_Kind inp \<noteq> KindAgentTeams \<or> ci_Source inp \<noteq> SourceAgent
         \<or> ci_Severity inp \<noteq> SeverityDangerous \<or> ci_Sensitivity inp \<noteq> SensitivityRestricted
      then (Err ErrInvalid, s)
      else if ci_Title inp = [] \<or> ci_Summary inp = [] \<or> ci_IMThreadID inp = [] \<or> ci_ProposedBy inp = 0
      then (Err ErrInvalid, s)
      else case validateAgentTeamsEnvelope inp now of
        Some e \<Rightarrow> (Err e, s)
      | None \<Rightarrow>
          (case rp_CreateAgentTeamsIdempotent repo (agentteams_proposal cd inp) s of
             (Err e, s') \<Rightarrow> (Err e, s')
           | (Ok p, s') \<Rightarrow> (SnapshotForProposal cd p, s')))"

definition Snapshot :: "'s Repo \<Rightarrow> codec \<Rightarrow> string \<Rightarrow> 's \<Rightarrow> (hitl_error, ProposalSnapshot) result \<times> 's" where
  "Snapshot repo cd i s =
     (case rp_Get repo i s of
        (Err e, s') \<Rightarrow> (Err e, s')
      | (Ok p, s') \<Rightarrow> (SnapshotForProposal cd p, s'))"

section \<open>Decisions\<close>

definition validTransitionTarget :: "string \<Rightarrow> bool" where
  "validTransitionTarget st \<longleftrightarrow> st = StateApproved \<or> st = StateRejected \<or> st = StateExpired"

definition assertProposalBinding :: "codec \<Rightarrow> Proposal \<Rightarrow> string \<Rightarrow> string \<Rightarrow> string \<Rightarrow> hitl_error err" where
  "assertProposalBinding cd p messageID payloadHash matrixEventID =
     (case SnapshotForProposal cd p of
        Err e \<Rightarrow> Some e
      | Ok snap \<Rightarrow>
          if sn_MessageID snap \<noteq> messageID \<or> sn_PayloadHash snap \<noteq> payloadHash then Some ErrProposalMismatch
          else if p_State p \<noteq> StatePending \<and> p_MatrixEventID p \<noteq> matrixEventID then Some ErrProposalMismatch
          else None)"

definition decision_fields :: "AgentTeamsTransitionInput \<Rightarrow> instant \<Rightarrow> TransitionFields" where
  "decision_fields inp now =
     (to_state (ti_ToState inp))\<lparr>f_Reason := Some (ti_Reason inp), f_DecidedAt := Some now,
        f_MatrixEventID := Some (ti_MatrixEventID inp),
        f_ApprovedBy := (if ti_ToState inp = StateApproved then Some (ti_DecidedBy inp) else None),
        f_RejectedBy := (if ti_ToState inp = StateRejected then Some (ti_DecidedBy inp) else None)\<rparr>"

definition transition_input_ok :: "AgentTeamsTransitionInput \<Rightarrow> bool" where
  "transition_input_ok inp \<longleftrightarrow>
     \<not> (\<not> validTransitionTarget (ti_ToState inp) \<or> ti_ID inp = [] \<or> ti_MessageID inp = []
        \<or> length (ti_PayloadHash inp) \<noteq> 64 \<or> ti_MatrixEventID inp = [] \<or> TrimSpace (ti_Reason inp) = []
        \<or> length (ti_Reason inp) > 512)
     \<and> \<not> list_ex control_char (ti_Reason inp)"

text \<open>The path after a refused transition: accept if someone else took the same decision.\<close>

definition after_conflict :: "'s Repo \<Rightarrow> codec \<Rightarrow> AgentTeamsTransitionInput \<Rightarrow> hitl_error \<Rightarrow> 's
    \<Rightarrow> (hitl_error, ProposalSnapshot) result \<times> 's" where
  "after_conflict repo cd inp err s =
     (case rp_Get repo (ti_ID inp) s of
        (Err _, s') \<Rightarrow> (Err err, s')
      | (Ok current, s') \<Rightarrow>
          if p_State current \<noteq> ti_ToState inp
             \<or> assertProposalBinding cd current (ti_MessageID inp) (ti_PayloadHash inp) (ti_MatrixEventID inp) \<noteq> None
             \<or> p_Reason current = None \<or> the (p_Reason current) \<noteq> ti_Reason inp
          then (Err err, s')
          else (SnapshotForProposal cd current, s'))"

definition TransitionAgentTeams :: "'s Repo \<Rightarrow> codec \<Rightarrow> instant \<Rightarrow> AgentTeamsTransitionInput \<Rightarrow> 's
    \<Rightarrow> (hitl_error, ProposalSnapshot) result \<times> 's" where
  "TransitionAgentTeams repo cd now inp s =
     (if \<not> transition_input_ok inp then (Err ErrInvalid, s)
      else case rp_Get repo (ti_ID inp) s of
        (Err e, s1) \<Rightarrow> (Err e, s1)
      | (Ok p, s1) \<Rightarrow>
          (case assertProposalBinding cd p (ti_MessageID inp) (ti_PayloadHash inp) (ti_MatrixEventID inp) of
             Some e \<Rightarrow> (Err e, s1)
           | None \<Rightarrow>
               if p_State p = ti_ToState inp then
                 (if p_Reason p = None \<or> the (p_Reason p) \<noteq> ti_Reason inp then (Err ErrProposalMismatch, s1)
                  else (SnapshotForProposal cd p, s1))
               else if p_State p \<noteq> StatePending then (Err ErrConflict, s1)
               else case rp_Transition repo (p_ID p) StatePending (decision_fields inp now) s1 of
                 (Some e, s2) \<Rightarrow> after_conflict repo cd inp e s2
               | (None, s2) \<Rightarrow> Snapshot repo cd (ti_ID inp) s2))"

section \<open>Facts\<close>

lemma SnapshotForProposal_Ok:
  "SnapshotForProposal cd p = Ok snap \<Longrightarrow>
     sn_ID snap = p_ID p \<and> sn_State snap = p_State p \<and> sn_MessageID snap = p_MessageID p
     \<and> (\<exists>pl. cd_decode cd (p_PayloadJSON p) = Some pl \<and> sn_PayloadHash snap = CanonicalPayloadHash cd pl)"
  by (auto simp: SnapshotForProposal_def split: option.splits)

lemma binding_None:
  "assertProposalBinding cd p m h x = None \<Longrightarrow>
     \<exists>snap. SnapshotForProposal cd p = Ok snap \<and> sn_MessageID snap = m \<and> sn_PayloadHash snap = h
       \<and> (p_State p = StatePending \<or> p_MatrixEventID p = x)"
  by (auto simp: assertProposalBinding_def split: sum.splits if_splits)

lemma Snapshot_apply_fields:
  "SnapshotForProposal cd (apply_fields now f p) =
     (case SnapshotForProposal cd p of Err e \<Rightarrow> Err e | Ok snap \<Rightarrow> Ok (snap\<lparr>sn_State := f_ToState f\<rparr>))"
  by (simp add: SnapshotForProposal_def split: option.splits)

lemma decision_fields_sel [simp]:
  "f_ToState (decision_fields inp now) = ti_ToState inp"
  "f_Reason (decision_fields inp now) = Some (ti_Reason inp)"
  "f_MatrixEventID (decision_fields inp now) = Some (ti_MatrixEventID inp)"
  by (simp_all add: decision_fields_def)

text \<open>A proposal on which the decision \<open>inp\<close> stands.\<close>

definition decided_as :: "codec \<Rightarrow> AgentTeamsTransitionInput \<Rightarrow> Proposal \<Rightarrow> bool" where
  "decided_as cd inp p \<longleftrightarrow> p_State p = ti_ToState inp \<and> p_Reason p = Some (ti_Reason inp)
     \<and> assertProposalBinding cd p (ti_MessageID inp) (ti_PayloadHash inp) (ti_MatrixEventID inp) = None"

context hitl_repo
begin

lemma agentteams_transition:
  assumes "TransitionAgentTeams repo cd now inp s = (Ok snap, s')" "good s"
  shows "transition_input_ok inp \<and> good s' \<and> rows s' = rows s
    \<and> (\<exists>p p'. props s (ti_ID inp) = Some p \<and> props s' = (props s)(ti_ID inp \<mapsto> p')
          \<and> decided_as cd inp p' \<and> SnapshotForProposal cd p' = Ok snap
          \<and> (p' = p \<or> p_State p = StatePending \<and> (\<exists>t. p' = apply_fields t (decision_fields inp now) p)))"
proof -
  have input: "transition_input_ok inp" using assms(1) by (auto simp: TransitionAgentTeams_def split: if_splits)
  obtain g s1 where gt: "rp_Get repo (ti_ID inp) s = (g, s1)" by (cases "rp_Get repo (ti_ID inp) s")
  note g1 = get[OF assms(2) gt]
  obtain p where p: "g = Ok p" using assms(1) gt input by (cases g) (auto simp: TransitionAgentTeams_def)
  then have look: "props s (ti_ID inp) = Some p" and pid: "p_ID p = ti_ID inp" using g1 ids[OF assms(2)] by auto
  let ?bind = "\<lambda>p. assertProposalBinding cd p (ti_MessageID inp) (ti_PayloadHash inp) (ti_MatrixEventID inp)"
  have bind: "?bind p = None" using assms(1) gt p input by (auto simp: TransitionAgentTeams_def split: option.splits)
  then obtain sn where sn: "SnapshotForProposal cd p = Ok sn" "sn_MessageID sn = ti_MessageID inp"
    "sn_PayloadHash sn = ti_PayloadHash inp" using binding_None by blast
  show ?thesis
  proof (cases "p_State p = ti_ToState inp")
    case True
    then have "p_Reason p = Some (ti_Reason inp)" "s' = s1" "SnapshotForProposal cd p = Ok snap"
      using assms(1) gt p input bind by (auto simp: TransitionAgentTeams_def split: if_splits)
    with True bind g1 look input show ?thesis
      by (intro conjI exI[of _ p]) (auto simp: decided_as_def fun_eq_iff)
  next
    case False
    let ?f = "decision_fields inp now"
    obtain t s2 where tr: "rp_Transition repo (ti_ID inp) StatePending ?f s1 = (t, s2)"
      by (cases "rp_Transition repo (ti_ID inp) StatePending ?f s1")
    have pend: "p_State p = StatePending" using assms(1) gt p input bind False
      by (auto simp: TransitionAgentTeams_def split: if_splits)
    have after: "(case t of Some e \<Rightarrow> after_conflict repo cd inp e s2 | None \<Rightarrow> Snapshot repo cd (ti_ID inp) s2) = (Ok snap, s')"
      using assms(1) gt p input bind False pend tr pid by (auto simp: TransitionAgentTeams_def split: option.splits)
    have "t = None"
    proof (rule ccontr)
      assume "t \<noteq> None"
      then obtain e where e: "t = Some e" by auto
      obtain g2 s3 where gt2: "rp_Get repo (ti_ID inp) s2 = (g2, s3)" by (cases "rp_Get repo (ti_ID inp) s2")
      have "props s2 = props s" "good s2" using transition_err[of s1 "ti_ID inp" StatePending ?f e s2] tr e g1 by auto
      with get[OF _ gt2] look after e gt2 False show False
        by (auto simp: after_conflict_def split: sum.splits if_splits)
    qed
    then obtain t0 where st: "rows s2 = rows s1" "good s2" "props s2 = (props s1)(ti_ID inp \<mapsto> apply_fields t0 ?f p)"
      using transition_ok[of s1 "ti_ID inp" StatePending ?f s2] tr g1 look by auto
    let ?p' = "apply_fields t0 ?f p"
    obtain g2 s3 where gt2: "rp_Get repo (ti_ID inp) s2 = (g2, s3)" by (cases "rp_Get repo (ti_ID inp) s2")
    note g2 = get[OF st(2) gt2]
    have snap: "SnapshotForProposal cd ?p' = Ok snap" "s' = s3"
      using after \<open>t = None\<close> gt2 g2 st(3) by (auto simp: Snapshot_def split: sum.splits)
    have "?bind ?p' = None"
      using sn by (simp add: assertProposalBinding_def Snapshot_apply_fields)
    then have "decided_as cd inp ?p'" by (simp add: decided_as_def opt_or_def)
    with snap g2 st g1 look pend input show ?thesis by (intro conjI exI[of _ p] exI[of _ ?p']) auto
  qed
qed

end

lemma TransitionAgentTeams_replay:
  assumes "transition_input_ok inp" "faults db = []" "find_proposal db (ti_ID inp) = Some p"
    and "decided_as cd inp p" "SnapshotForProposal cd p = Ok snap"
  shows "TransitionAgentTeams store_repo cd now inp db = (Ok snap, db)"
  using assms Get_run[OF assms(2,3)] by (simp add: TransitionAgentTeams_def store_repo_def decided_as_def)

section \<open>Properties\<close>

text \<open>
  C19. An AgentTeams decision is bound to what people saw and is idempotent. When the call
  answers, the proposal is in the requested state with the requested reason, its stored
  message and the fingerprint of its stored payload are the ones the caller presented, it was
  pending or already so decided, nothing else changed, and repeating the call answers the same
  and changes nothing.
\<close>

theorem agentteams_decision_bound:
  assumes "db_ok db" and "TransitionAgentTeams store_repo cd now inp db = (Ok snap, db')" and "faults db' = []"
  shows "sn_State snap = ti_ToState inp \<and> sn_MessageID snap = ti_MessageID inp
    \<and> sn_PayloadHash snap = ti_PayloadHash inp
    \<and> (\<exists>p p' pl. find_proposal db (ti_ID inp) = Some p \<and> find_proposal db' = (find_proposal db)(ti_ID inp \<mapsto> p')
          \<and> p_State p' = ti_ToState inp \<and> p_Reason p' = Some (ti_Reason inp)
          \<and> cd_decode cd (p_PayloadJSON p') = Some pl \<and> CanonicalPayloadHash cd pl = ti_PayloadHash inp
          \<and> (p' = p \<or> p_State p = StatePending))
    \<and> TransitionAgentTeams store_repo cd later inp db' = (Ok snap, db')"
proof -
  obtain p p' where *: "transition_input_ok inp" "find_proposal db (ti_ID inp) = Some p"
    "find_proposal db' = (find_proposal db)(ti_ID inp \<mapsto> p')" "decided_as cd inp p'"
    "SnapshotForProposal cd p' = Ok snap" "p' = p \<or> p_State p = StatePending"
    using store.agentteams_transition[OF assms(2,1)] by blast
  have st: "p_State p' = ti_ToState inp" "p_Reason p' = Some (ti_Reason inp)" using *(4) by (simp_all add: decided_as_def)
  obtain sn where "SnapshotForProposal cd p' = Ok sn" "sn_MessageID sn = ti_MessageID inp" "sn_PayloadHash sn = ti_PayloadHash inp"
    using *(4) binding_None unfolding decided_as_def by blast
  then have sn: "sn_MessageID snap = ti_MessageID inp" "sn_PayloadHash snap = ti_PayloadHash inp" using *(5) by auto
  have look': "find_proposal db' (ti_ID inp) = Some p'" by (simp add: *(3))
  show ?thesis
    using SnapshotForProposal_Ok[OF *(5)] st sn *(2,3,6) TransitionAgentTeams_replay[OF *(1) assms(3) look' *(4,5)]
    by metis
qed

definition demo_params :: RecoveryExecutionParameters where
  "demo_params = \<lparr>rx_Command = ''restart_service'', rx_DeviceID = 3, rx_Service = ''nginx'', rx_Reason = ''hung'',
     rx_IncidentID = [], rx_FixtureManifestID = [], rx_PoolManifestID = [], rx_PreviewRunID = [],
     rx_PreviewCandidateID = []\<rparr>"

definition demo_payload :: AgentTeamsPayload where
  "demo_payload = \<lparr>pl_Fingerprint = ''fp'', pl_RequestID = ''m1'', pl_IncidentID = ''inc'',
     pl_Action = ''restart_service'', pl_BlastRadius = ''cluster'', pl_Resource = ''host:a'', pl_RoomID = ''room'',
     pl_Parameters = demo_params, pl_RequestedAt = 100, pl_ExpiresAt = 1000\<rparr>"

definition demo_codec :: codec where
  "demo_codec = \<lparr>cd_encode = (\<lambda>pl. pl_RequestID pl), cd_decode = (\<lambda>s. Some (demo_payload\<lparr>pl_RequestID := s\<rparr>)),
     cd_hash = (\<lambda>s. replicate 64 (CHR ''a''))\<rparr>"

definition demo_input :: AgentTeamsCreateInput where
  "demo_input = \<lparr>ci_Kind = KindAgentTeams, ci_Title = ''t'', ci_Summary = ''s'', ci_Payload = demo_payload,
     ci_Source = SourceAgent, ci_SessionID = ''inc'', ci_MessageID = ''m1'', ci_Severity = SeverityDangerous,
     ci_Sensitivity = SensitivityRestricted, ci_IMThreadID = ''room'', ci_ExpiresAt = 1000, ci_ProposedBy = 4\<rparr>"

definition demo_decision :: AgentTeamsTransitionInput where
  "demo_decision = \<lparr>ti_ID = ''id-1'', ti_ToState = StateApproved, ti_MessageID = ''m1'',
     ti_PayloadHash = replicate 64 (CHR ''a''), ti_MatrixEventID = ''ev'', ti_Reason = ''ok'', ti_DecidedBy = 9\<rparr>"

theorem agentteams_decision_bound_witness:
  "let db1 = snd (CreateAgentTeams store_repo demo_codec 200 demo_input empty_db);
       (r, db2) = TransitionAgentTeams store_repo demo_codec 300 demo_decision db1
   in map_sum (\<lambda>_. ()) sn_State r = Ok StateApproved
    \<and> TransitionAgentTeams store_repo demo_codec 400 demo_decision db2 = (r, db2)"
proof -
  let ?db1 = "snd (CreateAgentTeams store_repo demo_codec 200 demo_input empty_db)"
  obtain r db2 where run: "TransitionAgentTeams store_repo demo_codec 300 demo_decision ?db1 = (r, db2)"
    by (cases "TransitionAgentTeams store_repo demo_codec 300 demo_decision ?db1")
  have "map_sum (\<lambda>_. ()) sn_State (fst (TransitionAgentTeams store_repo demo_codec 300 demo_decision ?db1)) = Ok StateApproved"
    "faults (snd (TransitionAgentTeams store_repo demo_codec 300 demo_decision ?db1)) = []"
    by code_simp+
  then have r: "map_sum (\<lambda>_. ()) sn_State r = Ok StateApproved" and nf: "faults db2 = []" by (simp_all add: run)
  from r obtain snap where snap: "r = Ok snap" by (cases r) auto
  have ok: "db_ok ?db1" by code_simp
  from agentteams_decision_bound[OF ok run[unfolded snap] nf, of 400] r run snap show ?thesis by (simp add: Let_def)
qed

text \<open>
  What an accepted AgentTeams proposal satisfies: it is a dangerous, restricted agent
  proposal whose envelope fits its payload, it has not expired and expires within four hours of
  its request, and the fingerprint answered to the caller is the fingerprint of the payload it
  sent, provided decoding inverts encoding on that payload.
\<close>

theorem agentteams_create_checked:
  assumes "db_ok db" and "CreateAgentTeams store_repo cd now inp db = (Ok snap, db')"
    and "cd_decode cd (cd_encode cd (ci_Payload inp)) = Some (ci_Payload inp)"
  shows "sn_PayloadHash snap = CanonicalPayloadHash cd (ci_Payload inp) \<and> sn_MessageID snap = ci_MessageID inp
    \<and> ci_Severity inp = SeverityDangerous \<and> ci_Sensitivity inp = SensitivityRestricted
    \<and> pl_RequestID (ci_Payload inp) = ci_MessageID inp \<and> pl_IncidentID (ci_Payload inp) = ci_SessionID inp
    \<and> pl_BlastRadius (ci_Payload inp) \<in> {''single_device'', ''cluster'', ''tenant_wide''}
    \<and> valid_parameters (ci_Payload inp)
    \<and> now < pl_ExpiresAt (ci_Payload inp) \<and> pl_RequestedAt (ci_Payload inp) < pl_ExpiresAt (ci_Payload inp)
    \<and> pl_ExpiresAt (ci_Payload inp) \<le> pl_RequestedAt (ci_Payload inp) + 4 * Hour"
proof -
  have checks: "ci_Severity inp = SeverityDangerous" "ci_Sensitivity inp = SensitivityRestricted"
    and env: "validateAgentTeamsEnvelope inp now = None"
    using assms(2) by (auto simp: CreateAgentTeams_def split: if_splits option.splits)
  obtain r db1 where cr: "CreateAgentTeamsIdempotent (agentteams_proposal cd inp) db = (r, db1)"
    by (cases "CreateAgentTeamsIdempotent (agentteams_proposal cd inp) db")
  then obtain p where p: "r = Ok p" "SnapshotForProposal cd p = Ok snap"
    using assms(2) env by (cases r) (auto simp: CreateAgentTeams_def store_repo_def split: if_splits)
  have "p_PayloadJSON p = cd_encode cd (ci_Payload inp)" "p_MessageID p = ci_MessageID inp"
    using CreateIdempotent_ok[OF assms(1) cr[unfolded p(1)]] by (simp_all add: agentteams_proposal_def)
  with SnapshotForProposal_Ok[OF p(2)] assms(3)
  have "sn_PayloadHash snap = CanonicalPayloadHash cd (ci_Payload inp)" "sn_MessageID snap = ci_MessageID inp"
    by auto
  with checks env show ?thesis
    by (simp add: validateAgentTeamsEnvelope_def Let_def split: if_splits)
qed

theorem agentteams_create_checked_witness:
  "\<exists>snap. fst (CreateAgentTeams store_repo demo_codec 200 demo_input empty_db) = Ok snap
     \<and> sn_PayloadHash snap = CanonicalPayloadHash demo_codec demo_payload"
proof -
  obtain r db1 where run: "CreateAgentTeams store_repo demo_codec 200 demo_input empty_db = (r, db1)"
    by (cases "CreateAgentTeams store_repo demo_codec 200 demo_input empty_db")
  have "map_sum (\<lambda>_. ()) sn_ID (fst (CreateAgentTeams store_repo demo_codec 200 demo_input empty_db)) = Ok ''id-1''"
    by code_simp
  then obtain snap where snap: "r = Ok snap" by (cases r) (auto simp: run)
  have ok: "db_ok empty_db" by code_simp
  have rt: "cd_decode demo_codec (cd_encode demo_codec (ci_Payload demo_input)) = Some (ci_Payload demo_input)"
    by code_simp
  from agentteams_create_checked[OF ok run[unfolded snap] rt] run snap show ?thesis
    by (simp add: demo_input_def)
qed

end
