(* ===== verification/Hitl_Policy.thy ===== *)
theory Hitl_Policy
  imports Hitl_Model
begin

text \<open>
  When an action must wait for people, and which signatures release it:
  \<^verbatim>\<open>internal/manager/biz/hitl/policy.go\<close> (\<open>PausePolicyImpl\<close>) and
  \<^verbatim>\<open>dual_sign.go\<close> (\<open>DualSignPolicy\<close>). The sensitivity provider of the data guard is
  a parameter. \<open>collectRequires\<close> returns the keys of a Go map, whose order is not fixed; the
  model lists them in the order of the rules, and the properties do not depend on it.
  The metadata of a pause reason is a record with the keys the code sets.
\<close>

section \<open>Dual signatures\<close>

record Signer =
  sg_UserID :: uint64
  sg_Role :: string
  sg_ApprovedAt :: int

record DualSignRule =
  ds_Role :: string
  ds_Resource :: string
  ds_Action :: string
  ds_Effect :: string
  ds_Requires :: "string list"

type_synonym DualSignPolicy = "DualSignRule list"

datatype DualSignError =
    MissingSigner
  | InsufficientSigners nat "string list"
  | RoleGroupsUncovered "string list" "string list" "string list"

datatype load_error = ReadFailed string | ParseFailedAt string

text \<open>\<open>file\<close>: the outcome of reading and decoding the policy file.\<close>

datatype policy_file = NoSuchFile | Unreadable | Malformed | Policies "DualSignRule list"

definition LoadDualSignPolicies :: "string \<Rightarrow> policy_file \<Rightarrow> (load_error, DualSignPolicy) result" where
  "LoadDualSignPolicies path file =
     (if path = [] then Ok []
      else case file of
        NoSuchFile \<Rightarrow> Ok []
      | Unreadable \<Rightarrow> Err (ReadFailed path)
      | Malformed \<Rightarrow> Err (ParseFailedAt path)
      | Policies rs \<Rightarrow> Ok rs)"

definition addRule :: "DualSignPolicy \<Rightarrow> DualSignRule \<Rightarrow> DualSignPolicy" where
  "addRule p r = p @ [r]"

definition matchResource :: "string \<Rightarrow> string \<Rightarrow> bool" where
  "matchResource rule req = (if rule = ''*'' \<or> rule = [] then True else rule = req)"

definition matchAction :: "string \<Rightarrow> string \<Rightarrow> bool" where
  "matchAction rule req = (if rule = ''*'' \<or> rule = [] then True else EqualFold rule req)"

definition collectRequires :: "DualSignPolicy \<Rightarrow> string \<Rightarrow> string \<Rightarrow> string list" where
  "collectRequires rules resource action =
     remdups (concat (map ds_Requires
       (filter (\<lambda>r. EqualFold (ds_Effect r) ''allow'' \<and> matchResource (ds_Resource r) resource
                    \<and> matchAction (ds_Action r) action) rules)))"

definition signerRoles :: "Signer list \<Rightarrow> string list" where
  "signerRoles ss = map sg_Role ss"

definition dual_Validate :: "DualSignPolicy \<Rightarrow> string \<Rightarrow> string \<Rightarrow> Signer list \<Rightarrow> DualSignError err" where
  "dual_Validate rules resource action signers =
     (let requires = collectRequires rules resource action in
      if requires = [] then (if signers = [] then Some MissingSigner else None)
      else if length signers < 2 then Some (InsufficientSigners (length signers) requires)
      else
        let covered = concat (map (\<lambda>s. filter (\<lambda>req. sg_Role s = req) requires) signers);
            missing = filter (\<lambda>r. r \<notin> set covered) requires
        in if missing \<noteq> [] then Some (RoleGroupsUncovered requires (signerRoles signers) missing)
           else None)"

section \<open>Pausing\<close>

record Action =
  a_Tool :: string
  a_RiskLevel :: string
  a_Resource :: string
  a_Sensitivity :: string

record PausePolicyConfig =
  DangerRequiresDualSign :: bool
  DefaultSeverity :: string
  AutoApproveToolKinds :: "string list"

text \<open>The policy: its configuration, the optional sensitivity provider and the optional dual-sign policy.\<close>

record PausePolicyImpl =
  pp_cfg :: PausePolicyConfig
  pp_sensitivity :: "(string \<Rightarrow> string \<Rightarrow> string) option"
  pp_dualSign :: "DualSignPolicy option"

definition NewPolicyFromConfig :: "PausePolicyConfig \<Rightarrow> PausePolicyImpl" where
  "NewPolicyFromConfig cfg =
     \<lparr>pp_cfg = (if DefaultSeverity cfg = [] then cfg\<lparr>DefaultSeverity := SeverityMutating\<rparr> else cfg),
      pp_sensitivity = None, pp_dualSign = None\<rparr>"

record PauseReason =
  pr_Code :: string
  pr_Tool :: string
  pr_Resource :: string
  pr_Severity :: string
  pr_RequiredSigners :: nat
  pr_DualSign :: bool

definition RiskLevelToSeverity :: "Action \<Rightarrow> string" where
  "RiskLevelToSeverity a =
     (let r = ToLower (TrimSpace (a_RiskLevel a)) in
      if r = ''read'' \<or> r = ''risk_read'' then SeveritySafe
      else if r = ''write'' \<or> r = ''risk_write'' then SeverityMutating
      else if r = ''delete'' \<or> r = ''manage'' \<or> r = ''risk_delete'' \<or> r = ''risk_manage''
              \<or> r = ''destructive'' then SeverityDangerous
      else [])"

definition sensitivityToSeverity :: "string \<Rightarrow> string" where
  "sensitivityToSeverity s =
     (let r = ToLower (TrimSpace s) in
      if r = SensitivityTopSecret \<or> r = SensitivityRestricted then SeverityDangerous
      else if r = SensitivityConfidential then SeverityMutating
      else SeveritySafe)"

definition severityFromToolKind :: "string \<Rightarrow> string" where
  "severityFromToolKind tool =
     (let t = ToLower (TrimSpace tool) in
      if t \<in> {''restart_service'', ''shell_command'', ''drop_table'', ''rm_file'', ''terraform_apply''}
      then SeverityDangerous else [])"

definition lookupSensitivity :: "PausePolicyImpl \<Rightarrow> Action \<Rightarrow> string" where
  "lookupSensitivity p a =
     (case pp_sensitivity p of
        None \<Rightarrow> SensitivityInternal
      | Some look \<Rightarrow>
          (let s = look (a_Resource a) (a_Tool a) in if s \<noteq> [] then s else SensitivityInternal))"

definition severity_rank :: "string \<Rightarrow> int" where
  "severity_rank s =
     (if s = SeveritySafe then 0 else if s = SeverityMutating then 1
      else if s = SeverityDangerous then 2 else -1)"

definition maxSeverity :: "string \<Rightarrow> string \<Rightarrow> string \<Rightarrow> string" where
  "maxSeverity a b fallback =
     (let ar = severity_rank a; br = severity_rank b in
      if ar < 0 \<and> br < 0 then fallback else if ar \<ge> br then a else b)"

definition action_severity :: "PausePolicyImpl \<Rightarrow> Action \<Rightarrow> string" where
  "action_severity p a =
     maxSeverity (RiskLevelToSeverity a) (sensitivityToSeverity (lookupSensitivity p a))
       (severityFromToolKind (a_Tool a))"

definition ShouldPause :: "PausePolicyImpl \<Rightarrow> Action option \<Rightarrow> bool \<times> PauseReason option" where
  "ShouldPause p ao =
     (case ao of
        None \<Rightarrow> (False, None)
      | Some a \<Rightarrow>
          let severity = action_severity p a in
          if list_ex (\<lambda>k. k = a_Tool a) (AutoApproveToolKinds (pp_cfg p)) then (False, None)
          else if severity = SeveritySafe then (False, None)
          else if severity = SeverityMutating then
            (True, Some \<lparr>pr_Code = ''risk_mutating'', pr_Tool = a_Tool a, pr_Resource = a_Resource a,
                         pr_Severity = severity, pr_RequiredSigners = 1, pr_DualSign = False\<rparr>)
          else if severity = SeverityDangerous then
            (True, Some \<lparr>pr_Code = ''risk_dangerous'', pr_Tool = a_Tool a, pr_Resource = a_Resource a,
                         pr_Severity = severity, pr_RequiredSigners = 2, pr_DualSign = True\<rparr>)
          else (False, None))"

definition ValidateSigners :: "PausePolicyImpl \<Rightarrow> Action option \<Rightarrow> Signer list \<Rightarrow> DualSignError err" where
  "ValidateSigners p ao signers =
     (case pp_dualSign p of
        None \<Rightarrow> if signers = [] then Some MissingSigner else None
      | Some rules \<Rightarrow>
          (case ao of
             None \<Rightarrow> dual_Validate rules [] [] signers
           | Some a \<Rightarrow> dual_Validate rules (a_Resource a) (a_Tool a) signers))"

section \<open>Facts\<close>

lemma dual_Validate_None:
  "dual_Validate rules resource action signers = None \<longleftrightarrow>
     (if collectRequires rules resource action = [] then signers \<noteq> []
      else 2 \<le> length signers \<and> set (collectRequires rules resource action) \<subseteq> sg_Role ` set signers)"
  by (auto simp: dual_Validate_def Let_def filter_empty_conv)

lemma collectRequires_set:
  "set (collectRequires rules resource action) =
     (\<Union>r\<in>{r \<in> set rules. EqualFold (ds_Effect r) ''allow'' \<and> matchResource (ds_Resource r) resource
             \<and> matchAction (ds_Action r) action}. set (ds_Requires r))"
  by (auto simp: collectRequires_def)

lemma severity_rank_values [simp]:
  "severity_rank SeveritySafe = 0" "severity_rank SeverityMutating = 1" "severity_rank SeverityDangerous = 2"
  "severity_rank [] = -1"
  by (simp_all add: severity_rank_def)

lemma sensitivityToSeverity_cases:
  "sensitivityToSeverity s \<in> {SeveritySafe, SeverityMutating, SeverityDangerous}"
  by (simp add: sensitivityToSeverity_def Let_def)

lemma RiskLevelToSeverity_cases:
  "RiskLevelToSeverity a \<in> {SeveritySafe, SeverityMutating, SeverityDangerous, []}"
  by (simp add: RiskLevelToSeverity_def Let_def)

lemma rank_nonneg: "0 \<le> severity_rank (sensitivityToSeverity s)"
  using sensitivityToSeverity_cases[of s] by auto

lemma action_severity_no_fallback:
  "action_severity p a =
     (if severity_rank (RiskLevelToSeverity a) \<ge> severity_rank (sensitivityToSeverity (lookupSensitivity p a))
      then RiskLevelToSeverity a else sensitivityToSeverity (lookupSensitivity p a))"
  using rank_nonneg[of "lookupSensitivity p a"] by (simp add: action_severity_def maxSeverity_def Let_def)

lemma action_severity_rank:
  "severity_rank (action_severity p a) =
     max (severity_rank (RiskLevelToSeverity a)) (severity_rank (sensitivityToSeverity (lookupSensitivity p a)))"
  by (simp add: action_severity_no_fallback max_def)

lemma action_severity_cases:
  "action_severity p a \<in> {SeveritySafe, SeverityMutating, SeverityDangerous}"
  using sensitivityToSeverity_cases[of "lookupSensitivity p a"] RiskLevelToSeverity_cases[of a]
    rank_nonneg[of "lookupSensitivity p a"]
  by (auto simp: action_severity_no_fallback split: if_splits)

section \<open>Properties\<close>

text \<open>
  Dual signatures: the signers release an action exactly when there is at least one of
  them and no rule asks for roles, or there are at least two and every role required by any
  matching allow rule is held by one of them; so more signatures never revoke a release and
  their order does not matter.
\<close>

theorem dual_sign_spec:
  "(dual_Validate rules resource action signers = None \<longleftrightarrow>
      (if collectRequires rules resource action = [] then signers \<noteq> []
       else 2 \<le> length signers \<and> set (collectRequires rules resource action) \<subseteq> sg_Role ` set signers))
   \<and> set (collectRequires rules resource action) =
      (\<Union>r\<in>{r \<in> set rules. EqualFold (ds_Effect r) ''allow'' \<and> matchResource (ds_Resource r) resource
             \<and> matchAction (ds_Action r) action}. set (ds_Requires r))"
  by (intro conjI dual_Validate_None collectRequires_set)

text \<open>
  Two signatures of one person pass: a rule that requires a single role is satisfied by the
  same user signing twice, and one that requires two roles by one user signing under both.
\<close>

theorem dual_sign_same_user:
  "let s = (\<lambda>role t. \<lparr>sg_UserID = 7, sg_Role = role, sg_ApprovedAt = t\<rparr>);
       rule = (\<lambda>req. \<lparr>ds_Role = '''', ds_Resource = ''tenant_wide'', ds_Action = ''approve'',
                      ds_Effect = ''allow'', ds_Requires = req\<rparr>)
   in dual_Validate [rule [''admin'']] ''tenant_wide'' ''approve'' [s ''admin'' 1, s ''admin'' 2] = None
    \<and> dual_Validate [rule [''admin'', ''observer'']] ''tenant_wide'' ''approve'' [s ''admin'' 1, s ''observer'' 2] = None"
  by code_simp

text \<open>
  An action outside the auto-approve list pauses exactly when the larger of its risk level
  and its resource's sensitivity is at least mutating, and two signatures are asked for exactly
  when it is dangerous.
\<close>

theorem should_pause_spec:
  "ShouldPause p (Some a) =
     (let rank = max (severity_rank (RiskLevelToSeverity a)) (severity_rank (sensitivityToSeverity (lookupSensitivity p a)))
      in if a_Tool a \<in> set (AutoApproveToolKinds (pp_cfg p)) \<or> rank \<le> 0 then (False, None)
         else (True, Some \<lparr>pr_Code = (if rank = 2 then ''risk_dangerous'' else ''risk_mutating''),
                 pr_Tool = a_Tool a, pr_Resource = a_Resource a,
                 pr_Severity = (if rank = 2 then SeverityDangerous else SeverityMutating),
                 pr_RequiredSigners = nat rank, pr_DualSign = (rank = 2)\<rparr>))"
  unfolding Let_def action_severity_rank[where p = p and a = a, symmetric]
  using action_severity_cases[of p a] by (auto simp: ShouldPause_def Let_def list_ex_iff)

text \<open>
  The list of dangerous tool names has no effect: the decision and its reason depend on the
  tool's name only through the auto-approve list, the provider and the reason's label, so
  \<open>restart_service\<close> at risk level \<open>read\<close> is not paused; and an unknown risk level is treated as
  safe, whatever \<open>DefaultSeverity\<close> says.
\<close>

theorem tool_kind_ignored:
  "action_severity p a = maxSeverity (RiskLevelToSeverity a) (sensitivityToSeverity (lookupSensitivity p a)) fallback
   \<and> fst (ShouldPause (NewPolicyFromConfig \<lparr>DangerRequiresDualSign = True, DefaultSeverity = SeverityDangerous,
            AutoApproveToolKinds = []\<rparr>) (Some \<lparr>a_Tool = ''restart_service'', a_RiskLevel = risk, a_Resource = r,
            a_Sensitivity = s\<rparr>)) = (severity_rank (RiskLevelToSeverity \<lparr>a_Tool = ''restart_service'', a_RiskLevel = risk,
            a_Resource = r, a_Sensitivity = s\<rparr>) > 0)
   \<and> severity_rank (RiskLevelToSeverity \<lparr>a_Tool = ''restart_service'', a_RiskLevel = ''execute'', a_Resource = r,
            a_Sensitivity = s\<rparr>) = -1"
proof (intro conjI)
  show "action_severity p a = maxSeverity (RiskLevelToSeverity a) (sensitivityToSeverity (lookupSensitivity p a)) fallback"
    using rank_nonneg[of "lookupSensitivity p a"] by (simp add: action_severity_no_fallback maxSeverity_def Let_def)
next
  let ?a = "\<lparr>a_Tool = ''restart_service'', a_RiskLevel = risk, a_Resource = r, a_Sensitivity = s\<rparr>"
  let ?p = "NewPolicyFromConfig \<lparr>DangerRequiresDualSign = True, DefaultSeverity = SeverityDangerous, AutoApproveToolKinds = []\<rparr>"
  have "sensitivityToSeverity SensitivityInternal = SeveritySafe" by code_simp
  then have "severity_rank (action_severity ?p ?a) = max (severity_rank (RiskLevelToSeverity ?a)) 0"
    by (simp add: action_severity_rank lookupSensitivity_def NewPolicyFromConfig_def)
  with action_severity_cases[of ?p ?a]
  show "fst (ShouldPause ?p (Some ?a)) = (severity_rank (RiskLevelToSeverity ?a) > 0)"
    by (auto simp: ShouldPause_def Let_def NewPolicyFromConfig_def)
next
  have "ToLower (TrimSpace ''execute'') = ''execute''" by code_simp
  then show "severity_rank (RiskLevelToSeverity \<lparr>a_Tool = ''restart_service'', a_RiskLevel = ''execute'',
      a_Resource = r, a_Sensitivity = s\<rparr>) = -1"
    by (simp add: RiskLevelToSeverity_def Let_def)
qed

end
