(* ===== verification/Go_Json.thy ===== *)
theory Go_Json
  imports Go_Strings Complex_Main
begin

text \<open>
  Dynamic values. A Go \<^verbatim>\<open>any\<close> that holds decoded JSON (or what the programs build like it) is a
  \<open>json\<close> value: \<open>JNull\<close> is the nil interface, \<open>JNum\<close> a \<^verbatim>\<open>float64\<close>, which is what
  \<^verbatim>\<open>encoding/json\<close> decodes numbers to, and \<open>JInt\<close> a Go \<^verbatim>\<open>int\<close> put there by the program. A
  \<^verbatim>\<open>float64\<close> is the rational it denotes, an infinity or not a number, with the comparisons of
  IEEE 754. Decimal printing of naturals closes the theory.
\<close>

section \<open>Floating-point values\<close>

datatype gofloat = Fin rat | PosInf | NegInf | NaN

fun flt_less :: "gofloat \<Rightarrow> gofloat \<Rightarrow> bool" where
  "flt_less (Fin x) (Fin y) = (x < y)"
| "flt_less NegInf (Fin _) = True"
| "flt_less NegInf PosInf = True"
| "flt_less (Fin _) PosInf = True"
| "flt_less _ _ = False"

definition flt_eq :: "gofloat \<Rightarrow> gofloat \<Rightarrow> bool" where
  "flt_eq x y = (x \<noteq> NaN \<and> x = y)"

lemma flt_trichotomy: "x \<noteq> NaN \<Longrightarrow> y \<noteq> NaN \<Longrightarrow> flt_less x y \<or> flt_eq x y \<or> flt_less y x"
  by (cases x; cases y) (auto simp: flt_eq_def)

lemma flt_nan [simp]: "\<not> flt_less NaN y" "\<not> flt_less x NaN" "\<not> flt_eq NaN y" "\<not> flt_eq x NaN"
  by (cases x; cases y; simp add: flt_eq_def)+

section \<open>Values\<close>

datatype json = JNull | JBool bool | JNum gofloat | JInt int | JStr string | JArr "json list" | JObj "(string \<times> json) list"

text \<open>A \<^verbatim>\<open>map[string]any\<close>: \<open>None\<close> is the nil map, which reads as empty and encodes as \<^verbatim>\<open>null\<close>.\<close>

type_synonym anymap = "(string \<times> json) list option"

definition entries :: "anymap \<Rightarrow> (string \<times> json) list" where
  "entries m = (case m of None \<Rightarrow> [] | Some kvs \<Rightarrow> kvs)"

definition any_at :: "anymap \<Rightarrow> string \<Rightarrow> json" where
  "any_at m k = (case map_of (entries m) k of None \<Rightarrow> JNull | Some v \<Rightarrow> v)"

definition any_json :: "anymap \<Rightarrow> json" where
  "any_json m = (case m of None \<Rightarrow> JNull | Some kvs \<Rightarrow> JObj kvs)"

text \<open>The two-value type assertion \<^verbatim>\<open>m[k].(string)\<close>: the zero value when it fails.\<close>

definition str_at :: "anymap \<Rightarrow> string \<Rightarrow> string" where
  "str_at m k = (case any_at m k of JStr s \<Rightarrow> s | _ \<Rightarrow> [])"

section \<open>Decimal numbers\<close>

fun dec :: "nat \<Rightarrow> string" where
  "dec n = (if n < 10 then [char_of (48 + n)] else dec (n div 10) @ [char_of (48 + n mod 10)])"

declare dec.simps [simp del]

lemma dec_ne [simp]: "dec n \<noteq> []"
  by (subst dec.simps) simp

lemma digit_inj: "a < 10 \<Longrightarrow> b < 10 \<Longrightarrow> (char_of (48 + a) :: char) = char_of (48 + b) \<longleftrightarrow> a = (b::nat)"
  by (auto simp: char_of_eq_iff take_bit_eq_mod)

lemma dec_inj: "dec m = dec n \<longleftrightarrow> m = n"
proof (induction m arbitrary: n rule: less_induct)
  case (less m)
  have last: "last (dec k) = char_of (48 + k mod 10)" for k by (subst dec.simps) simp
  have bl: "butlast (dec k) = (if k < 10 then [] else dec (k div 10))" for k by (subst dec.simps) simp
  show ?case
  proof
    assume eq: "dec m = dec n"
    then have "m mod 10 = n mod 10" using last[of m] last[of n] digit_inj[of "m mod 10" "n mod 10"] by simp
    moreover have "m div 10 = n div 10"
    proof (cases "m < 10")
      case True
      with eq bl[of m] bl[of n] show ?thesis by (auto split: if_splits)
    next
      case False
      with eq bl[of m] bl[of n] have "dec (m div 10) = (if n < 10 then [] else dec (n div 10))" by simp
      then have "dec (m div 10) = dec (n div 10)" using dec_ne[of "m div 10"] by (cases "n < 10") simp_all
      with False less[of "m div 10" "n div 10"] show ?thesis by simp
    qed
    ultimately show "m = n" by (metis div_mult_mod_eq)
  qed simp
qed

lemma dec_digits: "c \<in> set (dec n) \<Longrightarrow> c \<noteq> CHR '':''"
proof (induction n rule: less_induct)
  case (less n)
  have d: "(char_of (48 + k) :: char) \<noteq> CHR '':''" if "k < 10" for k :: nat
    using that by (auto simp: char_of_eq_iff take_bit_eq_mod)
  show ?case
  proof (cases "n < 10")
    case True
    with less.prems d[of n] show ?thesis by (subst (asm) dec.simps) auto
  next
    case False
    with less.prems have "c \<in> set (dec (n div 10)) \<or> c = char_of (48 + n mod 10)"
      by (subst (asm) dec.simps) auto
    with less.IH[of "n div 10"] False d[of "n mod 10"] show ?thesis by auto
  qed
qed

end
