(* ===== verification/Loop_Model.thy ===== *)
theory Loop_Model
  imports Go_Json
begin

text \<open>
  The data of the closed-loop orchestrator: the rows of \<^verbatim>\<open>internal/manager/model/loop/event_log.go\<close>
  and the phase, worker and repository interfaces of \<^verbatim>\<open>internal/manager/biz/loop\<close>
  (\<^verbatim>\<open>orchestrator.go\<close>, \<^verbatim>\<open>phase_worker.go\<close>, \<^verbatim>\<open>event_repo.go\<close>).

  An interface value is a record of its methods over a state \<open>'w\<close> of everything outside the
  orchestrator; a method returns its result and the new state. \<open>AppendEvent\<close> and
  \<open>WriteContract\<close> receive a pointer and set the row's identifier: the model returns that
  identifier. A Go \<^verbatim>\<open>any\<close> is a \<open>json\<close> value, the numbers of a contract are the rationals
  they denote, and the errors the orchestrator only forwards are their messages.
\<close>

section \<open>Phases and event types\<close>

type_synonym Phase = string

definition PhaseDetected :: Phase where "PhaseDetected = ''detected''"
definition PhaseCorrelated :: Phase where "PhaseCorrelated = ''correlated''"
definition PhaseInvestigated :: Phase where "PhaseInvestigated = ''investigated''"
definition PhaseCritiqued :: Phase where "PhaseCritiqued = ''critiqued''"
definition PhaseApproved :: Phase where "PhaseApproved = ''approved''"
definition PhaseRecovered :: Phase where "PhaseRecovered = ''recovered''"
definition PhasePostmortem :: Phase where "PhasePostmortem = ''postmortem''"
definition PhaseFailed :: Phase where "PhaseFailed = ''failed''"
definition PhaseAborted :: Phase where "PhaseAborted = ''aborted''"

lemmas phase_defs = PhaseDetected_def PhaseCorrelated_def PhaseInvestigated_def PhaseCritiqued_def PhaseApproved_def
  PhaseRecovered_def PhasePostmortem_def PhaseFailed_def PhaseAborted_def

lemma phases_neq [simp]:
  "PhaseDetected \<noteq> PhaseCorrelated" "PhaseDetected \<noteq> PhaseInvestigated" "PhaseDetected \<noteq> PhaseCritiqued"
  "PhaseDetected \<noteq> PhaseApproved" "PhaseDetected \<noteq> PhaseRecovered" "PhaseDetected \<noteq> PhasePostmortem"
  "PhaseDetected \<noteq> PhaseFailed" "PhaseDetected \<noteq> PhaseAborted"
  "PhaseCorrelated \<noteq> PhaseDetected" "PhaseCorrelated \<noteq> PhaseInvestigated" "PhaseCorrelated \<noteq> PhaseCritiqued"
  "PhaseCorrelated \<noteq> PhaseApproved" "PhaseCorrelated \<noteq> PhaseRecovered" "PhaseCorrelated \<noteq> PhasePostmortem"
  "PhaseCorrelated \<noteq> PhaseFailed" "PhaseCorrelated \<noteq> PhaseAborted"
  "PhaseInvestigated \<noteq> PhaseDetected" "PhaseInvestigated \<noteq> PhaseCorrelated" "PhaseInvestigated \<noteq> PhaseCritiqued"
  "PhaseInvestigated \<noteq> PhaseApproved" "PhaseInvestigated \<noteq> PhaseRecovered" "PhaseInvestigated \<noteq> PhasePostmortem"
  "PhaseInvestigated \<noteq> PhaseFailed" "PhaseInvestigated \<noteq> PhaseAborted"
  "PhaseCritiqued \<noteq> PhaseDetected" "PhaseCritiqued \<noteq> PhaseCorrelated" "PhaseCritiqued \<noteq> PhaseInvestigated"
  "PhaseCritiqued \<noteq> PhaseApproved" "PhaseCritiqued \<noteq> PhaseRecovered" "PhaseCritiqued \<noteq> PhasePostmortem"
  "PhaseCritiqued \<noteq> PhaseFailed" "PhaseCritiqued \<noteq> PhaseAborted"
  "PhaseApproved \<noteq> PhaseDetected" "PhaseApproved \<noteq> PhaseCorrelated" "PhaseApproved \<noteq> PhaseInvestigated"
  "PhaseApproved \<noteq> PhaseCritiqued" "PhaseApproved \<noteq> PhaseRecovered" "PhaseApproved \<noteq> PhasePostmortem"
  "PhaseApproved \<noteq> PhaseFailed" "PhaseApproved \<noteq> PhaseAborted"
  "PhaseRecovered \<noteq> PhaseDetected" "PhaseRecovered \<noteq> PhaseCorrelated" "PhaseRecovered \<noteq> PhaseInvestigated"
  "PhaseRecovered \<noteq> PhaseCritiqued" "PhaseRecovered \<noteq> PhaseApproved" "PhaseRecovered \<noteq> PhasePostmortem"
  "PhaseRecovered \<noteq> PhaseFailed" "PhaseRecovered \<noteq> PhaseAborted"
  "PhasePostmortem \<noteq> PhaseDetected" "PhasePostmortem \<noteq> PhaseCorrelated" "PhasePostmortem \<noteq> PhaseInvestigated"
  "PhasePostmortem \<noteq> PhaseCritiqued" "PhasePostmortem \<noteq> PhaseApproved" "PhasePostmortem \<noteq> PhaseRecovered"
  "PhasePostmortem \<noteq> PhaseFailed" "PhasePostmortem \<noteq> PhaseAborted"
  "PhaseFailed \<noteq> PhaseDetected" "PhaseFailed \<noteq> PhaseCorrelated" "PhaseFailed \<noteq> PhaseInvestigated"
  "PhaseFailed \<noteq> PhaseCritiqued" "PhaseFailed \<noteq> PhaseApproved" "PhaseFailed \<noteq> PhaseRecovered"
  "PhaseFailed \<noteq> PhasePostmortem" "PhaseFailed \<noteq> PhaseAborted"
  "PhaseAborted \<noteq> PhaseDetected" "PhaseAborted \<noteq> PhaseCorrelated" "PhaseAborted \<noteq> PhaseInvestigated"
  "PhaseAborted \<noteq> PhaseCritiqued" "PhaseAborted \<noteq> PhaseApproved" "PhaseAborted \<noteq> PhaseRecovered"
  "PhaseAborted \<noteq> PhasePostmortem" "PhaseAborted \<noteq> PhaseFailed"
  by (simp_all add: phase_defs)

definition EventTypePhaseEntered :: string where "EventTypePhaseEntered = ''phase_entered''"
definition EventPhaseContractWritten :: string where "EventPhaseContractWritten = ''phase_contract_written''"
definition EventPhaseFailed :: string where "EventPhaseFailed = ''phase_failed''"
definition EventPhasePaused :: string where "EventPhasePaused = ''phase_paused''"
definition EventPhaseResumed :: string where "EventPhaseResumed = ''phase_resumed''"
definition EventRollback :: string where "EventRollback = ''rollback''"
definition EventRetryExhausted :: string where "EventRetryExhausted = ''retry_exhausted''"
definition EventCorrection :: string where "EventCorrection = ''correction''"

lemmas event_type_defs = EventTypePhaseEntered_def EventPhaseContractWritten_def EventPhaseFailed_def EventPhasePaused_def
  EventPhaseResumed_def EventRollback_def EventRetryExhausted_def EventCorrection_def

lemma event_types_neq [simp]:
  "EventTypePhaseEntered \<noteq> EventPhaseContractWritten" "EventTypePhaseEntered \<noteq> EventPhaseFailed" "EventTypePhaseEntered \<noteq> EventPhasePaused"
  "EventTypePhaseEntered \<noteq> EventPhaseResumed" "EventTypePhaseEntered \<noteq> EventRollback" "EventTypePhaseEntered \<noteq> EventRetryExhausted"
  "EventTypePhaseEntered \<noteq> EventCorrection"
  "EventPhaseContractWritten \<noteq> EventTypePhaseEntered" "EventPhaseContractWritten \<noteq> EventPhaseFailed" "EventPhaseContractWritten \<noteq> EventPhasePaused"
  "EventPhaseContractWritten \<noteq> EventPhaseResumed" "EventPhaseContractWritten \<noteq> EventRollback" "EventPhaseContractWritten \<noteq> EventRetryExhausted"
  "EventPhaseContractWritten \<noteq> EventCorrection"
  "EventPhaseFailed \<noteq> EventTypePhaseEntered" "EventPhaseFailed \<noteq> EventPhaseContractWritten" "EventPhaseFailed \<noteq> EventPhasePaused"
  "EventPhaseFailed \<noteq> EventPhaseResumed" "EventPhaseFailed \<noteq> EventRollback" "EventPhaseFailed \<noteq> EventRetryExhausted"
  "EventPhaseFailed \<noteq> EventCorrection"
  "EventPhasePaused \<noteq> EventTypePhaseEntered" "EventPhasePaused \<noteq> EventPhaseContractWritten" "EventPhasePaused \<noteq> EventPhaseFailed"
  "EventPhasePaused \<noteq> EventPhaseResumed" "EventPhasePaused \<noteq> EventRollback" "EventPhasePaused \<noteq> EventRetryExhausted"
  "EventPhasePaused \<noteq> EventCorrection"
  "EventPhaseResumed \<noteq> EventTypePhaseEntered" "EventPhaseResumed \<noteq> EventPhaseContractWritten" "EventPhaseResumed \<noteq> EventPhaseFailed"
  "EventPhaseResumed \<noteq> EventPhasePaused" "EventPhaseResumed \<noteq> EventRollback" "EventPhaseResumed \<noteq> EventRetryExhausted"
  "EventPhaseResumed \<noteq> EventCorrection"
  "EventRollback \<noteq> EventTypePhaseEntered" "EventRollback \<noteq> EventPhaseContractWritten" "EventRollback \<noteq> EventPhaseFailed"
  "EventRollback \<noteq> EventPhasePaused" "EventRollback \<noteq> EventPhaseResumed" "EventRollback \<noteq> EventRetryExhausted"
  "EventRollback \<noteq> EventCorrection"
  "EventRetryExhausted \<noteq> EventTypePhaseEntered" "EventRetryExhausted \<noteq> EventPhaseContractWritten" "EventRetryExhausted \<noteq> EventPhaseFailed"
  "EventRetryExhausted \<noteq> EventPhasePaused" "EventRetryExhausted \<noteq> EventPhaseResumed" "EventRetryExhausted \<noteq> EventRollback"
  "EventRetryExhausted \<noteq> EventCorrection"
  "EventCorrection \<noteq> EventTypePhaseEntered" "EventCorrection \<noteq> EventPhaseContractWritten" "EventCorrection \<noteq> EventPhaseFailed"
  "EventCorrection \<noteq> EventPhasePaused" "EventCorrection \<noteq> EventPhaseResumed" "EventCorrection \<noteq> EventRollback"
  "EventCorrection \<noteq> EventRetryExhausted"
  by (simp_all add: event_type_defs)

definition allForwardPhases :: "Phase list" where
  "allForwardPhases = [PhaseDetected, PhaseCorrelated, PhaseInvestigated, PhaseCritiqued, PhaseApproved,
     PhaseRecovered, PhasePostmortem]"

definition MaxRetryCount :: nat where "MaxRetryCount = 3"
definition RollbackStaleThreshold :: int where "RollbackStaleThreshold = 30 * 60 * 1000000000"
definition DefaultAdvisoryLockTimeoutSec :: int where "DefaultAdvisoryLockTimeoutSec = 5"

section \<open>Rows\<close>

record Event =
  ev_ID :: int
  ev_IncidentID :: string
  ev_TenantID :: string
  ev_EventType :: string
  ev_Phase :: string
  ev_IdempotencyKey :: string
  ev_Payload :: string
  ev_TraceID :: string
  ev_CreatedAt :: instant

record LoopState =
  ls_IncidentID :: string
  ls_CurrentPhase :: string
  ls_LastEventID :: int
  ls_RetryCount :: int
  ls_UpdatedAt :: instant

record Contract =
  ct_ID :: int
  ct_IncidentID :: string
  ct_TenantID :: string
  ct_Phase :: string
  ct_Type :: string
  ct_SchemaVer :: string
  ct_Payload :: string
  ct_SizeBytes :: nat
  ct_StorageBackend :: string
  ct_CreatedAt :: instant

section \<open>Workers\<close>

record ContractRef = cf_ID :: int  cf_Type :: string  cf_SchemaVersion :: string

definition ContractSchemaV1 :: string where "ContractSchemaV1 = ''v1''"

record PlanInput =
  pi_IncidentID :: string
  pi_TenantID :: string
  pi_Phase :: Phase
  pi_Attempt :: nat
  pi_UpstreamContract :: "ContractRef option"
  pi_TraceID :: string
  pi_AlertGroup :: "string list"
  pi_CorrelationHints :: anymap

record PlanStep = st_Kind :: string  st_Target :: string  st_Args :: anymap  st_TimeoutMs :: int

record CostEstimate = ce_USD :: rat  ce_Tokens :: int

record Plan = pn_Steps :: "PlanStep list"  pn_EstimatedCost :: CostEstimate  pn_Meta :: anymap

record SideEffect = se_Kind :: string  se_Target :: string  se_Detail :: anymap

record ToolReplayEntry =
  tr_Name :: string
  tr_ArgsJSON :: string
  tr_ResultJSON :: string
  tr_Status :: string
  tr_LatencyMs :: int
  tr_Timestamp :: instant

record ExecResult =
  er_ContractRef :: "ContractRef option"
  er_SideEffects :: "SideEffect list"
  er_ToolReplay :: "ToolReplayEntry list"
  er_RawOutputs :: anymap

text \<open>The reasons are a slice: \<open>None\<close> is the nil slice, which encodes as \<^verbatim>\<open>null\<close>.\<close>

record Verdict = vd_OK :: bool  vd_Confidence :: rat  vd_Reasons :: "string list option"  vd_TimedOut :: bool

record 'w PhaseWorker =
  pw_Phase :: Phase
  pw_Planner :: "PlanInput \<Rightarrow> 'w \<Rightarrow> (string, Plan) result \<times> 'w"
  pw_Executor :: "Plan \<Rightarrow> 'w \<Rightarrow> (string, ExecResult) result \<times> 'w"
  pw_Verifier :: "int \<Rightarrow> ExecResult \<Rightarrow> 'w \<Rightarrow> (string, Verdict) result \<times> 'w"
  pw_VerifierTimeoutMs :: int

section \<open>Repositories\<close>

record 'w EventRepo =
  rp_AppendEvent :: "Event \<Rightarrow> 'w \<Rightarrow> (string, int) result \<times> 'w"
  rp_ReadEvents :: "string \<Rightarrow> string \<Rightarrow> 'w \<Rightarrow> (string, Event list) result \<times> 'w"

record 'w ContractRepo =
  rp_WriteContract :: "Contract \<Rightarrow> 'w \<Rightarrow> (string, int) result \<times> 'w"
  rp_ReadContract :: "string \<Rightarrow> string \<Rightarrow> Phase \<Rightarrow> string \<Rightarrow> 'w \<Rightarrow> (string, Contract option) result \<times> 'w"

text \<open>A worker registry is a map from phases, here by its entries.\<close>

type_synonym 'w WorkerRegistry = "(Phase \<times> 'w PhaseWorker) list"

definition registry_Get :: "'w WorkerRegistry option \<Rightarrow> Phase \<Rightarrow> 'w PhaseWorker option" where
  "registry_Get r p = (case r of None \<Rightarrow> None | Some ws \<Rightarrow> map_of ws p)"

definition registry_Has :: "'w WorkerRegistry option \<Rightarrow> Phase \<Rightarrow> bool" where
  "registry_Has r p = (registry_Get r p \<noteq> None)"

definition registry_Phases :: "'w WorkerRegistry option \<Rightarrow> Phase list" where
  "registry_Phases r = (case r of None \<Rightarrow> [] | Some ws \<Rightarrow> remdups (map fst ws))"

text \<open>The package-global registry is threaded explicitly.\<close>

definition UnregisterPhaseWorker :: "Phase \<Rightarrow> 'w WorkerRegistry \<Rightarrow> 'w WorkerRegistry" where
  "UnregisterPhaseWorker p reg = filter (\<lambda>kw. fst kw \<noteq> p) reg"

definition RegisterPhaseWorker :: "'w PhaseWorker \<Rightarrow> 'w WorkerRegistry \<Rightarrow> 'w WorkerRegistry" where
  "RegisterPhaseWorker wk reg = (pw_Phase wk, wk) # UnregisterPhaseWorker (pw_Phase wk) reg"

definition ErrWorkerNotRegistered :: string where
  "ErrWorkerNotRegistered = ''loop: phase worker not registered''"

definition LookupPhaseWorker :: "'w WorkerRegistry \<Rightarrow> Phase \<Rightarrow> (string, 'w PhaseWorker) result" where
  "LookupPhaseWorker reg p = (case map_of reg p of Some wk \<Rightarrow> Ok wk | None \<Rightarrow> Err ErrWorkerNotRegistered)"

lemma lookup_register: "map_of (RegisterPhaseWorker wk reg) p = (if p = pw_Phase wk then Some wk else map_of reg p)"
  by (induction reg) (auto simp: RegisterPhaseWorker_def UnregisterPhaseWorker_def)

section \<open>The default worker\<close>

definition DefaultVerifierTimeoutMs :: int where "DefaultVerifierTimeoutMs = 30000"

definition BasePhaseWorker :: "Phase \<Rightarrow> int \<Rightarrow> 'w PhaseWorker" where
  "BasePhaseWorker phaseRef verifierMs =
     \<lparr>pw_Phase = phaseRef,
      pw_Planner = (\<lambda>_ w. (Ok \<lparr>pn_Steps = [], pn_EstimatedCost = \<lparr>ce_USD = 0, ce_Tokens = 0\<rparr>, pn_Meta = None\<rparr>, w)),
      pw_Executor = (\<lambda>_ w. (Ok \<lparr>er_ContractRef = None, er_SideEffects = [], er_ToolReplay = [], er_RawOutputs = None\<rparr>, w)),
      pw_Verifier = (\<lambda>_ _ w. (Ok \<lparr>vd_OK = True, vd_Confidence = 1 / 2, vd_Reasons = None, vd_TimedOut = False\<rparr>, w)),
      pw_VerifierTimeoutMs = (if verifierMs > 0 then verifierMs else DefaultVerifierTimeoutMs)\<rparr>"

end
