(* ===== verification/Loop_Contract.thy ===== *)
theory Loop_Contract
  imports Loop_Model
begin

text \<open>
  The structured payloads handed from phase to phase
  (\<^verbatim>\<open>internal/manager/biz/loop/contract.go\<close>), their validators and the storage selector of
  the encoder. An \<open>ErrInvalidSchema\<close> error is a value of \<open>schema_error\<close>, one constructor
  per message of the source.
\<close>

section \<open>Contracts\<close>

definition ContractSchemaV1_1 :: string where "ContractSchemaV1_1 = ''v1.1''"

record RootCauseObject = rco_Kind :: string  rco_Summary :: string  rco_Detail :: anymap

record EvidenceItem =
  evi_Tool :: string
  evi_Query :: string
  evi_Value :: json
  evi_Count :: int
  evi_Timestamp :: instant

record TimeWindow = tw_Start :: instant  tw_End :: instant

record RemediationOption = ro_Action :: string  ro_Target :: string  ro_Risk :: string  ro_AutoApprove :: bool

record RootCauseJSON =
  rc_SchemaVersion :: string
  rc_RootCauseObject :: "RootCauseObject option"
  rc_Confidence :: rat
  rc_EvidenceChain :: "EvidenceItem list"
  rc_TimeWindow :: TimeWindow
  rc_RemediationOptions :: "RemediationOption list"
  rc_LegacySummaryText :: string

record CritiqueScore =
  cs_SchemaVersion :: string
  cs_Verdict :: string
  cs_Score :: rat
  cs_Reasons :: "string list"
  cs_Model :: string
  cs_LatencyMs :: int

record VerifiedDelta =
  vdl_SchemaVersion :: string
  vdl_Passed :: bool
  vdl_FailedMetrics :: "string list"
  vdl_Deltas :: "(string \<times> rat) list"
  vdl_SampleSize :: int
  vdl_Tolerance :: rat
  vdl_RetryCount :: int
  vdl_WarningLevel :: string

record PostmortemDoc =
  pm_SchemaVersion :: string
  pm_IncidentID :: string
  pm_ConversationID :: string
  pm_Markdown :: string
  pm_GeneratedAt :: instant
  pm_Sources :: "string list"

section \<open>Validators\<close>

datatype schema_error =
    SchemaNil
  | SchemaVersion string
  | RootCauseMissing
  | KindMissing
  | SummaryMissing
  | ConfidenceRange rat
  | EvidenceEmpty
  | EvidenceTooMany nat
  | TimeWindowOrder
  | RemediationEmpty
  | RemediationTooMany nat
  | RemediationRisk nat string
  | CritiqueVerdict string
  | CritiqueRange rat
  | ToleranceRange rat
  | SampleNegative int
  | WarningLevel string
  | FailedMetricsEmpty
  | IncidentMissing
  | MarkdownEmpty
  | SourcesEmpty

definition known_risk :: "string \<Rightarrow> bool" where
  "known_risk r = (r = ''safe'' \<or> r = ''mutating'' \<or> r = ''dangerous'')"

text \<open>The loop over the remediation options: the first option with an unknown risk.\<close>

fun check_risks :: "nat \<Rightarrow> RemediationOption list \<Rightarrow> schema_error err" where
  "check_risks i [] = None"
| "check_risks i (ro # ros) = (if \<not> known_risk (ro_Risk ro) then Some (RemediationRisk i (ro_Risk ro)) else check_risks (Suc i) ros)"

definition ValidateRootCauseJSON :: "RootCauseJSON option \<Rightarrow> schema_error err" where
  "ValidateRootCauseJSON c' = (case c' of None \<Rightarrow> Some SchemaNil | Some c \<Rightarrow>
     if rc_SchemaVersion c \<noteq> ContractSchemaV1 \<and> rc_SchemaVersion c \<noteq> ContractSchemaV1_1 then Some (SchemaVersion (rc_SchemaVersion c))
     else (case rc_RootCauseObject c of None \<Rightarrow> Some RootCauseMissing | Some rco \<Rightarrow>
       if rco_Kind rco = [] then Some KindMissing
       else if rco_Summary rco = [] then Some SummaryMissing
       else if rc_Confidence c < 0 \<or> rc_Confidence c > 1 then Some (ConfidenceRange (rc_Confidence c))
       else if length (rc_EvidenceChain c) < 1 then Some EvidenceEmpty
       else if length (rc_EvidenceChain c) > 50 then Some (EvidenceTooMany (length (rc_EvidenceChain c)))
       else if \<not> tw_End (rc_TimeWindow c) > tw_Start (rc_TimeWindow c) then Some TimeWindowOrder
       else if length (rc_RemediationOptions c) < 1 then Some RemediationEmpty
       else if length (rc_RemediationOptions c) > 10 then Some (RemediationTooMany (length (rc_RemediationOptions c)))
       else check_risks 0 (rc_RemediationOptions c)))"

definition ValidateCritiqueScore :: "CritiqueScore option \<Rightarrow> schema_error err" where
  "ValidateCritiqueScore c' = (case c' of None \<Rightarrow> Some SchemaNil | Some c \<Rightarrow>
     if cs_SchemaVersion c \<noteq> ContractSchemaV1 then Some (SchemaVersion (cs_SchemaVersion c))
     else if cs_Verdict c \<noteq> ''pass'' \<and> cs_Verdict c \<noteq> ''fail'' \<and> cs_Verdict c \<noteq> ''needs_info'' then Some (CritiqueVerdict (cs_Verdict c))
     else if cs_Score c < 0 \<or> cs_Score c > 1 then Some (CritiqueRange (cs_Score c))
     else None)"

definition ValidateVerifiedDelta :: "VerifiedDelta option \<Rightarrow> schema_error err" where
  "ValidateVerifiedDelta c' = (case c' of None \<Rightarrow> Some SchemaNil | Some c \<Rightarrow>
     if vdl_SchemaVersion c \<noteq> ContractSchemaV1 then Some (SchemaVersion (vdl_SchemaVersion c))
     else if vdl_Tolerance c \<le> 0 \<or> vdl_Tolerance c > 1 then Some (ToleranceRange (vdl_Tolerance c))
     else if vdl_SampleSize c < 0 then Some (SampleNegative (vdl_SampleSize c))
     else if vdl_WarningLevel c \<noteq> ''pass'' \<and> vdl_WarningLevel c \<noteq> ''warn'' \<and> vdl_WarningLevel c \<noteq> ''fail'' then
       Some (WarningLevel (vdl_WarningLevel c))
     else if \<not> vdl_Passed c \<and> length (vdl_FailedMetrics c) = 0 then Some FailedMetricsEmpty
     else None)"

definition ValidatePostmortemDoc :: "PostmortemDoc option \<Rightarrow> schema_error err" where
  "ValidatePostmortemDoc p' = (case p' of None \<Rightarrow> Some SchemaNil | Some p \<Rightarrow>
     if pm_SchemaVersion p \<noteq> ContractSchemaV1 then Some (SchemaVersion (pm_SchemaVersion p))
     else if pm_IncidentID p = [] then Some IncidentMissing
     else if pm_Markdown p = [] then Some MarkdownEmpty
     else if length (pm_Sources p) = 0 then Some SourcesEmpty
     else None)"

section \<open>The encoder\<close>

definition InlinePayloadMaxBytes :: nat where "InlinePayloadMaxBytes = 64 * 1024"
definition StorageBackendDB :: string where "StorageBackendDB = ''db''"
definition StorageBackendOSS :: string where "StorageBackendOSS = ''oss''"

text \<open>\<open>MarshalContract\<close> takes what \<^verbatim>\<open>json.Marshal\<close> returned for the contract.\<close>

definition MarshalContract :: "(string, string) result \<Rightarrow> (string, string \<times> string \<times> nat) result" where
  "MarshalContract enc = (case enc of Err e \<Rightarrow> Err (''marshal contract: '' @ e)
     | Ok raw \<Rightarrow> Ok (raw, (if length raw > InlinePayloadMaxBytes then StorageBackendOSS else StorageBackendDB), length raw))"

section \<open>What a validated contract guarantees\<close>

lemma check_risks_None: "check_risks i ros = None \<longleftrightarrow> (\<forall>ro\<in>set ros. known_risk (ro_Risk ro))"
  by (induction ros arbitrary: i) auto

lemma check_risks_first:
  "check_risks i ros = Some e \<Longrightarrow> \<exists>k < length ros. e = RemediationRisk (i + k) (ro_Risk (ros ! k)) \<and> \<not> known_risk (ro_Risk (ros ! k)) \<and>
     (\<forall>j < k. known_risk (ro_Risk (ros ! j)))"
proof (induction ros arbitrary: i)
  case (Cons ro ros)
  show ?case
  proof (cases "known_risk (ro_Risk ro)")
    case True
    with Cons.prems have "check_risks (Suc i) ros = Some e" by simp
    from Cons.IH[OF this] obtain k where "k < length ros" "e = RemediationRisk (Suc i + k) (ro_Risk (ros ! k))"
      "\<not> known_risk (ro_Risk (ros ! k))" "\<forall>j < k. known_risk (ro_Risk (ros ! j))" by blast
    with True show ?thesis by (intro exI[of _ "Suc k"]) (auto simp: nth_Cons')
  next
    case False
    with Cons.prems show ?thesis by (intro exI[of _ 0]) auto
  qed
qed simp

text \<open>The root-cause contract is accepted exactly when every rule of the schema holds: a supported version, a
  named and summarised cause, a confidence in the unit interval, one to fifty pieces of evidence, a non-empty
  window and one to ten remediation options, each with a known risk. So no unclassified remediation reaches the
  approval phase through a validated contract.\<close>

theorem root_cause_valid_iff:
  "ValidateRootCauseJSON (Some c) = None \<longleftrightarrow>
     rc_SchemaVersion c \<in> {ContractSchemaV1, ContractSchemaV1_1} \<and>
     (\<exists>rco. rc_RootCauseObject c = Some rco \<and> rco_Kind rco \<noteq> [] \<and> rco_Summary rco \<noteq> []) \<and>
     rc_Confidence c \<in> {0..1} \<and> length (rc_EvidenceChain c) \<in> {1..50} \<and>
     tw_Start (rc_TimeWindow c) < tw_End (rc_TimeWindow c) \<and> length (rc_RemediationOptions c) \<in> {1..10} \<and>
     ro_Risk ` set (rc_RemediationOptions c) \<subseteq> {''safe'', ''mutating'', ''dangerous''}"
  by (auto simp: ValidateRootCauseJSON_def check_risks_None known_risk_def not_less not_le Suc_le_eq split: option.splits if_splits)

lemma verified_delta_rejected_has_metrics:
  "ValidateVerifiedDelta (Some c) = None \<Longrightarrow> \<not> vdl_Passed c \<Longrightarrow> vdl_FailedMetrics c \<noteq> []"
  by (auto simp: ValidateVerifiedDelta_def split: if_splits)

lemma marshal_backend: "MarshalContract enc = Ok (p, b, n) \<Longrightarrow> n = length p \<and> (b = StorageBackendDB \<longleftrightarrow> n \<le> InlinePayloadMaxBytes)"
  by (auto simp: MarshalContract_def StorageBackendDB_def StorageBackendOSS_def split: sum.splits if_splits)

end
