(* ===== verification/Loop_Phases.thy ===== *)
theory Loop_Phases
  imports Loop_Contract
begin

text \<open>
  The transition rules and the crash recovery of the closed loop
  (\<^verbatim>\<open>internal/manager/biz/loop/orchestrator.go\<close>): the phase table, the guard of the rollback,
  and the phase a run is in according to its event log. \<open>recoverFromEvents\<close> reads the log
  newest event first, as its caller \<open>State\<close> passes it.
\<close>

section \<open>Transition rules\<close>

datatype phase_error = ErrTerminalPhase string | ErrInvalidTransition string

fun phase_error_msg :: "phase_error \<Rightarrow> string" where
  "phase_error_msg (ErrTerminalPhase p) = ''loop: source phase is terminal: from '' @ p"
| "phase_error_msg (ErrInvalidTransition p) = ''loop: invalid phase transition: from '' @ p"

definition nextPhase :: "Phase \<Rightarrow> bool \<Rightarrow> (phase_error, Phase) result" where
  "nextPhase current contractValid =
    (if current = PhaseDetected then Ok PhaseCorrelated
     else if current = PhaseCorrelated then Ok PhaseInvestigated
     else if current = PhaseInvestigated then Ok PhaseCritiqued
     else if current = PhaseCritiqued then Ok PhaseApproved
     else if current = PhaseApproved then Ok PhaseRecovered
     else if current = PhaseRecovered then (if contractValid then Ok PhasePostmortem else Ok PhaseApproved)
     else if current = PhasePostmortem \<or> current = PhaseFailed \<or> current = PhaseAborted then Err (ErrTerminalPhase current)
     else Err (ErrInvalidTransition current))"

definition isTerminal :: "Phase \<Rightarrow> bool" where
  "isTerminal phase = (phase = PhasePostmortem \<or> phase = PhaseFailed \<or> phase = PhaseAborted)"

section \<open>The rollback guard\<close>

text \<open>Bytes are compared after lowering the ASCII capitals.\<close>

definition lower_byte :: "char \<Rightarrow> char" where
  "lower_byte c = (if of_char c \<ge> (65::nat) \<and> of_char c \<le> (90::nat) then char_of (of_char c + 32 :: nat) else c)"

fun equalFold :: "string \<Rightarrow> string \<Rightarrow> bool" where
  "equalFold [] [] = True"
| "equalFold (ca # a) (cb # b) = (if lower_byte ca \<noteq> lower_byte cb then False else equalFold a b)"
| "equalFold _ _ = False"

text \<open>The scan of \<open>containsFold\<close> over the offsets \<open>i\<close>, here over the suffixes of \<open>s\<close>.\<close>

fun fold_scan :: "string \<Rightarrow> string \<Rightarrow> bool" where
  "fold_scan s substr = (if length substr > length s then False
     else if equalFold (take (length substr) s) substr then True
     else (case s of [] \<Rightarrow> False | _ # rest \<Rightarrow> fold_scan rest substr))"

declare fold_scan.simps [simp del]

definition containsFold :: "string \<Rightarrow> string \<Rightarrow> bool" where
  "containsFold s substr = (if length substr = 0 then True else if length substr > length s then False else fold_scan s substr)"

definition isContextCanceledError :: "string \<Rightarrow> bool" where
  "isContextCanceledError errChain = (if errChain = [] then False
     else list_ex (containsFold errChain) [''context canceled'', ''context deadline exceeded'', ''signal: killed''])"

datatype rollback_refusal = NoVerifiedDelta | VerifiedPassed | NoFailedMetrics | RetryCapReached int | RollbackStale | RollbackCancelled

text \<open>\<open>since\<close> is \<^verbatim>\<open>time.Since(lastRecoveredAt)\<close>; \<open>None\<close> is eligible.\<close>

definition rollbackEligible :: "VerifiedDelta option \<Rightarrow> int \<Rightarrow> int \<Rightarrow> string \<Rightarrow> rollback_refusal err" where
  "rollbackEligible verified retryCount since errChain = (case verified of None \<Rightarrow> Some NoVerifiedDelta
     | Some v \<Rightarrow>
       if vdl_Passed v then Some VerifiedPassed
       else if length (vdl_FailedMetrics v) = 0 then Some NoFailedMetrics
       else if retryCount \<ge> int MaxRetryCount then Some (RetryCapReached retryCount)
       else if since > RollbackStaleThreshold then Some RollbackStale
       else if isContextCanceledError errChain then Some RollbackCancelled
       else None)"

section \<open>Crash recovery\<close>

datatype recover_error = RecoverAdvance string phase_error | RecoverUnknown string

text \<open>The phase is returned also with an error: the pair of the source.\<close>

fun recoverFromEvents :: "Event list \<Rightarrow> Phase \<times> recover_error err" where
  "recoverFromEvents [] = (PhaseDetected, None)"
| "recoverFromEvents (latest # older) =
    (if ev_EventType latest = EventRetryExhausted then (PhaseFailed, None)
     else if ev_EventType latest = EventRollback then (PhaseApproved, None)
     else if ev_EventType latest = EventPhaseContractWritten then
       (case nextPhase (ev_Phase latest) True of
          Err e \<Rightarrow> (PhaseFailed, Some (RecoverAdvance (ev_Phase latest) e))
        | Ok nx \<Rightarrow> (nx, None))
     else if ev_EventType latest = EventTypePhaseEntered then (ev_Phase latest, None)
     else if ev_EventType latest = EventPhaseFailed then (ev_Phase latest, None)
     else if ev_EventType latest = EventPhasePaused then (ev_Phase latest, None)
     else if ev_EventType latest = EventPhaseResumed then (ev_Phase latest, None)
     else if ev_EventType latest = EventCorrection then recoverFromEvents older
     else (PhaseFailed, Some (RecoverUnknown (ev_EventType latest))))"

definition isTerminalEvent :: "Event list \<Rightarrow> bool" where
  "isTerminalEvent events = (case events of [] \<Rightarrow> False
     | latest # _ \<Rightarrow>
       if ev_EventType latest \<noteq> EventPhaseContractWritten then False
       else ev_Phase latest = PhasePostmortem \<or> ev_Phase latest = PhaseFailed \<or> ev_Phase latest = PhaseAborted)"

fun latestEnteredPhase :: "Event list \<Rightarrow> string" where
  "latestEnteredPhase [] = []"
| "latestEnteredPhase (ev # evs) = (if ev_EventType ev = EventTypePhaseEntered then ev_Phase ev else latestEnteredPhase evs)"

section \<open>Facts\<close>

subsection \<open>The phase order\<close>

text \<open>The position of a phase in \<open>allForwardPhases\<close>, from 1; any other phase is at 7, the end.\<close>

definition phase_pos :: "Phase \<Rightarrow> nat" where
  "phase_pos p = (if p = PhaseDetected then 1 else if p = PhaseCorrelated then 2 else if p = PhaseInvestigated then 3
     else if p = PhaseCritiqued then 4 else if p = PhaseApproved then 5 else if p = PhaseRecovered then 6 else 7)"

lemma phase_pos_simps [simp]:
  "phase_pos PhaseDetected = 1" "phase_pos PhaseCorrelated = 2" "phase_pos PhaseInvestigated = 3" "phase_pos PhaseCritiqued = 4"
  "phase_pos PhaseApproved = 5" "phase_pos PhaseRecovered = 6" "phase_pos PhasePostmortem = 7"
  by (simp_all add: phase_pos_def)

lemma phase_pos_le: "phase_pos p \<le> 7" and phase_pos_ge: "1 \<le> phase_pos p"
  by (simp_all add: phase_pos_def)

text \<open>With a valid contract the table moves one position forward and stays among the forward phases.\<close>

lemma nextPhase_advances:
  "nextPhase p True = Ok q \<Longrightarrow> phase_pos q = Suc (phase_pos p) \<and> p \<in> set allForwardPhases \<and> q \<in> set allForwardPhases"
  by (auto simp: nextPhase_def allForwardPhases_def split: if_splits)

lemma nextPhase_into_approved: "nextPhase p True = Ok PhaseApproved \<longleftrightarrow> p = PhaseCritiqued"
  by (auto simp: nextPhase_def)

lemma nextPhase_into_recovered: "nextPhase p v = Ok PhaseRecovered \<longleftrightarrow> p = PhaseApproved"
  by (auto simp: nextPhase_def)

lemma nextPhase_terminal: "isTerminal p \<longleftrightarrow> nextPhase p v = Err (ErrTerminalPhase p)"
  by (auto simp: nextPhase_def isTerminal_def)

lemma nextPhase_not_dead: "nextPhase p v = Ok q \<Longrightarrow> q \<noteq> PhaseFailed \<and> q \<noteq> PhaseAborted"
  by (auto simp: nextPhase_def split: if_splits)

subsection \<open>Case-insensitive search\<close>

lemma equalFold_iff: "equalFold a b \<longleftrightarrow> map lower_byte a = map lower_byte b"
  by (induction a b rule: equalFold.induct) auto

lemma fold_scan_iff: "fold_scan s substr \<longleftrightarrow> sublist (map lower_byte substr) (map lower_byte s)"
proof (induction s)
  case Nil
  show ?case by (cases substr) (simp_all add: fold_scan.simps)
next
  case (Cons c s)
  have pre: "prefix (map lower_byte substr) (map lower_byte (c # s)) \<longleftrightarrow>
      length substr \<le> Suc (length s) \<and> equalFold (take (length substr) (c # s)) substr"
    unfolding equalFold_iff prefix_def
    by (metis (no_types, opaque_lifting) append_eq_conv_conj append_take_drop_id length_Cons length_append length_map le_add1 take_map)
  have len: "sublist (map lower_byte substr) (map lower_byte s) \<Longrightarrow> length substr \<le> length s"
    using sublist_length_le by fastforce
  show ?case
    using Cons.IH pre len by (subst fold_scan.simps) (auto simp: sublist_Cons_right)
qed

lemma containsFold_iff: "containsFold s substr \<longleftrightarrow> sublist (map lower_byte substr) (map lower_byte s)"
  using sublist_length_le[of "map lower_byte substr" "map lower_byte s"] by (auto simp: containsFold_def fold_scan_iff)

lemma rollbackEligible_iff:
  "rollbackEligible verified retryCount since errChain = None \<longleftrightarrow>
     (\<exists>v. verified = Some v \<and> \<not> vdl_Passed v \<and> vdl_FailedMetrics v \<noteq> []) \<and> retryCount < 3 \<and> since \<le> 1800000000000 \<and>
     \<not> isContextCanceledError errChain"
  by (auto simp: rollbackEligible_def MaxRetryCount_def RollbackStaleThreshold_def split: option.splits if_splits)

subsection \<open>Recovery\<close>

lemma recover_skips_corrections:
  "\<forall>e\<in>set cs. ev_EventType e = EventCorrection \<Longrightarrow> recoverFromEvents (cs @ evs) = recoverFromEvents evs"
  by (induction cs) auto

end
