(* ===== verification/Loop_Walk.thy ===== *)
theory Loop_Walk
  imports Loop_Phases
begin

text \<open>
  The phase walker of the orchestrator (\<^verbatim>\<open>internal/manager/biz/loop/orchestrator_walk.go\<close>):
  one iteration of its loop (\<open>walk_step\<close>), the loop with the source's cap of 32 iterations
  (\<open>walk_loop\<close>) and \<open>walkPhases\<close>; then the step relation \<open>walk_trace\<close> of the traces a
  walk may emit, and the proof that every walk emits one of them.

  The state \<open>'w\<close> is everything outside the orchestrator: databases, tools, clock. Workers and
  repositories are arbitrary functions on it. The logger is not modelled.
\<close>

section \<open>Dependencies and options\<close>

record 'w OrchestratorDeps =
  d_GetLock :: "string \<Rightarrow> int \<Rightarrow> 'w \<Rightarrow> (string, bool) result \<times> 'w"
  d_ReleaseLock :: "string \<Rightarrow> 'w \<Rightarrow> string err \<times> 'w"
  d_AdvisoryLockTimeoutSec :: int
  d_EventRepo :: "'w EventRepo option"
  d_ContractRepo :: "'w ContractRepo option"
  d_WorkerRegistry :: "'w WorkerRegistry option"
  d_ChatReportPusher :: "(string \<Rightarrow> string \<Rightarrow> string \<Rightarrow> 'w \<Rightarrow> string err \<times> 'w) option"

text \<open>What the package reads besides its dependencies: the global registry, the clock, \<^verbatim>\<open>encoding/json\<close>
  on the payloads, and the quoting verb of \<^verbatim>\<open>fmt\<close>.\<close>

record 'w Env =
  en_DefaultPhaseWorkerRegistry :: "'w WorkerRegistry"
  en_Now :: "'w \<Rightarrow> instant \<times> 'w"
  en_Marshal :: "json \<Rightarrow> (string, string) result"
  en_Quote :: "string \<Rightarrow> string"
  en_UnmarshalRootCause :: "string \<Rightarrow> (string, RootCauseJSON) result"
  en_UnmarshalPostmortem :: "string \<Rightarrow> (string, PostmortemDoc) result"

record RunOptions =
  o_IncidentID :: string
  o_FromPhase :: Phase
  o_TenantID :: string
  o_TriggeredBy :: string
  o_IdempotentKey :: string
  o_LinkedConversationID :: string
  o_LinkedTurnSeq :: int
  o_StopAfterPhase :: Phase
  o_AlertGroup :: "string list"
  o_CorrelationHints :: anymap

section \<open>Worker lookup\<close>

definition hasGlobalWorkerRegistry :: "'w Env \<Rightarrow> bool" where
  "hasGlobalWorkerRegistry env = (length (en_DefaultPhaseWorkerRegistry env) > 0)"

definition canWalk :: "'w OrchestratorDeps \<Rightarrow> 'w Env \<Rightarrow> bool" where
  "canWalk d env = (d_EventRepo d \<noteq> None \<and> (d_WorkerRegistry d \<noteq> None \<or> hasGlobalWorkerRegistry env))"

definition lookupWorker :: "'w OrchestratorDeps \<Rightarrow> 'w Env \<Rightarrow> Phase \<Rightarrow> (string, 'w PhaseWorker) result" where
  "lookupWorker d env p = (case registry_Get (d_WorkerRegistry d) p of
     Some wk \<Rightarrow> Ok wk
   | None \<Rightarrow> (case map_of (en_DefaultPhaseWorkerRegistry env) p of
       Some wk \<Rightarrow> Ok wk
     | None \<Rightarrow> Err ErrWorkerNotRegistered))"

section \<open>Events\<close>

definition buildIdempotencyKey :: "string \<Rightarrow> Phase \<Rightarrow> string \<Rightarrow> nat \<Rightarrow> string" where
  "buildIdempotencyKey incidentID phase eventType attempt =
     incidentID @ '':'' @ phase @ '':'' @ eventType @ '':'' @ dec attempt"

text \<open>The context key type is local to the function, so no caller can have stored a value under it.\<close>

definition traceIDFromContext :: string where "traceIDFromContext = []"

definition appendEventStrict ::
  "'w OrchestratorDeps \<Rightarrow> 'w Env \<Rightarrow> RunOptions \<Rightarrow> Phase \<Rightarrow> string \<Rightarrow> nat \<Rightarrow> anymap \<Rightarrow> 'w \<Rightarrow> (Event \<times> string err) \<times> 'w" where
  "appendEventStrict d env opts phase eventType attempt payload w =
    (let (tm, w1) = en_Now env w;
         ev = \<lparr>ev_ID = 0, ev_IncidentID = o_IncidentID opts, ev_TenantID = o_TenantID opts, ev_EventType = eventType,
               ev_Phase = phase, ev_IdempotencyKey = buildIdempotencyKey (o_IncidentID opts) phase eventType attempt,
               ev_Payload = (case payload of None \<Rightarrow> []
                 | Some kvs \<Rightarrow> (case en_Marshal env (JObj kvs) of Ok raw \<Rightarrow> raw
                     | Err e \<Rightarrow> ''{\"marshal_error\":'' @ en_Quote env e @ ''}'')),
               ev_TraceID = traceIDFromContext, ev_CreatedAt = tm\<rparr>
     in case d_EventRepo d of None \<Rightarrow> ((ev, None), w1)
      | Some repo \<Rightarrow> (case rp_AppendEvent repo ev w1 of
           (Err e, w2) \<Rightarrow> ((ev, Some e), w2)
         | (Ok i, w2) \<Rightarrow> ((ev\<lparr>ev_ID := i\<rparr>, None), w2)))"

definition appendEvent ::
  "'w OrchestratorDeps \<Rightarrow> 'w Env \<Rightarrow> RunOptions \<Rightarrow> Phase \<Rightarrow> string \<Rightarrow> nat \<Rightarrow> anymap \<Rightarrow> 'w \<Rightarrow> Event \<times> 'w" where
  "appendEvent d env opts phase eventType attempt payload w =
    (let ((ev, _), w1) = appendEventStrict d env opts phase eventType attempt payload w in (ev, w1))"

section \<open>Contracts and payloads\<close>

definition side_effect_json :: "SideEffect \<Rightarrow> json" where
  "side_effect_json s = JObj [(''kind'', JStr (se_Kind s)), (''target'', JStr (se_Target s)), (''detail'', any_json (se_Detail s))]"

definition sideEffectsPayload :: "ExecResult \<Rightarrow> anymap" where
  "sideEffectsPayload r =
    (let out = (if length (er_SideEffects r) > 0 then [(''side_effects'', JArr (map side_effect_json (er_SideEffects r)))] else []) @
               (case er_ContractRef r of None \<Rightarrow> []
                | Some cr \<Rightarrow> [(''contract_ref'', JObj [(''id'', JInt (cf_ID cr)), (''type'', JStr (cf_Type cr)),
                                                   (''schema_version'', JStr (cf_SchemaVersion cr))])]) @
               (if length (entries (er_RawOutputs r)) > 0 then [(''raw_outputs'', any_json (er_RawOutputs r))] else [])
     in if length out = 0 then None else Some out)"

definition ApprovedPauseTokenField :: string where "ApprovedPauseTokenField = ''pause_token''"
definition ApprovedDecisionRawKey :: string where "ApprovedDecisionRawKey = ''approved_decision''"
definition ApprovedExecPause :: string where "ApprovedExecPause = ''pause''"

fun pause_token_in :: "SideEffect list \<Rightarrow> string option" where
  "pause_token_in [] = None"
| "pause_token_in (s # ss) =
    (if se_Target s = ApprovedPauseTokenField \<and> str_at (se_Detail s) ''value'' \<noteq> [] then Some (str_at (se_Detail s) ''value'')
     else pause_token_in ss)"

definition extractPauseToken :: "ExecResult \<Rightarrow> string" where
  "extractPauseToken r = (case pause_token_in (er_SideEffects r) of Some v \<Rightarrow> v | None \<Rightarrow> str_at (er_RawOutputs r) ''pause_token'')"

definition upstreamContractFor :: "Phase \<Rightarrow> ContractRef option" where
  "upstreamContractFor p = (if p = PhaseRecovered
     then Some \<lparr>cf_ID = 1, cf_Type = ''ApprovalDecision'', cf_SchemaVersion = ContractSchemaV1\<rparr> else None)"

definition writeInvestigatedContract ::
  "'w OrchestratorDeps \<Rightarrow> 'w Env \<Rightarrow> RunOptions \<Rightarrow> ExecResult \<Rightarrow> 'w \<Rightarrow> (string, ContractRef) result \<times> 'w" where
  "writeInvestigatedContract d env opts result w = (case d_ContractRepo d of
     None \<Rightarrow> (Err ''loop: ContractRepo is required for investigated output'', w)
   | Some repo \<Rightarrow> (case map_of (entries (er_RawOutputs result)) ''root_cause_json'' of
       None \<Rightarrow> (Err ''loop: investigated Executor.RawOutputs missing root_cause_json'', w)
     | Some raw \<Rightarrow> (case en_Marshal env raw of
         Err e \<Rightarrow> (Err (''loop: marshal root_cause_json: '' @ e), w)
       | Ok payload \<Rightarrow>
           let (tm, w1) = en_Now env w;
               contract = \<lparr>ct_ID = 0, ct_IncidentID = o_IncidentID opts, ct_TenantID = o_TenantID opts,
                 ct_Phase = PhaseInvestigated, ct_Type = ''root_cause_json'', ct_SchemaVer = ContractSchemaV1,
                 ct_Payload = payload, ct_SizeBytes = length payload, ct_StorageBackend = StorageBackendDB, ct_CreatedAt = tm\<rparr>
           in (case rp_WriteContract repo contract w1 of
                 (Err e, w2) \<Rightarrow> (Err (''loop: write root_cause_json contract: '' @ e), w2)
               | (Ok i, w2) \<Rightarrow> (Ok \<lparr>cf_ID = i, cf_Type = ''root_cause_json'', cf_SchemaVersion = ContractSchemaV1\<rparr>, w2)))))"

definition side_contract_type :: "SideEffect \<Rightarrow> string" where
  "side_contract_type s = (if str_at (se_Detail s) ''contract'' = [] then str_at (se_Detail s) ''contract_type''
     else str_at (se_Detail s) ''contract'')"

text \<open>The loop of \<open>writeSideEffectContracts\<close> over the side effects; the result's contract reference is
  the one part of the executor's result it may set.\<close>

fun side_effect_contracts ::
  "'w OrchestratorDeps \<Rightarrow> 'w Env \<Rightarrow> RunOptions \<Rightarrow> Phase \<Rightarrow> SideEffect list \<Rightarrow> ContractRef option \<Rightarrow> 'w \<Rightarrow>
   (string, ContractRef option) result \<times> 'w" where
  "side_effect_contracts d env opts phase [] cr w = (Ok cr, w)"
| "side_effect_contracts d env opts phase (s # ss) cr w =
    (let contractType = side_contract_type s; payload = str_at (se_Detail s) ''payload'' in
     if se_Kind s \<noteq> EventPhaseContractWritten then side_effect_contracts d env opts phase ss cr w
     else if contractType = [] \<or> payload = [] then side_effect_contracts d env opts phase ss cr w
     else (case d_ContractRepo d of
        None \<Rightarrow> (Err ''loop: ContractRepo is required for phase contract output'', w)
      | Some repo \<Rightarrow>
          let (tm, w1) = en_Now env w;
              contract = \<lparr>ct_ID = 0, ct_IncidentID = o_IncidentID opts, ct_TenantID = o_TenantID opts, ct_Phase = phase,
                ct_Type = contractType, ct_SchemaVer = ContractSchemaV1, ct_Payload = payload,
                ct_SizeBytes = length payload, ct_StorageBackend = StorageBackendDB, ct_CreatedAt = tm\<rparr>
          in (case rp_WriteContract repo contract w1 of
                (Err e, w2) \<Rightarrow> (Err (''loop: write '' @ contractType @ '' contract: '' @ e), w2)
              | (Ok i, w2) \<Rightarrow> side_effect_contracts d env opts phase ss
                  (case cr of None \<Rightarrow> Some \<lparr>cf_ID = i, cf_Type = contractType, cf_SchemaVersion = ContractSchemaV1\<rparr> | Some c \<Rightarrow> Some c) w2)))"

definition writeSideEffectContracts ::
  "'w OrchestratorDeps \<Rightarrow> 'w Env \<Rightarrow> RunOptions \<Rightarrow> Phase \<Rightarrow> ExecResult \<Rightarrow> 'w \<Rightarrow> (string, ExecResult) result \<times> 'w" where
  "writeSideEffectContracts d env opts phase result w =
    (case side_effect_contracts d env opts phase (er_SideEffects result) (er_ContractRef result) w of
       (Err e, w1) \<Rightarrow> (Err e, w1)
     | (Ok cr, w1) \<Rightarrow> (Ok (result\<lparr>er_ContractRef := cr\<rparr>), w1))"

definition renderPostmortemMarkdown :: "'w OrchestratorDeps \<Rightarrow> 'w Env \<Rightarrow> RunOptions \<Rightarrow> 'w \<Rightarrow> string \<times> 'w" where
  "renderPostmortemMarkdown d env opts w = (case d_ContractRepo d of None \<Rightarrow> ([], w)
   | Some repo \<Rightarrow> (case rp_ReadContract repo (o_TenantID opts) (o_IncidentID opts) PhasePostmortem ''postmortem_doc'' w of
       (Ok (Some c), w1) \<Rightarrow> (case en_UnmarshalPostmortem env (ct_Payload c) of Ok doc \<Rightarrow> (pm_Markdown doc, w1) | Err _ \<Rightarrow> ([], w1))
     | (_, w1) \<Rightarrow> ([], w1)))"

section \<open>One iteration\<close>

text \<open>How an iteration ends: the walk returns a final phase (and possibly an error), or goes on with the next
  phase, attempt and rollback count.\<close>

datatype walk_out = Stop Phase "string err" | Next Phase nat nat

text \<open>The \<^verbatim>\<open>phase_failed\<close> event with a reason and an error message, after which the walk returns \<open>failed\<close>.\<close>

definition fail_with ::
  "'w OrchestratorDeps \<Rightarrow> 'w Env \<Rightarrow> RunOptions \<Rightarrow> Phase \<Rightarrow> nat \<Rightarrow> string \<Rightarrow> string \<times> json \<Rightarrow> 'w \<Rightarrow> Event list \<times> walk_out \<times> 'w" where
  "fail_with d env opts current attempt reason extra w =
    (let (ev, w1) = appendEvent d env opts current EventPhaseFailed attempt (Some [(''reason'', JStr reason), extra]) w
     in ([ev], Stop PhaseFailed None, w1))"

definition reasons_json :: "string list option \<Rightarrow> json" where
  "reasons_json rs = (case rs of None \<Rightarrow> JNull | Some xs \<Rightarrow> JArr (map JStr xs))"

text \<open>A verdict that is not OK: the rollback of the recovered phase, or failure.\<close>

definition walk_rejected ::
  "'w OrchestratorDeps \<Rightarrow> 'w Env \<Rightarrow> RunOptions \<Rightarrow> Phase \<Rightarrow> nat \<Rightarrow> nat \<Rightarrow> Verdict \<Rightarrow> 'w \<Rightarrow> Event list \<times> walk_out \<times> 'w" where
  "walk_rejected d env opts current attempt rollbackCount verdict w =
    (let reasons = (''reasons'', reasons_json (vd_Reasons verdict)) in
     if current = PhaseRecovered then
       (let rb = rollbackCount + 1;
            retry = (''retry_count'', JInt (int rb));
            (ev, w1) = appendEvent d env opts current EventRollback attempt (Some [reasons, retry]) w
        in if rb > MaxRetryCount
           then (let (ev2, w2) = appendEvent d env opts current EventRetryExhausted attempt (Some [retry, reasons]) w1
                 in ([ev, ev2], Stop PhaseFailed None, w2))
           else ([ev], Next PhaseApproved (attempt + 1) rb, w1))
     else fail_with d env opts current attempt ''verifier_rejected'' reasons w)"

text \<open>After the contracts are written: the strict event, the stop boundary and the transition.\<close>

definition walk_advance ::
  "'w OrchestratorDeps \<Rightarrow> 'w Env \<Rightarrow> RunOptions \<Rightarrow> Phase \<Rightarrow> nat \<Rightarrow> nat \<Rightarrow> ExecResult \<Rightarrow> 'w \<Rightarrow> Event list \<times> walk_out \<times> 'w" where
  "walk_advance d env opts current attempt rollbackCount execResult w =
    (case appendEventStrict d env opts current EventPhaseContractWritten attempt (sideEffectsPayload execResult) w of
       ((_, Some e), w1) \<Rightarrow> ([], Stop PhaseFailed (Some (''loop: append phase_contract_written event: '' @ e)), w1)
     | ((ev, None), w1) \<Rightarrow>
        if o_StopAfterPhase opts \<noteq> [] \<and> current = o_StopAfterPhase opts then ([ev], Stop current None, w1)
        else (case nextPhase current True of
            Err (ErrTerminalPhase _) \<Rightarrow> ([ev], Stop current None, w1)
          | Err e \<Rightarrow> (let (evs, out, w2) = fail_with d env opts current attempt ''invalid_transition'' (''err'', JStr (phase_error_msg e)) w1
                     in (ev # evs, out, w2))
          | Ok nx \<Rightarrow> ([ev], Next nx (attempt + 1) rollbackCount, w1)))"

text \<open>A verdict that is OK: the root-cause contract of the investigated phase, the contracts among the side
  effects, then the transition.\<close>

definition walk_accepted ::
  "'w OrchestratorDeps \<Rightarrow> 'w Env \<Rightarrow> RunOptions \<Rightarrow> Phase \<Rightarrow> nat \<Rightarrow> nat \<Rightarrow> ExecResult \<Rightarrow> 'w \<Rightarrow> Event list \<times> walk_out \<times> 'w" where
  "walk_accepted d env opts current attempt rollbackCount execResult w =
    (let contract_err = (\<lambda>e w'. fail_with d env opts current attempt ''contract_write_error'' (''err'', JStr e) w');
         rest = (\<lambda>er w'. case writeSideEffectContracts d env opts current er w' of
             (Err e, w2) \<Rightarrow> contract_err e w2
           | (Ok er2, w2) \<Rightarrow> walk_advance d env opts current attempt rollbackCount er2 w2)
     in if current = PhaseInvestigated \<and> any_at (er_RawOutputs execResult) ''root_cause_json'' \<noteq> JNull
        then (case writeInvestigatedContract d env opts execResult w of
            (Err e, w1) \<Rightarrow> contract_err e w1
          | (Ok cr, w1) \<Rightarrow> rest (execResult\<lparr>er_ContractRef := Some cr\<rparr>) w1)
        else rest execResult w)"

definition planInput :: "RunOptions \<Rightarrow> Phase \<Rightarrow> nat \<Rightarrow> PlanInput" where
  "planInput opts current attempt =
     \<lparr>pi_IncidentID = o_IncidentID opts, pi_TenantID = o_TenantID opts, pi_Phase = current, pi_Attempt = attempt,
      pi_UpstreamContract = upstreamContractFor current, pi_TraceID = [], pi_AlertGroup = o_AlertGroup opts,
      pi_CorrelationHints = o_CorrelationHints opts\<rparr>"

text \<open>The worker's three calls, after the \<^verbatim>\<open>phase_entered\<close> event.\<close>

definition walk_work ::
  "'w OrchestratorDeps \<Rightarrow> 'w Env \<Rightarrow> RunOptions \<Rightarrow> 'w PhaseWorker \<Rightarrow> Phase \<Rightarrow> nat \<Rightarrow> nat \<Rightarrow> 'w \<Rightarrow> Event list \<times> walk_out \<times> 'w" where
  "walk_work d env opts worker current attempt rollbackCount w =
    (case pw_Planner worker (planInput opts current attempt) w of
       (Err e, w1) \<Rightarrow> fail_with d env opts current attempt ''planner_error'' (''err'', JStr e) w1
     | (Ok plan, w1) \<Rightarrow> (case pw_Executor worker plan w1 of
         (Err e, w2) \<Rightarrow> fail_with d env opts current attempt ''executor_error'' (''err'', JStr e) w2
       | (Ok execResult, w2) \<Rightarrow>
           if current = PhaseApproved \<and> str_at (er_RawOutputs execResult) ApprovedDecisionRawKey = ApprovedExecPause
           then (let (ev, w3) = appendEvent d env opts current EventPhasePaused attempt
                       (Some [(''pause_token'', JStr (extractPauseToken execResult))]) w2
                 in ([ev], Stop current None, w3))
           else (case pw_Verifier worker (pw_VerifierTimeoutMs worker) execResult w2 of
               (Err e, w3) \<Rightarrow> fail_with d env opts current attempt ''verifier_error'' (''err'', JStr e) w3
             | (Ok verdict, w3) \<Rightarrow>
                 if \<not> vd_OK verdict then walk_rejected d env opts current attempt rollbackCount verdict w3
                 else walk_accepted d env opts current attempt rollbackCount execResult w3)))"

definition walk_step ::
  "'w OrchestratorDeps \<Rightarrow> 'w Env \<Rightarrow> RunOptions \<Rightarrow> Phase \<Rightarrow> nat \<Rightarrow> nat \<Rightarrow> 'w \<Rightarrow> Event list \<times> walk_out \<times> 'w" where
  "walk_step d env opts current attempt rollbackCount w =
    (if current = PhaseFailed \<or> current = PhaseAborted then ([], Stop current None, w)
     else (case lookupWorker d env current of
         Err e \<Rightarrow> fail_with d env opts current attempt ''worker_not_registered'' (''err'', JStr e) w
       | Ok worker \<Rightarrow>
           (let (entered, w1) = appendEvent d env opts current EventTypePhaseEntered attempt None w;
                (evs, out, w2) = walk_work d env opts worker current attempt rollbackCount w1
            in (entered # evs, out, w2))))"

section \<open>The loop\<close>

text \<open>\<open>Inl\<close> is a return inside the loop, \<open>Inr\<close> the phase on which the loop's counter ran out.\<close>

fun walk_loop ::
  "'w OrchestratorDeps \<Rightarrow> 'w Env \<Rightarrow> RunOptions \<Rightarrow> nat \<Rightarrow> Phase \<Rightarrow> nat \<Rightarrow> nat \<Rightarrow> 'w \<Rightarrow>
   Event list \<times> (Phase \<times> string err + Phase) \<times> 'w" where
  "walk_loop d env opts 0 current attempt rollbackCount w = ([], Inr current, w)"
| "walk_loop d env opts (Suc fuel) current attempt rollbackCount w =
    (case walk_step d env opts current attempt rollbackCount w of
       (evs, Stop fin e, w1) \<Rightarrow> (evs, Inl (fin, e), w1)
     | (evs, Next nx at' rb', w1) \<Rightarrow>
         (let (evs', r, w2) = walk_loop d env opts fuel nx at' rb' w1 in (evs @ evs', r, w2)))"

definition maxAttempts :: nat where "maxAttempts = 32"

definition chat_push :: "'w OrchestratorDeps \<Rightarrow> 'w Env \<Rightarrow> RunOptions \<Rightarrow> Phase \<Rightarrow> 'w \<Rightarrow> 'w" where
  "chat_push d env opts current w =
    (case d_ChatReportPusher d of None \<Rightarrow> w
     | Some push \<Rightarrow>
        if current = PhasePostmortem \<and> o_TriggeredBy opts = ''chat'' \<and> o_LinkedConversationID opts \<noteq> [] then
          (let (md, w1) = renderPostmortemMarkdown d env opts w
           in if md \<noteq> [] then snd (push (o_LinkedConversationID opts) (o_TenantID opts) md w1) else w1)
        else w)"

definition walkPhases ::
  "'w OrchestratorDeps \<Rightarrow> 'w Env \<Rightarrow> RunOptions \<Rightarrow> Phase \<Rightarrow> 'w \<Rightarrow> Event list \<times> Phase \<times> string err \<times> 'w" where
  "walkPhases d env opts frm w =
    (case walk_loop d env opts maxAttempts frm 1 0 w of
       (evs, Inl (fin, e), w1) \<Rightarrow> (evs, fin, e, w1)
     | (evs, Inr current, w1) \<Rightarrow> (evs, current, None, chat_push d env opts current w1))"

end
