(* ===== verification/Loop_Trace.thy ===== *)
theory Loop_Trace
  imports Loop_Walk
begin

text \<open>
  What a walk does, abstractly: \<open>walk_iter\<close> is the transition relation of one iteration, on the
  phase, the attempt and the rollback count alone, with the labels of the events it emits;
  \<open>walk_trace\<close> is its closure up to a stop. The walker of \<^verbatim>\<open>orchestrator_walk.go\<close> refines
  them, whatever the workers, repositories and clock do; the guarantees of the walker are proved
  by rule induction on \<open>walk_trace\<close>.
\<close>

section \<open>The abstract walker\<close>

type_synonym label = "Phase \<times> string \<times> nat"

inductive walk_iter :: "Phase \<Rightarrow> Phase \<Rightarrow> nat \<Rightarrow> nat \<Rightarrow> label list \<Rightarrow> walk_out \<Rightarrow> bool" for sa where
  ended: "cur \<in> {PhaseFailed, PhaseAborted} \<Longrightarrow> walk_iter sa cur n rb [] (Stop cur None)"
| unstaffed: "cur \<notin> {PhaseFailed, PhaseAborted} \<Longrightarrow> walk_iter sa cur n rb [(cur, EventPhaseFailed, n)] (Stop PhaseFailed None)"
| failed: "cur \<notin> {PhaseFailed, PhaseAborted} \<Longrightarrow>
    walk_iter sa cur n rb [(cur, EventTypePhaseEntered, n), (cur, EventPhaseFailed, n)] (Stop PhaseFailed None)"
| lost: "cur \<notin> {PhaseFailed, PhaseAborted} \<Longrightarrow> walk_iter sa cur n rb [(cur, EventTypePhaseEntered, n)] (Stop PhaseFailed (Some e))"
| paused: "walk_iter sa PhaseApproved n rb [(PhaseApproved, EventTypePhaseEntered, n), (PhaseApproved, EventPhasePaused, n)]
    (Stop PhaseApproved None)"
| rolled_back: "rb < MaxRetryCount \<Longrightarrow>
    walk_iter sa PhaseRecovered n rb [(PhaseRecovered, EventTypePhaseEntered, n), (PhaseRecovered, EventRollback, n)]
      (Next PhaseApproved (Suc n) (Suc rb))"
| exhausted: "MaxRetryCount \<le> rb \<Longrightarrow>
    walk_iter sa PhaseRecovered n rb
      [(PhaseRecovered, EventTypePhaseEntered, n), (PhaseRecovered, EventRollback, n), (PhaseRecovered, EventRetryExhausted, n)]
      (Stop PhaseFailed None)"
| bounded: "cur \<notin> {PhaseFailed, PhaseAborted} \<Longrightarrow> sa \<noteq> [] \<Longrightarrow> cur = sa \<Longrightarrow>
    walk_iter sa cur n rb [(cur, EventTypePhaseEntered, n), (cur, EventPhaseContractWritten, n)] (Stop cur None)"
| completed: "walk_iter sa PhasePostmortem n rb
    [(PhasePostmortem, EventTypePhaseEntered, n), (PhasePostmortem, EventPhaseContractWritten, n)] (Stop PhasePostmortem None)"
| unknown: "nextPhase cur True = Err (ErrInvalidTransition p) \<Longrightarrow>
    walk_iter sa cur n rb
      [(cur, EventTypePhaseEntered, n), (cur, EventPhaseContractWritten, n), (cur, EventPhaseFailed, n)] (Stop PhaseFailed None)"
| advanced: "nextPhase cur True = Ok nx \<Longrightarrow> sa = [] \<or> cur \<noteq> sa \<Longrightarrow>
    walk_iter sa cur n rb [(cur, EventTypePhaseEntered, n), (cur, EventPhaseContractWritten, n)] (Next nx (Suc n) rb)"

inductive walk_trace :: "Phase \<Rightarrow> Phase \<Rightarrow> nat \<Rightarrow> nat \<Rightarrow> label list \<Rightarrow> Phase \<Rightarrow> string err \<Rightarrow> bool" for sa where
  halt: "walk_iter sa cur n rb ls (Stop fin e) \<Longrightarrow> walk_trace sa cur n rb ls fin e"
| goes_on: "walk_iter sa cur n rb ls (Next nx n' rb') \<Longrightarrow> walk_trace sa nx n' rb' tr fin e \<Longrightarrow> walk_trace sa cur n rb (ls @ tr) fin e"

inductive_cases walk_iter_StopE: "walk_iter sa cur n rb ls (Stop fin e)"
inductive_cases walk_iter_NextE: "walk_iter sa cur n rb ls (Next nx n' rb')"

section \<open>The walker refines it\<close>

text \<open>An event of a run carries a label, and its idempotency key is the one of the label.\<close>

definition emitted :: "RunOptions \<Rightarrow> label \<Rightarrow> Event \<Rightarrow> bool" where
  "emitted opts l e = (case l of (p, ty, n) \<Rightarrow> ev_Phase e = p \<and> ev_EventType e = ty \<and>
     ev_IdempotencyKey e = buildIdempotencyKey (o_IncidentID opts) p ty n \<and>
     ev_IncidentID e = o_IncidentID opts \<and> ev_TenantID e = o_TenantID opts)"

abbreviation emits :: "RunOptions \<Rightarrow> label list \<Rightarrow> Event list \<Rightarrow> bool" where
  "emits opts \<equiv> list_all2 (emitted opts)"

lemma appendEventStrict_emitted: "appendEventStrict d env opts p ty n pl w = ((ev, err), w') \<Longrightarrow> emitted opts (p, ty, n) ev"
  by (auto simp: appendEventStrict_def emitted_def Let_def split: prod.splits option.splits sum.splits)

lemma appendEvent_emitted: "appendEvent d env opts p ty n pl w = (ev, w') \<Longrightarrow> emitted opts (p, ty, n) ev"
  by (auto simp: appendEvent_def dest: appendEventStrict_emitted split: prod.splits)

lemma fail_with_emits:
  "fail_with d env opts cur n reason x w = (evs, out, w') \<Longrightarrow> emits opts [(cur, EventPhaseFailed, n)] evs \<and> out = Stop PhaseFailed None"
  by (auto simp: fail_with_def dest: appendEvent_emitted split: prod.splits)

text \<open>Each part of an iteration completes the labels of the \<^verbatim>\<open>phase_entered\<close> event to a transition.\<close>

abbreviation completes :: "RunOptions \<Rightarrow> Phase \<Rightarrow> nat \<Rightarrow> nat \<Rightarrow> Event list \<times> walk_out \<times> 'w \<Rightarrow> bool" where
  "completes opts cur n rb r \<equiv> (case r of (evs, out, w') \<Rightarrow> \<exists>ls. emits opts ls evs \<and>
     walk_iter (o_StopAfterPhase opts) cur n rb ((cur, EventTypePhaseEntered, n) # ls) out)"

lemma fail_with_completes:
  assumes "cur \<notin> {PhaseFailed, PhaseAborted}"
  shows "completes opts cur n rb (fail_with d env opts cur n reason x w)"
proof -
  obtain evs out w' where r: "fail_with d env opts cur n reason x w = (evs, out, w')" by (metis prod_cases3)
  from fail_with_emits[OF this] failed[OF assms] show ?thesis by (auto simp: r)
qed

lemma walk_rejected_completes:
  assumes "cur \<notin> {PhaseFailed, PhaseAborted}"
  shows "completes opts cur n rb (walk_rejected d env opts cur n rb v w)"
proof (cases "cur = PhaseRecovered")
  case False
  with fail_with_completes[OF assms] show ?thesis by (simp add: walk_rejected_def)
next
  case True
  define retry where "retry = (''retry_count'', JInt (int (rb + 1)))"
  define reasons where "reasons = (''reasons'', reasons_json (vd_Reasons v))"
  obtain ev w1 where e1: "appendEvent d env opts PhaseRecovered EventRollback n (Some [reasons, retry]) w = (ev, w1)"
    by (metis surj_pair)
  obtain ev2 w2 where e2: "appendEvent d env opts PhaseRecovered EventRetryExhausted n (Some [retry, reasons]) w1 = (ev2, w2)"
    by (metis surj_pair)
  note em = appendEvent_emitted[OF e1] appendEvent_emitted[OF e2]
  show ?thesis
  proof (cases "rb + 1 > MaxRetryCount")
    case True
    then have "walk_rejected d env opts cur n rb v w = ([ev, ev2], Stop PhaseFailed None, w2)"
      using e1 e2 \<open>cur = PhaseRecovered\<close> by (simp add: walk_rejected_def Let_def retry_def reasons_def)
    moreover have "emits opts [(PhaseRecovered, EventRollback, n), (PhaseRecovered, EventRetryExhausted, n)] [ev, ev2]"
      using em by simp
    ultimately show ?thesis using exhausted[of rb] True \<open>cur = PhaseRecovered\<close> by fastforce
  next
    case False
    then have "walk_rejected d env opts cur n rb v w = ([ev], Next PhaseApproved (Suc n) (Suc rb), w1)"
      using e1 \<open>cur = PhaseRecovered\<close> by (simp add: walk_rejected_def Let_def retry_def reasons_def)
    moreover have "emits opts [(PhaseRecovered, EventRollback, n)] [ev]" using em by simp
    ultimately show ?thesis using rolled_back[of rb] False \<open>cur = PhaseRecovered\<close> by fastforce
  qed
qed

lemma walk_advance_completes:
  assumes cur: "cur \<notin> {PhaseFailed, PhaseAborted}"
  shows "completes opts cur n rb (walk_advance d env opts cur n rb er w)"
proof -
  obtain ev err w1 where a: "appendEventStrict d env opts cur EventPhaseContractWritten n (sideEffectsPayload er) w = ((ev, err), w1)"
    by (metis surj_pair)
  have em: "emits opts [(cur, EventPhaseContractWritten, n)] [ev]" using appendEventStrict_emitted[OF a] by simp
  show ?thesis
  proof (cases err)
    case (Some e)
    then show ?thesis using a lost[OF cur] by (auto simp: walk_advance_def)
  next
    case None
    show ?thesis
    proof (cases "o_StopAfterPhase opts \<noteq> [] \<and> cur = o_StopAfterPhase opts")
      case True
      then have "walk_advance d env opts cur n rb er w = ([ev], Stop cur None, w1)" using a None by (simp add: walk_advance_def)
      then show ?thesis using em True bounded[OF cur, of "o_StopAfterPhase opts"] by fastforce
    next
      case go: False
      show ?thesis
      proof (cases "nextPhase cur True")
        case (Inr nx)
        then have "walk_advance d env opts cur n rb er w = ([ev], Next nx (Suc n) rb, w1)" using a None go by (simp add: walk_advance_def)
        then show ?thesis using em advanced[OF Inr, of "o_StopAfterPhase opts" n rb] go by (simp del: list_all2_Cons2) blast
      next
        case (Inl pe)
        show ?thesis
        proof (cases pe)
          case (ErrTerminalPhase p)
          then have "cur = PhasePostmortem" using Inl cur by (auto simp: nextPhase_def split: if_splits)
          moreover have "walk_advance d env opts cur n rb er w = ([ev], Stop cur None, w1)"
            using a None go Inl ErrTerminalPhase by (auto simp: walk_advance_def)
          ultimately show ?thesis using em completed by fastforce
        next
          case (ErrInvalidTransition p)
          obtain evs out w2 where f: "fail_with d env opts cur n ''invalid_transition'' (''err'', JStr (phase_error_msg pe)) w1 = (evs, out, w2)"
            by (metis prod_cases3)
          then have "walk_advance d env opts cur n rb er w = (ev # evs, Stop PhaseFailed None, w2)"
            using a None go Inl ErrInvalidTransition fail_with_emits[OF f] by (auto simp: walk_advance_def)
          moreover have "emits opts [(cur, EventPhaseContractWritten, n), (cur, EventPhaseFailed, n)] (ev # evs)"
            using em fail_with_emits[OF f] by simp
          ultimately show ?thesis using unknown Inl ErrInvalidTransition by fastforce
        qed
      qed
    qed
  qed
qed

lemma walk_accepted_completes:
  assumes cur: "cur \<notin> {PhaseFailed, PhaseAborted}"
  shows "completes opts cur n rb (walk_accepted d env opts cur n rb er w)"
proof -
  have rest: "completes opts cur n rb (case writeSideEffectContracts d env opts cur er' w' of
      (Err e, w2) \<Rightarrow> fail_with d env opts cur n ''contract_write_error'' (''err'', JStr e) w2
    | (Ok er2, w2) \<Rightarrow> walk_advance d env opts cur n rb er2 w2)" for er' w'
  proof (cases "writeSideEffectContracts d env opts cur er' w'")
    case (Pair r w2)
    then show ?thesis using fail_with_completes[OF cur] walk_advance_completes[OF cur] by (cases r) simp_all
  qed
  obtain r w1 where i: "writeInvestigatedContract d env opts er w = (r, w1)" by (metis surj_pair)
  define inv where "inv \<longleftrightarrow> cur = PhaseInvestigated \<and> any_at (er_RawOutputs er) ''root_cause_json'' \<noteq> JNull"
  show ?thesis unfolding walk_accepted_def Let_def inv_def[symmetric] i
    using rest fail_with_completes[OF cur] by (cases r; cases inv) simp_all
qed

lemma walk_work_completes:
  assumes cur: "cur \<notin> {PhaseFailed, PhaseAborted}"
  shows "completes opts cur n rb (walk_work d env opts wk cur n rb w)"
proof -
  note fails = fail_with_completes[OF cur] and defs = walk_work_def Let_def
  obtain pr w1 where p: "pw_Planner wk (planInput opts cur n) w = (pr, w1)" by (metis surj_pair)
  show ?thesis
  proof (cases pr)
    case (Inl e)
    then show ?thesis using fails p by (simp add: defs)
  next
    case (Inr plan)
    obtain xr w2 where x: "pw_Executor wk plan w1 = (xr, w2)" by (metis surj_pair)
    show ?thesis
    proof (cases xr)
      case (Inl e)
      then show ?thesis using fails p x \<open>pr = Inr plan\<close> by (simp add: defs)
    next
      case ok: (Inr er)
      show ?thesis
      proof (cases "cur = PhaseApproved \<and> str_at (er_RawOutputs er) ApprovedDecisionRawKey = ApprovedExecPause")
        case True
        obtain ev w3 where a: "appendEvent d env opts cur EventPhasePaused n (Some [(''pause_token'', JStr (extractPauseToken er))]) w2 = (ev, w3)"
          by (metis surj_pair)
        then have "walk_work d env opts wk cur n rb w = ([ev], Stop cur None, w3)"
          using p x \<open>pr = Inr plan\<close> ok True by (simp add: defs)
        moreover have "emits opts [(cur, EventPhasePaused, n)] [ev]" using appendEvent_emitted[OF a] by simp
        ultimately show ?thesis using paused True by fastforce
      next
        case False
        obtain vr w3 where v: "pw_Verifier wk (pw_VerifierTimeoutMs wk) er w2 = (vr, w3)" by (metis surj_pair)
        have "walk_work d env opts wk cur n rb w = (case vr of
            Err e \<Rightarrow> fail_with d env opts cur n ''verifier_error'' (''err'', JStr e) w3
          | Ok vd \<Rightarrow> if \<not> vd_OK vd then walk_rejected d env opts cur n rb vd w3 else walk_accepted d env opts cur n rb er w3)"
          by (simp only: walk_work_def p x v \<open>pr = Inr plan\<close> ok if_not_P[OF False] prod.case sum.case)
        then show ?thesis by (cases vr) (simp_all only: fails walk_rejected_completes[OF cur] walk_accepted_completes[OF cur]
          sum.case split: if_split, blast)
      qed
    qed
  qed
qed

text \<open>Every iteration of the code is a transition of the abstract walker.\<close>

lemma walk_step_iter:
  assumes "walk_step d env opts cur n rb w = (evs, out, w')"
  shows "\<exists>ls. emits opts ls evs \<and> walk_iter (o_StopAfterPhase opts) cur n rb ls out"
proof (cases "cur \<in> {PhaseFailed, PhaseAborted}")
  case True
  then show ?thesis using assms ended by (auto simp: walk_step_def)
next
  case cur: False
  show ?thesis
  proof (cases "lookupWorker d env cur")
    case (Inl e)
    then have "fail_with d env opts cur n ''worker_not_registered'' (''err'', JStr e) w = (evs, out, w')"
      using assms cur by (simp add: walk_step_def)
    from fail_with_emits[OF this] unstaffed[OF cur] show ?thesis by blast
  next
    case (Inr wk)
    obtain en w1 where a: "appendEvent d env opts cur EventTypePhaseEntered n None w = (en, w1)" by (metis surj_pair)
    obtain evs' where e: "walk_work d env opts wk cur n rb w1 = (evs', out, w')" "evs = en # evs'"
      using assms cur Inr a by (auto simp: walk_step_def split: prod.splits)
    from walk_work_completes[OF cur, of opts n rb d env wk w1] e obtain ls where
      "emits opts ls evs'" "walk_iter (o_StopAfterPhase opts) cur n rb ((cur, EventTypePhaseEntered, n) # ls) out" by auto
    with e appendEvent_emitted[OF a] show ?thesis
      by (intro exI[of _ "(cur, EventTypePhaseEntered, n) # ls"]) simp
  qed
qed

text \<open>Each transition that goes on uses up one unit of a budget: forward positions left plus two per rollback left.\<close>

definition walk_budget :: "Phase \<Rightarrow> nat \<Rightarrow> nat" where
  "walk_budget cur rb = (8 - phase_pos cur) + 2 * (MaxRetryCount - rb)"

lemma walk_budget_Next: "walk_iter sa cur n rb ls (Next nx n' rb') \<Longrightarrow> walk_budget nx rb' < walk_budget cur rb"
  by (erule walk_iter_NextE) (use phase_pos_le[of cur] phase_pos_le[of nx] in \<open>auto simp: walk_budget_def MaxRetryCount_def dest!: nextPhase_advances\<close>)

lemma walk_budget_pos: "0 < walk_budget cur rb"
  using phase_pos_le[of cur] by (simp add: walk_budget_def)

lemma walk_budget_start: "walk_budget cur 0 \<le> 13"
  using phase_pos_ge[of cur] by (simp add: walk_budget_def MaxRetryCount_def)

lemma walk_loop_trace:
  assumes "walk_loop d env opts fuel cur n rb w = (evs, r, w')" and "walk_budget cur rb \<le> fuel"
  shows "\<exists>ls fin e. r = Inl (fin, e) \<and> emits opts ls evs \<and> walk_trace (o_StopAfterPhase opts) cur n rb ls fin e"
  using assms
proof (induction fuel arbitrary: cur n rb w evs r w')
  case 0
  then show ?case using walk_budget_pos[of cur rb] by simp
next
  case (Suc fuel)
  obtain ev1 out w1 where st: "walk_step d env opts cur n rb w = (ev1, out, w1)" by (metis prod_cases3)
  from walk_step_iter[OF st] obtain ls where ls: "emits opts ls ev1" "walk_iter (o_StopAfterPhase opts) cur n rb ls out" by blast
  show ?case
  proof (cases out)
    case (Stop fin e)
    with Suc.prems st have "evs = ev1" "r = Inl (fin, e)" by auto
    with Stop ls halt show ?thesis by blast
  next
    case (Next nx n' rb')
    obtain ev2 r2 w2 where lp: "walk_loop d env opts fuel nx n' rb' w1 = (ev2, r2, w2)" by (metis prod_cases3)
    have "walk_budget nx rb' \<le> fuel" using walk_budget_Next ls(2) Next Suc.prems(2) by fastforce
    from Suc.IH[OF lp this] obtain tr fin e where
      "r2 = Inl (fin, e)" "emits opts tr ev2" "walk_trace (o_StopAfterPhase opts) nx n' rb' tr fin e" by blast
    moreover have "evs = ev1 @ ev2" "r = r2" using Suc.prems(1) st Next lp by auto
    ultimately show ?thesis using ls Next goes_on[of _ cur n rb ls nx n' rb' tr fin e] list_all2_appendI[of _ ls ev1 tr ev2] by blast
  qed
qed

text \<open>The walk as a whole: a trace of the abstract walker from attempt 1 with no rollback.\<close>

lemma walkPhases_trace:
  obtains evs fin e w' ls where
    "walk_loop d env opts maxAttempts frm 1 0 w = (evs, Inl (fin, e), w')"
    "walkPhases d env opts frm w = (evs, fin, e, w')"
    "emits opts ls evs" "walk_trace (o_StopAfterPhase opts) frm 1 0 ls fin e"
proof -
  obtain evs r w' where lp: "walk_loop d env opts maxAttempts frm 1 0 w = (evs, r, w')" by (metis prod_cases3)
  have "walk_budget frm 0 \<le> maxAttempts" using walk_budget_start[of frm] by (simp add: maxAttempts_def)
  from walk_loop_trace[OF lp this] lp that show thesis by (force simp: walkPhases_def)
qed

section \<open>Guarantees of the abstract walker\<close>

lemma walk_trace_length: "walk_trace sa cur n rb ls fin e \<Longrightarrow> length ls \<le> 2 * walk_budget cur rb + 1"
proof (induction rule: walk_trace.induct)
  case (halt cur n rb ls fin e)
  then show ?case using walk_budget_pos[of cur rb] by (auto elim!: walk_iter_StopE)
next
  case (goes_on cur n rb ls nx n' rb' tr fin e)
  have "length ls = 2" using goes_on.hyps(1) by (auto elim!: walk_iter_NextE)
  with goes_on.IH walk_budget_Next[OF goes_on.hyps(1)] show ?case by simp
qed

text \<open>Rollbacks: each one is an event, and the fourth is followed by \<^verbatim>\<open>retry_exhausted\<close> and the end.\<close>

abbreviation rollbacks :: "label list \<Rightarrow> nat" where
  "rollbacks ls \<equiv> length (filter (\<lambda>l. fst (snd l) = EventRollback) ls)"

lemma walk_trace_rollbacks:
  "walk_trace sa cur n rb ls fin e \<Longrightarrow> rb \<le> MaxRetryCount \<Longrightarrow>
     rb + rollbacks ls \<le> Suc MaxRetryCount \<and>
     ((\<exists>l\<in>set ls. fst (snd l) = EventRetryExhausted) = (rb + rollbacks ls = Suc MaxRetryCount)) \<and>
     (rb + rollbacks ls = Suc MaxRetryCount \<longrightarrow> fin = PhaseFailed)"
proof (induction rule: walk_trace.induct)
  case (halt cur n rb ls fin e)
  then show ?case by (auto elim!: walk_iter_StopE simp: MaxRetryCount_def)
next
  case (goes_on cur n rb ls nx n' rb' tr fin e)
  from goes_on.hyps(1) have st: "rb' \<le> MaxRetryCount" "rb' = rb + rollbacks ls" "\<forall>l\<in>set ls. fst (snd l) \<noteq> EventRetryExhausted"
    using goes_on.prems by (auto elim!: walk_iter_NextE)
  from goes_on.IH[OF st(1)] st show ?case by (auto simp: ac_simps)
qed

text \<open>A phase is entered only from the contract of its predecessor or from a rollback.\<close>

definition entered_after :: "label \<Rightarrow> Phase \<Rightarrow> bool" where
  "entered_after l q = (case l of (p, ty, n) \<Rightarrow>
     ty = EventPhaseContractWritten \<and> nextPhase p True = Ok q \<or> ty = EventRollback \<and> p = PhaseRecovered \<and> q = PhaseApproved)"

lemma walk_iter_Next_last: "walk_iter sa cur n rb ls (Next nx n' rb') \<Longrightarrow> \<exists>l0 l. ls = [l0, l] \<and> entered_after l nx \<and> fst (snd l) \<noteq> EventTypePhaseEntered"
  by (auto elim!: walk_iter_NextE simp: entered_after_def)

lemma walk_trace_head: "walk_trace sa cur n rb ls fin e \<Longrightarrow> ls = [] \<or> fst (hd ls) = cur \<and> fst (snd (hd ls)) \<in> {EventTypePhaseEntered, EventPhaseFailed}"
  by (induction rule: walk_trace.induct) (auto elim!: walk_iter_StopE walk_iter_NextE)

lemma walk_trace_entered:
  "walk_trace sa cur n rb ls fin e \<Longrightarrow> Suc i < length ls \<Longrightarrow> ls ! Suc i = (q, EventTypePhaseEntered, m) \<Longrightarrow> entered_after (ls ! i) q"
proof (induction arbitrary: i rule: walk_trace.induct)
  case (halt cur n rb ls fin e)
  then show ?case by (auto elim!: walk_iter_StopE simp: less_Suc_eq nth_Cons')
next
  case (goes_on cur n rb ls nx n' rb' tr fin e)
  from walk_iter_Next_last[OF goes_on.hyps(1)] obtain l0 l where
    l: "ls = [l0, l]" "entered_after l nx" "fst (snd l) \<noteq> EventTypePhaseEntered" by blast
  consider "i = 0" | "i = 1" | j where "i = Suc (Suc j)" by (metis One_nat_def not0_implies_Suc)
  then show ?case
  proof cases
    case 1
    with goes_on.prems l show ?thesis by auto
  next
    case 2
    with goes_on.prems l(1) have "tr \<noteq> []" "hd tr = (q, EventTypePhaseEntered, m)" by (cases tr; auto)+
    with walk_trace_head[OF goes_on.hyps(2)] have "q = nx" by auto
    with 2 l show ?thesis by simp
  next
    case 3
    with goes_on.prems goes_on.IH[of j] l(1) show ?thesis by simp
  qed
qed

text \<open>A pause is the last event of its walk.\<close>

lemma walk_trace_pause_last:
  "walk_trace sa cur n rb ls fin e \<Longrightarrow> i < length ls \<Longrightarrow> fst (snd (ls ! i)) = EventPhasePaused \<Longrightarrow> Suc i = length ls \<and> fin = PhaseApproved"
proof (induction arbitrary: i rule: walk_trace.induct)
  case (halt cur n rb ls fin e)
  then show ?case by (auto elim!: walk_iter_StopE simp: less_Suc_eq nth_Cons')
next
  case (goes_on cur n rb ls nx n' rb' tr fin e)
  from goes_on.hyps(1) obtain l0 l where l: "ls = [l0, l]" "fst (snd l0) \<noteq> EventPhasePaused" "fst (snd l) \<noteq> EventPhasePaused"
    by (auto elim!: walk_iter_NextE)
  have "2 \<le> i" using goes_on.prems(2) l by (metis append_Cons linorder_not_le less_2_cases nth_Cons_0 nth_Cons_Suc)
  then obtain j where "i = Suc (Suc j)" by (metis Suc_le_D numeral_2_eq_2 Suc_le_mono)
  with goes_on.prems goes_on.IH[of j] l(1) show ?case by simp
qed

text \<open>The stop boundary: from a phase at or before it, nothing beyond it is touched.\<close>

lemma walk_trace_boundary:
  "walk_trace sa cur n rb ls fin e \<Longrightarrow> sa \<in> set allForwardPhases \<Longrightarrow> phase_pos cur \<le> phase_pos sa \<Longrightarrow>
     \<forall>l\<in>set ls. phase_pos (fst l) \<le> phase_pos sa"
proof (induction rule: walk_trace.induct)
  case (halt cur n rb ls fin e)
  then show ?case by (auto elim!: walk_iter_StopE)
next
  case (goes_on cur n rb ls nx n' rb' tr fin e)
  have ne: "sa \<noteq> []" using goes_on.prems(1) by (auto simp: allForwardPhases_def phase_defs)
  have inj: "cur = sa" if "phase_pos cur = phase_pos sa" "nextPhase cur True = Ok nx"
    using that goes_on.prems(1) by (auto simp: allForwardPhases_def nextPhase_def split: if_splits)
  from goes_on.hyps(1) have "phase_pos nx \<le> phase_pos sa \<and> (\<forall>l\<in>set ls. fst l = cur)"
    by (rule walk_iter_NextE) (use goes_on.prems(2) ne inj nextPhase_advances in \<open>auto simp: Suc_le_eq intro: le_neq_implies_less\<close>)
  with goes_on.IH[OF goes_on.prems(1)] goes_on.prems(2) show ?case by auto
qed

text \<open>Within a walk no event type repeats at the same attempt.\<close>

lemma walk_trace_distinct:
  "walk_trace sa cur n rb ls fin e \<Longrightarrow> distinct (map snd ls) \<and> (\<forall>l\<in>set ls. n \<le> snd (snd l))"
proof (induction rule: walk_trace.induct)
  case (halt cur n rb ls fin e)
  then show ?case by (auto elim!: walk_iter_StopE)
next
  case (goes_on cur n rb ls nx n' rb' tr fin e)
  from goes_on.hyps(1) have "n' = Suc n \<and> distinct (map snd ls) \<and> (\<forall>l\<in>set ls. snd (snd l) = n)" by (auto elim!: walk_iter_NextE)
  with goes_on.IH show ?case by fastforce
qed

text \<open>The idempotency key of a label determines its type and attempt.\<close>

lemma split_first:
  "x \<notin> set a \<Longrightarrow> x \<notin> set b \<Longrightarrow> a @ x # c = b @ x # d \<Longrightarrow> a = b \<and> c = d"
proof (induction a arbitrary: b)
  case Nil
  then show ?case by (cases b) auto
next
  case (Cons y a)
  then show ?case by (cases b) auto
qed

lemma split_last_colon:
  assumes "CHR '':'' \<notin> set ys" "CHR '':'' \<notin> set ys'" "xs @ CHR '':'' # ys = xs' @ CHR '':'' # ys'"
  shows "xs = xs' \<and> ys = ys'"
proof -
  have "rev ys @ CHR '':'' # rev xs = rev ys' @ CHR '':'' # rev xs'" using arg_cong[OF assms(3), of rev] by simp
  with assms(1,2) split_first[of "CHR '':''" "rev ys" "rev ys'" "rev xs" "rev xs'"] show ?thesis by simp
qed

lemma key_inj:
  assumes "buildIdempotencyKey inc p ty n = buildIdempotencyKey inc q ty' m" "CHR '':'' \<notin> set ty" "CHR '':'' \<notin> set ty'"
  shows "p = q \<and> ty = ty' \<and> n = m"
proof -
  have "dec n = dec m" and "(inc @ '':'' @ p) @ CHR '':'' # ty = (inc @ '':'' @ q) @ CHR '':'' # ty'"
    using assms(1) split_last_colon[of "dec n" "dec m" "inc @ '':'' @ p @ '':'' @ ty" "inc @ '':'' @ q @ '':'' @ ty'"] dec_digits
    by (fastforce simp: buildIdempotencyKey_def)+
  from this(1) split_last_colon[OF assms(2,3) this(2)] show ?thesis by (simp add: dec_inj)
qed

lemma walk_trace_types: "walk_trace sa cur n rb ls fin e \<Longrightarrow> \<forall>l\<in>set ls. CHR '':'' \<notin> set (fst (snd l))"
  by (induction rule: walk_trace.induct) (auto elim!: walk_iter_StopE walk_iter_NextE simp: event_type_defs)

text \<open>A walk outside the recovered phase reaches it through a contract of the approved phase.\<close>

lemma walk_iter_phase: "walk_iter sa cur n rb ls out \<Longrightarrow> l \<in> set ls \<Longrightarrow> fst l = cur"
  by (induction rule: walk_iter.induct) auto

lemma walk_trace_approval:
  "walk_trace sa cur n rb ls fin e \<Longrightarrow> cur \<noteq> PhaseRecovered \<Longrightarrow> k < length ls \<Longrightarrow> fst (ls ! k) = PhaseRecovered \<Longrightarrow>
     \<exists>j < k. fst (ls ! j) = PhaseApproved \<and> fst (snd (ls ! j)) = EventPhaseContractWritten"
proof (induction arbitrary: k rule: walk_trace.induct)
  case (halt cur n rb ls fin e)
  then show ?case using walk_iter_phase[OF halt.hyps, of "ls ! k"] by simp
next
  case (goes_on cur n rb ls nx n' rb' tr fin e)
  from walk_iter_Next_last[OF goes_on.hyps(1)] obtain l0 l where l: "ls = [l0, l]" "entered_after l nx" by blast
  have ph: "fst l0 = cur" "fst l = cur" using walk_iter_phase[OF goes_on.hyps(1)] l(1) by auto
  with goes_on.prems l(1) have "2 \<le> k"
    by (metis append_Cons less_2_cases linorder_not_le nth_Cons_0 nth_Cons_Suc)
  then obtain k' where k: "k = Suc (Suc k')" by (metis Suc_le_D numeral_2_eq_2 Suc_le_mono)
  show ?case
  proof (cases "nx = PhaseRecovered")
    case True
    with l(2) ph have "fst l = PhaseApproved \<and> fst (snd l) = EventPhaseContractWritten"
      by (auto simp: entered_after_def nextPhase_into_recovered split: prod.splits)
    with k l(1) show ?thesis by (intro exI[of _ 1]) simp
  next
    case False
    from goes_on.IH[OF this, of k'] goes_on.prems k l(1) obtain j where
      "j < k'" "fst (tr ! j) = PhaseApproved" "fst (snd (tr ! j)) = EventPhaseContractWritten" by auto
    with k l(1) show ?thesis by (intro exI[of _ "Suc (Suc j)"]) simp
  qed
qed

text \<open>A walk that starts in the recovered phase leaves it for good or comes back to it through such a contract.\<close>

lemma walk_trace_recovery:
  assumes "walk_trace sa cur n rb ls fin e" "k < length ls" "fst (ls ! k) = PhaseRecovered"
  shows "(\<exists>j < k. fst (ls ! j) = PhaseApproved \<and> fst (snd (ls ! j)) = EventPhaseContractWritten) \<or>
    cur = PhaseRecovered \<and> (\<forall>j \<le> k. fst (ls ! j) = PhaseRecovered)"
  using assms
proof (cases rule: walk_trace.cases)
  case halt
  then show ?thesis using walk_iter_phase[OF halt] assms(2,3) by (metis nth_mem order.strict_trans1)
next
  case (goes_on ls1 nx n' rb' tr)
  from walk_iter_Next_last[OF goes_on(2)] obtain l0 l where l: "ls1 = [l0, l]" "entered_after l nx" by blast
  have ph: "fst l0 = cur" "fst l = cur" using walk_iter_phase[OF goes_on(2)] l(1) by auto
  show ?thesis
  proof (cases "cur = PhaseRecovered")
    case False
    then show ?thesis using walk_trace_approval[OF assms(1) _ assms(2,3)] by blast
  next
    case rec: True
    with l(2) ph have nx: "nx \<noteq> PhaseRecovered"
      by (auto simp: entered_after_def nextPhase_into_recovered split: prod.splits)
    show ?thesis
    proof (cases "k < 2")
      case True
      then show ?thesis using rec ph l(1) goes_on(1) by (auto simp: less_2_cases_iff le_Suc_eq)
    next
      case False
      then obtain k' where k: "k = Suc (Suc k')" by (metis add_2_eq_Suc le_Suc_ex linorder_not_less)
      from walk_trace_approval[OF goes_on(3) nx, of k'] assms(2,3) goes_on(1) l(1) k obtain j where
        "j < k'" "fst (tr ! j) = PhaseApproved" "fst (snd (tr ! j)) = EventPhaseContractWritten" by auto
      with k l(1) goes_on(1) show ?thesis by (intro disjI1 exI[of _ "Suc (Suc j)"]) simp
    qed
  qed
qed

section \<open>A concrete walk\<close>

text \<open>The world of the witnesses is the log itself; every phase has the default worker.\<close>

definition log_deps :: "Event list OrchestratorDeps" where
  "log_deps = \<lparr>d_GetLock = (\<lambda>_ _ w. (Ok True, w)), d_ReleaseLock = (\<lambda>_ w. (None, w)), d_AdvisoryLockTimeoutSec = 5,
     d_EventRepo = Some \<lparr>rp_AppendEvent = (\<lambda>ev w. (Ok (int (length w) + 1), w @ [ev])), rp_ReadEvents = (\<lambda>_ _ w. (Ok w, w))\<rparr>,
     d_ContractRepo = None,
     d_WorkerRegistry = Some (map (\<lambda>p. (p, BasePhaseWorker p 0)) allForwardPhases), d_ChatReportPusher = None\<rparr>"

definition log_env :: "Event list Env" where
  "log_env = \<lparr>en_DefaultPhaseWorkerRegistry = [], en_Now = (\<lambda>w. (int (length w), w)), en_Marshal = (\<lambda>_. Ok ''{}''),
     en_Quote = (\<lambda>s. s), en_UnmarshalRootCause = (\<lambda>_. Err []), en_UnmarshalPostmortem = (\<lambda>_. Err [])\<rparr>"

definition run_opts :: "Phase \<Rightarrow> RunOptions" where
  "run_opts stop = \<lparr>o_IncidentID = ''i1'', o_FromPhase = PhaseApproved, o_TenantID = ''t1'', o_TriggeredBy = ''alert'', o_IdempotentKey = [],
     o_LinkedConversationID = [], o_LinkedTurnSeq = 0, o_StopAfterPhase = stop, o_AlertGroup = [], o_CorrelationHints = None\<rparr>"

definition log_event :: "nat \<Rightarrow> Phase \<Rightarrow> string \<Rightarrow> nat \<Rightarrow> Event" where
  "log_event i p ty n = \<lparr>ev_ID = int i + 1, ev_IncidentID = ''i1'', ev_TenantID = ''t1'', ev_EventType = ty, ev_Phase = p,
     ev_IdempotencyKey = buildIdempotencyKey ''i1'' p ty n, ev_Payload = [], ev_TraceID = [], ev_CreatedAt = int i\<rparr>"

lemma log_append:
  "appendEventStrict log_deps log_env (run_opts stop) p ty n None w =
     ((log_event (length w) p ty n, None), w @ [(log_event (length w) p ty n)\<lparr>ev_ID := 0\<rparr>])"
  by (simp add: appendEventStrict_def log_deps_def log_env_def run_opts_def log_event_def traceIDFromContext_def)

lemma log_step:
  assumes "p \<in> set allForwardPhases"
  shows "\<exists>w'. length w' = length w + 2 \<and> walk_step log_deps log_env (run_opts stop) p n rb w =
    ([log_event (length w) p EventTypePhaseEntered n, log_event (length w + 1) p EventPhaseContractWritten n],
     (if stop \<noteq> [] \<and> p = stop then Stop p None else case nextPhase p True of Ok nx \<Rightarrow> Next nx (n + 1) rb | Err _ \<Rightarrow> Stop p None), w')"
proof -
  have wk: "lookupWorker log_deps log_env p = Ok (BasePhaseWorker p 0)"
    using assms by (auto simp: lookupWorker_def registry_Get_def log_deps_def allForwardPhases_def)
  have alive: "p \<noteq> PhaseFailed" "p \<noteq> PhaseAborted" using assms by (auto simp: allForwardPhases_def)
  have opts: "o_StopAfterPhase (run_opts stop) = stop" by (simp add: run_opts_def)
  have nx: "nextPhase p True = Err (ErrTerminalPhase p) \<or> (\<exists>q. nextPhase p True = Ok q)"
    using assms by (auto simp: allForwardPhases_def nextPhase_def)
  show ?thesis
    unfolding walk_step_def wk walk_work_def appendEvent_def walk_accepted_def writeSideEffectContracts_def walk_advance_def
    using alive nx by (auto simp: BasePhaseWorker_def log_append opts any_at_def entries_def str_at_def sideEffectsPayload_def
        ApprovedExecPause_def split: sum.splits)
qed

lemma log_walk:
  "\<exists>w'. walkPhases log_deps log_env (run_opts PhaseRecovered) PhaseApproved [] =
     ([log_event 0 PhaseApproved EventTypePhaseEntered 1, log_event 1 PhaseApproved EventPhaseContractWritten 1,
       log_event 2 PhaseRecovered EventTypePhaseEntered 2, log_event 3 PhaseRecovered EventPhaseContractWritten 2],
      PhaseRecovered, None, w')"
proof -
  have fw: "PhaseApproved \<in> set allForwardPhases" "PhaseRecovered \<in> set allForwardPhases" by (simp_all add: allForwardPhases_def)
  obtain w1 where w1: "length w1 = 2" "walk_step log_deps log_env (run_opts PhaseRecovered) PhaseApproved 1 0 [] =
     ([log_event 0 PhaseApproved EventTypePhaseEntered 1, log_event 1 PhaseApproved EventPhaseContractWritten 1], Next PhaseRecovered 2 0, w1)"
    using log_step[OF fw(1), of "[]" PhaseRecovered 1 0] by (auto simp: nextPhase_def numeral_2_eq_2)
  obtain w2 where w2: "walk_step log_deps log_env (run_opts PhaseRecovered) PhaseRecovered 2 0 w1 =
     ([log_event 2 PhaseRecovered EventTypePhaseEntered 2, log_event 3 PhaseRecovered EventPhaseContractWritten 2], Stop PhaseRecovered None, w2)"
    using log_step[OF fw(2), of w1 PhaseRecovered 2 0] w1(1) by (auto simp: PhaseRecovered_def numeral_3_eq_3)
  have fuel: "maxAttempts = Suc (Suc 30)" by (simp add: maxAttempts_def)
  show ?thesis unfolding walkPhases_def fuel walk_loop.simps w1(2) by (simp add: w2)
qed

section \<open>Guarantees of the walker\<close>

lemma emits_nth: "emits opts ls evs \<Longrightarrow> i < length evs \<Longrightarrow> length ls = length evs \<and> emitted opts (ls ! i) (evs ! i)"
  by (simp add: list_all2_conv_all_nth)

lemma emits_types: "emits opts ls evs \<Longrightarrow> map ev_EventType evs = map (fst \<circ> snd) ls \<and> map ev_Phase evs = map fst ls"
  by (induction rule: list_all2_induct) (auto simp: emitted_def)

lemma emits_keys: "emits opts ls evs \<Longrightarrow>
    map ev_IdempotencyKey evs = map (\<lambda>(p, ty, n). buildIdempotencyKey (o_IncidentID opts) p ty n) ls"
  by (induction rule: list_all2_induct) (auto simp: emitted_def)

text \<open>C13. The walk always ends by a return inside its loop: within thirteen of the thirty-two iterations allowed,
  with at most twenty-seven events. The events it returns are the labels of a run of the abstract walker, in
  order, each carrying the incident, the tenant and the idempotency key of its label. Nothing is assumed of
  the workers, the repositories or the clock.\<close>

theorem walk_refines_trace:
  "\<exists>evs fin e w' ls. walk_loop d env opts maxAttempts frm 1 0 w = (evs, Inl (fin, e), w') \<and>
     walkPhases d env opts frm w = (evs, fin, e, w') \<and> length evs \<le> 27 \<and>
     list_all2 (emitted opts) ls evs \<and> walk_trace (o_StopAfterPhase opts) frm 1 0 ls fin e"
proof -
  obtain evs fin e w' ls where w: "walk_loop d env opts maxAttempts frm 1 0 w = (evs, Inl (fin, e), w')"
    "walkPhases d env opts frm w = (evs, fin, e, w')" "emits opts ls evs" "walk_trace (o_StopAfterPhase opts) frm 1 0 ls fin e"
    by (rule walkPhases_trace)
  have "length evs \<le> 27"
    using walk_trace_length[OF w(4)] walk_budget_start[of frm] list_all2_lengthD[OF w(3)] by simp
  with w show ?thesis by blast
qed

text \<open>C32. The recovery budget: a walk rolls back at most four times, and it records \<^verbatim>\<open>retry_exhausted\<close>, ending in the
  failed phase, exactly when the fourth rollback happens.\<close>

theorem walk_rollback_budget:
  "case walkPhases d env opts frm w of (evs, fin, e, w') \<Rightarrow>
     let n = count_list (map ev_EventType evs) EventRollback in
     n \<le> 4 \<and> (EventRetryExhausted \<in> set (map ev_EventType evs) \<longleftrightarrow> n = 4) \<and> (n < 4 \<or> fin = PhaseFailed)"
proof -
  obtain evs fin e w' ls where w: "walkPhases d env opts frm w = (evs, fin, e, w')" "emits opts ls evs"
    "walk_trace (o_StopAfterPhase opts) frm 1 0 ls fin e" by (rule walkPhases_trace)
  have "count_list (map (fst \<circ> snd) ls) EventRollback = rollbacks ls" by (induction ls) auto
  moreover have "EventRetryExhausted \<in> set (map (fst \<circ> snd) ls) \<longleftrightarrow> (\<exists>l\<in>set ls. fst (snd l) = EventRetryExhausted)"
    by (metis (no_types, lifting) comp_apply image_iff list.set_map)
  ultimately show ?thesis using walk_trace_rollbacks[OF w(3)] emits_types[OF w(2)]
    by (auto simp: w(1) Let_def MaxRetryCount_def simp del: set_map)
qed

text \<open>C4. No recovery without approval, within a walk: every event of the recovered phase comes after a contract of the
  approved phase and after no pause (a pause asked for by the approved phase is the last event of its walk). The
  one exception is a walk that is started in the recovered phase, which the trigger endpoint lets an administrator do:
  its events of that phase up to the first of another phase come before any approval.\<close>

theorem walk_recovery_gated:
  assumes "walkPhases d env opts frm w = (evs, fin, e, w')"
    and "k < length evs" and "ev_Phase (evs ! k) = PhaseRecovered"
  shows "((\<exists>j < k. ev_Phase (evs ! j) = PhaseApproved \<and> ev_EventType (evs ! j) = EventPhaseContractWritten) \<or>
      frm = PhaseRecovered \<and> (\<forall>j \<le> k. ev_Phase (evs ! j) = PhaseRecovered)) \<and>
    (\<forall>j < k. ev_EventType (evs ! j) \<noteq> EventPhasePaused)"
proof -
  obtain ls where em: "emits opts ls evs" and tr: "walk_trace (o_StopAfterPhase opts) frm 1 0 ls fin e"
    using assms(1) by (metis walkPhases_trace prod.inject)
  have lab: "fst (ls ! i) = ev_Phase (evs ! i)" "fst (snd (ls ! i)) = ev_EventType (evs ! i)" if "i \<le> k" for i
    using emits_nth[OF em, of i] that assms(2) by (auto simp: emitted_def split: prod.splits)
  have len: "length ls = length evs" using list_all2_lengthD[OF em] .
  have "ev_EventType (evs ! j) \<noteq> EventPhasePaused" if "j < k" for j
    using walk_trace_pause_last[OF tr, of j] that assms(2) lab[of j] len by auto
  moreover have "(\<exists>j < k. fst (ls ! j) = PhaseApproved \<and> fst (snd (ls ! j)) = EventPhaseContractWritten) \<or>
    frm = PhaseRecovered \<and> (\<forall>j \<le> k. fst (ls ! j) = PhaseRecovered)"
    using walk_trace_recovery[OF tr, of k] assms(2,3) lab[of k] len by simp
  ultimately show ?thesis using lab by (metis less_imp_le)
qed

theorem walk_recovery_gated_witness:
  "\<exists>evs fin e w'. walkPhases log_deps log_env (run_opts PhaseRecovered) PhaseApproved [] = (evs, fin, e, w') \<and>
     2 < length evs \<and> ev_Phase (evs ! 2) = PhaseRecovered \<and>
     (\<exists>j < 2. ev_Phase (evs ! j) = PhaseApproved \<and> ev_EventType (evs ! j) = EventPhaseContractWritten) \<and>
     (\<forall>j < 2. ev_EventType (evs ! j) \<noteq> EventPhasePaused)"
proof -
  obtain w' where w: "walkPhases log_deps log_env (run_opts PhaseRecovered) PhaseApproved [] =
     ([log_event 0 PhaseApproved EventTypePhaseEntered 1, log_event 1 PhaseApproved EventPhaseContractWritten 1,
       log_event 2 PhaseRecovered EventTypePhaseEntered 2, log_event 3 PhaseRecovered EventPhaseContractWritten 2],
      PhaseRecovered, None, w')" using log_walk by blast
  from walk_recovery_gated[OF w, of 2] w show ?thesis by (fastforce simp: log_event_def)
qed

text \<open>The stop boundary: a walk that starts at or before the phase it must stop after never emits an event of a
  later phase, rollbacks included.\<close>

theorem walk_stop_boundary:
  assumes "walkPhases d env opts frm w = (evs, fin, e, w')" and "o_StopAfterPhase opts \<in> set allForwardPhases"
    and "phase_pos frm \<le> phase_pos (o_StopAfterPhase opts)" and "ev \<in> set evs"
  shows "phase_pos (ev_Phase ev) \<le> phase_pos (o_StopAfterPhase opts)"
proof -
  obtain ls where em: "emits opts ls evs" and tr: "walk_trace (o_StopAfterPhase opts) frm 1 0 ls fin e"
    using assms(1) by (metis walkPhases_trace prod.inject)
  from assms(4) have "ev_Phase ev \<in> set (map fst ls)" using emits_types[OF em] by (metis image_eqI set_map)
  with walk_trace_boundary[OF tr assms(2,3)] show ?thesis by auto
qed

theorem walk_stop_boundary_witness:
  "\<exists>evs fin e w'. walkPhases log_deps log_env (run_opts PhaseRecovered) PhaseApproved [] = (evs, fin, e, w') \<and>
     o_StopAfterPhase (run_opts PhaseRecovered) \<in> set allForwardPhases \<and>
     phase_pos PhaseApproved \<le> phase_pos (o_StopAfterPhase (run_opts PhaseRecovered)) \<and> last evs \<in> set evs \<and>
     phase_pos (ev_Phase (last evs)) \<le> phase_pos (o_StopAfterPhase (run_opts PhaseRecovered))"
proof -
  obtain w' where w: "walkPhases log_deps log_env (run_opts PhaseRecovered) PhaseApproved [] =
     ([log_event 0 PhaseApproved EventTypePhaseEntered 1, log_event 1 PhaseApproved EventPhaseContractWritten 1,
       log_event 2 PhaseRecovered EventTypePhaseEntered 2, log_event 3 PhaseRecovered EventPhaseContractWritten 2],
      PhaseRecovered, None, w')" using log_walk by blast
  have o: "o_StopAfterPhase (run_opts PhaseRecovered) = PhaseRecovered" by (simp add: run_opts_def)
  from walk_stop_boundary[OF w, of "log_event 3 PhaseRecovered EventPhaseContractWritten 2"] w o show ?thesis
    by (simp add: allForwardPhases_def)
qed

text \<open>The events of one walk have pairwise distinct idempotency keys, so the log's uniqueness constraint never
  merges two of them.\<close>

theorem walk_keys_distinct:
  "distinct (map ev_IdempotencyKey (fst (walkPhases d env opts frm w)))"
proof -
  obtain evs fin e w' ls where w: "walkPhases d env opts frm w = (evs, fin, e, w')" "emits opts ls evs"
    "walk_trace (o_StopAfterPhase opts) frm 1 0 ls fin e" by (rule walkPhases_trace)
  have "inj_on (\<lambda>(p, ty, n). buildIdempotencyKey (o_IncidentID opts) p ty n) (set ls)"
    using walk_trace_types[OF w(3)] by (auto simp: inj_on_def dest!: key_inj)
  moreover have "distinct ls" using walk_trace_distinct[OF w(3)] by (simp add: distinct_map)
  ultimately show ?thesis using emits_keys[OF w(2)] by (simp add: w(1) distinct_map)
qed

text \<open>The event before a phase entry is the contract or the rollback that leads to that phase, and recovery reads it so.\<close>

lemma walk_recovers:
  assumes "walkPhases d env opts frm w = (evs, fin, e, w')" and "0 < k" and "k < length evs"
    and "ev_EventType (evs ! k) = EventTypePhaseEntered"
    and "ev_EventType x = ev_EventType (evs ! (k - 1))" "ev_Phase x = ev_Phase (evs ! (k - 1))"
  shows "recoverFromEvents (x # older) = (ev_Phase (evs ! k), None) \<and> \<not> isTerminalEvent (x # older)"
proof -
  obtain ls where em: "emits opts ls evs" and tr: "walk_trace (o_StopAfterPhase opts) frm 1 0 ls fin e"
    using assms(1) by (metis walkPhases_trace prod.inject)
  obtain i where k: "k = Suc i" using assms(2) gr0_implies_Suc by blast
  obtain p ty n where l: "ls ! i = (p, ty, n)" by (metis prod_cases3)
  obtain q m where q: "ls ! Suc i = (q, EventTypePhaseEntered, m)" "ev_Phase (evs ! k) = q"
    using emits_nth[OF em assms(3)] assms(4) k by (auto simp: emitted_def split: prod.splits)
  have e: "ev_Phase x = p" "ev_EventType x = ty"
    using emits_nth[OF em, of i] assms(3,5,6) k l by (auto simp: emitted_def)
  have "entered_after (p, ty, n) q"
    using walk_trace_entered[OF tr, of i q m] q k l assms(3) list_all2_lengthD[OF em] by simp
  then show ?thesis using e q(2) by (auto simp: entered_after_def isTerminalEvent_def nextPhase_def split: if_splits)
qed

end
