(* ===== verification/Loop_Repos.thy ===== *)
theory Loop_Repos
  imports Loop_Walk "HOL-Library.Multiset" "HOL-Library.Product_Lexorder" "HOL-Library.List_Lexorder" "HOL-Library.Char_ord"
begin

text \<open>
  The event log and the contract table behind the orchestrator's repository interfaces: the
  in-memory repositories of \<^verbatim>\<open>internal/manager/biz/loop/inmemory_repos.go\<close> and the database
  ones of \<^verbatim>\<open>internal/manager/data/loop/store/event_repo.go\<close>. The locale \<open>event_log\<close> is
  what the orchestrator relies on (append-only, one row per key, replays are absorbed); both
  event repositories are instances of it.
\<close>

section \<open>The interface\<close>

locale event_log =
  fixes append :: "Event \<Rightarrow> 's \<Rightarrow> (string, int) result \<times> 's"
    and read :: "string \<Rightarrow> string \<Rightarrow> 's \<Rightarrow> (string, Event list) result \<times> 's"
    and rows :: "'s \<Rightarrow> Event list"
    and stored_key :: "string \<Rightarrow> string"
  assumes append_only: "append ev s = (r, s') \<Longrightarrow> mset (rows s) \<subseteq># mset (rows s')"
    and append_ok: "append ev s = (Ok i, s') \<Longrightarrow>
      \<exists>row\<in>set (rows s'). ev_IdempotencyKey row = stored_key (ev_IdempotencyKey ev) \<and> ev_ID row = i"
    and append_known: "stored_key (ev_IdempotencyKey ev) \<in> ev_IdempotencyKey ` set (rows s) \<Longrightarrow> append ev s = (r, s') \<Longrightarrow> rows s' = rows s"
    and append_distinct: "distinct (map ev_IdempotencyKey (rows s)) \<Longrightarrow> append ev s = (r, s') \<Longrightarrow>
      distinct (map ev_IdempotencyKey (rows s'))"
    and read_rows: "read t inc s = (Ok evs, s') \<Longrightarrow> rows s' = rows s \<and>
      mset evs = mset (filter (\<lambda>e. ev_TenantID e = t \<and> ev_IncidentID e = inc) (rows s)) \<and> sorted (map ev_CreatedAt evs)"
begin

abbreviation append_all :: "Event list \<Rightarrow> 's \<Rightarrow> 's" where
  "append_all \<equiv> fold (\<lambda>ev s. snd (append ev s))"

lemma append_keeps_key: "append ev s = (r, s') \<Longrightarrow> k \<in> ev_IdempotencyKey ` set (rows s) \<Longrightarrow> k \<in> ev_IdempotencyKey ` set (rows s')"
  using append_only[of ev s r s'] set_mset_mono[of "mset (rows s)" "mset (rows s')"] by auto

lemma append_all_only: "mset (rows s) \<subseteq># mset (rows (append_all evs s))"
proof (induction evs arbitrary: s)
  case (Cons ev evs)
  have "mset (rows s) \<subseteq># mset (rows (snd (append ev s)))" by (rule append_only[of ev s "fst (append ev s)"]) simp
  with Cons show ?case by (auto intro: subset_mset.order_trans)
qed simp

lemma append_all_distinct: "distinct (map ev_IdempotencyKey (rows s)) \<Longrightarrow> distinct (map ev_IdempotencyKey (rows (append_all evs s)))"
proof (induction evs arbitrary: s)
  case (Cons ev evs)
  have "distinct (map ev_IdempotencyKey (rows (snd (append ev s))))"
    by (rule append_distinct[OF Cons.prems, of ev "fst (append ev s)"]) simp
  with Cons.IH show ?case by simp
qed simp

text \<open>Replaying events whose keys are all in the log changes nothing.\<close>

lemma replay_absorbed:
  "(stored_key \<circ> ev_IdempotencyKey) ` set evs \<subseteq> ev_IdempotencyKey ` set (rows s) \<Longrightarrow> rows (append_all evs s) = rows s"
proof (induction evs arbitrary: s)
  case (Cons ev evs)
  from Cons.prems have "rows (snd (append ev s)) = rows s"
    by (intro append_known[of ev s "fst (append ev s)"]) auto
  with Cons show ?case by simp
qed simp

text \<open>An accepted event is absorbed when its key is written again, whoever writes it.\<close>

lemma second_writer_absorbed:
  assumes "append ev s = (Ok i, s1)" and "ev_IdempotencyKey ev' = ev_IdempotencyKey ev" and "append ev' s1 = (r, s2)"
  shows "rows s2 = rows s1"
  using append_ok[OF assms(1)] assms(2,3) by (intro append_known[of ev' s1 r s2]) force+

end

section \<open>The in-memory repositories\<close>

text \<open>The map of \<open>InMemoryEventRepo\<close> is keyed by the idempotency key of its values, so it is the list of its values.\<close>

definition InMemory_AppendEvent :: "Event \<Rightarrow> Event list \<Rightarrow> (string, int) result \<times> Event list" where
  "InMemory_AppendEvent ev s = (case find (\<lambda>x. ev_IdempotencyKey x = ev_IdempotencyKey ev) s of
     Some existing \<Rightarrow> (Ok (ev_ID existing), s)
   | None \<Rightarrow> (let i = (if ev_ID ev = 0 then int (length s) + 1 else ev_ID ev) in (Ok i, s @ [ev\<lparr>ev_ID := i\<rparr>])))"

definition InMemory_ReadEvents :: "string \<Rightarrow> string \<Rightarrow> Event list \<Rightarrow> (string, Event list) result \<times> Event list" where
  "InMemory_ReadEvents tenantID incidentID s =
     (Ok (sort_key (\<lambda>e. (ev_CreatedAt e, ev_ID e, ev_IdempotencyKey e))
        (filter (\<lambda>e. \<not> (ev_TenantID e \<noteq> tenantID \<or> ev_IncidentID e \<noteq> incidentID)) s)), s)"

definition InMemoryEventRepo :: "Event list EventRepo" where
  "InMemoryEventRepo = \<lparr>rp_AppendEvent = InMemory_AppendEvent, rp_ReadEvents = InMemory_ReadEvents\<rparr>"

text \<open>The contract map is keyed by the five parts of \<open>key\<close>, joined by bars. A Go map is read in no fixed
  order: where several versions of a contract match, \<open>ReadContract\<close> returns any of them, and the model the first.\<close>

definition contract_key :: "Contract \<Rightarrow> string" where
  "contract_key c = ct_TenantID c @ ''|'' @ ct_IncidentID c @ ''|'' @ ct_Phase c @ ''|'' @ ct_Type c @ ''|'' @ ct_SchemaVer c"

definition InMemory_WriteContract :: "Contract \<Rightarrow> Contract list \<Rightarrow> (string, int) result \<times> Contract list" where
  "InMemory_WriteContract c s =
    (if ct_TenantID c = [] then (Err ''loop in-memory contract write: tenantID required'', s)
     else (let i = (if ct_ID c = 0 then int (length s) + 1 else ct_ID c);
               cp = c\<lparr>ct_ID := i, ct_StorageBackend := (if ct_StorageBackend c = [] then StorageBackendDB else ct_StorageBackend c)\<rparr>
           in (Ok i, cp # filter (\<lambda>x. contract_key x \<noteq> contract_key c) s)))"

definition InMemory_ReadContract ::
  "string \<Rightarrow> string \<Rightarrow> Phase \<Rightarrow> string \<Rightarrow> Contract list \<Rightarrow> (string, Contract option) result \<times> Contract list" where
  "InMemory_ReadContract tenantID incidentID phase contractType s =
     (Ok (find (\<lambda>c. ct_TenantID c = tenantID \<and> ct_IncidentID c = incidentID \<and> phase = ct_Phase c \<and> contractType = ct_Type c) s), s)"

lemma sorted_fst_of_sort_key:
  "sorted (map (\<lambda>e. (f e, g e)) xs) \<Longrightarrow> sorted (map f xs)" for f :: "'a \<Rightarrow> 'b::linorder" and g :: "'a \<Rightarrow> 'c::linorder"
  by (induction xs) (auto simp: less_eq_prod_def)

interpretation mem: event_log InMemory_AppendEvent InMemory_ReadEvents "\<lambda>s. s" "\<lambda>k. k"
proof unfold_locales
  fix ev s r s' i t evs
  show "InMemory_AppendEvent ev s = (r, s') \<Longrightarrow> mset s \<subseteq># mset s'"
    by (auto simp: InMemory_AppendEvent_def Let_def split: option.splits)
  show "InMemory_AppendEvent ev s = (Ok i, s') \<Longrightarrow> \<exists>row\<in>set s'. ev_IdempotencyKey row = ev_IdempotencyKey ev \<and> ev_ID row = i"
    by (auto simp: InMemory_AppendEvent_def Let_def dest: find_Some_mem split: option.splits)
  show "ev_IdempotencyKey ev \<in> ev_IdempotencyKey ` set s \<Longrightarrow> InMemory_AppendEvent ev s = (r, s') \<Longrightarrow> s' = s"
    by (auto simp: InMemory_AppendEvent_def find_None_iff_all image_iff split: option.splits)
  show "distinct (map ev_IdempotencyKey s) \<Longrightarrow> InMemory_AppendEvent ev s = (r, s') \<Longrightarrow> distinct (map ev_IdempotencyKey s')"
    by (fastforce simp: InMemory_AppendEvent_def Let_def find_None_iff_all split: option.splits)
  show "InMemory_ReadEvents t x s = (Ok evs, s') \<Longrightarrow> s' = s \<and>
      mset evs = mset (filter (\<lambda>e. ev_TenantID e = t \<and> ev_IncidentID e = x) s) \<and> sorted (map ev_CreatedAt evs)" for x
    by (auto simp: InMemory_ReadEvents_def intro: sorted_fst_of_sort_key[OF sorted_sort_key])
qed

lemma InMemory_contract_roundtrip:
  "InMemory_WriteContract c s = (Ok i, s') \<Longrightarrow>
     \<exists>c'. InMemory_ReadContract (ct_TenantID c) (ct_IncidentID c) (ct_Phase c) (ct_Type c) s' = (Ok (Some c'), s') \<and> ct_Payload c' = ct_Payload c"
  by (auto simp: InMemory_WriteContract_def InMemory_ReadContract_def Let_def split: if_splits)

section \<open>The database repositories\<close>

text \<open>
  The two tables, the next identifier of each, and a script of statement failures: before each statement the
  driver may fail with a message. A row's identifier is assigned by the database when it is zero. The unique index on
  \<^verbatim>\<open>idempotency_key\<close> makes an insert of a present key fail with a duplicate-key error.

  The order of rows with equal \<^verbatim>\<open>created_at\<close> is not specified by the query; \<open>tie\<close> stands for the engine's
  choice. \<open>digest\<close> stands for the hexadecimal SHA-256 that replaces a key longer than the column.
\<close>

record loop_db =
  lb_events :: "Event list"
  lb_next_event :: int
  lb_contracts :: "Contract list"
  lb_next_contract :: int
  lb_faults :: "string option list"

definition db_fault :: "loop_db \<Rightarrow> string option \<times> loop_db" where
  "db_fault db = (case lb_faults db of [] \<Rightarrow> (None, db) | f # fs \<Rightarrow> (f, db\<lparr>lb_faults := fs\<rparr>))"

definition IdempotencyKeyMaxLen :: nat where "IdempotencyKeyMaxLen = 64"

datatype gorm_error = ErrDuplicatedKey | DriverMessage string

function indexOf :: "string \<Rightarrow> string \<Rightarrow> nat \<Rightarrow> int" where
  "indexOf s sub i = (if i + length sub \<le> length s then
      (if take (length sub) (drop i s) = sub then int i else indexOf s sub (Suc i)) else -1)"
  by pat_completeness auto
termination by (relation "measure (\<lambda>(s, sub, i). Suc (length s) - i)") auto

declare indexOf.simps [simp del]

definition contains_str :: "string \<Rightarrow> string \<Rightarrow> bool" where
  "contains_str s sub = (length sub = 0 \<or> length s \<ge> length sub \<and> indexOf s sub 0 \<ge> 0)"

fun isDuplicateKey :: "gorm_error \<Rightarrow> bool" where
  "isDuplicateKey ErrDuplicatedKey = True"
| "isDuplicateKey (DriverMessage msg) = (contains_str msg ''Error 1062'' \<or> contains_str msg ''UNIQUE constraint'' \<or> contains_str msg ''duplicate key'')"

definition stored_event_key :: "(string \<Rightarrow> string) \<Rightarrow> string \<Rightarrow> string" where
  "stored_event_key digest k = (if length k > IdempotencyKeyMaxLen then digest k else k)"

definition create_event :: "Event \<Rightarrow> loop_db \<Rightarrow> (gorm_error, int) result \<times> loop_db" where
  "create_event cp db0 = (let (fault, db) = db_fault db0 in case fault of
     Some msg \<Rightarrow> (Err (DriverMessage msg), db)
   | None \<Rightarrow>
      if ev_IdempotencyKey cp \<in> ev_IdempotencyKey ` set (lb_events db) then (Err ErrDuplicatedKey, db)
      else (let i = (if ev_ID cp = 0 then lb_next_event db else ev_ID cp)
            in (Ok i, db\<lparr>lb_events := lb_events db @ [cp\<lparr>ev_ID := i\<rparr>], lb_next_event := max (lb_next_event db) i + 1\<rparr>)))"

definition DB_AppendEvent :: "(string \<Rightarrow> string) \<Rightarrow> Event \<Rightarrow> loop_db \<Rightarrow> (string, int) result \<times> loop_db" where
  "DB_AppendEvent digest ev db =
    (let cp = ev\<lparr>ev_IdempotencyKey := stored_event_key digest (ev_IdempotencyKey ev),
                 ev_Payload := (if TrimSpace (ev_Payload ev) = [] then ''{}'' else ev_Payload ev)\<rparr>
     in case create_event cp db of
       (Ok i, db1) \<Rightarrow> (Ok i, db1)
     | (Err e, db1) \<Rightarrow>
        if \<not> isDuplicateKey e then (Err (''loop event append: '' @ (case e of DriverMessage m \<Rightarrow> m | ErrDuplicatedKey \<Rightarrow> [])), db1)
        else (let (fault, db2) = db_fault db1 in case fault of
             Some msg \<Rightarrow> (Err (''loop event append (dup, lookup): '' @ msg), db2)
           | None \<Rightarrow> (case find (\<lambda>x. ev_IdempotencyKey x = ev_IdempotencyKey cp) (lb_events db2) of
                None \<Rightarrow> (Err ''loop event append (dup, lookup): record not found'', db2)
              | Some existing \<Rightarrow> (Ok (ev_ID existing), db2))))"

definition DB_ReadEvents ::
  "(Event list \<Rightarrow> Event list) \<Rightarrow> string \<Rightarrow> string \<Rightarrow> loop_db \<Rightarrow> (string, Event list) result \<times> loop_db" where
  "DB_ReadEvents tie tenantID incidentID db0 =
    (if tenantID = [] then (Err ''loop event repo: tenantID required'', db0)
     else if incidentID = [] then (Err ''loop event repo: incidentID required'', db0)
     else (let (fault, db) = db_fault db0 in case fault of
        Some msg \<Rightarrow> (Err (''loop event read: '' @ msg), db)
      | None \<Rightarrow> (Ok (sort_key ev_CreatedAt (tie (filter (\<lambda>e. ev_TenantID e = tenantID \<and> ev_IncidentID e = incidentID) (lb_events db)))), db)))"

definition DB_WriteContract :: "Contract \<Rightarrow> loop_db \<Rightarrow> (string, int) result \<times> loop_db" where
  "DB_WriteContract c db0 =
    (if ct_TenantID c = [] then (Err ''loop contract write: tenantID required'', db0)
     else (let cp = c\<lparr>ct_StorageBackend := (if ct_StorageBackend c = [] then StorageBackendDB else ct_StorageBackend c)\<rparr>;
               (fault, db) = db_fault db0
           in case fault of
             Some msg \<Rightarrow> (Err (''loop contract write: '' @ msg), db)
           | None \<Rightarrow> (let i = (if ct_ID cp = 0 then lb_next_contract db else ct_ID cp)
              in (Ok i, db\<lparr>lb_contracts := lb_contracts db @ [cp\<lparr>ct_ID := i\<rparr>], lb_next_contract := max (lb_next_contract db) i + 1\<rparr>))))"

text \<open>\<^verbatim>\<open>Order("created_at DESC").First\<close>: GORM adds the primary key as the last sort key; the newest row wins.\<close>

definition newest_contract :: "Contract list \<Rightarrow> Contract option" where
  "newest_contract cs = (case sort_key (\<lambda>c. (- ct_CreatedAt c, ct_ID c)) cs of [] \<Rightarrow> None | c # _ \<Rightarrow> Some c)"

definition DB_ReadContract ::
  "string \<Rightarrow> string \<Rightarrow> Phase \<Rightarrow> string \<Rightarrow> loop_db \<Rightarrow> (string, Contract option) result \<times> loop_db" where
  "DB_ReadContract tenantID incidentID phase contractType db0 =
    (if tenantID = [] then (Err ''loop contract repo: tenantID required'', db0)
     else if incidentID = [] then (Err ''loop contract repo: incidentID required'', db0)
     else (let (fault, db) = db_fault db0 in case fault of
        Some msg \<Rightarrow> (Err (''loop contract read: '' @ msg), db)
      | None \<Rightarrow> (Ok (newest_contract (filter (\<lambda>c. ct_TenantID c = tenantID \<and> ct_IncidentID c = incidentID \<and>
                    ct_Phase c = phase \<and> ct_Type c = contractType) (lb_contracts db))), db)))"

definition DB_ReadContractByID :: "string \<Rightarrow> int \<Rightarrow> loop_db \<Rightarrow> (string, Contract option) result \<times> loop_db" where
  "DB_ReadContractByID tenantID i db0 =
    (if tenantID = [] then (Err ''loop contract read by id: tenantID required'', db0)
     else if i \<le> 0 then (Err ''loop contract read by id: id must be > 0'', db0)
     else (let (fault, db) = db_fault db0 in case fault of
        Some msg \<Rightarrow> (Err (''loop contract read by id: '' @ msg), db)
      | None \<Rightarrow> (Ok (find (\<lambda>c. ct_ID c = i \<and> ct_TenantID c = tenantID) (lb_contracts db)), db)))"

section \<open>The database log satisfies the interface\<close>

lemma db_fault_keeps: "db_fault db = (f, db') \<Longrightarrow>
    lb_events db' = lb_events db \<and> lb_contracts db' = lb_contracts db \<and> lb_next_event db' = lb_next_event db"
  by (auto simp: db_fault_def split: list.splits)

lemma create_event_ok:
  "create_event cp db = (Ok i, db') \<Longrightarrow> ev_IdempotencyKey cp \<notin> ev_IdempotencyKey ` set (lb_events db) \<and>
     lb_events db' = lb_events db @ [cp\<lparr>ev_ID := i\<rparr>]"
  by (auto simp: create_event_def Let_def dest!: db_fault_keeps split: prod.splits option.splits if_splits)

lemma create_event_err: "create_event cp db = (Err e, db') \<Longrightarrow> lb_events db' = lb_events db"
  by (auto simp: create_event_def Let_def dest!: db_fault_keeps split: prod.splits option.splits if_splits)

text \<open>An append either inserts one new row under the stored key or leaves the table alone.\<close>

lemma DB_AppendEvent_rows:
  assumes "DB_AppendEvent digest ev db = (r, db')"
  obtains (new) row i where "r = Ok i" "ev_ID row = i" "ev_IdempotencyKey row = stored_event_key digest (ev_IdempotencyKey ev)"
      "ev_IdempotencyKey row \<notin> ev_IdempotencyKey ` set (lb_events db)" "lb_events db' = lb_events db @ [row]"
  | (dup) row where "r = Ok (ev_ID row)" "row \<in> set (lb_events db)"
      "ev_IdempotencyKey row = stored_event_key digest (ev_IdempotencyKey ev)" "lb_events db' = lb_events db"
  | (failed) e where "r = Err e" "lb_events db' = lb_events db"
proof -
  define cp where "cp = ev\<lparr>ev_IdempotencyKey := stored_event_key digest (ev_IdempotencyKey ev),
                 ev_Payload := (if TrimSpace (ev_Payload ev) = [] then ''{}'' else ev_Payload ev)\<rparr>"
  have key: "ev_IdempotencyKey cp = stored_event_key digest (ev_IdempotencyKey ev)" by (simp add: cp_def)
  obtain c db1 where c: "create_event cp db = (c, db1)" by (metis surj_pair)
  show thesis
  proof (cases c)
    case (Inr i)
    with assms c have "r = Ok i" "db' = db1" by (auto simp: DB_AppendEvent_def Let_def cp_def)
    with new[of i "cp\<lparr>ev_ID := i\<rparr>"] create_event_ok[of cp db i db1] c Inr key show thesis by simp
  next
    case (Inl e)
    have rows: "lb_events db1 = lb_events db" using create_event_err c Inl by blast
    show thesis
    proof (cases "isDuplicateKey e")
      case False
      with assms c Inl have "\<exists>x. r = Err x" "db' = db1" by (auto simp: DB_AppendEvent_def Let_def cp_def)
      with failed rows show thesis by blast
    next
      case True
      obtain f db2 where f: "db_fault db1 = (f, db2)" by (metis surj_pair)
      have rows2: "lb_events db2 = lb_events db" using db_fault_keeps[OF f] rows by simp
      have res: "(r, db') = (case f of Some msg \<Rightarrow> (Err (''loop event append (dup, lookup): '' @ msg), db2)
           | None \<Rightarrow> (case find (\<lambda>x. ev_IdempotencyKey x = ev_IdempotencyKey cp) (lb_events db2) of
                None \<Rightarrow> (Err ''loop event append (dup, lookup): record not found'', db2)
              | Some existing \<Rightarrow> (Ok (ev_ID existing), db2)))"
        using assms True unfolding DB_AppendEvent_def Let_def cp_def[symmetric] c Inl by (simp add: f)
      show thesis
      proof (cases "f = None \<and> find (\<lambda>x. ev_IdempotencyKey x = ev_IdempotencyKey cp) (lb_events db2) \<noteq> None")
        case True
        then obtain row where "find (\<lambda>x. ev_IdempotencyKey x = ev_IdempotencyKey cp) (lb_events db2) = Some row" "f = None" by auto
        with res find_Some_mem[OF this(1)] dup[of row] rows2 key show thesis by auto
      next
        case False
        with res failed rows2 show thesis by (auto split: option.splits)
      qed
    qed
  qed
qed

locale engine_order =
  fixes digest :: "string \<Rightarrow> string" and tie :: "Event list \<Rightarrow> Event list"
  assumes tie_permutes: "mset (tie evs) = mset evs"

sublocale engine_order \<subseteq> table: event_log "DB_AppendEvent digest" "DB_ReadEvents tie" lb_events "stored_event_key digest"
proof unfold_locales
  fix ev s r s' i t evs
  show "DB_AppendEvent digest ev s = (r, s') \<Longrightarrow> mset (lb_events s) \<subseteq># mset (lb_events s')"
    by (erule DB_AppendEvent_rows) auto
  show "DB_AppendEvent digest ev s = (Ok i, s') \<Longrightarrow>
      \<exists>row\<in>set (lb_events s'). ev_IdempotencyKey row = stored_event_key digest (ev_IdempotencyKey ev) \<and> ev_ID row = i"
    by (erule DB_AppendEvent_rows) auto
  show "stored_event_key digest (ev_IdempotencyKey ev) \<in> ev_IdempotencyKey ` set (lb_events s) \<Longrightarrow>
      DB_AppendEvent digest ev s = (r, s') \<Longrightarrow> lb_events s' = lb_events s"
    by (erule DB_AppendEvent_rows) auto
  show "distinct (map ev_IdempotencyKey (lb_events s)) \<Longrightarrow> DB_AppendEvent digest ev s = (r, s') \<Longrightarrow>
      distinct (map ev_IdempotencyKey (lb_events s'))"
    by (erule DB_AppendEvent_rows) auto
  show "DB_ReadEvents tie t x s = (Ok evs, s') \<Longrightarrow> lb_events s' = lb_events s \<and>
      mset evs = mset (filter (\<lambda>e. ev_TenantID e = t \<and> ev_IncidentID e = x) (lb_events s)) \<and> sorted (map ev_CreatedAt evs)" for x
    by (auto simp: DB_ReadEvents_def tie_permutes dest!: db_fault_keeps split: if_splits prod.splits option.splits)
qed

text \<open>An engine that returns ties in insertion order.\<close>

interpretation inserted: engine_order digest "\<lambda>evs. evs" for digest
  by unfold_locales simp

end
