(* ===== verification/Loop_Orchestrator.thy ===== *)
theory Loop_Orchestrator
  imports Loop_Trace Loop_Repos
begin

text \<open>
  The orchestrator's public operations (\<^verbatim>\<open>internal/manager/biz/loop/orchestrator.go\<close>):
  \<open>NewOrchestrator\<close>, \<open>Run\<close> with its idempotency cache and its advisory lock,
  \<open>orchestrator_Resume\<close> and \<open>State\<close>. The orchestrator's own state is the result cache; the rest of the
  world is the state \<open>'w\<close> of \<open>Loop_Walk\<close>.

  A cached result is a pointer, and \<open>Run\<close> fills in its root cause after storing it: the cache of
  the model holds the result as it is when \<open>Run\<close> returns.
\<close>

section \<open>Construction\<close>

text \<open>\<open>NewOrchestrator\<close> copies six of the seven dependencies; a missing locker is refused.\<close>

definition NewOrchestrator :: "bool \<Rightarrow> 'w OrchestratorDeps \<Rightarrow> (string, 'w OrchestratorDeps) result" where
  "NewOrchestrator lockerNil deps =
    (if lockerNil then Err ''loop: OrchestratorDeps.Locker is required''
     else Ok \<lparr>d_GetLock = d_GetLock deps, d_ReleaseLock = d_ReleaseLock deps,
       d_AdvisoryLockTimeoutSec = (if d_AdvisoryLockTimeoutSec deps = 0 then DefaultAdvisoryLockTimeoutSec else d_AdvisoryLockTimeoutSec deps),
       d_EventRepo = d_EventRepo deps, d_ContractRepo = d_ContractRepo deps, d_WorkerRegistry = d_WorkerRegistry deps,
       d_ChatReportPusher = None\<rparr>)"

section \<open>Results\<close>

record RunResult =
  rr_IncidentID :: string
  rr_FinalPhase :: Phase
  rr_LoopEvents :: "Event list"
  rr_RootCause :: "RootCauseJSON option"
  rr_Verified :: "VerifiedDelta option"
  rr_Postmortem :: "PostmortemDoc option"

record cachedRunResult = cr_result :: RunResult  cr_touchedAt :: instant

type_synonym result_cache = "(string \<times> cachedRunResult) list"

datatype loop_run_error =
    RunNoIncident
  | RunNoTenant
  | LockExec string string
  | LockBusy string int
  | WalkFailed string

section \<open>The advisory lock\<close>

definition lockName :: "string \<Rightarrow> string" where "lockName incidentID = ''loop:'' @ incidentID"

definition acquireLock :: "'w OrchestratorDeps \<Rightarrow> string \<Rightarrow> 'w \<Rightarrow> loop_run_error err \<times> 'w" where
  "acquireLock d incidentID w = (case d_GetLock d (lockName incidentID) (d_AdvisoryLockTimeoutSec d) w of
     (Err e, w1) \<Rightarrow> (Some (LockExec (lockName incidentID) e), w1)
   | (Ok acquired, w1) \<Rightarrow> (if \<not> acquired then (Some (LockBusy incidentID (d_AdvisoryLockTimeoutSec d)), w1) else (None, w1)))"

definition release :: "'w OrchestratorDeps \<Rightarrow> string \<Rightarrow> 'w \<Rightarrow> 'w" where
  "release d incidentID w = snd (d_ReleaseLock d (lockName incidentID) w)"

section \<open>Run\<close>

definition readRootCause :: "'w OrchestratorDeps \<Rightarrow> 'w Env \<Rightarrow> RunOptions \<Rightarrow> 'w \<Rightarrow> RootCauseJSON option \<times> 'w" where
  "readRootCause d env opts w = (case d_ContractRepo d of None \<Rightarrow> (None, w)
   | Some repo \<Rightarrow> (case rp_ReadContract repo (o_TenantID opts) (o_IncidentID opts) PhaseInvestigated ''root_cause_json'' w of
       (Ok (Some c), w1) \<Rightarrow> (case en_UnmarshalRootCause env (ct_Payload c) of
           Err _ \<Rightarrow> (None, w1)
         | Ok rc \<Rightarrow> (if ValidateRootCauseJSON (Some rc) \<noteq> None then None else Some rc, w1))
     | (_, w1) \<Rightarrow> (None, w1)))"

definition startPhase :: "RunOptions \<Rightarrow> Phase" where
  "startPhase opts = (if o_FromPhase opts = [] then
      (if length (o_AlertGroup opts) > 0 \<and> length (entries (o_CorrelationHints opts)) > 0 then PhaseInvestigated else PhaseDetected)
    else o_FromPhase opts)"

text \<open>Everything between acquiring and releasing the lock.\<close>

definition run_locked ::
  "'w OrchestratorDeps \<Rightarrow> 'w Env \<Rightarrow> RunOptions \<Rightarrow> result_cache \<Rightarrow> 'w \<Rightarrow> (loop_run_error, RunResult) result \<times> result_cache \<times> 'w" where
  "run_locked d env opts cache w =
    (let frm = startPhase opts;
         (walked, w1) = (if canWalk d env then (let (evs, fin, e, w') = walkPhases d env opts frm w in ((evs, fin, e), w'))
           else (let (tm, w') = en_Now env w in
             (([\<lparr>ev_ID = 0, ev_IncidentID = o_IncidentID opts, ev_TenantID = o_TenantID opts, ev_EventType = EventTypePhaseEntered,
                 ev_Phase = frm, ev_IdempotencyKey = buildIdempotencyKey (o_IncidentID opts) frm EventTypePhaseEntered 1,
                 ev_Payload = [], ev_TraceID = traceIDFromContext, ev_CreatedAt = tm\<rparr>], frm, None), w')))
     in case walked of
          (_, _, Some e) \<Rightarrow> (Err (WalkFailed e), cache, w1)
        | (evs, fin, None) \<Rightarrow>
            (let (tm, w2) = (if o_IdempotentKey opts \<noteq> [] then en_Now env w1 else (0, w1));
                 (rc, w3) = readRootCause d env opts w2;
                 res = \<lparr>rr_IncidentID = o_IncidentID opts, rr_FinalPhase = fin, rr_LoopEvents = evs, rr_RootCause = rc,
                        rr_Verified = None, rr_Postmortem = None\<rparr>
             in (Ok res, (if o_IdempotentKey opts \<noteq> [] then (o_IdempotentKey opts, \<lparr>cr_result = res, cr_touchedAt = tm\<rparr>) # cache else cache), w3)))"

definition Run ::
  "'w OrchestratorDeps \<Rightarrow> 'w Env \<Rightarrow> RunOptions \<Rightarrow> result_cache \<Rightarrow> 'w \<Rightarrow> (loop_run_error, RunResult) result \<times> result_cache \<times> 'w" where
  "Run d env opts cache w =
    (if o_IncidentID opts = [] then (Err RunNoIncident, cache, w)
     else if o_TenantID opts = [] then (Err RunNoTenant, cache, w)
     else (case (if o_IdempotentKey opts \<noteq> [] then map_of cache (o_IdempotentKey opts) else None) of
         Some cached \<Rightarrow> (Ok (cr_result cached), cache, w)
       | None \<Rightarrow> (case acquireLock d (o_IncidentID opts) w of
           (Some e, w1) \<Rightarrow> (Err e, cache, w1)
         | (None, w1) \<Rightarrow>
             (let (r, cache', w2) = run_locked d env opts cache w1 in (r, cache', release d (o_IncidentID opts) w2)))))"

section \<open>Resume and State\<close>

datatype resume_error = ResumeNoIncident | ResumeNoToken | ResumeLock loop_run_error

definition orchestrator_Resume :: "'w OrchestratorDeps \<Rightarrow> string \<Rightarrow> string \<Rightarrow> 'w \<Rightarrow> resume_error err \<times> 'w" where
  "orchestrator_Resume d incidentID pauseToken w =
    (if incidentID = [] then (Some ResumeNoIncident, w)
     else if pauseToken = [] then (Some ResumeNoToken, w)
     else (case acquireLock d incidentID w of
         (Some e, w1) \<Rightarrow> (Some (ResumeLock e), w1)
       | (None, w1) \<Rightarrow> (None, release d incidentID w1)))"

datatype state_error = StateNoTenant | StateNoIncident | StateRead string | StateRecover recover_error

text \<open>Both results of \<open>State\<close>: it returns a snapshot also with a recovery error.\<close>

definition State :: "'w OrchestratorDeps \<Rightarrow> 'w Env \<Rightarrow> string \<Rightarrow> string \<Rightarrow> 'w \<Rightarrow> (LoopState option \<times> state_error err) \<times> 'w" where
  "State d env tenantID incidentID w =
    (if tenantID = [] then ((None, Some StateNoTenant), w)
     else if incidentID = [] then ((None, Some StateNoIncident), w)
     else (let blank = (\<lambda>tm. \<lparr>ls_IncidentID = incidentID, ls_CurrentPhase = [], ls_LastEventID = 0, ls_RetryCount = 0, ls_UpdatedAt = tm\<rparr>) in
       case d_EventRepo d of
         None \<Rightarrow> (let (tm, w1) = en_Now env w in ((Some (blank tm), None), w1))
       | Some repo \<Rightarrow> (case rp_ReadEvents repo tenantID incidentID w of
           (Err e, w1) \<Rightarrow> ((None, Some (StateRead e)), w1)
         | (Ok events, w1) \<Rightarrow>
            (let (tm, w2) = en_Now env w1 in
             if events = [] then ((Some (blank tm), None), w2)
             else (let state = (blank tm)\<lparr>ls_LastEventID := ev_ID (last events)\<rparr>; reversed = rev events in
               if isTerminalEvent reversed then ((Some (state\<lparr>ls_CurrentPhase := latestEnteredPhase reversed\<rparr>), None), w2)
               else (case recoverFromEvents reversed of
                   (_, Some e) \<Rightarrow> ((Some (state\<lparr>ls_CurrentPhase := latestEnteredPhase reversed\<rparr>), Some (StateRecover e)), w2)
                 | (current, None) \<Rightarrow> ((Some (state\<lparr>ls_CurrentPhase := current\<rparr>), None), w2)))))))"

section \<open>Properties\<close>

text \<open>\<open>Run\<close> works under the incident's lock. Either it changes nothing at all (a refused request or a cached
  result), or its first action is to ask for the lock; when the lock is not obtained nothing else happens and the
  caller gets an error, and when it is obtained the last action of \<open>Run\<close> is to release it, on success and on a
  failed walk alike.\<close>

theorem run_under_lock:
  "case Run d env opts cache w of (r, cache', w') \<Rightarrow>
     (cache', w') = (cache, w) \<or>
     (\<exists>e. acquireLock d (o_IncidentID opts) w = (Some e, w') \<and> r = Err e \<and> cache' = cache) \<or>
     (\<exists>w1 w2. acquireLock d (o_IncidentID opts) w = (None, w1) \<and> run_locked d env opts cache w1 = (r, cache', w2) \<and>
        w' = release d (o_IncidentID opts) w2)"
  by (auto simp: Run_def split: prod.splits option.splits)

text \<open>A repeated request is answered from the cache: after a successful \<open>Run\<close> with an idempotency key, a
  \<open>Run\<close> with the same key returns the same result and touches nothing. The key alone identifies the request, so this
  holds for every other tenant and incident as well.\<close>

theorem run_cached_by_key_alone:
  assumes "Run d env opts cache w = (Ok res, cache', w')" and "o_IdempotentKey opts \<noteq> []"
    and "o_IdempotentKey opts' = o_IdempotentKey opts" and "o_IncidentID opts' \<noteq> []" and "o_TenantID opts' \<noteq> []"
  shows "Run d env opts' cache' w' = (Ok res, cache', w')"
proof -
  have "\<exists>c. map_of cache' (o_IdempotentKey opts) = Some c \<and> cr_result c = res"
    using assms(1,2) by (auto simp: Run_def run_locked_def Let_def split: prod.splits option.splits if_splits)
  with assms(2-) show ?thesis by (auto simp: Run_def)
qed

theorem run_cached_by_key_alone_witness:
  "\<exists>res cache' w'.
     Run (log_deps\<lparr>d_EventRepo := None\<rparr>) log_env ((run_opts [])\<lparr>o_IdempotentKey := ''k''\<rparr>) [] [] = (Ok res, cache', w') \<and>
     Run (log_deps\<lparr>d_EventRepo := None\<rparr>) log_env ((run_opts [])\<lparr>o_IdempotentKey := ''k'', o_TenantID := ''t2'', o_IncidentID := ''i2''\<rparr>) cache' w' =
       (Ok res, cache', w') \<and> rr_IncidentID res = ''i1''"
proof -
  let ?d = "log_deps\<lparr>d_EventRepo := None\<rparr>" and ?o = "(run_opts [])\<lparr>o_IdempotentKey := ''k''\<rparr>"
  obtain res cache' w' where r: "Run ?d log_env ?o [] [] = (Ok res, cache', w')" "rr_IncidentID res = ''i1''"
    by (simp add: Run_def run_locked_def canWalk_def acquireLock_def release_def readRootCause_def Let_def log_deps_def log_env_def run_opts_def)
  from run_cached_by_key_alone[OF r(1), of "(run_opts [])\<lparr>o_IdempotentKey := ''k'', o_TenantID := ''t2'', o_IncidentID := ''i2''\<rparr>"] r
  show ?thesis by (simp add: run_opts_def)
qed

text \<open>C39. Crash recovery agrees with the walk. Take a walk and one of its phase entries other than its first event, and
  suppose the last event that the repository returns for the incident is the one the walk emitted just before that
  entry: the process stopped in between. Then \<open>State\<close> reports the phase about to be entered, whatever older
  events the log holds or lost. (A crash before anything was recorded gives an empty log, for which \<open>State\<close> reports
  no phase.)\<close>

theorem state_after_crash:
  assumes "walkPhases d env opts frm w = (evs, fin, e, w')" and "0 < k" and "k < length evs"
    and "ev_EventType (evs ! k) = EventTypePhaseEntered"
    and "d_EventRepo d' = Some repo" and "rp_ReadEvents repo (o_TenantID opts) (o_IncidentID opts) v = (Ok (older @ [x]), v')"
    and "ev_EventType x = ev_EventType (evs ! (k - 1))" "ev_Phase x = ev_Phase (evs ! (k - 1))"
    and "o_TenantID opts \<noteq> []" "o_IncidentID opts \<noteq> []"
  shows "\<exists>st v''. State d' env' (o_TenantID opts) (o_IncidentID opts) v = ((Some st, None), v'') \<and>
    ls_IncidentID st = o_IncidentID opts \<and> ls_CurrentPhase st = ev_Phase (evs ! k) \<and> ls_LastEventID st = ev_ID x"
  using walk_recovers[OF assms(1-4,7,8), of "rev older"] assms(5,6,9,10)
  by (simp add: State_def Let_def split: prod.splits)

theorem state_after_crash_witness:
  "\<exists>evs fin e w' st. walkPhases log_deps log_env (run_opts PhaseRecovered) PhaseApproved [] = (evs, fin, e, w') \<and>
     2 < length evs \<and> ev_EventType (evs ! 2) = EventTypePhaseEntered \<and>
     State log_deps log_env ''t1'' ''i1'' (take 2 evs) = ((Some st, None), take 2 evs) \<and>
     ls_CurrentPhase st = ev_Phase (evs ! 2) \<and> ev_Phase (evs ! 2) = PhaseRecovered"
proof -
  obtain w' where w: "walkPhases log_deps log_env (run_opts PhaseRecovered) PhaseApproved [] =
     ([log_event 0 PhaseApproved EventTypePhaseEntered 1, log_event 1 PhaseApproved EventPhaseContractWritten 1,
       log_event 2 PhaseRecovered EventTypePhaseEntered 2, log_event 3 PhaseRecovered EventPhaseContractWritten 2],
      PhaseRecovered, None, w')" using log_walk by blast
  let ?w = "[log_event 0 PhaseApproved EventTypePhaseEntered 1] @ [log_event 1 PhaseApproved EventPhaseContractWritten 1]"
  have o: "o_TenantID (run_opts PhaseRecovered) = ''t1''" "o_IncidentID (run_opts PhaseRecovered) = ''i1''" by (simp_all add: run_opts_def)
  have r: "d_EventRepo log_deps = Some (the (d_EventRepo log_deps))"
    "rp_ReadEvents (the (d_EventRepo log_deps)) (o_TenantID (run_opts PhaseRecovered)) (o_IncidentID (run_opts PhaseRecovered)) ?w = (Ok ?w, ?w)"
    by (simp_all add: log_deps_def)
  have same: "snd (State log_deps log_env ''t1'' ''i1'' ?w) = ?w"
    by (simp add: State_def log_deps_def log_env_def Let_def split: prod.splits option.splits)
  from state_after_crash[OF w _ _ _ r, of 2 log_env] o obtain st v where
    "State log_deps log_env ''t1'' ''i1'' ?w = ((Some st, None), v)" "ls_CurrentPhase st = PhaseRecovered"
    by (auto simp: log_event_def)
  with same w show ?thesis by (auto simp: log_event_def numeral_2_eq_2)
qed

text \<open>Two tenants share the key space of the event log: once an event of an incident is recorded for one tenant,
  the same phase, event type and attempt of a run of another tenant on an incident of that name is absorbed by the
  uniqueness constraint. The append reports no failure of its own making, and the second tenant's log stays as
  it was.\<close>

theorem event_absorbed_across_tenants:
  assumes "d_EventRepo d = Some \<lparr>rp_AppendEvent = DB_AppendEvent digest, rp_ReadEvents = rd\<rparr>" and "\<forall>db. snd (en_Now env db) = db"
    and "appendEventStrict d env opts p ty n pl db = ((ev, None), db1)" and "o_IncidentID opts' = o_IncidentID opts"
    and "appendEventStrict d env opts' p ty n pl' db1 = ((ev', err), db2)"
  shows "lb_events db2 = lb_events db1"
proof -
  obtain tm where t: "en_Now env db = (tm, db)" using assms(2) by (metis prod.collapse)
  obtain tm' where t': "en_Now env db1 = (tm', db1)" using assms(2) by (metis prod.collapse)
  define row where "row = (\<lambda>(o' :: RunOptions) (pl :: anymap) (tm :: instant). \<lparr>ev_ID = 0, ev_IncidentID = o_IncidentID o', ev_TenantID = o_TenantID o', ev_EventType = ty,
       ev_Phase = p, ev_IdempotencyKey = buildIdempotencyKey (o_IncidentID o') p ty n,
       ev_Payload = (case pl of None \<Rightarrow> [] | Some kvs \<Rightarrow> (case en_Marshal env (JObj kvs) of Ok raw \<Rightarrow> raw
           | Err e \<Rightarrow> ''{\"marshal_error\":'' @ en_Quote env e @ ''}'')), ev_TraceID = traceIDFromContext, ev_CreatedAt = tm\<rparr>)"
  have "\<exists>i. DB_AppendEvent digest (row opts pl tm) db = (Ok i, db1)"
    using assms(1,3) t by (auto simp: appendEventStrict_def Let_def row_def split: prod.splits sum.splits)
  moreover have "\<exists>r. DB_AppendEvent digest (row opts' pl' tm') db1 = (r, db2)"
    using assms(1,5) t' by (auto simp: appendEventStrict_def Let_def row_def split: prod.splits sum.splits)
  moreover have "ev_IdempotencyKey (row opts' pl' tm') = ev_IdempotencyKey (row opts pl tm)" using assms(4) by (simp add: row_def)
  ultimately show ?thesis using inserted.table.second_writer_absorbed by blast
qed

definition db_deps :: "loop_db OrchestratorDeps" where
  "db_deps = \<lparr>d_GetLock = (\<lambda>_ _ w. (Ok True, w)), d_ReleaseLock = (\<lambda>_ w. (None, w)), d_AdvisoryLockTimeoutSec = 5,
     d_EventRepo = Some \<lparr>rp_AppendEvent = DB_AppendEvent (\<lambda>k. k), rp_ReadEvents = DB_ReadEvents (\<lambda>evs. evs)\<rparr>,
     d_ContractRepo = None, d_WorkerRegistry = None, d_ChatReportPusher = None\<rparr>"

definition db_env :: "loop_db Env" where
  "db_env = \<lparr>en_DefaultPhaseWorkerRegistry = [], en_Now = (\<lambda>w. (7, w)), en_Marshal = (\<lambda>_. Ok ''{}''),
     en_Quote = (\<lambda>s. s), en_UnmarshalRootCause = (\<lambda>_. Err []), en_UnmarshalPostmortem = (\<lambda>_. Err [])\<rparr>"

definition empty_loop_db :: loop_db where
  "empty_loop_db = \<lparr>lb_events = [], lb_next_event = 1, lb_contracts = [], lb_next_contract = 1, lb_faults = []\<rparr>"

theorem event_absorbed_across_tenants_witness:
  "\<exists>ev db1 ev' db2.
     appendEventStrict db_deps db_env (run_opts []) PhaseDetected EventTypePhaseEntered 1 None empty_loop_db = ((ev, None), db1) \<and>
     appendEventStrict db_deps db_env ((run_opts [])\<lparr>o_TenantID := ''t2''\<rparr>) PhaseDetected EventTypePhaseEntered 1 None db1 = ((ev', None), db2) \<and>
     lb_events db2 = lb_events db1 \<and> length (lb_events db1) = 1 \<and> DB_ReadEvents (\<lambda>evs. evs) ''t2'' ''i1'' db2 = (Ok [], db2)"
proof -
  let ?o = "run_opts []" and ?o' = "(run_opts [])\<lparr>o_TenantID := ''t2''\<rparr>"
  define k where "k = stored_event_key (\<lambda>k. k) (buildIdempotencyKey ''i1'' PhaseDetected EventTypePhaseEntered 1)"
  define row where "row = \<lparr>ev_ID = 1, ev_IncidentID = ''i1'', ev_TenantID = ''t1'', ev_EventType = EventTypePhaseEntered, ev_Phase = PhaseDetected,
     ev_IdempotencyKey = k, ev_Payload = ''{}'', ev_TraceID = [], ev_CreatedAt = 7\<rparr>"
  let ?db1 = "empty_loop_db\<lparr>lb_events := [row], lb_next_event := 2\<rparr>"
  have trim: "TrimSpace [] = []" by code_simp
  note defs = appendEventStrict_def db_deps_def db_env_def run_opts_def DB_AppendEvent_def create_event_def db_fault_def traceIDFromContext_def
  obtain ev where a: "appendEventStrict db_deps db_env ?o PhaseDetected EventTypePhaseEntered 1 None empty_loop_db = ((ev, None), ?db1)"
    by (simp add: defs empty_loop_db_def k_def row_def trim Let_def)
  obtain ev' where b: "appendEventStrict db_deps db_env ?o' PhaseDetected EventTypePhaseEntered 1 None ?db1 = ((ev', None), ?db1)"
    by (simp add: defs empty_loop_db_def k_def row_def trim Let_def)
  have "lb_events ?db1 = lb_events ?db1"
    by (rule event_absorbed_across_tenants[OF _ _ a _ b]) (simp_all add: db_deps_def db_env_def run_opts_def)
  moreover have "DB_ReadEvents (\<lambda>evs. evs) ''t2'' ''i1'' ?db1 = (Ok [], ?db1)"
    by (simp add: DB_ReadEvents_def db_fault_def empty_loop_db_def row_def)
  ultimately show ?thesis using a b by auto
qed

end
