(* ===== verification/Flow_Graph.thy ===== *)
theory Flow_Graph
  imports Go_Json "HOL-Library.AList"
begin

text \<open>
  The workflow canvas (\<^verbatim>\<open>internal/manager/biz/flow/graph.go\<close>) and the node-type registry it is
  validated against (\<^verbatim>\<open>noderegistry.go\<close>): graphs, \<open>Validate\<close> with its Kahn cycle check,
  triggers and control edges. The presentation fields of a node type (labels, form fields, output
  shape) are left out. The cycle check ranges over a Go map to fill its queue; the model takes the nodes
  in document order, and \<open>kahn_acyclic\<close> shows that the verdict does not depend on it.
\<close>

section \<open>Node types\<close>

definition NodeTriggerManual :: string where "NodeTriggerManual = ''trigger.manual''"
definition NodeTriggerAlert :: string where "NodeTriggerAlert = ''trigger.alert_fired''"
definition NodeTriggerCron :: string where "NodeTriggerCron = ''trigger.cron''"
definition NodeAgent :: string where "NodeAgent = ''agent''"
definition NodeLLM :: string where "NodeLLM = ''llm''"
definition NodeTool :: string where "NodeTool = ''tool''"
definition NodeCondition :: string where "NodeCondition = ''condition''"
definition NodeNotify :: string where "NodeNotify = ''notify''"
definition NodeSet :: string where "NodeSet = ''set''"
definition NodeTransform :: string where "NodeTransform = ''transform''"
definition NodeHTTP :: string where "NodeHTTP = ''http_request''"

lemmas node_type_defs = NodeTriggerManual_def NodeTriggerAlert_def NodeTriggerCron_def NodeAgent_def NodeLLM_def NodeTool_def
  NodeCondition_def NodeNotify_def NodeSet_def NodeTransform_def NodeHTTP_def

definition PortNext :: string where "PortNext = ''next''"
definition PortTrue :: string where "PortTrue = ''true''"
definition PortFalse :: string where "PortFalse = ''false''"
definition PortError :: string where "PortError = ''error''"

lemmas port_defs = PortNext_def PortTrue_def PortFalse_def PortError_def

datatype NodeKind = KindTrigger | KindAction | KindControl | KindData

text \<open>\<open>'x\<close> is the type of executors.\<close>

record 'x NodeSpec =
  ns_Type :: string
  ns_Kind :: NodeKind
  ns_Ports :: "string list"
  ns_Execute :: "'x option"

type_synonym 'x node_registry = "(string \<times> 'x NodeSpec) list"

definition RegisterNode :: "'x NodeSpec \<Rightarrow> 'x node_registry \<Rightarrow> 'x node_registry" where
  "RegisterNode s reg = (if ns_Type s = [] then reg
     else AList.update (ns_Type s) (s\<lparr>ns_Ports := (if ns_Ports s = [] then [PortNext] else ns_Ports s)\<rparr>) reg)"

definition LookupNode :: "'x node_registry \<Rightarrow> string \<Rightarrow> 'x NodeSpec option" where
  "LookupNode reg t = map_of reg t"

section \<open>Graphs\<close>

record Position = po_X :: gofloat  po_Y :: gofloat

record GraphNode =
  gn_ID :: string
  gn_Type :: string
  gn_Name :: string
  gn_Config :: string
  gn_Position :: "Position option"

record GraphEdge =
  ge_ID :: string
  ge_Source :: string
  ge_SourcePort :: string
  ge_Target :: string

record Graph = g_Nodes :: "GraphNode list"  g_Edges :: "GraphEdge list"

text \<open>The pattern \<^verbatim>\<open>^[a-zA-Z0-9_-]{1,64}$\<close>.\<close>

definition node_id_char :: "char \<Rightarrow> bool" where
  "node_id_char c = (let n = (of_char c :: nat) in
     97 \<le> n \<and> n \<le> 122 \<or> 65 \<le> n \<and> n \<le> 90 \<or> 48 \<le> n \<and> n \<le> 57 \<or> c = CHR ''_'' \<or> c = CHR ''-'')"

definition nodeIDRe :: "string \<Rightarrow> bool" where
  "nodeIDRe s = (1 \<le> length s \<and> length s \<le> 64 \<and> list_all node_id_char s)"

definition portsFor :: "'x node_registry \<Rightarrow> string \<Rightarrow> string list" where
  "portsFor reg typ = (case LookupNode reg typ of Some spec \<Rightarrow> ns_Ports spec | None \<Rightarrow> [PortNext])"

definition isTriggerType :: "'x node_registry \<Rightarrow> string \<Rightarrow> bool" where
  "isTriggerType reg typ = (case LookupNode reg typ of Some spec \<Rightarrow> ns_Kind spec = KindTrigger | None \<Rightarrow> False)"

definition edge_port :: "GraphEdge \<Rightarrow> string" where
  "edge_port e = (if ge_SourcePort e = [] then PortNext else ge_SourcePort e)"

definition Triggers :: "'x node_registry \<Rightarrow> Graph \<Rightarrow> GraphNode list" where
  "Triggers reg g = filter (\<lambda>n. isTriggerType reg (gn_Type n)) (g_Nodes g)"

definition EdgesFrom :: "Graph \<Rightarrow> string \<Rightarrow> string \<Rightarrow> string list" where
  "EdgesFrom g i port = map ge_Target (filter (\<lambda>e. ge_Source e = i \<and> edge_port e = port) (g_Edges g))"

section \<open>Validation\<close>

datatype graph_error =
    BadNodeID string
  | DuplicateNodeID string
  | UnknownNodeType string string
  | MissingSource string string
  | MissingTarget string string
  | EdgeIntoTrigger string string
  | IllegalPort string string string string
  | CycleDetected
  | GraphDecode string

text \<open>The loop over the nodes; \<open>seen\<close> are the identifiers already in \<open>byID\<close>.\<close>

fun check_nodes :: "'x node_registry \<Rightarrow> string list \<Rightarrow> GraphNode list \<Rightarrow> graph_error err" where
  "check_nodes reg seen [] = None"
| "check_nodes reg seen (n # ns) =
    (if \<not> nodeIDRe (gn_ID n) then Some (BadNodeID (gn_ID n))
     else if gn_ID n \<in> set seen then Some (DuplicateNodeID (gn_ID n))
     else if LookupNode reg (gn_Type n) = None then Some (UnknownNodeType (gn_Type n) (gn_ID n))
     else check_nodes reg (gn_ID n # seen) ns)"

definition byID :: "Graph \<Rightarrow> string \<Rightarrow> GraphNode option" where
  "byID g = map_of (map (\<lambda>n. (gn_ID n, n)) (g_Nodes g))"

definition check_edge :: "'x node_registry \<Rightarrow> Graph \<Rightarrow> GraphEdge \<Rightarrow> graph_error err" where
  "check_edge reg g e = (case byID g (ge_Source e) of
     None \<Rightarrow> Some (MissingSource (ge_ID e) (ge_Source e))
   | Some src \<Rightarrow> (case byID g (ge_Target e) of
       None \<Rightarrow> Some (MissingTarget (ge_ID e) (ge_Target e))
     | Some tgt \<Rightarrow>
         if isTriggerType reg (gn_Type tgt) then Some (EdgeIntoTrigger (ge_ID e) (ge_Target e))
         else if edge_port e \<noteq> PortError \<and> \<not> list_ex (\<lambda>p. p = edge_port e) (portsFor reg (gn_Type src))
         then Some (IllegalPort (ge_ID e) (edge_port e) (gn_Type src) (ge_Source e))
         else None))"

fun check_edges :: "'x node_registry \<Rightarrow> Graph \<Rightarrow> GraphEdge list \<Rightarrow> graph_error err" where
  "check_edges reg g [] = None"
| "check_edges reg g (e # es) = (case check_edge reg g e of Some err \<Rightarrow> Some err | None \<Rightarrow> check_edges reg g es)"

text \<open>The maps \<open>adj\<close> and \<open>indeg\<close> that the edge loop builds. A missing entry of \<open>indeg\<close> reads as zero.\<close>

definition adj :: "Graph \<Rightarrow> string \<Rightarrow> string list" where
  "adj g i = map ge_Target (filter (\<lambda>e. ge_Source e = i) (g_Edges g))"

definition deg :: "(string \<times> int) list \<Rightarrow> string \<Rightarrow> int" where
  "deg indeg t = (case map_of indeg t of None \<Rightarrow> 0 | Some d \<Rightarrow> d)"

fun count_in :: "GraphEdge list \<Rightarrow> (string \<times> int) list \<Rightarrow> (string \<times> int) list" where
  "count_in [] m = m"
| "count_in (e # es) m = count_in es (AList.update (ge_Target e) (deg m (ge_Target e) + 1) m)"

text \<open>The inner loop of the cycle check: one decrement per edge out of the dequeued node.\<close>

fun relax :: "string list \<Rightarrow> (string \<times> int) list \<Rightarrow> string list \<Rightarrow> (string \<times> int) list \<times> string list" where
  "relax [] m q = (m, q)"
| "relax (t # ts) m q =
    (let d = deg m t - 1; m' = AList.update t d m in relax ts m' (if d = 0 then q @ [t] else q))"

text \<open>Entries still positive bound how often the queue can be refilled.\<close>

definition positives :: "(string \<times> int) list \<Rightarrow> nat" where
  "positives m = length (filter (\<lambda>kd. snd kd > 0) m)"

lemma positives_decrement: "positives (AList.update t (deg m t - 1) m) + (if deg m t - 1 = 0 then 1 else 0) \<le> positives m"
  by (induction m) (auto simp: positives_def deg_def)

lemma relax_measure: "relax ts m q = (m', q') \<Longrightarrow> length q' + positives m' \<le> length q + positives m"
proof (induction ts arbitrary: m q)
  case (Cons t ts)
  define m1 where "m1 = AList.update t (deg m t - 1) m"
  define q1 where "q1 = (if deg m t - 1 = 0 then q @ [t] else q)"
  from Cons.prems have "relax ts m1 q1 = (m', q')" by (simp add: Let_def m1_def q1_def)
  from Cons.IH[OF this] have "length q' + positives m' \<le> length q1 + positives m1" .
  moreover have "length q1 + positives m1 \<le> length q + positives m"
    using positives_decrement[of t m] by (auto simp: m1_def q1_def split: if_splits)
  ultimately show ?case by simp
qed simp

function kahn :: "Graph \<Rightarrow> (string \<times> int) list \<Rightarrow> string list \<Rightarrow> nat \<Rightarrow> nat" where
  "kahn g m [] seen = seen"
| "kahn g m (i # q) seen = (case relax (adj g i) m q of (m', q') \<Rightarrow> kahn g m' q' (seen + 1))"
  by pat_completeness auto
termination
  by (relation "measure (\<lambda>(g, m, q, seen). length q + positives m)") (auto dest!: relax_measure[OF sym])

definition Validate_graph :: "'x node_registry \<Rightarrow> Graph \<Rightarrow> graph_error err" where
  "Validate_graph reg g = (case check_nodes reg [] (g_Nodes g) of
     Some e \<Rightarrow> Some e
   | None \<Rightarrow> (case check_edges reg g (g_Edges g) of
       Some e \<Rightarrow> Some e
     | None \<Rightarrow>
         (let m = count_in (g_Edges g) [] in
          if kahn g m (filter (\<lambda>i. deg m i = 0) (map gn_ID (g_Nodes g))) 0 \<noteq> length (g_Nodes g) then Some CycleDetected
          else None)))"

text \<open>\<open>decode\<close> is \<^verbatim>\<open>json.Unmarshal\<close> into a graph.\<close>

definition ParseGraph :: "'x node_registry \<Rightarrow> (string \<Rightarrow> (string, Graph) result) \<Rightarrow> string \<Rightarrow> (graph_error, Graph) result" where
  "ParseGraph reg decode raw =
    (if TrimSpace raw = [] \<or> TrimSpace raw = ''{}'' then Ok \<lparr>g_Nodes = [], g_Edges = []\<rparr>
     else (case decode raw of
         Err e \<Rightarrow> Err (GraphDecode e)
       | Ok g \<Rightarrow> (case Validate_graph reg g of Some e \<Rightarrow> Err e | None \<Rightarrow> Ok g)))"

section \<open>Correctness of the cycle check\<close>

definition edge_rel :: "Graph \<Rightarrow> (string \<times> string) set" where
  "edge_rel g = (\<lambda>e. (ge_Source e, ge_Target e)) ` set (g_Edges g)"

text \<open>The edges into \<open>t\<close> whose source has not been dequeued.\<close>

abbreviation waiting :: "Graph \<Rightarrow> string set \<Rightarrow> string \<Rightarrow> int" where
  "waiting g done t \<equiv> int (length (filter (\<lambda>e. ge_Target e = t \<and> ge_Source e \<notin> done) (g_Edges g)))"

lemma deg_update [simp]: "deg (AList.update k d m) t = (if t = k then d else deg m t)"
  by (simp add: deg_def update_conv')

lemma deg_count_in: "deg (count_in es m) t = deg m t + int (length (filter (\<lambda>e. ge_Target e = t) es))"
  by (induction es arbitrary: m) auto

lemma relax_spec:
  "\<forall>t. int (count_list ts t) \<le> deg m t \<Longrightarrow> relax ts m q = (m', q') \<Longrightarrow>
     (\<forall>t. deg m' t = deg m t - int (count_list ts t)) \<and>
     (\<exists>new. q' = q @ new \<and> distinct new \<and> set new = {t \<in> set ts. deg m t = int (count_list ts t)})"
proof (induction ts arbitrary: m q)
  case (Cons t ts)
  define m1 where "m1 = AList.update t (deg m t - 1) m"
  define q1 where "q1 = (if deg m t - 1 = 0 then q @ [t] else q)"
  from Cons.prems(2) have r: "relax ts m1 q1 = (m', q')" by (simp add: Let_def m1_def q1_def)
  have d1: "deg m1 u = (if u = t then deg m t - 1 else deg m u)" for u by (simp add: m1_def)
  have le: "\<forall>u. int (count_list ts u) \<le> deg m1 u" using Cons.prems(1) by (auto simp: d1 split: if_splits dest: spec)
  from Cons.IH[OF le r] obtain new where new: "\<forall>u. deg m' u = deg m1 u - int (count_list ts u)"
    "q' = q1 @ new" "distinct new" "set new = {u \<in> set ts. deg m1 u = int (count_list ts u)}" by blast
  have degs: "\<forall>u. deg m' u = deg m u - int (count_list (t # ts) u)" using new(1) by (auto simp: d1)
  show ?case
  proof (cases "deg m t = 1")
    case True
    then have "count_list ts t = 0" using Cons.prems(1)[rule_format, of t] by simp
    then have nt: "t \<notin> set ts" by (simp add: count_list_0_iff)
    have "set (t # new) = {u \<in> set (t # ts). deg m u = int (count_list (t # ts) u)}"
      using new(4) True nt by (auto simp: d1 count_list_0_iff)
    moreover have "q' = q @ (t # new)" "distinct (t # new)" using new nt True by (auto simp: q1_def)
    ultimately show ?thesis using degs by blast
  next
    case False
    then have "set new = {u \<in> set (t # ts). deg m u = int (count_list (t # ts) u)}"
      using new(4) Cons.prems(1)[rule_format, of t] by (auto simp: d1 count_list_0_iff)
    moreover have "q' = q @ new" using new False by (simp add: q1_def)
    ultimately show ?thesis using degs new(3) by blast
  qed
qed simp

text \<open>The invariant of the loop: what is dequeued or queued is exactly what has no waiting edge, and its
  predecessors were dequeued before it.\<close>

definition kahn_inv :: "Graph \<Rightarrow> string list \<Rightarrow> string list \<Rightarrow> (string \<times> int) list \<Rightarrow> bool" where
  "kahn_inv g ps q m \<longleftrightarrow> distinct (ps @ q) \<and> (\<forall>t. deg m t = waiting g (set ps) t) \<and>
     set (ps @ q) = {t \<in> gn_ID ` set (g_Nodes g). waiting g (set ps) t = 0} \<and>
     (\<forall>i < length ps. \<forall>s. (s, ps ! i) \<in> edge_rel g \<longrightarrow> s \<in> set (take i ps))"

lemma waiting_zero: "waiting g D t = 0 \<longleftrightarrow> (\<forall>s. (s, t) \<in> edge_rel g \<longrightarrow> s \<in> D)"
  by (auto simp: edge_rel_def filter_empty_conv)

lemma waiting_insert: "i \<notin> D \<Longrightarrow> waiting g (insert i D) t = waiting g D t - int (count_list (adj g i) t)"
proof -
  assume i: "i \<notin> D"
  have "length (filter (\<lambda>e. ge_Target e = t \<and> ge_Source e \<notin> D) es) =
      length (filter (\<lambda>e. ge_Target e = t \<and> ge_Source e \<notin> insert i D) es) +
      count_list (map ge_Target (filter (\<lambda>e. ge_Source e = i) es)) t" for es
    using i by (induction es) auto
  from this[of "g_Edges g"] show ?thesis by (simp add: adj_def)
qed

lemma kahn_inv_step:
  assumes inv: "kahn_inv g ps (i # q) m" and r: "relax (adj g i) m q = (m', q')" and ends: "edge_rel g \<subseteq> UNIV \<times> (gn_ID ` set (g_Nodes g))"
  shows "kahn_inv g (ps @ [i]) q' m'"
proof -
  have i: "i \<notin> set ps" and dist: "distinct (ps @ i # q)" and degs: "\<forall>t. deg m t = waiting g (set ps) t"
    and ready: "set (ps @ i # q) = {t \<in> gn_ID ` set (g_Nodes g). waiting g (set ps) t = 0}"
    and order: "\<forall>k < length ps. \<forall>s. (s, ps ! k) \<in> edge_rel g \<longrightarrow> s \<in> set (take k ps)"
    using inv by (auto simp: kahn_inv_def)
  have ins: "waiting g (set (ps @ [i])) t = waiting g (set ps) t - int (count_list (adj g i) t)" for t
    using waiting_insert[OF i, where g = g and t = t] by simp
  have "int (count_list (adj g i) t) \<le> deg m t" for t
    using ins[of t] spec[OF degs, of t] by linarith
  then have "\<forall>t. int (count_list (adj g i) t) \<le> deg m t" by blast
  from relax_spec[OF this r] obtain new where new: "\<forall>t. deg m' t = deg m t - int (count_list (adj g i) t)"
    "q' = q @ new" "distinct new" "set new = {t \<in> set (adj g i). deg m t = int (count_list (adj g i) t)}" by blast
  have degs': "\<forall>t. deg m' t = waiting g (set (ps @ [i])) t" using new(1) degs ins by simp
  have tgt: "t \<in> gn_ID ` set (g_Nodes g)" if "t \<in> set (adj g i)" for t
    using that ends by (auto simp: adj_def edge_rel_def)
  have fresh: "t \<notin> set (ps @ i # q)" if "t \<in> set new" for t
  proof -
    from that new(4) have "t \<in> set (adj g i)" "deg m t = int (count_list (adj g i) t)" by auto
    then have "deg m t \<noteq> 0" by (simp add: count_list_0_iff)
    with degs ready show ?thesis by auto
  qed
  have zero: "waiting g (set (ps @ [i])) t = 0 \<longleftrightarrow> waiting g (set ps) t = 0 \<or> t \<in> set new" for t
  proof -
    have "t \<notin> set (adj g i) \<Longrightarrow> count_list (adj g i) t = 0" by (simp add: count_list_0_iff)
    moreover have "waiting g (set ps) t = 0 \<Longrightarrow> count_list (adj g i) t = 0"
      using ins[of t] by linarith
    ultimately show ?thesis using ins[of t] new(4) degs by auto
  qed
  have "set ((ps @ [i]) @ q') = {t \<in> gn_ID ` set (g_Nodes g). waiting g (set (ps @ [i])) t = 0}"
    using ready new(2,4) tgt unfolding zero by auto
  moreover have "distinct ((ps @ [i]) @ q')" using dist new(2,3) fresh by auto
  moreover have "(s, i) \<in> edge_rel g \<longrightarrow> s \<in> set ps" for s
    using ready waiting_zero[where g = g and D = "set ps" and t = i] by auto
  then have "\<forall>k < length (ps @ [i]). \<forall>s. (s, (ps @ [i]) ! k) \<in> edge_rel g \<longrightarrow> s \<in> set (take k (ps @ [i]))"
    using order by (auto simp: nth_append less_Suc_eq)
  ultimately show ?thesis using degs' by (simp add: kahn_inv_def)
qed

lemma kahn_runs:
  "kahn_inv g ps q m \<Longrightarrow> seen = length ps \<Longrightarrow> edge_rel g \<subseteq> UNIV \<times> (gn_ID ` set (g_Nodes g)) \<Longrightarrow>
     \<exists>ps' m'. kahn g m q seen = length ps' \<and> kahn_inv g ps' [] m'"
proof (induction g m q seen arbitrary: ps rule: kahn.induct)
  case (2 g m i q seen)
  obtain m' q' where r: "relax (adj g i) m q = (m', q')" by (metis surj_pair)
  have "kahn_inv g (ps @ [i]) q' m'" using kahn_inv_step[OF 2(2) r 2(4)] .
  with 2(1)[OF r[symmetric] this] 2(3,4) r show ?case by simp
qed auto

lemma kahn_inv_start:
  assumes "distinct (map gn_ID (g_Nodes g))" and "m = count_in (g_Edges g) []"
  shows "kahn_inv g [] (filter (\<lambda>i. deg m i = 0) (map gn_ID (g_Nodes g))) m"
proof -
  have "deg m t = waiting g {} t" for t by (simp add: assms(2) deg_count_in) (simp add: deg_def)
  then show ?thesis using assms(1) by (auto simp: kahn_inv_def)
qed

lemma takeWhile_nth: "distinct xs \<Longrightarrow> i < length xs \<Longrightarrow> length (takeWhile (\<lambda>y. y \<noteq> xs ! i) xs) = i"
proof (induction xs arbitrary: i)
  case (Cons x xs)
  then show ?case by (cases i) (auto simp: nth_Cons')
qed simp

text \<open>The loop dequeues every node exactly when the edges have no cycle.\<close>

lemma kahn_acyclic:
  assumes inv: "kahn_inv g ps [] m" and dist: "distinct (map gn_ID (g_Nodes g))"
    and ends: "edge_rel g \<subseteq> (gn_ID ` set (g_Nodes g)) \<times> (gn_ID ` set (g_Nodes g))"
  shows "length ps = length (g_Nodes g) \<longleftrightarrow> acyclic (edge_rel g)"
proof -
  let ?N = "gn_ID ` set (g_Nodes g)"
  have ps: "distinct ps" "set ps = {t \<in> ?N. waiting g (set ps) t = 0}"
    and order: "\<forall>i < length ps. \<forall>s. (s, ps ! i) \<in> edge_rel g \<longrightarrow> s \<in> set (take i ps)" using inv by (auto simp: kahn_inv_def)
  have card: "card ?N = length (g_Nodes g)" using dist by (metis distinct_card length_map set_map)
  have "length ps = length (g_Nodes g) \<longleftrightarrow> set ps = ?N"
    using ps card by (metis (no_types, lifting) List.finite_set card_subset_eq distinct_card finite_imageI mem_Collect_eq subsetI)
  also have "set ps = ?N \<longleftrightarrow> acyclic (edge_rel g)"
  proof
    assume all: "set ps = ?N"
    define pos where "pos = (\<lambda>x. length (takeWhile (\<lambda>y. y \<noteq> x) ps))"
    have "pos s < pos t" if "(s, t) \<in> edge_rel g" for s t
    proof -
      from that ends all obtain i where i: "i < length ps" "ps ! i = t" by (metis SigmaD2 in_set_conv_nth subsetD)
      with order that have "s \<in> set (take i ps)" by blast
      then obtain k where "k < i" "ps ! k = s" using i(1) by (auto simp: in_set_conv_nth)
      with i ps(1) takeWhile_nth[of ps] show ?thesis by (auto simp: pos_def)
    qed
    then have "acyclic ((edge_rel g)\<inverse>)" by (intro acyclicI_order[where f = pos]) auto
    then show "acyclic (edge_rel g)" by (simp add: acyclic_converse)
  next
    assume "acyclic (edge_rel g)"
    then have wf: "wf (edge_rel g)" by (intro finite_acyclic_wf) (simp_all add: edge_rel_def)
    show "set ps = ?N"
    proof (rule ccontr)
      assume "set ps \<noteq> ?N"
      then obtain x where "x \<in> ?N - set ps" using ps(2) by blast
      from wfE_min[OF wf this] obtain z where z: "z \<in> ?N - set ps" "\<And>y. (y, z) \<in> edge_rel g \<Longrightarrow> y \<notin> ?N - set ps" by blast
      then have "waiting g (set ps) z \<noteq> 0" using ps(2) by blast
      then obtain s where "(s, z) \<in> edge_rel g" "s \<notin> set ps" unfolding waiting_zero by blast
      with z(2) ends show False by blast
    qed
  qed
  finally show ?thesis .
qed

section \<open>What a valid graph is\<close>

lemma check_nodes_None: "check_nodes reg seen ns = None \<longleftrightarrow>
    (\<forall>n\<in>set ns. nodeIDRe (gn_ID n) \<and> LookupNode reg (gn_Type n) \<noteq> None) \<and> distinct (map gn_ID ns) \<and> gn_ID ` set ns \<inter> set seen = {}"
  by (induction ns arbitrary: seen) auto

lemma check_edges_None: "check_edges reg g es = None \<longleftrightarrow> (\<forall>e\<in>set es. check_edge reg g e = None)"
  by (induction es) (auto split: option.splits)

lemma byID_dom: "byID g i \<noteq> None \<longleftrightarrow> i \<in> gn_ID ` set (g_Nodes g)"
  by (simp add: byID_def map_of_eq_None_iff image_image)

definition legal_edge :: "'x node_registry \<Rightarrow> Graph \<Rightarrow> GraphEdge \<Rightarrow> bool" where
  "legal_edge reg g e = (case (byID g (ge_Source e), byID g (ge_Target e)) of
     (Some src, Some tgt) \<Rightarrow> \<not> isTriggerType reg (gn_Type tgt) \<and> (edge_port e = PortError \<or> edge_port e \<in> set (portsFor reg (gn_Type src)))
   | _ \<Rightarrow> False)"

lemma check_edge_None: "check_edge reg g e = None \<longleftrightarrow> legal_edge reg g e"
  by (auto simp: check_edge_def legal_edge_def list_ex_iff split: option.splits)

text \<open>C15. A canvas document is accepted exactly when its node identifiers are well formed and unique, every node type
  is registered, every edge joins existing nodes through a port its source exposes and enters no trigger, and
  the control edges have no cycle.\<close>

theorem graph_validate_iff:
  "Validate_graph reg g = None \<longleftrightarrow>
     distinct (map gn_ID (g_Nodes g)) \<and>
     set (g_Nodes g) \<subseteq> {n. nodeIDRe (gn_ID n) \<and> LookupNode reg (gn_Type n) \<noteq> None} \<and>
     set (g_Edges g) \<subseteq> {e. legal_edge reg g e} \<and> acyclic (edge_rel g)"
proof (cases "check_nodes reg [] (g_Nodes g) = None \<and> check_edges reg g (g_Edges g) = None")
  case False
  then have "Validate_graph reg g \<noteq> None" by (auto simp: Validate_graph_def split: option.splits)
  moreover have "\<not> (distinct (map gn_ID (g_Nodes g)) \<and>
     set (g_Nodes g) \<subseteq> {n. nodeIDRe (gn_ID n) \<and> LookupNode reg (gn_Type n) \<noteq> None} \<and> set (g_Edges g) \<subseteq> {e. legal_edge reg g e})"
    using False unfolding check_nodes_None check_edges_None check_edge_None by auto
  ultimately show ?thesis by blast
next
  case True
  define m where "m = count_in (g_Edges g) []"
  have dist: "distinct (map gn_ID (g_Nodes g))" using True by (simp add: check_nodes_None)
  have legal: "legal_edge reg g e" if "e \<in> set (g_Edges g)" for e
    using True that by (simp add: check_edges_None check_edge_None)
  have ends: "edge_rel g \<subseteq> (gn_ID ` set (g_Nodes g)) \<times> (gn_ID ` set (g_Nodes g))"
  proof
    fix st assume "st \<in> edge_rel g"
    then obtain e where e: "e \<in> set (g_Edges g)" "st = (ge_Source e, ge_Target e)" by (auto simp: edge_rel_def)
    with legal[OF e(1)] byID_dom[of g "ge_Source e"] byID_dom[of g "ge_Target e"]
    show "st \<in> (gn_ID ` set (g_Nodes g)) \<times> (gn_ID ` set (g_Nodes g))"
      by (auto simp: legal_edge_def split: option.splits)
  qed
  then have ends': "edge_rel g \<subseteq> UNIV \<times> (gn_ID ` set (g_Nodes g))" by auto
  from kahn_runs[OF kahn_inv_start[OF dist m_def] _ ends'] obtain ps m' where
    k: "kahn g m (filter (\<lambda>i. deg m i = 0) (map gn_ID (g_Nodes g))) 0 = length ps" "kahn_inv g ps [] m'" by auto
  have "Validate_graph reg g = None \<longleftrightarrow> length ps = length (g_Nodes g)"
    using True k(1) by (simp add: Validate_graph_def Let_def m_def)
  also have "\<dots> \<longleftrightarrow> acyclic (edge_rel g)" by (rule kahn_acyclic[OF k(2) dist ends])
  finally show ?thesis using True legal unfolding check_nodes_None by auto
qed

end
