(* ===== verification/Flow_Expr.thy ===== *)
theory Flow_Expr
  imports Go_Json "HOL-Library.AList"
begin

text \<open>
  Templates and conditions of the workflow engine (\<^verbatim>\<open>internal/manager/biz/flow/expr.go\<close>):
  substitution of \<^verbatim>\<open>{{path}}\<close>, path lookup in the run context, and the one-comparison condition
  language. The float syntax of \<^verbatim>\<open>strconv\<close> and the JSON encoding of nested values are the fields of
  \<open>flow_lib\<close>, arguments of everything that uses them. Where Go ranges over a map to resolve its
  fields, the model goes in list order: only which of several errors is reported depends on it.
\<close>

section \<open>The run context\<close>

record flow_lib =
  lb_ParseFloat :: "string \<Rightarrow> gofloat option"
  lb_FormatFloat :: "gofloat \<Rightarrow> string"
  lb_Marshal :: "json \<Rightarrow> (string, string) result"

record RunContext =
  rc_Trigger :: anymap
  rc_Nodes :: "(string \<times> json) list"
  rc_Vars :: "(string \<times> json) list"

datatype expr_error =
    NodeRefShape string
  | NoOutputYet string
  | UnknownRoot string
  | NotAnObject string string
  | FieldMissing string string
  | NotAnArray string nat
  | IndexRange string nat nat
  | CannotCompare string

section \<open>Path segments\<close>

definition expr_digit :: "char \<Rightarrow> bool" where
  "expr_digit c = (48 \<le> (of_char c :: nat) \<and> (of_char c :: nat) \<le> 57)"

text \<open>\<^verbatim>\<open>strconv.Atoi\<close> on digits: the largest \<^verbatim>\<open>int\<close> when out of range (the error is ignored).\<close>

definition atoi :: "string \<Rightarrow> nat" where
  "atoi ds = min (foldl (\<lambda>n c. 10 * n + (of_char c - 48)) 0 ds) (2 ^ 63 - 1)"

text \<open>All matches of \<^verbatim>\<open>\[(\d+)\]\<close>.\<close>

function seg_idxs :: "string \<Rightarrow> nat list" where
  "seg_idxs [] = []"
| "seg_idxs (c # cs) =
    (let ds = takeWhile expr_digit cs; rest = dropWhile expr_digit cs in
     if c = CHR ''['' \<and> ds \<noteq> [] \<and> rest \<noteq> [] \<and> hd rest = CHR '']'' then atoi ds # seg_idxs (tl rest)
     else seg_idxs cs)"
  by pat_completeness auto
termination
  by (relation "measure length") (auto simp: less_Suc_eq_le intro: le_trans[OF diff_le_self length_dropWhile_le])

definition splitSegment :: "string \<Rightarrow> string \<times> nat list" where
  "splitSegment seg = (takeWhile (\<lambda>c. c \<noteq> CHR ''['') seg, seg_idxs seg)"

fun walk_idxs :: "string \<Rightarrow> nat list \<Rightarrow> json \<Rightarrow> (expr_error, json) result" where
  "walk_idxs path [] cur = Ok cur"
| "walk_idxs path (i # is) cur = (case cur of
     JArr arr \<Rightarrow> (if i \<ge> length arr then Err (IndexRange path i (length arr)) else walk_idxs path is (arr ! i))
   | _ \<Rightarrow> Err (NotAnArray path i))"

fun walk_segments :: "string \<Rightarrow> string list \<Rightarrow> json \<Rightarrow> (expr_error, json) result" where
  "walk_segments path [] cur = Ok cur"
| "walk_segments path (p # ps) cur =
    (let (key, idxs) = splitSegment p;
         stepped = (if key = [] then Ok cur
           else (case cur of
               JObj m \<Rightarrow> (case map_of m key of None \<Rightarrow> Err (FieldMissing path key) | Some v \<Rightarrow> Ok v)
             | _ \<Rightarrow> Err (NotAnObject path key)))
     in case stepped of
          Err e \<Rightarrow> Err e
        | Ok v \<Rightarrow> (case walk_idxs path idxs v of Err e \<Rightarrow> Err e | Ok v' \<Rightarrow> walk_segments path ps v'))"

definition lookup :: "RunContext \<Rightarrow> string \<Rightarrow> (expr_error, json) result" where
  "lookup c path =
    (let parts = SplitByte CHR ''.'' path in
     if hd parts = ''trigger'' then walk_segments path (tl parts) (JObj (entries (rc_Trigger c)))
     else if hd parts = ''nodes'' then
       (if length parts < 3 \<or> parts ! 2 \<noteq> ''output'' then Err (NodeRefShape path)
        else (case map_of (rc_Nodes c) (parts ! 1) of
            None \<Rightarrow> Err (NoOutputYet (parts ! 1))
          | Some v \<Rightarrow> walk_segments path (drop 3 parts) v))
     else if hd parts = ''vars'' then walk_segments path (tl parts) (JObj (rc_Vars c))
     else Err (UnknownRoot (hd parts)))"

section \<open>Templates\<close>

definition brace :: "char \<Rightarrow> bool" where
  "brace c = (c = CHR ''{'' \<or> c = CHR ''}'')"

text \<open>
  A match of \<^verbatim>\<open>\{\{\s*([^{}]+?)\s*\}\}\<close> at the head of a string: two opening braces, a
  non-empty run without braces, two closing braces. The captured group is the run up to white space
  at its ends, which the caller trims.
\<close>

definition tmpl_at :: "string \<Rightarrow> (string \<times> string) option" where
  "tmpl_at s =
    (if \<not> prefix ''{{'' s then None
     else (let r = takeWhile (\<lambda>c. \<not> brace c) (drop 2 s); rest = dropWhile (\<lambda>c. \<not> brace c) (drop 2 s) in
       if r \<noteq> [] \<and> prefix ''}}'' rest then Some (r, drop 2 rest) else None))"

lemma prefixD: "prefix p s \<Longrightarrow> s = p @ drop (length p) s"
  by (auto elim: prefixE)

lemma tmpl_at_Some:
  assumes "tmpl_at s = Some (r, rest)"
  shows "s = ''{{'' @ r @ ''}}'' @ rest" "r \<noteq> []" "\<forall>c\<in>set r. \<not> brace c"
proof -
  let ?P = "\<lambda>c. \<not> brace c"
  from assms have p: "prefix ''{{'' s" and r: "r = takeWhile ?P (drop 2 s)" "r \<noteq> []"
    and q: "prefix ''}}'' (dropWhile ?P (drop 2 s))" and rest: "rest = drop 2 (dropWhile ?P (drop 2 s))"
    unfolding tmpl_at_def Let_def by (simp_all split: if_splits)
  have s2: "s = ''{{'' @ drop 2 s" using prefixD[OF p] by (simp add: numeral_2_eq_2)
  have "dropWhile ?P (drop 2 s) = ''}}'' @ rest" using prefixD[OF q] rest by (simp add: numeral_2_eq_2)
  then have "drop 2 s = r @ ''}}'' @ rest" using takeWhile_dropWhile_id[of ?P "drop 2 s"] r by simp
  with s2 show "s = ''{{'' @ r @ ''}}'' @ rest" by simp
  show "r \<noteq> []" by (rule r)
  show "\<forall>c\<in>set r. \<not> brace c" using r(1) by (auto dest: set_takeWhileD)
qed

text \<open>All matches of a string, leftmost first: the text before each, the run, and the tail.\<close>

function tmpl_split :: "string \<Rightarrow> (string \<times> string) list \<times> string" where
  "tmpl_split s = (case tmpl_at s of
     Some (r, rest) \<Rightarrow> (let (ps, tail) = tmpl_split rest in (([], r) # ps, tail))
   | None \<Rightarrow> (case s of [] \<Rightarrow> ([], [])
      | c # cs \<Rightarrow> (case tmpl_split cs of
          ([], tail) \<Rightarrow> ([], c # tail)
        | ((l, r) # ps, tail) \<Rightarrow> ((c # l, r) # ps, tail))))"
  by pat_completeness auto
termination by (relation "measure length") (auto dest: tmpl_at_Some(1))

declare tmpl_split.simps [simp del]

text \<open>\<^verbatim>\<open>fmt\<close>-like rendering of a value inside text.\<close>

fun stringify :: "flow_lib \<Rightarrow> json \<Rightarrow> string" where
  "stringify lib JNull = []"
| "stringify lib (JStr s) = s"
| "stringify lib (JNum f) = lb_FormatFloat lib f"
| "stringify lib (JBool b) = (if b then ''true'' else ''false'')"
| "stringify lib v = (case lb_Marshal lib v of Ok b \<Rightarrow> b | Err _ \<Rightarrow> [])"

fun render :: "flow_lib \<Rightarrow> RunContext \<Rightarrow> (string \<times> string) list \<Rightarrow> string \<Rightarrow> (expr_error, string) result" where
  "render lib c [] tail = Ok tail"
| "render lib c ((l, r) # ps) tail = (case lookup c (TrimSpace r) of
     Err e \<Rightarrow> Err e
   | Ok v \<Rightarrow> (case render lib c ps tail of Err e \<Rightarrow> Err e | Ok out \<Rightarrow> Ok (l @ stringify lib v @ out)))"

definition ResolveString :: "flow_lib \<Rightarrow> RunContext \<Rightarrow> string \<Rightarrow> (expr_error, json) result" where
  "ResolveString lib c s = (case tmpl_split s of
     ([], _) \<Rightarrow> Ok (JStr s)
   | (ps, tail) \<Rightarrow>
       if length ps = 1 \<and> fst (hd ps) = [] \<and> tail = [] then lookup c (TrimSpace (snd (hd ps)))
       else (case render lib c ps tail of Err e \<Rightarrow> Err e | Ok out \<Rightarrow> Ok (JStr out)))"

fun ResolveValue :: "flow_lib \<Rightarrow> RunContext \<Rightarrow> json \<Rightarrow> (expr_error, json) result"
  and resolve_fields :: "flow_lib \<Rightarrow> RunContext \<Rightarrow> (string \<times> json) list \<Rightarrow> (expr_error, (string \<times> json) list) result"
  and resolve_items :: "flow_lib \<Rightarrow> RunContext \<Rightarrow> json list \<Rightarrow> (expr_error, json list) result" where
  "ResolveValue lib c (JStr s) = ResolveString lib c s"
| "ResolveValue lib c (JObj m) = (case resolve_fields lib c m of Err e \<Rightarrow> Err e | Ok m' \<Rightarrow> Ok (JObj m'))"
| "ResolveValue lib c (JArr xs) = (case resolve_items lib c xs of Err e \<Rightarrow> Err e | Ok xs' \<Rightarrow> Ok (JArr xs'))"
| "ResolveValue lib c v = Ok v"
| "resolve_fields lib c [] = Ok []"
| "resolve_fields lib c ((k, v) # m) = (case ResolveValue lib c v of
     Err e \<Rightarrow> Err e
   | Ok v' \<Rightarrow> (case resolve_fields lib c m of Err e \<Rightarrow> Err e | Ok m' \<Rightarrow> Ok ((k, v') # m')))"
| "resolve_items lib c [] = Ok []"
| "resolve_items lib c (x # xs) = (case ResolveValue lib c x of
     Err e \<Rightarrow> Err e
   | Ok x' \<Rightarrow> (case resolve_items lib c xs of Err e \<Rightarrow> Err e | Ok xs' \<Rightarrow> Ok (x' # xs')))"

section \<open>Conditions\<close>

text \<open>The scan of \<open>findOperatorIndex\<close> from offset \<open>i\<close>: the open quote, the brace depth, the rest.\<close>

function find_op :: "string \<Rightarrow> char option \<Rightarrow> nat \<Rightarrow> nat \<Rightarrow> string \<Rightarrow> nat option" where
  "find_op op quote braces i [] = None"
| "find_op op (Some qc) braces i (ch # cs) = find_op op (if ch = qc then None else Some qc) braces (Suc i) cs"
| "find_op op None braces i (ch # cs) =
    (if ch = DQUOTE \<or> ch = SQUOTE then find_op op (Some ch) braces (Suc i) cs
     else if ch = CHR ''{'' \<and> cs \<noteq> [] \<and> hd cs = CHR ''{'' then find_op op None (Suc braces) (i + 2) (tl cs)
     else if ch = CHR ''}'' \<and> cs \<noteq> [] \<and> hd cs = CHR ''}'' then find_op op None (braces - 1) (i + 2) (tl cs)
     else if braces = 0 \<and> prefix op (ch # cs) then Some i
     else find_op op None braces (Suc i) cs)"
  by pat_completeness auto
termination by (relation "measure (\<lambda>(_, _, _, _, cs). length cs)") auto

definition findOperatorIndex :: "string \<Rightarrow> string \<Rightarrow> nat option" where
  "findOperatorIndex expr op = find_op op None 0 0 expr"

definition evalOperand :: "flow_lib \<Rightarrow> RunContext \<Rightarrow> string \<Rightarrow> (expr_error, json) result" where
  "evalOperand lib c s =
    (if length s \<ge> 2 \<and> (hd s = DQUOTE \<or> hd s = SQUOTE) \<and> last s = hd s then Ok (JStr (butlast (tl s)))
     else (case lb_ParseFloat lib s of
         Some f \<Rightarrow> Ok (JNum f)
       | None \<Rightarrow> if s = ''true'' then Ok (JBool True) else if s = ''false'' then Ok (JBool False) else ResolveString lib c s))"

fun toFloat :: "flow_lib \<Rightarrow> json \<Rightarrow> gofloat option" where
  "toFloat lib (JNum f) = Some f"
| "toFloat lib (JInt n) = Some (Fin (of_int n))"
| "toFloat lib (JStr s) = lb_ParseFloat lib s"
| "toFloat lib (JBool b) = Some (Fin (if b then 1 else 0))"
| "toFloat lib _ = None"

definition num_compare :: "string \<Rightarrow> gofloat \<Rightarrow> gofloat \<Rightarrow> bool option" where
  "num_compare op x y =
    (if op = ''=='' then Some (flt_eq x y)
     else if op = ''!='' then Some (\<not> flt_eq x y)
     else if op = ''>'' then Some (flt_less y x)
     else if op = ''>='' then Some (flt_less y x \<or> flt_eq x y)
     else if op = ''<'' then Some (flt_less x y)
     else if op = ''<='' then Some (flt_less x y \<or> flt_eq x y)
     else None)"

definition compare_vals :: "flow_lib \<Rightarrow> json \<Rightarrow> json \<Rightarrow> string \<Rightarrow> (expr_error, bool) result" where
  "compare_vals lib l r op =
    (if op = ''contains'' then Ok (Contains (stringify lib l) (stringify lib r))
     else (case (case (toFloat lib l, toFloat lib r) of (Some x, Some y) \<Rightarrow> num_compare op x y | _ \<Rightarrow> None) of
         Some b \<Rightarrow> Ok b
       | None \<Rightarrow>
           if op = ''=='' then Ok (stringify lib l = stringify lib r)
           else if op = ''!='' then Ok (stringify lib l \<noteq> stringify lib r)
           else Err (CannotCompare op)))"

fun truthy :: "json \<Rightarrow> bool" where
  "truthy JNull = False"
| "truthy (JBool b) = b"
| "truthy (JStr s) = (s \<noteq> [] \<and> s \<noteq> ''false'' \<and> s \<noteq> ''0'')"
| "truthy (JNum f) = (\<not> flt_eq f (Fin 0))"
| "truthy _ = True"

definition cond_ops :: "string list" where
  "cond_ops = [''=='', ''!='', ''>='', ''<='', ''>'', ''<'', '' contains '']"

fun eval_ops :: "flow_lib \<Rightarrow> RunContext \<Rightarrow> string \<Rightarrow> string list \<Rightarrow> (expr_error, bool) result" where
  "eval_ops lib c expr [] = (case evalOperand lib c (TrimSpace expr) of Err e \<Rightarrow> Err e | Ok v \<Rightarrow> Ok (truthy v))"
| "eval_ops lib c expr (op # ops) = (case findOperatorIndex expr op of
     None \<Rightarrow> eval_ops lib c expr ops
   | Some i \<Rightarrow> (case evalOperand lib c (TrimSpace (take i expr)) of
       Err e \<Rightarrow> Err e
     | Ok l \<Rightarrow> (case evalOperand lib c (TrimSpace (drop (i + length op) expr)) of
         Err e \<Rightarrow> Err e
       | Ok r \<Rightarrow> compare_vals lib l r (TrimSpace op))))"

definition EvalCondition :: "flow_lib \<Rightarrow> RunContext \<Rightarrow> string \<Rightarrow> (expr_error, bool) result" where
  "EvalCondition lib c expr = eval_ops lib c expr cond_ops"

section \<open>Facts on templates\<close>

abbreviation unbraced :: "string \<Rightarrow> bool" where
  "unbraced s \<equiv> \<forall>c\<in>set s. \<not> brace c"

definition tmpl_join :: "(string \<times> string) list \<Rightarrow> string \<Rightarrow> string" where
  "tmpl_join ps tail = concat (map (\<lambda>(l, r). l @ ''{{'' @ r @ ''}}'') ps) @ tail"

lemma tmpl_join_simps [simp]:
  "tmpl_join [] tail = tail"
  "tmpl_join ((l, r) # ps) tail = l @ ''{{'' @ r @ ''}}'' @ tmpl_join ps tail"
  by (simp_all add: tmpl_join_def)

lemma tmpl_at_brace: "\<not> brace c \<Longrightarrow> tmpl_at (c # s) = None"
  by (auto simp: tmpl_at_def brace_def)

lemma tmpl_at_Nil [simp]: "tmpl_at [] = None"
  by (simp add: tmpl_at_def)

lemma takeWhile_run [simp]: "unbraced r \<Longrightarrow> takeWhile (\<lambda>c. \<not> brace c) (r @ CHR ''}'' # s) = r"
  by (induction r) (simp_all add: brace_def)

lemma dropWhile_run [simp]: "unbraced r \<Longrightarrow> dropWhile (\<lambda>c. \<not> brace c) (r @ CHR ''}'' # s) = CHR ''}'' # s"
  by (induction r) (simp_all add: brace_def)

lemma tmpl_at_block [simp]: "unbraced r \<Longrightarrow> r \<noteq> [] \<Longrightarrow> tmpl_at (CHR ''{'' # CHR ''{'' # r @ CHR ''}'' # CHR ''}'' # rest) = Some (r, rest)"
  unfolding tmpl_at_def Let_def by (simp add: brace_def[of "CHR ''}''"])

lemma tmpl_split_block [simp]:
  "unbraced r \<Longrightarrow> r \<noteq> [] \<Longrightarrow> tmpl_split (CHR ''{'' # CHR ''{'' # r @ CHR ''}'' # CHR ''}'' # rest) = (let (ps, tail) = tmpl_split rest in (([], r) # ps, tail))"
  by (subst tmpl_split.simps) simp

lemma tmpl_split_unbraced [simp]: "unbraced s \<Longrightarrow> tmpl_split s = ([], s)"
  by (induction s; subst tmpl_split.simps) (simp_all add: tmpl_at_brace)

lemma tmpl_split_text:
  "unbraced l \<Longrightarrow> tmpl_split s = (([], r) # ps, tail) \<Longrightarrow> tmpl_split (l @ s) = ((l, r) # ps, tail)"
  by (induction l) (simp, subst tmpl_split.simps, simp add: tmpl_at_brace)

definition well_pieced :: "(string \<times> string) list \<Rightarrow> string \<Rightarrow> bool" where
  "well_pieced ps tail = ((\<forall>(l, r)\<in>set ps. unbraced l \<and> unbraced r \<and> r \<noteq> []) \<and> unbraced tail)"

lemma tmpl_split_join: "well_pieced ps tail \<Longrightarrow> tmpl_split (tmpl_join ps tail) = (ps, tail)"
proof (induction ps)
  case Nil
  then show ?case by (simp add: well_pieced_def)
next
  case (Cons p ps)
  obtain l r where p: "p = (l, r)" by force
  from Cons.prems p have h: "unbraced l" "unbraced r" "r \<noteq> []" "well_pieced ps tail" by (auto simp: well_pieced_def)
  have "tmpl_split (''{{'' @ r @ ''}}'' @ tmpl_join ps tail) = (([], r) # ps, tail)"
    using Cons.IH[OF h(4)] h by simp
  then show ?case using tmpl_split_text[OF h(1)] p by simp
qed

text \<open>Every string is the concatenation of its pieces.\<close>

lemma tmpl_split_concat: "tmpl_split s = (ps, tail) \<Longrightarrow> tmpl_join ps tail = s"
proof (induction s arbitrary: ps tail rule: tmpl_split.induct)
  case (1 s)
  show ?case
  proof (cases "tmpl_at s")
    case (Some q)
    obtain r rest where q: "q = (r, rest)" by force
    obtain ps' tail' where t: "tmpl_split rest = (ps', tail')" by force
    from 1(3) Some q t have "ps = ([], r) # ps'" "tail = tail'" by (subst (asm) tmpl_split.simps, simp)+
    with 1(2)[OF Some q[symmetric] t] tmpl_at_Some(1) Some q show ?thesis by simp
  next
    case None
    show ?thesis
    proof (cases s)
      case Nil
      with 1(3) None show ?thesis by (subst (asm) tmpl_split.simps) simp
    next
      case (Cons c cs)
      obtain ps' tail' where t: "tmpl_split cs = (ps', tail')" by force
      from 1(1)[OF None Cons t] have "tmpl_join ps' tail' = cs" .
      with 1(3) None Cons t show ?thesis
        by (subst (asm) tmpl_split.simps) (auto split: list.splits)
    qed
  qed
qed

lemma render_vals:
  "list_all2 (\<lambda>(l, r) v. lookup c (TrimSpace r) = Ok v) ps vs \<Longrightarrow>
    render lib c ps tail = Ok (concat (map2 (\<lambda>(l, r) v. l @ stringify lib v) ps vs) @ tail)"
  by (induction ps vs rule: list_all2_induct) auto

lemma ResolveString_mixed:
  "tmpl_split s = (ps, tail) \<Longrightarrow> ps \<noteq> [] \<Longrightarrow> \<not> (length ps = 1 \<and> fst (hd ps) = [] \<and> tail = []) \<Longrightarrow>
    ResolveString lib c s = (case render lib c ps tail of Err e \<Rightarrow> Err e | Ok out \<Rightarrow> Ok (JStr out))"
  by (auto simp: ResolveString_def split: list.splits)

lemma ResolveString_whole:
  "unbraced r \<Longrightarrow> r \<noteq> [] \<Longrightarrow> ResolveString lib c (''{{'' @ r @ ''}}'') = lookup c (TrimSpace r)"
  by (simp add: ResolveString_def)

lemma ResolveString_plain [simp]: "unbraced s \<Longrightarrow> ResolveString lib c s = Ok (JStr s)"
  by (simp add: ResolveString_def)

text \<open>
  Substitution is one pass. For a text whose literal parts and paths hold no brace, every
  template is replaced by its value rendered as text and nothing else changes; braces inside the
  substituted values are not expanded again. A template that is the whole string gives the value
  itself, not its rendering.
\<close>

theorem resolve_string_single_pass:
  assumes "well_pieced ps tail" and "list_all2 (\<lambda>(l, r) v. lookup c (TrimSpace r) = Ok v) ps vs"
  shows "ResolveString lib c (tmpl_join ps tail) =
    (if length ps = 1 \<and> fst (hd ps) = [] \<and> tail = [] then Ok (hd vs)
     else Ok (JStr (concat (map2 (\<lambda>(l, r) v. l @ stringify lib v) ps vs) @ tail)))"
proof -
  have sp: "tmpl_split (tmpl_join ps tail) = (ps, tail)" by (rule tmpl_split_join[OF assms(1)])
  consider "ps = []" | r where "ps = [([], r)]" "tail = []"
    | "ps \<noteq> []" "\<not> (length ps = 1 \<and> fst (hd ps) = [] \<and> tail = [])"
    by (cases ps; cases "tl ps") fastforce+
  then show ?thesis
  proof cases
    case 1
    with assms sp show ?thesis by (simp add: ResolveString_def)
  next
    case 2
    with assms(2) obtain v where "vs = [v]" "lookup c (TrimSpace r) = Ok v" by (auto simp: list_all2_Cons1)
    with 2 sp show ?thesis by (simp add: ResolveString_def)
  next
    case 3
    with ResolveString_mixed[OF sp 3] render_vals[OF assms(2)] show ?thesis by auto
  qed
qed

theorem resolve_string_single_pass_witness:
  "\<forall>lib. ResolveString lib \<lparr>rc_Trigger = Some [(''a'', JStr ''{{x}}'')], rc_Nodes = [], rc_Vars = []\<rparr> ''v={{trigger.a}}!''
    = Ok (JStr ''v={{x}}!'')"
proof
  fix lib :: flow_lib
  let ?c = "\<lparr>rc_Trigger = Some [(''a'', JStr ''{{x}}'')], rc_Nodes = [], rc_Vars = []\<rparr> :: RunContext"
  have "well_pieced [(''v='', ''trigger.a'')] ''!''" by code_simp
  moreover have "lookup ?c (TrimSpace ''trigger.a'') = Ok (JStr ''{{x}}'')" by code_simp
  ultimately show "ResolveString lib ?c ''v={{trigger.a}}!'' = Ok (JStr ''v={{x}}!'')"
    using resolve_string_single_pass[of "[(''v='', ''trigger.a'')]" "''!''" ?c "[JStr ''{{x}}'']" lib] by simp
qed

section \<open>Facts on conditions\<close>

lemma find_op_quoted: "qc \<notin> set s \<Longrightarrow> find_op op (Some qc) b i (s @ qc # rest) = find_op op None b (i + length s + 1) rest"
  by (induction s arbitrary: i) auto

lemma find_op_inside:
  "unbraced p \<Longrightarrow> DQUOTE \<notin> set p \<Longrightarrow> SQUOTE \<notin> set p \<Longrightarrow>
    find_op op None (Suc b) i (p @ CHR ''}'' # CHR ''}'' # rest) = find_op op None b (i + length p + 2) rest"
  by (induction p arbitrary: i) (auto simp: brace_def)

lemma find_op_block:
  "unbraced p \<Longrightarrow> DQUOTE \<notin> set p \<Longrightarrow> SQUOTE \<notin> set p \<Longrightarrow>
    find_op op None 0 i (CHR ''{'' # CHR ''{'' # p @ CHR ''}'' # CHR ''}'' # rest) = find_op op None 0 (i + length p + 4) rest"
  using find_op_inside[of p op 0 "i + 2" rest] by (simp add: eval_nat_numeral)

lemma find_op_literal: "DQUOTE \<notin> set lit \<Longrightarrow> find_op op (Some DQUOTE) 0 i (lit @ [DQUOTE]) = None"
  using find_op_quoted[of DQUOTE lit op 0 i "[]"] by simp

lemma space_edges [simp]: "\<not> space_edge DQUOTE" "\<not> space_edge (CHR ''{'')" "\<not> space_edge (CHR ''}'')"
  by (simp_all add: space_edge_def go_spaces_def)

lemma trim_with_space:
  assumes "ws = go_spaces \<or> ws = map rev go_spaces"
  shows "trim_with ws (SPACE # s) = trim_with ws s"
proof -
  from assms have "find (\<lambda>w. w \<noteq> [] \<and> prefix w (SPACE # s)) ws = Some [SPACE]"
    by (auto simp: go_spaces_def)
  then show ?thesis by (subst trim_with.simps) simp
qed

lemma TrimSpace_lead: "TrimSpace (SPACE # s) = TrimSpace s"
  by (simp add: TrimSpace_def TrimLeft_def trim_with_space)

lemma TrimSpace_trail:
  assumes "\<not> space_edge a"
  shows "TrimSpace (a # s @ [SPACE]) = TrimSpace (a # s)"
proof -
  have "\<forall>w\<in>set go_spaces. w \<noteq> [] \<longrightarrow> hd w \<noteq> a" using assms by (auto simp: space_edge_def)
  then have "TrimLeft (a # t) = a # t" for t unfolding TrimLeft_def by (rule trim_with_first)
  then show ?thesis by (simp add: TrimSpace_def TrimRight_def trim_with_space)
qed

text \<open>The operand forms of a comparison of a template with a quoted literal.\<close>

lemma TrimSpace_template:
  "TrimSpace (CHR ''{'' # CHR ''{'' # p @ ''}}'') = CHR ''{'' # CHR ''{'' # p @ ''}}''"
  "TrimSpace (CHR ''{'' # CHR ''{'' # p @ ''}} '') = CHR ''{'' # CHR ''{'' # p @ ''}}''"
  using TrimSpace_delimited[of "CHR ''{''" "CHR ''}''" "CHR ''{'' # p @ ''}''"]
    TrimSpace_trail[of "CHR ''{''" "CHR ''{'' # p @ ''}}''"] by simp_all

lemma TrimSpace_literal: "TrimSpace (DQUOTE # l @ [DQUOTE]) = DQUOTE # l @ [DQUOTE]"
  by (rule TrimSpace_delimited) simp_all

text \<open>\<^verbatim>\<open>strconv.ParseFloat\<close> refuses a string that starts with a brace.\<close>

definition no_brace_float :: "flow_lib \<Rightarrow> bool" where
  "no_brace_float lib = (\<forall>s. lb_ParseFloat lib (CHR ''{'' # s) = None)"

lemma evalOperand_template:
  "no_brace_float lib \<Longrightarrow> unbraced p \<Longrightarrow> p \<noteq> [] \<Longrightarrow>
    evalOperand lib c (CHR ''{'' # CHR ''{'' # p @ ''}}'') = lookup c (TrimSpace p)"
  using ResolveString_whole[of p lib c] by (simp add: evalOperand_def no_brace_float_def)

lemma evalOperand_literal: "evalOperand lib c (DQUOTE # l @ [DQUOTE]) = Ok (JStr l)"
  by (simp add: evalOperand_def)

lemma eval_ops_hit:
  assumes "\<forall>o'\<in>set ops1. findOperatorIndex (l @ op @ r) o' = None" "findOperatorIndex (l @ op @ r) op = Some (length l)"
  shows "eval_ops lib c (l @ op @ r) (ops1 @ op # ops2) = (case evalOperand lib c (TrimSpace l) of
       Err e \<Rightarrow> Err e
     | Ok x \<Rightarrow> (case evalOperand lib c (TrimSpace r) of
         Err e \<Rightarrow> Err e
       | Ok y \<Rightarrow> compare_vals lib x y (TrimSpace op)))"
  using assms by (induction ops1) (simp_all split: sum.splits)

definition plain_path :: "string \<Rightarrow> bool" where
  "plain_path p = (p \<noteq> [] \<and> unbraced p \<and> DQUOTE \<notin> set p \<and> SQUOTE \<notin> set p)"

lemma compare_template:
  fixes p lit op sp :: string
  defines "rest \<equiv> sp @ op @ sp @ [DQUOTE] @ lit @ [DQUOTE]"
  assumes h: "no_brace_float lib" "plain_path p" and sp: "sp = [] \<or> sp = [SPACE]"
    and ops: "cond_ops = ops1 @ op # ops2"
    and miss: "\<forall>o'\<in>set ops1. find_op o' None 0 (length p + 4) rest = None"
    and hit: "find_op op None 0 (length p + 4) rest = Some (length p + 4 + length sp)"
  shows "EvalCondition lib c (''{{'' @ p @ ''}}'' @ rest) =
    (case lookup c (TrimSpace p) of Err e \<Rightarrow> Err e | Ok v \<Rightarrow> compare_vals lib v (JStr lit) (TrimSpace op))"
proof -
  let ?l = "''{{'' @ p @ ''}}'' @ sp" and ?r = "sp @ [DQUOTE] @ lit @ [DQUOTE]"
  have e: "''{{'' @ p @ ''}}'' @ rest = ?l @ op @ ?r" by (simp add: rest_def)
  have F: "findOperatorIndex (?l @ op @ ?r) o' = find_op o' None 0 (length p + 4) rest" for o'
    using find_op_block[of p o' 0 rest] h(2) unfolding plain_path_def findOperatorIndex_def rest_def by simp
  have "evalOperand lib c (TrimSpace ?l) = lookup c (TrimSpace p)"
    using sp h evalOperand_template[of lib p c] by (auto simp: plain_path_def TrimSpace_template)
  moreover have "evalOperand lib c (TrimSpace ?r) = Ok (JStr lit)"
    using sp by (auto simp: TrimSpace_lead TrimSpace_literal evalOperand_literal)
  moreover have "length ?l = length p + 4 + length sp" by simp
  ultimately show ?thesis
    unfolding EvalCondition_def e ops using eval_ops_hit[of ops1 ?l op ?r lib c ops2] F miss hit
    by (simp split: sum.splits)
qed

text \<open>
  A condition \<^verbatim>\<open>{{path}} OP "literal"\<close>, for each of the seven operators, compares the value at
  the path with the literal under that operator, whatever characters other than a double quote the
  literal holds: an operator inside the literal or inside the template is not taken for the
  comparison. A failing lookup is the condition's error.
\<close>

theorem eval_condition_compare:
  assumes "no_brace_float lib" "plain_path p" "DQUOTE \<notin> set lit"
    and "op \<in> {''=='', ''!='', ''>='', ''<='', ''>'', ''<'', ''contains''}"
  shows "EvalCondition lib c (''{{'' @ p @ ''}} '' @ op @ '' '' @ [DQUOTE] @ lit @ [DQUOTE]) =
    (case lookup c (TrimSpace p) of Err e \<Rightarrow> Err e | Ok v \<Rightarrow> compare_vals lib v (JStr lit) op)"
proof -
  note T = compare_template[OF assms(1,2), where c = c and lit = lit]
  note f = cond_ops_def find_op_literal[OF assms(3)]
  have trim: "TrimSpace o' = o'" if "o' \<in> {''=='', ''!='', ''>='', ''<='', ''>'', ''<'', ''contains''}" for o'
    using that by (elim insertE; simp) (code_simp)+
  have ctrim: "TrimSpace '' contains '' = ''contains''" by code_simp
  from assms(4) consider "op = ''==''" | "op = ''!=''" | "op = ''>=''" | "op = ''<=''" | "op = ''>''" | "op = ''<''" | "op = ''contains''"
    by blast
  then show ?thesis
  proof cases
    case 1
    then show ?thesis using T[of "'' ''" "[]" op "tl cond_ops"] trim[of op] by (simp add: f split: sum.splits)
  next
    case 2
    then show ?thesis using T[of "'' ''" "take 1 cond_ops" op "drop 2 cond_ops"] trim[of op] by (simp add: f split: sum.splits)
  next
    case 3
    then show ?thesis using T[of "'' ''" "take 2 cond_ops" op "drop 3 cond_ops"] trim[of op] by (simp add: f split: sum.splits)
  next
    case 4
    then show ?thesis using T[of "'' ''" "take 3 cond_ops" op "drop 4 cond_ops"] trim[of op] by (simp add: f split: sum.splits)
  next
    case 5
    then show ?thesis using T[of "'' ''" "take 4 cond_ops" op "drop 5 cond_ops"] trim[of op] by (simp add: f split: sum.splits)
  next
    case 6
    then show ?thesis using T[of "'' ''" "take 5 cond_ops" op "drop 6 cond_ops"] trim[of op] by (simp add: f split: sum.splits)
  next
    case 7
    then show ?thesis using T[of "[]" "take 6 cond_ops" "'' contains ''" "[]"] ctrim by (simp add: f split: sum.splits)
  qed
qed

theorem eval_condition_compare_witness:
  "EvalCondition \<lparr>lb_ParseFloat = \<lambda>_. None, lb_FormatFloat = \<lambda>_. [], lb_Marshal = \<lambda>_. Ok []\<rparr>
     \<lparr>rc_Trigger = Some [(''a'', JStr ''x==y'')], rc_Nodes = [], rc_Vars = []\<rparr>
     (''{{trigger.a}} == '' @ [DQUOTE] @ ''x==y'' @ [DQUOTE]) = Ok True"
proof -
  let ?lib = "\<lparr>lb_ParseFloat = \<lambda>_. None, lb_FormatFloat = \<lambda>_. [], lb_Marshal = \<lambda>_. Ok []\<rparr> :: flow_lib"
  let ?c = "\<lparr>rc_Trigger = Some [(''a'', JStr ''x==y'')], rc_Nodes = [], rc_Vars = []\<rparr> :: RunContext"
  have "no_brace_float ?lib" by (simp add: no_brace_float_def)
  moreover have "plain_path ''trigger.a''" by code_simp
  moreover have "lookup ?c (TrimSpace ''trigger.a'') = Ok (JStr ''x==y'')" by code_simp
  moreover have "compare_vals ?lib (JStr ''x==y'') (JStr ''x==y'') ''=='' = Ok True" by (simp add: compare_vals_def)
  ultimately show ?thesis
    using eval_condition_compare[of ?lib "''trigger.a''" "''x==y''" "''==''" ?c] by simp
qed

end
