(* ===== verification/Flow_Nodes.thy ===== *)
theory Flow_Nodes
  imports Flow_Graph Flow_Expr
begin

text \<open>
  The node executors of the workflow engine (\<^verbatim>\<open>internal/manager/biz/flow/nodes.go\<close>,
  \<^verbatim>\<open>noderegistry.go\<close>, \<^verbatim>\<open>http_node.go\<close>) and the built-in node registry. What a node calls
  outside the package (agent runner, completion, tools, notifier, the HTTP client) is a field of
  \<open>Executors\<close>: a function on the state \<open>'w\<close> of the outside world that also receives the time
  budget of the call. The codecs of the standard library are the fields of \<open>node_lib\<close>.
\<close>

section \<open>Seams and results\<close>

record node_lib =
  nl_flow :: flow_lib
  nl_Unmarshal :: "string \<Rightarrow> (string, json) result"
  nl_Quote :: "string \<Rightarrow> string"
  nl_Sprint :: "json \<Rightarrow> string"
  nl_ParseDuration :: "string \<Rightarrow> int option"
  nl_float_to_int :: "gofloat \<Rightarrow> int"
  nl_NewRequest :: "string \<Rightarrow> string \<Rightarrow> string err"
  nl_CanonicalKey :: "string \<Rightarrow> string"

text \<open>Decoding into a \<^verbatim>\<open>map[string]any\<close>: \<^verbatim>\<open>null\<close> gives the nil map, a value that is no object an error.\<close>

definition decode_map :: "node_lib \<Rightarrow> string \<Rightarrow> (string, anymap) result" where
  "decode_map lib s = (case nl_Unmarshal lib s of
     Err e \<Rightarrow> Err e
   | Ok JNull \<Rightarrow> Ok None
   | Ok (JObj m) \<Rightarrow> Ok (Some m)
   | Ok _ \<Rightarrow> Err ''json: cannot unmarshal value into Go value of type map[string]interface {}'')"

record NodeResult =
  nr_Output :: json
  nr_Port :: string
  nr_Vars :: "(string \<times> json) list"

record HttpRequest =
  hq_Method :: string
  hq_URL :: string
  hq_Headers :: "(string \<times> string) list"
  hq_Body :: "string option"
  hq_Timeout :: int

record HttpResponse =
  hr_Status :: int
  hr_Body :: string
  hr_Headers :: "(string \<times> string list) list"

record 'w Executors =
  ex_Agent :: "(int \<Rightarrow> string \<Rightarrow> string \<Rightarrow> 'w \<Rightarrow> (string, string) result \<times> 'w) option"
  ex_LLM :: "(int \<Rightarrow> string \<Rightarrow> string \<Rightarrow> 'w \<Rightarrow> (string, string) result \<times> 'w) option"
  ex_Tools :: "(int \<Rightarrow> string \<Rightarrow> string \<Rightarrow> 'w \<Rightarrow> (string, string) result \<times> 'w) option"
  ex_Notify :: "(int \<Rightarrow> uint64 list \<Rightarrow> string \<Rightarrow> string \<Rightarrow> 'w \<Rightarrow> string err \<times> 'w) option"
  ex_Do :: "HttpRequest \<Rightarrow> 'w \<Rightarrow> (string, HttpResponse) result \<times> 'w"

datatype node_error =
    UnknownType string
  | Refused string
  | SeamFailed string string
  | AnswerNotJSON string string
  | ArgsMarshal string
  | ExprFailed expr_error
  | TransportFailed string string string
  | ResolveFailed string expr_error
  | ConfigDecode string string

text \<open>The messages; the bytes are those of the source's UTF-8 text.\<close>

definition DASH :: string where "DASH = [SPACE, CHR 0xE2, CHR 0x80, CHR 0x94, SPACE]"

fun expr_error_text :: "(string \<Rightarrow> string) \<Rightarrow> expr_error \<Rightarrow> string" where
  "expr_error_text q (NodeRefShape path) = ''expr: '' @ q path @ DASH @ ''node refs are nodes.<id>.output.<path>''"
| "expr_error_text q (NoOutputYet n) = ''expr: node '' @ q n @ '' has no output yet (not upstream?)''"
| "expr_error_text q (UnknownRoot r) = ''expr: unknown root '' @ q r @ '' (want trigger/nodes/vars)''"
| "expr_error_text q (NotAnObject path key) = ''expr: '' @ q path @ DASH @ q key @ '' is not an object''"
| "expr_error_text q (FieldMissing path key) = ''expr: '' @ q path @ DASH @ ''field '' @ q key @ '' missing''"
| "expr_error_text q (NotAnArray path i) = ''expr: '' @ q path @ DASH @ ''['' @ dec i @ ''] applied to non-array''"
| "expr_error_text q (IndexRange path i n) = ''expr: '' @ q path @ DASH @ ''index '' @ dec i @ '' out of range (len '' @ dec n @ '')''"
| "expr_error_text q (CannotCompare op) = ''expr: cannot '' @ op @ '' non-numeric values''"

fun node_error_text :: "node_lib \<Rightarrow> node_error \<Rightarrow> string" where
  "node_error_text lib (UnknownType t) = ''unknown node type '' @ nl_Quote lib t"
| "node_error_text lib (Refused m) = m"
| "node_error_text lib (SeamFailed p e) = p @ '': '' @ e"
| "node_error_text lib (AnswerNotJSON k e) = k @ '' node: output_schema declared but answer is not JSON: '' @ e"
| "node_error_text lib (ArgsMarshal e) = ''tool node: args: '' @ e"
| "node_error_text lib (ExprFailed e) = expr_error_text (nl_Quote lib) e"
| "node_error_text lib (TransportFailed m u e) = ''http node: '' @ m @ '' '' @ u @ '': '' @ e"
| "node_error_text lib (ResolveFailed i e) = ''node '' @ i @ '': '' @ expr_error_text (nl_Quote lib) e"
| "node_error_text lib (ConfigDecode i e) = ''node '' @ i @ '': config: '' @ e"

definition second :: int where "second = 1000000000"
definition minute :: int where "minute = 60 * second"
definition defaultNodeTimeout :: int where "defaultNodeTimeout = 2 * minute"
definition agentNodeTimeout :: int where "agentNodeTimeout = 15 * minute"
definition llmNodeTimeout :: int where "llmNodeTimeout = 3 * minute"

type_synonym 'w exec = "'w Executors \<Rightarrow> anymap \<Rightarrow> RunContext \<Rightarrow> 'w \<Rightarrow> (node_error, NodeResult) result \<times> 'w"

section \<open>Helpers\<close>

definition parseLooseJSON :: "node_lib \<Rightarrow> string \<Rightarrow> (string, anymap) result" where
  "parseLooseJSON lib s = (case (IndexByte s (CHR ''{''), LastIndexByte s (CHR ''}'')) of
     (Some start, Some end') \<Rightarrow>
       if end' \<le> start then Err ''no JSON object found'' else decode_map lib (drop start (take (end' + 1) s))
   | _ \<Rightarrow> Err ''no JSON object found'')"

text \<open>
  Conversion of a float to an integer type truncates; the result is the implementation's when the
  truncated value does not fit.
\<close>

definition flt_trunc :: "rat \<Rightarrow> int" where
  "flt_trunc q = (if q < 0 then - \<lfloor>- q\<rfloor> else \<lfloor>q\<rfloor>)"

definition to_int64 :: "node_lib \<Rightarrow> gofloat \<Rightarrow> int" where
  "to_int64 lib f = (case f of
     Fin q \<Rightarrow> if - (2 ^ 63) \<le> flt_trunc q \<and> flt_trunc q < 2 ^ 63 then flt_trunc q else nl_float_to_int lib f
   | _ \<Rightarrow> nl_float_to_int lib f)"

definition to_uint64 :: "node_lib \<Rightarrow> gofloat \<Rightarrow> uint64" where
  "to_uint64 lib f = (case f of
     Fin q \<Rightarrow> if 0 \<le> flt_trunc q \<and> flt_trunc q < 2 ^ 64 then word_of_int (flt_trunc q) else word_of_int (nl_float_to_int lib f)
   | _ \<Rightarrow> word_of_int (nl_float_to_int lib f))"

fun ids_of :: "node_lib \<Rightarrow> json list \<Rightarrow> uint64 list" where
  "ids_of lib [] = []"
| "ids_of lib (e # es) = (case toFloat (nl_flow lib) e of
     Some f \<Rightarrow> (if flt_less (Fin 0) f then to_uint64 lib f # ids_of lib es else ids_of lib es)
   | None \<Rightarrow> ids_of lib es)"

definition toUint64s :: "node_lib \<Rightarrow> json \<Rightarrow> uint64 list" where
  "toUint64s lib v = (case v of JArr arr \<Rightarrow> ids_of lib arr | _ \<Rightarrow> [])"

definition marshal_or_empty :: "node_lib \<Rightarrow> json \<Rightarrow> string" where
  "marshal_or_empty lib v = (case lb_Marshal (nl_flow lib) v of Ok b \<Rightarrow> b | Err _ \<Rightarrow> [])"

definition schema_suffix :: string where
  "schema_suffix = [LF, LF] @ ''Return ONLY a single JSON object matching this JSON Schema (no prose, no code fence):'' @ [LF]"

section \<open>Executors\<close>

definition execTrigger :: "'w exec" where
  "execTrigger x cfg rc w = (Ok \<lparr>nr_Output = JObj (entries (rc_Trigger rc)), nr_Port = PortNext, nr_Vars = []\<rparr>, w)"

text \<open>The two-value assertion \<^verbatim>\<open>cfg["output_schema"].(map[string]any)\<close>.\<close>

definition schema_of :: "anymap \<Rightarrow> (string \<times> json) list option" where
  "schema_of cfg = (case any_at cfg ''output_schema'' of JObj m \<Rightarrow> Some m | _ \<Rightarrow> None)"

definition with_schema :: "node_lib \<Rightarrow> string \<Rightarrow> anymap \<Rightarrow> string" where
  "with_schema lib prompt cfg = (case schema_of cfg of
     Some m \<Rightarrow> prompt @ schema_suffix @ marshal_or_empty lib (JObj m)
   | None \<Rightarrow> prompt)"

definition answered :: "node_lib \<Rightarrow> string \<Rightarrow> anymap \<Rightarrow> string \<Rightarrow> (node_error, NodeResult) result" where
  "answered lib kind cfg answer = (case schema_of cfg of
     None \<Rightarrow> Ok \<lparr>nr_Output = JObj [(''answer'', JStr answer)], nr_Port = PortNext, nr_Vars = []\<rparr>
   | Some _ \<Rightarrow> (case parseLooseJSON lib answer of
       Err e \<Rightarrow> Err (AnswerNotJSON kind e)
     | Ok m \<Rightarrow> Ok \<lparr>nr_Output = JObj [(''answer'', JStr answer), (''structured'', any_json m)], nr_Port = PortNext, nr_Vars = []\<rparr>))"

definition execAgent :: "node_lib \<Rightarrow> 'w exec" where
  "execAgent lib x cfg rc w = (case ex_Agent x of
     None \<Rightarrow> (Err (Refused ''agent node: runner not wired''), w)
   | Some run \<Rightarrow>
       (let persona = (if str_at cfg ''persona'' = [] then ''default'' else str_at cfg ''persona'');
            instruction = str_at cfg ''instruction'' in
        if TrimSpace instruction = [] then (Err (Refused ''agent node: instruction is empty''), w)
        else (case run agentNodeTimeout persona (with_schema lib instruction cfg) w of
            (Err e, w') \<Rightarrow> (Err (SeamFailed ''agent node'' e), w')
          | (Ok answer, w') \<Rightarrow> (answered lib ''agent'' cfg answer, w'))))"

definition execLLM :: "node_lib \<Rightarrow> 'w exec" where
  "execLLM lib x cfg rc w = (case ex_LLM x of
     None \<Rightarrow> (Err (Refused ''llm node: runner not wired''), w)
   | Some run \<Rightarrow>
       (let prompt = str_at cfg ''prompt''; system = str_at cfg ''system'' in
        if TrimSpace prompt = [] then (Err (Refused ''llm node: prompt is empty''), w)
        else (case run llmNodeTimeout system (with_schema lib prompt cfg) w of
            (Err e, w') \<Rightarrow> (Err (SeamFailed ''llm node'' e), w')
          | (Ok answer, w') \<Rightarrow> (answered lib ''llm'' cfg answer, w'))))"

definition execTool :: "node_lib \<Rightarrow> 'w exec" where
  "execTool lib x cfg rc w = (case ex_Tools x of
     None \<Rightarrow> (Err (Refused ''tool node: invoker not wired''), w)
   | Some invoke \<Rightarrow>
       (let name = str_at cfg ''tool'';
            args = (case any_at cfg ''args'' of JObj m \<Rightarrow> Some m | _ \<Rightarrow> None) in
        if name = [] then (Err (Refused ''tool node: missing tool name''), w)
        else (case lb_Marshal (nl_flow lib) (any_json args) of
            Err e \<Rightarrow> (Err (ArgsMarshal e), w)
          | Ok ab \<Rightarrow> (case invoke defaultNodeTimeout name ab w of
              (Err e, w') \<Rightarrow> (Err (SeamFailed (''tool '' @ name) e), w')
            | (Ok res, w') \<Rightarrow>
                (let out = (if res = [] then JNull else (case nl_Unmarshal lib res of Ok v \<Rightarrow> v | Err _ \<Rightarrow> JStr res)) in
                 (Ok \<lparr>nr_Output = JObj [(''result'', out)], nr_Port = PortNext, nr_Vars = []\<rparr>, w'))))))"

definition execCondition :: "node_lib \<Rightarrow> 'w exec" where
  "execCondition lib x cfg rc w =
    (let expr = str_at cfg ''expr'' in
     if TrimSpace expr = [] then (Err (Refused ''condition node: missing expr''), w)
     else (case EvalCondition (nl_flow lib) rc expr of
         Err e \<Rightarrow> (Err (ExprFailed e), w)
       | Ok b \<Rightarrow> (Ok \<lparr>nr_Output = JObj [(''result'', JBool b)], nr_Port = (if b then PortTrue else PortFalse), nr_Vars = []\<rparr>, w)))"

definition execNotify :: "node_lib \<Rightarrow> 'w exec" where
  "execNotify lib x cfg rc w = (case ex_Notify x of
     None \<Rightarrow> (Err (Refused ''notify node: notifier not wired''), w)
   | Some notify \<Rightarrow>
       (let title = str_at cfg ''title''; message = str_at cfg ''message''; ids = toUint64s lib (any_at cfg ''channel_ids'') in
        if TrimSpace message = [] then (Err (Refused ''notify node: message is empty''), w)
        else if ids = [] then (Err (Refused ''notify node: no channel_ids''), w)
        else (case notify defaultNodeTimeout ids title message w of
            (Some e, w') \<Rightarrow> (Err (SeamFailed ''notify node'' e), w')
          | (None, w') \<Rightarrow>
              (Ok \<lparr>nr_Output = JObj [(''sent'', JBool True), (''channels'', JInt (int (length ids)))], nr_Port = PortNext, nr_Vars = []\<rparr>, w'))))"

definition execSet :: "'w exec" where
  "execSet x cfg rc w =
    (let name = str_at cfg ''name''; val = any_at cfg ''value'' in
     if name = [] then (Err (Refused ''set node: missing var name''), w)
     else (Ok \<lparr>nr_Output = JObj [(''name'', JStr name), (''value'', val)], nr_Port = PortNext, nr_Vars = [(name, val)]\<rparr>, w))"

definition execTransform :: "'w exec" where
  "execTransform x cfg rc w =
    (let fields = (case any_at cfg ''fields'' of JObj m \<Rightarrow> m | _ \<Rightarrow> []) in
     (Ok \<lparr>nr_Output = JObj fields, nr_Port = PortNext, nr_Vars = []\<rparr>, w))"

section \<open>The HTTP node\<close>

definition httpNodeMaxBody :: nat where "httpNodeMaxBody = 2 ^ 20"

fun toStr :: "node_lib \<Rightarrow> json \<Rightarrow> string" where
  "toStr lib JNull = []"
| "toStr lib (JStr s) = s"
| "toStr lib v = nl_Sprint lib v"

definition upper_char :: "char \<Rightarrow> char" where
  "upper_char c = (if 97 \<le> (of_char c :: nat) \<and> (of_char c :: nat) \<le> 122 then char_of ((of_char c :: nat) - 32) else c)"

definition ToUpper :: "string \<Rightarrow> string" where
  "ToUpper s = map upper_char s"

definition http_body :: "node_lib \<Rightarrow> anymap \<Rightarrow> string option" where
  "http_body lib cfg = (case any_at cfg ''body'' of
     JNull \<Rightarrow> None
   | JStr bv \<Rightarrow> if TrimSpace bv \<noteq> [] then Some bv else None
   | bv \<Rightarrow> (case lb_Marshal (nl_flow lib) bv of Ok jb \<Rightarrow> Some jb | Err _ \<Rightarrow> None))"

text \<open>The product \<^verbatim>\<open>time.Duration(tv) * time.Second\<close> is an \<^verbatim>\<open>int64\<close>: it wraps.\<close>

definition http_timeout :: "node_lib \<Rightarrow> anymap \<Rightarrow> int" where
  "http_timeout lib cfg =
    (let timeout = (case any_at cfg ''timeout_seconds'' of
         JNum tv \<Rightarrow> if flt_less (Fin 0) tv then signed_take_bit 63 (to_int64 lib tv * second) else 30 * second
       | JStr tv \<Rightarrow> (case nl_ParseDuration lib (TrimSpace tv @ ''s'') of
           Some n \<Rightarrow> if n > 0 then n else 30 * second
         | None \<Rightarrow> 30 * second)
       | _ \<Rightarrow> 30 * second)
     in if timeout > 120 * second then 120 * second else timeout)"

definition Header_Set :: "node_lib \<Rightarrow> string \<Rightarrow> string \<Rightarrow> (string \<times> string) list \<Rightarrow> (string \<times> string) list" where
  "Header_Set lib k v h = AList.update (nl_CanonicalKey lib k) v h"

fun set_headers :: "node_lib \<Rightarrow> (string \<times> json) list \<Rightarrow> (string \<times> string) list \<Rightarrow> (string \<times> string) list" where
  "set_headers lib [] h = h"
| "set_headers lib ((k, v) # hdrs) h = set_headers lib hdrs (Header_Set lib k (toStr lib v) h)"

definition http_headers :: "node_lib \<Rightarrow> anymap \<Rightarrow> (string \<times> string) list" where
  "http_headers lib cfg =
    (let h = (case any_at cfg ''headers'' of JObj hdrs \<Rightarrow> set_headers lib hdrs [] | _ \<Rightarrow> []);
         ct = (case map_of h (nl_CanonicalKey lib ''Content-Type'') of Some v \<Rightarrow> v | None \<Rightarrow> [])
     in if http_body lib cfg \<noteq> None \<and> ct = [] then Header_Set lib ''Content-Type'' ''application/json'' h else h)"

definition execHTTP :: "node_lib \<Rightarrow> 'w exec" where
  "execHTTP lib x cfg rc w =
    (let m = ToUpper (TrimSpace (toStr lib (any_at cfg ''method'')));
         method = (if m = [] then ''GET'' else m);
         url = TrimSpace (toStr lib (any_at cfg ''url'')) in
     if url = [] then (Err (Refused ''http node: url is empty''), w)
     else (case nl_NewRequest lib method url of
         Some e \<Rightarrow> (Err (SeamFailed ''http node'' e), w)
       | None \<Rightarrow> (case ex_Do x \<lparr>hq_Method = method, hq_URL = url, hq_Headers = http_headers lib cfg,
              hq_Body = http_body lib cfg, hq_Timeout = http_timeout lib cfg\<rparr> w of
           (Err e, w') \<Rightarrow> (Err (TransportFailed method url e), w')
         | (Ok resp, w') \<Rightarrow>
             (let raw = take httpNodeMaxBody (hr_Body resp);
                  parsed = (case nl_Unmarshal lib raw of Ok v \<Rightarrow> v | Err _ \<Rightarrow> JStr raw);
                  headers = map (\<lambda>(k, vs). (k, JStr (case vs of [] \<Rightarrow> [] | v # _ \<Rightarrow> v))) (hr_Headers resp) in
              (Ok \<lparr>nr_Output = JObj [(''status'', JInt (hr_Status resp)), (''body'', parsed), (''headers'', JObj headers)],
                 nr_Port = PortNext, nr_Vars = []\<rparr>, w')))))"

section \<open>The registry\<close>

definition node_spec :: "string \<Rightarrow> NodeKind \<Rightarrow> string list \<Rightarrow> 'w exec \<Rightarrow> 'w exec NodeSpec" where
  "node_spec t k ports f = \<lparr>ns_Type = t, ns_Kind = k, ns_Ports = ports, ns_Execute = Some f\<rparr>"

definition registerBuiltins :: "node_lib \<Rightarrow> 'w exec node_registry \<Rightarrow> 'w exec node_registry" where
  "registerBuiltins lib reg = fold RegisterNode
     [node_spec NodeTriggerManual KindTrigger [] execTrigger,
      node_spec NodeTriggerAlert KindTrigger [] execTrigger,
      node_spec NodeTriggerCron KindTrigger [] execTrigger,
      node_spec NodeAgent KindAction [] (execAgent lib),
      node_spec NodeLLM KindAction [] (execLLM lib),
      node_spec NodeTool KindAction [] (execTool lib),
      node_spec NodeCondition KindControl [PortTrue, PortFalse] (execCondition lib),
      node_spec NodeNotify KindAction [] (execNotify lib),
      node_spec NodeSet KindData [] execSet,
      node_spec NodeTransform KindData [] execTransform,
      node_spec NodeHTTP KindAction [] (execHTTP lib)] reg"

definition execute :: "'w exec node_registry \<Rightarrow> 'w Executors \<Rightarrow> GraphNode \<Rightarrow> anymap \<Rightarrow> RunContext \<Rightarrow> 'w \<Rightarrow> (node_error, NodeResult) result \<times> 'w" where
  "execute reg x node cfg rc w = (case LookupNode reg (gn_Type node) of
     None \<Rightarrow> (Err (UnknownType (gn_Type node)), w)
   | Some s \<Rightarrow> (case ns_Execute s of
       None \<Rightarrow> (Err (UnknownType (gn_Type node)), w)
     | Some f \<Rightarrow> f x cfg rc w))"

section \<open>Facts\<close>

lemma builtin_lookup:
  "LookupNode (registerBuiltins lib []) t =
    (if t = NodeCondition then Some (node_spec t KindControl [PortTrue, PortFalse] (execCondition lib))
     else if t \<in> {NodeTriggerManual, NodeTriggerAlert, NodeTriggerCron} then Some (node_spec t KindTrigger [PortNext] execTrigger)
     else if t = NodeAgent then Some (node_spec t KindAction [PortNext] (execAgent lib))
     else if t = NodeLLM then Some (node_spec t KindAction [PortNext] (execLLM lib))
     else if t = NodeTool then Some (node_spec t KindAction [PortNext] (execTool lib))
     else if t = NodeNotify then Some (node_spec t KindAction [PortNext] (execNotify lib))
     else if t = NodeSet then Some (node_spec t KindData [PortNext] execSet)
     else if t = NodeTransform then Some (node_spec t KindData [PortNext] execTransform)
     else if t = NodeHTTP then Some (node_spec t KindAction [PortNext] (execHTTP lib))
     else None)"
  unfolding registerBuiltins_def RegisterNode_def LookupNode_def node_spec_def
  by (simp add: update_conv' node_type_defs)

lemmas exec_defs = execTrigger_def execAgent_def execLLM_def execTool_def execCondition_def execNotify_def execSet_def
  execTransform_def execHTTP_def answered_def

text \<open>A result is good for a list of ports when it fires one of them; \<open>v\<close> allows variable writes.\<close>

definition good_result :: "string list \<Rightarrow> bool \<Rightarrow> (node_error, NodeResult) result \<times> 'w \<Rightarrow> bool" where
  "good_result ports v r = (case fst r of Ok res \<Rightarrow> nr_Port res \<in> set ports \<and> (v \<or> nr_Vars res = []) | Err _ \<Rightarrow> True)"

lemma good_execs:
  "good_result [PortNext] v (execTrigger x cfg rc w)" "good_result [PortNext] v (execAgent lib x cfg rc w)"
  "good_result [PortNext] v (execLLM lib x cfg rc w)" "good_result [PortNext] v (execTool lib x cfg rc w)"
  "good_result [PortNext] v (execNotify lib x cfg rc w)" "good_result [PortNext] v (execTransform x cfg rc w)"
  "good_result [PortNext] v (execHTTP lib x cfg rc w)" "good_result [PortNext] True (execSet x cfg rc w)"
  "good_result [PortTrue, PortFalse] v (execCondition lib x cfg rc w)"
  unfolding good_result_def exec_defs Let_def
  by (auto split: option.splits sum.splits prod.splits)

lemma good_execute:
  "good_result (portsFor (registerBuiltins lib [] :: 'w exec node_registry) (gn_Type node)) (gn_Type node = NodeSet)
     (execute (registerBuiltins lib []) x node cfg rc (w :: 'w))"
proof (cases "LookupNode (registerBuiltins lib []) (gn_Type node) :: 'w exec NodeSpec option")
  case None
  then show ?thesis by (simp add: execute_def good_result_def)
next
  case (Some sp)
  have "good_result (ns_Ports sp) (gn_Type node = NodeSet) (the (ns_Execute sp) x cfg rc w)" "ns_Execute sp \<noteq> None"
    using Some unfolding builtin_lookup by (auto simp: node_spec_def good_execs split: if_splits)
  with Some show ?thesis by (auto simp: execute_def portsFor_def)
qed

text \<open>
  An executor of the built-in registry only fires a control port that its node type declares, so
  that the port check of graph validation covers every edge a successful node can take; and only the
  variable node writes variables.
\<close>

theorem fired_port_declared:
  "case fst (execute (registerBuiltins lib []) x node cfg rc (w :: 'w)) of
     Ok res \<Rightarrow> nr_Port res \<in> set (portsFor (registerBuiltins lib [] :: 'w exec node_registry) (gn_Type node)) \<and>
       (gn_Type node = NodeSet \<or> nr_Vars res = [])
   | Err _ \<Rightarrow> True"
  using good_execute[of lib node x cfg rc w] unfolding good_result_def .

text \<open>
  The deadline of the HTTP node is at most two minutes, for every configuration. A fractional
  number of seconds below one is cut to zero, so that the request has no time at all: the default of
  30 seconds is only used when the value is absent or not positive.
\<close>

theorem http_timeout_bounds:
  "http_timeout lib cfg \<le> 120 * second \<and>
   (any_at cfg ''timeout_seconds'' = JNum (Fin q) \<longrightarrow> 0 < q \<longrightarrow> q < 1 \<longrightarrow> http_timeout lib cfg = 0)"
proof -
  have "http_timeout lib cfg = 0" if "any_at cfg ''timeout_seconds'' = JNum (Fin q)" "0 < q" "q < 1"
  proof -
    from that have "flt_trunc q = 0" by (auto simp: flt_trunc_def intro: floor_unique)
    with that show ?thesis by (simp add: http_timeout_def to_int64_def second_def)
  qed
  then show ?thesis by (auto simp: http_timeout_def Let_def)
qed

theorem http_timeout_bounds_witness:
  "\<forall>lib. http_timeout lib (Some [(''timeout_seconds'', JNum (Fin (1/2)))]) = 0"
  using http_timeout_bounds[of _ "Some [(''timeout_seconds'', JNum (Fin (1/2)))]" "1/2"]
  by (simp add: any_at_def entries_def)

end
