(* ===== verification/Flow_Engine.thy ===== *)
theory Flow_Engine
  imports Flow_Nodes
begin

text \<open>
  The DAG executor (\<^verbatim>\<open>internal/manager/biz/flow/engine.go\<close>). A run is a transition system: the
  main goroutine activates the entry triggers one by one, every activated node is a goroutine that
  goes through the stages of \<open>activate\<close> and \<open>runNode\<close>, and the shared \<open>runState\<close> changes only in
  the sections that hold its mutex. An event names the goroutine that moves, so that a list of events
  is one interleaving. What a node's executor answers is an event too, restricted to the answers
  \<open>execute\<close> can give in some state of the outside world, or a panic. The rows written to the run
  repository are kept as a log without their timestamps.
\<close>

section \<open>State\<close>

definition maxConcurrentNodes :: nat where "maxConcurrentNodes = 4"

definition RunStatusRunning :: string where "RunStatusRunning = ''running''"
definition RunStatusSucceeded :: string where "RunStatusSucceeded = ''succeeded''"
definition RunStatusFailed :: string where "RunStatusFailed = ''failed''"
definition NodeStatusRunning :: string where "NodeStatusRunning = ''running''"
definition NodeStatusSucceeded :: string where "NodeStatusSucceeded = ''succeeded''"
definition NodeStatusFailed :: string where "NodeStatusFailed = ''failed''"

record FlowRunNode =
  fn_RunID :: string
  fn_NodeID :: string
  fn_NodeType :: string
  fn_NodeName :: string
  fn_Status :: string
  fn_InputJSON :: string
  fn_OutputJSON :: string
  fn_FiredPort :: string
  fn_Error :: string

datatype row_write = CreateNode FlowRunNode | UpdateNode FlowRunNode

record 'w Engine =
  en_lib :: node_lib
  en_reg :: "'w exec node_registry"
  en_exec :: "'w Executors"
  en_runs :: bool

datatype flow_run_error =
    NoTriggerNode string
  | NodeFailed string string node_error
  | NodePanicked string string string

datatype outcome = Returns "(node_error, NodeResult) result" | Panics string

text \<open>
  Where a node's goroutine stands: waiting for a slot of the semaphore, holding it, executing the
  resolved configuration (or carrying the error of resolving it), back from the executor, firing the
  targets that are left, or unwinding a panic after the slot was given back.
\<close>

datatype stage =
    Waiting
  | Holding
  | Running FlowRunNode "(node_error, anymap) result"
  | Returned FlowRunNode "(node_error, NodeResult) result"
  | Firing "string list"
  | Panicked string

record runState =
  st_rc :: RunContext
  st_executed :: "string list"
  st_failed :: bool
  st_firstErr :: "flow_run_error option"
  st_main :: "string list"
  st_tasks :: "(string \<times> stage) list"
  st_rows :: "row_write list"

fun holds_slot :: "stage \<Rightarrow> bool" where
  "holds_slot Waiting = False"
| "holds_slot (Panicked _) = False"
| "holds_slot _ = True"

definition slots :: "runState \<Rightarrow> nat" where
  "slots st = length (filter (\<lambda>t. holds_slot (snd t)) (st_tasks st))"

definition set_stage :: "string \<Rightarrow> stage \<Rightarrow> runState \<Rightarrow> runState" where
  "set_stage i s st = st\<lparr>st_tasks := AList.update i s (st_tasks st)\<rparr>"

definition end_task :: "string \<Rightarrow> runState \<Rightarrow> runState" where
  "end_task i st = st\<lparr>st_tasks := AList.delete i (st_tasks st)\<rparr>"

text \<open>The first failure is kept.\<close>

definition fail_run :: "flow_run_error \<Rightarrow> runState \<Rightarrow> runState" where
  "fail_run e st = (if st_failed st then st else st\<lparr>st_failed := True, st_firstErr := Some e\<rparr>)"

definition log_row :: "'w Engine \<Rightarrow> row_write \<Rightarrow> runState \<Rightarrow> runState" where
  "log_row en r st = (if en_runs en then st\<lparr>st_rows := st_rows st @ [r]\<rparr> else st)"

definition truncate_text :: "string \<Rightarrow> nat \<Rightarrow> string" where
  "truncate_text s n = (if length s \<le> n then s else take n s)"

section \<open>The steps of a goroutine\<close>

text \<open>The map the engine builds from the nodes: a later node with the same identifier wins.\<close>

definition node_by_id :: "Graph \<Rightarrow> string \<Rightarrow> GraphNode option" where
  "node_by_id g = map_of (rev (map (\<lambda>n. (gn_ID n, n)) (g_Nodes g)))"

definition activate :: "Graph \<Rightarrow> string \<Rightarrow> runState \<Rightarrow> runState" where
  "activate g i st =
    (if i \<in> set (st_executed st) \<or> st_failed st then st
     else (let st' = st\<lparr>st_executed := st_executed st @ [i]\<rparr> in
       case node_by_id g i of
         None \<Rightarrow> st'
       | Some _ \<Rightarrow> st'\<lparr>st_tasks := st_tasks st @ [(i, Waiting)]\<rparr>))"

definition resolve_config :: "node_lib \<Rightarrow> RunContext \<Rightarrow> GraphNode \<Rightarrow> (node_error, anymap) result" where
  "resolve_config lib rc node =
    (if gn_Config node = [] then Ok (Some [])
     else (case decode_map lib (gn_Config node) of
         Err e \<Rightarrow> Err (ConfigDecode (gn_ID node) e)
       | Ok raw \<Rightarrow> (case ResolveValue (nl_flow lib) rc (JObj (entries raw)) of
           Err e \<Rightarrow> Err (ResolveFailed (gn_ID node) e)
         | Ok (JObj m) \<Rightarrow> Ok (Some m)
         | Ok _ \<Rightarrow> Ok (Some []))))"

definition start_row :: "'w Engine \<Rightarrow> string \<Rightarrow> GraphNode \<Rightarrow> (node_error, anymap) result \<Rightarrow> FlowRunNode" where
  "start_row en rid node cfg =
    \<lparr>fn_RunID = rid, fn_NodeID = gn_ID node, fn_NodeType = gn_Type node, fn_NodeName = gn_Name node,
     fn_Status = NodeStatusRunning,
     fn_InputJSON = (case lb_Marshal (nl_flow (en_lib en)) (JObj (case cfg of Ok m \<Rightarrow> entries m | Err _ \<Rightarrow> [])) of Ok b \<Rightarrow> b | Err _ \<Rightarrow> ''{}''),
     fn_OutputJSON = ''{}'', fn_FiredPort = [], fn_Error = []\<rparr>"

definition port_of :: "(node_error, NodeResult) result \<Rightarrow> string" where
  "port_of r = (case r of Ok res \<Rightarrow> nr_Port res | Err _ \<Rightarrow> PortError)"

definition end_row :: "'w Engine \<Rightarrow> FlowRunNode \<Rightarrow> (node_error, NodeResult) result \<Rightarrow> FlowRunNode" where
  "end_row en row r = (case r of
     Err e \<Rightarrow> row\<lparr>fn_Status := NodeStatusFailed, fn_Error := truncate_text (node_error_text (en_lib en) e) 2000, fn_FiredPort := PortError\<rparr>
   | Ok res \<Rightarrow> row\<lparr>fn_Status := NodeStatusSucceeded, fn_FiredPort := nr_Port res,
        fn_OutputJSON := (case lb_Marshal (nl_flow (en_lib en)) (nr_Output res) of Ok b \<Rightarrow> b | Err _ \<Rightarrow> fn_OutputJSON row)\<rparr>)"

definition put_output :: "string \<Rightarrow> json \<Rightarrow> (string \<times> json) list \<Rightarrow> runState \<Rightarrow> runState" where
  "put_output i out vars st = st\<lparr>st_rc := (st_rc st)\<lparr>rc_Nodes := AList.update i out (rc_Nodes (st_rc st)),
     rc_Vars := AList.updates (map fst vars) (map snd vars) (rc_Vars (st_rc st))\<rparr>\<rparr>"

text \<open>The part of \<open>runNode\<close> after the executor returned, up to the activations.\<close>

definition store_result :: "'w Engine \<Rightarrow> Graph \<Rightarrow> GraphNode \<Rightarrow> FlowRunNode \<Rightarrow> (node_error, NodeResult) result \<Rightarrow> runState \<Rightarrow> runState" where
  "store_result en g node row r st =
    (let i = gn_ID node in
     case r of
       Ok res \<Rightarrow>
         set_stage i (Firing (EdgesFrom g i (nr_Port res)))
           (log_row en (UpdateNode (end_row en row r)) (put_output i (nr_Output res) (nr_Vars res) st))
     | Err e \<Rightarrow>
         (let st' = log_row en (UpdateNode (end_row en row r)) st; targets = EdgesFrom g i PortError in
          if targets = [] then set_stage i (Firing []) (fail_run (NodeFailed i (gn_Type node) e) st')
          else set_stage i (Firing targets) (put_output i (JObj [(''error'', JStr (node_error_text (en_lib en) e))]) [] st')))"

section \<open>Events\<close>

datatype event =
    Start_trigger
  | Acquire string
  | Resolve string
  | Answer string outcome
  | Store string
  | Fire string
  | Leave string
  | Recover string

fun eng_step :: "'w Engine \<Rightarrow> string \<Rightarrow> Graph \<Rightarrow> event \<Rightarrow> runState \<Rightarrow> runState option" where
  "eng_step en rid g Start_trigger st = (case st_main st of [] \<Rightarrow> None | t # ts \<Rightarrow> Some (activate g t (st\<lparr>st_main := ts\<rparr>)))"
| "eng_step en rid g (Acquire i) st =
    (if map_of (st_tasks st) i = Some Waiting \<and> slots st < maxConcurrentNodes then Some (set_stage i Holding st) else None)"
| "eng_step en rid g (Resolve i) st = (case (map_of (st_tasks st) i, node_by_id g i) of
     (Some Holding, Some node) \<Rightarrow>
       (let cfg = resolve_config (en_lib en) (st_rc st) node; row = start_row en rid node cfg in
        Some (set_stage i (Running row cfg) (log_row en (CreateNode row) st)))
   | _ \<Rightarrow> None)"
| "eng_step en rid g (Answer i out) st = (case map_of (st_tasks st) i of
     Some (Running row cfg) \<Rightarrow> (case out of
         Returns r \<Rightarrow> Some (set_stage i (Returned row r) st)
       | Panics m \<Rightarrow> Some (set_stage i (Panicked m) st))
   | _ \<Rightarrow> None)"
| "eng_step en rid g (Store i) st = (case (map_of (st_tasks st) i, node_by_id g i) of
     (Some (Returned row r), Some node) \<Rightarrow> Some (store_result en g node row r st)
   | _ \<Rightarrow> None)"
| "eng_step en rid g (Fire i) st = (case map_of (st_tasks st) i of
     Some (Firing (t # ts)) \<Rightarrow> Some (activate g t (set_stage i (Firing ts) st))
   | _ \<Rightarrow> None)"
| "eng_step en rid g (Leave i) st = (if map_of (st_tasks st) i = Some (Firing []) then Some (end_task i st) else None)"
| "eng_step en rid g (Recover i) st = (case (map_of (st_tasks st) i, node_by_id g i) of
     (Some (Panicked m), Some node) \<Rightarrow> Some (end_task i (fail_run (NodePanicked i (gn_Type node) m) st))
   | _ \<Rightarrow> None)"

text \<open>
  The answers the executor of a node can give: the error of resolving its configuration without
  calling it, otherwise what \<open>execute\<close> returns in some state of the world, or a panic.
\<close>

definition possible :: "'w Engine \<Rightarrow> Graph \<Rightarrow> event \<Rightarrow> runState \<Rightarrow> bool" where
  "possible en g ev st = (case ev of
     Answer i out \<Rightarrow> (case (map_of (st_tasks st) i, node_by_id g i) of
         (Some (Running row (Err e)), _) \<Rightarrow> out = Returns (Err e)
       | (Some (Running row (Ok cfg)), Some node) \<Rightarrow>
           (case out of Panics _ \<Rightarrow> True
            | Returns r \<Rightarrow> (\<exists>w. fst (execute (en_reg en) (en_exec en) node cfg (st_rc st) w) = r))
       | _ \<Rightarrow> False)
   | _ \<Rightarrow> True)"

section \<open>Runs\<close>

definition entryTypeLabel :: "string \<Rightarrow> string" where
  "entryTypeLabel t = (if t = [] then ''any'' else t)"

definition entries_of :: "'w Engine \<Rightarrow> Graph \<Rightarrow> string \<Rightarrow> string list" where
  "entries_of en g entryType = map gn_ID (filter (\<lambda>t. entryType = [] \<or> gn_Type t = entryType) (Triggers (en_reg en) g))"

definition trigger_of :: "node_lib \<Rightarrow> string \<Rightarrow> anymap" where
  "trigger_of lib s = (if s = [] then None else (case decode_map lib s of Ok m \<Rightarrow> m | Err _ \<Rightarrow> None))"

text \<open>\<open>Execute\<close> up to the activations; its value once \<^verbatim>\<open>wg.Wait\<close> returns.\<close>

definition Execute_start :: "'w Engine \<Rightarrow> Graph \<Rightarrow> string \<Rightarrow> string \<Rightarrow> (flow_run_error, runState) result" where
  "Execute_start en g entryType triggerJSON =
    (if entries_of en g entryType = [] then Err (NoTriggerNode (entryTypeLabel entryType))
     else Ok \<lparr>st_rc = \<lparr>rc_Trigger = trigger_of (en_lib en) triggerJSON, rc_Nodes = [], rc_Vars = []\<rparr>,
        st_executed = [], st_failed = False, st_firstErr = None,
        st_main = entries_of en g entryType, st_tasks = [], st_rows = []\<rparr>)"

definition waited :: "runState \<Rightarrow> bool" where
  "waited st = (st_main st = [] \<and> st_tasks st = [])"

definition Execute_result :: "runState \<Rightarrow> string \<times> flow_run_error option" where
  "Execute_result st = (if st_failed st then (RunStatusFailed, st_firstErr st) else (RunStatusSucceeded, None))"

text \<open>One interleaving: the events of a run, oldest first, from the state \<open>s0\<close> to the state reached.\<close>

inductive eng_run :: "'w Engine \<Rightarrow> string \<Rightarrow> Graph \<Rightarrow> runState \<Rightarrow> event list \<Rightarrow> runState \<Rightarrow> bool"
  for en rid g s0 where
  run_nil: "eng_run en rid g s0 [] s0"
| run_snoc: "eng_run en rid g s0 tr st \<Longrightarrow> possible en g ev st \<Longrightarrow> eng_step en rid g ev st = Some st' \<Longrightarrow>
    eng_run en rid g s0 (tr @ [ev]) st'"

inductive_cases eng_run_snocE: "eng_run en rid g s0 (tr @ [ev]) st"

section \<open>One node in isolation\<close>

definition RunSingle :: "'w Engine \<Rightarrow> GraphNode \<Rightarrow> RunContext \<Rightarrow> 'w \<Rightarrow> (node_error, NodeResult) result \<times> 'w" where
  "RunSingle en node rc w =
    (if gn_Config node = [] then execute (en_reg en) (en_exec en) node (Some []) rc w
     else (case decode_map (en_lib en) (gn_Config node) of
         Err e \<Rightarrow> (Err (SeamFailed ''config'' e), w)
       | Ok raw \<Rightarrow> (case ResolveValue (nl_flow (en_lib en)) rc (JObj (entries raw)) of
           Err e \<Rightarrow> (Err (ExprFailed e), w)
         | Ok (JObj m) \<Rightarrow> execute (en_reg en) (en_exec en) node (Some m) rc w
         | Ok _ \<Rightarrow> execute (en_reg en) (en_exec en) node (Some []) rc w)))"

text \<open>The editor's test run and the engine resolve a configuration alike.\<close>

lemma RunSingle_resolves:
  "resolve_config (en_lib en) rc node = Ok cfg \<Longrightarrow> RunSingle en node rc w = execute (en_reg en) (en_exec en) node cfg rc w"
  by (auto simp: RunSingle_def resolve_config_def split: sum.splits json.splits if_splits)

section \<open>Conditions see substituted text\<close>

text \<open>
  The engine resolves a node's configuration before the executor runs, so that the operator scan of a
  condition sees the values already put in place of the templates.
\<close>

definition is_letter :: "char \<Rightarrow> bool" where
  "is_letter c = (97 \<le> (of_char c :: nat) \<and> (of_char c :: nat) \<le> 122)"

lemma letter_plain: "is_letter c \<Longrightarrow> c \<notin> set [DQUOTE, SQUOTE, CHR ''{'', CHR ''}'', CHR ''='', CHR ''!'', CHR ''<'', CHR ''>'', SPACE]"
  by (auto simp: is_letter_def)

lemma letter_space: "is_letter c \<Longrightarrow> \<not> space_edge c"
  by (auto simp: is_letter_def space_edge_def go_spaces_def)

lemma find_op_letters:
  "list_all is_letter u \<Longrightarrow> op \<in> set cond_ops \<Longrightarrow> find_op op None 0 i (u @ rest) = find_op op None 0 (i + length u) rest"
proof (induction u arbitrary: i)
  case (Cons c u)
  have "\<not> prefix op (c # u @ rest)" using letter_plain[of c] Cons.prems by (auto simp: cond_ops_def)
  with Cons letter_plain[of c] show ?case by simp
qed simp

definition quoted_expr :: "string \<Rightarrow> string" where
  "quoted_expr u = u @ [DQUOTE] @ '' == '' @ [DQUOTE] @ ''critical'' @ [DQUOTE]"

lemma quoted_expr_no_op: "list_all is_letter u \<Longrightarrow> op \<in> set cond_ops \<Longrightarrow> findOperatorIndex (quoted_expr u) op = None"
proof -
  assume h: "list_all is_letter u" "op \<in> set cond_ops"
  have "find_op op (Some DQUOTE) 0 i ('' == '' @ DQUOTE # ''critical'' @ [DQUOTE]) = None" for i
  proof -
    have "list_all is_letter ''critical''" by (simp add: is_letter_def)
    from find_op_letters[OF this h(2)] show ?thesis by (subst find_op_quoted) simp_all
  qed
  with find_op_letters[OF h] show ?thesis by (simp add: findOperatorIndex_def quoted_expr_def)
qed

lemma eval_ops_none: "(\<And>op. op \<in> set ops \<Longrightarrow> findOperatorIndex e op = None) \<Longrightarrow>
    eval_ops lib c e ops = (case evalOperand lib c (TrimSpace e) of Err x \<Rightarrow> Err x | Ok v \<Rightarrow> Ok (truthy v))"
  by (induction ops) auto

lemma quoted_expr_true:
  assumes "list_all is_letter u" "u \<noteq> []" "lb_ParseFloat lib (quoted_expr u) = None"
  shows "EvalCondition lib c (quoted_expr u) = Ok True"
proof -
  obtain a v where u: "u = a # v" using assms(2) by (cases u) auto
  define m where "m = v @ [DQUOTE] @ '' == '' @ [DQUOTE] @ ''critical''"
  have q: "quoted_expr u = a # m @ [DQUOTE]" by (simp add: quoted_expr_def u m_def)
  have a: "is_letter a" using assms(1) u by simp
  have "\<forall>c\<in>set (quoted_expr u). \<not> brace c"
    using assms(1) letter_plain by (fastforce simp: quoted_expr_def brace_def list_all_iff)
  then have r: "ResolveString lib c (quoted_expr u) = Ok (JStr (quoted_expr u))" by simp
  have n: "quoted_expr u \<notin> {''true'', ''false'', ''0'', []}" unfolding q by (auto simp: snoc_eq_iff_butlast)
  have "evalOperand lib c (quoted_expr u) = Ok (JStr (quoted_expr u))"
    using assms(3) r n letter_plain[OF a] unfolding evalOperand_def q by auto
  moreover have "TrimSpace (quoted_expr u) = quoted_expr u"
    unfolding q using letter_space[OF a] by (intro TrimSpace_delimited) simp_all
  ultimately show ?thesis
    using eval_ops_none[of cond_ops "quoted_expr u" lib c] quoted_expr_no_op[OF assms(1)] n
    by (simp add: EvalCondition_def)
qed

section \<open>A small run\<close>

text \<open>A graph with one manual trigger, and the steps of its run; the witnesses use it.\<close>

definition demo_lib :: node_lib where
  "demo_lib = \<lparr>nl_flow = \<lparr>lb_ParseFloat = \<lambda>_. None, lb_FormatFloat = \<lambda>_. [], lb_Marshal = \<lambda>_. Ok ''{}''\<rparr>,
     nl_Unmarshal = \<lambda>_. Ok (JObj []), nl_Quote = \<lambda>s. s, nl_Sprint = \<lambda>_. [], nl_ParseDuration = \<lambda>_. None,
     nl_float_to_int = \<lambda>_. 0, nl_NewRequest = \<lambda>_ _. None, nl_CanonicalKey = \<lambda>s. s\<rparr>"

definition demo_engine :: "unit Engine" where
  "demo_engine = \<lparr>en_lib = demo_lib, en_reg = registerBuiltins demo_lib [],
     en_exec = \<lparr>ex_Agent = None, ex_LLM = None, ex_Tools = None, ex_Notify = None, ex_Do = \<lambda>_ w. (Err [], w)\<rparr>, en_runs = False\<rparr>"

definition demo_node :: GraphNode where
  "demo_node = \<lparr>gn_ID = ''t'', gn_Type = ''trigger.manual'', gn_Name = [], gn_Config = [], gn_Position = None\<rparr>"

definition demo_graph :: Graph where
  "demo_graph = \<lparr>g_Nodes = [demo_node], g_Edges = []\<rparr>"

definition demo_start :: runState where
  "demo_start = \<lparr>st_rc = \<lparr>rc_Trigger = None, rc_Nodes = [], rc_Vars = []\<rparr>, st_executed = [], st_failed = False,
     st_firstErr = None, st_main = [''t''], st_tasks = [], st_rows = []\<rparr>"

definition demo_result :: NodeResult where
  "demo_result = \<lparr>nr_Output = JObj [], nr_Port = PortNext, nr_Vars = []\<rparr>"

definition demo_trace :: "event list" where
  "demo_trace = [Start_trigger, Acquire ''t'', Resolve ''t'', Answer ''t'' (Returns (Ok demo_result)), Store ''t'', Leave ''t'']"

definition demo_end :: runState where
  "demo_end = demo_start\<lparr>st_rc := \<lparr>rc_Trigger = None, rc_Nodes = [(''t'', JObj [])], rc_Vars = []\<rparr>, st_executed := [''t''], st_main := []\<rparr>"

lemma demo_entry: "Execute_start demo_engine demo_graph ''trigger.manual'' [] = Ok demo_start"
  unfolding Execute_start_def entries_of_def Triggers_def isTriggerType_def demo_engine_def
  by (simp add: builtin_lookup demo_graph_def demo_node_def node_type_defs node_spec_def demo_start_def trigger_of_def)

lemma demo_execute:
  "execute (en_reg demo_engine) (en_exec demo_engine) demo_node cfg rc w =
    (Ok \<lparr>nr_Output = JObj (entries (rc_Trigger rc)), nr_Port = PortNext, nr_Vars = []\<rparr>, w)"
  unfolding execute_def demo_engine_def
  by (simp add: builtin_lookup demo_node_def node_type_defs node_spec_def execTrigger_def)

lemma demo_run: "eng_run demo_engine ''r'' demo_graph demo_start demo_trace demo_end"
proof -
  let ?row = "start_row demo_engine ''r'' demo_node (Ok (Some []))"
  let ?s1 = "demo_start\<lparr>st_main := [], st_executed := [''t''], st_tasks := [(''t'', Waiting)]\<rparr>"
  let ?at = "\<lambda>s. ?s1\<lparr>st_tasks := [(''t'', s)]\<rparr>"
  have n: "node_by_id demo_graph ''t'' = Some demo_node" by (simp add: node_by_id_def demo_graph_def demo_node_def)
  have runs: "en_runs demo_engine = False" by (simp add: demo_engine_def)
  have c: "gn_Config demo_node = []" by (simp add: demo_node_def)
  note sim = n runs possible_def set_stage_def slots_def demo_start_def activate_def maxConcurrentNodes_def log_row_def end_task_def
  have "eng_run demo_engine ''r'' demo_graph demo_start ([] @ [Start_trigger]) ?s1"
    by (rule run_snoc[OF run_nil]) (simp_all add: sim)
  from run_snoc[OF this, of "Acquire ''t''" "?at Holding"]
  have 2: "eng_run demo_engine ''r'' demo_graph demo_start [Start_trigger, Acquire ''t''] (?at Holding)"
    by (simp add: sim)
  from run_snoc[OF 2, of "Resolve ''t''" "?at (Running ?row (Ok (Some [])))"]
  have 3: "eng_run demo_engine ''r'' demo_graph demo_start [Start_trigger, Acquire ''t'', Resolve ''t''] (?at (Running ?row (Ok (Some []))))"
    by (simp add: sim Let_def resolve_config_def c)
  from run_snoc[OF 3, of "Answer ''t'' (Returns (Ok demo_result))" "?at (Returned ?row (Ok demo_result))"]
  have 4: "eng_run demo_engine ''r'' demo_graph demo_start (take 4 demo_trace) (?at (Returned ?row (Ok demo_result)))"
    by (simp add: sim demo_execute demo_trace_def demo_result_def entries_def)
  have e: "EdgesFrom demo_graph ''t'' p = []" for p by (simp add: EdgesFrom_def demo_graph_def)
  have i: "gn_ID demo_node = ''t''" by (simp add: demo_node_def)
  from run_snoc[OF 4, of "Store ''t''" "demo_end\<lparr>st_tasks := [(''t'', Firing [])]\<rparr>"]
  have 5: "eng_run demo_engine ''r'' demo_graph demo_start (take 5 demo_trace) (demo_end\<lparr>st_tasks := [(''t'', Firing [])]\<rparr>)"
    by (simp add: sim Let_def store_result_def i e put_output_def demo_trace_def demo_result_def demo_end_def)
  from run_snoc[OF 5, of "Leave ''t''" demo_end] show ?thesis
    by (simp add: sim demo_trace_def demo_end_def)
qed

section \<open>A condition that a quote turns true\<close>

definition severity_expr :: string where
  "severity_expr = ''{{trigger.severity}} == '' @ [DQUOTE] @ ''critical'' @ [DQUOTE]"

lemma severity_expr_resolves:
  assumes "rc_Trigger rc = Some [(''severity'', JStr v)]"
  shows "ResolveString lib rc severity_expr = Ok (JStr (v @ '' == '' @ [DQUOTE] @ ''critical'' @ [DQUOTE]))"
proof -
  let ?tail = "'' == '' @ [DQUOTE] @ ''critical'' @ [DQUOTE]"
  have "well_pieced [([], ''trigger.severity'')] ?tail" by code_simp
  from tmpl_split_join[OF this] have sp: "tmpl_split severity_expr = ([([], ''trigger.severity'')], ?tail)"
    by (simp add: severity_expr_def)
  have tr: "TrimSpace ''trigger.severity'' = ''trigger.severity''" by code_simp
  have pa: "SplitByte CHR ''.'' ''trigger.severity'' = [''trigger'', ''severity'']" by code_simp
  have sg: "splitSegment ''severity'' = (''severity'', [])" by code_simp
  have "lookup rc (TrimSpace ''trigger.severity'') = Ok (JStr v)"
    unfolding tr using assms by (simp add: lookup_def pa sg entries_def)
  with ResolveString_mixed[OF sp, of lib rc] show ?thesis by simp
qed

text \<open>
  The condition \<^verbatim>\<open>{{trigger.severity}} == "critical"\<close> fires its true port for every severity that is
  a word followed by a double quote. The comment of \<open>findOperatorIndex\<close> says that the operator scan
  runs before templates are resolved; the engine resolves the whole configuration first, so the quote of
  the value pairs with the quote of the literal, no operator is found and the text is truthy.
\<close>

theorem condition_quote_fires_true:
  assumes "en_reg en = registerBuiltins (en_lib en) []" "gn_Type node = NodeCondition" "gn_Config node \<noteq> []"
    and "decode_map (en_lib en) (gn_Config node) = Ok (Some [(''expr'', JStr severity_expr)])"
    and "rc_Trigger rc = Some [(''severity'', JStr (u @ [DQUOTE]))]" "list_all is_letter u" "u \<noteq> []"
    and "lb_ParseFloat (nl_flow (en_lib en)) (quoted_expr u) = None"
  shows "fst (RunSingle en node rc w) = Ok \<lparr>nr_Output = JObj [(''result'', JBool True)], nr_Port = PortTrue, nr_Vars = []\<rparr>"
proof -
  let ?lib = "nl_flow (en_lib en)" and ?cfg = "Some [(''expr'', JStr (quoted_expr u))]"
  have "ResolveString ?lib rc severity_expr = Ok (JStr (quoted_expr u))"
    using severity_expr_resolves[OF assms(5)] by (simp add: quoted_expr_def)
  then have "resolve_config (en_lib en) rc node = Ok ?cfg"
    using assms(3,4) by (simp add: resolve_config_def entries_def)
  from RunSingle_resolves[OF this, of w] have run: "RunSingle en node rc w = execCondition (en_lib en) (en_exec en) ?cfg rc w"
    using assms(1,2) by (simp add: execute_def builtin_lookup node_spec_def)
  obtain a v where u: "u = a # v" using assms(7) by (cases u) auto
  define m where "m = v @ [DQUOTE] @ '' == '' @ [DQUOTE] @ ''critical''"
  have q: "quoted_expr u = a # m @ [DQUOTE]" by (simp add: quoted_expr_def u m_def)
  have "TrimSpace (quoted_expr u) \<noteq> []"
    unfolding q using letter_space[of a] assms(6) u by (subst TrimSpace_delimited) simp_all
  then show ?thesis
    unfolding run execCondition_def using quoted_expr_true[OF assms(6,7,8)]
    by (simp add: str_at_def any_at_def entries_def)
qed

definition demo_condition :: GraphNode where
  "demo_condition = \<lparr>gn_ID = ''c'', gn_Type = ''condition'', gn_Name = [], gn_Config = ''{}'', gn_Position = None\<rparr>"

definition demo_cond_lib :: node_lib where
  "demo_cond_lib = demo_lib\<lparr>nl_Unmarshal := \<lambda>_. Ok (JObj [(''expr'', JStr severity_expr)])\<rparr>"

theorem condition_quote_fires_true_witness:
  "fst (RunSingle (demo_engine\<lparr>en_lib := demo_cond_lib, en_reg := registerBuiltins demo_cond_lib []\<rparr>) demo_condition
     \<lparr>rc_Trigger = Some [(''severity'', JStr (''info'' @ [DQUOTE]))], rc_Nodes = [], rc_Vars = []\<rparr> ())
   = Ok \<lparr>nr_Output = JObj [(''result'', JBool True)], nr_Port = PortTrue, nr_Vars = []\<rparr>"
proof (rule condition_quote_fires_true[where u = "''info''"])
  show "list_all is_letter ''info''" by (simp add: is_letter_def)
qed (simp_all add: demo_condition_def NodeCondition_def decode_map_def demo_cond_lib_def demo_lib_def)

end
