(* ===== verification/Flow_Runs.thy ===== *)
theory Flow_Runs
  imports Flow_Engine
begin

text \<open>
  What every interleaving of the DAG executor guarantees: a node executes at most once and only
  because a port that fired leads to it, at most \<open>maxConcurrentNodes\<close> nodes execute at a time, every
  run ends, and the status it ends with says whether a node failed without a handler.
\<close>

section \<open>How the steps change the state\<close>

abbreviation stages :: "runState \<Rightarrow> string \<Rightarrow> stage option" where
  "stages st \<equiv> map_of (st_tasks st)"

lemma stages_set_stage [flow_simps]: "stages (set_stage i s st) = (stages st)(i \<mapsto> s)"
  by (simp add: set_stage_def update_conv')

lemma stages_end_task [flow_simps]: "stages (end_task i st) = (stages st)(i := None)"
  by (simp add: end_task_def delete_conv')

lemma set_stage_fields [flow_simps]:
  "st_executed (set_stage i s st) = st_executed st" "st_failed (set_stage i s st) = st_failed st"
  "st_main (set_stage i s st) = st_main st" "st_firstErr (set_stage i s st) = st_firstErr st"
  by (simp_all add: set_stage_def)

lemma end_task_fields [flow_simps]:
  "st_executed (end_task i st) = st_executed st" "st_failed (end_task i st) = st_failed st"
  "st_main (end_task i st) = st_main st" "st_firstErr (end_task i st) = st_firstErr st"
  by (simp_all add: end_task_def)

lemma log_row_fields [flow_simps]:
  "st_executed (log_row en r st) = st_executed st" "st_failed (log_row en r st) = st_failed st"
  "st_main (log_row en r st) = st_main st" "st_tasks (log_row en r st) = st_tasks st"
  "st_firstErr (log_row en r st) = st_firstErr st"
  by (simp_all add: log_row_def)

lemma put_output_fields [flow_simps]:
  "st_executed (put_output i o' vs st) = st_executed st" "st_failed (put_output i o' vs st) = st_failed st"
  "st_main (put_output i o' vs st) = st_main st" "st_tasks (put_output i o' vs st) = st_tasks st"
  "st_firstErr (put_output i o' vs st) = st_firstErr st"
  by (simp_all add: put_output_def)

lemma fail_run_fields [flow_simps]:
  "st_executed (fail_run e st) = st_executed st" "st_failed (fail_run e st)"
  "st_main (fail_run e st) = st_main st" "st_tasks (fail_run e st) = st_tasks st"
  by (simp_all add: fail_run_def)

lemma node_by_id_ID: "node_by_id g i = Some n \<Longrightarrow> gn_ID n = i"
  by (auto simp: node_by_id_def dest!: map_of_SomeD)

lemma activate_noop: "i \<in> set (st_executed st) \<or> st_failed st \<Longrightarrow> activate g i st = st"
  by (simp add: activate_def)

lemma activate_fields [flow_simps]:
  "st_failed (activate g i st) = st_failed st" "st_main (activate g i st) = st_main st"
  "st_firstErr (activate g i st) = st_firstErr st"
  by (simp_all add: activate_def Let_def split: option.splits)

lemma activate_executed:
  "st_executed (activate g i st) = (if i \<in> set (st_executed st) \<or> st_failed st then st_executed st else st_executed st @ [i])"
  by (simp add: activate_def Let_def split: option.splits)

lemma activate_tasks:
  "st_tasks (activate g i st) =
    (if i \<in> set (st_executed st) \<or> st_failed st \<or> node_by_id g i = None then st_tasks st else st_tasks st @ [(i, Waiting)])"
  by (simp add: activate_def Let_def split: option.splits)

lemma activate_stages:
  "stages st i = None \<Longrightarrow> stages (activate g i st) =
    (if i \<in> set (st_executed st) \<or> st_failed st \<or> node_by_id g i = None then stages st else (stages st)(i \<mapsto> Waiting))"
  by (auto simp: activate_tasks map_add_def fun_eq_iff split: option.splits)

lemma activate_stages_other: "j \<noteq> i \<Longrightarrow> stages (activate g i st) j = stages st j"
  by (auto simp: activate_tasks map_add_def split: option.splits)

text \<open>The shape of a step, with the sections of \<open>runNode\<close> after the executor told apart.\<close>

lemma eng_stepE:
  assumes "eng_step en rid g ev st = Some st'"
  obtains (start) t ts where "ev = Start_trigger" "st_main st = t # ts" "st' = activate g t (st\<lparr>st_main := ts\<rparr>)"
  | (acquire) i where "ev = Acquire i" "stages st i = Some Waiting" "slots st < maxConcurrentNodes" "st' = set_stage i Holding st"
  | (resolve) i row cfg where "ev = Resolve i" "stages st i = Some Holding" "st' = set_stage i (Running row cfg) (log_row en (CreateNode row) st)"
  | (answer) i row cfg r where "ev = Answer i (Returns r)" "stages st i = Some (Running row cfg)" "st' = set_stage i (Returned row r) st"
  | (panic) i row cfg m where "ev = Answer i (Panics m)" "stages st i = Some (Running row cfg)" "st' = set_stage i (Panicked m) st"
  | (store) i row r u where "ev = Store i" "stages st i = Some (Returned row r)"
      "st' = set_stage i (Firing (EdgesFrom g i (port_of r))) u" "st_tasks u = st_tasks st" "st_executed u = st_executed st"
      "st_main u = st_main st" "st_failed u = (st_failed st \<or> (\<exists>e. r = Err e) \<and> EdgesFrom g i PortError = [])"
      "(st_firstErr u \<noteq> None) = (st_firstErr st \<noteq> None \<or> st_failed u \<and> \<not> st_failed st)"
  | (fire) i t ts where "ev = Fire i" "stages st i = Some (Firing (t # ts))" "st' = activate g t (set_stage i (Firing ts) st)"
  | (leave) i where "ev = Leave i" "stages st i = Some (Firing [])" "st' = end_task i st"
  | (recover) i m and n :: GraphNode where "ev = Recover i" "stages st i = Some (Panicked m)" "st' = end_task i (fail_run (NodePanicked i (gn_Type n) m) st)"
proof (cases ev)
  case (Store i)
  with assms obtain row r n where h: "stages st i = Some (Returned row r)" "node_by_id g i = Some n" "st' = store_result en g n row r st"
    by (auto split: option.splits stage.splits)
  have i: "gn_ID n = i" by (rule node_by_id_ID[OF h(2)])
  show thesis
  proof (cases r)
    case (Inl e)
    show thesis
    proof (cases "EdgesFrom g i PortError = []")
      case True
      with h(3) i Inl show thesis
        by (intro store[OF Store h(1), of "fail_run (NodeFailed i (gn_Type n) e) (log_row en (UpdateNode (end_row en row r)) st)"])
          (simp_all add: store_result_def port_of_def flow_simps, auto simp: fail_run_def flow_simps)
    next
      case False
      with h(3) i Inl show thesis
        by (intro store[OF Store h(1), of "put_output i (JObj [(''error'', JStr (node_error_text (en_lib en) e))]) [] (log_row en (UpdateNode (end_row en row r)) st)"])
          (simp_all add: store_result_def port_of_def flow_simps)
    qed
  next
    case (Inr res)
    with h(3) i show thesis
      by (intro store[OF Store h(1), of "log_row en (UpdateNode (end_row en row r)) (put_output i (nr_Output res) (nr_Vars res) st)"])
        (simp_all add: store_result_def port_of_def flow_simps)
  qed
next
  case (Recover i)
  with assms obtain m n where h: "stages st i = Some (Panicked m)" "node_by_id g i = Some n"
    by (auto split: option.splits stage.splits)
  with assms Recover have "st' = end_task i (fail_run (NodePanicked i (gn_Type n) m) st)" by simp
  with h show thesis by (intro recover[OF Recover])
qed (use assms in \<open>auto simp: Let_def split: list.splits if_splits option.splits stage.splits outcome.splits
       intro: start acquire resolve answer panic fire leave\<close>)

section \<open>Structure of the state\<close>

definition tasks_ok :: "Graph \<Rightarrow> string list \<Rightarrow> runState \<Rightarrow> bool" where
  "tasks_ok g E st = (distinct (st_executed st) \<and> distinct (map fst (st_tasks st)) \<and>
     (\<forall>i s. stages st i = Some s \<longrightarrow> i \<in> set (st_executed st) \<and> node_by_id g i \<noteq> None) \<and>
     set (st_main st) \<subseteq> set E \<and> slots st \<le> maxConcurrentNodes \<and> (st_failed st \<longleftrightarrow> st_firstErr st \<noteq> None))"

lemma tasks_okD:
  assumes "tasks_ok g E st"
  shows "distinct (st_executed st)" "distinct (map fst (st_tasks st))"
    "stages st i = Some s \<Longrightarrow> i \<in> set (st_executed st)" "stages st i = Some s \<Longrightarrow> node_by_id g i \<noteq> None"
    "set (st_main st) \<subseteq> set E" "slots st \<le> maxConcurrentNodes" "st_failed st \<longleftrightarrow> st_firstErr st \<noteq> None"
    "i \<notin> set (st_executed st) \<Longrightarrow> stages st i = None"
  using assms unfolding tasks_ok_def by (auto, (metis not_None_eq)+)

definition slot_count :: "(string \<times> stage) list \<Rightarrow> nat" where
  "slot_count ts = length (filter (\<lambda>t. holds_slot (snd t)) ts)"

lemma slots_count: "slots st = slot_count (st_tasks st)"
  by (simp add: slots_def slot_count_def)

lemma slot_count_update:
  "map_of ts i = Some s \<Longrightarrow> distinct (map fst ts) \<Longrightarrow>
    slot_count (AList.update i s' ts) + (if holds_slot s then 1 else 0) = slot_count ts + (if holds_slot s' then 1 else 0)"
  by (induction ts) (auto simp: slot_count_def split: if_splits)

lemma slots_set_stage:
  "stages st i = Some s \<Longrightarrow> distinct (map fst (st_tasks st)) \<Longrightarrow>
    slots (set_stage i s' st) + (if holds_slot s then 1 else 0) = slots st + (if holds_slot s' then 1 else 0)"
  using slot_count_update[of "st_tasks st" i s s'] by (simp add: slots_count set_stage_def)

lemma slot_count_delete: "slot_count (AList.delete i ts) \<le> slot_count ts"
  by (induction ts) (auto simp: slot_count_def)

lemma slots_end_task: "slots (end_task i st) \<le> slots st"
  by (simp add: slots_count end_task_def slot_count_delete)

lemma slots_activate: "slots (activate g i st) = slots st"
  by (simp add: slots_def activate_tasks)

lemma slots_cong: "st_tasks u = st_tasks st \<Longrightarrow> slots u = slots st"
  by (simp add: slots_def)

lemma distinct_stage_tasks:
  "distinct (map fst (st_tasks st)) \<Longrightarrow> distinct (map fst (st_tasks (set_stage i s st)))"
  "distinct (map fst (st_tasks st)) \<Longrightarrow> distinct (map fst (st_tasks (end_task i st)))"
  by (simp_all add: set_stage_def end_task_def distinct_update distinct_delete)

lemma tasks_ok_set_stage:
  assumes "tasks_ok g E st" "stages st i = Some s" "slots (set_stage i s' st) \<le> maxConcurrentNodes"
  shows "tasks_ok g E (set_stage i s' st)"
  using assms unfolding tasks_ok_def by (auto simp: flow_simps distinct_stage_tasks)

lemma tasks_ok_end_task: "tasks_ok g E st \<Longrightarrow> tasks_ok g E (end_task i st)"
  using slots_end_task[of i st] unfolding tasks_ok_def by (auto simp: flow_simps distinct_stage_tasks)

lemma tasks_ok_activate:
  assumes "tasks_ok g E st"
  shows "tasks_ok g E (activate g i st)"
proof (cases "i \<in> set (st_executed st) \<or> st_failed st")
  case True
  with assms show ?thesis by (simp add: activate_noop)
next
  case False
  then have "stages st i = None" using tasks_okD(8)[OF assms] by blast
  then have "i \<notin> set (map fst (st_tasks st))" by (simp add: map_of_eq_None_iff)
  with False assms \<open>stages st i = None\<close> show ?thesis
    unfolding tasks_ok_def
    by (auto simp: activate_executed activate_tasks activate_stages slots_activate flow_simps split: if_splits) blast+
qed

lemma tasks_ok_cong:
  "tasks_ok g E st \<Longrightarrow> st_tasks u = st_tasks st \<Longrightarrow> st_executed u = st_executed st \<Longrightarrow> set (st_main u) \<subseteq> set E \<Longrightarrow>
    (st_failed u \<longleftrightarrow> st_firstErr u \<noteq> None) \<Longrightarrow> tasks_ok g E u"
  using slots_cong[of u st] unfolding tasks_ok_def by auto

lemma tasks_ok_step:
  assumes "tasks_ok g E st" and "eng_step en rid g ev st = Some st'"
  shows "tasks_ok g E st'"
  using assms(2)
proof (cases rule: eng_stepE)
  case (start t ts)
  have "tasks_ok g E (st\<lparr>st_main := ts\<rparr>)"
    using tasks_okD(5)[OF assms(1)] tasks_okD(7)[OF assms(1)] start by (intro tasks_ok_cong[OF assms(1)]) auto
  then show ?thesis using start tasks_ok_activate by simp
next
  case (acquire i)
  have "slots (set_stage i Holding st) \<le> maxConcurrentNodes"
    using slots_set_stage[OF acquire(2) tasks_okD(2)[OF assms(1)], of Holding] acquire(3) by simp
  with acquire show ?thesis using tasks_ok_set_stage[OF assms(1)] by simp
next
  case (resolve i row cfg)
  have u: "tasks_ok g E (log_row en (CreateNode row) st)"
    using tasks_okD(5,7)[OF assms(1)] by (intro tasks_ok_cong[OF assms(1)]) (auto simp: flow_simps)
  have "slots (set_stage i (Running row cfg) (log_row en (CreateNode row) st)) \<le> maxConcurrentNodes"
    using slots_set_stage[of "log_row en (CreateNode row) st" i Holding "Running row cfg"] resolve(2) tasks_okD(2,6)[OF u]
    by (simp add: flow_simps)
  with resolve show ?thesis using tasks_ok_set_stage[OF u] by (simp add: flow_simps)
next
  case (answer i row cfg r)
  have "slots st' \<le> maxConcurrentNodes"
    using slots_set_stage[OF answer(2) tasks_okD(2)[OF assms(1)], of "Returned row r"] answer(3) tasks_okD(6)[OF assms(1)] by simp
  with answer show ?thesis using tasks_ok_set_stage[OF assms(1)] by simp
next
  case (panic i row cfg m)
  have "slots st' \<le> maxConcurrentNodes"
    using slots_set_stage[OF panic(2) tasks_okD(2)[OF assms(1)], of "Panicked m"] panic(3) tasks_okD(6)[OF assms(1)] by simp
  with panic show ?thesis using tasks_ok_set_stage[OF assms(1)] by simp
next
  case (store i row r u)
  have u: "tasks_ok g E u"
    using store(4-8) tasks_okD(5,7)[OF assms(1)] by (intro tasks_ok_cong[OF assms(1)]) auto
  have "slots st' \<le> maxConcurrentNodes"
    using slots_set_stage[of u i "Returned row r" "Firing (EdgesFrom g i (port_of r))"] store(2-4) tasks_okD(2,6)[OF u] by simp
  with store show ?thesis using tasks_ok_set_stage[OF u] by simp
next
  case (fire i t ts)
  have "slots (set_stage i (Firing ts) st) \<le> maxConcurrentNodes"
    using slots_set_stage[OF fire(2) tasks_okD(2)[OF assms(1)], of "Firing ts"] tasks_okD(6)[OF assms(1)] by simp
  with fire show ?thesis using tasks_ok_set_stage[OF assms(1) fire(2)] tasks_ok_activate by simp
next
  case (leave i)
  then show ?thesis using tasks_ok_end_task[OF assms(1)] by simp
next
  case (recover i m n)
  have "tasks_ok g E (fail_run (NodePanicked i (gn_Type n) m) st)"
    using tasks_okD(5,7)[OF assms(1)] by (intro tasks_ok_cong[OF assms(1)]) (auto simp: flow_simps fail_run_def)
  with recover show ?thesis using tasks_ok_end_task by simp
qed

section \<open>The state and the events so far\<close>

fun answered_by :: "event \<Rightarrow> string list" where
  "answered_by (Answer i _) = [i]"
| "answered_by _ = []"

text \<open>The nodes whose executor came back, in order.\<close>

definition answers :: "event list \<Rightarrow> string list" where
  "answers tr = concat (map answered_by tr)"

lemma answers_simps [flow_simps]: "answers [] = []" "answers (tr @ [ev]) = answers tr @ answered_by ev"
  by (simp_all add: answers_def)

lemma answers_mem: "i \<in> set (answers tr) \<longleftrightarrow> (\<exists>out. Answer i out \<in> set tr)"
proof -
  have "i \<in> set (answered_by ev) \<longleftrightarrow> (\<exists>out. ev = Answer i out)" for ev by (cases ev) auto
  then show ?thesis by (auto simp: answers_def)
qed

text \<open>
  The nodes an execution is obliged to activate: the entry triggers, and the targets of the port that
  an activated node fired.
\<close>

inductive activated :: "Graph \<Rightarrow> string list \<Rightarrow> event list \<Rightarrow> string \<Rightarrow> bool" for g E tr where
  entry: "t \<in> set E \<Longrightarrow> activated g E tr t"
| fired: "activated g E tr j \<Longrightarrow> Answer j (Returns r) \<in> set tr \<Longrightarrow> t \<in> set (EdgesFrom g j (port_of r)) \<Longrightarrow> activated g E tr t"

lemma activated_mono: "activated g E tr t \<Longrightarrow> set tr \<subseteq> set tr' \<Longrightarrow> activated g E tr' t"
  by (induction rule: activated.induct) (auto intro: activated.intros)

text \<open>What the events say about the stage a goroutine is in.\<close>

fun stage_ok :: "Graph \<Rightarrow> event list \<Rightarrow> string \<Rightarrow> stage \<Rightarrow> bool" where
  "stage_ok g tr i (Returned row r) \<longleftrightarrow> Answer i (Returns r) \<in> set tr"
| "stage_ok g tr i (Firing ts) \<longleftrightarrow> (\<exists>r. Answer i (Returns r) \<in> set tr \<and> set ts \<subseteq> set (EdgesFrom g i (port_of r)))"
| "stage_ok g tr i (Panicked m) \<longleftrightarrow> Answer i (Panics m) \<in> set tr"
| "stage_ok g tr i _ \<longleftrightarrow> i \<notin> set (answers tr)"

definition trace_ok :: "Graph \<Rightarrow> string list \<Rightarrow> event list \<Rightarrow> runState \<Rightarrow> bool" where
  "trace_ok g E tr st = (tasks_ok g E st \<and> (\<forall>i s. stages st i = Some s \<longrightarrow> stage_ok g tr i s) \<and>
     distinct (answers tr) \<and> set (answers tr) \<subseteq> set (st_executed st) \<and>
     (\<forall>i\<in>set (answers tr). node_by_id g i \<noteq> None) \<and> (\<forall>t\<in>set (st_executed st). activated g E tr t))"

lemma trace_okD:
  assumes "trace_ok g E tr st"
  shows "tasks_ok g E st" "stages st i = Some s \<Longrightarrow> stage_ok g tr i s" "distinct (answers tr)"
    "set (answers tr) \<subseteq> set (st_executed st)" "t \<in> set (st_executed st) \<Longrightarrow> activated g E tr t"
    "i \<in> set (answers tr) \<Longrightarrow> node_by_id g i \<noteq> None"
  using assms unfolding trace_ok_def by auto

text \<open>An event that is no answer leaves what the trace says unchanged.\<close>

lemma stage_ok_silent: "answered_by ev = [] \<Longrightarrow> stage_ok g (tr @ [ev]) i s = stage_ok g tr i s"
  by (cases s; cases ev) (auto simp: answers_simps)

lemma stage_ok_other: "i \<noteq> j \<Longrightarrow> stage_ok g (tr @ [Answer j out]) i s = stage_ok g tr i s"
  by (cases s) (auto simp: answers_simps)

lemma activated_snoc: "activated g E tr t \<Longrightarrow> activated g E (tr @ [ev]) t"
  by (erule activated_mono) auto

lemma trace_ok_activate:
  assumes "trace_ok g E tr st" and "activated g E tr i"
  shows "trace_ok g E tr (activate g i st)"
proof (cases "i \<in> set (st_executed st) \<or> st_failed st")
  case True
  with assms show ?thesis by (simp add: activate_noop)
next
  case False
  note t = trace_okD(1)[OF assms(1)]
  from False have n: "stages st i = None" using tasks_okD(8)[OF t] by blast
  have "i \<notin> set (answers tr)" using False trace_okD(4)[OF assms(1)] by blast
  moreover have "stage_ok g tr j s" if "stages (activate g i st) j = Some s" for j s
    using that trace_okD(2)[OF assms(1), of j s] calculation by (auto simp: activate_stages[OF n] split: if_splits)
  ultimately show ?thesis
    using tasks_ok_activate[OF t] False assms trace_okD(3-6)[OF assms(1)] unfolding trace_ok_def
    by (auto simp: activate_executed)
qed

lemma trace_ok_silent: "trace_ok g E tr st \<Longrightarrow> answered_by ev = [] \<Longrightarrow> trace_ok g E (tr @ [ev]) st"
  unfolding trace_ok_def by (auto simp: stage_ok_silent answers_simps intro: activated_snoc)

lemma trace_ok_stage:
  assumes "trace_ok g E tr st" "tasks_ok g E st'" "stages st' = (stages st)(i := x)" "st_executed st' = st_executed st"
    and "\<And>s. x = Some s \<Longrightarrow> stage_ok g tr i s"
  shows "trace_ok g E tr st'"
  using assms unfolding trace_ok_def by (auto split: if_splits)

lemma trace_ok_answer:
  assumes "trace_ok g E tr st" "tasks_ok g E st'" "stages st i = Some (Running row cfg)"
    and "stages st' = (stages st)(i \<mapsto> s)" "st_executed st' = st_executed st" "stage_ok g (tr @ [Answer i out]) i s"
  shows "trace_ok g E (tr @ [Answer i out]) st'"
proof -
  have "i \<notin> set (answers tr)" using trace_okD(2)[OF assms(1,3)] by simp
  moreover have "i \<in> set (st_executed st)" "node_by_id g i \<noteq> None"
    using tasks_okD(3,4)[OF trace_okD(1)[OF assms(1)] assms(3)] by auto
  ultimately show ?thesis
    using assms unfolding trace_ok_def
    by (auto simp: stage_ok_other answers_simps intro: activated_snoc split: if_splits)
qed

lemma trace_ok_step:
  assumes "trace_ok g E tr st" and step: "eng_step en rid g ev st = Some st'"
  shows "trace_ok g E (tr @ [ev]) st'"
proof -
  note t = trace_okD(1)[OF assms(1)]
  have t': "tasks_ok g E st'" by (rule tasks_ok_step[OF t step])
  note stage = trace_ok_stage[OF assms(1) t']
  from step show ?thesis
  proof (cases rule: eng_stepE)
    case (start u us)
    have "tasks_ok g E (st\<lparr>st_main := us\<rparr>)" using t start(2) unfolding tasks_ok_def by (auto simp: slots_def)
    then have "trace_ok g E tr (st\<lparr>st_main := us\<rparr>)" using assms(1) unfolding trace_ok_def by auto
    moreover have "activated g E tr u" using tasks_okD(5)[OF t] start(2) by (auto intro: entry)
    ultimately show ?thesis using start trace_ok_activate trace_ok_silent by simp
  next
    case (acquire i)
    then show ?thesis using trace_okD(2)[OF assms(1) acquire(2)]
      by (intro trace_ok_silent stage[of i "Some Holding"]) (auto simp: flow_simps)
  next
    case (resolve i row cfg)
    then show ?thesis using trace_okD(2)[OF assms(1) resolve(2)]
      by (intro trace_ok_silent stage[of i "Some (Running row cfg)"]) (auto simp: flow_simps)
  next
    case (answer i row cfg r)
    then show ?thesis using trace_ok_answer[OF assms(1) t' answer(2)] by (simp add: flow_simps)
  next
    case (panic i row cfg m)
    then show ?thesis using trace_ok_answer[OF assms(1) t' panic(2)] by (simp add: flow_simps)
  next
    case (store i row r u)
    then show ?thesis using trace_okD(2)[OF assms(1) store(2)]
      by (intro trace_ok_silent stage[of i "Some (Firing (EdgesFrom g i (port_of r)))"]) (auto simp: flow_simps)
  next
    case (fire i u us)
    from trace_okD(2)[OF assms(1) fire(2)] obtain r where
      r: "Answer i (Returns r) \<in> set tr" "u \<in> set (EdgesFrom g i (port_of r))" "set us \<subseteq> set (EdgesFrom g i (port_of r))" by auto
    have "slots (set_stage i (Firing us) st) \<le> maxConcurrentNodes"
      using slots_set_stage[OF fire(2) tasks_okD(2)[OF t], of "Firing us"] tasks_okD(6)[OF t] by simp
    from tasks_ok_set_stage[OF t fire(2) this] have "trace_ok g E tr (set_stage i (Firing us) st)"
      using r by (intro trace_ok_stage[OF assms(1), of _ i "Some (Firing us)"]) (auto simp: flow_simps)
    moreover have "activated g E tr u"
      using trace_okD(5)[OF assms(1) tasks_okD(3)[OF t fire(2)]] r by (blast intro: fired)
    ultimately show ?thesis using fire trace_ok_activate trace_ok_silent by simp
  next
    case (leave i)
    then show ?thesis by (intro trace_ok_silent stage[of i None]) (auto simp: flow_simps)
  next
    case (recover i m n)
    then show ?thesis by (intro trace_ok_silent stage[of i None]) (auto simp: flow_simps)
  qed
qed

text \<open>The state \<open>Execute\<close> starts from.\<close>

definition fresh_state :: "runState \<Rightarrow> bool" where
  "fresh_state st = (st_executed st = [] \<and> st_tasks st = [] \<and> \<not> st_failed st \<and> st_firstErr st = None)"

lemma Execute_start_fresh: "Execute_start en g et tj = Ok st \<Longrightarrow> fresh_state st \<and> st_main st = entries_of en g et"
  by (auto simp: Execute_start_def fresh_state_def split: if_splits)

lemma trace_ok_start: "fresh_state s0 \<Longrightarrow> trace_ok g (st_main s0) [] s0"
  by (auto simp: fresh_state_def trace_ok_def tasks_ok_def slots_def answers_simps)

lemma run_trace_ok: "eng_run en rid g s0 tr st \<Longrightarrow> fresh_state s0 \<Longrightarrow> trace_ok g (st_main s0) tr st"
  by (induction rule: eng_run.induct) (auto intro: trace_ok_start trace_ok_step)

section \<open>What is still owed\<close>

lemma answer_unique: "distinct (answers tr) \<Longrightarrow> Answer i a \<in> set tr \<Longrightarrow> Answer i b \<in> set tr \<Longrightarrow> a = b"
proof (induction tr rule: rev_induct)
  case (snoc ev tr)
  then show ?case using answers_mem[of i tr] by (auto simp: answers_simps)
qed simp

text \<open>A node that panicked, or failed without an edge on its error port.\<close>

definition unhandled :: "Graph \<Rightarrow> event list \<Rightarrow> string \<Rightarrow> bool" where
  "unhandled g tr i = ((\<exists>m. Answer i (Panics m) \<in> set tr) \<or>
     (\<exists>e. Answer i (Returns (Err e)) \<in> set tr \<and> EdgesFrom g i PortError = []))"

lemma unhandled_snoc:
  "unhandled g (tr @ [ev]) i \<longleftrightarrow> unhandled g tr i \<or> unhandled g [ev] i"
  by (auto simp: unhandled_def)

lemma unhandled_silent: "answered_by ev = [] \<Longrightarrow> \<not> unhandled g [ev] i"
  by (cases ev) (auto simp: unhandled_def)

text \<open>Targets that a goroutine has yet to activate; goroutines that have yet to report a failure or to answer.\<close>

definition owes :: "runState \<Rightarrow> string \<Rightarrow> (node_error, NodeResult) result \<Rightarrow> string \<Rightarrow> bool" where
  "owes st j r t = (case stages st j of
     Some (Returned row r') \<Rightarrow> r' = r
   | Some (Firing ts) \<Rightarrow> t \<in> set ts
   | _ \<Rightarrow> False)"

definition reports :: "runState \<Rightarrow> string \<Rightarrow> bool" where
  "reports st i = (case stages st i of Some (Panicked _) \<Rightarrow> True | Some (Returned _ _) \<Rightarrow> True | _ \<Rightarrow> False)"

definition early :: "runState \<Rightarrow> string \<Rightarrow> bool" where
  "early st i = (case stages st i of Some Waiting \<Rightarrow> True | Some Holding \<Rightarrow> True | Some (Running _ _) \<Rightarrow> True | _ \<Rightarrow> False)"

text \<open>\<open>X\<close> are targets taken off a list and about to be activated.\<close>

definition owed_ok :: "string set \<Rightarrow> Graph \<Rightarrow> string list \<Rightarrow> event list \<Rightarrow> runState \<Rightarrow> bool" where
  "owed_ok X g E tr st =
    ((st_failed st \<or> (\<forall>t\<in>set E. t \<in> X \<or> t \<in> set (st_executed st) \<or> t \<in> set (st_main st))) \<and>
     (st_failed st \<or> (\<forall>j r t. Answer j (Returns r) \<in> set tr \<and> t \<in> set (EdgesFrom g j (port_of r)) \<longrightarrow>
        t \<in> X \<or> t \<in> set (st_executed st) \<or> owes st j r t)) \<and>
     (\<forall>i. unhandled g tr i \<longrightarrow> st_failed st \<or> reports st i) \<and>
     (st_failed st \<longrightarrow> (\<exists>i. unhandled g tr i)) \<and>
     (\<forall>t\<in>set (st_executed st). node_by_id g t = None \<or> t \<in> set (answers tr) \<or> early st t))"

lemma owed_okD:
  assumes "owed_ok {} g E tr st"
  shows "\<not> st_failed st \<Longrightarrow> t \<in> set E \<Longrightarrow> t \<in> set (st_executed st) \<or> t \<in> set (st_main st)"
    "\<not> st_failed st \<Longrightarrow> Answer j (Returns r) \<in> set tr \<Longrightarrow> t \<in> set (EdgesFrom g j (port_of r)) \<Longrightarrow> t \<in> set (st_executed st) \<or> owes st j r t"
    "unhandled g tr i \<Longrightarrow> st_failed st \<or> reports st i"
    "st_failed st \<Longrightarrow> \<exists>i. unhandled g tr i"
    "t \<in> set (st_executed st) \<Longrightarrow> node_by_id g t = None \<or> t \<in> set (answers tr) \<or> early st t"
  using assms unfolding owed_ok_def by blast+

lemma owed_ok_silent: "owed_ok X g E tr st \<Longrightarrow> answered_by ev = [] \<Longrightarrow> owed_ok X g E (tr @ [ev]) st"
  unfolding owed_ok_def unhandled_snoc by (cases ev) (auto simp: unhandled_silent answers_simps)

lemma owed_ok_activate:
  assumes "owed_ok {i} g E tr st" "tasks_ok g E st"
  shows "owed_ok {} g E tr (activate g i st)"
proof (cases "i \<in> set (st_executed st) \<or> st_failed st")
  case True
  with assms(1) show ?thesis unfolding activate_noop[OF True] owed_ok_def by auto blast+
next
  case False
  have n: "stages st i = None" using False tasks_okD(8)[OF assms(2)] by blast
  have other: "stages (activate g i st) j = stages st j" if "stages st j \<noteq> None" for j
    using that n activate_stages_other[of j i g st] by (cases "j = i") auto
  have o: "owes (activate g i st) j r t" if "owes st j r t" for j r t
    using that other[of j] by (auto simp: owes_def split: option.splits)
  have r: "reports (activate g i st) j" if "reports st j" for j
    using that other[of j] by (auto simp: reports_def split: option.splits)
  have e: "early (activate g i st) j" if "early st j" for j
    using that other[of j] by (auto simp: early_def split: option.splits)
  have "node_by_id g i = None \<or> early (activate g i st) i" using False by (auto simp: early_def activate_stages[OF n])
  with False assms(1) o r e show ?thesis
    unfolding owed_ok_def by (auto simp: activate_executed flow_simps) blast+
qed

lemma owed_ok_stage:
  assumes "owed_ok {} g E tr st" "trace_ok g E tr st" "stages st i = Some s" "stages st' = (stages st)(i := x)"
    and "st_executed st' = st_executed st" "st_main st' = st_main st" "st_failed st \<Longrightarrow> st_failed st'"
    and own: "\<And>r t. \<not> st_failed st' \<Longrightarrow> owes st i r t \<Longrightarrow> Answer i (Returns r) \<in> set tr \<Longrightarrow> t \<in> set (EdgesFrom g i (port_of r)) \<Longrightarrow> t \<in> X \<or> owes st' i r t"
    and rep: "reports st i \<Longrightarrow> unhandled g tr i \<Longrightarrow> st_failed st' \<or> reports st' i"
    and bad: "st_failed st' \<Longrightarrow> \<not> st_failed st \<Longrightarrow> \<exists>j. unhandled g tr j"
    and ear: "early st i \<Longrightarrow> early st' i"
  shows "owed_ok X g E tr st'"
proof -
  have o: "owes st' j r t = owes st j r t" "reports st' j = reports st j" "early st' j = early st j" if "j \<noteq> i" for j r t
    using that assms(4) by (auto simp: owes_def reports_def early_def)
  have 1: "st_failed st' \<or> (\<forall>t\<in>set E. t \<in> X \<or> t \<in> set (st_executed st') \<or> t \<in> set (st_main st'))"
    using owed_okD(1)[OF assms(1)] assms(5-7) by auto
  have 2: "t \<in> X \<or> t \<in> set (st_executed st') \<or> owes st' j r t"
    if "\<not> st_failed st'" "Answer j (Returns r) \<in> set tr" "t \<in> set (EdgesFrom g j (port_of r))" for j r t
    using owed_okD(2)[OF assms(1) _ that(2,3)] that own[of r t] o(1)[of j r t] assms(5,7) by (cases "j = i") auto
  have 3: "st_failed st' \<or> reports st' j" if "unhandled g tr j" for j
    using owed_okD(3)[OF assms(1) that] that rep o(2)[of j] assms(7) by (cases "j = i") auto
  have 4: "\<exists>j. unhandled g tr j" if "st_failed st'"
    using that bad owed_okD(4)[OF assms(1)] by blast
  have 5: "node_by_id g t = None \<or> t \<in> set (answers tr) \<or> early st' t" if "t \<in> set (st_executed st')" for t
    using owed_okD(5)[OF assms(1), of t] that assms(5) ear o(3)[of t] by (cases "t = i") auto
  show ?thesis unfolding owed_ok_def using 1 2 3 4 5 by blast
qed

lemma owed_ok_answer:
  assumes "owed_ok {} g E tr st" "trace_ok g E tr st" "stages st i = Some (Running row cfg)"
    and "stages st' = (stages st)(i \<mapsto> s)" "st_executed st' = st_executed st" "st_main st' = st_main st" "st_failed st' = st_failed st"
    and s: "(\<exists>r. out = Returns r \<and> s = Returned row r) \<or> (\<exists>m. out = Panics m \<and> s = Panicked m)"
  shows "owed_ok {} g E (tr @ [Answer i out]) st'"
proof -
  have fresh_i: "i \<notin> set (answers tr)" using trace_okD(2)[OF assms(2,3)] by simp
  then have noi: "Answer i a \<notin> set tr" for a by (auto simp: answers_mem)
  have o: "owes st' j r t = owes st j r t" "reports st' j = reports st j" "early st' j = early st j" if "j \<noteq> i" for j r t
    using that assms(4) by (auto simp: owes_def reports_def early_def)
  have ri: "reports st' i" using s assms(4) by (auto simp: reports_def)
  have 2: "t \<in> set (st_executed st') \<or> owes st' j r t"
    if "\<not> st_failed st'" "Answer j (Returns r) \<in> set (tr @ [Answer i out])" "t \<in> set (EdgesFrom g j (port_of r))" for j r t
  proof (cases "j = i")
    case True
    with that noi have "out = Returns r" by auto
    with True s assms(4) show ?thesis by (auto simp: owes_def)
  next
    case False
    with that owed_okD(2)[OF assms(1), of j r t] o(1) assms(5,7) show ?thesis by auto
  qed
  have 3: "st_failed st' \<or> reports st' j" if "unhandled g (tr @ [Answer i out]) j" for j
  proof (cases "j = i")
    case False
    with that have "unhandled g tr j" by (auto simp: unhandled_def)
    with False o(2)[OF False] assms(7) owed_okD(3)[OF assms(1), of j] show ?thesis by auto
  qed (use ri in simp)
  have 5: "node_by_id g t = None \<or> t \<in> set (answers (tr @ [Answer i out])) \<or> early st' t" if "t \<in> set (st_executed st')" for t
    using owed_okD(5)[OF assms(1), of t] that assms(5) o(3)[of t] by (cases "t = i") (auto simp: answers_simps)
  have 4: "\<exists>j. unhandled g (tr @ [Answer i out]) j" if "st_failed st'"
    using owed_okD(4)[OF assms(1)] that assms(7) by (auto simp: unhandled_def)
  show ?thesis
    unfolding owed_ok_def using owed_okD(1)[OF assms(1)] 2 3 4 5 assms(5-7) by auto
qed

lemma owed_ok_step:
  assumes "owed_ok {} g E tr st" "trace_ok g E tr st" and step: "eng_step en rid g ev st = Some st'"
  shows "owed_ok {} g E (tr @ [ev]) st'"
proof -
  note t = trace_okD(1)[OF assms(2)]
  note stage = owed_ok_stage[OF assms(1,2)]
  have main_irrelevant [simp]: "owes (st\<lparr>st_main := us\<rparr>) = owes st" "reports (st\<lparr>st_main := us\<rparr>) = reports st"
    "early (st\<lparr>st_main := us\<rparr>) = early st" for us
    by (simp_all add: owes_def reports_def early_def fun_eq_iff)
  from step show ?thesis
  proof (cases rule: eng_stepE)
    case (start u us)
    have "owed_ok {u} g E tr (st\<lparr>st_main := us\<rparr>)"
      using assms(1) start(2) unfolding owed_ok_def by auto blast+
    moreover have "tasks_ok g E (st\<lparr>st_main := us\<rparr>)" using t start(2) unfolding tasks_ok_def by (auto simp: slots_def)
    ultimately show ?thesis using start owed_ok_activate owed_ok_silent by simp
  next
    case (acquire i)
    then show ?thesis
      by (intro owed_ok_silent stage[OF acquire(2), of _ "Some Holding"]) (auto simp: flow_simps owes_def reports_def early_def)
  next
    case (resolve i row cfg)
    then show ?thesis
      by (intro owed_ok_silent stage[OF resolve(2), of _ "Some (Running row cfg)"]) (auto simp: flow_simps owes_def reports_def early_def)
  next
    case (answer i row cfg r)
    then show ?thesis using owed_ok_answer[OF assms(1,2) answer(2), of st' "Returned row r" "Returns r"] by (simp add: flow_simps)
  next
    case (panic i row cfg m)
    then show ?thesis using owed_ok_answer[OF assms(1,2) panic(2), of st' "Panicked m" "Panics m"] by (simp add: flow_simps)
  next
    case (store i row r u)
    have ans: "Answer i (Returns r) \<in> set tr" using trace_okD(2)[OF assms(2) store(2)] by simp
    have rep: "st_failed u" if "unhandled g tr i"
      using that answer_unique[OF trace_okD(3)[OF assms(2)] ans] store(7) by (auto simp: unhandled_def)
    have bad: "\<exists>j. unhandled g tr j" if "st_failed u" "\<not> st_failed st"
      using that ans store(7) by (auto simp: unhandled_def)
    from store show ?thesis
      by (intro owed_ok_silent stage[OF store(2), of _ "Some (Firing (EdgesFrom g i (port_of r)))"])
        (auto simp: flow_simps owes_def early_def rep bad)
  next
    case (fire i u us)
    have "owed_ok {u} g E tr (set_stage i (Firing us) st)"
      using fire(2) by (intro stage[OF fire(2), of _ "Some (Firing us)"]) (auto simp: flow_simps owes_def reports_def early_def)
    moreover have "slots (set_stage i (Firing us) st) \<le> maxConcurrentNodes"
      using slots_set_stage[OF fire(2) tasks_okD(2)[OF t], of "Firing us"] tasks_okD(6)[OF t] by simp
    ultimately show ?thesis using fire owed_ok_activate owed_ok_silent tasks_ok_set_stage[OF t fire(2)] by simp
  next
    case (leave i)
    then show ?thesis
      by (intro owed_ok_silent stage[OF leave(2), of _ None]) (auto simp: flow_simps owes_def reports_def early_def)
  next
    case (recover i m n)
    have "unhandled g tr i" using trace_okD(2)[OF assms(2) recover(2)] by (auto simp: unhandled_def)
    with recover show ?thesis
      by (intro owed_ok_silent stage[OF recover(2), of _ None]) (auto simp: flow_simps owes_def reports_def early_def)
  qed
qed

lemma run_owed_ok: "eng_run en rid g s0 tr st \<Longrightarrow> fresh_state s0 \<Longrightarrow> owed_ok {} g (st_main s0) tr st"
proof (induction rule: eng_run.induct)
  case run_nil
  then show ?case by (auto simp: owed_ok_def fresh_state_def unhandled_def)
next
  case (run_snoc tr st ev st')
  then show ?case using owed_ok_step run_trace_ok by blast
qed

section \<open>Guarantees\<close>

text \<open>
  C14. In every interleaving, at every moment: no node's executor answers twice (a node executes at
  most once even when several edges lead to it), at most four nodes hold a slot, every node that was
  started is an entry trigger or the target of the port that a started node fired, and the run is
  marked failed exactly when an error is kept.
\<close>

theorem engine_invariant:
  assumes "Execute_start en g entryType triggerJSON = Ok s0" and "eng_run en rid g s0 tr st"
  shows "distinct (answers tr) \<and> slots st \<le> 4 \<and> distinct (st_executed st) \<and>
    set (answers tr) \<subseteq> set (st_executed st) \<and>
    set (st_executed st) \<subseteq> {t. activated g (entries_of en g entryType) tr t} \<and> (st_failed st \<longleftrightarrow> st_firstErr st \<noteq> None)"
proof -
  from Execute_start_fresh[OF assms(1)] have "trace_ok g (entries_of en g entryType) tr st"
    using run_trace_ok[OF assms(2)] by simp
  then show ?thesis
    using tasks_okD(1,6,7)[of g "entries_of en g entryType" st] unfolding trace_ok_def maxConcurrentNodes_def by auto
qed

lemma run_outcome:
  assumes "Execute_start en g entryType triggerJSON = Ok s0" and "eng_run en rid g s0 tr st" and "waited st"
  shows "if \<exists>i. unhandled g tr i then fst (Execute_result st) = RunStatusFailed \<and> snd (Execute_result st) \<noteq> None
    else Execute_result st = (RunStatusSucceeded, None) \<and>
      set (st_executed st) = {t. activated g (entries_of en g entryType) tr t} \<and>
      set (answers tr) = {t. activated g (entries_of en g entryType) tr t \<and> node_by_id g t \<noteq> None}"
proof -
  let ?E = "entries_of en g entryType"
  from Execute_start_fresh[OF assms(1)] have f: "fresh_state s0" "st_main s0 = ?E" by auto
  have T: "trace_ok g ?E tr st" using run_trace_ok[OF assms(2) f(1)] f(2) by simp
  have O: "owed_ok {} g ?E tr st" using run_owed_ok[OF assms(2) f(1)] f(2) by simp
  have w: "st_main st = []" "stages st i = None" for i using assms(3) by (auto simp: waited_def)
  have fail: "(\<exists>i. unhandled g tr i) \<longleftrightarrow> st_failed st"
    using owed_okD(3,4)[OF O] w by (auto simp: reports_def)
  show ?thesis
  proof (cases "st_failed st")
    case True
    with fail tasks_okD(7)[OF trace_okD(1)[OF T]] show ?thesis by (auto simp: Execute_result_def)
  next
    case False
    have "t \<in> set (st_executed st)" if "activated g ?E tr t" for t
      using that
    proof (induction rule: activated.induct)
      case (entry t)
      then show ?case using owed_okD(1)[OF O False] w by auto
    next
      case (fired j r t)
      then show ?case using owed_okD(2)[OF O False] w by (auto simp: owes_def)
    qed
    then have ex: "set (st_executed st) = {t. activated g ?E tr t}" using trace_okD(5)[OF T] by auto
    have rem: "t \<in> set (answers tr)" if "t \<in> set (st_executed st)" "node_by_id g t \<noteq> None" for t
      using owed_okD(5)[OF O that(1)] that(2) w by (auto simp: early_def)
    show ?thesis using rem False fail ex trace_okD(4,6)[OF T] by (auto simp: Execute_result_def)
  qed
qed

text \<open>
  C8. The outcome of a run that has ended (every goroutine gone). Its status is failed exactly when some
  node panicked, or failed with no edge on its error port. Otherwise the nodes that were started are
  exactly the least set that holds the entry triggers and is closed under the port each node fired,
  and each of them that exists in the graph has executed, whatever the interleaving was.
\<close>

theorem engine_outcome:
  assumes "Execute_start en g entryType triggerJSON = Ok s0" and "eng_run en rid g s0 tr st" and "waited st"
  shows "if \<exists>i. unhandled g tr i then fst (Execute_result st) = RunStatusFailed \<and> snd (Execute_result st) \<noteq> None
    else Execute_result st = (RunStatusSucceeded, None) \<and>
      set (st_executed st) = {t. activated g (entries_of en g entryType) tr t} \<and>
      set (answers tr) = {t. activated g (entries_of en g entryType) tr t \<and> node_by_id g t \<noteq> None}"
  by (rule run_outcome[OF assms])

theorem engine_invariant_witness:
  "distinct (answers demo_trace) \<and> slots demo_end \<le> 4"
  using engine_invariant[OF demo_entry demo_run] by simp

theorem engine_outcome_witness:
  "Execute_result demo_end = (RunStatusSucceeded, None) \<and>
   set (st_executed demo_end) = {t. activated demo_graph (entries_of demo_engine demo_graph ''trigger.manual'') demo_trace t}"
proof -
  have "waited demo_end" by (simp add: waited_def demo_end_def demo_start_def)
  moreover have "\<not> (\<exists>i. unhandled demo_graph demo_trace i)" by (auto simp: unhandled_def demo_trace_def)
  ultimately show ?thesis using engine_outcome[OF demo_entry demo_run] by simp
qed

end
