(* ===== verification/Flow_Progress.thy ===== *)
theory Flow_Progress
  imports Flow_Runs
begin

text \<open>
  Every run of the DAG executor ends. The locale \<open>bounded_runs\<close> states what a transition system owes:
  an invariant its steps keep, a measure they decrease, and a step in every state that is not
  final; its lemmas are that runs are bounded and that each can be continued to a final state. The
  executor of one graph is an instance.
\<close>

section \<open>Systems whose runs end\<close>

locale bounded_runs =
  fixes step :: "'e \<Rightarrow> 's \<Rightarrow> 's \<Rightarrow> bool"
    and runs :: "'s \<Rightarrow> 'e list \<Rightarrow> 's \<Rightarrow> bool"
    and good :: "'s \<Rightarrow> bool"
    and final :: "'s \<Rightarrow> bool"
    and msr :: "'s \<Rightarrow> nat"
  assumes runs_nil: "runs s [] s"
    and runs_snoc: "runs s tr t \<Longrightarrow> step ev t u \<Longrightarrow> runs s (tr @ [ev]) u"
    and runs_inv: "runs s tr u \<Longrightarrow> tr = [] \<and> u = s \<or> (\<exists>tr' ev t. tr = tr' @ [ev] \<and> runs s tr' t \<and> step ev t u)"
    and keeps: "good s \<Longrightarrow> step ev s t \<Longrightarrow> good t"
    and decreases: "good s \<Longrightarrow> step ev s t \<Longrightarrow> msr t < msr s"
    and progress: "good s \<Longrightarrow> \<not> final s \<Longrightarrow> \<exists>ev t. step ev s t"
begin

lemma run_bounded: "runs s tr t \<Longrightarrow> good s \<Longrightarrow> good t \<and> length tr + msr t \<le> msr s"
proof (induction tr arbitrary: t rule: rev_induct)
  case Nil
  then show ?case using runs_inv[of s "[]" t] by auto
next
  case (snoc ev tr)
  from runs_inv[OF snoc.prems(1)] obtain u where u: "runs s tr u" "step ev u t" by auto
  from snoc.IH[OF u(1) snoc.prems(2)] have g: "good u" "length tr + msr u \<le> msr s" by auto
  show ?case using keeps[OF g(1) u(2)] decreases[OF g(1) u(2)] g(2) by simp
qed

lemma run_finishes: "runs s tr t \<Longrightarrow> good s \<Longrightarrow> \<exists>tr' u. runs s (tr @ tr') u \<and> final u"
proof (induction "msr t" arbitrary: tr t rule: less_induct)
  case less
  have g: "good t" using run_bounded[OF less.prems] by simp
  show ?case
  proof (cases "final t")
    case True
    with less.prems(1) show ?thesis by (intro exI[of _ "[]"] exI[of _ t]) simp
  next
    case False
    then obtain ev u where e: "step ev t u" using progress[OF g] by blast
    from less.hyps[OF decreases[OF g e] runs_snoc[OF less.prems(1) e] less.prems(2)]
    obtain tr' v where "runs s ((tr @ [ev]) @ tr') v" "final v" by blast
    then show ?thesis by (intro exI[of _ "ev # tr'"] exI[of _ v]) simp
  qed
qed

end

section \<open>The measure of a run\<close>

definition targets :: "Graph \<Rightarrow> string set" where
  "targets g = ge_Target ` set (g_Edges g)"

fun weight :: "nat \<Rightarrow> stage \<Rightarrow> nat" where
  "weight m Waiting = m + 6"
| "weight m Holding = m + 5"
| "weight m (Running _ _) = m + 4"
| "weight m (Returned _ _) = m + 3"
| "weight m (Firing ts) = 1 + length ts"
| "weight m (Panicked _) = 1"

definition tasks_weight :: "nat \<Rightarrow> (string \<times> stage) list \<Rightarrow> nat" where
  "tasks_weight m ts = sum_list (map (weight m \<circ> snd) ts)"

definition run_msr :: "Graph \<Rightarrow> string list \<Rightarrow> runState \<Rightarrow> nat" where
  "run_msr g E st = length (st_main st) + tasks_weight (length (g_Edges g)) (st_tasks st) +
     (length (g_Edges g) + 7) * card ((set E \<union> targets g) - set (st_executed st))"

definition engine_good :: "Graph \<Rightarrow> string list \<Rightarrow> runState \<Rightarrow> bool" where
  "engine_good g E st = (tasks_ok g E st \<and> (\<forall>i ts. stages st i = Some (Firing ts) \<longrightarrow> set ts \<subseteq> targets g))"

lemma EdgesFrom_targets: "set (EdgesFrom g i p) \<subseteq> targets g" and EdgesFrom_length: "length (EdgesFrom g i p) \<le> length (g_Edges g)"
  by (auto simp: EdgesFrom_def targets_def)

lemma tasks_weight_update:
  "map_of ts i = Some s \<Longrightarrow> distinct (map fst ts) \<Longrightarrow> tasks_weight m (AList.update i s' ts) + weight m s = tasks_weight m ts + weight m s'"
  by (induction ts) (auto simp: tasks_weight_def split: if_splits)

lemma tasks_weight_delete:
  "map_of ts i = Some s \<Longrightarrow> distinct (map fst ts) \<Longrightarrow> tasks_weight m (AList.delete i ts) + weight m s = tasks_weight m ts"
proof (induction ts)
  case (Cons t ts)
  show ?case
  proof (cases "fst t = i")
    case True
    with Cons.prems have "i \<notin> fst ` set ts" "snd t = s" by (cases t, auto)+
    with True show ?thesis by (cases t) (simp add: tasks_weight_def)
  next
    case False
    with Cons.prems have "map_of ts i = Some s" "distinct (map fst ts)" by (cases t, auto)+
    from Cons.IH[OF this] False show ?thesis by (cases t) (simp add: tasks_weight_def)
  qed
qed simp

lemma run_msr_set_stage:
  assumes "stages st i = Some s" "distinct (map fst (st_tasks st))"
  shows "run_msr g E (set_stage i s' st) + weight (length (g_Edges g)) s = run_msr g E st + weight (length (g_Edges g)) s'"
  using tasks_weight_update[OF assms, of "length (g_Edges g)" s'] by (simp add: run_msr_def set_stage_def)

lemma run_msr_end_task:
  assumes "stages st i = Some s" "distinct (map fst (st_tasks st))"
  shows "run_msr g E (end_task i st) + weight (length (g_Edges g)) s = run_msr g E st"
  using tasks_weight_delete[OF assms, of "length (g_Edges g)"] by (simp add: run_msr_def end_task_def)

lemma run_msr_activate:
  assumes "i \<in> set E \<union> targets g"
  shows "run_msr g E (activate g i st) \<le> run_msr g E st"
proof (cases "i \<in> set (st_executed st) \<or> st_failed st")
  case False
  let ?U = "set E \<union> targets g"
  have fin: "finite ?U" by (simp add: targets_def)
  have "card (?U - set (st_executed st)) = Suc (card (?U - set (st_executed st) - {i}))"
    using False assms fin by (intro card.remove) auto
  moreover have "?U - insert i (set (st_executed st)) = ?U - set (st_executed st) - {i}" by auto
  ultimately show ?thesis
    using False by (simp add: run_msr_def activate_executed activate_tasks tasks_weight_def flow_simps)
qed (simp add: activate_noop)

lemma run_msr_cong:
  "st_tasks u = st_tasks st \<Longrightarrow> st_executed u = st_executed st \<Longrightarrow> st_main u = st_main st \<Longrightarrow> run_msr g E u = run_msr g E st"
  by (simp add: run_msr_def)

lemma engine_decreases:
  assumes "engine_good g E st" and "eng_step en rid g ev st = Some st'"
  shows "run_msr g E st' < run_msr g E st"
proof -
  from assms(1) have t: "tasks_ok g E st" and f: "\<And>i ts. stages st i = Some (Firing ts) \<Longrightarrow> set ts \<subseteq> targets g"
    unfolding engine_good_def by auto
  note d = tasks_okD(2)[OF t]
  note stage = run_msr_set_stage[OF _ d, of _ _ g E]
  from assms(2) show ?thesis
  proof (cases rule: eng_stepE)
    case (start u us)
    have "u \<in> set E \<union> targets g" using tasks_okD(5)[OF t] start(2) by auto
    from run_msr_activate[OF this, of "st\<lparr>st_main := us\<rparr>"] start show ?thesis by (simp add: run_msr_def)
  next
    case (acquire i)
    then show ?thesis using stage[OF acquire(2), of Holding] by simp
  next
    case (resolve i row cfg)
    let ?u = "log_row en (CreateNode row) st"
    have "run_msr g E ?u = run_msr g E st" by (intro run_msr_cong) (simp_all add: flow_simps)
    then show ?thesis using resolve run_msr_set_stage[of ?u i Holding g E "Running row cfg"] d by (simp add: flow_simps)
  next
    case (answer i row cfg r)
    then show ?thesis using stage[OF answer(2), of "Returned row r"] by simp
  next
    case (panic i row cfg m)
    then show ?thesis using stage[OF panic(2), of "Panicked m"] by simp
  next
    case (store i row r u)
    have "run_msr g E u = run_msr g E st" using store by (intro run_msr_cong)
    then show ?thesis
      using store run_msr_set_stage[of u i "Returned row r" g E "Firing (EdgesFrom g i (port_of r))"] d EdgesFrom_length[of g i "port_of r"]
      by simp
  next
    case (fire i u us)
    have "u \<in> set E \<union> targets g" using f[OF fire(2)] by auto
    from run_msr_activate[OF this, of "set_stage i (Firing us) st"] fire(3) stage[OF fire(2), of "Firing us"]
    show ?thesis by simp
  next
    case (leave i)
    then show ?thesis using run_msr_end_task[OF leave(2) d, of g E] by simp
  next
    case (recover i m n)
    let ?u = "fail_run (NodePanicked i (gn_Type n) m) st"
    have "run_msr g E ?u = run_msr g E st" by (intro run_msr_cong) (simp_all add: flow_simps)
    then show ?thesis using recover run_msr_end_task[of ?u i "Panicked m" g E] d by (simp add: flow_simps)
  qed
qed

lemma engine_keeps:
  assumes "engine_good g E st" and "eng_step en rid g ev st = Some st'"
  shows "engine_good g E st'"
proof -
  from assms(1) have t: "tasks_ok g E st" and f: "\<And>i ts. stages st i = Some (Firing ts) \<Longrightarrow> set ts \<subseteq> targets g"
    unfolding engine_good_def by auto
  have act: "stages (activate g u v) j = Some (Firing ts) \<Longrightarrow> stages v j = Some (Firing ts)" for u v j ts
    by (auto simp: activate_tasks map_add_Some_iff split: if_splits)
  have "set ts \<subseteq> targets g" if "stages st' i = Some (Firing ts)" for i ts
    using assms(2)
  proof (cases rule: eng_stepE)
    case (start u us)
    with that have "stages (st\<lparr>st_main := us\<rparr>) i = Some (Firing ts)" using act[of u "st\<lparr>st_main := us\<rparr>" i ts] by simp
    then show ?thesis using f[of i ts] by simp
  next
    case (store j row r u)
    then show ?thesis using that f[of i ts] EdgesFrom_targets[of g j "port_of r"] by (auto simp: flow_simps split: if_splits)
  next
    case (fire j u us)
    have "stages (set_stage j (Firing us) st) i = Some (Firing ts)" using that fire(3) act[of u "set_stage j (Firing us) st" i ts] by simp
    then show ?thesis using f[of i ts] f[OF fire(2)] by (auto simp: flow_simps split: if_splits)
  qed (use that f[of i ts] in \<open>auto simp: flow_simps split: if_splits\<close>)
  with tasks_ok_step[OF t assms(2)] show ?thesis unfolding engine_good_def by auto
qed

definition eng_moves :: "'w Engine \<Rightarrow> string \<Rightarrow> Graph \<Rightarrow> event \<Rightarrow> runState \<Rightarrow> runState \<Rightarrow> bool" where
  "eng_moves en rid g ev st st' = (possible en g ev st \<and> eng_step en rid g ev st = Some st')"

lemma slots_zero: "(\<And>t. t \<in> set (st_tasks st) \<Longrightarrow> snd t = Waiting) \<Longrightarrow> slots st = 0"
  by (force simp: slots_def filter_empty_conv)

text \<open>A goroutine that is not waiting for a slot can always move.\<close>

lemma task_moves:
  assumes "tasks_ok g E st" "stages st i = Some s" "s \<noteq> Waiting"
  shows "\<exists>ev st'. eng_moves en rid g ev st st'"
proof -
  obtain n where n: "node_by_id g i = Some n" using tasks_okD(4)[OF assms(1,2)] by auto
  show ?thesis
  proof (cases s)
    case Holding
    with assms n show ?thesis by (intro exI[of _ "Resolve i"]) (simp add: eng_moves_def possible_def Let_def)
  next
    case (Running row cfg)
    let ?r = "case cfg of Err e \<Rightarrow> Err e | Ok c \<Rightarrow> fst (execute (en_reg en) (en_exec en) n c (st_rc st) undefined)"
    show ?thesis using assms n Running
      by (intro exI[of _ "Answer i (Returns ?r)"]) (auto simp: eng_moves_def possible_def split: sum.splits)
  next
    case (Returned row r)
    with assms n show ?thesis by (intro exI[of _ "Store i"]) (simp add: eng_moves_def possible_def)
  next
    case (Firing ts)
    show ?thesis
    proof (cases ts)
      case Nil
      with assms Firing show ?thesis by (intro exI[of _ "Leave i"]) (simp add: eng_moves_def possible_def)
    next
      case (Cons u us)
      with assms Firing show ?thesis by (intro exI[of _ "Fire i"]) (simp add: eng_moves_def possible_def)
    qed
  next
    case (Panicked m)
    with assms n show ?thesis by (intro exI[of _ "Recover i"]) (simp add: eng_moves_def possible_def)
  qed (use assms in simp)
qed

lemma engine_progress:
  assumes "engine_good g E st" "\<not> waited st"
  shows "\<exists>ev st'. eng_moves en rid g ev st st'"
proof -
  have t: "tasks_ok g E st" using assms(1) unfolding engine_good_def by simp
  consider (main) u us where "st_main st = u # us" | (task) i s where "(i, s) \<in> set (st_tasks st)" "s \<noteq> Waiting"
    | (wait) i where "(i, Waiting) \<in> set (st_tasks st)" "\<And>t. t \<in> set (st_tasks st) \<Longrightarrow> snd t = Waiting"
    using assms(2) unfolding waited_def by (cases "st_main st"; cases "st_tasks st") fastforce+
  then show ?thesis
  proof cases
    case main
    then show ?thesis by (intro exI[of _ Start_trigger]) (simp add: eng_moves_def possible_def)
  next
    case task
    then show ?thesis using task_moves[OF t] map_of_is_SomeI[OF tasks_okD(2)[OF t]] by blast
  next
    case wait
    have "slots st < maxConcurrentNodes" using slots_zero[OF wait(2)] by (simp add: maxConcurrentNodes_def)
    with wait(1) show ?thesis
      by (intro exI[of _ "Acquire i"]) (simp add: eng_moves_def possible_def map_of_is_SomeI[OF tasks_okD(2)[OF t]])
  qed
qed

interpretation eng: bounded_runs "eng_moves en rid g" "eng_run en rid g" "engine_good g E" waited "run_msr g E" for en rid g E
proof
  fix s tr u ev t
  show "eng_run en rid g s [] s" by (rule run_nil)
  show "eng_run en rid g s tr t \<Longrightarrow> eng_moves en rid g ev t u \<Longrightarrow> eng_run en rid g s (tr @ [ev]) u"
    unfolding eng_moves_def by (blast intro: run_snoc)
  show "eng_run en rid g s tr u \<Longrightarrow> tr = [] \<and> u = s \<or> (\<exists>tr' ev t. tr = tr' @ [ev] \<and> eng_run en rid g s tr' t \<and> eng_moves en rid g ev t u)"
    unfolding eng_moves_def by (erule eng_run.cases) auto
  show "engine_good g E s \<Longrightarrow> \<not> waited s \<Longrightarrow> \<exists>ev t. eng_moves en rid g ev s t" by (rule engine_progress)
qed (auto simp: eng_moves_def intro: engine_keeps engine_decreases)

lemma engine_good_start: "fresh_state s0 \<Longrightarrow> engine_good g (st_main s0) s0"
  using trace_ok_start[of s0 g] unfolding engine_good_def fresh_state_def trace_ok_def by auto

text \<open>
  C9. Every run ends, in every interleaving: the number of steps it can take is bounded by the size of the
  graph, no state short of the end is stuck (the semaphore and the wait group do not deadlock), and
  from every state it can reach the end is reached. Cyclic graphs are included: execute-once stops
  them.
\<close>

theorem engine_terminates:
  assumes "Execute_start en g entryType triggerJSON = Ok s0" and "eng_run en rid g s0 tr st"
  shows "length tr \<le> length (entries_of en g entryType) +
      (length (g_Edges g) + 7) * card (set (entries_of en g entryType) \<union> targets g) \<and>
    (waited st \<or> (\<exists>ev st'. eng_run en rid g s0 (tr @ [ev]) st')) \<and>
    (\<exists>tr' st'. eng_run en rid g s0 (tr @ tr') st' \<and> waited st')"
proof -
  let ?E = "entries_of en g entryType"
  from Execute_start_fresh[OF assms(1)] have f: "fresh_state s0" "st_main s0 = ?E" by auto
  have g: "engine_good g ?E s0" using engine_good_start[OF f(1)] f(2) by simp
  have "run_msr g ?E s0 = length ?E + (length (g_Edges g) + 7) * card (set ?E \<union> targets g)"
    using f by (simp add: run_msr_def fresh_state_def tasks_weight_def)
  then have "length tr \<le> length ?E + (length (g_Edges g) + 7) * card (set ?E \<union> targets g)"
    using eng.run_bounded[OF assms(2) g] by simp
  moreover have "waited st \<or> (\<exists>ev st'. eng_run en rid g s0 (tr @ [ev]) st')"
    using eng.progress[of g ?E st en rid] eng.run_bounded[OF assms(2) g] eng.runs_snoc[OF assms(2)] by blast
  ultimately show ?thesis using eng.run_finishes[OF assms(2) g] by blast
qed

theorem engine_terminates_witness: "\<exists>tr' st'. eng_run demo_engine ''r'' demo_graph demo_start (demo_trace @ tr') st' \<and> waited st'"
  using engine_terminates[OF demo_entry demo_run] by blast

end
