(* ===== verification/Flow_Store.thy ===== *)
theory Flow_Store
  imports Flow_Engine
begin

text \<open>
  Workflow definitions, runs and schedule cursors (\<^verbatim>\<open>internal/manager/model/flow\<close>) and their store
  (\<^verbatim>\<open>internal/manager/data/flow/store/store.go\<close>). Each table is the list of its rows in insertion
  order; a definition is deleted softly. A statement of the database driver may fail: \<open>d_faults\<close> is
  the script of outcomes, one per statement, and a failing statement changes nothing. Row identifiers
  are naturals, counted up by the database.
\<close>

section \<open>Rows\<close>

record Flow =
  fl_ID :: nat
  fl_Name :: string
  fl_Description :: string
  fl_GraphJSON :: string
  fl_Enabled :: bool
  fl_Version :: int
  fl_CreatedBy :: "nat option"
  fl_Deleted :: bool

record FlowRun =
  fr_ID :: string
  fr_FlowID :: nat
  fr_FlowVersion :: int
  fr_Status :: string
  fr_TriggerType :: string
  fr_TriggerJSON :: string
  fr_Error :: string
  fr_CreatedBy :: "nat option"
  fr_StartedAt :: instant
  fr_FinishedAt :: "instant option"
  fr_CreatedAt :: instant

definition RunStatusPending :: string where "RunStatusPending = ''pending''"
definition FlowScheduleStatusEnabled :: string where "FlowScheduleStatusEnabled = ''enabled''"

record FlowScheduleNextFire =
  fs_FlowID :: nat
  fs_NodeID :: string
  fs_CronSpec :: string
  fs_NextFireAt :: instant
  fs_LastFireAt :: "instant option"
  fs_LastHeartbeatAt :: instant
  fs_Status :: string
  fs_MissedCount :: int

record MissedRunInfo =
  mi_FlowID :: string
  mi_NodeID :: string
  mi_CronSpec :: string
  mi_ExpectedFireAt :: instant
  mi_MissedDurationSec :: int

record MissedRunAudit =
  ma_ScheduleID :: string
  ma_ExpectedFireAt :: instant
  ma_MissedDurationSec :: int
  ma_DetectedAt :: instant
  ma_AlertGenerated :: bool

record flow_db =
  d_flows :: "Flow list"
  d_nextID :: nat
  d_runs :: "FlowRun list"
  d_nodes :: "FlowRunNode list"
  d_sched :: "FlowScheduleNextFire list"
  d_audits :: "MissedRunAudit list"
  d_faults :: "string option list"

datatype flow_error =
    FlowNotFound
  | FlowInvalid string
  | NotWiredYet
  | FlowDriver string
  | InvalidGraph graph_error
  | FlowDisabled
  | NoEntryTrigger string
  | TestRefused string
  | TestFailed node_error

definition flow_fault :: "flow_db \<Rightarrow> string option \<times> flow_db" where
  "flow_fault db = (case d_faults db of [] \<Rightarrow> (None, db) | f # fs \<Rightarrow> (f, db\<lparr>d_faults := fs\<rparr>))"

text \<open>One statement: \<open>act\<close> is what it does when the driver does not fail.\<close>

definition stmt :: "(flow_db \<Rightarrow> (flow_error, 'a) result \<times> flow_db) \<Rightarrow> flow_db \<Rightarrow> (flow_error, 'a) result \<times> flow_db" where
  "stmt act db0 = (case flow_fault db0 of (Some e, db) \<Rightarrow> (Err (FlowDriver e), db) | (None, db) \<Rightarrow> act db)"

section \<open>Definitions\<close>

definition live_flow :: "nat \<Rightarrow> Flow \<Rightarrow> bool" where
  "live_flow i f = (fl_ID f = i \<and> \<not> fl_Deleted f)"

definition repo_Create :: "Flow \<Rightarrow> flow_db \<Rightarrow> (flow_error, Flow) result \<times> flow_db" where
  "repo_Create f = stmt (\<lambda>db. let f' = f\<lparr>fl_ID := d_nextID db\<rparr> in
     (Ok f', db\<lparr>d_flows := d_flows db @ [f'], d_nextID := d_nextID db + 1\<rparr>))"

text \<open>The facade saves a definition it has just read, so that the row is there.\<close>

definition repo_Update :: "Flow \<Rightarrow> flow_db \<Rightarrow> (flow_error, unit) result \<times> flow_db" where
  "repo_Update f = stmt (\<lambda>db. (Ok (), db\<lparr>d_flows := map (\<lambda>g. if live_flow (fl_ID f) g then f else g) (d_flows db)\<rparr>))"

definition repo_Get :: "nat \<Rightarrow> flow_db \<Rightarrow> (flow_error, Flow) result \<times> flow_db" where
  "repo_Get i = stmt (\<lambda>db. (case find (live_flow i) (d_flows db) of None \<Rightarrow> Err FlowNotFound | Some f \<Rightarrow> Ok f, db))"

definition repo_List :: "int \<Rightarrow> int \<Rightarrow> flow_db \<Rightarrow> (flow_error, Flow list \<times> nat) result \<times> flow_db" where
  "repo_List limit offset db0 =
    (case stmt (\<lambda>db. (Ok (length (filter (\<lambda>f. \<not> fl_Deleted f) (d_flows db))), db)) db0 of
       (Err e, db) \<Rightarrow> (Err e, db)
     | (Ok cnt, db) \<Rightarrow> stmt (\<lambda>db. (Ok (take (nat limit) (drop (nat offset) (rev (filter (\<lambda>f. \<not> fl_Deleted f) (d_flows db)))), cnt), db)) db)"

definition repo_ListEnabled :: "flow_db \<Rightarrow> (flow_error, Flow list) result \<times> flow_db" where
  "repo_ListEnabled = stmt (\<lambda>db. (Ok (filter (\<lambda>f. \<not> fl_Deleted f \<and> fl_Enabled f) (d_flows db)), db))"

definition repo_Delete :: "nat \<Rightarrow> flow_db \<Rightarrow> (flow_error, unit) result \<times> flow_db" where
  "repo_Delete i = stmt (\<lambda>db.
     if list_ex (live_flow i) (d_flows db)
     then (Ok (), db\<lparr>d_flows := map (\<lambda>f. if live_flow i f then f\<lparr>fl_Deleted := True\<rparr> else f) (d_flows db)\<rparr>)
     else (Err FlowNotFound, db))"

section \<open>Schedule cursors\<close>

definition sched_key :: "nat \<Rightarrow> string \<Rightarrow> string" where
  "sched_key f n = dec f @ '':'' @ n"

definition same_sched :: "FlowScheduleNextFire \<Rightarrow> FlowScheduleNextFire \<Rightarrow> bool" where
  "same_sched s t = (fs_FlowID s = fs_FlowID t \<and> fs_NodeID s = fs_NodeID t)"

definition LoadScheduleStates :: "flow_db \<Rightarrow> (flow_error, FlowScheduleNextFire list) result \<times> flow_db" where
  "LoadScheduleStates = stmt (\<lambda>db. (Ok (filter (\<lambda>s. fs_Status s = FlowScheduleStatusEnabled) (d_sched db)), db))"

definition UpsertScheduleState :: "FlowScheduleNextFire \<Rightarrow> flow_db \<Rightarrow> (flow_error, unit) result \<times> flow_db" where
  "UpsertScheduleState s = stmt (\<lambda>db. (Ok (), db\<lparr>d_sched :=
     (if list_ex (same_sched s) (d_sched db) then map (\<lambda>t. if same_sched s t then s else t) (d_sched db) else d_sched db @ [s])\<rparr>))"

text \<open>The rows are read once and deleted one by one; a failing delete stops the sweep.\<close>

fun delete_stale :: "string list \<Rightarrow> FlowScheduleNextFire list \<Rightarrow> flow_db \<Rightarrow> (flow_error, unit) result \<times> flow_db" where
  "delete_stale keep [] db = (Ok (), db)"
| "delete_stale keep (s # ss) db =
    (if sched_key (fs_FlowID s) (fs_NodeID s) \<in> set keep then delete_stale keep ss db
     else (case stmt (\<lambda>db. (Ok (), db\<lparr>d_sched := filter (\<lambda>t. \<not> same_sched s t) (d_sched db)\<rparr>)) db of
         (Err e, db') \<Rightarrow> (Err e, db')
       | (Ok u, db') \<Rightarrow> delete_stale keep ss db'))"

definition DeleteScheduleStatesNotIn :: "(nat \<times> string) list \<Rightarrow> flow_db \<Rightarrow> (flow_error, unit) result \<times> flow_db" where
  "DeleteScheduleStatesNotIn keys db0 = (case stmt (\<lambda>db. (Ok (d_sched db), db)) db0 of
     (Err e, db) \<Rightarrow> (Err e, db)
   | (Ok ss, db) \<Rightarrow> delete_stale (map (\<lambda>(f, n). sched_key f n) keys) ss db)"

text \<open>Whole seconds of a duration, cut towards zero.\<close>

definition seconds_of :: "int \<Rightarrow> int" where
  "seconds_of d = (if d < 0 then - ((- d) div second) else d div second)"

definition missed_info :: "instant \<Rightarrow> FlowScheduleNextFire \<Rightarrow> MissedRunInfo" where
  "missed_info before s = \<lparr>mi_FlowID = dec (fs_FlowID s), mi_NodeID = fs_NodeID s, mi_CronSpec = fs_CronSpec s,
     mi_ExpectedFireAt = fs_NextFireAt s, mi_MissedDurationSec = seconds_of (before - fs_NextFireAt s)\<rparr>"

definition ListMissed :: "instant \<Rightarrow> flow_db \<Rightarrow> (flow_error, MissedRunInfo list) result \<times> flow_db" where
  "ListMissed before = stmt (\<lambda>db. (Ok (map (missed_info before) (sort_key fs_NextFireAt
     (filter (\<lambda>s. fs_Status s = FlowScheduleStatusEnabled \<and> fs_NextFireAt s < before) (d_sched db)))), db))"

definition RecordMissedAudit :: "instant \<Rightarrow> MissedRunInfo \<Rightarrow> flow_db \<Rightarrow> (flow_error, unit) result \<times> flow_db" where
  "RecordMissedAudit now m db0 =
    (let sid = mi_FlowID m @ '':'' @ mi_NodeID m in
     case stmt (\<lambda>db. (Ok (list_ex (\<lambda>a. ma_ScheduleID a = sid \<and> ma_ExpectedFireAt a = mi_ExpectedFireAt m) (d_audits db)), db)) db0 of
       (Err e, db) \<Rightarrow> (Err e, db)
     | (Ok True, db) \<Rightarrow> (Ok (), db)
     | (Ok False, db) \<Rightarrow> stmt (\<lambda>db. (Ok (), db\<lparr>d_audits := d_audits db @
          [\<lparr>ma_ScheduleID = sid, ma_ExpectedFireAt = mi_ExpectedFireAt m, ma_MissedDurationSec = mi_MissedDurationSec m,
            ma_DetectedAt = now, ma_AlertGenerated = True\<rparr>]\<rparr>)) db)"

section \<open>Runs\<close>

definition repo_CreateRun :: "FlowRun \<Rightarrow> flow_db \<Rightarrow> (flow_error, unit) result \<times> flow_db" where
  "repo_CreateRun r = stmt (\<lambda>db. if list_ex (\<lambda>q. fr_ID q = fr_ID r) (d_runs db) then (Err (FlowDriver ''duplicate key''), db)
     else (Ok (), db\<lparr>d_runs := d_runs db @ [r]\<rparr>))"

definition repo_UpdateRun :: "FlowRun \<Rightarrow> flow_db \<Rightarrow> (flow_error, unit) result \<times> flow_db" where
  "repo_UpdateRun r = stmt (\<lambda>db. (Ok (), db\<lparr>d_runs :=
     (if list_ex (\<lambda>q. fr_ID q = fr_ID r) (d_runs db) then map (\<lambda>q. if fr_ID q = fr_ID r then r else q) (d_runs db) else d_runs db @ [r])\<rparr>))"

definition repo_GetRun :: "string \<Rightarrow> flow_db \<Rightarrow> (flow_error, FlowRun) result \<times> flow_db" where
  "repo_GetRun i = stmt (\<lambda>db. (case find (\<lambda>q. fr_ID q = i) (d_runs db) of None \<Rightarrow> Err FlowNotFound | Some q \<Rightarrow> Ok q, db))"

definition repo_ListRuns :: "nat \<Rightarrow> int \<Rightarrow> flow_db \<Rightarrow> (flow_error, FlowRun list) result \<times> flow_db" where
  "repo_ListRuns f limit = stmt (\<lambda>db. (Ok (take (nat limit) (rev (sort_key fr_CreatedAt
     (filter (\<lambda>r. f = 0 \<or> fr_FlowID r = f) (d_runs db))))), db))"

definition repo_ListNodes :: "string \<Rightarrow> flow_db \<Rightarrow> (flow_error, FlowRunNode list) result \<times> flow_db" where
  "repo_ListNodes i = stmt (\<lambda>db. (Ok (filter (\<lambda>n. fn_RunID n = i) (d_nodes db)), db))"

definition open_status :: "string \<Rightarrow> bool" where
  "open_status s = (s = RunStatusPending \<or> s = RunStatusRunning)"

text \<open>Three statements: the finished runs to drop, their node rows, then the runs.\<close>

definition PruneRuns :: "instant \<Rightarrow> flow_db \<Rightarrow> (flow_error, nat) result \<times> flow_db" where
  "PruneRuns before db0 =
    (case stmt (\<lambda>db. (Ok (map fr_ID (filter (\<lambda>r. fr_CreatedAt r < before \<and> \<not> open_status (fr_Status r)) (d_runs db))), db)) db0 of
       (Err e, db) \<Rightarrow> (Err e, db)
     | (Ok ids, db) \<Rightarrow>
         if ids = [] then (Ok 0, db)
         else (case stmt (\<lambda>db. (Ok (), db\<lparr>d_nodes := filter (\<lambda>n. fn_RunID n \<notin> set ids) (d_nodes db)\<rparr>)) db of
             (Err e, db') \<Rightarrow> (Err e, db')
           | (Ok _, db') \<Rightarrow> stmt (\<lambda>db. (Ok (length (filter (\<lambda>r. fr_ID r \<in> set ids) (d_runs db))),
                db\<lparr>d_runs := filter (\<lambda>r. fr_ID r \<notin> set ids) (d_runs db)\<rparr>)) db'))"

definition SweepStaleRunning :: "string \<Rightarrow> flow_db \<Rightarrow> (flow_error, nat) result \<times> flow_db" where
  "SweepStaleRunning reason = stmt (\<lambda>db. (Ok (length (filter (\<lambda>r. open_status (fr_Status r)) (d_runs db))),
     db\<lparr>d_runs := map (\<lambda>r. if open_status (fr_Status r) then r\<lparr>fr_Status := RunStatusFailed, fr_Error := reason\<rparr> else r) (d_runs db)\<rparr>))"

end
