(* ===== verification/Flow_Usecase.thy ===== *)
theory Flow_Usecase
  imports Flow_Store
begin

text \<open>
  The workflow facade (\<^verbatim>\<open>internal/manager/biz/flow/usecase.go\<close>, \<^verbatim>\<open>catalog.go\<close>) and the alert
  dispatcher (\<^verbatim>\<open>dispatcher.go\<close>): definitions with their versions, launching runs, test runs of
  single nodes, retention. The goroutine that executes a launched run is the transition system of
  \<open>Flow_Engine\<close>; \<open>triggerRun\<close> returns what it is started with and \<open>finish_run\<close> is its last part.
  The clock and the identifier \<^verbatim>\<open>uuid.NewString\<close> returns are arguments.
\<close>

section \<open>The facade\<close>

record ToolMeta =
  tm_Name :: string
  tm_Class :: string

record CreateInput =
  ci_Name :: string
  ci_Description :: string
  ci_GraphJSON :: string
  ci_CreatedBy :: "nat option"

record 'w Usecase =
  uc_repo :: bool
  uc_runs :: bool
  uc_engine :: "'w Engine option"
  uc_lib :: node_lib
  uc_reg :: "'w exec node_registry"
  uc_decode :: "string \<Rightarrow> (string, Graph) result"
  uc_catalog :: "ToolMeta list option"

abbreviation uc_parse :: "'w Usecase \<Rightarrow> string \<Rightarrow> (graph_error, Graph) result" where
  "uc_parse uc \<equiv> ParseGraph (uc_reg uc) (uc_decode uc)"

definition ListTools :: "'w Usecase \<Rightarrow> ToolMeta list" where
  "ListTools uc = (case uc_catalog uc of None \<Rightarrow> [] | Some ts \<Rightarrow> ts)"

definition uc_Create :: "'w Usecase \<Rightarrow> CreateInput \<Rightarrow> flow_db \<Rightarrow> (flow_error, Flow) result \<times> flow_db" where
  "uc_Create uc inp db =
    (if \<not> uc_repo uc then (Err NotWiredYet, db)
     else (let name = TrimSpace (ci_Name inp);
               g0 = TrimSpace (ci_GraphJSON inp);
               graph = (if g0 = [] then ''{}'' else g0) in
       if name = [] then (Err (FlowInvalid ''name required''), db)
       else (case uc_parse uc graph of
           Err e \<Rightarrow> (Err (InvalidGraph e), db)
         | Ok _ \<Rightarrow> repo_Create \<lparr>fl_ID = 0, fl_Name = name, fl_Description = TrimSpace (ci_Description inp), fl_GraphJSON = graph,
              fl_Enabled = True, fl_Version = 1, fl_CreatedBy = ci_CreatedBy inp, fl_Deleted = False\<rparr> db)))"

text \<open>The new row of an update: the graph is only replaced, and the version bumped, when it changed.\<close>

definition updated_flow :: "'w Usecase \<Rightarrow> CreateInput \<Rightarrow> Flow \<Rightarrow> (flow_error, Flow) result" where
  "updated_flow uc inp f =
    (let name = TrimSpace (ci_Name inp);
         f1 = f\<lparr>fl_Name := (if name = [] then fl_Name f else name), fl_Description := TrimSpace (ci_Description inp)\<rparr>;
         graph = TrimSpace (ci_GraphJSON inp) in
     if graph = [] \<or> graph = fl_GraphJSON f then Ok f1
     else (case uc_parse uc graph of
         Err e \<Rightarrow> Err (InvalidGraph e)
       | Ok _ \<Rightarrow> Ok (f1\<lparr>fl_GraphJSON := graph, fl_Version := fl_Version f + 1\<rparr>)))"

definition save_flow :: "Flow \<Rightarrow> flow_db \<Rightarrow> (flow_error, Flow) result \<times> flow_db" where
  "save_flow f db = (case repo_Update f db of (Err e, db') \<Rightarrow> (Err e, db') | (Ok _, db') \<Rightarrow> (Ok f, db'))"

definition uc_Update :: "'w Usecase \<Rightarrow> nat \<Rightarrow> CreateInput \<Rightarrow> flow_db \<Rightarrow> (flow_error, Flow) result \<times> flow_db" where
  "uc_Update uc i inp db0 =
    (if \<not> uc_repo uc then (Err NotWiredYet, db0)
     else (case repo_Get i db0 of
         (Err e, db) \<Rightarrow> (Err e, db)
       | (Ok f, db) \<Rightarrow> (case updated_flow uc inp f of Err e \<Rightarrow> (Err e, db) | Ok f' \<Rightarrow> save_flow f' db)))"

definition uc_SetEnabled :: "'w Usecase \<Rightarrow> nat \<Rightarrow> bool \<Rightarrow> flow_db \<Rightarrow> (flow_error, Flow) result \<times> flow_db" where
  "uc_SetEnabled uc i b db0 =
    (if \<not> uc_repo uc then (Err NotWiredYet, db0)
     else (case repo_Get i db0 of
         (Err e, db) \<Rightarrow> (Err e, db)
       | (Ok f, db) \<Rightarrow> save_flow (f\<lparr>fl_Enabled := b\<rparr>) db))"

definition uc_Get :: "'w Usecase \<Rightarrow> nat \<Rightarrow> flow_db \<Rightarrow> (flow_error, Flow) result \<times> flow_db" where
  "uc_Get uc i db = (if \<not> uc_repo uc then (Err NotWiredYet, db) else repo_Get i db)"

definition uc_List :: "'w Usecase \<Rightarrow> int \<Rightarrow> int \<Rightarrow> flow_db \<Rightarrow> (flow_error, Flow list \<times> nat) result \<times> flow_db" where
  "uc_List uc limit offset db =
    (if \<not> uc_repo uc then (Err NotWiredYet, db)
     else repo_List (if limit \<le> 0 \<or> limit > 200 then 50 else limit) offset db)"

definition uc_Delete :: "'w Usecase \<Rightarrow> nat \<Rightarrow> flow_db \<Rightarrow> (flow_error, unit) result \<times> flow_db" where
  "uc_Delete uc i db = (if \<not> uc_repo uc then (Err NotWiredYet, db) else repo_Delete i db)"

definition ListEnabledFlows :: "'w Usecase \<Rightarrow> flow_db \<Rightarrow> (flow_error, Flow list) result \<times> flow_db" where
  "ListEnabledFlows uc db = (if \<not> uc_repo uc then (Err NotWiredYet, db) else repo_ListEnabled db)"

section \<open>Runs\<close>

definition new_run :: "node_lib \<Rightarrow> instant \<Rightarrow> string \<Rightarrow> Flow \<Rightarrow> string \<Rightarrow> anymap \<Rightarrow> nat option \<Rightarrow> FlowRun" where
  "new_run lib now uid f entryType inp by' =
    \<lparr>fr_ID = uid, fr_FlowID = fl_ID f, fr_FlowVersion = fl_Version f, fr_Status = RunStatusRunning,
     fr_TriggerType = entryType,
     fr_TriggerJSON = (case inp of None \<Rightarrow> ''{}'' | Some m \<Rightarrow> marshal_or_empty lib (JObj m)),
     fr_Error = [], fr_CreatedBy = by', fr_StartedAt = now, fr_FinishedAt = None, fr_CreatedAt = now\<rparr>"

text \<open>On success: the run row and the graph its goroutine executes; \<open>None\<close> when an event finds the flow disabled.\<close>

definition triggerRun ::
  "'w Usecase \<Rightarrow> instant \<Rightarrow> string \<Rightarrow> nat \<Rightarrow> string \<Rightarrow> anymap \<Rightarrow> nat option \<Rightarrow> bool \<Rightarrow> flow_db \<Rightarrow>
    (flow_error, (FlowRun \<times> Graph) option) result \<times> flow_db" where
  "triggerRun uc now uid i entryType inp by' requireEnabled db0 =
    (if \<not> uc_repo uc \<or> \<not> uc_runs uc \<or> uc_engine uc = None then (Err NotWiredYet, db0)
     else (case repo_Get i db0 of
         (Err e, db) \<Rightarrow> (Err e, db)
       | (Ok f, db) \<Rightarrow>
           if \<not> fl_Enabled f then (if requireEnabled then (Err FlowDisabled, db) else (Ok None, db))
           else (case uc_parse uc (fl_GraphJSON f) of
               Err e \<Rightarrow> (Err (InvalidGraph e), db)
             | Ok g \<Rightarrow>
                 if \<not> list_ex (\<lambda>t. gn_Type t = entryType) (Triggers (uc_reg uc) g) then (Err (NoEntryTrigger entryType), db)
                 else (let run = new_run (uc_lib uc) now uid f entryType inp by' in
                   case repo_CreateRun run db of
                     (Err e, db') \<Rightarrow> (Err e, db')
                   | (Ok _, db') \<Rightarrow> (Ok (Some (run, g)), db')))))"

definition uc_Trigger :: "'w Usecase \<Rightarrow> instant \<Rightarrow> string \<Rightarrow> nat \<Rightarrow> anymap \<Rightarrow> nat option \<Rightarrow> flow_db \<Rightarrow>
    (flow_error, (FlowRun \<times> Graph) option) result \<times> flow_db" where
  "uc_Trigger uc now uid i inp by' = triggerRun uc now uid i NodeTriggerManual inp by' True"

definition TriggerEvent :: "'w Usecase \<Rightarrow> instant \<Rightarrow> string \<Rightarrow> nat \<Rightarrow> string \<Rightarrow> anymap \<Rightarrow> flow_db \<Rightarrow>
    (flow_error, (FlowRun \<times> Graph) option) result \<times> flow_db" where
  "TriggerEvent uc now uid i entryType payload = triggerRun uc now uid i entryType payload None False"

fun run_error_text :: "node_lib \<Rightarrow> flow_run_error \<Rightarrow> string" where
  "run_error_text lib (NoTriggerNode l) = ''graph has no '' @ l @ '' trigger node''"
| "run_error_text lib (NodeFailed i t e) = ''node '' @ i @ '' ('' @ t @ ''): '' @ node_error_text lib e"
| "run_error_text lib (NodePanicked i t m) = ''node '' @ i @ '' ('' @ t @ '') panic: '' @ m"

text \<open>The end of the run's goroutine; a failing update is only logged.\<close>

definition finish_run :: "'w Usecase \<Rightarrow> instant \<Rightarrow> FlowRun \<Rightarrow> string \<times> flow_run_error option \<Rightarrow> flow_db \<Rightarrow> flow_db" where
  "finish_run uc fin run res db =
    (let run' = run\<lparr>fr_Status := fst res, fr_FinishedAt := Some fin,
       fr_Error := (case snd res of None \<Rightarrow> fr_Error run | Some e \<Rightarrow> truncate_text (run_error_text (uc_lib uc) e) 2000)\<rparr>
     in snd (repo_UpdateRun run' db))"

definition uc_GetRun :: "'w Usecase \<Rightarrow> string \<Rightarrow> flow_db \<Rightarrow> (flow_error, FlowRun \<times> FlowRunNode list) result \<times> flow_db" where
  "uc_GetRun uc i db0 =
    (if \<not> uc_runs uc then (Err NotWiredYet, db0)
     else (case repo_GetRun i db0 of
         (Err e, db) \<Rightarrow> (Err e, db)
       | (Ok r, db) \<Rightarrow> (case repo_ListNodes i db of (Err e, db') \<Rightarrow> (Err e, db') | (Ok ns, db') \<Rightarrow> (Ok (r, ns), db'))))"

definition uc_ListRuns :: "'w Usecase \<Rightarrow> nat \<Rightarrow> int \<Rightarrow> flow_db \<Rightarrow> (flow_error, FlowRun list) result \<times> flow_db" where
  "uc_ListRuns uc f limit db =
    (if \<not> uc_runs uc then (Err NotWiredYet, db) else repo_ListRuns f (if limit \<le> 0 \<or> limit > 100 then 20 else limit) db)"

definition HealStaleRuns :: "'w Usecase \<Rightarrow> flow_db \<Rightarrow> flow_db" where
  "HealStaleRuns uc db = (if \<not> uc_runs uc then db else snd (SweepStaleRunning ''manager restarted while run was in flight'' db))"

definition defaultRunRetentionDays :: int where "defaultRunRetentionDays = 14"

text \<open>\<open>env\<close> is what \<^verbatim>\<open>strconv.Atoi\<close> makes of the retention variable when it is set.\<close>

definition PruneOldRuns :: "'w Usecase \<Rightarrow> instant \<Rightarrow> int option \<Rightarrow> flow_db \<Rightarrow> flow_db" where
  "PruneOldRuns uc now env db =
    (if \<not> uc_runs uc then db
     else (let days = (case env of Some d \<Rightarrow> if d > 0 then d else defaultRunRetentionDays | None \<Rightarrow> defaultRunRetentionDays)
       in snd (PruneRuns (now - days * 24 * 60 * minute) db)))"

section \<open>Test runs\<close>

text \<open>
  Decoding an object into a struct with one string field: keys match up to case, a later one wins, and a
  value of another type leaves the field alone.
\<close>

definition struct_str :: "string \<Rightarrow> (string \<times> json) list \<Rightarrow> string" where
  "struct_str key m = foldl (\<lambda>acc (k, v). if EqualFold k key then (case v of JStr s \<Rightarrow> s | _ \<Rightarrow> acc) else acc) [] m"

definition config_str :: "node_lib \<Rightarrow> string \<Rightarrow> string \<Rightarrow> string" where
  "config_str lib key cfg = (case nl_Unmarshal lib cfg of Ok (JObj m) \<Rightarrow> struct_str key m | _ \<Rightarrow> [])"

definition testRunSideEffect :: "'w Usecase \<Rightarrow> string \<Rightarrow> string \<Rightarrow> string" where
  "testRunSideEffect uc nodeType cfg =
    (if nodeType = NodeNotify then ''notify node delivers a real message and cannot be test-run; run the whole flow to validate it''
     else if nodeType = NodeTool then
       (let tool = config_str (uc_lib uc) ''tool'' cfg in
        if tool = [] then []
        else (case find (\<lambda>t. tm_Name t = tool) (ListTools uc) of
            None \<Rightarrow> []
          | Some t \<Rightarrow>
              if tm_Class t = ''write'' \<or> tm_Class t = ''destructive''
              then ''tool '' @ nl_Quote (uc_lib uc) tool @ '' is '' @ tm_Class t
                @ ''-class and cannot be test-run because it changes real state; run the whole flow to execute it''
              else []))
     else [])"

definition node_outputs :: "node_lib \<Rightarrow> FlowRunNode list \<Rightarrow> (string \<times> json) list" where
  "node_outputs lib ns = foldl (\<lambda>m n. AList.update (fn_NodeID n)
     (if fn_OutputJSON n = [] then JNull else (case nl_Unmarshal lib (fn_OutputJSON n) of Ok v \<Rightarrow> v | Err _ \<Rightarrow> JNull)) m) [] ns"

text \<open>The outputs of the latest run; a failing query leaves them empty.\<close>

definition latest_outputs :: "'w Usecase \<Rightarrow> nat \<Rightarrow> flow_db \<Rightarrow> (string \<times> json) list \<times> flow_db" where
  "latest_outputs uc f db0 =
    (if \<not> uc_runs uc \<or> f = 0 then ([], db0)
     else (case repo_ListRuns f 1 db0 of
         (Ok (r # _), db) \<Rightarrow> (case repo_ListNodes (fr_ID r) db of
             (Ok ns, db') \<Rightarrow> (node_outputs (uc_lib uc) ns, db')
           | (Err _, db') \<Rightarrow> ([], db'))
       | (_, db) \<Rightarrow> ([], db)))"

definition TestNode :: "'w Usecase \<Rightarrow> nat \<Rightarrow> string \<Rightarrow> string \<Rightarrow> anymap \<Rightarrow> flow_db \<Rightarrow> 'w \<Rightarrow> (flow_error, json) result \<times> flow_db \<times> 'w" where
  "TestNode uc f nodeType cfg triggerInput db0 w = (case uc_engine uc of
     None \<Rightarrow> (Err NotWiredYet, db0, w)
   | Some en \<Rightarrow> (case latest_outputs uc f db0 of (outs, db) \<Rightarrow>
       (let reason = testRunSideEffect uc nodeType cfg in
        if reason \<noteq> [] then (Err (TestRefused reason), db, w)
        else (case RunSingle en \<lparr>gn_ID = ''test'', gn_Type = nodeType, gn_Name = [], gn_Config = cfg, gn_Position = None\<rparr>
                \<lparr>rc_Trigger = triggerInput, rc_Nodes = outs, rc_Vars = []\<rparr> w of
            (Err e, w') \<Rightarrow> (Err (TestFailed e), db, w')
          | (Ok res, w') \<Rightarrow> (Ok (nr_Output res), db, w')))))"

section \<open>Alert dispatch\<close>

definition severityRank :: "string \<Rightarrow> nat" where
  "severityRank s = (if s = ''warning'' then 1 else if s = ''error'' then 2 else if s = ''critical'' then 3 else 0)"

definition alertMatches :: "node_lib \<Rightarrow> string \<Rightarrow> string \<Rightarrow> string \<Rightarrow> bool" where
  "alertMatches lib cfgRaw rule severity =
    (let want = TrimSpace (if cfgRaw = [] then [] else config_str lib ''rule'' cfgRaw);
         ms = ToLower (TrimSpace (if cfgRaw = [] then [] else config_str lib ''min_severity'' cfgRaw)) in
     if want \<noteq> [] \<and> \<not> Contains (ToLower rule) (ToLower want) then False
     else if ms \<noteq> [] \<and> severityRank (ToLower severity) < severityRank ms then False
     else True)"

definition alert_entry :: "'w Usecase \<Rightarrow> string \<Rightarrow> string \<Rightarrow> Graph \<Rightarrow> bool" where
  "alert_entry uc rule severity g =
    list_ex (\<lambda>t. gn_Type t = NodeTriggerAlert \<and> alertMatches (uc_lib uc) (gn_Config t) rule severity) (Triggers (uc_reg uc) g)"

text \<open>The trigger payload of an alert; \<open>fired_at\<close> is the formatted time.\<close>

definition alert_payload :: "nat \<Rightarrow> string \<Rightarrow> string \<Rightarrow> nat \<Rightarrow> nat \<Rightarrow> (string \<times> string) list \<Rightarrow> string \<Rightarrow> anymap" where
  "alert_payload incidentID rule severity edgeID deviceID labels fired_at = Some
     [(''incident_id'', JInt (int incidentID)), (''rule'', JStr rule), (''severity'', JStr severity),
      (''edge_id'', JInt (int edgeID)), (''device_id'', JInt (int deviceID)),
      (''labels'', JObj (map (\<lambda>(k, v). (k, JStr v)) labels)), (''fired_at'', JStr fired_at)]"

text \<open>
  One run per flow: the loop over the triggers stops at the first that matches, whatever
  \<open>TriggerEvent\<close> returned. The result lists the runs started, in order. \<open>uids\<close> has an
  identifier for every flow.
\<close>

fun dispatch_flows :: "'w Usecase \<Rightarrow> instant \<Rightarrow> string \<Rightarrow> string \<Rightarrow> anymap \<Rightarrow> Flow list \<Rightarrow> string list \<Rightarrow> flow_db \<Rightarrow> (FlowRun \<times> Graph) list \<times> flow_db" where
  "dispatch_flows uc now rule severity payload [] uids db = ([], db)"
| "dispatch_flows uc now rule severity payload (f # fs) uids db = (case uc_parse uc (fl_GraphJSON f) of
     Err _ \<Rightarrow> dispatch_flows uc now rule severity payload fs uids db
   | Ok g \<Rightarrow>
       if alert_entry uc rule severity g then
         (case TriggerEvent uc now (hd uids) (fl_ID f) NodeTriggerAlert payload db of
            (Ok (Some started), db') \<Rightarrow>
              (case dispatch_flows uc now rule severity payload fs (tl uids) db' of (rs, db'') \<Rightarrow> (started # rs, db''))
          | (_, db') \<Rightarrow> dispatch_flows uc now rule severity payload fs (tl uids) db')
       else dispatch_flows uc now rule severity payload fs uids db)"

definition dispatch :: "'w Usecase \<Rightarrow> instant \<Rightarrow> string \<Rightarrow> string \<Rightarrow> anymap \<Rightarrow> string list \<Rightarrow> flow_db \<Rightarrow> (FlowRun \<times> Graph) list \<times> flow_db" where
  "dispatch uc now rule severity payload uids db0 = (case ListEnabledFlows uc db0 of
     (Err _, db) \<Rightarrow> ([], db)
   | (Ok fs, db) \<Rightarrow> dispatch_flows uc now rule severity payload fs uids db)"

section \<open>Facts on statements\<close>

lemma flow_fault_tables:
  "flow_fault db = (x, db') \<Longrightarrow> d_flows db' = d_flows db \<and> d_runs db' = d_runs db \<and> d_nextID db' = d_nextID db \<and>
     d_nodes db' = d_nodes db \<and> d_sched db' = d_sched db \<and> d_audits db' = d_audits db"
  by (auto simp: flow_fault_def split: list.splits)

lemma stmtE:
  assumes "stmt act db0 = (r, db')"
  obtains e where "r = Err (FlowDriver e)" "d_flows db' = d_flows db0" "d_nextID db' = d_nextID db0" "d_runs db' = d_runs db0"
  | db where "act db = (r, db')" "d_flows db = d_flows db0" "d_nextID db = d_nextID db0" "d_runs db = d_runs db0"
proof -
  obtain x db where f: "flow_fault db0 = (x, db)" by force
  from flow_fault_tables[OF f] have t: "d_flows db = d_flows db0" "d_nextID db = d_nextID db0" "d_runs db = d_runs db0" by auto
  show thesis
  proof (cases x)
    case (Some e)
    with assms f have "r = Err (FlowDriver e)" "db' = db" by (auto simp: stmt_def)
    with t show thesis by (intro that(1)[of e]) simp_all
  next
    case None
    with assms f have "act db = (r, db')" by (simp add: stmt_def)
    with t show thesis by (intro that(2))
  qed
qed

lemma stmt_nofault: "d_faults db = [] \<Longrightarrow> stmt act db = act db"
  by (simp add: stmt_def flow_fault_def)

section \<open>Definitions stay valid\<close>

text \<open>
  What holds of the table of definitions: identifiers are unique and below the counter, versions start at
  one, and every stored graph parses and validates.
\<close>

definition flow_row_ok :: "'w Usecase \<Rightarrow> Flow \<Rightarrow> bool" where
  "flow_row_ok uc f = (fl_Version f \<ge> 1 \<and> (case uc_parse uc (fl_GraphJSON f) of Ok _ \<Rightarrow> True | Err _ \<Rightarrow> False))"

definition flows_ok :: "'w Usecase \<Rightarrow> flow_db \<Rightarrow> bool" where
  "flows_ok uc db = (distinct (map fl_ID (d_flows db)) \<and> (\<forall>f\<in>set (d_flows db). fl_ID f < d_nextID db \<and> flow_row_ok uc f))"

lemma flows_ok_same: "d_flows db' = d_flows db \<Longrightarrow> d_nextID db' = d_nextID db \<Longrightarrow> flows_ok uc db' = flows_ok uc db"
  by (simp add: flows_ok_def)

lemma repo_Get_facts:
  assumes "repo_Get i db0 = (r, db)"
  shows "d_flows db = d_flows db0" "d_nextID db = d_nextID db0" "d_runs db = d_runs db0"
    "r = Ok f \<Longrightarrow> f \<in> set (d_flows db0) \<and> live_flow i f"
  using assms unfolding repo_Get_def
  by (auto elim!: stmtE split: option.splits dest: find_Some_mem)

lemma flows_ok_insert:
  assumes "flows_ok uc db" "flow_row_ok uc f"
  shows "flows_ok uc (db\<lparr>d_flows := d_flows db @ [f\<lparr>fl_ID := d_nextID db\<rparr>], d_nextID := d_nextID db + 1\<rparr>)"
proof -
  have "d_nextID db \<notin> set (map fl_ID (d_flows db))" using assms(1) unfolding flows_ok_def by auto
  moreover have "flow_row_ok uc (f\<lparr>fl_ID := d_nextID db\<rparr>)" using assms(2) by (simp add: flow_row_ok_def)
  ultimately show ?thesis using assms(1) unfolding flows_ok_def by auto
qed

lemma flows_ok_map:
  assumes "flows_ok uc db" "\<And>f. f \<in> set (d_flows db) \<Longrightarrow> fl_ID (h f) = fl_ID f \<and> flow_row_ok uc (h f)"
  shows "flows_ok uc (db\<lparr>d_flows := map h (d_flows db)\<rparr>)"
proof -
  have "map (fl_ID \<circ> h) (d_flows db) = map fl_ID (d_flows db)" using assms(2) by simp
  then have "distinct (map (fl_ID \<circ> h) (d_flows db))" using assms(1) unfolding flows_ok_def by metis
  with assms show ?thesis unfolding flows_ok_def by auto
qed

lemma save_flow_ok:
  assumes "flows_ok uc db" "flow_row_ok uc f" "save_flow f db = (r, db')"
  shows "flows_ok uc db'"
proof -
  from assms(3) obtain x where "repo_Update f db = (x, db')" by (auto simp: save_flow_def split: sum.splits prod.splits)
  then show ?thesis unfolding repo_Update_def
  proof (cases rule: stmtE)
    case (1 e)
    with assms(1) flows_ok_same show ?thesis by blast
  next
    case (2 u)
    have "flows_ok uc u" using assms(1) 2 flows_ok_same by blast
    then have "flows_ok uc (u\<lparr>d_flows := map (\<lambda>g. if live_flow (fl_ID f) g then f else g) (d_flows u)\<rparr>)"
      using assms(2) by (intro flows_ok_map) (auto simp: live_flow_def flows_ok_def)
    with 2 show ?thesis by auto
  qed
qed

lemma repo_Create_ok:
  assumes "flows_ok uc db" "flow_row_ok uc f" "repo_Create f db = (r, db')"
  shows "flows_ok uc db'"
  using assms(3) unfolding repo_Create_def
proof (cases rule: stmtE)
  case (1 e)
  with assms(1) flows_ok_same show ?thesis by blast
next
  case (2 u)
  have "flows_ok uc u" using assms(1) 2 flows_ok_same by blast
  from flows_ok_insert[OF this assms(2)] 2(1) show ?thesis by (auto simp: Let_def)
qed

lemma uc_Create_ok:
  assumes "flows_ok uc db" "uc_Create uc inp db = (r, db')"
  shows "flows_ok uc db'"
proof -
  from assms(2) consider "db' = db" | f where "repo_Create f db = (r, db')" "flow_row_ok uc f"
    by (auto simp: uc_Create_def Let_def flow_row_ok_def split: if_splits sum.splits)
  then show ?thesis using assms(1) repo_Create_ok by cases blast+
qed

lemma updated_flow_ok: "flow_row_ok uc f \<Longrightarrow> updated_flow uc inp f = Ok f' \<Longrightarrow> flow_row_ok uc f' \<and> fl_ID f' = fl_ID f"
  unfolding updated_flow_def Let_def flow_row_ok_def by (auto split: if_splits sum.splits)

lemma uc_Update_ok:
  assumes "flows_ok uc db" "uc_Update uc i inp db = (r, db')"
  shows "flows_ok uc db'"
proof (cases "repo_Get i db")
  case (Pair g db1)
  note G = repo_Get_facts[OF Pair]
  have ok1: "flows_ok uc db1" using assms(1) G flows_ok_same by blast
  show ?thesis
  proof (cases g)
    case (Inl e)
    with assms ok1 Pair show ?thesis by (auto simp: uc_Update_def split: if_splits)
  next
    case (Inr f)
    have "flow_row_ok uc f" using G(4)[OF Inr] assms(1) unfolding flows_ok_def by blast
    from updated_flow_ok[OF this] assms ok1 Pair Inr show ?thesis
      by (auto simp: uc_Update_def split: if_splits sum.splits intro: save_flow_ok)
  qed
qed

lemma uc_SetEnabled_ok:
  assumes "flows_ok uc db" "uc_SetEnabled uc i b db = (r, db')"
  shows "flows_ok uc db'"
proof (cases "repo_Get i db")
  case (Pair g db1)
  note G = repo_Get_facts[OF Pair]
  have ok1: "flows_ok uc db1" using assms(1) G flows_ok_same by blast
  show ?thesis
  proof (cases g)
    case (Inl e)
    with assms ok1 Pair show ?thesis by (auto simp: uc_SetEnabled_def split: if_splits)
  next
    case (Inr f)
    have "flow_row_ok uc (f\<lparr>fl_Enabled := b\<rparr>)" using G(4)[OF Inr] assms(1) unfolding flows_ok_def flow_row_ok_def by auto
    with assms ok1 Pair Inr show ?thesis
      by (auto simp: uc_SetEnabled_def split: if_splits intro: save_flow_ok)
  qed
qed

lemma uc_Delete_ok:
  assumes "flows_ok uc db" "uc_Delete uc i db = (r, db')"
  shows "flows_ok uc db'"
proof (cases "uc_repo uc")
  case True
  with assms(2) have "repo_Delete i db = (r, db')" by (simp add: uc_Delete_def)
  then show ?thesis unfolding repo_Delete_def
  proof (cases rule: stmtE)
    case (1 e)
    with assms(1) flows_ok_same show ?thesis by blast
  next
    case (2 u)
    have ok: "flows_ok uc u" using assms(1) 2 flows_ok_same by blast
    have "flows_ok uc (u\<lparr>d_flows := map (\<lambda>f. if live_flow i f then f\<lparr>fl_Deleted := True\<rparr> else f) (d_flows u)\<rparr>)"
      using ok by (intro flows_ok_map) (auto simp: flows_ok_def flow_row_ok_def)
    with 2 ok show ?thesis by (auto split: if_splits)
  qed
qed (use assms in \<open>simp add: uc_Delete_def\<close>)

lemma triggerRun_flows:
  assumes "triggerRun uc now uid i et inp by' req db = (r, db')"
  shows "d_flows db' = d_flows db" "d_nextID db' = d_nextID db"
proof -
  have c: "d_flows u' = d_flows u \<and> d_nextID u' = d_nextID u" if "repo_CreateRun q u = (x, u')" for q u x u'
    using that unfolding repo_CreateRun_def by (cases rule: stmtE) (auto split: if_splits)
  obtain g u where G: "repo_Get i db = (g, u)" by force
  have "d_flows db' = d_flows db \<and> d_nextID db' = d_nextID db"
    using assms G repo_Get_facts[OF G] c
    by (auto simp: triggerRun_def Let_def split: if_splits sum.splits prod.splits)
  then show "d_flows db' = d_flows db" "d_nextID db' = d_nextID db" by auto
qed

text \<open>The operations of the facade on definitions and runs, as one datatype of requests.\<close>

datatype flow_request =
    RCreate CreateInput
  | RUpdate nat CreateInput
  | RSetEnabled nat bool
  | RDelete nat
  | RTrigger instant string nat string anymap "nat option" bool
  | RFinish instant FlowRun "string \<times> flow_run_error option"
  | RHeal
  | RPrune instant "int option"

definition serve :: "'w Usecase \<Rightarrow> flow_request \<Rightarrow> flow_db \<Rightarrow> flow_db" where
  "serve uc q db = (case q of
     RCreate inp \<Rightarrow> snd (uc_Create uc inp db)
   | RUpdate i inp \<Rightarrow> snd (uc_Update uc i inp db)
   | RSetEnabled i b \<Rightarrow> snd (uc_SetEnabled uc i b db)
   | RDelete i \<Rightarrow> snd (uc_Delete uc i db)
   | RTrigger now uid i et inp by' req \<Rightarrow> snd (triggerRun uc now uid i et inp by' req db)
   | RFinish fin run res \<Rightarrow> finish_run uc fin run res db
   | RHeal \<Rightarrow> HealStaleRuns uc db
   | RPrune now env \<Rightarrow> PruneOldRuns uc now env db)"

inductive served :: "'w Usecase \<Rightarrow> flow_db \<Rightarrow> bool" for uc where
  empty: "d_flows db = [] \<Longrightarrow> served uc db"
| step: "served uc db \<Longrightarrow> served uc (serve uc q db)"

definition same_defs :: "flow_db \<Rightarrow> flow_db \<Rightarrow> bool" where
  "same_defs db db' = (d_flows db' = d_flows db \<and> d_nextID db' = d_nextID db)"

lemma stmt_same_defs:
  assumes "stmt act db = (r, db')" "\<And>u. same_defs u (snd (act u))"
  shows "same_defs db db'"
  using assms(1)
proof (cases rule: stmtE)
  case (2 u)
  with assms(2)[of u] show ?thesis by (simp add: same_defs_def)
qed (simp add: same_defs_def)

lemma PruneRuns_same_defs:
  assumes "PruneRuns b db = (r, db')"
  shows "same_defs db db'"
proof -
  define a1 where "a1 = (\<lambda>db. (Ok (map fr_ID (filter (\<lambda>r. fr_CreatedAt r < b \<and> \<not> open_status (fr_Status r)) (d_runs db))), db) :: (flow_error, string list) result \<times> flow_db)"
  define a2 where "a2 = (\<lambda>ids db. (Ok (), db\<lparr>d_nodes := filter (\<lambda>n. fn_RunID n \<notin> set ids) (d_nodes db)\<rparr>) :: (flow_error, unit) result \<times> flow_db)"
  obtain r1 u1 where 1: "stmt a1 db = (r1, u1)" by force
  have k1: "same_defs db u1" by (rule stmt_same_defs[OF 1]) (simp add: a1_def same_defs_def)
  show ?thesis
  proof (cases "\<exists>ids. r1 = Ok ids \<and> ids \<noteq> []")
    case False
    with assms 1 k1 show ?thesis unfolding PruneRuns_def a1_def[symmetric] by (auto split: sum.splits)
  next
    case True
    then obtain ids where ids: "r1 = Ok ids" "ids \<noteq> []" by blast
    obtain r2 u2 where 2: "stmt (a2 ids) u1 = (r2, u2)" by force
    have k2: "same_defs u1 u2" by (rule stmt_same_defs[OF 2]) (simp add: a2_def same_defs_def)
    have "same_defs u2 db'" if "r2 = Ok ()"
    proof -
      define a3 where "a3 = (\<lambda>db. (Ok (length (filter (\<lambda>r. fr_ID r \<in> set ids) (d_runs db))),
        db\<lparr>d_runs := filter (\<lambda>r. fr_ID r \<notin> set ids) (d_runs db)\<rparr>) :: (flow_error, nat) result \<times> flow_db)"
      have "stmt a3 u2 = (r, db')" using assms 1 2 ids that unfolding PruneRuns_def a1_def[symmetric] a2_def a3_def by simp
      then show ?thesis by (rule stmt_same_defs) (simp add: a3_def same_defs_def)
    qed
    moreover have "db' = u2" if "r2 \<noteq> Ok ()"
      using assms 1 2 ids that unfolding PruneRuns_def a1_def[symmetric] a2_def by (auto split: sum.splits)
    ultimately show ?thesis using k1 k2 by (cases "r2 = Ok ()") (auto simp: same_defs_def)
  qed
qed

lemma runs_only:
  "same_defs db (finish_run uc fin run res db)" "same_defs db (HealStaleRuns uc db)" "same_defs db (PruneOldRuns uc now env db)"
proof -
  have "same_defs db (snd (repo_UpdateRun q db))" for q
    unfolding repo_UpdateRun_def by (rule stmt_same_defs[OF surjective_pairing]) (simp add: same_defs_def)
  then show "same_defs db (finish_run uc fin run res db)" by (simp add: finish_run_def Let_def)
  have "same_defs db (snd (SweepStaleRunning q db))" for q
    unfolding SweepStaleRunning_def by (rule stmt_same_defs[OF surjective_pairing]) (simp add: same_defs_def)
  then show "same_defs db (HealStaleRuns uc db)" by (simp add: HealStaleRuns_def same_defs_def)
  show "same_defs db (PruneOldRuns uc now env db)"
    using PruneRuns_same_defs[OF surjective_pairing] by (simp add: PruneOldRuns_def Let_def same_defs_def)
qed

lemma same_defs_ok: "same_defs db db' \<Longrightarrow> flows_ok uc db \<Longrightarrow> flows_ok uc db'"
  by (simp add: same_defs_def flows_ok_def)

text \<open>
  C25. Whatever requests the facade serves, and whatever statements fail, the definitions stay well formed:
  identifiers are unique, versions are positive, and every stored graph passes \<open>Validate\<close>, so
  that a run never starts from a graph that was rejected.
\<close>

theorem flow_definitions_valid:
  assumes "served uc db"
  shows "flows_ok uc db"
  using assms
proof (induction rule: served.induct)
  case (empty db)
  then show ?case by (simp add: flows_ok_def)
next
  case (step db q)
  note ok = step.IH
  show ?case
  proof (cases q)
    case (RTrigger now uid i et inp by' req)
    have "same_defs db (serve uc q db)"
      using triggerRun_flows[OF surjective_pairing, of uc now uid i et inp by' req db] RTrigger by (simp add: serve_def same_defs_def)
    with ok same_defs_ok show ?thesis by blast
  next
    case (RFinish fin run res)
    with same_defs_ok[OF runs_only(1) ok] show ?thesis by (simp add: serve_def)
  next
    case RHeal
    with same_defs_ok[OF runs_only(2) ok] show ?thesis by (simp add: serve_def)
  next
    case (RPrune now env)
    with same_defs_ok[OF runs_only(3) ok] show ?thesis by (simp add: serve_def)
  next
    case (RCreate inp)
    with uc_Create_ok[OF ok surjective_pairing] show ?thesis by (simp add: serve_def)
  next
    case (RUpdate i inp)
    with uc_Update_ok[OF ok surjective_pairing] show ?thesis by (simp add: serve_def)
  next
    case (RSetEnabled i b)
    with uc_SetEnabled_ok[OF ok surjective_pairing] show ?thesis by (simp add: serve_def)
  next
    case (RDelete i)
    with uc_Delete_ok[OF ok surjective_pairing] show ?thesis by (simp add: serve_def)
  qed
qed

definition demo_uc :: "unit Usecase" where
  "demo_uc = \<lparr>uc_repo = True, uc_runs = True, uc_engine = Some demo_engine, uc_lib = demo_lib, uc_reg = [],
     uc_decode = \<lambda>_. Ok \<lparr>g_Nodes = [], g_Edges = []\<rparr>, uc_catalog = None\<rparr>"

definition flow_empty_db :: flow_db where
  "flow_empty_db = \<lparr>d_flows = [], d_nextID = 1, d_runs = [], d_nodes = [], d_sched = [], d_audits = [], d_faults = []\<rparr>"

definition demo_create :: CreateInput where
  "demo_create = \<lparr>ci_Name = ''n'', ci_Description = [], ci_GraphJSON = ''{}'', ci_CreatedBy = None\<rparr>"

lemma demo_created: "map fl_ID (d_flows (serve demo_uc (RCreate demo_create) flow_empty_db)) = [1]"
proof -
  have "TrimSpace ''n'' = ''n''" "TrimSpace ''{}'' = ''{}''" by code_simp+
  moreover have "uc_parse demo_uc ''{}'' = Ok \<lparr>g_Nodes = [], g_Edges = []\<rparr>"
    by (simp add: demo_uc_def ParseGraph_def Validate_graph_def)
  moreover have "uc_repo demo_uc" by (simp add: demo_uc_def)
  ultimately show ?thesis
    by (simp add: serve_def uc_Create_def demo_create_def repo_Create_def stmt_def flow_fault_def flow_empty_db_def Let_def)
qed

theorem flow_definitions_valid_witness:
  "flows_ok demo_uc (serve demo_uc (RCreate demo_create) flow_empty_db) \<and>
   map fl_ID (d_flows (serve demo_uc (RCreate demo_create) flow_empty_db)) = [1]"
proof
  have "served demo_uc flow_empty_db" by (rule served.empty) (simp add: flow_empty_db_def)
  then show "flows_ok demo_uc (serve demo_uc (RCreate demo_create) flow_empty_db)"
    by (intro flow_definitions_valid served.step)
qed (rule demo_created)

section \<open>Launching a run\<close>

lemma triggerRun_launched:
  assumes "triggerRun uc now uid i et inp by' req db = (Ok (Some (run, g)), db')"
  shows "\<exists>f\<in>set (d_flows db). live_flow i f \<and> fl_Enabled f \<and> uc_parse uc (fl_GraphJSON f) = Ok g \<and>
      run = new_run (uc_lib uc) now uid f et inp by' \<and> (\<exists>t\<in>set (Triggers (uc_reg uc) g). gn_Type t = et) \<and>
      (\<forall>q\<in>set (d_runs db). fr_ID q \<noteq> uid) \<and> d_runs db' = d_runs db @ [run]"
proof -
  obtain r u where G: "repo_Get i db = (r, u)" by force
  note gf = repo_Get_facts[OF G]
  from assms G obtain f where f: "r = Ok f" "fl_Enabled f" "uc_parse uc (fl_GraphJSON f) = Ok g"
    "list_ex (\<lambda>t. gn_Type t = et) (Triggers (uc_reg uc) g)" "run = new_run (uc_lib uc) now uid f et inp by'"
    "repo_CreateRun run u = (Ok (), db')"
    by (auto simp: triggerRun_def Let_def split: if_splits sum.splits prod.splits)
  have id: "fr_ID run = uid" using f(5) by (simp add: new_run_def)
  from f(6) have "d_runs db' = d_runs u @ [run] \<and> (\<forall>q\<in>set (d_runs u). fr_ID q \<noteq> uid)"
    unfolding repo_CreateRun_def by (cases rule: stmtE) (auto split: if_splits simp: list_ex_iff id)
  with f gf show ?thesis by (auto simp: list_ex_iff)
qed

lemma triggerRun_refused:
  assumes "triggerRun uc now uid i et inp by' req db = (r, db')" and "\<forall>run g. r \<noteq> Ok (Some (run, g))"
  shows "d_runs db' = d_runs db"
proof -
  have c: "d_runs u' = d_runs u" if "repo_CreateRun q u = (Err e, u')" for q u e u'
    using that unfolding repo_CreateRun_def by (cases rule: stmtE) (auto split: if_splits)
  obtain x u where G: "repo_Get i db = (x, u)" by force
  show ?thesis
    using assms G repo_Get_facts[OF G] c by (auto simp: triggerRun_def Let_def split: if_splits sum.splits prod.splits)
qed

text \<open>
  C26. A run is launched only for a definition that exists, is not deleted, is enabled, whose graph
  validates and has a trigger of the requested type; then exactly one row is added, in state
  running, with the version it executes, and the engine finds its entry. In every other case no run row
  is added.
\<close>

theorem trigger_run_gate:
  "case triggerRun uc now uid i et inp by' req db of
     (Ok (Some (run, g)), db') \<Rightarrow>
       (\<exists>f\<in>set (d_flows db). fl_ID f = i \<and> \<not> fl_Deleted f \<and> fl_Enabled f \<and> uc_parse uc (fl_GraphJSON f) = Ok g \<and>
          fr_FlowVersion run = fl_Version f \<and> fr_FlowID run = i) \<and>
       fr_Status run = RunStatusRunning \<and> d_runs db' = d_runs db @ [run] \<and>
       (\<exists>t\<in>set (Triggers (uc_reg uc) g). gn_Type t = et)
   | (_, db') \<Rightarrow> d_runs db' = d_runs db"
proof -
  obtain r db' where R: "triggerRun uc now uid i et inp by' req db = (r, db')" by force
  show ?thesis
  proof (cases "\<exists>run g. r = Ok (Some (run, g))")
    case True
    then obtain run g where rg: "r = Ok (Some (run, g))" by blast
    from triggerRun_launched[OF R[unfolded rg]] show ?thesis
      by (auto simp: R rg new_run_def live_flow_def)
  next
    case False
    with triggerRun_refused[OF R] have "d_runs db' = d_runs db" by blast
    with False R show ?thesis by (auto split: sum.splits option.splits)
  qed
qed

section \<open>Dispatching an alert\<close>

definition uc_wired :: "'w Usecase \<Rightarrow> bool" where
  "uc_wired uc = (uc_repo uc \<and> uc_runs uc \<and> uc_engine uc \<noteq> None)"

definition alert_flow :: "'w Usecase \<Rightarrow> string \<Rightarrow> string \<Rightarrow> Flow \<Rightarrow> bool" where
  "alert_flow uc rule severity f = (case uc_parse uc (fl_GraphJSON f) of Ok g \<Rightarrow> alert_entry uc rule severity g | Err _ \<Rightarrow> False)"

lemma find_live:
  assumes "distinct (map fl_ID fs)" "f \<in> set fs" "\<not> fl_Deleted f"
  shows "find (live_flow (fl_ID f)) fs = Some f"
  using assms by (induction fs) (auto simp: live_flow_def)

lemma TriggerEvent_launches:
  assumes "uc_wired uc" "flows_ok uc db" "d_faults db = []" "f \<in> set (d_flows db)" "\<not> fl_Deleted f" "fl_Enabled f"
    and "uc_parse uc (fl_GraphJSON f) = Ok g" "alert_entry uc rule severity g" "\<forall>q\<in>set (d_runs db). fr_ID q \<noteq> uid"
  shows "TriggerEvent uc now uid (fl_ID f) NodeTriggerAlert payload db =
    (let run = new_run (uc_lib uc) now uid f NodeTriggerAlert payload None in (Ok (Some (run, g)), db\<lparr>d_runs := d_runs db @ [run]\<rparr>))"
proof -
  have "repo_Get (fl_ID f) db = (Ok f, db)"
    using find_live[OF _ assms(4,5)] assms(2,3) by (simp add: repo_Get_def stmt_nofault flows_ok_def)
  moreover have "list_ex (\<lambda>t. gn_Type t = NodeTriggerAlert) (Triggers (uc_reg uc) g)"
    using assms(8) by (auto simp: alert_entry_def list_ex_iff)
  moreover have "repo_CreateRun (new_run (uc_lib uc) now uid f NodeTriggerAlert payload None) db =
      (Ok (), db\<lparr>d_runs := d_runs db @ [new_run (uc_lib uc) now uid f NodeTriggerAlert payload None]\<rparr>)"
    using assms(3,9) by (simp add: repo_CreateRun_def stmt_nofault list_ex_iff new_run_def)
  ultimately show ?thesis
    using assms(1,6,7) by (simp add: TriggerEvent_def triggerRun_def uc_wired_def Let_def)
qed

lemma dispatch_flows_starts:
  assumes "uc_wired uc" "flows_ok uc db" "d_faults db = []" "set fs \<subseteq> {f \<in> set (d_flows db). \<not> fl_Deleted f \<and> fl_Enabled f}"
    and "distinct uids" "length fs \<le> length uids" "fr_ID ` set (d_runs db) \<inter> set uids = {}"
  shows "map (fr_FlowID \<circ> fst) (fst (dispatch_flows uc now rule severity payload fs uids db)) = map fl_ID (filter (alert_flow uc rule severity) fs)"
  using assms(2-)
proof (induction fs arbitrary: uids db)
  case (Cons f fs)
  have len: "length fs \<le> length uids" "length fs \<le> length (tl uids)" using Cons.prems(5) by auto
  show ?case
  proof (cases "uc_parse uc (fl_GraphJSON f)")
    case (Inl e)
    with Cons.IH[OF Cons.prems(1,2) _ Cons.prems(4) len(1) Cons.prems(6)] Cons.prems(3) show ?thesis
      by (simp add: alert_flow_def)
  next
    case (Inr g)
    show ?thesis
    proof (cases "alert_entry uc rule severity g")
      case False
      with Inr Cons.IH[OF Cons.prems(1,2) _ Cons.prems(4) len(1) Cons.prems(6)] Cons.prems(3) show ?thesis
        by (simp add: alert_flow_def)
    next
      case True
      obtain u us where us: "uids = u # us" using Cons.prems(5) by (cases uids) auto
      let ?run = "new_run (uc_lib uc) now u f NodeTriggerAlert payload None"
      let ?db = "db\<lparr>d_runs := d_runs db @ [?run]\<rparr>"
      have fr: "\<forall>q\<in>set (d_runs db). fr_ID q \<noteq> u" using Cons.prems(6) us by auto
      have T: "TriggerEvent uc now u (fl_ID f) NodeTriggerAlert payload db = (Ok (Some (?run, g)), ?db)"
        using TriggerEvent_launches[OF assms(1) Cons.prems(1,2) _ _ _ Inr True fr] Cons.prems(3) by (simp add: Let_def)
      have ok: "flows_ok uc ?db" using Cons.prems(1) by (simp add: flows_ok_def)
      have "fr_ID ?run = u" by (simp add: new_run_def)
      then have disj: "fr_ID ` set (d_runs ?db) \<inter> set us = {}" using Cons.prems(4,6) us by auto
      have "map (fr_FlowID \<circ> fst) (fst (dispatch_flows uc now rule severity payload fs us ?db)) = map fl_ID (filter (alert_flow uc rule severity) fs)"
        using Cons.IH[OF ok _ _ _ _ disj] Cons.prems(2-4) len us by (simp add: comp_def)
      moreover have "fr_FlowID ?run = fl_ID f" by (simp add: new_run_def)
      moreover have "alert_flow uc rule severity f" using Inr True by (simp add: alert_flow_def)
      ultimately show ?thesis using Inr True T us by (auto simp: comp_def split: prod.splits)
    qed
  qed
qed simp

text \<open>
  An alert starts exactly one run of each enabled definition whose graph has an alert trigger
  that matches the rule and the severity, and of no other, in the order of the table (when the
  database does not fail and the identifiers are fresh). Definitions that do not parse are skipped.
\<close>

theorem dispatch_one_run_per_flow:
  assumes "uc_wired uc" "flows_ok uc db" "d_faults db = []" "distinct uids" "length (d_flows db) \<le> length uids"
    and "fr_ID ` set (d_runs db) \<inter> set uids = {}"
  shows "map (fr_FlowID \<circ> fst) (fst (dispatch uc now rule severity payload uids db)) =
    map fl_ID (filter (\<lambda>f. \<not> fl_Deleted f \<and> fl_Enabled f \<and> alert_flow uc rule severity f) (d_flows db))"
proof -
  let ?fs = "filter (\<lambda>f. \<not> fl_Deleted f \<and> fl_Enabled f) (d_flows db)"
  have "ListEnabledFlows uc db = (Ok ?fs, db)"
    using assms(1,3) by (simp add: ListEnabledFlows_def uc_wired_def repo_ListEnabled_def stmt_nofault)
  moreover have "length ?fs \<le> length uids" using assms(5) length_filter_le[of "\<lambda>f. \<not> fl_Deleted f \<and> fl_Enabled f" "d_flows db"] by linarith
  moreover have "filter (alert_flow uc rule severity) ?fs = filter (\<lambda>f. \<not> fl_Deleted f \<and> fl_Enabled f \<and> alert_flow uc rule severity f) (d_flows db)"
    by (simp add: conj_ac)
  ultimately show ?thesis
    using dispatch_flows_starts[OF assms(1-3), of ?fs uids now rule severity payload] assms(4,6)
    by (auto simp: dispatch_def)
qed

definition demo_alert_graph :: Graph where
  "demo_alert_graph = \<lparr>g_Nodes = [\<lparr>gn_ID = ''a'', gn_Type = ''trigger.alert_fired'', gn_Name = [], gn_Config = [], gn_Position = None\<rparr>], g_Edges = []\<rparr>"

definition demo_alert_uc :: "unit Usecase" where
  "demo_alert_uc = demo_uc\<lparr>uc_reg := registerBuiltins demo_lib [], uc_decode := \<lambda>_. Ok demo_alert_graph\<rparr>"

definition demo_alert_db :: flow_db where
  "demo_alert_db = flow_empty_db\<lparr>d_flows := [\<lparr>fl_ID = 7, fl_Name = ''f'', fl_Description = [], fl_GraphJSON = ''g'', fl_Enabled = True,
     fl_Version = 1, fl_CreatedBy = None, fl_Deleted = False\<rparr>], d_nextID := 8\<rparr>"

lemma demo_alert_parses: "uc_parse demo_alert_uc ''g'' = Ok demo_alert_graph"
proof -
  have "nodeIDRe ''a''" "TrimSpace ''g'' = ''g''" by code_simp+
  then show ?thesis
    by (simp add: demo_alert_uc_def ParseGraph_def Validate_graph_def demo_alert_graph_def builtin_lookup node_type_defs deg_def adj_def)
qed

lemma demo_alert_matches: "alert_entry demo_alert_uc rule severity demo_alert_graph"
proof -
  have "TrimSpace [] = []" by code_simp
  then show ?thesis
    by (simp add: alert_entry_def Triggers_def isTriggerType_def demo_alert_uc_def demo_alert_graph_def builtin_lookup
        node_type_defs node_spec_def alertMatches_def ToLower_def)
qed

theorem dispatch_one_run_per_flow_witness:
  "map (fr_FlowID \<circ> fst) (fst (dispatch demo_alert_uc 0 ''disk'' ''critical'' None [''u''] demo_alert_db)) = [7]"
proof -
  have "uc_wired demo_alert_uc" by (simp add: uc_wired_def demo_alert_uc_def demo_uc_def)
  moreover have "flows_ok demo_alert_uc demo_alert_db"
    by (simp add: flows_ok_def flow_row_ok_def demo_alert_db_def demo_alert_parses)
  moreover have "filter (\<lambda>f. \<not> fl_Deleted f \<and> fl_Enabled f \<and> alert_flow demo_alert_uc ''disk'' ''critical'' f) (d_flows demo_alert_db) = d_flows demo_alert_db"
    by (simp add: demo_alert_db_def alert_flow_def demo_alert_parses demo_alert_matches)
  ultimately show ?thesis
    using dispatch_one_run_per_flow[of demo_alert_uc demo_alert_db "[''u'']" 0 "''disk''" "''critical''" None]
    by (simp add: demo_alert_db_def flow_empty_db_def)
qed

end
