(* ===== verification/Flow_Sched.thy ===== *)
theory Flow_Sched
  imports Flow_Usecase
begin

text \<open>
  The cron driver of workflows (\<^verbatim>\<open>internal/manager/biz/flow/scheduler.go\<close>): cursors in memory,
  written through to the store, and the tick that fires what is due. The cron library is the record
  \<open>cron_lib\<close>: parsing a specification and the next occurrence after an instant. The ticker and its
  goroutine are the caller of \<open>tick\<close>; \<open>ss_fires\<close> records the cursors for which a run was
  requested, in order.
\<close>

section \<open>State\<close>

record 's cron_lib =
  cr_Parse :: "string \<Rightarrow> 's option"
  cr_Next :: "'s \<Rightarrow> instant \<Rightarrow> instant"

record sched_state =
  ss_next :: "(string \<times> FlowScheduleNextFire) list"
  ss_repo :: bool
  ss_started :: bool
  ss_lastPrune :: instant
  ss_live :: "(string \<times> nat \<times> string) list"
  ss_fires :: "string list"
  ss_started_runs :: "(FlowRun \<times> Graph) list"
  ss_uids :: "string list"
  ss_db :: flow_db

definition parseCronSpec :: "node_lib \<Rightarrow> string \<Rightarrow> string" where
  "parseCronSpec lib cfgRaw = TrimSpace (if cfgRaw = [] then [] else config_str lib ''cron'' cfgRaw)"

definition persistState :: "FlowScheduleNextFire \<Rightarrow> sched_state \<Rightarrow> sched_state" where
  "persistState s st = (if ss_repo st then st\<lparr>ss_db := snd (UpsertScheduleState s (ss_db st))\<rparr> else st)"

definition put_cursor :: "string \<Rightarrow> FlowScheduleNextFire \<Rightarrow> sched_state \<Rightarrow> sched_state" where
  "put_cursor key s st = persistState s (st\<lparr>ss_next := AList.update key s (ss_next st)\<rparr>)"

section \<open>One tick\<close>

text \<open>
  The cursor after a trigger was looked at: armed on first sight, otherwise moved when due. The
  second component says whether it fires.
\<close>

definition step_cursor :: "'s cron_lib \<Rightarrow> instant \<Rightarrow> nat \<Rightarrow> string \<Rightarrow> string \<Rightarrow> 's \<Rightarrow> FlowScheduleNextFire option \<Rightarrow> FlowScheduleNextFire \<times> bool" where
  "step_cursor cr now f n spec sched seen = (case seen of
     None \<Rightarrow> (\<lparr>fs_FlowID = f, fs_NodeID = n, fs_CronSpec = spec, fs_NextFireAt = cr_Next cr sched now, fs_LastFireAt = None,
        fs_LastHeartbeatAt = now, fs_Status = FlowScheduleStatusEnabled, fs_MissedCount = 0\<rparr>, False)
   | Some s \<Rightarrow>
       (let s1 = s\<lparr>fs_CronSpec := spec, fs_LastHeartbeatAt := now\<rparr> in
        if now < fs_NextFireAt s then (s1, False)
        else (s1\<lparr>fs_LastFireAt := Some (fs_NextFireAt s), fs_NextFireAt := cr_Next cr sched now,
          fs_Status := FlowScheduleStatusEnabled, fs_MissedCount := 0\<rparr>, True)))"

text \<open>The time of the tick as the trigger payload formats it is the argument \<open>stamp\<close>.\<close>

definition cron_payload :: "string \<Rightarrow> string \<Rightarrow> anymap" where
  "cron_payload stamp spec = Some [(''fired_at'', JStr stamp), (''cron'', JStr spec)]"

definition fire_cron :: "'w Usecase \<Rightarrow> instant \<Rightarrow> string \<Rightarrow> nat \<Rightarrow> string \<Rightarrow> string \<Rightarrow> sched_state \<Rightarrow> sched_state" where
  "fire_cron uc now stamp f key spec st =
    (case TriggerEvent uc now (hd (ss_uids st)) f NodeTriggerCron (cron_payload stamp spec) (ss_db st) of
       (r, db) \<Rightarrow> st\<lparr>ss_db := db, ss_uids := tl (ss_uids st), ss_fires := ss_fires st @ [key],
         ss_started_runs := ss_started_runs st @ (case r of Ok (Some started) \<Rightarrow> [started] | _ \<Rightarrow> [])\<rparr>)"

definition tick_node :: "'w Usecase \<Rightarrow> 's cron_lib \<Rightarrow> instant \<Rightarrow> string \<Rightarrow> Flow \<Rightarrow> GraphNode \<Rightarrow> sched_state \<Rightarrow> sched_state" where
  "tick_node uc cr now stamp f node st =
    (if gn_Type node \<noteq> NodeTriggerCron then st
     else (let spec = parseCronSpec (uc_lib uc) (gn_Config node) in
       if spec = [] then st
       else (case cr_Parse cr spec of
           None \<Rightarrow> st
         | Some sched \<Rightarrow>
             (let key = sched_key (fl_ID f) (gn_ID node);
                  st1 = st\<lparr>ss_live := AList.update key (fl_ID f, gn_ID node) (ss_live st)\<rparr>;
                  (s, due) = step_cursor cr now (fl_ID f) (gn_ID node) spec sched (map_of (ss_next st) key);
                  st2 = put_cursor key s st1
              in if due then fire_cron uc now stamp (fl_ID f) key spec st2 else st2))))"

definition tick_flow :: "'w Usecase \<Rightarrow> 's cron_lib \<Rightarrow> instant \<Rightarrow> string \<Rightarrow> Flow \<Rightarrow> sched_state \<Rightarrow> sched_state" where
  "tick_flow uc cr now stamp f st = (case uc_parse uc (fl_GraphJSON f) of
     Err _ \<Rightarrow> st
   | Ok g \<Rightarrow> fold (tick_node uc cr now stamp f) (Triggers (uc_reg uc) g) st)"

text \<open>Forget the cursors whose trigger vanished, in memory and in the store.\<close>

definition forget_stale :: "sched_state \<Rightarrow> sched_state" where
  "forget_stale st =
    (let st1 = st\<lparr>ss_next := filter (\<lambda>e. fst e \<in> fst ` set (ss_live st)) (ss_next st)\<rparr>
     in if ss_repo st then st1\<lparr>ss_db := snd (DeleteScheduleStatesNotIn (map snd (ss_live st)) (ss_db st))\<rparr> else st1)"

definition tick :: "'w Usecase \<Rightarrow> 's cron_lib \<Rightarrow> instant \<Rightarrow> string \<Rightarrow> sched_state \<Rightarrow> sched_state" where
  "tick uc cr now stamp st = (case ListEnabledFlows uc (ss_db st) of
     (Err _, db) \<Rightarrow> st\<lparr>ss_db := db\<rparr>
   | (Ok flows, db) \<Rightarrow> forget_stale (fold (tick_flow uc cr now stamp) flows (st\<lparr>ss_db := db, ss_live := []\<rparr>)))"

definition hour :: int where "hour = 60 * minute"

text \<open>One turn of the loop: the tick, and the retention sweep at most once an hour.\<close>

definition loop_tick :: "'w Usecase \<Rightarrow> 's cron_lib \<Rightarrow> instant \<Rightarrow> string \<Rightarrow> int option \<Rightarrow> sched_state \<Rightarrow> sched_state" where
  "loop_tick uc cr now stamp env st0 =
    (let st = tick uc cr now stamp st0 in
     if now - ss_lastPrune st \<ge> hour then st\<lparr>ss_lastPrune := now, ss_db := PruneOldRuns uc now env (ss_db st)\<rparr> else st)"

section \<open>Lifecycle\<close>

definition load_cursors :: "FlowScheduleNextFire list \<Rightarrow> sched_state \<Rightarrow> sched_state" where
  "load_cursors ss st = st\<lparr>ss_next := fold (\<lambda>s m. AList.update (sched_key (fs_FlowID s) (fs_NodeID s)) s m) ss (ss_next st)\<rparr>"

definition sched_Start :: "sched_state \<Rightarrow> sched_state" where
  "sched_Start st =
    (if ss_started st then st
     else (let st1 = st\<lparr>ss_started := True\<rparr> in
       if \<not> ss_repo st1 then st1
       else (case LoadScheduleStates (ss_db st1) of
           (Err _, db) \<Rightarrow> st1\<lparr>ss_db := db\<rparr>
         | (Ok ss, db) \<Rightarrow> load_cursors ss (st1\<lparr>ss_db := db\<rparr>))))"

text \<open>
  Stopping waits for the loop until the caller's deadline; \<open>exited\<close> says whether the loop ended in
  time. The scheduler counts as stopped either way.
\<close>

definition sched_Stop :: "bool \<Rightarrow> sched_state \<Rightarrow> string option \<times> sched_state" where
  "sched_Stop exited st =
    (if \<not> ss_started st then (None, st)
     else (if exited then None else Some ''flow scheduler stop: '', st\<lparr>ss_started := False\<rparr>))"

section \<open>What a tick looks at\<close>

text \<open>The cron triggers of the enabled definitions, in the order of the loops, and their schedule.\<close>

definition cron_entry :: "'w Usecase \<Rightarrow> 's cron_lib \<Rightarrow> Flow \<times> GraphNode \<Rightarrow> (string \<times> 's) option" where
  "cron_entry uc cr p = (case p of (f, n) \<Rightarrow>
     (let spec = parseCronSpec (uc_lib uc) (gn_Config n) in
      if gn_Type n \<noteq> NodeTriggerCron \<or> spec = [] then None
      else (case cr_Parse cr spec of None \<Rightarrow> None | Some sched \<Rightarrow> Some (spec, sched))))"

definition trigger_pairs :: "'w Usecase \<Rightarrow> Flow list \<Rightarrow> (Flow \<times> GraphNode) list" where
  "trigger_pairs uc flows = concat (map (\<lambda>f. case uc_parse uc (fl_GraphJSON f) of Err _ \<Rightarrow> [] | Ok g \<Rightarrow> map (Pair f) (Triggers (uc_reg uc) g)) flows)"

definition cron_pairs :: "'w Usecase \<Rightarrow> 's cron_lib \<Rightarrow> Flow list \<Rightarrow> (Flow \<times> GraphNode) list" where
  "cron_pairs uc cr flows = filter (\<lambda>p. cron_entry uc cr p \<noteq> None) (trigger_pairs uc flows)"

definition pair_key :: "Flow \<times> GraphNode \<Rightarrow> string" where
  "pair_key p = sched_key (fl_ID (fst p)) (gn_ID (snd p))"

definition next_cursor :: "'w Usecase \<Rightarrow> 's cron_lib \<Rightarrow> instant \<Rightarrow> (string \<times> FlowScheduleNextFire) list \<Rightarrow> Flow \<times> GraphNode \<Rightarrow> FlowScheduleNextFire option" where
  "next_cursor uc cr now m p = (case cron_entry uc cr p of
     Some (spec, sched) \<Rightarrow> Some (fst (step_cursor cr now (fl_ID (fst p)) (gn_ID (snd p)) spec sched (map_of m (pair_key p))))
   | None \<Rightarrow> None)"

definition due :: "instant \<Rightarrow> (string \<times> FlowScheduleNextFire) list \<Rightarrow> Flow \<times> GraphNode \<Rightarrow> bool" where
  "due now m p = (case map_of m (pair_key p) of None \<Rightarrow> False | Some s \<Rightarrow> fs_NextFireAt s \<le> now)"

section \<open>Facts on the steps\<close>

lemma put_cursor_fields [flow_simps]:
  "ss_next (put_cursor k s st) = AList.update k s (ss_next st)" "ss_live (put_cursor k s st) = ss_live st"
  "ss_fires (put_cursor k s st) = ss_fires st"
  by (simp_all add: put_cursor_def persistState_def)

lemma fire_cron_fields [flow_simps]:
  "ss_next (fire_cron uc now stamp f k spec st) = ss_next st" "ss_live (fire_cron uc now stamp f k spec st) = ss_live st"
  "ss_fires (fire_cron uc now stamp f k spec st) = ss_fires st @ [k]"
  by (simp_all add: fire_cron_def split: prod.splits)

lemma tick_node_idle: "cron_entry uc cr (f, n) = None \<Longrightarrow> tick_node uc cr now stamp f n st = st"
  by (auto simp: cron_entry_def tick_node_def Let_def split: if_splits option.splits)

lemma tick_node_cron:
  assumes "cron_entry uc cr (f, n) = Some (spec, sched)"
  shows "map_of (ss_next (tick_node uc cr now stamp f n st)) = (map_of (ss_next st))(pair_key (f, n) := next_cursor uc cr now (ss_next st) (f, n))"
    "fst ` set (ss_live (tick_node uc cr now stamp f n st)) = insert (pair_key (f, n)) (fst ` set (ss_live st))"
    "ss_fires (tick_node uc cr now stamp f n st) = ss_fires st @ (if due now (ss_next st) (f, n) then [pair_key (f, n)] else [])"
proof -
  from assms have h: "gn_Type n = NodeTriggerCron" "parseCronSpec (uc_lib uc) (gn_Config n) = spec" "spec \<noteq> []" "cr_Parse cr spec = Some sched"
    by (auto simp: cron_entry_def Let_def split: if_splits option.splits)
  let ?c = "step_cursor cr now (fl_ID f) (gn_ID n) spec sched (map_of (ss_next st) (pair_key (f, n)))"
  let ?st2 = "put_cursor (pair_key (f, n)) (fst ?c) (st\<lparr>ss_live := AList.update (pair_key (f, n)) (fl_ID f, gn_ID n) (ss_live st)\<rparr>)"
  have t: "tick_node uc cr now stamp f n st = (if snd ?c then fire_cron uc now stamp (fl_ID f) (pair_key (f, n)) spec ?st2 else ?st2)"
    using h by (simp add: tick_node_def Let_def pair_key_def split: prod.splits)
  have d: "snd ?c = due now (ss_next st) (f, n)"
    by (simp add: step_cursor_def due_def Let_def linorder_not_less split: option.splits)
  have nc: "Some (fst ?c) = next_cursor uc cr now (ss_next st) (f, n)" using assms by (simp add: next_cursor_def)
  show "map_of (ss_next (tick_node uc cr now stamp f n st)) = (map_of (ss_next st))(pair_key (f, n) := next_cursor uc cr now (ss_next st) (f, n))"
    unfolding t nc[symmetric] by (simp add: flow_simps update_conv')
  have "dom (map_of (ss_live (tick_node uc cr now stamp f n st))) = insert (pair_key (f, n)) (dom (map_of (ss_live st)))"
    unfolding t by (simp add: flow_simps update_conv')
  then show "fst ` set (ss_live (tick_node uc cr now stamp f n st)) = insert (pair_key (f, n)) (fst ` set (ss_live st))"
    by (simp add: dom_map_of_conv_image_fst)
  show "ss_fires (tick_node uc cr now stamp f n st) = ss_fires st @ (if due now (ss_next st) (f, n) then [pair_key (f, n)] else [])"
    unfolding t d by (simp add: flow_simps)
qed

definition tick_pairs :: "'w Usecase \<Rightarrow> 's cron_lib \<Rightarrow> instant \<Rightarrow> string \<Rightarrow> (Flow \<times> GraphNode) list \<Rightarrow> sched_state \<Rightarrow> sched_state" where
  "tick_pairs uc cr now stamp ps st = fold (\<lambda>(f, n). tick_node uc cr now stamp f n) ps st"

lemma tick_pairs_append: "tick_pairs uc cr now stamp (ps @ qs) st = tick_pairs uc cr now stamp qs (tick_pairs uc cr now stamp ps st)"
  by (simp add: tick_pairs_def)

lemma tick_flow_pairs:
  "tick_flow uc cr now stamp f st = tick_pairs uc cr now stamp (case uc_parse uc (fl_GraphJSON f) of Err _ \<Rightarrow> [] | Ok g \<Rightarrow> map (Pair f) (Triggers (uc_reg uc) g)) st"
  by (auto simp: tick_flow_def tick_pairs_def fold_map comp_def split: sum.splits)

lemma tick_flows_pairs: "fold (tick_flow uc cr now stamp) flows st = tick_pairs uc cr now stamp (trigger_pairs uc flows) st"
proof (induction flows arbitrary: st)
  case Nil
  show ?case by (simp add: trigger_pairs_def tick_pairs_def)
next
  case (Cons f flows)
  then show ?case by (simp add: tick_flow_pairs tick_pairs_append trigger_pairs_def)
qed

lemma tick_pairs_cron: "tick_pairs uc cr now stamp ps st = tick_pairs uc cr now stamp (filter (\<lambda>p. cron_entry uc cr p \<noteq> None) ps) st"
proof (induction ps arbitrary: st)
  case (Cons p ps)
  obtain f n where p: "p = (f, n)" by force
  show ?case
  proof (cases "cron_entry uc cr p")
    case None
    with Cons.IH[of st] p tick_node_idle[of uc cr f n now stamp st] show ?thesis by (simp add: tick_pairs_def)
  next
    case (Some e)
    with Cons.IH p show ?thesis by (simp add: tick_pairs_def del: not_None_eq)
  qed
qed (simp add: tick_pairs_def)

text \<open>The cursors and fires after a list of cron triggers with distinct keys.\<close>

lemma tick_pairs_spec:
  fixes now :: instant and stamp :: string and st :: sched_state
  assumes "distinct (map pair_key ps)" "\<forall>p\<in>set ps. cron_entry uc cr p \<noteq> None"
  defines "st' \<equiv> tick_pairs uc cr now stamp ps st"
  shows "map_of (ss_next st') k = (case find (\<lambda>p. pair_key p = k) ps of None \<Rightarrow> map_of (ss_next st) k | Some p \<Rightarrow> next_cursor uc cr now (ss_next st) p)"
    and "fst ` set (ss_live st') = fst ` set (ss_live st) \<union> pair_key ` set ps"
    and "ss_fires st' = ss_fires st @ map pair_key (filter (due now (ss_next st)) ps)"
proof -
  have "map_of (ss_next (tick_pairs uc cr now stamp ps st)) k =
      (case find (\<lambda>p. pair_key p = k) ps of None \<Rightarrow> map_of (ss_next st) k | Some p \<Rightarrow> next_cursor uc cr now (ss_next st) p) \<and>
    fst ` set (ss_live (tick_pairs uc cr now stamp ps st)) = fst ` set (ss_live st) \<union> pair_key ` set ps \<and>
    ss_fires (tick_pairs uc cr now stamp ps st) = ss_fires st @ map pair_key (filter (due now (ss_next st)) ps)"
    using assms(1,2)
  proof (induction ps arbitrary: st)
    case Nil
    show ?case by (simp add: tick_pairs_def)
  next
    case (Cons p ps)
    obtain f n where p: "p = (f, n)" by force
    obtain spec sched where e: "cron_entry uc cr (f, n) = Some (spec, sched)" using Cons.prems(2) p by auto
    let ?u = "tick_node uc cr now stamp f n st"
    note N = tick_node_cron[OF e, of now stamp st]
    have step: "tick_pairs uc cr now stamp (p # ps) st = tick_pairs uc cr now stamp ps ?u" by (simp add: tick_pairs_def p)
    have other: "map_of (ss_next ?u) (pair_key q) = map_of (ss_next st) (pair_key q)" if "q \<in> set ps" for q
    proof -
      have "pair_key q \<noteq> pair_key (f, n)" using that Cons.prems(1) p by (auto dest!: imageI[of q _ pair_key])
      then show ?thesis by (simp add: N(1))
    qed
    have same: "next_cursor uc cr now (ss_next ?u) q = next_cursor uc cr now (ss_next st) q" "due now (ss_next ?u) q = due now (ss_next st) q" if "q \<in> set ps" for q
      using other[OF that] by (simp_all add: next_cursor_def due_def split: option.splits)
    have IH: "map_of (ss_next (tick_pairs uc cr now stamp ps ?u)) k =
        (case find (\<lambda>p. pair_key p = k) ps of None \<Rightarrow> map_of (ss_next ?u) k | Some p \<Rightarrow> next_cursor uc cr now (ss_next ?u) p)"
      "fst ` set (ss_live (tick_pairs uc cr now stamp ps ?u)) = fst ` set (ss_live ?u) \<union> pair_key ` set ps"
      "ss_fires (tick_pairs uc cr now stamp ps ?u) = ss_fires ?u @ map pair_key (filter (due now (ss_next ?u)) ps)"
      using Cons.IH[of ?u] Cons.prems by auto
    have f1: "(case find (\<lambda>q. pair_key q = k) ps of None \<Rightarrow> map_of (ss_next ?u) k | Some q \<Rightarrow> next_cursor uc cr now (ss_next ?u) q) =
      (case find (\<lambda>q. pair_key q = k) (p # ps) of None \<Rightarrow> map_of (ss_next st) k | Some q \<Rightarrow> next_cursor uc cr now (ss_next st) q)"
    proof (cases "find (\<lambda>q. pair_key q = k) ps")
      case None
      then show ?thesis using p by (auto simp: N(1))
    next
      case (Some q)
      then have q: "q \<in> set ps" "pair_key q = k" by (auto dest: find_Some_mem)
      with Cons.prems(1) p have "pair_key p \<noteq> k" by auto
      with Some same(1)[OF q(1)] show ?thesis by simp
    qed
    have "filter (due now (ss_next ?u)) ps = filter (due now (ss_next st)) ps" using same(2) by (auto intro: filter_cong)
    with step IH f1 N(2,3) p show ?case by auto
  qed
  then show "map_of (ss_next st') k = (case find (\<lambda>p. pair_key p = k) ps of None \<Rightarrow> map_of (ss_next st) k | Some p \<Rightarrow> next_cursor uc cr now (ss_next st) p)"
    "fst ` set (ss_live st') = fst ` set (ss_live st) \<union> pair_key ` set ps"
    "ss_fires st' = ss_fires st @ map pair_key (filter (due now (ss_next st)) ps)"
    unfolding st'_def by auto
qed

lemma dec_no_colon: "CHR '':'' \<notin> set (dec f)"
  using dec_digits by blast

lemma sched_key_inj: "sched_key f n = sched_key f' n' \<longleftrightarrow> f = f' \<and> n = n'"
proof
  assume e: "sched_key f n = sched_key f' n'"
  have tw: "takeWhile (\<lambda>c. c \<noteq> CHR '':'') (sched_key g m) = dec g" for g m
    using dec_no_colon[of g] by (simp add: sched_key_def takeWhile_append)
  have "dec f = dec f'" using tw[of f n] tw[of f' n'] e by simp
  with e show "f = f' \<and> n = n'" by (auto simp: sched_key_def dec_inj)
qed simp

lemma parse_distinct: "uc_parse uc raw = Ok g \<Longrightarrow> distinct (map gn_ID (g_Nodes g))"
  by (auto simp: ParseGraph_def Validate_graph_def check_nodes_None split: if_splits sum.splits option.splits)

lemma distinct_filter_map: "distinct (map h xs) \<Longrightarrow> distinct (map h (filter P xs))"
  by (induction xs) auto

lemma cron_pairs_distinct:
  assumes "distinct (map fl_ID flows)"
  shows "distinct (map pair_key (cron_pairs uc cr flows))"
proof -
  have "distinct (map pair_key (trigger_pairs uc flows))"
    using assms
  proof (induction flows)
    case (Cons f flows)
    let ?ps = "case uc_parse uc (fl_GraphJSON f) of Err _ \<Rightarrow> [] | Ok g \<Rightarrow> map (Pair f) (Triggers (uc_reg uc) g)"
    have "distinct (map pair_key ?ps)"
    proof (cases "uc_parse uc (fl_GraphJSON f)")
      case (Inr g)
      have "distinct (map gn_ID (Triggers (uc_reg uc) g))"
        unfolding Triggers_def by (rule distinct_filter_map[OF parse_distinct[OF Inr]])
      with Inr show ?thesis by (auto simp: distinct_map inj_on_def pair_key_def sched_key_inj)
    qed simp
    moreover have "fst p = f" if "p \<in> set ?ps" for p using that by (auto split: sum.splits)
    moreover have "fst q \<in> set flows" if "q \<in> set (trigger_pairs uc flows)" for q
      using that by (auto simp: trigger_pairs_def split: sum.splits)
    ultimately have "pair_key ` set ?ps \<inter> pair_key ` set (trigger_pairs uc flows) = {}"
      using Cons.prems by (fastforce simp: pair_key_def sched_key_inj)
    with Cons \<open>distinct (map pair_key ?ps)\<close> show ?case by (simp add: trigger_pairs_def)
  qed (simp add: trigger_pairs_def)
  then show ?thesis unfolding cron_pairs_def by (rule distinct_filter_map)
qed

lemma find_key: "distinct (map h ps) \<Longrightarrow> p \<in> set ps \<Longrightarrow> find (\<lambda>q. h q = h p) ps = Some p"
  by (induction ps) (auto simp: image_iff)

lemma map_of_filter_keys: "map_of (filter (\<lambda>e. fst e \<in> K) xs) k = (if k \<in> K then map_of xs k else None)"
  by (induction xs) auto

lemma forget_stale_fields: "ss_next (forget_stale st) = filter (\<lambda>e. fst e \<in> fst ` set (ss_live st)) (ss_next st)" "ss_fires (forget_stale st) = ss_fires st"
  by (simp_all add: forget_stale_def Let_def)

lemma enabled_distinct: "flows_ok uc db \<Longrightarrow> ListEnabledFlows uc db = (Ok flows, db') \<Longrightarrow> distinct (map fl_ID flows)"
proof -
  assume h: "flows_ok uc db" "ListEnabledFlows uc db = (Ok flows, db')"
  have "distinct (map fl_ID (filter P (d_flows db)))" for P using h(1) distinct_filter_map by (auto simp: flows_ok_def)
  with h(2) show ?thesis
    by (auto simp: ListEnabledFlows_def repo_ListEnabled_def split: if_splits elim!: stmtE)
qed

lemma tick_effect:
  assumes "flows_ok uc (ss_db st)" "ListEnabledFlows uc (ss_db st) = (Ok flows, db)"
  shows "ss_fires (tick uc cr now stamp st) = ss_fires st @ map pair_key (filter (due now (ss_next st)) (cron_pairs uc cr flows))"
    "map_of (ss_next (tick uc cr now stamp st)) k =
       (case find (\<lambda>p. pair_key p = k) (cron_pairs uc cr flows) of None \<Rightarrow> None | Some p \<Rightarrow> next_cursor uc cr now (ss_next st) p)"
proof -
  let ?P = "cron_pairs uc cr flows" and ?s = "st\<lparr>ss_db := db, ss_live := []\<rparr>"
  have d: "distinct (map pair_key ?P)" by (rule cron_pairs_distinct[OF enabled_distinct[OF assms]])
  have a: "\<forall>p\<in>set ?P. cron_entry uc cr p \<noteq> None" by (auto simp: cron_pairs_def)
  have t: "tick uc cr now stamp st = forget_stale (tick_pairs uc cr now stamp ?P ?s)"
    using assms(2) tick_pairs_cron[of uc cr now stamp "trigger_pairs uc flows" ?s] by (simp add: tick_def tick_flows_pairs cron_pairs_def)
  note T = tick_pairs_spec[OF d a, of now stamp ?s]
  show "ss_fires (tick uc cr now stamp st) = ss_fires st @ map pair_key (filter (due now (ss_next st)) ?P)"
    using T(3) by (simp add: t forget_stale_fields)
  have "k \<in> pair_key ` set ?P \<longleftrightarrow> find (\<lambda>p. pair_key p = k) ?P \<noteq> None"
    by (auto simp: find_None_iff_all simp del: not_None_eq)
  with T(1)[of k] T(2) show "map_of (ss_next (tick uc cr now stamp st)) k =
       (case find (\<lambda>p. pair_key p = k) ?P of None \<Rightarrow> None | Some p \<Rightarrow> next_cursor uc cr now (ss_next st) p)"
    by (auto simp: t forget_stale_fields map_of_filter_keys split: option.splits)
qed

section \<open>Guarantees\<close>

text \<open>
  C27. One tick, when the definitions can be listed: the cursors it fires are exactly those of the live cron
  triggers that were armed before and whose time has come, each once and in order, so that a trigger
  seen for the first time is armed and not fired; and afterwards the table holds exactly the live
  triggers, each with the cursor \<open>step_cursor\<close> gives it.
\<close>

theorem tick_fires_exactly_due:
  assumes "flows_ok uc (ss_db st)" and "ListEnabledFlows uc (ss_db st) = (Ok flows, db)"
  shows "ss_fires (tick uc cr now stamp st) = ss_fires st @ map pair_key (filter (due now (ss_next st)) (cron_pairs uc cr flows)) \<and>
    distinct (map pair_key (cron_pairs uc cr flows)) \<and>
    map_of (ss_next (tick uc cr now stamp st)) =
      (\<lambda>k. case find (\<lambda>p. pair_key p = k) (cron_pairs uc cr flows) of None \<Rightarrow> None | Some p \<Rightarrow> next_cursor uc cr now (ss_next st) p)"
  using tick_effect[OF assms] cron_pairs_distinct[OF enabled_distinct[OF assms]] by (auto simp: fun_eq_iff)

lemma next_cursor_next:
  assumes "next_cursor uc cr now m p = Some s"
  obtains spec sched where "cron_entry uc cr p = Some (spec, sched)" "fs_CronSpec s = spec"
    "fs_NextFireAt s = (if map_of m (pair_key p) = None \<or> due now m p then cr_Next cr sched now else fs_NextFireAt (the (map_of m (pair_key p))))"
  using assms by (auto simp: next_cursor_def step_cursor_def due_def Let_def split: option.splits if_splits)

text \<open>
  When the cron library returns an occurrence after the instant it is given, every cursor lies in the
  future once a tick is over. A later tick therefore fires a trigger only when an occurrence computed
  at an earlier tick has been reached: no occurrence is fired twice.
\<close>

theorem tick_cursors_in_future:
  assumes "flows_ok uc (ss_db st)" "ListEnabledFlows uc (ss_db st) = (Ok flows, db)" "\<And>sched t. t < cr_Next cr sched t"
    and "map_of (ss_next (tick uc cr now stamp st)) k = Some s"
  shows "now < fs_NextFireAt s"
proof -
  from assms(4) tick_effect(2)[OF assms(1,2), of cr now stamp k] obtain p where p: "next_cursor uc cr now (ss_next st) p = Some s"
    by (auto split: option.splits)
  then show ?thesis
  proof (cases rule: next_cursor_next)
    case (1 spec sched)
    then show ?thesis using assms(3)[of now sched] by (auto simp: due_def split: option.splits)
  qed
qed

text \<open>
  The library returns the zero time for a specification without an occurrence in five years, such as
  the 30th of February. Its cursor then lies in the past, and the trigger fires at every tick after
  the first.
\<close>

theorem unsatisfiable_cron_fires_every_tick:
  assumes "flows_ok uc (ss_db st)" "ListEnabledFlows uc (ss_db st) = (Ok flows, db)"
    and "p \<in> set (cron_pairs uc cr flows)" "map_of (ss_next st) (pair_key p) \<noteq> None"
    and "\<And>t. cr_Next cr (snd (the (cron_entry uc cr p))) t = zero" "zero \<le> now"
    and "fs_NextFireAt (the (map_of (ss_next st) (pair_key p))) = zero"
  shows "pair_key p \<in> set (drop (length (ss_fires st)) (ss_fires (tick uc cr now stamp st))) \<and>
    (\<exists>s. map_of (ss_next (tick uc cr now stamp st)) (pair_key p) = Some s \<and> fs_NextFireAt s = zero)"
proof -
  let ?P = "cron_pairs uc cr flows"
  have d: "due now (ss_next st) p" using assms(4,6,7) by (auto simp: due_def)
  have f: "find (\<lambda>q. pair_key q = pair_key p) ?P = Some p"
    by (rule find_key[OF cron_pairs_distinct[OF enabled_distinct[OF assms(1,2)]] assms(3)])
  obtain s where s: "next_cursor uc cr now (ss_next st) p = Some s"
    using assms(3) by (auto simp: cron_pairs_def next_cursor_def)
  then have "fs_NextFireAt s = zero" using d assms(5) by (cases rule: next_cursor_next) auto
  with s f d assms(3) tick_effect[OF assms(1,2), of cr now stamp] show ?thesis by auto
qed

section \<open>A small schedule\<close>

definition demo_cron_node :: GraphNode where
  "demo_cron_node = \<lparr>gn_ID = ''c'', gn_Type = ''trigger.cron'', gn_Name = [], gn_Config = ''x'', gn_Position = None\<rparr>"

definition demo_cron_uc :: "unit Usecase" where
  "demo_cron_uc = demo_alert_uc\<lparr>uc_lib := demo_lib\<lparr>nl_Unmarshal := \<lambda>_. Ok (JObj [(''cron'', JStr ''@daily'')])\<rparr>,
     uc_decode := \<lambda>_. Ok \<lparr>g_Nodes = [demo_cron_node], g_Edges = []\<rparr>\<rparr>"

definition demo_cron :: "(instant \<Rightarrow> instant) \<Rightarrow> unit cron_lib" where
  "demo_cron next_at = \<lparr>cr_Parse = \<lambda>_. Some (), cr_Next = \<lambda>_. next_at\<rparr>"

definition demo_cursor :: "instant \<Rightarrow> FlowScheduleNextFire" where
  "demo_cursor t = \<lparr>fs_FlowID = 7, fs_NodeID = ''c'', fs_CronSpec = ''@daily'', fs_NextFireAt = t, fs_LastFireAt = None,
     fs_LastHeartbeatAt = 0, fs_Status = ''enabled'', fs_MissedCount = 0\<rparr>"

definition demo_sched :: "instant \<Rightarrow> sched_state" where
  "demo_sched t = \<lparr>ss_next = [(sched_key 7 ''c'', demo_cursor t)], ss_repo = False, ss_started = True, ss_lastPrune = 0, ss_live = [],
     ss_fires = [], ss_started_runs = [], ss_uids = [''u''], ss_db = demo_alert_db\<rparr>"

definition demo_flow :: Flow where
  "demo_flow = hd (d_flows demo_alert_db)"

lemma demo_flows: "d_flows demo_alert_db = [demo_flow]" "fl_ID demo_flow = 7" "fl_GraphJSON demo_flow = ''g''"
  by (simp_all add: demo_flow_def demo_alert_db_def)

lemma demo_cron_parses: "uc_parse demo_cron_uc ''g'' = Ok \<lparr>g_Nodes = [demo_cron_node], g_Edges = []\<rparr>"
proof -
  have "nodeIDRe ''c''" "TrimSpace ''g'' = ''g''" by code_simp+
  then show ?thesis
    by (simp add: demo_cron_uc_def demo_alert_uc_def ParseGraph_def Validate_graph_def demo_cron_node_def builtin_lookup node_type_defs deg_def adj_def)
qed

lemma demo_cron_entry: "cron_entry demo_cron_uc (demo_cron nx) (f, demo_cron_node) = Some (''@daily'', ())"
proof -
  have "TrimSpace ''@daily'' = ''@daily''" "EqualFold ''cron'' ''cron''" by code_simp+
  then show ?thesis
    by (simp add: cron_entry_def parseCronSpec_def demo_cron_node_def demo_cron_def demo_cron_uc_def demo_alert_uc_def config_str_def struct_str_def node_type_defs)
qed

lemma demo_cron_pairs: "cron_pairs demo_cron_uc (demo_cron nx) [demo_flow] = [(demo_flow, demo_cron_node)]"
proof -
  have "Triggers (uc_reg demo_cron_uc) \<lparr>g_Nodes = [demo_cron_node], g_Edges = []\<rparr> = [demo_cron_node]"
    by (simp add: Triggers_def isTriggerType_def demo_cron_uc_def demo_alert_uc_def builtin_lookup demo_cron_node_def node_type_defs node_spec_def)
  then show ?thesis by (simp add: cron_pairs_def trigger_pairs_def demo_flows demo_cron_parses demo_cron_entry)
qed

lemma demo_sched_listed:
  "ListEnabledFlows demo_cron_uc (ss_db (demo_sched t)) = (Ok [demo_flow], demo_alert_db)"
  by (simp add: ListEnabledFlows_def repo_ListEnabled_def stmt_nofault demo_sched_def demo_alert_db_def
      flow_empty_db_def demo_flow_def demo_cron_uc_def demo_alert_uc_def demo_uc_def)

lemma demo_sched_flows_ok: "flows_ok demo_cron_uc (ss_db (demo_sched t))"
  by (simp add: flows_ok_def flow_row_ok_def demo_sched_def demo_flows demo_cron_parses)
    (simp add: demo_alert_db_def flow_empty_db_def demo_flow_def)

lemma demo_key: "pair_key (demo_flow, demo_cron_node) = sched_key 7 ''c''"
  by (simp add: pair_key_def demo_flows demo_cron_node_def)

theorem tick_fires_exactly_due_witness:
  "ss_fires (tick demo_cron_uc (demo_cron (\<lambda>t. t + 1)) 5 [] (demo_sched 5)) = [sched_key 7 ''c''] \<and>
   ss_fires (tick demo_cron_uc (demo_cron (\<lambda>t. t + 1)) 4 [] (demo_sched 5)) = []"
  using tick_fires_exactly_due[OF demo_sched_flows_ok demo_sched_listed, of "demo_cron (\<lambda>t. t + 1)" _ "[]" 5]
  by (simp add: demo_cron_pairs due_def demo_key) (simp add: demo_sched_def demo_cursor_def)

theorem tick_cursors_in_future_witness:
  "\<exists>s. map_of (ss_next (tick demo_cron_uc (demo_cron (\<lambda>t. t + 1)) 5 [] (demo_sched 5))) (sched_key 7 ''c'') = Some s \<and> 5 < fs_NextFireAt s"
proof -
  let ?cr = "demo_cron (\<lambda>t. t + 1)"
  obtain s where s: "map_of (ss_next (tick demo_cron_uc ?cr 5 [] (demo_sched 5))) (sched_key 7 ''c'') = Some s"
    using tick_effect(2)[OF demo_sched_flows_ok demo_sched_listed, of ?cr 5 "[]" 5 "sched_key 7 ''c''"]
    by (simp add: demo_cron_pairs demo_key next_cursor_def demo_cron_entry)
  moreover have "5 < fs_NextFireAt s"
    using tick_cursors_in_future[OF demo_sched_flows_ok demo_sched_listed _ s] by (simp add: demo_cron_def)
  ultimately show ?thesis by blast
qed

theorem unsatisfiable_cron_fires_every_tick_witness:
  "sched_key 7 ''c'' \<in> set (ss_fires (tick demo_cron_uc (demo_cron (\<lambda>t. 0)) 5 [] (demo_sched 0)))"
proof -
  let ?cr = "demo_cron (\<lambda>t. 0)" and ?p = "(demo_flow, demo_cron_node)"
  have "sched_key 7 ''c'' \<in> set (drop (length (ss_fires (demo_sched 0))) (ss_fires (tick demo_cron_uc ?cr 5 [] (demo_sched 0))))"
    using unsatisfiable_cron_fires_every_tick[OF demo_sched_flows_ok demo_sched_listed, of ?p ?cr 0 0 5 "[]"]
    by (simp add: demo_cron_pairs demo_key demo_cron_entry) (simp add: demo_cron_def demo_sched_def demo_cursor_def)
  then show ?thesis by (rule in_set_dropD)
qed

end
