(* ===== verification/Alert_Model.thy ===== *)
theory Alert_Model
  imports Go_Json
begin

text \<open>
  Alerts: their entities (\<^verbatim>\<open>internal/manager/model/alert/model.go\<close>), the errors of the sub-domain and the
  database its store works on. A table is the list of its rows in the order of their identifiers, which are
  counted up. \<open>ad_now\<close> is the wall clock: it stamps the rows, and time passing is a change of this field.
  Each statement consumes one entry of \<open>ad_faults\<close>: a failing statement reports an error and changes
  nothing. Only channels are deleted softly; columns that no code of the sub-domain reads or writes
  are left out.

  Operations are functions of the database that return a result and the new database; \<open>abind\<close> is the
  sequence with the early return of an error, \<open>atry\<close> hands the outcome on, whether it is an error or not.
\<close>

section \<open>Constants\<close>

definition IncidentStatusOpen :: string where "IncidentStatusOpen = ''open''"
definition IncidentStatusAcknowledged :: string where "IncidentStatusAcknowledged = ''acknowledged''"
definition IncidentStatusSilenced :: string where "IncidentStatusSilenced = ''silenced''"
definition IncidentStatusResolved :: string where "IncidentStatusResolved = ''resolved''"

lemmas status_defs = IncidentStatusOpen_def IncidentStatusAcknowledged_def IncidentStatusSilenced_def IncidentStatusResolved_def

definition EventTypeFiring :: string where "EventTypeFiring = ''firing''"
definition EventTypeRepeatSuppressed :: string where "EventTypeRepeatSuppressed = ''repeat_suppressed''"
definition EventTypeAcknowledged :: string where "EventTypeAcknowledged = ''acknowledged''"
definition EventTypeSilenced :: string where "EventTypeSilenced = ''silenced''"
definition EventTypeResolved :: string where "EventTypeResolved = ''resolved''"
definition EventTypeReopened :: string where "EventTypeReopened = ''reopened''"
definition EventTypeNotificationSent :: string where "EventTypeNotificationSent = ''notification_sent''"
definition EventTypeNotificationFailed :: string where "EventTypeNotificationFailed = ''notification_failed''"
definition EventTypeInhibited :: string where "EventTypeInhibited = ''inhibited''"
definition EventTypeAlertReceived :: string where "EventTypeAlertReceived = ''alert.received''"

lemmas event_type_defs = EventTypeFiring_def EventTypeRepeatSuppressed_def EventTypeAcknowledged_def EventTypeSilenced_def
  EventTypeResolved_def EventTypeReopened_def EventTypeNotificationSent_def EventTypeNotificationFailed_def
  EventTypeInhibited_def EventTypeAlertReceived_def

definition SilenceStatusActive :: string where "SilenceStatusActive = ''active''"
definition SilenceStatusExpired :: string where "SilenceStatusExpired = ''expired''"
definition SilenceStatusCancelled :: string where "SilenceStatusCancelled = ''cancelled''"

definition RuleSourceBuiltin :: string where "RuleSourceBuiltin = ''opskeeper_builtin''"
definition RuleSourcePrometheus :: string where "RuleSourcePrometheus = ''prometheus_external''"
definition RuleJoinModeAll :: string where "RuleJoinModeAll = ''all''"
definition RuleJoinModeAny :: string where "RuleJoinModeAny = ''any''"
definition RuleScopeHost :: string where "RuleScopeHost = ''host''"
definition RuleScopeGlobal :: string where "RuleScopeGlobal = ''global''"
definition RuleScopeMonitoringPipeline :: string where "RuleScopeMonitoringPipeline = ''monitoring_pipeline''"

lemmas scope_defs = RuleScopeHost_def RuleScopeGlobal_def RuleScopeMonitoringPipeline_def

definition DeliveryStatusPending :: string where "DeliveryStatusPending = ''pending''"
definition DeliveryStatusSuccess :: string where "DeliveryStatusSuccess = ''success''"
definition DeliveryStatusFailed :: string where "DeliveryStatusFailed = ''failed''"

lemmas delivery_defs = DeliveryStatusPending_def DeliveryStatusSuccess_def DeliveryStatusFailed_def

definition ActorTypeSystem :: string where "ActorTypeSystem = ''system''"
definition ActorTypeUser :: string where "ActorTypeUser = ''user''"

section \<open>Rule kinds\<close>

definition RuleKindMetricThreshold :: string where "RuleKindMetricThreshold = ''metric_threshold''"
definition RuleKindMetricAnomaly :: string where "RuleKindMetricAnomaly = ''metric_anomaly''"
definition RuleKindMetricForecast :: string where "RuleKindMetricForecast = ''metric_forecast''"
definition RuleKindMetricBurnRate :: string where "RuleKindMetricBurnRate = ''metric_burn_rate''"
definition RuleKindMetricRaw :: string where "RuleKindMetricRaw = ''metric_raw''"
definition RuleKindLogMatch :: string where "RuleKindLogMatch = ''log_match''"
definition RuleKindLogVolume :: string where "RuleKindLogVolume = ''log_volume''"
definition RuleKindTraceLatency :: string where "RuleKindTraceLatency = ''trace_latency''"
definition RuleKindTraceErrorRate :: string where "RuleKindTraceErrorRate = ''trace_error_rate''"

lemmas kind_defs = RuleKindMetricThreshold_def RuleKindMetricAnomaly_def RuleKindMetricForecast_def RuleKindMetricBurnRate_def
  RuleKindMetricRaw_def RuleKindLogMatch_def RuleKindLogVolume_def RuleKindTraceLatency_def RuleKindTraceErrorRate_def

definition legacyKindAliases :: "(string \<times> string) list" where
  "legacyKindAliases = [(''edge_offline'', RuleKindMetricRaw), (''prom_query'', RuleKindMetricRaw),
     (''ingest_health'', RuleKindMetricRaw), (''edge_absence'', RuleKindMetricRaw),
     (''health_ingest'', RuleKindMetricRaw), (''event_internal'', RuleKindMetricRaw)]"

definition NormalizeKind :: "string \<Rightarrow> string" where
  "NormalizeKind k = (if k = [] then RuleKindMetricRaw
     else case map_of legacyKindAliases k of Some a \<Rightarrow> a | None \<Rightarrow> k)"

definition IsKnownKind :: "string \<Rightarrow> bool" where
  "IsKnownKind k = (NormalizeKind k \<in> {RuleKindMetricThreshold, RuleKindMetricAnomaly, RuleKindMetricForecast,
     RuleKindMetricBurnRate, RuleKindMetricRaw, RuleKindLogMatch, RuleKindLogVolume, RuleKindTraceLatency,
     RuleKindTraceErrorRate})"

definition IsEvaluableKind :: "string \<Rightarrow> bool" where
  "IsEvaluableKind k = (NormalizeKind k \<in> {RuleKindMetricAnomaly, RuleKindMetricForecast, RuleKindMetricBurnRate,
     RuleKindMetricRaw, RuleKindLogMatch, RuleKindLogVolume, RuleKindTraceLatency, RuleKindTraceErrorRate})"

lemma NormalizeKind_idem: "NormalizeKind (NormalizeKind k) = NormalizeKind k"
  by (auto simp: NormalizeKind_def legacyKindAliases_def kind_defs split: option.splits if_splits)

section \<open>Entities\<close>

type_synonym labels = "(string \<times> string) list"

record Incident =
  ai_ID :: nat
  ai_DeviceID :: "nat option"
  ai_Title :: string
  ai_Scope :: string
  ai_ScopeType :: string
  ai_Rule :: string
  ai_RuleName :: string
  ai_Severity :: string
  ai_Status :: string
  ai_Summary :: string
  ai_Description :: string
  ai_DedupeKey :: string
  ai_Value :: "gofloat option"
  ai_Threshold :: "gofloat option"
  ai_LabelsJSON :: string
  ai_AnnotationsJSON :: string
  ai_RunbookURL :: string
  ai_EventCount :: nat
  ai_FirstFiredAt :: instant
  ai_LastFiredAt :: instant
  ai_LastNotifiedAt :: "instant option"
  ai_SilencedUntil :: "instant option"
  ai_AcknowledgedAt :: "instant option"
  ai_AcknowledgedBy :: "nat option"
  ai_ResolvedAt :: "instant option"
  ai_ResolvedBy :: "nat option"
  ai_SourceType :: string
  ai_CreatedAt :: instant
  ai_UpdatedAt :: instant

record AlertEvent =
  ae_ID :: nat
  ae_IncidentID :: nat
  ae_EventType :: string
  ae_StatusAfter :: string
  ae_Severity :: string
  ae_Title :: string
  ae_Message :: "string option"
  ae_ActorType :: string
  ae_ActorID :: "nat option"
  ae_SnapshotJSON :: string
  ae_Reason :: string
  ae_OccurredAt :: instant
  ae_CreatedAt :: instant

record Silence =
  as_ID :: nat
  as_Name :: string
  as_ScopeType :: string
  as_DeviceID :: "nat option"
  as_Rule :: string
  as_Status :: string
  as_MatchersJSON :: string
  as_Reason :: "string option"
  as_CreatedBy :: "nat option"
  as_CancelledBy :: "nat option"
  as_StartsAt :: instant
  as_EndsAt :: instant
  as_CancelledAt :: "instant option"

record AlertRule =
  ar_ID :: nat
  ar_RuleKey :: string
  ar_Kind :: string
  ar_Name :: string
  ar_SourceType :: string
  ar_ScopeType :: string
  ar_JoinMode :: string
  ar_Severity :: string
  ar_Enabled :: bool
  ar_ConditionsJSON :: string
  ar_LabelsJSON :: "string option"
  ar_AnnotationsJSON :: "string option"
  ar_RunbookURL :: "string option"
  ar_NotifyChannelIDsJSON :: "string option"
  ar_NotifyWindowSeconds :: int
  ar_NotifyMinFires :: int
  ar_CreatedBy :: "nat option"

record Channel =
  ch_ID :: nat
  ch_Name :: string
  ch_ChannelType :: string
  ch_Enabled :: bool
  ch_ConfigJSON :: string
  ch_MatchSeverityMin :: string
  ch_MatchScopeTypes :: string
  ch_DeletedAt :: "instant option"

record Delivery =
  dl_ID :: nat
  dl_IncidentID :: "nat option"
  dl_ChannelID :: nat
  dl_Status :: string
  dl_AttemptCount :: nat
  dl_ErrorMessage :: "string option"
  dl_SentAt :: "instant option"
  dl_FinishedAt :: "instant option"

text \<open>A run of a demonstration, which alerts are matched with (\<^verbatim>\<open>internal/manager/model/demo\<close>).\<close>

record ScenarioRun =
  sr_ID :: nat
  sr_ScenarioID :: string
  sr_IncidentID :: nat
  sr_PoolManifestID :: string
  sr_AlertFingerprint :: string
  sr_Status :: string
  sr_ExpiresAt :: instant
  sr_UpdatedAt :: instant

text \<open>
  What leaves the process is the trace \<open>ad_trace\<close>, for specification only: messages handed to a sender with
  its answer (\<open>None\<close> is success), investigations asked for and workflows told. The answers of the senders come
  from \<open>ad_replies\<close>.
\<close>

record Message =
  nm_Subject :: string
  nm_Severity :: string
  nm_Source :: string
  nm_DedupeKey :: string
  nm_Labels :: labels
  nm_OccurredAt :: instant

datatype sender = NamedSender string | TypedSender string string string string

datatype alert_effect =
  Sent sender Message "string option"
| Investigated nat
| Dispatched nat string string nat labels instant

record alert_db =
  ad_incidents :: "Incident list"
  ad_nextIncident :: nat
  ad_events :: "AlertEvent list"
  ad_nextEvent :: nat
  ad_silences :: "Silence list"
  ad_nextSilence :: nat
  ad_rules :: "AlertRule list"
  ad_nextRule :: nat
  ad_channels :: "Channel list"
  ad_nextChannel :: nat
  ad_deliveries :: "Delivery list"
  ad_nextDelivery :: nat
  ad_scenarios :: "ScenarioRun list"
  ad_now :: instant
  ad_faults :: "bool list"
  ad_replies :: "string option list"
  ad_trace :: "alert_effect list"

text \<open>
  Wrapping an error with more text keeps its class, which is all that the callers test for. \<open>DbFailure\<close>
  is an error of the driver, a violated unique index included.
\<close>

datatype alert_error = AlertNotWired | AlertInvalid string | AlertNotFound | AlertConflict string | AlertForbidden string | DbFailure

type_synonym 'a alert_op = "alert_db \<Rightarrow> (alert_error, 'a) result \<times> alert_db"

section \<open>Sequencing\<close>

definition areturn :: "'a \<Rightarrow> 'a alert_op" where
  "areturn a db = (Ok a, db)"

definition araise :: "alert_error \<Rightarrow> 'a alert_op" where
  "araise e db = (Err e, db)"

definition abind :: "'a alert_op \<Rightarrow> ('a \<Rightarrow> 'b alert_op) \<Rightarrow> 'b alert_op" where
  "abind m f db = (case m db of (Err e, db') \<Rightarrow> (Err e, db') | (Ok a, db') \<Rightarrow> f a db')"

definition atry :: "'a alert_op \<Rightarrow> ((alert_error, 'a) result \<Rightarrow> 'b alert_op) \<Rightarrow> 'b alert_op" where
  "atry m f db = (case m db of (r, db') \<Rightarrow> f r db')"

definition anow :: "(instant \<Rightarrow> 'a alert_op) \<Rightarrow> 'a alert_op" where
  "anow f db = f (ad_now db) db"

definition aeffect :: "alert_effect \<Rightarrow> unit alert_op" where
  "aeffect e db = (Ok (), db\<lparr>ad_trace := ad_trace db @ [e]\<rparr>)"

definition astmt :: "(alert_db \<Rightarrow> (alert_error, 'a) result \<times> alert_db) \<Rightarrow> 'a alert_op" where
  "astmt act db = (case ad_faults db of
     [] \<Rightarrow> act db
   | f # fs \<Rightarrow> (let db' = db\<lparr>ad_faults := fs\<rparr> in if f then (Err DbFailure, db') else act db'))"

fun aeach :: "('a \<Rightarrow> unit alert_op) \<Rightarrow> 'a list \<Rightarrow> unit alert_op" where
  "aeach f [] = areturn ()"
| "aeach f (x # xs) = atry (f x) (\<lambda>_. aeach f xs)"

text \<open>
  \<open>akeeps P m\<close>: the operation \<open>m\<close> keeps \<open>P\<close>, however it ends. The rules follow the combinators, so
  that a property kept by every statement is kept by every operation.
\<close>

definition akeeps :: "(alert_db \<Rightarrow> bool) \<Rightarrow> 'a alert_op \<Rightarrow> bool" where
  "akeeps P m = (\<forall>db. P db \<longrightarrow> P (snd (m db)))"

named_theorems keep_intros \<open>which operations keep a property of the database\<close>

lemma akeepsI: "(\<And>db. P db \<Longrightarrow> P (snd (m db))) \<Longrightarrow> akeeps P m"
  by (simp add: akeeps_def)

lemma akeepsD: "akeeps P m \<Longrightarrow> P db \<Longrightarrow> P (snd (m db))"
  by (simp add: akeeps_def)

lemma keeps_return [keep_intros]: "akeeps P (areturn a)"
  by (simp add: akeeps_def areturn_def)

lemma keeps_raise [keep_intros]: "akeeps P (araise e)"
  by (simp add: akeeps_def araise_def)

lemma keeps_bind [keep_intros]: "akeeps P m \<Longrightarrow> (\<And>a. akeeps P (f a)) \<Longrightarrow> akeeps P (abind m f)"
  unfolding akeeps_def abind_def by (auto split: prod.splits sum.splits)

lemma keeps_try [keep_intros]: "akeeps P m \<Longrightarrow> (\<And>r. akeeps P (f r)) \<Longrightarrow> akeeps P (atry m f)"
  unfolding akeeps_def atry_def by (auto split: prod.splits)

lemma keeps_now [keep_intros]: "(\<And>t. akeeps P (f t)) \<Longrightarrow> akeeps P (anow f)"
  by (simp add: akeeps_def anow_def)

lemma keeps_if [keep_intros]: "(b \<Longrightarrow> akeeps P m) \<Longrightarrow> (\<not> b \<Longrightarrow> akeeps P n) \<Longrightarrow> akeeps P (if b then m else n)"
  by simp

lemma keeps_option [keep_intros]:
  "(x = None \<Longrightarrow> akeeps P m) \<Longrightarrow> (\<And>y. x = Some y \<Longrightarrow> akeeps P (f y)) \<Longrightarrow> akeeps P (case x of None \<Rightarrow> m | Some y \<Rightarrow> f y)"
  by (cases x) simp_all

lemma keeps_sum [keep_intros]:
  "(\<And>e. x = Err e \<Longrightarrow> akeeps P (g e)) \<Longrightarrow> (\<And>y. x = Ok y \<Longrightarrow> akeeps P (f y)) \<Longrightarrow> akeeps P (case x of Err e \<Rightarrow> g e | Ok y \<Rightarrow> f y)"
  by (cases x) simp_all

lemma keeps_prod [keep_intros]: "(\<And>a b. x = (a, b) \<Longrightarrow> akeeps P (f a b)) \<Longrightarrow> akeeps P (case x of (a, b) \<Rightarrow> f a b)"
  by (cases x) simp

lemma keeps_let [keep_intros]: "akeeps P (f x) \<Longrightarrow> akeeps P (let y = x in f y)"
  by simp

lemma keeps_each [keep_intros]: "(\<And>x. x \<in> set xs \<Longrightarrow> akeeps P (f x)) \<Longrightarrow> akeeps P (aeach f xs)"
  by (induction xs) (auto intro!: keep_intros)

lemma keeps_stmt:
  assumes "\<And>db. P db \<Longrightarrow> P (db\<lparr>ad_faults := tl (ad_faults db)\<rparr>)" "\<And>db. P db \<Longrightarrow> P (snd (act db))"
  shows "akeeps P (astmt act)"
proof (rule akeepsI)
  fix db assume "P db"
  with assms(1)[OF this] assms(2) show "P (snd (astmt act db))" by (cases "ad_faults db") (auto simp: astmt_def Let_def)
qed

text \<open>Without failures the combinators compute.\<close>

lemma abind_Ok: "m db = (Ok a, db') \<Longrightarrow> abind m f db = f a db'"
  by (simp add: abind_def)

lemma abind_Err: "m db = (Err e, db') \<Longrightarrow> abind m f db = (Err e, db')"
  by (simp add: abind_def)

lemma atry_eq: "m db = (r, db') \<Longrightarrow> atry m f db = f r db'"
  by (simp add: atry_def)

lemma astmt_calm: "ad_faults db = [] \<Longrightarrow> astmt act db = act db"
  by (simp add: astmt_def)

lemma astmt_post:
  assumes "I db" "\<And>d fs. I d \<Longrightarrow> I (d\<lparr>ad_faults := fs\<rparr>)" "\<And>d. I d \<Longrightarrow> Q (act d)" "\<And>d. I d \<Longrightarrow> Q (Err DbFailure, d)"
  shows "Q (astmt act db)"
  using assms by (auto simp: astmt_def Let_def split: list.splits)

lemma astmt_Ok:
  assumes "astmt act db = (Ok a, db')"
  obtains fs where "act (db\<lparr>ad_faults := fs\<rparr>) = (Ok a, db')"
proof (cases "ad_faults db")
  case Nil
  then have "db\<lparr>ad_faults := []\<rparr> = db" by (cases db) simp
  with Nil assms that[of "[]"] show ?thesis by (simp add: astmt_def)
next
  case (Cons f fs)
  with assms that[of fs] show ?thesis by (simp add: astmt_def Let_def split: if_splits)
qed

lemmas alert_run = abind_def atry_def areturn_def araise_def anow_def aeffect_def

end
