(* ===== verification/Alert_Store.thy ===== *)
theory Alert_Store
  imports Alert_Model Go_Strings
begin

text \<open>
  The store of alerts (\<^verbatim>\<open>internal/manager/data/alert/store/repo.go\<close>, the checks of \<^verbatim>\<open>types.go\<close> and the unique
  indexes of \<^verbatim>\<open>model.go\<close>). An update names a row by its identifier and reports when there is none. An
  instant is counted from Go's zero time, so that \<^verbatim>\<open>IsZero\<close> is the test for \<open>0\<close>; where the store replaces
  a zero time it takes the wall clock.
\<close>

section \<open>Checks\<close>

definition validateIncidentStatus :: "string \<Rightarrow> bool" where
  "validateIncidentStatus s = (s \<in> {IncidentStatusOpen, IncidentStatusAcknowledged, IncidentStatusSilenced, IncidentStatusResolved})"

definition validateSilenceStatus :: "string \<Rightarrow> bool" where
  "validateSilenceStatus s = (s \<in> {SilenceStatusActive, SilenceStatusExpired, SilenceStatusCancelled})"

definition validateDeliveryStatus :: "string \<Rightarrow> bool" where
  "validateDeliveryStatus s = (s \<in> {DeliveryStatusPending, DeliveryStatusSuccess, DeliveryStatusFailed})"

definition or_now :: "instant \<Rightarrow> alert_db \<Rightarrow> instant" where
  "or_now t db = (if t = 0 then ad_now db else t)"

section \<open>Incidents\<close>

record IncidentFilter =
  if_Status :: string
  if_Severity :: string
  if_RuleKey :: string
  if_DeviceID :: "nat option"
  if_Limit :: int
  if_Offset :: int

definition incident_selected :: "IncidentFilter \<Rightarrow> Incident \<Rightarrow> bool" where
  "incident_selected f i = ((if_Status f = [] \<or> ai_Status i = if_Status f) \<and>
     (if_Severity f = [] \<or> ai_Severity i = if_Severity f) \<and>
     (if_RuleKey f = [] \<or> ai_Rule i = if_RuleKey f) \<and>
     (case if_DeviceID f of None \<Rightarrow> True | Some d \<Rightarrow> ai_DeviceID i = Some d))"

text \<open>A page: \<^verbatim>\<open>LIMIT\<close> and \<^verbatim>\<open>OFFSET\<close> apply when positive.\<close>

definition page_of :: "int \<Rightarrow> int \<Rightarrow> 'a list \<Rightarrow> 'a list" where
  "page_of limit offset xs = (let ys = (if offset > 0 then drop (nat offset) xs else xs)
     in if limit > 0 then take (nat limit) ys else ys)"

fun insert_after :: "('a \<Rightarrow> 'a \<Rightarrow> bool) \<Rightarrow> 'a \<Rightarrow> 'a list \<Rightarrow> 'a list" where
  "insert_after lt x [] = [x]"
| "insert_after lt x (y # ys) = (if lt x y then x # y # ys else y # insert_after lt x ys)"

definition order_rows :: "('a \<Rightarrow> 'a \<Rightarrow> bool) \<Rightarrow> 'a list \<Rightarrow> 'a list" where
  "order_rows lt xs = foldr (insert_after lt) xs []"

definition newer_incident :: "Incident \<Rightarrow> Incident \<Rightarrow> bool" where
  "newer_incident a b = (ai_LastFiredAt a > ai_LastFiredAt b \<or> (ai_LastFiredAt a = ai_LastFiredAt b \<and> ai_ID a > ai_ID b))"

definition ListIncidents :: "IncidentFilter \<Rightarrow> Incident list alert_op" where
  "ListIncidents f = astmt (\<lambda>db. (Ok (page_of (if_Limit f) (if_Offset f)
     (order_rows newer_incident (filter (incident_selected f) (ad_incidents db)))), db))"

definition CountIncidents :: "IncidentFilter \<Rightarrow> nat alert_op" where
  "CountIncidents f = astmt (\<lambda>db. (Ok (length (filter (incident_selected f) (ad_incidents db))), db))"

definition found :: "'a option \<Rightarrow> alert_db \<Rightarrow> (alert_error, 'a) result \<times> alert_db" where
  "found x db = (case x of None \<Rightarrow> Err AlertNotFound | Some a \<Rightarrow> Ok a, db)"

definition find_incident :: "alert_db \<Rightarrow> nat \<Rightarrow> Incident option" where
  "find_incident db i = find (\<lambda>x. ai_ID x = i) (ad_incidents db)"

definition find_key :: "alert_db \<Rightarrow> string \<Rightarrow> Incident option" where
  "find_key db k = find (\<lambda>x. ai_DedupeKey x = k) (ad_incidents db)"

definition GetIncidentByID :: "nat \<Rightarrow> Incident alert_op" where
  "GetIncidentByID i = astmt (\<lambda>db. found (find_incident db i) db)"

definition GetIncidentByDedupeKey :: "string \<Rightarrow> Incident alert_op" where
  "GetIncidentByDedupeKey k = astmt (\<lambda>db. found (find_key db k) db)"

definition update_incident :: "nat \<Rightarrow> (Incident \<Rightarrow> Incident) \<Rightarrow> alert_db \<Rightarrow> (alert_error, unit) result \<times> alert_db" where
  "update_incident i f db =
    (if i \<in> ai_ID ` set (ad_incidents db)
     then (Ok (), db\<lparr>ad_incidents := map (\<lambda>x. if ai_ID x = i then f x else x) (ad_incidents db)\<rparr>)
     else (Err AlertNotFound, db))"

definition status_update :: "string \<Rightarrow> nat option \<Rightarrow> instant \<Rightarrow> Incident \<Rightarrow> Incident" where
  "status_update status actor t x =
    (let y = x\<lparr>ai_Status := status, ai_UpdatedAt := t\<rparr> in
     if status = IncidentStatusAcknowledged then y\<lparr>ai_AcknowledgedAt := Some t, ai_AcknowledgedBy := actor\<rparr>
     else if status = IncidentStatusSilenced then y\<lparr>ai_SilencedUntil := Some t\<rparr>
     else if status = IncidentStatusResolved then y\<lparr>ai_ResolvedAt := Some t, ai_ResolvedBy := actor\<rparr>
     else y)"

definition UpdateIncidentStatus :: "nat \<Rightarrow> string \<Rightarrow> nat option \<Rightarrow> instant \<Rightarrow> unit alert_op" where
  "UpdateIncidentStatus i status actor occurredAt db =
    (if \<not> validateIncidentStatus status then (Err (AlertInvalid ''unknown incident status''), db)
     else let t = or_now occurredAt db in astmt (update_incident i (status_update status actor t)) db)"

definition bump_update :: "instant \<Rightarrow> instant \<Rightarrow> string \<Rightarrow> gofloat option \<Rightarrow> gofloat option \<Rightarrow> Incident \<Rightarrow> Incident" where
  "bump_update now t summary val thr x = x\<lparr>ai_LastFiredAt := t, ai_EventCount := ai_EventCount x + 1,
     ai_Summary := summary, ai_Value := val, ai_Threshold := thr, ai_UpdatedAt := now\<rparr>"

definition BumpIncidentFiring :: "nat \<Rightarrow> instant \<Rightarrow> string \<Rightarrow> gofloat option \<Rightarrow> gofloat option \<Rightarrow> unit alert_op" where
  "BumpIncidentFiring i firedAt summary val thr db =
    astmt (update_incident i (bump_update (ad_now db) (or_now firedAt db) summary val thr)) db"

definition reopen_update :: "instant \<Rightarrow> instant \<Rightarrow> string \<Rightarrow> gofloat option \<Rightarrow> gofloat option \<Rightarrow> Incident \<Rightarrow> Incident" where
  "reopen_update now t summary val thr x = (bump_update now t summary val thr x)
     \<lparr>ai_Status := IncidentStatusOpen, ai_SilencedUntil := None, ai_ResolvedAt := None, ai_ResolvedBy := None\<rparr>"

definition ReopenIncident :: "nat \<Rightarrow> instant \<Rightarrow> string \<Rightarrow> gofloat option \<Rightarrow> gofloat option \<Rightarrow> unit alert_op" where
  "ReopenIncident i firedAt summary val thr db =
    astmt (update_incident i (reopen_update (ad_now db) (or_now firedAt db) summary val thr)) db"

definition MarkIncidentNotified :: "nat \<Rightarrow> instant \<Rightarrow> unit alert_op" where
  "MarkIncidentNotified i t db =
    astmt (update_incident i (\<lambda>x. x\<lparr>ai_LastNotifiedAt := Some (or_now t db), ai_UpdatedAt := ad_now db\<rparr>)) db"

text \<open>The row gets its identifier and time stamps; the unique index on the dedupe key may refuse it.\<close>

text \<open>A column with a default in its tag takes it on creation when the field is zero; \<^verbatim>\<open>false\<close> is zero.\<close>

definition col_default :: "string \<Rightarrow> string \<Rightarrow> string" where
  "col_default d v = (if v = [] then d else v)"

lemma col_default_given [simp]: "v \<noteq> [] \<Longrightarrow> col_default d v = v" "col_default d d = d"
  by (simp_all add: col_default_def)

definition CreateAlertIncident :: "Incident \<Rightarrow> Incident alert_op" where
  "CreateAlertIncident x = astmt (\<lambda>db.
     if ai_DedupeKey x \<in> ai_DedupeKey ` set (ad_incidents db) then (Err DbFailure, db)
     else (let y = x\<lparr>ai_ID := ad_nextIncident db, ai_Status := col_default IncidentStatusOpen (ai_Status x), ai_CreatedAt := ad_now db, ai_UpdatedAt := ad_now db\<rparr>
           in (Ok y, db\<lparr>ad_incidents := ad_incidents db @ [y], ad_nextIncident := ad_nextIncident db + 1\<rparr>)))"

definition CreateIncident :: "Incident \<Rightarrow> Incident alert_op" where
  "CreateIncident x = CreateAlertIncident x"

text \<open>Written are the fields of the given row that are not zero. Nothing calls this update.\<close>

definition keep :: "'a \<Rightarrow> 'a \<Rightarrow> 'a \<Rightarrow> 'a" where
  "keep zero new old = (if new = zero then old else new)"

definition row_update :: "instant \<Rightarrow> Incident \<Rightarrow> Incident \<Rightarrow> Incident" where
  "row_update now x y = \<lparr>ai_ID = ai_ID y, ai_DeviceID = keep None (ai_DeviceID x) (ai_DeviceID y), ai_Title = keep [] (ai_Title x) (ai_Title y),
     ai_Scope = keep [] (ai_Scope x) (ai_Scope y), ai_ScopeType = keep [] (ai_ScopeType x) (ai_ScopeType y), ai_Rule = keep [] (ai_Rule x) (ai_Rule y),
     ai_RuleName = keep [] (ai_RuleName x) (ai_RuleName y), ai_Severity = keep [] (ai_Severity x) (ai_Severity y),
     ai_Status = keep [] (ai_Status x) (ai_Status y), ai_Summary = keep [] (ai_Summary x) (ai_Summary y),
     ai_Description = keep [] (ai_Description x) (ai_Description y), ai_DedupeKey = keep [] (ai_DedupeKey x) (ai_DedupeKey y),
     ai_Value = keep None (ai_Value x) (ai_Value y), ai_Threshold = keep None (ai_Threshold x) (ai_Threshold y),
     ai_LabelsJSON = keep [] (ai_LabelsJSON x) (ai_LabelsJSON y), ai_AnnotationsJSON = keep [] (ai_AnnotationsJSON x) (ai_AnnotationsJSON y),
     ai_RunbookURL = keep [] (ai_RunbookURL x) (ai_RunbookURL y), ai_EventCount = keep 0 (ai_EventCount x) (ai_EventCount y),
     ai_FirstFiredAt = keep 0 (ai_FirstFiredAt x) (ai_FirstFiredAt y), ai_LastFiredAt = keep 0 (ai_LastFiredAt x) (ai_LastFiredAt y),
     ai_LastNotifiedAt = keep None (ai_LastNotifiedAt x) (ai_LastNotifiedAt y), ai_SilencedUntil = keep None (ai_SilencedUntil x) (ai_SilencedUntil y),
     ai_AcknowledgedAt = keep None (ai_AcknowledgedAt x) (ai_AcknowledgedAt y), ai_AcknowledgedBy = keep None (ai_AcknowledgedBy x) (ai_AcknowledgedBy y),
     ai_ResolvedAt = keep None (ai_ResolvedAt x) (ai_ResolvedAt y), ai_ResolvedBy = keep None (ai_ResolvedBy x) (ai_ResolvedBy y),
     ai_SourceType = keep [] (ai_SourceType x) (ai_SourceType y), ai_CreatedAt = keep 0 (ai_CreatedAt x) (ai_CreatedAt y), ai_UpdatedAt = now\<rparr>"

definition UpdateIncident :: "Incident \<Rightarrow> unit alert_op" where
  "UpdateIncident x = astmt (\<lambda>db.
     if ai_DedupeKey x \<noteq> [] \<and> (\<exists>y\<in>set (ad_incidents db). ai_ID y \<noteq> ai_ID x \<and> ai_DedupeKey y = ai_DedupeKey x) then (Err DbFailure, db)
     else update_incident (ai_ID x) (row_update (ad_now db) x) db)"

section \<open>Events\<close>

definition CreateEvent :: "AlertEvent \<Rightarrow> unit alert_op" where
  "CreateEvent e = astmt (\<lambda>db. (Ok (), db\<lparr>ad_events := ad_events db @ [e\<lparr>ae_ID := ad_nextEvent db,
     ae_ActorType := col_default ActorTypeSystem (ae_ActorType e), ae_CreatedAt := ad_now db\<rparr>],
     ad_nextEvent := ad_nextEvent db + 1\<rparr>))"

definition event_counted :: "alert_db \<Rightarrow> string \<Rightarrow> instant \<Rightarrow> string \<Rightarrow> string \<Rightarrow> AlertEvent \<Rightarrow> bool" where
  "event_counted db ty since rule sev e = (ae_EventType e = ty \<and> ae_CreatedAt e \<ge> since \<and>
     (sev = [] \<or> ae_Severity e = sev) \<and>
     (rule = [] \<or> ae_IncidentID e \<in> ai_ID ` set (filter (\<lambda>i. ai_Rule i = rule) (ad_incidents db))))"

definition CountEventsByType :: "string \<Rightarrow> instant \<Rightarrow> string \<Rightarrow> string \<Rightarrow> nat alert_op" where
  "CountEventsByType ty since rule sev = astmt (\<lambda>db. (Ok (length (filter (event_counted db ty since rule sev) (ad_events db))), db))"

definition newer_event :: "AlertEvent \<Rightarrow> AlertEvent \<Rightarrow> bool" where
  "newer_event a b = (ae_CreatedAt a > ae_CreatedAt b \<or> (ae_CreatedAt a = ae_CreatedAt b \<and> ae_ID a > ae_ID b))"

definition ListEventsByIncident :: "nat \<Rightarrow> int \<Rightarrow> AlertEvent list alert_op" where
  "ListEventsByIncident i limit = astmt (\<lambda>db. (Ok (page_of limit 0
     (order_rows newer_event (filter (\<lambda>e. ae_IncidentID e = i) (ad_events db)))), db))"

section \<open>Silences\<close>

definition CreateSilence :: "Silence \<Rightarrow> unit alert_op" where
  "CreateSilence s = astmt (\<lambda>db. (Ok (), db\<lparr>ad_silences := ad_silences db @ [s\<lparr>as_ID := ad_nextSilence db,
     as_Status := col_default SilenceStatusActive (as_Status s)\<rparr>],
     ad_nextSilence := ad_nextSilence db + 1\<rparr>))"

definition silence_active :: "instant \<Rightarrow> Silence \<Rightarrow> bool" where
  "silence_active t s = (as_Status s = SilenceStatusActive \<and> as_StartsAt s \<le> t \<and> as_EndsAt s > t)"

definition ListActiveSilences :: "instant \<Rightarrow> Silence list alert_op" where
  "ListActiveSilences t = astmt (\<lambda>db. (Ok (rev (filter (silence_active (or_now t db)) (ad_silences db))), db))"

definition GetSilenceByID :: "nat \<Rightarrow> Silence alert_op" where
  "GetSilenceByID i = astmt (\<lambda>db. found (find (\<lambda>s. as_ID s = i) (ad_silences db)) db)"

definition UpdateSilenceStatus :: "nat \<Rightarrow> string \<Rightarrow> nat option \<Rightarrow> instant option \<Rightarrow> unit alert_op" where
  "UpdateSilenceStatus i status cancelledBy cancelledAt db =
    (if \<not> validateSilenceStatus status then (Err (AlertInvalid ''unknown silence status''), db)
     else astmt (\<lambda>db. if i \<in> as_ID ` set (ad_silences db)
       then (Ok (), db\<lparr>ad_silences := map (\<lambda>s. if as_ID s = i then s\<lparr>as_Status := status,
              as_CancelledBy := (case cancelledBy of None \<Rightarrow> as_CancelledBy s | b \<Rightarrow> b),
              as_CancelledAt := (case cancelledAt of None \<Rightarrow> as_CancelledAt s | t \<Rightarrow> t)\<rparr> else s) (ad_silences db)\<rparr>)
       else (Err AlertNotFound, db)) db)"

section \<open>Rules\<close>

definition find_rule :: "alert_db \<Rightarrow> nat \<Rightarrow> AlertRule option" where
  "find_rule db i = find (\<lambda>r. ar_ID r = i) (ad_rules db)"

definition find_rule_key :: "alert_db \<Rightarrow> string \<Rightarrow> AlertRule option" where
  "find_rule_key db k = find (\<lambda>r. ar_RuleKey r = k) (ad_rules db)"

text \<open>\<^verbatim>\<open>enabled\<close> defaults to true: a row created as disabled is stored, and handed back, as enabled.\<close>

definition repo_CreateRule :: "AlertRule \<Rightarrow> AlertRule alert_op" where
  "repo_CreateRule x = astmt (\<lambda>db.
     if ar_RuleKey x \<in> ar_RuleKey ` set (ad_rules db) then (Err DbFailure, db)
     else (let y = x\<lparr>ar_ID := ad_nextRule db, ar_Kind := col_default RuleKindMetricRaw (ar_Kind x),
         ar_JoinMode := col_default RuleJoinModeAll (ar_JoinMode x), ar_Enabled := True\<rparr> in (Ok y, db\<lparr>ad_rules := ad_rules db @ [y], ad_nextRule := ad_nextRule db + 1\<rparr>)))"

definition GetRuleByID :: "nat \<Rightarrow> AlertRule alert_op" where
  "GetRuleByID i = astmt (\<lambda>db. found (find_rule db i) db)"

definition GetRuleByKey :: "string \<Rightarrow> AlertRule alert_op" where
  "GetRuleByKey k db = (if k = [] then (Err (AlertInvalid []), db) else astmt (\<lambda>db. found (find_rule_key db k) db) db)"

definition ListAllEnabledRules :: "AlertRule list alert_op" where
  "ListAllEnabledRules = astmt (\<lambda>db. (Ok (filter ar_Enabled (ad_rules db)), db))"

definition ListEnabledRulesByScope :: "string \<Rightarrow> AlertRule list alert_op" where
  "ListEnabledRulesByScope scope = astmt (\<lambda>db. (Ok (filter (\<lambda>r. ar_Enabled r \<and> ar_ScopeType r = scope) (ad_rules db)), db))"

definition repo_ListRules :: "string \<Rightarrow> AlertRule list alert_op" where
  "repo_ListRules scope = astmt (\<lambda>db. (Ok (filter (\<lambda>r. scope = [] \<or> ar_ScopeType r = scope) (ad_rules db)), db))"

definition UpsertBuiltinRule :: "AlertRule \<Rightarrow> AlertRule alert_op" where
  "UpsertBuiltinRule x =
    (if ar_RuleKey x = [] then araise (AlertInvalid [])
     else atry (astmt (\<lambda>db. found (find_rule_key db (ar_RuleKey x)) db)) (\<lambda>r. case r of
         Ok existing \<Rightarrow> areturn existing
       | Err e \<Rightarrow> if e = AlertNotFound then repo_CreateRule x else araise e))"

definition update_rule :: "nat \<Rightarrow> (AlertRule \<Rightarrow> AlertRule) \<Rightarrow> alert_db \<Rightarrow> (alert_error, unit) result \<times> alert_db" where
  "update_rule i f db =
    (if i \<in> ar_ID ` set (ad_rules db) then (Ok (), db\<lparr>ad_rules := map (\<lambda>r. if ar_ID r = i then f r else r) (ad_rules db)\<rparr>)
     else (Err AlertNotFound, db))"

definition UpdateRuleEnabled :: "nat \<Rightarrow> bool \<Rightarrow> unit alert_op" where
  "UpdateRuleEnabled i b = astmt (update_rule i (\<lambda>r. r\<lparr>ar_Enabled := b\<rparr>))"

text \<open>The kind of the row is not among the columns written.\<close>

definition repo_UpdateRule :: "nat \<Rightarrow> AlertRule \<Rightarrow> unit alert_op" where
  "repo_UpdateRule i x = astmt (update_rule i (\<lambda>r. r\<lparr>ar_Name := ar_Name x, ar_ScopeType := ar_ScopeType x,
     ar_JoinMode := ar_JoinMode x, ar_Severity := ar_Severity x, ar_Enabled := ar_Enabled x,
     ar_ConditionsJSON := ar_ConditionsJSON x, ar_LabelsJSON := ar_LabelsJSON x,
     ar_AnnotationsJSON := ar_AnnotationsJSON x, ar_RunbookURL := ar_RunbookURL x,
     ar_NotifyWindowSeconds := ar_NotifyWindowSeconds x, ar_NotifyMinFires := ar_NotifyMinFires x,
     ar_NotifyChannelIDsJSON := ar_NotifyChannelIDsJSON x\<rparr>))"

definition repo_DeleteRule :: "nat \<Rightarrow> unit alert_op" where
  "repo_DeleteRule i = astmt (\<lambda>db. if i \<in> ar_ID ` set (ad_rules db)
     then (Ok (), db\<lparr>ad_rules := filter (\<lambda>r. ar_ID r \<noteq> i) (ad_rules db)\<rparr>) else (Err AlertNotFound, db))"

section \<open>Channels and deliveries\<close>

abbreviation live_channels :: "alert_db \<Rightarrow> Channel list" where
  "live_channels db \<equiv> filter (\<lambda>c. ch_DeletedAt c = None) (ad_channels db)"

definition GetChannelByName :: "string \<Rightarrow> Channel alert_op" where
  "GetChannelByName n = astmt (\<lambda>db. found (find (\<lambda>c. ch_Name c = n) (live_channels db)) db)"

definition GetChannelByID :: "nat \<Rightarrow> Channel alert_op" where
  "GetChannelByID i = astmt (\<lambda>db. found (find (\<lambda>c. ch_ID c = i) (live_channels db)) db)"

definition ListEnabledChannels :: "Channel list alert_op" where
  "ListEnabledChannels = astmt (\<lambda>db. (Ok (filter ch_Enabled (live_channels db)), db))"

definition CreateChannel :: "Channel \<Rightarrow> Channel alert_op" where
  "CreateChannel x = astmt (\<lambda>db. let y = x\<lparr>ch_ID := ad_nextChannel db, ch_Enabled := True, ch_DeletedAt := None\<rparr>
     in (Ok y, db\<lparr>ad_channels := ad_channels db @ [y], ad_nextChannel := ad_nextChannel db + 1\<rparr>))"

definition update_channel :: "nat \<Rightarrow> (Channel \<Rightarrow> Channel) \<Rightarrow> alert_db \<Rightarrow> (alert_error, unit) result \<times> alert_db" where
  "update_channel i f db =
    (if i \<in> ch_ID ` set (live_channels db)
     then (Ok (), db\<lparr>ad_channels := map (\<lambda>c. if ch_ID c = i \<and> ch_DeletedAt c = None then f c else c) (ad_channels db)\<rparr>)
     else (Err AlertNotFound, db))"

definition UpdateChannelEnabled :: "nat \<Rightarrow> bool \<Rightarrow> unit alert_op" where
  "UpdateChannelEnabled i b = astmt (update_channel i (\<lambda>c. c\<lparr>ch_Enabled := b\<rparr>))"

definition UpdateChannel :: "nat \<Rightarrow> Channel \<Rightarrow> unit alert_op" where
  "UpdateChannel i x = astmt (update_channel i (\<lambda>c. c\<lparr>ch_Name := ch_Name x, ch_ChannelType := ch_ChannelType x,
     ch_Enabled := ch_Enabled x, ch_ConfigJSON := ch_ConfigJSON x, ch_MatchSeverityMin := ch_MatchSeverityMin x,
     ch_MatchScopeTypes := ch_MatchScopeTypes x\<rparr>))"

definition DeleteChannel :: "nat \<Rightarrow> unit alert_op" where
  "DeleteChannel i db = astmt (update_channel i (\<lambda>c. c\<lparr>ch_DeletedAt := Some (ad_now db)\<rparr>)) db"

definition PurgeLegacyLogChannels :: "unit alert_op" where
  "PurgeLegacyLogChannels = astmt (\<lambda>db. (Ok (), db\<lparr>ad_channels := map (\<lambda>c.
     if ch_ChannelType c = ''log'' \<and> ch_DeletedAt c = None then c\<lparr>ch_DeletedAt := Some (ad_now db)\<rparr> else c) (ad_channels db)\<rparr>))"

definition UpsertChannelByName :: "Channel \<Rightarrow> Channel alert_op" where
  "UpsertChannelByName x =
    (if ch_Name x = [] then araise (AlertInvalid [])
     else atry (GetChannelByName (ch_Name x)) (\<lambda>r. case r of
         Err e \<Rightarrow> if e = AlertNotFound then CreateChannel x else araise e
       | Ok c \<Rightarrow> (let f = (\<lambda>c. c\<lparr>ch_ChannelType := ch_ChannelType x, ch_Enabled := ch_Enabled x, ch_ConfigJSON := ch_ConfigJSON x\<rparr>)
                in abind (astmt (\<lambda>db. (Ok (), snd (update_channel (ch_ID c) f db)))) (\<lambda>_. areturn (f c)))))"

definition CreateDelivery :: "Delivery \<Rightarrow> nat alert_op" where
  "CreateDelivery d = astmt (\<lambda>db. (Ok (ad_nextDelivery db), db\<lparr>ad_deliveries := ad_deliveries db @ [d\<lparr>dl_ID := ad_nextDelivery db,
     dl_Status := col_default DeliveryStatusPending (dl_Status d)\<rparr>],
     ad_nextDelivery := ad_nextDelivery db + 1\<rparr>))"

definition UpdateDeliveryStatus :: "nat \<Rightarrow> string \<Rightarrow> nat \<Rightarrow> string option \<Rightarrow> instant option \<Rightarrow> instant option \<Rightarrow> unit alert_op" where
  "UpdateDeliveryStatus i status attempts errMsg sentAt finishedAt db =
    (if \<not> validateDeliveryStatus status then (Err (AlertInvalid ''unknown delivery status''), db)
     else astmt (\<lambda>db. if i \<in> dl_ID ` set (ad_deliveries db)
       then (Ok (), db\<lparr>ad_deliveries := map (\<lambda>d. if dl_ID d = i then d\<lparr>dl_Status := status, dl_AttemptCount := attempts,
              dl_ErrorMessage := errMsg, dl_SentAt := sentAt, dl_FinishedAt := finishedAt\<rparr> else d) (ad_deliveries db)\<rparr>)
       else (Err AlertNotFound, db)) db)"

definition delivery_retriable :: "nat \<Rightarrow> instant \<Rightarrow> Delivery \<Rightarrow> bool" where
  "delivery_retriable maxAttempts before d = (dl_Status d = DeliveryStatusFailed \<and> dl_AttemptCount d < maxAttempts \<and>
     (before = 0 \<or> (case dl_FinishedAt d of None \<Rightarrow> True | Some t \<Rightarrow> t \<le> before)))"

definition ListRetriableDeliveries :: "nat \<Rightarrow> instant \<Rightarrow> int \<Rightarrow> Delivery list alert_op" where
  "ListRetriableDeliveries maxAttempts before limit = astmt (\<lambda>db. (Ok (take (nat (if limit \<le> 0 then 100 else limit))
     (filter (delivery_retriable maxAttempts before) (ad_deliveries db))), db))"

section \<open>Demonstrations\<close>

definition ScenarioStatusStarting :: string where "ScenarioStatusStarting = ''starting''"
definition ScenarioStatusAwaitingAlert :: string where "ScenarioStatusAwaitingAlert = ''awaiting_alert''"
definition ScenarioStatusAlertCorrelated :: string where "ScenarioStatusAlertCorrelated = ''alert_correlated''"

definition demo_statuses :: "string list" where
  "demo_statuses = [ScenarioStatusStarting, ScenarioStatusAwaitingAlert, ScenarioStatusAlertCorrelated, ''diagnosis_dispatched'',
     ''preview_ready'', ''awaiting_approval'', ''repair_dispatched'', ''verifying'']"

definition activeScenario :: "instant \<Rightarrow> ScenarioRun \<Rightarrow> bool" where
  "activeScenario now r = (sr_ExpiresAt r > now \<and> sr_Status r \<in> set demo_statuses \<and> sr_ScenarioID r = ''pg-pool-exhaustion'')"

definition scenario_before :: "ScenarioRun \<Rightarrow> ScenarioRun \<Rightarrow> bool" where
  "scenario_before a b = (sr_ExpiresAt a > sr_ExpiresAt b \<or> (sr_ExpiresAt a = sr_ExpiresAt b \<and>
     (sr_UpdatedAt a > sr_UpdatedAt b \<or> (sr_UpdatedAt a = sr_UpdatedAt b \<and> sr_ID a < sr_ID b))))"

definition first_scenario :: "(ScenarioRun \<Rightarrow> bool) \<Rightarrow> ScenarioRun option alert_op" where
  "first_scenario p = astmt (\<lambda>db. (Ok (case order_rows scenario_before (filter (\<lambda>r. activeScenario (ad_now db) r \<and> p r) (ad_scenarios db)) of
     [] \<Rightarrow> None | r # _ \<Rightarrow> Some r), db))"

definition label_at :: "labels \<Rightarrow> string \<Rightarrow> string" where
  "label_at m k = (case map_of m k of None \<Rightarrow> [] | Some v \<Rightarrow> v)"

definition isExactDemoAlertLabels :: "labels \<Rightarrow> bool" where
  "isExactDemoAlertLabels m = (label_at m ''alertname'' = ''PGConnectionPoolSaturation'' \<and>
     label_at m ''instance'' = ''opskeeper-demo-node-metrics:8095'' \<and> label_at m ''job'' = ''opsk'' \<and> TrimSpace (label_at m ''pool_manifest_id'') \<noteq> [])"

definition correlate_update :: "string \<Rightarrow> instant \<Rightarrow> ScenarioRun \<Rightarrow> ScenarioRun" where
  "correlate_update fingerprint now r = r\<lparr>
     sr_Status := (if sr_Status r \<in> {ScenarioStatusStarting, ScenarioStatusAwaitingAlert} then ScenarioStatusAlertCorrelated else sr_Status r),
     sr_AlertFingerprint := (if fingerprint = [] then sr_AlertFingerprint r else fingerprint), sr_UpdatedAt := now\<rparr>"

text \<open>The transaction writes in its last statement only. The error of a missing incident is the driver's.\<close>

definition CorrelateDemoScenario :: "string \<Rightarrow> labels \<Rightarrow> Incident option alert_op" where
  "CorrelateDemoScenario fingerprint0 m = (let fingerprint = TrimSpace fingerprint0 in
     abind (if fingerprint = [] then areturn None else first_scenario (\<lambda>r. sr_AlertFingerprint r = fingerprint)) (\<lambda>byPrint.
     abind (if byPrint = None \<and> isExactDemoAlertLabels m then first_scenario (\<lambda>r. sr_PoolManifestID r = label_at m ''pool_manifest_id'')
       else areturn byPrint) (\<lambda>run. case run of
         None \<Rightarrow> areturn None
       | Some run \<Rightarrow>
         abind (astmt (\<lambda>db. (case find_incident db (sr_IncidentID run) of None \<Rightarrow> Err DbFailure | Some i \<Rightarrow> Ok i, db))) (\<lambda>incident.
         abind (astmt (\<lambda>db. (Ok (), db\<lparr>ad_scenarios := map (\<lambda>r. if sr_ID r = sr_ID run then correlate_update fingerprint (ad_now db) r else r)
           (ad_scenarios db)\<rparr>))) (\<lambda>_. areturn (Some incident))))))"

end
