(* ===== verification/Alert_Usecase.thy ===== *)
theory Alert_Usecase
  imports Alert_Store Go_Net
begin

text \<open>
  The lifecycle of incidents (\<^verbatim>\<open>internal/manager/biz/alert/usecase.go\<close>, \<^verbatim>\<open>webhook.go\<close>): firing, silencing,
  acknowledging and resolving. JSON, the parsers of durations and dates, and SHA-256 in hexadecimal are the
  record \<open>alert_lib\<close>; the investigator and the workflow dispatcher are told through the trace.
\<close>

section \<open>What the code calls\<close>

record alert_lib =
  al_Marshal :: "json \<Rightarrow> string option"
  al_labels :: "string \<Rightarrow> labels option"
  al_ids :: "string \<Rightarrow> nat list option"
  al_ParseDuration :: "string \<Rightarrow> int option"
  al_ParseRFC3339 :: "string \<Rightarrow> instant option"
  al_sha256_hex :: "string \<Rightarrow> string"

record AlertUsecase =
  uc_repo :: bool
  uc_investigator :: bool
  uc_workflowDispatcher :: bool

definition when_wired :: "AlertUsecase \<Rightarrow> 'a alert_op \<Rightarrow> 'a alert_op" where
  "when_wired u m = (if uc_repo u then m else araise AlertNotWired)"

lemma when_wired_Ok: "when_wired u m db = (Ok a, db') \<Longrightarrow> uc_repo u \<and> m db = (Ok a, db')"
  by (simp add: when_wired_def araise_def split: if_splits)

lemma keeps_wired [keep_intros]: "akeeps P m \<Longrightarrow> akeeps P (when_wired u m)"
  by (simp add: when_wired_def keeps_raise)

definition createEvent :: "AlertEvent \<Rightarrow> unit alert_op" where
  "createEvent e = CreateEvent e"

definition blank_event :: AlertEvent where
  "blank_event = \<lparr>ae_ID = 0, ae_IncidentID = 0, ae_EventType = [], ae_StatusAfter = [], ae_Severity = [], ae_Title = [],
     ae_Message = None, ae_ActorType = [], ae_ActorID = None, ae_SnapshotJSON = [], ae_Reason = [], ae_OccurredAt = 0,
     ae_CreatedAt = 0\<rparr>"

section \<open>Reading\<close>

definition uc_ListIncidents :: "AlertUsecase \<Rightarrow> IncidentFilter \<Rightarrow> Incident list alert_op" where
  "uc_ListIncidents u f = when_wired u (ListIncidents f)"

definition uc_CountIncidents :: "AlertUsecase \<Rightarrow> IncidentFilter \<Rightarrow> nat alert_op" where
  "uc_CountIncidents u f = when_wired u (CountIncidents f)"

definition GetIncident :: "AlertUsecase \<Rightarrow> nat \<Rightarrow> Incident alert_op" where
  "GetIncident u i = when_wired u
    (if i = 0 then araise (AlertInvalid ''incident id must be positive'') else GetIncidentByID i)"

definition uc_ListEvents :: "AlertUsecase \<Rightarrow> nat \<Rightarrow> int \<Rightarrow> AlertEvent list alert_op" where
  "uc_ListEvents u i limit = when_wired u
    (if i = 0 then araise (AlertInvalid ''incident id must be positive'') else ListEventsByIncident i limit)"

section \<open>Operators\<close>

definition transition :: "AlertUsecase \<Rightarrow> nat \<Rightarrow> string \<Rightarrow> string \<Rightarrow> nat \<Rightarrow> string \<Rightarrow> unit alert_op" where
  "transition u i eventType status operator note = when_wired u
    (abind (GetIncident u i) (\<lambda>incident. anow (\<lambda>now.
     abind (UpdateIncidentStatus i status (Some operator) now) (\<lambda>_.
     createEvent (blank_event\<lparr>ae_IncidentID := i, ae_EventType := eventType, ae_StatusAfter := status,
       ae_Severity := ai_Severity incident, ae_Title := ai_Title incident, ae_ActorType := ActorTypeUser,
       ae_ActorID := Some operator, ae_OccurredAt := now,
       ae_Message := (if TrimSpace note = [] then None else Some (TrimSpace note))\<rparr>)))))"

definition AckIncident :: "AlertUsecase \<Rightarrow> nat \<Rightarrow> nat \<Rightarrow> string \<Rightarrow> unit alert_op" where
  "AckIncident u i operator note = transition u i EventTypeAcknowledged IncidentStatusAcknowledged operator note"

definition ResolveIncident :: "AlertUsecase \<Rightarrow> nat \<Rightarrow> nat \<Rightarrow> string \<Rightarrow> unit alert_op" where
  "ResolveIncident u i operator note = transition u i EventTypeResolved IncidentStatusResolved operator note"

definition nanos :: int where "nanos = 1000000000"

text \<open>Seconds from Go's zero time to the Unix epoch.\<close>

definition unix_epoch :: int where "unix_epoch = 62135596800"

definition ParseInt64 :: "string \<Rightarrow> int option" where
  "ParseInt64 s =
    (let (neg, ds) = (case s of [] \<Rightarrow> (False, s) | c # cs \<Rightarrow> if c = CHR ''-'' then (True, cs) else if c = CHR ''+'' then (False, cs) else (False, s))
     in if ds = [] \<or> \<not> list_all is_digit ds then None
        else let n = int (dec_value ds) in
          if neg then (if n \<le> 2 ^ 63 then Some (- n) else None) else (if n < 2 ^ 63 then Some n else None))"

definition parseSilenceUntil :: "alert_lib \<Rightarrow> instant \<Rightarrow> string \<Rightarrow> instant option" where
  "parseSilenceUntil al now raw0 =
    (let raw = TrimSpace raw0 in
     if raw = [] then None
     else case al_ParseDuration al raw of Some d \<Rightarrow> Some (now + d)
     | None \<Rightarrow> (case al_ParseRFC3339 al raw of Some t \<Rightarrow> Some t
     | None \<Rightarrow> (case ParseInt64 raw of Some n \<Rightarrow> Some ((n + unix_epoch) * nanos)
     | None \<Rightarrow> None)))"

text \<open>The device goes into the text of the matchers; the columns for the device and the rule stay empty.\<close>

definition silence_row :: "Incident \<Rightarrow> string \<Rightarrow> nat \<Rightarrow> instant \<Rightarrow> instant \<Rightarrow> Silence" where
  "silence_row incident reason operator now endsAt =
    \<lparr>as_ID = 0, as_Name = ai_Title incident, as_ScopeType = ai_ScopeType incident, as_DeviceID = None, as_Rule = [],
     as_Status = SilenceStatusActive,
     as_MatchersJSON = (case ai_DeviceID incident of None \<Rightarrow> ''[]''
       | Some d \<Rightarrow> ''[{'' @ [DQUOTE] @ ''field'' @ [DQUOTE] @ '':'' @ [DQUOTE] @ ''device_id'' @ [DQUOTE] @ '','' @ [DQUOTE] @ ''operator'' @ [DQUOTE]
           @ '':'' @ [DQUOTE] @ ''='' @ [DQUOTE] @ '','' @ [DQUOTE] @ ''value'' @ [DQUOTE] @ '':'' @ [DQUOTE] @ dec d @ [DQUOTE] @ ''}]''),
     as_Reason = Some reason, as_CreatedBy = Some operator, as_CancelledBy = None, as_StartsAt = now, as_EndsAt = endsAt,
     as_CancelledAt = None\<rparr>"

definition SilenceIncident :: "alert_lib \<Rightarrow> AlertUsecase \<Rightarrow> nat \<Rightarrow> nat \<Rightarrow> string \<Rightarrow> string \<Rightarrow> unit alert_op" where
  "SilenceIncident al u i operator until reason0 = when_wired u
    (abind (GetIncident u i) (\<lambda>incident.
     let reason = TrimSpace reason0 in
     if reason = [] then araise (AlertInvalid ''silence reason required'')
     else anow (\<lambda>now. case parseSilenceUntil al now until of
       None \<Rightarrow> araise (AlertInvalid ''silence_until'')
     | Some endsAt \<Rightarrow>
       if endsAt \<le> now then araise (AlertInvalid ''silence_until must be in the future'')
       else abind (UpdateIncidentStatus i IncidentStatusSilenced (Some operator) now) (\<lambda>_.
            abind (CreateSilence (silence_row incident reason operator now endsAt)) (\<lambda>_.
            createEvent (blank_event\<lparr>ae_IncidentID := i, ae_EventType := EventTypeSilenced, ae_StatusAfter := IncidentStatusSilenced,
              ae_Severity := ai_Severity incident, ae_Title := ai_Title incident, ae_Message := Some reason,
              ae_ActorType := ActorTypeUser, ae_ActorID := Some operator, ae_OccurredAt := now\<rparr>))))))"

section \<open>Firing\<close>

record FiringInput =
  fi_ScopeType :: string
  fi_Scope :: string
  fi_Rule :: string
  fi_RuleName :: string
  fi_Severity :: string
  fi_DeviceID :: "nat option"
  fi_OccurredAt :: instant
  fi_DedupeKey :: string
  fi_SourceType :: string
  fi_Title :: string
  fi_Summary :: string
  fi_Description :: string
  fi_Value :: "gofloat option"
  fi_Threshold :: "gofloat option"
  fi_Labels :: labels
  fi_Annotations :: labels
  fi_RunbookURL :: string

record FiringResult =
  fr_Incident :: Incident
  fr_IsNew :: bool
  fr_IsReopen :: bool
  fr_Silenced :: bool
  fr_SilencedBy :: "nat option"

definition validateFiring :: "FiringInput \<Rightarrow> alert_error err" where
  "validateFiring fi =
    (if TrimSpace (fi_Rule fi) = [] then Some (AlertInvalid ''rule required'')
     else if TrimSpace (fi_ScopeType fi) = [] then Some (AlertInvalid ''scope_type required'')
     else if TrimSpace (fi_Severity fi) = [] then Some (AlertInvalid ''severity required'')
     else if fi_ScopeType fi = RuleScopeHost \<and> (fi_DeviceID fi = None \<or> fi_DeviceID fi = Some 0)
       then Some (AlertInvalid ''device_id required for host scope'')
     else None)"

definition buildDedupeKey :: "string \<Rightarrow> nat option \<Rightarrow> string \<Rightarrow> string" where
  "buildDedupeKey scope dev rule =
    (if scope = RuleScopeHost then ''host:'' @ dec (case dev of None \<Rightarrow> 0 | Some d \<Rightarrow> d) @ '':'' @ rule
     else if scope = RuleScopeMonitoringPipeline then ''pipeline:'' @ rule
     else scope @ '':'' @ rule)"

text \<open>The title starts with the word for a device, in UTF-8.\<close>

definition device_word :: string where
  "device_word = [CHR 0xE8, CHR 0xAE, CHR 0xBE, CHR 0xE5, CHR 0xA4, CHR 0x87]"

definition defaultTitle :: "FiringInput \<Rightarrow> string" where
  "defaultTitle fi = (case fi_DeviceID fi of Some d \<Rightarrow> device_word @ '' '' @ dec d @ '' '' @ fi_Rule fi | None \<Rightarrow> fi_Rule fi)"

definition labels_json :: "labels \<Rightarrow> json" where
  "labels_json m = JObj (map (\<lambda>(k, v). (k, JStr v)) m)"

definition encodeLabels :: "alert_lib \<Rightarrow> labels \<Rightarrow> string" where
  "encodeLabels al m = (if m = [] then ''{}'' else case al_Marshal al (labels_json m) of None \<Rightarrow> ''{}'' | Some s \<Rightarrow> s)"

definition encodeFiringSnapshot :: "alert_lib \<Rightarrow> FiringInput \<Rightarrow> string" where
  "encodeFiringSnapshot al fi =
    (let snap = [(''scope_type'', JStr (fi_ScopeType fi)), (''rule'', JStr (fi_Rule fi)), (''severity'', JStr (fi_Severity fi))]
       @ (case fi_DeviceID fi of None \<Rightarrow> [] | Some d \<Rightarrow> [(''device_id'', JInt (int d))])
       @ (case fi_Value fi of None \<Rightarrow> [] | Some v \<Rightarrow> [(''value'', JNum v)])
       @ (case fi_Threshold fi of None \<Rightarrow> [] | Some v \<Rightarrow> [(''threshold'', JNum v)])
       @ (if fi_Labels fi = [] then [] else [(''labels'', labels_json (fi_Labels fi))])
     in case al_Marshal al (JObj snap) of None \<Rightarrow> ''{}'' | Some s \<Rightarrow> s)"

definition firstNonEmpty :: "string \<Rightarrow> string \<Rightarrow> string" where
  "firstNonEmpty a b = (if a \<noteq> [] then a else b)"

definition new_incident :: "alert_lib \<Rightarrow> FiringInput \<Rightarrow> string \<Rightarrow> instant \<Rightarrow> Incident" where
  "new_incident al fi key t =
    \<lparr>ai_ID = 0, ai_DeviceID = fi_DeviceID fi, ai_Title = (if fi_Title fi = [] then defaultTitle fi else fi_Title fi),
     ai_Scope = fi_Scope fi, ai_ScopeType = fi_ScopeType fi, ai_Rule = fi_Rule fi,
     ai_RuleName = firstNonEmpty (fi_RuleName fi) (fi_Rule fi), ai_Severity = fi_Severity fi,
     ai_Status = IncidentStatusOpen, ai_Summary = fi_Summary fi, ai_Description = fi_Description fi, ai_DedupeKey = key,
     ai_Value = fi_Value fi, ai_Threshold = fi_Threshold fi, ai_LabelsJSON = encodeLabels al (fi_Labels fi),
     ai_AnnotationsJSON = encodeLabels al (fi_Annotations fi), ai_RunbookURL = fi_RunbookURL fi, ai_EventCount = 1,
     ai_FirstFiredAt = t, ai_LastFiredAt = t, ai_LastNotifiedAt = None, ai_SilencedUntil = None, ai_AcknowledgedAt = None,
     ai_AcknowledgedBy = None, ai_ResolvedAt = None, ai_ResolvedBy = None,
     ai_SourceType = (if fi_SourceType fi = [] then RuleSourceBuiltin else fi_SourceType fi), ai_CreatedAt = 0, ai_UpdatedAt = 0\<rparr>"

definition silenceMatches :: "Silence \<Rightarrow> Incident \<Rightarrow> bool" where
  "silenceMatches s inc = ((as_ScopeType s = [] \<or> as_ScopeType s = ai_ScopeType inc) \<and>
     (case as_DeviceID s of None \<Rightarrow> True | Some d \<Rightarrow> ai_DeviceID inc = Some d) \<and>
     (as_Rule s = [] \<or> as_Rule s = ai_Rule inc))"

definition matchSilence :: "Incident \<Rightarrow> instant \<Rightarrow> (bool \<times> nat option) alert_op" where
  "matchSilence incident t =
    (if ai_Status incident = IncidentStatusSilenced \<and> (case ai_SilencedUntil incident of None \<Rightarrow> False | Some until \<Rightarrow> until > t)
     then areturn (True, None)
     else atry (ListActiveSilences t) (\<lambda>r. case r of
         Err _ \<Rightarrow> areturn (False, None)
       | Ok silences \<Rightarrow> (case find (\<lambda>s. silenceMatches s incident) silences of
             None \<Rightarrow> areturn (False, None)
           | Some s \<Rightarrow> areturn (True, Some (as_ID s)))))"

text \<open>The two ways a firing meets an incident that is there already; the copy in memory keeps its counters.\<close>

definition refire :: "FiringInput \<Rightarrow> instant \<Rightarrow> Incident \<Rightarrow> (Incident \<times> bool) alert_op" where
  "refire fi t existing =
    (if ai_Status existing = IncidentStatusResolved
     then abind (ReopenIncident (ai_ID existing) t (fi_Summary fi) (fi_Value fi) (fi_Threshold fi)) (\<lambda>_.
       areturn (existing\<lparr>ai_Status := IncidentStatusOpen, ai_SilencedUntil := None, ai_ResolvedAt := None, ai_ResolvedBy := None,
         ai_Summary := fi_Summary fi, ai_Value := fi_Value fi, ai_Threshold := fi_Threshold fi\<rparr>, True))
     else abind (BumpIncidentFiring (ai_ID existing) t (fi_Summary fi) (fi_Value fi) (fi_Threshold fi)) (\<lambda>_.
       areturn (existing, False)))"

text \<open>The incident of a firing, whether it is new and whether it was reopened.\<close>

definition upsert_incident :: "alert_lib \<Rightarrow> FiringInput \<Rightarrow> string \<Rightarrow> instant \<Rightarrow> (Incident \<times> bool \<times> bool) alert_op" where
  "upsert_incident al fi key t =
    (let onto = (\<lambda>existing. abind (refire fi t existing) (\<lambda>(incident, reopened). areturn (incident, False, reopened)))
     in atry (GetIncidentByDedupeKey key) (\<lambda>r. case r of
         Ok existing \<Rightarrow> onto existing
       | Err e \<Rightarrow> if e \<noteq> AlertNotFound then araise e
           else atry (CreateIncident (new_incident al fi key t)) (\<lambda>r. case r of
               Ok created \<Rightarrow> areturn (created, True, False)
             | Err e \<Rightarrow> atry (GetIncidentByDedupeKey key) (\<lambda>r. case r of
                   Ok again \<Rightarrow> onto again
                 | Err _ \<Rightarrow> araise e))))"

definition effective_key :: "FiringInput \<Rightarrow> string" where
  "effective_key fi = (if fi_DedupeKey fi = [] then buildDedupeKey (fi_ScopeType fi) (fi_DeviceID fi) (fi_Rule fi) else fi_DedupeKey fi)"

definition tell_workflows :: "alert_lib \<Rightarrow> Incident \<Rightarrow> instant \<Rightarrow> unit alert_op" where
  "tell_workflows al incident t =
    aeffect (Dispatched (ai_ID incident) (ai_RuleName incident) (ai_Severity incident)
      (case ai_DeviceID incident of None \<Rightarrow> 0 | Some d \<Rightarrow> d)
      (if ai_LabelsJSON incident = [] then [] else case al_labels al (ai_LabelsJSON incident) of None \<Rightarrow> [] | Some m \<Rightarrow> m) t)"

definition firing_event :: "alert_lib \<Rightarrow> FiringInput \<Rightarrow> Incident \<Rightarrow> bool \<Rightarrow> instant \<Rightarrow> AlertEvent" where
  "firing_event al fi incident reopened t = blank_event\<lparr>ae_IncidentID := ai_ID incident,
     ae_EventType := (if reopened then EventTypeReopened else EventTypeFiring), ae_StatusAfter := ai_Status incident,
     ae_Severity := ai_Severity incident, ae_Title := ai_Title incident, ae_ActorType := ActorTypeSystem,
     ae_SnapshotJSON := encodeFiringSnapshot al fi, ae_OccurredAt := t\<rparr>"

text \<open>What follows the event: silences are looked up, the investigator and the workflows are told.\<close>

definition after_firing :: "alert_lib \<Rightarrow> AlertUsecase \<Rightarrow> instant \<Rightarrow> Incident \<times> bool \<times> bool \<Rightarrow> FiringResult alert_op" where
  "after_firing al u t x = (case x of (incident, isNew, isReopen) \<Rightarrow>
     abind (matchSilence incident t) (\<lambda>(silenced, by).
     abind (if isNew \<and> uc_investigator u then aeffect (Investigated (ai_ID incident)) else areturn ()) (\<lambda>_.
     abind (if (isNew \<or> isReopen) \<and> uc_workflowDispatcher u then tell_workflows al incident t else areturn ()) (\<lambda>_.
     areturn \<lparr>fr_Incident = incident, fr_IsNew = isNew, fr_IsReopen = isReopen, fr_Silenced = silenced, fr_SilencedBy = by\<rparr>))))"

definition RecordFiring :: "alert_lib \<Rightarrow> AlertUsecase \<Rightarrow> FiringInput \<Rightarrow> FiringResult alert_op" where
  "RecordFiring al u fi = when_wired u (case validateFiring fi of Some e \<Rightarrow> araise e | None \<Rightarrow> anow (\<lambda>now.
     let t = (if fi_OccurredAt fi = 0 then now else fi_OccurredAt fi) in
     abind (upsert_incident al fi (effective_key fi) t) (\<lambda>(incident, isNew, isReopen).
     atry (createEvent (firing_event al fi incident isReopen t)) (\<lambda>_.
     after_firing al u t (incident, isNew, isReopen)))))"

definition SystemResolveIncident :: "AlertUsecase \<Rightarrow> string \<Rightarrow> string \<Rightarrow> instant \<Rightarrow> bool alert_op" where
  "SystemResolveIncident u key reason occurredAt = when_wired u
    (if key = [] then araise (AlertInvalid ''dedupe_key required'')
     else anow (\<lambda>now. let t = (if occurredAt = 0 then now else occurredAt) in
       atry (GetIncidentByDedupeKey key) (\<lambda>r. case r of
         Err e \<Rightarrow> if e = AlertNotFound then areturn False else araise e
       | Ok incident \<Rightarrow>
         if ai_Status incident = IncidentStatusResolved then areturn False
         else abind (UpdateIncidentStatus (ai_ID incident) IncidentStatusResolved None t) (\<lambda>_.
              atry (createEvent (blank_event\<lparr>ae_IncidentID := ai_ID incident, ae_EventType := EventTypeResolved,
                ae_StatusAfter := IncidentStatusResolved, ae_Severity := ai_Severity incident, ae_Title := ai_Title incident,
                ae_ActorType := ActorTypeSystem, ae_Reason := reason, ae_OccurredAt := t\<rparr>)) (\<lambda>_.
              areturn True)))))"

section \<open>Missed schedules\<close>

record SchedulerMissedRun =
  sm_FlowID :: string
  sm_NodeID :: string
  sm_CronSpec :: string
  sm_ExpectedFireAt :: instant

text \<open>The description of the run is the argument \<open>desc\<close>: it formats a date.\<close>

definition RecordSchedulerMissedRun :: "alert_lib \<Rightarrow> AlertUsecase \<Rightarrow> string \<Rightarrow> string \<Rightarrow> SchedulerMissedRun \<Rightarrow> unit alert_op" where
  "RecordSchedulerMissedRun al u desc source0 missed = when_wired u
    (let source = (if source0 = [] then ''scheduler-missed-run'' else source0) in
     abind (RecordFiring al u \<lparr>fi_ScopeType = ''global'', fi_Scope = ''scheduler'', fi_Rule = source,
       fi_RuleName = ''Scheduler missed run'', fi_Severity = ''warning'', fi_DeviceID = None,
       fi_OccurredAt = sm_ExpectedFireAt missed, fi_DedupeKey = source @ '':'' @ sm_FlowID missed @ '':'' @ sm_NodeID missed,
       fi_SourceType = RuleSourceBuiltin, fi_Title = ''Workflow schedule missed'',
       fi_Summary = ''flow='' @ sm_FlowID missed @ '' node='' @ sm_NodeID missed @ '' missed cron execution'',
       fi_Description = desc, fi_Value = None, fi_Threshold = None,
       fi_Labels = [(''flow_id'', sm_FlowID missed), (''node_id'', sm_NodeID missed), (''source'', source)],
       fi_Annotations = [(''cron'', sm_CronSpec missed)], fi_RunbookURL = ''docs/operations-manual.md#scheduler-reliability''\<rparr>)
     (\<lambda>_. areturn ()))"

section \<open>Alertmanager\<close>

record AlertmanagerAlert =
  aa_Status :: string
  aa_Labels :: labels
  aa_Annotations :: labels
  aa_StartsAt :: instant
  aa_Fingerprint :: string

definition normalizeWebhookSeverity :: "string \<Rightarrow> string" where
  "normalizeWebhookSeverity s = (let l = ToLower (TrimSpace s) in
     if l \<in> {''critical'', ''error''} then ''critical'' else if l \<in> {''info'', ''informational''} then ''info''
     else if l = ''debug'' then ''debug'' else ''warning'')"

fun str_less :: "string \<Rightarrow> string \<Rightarrow> bool" where
  "str_less _ [] = False"
| "str_less [] (_ # _) = True"
| "str_less (a # as) (b # bs) = ((of_char a :: nat) < of_char b \<or> (a = b \<and> str_less as bs))"

definition alertmanagerDedupeKey :: "alert_lib \<Rightarrow> string \<Rightarrow> string \<Rightarrow> labels \<Rightarrow> string" where
  "alertmanagerDedupeKey al name fingerprint m =
    (if TrimSpace fingerprint \<noteq> [] then ''alertmanager:'' @ TrimSpace fingerprint
     else ''alertmanager:'' @ name @ '':'' @ take 32 (al_sha256_hex al
       (name @ concat (map (\<lambda>k. [CHR 0x00] @ k @ [CHR 0x00] @ label_at m k) (order_rows str_less (map fst m))))))"

definition webhook_check :: "AlertmanagerAlert \<Rightarrow> alert_error err" where
  "webhook_check a =
    (if \<not> EqualFold (TrimSpace (aa_Status a)) ''firing'' then None
     else let name = TrimSpace (label_at (aa_Labels a) ''alertname'') in
       if name = [] then Some (AlertInvalid ''alertname required'')
       else if length name > 128 then Some (AlertInvalid ''alertname exceeds 128 characters'') else None)"

definition webhook_summary :: "AlertmanagerAlert \<Rightarrow> string \<Rightarrow> string" where
  "webhook_summary a name =
    (let s = TrimSpace (label_at (aa_Annotations a) ''summary''); d = TrimSpace (label_at (aa_Annotations a) ''description'')
     in if s \<noteq> [] then s else if d \<noteq> [] then d else ''Alertmanager alert '' @ name @ '' is firing'')"

definition recordWebhookReceipt :: "alert_lib \<Rightarrow> Incident \<Rightarrow> AlertmanagerAlert \<Rightarrow> unit alert_op" where
  "recordWebhookReceipt al incident a =
    createEvent (blank_event\<lparr>ae_IncidentID := ai_ID incident, ae_EventType := EventTypeAlertReceived,
      ae_StatusAfter := ai_Status incident, ae_Severity := ai_Severity incident, ae_Title := ai_Title incident,
      ae_ActorType := ActorTypeSystem,
      ae_SnapshotJSON := (case al_Marshal al (JObj [(''source'', JStr ''alertmanager''), (''status'', JStr (aa_Status a)),
        (''fingerprint'', JStr (aa_Fingerprint a)), (''labels'', labels_json (aa_Labels a))]) of None \<Rightarrow> ''{}'' | Some s \<Rightarrow> s),
      ae_Reason := ''Alertmanager webhook received'', ae_OccurredAt := ai_LastFiredAt incident\<rparr>)"

definition uc_CorrelateDemoScenario :: "AlertUsecase \<Rightarrow> string \<Rightarrow> labels \<Rightarrow> Incident option alert_op" where
  "uc_CorrelateDemoScenario u fingerprint m = when_wired u (CorrelateDemoScenario fingerprint m)"

text \<open>An alert of a running demonstration fires the incident of the demonstration.\<close>

definition ingest_alert :: "alert_lib \<Rightarrow> AlertUsecase \<Rightarrow> AlertmanagerAlert \<Rightarrow> bool alert_op" where
  "ingest_alert al u a =
    (if \<not> EqualFold (TrimSpace (aa_Status a)) ''firing'' then areturn False
     else case webhook_check a of Some e \<Rightarrow> araise e | None \<Rightarrow>
       let name = TrimSpace (label_at (aa_Labels a) ''alertname'') in
       abind (uc_CorrelateDemoScenario u (aa_Fingerprint a) (aa_Labels a)) (\<lambda>demo.
       abind (case demo of None \<Rightarrow> areturn (alertmanagerDedupeKey al name (aa_Fingerprint a) (aa_Labels a))
         | Some incident \<Rightarrow> if TrimSpace (ai_DedupeKey incident) = [] then araise (AlertConflict ''demo scenario incident has no dedupe key'')
             else areturn (ai_DedupeKey incident)) (\<lambda>key.
       abind (RecordFiring al u \<lparr>fi_ScopeType = RuleScopeMonitoringPipeline, fi_Scope = ''alertmanager'', fi_Rule = name,
         fi_RuleName = name, fi_Severity = normalizeWebhookSeverity (label_at (aa_Labels a) ''severity''), fi_DeviceID = None,
         fi_OccurredAt = aa_StartsAt a, fi_DedupeKey = key, fi_SourceType = RuleSourcePrometheus, fi_Title = name,
         fi_Summary = webhook_summary a name, fi_Description = TrimSpace (label_at (aa_Annotations a) ''description''),
         fi_Value = None, fi_Threshold = None, fi_Labels = aa_Labels a, fi_Annotations = aa_Annotations a,
         fi_RunbookURL = TrimSpace (label_at (aa_Annotations a) ''runbook_url'')\<rparr>) (\<lambda>firing.
       abind (recordWebhookReceipt al (fr_Incident firing) a) (\<lambda>_.
       abind (if demo \<noteq> None \<and> uc_investigator u then aeffect (Investigated (ai_ID (fr_Incident firing))) else areturn ()) (\<lambda>_.
       areturn True))))))"

text \<open>The numbers of alerts accepted and ignored.\<close>

fun ingest_all :: "alert_lib \<Rightarrow> AlertUsecase \<Rightarrow> AlertmanagerAlert list \<Rightarrow> nat \<times> nat \<Rightarrow> (nat \<times> nat) alert_op" where
  "ingest_all al u [] n = areturn n"
| "ingest_all al u (a # as) n = abind (ingest_alert al u a) (\<lambda>accepted.
     ingest_all al u as (if accepted then (fst n + 1, snd n) else (fst n, snd n + 1)))"

definition IngestAlertmanager :: "alert_lib \<Rightarrow> AlertUsecase \<Rightarrow> AlertmanagerAlert list option \<Rightarrow> (nat \<times> nat) alert_op" where
  "IngestAlertmanager al u alerts = when_wired u (case alerts of
     None \<Rightarrow> araise (AlertInvalid ''alerts required'')
   | Some as \<Rightarrow> (case find (\<lambda>e. e \<noteq> None) (map webhook_check as) of
         Some (Some e) \<Rightarrow> araise e
       | _ \<Rightarrow> ingest_all al u as (0, 0)))"

end
