(* ===== verification/Alert_Rules.thy ===== *)
theory Alert_Rules
  imports Alert_Usecase "HOL-Library.List_Lexorder" "HOL-Library.Char_ord"
begin

text \<open>
  Alert rules: what an operator may save (\<^verbatim>\<open>CreateRule\<close>, \<^verbatim>\<open>UpdateRule\<close>, \<^verbatim>\<open>buildRuleRow\<close> and
  \<^verbatim>\<open>buildConditionsJSON\<close> of \<^verbatim>\<open>usecase.go\<close>, \<^verbatim>\<open>burn_rate_sli.go\<close>) and what the evaluator makes of a saved row
  (\<^verbatim>\<open>rules.go\<close>, the expressions of \<^verbatim>\<open>evaluators_phaseA.go\<close>). The arithmetic, formatting and scanning of
  numbers are the record \<open>rule_lib\<close> beside the decoder of JSON; decoding into a Go struct is written out: fields are found by their names
  without regard to case, an absent or null field is zero, a value of another type is an error. A finite \<^verbatim>\<open>float64\<close> is the
  rational it stands for.
\<close>

section \<open>What the code calls\<close>

record rule_lib = alert_lib +
  rl_Unmarshal :: "string \<Rightarrow> json option"
  rl_Sscanf :: "string \<Rightarrow> gofloat option"
  rl_fmt_g :: "gofloat \<Rightarrow> string"
  rl_fmt_q :: "string \<Rightarrow> string"
  rl_int :: "gofloat \<Rightarrow> int"
  rl_float :: "int \<Rightarrow> gofloat"
  rl_mul :: "gofloat \<Rightarrow> gofloat \<Rightarrow> gofloat"

text \<open>
  What a document holds that \<^verbatim>\<open>json.Marshal\<close> wrote: the fields of a map sorted by name, text with each malformed byte
  replaced, and literals that stand for the numbers written.
\<close>

fun as_decoded :: "json \<Rightarrow> json" where
  "as_decoded (JStr s) = JStr (to_valid_utf8 s)"
| "as_decoded (JArr xs) = JArr (map as_decoded xs)"
| "as_decoded (JObj kvs) = JObj (map (\<lambda>(k, v). (to_valid_utf8 k, v)) (sort_key fst (map (\<lambda>(k, v). (k, as_decoded v)) kvs)))"
| "as_decoded v = v"

definition rule_json_ok :: "('x rule_lib_scheme) \<Rightarrow> bool" where
  "rule_json_ok rl = (\<forall>v s. al_Marshal rl v = Some s \<longrightarrow> rl_Unmarshal rl s = Some (as_decoded v))"

fun json_utf8 :: "json \<Rightarrow> bool" where
  "json_utf8 (JStr s) = utf8_valid s"
| "json_utf8 (JArr xs) = list_all json_utf8 xs"
| "json_utf8 (JObj kvs) = list_all (\<lambda>(k, v). utf8_valid k \<and> json_utf8 v) kvs"
| "json_utf8 _ = True"

definition rule_int_ok :: "('x rule_lib_scheme) \<Rightarrow> bool" where
  "rule_int_ok rl = ((\<forall>x. - (2 ^ 63) \<le> rl_int rl x \<and> rl_int rl x < 2 ^ 63) \<and>
     (\<forall>q. 0 \<le> q \<and> q < 2 ^ 63 \<longrightarrow> rl_int rl (Fin q) = \<lfloor>q\<rfloor>))"

section \<open>Decoding structs\<close>

definition field :: "(string \<times> json) list \<Rightarrow> string \<Rightarrow> json" where
  "field kvs k = (case filter (\<lambda>(k', _). EqualFold k' k) kvs of [] \<Rightarrow> JNull | es \<Rightarrow> snd (last es))"

fun as_string :: "json \<Rightarrow> string option" where
  "as_string JNull = Some []"
| "as_string (JStr s) = Some s"
| "as_string _ = None"

fun as_float :: "('x rule_lib_scheme) \<Rightarrow> json \<Rightarrow> gofloat option" where
  "as_float rl JNull = Some (Fin 0)"
| "as_float rl (JNum x) = Some x"
| "as_float rl (JInt n) = Some (rl_float rl n)"
| "as_float rl _ = None"

fun as_int :: "json \<Rightarrow> int option" where
  "as_int JNull = Some 0"
| "as_int (JInt n) = (if - (2 ^ 63) \<le> n \<and> n < 2 ^ 63 then Some n else None)"
| "as_int (JNum (Fin q)) = (if of_int \<lfloor>q\<rfloor> = q \<and> - (2 ^ 63) \<le> q \<and> q < 2 ^ 63 then Some \<lfloor>q\<rfloor> else None)"
| "as_int _ = None"

definition as_object :: "json \<Rightarrow> (string \<times> json) list option" where
  "as_object v = (case v of JObj kvs \<Rightarrow> Some kvs | JNull \<Rightarrow> Some [] | _ \<Rightarrow> None)"

text \<open>The value of a dynamic number: a float, an integer or text that scans as one; anything else is zero.\<close>

definition numericFromSpec :: "('x rule_lib_scheme) \<Rightarrow> anymap \<Rightarrow> string \<Rightarrow> gofloat" where
  "numericFromSpec rl spec k = (case any_at spec k of
     JNum x \<Rightarrow> x | JInt n \<Rightarrow> rl_float rl n
   | JStr s \<Rightarrow> (case rl_Sscanf rl s of Some x \<Rightarrow> x | None \<Rightarrow> Fin 0) | _ \<Rightarrow> Fin 0)"

abbreviation flt_pos :: "gofloat \<Rightarrow> bool" where "flt_pos x \<equiv> flt_less (Fin 0) x"

text \<open>\<^verbatim>\<open>x <= 0\<close>, which not-a-number does not satisfy.\<close>

definition flt_le0 :: "gofloat \<Rightarrow> bool" where
  "flt_le0 x = (flt_less x (Fin 0) \<or> flt_eq x (Fin 0))"

section \<open>Saving\<close>

record RuleCondition =
  cd_Metric :: string
  cd_Operator :: string
  cd_Threshold :: gofloat

record RuleInput =
  ri_RuleKey :: string
  ri_Kind :: string
  ri_Name :: string
  ri_ScopeType :: string
  ri_JoinMode :: string
  ri_Severity :: string
  ri_Enabled :: bool
  ri_Conditions :: "RuleCondition list"
  ri_Spec :: anymap
  ri_Labels :: labels
  ri_RunbookURL :: string
  ri_NotifyChannelIDs :: "nat list"
  ri_NotifyWindowSeconds :: int
  ri_NotifyMinFires :: int

definition validHostOperator :: "string \<Rightarrow> bool" where
  "validHostOperator op = (op \<in> {''>'', ''>='', ''<'', ''<='', ''=='', ''!=''})"

definition rootfs :: string where
  "rootfs = ''{mountpoint='' @ [DQUOTE] @ ''/'' @ [DQUOTE] @ ''}''"

definition metric_exprs :: "(string \<times> string) list" where
  "metric_exprs =
    [(''cpu_pct'', ''100 * (1 - avg by (device_id) (rate(node_cpu_seconds_total{mode='' @ [DQUOTE] @ ''idle'' @ [DQUOTE] @ ''}[5m])))''),
     (''mem_pct'', ''100 * (1 - node_memory_MemAvailable_bytes / node_memory_MemTotal_bytes)''),
     (''disk_used_pct'', ''100 * (1 - node_filesystem_avail_bytes'' @ rootfs @ '' / node_filesystem_size_bytes'' @ rootfs @ '')''),
     (''disk_avail_bytes'', ''node_filesystem_avail_bytes'' @ rootfs),
     (''load1'', ''node_load1''), (''load5'', ''node_load5''), (''load15'', ''node_load15''),
     (''net_rx_bps'', ''sum by (device_id) (rate(node_network_receive_bytes_total[1m]))''),
     (''net_tx_bps'', ''sum by (device_id) (rate(node_network_transmit_bytes_total[1m]))'')]"

definition metricExprFor :: "string \<Rightarrow> string option" where
  "metricExprFor m = map_of metric_exprs m"

definition allowedScopesForKind :: "string \<Rightarrow> string list" where
  "allowedScopesForKind k =
    (if k = RuleKindMetricThreshold then [RuleScopeHost]
     else if k \<in> {RuleKindMetricBurnRate, RuleKindTraceLatency, RuleKindTraceErrorRate} then [RuleScopeGlobal]
     else if k = RuleKindMetricRaw then [RuleScopeGlobal, RuleScopeHost]
     else if k \<in> {RuleKindMetricAnomaly, RuleKindMetricForecast, RuleKindLogMatch, RuleKindLogVolume} then [RuleScopeHost, RuleScopeGlobal]
     else [RuleScopeGlobal, RuleScopeHost, RuleScopeMonitoringPipeline])"

definition defaultScopeForKind :: "string \<Rightarrow> string" where
  "defaultScopeForKind k = (case allowedScopesForKind k of [] \<Rightarrow> RuleScopeGlobal | s # _ \<Rightarrow> s)"

definition scopeAllowedForKind :: "string \<Rightarrow> string \<Rightarrow> bool" where
  "scopeAllowedForKind scope k = (scope \<in> set (allowedScopesForKind k))"

definition validRuleKey :: "string \<Rightarrow> bool" where
  "validRuleKey s = (s \<noteq> [] \<and> list_all (\<lambda>c. (97 \<le> (of_char c :: nat) \<and> (of_char c :: nat) \<le> 122) \<or> is_digit c \<or> c = CHR ''_'') s)"

definition condition_expr :: "('x rule_lib_scheme) \<Rightarrow> RuleCondition \<Rightarrow> string \<Rightarrow> string" where
  "condition_expr rl c base = ''('' @ base @ '') '' @ cd_Operator c @ '' '' @ rl_fmt_g rl (cd_Threshold c)"

definition compileMetricThresholdExpr :: "('x rule_lib_scheme) \<Rightarrow> RuleCondition list \<Rightarrow> string \<Rightarrow> (alert_error, string) result" where
  "compileMetricThresholdExpr rl conds joinMode =
    (if conds = [] then Err (AlertInvalid ''at least one condition required'')
     else if (\<exists>c\<in>set conds. metricExprFor (cd_Metric c) = None) then Err (AlertInvalid ''condition metric not in host closed-set'')
     else let parts = map (\<lambda>c. condition_expr rl c (the (metricExprFor (cd_Metric c)))) conds in
       case parts of [p] \<Rightarrow> Ok p
       | _ \<Rightarrow> Ok (join_with (if joinMode = RuleJoinModeAny then '' or '' else '' and on(device_id) '') parts))"

fun condition_error :: "RuleCondition list \<Rightarrow> alert_error err" where
  "condition_error [] = None"
| "condition_error (c # cs) =
    (if cd_Metric c = [] \<or> cd_Operator c = [] then Some (AlertInvalid ''condition missing metric or operator'')
     else if \<not> validHostOperator (cd_Operator c) then Some (AlertInvalid ''condition operator unsupported'')
     else if metricExprFor (cd_Metric c) = None then Some (AlertInvalid ''condition metric not in host closed-set'')
     else condition_error cs)"

text \<open>
  \<^verbatim>\<open>normalizeBurnRateSLIExpression\<close> rewrites each simple range selector, digits and one unit in brackets, into
  \<^verbatim>\<open>[$window]\<close>.
\<close>

definition window_var :: string where "window_var = ''$window''"

definition range_unit :: "string \<Rightarrow> string option" where
  "range_unit s = (let rest = dropWhile is_digit s in
     if takeWhile is_digit s = [] then None
     else if HasPrefix rest ''ms]'' then Some (drop 3 rest)
     else case rest of u # b # tail \<Rightarrow> (if u \<in> set ''smhdwy'' \<and> b = CHR '']'' then Some tail else None) | _ \<Rightarrow> None)"

lemma range_unit_shorter: "range_unit s = Some t \<Longrightarrow> length t < length s"
proof -
  assume r: "range_unit s = Some t"
  have d: "length (dropWhile is_digit s) \<le> length s" by (rule length_dropWhile_le)
  from r d show ?thesis
    by (auto simp: range_unit_def Let_def prefix_def split: if_splits list.splits)
qed

function replace_ranges :: "string \<Rightarrow> string" where
  "replace_ranges [] = []"
| "replace_ranges (c # s) = (if c = CHR ''['' then (case range_unit s of
       Some t \<Rightarrow> ''['' @ window_var @ '']'' @ replace_ranges t
     | None \<Rightarrow> c # replace_ranges s) else c # replace_ranges s)"
  by pat_completeness auto
termination by (relation "measure length") (auto dest: range_unit_shorter)

definition normalizeBurnRateSLIExpression :: "string \<Rightarrow> string" where
  "normalizeBurnRateSLIExpression sli0 = (let sli = TrimSpace sli0 in if Contains sli window_var then sli else replace_ranges sli)"

definition burnRateSLIUsesWindow :: "string \<Rightarrow> bool" where
  "burnRateSLIUsesWindow sli = Contains sli window_var"

text \<open>A number in \<open>(0, 1]\<close> is taken for a fraction; the product is that of \<^verbatim>\<open>float64\<close>.\<close>

definition slo_fraction :: "gofloat \<Rightarrow> bool" where
  "slo_fraction x = (flt_pos x \<and> (flt_less x (Fin 1) \<or> flt_eq x (Fin 1)))"

definition normalizeBurnRateSLOPercent :: "('x rule_lib_scheme) \<Rightarrow> gofloat \<Rightarrow> gofloat" where
  "normalizeBurnRateSLOPercent rl slo = (if slo_fraction slo then rl_mul rl slo (Fin 100) else slo)"

text \<open>Entries without a window or a positive multiplier are dropped.\<close>

definition burnsFromSpec :: "('x rule_lib_scheme) \<Rightarrow> anymap \<Rightarrow> string \<Rightarrow> (string \<times> gofloat) list" where
  "burnsFromSpec rl spec k = (case any_at spec k of
     JArr items \<Rightarrow> concat (map (\<lambda>item. case item of
         JObj kvs \<Rightarrow> (let win = str_at (Some kvs) ''window''; mult = numericFromSpec rl (Some kvs) ''multiplier''
           in if win = [] \<or> flt_le0 mult then [] else [(win, mult)])
       | _ \<Rightarrow> []) items)
   | _ \<Rightarrow> [])"

definition marshal_spec :: "('x rule_lib_scheme) \<Rightarrow> json \<Rightarrow> (alert_error, string) result" where
  "marshal_spec rl v = (case al_Marshal rl v of None \<Rightarrow> Err (AlertInvalid ''marshal spec'') | Some s \<Rightarrow> Ok s)"

definition anomaly_spec :: "('x rule_lib_scheme) \<Rightarrow> anymap \<Rightarrow> json" where
  "anomaly_spec rl spec =
    JObj [(''metric'', JStr (str_at spec ''metric'')), (''selector'', JStr (str_at spec ''selector'')),
      (''method'', JStr (firstNonEmpty (str_at spec ''method'') ''zscore'')),
      (''baseline_window'', JStr (firstNonEmpty (str_at spec ''baseline_window'') ''1h'')),
      (''baseline_step'', JStr (firstNonEmpty (str_at spec ''baseline_step'') ''5m'')),
      (''deviation'', JNum (let d = numericFromSpec rl spec ''deviation'' in if flt_le0 d then Fin 3 else d)),
      (''for_seconds'', JInt (rl_int rl (numericFromSpec rl spec ''for_seconds'')))]"

definition forecast_spec :: "('x rule_lib_scheme) \<Rightarrow> anymap \<Rightarrow> json" where
  "forecast_spec rl spec =
    JObj [(''metric'', JStr (str_at spec ''metric'')), (''selector'', JStr (str_at spec ''selector'')),
      (''fit_window'', JStr (firstNonEmpty (str_at spec ''fit_window'') ''1h'')),
      (''predict_seconds'', JInt (rl_int rl (numericFromSpec rl spec ''predict_seconds''))),
      (''operator'', JStr (str_at spec ''operator'')), (''threshold'', JNum (numericFromSpec rl spec ''threshold'')),
      (''for_seconds'', JInt (rl_int rl (numericFromSpec rl spec ''for_seconds'')))]"

definition burn_spec :: "string \<Rightarrow> gofloat \<Rightarrow> (string \<times> gofloat) list \<Rightarrow> json" where
  "burn_spec sli slo burns = JObj [(''sli'', JStr sli), (''slo'', JNum slo),
     (''burns'', JArr (map (\<lambda>(w, m). JObj [(''window'', JStr w), (''multiplier'', JNum m)]) burns))]"

definition slo_in_range :: "gofloat \<Rightarrow> bool" where
  "slo_in_range slo = (\<not> flt_le0 slo \<and> \<not> (flt_less (Fin 100) slo \<or> flt_eq slo (Fin 100)))"

text \<open>The value that is saved for a kind, then its text.\<close>

definition conditions_value :: "('x rule_lib_scheme) \<Rightarrow> string \<Rightarrow> RuleInput \<Rightarrow> (alert_error, json) result" where
  "conditions_value rl kind ri =
    (let spec = ri_Spec ri; str = str_at spec in
     if kind = RuleKindMetricThreshold then
       (if ri_Conditions ri = [] then Err (AlertInvalid ''at least one condition required'')
        else case condition_error (ri_Conditions ri) of Some e \<Rightarrow> Err e
        | None \<Rightarrow> (case compileMetricThresholdExpr rl (ri_Conditions ri) (ri_JoinMode ri) of Err e \<Rightarrow> Err e
          | Ok expr \<Rightarrow> Ok (JObj [(''expr'', JStr expr)])))
     else if kind = RuleKindMetricRaw then
       (if TrimSpace (str ''expr'') = [] then Err (AlertInvalid ''metric_raw.expr required'')
        else Ok (JObj [(''expr'', JStr (str ''expr''))]))
     else if kind = RuleKindMetricAnomaly then
       (if TrimSpace (str ''metric'') = [] then Err (AlertInvalid ''metric_anomaly.metric required'')
        else if firstNonEmpty (str ''method'') ''zscore'' \<notin> {''zscore'', ''mad''} then Err (AlertInvalid ''metric_anomaly.method must be zscore or mad'')
        else Ok (anomaly_spec rl spec))
     else if kind = RuleKindMetricForecast then
       (if TrimSpace (str ''metric'') = [] then Err (AlertInvalid ''metric_forecast.metric required'')
        else if flt_le0 (numericFromSpec rl spec ''predict_seconds'') then Err (AlertInvalid ''metric_forecast.predict_seconds must be > 0'')
        else if \<not> validHostOperator (str ''operator'') then Err (AlertInvalid ''metric_forecast.operator unsupported'')
        else Ok (forecast_spec rl spec))
     else if kind = RuleKindMetricBurnRate then
       (let sli = normalizeBurnRateSLIExpression (str ''sli''); slo = normalizeBurnRateSLOPercent rl (numericFromSpec rl spec ''slo'');
            burns = burnsFromSpec rl spec ''burns'' in
        if TrimSpace sli = [] then Err (AlertInvalid ''metric_burn_rate.sli required'')
        else if \<not> burnRateSLIUsesWindow sli then Err (AlertInvalid ''metric_burn_rate.sli must use $window or a PromQL range selector'')
        else if \<not> slo_in_range slo then Err (AlertInvalid ''metric_burn_rate.slo must be in (0, 100)'')
        else if burns = [] then Err (AlertInvalid ''metric_burn_rate.burns must have at least one window'')
        else Ok (burn_spec sli slo burns))
     else if kind \<in> {RuleKindLogMatch, RuleKindLogVolume, RuleKindTraceLatency, RuleKindTraceErrorRate} then Ok (any_json spec)
     else Err (AlertInvalid ''kind has no condition builder''))"

definition buildConditionsJSON :: "('x rule_lib_scheme) \<Rightarrow> string \<Rightarrow> RuleInput \<Rightarrow> (alert_error, string) result" where
  "buildConditionsJSON rl kind ri = (case conditions_value rl kind ri of Err e \<Rightarrow> Err e | Ok v \<Rightarrow> marshal_spec rl v)"

definition policy_error :: "RuleInput \<Rightarrow> alert_error err" where
  "policy_error ri = (let w = ri_NotifyWindowSeconds ri; m = ri_NotifyMinFires ri in
     if w < 0 \<or> m < 0 then Some (AlertInvalid ''send policy fields must be non-negative'')
     else if (w > 0) \<noteq> (m > 0) then Some (AlertInvalid ''send policy requires both window and threshold (or both zero)'')
     else if w > 0 \<and> (w < 60 \<or> w > 1440 * 60) then Some (AlertInvalid ''send policy window must be between 1 and 1440 minutes'')
     else if w > 0 \<and> (m < 1 \<or> m > 100) then Some (AlertInvalid ''send policy threshold must be between 1 and 100'')
     else None)"

definition channel_ids_json :: "('x rule_lib_scheme) \<Rightarrow> nat list \<Rightarrow> (alert_error, string option) result" where
  "channel_ids_json rl ids = (let uniq = rev (remdups (rev (filter (\<lambda>i. i \<noteq> 0) ids))) in
     if uniq = [] then Ok None
     else case al_Marshal rl (JArr (map (\<lambda>i. JInt (int i)) uniq)) of
       None \<Rightarrow> Err (AlertInvalid ''encode notify_channel_ids'') | Some s \<Rightarrow> Ok (Some s))"

definition rule_row :: "('x rule_lib_scheme) \<Rightarrow> RuleInput \<Rightarrow> string \<Rightarrow> string \<Rightarrow> string \<Rightarrow> string \<Rightarrow> string \<Rightarrow> string option \<Rightarrow> AlertRule" where
  "rule_row rl ri key kind scope join cond pinned =
    \<lparr>ar_ID = 0, ar_RuleKey = key,
         ar_Kind = (if kind = RuleKindMetricThreshold then RuleKindMetricRaw else kind), ar_Name = TrimSpace (ri_Name ri),
         ar_SourceType = [], ar_ScopeType = scope, ar_JoinMode = join, ar_Severity = ri_Severity ri, ar_Enabled = ri_Enabled ri,
         ar_ConditionsJSON = cond,
         ar_LabelsJSON = (if ri_Labels ri = [] then None else Some (case al_Marshal rl (labels_json (ri_Labels ri)) of None \<Rightarrow> [] | Some s \<Rightarrow> s)),
         ar_AnnotationsJSON = None, ar_RunbookURL = (if ri_RunbookURL ri = [] then None else Some (ri_RunbookURL ri)),
         ar_NotifyChannelIDsJSON = pinned, ar_NotifyWindowSeconds = ri_NotifyWindowSeconds ri,
         ar_NotifyMinFires = ri_NotifyMinFires ri, ar_CreatedBy = None\<rparr>"

definition buildRuleRow :: "('x rule_lib_scheme) \<Rightarrow> RuleInput \<Rightarrow> bool \<Rightarrow> (alert_error, AlertRule) result" where
  "buildRuleRow rl ri requireKey =
    (let key = TrimSpace (ri_RuleKey ri); kind = NormalizeKind (ri_Kind ri);
         scope = (if ri_ScopeType ri = [] then defaultScopeForKind kind else ri_ScopeType ri);
         join = (if ri_JoinMode ri = [] then RuleJoinModeAll else ri_JoinMode ri) in
     if requireKey \<and> key = [] then Err (AlertInvalid ''rule_key required'')
     else if requireKey \<and> \<not> validRuleKey key then Err (AlertInvalid ''rule_key must be lower_snake [a-z0-9_]'')
     else if \<not> IsKnownKind kind then Err (AlertInvalid ''kind unsupported'')
     else if \<not> scopeAllowedForKind scope kind then Err (AlertInvalid ''scope_type not allowed for kind'')
     else if join \<noteq> RuleJoinModeAll \<and> join \<noteq> RuleJoinModeAny then Err (AlertInvalid ''join_mode unsupported'')
     else if ri_Severity ri = [] then Err (AlertInvalid ''severity required'')
     else case buildConditionsJSON rl kind ri of Err e \<Rightarrow> Err e
     | Ok cond \<Rightarrow> (case policy_error ri of Some e \<Rightarrow> Err e
     | None \<Rightarrow> (case channel_ids_json rl (ri_NotifyChannelIDs ri) of Err e \<Rightarrow> Err e
     | Ok pinned \<Rightarrow> Ok (rule_row rl ri key kind scope join cond pinned))))"

definition CreateRule :: "('x rule_lib_scheme) \<Rightarrow> AlertUsecase \<Rightarrow> RuleInput \<Rightarrow> nat option \<Rightarrow> AlertRule alert_op" where
  "CreateRule rl u ri createdBy = when_wired u (case buildRuleRow rl ri True of Err e \<Rightarrow> araise e
     | Ok row \<Rightarrow> atry (GetRuleByKey (ar_RuleKey row)) (\<lambda>r. case r of
         Ok _ \<Rightarrow> araise (AlertConflict ''rule_key already in use'')
       | Err e \<Rightarrow> if e \<noteq> AlertNotFound then araise e else repo_CreateRule (row\<lparr>ar_CreatedBy := createdBy\<rparr>)))"

definition GetRule :: "AlertUsecase \<Rightarrow> nat \<Rightarrow> AlertRule alert_op" where
  "GetRule u i = when_wired u (if i = 0 then araise (AlertInvalid ''rule id required'') else GetRuleByID i)"

definition UpdateRule :: "('x rule_lib_scheme) \<Rightarrow> AlertUsecase \<Rightarrow> nat \<Rightarrow> RuleInput \<Rightarrow> AlertRule alert_op" where
  "UpdateRule rl u i ri = when_wired u
    (if i = 0 then araise (AlertInvalid ''rule id required'')
     else abind (GetRuleByID i) (\<lambda>existing. case buildRuleRow rl ri False of Err e \<Rightarrow> araise e
       | Ok row \<Rightarrow> abind (repo_UpdateRule i (row\<lparr>ar_ID := ar_ID existing, ar_RuleKey := ar_RuleKey existing,
                      ar_SourceType := ar_SourceType existing\<rparr>)) (\<lambda>_. GetRuleByID i)))"

definition SetRuleEnabled :: "AlertUsecase \<Rightarrow> nat \<Rightarrow> bool \<Rightarrow> AlertRule alert_op" where
  "SetRuleEnabled u i b = when_wired u
    (if i = 0 then araise (AlertInvalid ''rule id required'') else abind (UpdateRuleEnabled i b) (\<lambda>_. GetRuleByID i))"

definition DeleteRule :: "AlertUsecase \<Rightarrow> nat \<Rightarrow> unit alert_op" where
  "DeleteRule u i = when_wired u
    (if i = 0 then araise (AlertInvalid ''rule id required'')
     else abind (GetRuleByID i) (\<lambda>existing.
       if ar_SourceType existing = RuleSourceBuiltin then araise (AlertForbidden ''built-in rules cannot be deleted'')
       else repo_DeleteRule i))"

end
