(* ===== verification/Alert_Compile.thy ===== *)
theory Alert_Compile
  imports Alert_Rules
begin

text \<open>
  From saved rules to the ones the evaluator runs (\<^verbatim>\<open>internal/manager/biz/alert/rules.go\<close>). The fields that all
  kinds share are the record \<open>RuleBase\<close>; each kind extends it. A row that does not compile is skipped, so what matters
  is that what may be saved compiles; this theory shows when it does and when it does not.
\<close>

section \<open>Compiled rules\<close>

record RuleBase =
  rb_ID :: nat
  rb_RuleKey :: string
  rb_Name :: string
  rb_Severity :: string
  rb_ScopeType :: string
  rb_RunbookURL :: string
  rb_Labels :: labels

record MetricRawRule = RuleBase +
  mr_Expr :: string

record MetricAnomalyRule = RuleBase +
  ma_Metric :: string
  ma_Selector :: string
  ma_Method :: string
  ma_BaselineWindow :: string
  ma_BaselineStep :: string
  ma_Deviation :: gofloat
  ma_ForSeconds :: int

record MetricForecastRule = RuleBase +
  mf_Metric :: string
  mf_Selector :: string
  mf_FitWindow :: string
  mf_PredictSeconds :: int
  mf_Operator :: string
  mf_Threshold :: gofloat
  mf_ForSeconds :: int

record MetricBurnRateRule = RuleBase +
  mb_SLI :: string
  mb_SLO :: gofloat
  mb_Burns :: "(string \<times> gofloat) list"

record LogRule = RuleBase +
  lr_StreamSelector :: string
  lr_LineFilter :: string
  lr_Window :: string
  lr_Operator :: string
  lr_Threshold :: gofloat

record TraceRule = RuleBase +
  tr_Expr :: string
  tr_Service :: string
  tr_Quantile :: string
  tr_Operator :: string
  tr_Threshold :: gofloat

record rulesSnapshot =
  sn_metricRaw :: "MetricRawRule list"
  sn_metricAnomaly :: "MetricAnomalyRule list"
  sn_metricForecast :: "MetricForecastRule list"
  sn_metricBurnRate :: "MetricBurnRateRule list"
  sn_logMatch :: "LogRule list"
  sn_logVolume :: "LogRule list"
  sn_traceLatency :: "TraceRule list"
  sn_traceErrorRate :: "TraceRule list"

section \<open>Compiling\<close>

definition effectiveScope :: "string \<Rightarrow> string \<Rightarrow> string" where
  "effectiveScope scope kind = (if scope \<noteq> [] then scope else defaultScopeForKind kind)"

definition rule_base :: "('x rule_lib_scheme) \<Rightarrow> AlertRule \<Rightarrow> RuleBase" where
  "rule_base rl r = \<lparr>rb_ID = ar_ID r, rb_RuleKey = ar_RuleKey r, rb_Name = ar_Name r, rb_Severity = ar_Severity r,
     rb_ScopeType = effectiveScope (ar_ScopeType r) (ar_Kind r),
     rb_RunbookURL = (case ar_RunbookURL r of None \<Rightarrow> [] | Some s \<Rightarrow> s),
     rb_Labels = (case ar_LabelsJSON r of None \<Rightarrow> [] | Some s \<Rightarrow> if s = [] then [] else (case al_labels rl s of None \<Rightarrow> [] | Some m \<Rightarrow> m))\<rparr>"

text \<open>The object of the conditions; \<open>None\<close> when the row has no key or does not decode.\<close>

definition rule_spec :: "('x rule_lib_scheme) \<Rightarrow> AlertRule \<Rightarrow> (string \<times> json) list option" where
  "rule_spec rl r = (if ar_RuleKey r = [] then None
     else case rl_Unmarshal rl (ar_ConditionsJSON r) of None \<Rightarrow> None | Some v \<Rightarrow> as_object v)"

definition strings_of :: "(string \<times> json) list \<Rightarrow> string list \<Rightarrow> string list option" where
  "strings_of kvs ks = those (map (\<lambda>k. as_string (field kvs k)) ks)"

definition compileMetricRawRule :: "('x rule_lib_scheme) \<Rightarrow> AlertRule \<Rightarrow> MetricRawRule option" where
  "compileMetricRawRule rl r = (case rule_spec rl r of None \<Rightarrow> None
     | Some kvs \<Rightarrow> (case as_string (field kvs ''expr'') of None \<Rightarrow> None
     | Some expr \<Rightarrow> if TrimSpace expr = [] then None else Some (RuleBase.extend (rule_base rl r) (MetricRawRule.fields expr))))"

definition compileMetricAnomalyRule :: "('x rule_lib_scheme) \<Rightarrow> AlertRule \<Rightarrow> MetricAnomalyRule option" where
  "compileMetricAnomalyRule rl r = (case rule_spec rl r of None \<Rightarrow> None
     | Some kvs \<Rightarrow> (case (strings_of kvs [''metric'', ''selector'', ''method'', ''baseline_window'', ''baseline_step''],
           as_float rl (field kvs ''deviation''), as_int (field kvs ''for_seconds'')) of
         (Some [metric, selector, method0, window, step], Some dev, Some forSec) \<Rightarrow>
           (let method = firstNonEmpty method0 ''zscore'' in
            if TrimSpace metric = [] \<or> method \<notin> {''zscore'', ''mad''} then None
            else Some (RuleBase.extend (rule_base rl r) (MetricAnomalyRule.fields metric selector method
              (firstNonEmpty window ''1h'') (firstNonEmpty step ''5m'') (if flt_le0 dev then Fin 3 else dev) forSec)))
       | _ \<Rightarrow> None))"

definition compileMetricForecastRule :: "('x rule_lib_scheme) \<Rightarrow> AlertRule \<Rightarrow> MetricForecastRule option" where
  "compileMetricForecastRule rl r = (case rule_spec rl r of None \<Rightarrow> None
     | Some kvs \<Rightarrow> (case (strings_of kvs [''metric'', ''selector'', ''fit_window'', ''operator''],
           as_int (field kvs ''predict_seconds''), as_float rl (field kvs ''threshold''), as_int (field kvs ''for_seconds'')) of
         (Some [metric, selector, window, op], Some predict, Some thr, Some forSec) \<Rightarrow>
           if TrimSpace metric = [] \<or> predict \<le> 0 \<or> \<not> validHostOperator op then None
           else Some (RuleBase.extend (rule_base rl r) (MetricForecastRule.fields metric selector (firstNonEmpty window ''1h'')
             predict op thr forSec))
       | _ \<Rightarrow> None))"

definition decode_burn :: "('x rule_lib_scheme) \<Rightarrow> json \<Rightarrow> (string \<times> gofloat) option" where
  "decode_burn rl v = (case as_object v of None \<Rightarrow> None
     | Some kvs \<Rightarrow> (case (as_string (field kvs ''window''), as_float rl (field kvs ''multiplier'')) of
         (Some w, Some m) \<Rightarrow> Some (w, m) | _ \<Rightarrow> None))"

definition decode_burns :: "('x rule_lib_scheme) \<Rightarrow> json \<Rightarrow> (string \<times> gofloat) list option" where
  "decode_burns rl v = (case v of JNull \<Rightarrow> Some [] | JArr items \<Rightarrow> those (map (decode_burn rl) items) | _ \<Rightarrow> None)"

definition compileMetricBurnRateRule :: "('x rule_lib_scheme) \<Rightarrow> AlertRule \<Rightarrow> MetricBurnRateRule option" where
  "compileMetricBurnRateRule rl r = (case rule_spec rl r of None \<Rightarrow> None
     | Some kvs \<Rightarrow> (case (as_string (field kvs ''sli''), as_float rl (field kvs ''slo''), decode_burns rl (field kvs ''burns'')) of
         (Some sli0, Some slo0, Some burns) \<Rightarrow>
           (let sli = normalizeBurnRateSLIExpression sli0; slo = normalizeBurnRateSLOPercent rl slo0 in
            if TrimSpace sli = [] \<or> \<not> burnRateSLIUsesWindow sli \<or> \<not> slo_in_range slo \<or> burns = [] \<or>
               (\<exists>(w, m)\<in>set burns. w = [] \<or> flt_le0 m) then None
            else Some (RuleBase.extend (rule_base rl r) (MetricBurnRateRule.fields sli slo burns)))
       | _ \<Rightarrow> None))"

definition compileLogRule :: "string \<Rightarrow> string \<Rightarrow> ('x rule_lib_scheme) \<Rightarrow> AlertRule \<Rightarrow> LogRule option" where
  "compileLogRule opField thrField rl r = (case rule_spec rl r of None \<Rightarrow> None
     | Some kvs \<Rightarrow> (case (strings_of kvs [''stream_selector'', ''line_filter'', ''window'', opField], as_float rl (field kvs thrField)) of
         (Some [stream, line, window, op0], Some thr) \<Rightarrow>
           (let op = firstNonEmpty op0 ''>='' in
            if TrimSpace stream = [] \<or> \<not> validHostOperator op then None
            else Some (RuleBase.extend (rule_base rl r) (LogRule.fields stream line (firstNonEmpty window ''5m'') op thr)))
       | _ \<Rightarrow> None))"

definition compileLogMatchRule :: "('x rule_lib_scheme) \<Rightarrow> AlertRule \<Rightarrow> LogRule option" where
  "compileLogMatchRule = compileLogRule ''operator'' ''threshold''"

definition compileLogVolumeRule :: "('x rule_lib_scheme) \<Rightarrow> AlertRule \<Rightarrow> LogRule option" where
  "compileLogVolumeRule = compileLogRule ''ratio_op'' ''ratio_threshold''"

definition quantileFloat :: "string \<Rightarrow> gofloat" where
  "quantileFloat q = (if q \<in> {''p50'', ''0.5''} then Fin (1 / 2) else if q \<in> {''p99'', ''0.99''} then Fin (99 / 100) else Fin (95 / 100))"

definition compileTraceLatencyRule :: "('x rule_lib_scheme) \<Rightarrow> AlertRule \<Rightarrow> TraceRule option" where
  "compileTraceLatencyRule rl r = (case rule_spec rl r of None \<Rightarrow> None
     | Some kvs \<Rightarrow> (case (strings_of kvs [''service'', ''operation'', ''quantile'', ''window''], as_float rl (field kvs ''threshold_ms'')) of
         (Some [service, operation, quantile, window0], Some thr) \<Rightarrow>
           if TrimSpace service = [] \<or> flt_le0 thr then None
           else (let sel = ''service_name='' @ rl_fmt_q rl service @ (if operation = [] then [] else '',span_name='' @ rl_fmt_q rl operation);
                     expr = ''histogram_quantile('' @ rl_fmt_g rl (quantileFloat quantile)
                       @ '', sum by (le) (rate(traces_spanmetrics_latency_bucket{'' @ sel @ ''}['' @ firstNonEmpty window0 ''5m''
                       @ '']))) * 1000 > '' @ rl_fmt_g rl thr
                 in Some (RuleBase.extend (rule_base rl r) (TraceRule.fields expr service quantile [] thr)))
       | _ \<Rightarrow> None))"

definition compileTraceErrorRateRule :: "('x rule_lib_scheme) \<Rightarrow> AlertRule \<Rightarrow> TraceRule option" where
  "compileTraceErrorRateRule rl r = (case rule_spec rl r of None \<Rightarrow> None
     | Some kvs \<Rightarrow> (case (strings_of kvs [''service'', ''window'', ''operator''], as_float rl (field kvs ''threshold_pct'')) of
         (Some [service, window0, op0], Some thr) \<Rightarrow>
           (let op = firstNonEmpty op0 ''>''; window = firstNonEmpty window0 ''5m'' in
            if TrimSpace service = [] \<or> \<not> validHostOperator op \<or> flt_le0 thr then None
            else (let sel = ''service_name='' @ rl_fmt_q rl service;
                      expr = ''100 * (sum by (service_name) (rate(traces_spanmetrics_calls_total{'' @ sel @ '',status_code='' @ [DQUOTE]
                        @ ''STATUS_CODE_ERROR'' @ [DQUOTE] @ ''}['' @ window @ ''])) / sum by (service_name) (rate(traces_spanmetrics_calls_total{''
                        @ sel @ ''}['' @ window @ '']))) '' @ op @ '' '' @ rl_fmt_g rl thr
                  in Some (RuleBase.extend (rule_base rl r) (TraceRule.fields expr service [] op0 thr))))
       | _ \<Rightarrow> None))"

section \<open>Refreshing\<close>

definition empty_snapshot :: rulesSnapshot where
  "empty_snapshot = \<lparr>sn_metricRaw = [], sn_metricAnomaly = [], sn_metricForecast = [], sn_metricBurnRate = [], sn_logMatch = [],
     sn_logVolume = [], sn_traceLatency = [], sn_traceErrorRate = []\<rparr>"

definition add_rule :: "'a option \<Rightarrow> 'a list \<Rightarrow> 'a list" where
  "add_rule x xs = (case x of None \<Rightarrow> xs | Some a \<Rightarrow> xs @ [a])"

definition snapshot_row :: "('x rule_lib_scheme) \<Rightarrow> rulesSnapshot \<Rightarrow> AlertRule \<Rightarrow> rulesSnapshot" where
  "snapshot_row rl sn r = (let k = NormalizeKind (ar_Kind r) in
     if k = RuleKindMetricRaw then sn\<lparr>sn_metricRaw := add_rule (compileMetricRawRule rl r) (sn_metricRaw sn)\<rparr>
     else if k = RuleKindMetricAnomaly then sn\<lparr>sn_metricAnomaly := add_rule (compileMetricAnomalyRule rl r) (sn_metricAnomaly sn)\<rparr>
     else if k = RuleKindMetricForecast then sn\<lparr>sn_metricForecast := add_rule (compileMetricForecastRule rl r) (sn_metricForecast sn)\<rparr>
     else if k = RuleKindMetricBurnRate then sn\<lparr>sn_metricBurnRate := add_rule (compileMetricBurnRateRule rl r) (sn_metricBurnRate sn)\<rparr>
     else if k = RuleKindLogMatch then sn\<lparr>sn_logMatch := add_rule (compileLogMatchRule rl r) (sn_logMatch sn)\<rparr>
     else if k = RuleKindLogVolume then sn\<lparr>sn_logVolume := add_rule (compileLogVolumeRule rl r) (sn_logVolume sn)\<rparr>
     else if k = RuleKindTraceLatency then sn\<lparr>sn_traceLatency := add_rule (compileTraceLatencyRule rl r) (sn_traceLatency sn)\<rparr>
     else if k = RuleKindTraceErrorRate then sn\<lparr>sn_traceErrorRate := add_rule (compileTraceErrorRateRule rl r) (sn_traceErrorRate sn)\<rparr>
     else sn)"

definition rules_Refresh :: "('x rule_lib_scheme) \<Rightarrow> rulesSnapshot alert_op" where
  "rules_Refresh rl = abind ListAllEnabledRules (\<lambda>rows. areturn (foldl (snapshot_row rl) empty_snapshot rows))"

text \<open>The rule keys of a snapshot, whatever their kind.\<close>

definition snapshot_keys :: "rulesSnapshot \<Rightarrow> string list" where
  "snapshot_keys sn = map rb_RuleKey (sn_metricRaw sn) @ map rb_RuleKey (sn_metricAnomaly sn) @ map rb_RuleKey (sn_metricForecast sn)
     @ map rb_RuleKey (sn_metricBurnRate sn) @ map rb_RuleKey (sn_logMatch sn) @ map rb_RuleKey (sn_logVolume sn)
     @ map rb_RuleKey (sn_traceLatency sn) @ map rb_RuleKey (sn_traceErrorRate sn)"

definition rule_active :: "('x rule_lib_scheme) \<Rightarrow> AlertRule \<Rightarrow> bool" where
  "rule_active rl r = (snapshot_keys (snapshot_row rl empty_snapshot r) \<noteq> [])"

section \<open>What may be saved, compiles\<close>

text \<open>The fields of a decoded object: sorted, with the same values when no two names are the same up to case.\<close>

definition decoded_fields :: "(string \<times> json) list \<Rightarrow> (string \<times> json) list" where
  "decoded_fields kvs = map (\<lambda>(k, v). (to_valid_utf8 k, v)) (sort_key fst (map (\<lambda>(k, v). (k, as_decoded v)) kvs))"

definition plain_names :: "string list \<Rightarrow> bool" where
  "plain_names ks = (list_all utf8_valid ks \<and> distinct (map ToLower ks))"

lemma as_decoded_obj: "as_decoded (JObj kvs) = JObj (decoded_fields kvs)"
  by (simp add: decoded_fields_def)

lemma filter_distinct_short: "distinct (map f xs) \<Longrightarrow> length (filter (\<lambda>x. f x = c) xs) \<le> 1"
proof (induction xs)
  case (Cons x xs)
  then have "f x \<notin> f ` set xs" by simp
  then have "filter (\<lambda>y. f y = f x) xs = []" by (auto simp: filter_empty_conv image_iff)
  with Cons show ?case by auto
qed simp

lemma sort_key_short: "length xs \<le> 1 \<Longrightarrow> sort_key f xs = xs"
  by (cases xs) auto

lemma field_decoded:
  assumes "plain_names (map fst kvs)"
  shows "field (decoded_fields kvs) k = as_decoded (field kvs k)"
proof -
  let ?d = "\<lambda>(k, v). (k :: string, as_decoded v)" and ?P = "\<lambda>(k', _). EqualFold k' k"
  let ?s = "sort_key fst (map ?d kvs)"
  have "map (\<lambda>(k, v). (to_valid_utf8 k, v)) ?s = ?s"
    by (rule map_idI) (use assms in \<open>auto simp: plain_names_def list_all_iff\<close>)
  then have e: "decoded_fields kvs = ?s" by (simp add: decoded_fields_def)
  have "distinct (map (\<lambda>x. ToLower (fst x)) kvs)" using assms by (simp add: plain_names_def comp_def)
  from filter_distinct_short[OF this, of "ToLower k"] have l: "length (filter ?P kvs) \<le> 1"
    by (simp add: EqualFold_def case_prod_unfold)
  have "filter ?P ?s = sort_key fst (filter ?P (map ?d kvs))" by (rule filter_sort)
  also have "filter ?P (map ?d kvs) = map ?d (filter ?P kvs)" by (simp add: filter_map comp_def case_prod_unfold)
  finally have f: "filter ?P ?s = map ?d (filter ?P kvs)" using sort_key_short[of "map ?d (filter ?P kvs)" fst] l by simp
  have "snd (last (map ?d xs)) = as_decoded (snd (last xs))" if "xs \<noteq> []" for xs
    using that by (simp add: last_map case_prod_unfold)
  with f show ?thesis unfolding e by (auto simp: field_def split: list.split)
qed

lemma rule_spec_saved:
  assumes "rule_json_ok rl" "marshal_spec rl (JObj kvs) = Ok s" "ar_ConditionsJSON r = s" "ar_RuleKey r \<noteq> []"
  shows "rule_spec rl r = Some (decoded_fields kvs)"
  using assms by (auto simp: rule_spec_def marshal_spec_def rule_json_ok_def as_object_def decoded_fields_def split: option.splits)

lemma field_list:
  "field [] k = JNull"
  "field ((k', v) # kvs) k = (if list_ex (\<lambda>(k'', _). EqualFold k'' k) kvs then field kvs k else if EqualFold k' k then v else JNull)"
  by (auto simp: field_def list_ex_iff filter_empty_conv split: list.splits)

lemmas compile_eval = field_decoded field_list EqualFold_def ToLower_def lower_char_def strings_of_def Let_def

lemma raw_compiles:
  assumes "rule_json_ok rl" "marshal_spec rl (JObj [(''expr'', JStr e)]) = Ok (ar_ConditionsJSON r)" "ar_RuleKey r \<noteq> []" "TrimSpace e \<noteq> []"
    "utf8_valid e"
  shows "compileMetricRawRule rl r \<noteq> None"
proof -
  have "plain_names [''expr'']" by code_simp
  with assms(4,5) rule_spec_saved[OF assms(1,2) refl assms(3)] show ?thesis by (simp add: compileMetricRawRule_def compile_eval)
qed

lemma anomaly_compiles:
  assumes "rule_json_ok rl" "rule_int_ok rl" "marshal_spec rl (anomaly_spec rl spec) = Ok (ar_ConditionsJSON r)" "ar_RuleKey r \<noteq> []"
    "TrimSpace (str_at spec ''metric'') \<noteq> []" "firstNonEmpty (str_at spec ''method'') ''zscore'' \<in> {''zscore'', ''mad''}"
    "json_utf8 (anomaly_spec rl spec)"
  shows "compileMetricAnomalyRule rl r \<noteq> None"
proof -
  have "plain_names [''metric'', ''selector'', ''method'', ''baseline_window'', ''baseline_step'', ''deviation'', ''for_seconds'']" by code_simp
  moreover have "firstNonEmpty (firstNonEmpty (str_at spec ''method'') ''zscore'') ''zscore'' \<in> {''zscore'', ''mad''}"
    using assms(6) by (auto simp: firstNonEmpty_def)
  moreover have "- (2 ^ 63) \<le> rl_int rl x \<and> rl_int rl x < 2 ^ 63" for x using assms(2) by (simp add: rule_int_ok_def)
  ultimately show ?thesis using assms(5,7) rule_spec_saved[OF assms(1) assms(3)[unfolded anomaly_spec_def] refl assms(4)]
    by (simp add: compileMetricAnomalyRule_def compile_eval anomaly_spec_def)
qed

lemma forecast_compiles:
  assumes "rule_json_ok rl" "rule_int_ok rl" "marshal_spec rl (forecast_spec rl spec) = Ok (ar_ConditionsJSON r)" "ar_RuleKey r \<noteq> []"
    "TrimSpace (str_at spec ''metric'') \<noteq> []" "validHostOperator (str_at spec ''operator'')" "rl_int rl (numericFromSpec rl spec ''predict_seconds'') > 0"
    "json_utf8 (forecast_spec rl spec)"
  shows "compileMetricForecastRule rl r \<noteq> None"
proof -
  have "plain_names [''metric'', ''selector'', ''fit_window'', ''predict_seconds'', ''operator'', ''threshold'', ''for_seconds'']" by code_simp
  moreover have "- (2 ^ 63) \<le> rl_int rl x \<and> rl_int rl x < 2 ^ 63" for x using assms(2) by (simp add: rule_int_ok_def)
  ultimately show ?thesis using assms(5-8) rule_spec_saved[OF assms(1) assms(3)[unfolded forecast_spec_def] refl assms(4)]
    by (simp add: compileMetricForecastRule_def compile_eval forecast_spec_def)
qed

lemma window_var_plain: "set window_var \<inter> \<Union> (set ` set go_spaces) = {}"
  by (simp add: window_var_def go_spaces_def)

lemma window_var_ne: "window_var \<noteq> []"
  by (simp add: window_var_def)

lemma window_trimmed: "Contains s window_var \<Longrightarrow> Contains (TrimSpace s) window_var"
  using TrimSpace_keeps_sublist[OF _ window_var_ne window_var_plain] by (simp add: Contains_sublist)

lemma sli_again:
  assumes "Contains s window_var"
  shows "normalizeBurnRateSLIExpression s = TrimSpace s" "burnRateSLIUsesWindow (TrimSpace s)" "TrimSpace (TrimSpace s) \<noteq> []"
proof -
  have t: "Contains (TrimSpace s) window_var" using assms by (rule window_trimmed)
  then show "normalizeBurnRateSLIExpression s = TrimSpace s" "burnRateSLIUsesWindow (TrimSpace s)"
    by (simp_all add: normalizeBurnRateSLIExpression_def burnRateSLIUsesWindow_def Let_def)
  have "sublist window_var (TrimSpace (TrimSpace s))" using window_trimmed[OF t] by (simp add: Contains_sublist)
  then show "TrimSpace (TrimSpace s) \<noteq> []" using window_var_ne by auto
qed

abbreviation burn_json :: "string \<times> gofloat \<Rightarrow> json" where
  "burn_json b \<equiv> (case b of (w, m) \<Rightarrow> JObj [(''window'', JStr w), (''multiplier'', JNum m)])"

lemma decode_burn_saved: "utf8_valid w \<Longrightarrow> decode_burn rl (as_decoded (burn_json (w, m))) = Some (w, m)"
proof -
  assume "utf8_valid w"
  moreover have "plain_names [''window'', ''multiplier'']" by code_simp
  ultimately show ?thesis by (simp add: decode_burn_def as_decoded_obj as_object_def compile_eval del: as_decoded.simps(3))
qed

lemma decode_burns_saved:
  "list_all json_utf8 (map burn_json bs) \<Longrightarrow> decode_burns rl (as_decoded (JArr (map burn_json bs))) = Some bs"
proof (induction bs)
  case (Cons b bs)
  then obtain w m where b: "b = (w, m)" "utf8_valid w" by (cases b) auto
  from Cons decode_burn_saved[OF b(2), of rl m] show ?case by (simp add: decode_burns_def b(1) del: as_decoded.simps(3) split: option.splits)
qed (simp add: decode_burns_def)

lemma burnsFromSpec_ok: "(w, m) \<in> set (burnsFromSpec rl spec k) \<Longrightarrow> w \<noteq> [] \<and> \<not> flt_le0 m"
  by (auto simp: burnsFromSpec_def Let_def split: json.splits if_splits)

text \<open>A percentage of one or less is taken for a fraction, also when it has been one already.\<close>

lemma burn_compiles:
  assumes "rule_json_ok rl" "marshal_spec rl (burn_spec sli slo burns) = Ok (ar_ConditionsJSON r)" "ar_RuleKey r \<noteq> []"
    "burnRateSLIUsesWindow sli" "slo_in_range slo" "\<not> slo_fraction slo" "burns \<noteq> []" "\<forall>(w, m)\<in>set burns. w \<noteq> [] \<and> \<not> flt_le0 m"
    "json_utf8 (burn_spec sli slo burns)"
  shows "compileMetricBurnRateRule rl r \<noteq> None"
proof -
  have c: "Contains sli window_var" using assms(4) by (simp add: burnRateSLIUsesWindow_def)
  have b: "\<not> (\<exists>(w, m)\<in>set burns. w = [] \<or> flt_le0 m)" using assms(8) by blast
  have u: "utf8_valid sli" "list_all json_utf8 (map burn_json burns)" using assms(9) by (simp_all add: burn_spec_def)
  have d: "decode_burns rl (JArr (map as_decoded (map burn_json burns))) = Some burns" using decode_burns_saved[OF u(2), of rl] by simp
  have "plain_names [''sli'', ''slo'', ''burns'']" by code_simp
  with sli_again[OF c] assms(5,6,7) b d u(1) rule_spec_saved[OF assms(1) assms(2)[unfolded burn_spec_def] refl assms(3)]
  show ?thesis by (simp add: compileMetricBurnRateRule_def compile_eval normalizeBurnRateSLOPercent_def del: map_map)
qed

definition verbatim_kinds :: "string set" where
  "verbatim_kinds = {RuleKindLogMatch, RuleKindLogVolume, RuleKindTraceLatency, RuleKindTraceErrorRate}"

text \<open>The numbers that are lost on the way to the evaluator: less than a second ahead, at most one percent once it is a percentage.\<close>

definition lossy_spec :: "('x rule_lib_scheme) \<Rightarrow> string \<Rightarrow> anymap \<Rightarrow> bool" where
  "lossy_spec rl kind spec =
    ((kind = RuleKindMetricForecast \<and> rl_int rl (numericFromSpec rl spec ''predict_seconds'') \<le> 0) \<or>
     (kind = RuleKindMetricBurnRate \<and> slo_fraction (normalizeBurnRateSLOPercent rl (numericFromSpec rl spec ''slo''))))"

lemma plain_char_kept: "c \<in> set s \<Longrightarrow> c \<notin> \<Union> (set ` set go_spaces) \<Longrightarrow> TrimSpace s \<noteq> []"
  using TrimSpace_keeps_sublist[of "[c]" s] by (fastforce simp: sublist_def in_set_conv_decomp)

lemma threshold_expr_ne:
  assumes "compileMetricThresholdExpr rl conds j = Ok e"
  shows "TrimSpace e \<noteq> []"
proof (rule plain_char_kept[of "CHR ''(''"])
  from assms obtain c cs where "conds = c # cs" by (cases conds) (auto simp: compileMetricThresholdExpr_def)
  with assms show "CHR ''('' \<in> set e"
    by (auto simp: compileMetricThresholdExpr_def condition_expr_def Let_def split: if_splits list.splits)
qed (simp add: go_spaces_def)

lemma kinds_distinct:
  "RuleKindMetricThreshold \<noteq> RuleKindMetricRaw" "RuleKindMetricAnomaly \<noteq> RuleKindMetricRaw" "RuleKindMetricForecast \<noteq> RuleKindMetricRaw"
  "RuleKindMetricBurnRate \<noteq> RuleKindMetricRaw" "RuleKindMetricForecast \<noteq> RuleKindMetricAnomaly" "RuleKindMetricBurnRate \<noteq> RuleKindMetricAnomaly"
  "RuleKindMetricBurnRate \<noteq> RuleKindMetricForecast"
  by (simp_all add: kind_defs)

lemma active_by_kind:
  "NormalizeKind (ar_Kind r) = RuleKindMetricRaw \<Longrightarrow> compileMetricRawRule rl r \<noteq> None \<Longrightarrow> rule_active rl r"
  "NormalizeKind (ar_Kind r) = RuleKindMetricAnomaly \<Longrightarrow> compileMetricAnomalyRule rl r \<noteq> None \<Longrightarrow> rule_active rl r"
  "NormalizeKind (ar_Kind r) = RuleKindMetricForecast \<Longrightarrow> compileMetricForecastRule rl r \<noteq> None \<Longrightarrow> rule_active rl r"
  "NormalizeKind (ar_Kind r) = RuleKindMetricBurnRate \<Longrightarrow> compileMetricBurnRateRule rl r \<noteq> None \<Longrightarrow> rule_active rl r"
  by (auto simp: rule_active_def snapshot_keys_def snapshot_row_def Let_def add_rule_def empty_snapshot_def kinds_distinct)

lemma raw_kind: "NormalizeKind RuleKindMetricRaw = RuleKindMetricRaw"
  by (simp add: NormalizeKind_def legacyKindAliases_def kind_defs)

text \<open>What \<open>buildRuleRow\<close> accepted: its row has the key, the kind and the conditions it was asked for.\<close>

lemma buildRuleRow_Ok:
  assumes "buildRuleRow rl ri req = Ok row"
  obtains "ar_RuleKey row = TrimSpace (ri_RuleKey ri)" "req \<longrightarrow> ar_RuleKey row \<noteq> []"
    "ar_Kind row = (if NormalizeKind (ri_Kind ri) = RuleKindMetricThreshold then RuleKindMetricRaw else NormalizeKind (ri_Kind ri))"
    "buildConditionsJSON rl (NormalizeKind (ri_Kind ri)) ri = Ok (ar_ConditionsJSON row)" "IsKnownKind (NormalizeKind (ri_Kind ri))"
    "policy_error ri = None" "ar_NotifyWindowSeconds row = ri_NotifyWindowSeconds ri" "ar_NotifyMinFires row = ri_NotifyMinFires ri"
    "ar_Enabled row = ri_Enabled ri"
proof -
  from assms obtain scope join cond pinned where
    "row = rule_row rl ri (TrimSpace (ri_RuleKey ri)) (NormalizeKind (ri_Kind ri)) scope join cond pinned"
    "req \<longrightarrow> TrimSpace (ri_RuleKey ri) \<noteq> []" "IsKnownKind (NormalizeKind (ri_Kind ri))"
    "buildConditionsJSON rl (NormalizeKind (ri_Kind ri)) ri = Ok cond" "policy_error ri = None"
    unfolding buildRuleRow_def Let_def by (auto split: if_split_asm sum.split_asm option.split_asm)
  then show ?thesis by (intro that) (simp_all add: rule_row_def)
qed

lemma saved_compiles:
  assumes j: "rule_json_ok rl" and n: "rule_int_ok rl" and b: "buildConditionsJSON rl kind ri = Ok (ar_ConditionsJSON r)"
    and k: "ar_RuleKey r \<noteq> []" and kr: "ar_Kind r = (if kind = RuleKindMetricThreshold then RuleKindMetricRaw else kind)"
    and nk: "NormalizeKind kind = kind" and v: "kind \<notin> verbatim_kinds" and l: "\<not> lossy_spec rl kind (ri_Spec ri)"
    and u: "\<forall>v. conditions_value rl kind ri = Ok v \<longrightarrow> json_utf8 v"
  shows "rule_active rl r"
proof -
  note defs = conditions_value_def Let_def kinds_distinct kinds_distinct[symmetric]
  from b u obtain w where w: "conditions_value rl kind ri = Ok w" "marshal_spec rl w = Ok (ar_ConditionsJSON r)" "json_utf8 w"
    by (auto simp: buildConditionsJSON_def split: sum.splits)
  consider "kind = RuleKindMetricThreshold" | "kind = RuleKindMetricRaw" | "kind = RuleKindMetricAnomaly" | "kind = RuleKindMetricForecast"
    | "kind = RuleKindMetricBurnRate"
    using w(1) v by (auto simp: conditions_value_def Let_def verbatim_kinds_def split: if_splits)
  then show ?thesis
  proof cases
    case 1
    then obtain e where e: "compileMetricThresholdExpr rl (ri_Conditions ri) (ri_JoinMode ri) = Ok e" "w = JObj [(''expr'', JStr e)]"
      using w(1) by (auto simp: defs split: if_splits option.splits sum.splits)
    with raw_compiles[OF j _ k threshold_expr_ne[OF e(1)]] w(2,3) 1 kr show ?thesis by (intro active_by_kind(1)) (simp_all add: raw_kind)
  next
    case 2
    with w kr raw_compiles[OF j _ k] show ?thesis
      by (intro active_by_kind(1)) (auto simp: defs raw_kind split: if_splits)
  next
    case 3
    with w kr nk anomaly_compiles[OF j n _ k, of "ri_Spec ri"] show ?thesis
      by (intro active_by_kind(2)) (auto simp: defs kind_defs split: if_splits)
  next
    case 4
    with w kr nk l forecast_compiles[OF j n _ k, of "ri_Spec ri"] show ?thesis
      by (intro active_by_kind(3)) (auto simp: defs lossy_spec_def kind_defs split: if_splits)
  next
    case 5
    have bs: "\<forall>(w, m)\<in>set (burnsFromSpec rl (ri_Spec ri) ''burns''). w \<noteq> [] \<and> \<not> flt_le0 m" by (auto dest: burnsFromSpec_ok)
    with 5 w kr nk l burn_compiles[OF j _ k _ _ _ _ bs] show ?thesis
      by (intro active_by_kind(4)) (auto simp: defs lossy_spec_def kind_defs split: if_splits)
  qed
qed

lemma extend_key [simp]:
  "rb_RuleKey (RuleBase.extend b f) = rb_RuleKey b"
  by (simp add: RuleBase.extend_def)

lemma base_key [simp]: "rb_RuleKey (rule_base rl r) = ar_RuleKey r"
  by (simp add: rule_base_def)

lemma compileMetricRawRule_key: "compileMetricRawRule rl r = Some a \<Longrightarrow> rb_RuleKey a = ar_RuleKey r"
  by (auto simp: compileMetricRawRule_def Let_def split: option.split_asm list.split_asm if_split_asm)

lemma compileMetricAnomalyRule_key: "compileMetricAnomalyRule rl r = Some a \<Longrightarrow> rb_RuleKey a = ar_RuleKey r"
  by (auto simp: compileMetricAnomalyRule_def Let_def split: option.split_asm list.split_asm if_split_asm)

lemma compileMetricForecastRule_key: "compileMetricForecastRule rl r = Some a \<Longrightarrow> rb_RuleKey a = ar_RuleKey r"
  by (auto simp: compileMetricForecastRule_def Let_def split: option.split_asm list.split_asm if_split_asm)

lemma compileMetricBurnRateRule_key: "compileMetricBurnRateRule rl r = Some a \<Longrightarrow> rb_RuleKey a = ar_RuleKey r"
  by (auto simp: compileMetricBurnRateRule_def Let_def split: option.split_asm list.split_asm if_split_asm)

lemma compileTraceLatencyRule_key: "compileTraceLatencyRule rl r = Some a \<Longrightarrow> rb_RuleKey a = ar_RuleKey r"
  by (auto simp: compileTraceLatencyRule_def Let_def split: option.split_asm list.split_asm if_split_asm)

lemma compileTraceErrorRateRule_key: "compileTraceErrorRateRule rl r = Some a \<Longrightarrow> rb_RuleKey a = ar_RuleKey r"
  by (auto simp: compileTraceErrorRateRule_def Let_def split: option.split_asm list.split_asm if_split_asm)

lemma compileLogRule_key: "compileLogRule f g rl r = Some a \<Longrightarrow> rb_RuleKey a = ar_RuleKey r"
  by (auto simp: compileLogRule_def Let_def split: option.split_asm list.split_asm if_split_asm)

lemmas compiled_keys = compileMetricRawRule_key compileMetricAnomalyRule_key compileMetricForecastRule_key compileMetricBurnRateRule_key compileTraceLatencyRule_key compileTraceErrorRateRule_key compileLogRule_key

lemmas snapshot_eval = rule_active_def snapshot_keys_def snapshot_row_def Let_def add_rule_def empty_snapshot_def

lemma snapshot_row_keys:
  "set (snapshot_keys (snapshot_row rl sn r)) = set (snapshot_keys sn) \<union> (if rule_active rl r then {ar_RuleKey r} else {})"
proof -
  define k where "k = NormalizeKind (ar_Kind r)"
  consider "k = RuleKindMetricRaw" | "k = RuleKindMetricAnomaly" | "k = RuleKindMetricForecast" | "k = RuleKindMetricBurnRate"
    | "k = RuleKindLogMatch" | "k = RuleKindLogVolume" | "k = RuleKindTraceLatency" | "k = RuleKindTraceErrorRate"
    | "k \<notin> {RuleKindMetricRaw, RuleKindMetricAnomaly, RuleKindMetricForecast, RuleKindMetricBurnRate, RuleKindLogMatch, RuleKindLogVolume,
         RuleKindTraceLatency, RuleKindTraceErrorRate}"
    by blast
  then show ?thesis
  proof cases
    case 1 then show ?thesis
      by (cases "compileMetricRawRule rl r") (simp_all add: snapshot_eval k_def kind_defs compiled_keys insert_commute Un_assoc)
  next
    case 2 then show ?thesis
      by (cases "compileMetricAnomalyRule rl r") (simp_all add: snapshot_eval k_def kind_defs compiled_keys)
  next
    case 3 then show ?thesis
      by (cases "compileMetricForecastRule rl r") (simp_all add: snapshot_eval k_def kind_defs compiled_keys)
  next
    case 4 then show ?thesis
      by (cases "compileMetricBurnRateRule rl r") (simp_all add: snapshot_eval k_def kind_defs compiled_keys)
  next
    case 5 then show ?thesis
      by (cases "compileLogMatchRule rl r") (simp_all add: snapshot_eval k_def kind_defs compileLogRule_key compileLogMatchRule_def)
  next
    case 6 then show ?thesis
      by (cases "compileLogVolumeRule rl r") (simp_all add: snapshot_eval k_def kind_defs compileLogRule_key compileLogVolumeRule_def)
  next
    case 7 then show ?thesis
      by (cases "compileTraceLatencyRule rl r") (simp_all add: snapshot_eval k_def kind_defs compiled_keys)
  next
    case 8 then show ?thesis
      by (cases "compileTraceErrorRateRule rl r") (simp_all add: snapshot_eval k_def kind_defs compiled_keys)
  next
    case 9 then show ?thesis by (simp add: snapshot_eval k_def)
  qed
qed

lemma snapshot_fold_keys:
  "set (snapshot_keys (foldl (snapshot_row rl) sn rows)) = set (snapshot_keys sn) \<union> ar_RuleKey ` {r \<in> set rows. rule_active rl r}"
  by (induction rows arbitrary: sn) (auto simp: snapshot_row_keys)

lemma empty_snapshot_keys [simp]: "snapshot_keys empty_snapshot = []"
  by (simp add: snapshot_keys_def empty_snapshot_def)

lemma NormalizeKind_threshold: "NormalizeKind k = RuleKindMetricThreshold \<Longrightarrow> k = RuleKindMetricThreshold"
  by (auto simp: NormalizeKind_def legacyKindAliases_def kind_defs split: option.splits if_splits)

section \<open>Saving a rule\<close>

lemma repo_CreateRule_Ok:
  assumes "repo_CreateRule x db = (Ok row, db')"
  obtains i where "row = x\<lparr>ar_ID := i, ar_Kind := col_default RuleKindMetricRaw (ar_Kind x),
      ar_JoinMode := col_default RuleJoinModeAll (ar_JoinMode x), ar_Enabled := True\<rparr>" "row \<in> set (ad_rules db')"
  using assms unfolding repo_CreateRule_def by (elim astmt_Ok) (auto simp: Let_def split: if_splits)

lemma CreateRule_Ok:
  assumes "CreateRule rl u ri by db = (Ok row, db')"
  obtains row0 where "buildRuleRow rl ri True = Ok row0" "ar_RuleKey row = ar_RuleKey row0" "ar_Kind row = col_default RuleKindMetricRaw (ar_Kind row0)"
    "ar_ConditionsJSON row = ar_ConditionsJSON row0" "ar_Enabled row" "row \<in> set (ad_rules db')"
  using assms by (auto simp: CreateRule_def atry_def araise_def dest!: when_wired_Ok split: sum.splits prod.splits if_splits elim!: repo_CreateRule_Ok)

lemma NormalizeKind_ne: "NormalizeKind k \<noteq> []"
proof
  assume "NormalizeKind k = []"
  then have "NormalizeKind [] = []" using NormalizeKind_idem[of k] by simp
  moreover have "NormalizeKind [] \<noteq> []" by code_simp
  ultimately show False by simp
qed

text \<open>
  C28. A rule that was created is evaluated from the next refresh of the rules on, whatever other rules there are: its key is among
  those of the snapshot, also when it was created as disabled, since the store takes that for a missing value and writes the default.
  What was saved must be well-formed text. Rules on logs and traces are saved unchecked and may be dropped; so are
  forecasts of less than a second, and objectives that are at most one percent after their conversion (\<open>lossy_spec\<close>).
\<close>

theorem saved_rule_evaluated:
  assumes "rule_json_ok rl" "rule_int_ok rl" "CreateRule rl u ri by db = (Ok row, db')"
    "NormalizeKind (ri_Kind ri) \<notin> verbatim_kinds" "\<not> lossy_spec rl (NormalizeKind (ri_Kind ri)) (ri_Spec ri)"
    "\<forall>v. conditions_value rl (NormalizeKind (ri_Kind ri)) ri = Ok v \<longrightarrow> json_utf8 v"
  shows "ar_Enabled row \<and> (\<exists>sn. fst (rules_Refresh rl (db'\<lparr>ad_faults := []\<rparr>)) = Ok sn \<and> ar_RuleKey row \<in> set (snapshot_keys sn))"
proof -
  from assms(3) obtain row0 where b: "buildRuleRow rl ri True = Ok row0" and r: "ar_RuleKey row = ar_RuleKey row0"
      "ar_Kind row = col_default RuleKindMetricRaw (ar_Kind row0)" "ar_ConditionsJSON row = ar_ConditionsJSON row0"
    and e: "ar_Enabled row" and m: "row \<in> set (ad_rules db')" by (rule CreateRule_Ok)
  from b have "ar_Kind row0 \<noteq> []" by (rule buildRuleRow_Ok) (auto simp: RuleKindMetricRaw_def NormalizeKind_ne)
  then have k: "ar_Kind row = ar_Kind row0" using r(2) by (simp add: col_default_def)
  from b have "rule_active rl row"
    by (rule buildRuleRow_Ok) (rule saved_compiles[OF assms(1,2), of "NormalizeKind (ri_Kind ri)" ri],
        use assms(4-6) r k in \<open>auto simp: NormalizeKind_idem\<close>)
  with e m show ?thesis
    by (auto simp: rules_Refresh_def ListAllEnabledRules_def alert_run astmt_calm snapshot_fold_keys)
qed

text \<open>A small instance of the libraries, on which the hypotheses of the theorems hold.\<close>

definition demo_rule_lib :: "json \<Rightarrow> rule_lib" where
  "demo_rule_lib v = \<lparr>al_Marshal = (\<lambda>x. if x = v then Some ''x'' else None), al_labels = (\<lambda>_. None), al_ids = (\<lambda>_. None),
     al_ParseDuration = (\<lambda>_. None), al_ParseRFC3339 = (\<lambda>_. None), al_sha256_hex = (\<lambda>s. s),
     rl_Unmarshal = (\<lambda>s. Some (as_decoded v)), rl_Sscanf = (\<lambda>_. None), rl_fmt_g = (\<lambda>_. ''9''), rl_fmt_q = (\<lambda>s. s),
     rl_int = (\<lambda>x. case x of Fin q \<Rightarrow> if 0 \<le> q \<and> q < 2 ^ 63 then \<lfloor>q\<rfloor> else 0 | _ \<Rightarrow> 0),
     rl_float = (\<lambda>n. Fin (of_int n)), rl_mul = (\<lambda>x y. x)\<rparr>"

lemma demo_rule_lib_ok: "rule_json_ok (demo_rule_lib v)" "rule_int_ok (demo_rule_lib v)"
proof -
  show "rule_json_ok (demo_rule_lib v)" by (auto simp: rule_json_ok_def demo_rule_lib_def split: if_splits)
  have "\<lfloor>q\<rfloor> < 2 ^ 63" if "q < 2 ^ 63" for q :: rat using that by (simp add: floor_less_iff)
  then show "rule_int_ok (demo_rule_lib v)" by (auto simp: rule_int_ok_def demo_rule_lib_def split: gofloat.splits intro: order_trans[of _ 0])
qed

definition demo_rule_input :: RuleInput where
  "demo_rule_input = \<lparr>ri_RuleKey = ''scrape_down'', ri_Kind = ''metric_raw'', ri_Name = ''scrape'', ri_ScopeType = ''global'', ri_JoinMode = [],
     ri_Severity = ''warning'', ri_Enabled = False, ri_Conditions = [], ri_Spec = Some [(''expr'', JStr ''up == 0'')], ri_Labels = [],
     ri_RunbookURL = [], ri_NotifyChannelIDs = [], ri_NotifyWindowSeconds = 0, ri_NotifyMinFires = 0\<rparr>"

definition demo_conditions :: json where
  "demo_conditions = JObj [(''expr'', JStr ''up == 0'')]"

definition alert_db0 :: alert_db where
  "alert_db0 = \<lparr>ad_incidents = [], ad_nextIncident = 1, ad_events = [], ad_nextEvent = 1, ad_silences = [], ad_nextSilence = 1,
     ad_rules = [], ad_nextRule = 1, ad_channels = [], ad_nextChannel = 1, ad_deliveries = [], ad_nextDelivery = 1, ad_scenarios = [],
     ad_now = 1, ad_faults = [], ad_replies = [], ad_trace = []\<rparr>"

definition demo_usecase :: AlertUsecase where
  "demo_usecase = \<lparr>uc_repo = True, uc_investigator = True, uc_workflowDispatcher = True\<rparr>"

definition demo_saved :: AlertRule where
  "demo_saved = \<lparr>ar_ID = 1, ar_RuleKey = ''scrape_down'', ar_Kind = RuleKindMetricRaw, ar_Name = ''scrape'', ar_SourceType = [],
     ar_ScopeType = ''global'', ar_JoinMode = RuleJoinModeAll, ar_Severity = ''warning'', ar_Enabled = True, ar_ConditionsJSON = ''x'',
     ar_LabelsJSON = None, ar_AnnotationsJSON = None, ar_RunbookURL = None, ar_NotifyChannelIDsJSON = None, ar_NotifyWindowSeconds = 0,
     ar_NotifyMinFires = 0, ar_CreatedBy = None\<rparr>"

lemma demo_rule_created:
  "CreateRule (demo_rule_lib demo_conditions) demo_usecase demo_rule_input None alert_db0 = (Ok demo_saved, alert_db0\<lparr>ad_rules := [demo_saved], ad_nextRule := 2\<rparr>)"
  by code_simp

text \<open>The rule was asked for as disabled.\<close>

theorem saved_rule_evaluated_witness:
  "\<not> ri_Enabled demo_rule_input \<and> ar_Enabled demo_saved \<and>
   (\<exists>sn. fst (rules_Refresh (demo_rule_lib demo_conditions) (alert_db0\<lparr>ad_rules := [demo_saved], ad_nextRule := 2, ad_faults := []\<rparr>)) = Ok sn \<and>
     ''scrape_down'' \<in> set (snapshot_keys sn))"
proof -
  have k: "NormalizeKind (ri_Kind demo_rule_input) = RuleKindMetricRaw" by code_simp
  have "RuleKindMetricRaw \<notin> verbatim_kinds" "\<not> lossy_spec (demo_rule_lib demo_conditions) RuleKindMetricRaw (ri_Spec demo_rule_input)"
    by (simp_all add: verbatim_kinds_def lossy_spec_def kind_defs)
  moreover have "conditions_value (demo_rule_lib demo_conditions) RuleKindMetricRaw demo_rule_input = Ok demo_conditions" "json_utf8 demo_conditions"
    by code_simp+
  moreover have "\<not> ri_Enabled demo_rule_input" by code_simp
  ultimately show ?thesis
    using saved_rule_evaluated[OF demo_rule_lib_ok demo_rule_created, unfolded k] by (simp add: demo_saved_def)
qed

section \<open>Editing a rule\<close>

lemma find_map_same: "(\<And>x. P (f x) = P x) \<Longrightarrow> find P (map f xs) = map_option f (find P xs)"
  by (induction xs) auto

lemma GetRuleByID_Ok:
  assumes "GetRuleByID i db = (Ok r, db')"
  obtains "find_rule db i = Some r" "ad_rules db' = ad_rules db"
  using assms unfolding GetRuleByID_def by (elim astmt_Ok) (auto simp: found_def find_rule_def split: option.splits)

lemma repo_UpdateRule_Ok:
  assumes "repo_UpdateRule i x db = (Ok (), db')" "find_rule db i = Some old"
  shows "\<exists>r. find_rule db' i = Some r \<and> ar_Kind r = ar_Kind old \<and> ar_RuleKey r = ar_RuleKey old \<and> ar_ConditionsJSON r = ar_ConditionsJSON x"
  using assms unfolding repo_UpdateRule_def
  by (elim astmt_Ok) (auto simp: update_rule_def find_rule_def find_map_same dest: find_Some_mem split: if_splits)

lemma UpdateRule_Ok:
  assumes "UpdateRule rl u i ri db = (Ok row, db')" "find_rule db i = Some old"
  obtains new where "buildRuleRow rl ri False = Ok new" "ar_Kind row = ar_Kind old" "ar_RuleKey row = ar_RuleKey old"
    "ar_ConditionsJSON row = ar_ConditionsJSON new"
proof -
  from assms(1) obtain ex db1 new db2 where g: "GetRuleByID i db = (Ok ex, db1)" and n: "buildRuleRow rl ri False = Ok new"
    and w: "repo_UpdateRule i (new\<lparr>ar_ID := ar_ID ex, ar_RuleKey := ar_RuleKey ex, ar_SourceType := ar_SourceType ex\<rparr>) db1 = (Ok (), db2)"
    and g2: "GetRuleByID i db2 = (Ok row, db')"
    by (auto simp: UpdateRule_def abind_def araise_def dest!: when_wired_Ok split: if_splits sum.splits prod.splits)
  from g have "ad_rules db1 = ad_rules db" by (rule GetRuleByID_Ok)
  with assms(2) have "find_rule db1 i = Some old" by (simp add: find_rule_def)
  from repo_UpdateRule_Ok[OF w this] g2 that n show ?thesis by (auto elim!: GetRuleByID_Ok)
qed

lemma TrimSpace_empty: "TrimSpace [] = []"
  by code_simp

text \<open>
  C38. Editing a rule never changes its kind, but does replace its conditions: when a forecast is edited into a raw
  metric rule, the edit succeeds and the rule is not evaluated any more.
\<close>

theorem edited_kind_is_lost:
  assumes "rule_json_ok rl" "find_rule db i = Some old" "ar_Kind old = RuleKindMetricForecast"
    "NormalizeKind (ri_Kind ri) = RuleKindMetricRaw" "UpdateRule rl u i ri db = (Ok row, db')"
  shows "ar_Kind row = RuleKindMetricForecast \<and> \<not> rule_active rl row"
proof -
  from assms(5,2) obtain new where n: "buildRuleRow rl ri False = Ok new" "ar_Kind row = ar_Kind old" "ar_ConditionsJSON row = ar_ConditionsJSON new"
    by (rule UpdateRule_Ok)
  from n(1) have "buildConditionsJSON rl RuleKindMetricRaw ri = Ok (ar_ConditionsJSON new)" using assms(4) by (metis buildRuleRow_Ok)
  then obtain e where e: "marshal_spec rl (JObj [(''expr'', JStr e)]) = Ok (ar_ConditionsJSON row)"
    using n(3) by (auto simp: buildConditionsJSON_def conditions_value_def Let_def kinds_distinct kinds_distinct[symmetric] split: if_splits)
  have "compileMetricForecastRule rl row = None"
  proof (cases "ar_RuleKey row = []")
    case True
    then show ?thesis by (simp add: compileMetricForecastRule_def rule_spec_def)
  next
    case False
    have "plain_names [''expr'']" by code_simp
    with rule_spec_saved[OF assms(1) e refl False] show ?thesis
      by (simp add: compileMetricForecastRule_def compile_eval TrimSpace_empty)
  qed
  moreover have "NormalizeKind RuleKindMetricForecast = RuleKindMetricForecast" by code_simp
  ultimately show ?thesis using n(2) assms(3) by (simp add: snapshot_eval kind_defs)
qed

definition demo_forecast :: AlertRule where
  "demo_forecast = demo_saved\<lparr>ar_Kind := RuleKindMetricForecast, ar_ConditionsJSON := ''old''\<rparr>"

theorem edited_kind_is_lost_witness:
  "ar_Kind (demo_saved\<lparr>ar_Kind := RuleKindMetricForecast\<rparr>) = RuleKindMetricForecast \<and>
   \<not> rule_active (demo_rule_lib demo_conditions) (demo_saved\<lparr>ar_Kind := RuleKindMetricForecast\<rparr>)"
proof -
  let ?ri = "demo_rule_input\<lparr>ri_Enabled := True\<rparr>"
  let ?db = "alert_db0\<lparr>ad_rules := [demo_forecast]\<rparr>"
  have "find_rule ?db 1 = Some demo_forecast" "ar_Kind demo_forecast = RuleKindMetricForecast"
    by (simp_all add: find_rule_def demo_forecast_def demo_saved_def)
  moreover have "NormalizeKind (ri_Kind ?ri) = RuleKindMetricRaw" by code_simp
  moreover have "fst (UpdateRule (demo_rule_lib demo_conditions) demo_usecase 1 ?ri ?db) = Ok (demo_saved\<lparr>ar_Kind := RuleKindMetricForecast\<rparr>)"
    by code_simp
  then obtain db' where "UpdateRule (demo_rule_lib demo_conditions) demo_usecase 1 ?ri ?db = (Ok (demo_saved\<lparr>ar_Kind := RuleKindMetricForecast\<rparr>), db')"
    by (metis prod.collapse)
  ultimately show ?thesis by (rule edited_kind_is_lost[OF demo_rule_lib_ok(1)])
qed

end
