(* ===== verification/Alert_Notify.thy ===== *)
theory Alert_Notify
  imports Alert_Usecase
begin

text \<open>
  Notifications: the router of senders (\<^verbatim>\<open>internal/pkg/notify/notify.go\<close>), which channels an incident goes to
  (\<^verbatim>\<open>biz/alert/router.go\<close>), what suppresses it (\<^verbatim>\<open>inhibit.go\<close>), \<^verbatim>\<open>MaybeNotify\<close> and the deliveries of
  \<^verbatim>\<open>usecase.go\<close>, and the worker that tries failed deliveries again (\<^verbatim>\<open>retry.go\<close>). A sender is its kind, name,
  endpoint and secret; sending adds to the trace and takes the next answer.
\<close>

section \<open>Senders\<close>

record notify_router =
  nr_enabled :: bool
  nr_defaults :: "string list"
  nr_channels :: "string list"

type_synonym send_op = "alert_db \<Rightarrow> string option \<times> alert_db"

definition wire :: "sender \<Rightarrow> Message \<Rightarrow> send_op" where
  "wire s msg db = (case ad_replies db of
     [] \<Rightarrow> (None, db\<lparr>ad_trace := ad_trace db @ [Sent s msg None]\<rparr>)
   | r # rs \<Rightarrow> (r, db\<lparr>ad_trace := ad_trace db @ [Sent s msg r], ad_replies := rs\<rparr>))"

definition message_defaults :: "Message \<Rightarrow> instant \<Rightarrow> Message" where
  "message_defaults msg now = msg\<lparr>nm_Severity := (if nm_Severity msg = [] then ''info'' else nm_Severity msg),
     nm_OccurredAt := (if nm_OccurredAt msg = 0 then now else nm_OccurredAt msg)\<rparr>"

definition join_errors :: "string option \<Rightarrow> string option \<Rightarrow> string option" where
  "join_errors a b = (case a of None \<Rightarrow> b | Some x \<Rightarrow> (case b of None \<Rightarrow> a | Some y \<Rightarrow> Some (x @ [LF] @ y)))"

fun send_names :: "notify_router \<Rightarrow> Message \<Rightarrow> string list \<Rightarrow> send_op" where
  "send_names r msg [] db = (None, db)"
| "send_names r msg (n # ns) db =
    (let (e, db1) = (if n \<in> set (nr_channels r)
        then (let (e, db1) = wire (NamedSender n) msg db
              in (case e of None \<Rightarrow> None | Some x \<Rightarrow> Some (''notify: channel '' @ [DQUOTE] @ n @ [DQUOTE] @ '': '' @ x), db1))
        else (Some (''notify: channel '' @ [DQUOTE] @ n @ [DQUOTE] @ '' not configured''), db));
       (e', db2) = send_names r msg ns db1
     in (join_errors e e', db2))"

definition Router_Send :: "notify_router \<Rightarrow> Message \<Rightarrow> string list \<Rightarrow> send_op" where
  "Router_Send r msg names db =
    (if \<not> nr_enabled r then (None, db)
     else if nm_Subject msg = [] then (Some ''notify: subject required'', db)
     else let ns = (if names = [] then nr_defaults r else names) in
       if ns = [] then (Some ''notify: no channels configured'', db)
       else send_names r (message_defaults msg (ad_now db)) ns db)"

definition Router_SendVia :: "notify_router \<Rightarrow> Message \<Rightarrow> sender \<Rightarrow> send_op" where
  "Router_SendVia r msg s db =
    (if \<not> nr_enabled r then (None, db)
     else if nm_Subject msg = [] then (Some ''notify: subject required'', db)
     else wire s (message_defaults msg (ad_now db)) db)"

definition channel_Config :: "alert_lib \<Rightarrow> Channel \<Rightarrow> labels option" where
  "channel_Config al ch = (if ch_ConfigJSON ch = [] then Some [] else al_labels al (ch_ConfigJSON ch))"

definition channelHasDestination :: "alert_lib \<Rightarrow> Channel \<Rightarrow> bool" where
  "channelHasDestination al ch = (case channel_Config al ch of None \<Rightarrow> False
     | Some cfg \<Rightarrow> TrimSpace (label_at cfg ''endpoint'') \<noteq> [] \<or> TrimSpace (label_at cfg ''url'') \<noteq> [])"

definition channel_types :: "string list" where
  "channel_types = [''slack'', ''feishu'', ''dingtalk'', ''wecom'', ''telegram'', ''webhook'']"

definition BuildSenderFromChannel :: "alert_lib \<Rightarrow> Channel \<Rightarrow> (string, sender) result" where
  "BuildSenderFromChannel al ch = (case channel_Config al ch of
     None \<Rightarrow> Err ''decode channel config''
   | Some cfg \<Rightarrow>
     let endpoint = (let e = TrimSpace (label_at cfg ''endpoint'') in if e = [] then TrimSpace (label_at cfg ''url'') else e);
         secret = TrimSpace (label_at cfg ''secret'');
         ty = ch_ChannelType ch
     in if endpoint = [] then Err (''channel '' @ [DQUOTE] @ ch_Name ch @ [DQUOTE] @ '' has no endpoint'')
        else if ty = [] then Ok (TypedSender ''webhook'' (ch_Name ch) endpoint secret)
        else if ty \<in> {''slack'', ''wecom''} then Ok (TypedSender ty (ch_Name ch) endpoint [])
        else if ty \<in> set channel_types then Ok (TypedSender ty (ch_Name ch) endpoint secret)
        else Err (''unknown channel type '' @ [DQUOTE] @ ty @ [DQUOTE]))"

section \<open>Which channels\<close>

record DBChannelResolver =
  dr_fallback :: "string list"
  dr_rules :: bool

definition blank_channel :: Channel where
  "blank_channel = \<lparr>ch_ID = 0, ch_Name = [], ch_ChannelType = [], ch_Enabled = False, ch_ConfigJSON = [],
     ch_MatchSeverityMin = [], ch_MatchScopeTypes = [], ch_DeletedAt = None\<rparr>"

definition synthetic :: "string list \<Rightarrow> Channel list" where
  "synthetic names = map (\<lambda>n. blank_channel\<lparr>ch_Name := n, ch_Enabled := True\<rparr>) (filter (\<lambda>n. n \<noteq> []) names)"

definition channel_severityRank :: "string \<Rightarrow> nat" where
  "channel_severityRank s = (let l = ToLower s in if l = ''critical'' then 3 else if l = ''warning'' then 2 else if l = ''info'' then 1 else 0)"

definition severityAtLeast :: "string \<Rightarrow> string \<Rightarrow> bool" where
  "severityAtLeast actual least = (channel_severityRank actual \<ge> channel_severityRank least)"

definition splitCSV :: "string \<Rightarrow> string list" where
  "splitCSV s = filter (\<lambda>p. p \<noteq> []) (map TrimSpace (SplitByte (CHR '','') s))"

definition channelMatches :: "Channel \<Rightarrow> Incident \<Rightarrow> bool" where
  "channelMatches ch inc = ((ch_MatchSeverityMin ch = [] \<or> severityAtLeast (ai_Severity inc) (ch_MatchSeverityMin ch)) \<and>
     (ch_MatchScopeTypes ch = [] \<or> ai_ScopeType inc \<in> set (splitCSV (ch_MatchScopeTypes ch))))"

definition pinnedIDs :: "alert_lib \<Rightarrow> DBChannelResolver \<Rightarrow> Incident \<Rightarrow> nat list alert_op" where
  "pinnedIDs al r inc =
    (if \<not> dr_rules r \<or> ai_Rule inc = [] then areturn []
     else atry (GetRuleByKey (ai_Rule inc)) (\<lambda>res. case res of
         Err _ \<Rightarrow> areturn []
       | Ok rule \<Rightarrow> (case ar_NotifyChannelIDsJSON rule of
             None \<Rightarrow> areturn []
           | Some s \<Rightarrow> if s = [] then areturn [] else (case al_ids al s of None \<Rightarrow> areturn [] | Some ids \<Rightarrow> areturn ids))))"

definition ChannelsFor :: "alert_lib \<Rightarrow> DBChannelResolver \<Rightarrow> Incident \<Rightarrow> Channel list alert_op" where
  "ChannelsFor al r inc = atry ListEnabledChannels (\<lambda>res. case res of
     Err _ \<Rightarrow> areturn (synthetic (dr_fallback r))
   | Ok rows \<Rightarrow> abind (pinnedIDs al r inc) (\<lambda>pinned.
       let chosen = filter (\<lambda>ch. ch_Enabled ch \<and> ch_ID ch \<in> set pinned) rows;
           matched = filter (\<lambda>ch. ch_Enabled ch \<and> channelMatches ch inc) rows
       in if chosen \<noteq> [] then areturn chosen
          else if matched = [] then areturn (synthetic (dr_fallback r)) else areturn matched))"

section \<open>Inhibition\<close>

definition activeIncident :: "string \<Rightarrow> Incident option alert_op" where
  "activeIncident key = atry (GetIncidentByDedupeKey key) (\<lambda>r. case r of
     Err _ \<Rightarrow> areturn None
   | Ok i \<Rightarrow> areturn (if ai_Status i = IncidentStatusResolved then None else Some i))"

definition Suppress :: "Incident \<Rightarrow> string option alert_op" where
  "Suppress inc =
    (if ai_ScopeType inc = RuleScopeHost \<and> ai_Rule inc \<noteq> ''edge_offline'' \<and> ai_DeviceID inc \<noteq> None
     then abind (activeIncident (''host:'' @ dec (the (ai_DeviceID inc)) @ '':edge_offline'')) (\<lambda>a. case a of
         Some i \<Rightarrow> areturn (Some (''inhibited by edge_offline incident #'' @ dec (ai_ID i)))
       | None \<Rightarrow> areturn None)
     else if ai_ScopeType inc = RuleScopeMonitoringPipeline \<and> HasPrefix (ai_DedupeKey inc) ''pipeline:scrape_down:''
     then abind (activeIncident ''pipeline:prom_ingest_fail'') (\<lambda>a. case a of
         Some i \<Rightarrow> areturn (Some (''inhibited by prom_ingest_fail incident #'' @ dec (ai_ID i)))
       | None \<Rightarrow> areturn None)
     else areturn None)"

section \<open>Deliveries\<close>

definition RecordRepeatSuppressed :: "nat \<Rightarrow> instant \<Rightarrow> string \<Rightarrow> unit alert_op" where
  "RecordRepeatSuppressed i t reason = anow (\<lambda>now.
     createEvent (blank_event\<lparr>ae_IncidentID := i, ae_EventType := EventTypeRepeatSuppressed, ae_StatusAfter := IncidentStatusOpen,
       ae_ActorType := ActorTypeSystem, ae_Reason := reason, ae_OccurredAt := (if t = 0 then now else t)\<rparr>))"

definition MarkNotified :: "nat \<Rightarrow> instant \<Rightarrow> unit alert_op" where
  "MarkNotified i t = anow (\<lambda>now. MarkIncidentNotified i (if t = 0 then now else t))"

definition RecordDelivery :: "nat \<Rightarrow> nat \<Rightarrow> nat alert_op" where
  "RecordDelivery i ch = CreateDelivery \<lparr>dl_ID = 0, dl_IncidentID = Some i, dl_ChannelID = ch, dl_Status = DeliveryStatusPending,
     dl_AttemptCount = 1, dl_ErrorMessage = None, dl_SentAt = None, dl_FinishedAt = None\<rparr>"

definition FinishDelivery :: "nat \<Rightarrow> nat \<Rightarrow> string \<Rightarrow> string option \<Rightarrow> instant \<Rightarrow> unit alert_op" where
  "FinishDelivery d i name sendErr t0 = anow (\<lambda>now. let t = (if t0 = 0 then now else t0) in
     abind (UpdateDeliveryStatus d (if sendErr = None then DeliveryStatusSuccess else DeliveryStatusFailed) 1 sendErr (Some t) (Some t)) (\<lambda>_.
     createEvent (blank_event\<lparr>ae_IncidentID := i,
       ae_EventType := (if sendErr = None then EventTypeNotificationSent else EventTypeNotificationFailed),
       ae_StatusAfter := IncidentStatusOpen, ae_ActorType := ActorTypeSystem,
       ae_Reason := (case sendErr of None \<Rightarrow> name | Some e \<Rightarrow> name @ '': '' @ e), ae_OccurredAt := t\<rparr>)))"

section \<open>The gate\<close>

record NotifyOpts =
  no_Notifier :: "notify_router option"
  no_Resolver :: "DBChannelResolver option"
  no_DefaultChannels :: "string list"
  no_Cooldown :: int
  no_Inhibitor :: bool

definition CooldownExceeded :: "Incident \<Rightarrow> int \<Rightarrow> instant \<Rightarrow> bool" where
  "CooldownExceeded inc cooldown now = (cooldown \<le> 0 \<or> (case ai_LastNotifiedAt inc of
     None \<Rightarrow> True | Some t \<Rightarrow> t = 0 \<or> now - t \<ge> cooldown))"

definition lookupRuleForIncident :: "Incident \<Rightarrow> AlertRule option alert_op" where
  "lookupRuleForIncident inc =
    (if ai_Rule inc = [] then areturn None
     else atry (GetRuleByKey (ai_Rule inc)) (\<lambda>r. case r of Err _ \<Rightarrow> areturn None | Ok rule \<Rightarrow> areturn (Some rule)))"

text \<open>The number of fires in the window of the rule's send policy, when it is below what the policy asks for.\<close>

definition dampened :: "Incident \<Rightarrow> instant \<Rightarrow> (nat \<times> AlertRule) option alert_op" where
  "dampened inc t = abind (lookupRuleForIncident inc) (\<lambda>rule. case rule of
     None \<Rightarrow> areturn None
   | Some rule \<Rightarrow>
     if ar_NotifyWindowSeconds rule > 0 \<and> ar_NotifyMinFires rule > 0
     then atry (CountEventsByType EventTypeFiring (t - ar_NotifyWindowSeconds rule * nanos) (ai_Rule inc) []) (\<lambda>r. case r of
         Err _ \<Rightarrow> areturn None
       | Ok count \<Rightarrow> areturn (if int count < ar_NotifyMinFires rule then Some (count, rule) else None))
     else areturn None)"

definition resolve_names :: "string list \<Rightarrow> Channel list alert_op" where
  "resolve_names names = foldr (\<lambda>n rest. if n = [] then rest
     else atry (GetChannelByName n) (\<lambda>r. abind rest (\<lambda>cs. areturn ((case r of
         Err _ \<Rightarrow> blank_channel\<lparr>ch_Name := n, ch_Enabled := True\<rparr> | Ok ch \<Rightarrow> ch) # cs)))) names (areturn [])"

definition resolveChannels :: "alert_lib \<Rightarrow> Incident \<Rightarrow> NotifyOpts \<Rightarrow> Channel list alert_op" where
  "resolveChannels al inc opts = (case no_Resolver opts of
     Some r \<Rightarrow> ChannelsFor al r inc
   | None \<Rightarrow> resolve_names (no_DefaultChannels opts))"

definition channel_usable :: "alert_lib \<Rightarrow> Channel \<Rightarrow> bool" where
  "channel_usable al ch = (ch_Name ch \<noteq> [] \<and> ch_Enabled ch \<and> (ch_ID ch > 0 \<longrightarrow> channelHasDestination al ch))"

definition channel_send :: "alert_lib \<Rightarrow> notify_router \<Rightarrow> Message \<Rightarrow> Channel \<Rightarrow> send_op" where
  "channel_send al r msg ch db =
    (if ch_ID ch > 0 then (case BuildSenderFromChannel al ch of Err e \<Rightarrow> (Some e, db) | Ok s \<Rightarrow> Router_SendVia r msg s db)
     else Router_Send r msg [ch_Name ch] db)"

text \<open>A step of the loop over the channels; the result tells whether the send succeeded.\<close>

definition notify_channel :: "alert_lib \<Rightarrow> notify_router \<Rightarrow> Message \<Rightarrow> nat \<Rightarrow> instant \<Rightarrow> Channel \<Rightarrow> bool alert_op" where
  "notify_channel al r msg i t ch =
    (if \<not> channel_usable al ch then areturn False
     else atry (if ch_ID ch > 0 then RecordDelivery i (ch_ID ch) else areturn 0) (\<lambda>d db.
       let (sendErr, db1) = channel_send al r msg ch db in
       atry (case d of Ok d \<Rightarrow> if d > 0 then FinishDelivery d i (ch_Name ch) sendErr t else areturn () | Err _ \<Rightarrow> areturn ())
         (\<lambda>_. areturn (sendErr = None)) db1))"

fun notify_channels :: "alert_lib \<Rightarrow> notify_router \<Rightarrow> Message \<Rightarrow> nat \<Rightarrow> instant \<Rightarrow> Channel list \<Rightarrow> bool alert_op" where
  "notify_channels al r msg i t [] = areturn False"
| "notify_channels al r msg i t (ch # chs) = abind (notify_channel al r msg i t ch) (\<lambda>sent.
     abind (notify_channels al r msg i t chs) (\<lambda>later. areturn (sent \<or> later)))"

definition notify_all :: "alert_lib \<Rightarrow> notify_router \<Rightarrow> Message \<Rightarrow> Incident \<Rightarrow> instant \<Rightarrow> NotifyOpts \<Rightarrow> unit alert_op" where
  "notify_all al r msg inc t opts = abind (resolveChannels al inc opts) (\<lambda>channels.
     abind (notify_channels al r msg (ai_ID inc) t channels) (\<lambda>anySuccess.
     if anySuccess then atry (MarkNotified (ai_ID inc) t) (\<lambda>_. areturn ()) else areturn ()))"

text \<open>The gates after the cooldown: the send policy of the rule, then inhibition.\<close>

definition gated_notify :: "alert_lib \<Rightarrow> notify_router \<Rightarrow> Message \<Rightarrow> Incident \<Rightarrow> instant \<Rightarrow> NotifyOpts \<Rightarrow> unit alert_op" where
  "gated_notify al r msg inc t opts = abind (dampened inc t) (\<lambda>few. case few of
     Some (count, rule) \<Rightarrow> atry (RecordRepeatSuppressed (ai_ID inc) t (''dampened: '' @ dec count @ ''/''
         @ dec (nat (ar_NotifyMinFires rule)) @ '' fires in '' @ dec (nat (ar_NotifyWindowSeconds rule)) @ ''s window'')) (\<lambda>_. areturn ())
   | None \<Rightarrow> abind (if no_Inhibitor opts then Suppress inc else areturn None) (\<lambda>inhibited. case inhibited of
       Some reason \<Rightarrow> atry (createEvent (blank_event\<lparr>ae_IncidentID := ai_ID inc, ae_EventType := EventTypeInhibited,
           ae_StatusAfter := ai_Status inc, ae_Severity := ai_Severity inc, ae_Title := ai_Title inc,
           ae_ActorType := ActorTypeSystem, ae_Reason := reason, ae_OccurredAt := t\<rparr>)) (\<lambda>_. areturn ())
     | None \<Rightarrow> notify_all al r msg inc t opts))"

definition MaybeNotify :: "alert_lib \<Rightarrow> AlertUsecase \<Rightarrow> FiringResult \<Rightarrow> Message \<Rightarrow> NotifyOpts \<Rightarrow> unit alert_op" where
  "MaybeNotify al u res msg opts =
    (if \<not> uc_repo u then areturn () else case no_Notifier opts of None \<Rightarrow> areturn ()
     | Some r \<Rightarrow> if fr_Silenced res then areturn ()
     else anow (\<lambda>now. let t = (if nm_OccurredAt msg = 0 then now else nm_OccurredAt msg); inc = fr_Incident res in
       if \<not> CooldownExceeded inc (no_Cooldown opts) t
       then atry (RecordRepeatSuppressed (ai_ID inc) t ''cooldown'') (\<lambda>_. areturn ())
       else gated_notify al r msg inc t opts))"

section \<open>Retries\<close>

record RetryWorker =
  rw_maxAttempts :: nat
  rw_backoffPerAttempt :: int

definition NewRetryWorker :: "nat \<Rightarrow> int \<Rightarrow> RetryWorker" where
  "NewRetryWorker attempts backoff = \<lparr>rw_maxAttempts = (if attempts = 0 then 5 else attempts),
     rw_backoffPerAttempt = (if backoff \<le> 0 then 60 * nanos else backoff)\<rparr>"

definition buildIncidentMessage :: "Incident \<Rightarrow> instant \<Rightarrow> Message" where
  "buildIncidentMessage inc now =
    \<lparr>nm_Subject = (if ai_Summary inc = [] then ai_Title inc else ai_Summary inc),
     nm_Severity = (if ai_Severity inc = [] then ''warning'' else ai_Severity inc), nm_Source = ai_ScopeType inc,
     nm_DedupeKey = ai_DedupeKey inc,
     nm_Labels = [(''rule'', ai_Rule inc), (''incident_id'', dec (ai_ID inc))]
       @ (case ai_DeviceID inc of None \<Rightarrow> [] | Some d \<Rightarrow> [(''device_id'', dec d)]),
     nm_OccurredAt = (if ai_LastFiredAt inc = 0 then now else ai_LastFiredAt inc)\<rparr>"

definition retry_backed_off :: "RetryWorker \<Rightarrow> instant \<Rightarrow> Delivery \<Rightarrow> bool" where
  "retry_backed_off w now d = (case dl_FinishedAt d of None \<Rightarrow> False
     | Some t \<Rightarrow> now - t < int (dl_AttemptCount d) * rw_backoffPerAttempt w)"

definition retry_reason :: "Channel \<Rightarrow> Delivery \<Rightarrow> string option \<Rightarrow> string" where
  "retry_reason ch d sendErr = ch_Name ch @ '': retry attempt '' @ dec (dl_AttemptCount d + 1)
     @ (case sendErr of None \<Rightarrow> [] | Some e \<Rightarrow> '': '' @ e)"

definition retry_send :: "notify_router \<Rightarrow> Delivery \<Rightarrow> Incident \<Rightarrow> Channel \<Rightarrow> instant \<Rightarrow> unit alert_op" where
  "retry_send r d incident ch now db =
    (let (sendErr, db1) = Router_Send r (buildIncidentMessage incident now) [ch_Name ch] db in
     atry (UpdateDeliveryStatus (dl_ID d) (if sendErr = None then DeliveryStatusSuccess else DeliveryStatusFailed)
         (dl_AttemptCount d + 1) sendErr (Some now) (Some now)) (\<lambda>_.
     atry (CreateEvent (blank_event\<lparr>ae_IncidentID := ai_ID incident,
         ae_EventType := (if sendErr = None then EventTypeNotificationSent else EventTypeNotificationFailed),
         ae_StatusAfter := ai_Status incident, ae_Severity := ai_Severity incident, ae_Title := ai_Title incident,
         ae_ActorType := ActorTypeSystem, ae_Reason := retry_reason ch d sendErr, ae_OccurredAt := now\<rparr>)) (\<lambda>_.
     if sendErr = None then atry (MarkIncidentNotified (ai_ID incident) now) (\<lambda>_. areturn ()) else areturn ())) db1)"

definition retryOne :: "RetryWorker \<Rightarrow> notify_router \<Rightarrow> instant \<Rightarrow> Delivery \<Rightarrow> unit alert_op" where
  "retryOne w r now d = (case dl_IncidentID d of None \<Rightarrow> areturn ()
     | Some i \<Rightarrow> if retry_backed_off w now d then areturn ()
     else atry (GetIncidentByID i) (\<lambda>res. case res of Err _ \<Rightarrow> areturn ()
     | Ok incident \<Rightarrow>
       if ai_Status incident = IncidentStatusResolved
       then atry (UpdateDeliveryStatus (dl_ID d) DeliveryStatusSuccess (dl_AttemptCount d + 1)
              (Some ''incident resolved before retry'') (Some now) (Some now)) (\<lambda>_. areturn ())
       else atry (GetChannelByID (dl_ChannelID d)) (\<lambda>res. case res of Err _ \<Rightarrow> areturn ()
       | Ok ch \<Rightarrow>
         if \<not> ch_Enabled ch
         then atry (UpdateDeliveryStatus (dl_ID d) DeliveryStatusFailed (rw_maxAttempts w)
                (Some (''channel '' @ [DQUOTE] @ ch_Name ch @ [DQUOTE] @ '' disabled'')) (dl_SentAt d) (Some now)) (\<lambda>_. areturn ())
         else retry_send r d incident ch now)))"

definition retry_runOnce :: "RetryWorker \<Rightarrow> notify_router \<Rightarrow> unit alert_op" where
  "retry_runOnce w r = anow (\<lambda>now.
     atry (ListRetriableDeliveries (rw_maxAttempts w) (now - rw_backoffPerAttempt w) 200) (\<lambda>res. case res of
       Err _ \<Rightarrow> areturn ()
     | Ok rows \<Rightarrow> aeach (retryOne w r now) rows))"

end
