(* ===== verification/Alert_Pipeline.thy ===== *)
theory Alert_Pipeline
  imports Alert_Compile Alert_Notify
begin

text \<open>
  The evaluator of alert rules (\<^verbatim>\<open>internal/manager/biz/alert/pipeline.go\<close>, \<^verbatim>\<open>evaluators_phaseA.go\<close>,
  \<^verbatim>\<open>evaluators_phaseB.go\<close>). A tick asks the metrics and log servers one question per rule; their answers are the
  arguments \<open>pq\<close> and \<open>lq\<close>, decoded as far as the code decodes them. Every series of an answer fires an incident; a
  series that fired at the last tick and is gone resolves its incident. \<open>pe_firing\<close> is the code's map from rules to
  the keys they fired; its keys are visited in the order of the list. Arithmetic and formatting of floats are
  in the record \<open>pipe_lib\<close>.
\<close>

section \<open>Answers\<close>

record pipe_lib = rule_lib +
  pl_ParseFloat :: "string \<Rightarrow> gofloat"
  pl_fmt_f :: "nat \<Rightarrow> gofloat \<Rightarrow> string"
  pl_sub :: "gofloat \<Rightarrow> gofloat \<Rightarrow> gofloat"
  pl_div :: "gofloat \<Rightarrow> gofloat \<Rightarrow> gofloat"

text \<open>
  A sample is a label set with the text of its value, \<open>None\<close> when it is missing or no string. A series of
  the log server has several samples; the inner \<open>None\<close> is one of fewer than two parts.
\<close>

datatype prom_answer = PromError | PromOther | PromUndecodable | PromVector "(labels \<times> string option) list"

datatype loki_answer = LokiError | LokiOther | LokiUndecodable | LokiMatrix "(labels \<times> string option option list) list"

record vectorEntry =
  ve_Labels :: labels
  ve_Value :: gofloat

definition the_text :: "string option \<Rightarrow> string" where
  "the_text v = (case v of None \<Rightarrow> [] | Some s \<Rightarrow> s)"

text \<open>The entries and whether the query failed.\<close>

definition runPromInstant :: "('x pipe_lib_scheme) \<Rightarrow> prom_answer \<Rightarrow> vectorEntry list option" where
  "runPromInstant pl a = (case a of PromError \<Rightarrow> None | PromUndecodable \<Rightarrow> None | PromOther \<Rightarrow> Some []
     | PromVector es \<Rightarrow> Some (map (\<lambda>(m, v). \<lparr>ve_Labels = m, ve_Value = pl_ParseFloat pl (the_text v)\<rparr>) es))"

definition runLokiInstant :: "('x pipe_lib_scheme) \<Rightarrow> loki_answer \<Rightarrow> vectorEntry list option" where
  "runLokiInstant pl a = (case a of LokiError \<Rightarrow> None | LokiUndecodable \<Rightarrow> None | LokiOther \<Rightarrow> Some []
     | LokiMatrix es \<Rightarrow> Some (concat (map (\<lambda>(m, vs). if vs = [] then [] else case last vs of None \<Rightarrow> []
         | Some v \<Rightarrow> [\<lparr>ve_Labels = m, ve_Value = pl_ParseFloat pl (the_text v)\<rparr>]) es)))"

definition parseFloat :: "('x pipe_lib_scheme) \<Rightarrow> string \<Rightarrow> gofloat option" where
  "parseFloat pl s = (if s = [] then None else rl_Sscanf pl s)"

definition promFirstNumeric :: "('x pipe_lib_scheme) \<Rightarrow> string option \<Rightarrow> gofloat option" where
  "promFirstNumeric pl v = (case v of None \<Rightarrow> None | Some s \<Rightarrow> parseFloat pl s)"

definition compareFloat :: "gofloat \<Rightarrow> string \<Rightarrow> gofloat \<Rightarrow> bool" where
  "compareFloat v op thr =
    (if op = ''>'' then flt_less thr v else if op = ''>='' then flt_less thr v \<or> flt_eq v thr
     else if op = ''<'' then flt_less v thr else if op = ''<='' then flt_less v thr \<or> flt_eq v thr
     else if op = ''=='' then flt_eq v thr else if op = ''!='' then \<not> flt_eq v thr else False)"

section \<open>Labels\<close>

definition nonIdentityLabels :: "string list" where
  "nonIdentityLabels = [''__name__'', ''opskeeper_source'']"

text \<open>The source's insertion sort on the names, as insertion into a sorted list.\<close>

definition labelSetKey :: "labels \<Rightarrow> string" where
  "labelSetKey m = (let ks = order_rows str_less (filter (\<lambda>k. k \<notin> set nonIdentityLabels) (map fst m)) in
     if ks = [] then ''_'' else join_with '','' (map (\<lambda>k. k @ ''='' @ label_at m k) ks))"

definition label_put :: "labels \<Rightarrow> string \<times> string \<Rightarrow> labels" where
  "label_put m kv = filter (\<lambda>(k, _). k \<noteq> fst kv) m @ [kv]"

definition mergeLabels :: "labels list \<Rightarrow> labels" where
  "mergeLabels layers = foldl label_put [] (filter (\<lambda>(k, _). k \<noteq> ''__name__'') (concat layers))"

definition ruleSev :: "string \<Rightarrow> string \<Rightarrow> string" where
  "ruleSev s def = (if s \<noteq> [] then s else def)"

definition ParseUint64 :: "string \<Rightarrow> nat option" where
  "ParseUint64 s = (if s \<noteq> [] \<and> list_all is_digit s \<and> dec_value s < 2 ^ 64 then Some (dec_value s) else None)"

definition device_of :: "string \<Rightarrow> nat option" where
  "device_of raw = (case ParseUint64 raw of None \<Rightarrow> None | Some i \<Rightarrow> if i = 0 then None else Some i)"

definition deviceIDFromLabels :: "labels \<Rightarrow> nat option" where
  "deviceIDFromLabels m = device_of (TrimSpace (label_at m ''device_id''))"

section \<open>The evaluator\<close>

record pipeline =
  pe_usecase :: AlertUsecase
  pe_opts :: NotifyOpts
  pe_firing :: "(string \<times> string list) list"

definition NewPipelineEvaluator :: "AlertUsecase \<Rightarrow> NotifyOpts \<Rightarrow> pipeline" where
  "NewPipelineEvaluator u opts = \<lparr>pe_usecase = u,
     pe_opts = opts\<lparr>no_Cooldown := (if no_Cooldown opts \<le> 0 then 600 * nanos else no_Cooldown opts)\<rparr>, pe_firing = []\<rparr>"

definition notify_message :: "Incident \<Rightarrow> string \<Rightarrow> string \<Rightarrow> instant \<Rightarrow> Message" where
  "notify_message inc summary source t =
    \<lparr>nm_Subject = summary, nm_Severity = (if ai_Severity inc = [] then ''warning'' else ai_Severity inc), nm_Source = source,
     nm_DedupeKey = ai_DedupeKey inc,
     nm_Labels = [(''rule'', ai_Rule inc), (''incident_id'', dec (ai_ID inc))]
       @ (case ai_DeviceID inc of None \<Rightarrow> [] | Some d \<Rightarrow> [(''device_id'', dec d)]),
     nm_OccurredAt = t\<rparr>"

definition pipeline_notify :: "('x pipe_lib_scheme) \<Rightarrow> pipeline \<Rightarrow> FiringResult \<Rightarrow> string \<Rightarrow> string \<Rightarrow> instant \<Rightarrow> unit alert_op" where
  "pipeline_notify pl e res summary source t =
    MaybeNotify (alert_lib.truncate pl) (pe_usecase e) res (notify_message (fr_Incident res) summary source t) (pe_opts e)"

text \<open>Firing one entry: the firing is recorded and, unless that failed, notified.\<close>

definition fire_one :: "('x pipe_lib_scheme) \<Rightarrow> pipeline \<Rightarrow> FiringInput \<Rightarrow> unit alert_op" where
  "fire_one pl e fi = atry (RecordFiring (alert_lib.truncate pl) (pe_usecase e) fi) (\<lambda>r. case r of
     Err _ \<Rightarrow> areturn ()
   | Ok res \<Rightarrow> pipeline_notify pl e res (fi_Summary fi) (fi_ScopeType fi) (fi_OccurredAt fi))"

definition base_input :: "('y RuleBase_scheme) \<Rightarrow> string \<Rightarrow> labels \<Rightarrow> string \<Rightarrow> instant \<Rightarrow> FiringInput" where
  "base_input rule scope m summary now =
    \<lparr>fi_ScopeType = scope, fi_Scope = scope, fi_Rule = rb_RuleKey rule, fi_RuleName = rb_Name rule,
     fi_Severity = ruleSev (rb_Severity rule) ''warning'', fi_DeviceID = None, fi_OccurredAt = now,
     fi_DedupeKey = ''pipeline:'' @ rb_RuleKey rule @ '':'' @ labelSetKey m, fi_SourceType = [], fi_Title = summary, fi_Summary = summary,
     fi_Description = [], fi_Value = None, fi_Threshold = None,
     fi_Labels = mergeLabels [rb_Labels rule, m, [(''rule'', rb_RuleKey rule), (''trigger'', ''ticker'')]],
     fi_Annotations = [], fi_RunbookURL = rb_RunbookURL rule\<rparr>"

definition prev_keys :: "pipeline \<Rightarrow> string \<Rightarrow> string list" where
  "prev_keys e rule = (case map_of (pe_firing e) rule of None \<Rightarrow> [] | Some ks \<Rightarrow> ks)"

text \<open>The keys that fired are remembered, whether or not the incidents of the others could be resolved.\<close>

definition sweepRecovery :: "pipeline \<Rightarrow> string \<Rightarrow> string list \<Rightarrow> string \<Rightarrow> instant \<Rightarrow> alert_db \<Rightarrow> pipeline \<times> alert_db" where
  "sweepRecovery e rule fired reason now db =
    (e\<lparr>pe_firing := (rule, fired) # filter (\<lambda>(k, _). k \<noteq> rule) (pe_firing e)\<rparr>,
     snd (aeach (\<lambda>k. abind (SystemResolveIncident (pe_usecase e) k reason now) (\<lambda>_. areturn ()))
       (filter (\<lambda>k. k \<notin> set fired) (prev_keys e rule)) db))"

definition fire_and_sweep :: "('x pipe_lib_scheme) \<Rightarrow> string \<Rightarrow> string \<Rightarrow> FiringInput list \<Rightarrow> instant \<Rightarrow> pipeline \<Rightarrow> alert_db \<Rightarrow> pipeline \<times> alert_db" where
  "fire_and_sweep pl rule reason inputs now e db =
    sweepRecovery e rule (remdups (map fi_DedupeKey inputs)) reason now (snd (aeach (fire_one pl e) inputs db))"

section \<open>Raw metric rules\<close>

definition sym_implies :: string where "sym_implies = [CHR 0xE2, CHR 0x87, CHR 0x92]"

definition raw_input :: "('x pipe_lib_scheme) \<Rightarrow> MetricRawRule \<Rightarrow> instant \<Rightarrow> labels \<times> string option \<Rightarrow> FiringInput" where
  "raw_input pl rule now ent = (let (m, v) = ent; scope = effectiveScope (rb_ScopeType rule) RuleKindMetricRaw; valStr = the_text v;
       summary = rb_RuleKey rule @ '': '' @ mr_Expr rule @ '' '' @ sym_implies @ '' '' @ labelSetKey m @ '' (value='' @ valStr @ '')''
     in (base_input rule scope m summary now)\<lparr>fi_DeviceID := (if scope = RuleScopeHost then device_of (label_at m ''device_id'') else None),
          fi_Value := parseFloat pl valStr\<rparr>)"

definition evaluate_raw :: "('x pipe_lib_scheme) \<Rightarrow> (string \<Rightarrow> prom_answer) \<Rightarrow> instant \<Rightarrow> MetricRawRule \<Rightarrow> pipeline \<times> alert_db \<Rightarrow> pipeline \<times> alert_db" where
  "evaluate_raw pl pq now rule s = (case pq (mr_Expr rule) of
     PromVector samples \<Rightarrow> fire_and_sweep pl (rb_RuleKey rule) ''prom condition cleared'' (map (raw_input pl rule now) samples) now (fst s) (snd s)
   | _ \<Rightarrow> s)"

definition evaluatePromQuery :: "('x pipe_lib_scheme) \<Rightarrow> rulesSnapshot \<Rightarrow> (string \<Rightarrow> prom_answer) \<Rightarrow> instant \<Rightarrow> pipeline \<times> alert_db \<Rightarrow> pipeline \<times> alert_db" where
  "evaluatePromQuery pl sn pq now s = fold (evaluate_raw pl pq now) (sn_metricRaw sn) s"

section \<open>Anomalies and forecasts\<close>

definition normalizePromSelectorFragment :: "string \<Rightarrow> string" where
  "normalizePromSelectorFragment s0 = (let s1 = TrimSpace s0; s2 = (if HasPrefix s1 ''{'' then tl s1 else s1);
     s3 = (if HasSuffix s2 ''}'' then butlast s2 else s2) in TrimSpace s3)"

definition splitPromSelectorFragment :: "string \<Rightarrow> string list" where
  "splitPromSelectorFragment s = (let t = normalizePromSelectorFragment s in if t = [] then []
     else filter (\<lambda>p. p \<noteq> []) (map TrimSpace (SplitByte (CHR '','') t)))"

definition promMatcherKey :: "string \<Rightarrow> string" where
  "promMatcherKey m0 = (let m = TrimSpace m0 in if m = [] then []
     else case filter (\<lambda>i. case i of Some (Suc _) \<Rightarrow> True | _ \<Rightarrow> False) (map (IndexStr m) [''=~'', ''!~'', ''!='', ''='']) of
       Some i # _ \<Rightarrow> TrimSpace (take i m) | _ \<Rightarrow> [])"

definition mergePromSelectorFragments :: "string \<Rightarrow> string \<Rightarrow> string" where
  "mergePromSelectorFragments existing add0 = (let add = normalizePromSelectorFragment add0 in
     if add = [] then (if TrimSpace existing = [] then [] else ''{'' @ normalizePromSelectorFragment existing @ ''}'')
     else let ep = splitPromSelectorFragment (normalizePromSelectorFragment existing); ap = splitPromSelectorFragment add;
              addKeys = filter (\<lambda>k. k \<noteq> []) (map promMatcherKey ap);
              merged = filter (\<lambda>p. promMatcherKey p = [] \<or> promMatcherKey p \<notin> set addKeys) ep @ ap
          in if merged = [] then [] else ''{'' @ join_with '','' merged @ ''}'')"

definition word_char :: "char \<Rightarrow> bool" where
  "word_char c = (let n = (of_char c :: nat) in is_digit c \<or> (65 \<le> n \<and> n \<le> 90) \<or> (97 \<le> n \<and> n \<le> 122) \<or> c = CHR ''_'')"

text \<open>
  The matches of \<^verbatim>\<open>\b(node_[a-zA-Z0-9_:]+)(\{[^}]*\})?\<close>, left to right: the name, the selector after it, and the rest of
  the text. \<open>w\<close> tells whether the character before the text is part of a word.
\<close>

definition node_match :: "bool \<Rightarrow> string \<Rightarrow> (string \<times> string \<times> string) option" where
  "node_match w s = (if w \<or> \<not> HasPrefix s ''node_'' then None
     else let nc = (\<lambda>c. word_char c \<or> c = CHR '':''); more = takeWhile nc (drop 5 s); rest = dropWhile nc (drop 5 s) in
       if more = [] then None
       else if HasPrefix rest ''{'' \<and> CHR ''}'' \<in> set rest
         then (let body = takeWhile (\<lambda>c. c \<noteq> CHR ''}'') rest in Some (''node_'' @ more, body @ ''}'', drop (length body + 1) rest))
       else Some (''node_'' @ more, [], rest))"

lemma node_match_shorter: "node_match w s = Some (n, sel, rest) \<Longrightarrow> length rest < length s"
proof -
  assume m: "node_match w s = Some (n, sel, rest)"
  then have p: "HasPrefix s ''node_''" by (simp add: node_match_def Let_def split: if_splits)
  then have "5 \<le> length s" by (auto dest: prefix_length_le)
  moreover have "length (dropWhile f (drop 5 s)) \<le> length (drop 5 s)" for f by (rule length_dropWhile_le)
  ultimately have d: "length (dropWhile f (drop 5 s)) < length s" for f by (metis diff_less le_less_trans length_drop less_le_trans zero_less_numeral)
  from m obtain k where "rest = drop k (dropWhile (\<lambda>c. word_char c \<or> c = CHR '':'') (drop 5 s))"
    by (auto simp: node_match_def Let_def split: if_splits dest: sym[of _ rest] intro: that[of 0])
  then have "length rest \<le> length (dropWhile (\<lambda>c. word_char c \<or> c = CHR '':'') (drop 5 s))" by simp
  with d show ?thesis by (rule le_less_trans[rotated])
qed

function replace_nodes :: "(string \<Rightarrow> string \<Rightarrow> string) \<Rightarrow> bool \<Rightarrow> string \<Rightarrow> string" where
  "replace_nodes f w [] = []"
| "replace_nodes f w (c # s) = (case node_match w (c # s) of
     Some (n, sel, rest) \<Rightarrow> f n sel @ replace_nodes f (sel = [] \<and> word_char (last n)) rest
   | None \<Rightarrow> c # replace_nodes f (word_char c) s)"
  by pat_completeness auto
termination by (relation "measure (\<lambda>(f, w, s). length s)") (auto dest: node_match_shorter)

definition applyClosedSetMetricSelector :: "string \<Rightarrow> string \<Rightarrow> string" where
  "applyClosedSetMetricSelector expr selector0 = (let selector = normalizePromSelectorFragment selector0 in
     if selector = [] then expr else replace_nodes (\<lambda>n sel. n @ mergePromSelectorFragments sel selector) False expr)"

definition anomaly_expr :: "('x pipe_lib_scheme) \<Rightarrow> MetricAnomalyRule \<Rightarrow> string \<Rightarrow> string" where
  "anomaly_expr pl rule base = (let range = ''['' @ ma_BaselineWindow rule @ '':'' @ ma_BaselineStep rule @ '']'' in
     if ma_Method rule = ''mad''
     then (let med = ''quantile_over_time(0.5, ('' @ base @ '')'' @ range @ '')'';
               disp = ''avg_over_time((abs(('' @ base @ '') - ('' @ med @ '')))'' @ range @ '')''
           in ''abs(('' @ base @ '') - ('' @ med @ '')) > '' @ rl_fmt_g pl (ma_Deviation rule) @ '' * ('' @ disp @ '')'')
     else (let mean = ''avg_over_time(('' @ base @ '')'' @ range @ '')''; std = ''stddev_over_time(('' @ base @ '')'' @ range @ '')''
           in ''abs(('' @ base @ '') - ('' @ mean @ '')) > '' @ rl_fmt_g pl (ma_Deviation rule) @ '' * ('' @ std @ '')''))"

definition vector_input :: "('x pipe_lib_scheme) \<Rightarrow> ('y RuleBase_scheme) \<Rightarrow> string \<Rightarrow> (labels \<Rightarrow> string) \<Rightarrow> instant \<Rightarrow> labels \<times> string option \<Rightarrow> FiringInput" where
  "vector_input pl rule scope summary now ent = (let (m, v) = ent in
     (base_input rule scope m (summary m) now)\<lparr>fi_DeviceID := (if scope = RuleScopeHost then deviceIDFromLabels m else None),
        fi_Value := Some (case promFirstNumeric pl v of None \<Rightarrow> Fin 0 | Some x \<Rightarrow> x)\<rparr>)"

text \<open>Vector rules are never resolved by the evaluator.\<close>

definition runVectorRule :: "('x pipe_lib_scheme) \<Rightarrow> ('y RuleBase_scheme) \<Rightarrow> string \<Rightarrow> (labels \<Rightarrow> string) \<Rightarrow> prom_answer \<Rightarrow> instant \<Rightarrow> pipeline \<times> alert_db \<Rightarrow> pipeline \<times> alert_db" where
  "runVectorRule pl rule scope summary answer now s = (case answer of
     PromVector samples \<Rightarrow> (fst s, snd (aeach (fire_one pl (fst s)) (map (vector_input pl rule scope summary now) samples) (snd s)))
   | _ \<Rightarrow> s)"

definition zh_deviates :: string where
  "zh_deviates = [CHR 0xE5, CHR 0x81, CHR 0x8F, CHR 0xE7, CHR 0xA6, CHR 0xBB, CHR 0xE5, CHR 0x9F, CHR 0xBA, CHR 0xE7, CHR 0xBA, CHR 0xBF]"
definition sym_ge :: string where "sym_ge = [CHR 0xE2, CHR 0x89, CHR 0xA5]"
definition sym_sigma :: string where "sym_sigma = [CHR 0xCF, CHR 0x83]"
definition zh_expected :: string where "zh_expected = [CHR 0xE9, CHR 0xA2, CHR 0x84, CHR 0xE8, CHR 0xAE, CHR 0xA1]"
definition zh_later :: string where "zh_later = [CHR 0xE5, CHR 0x90, CHR 0x8E]"
definition zh_latency :: string where "zh_latency = [CHR 0xE5, CHR 0xBB, CHR 0xB6, CHR 0xE8, CHR 0xBF, CHR 0x9F]"
definition zh_error_rate :: string where
  "zh_error_rate = [CHR 0xE9, CHR 0x94, CHR 0x99, CHR 0xE8, CHR 0xAF, CHR 0xAF, CHR 0xE7, CHR 0x8E, CHR 0x87]"

definition evaluate_anomaly :: "('x pipe_lib_scheme) \<Rightarrow> (string \<Rightarrow> prom_answer) \<Rightarrow> instant \<Rightarrow> MetricAnomalyRule \<Rightarrow> pipeline \<times> alert_db \<Rightarrow> pipeline \<times> alert_db" where
  "evaluate_anomaly pl pq now rule s = (case metricExprFor (ma_Metric rule) of None \<Rightarrow> s
     | Some base \<Rightarrow> runVectorRule pl rule (effectiveScope (rb_ScopeType rule) RuleKindMetricAnomaly)
         (\<lambda>m. rb_RuleKey rule @ '': '' @ ma_Metric rule @ '' '' @ zh_deviates @ '' '' @ sym_ge @ '' '' @ rl_fmt_g pl (ma_Deviation rule) @ sym_sigma
            @ '' (labels='' @ labelSetKey m @ '')'')
         (pq (anomaly_expr pl rule (applyClosedSetMetricSelector base (ma_Selector rule)))) now s)"

definition evaluateMetricAnomaly :: "('x pipe_lib_scheme) \<Rightarrow> rulesSnapshot \<Rightarrow> (string \<Rightarrow> prom_answer) \<Rightarrow> instant \<Rightarrow> pipeline \<times> alert_db \<Rightarrow> pipeline \<times> alert_db" where
  "evaluateMetricAnomaly pl sn pq now s = fold (evaluate_anomaly pl pq now) (sn_metricAnomaly sn) s"

definition evaluate_forecast :: "('x pipe_lib_scheme) \<Rightarrow> (string \<Rightarrow> prom_answer) \<Rightarrow> instant \<Rightarrow> MetricForecastRule \<Rightarrow> pipeline \<times> alert_db \<Rightarrow> pipeline \<times> alert_db" where
  "evaluate_forecast pl pq now rule s = (case metricExprFor (mf_Metric rule) of None \<Rightarrow> s
     | Some base \<Rightarrow> runVectorRule pl rule (effectiveScope (rb_ScopeType rule) RuleKindMetricForecast)
         (\<lambda>m. rb_RuleKey rule @ '': '' @ mf_Metric rule @ '' '' @ zh_expected @ '' '' @ dec (nat (mf_PredictSeconds rule)) @ ''s '' @ zh_later @ '' ''
            @ mf_Operator rule @ '' '' @ rl_fmt_g pl (mf_Threshold rule) @ '' (labels='' @ labelSetKey m @ '')'')
         (pq (''predict_linear(('' @ applyClosedSetMetricSelector base (mf_Selector rule) @ '')['' @ mf_FitWindow rule @ '':5m], ''
            @ dec (nat (mf_PredictSeconds rule)) @ '') '' @ mf_Operator rule @ '' '' @ rl_fmt_g pl (mf_Threshold rule))) now s)"

definition evaluateMetricForecast :: "('x pipe_lib_scheme) \<Rightarrow> rulesSnapshot \<Rightarrow> (string \<Rightarrow> prom_answer) \<Rightarrow> instant \<Rightarrow> pipeline \<times> alert_db \<Rightarrow> pipeline \<times> alert_db" where
  "evaluateMetricForecast pl sn pq now s = fold (evaluate_forecast pl pq now) (sn_metricForecast sn) s"

section \<open>Burn rates\<close>

definition burn_budget :: "('x pipe_lib_scheme) \<Rightarrow> gofloat \<Rightarrow> gofloat" where
  "burn_budget pl slo = pl_sub pl (Fin 1) (pl_div pl slo (Fin 100))"

function replace_window :: "string \<Rightarrow> string \<Rightarrow> string" where
  "replace_window w [] = []"
| "replace_window w (c # s) = (if HasPrefix (c # s) window_var then w @ replace_window w (drop (length window_var) (c # s))
     else c # replace_window w s)"
  by pat_completeness auto
termination by (relation "measure (\<lambda>(w, s). length s)") (auto simp: window_var_def)

definition windowedSLI :: "string \<Rightarrow> string \<Rightarrow> string" where
  "windowedSLI sli window = (if Contains sli window_var then replace_window window sli else sli @ ''['' @ window @ '']'')"

text \<open>Whether all windows burn, why not, and the largest burn seen.\<close>

fun burn_windows :: "('x pipe_lib_scheme) \<Rightarrow> (string \<Rightarrow> prom_answer) \<Rightarrow> MetricBurnRateRule \<Rightarrow> (string \<times> gofloat) list \<Rightarrow> gofloat \<Rightarrow> bool \<times> string \<times> gofloat" where
  "burn_windows pl pq rule [] burn = (True, [], burn)"
| "burn_windows pl pq rule ((w, mult) # bs) burn =
    (case pq (''(1 - ('' @ windowedSLI (mb_SLI rule) w @ '')) >= '' @ rl_fmt_g pl (rl_mul pl mult (burn_budget pl (mb_SLO rule)))) of
       PromError \<Rightarrow> (False, ''burn_rate query failed'', burn)
     | PromOther \<Rightarrow> (False, ''burn_rate non-vector'', burn)
     | PromUndecodable \<Rightarrow> (False, ''burn_rate empty vector'', burn)
     | PromVector [] \<Rightarrow> (False, ''burn_rate empty vector'', burn)
     | PromVector ((_, v) # _) \<Rightarrow> burn_windows pl pq rule bs
         (case promFirstNumeric pl v of None \<Rightarrow> burn | Some x \<Rightarrow> if flt_less burn x then x else burn))"

definition burn_key :: "('y RuleBase_scheme) \<Rightarrow> string" where
  "burn_key rule = ''pipeline:'' @ rb_RuleKey rule"

definition burn_input :: "('x pipe_lib_scheme) \<Rightarrow> MetricBurnRateRule \<Rightarrow> gofloat \<Rightarrow> instant \<Rightarrow> FiringInput" where
  "burn_input pl rule burn now = (let scope = effectiveScope (rb_ScopeType rule) RuleKindMetricBurnRate;
       summary = rb_RuleKey rule @ '': SLO '' @ pl_fmt_f pl 2 (mb_SLO rule) @ ''% burn rate triggered across '' @ dec (length (mb_Burns rule)) @ '' windows''
     in (base_input rule scope [] summary now)\<lparr>fi_Severity := ruleSev (rb_Severity rule) ''critical'', fi_DedupeKey := burn_key rule,
          fi_Value := Some burn, fi_Threshold := Some (burn_budget pl (mb_SLO rule)),
          fi_Labels := mergeLabels [rb_Labels rule, [(''rule'', rb_RuleKey rule), (''trigger'', ''burn_rate'')]]\<rparr>)"

text \<open>Every answer other than a firing one resolves the incident, a failing query included.\<close>

definition evaluate_burn :: "('x pipe_lib_scheme) \<Rightarrow> (string \<Rightarrow> prom_answer) \<Rightarrow> instant \<Rightarrow> MetricBurnRateRule \<Rightarrow> pipeline \<times> alert_db \<Rightarrow> pipeline \<times> alert_db" where
  "evaluate_burn pl pq now rule s = (case burn_windows pl pq rule (mb_Burns rule) (Fin 0) of (fired, why, burn) \<Rightarrow>
     (fst s, if fired then snd (fire_one pl (fst s) (burn_input pl rule burn now) (snd s))
        else snd (SystemResolveIncident (pe_usecase (fst s)) (burn_key rule) (''burn_rate cleared: '' @ why) now (snd s))))"

definition evaluateMetricBurnRate :: "('x pipe_lib_scheme) \<Rightarrow> rulesSnapshot \<Rightarrow> (string \<Rightarrow> prom_answer) \<Rightarrow> instant \<Rightarrow> pipeline \<times> alert_db \<Rightarrow> pipeline \<times> alert_db" where
  "evaluateMetricBurnRate pl sn pq now s = fold (evaluate_burn pl pq now) (sn_metricBurnRate sn) s"

section \<open>Logs and traces\<close>

definition buildLogMatchQuery :: "('x pipe_lib_scheme) \<Rightarrow> string \<Rightarrow> string \<Rightarrow> string \<Rightarrow> string" where
  "buildLogMatchQuery pl stream line window0 = (let window = (if window0 = [] then ''5m'' else window0) in
     if line = [] then ''count_over_time('' @ stream @ '' ['' @ window @ ''])''
     else ''count_over_time('' @ stream @ '' |~ '' @ rl_fmt_q pl line @ '' ['' @ window @ ''])'')"

definition log_input :: "('x pipe_lib_scheme) \<Rightarrow> string \<Rightarrow> string \<Rightarrow> LogRule \<Rightarrow> instant \<Rightarrow> vectorEntry \<Rightarrow> FiringInput" where
  "log_input pl kind word rule now ent = (let scope = effectiveScope (rb_ScopeType rule) kind;
       summary = rb_RuleKey rule @ '': '' @ word @ '' '' @ rl_fmt_g pl (ve_Value ent) @ '' '' @ lr_Operator rule @ '' '' @ rl_fmt_g pl (lr_Threshold rule)
         @ '' (labels='' @ labelSetKey (ve_Labels ent) @ '')''
     in (base_input rule scope (ve_Labels ent) summary now)
          \<lparr>fi_DeviceID := (if scope = RuleScopeHost then deviceIDFromLabels (ve_Labels ent) else None), fi_Value := Some (ve_Value ent)\<rparr>)"

definition evaluate_log :: "('x pipe_lib_scheme) \<Rightarrow> string \<Rightarrow> string \<Rightarrow> (string \<Rightarrow> loki_answer) \<Rightarrow> instant \<Rightarrow> LogRule \<Rightarrow> pipeline \<times> alert_db \<Rightarrow> pipeline \<times> alert_db" where
  "evaluate_log pl kind word lq now rule s =
    (case runLokiInstant pl (lq (buildLogMatchQuery pl (lr_StreamSelector rule) (lr_LineFilter rule) (lr_Window rule))) of
       None \<Rightarrow> s
     | Some ents \<Rightarrow> fire_and_sweep pl (rb_RuleKey rule) (word @ '' condition cleared'')
         (map (log_input pl kind word rule now) (filter (\<lambda>ent. compareFloat (ve_Value ent) (lr_Operator rule) (lr_Threshold rule)) ents))
         now (fst s) (snd s))"

definition evaluateLogMatch :: "('x pipe_lib_scheme) \<Rightarrow> rulesSnapshot \<Rightarrow> (string \<Rightarrow> loki_answer) \<Rightarrow> instant \<Rightarrow> pipeline \<times> alert_db \<Rightarrow> pipeline \<times> alert_db" where
  "evaluateLogMatch pl sn lq now s = fold (evaluate_log pl RuleKindLogMatch ''log_match'' lq now) (sn_logMatch sn) s"

definition evaluateLogVolume :: "('x pipe_lib_scheme) \<Rightarrow> rulesSnapshot \<Rightarrow> (string \<Rightarrow> loki_answer) \<Rightarrow> instant \<Rightarrow> pipeline \<times> alert_db \<Rightarrow> pipeline \<times> alert_db" where
  "evaluateLogVolume pl sn lq now s = fold (evaluate_log pl RuleKindLogVolume ''log_volume'' lq now) (sn_logVolume sn) s"

definition latency_summary :: "('x pipe_lib_scheme) \<Rightarrow> TraceRule \<Rightarrow> gofloat \<Rightarrow> string" where
  "latency_summary pl rule v = rb_RuleKey rule @ '': '' @ tr_Service rule @ '' '' @ tr_Quantile rule @ '' '' @ zh_latency @ '' '' @ pl_fmt_f pl 1 v
     @ ''ms > '' @ rl_fmt_g pl (tr_Threshold rule) @ ''ms''"

definition error_rate_summary :: "('x pipe_lib_scheme) \<Rightarrow> TraceRule \<Rightarrow> gofloat \<Rightarrow> string" where
  "error_rate_summary pl rule v = rb_RuleKey rule @ '': '' @ tr_Service rule @ '' '' @ zh_error_rate @ '' '' @ pl_fmt_f pl 2 v @ ''% '' @ tr_Operator rule
     @ '' '' @ rl_fmt_g pl (tr_Threshold rule) @ ''%''"

definition evaluate_trace :: "('x pipe_lib_scheme) \<Rightarrow> string \<Rightarrow> string \<Rightarrow> (TraceRule \<Rightarrow> gofloat \<Rightarrow> string) \<Rightarrow> (string \<Rightarrow> prom_answer) \<Rightarrow> instant \<Rightarrow> TraceRule
    \<Rightarrow> pipeline \<times> alert_db \<Rightarrow> pipeline \<times> alert_db" where
  "evaluate_trace pl kind word summary pq now rule s = (case runPromInstant pl (pq (tr_Expr rule)) of
     None \<Rightarrow> s
   | Some ents \<Rightarrow> fire_and_sweep pl (rb_RuleKey rule) (word @ '' condition cleared'')
       (map (\<lambda>ent. (base_input rule (effectiveScope (rb_ScopeType rule) kind) (ve_Labels ent) (summary rule (ve_Value ent)) now)
         \<lparr>fi_Value := Some (ve_Value ent)\<rparr>) ents) now (fst s) (snd s))"

definition evaluateTraceLatency :: "('x pipe_lib_scheme) \<Rightarrow> rulesSnapshot \<Rightarrow> (string \<Rightarrow> prom_answer) \<Rightarrow> instant \<Rightarrow> pipeline \<times> alert_db \<Rightarrow> pipeline \<times> alert_db" where
  "evaluateTraceLatency pl sn pq now s = fold (evaluate_trace pl RuleKindTraceLatency ''trace_latency'' (latency_summary pl) pq now) (sn_traceLatency sn) s"

definition evaluateTraceErrorRate :: "('x pipe_lib_scheme) \<Rightarrow> rulesSnapshot \<Rightarrow> (string \<Rightarrow> prom_answer) \<Rightarrow> instant \<Rightarrow> pipeline \<times> alert_db \<Rightarrow> pipeline \<times> alert_db" where
  "evaluateTraceErrorRate pl sn pq now s =
     fold (evaluate_trace pl RuleKindTraceErrorRate ''trace_error_rate'' (error_rate_summary pl) pq now) (sn_traceErrorRate sn) s"

text \<open>A tick; a server that is not configured is skipped.\<close>

definition pipeline_evaluate :: "('x pipe_lib_scheme) \<Rightarrow> rulesSnapshot \<Rightarrow> (string \<Rightarrow> prom_answer) option \<Rightarrow> (string \<Rightarrow> loki_answer) option \<Rightarrow> instant
    \<Rightarrow> pipeline \<times> alert_db \<Rightarrow> pipeline \<times> alert_db" where
  "pipeline_evaluate pl sn prom logq now s =
    (let s1 = (case prom of None \<Rightarrow> s | Some pq \<Rightarrow>
       evaluateTraceErrorRate pl sn pq now (evaluateTraceLatency pl sn pq now (evaluateMetricBurnRate pl sn pq now
        (evaluateMetricForecast pl sn pq now (evaluateMetricAnomaly pl sn pq now (evaluatePromQuery pl sn pq now s))))))
     in case logq of None \<Rightarrow> s1 | Some lq \<Rightarrow> evaluateLogVolume pl sn lq now (evaluateLogMatch pl sn lq now s1))"

section \<open>The staleness gauge\<close>

record edge_row =
  ed_ID :: nat
  ed_Name :: string
  ed_DeviceID :: "nat option"
  ed_LastSeenAt :: "instant option"
  ed_CreatedAt :: instant

type_synonym gauge = "((string \<times> string) \<times> int) list"

definition edge_device :: "edge_row \<Rightarrow> string" where
  "edge_device e = dec (case ed_DeviceID e of Some d \<Rightarrow> (if d \<noteq> 0 then d else ed_ID e) | None \<Rightarrow> ed_ID e)"

text \<open>The age in nanoseconds, never negative.\<close>

definition edge_age :: "instant \<Rightarrow> edge_row \<Rightarrow> int" where
  "edge_age now e = max 0 (now - (case ed_LastSeenAt e of Some t \<Rightarrow> t | None \<Rightarrow> ed_CreatedAt e))"

definition gauge_set :: "instant \<Rightarrow> edge_row \<Rightarrow> gauge \<Rightarrow> gauge" where
  "gauge_set now e g = ((edge_device e, ed_Name e), edge_age now e) # filter (\<lambda>(k, _). k \<noteq> (edge_device e, ed_Name e)) g"

text \<open>The new snapshot of names by device and the series of the gauge.\<close>

definition refreshDeviceStalenessGauge :: "edge_row list \<Rightarrow> instant \<Rightarrow> labels \<times> gauge \<Rightarrow> labels \<times> gauge" where
  "refreshDeviceStalenessGauge edges now st =
    (let current = foldl label_put [] (map (\<lambda>e. (edge_device e, ed_Name e)) edges);
         g = fold (gauge_set now) edges (snd st);
         gone = filter (\<lambda>(i, _). i \<notin> fst ` set current) (fst st)
     in (current, filter (\<lambda>(k, _). k \<notin> set gone) g))"

end
