(* ===== verification/Alert_Invariant.thy ===== *)
theory Alert_Invariant
  imports Alert_Pipeline
begin

text \<open>
  What holds of the alert database whatever happens. The locale \<open>alert_steady\<close> is the contract of the store: a
  property of the database that its statements keep, one by one, with a firing and its event taken together;
  \<open>alert_kept\<close> adds the change of an incident's status, and \<open>alert_lasting\<close> what the world does between
  two operations. Inside the locales every operation of the usecase, the evaluator and the retry worker is
  shown to keep the property. \<open>alert_lasting\<close> is interpreted on the invariant \<open>alerts_ok\<close> and on the relation
  \<open>extends\<close> between an earlier database and a later one.
\<close>

section \<open>A firing and its event\<close>

definition fire_core :: "alert_lib \<Rightarrow> FiringInput \<Rightarrow> string \<Rightarrow> instant \<Rightarrow> (Incident \<times> bool \<times> bool) alert_op" where
  "fire_core al fi key t = abind (upsert_incident al fi key t) (\<lambda>(incident, isNew, isReopen).
     atry (createEvent (firing_event al fi incident isReopen t)) (\<lambda>_. areturn (incident, isNew, isReopen)))"

lemma RecordFiring_core:
  "RecordFiring al u fi = when_wired u (case validateFiring fi of Some e \<Rightarrow> araise e | None \<Rightarrow> anow (\<lambda>now.
     let t = (if fi_OccurredAt fi = 0 then now else fi_OccurredAt fi) in abind (fire_core al fi (effective_key fi) t) (after_firing al u t)))"
proof -
  have "abind (upsert_incident al fi k t) (\<lambda>(incident, isNew, isReopen). atry (createEvent (firing_event al fi incident isReopen t)) (\<lambda>_.
      after_firing al u t (incident, isNew, isReopen))) = abind (fire_core al fi k t) (after_firing al u t)" for k t
    by (rule ext) (auto simp: fire_core_def abind_def atry_def areturn_def split: prod.splits sum.splits)
  then show ?thesis by (simp add: RecordFiring_def Let_def cong: option.case_cong)
qed

section \<open>The contract of the store\<close>

definition fire_types :: "string set" where
  "fire_types = {EventTypeFiring, EventTypeReopened}"

locale alert_steady =
  fixes P :: "alert_db \<Rightarrow> bool"
  assumes kept_faults: "P db \<Longrightarrow> P (db\<lparr>ad_faults := tl (ad_faults db)\<rparr>)"
    and kept_trace: "P db \<Longrightarrow> P (db\<lparr>ad_trace := tr\<rparr>)"
    and kept_replies: "P db \<Longrightarrow> P (db\<lparr>ad_replies := rs\<rparr>)"
    and kept_scenarios: "P db \<Longrightarrow> P (db\<lparr>ad_scenarios := sr\<rparr>)"
    and kept_firing: "akeeps P (fire_core al fi key t)"
    and kept_notified: "akeeps P (MarkIncidentNotified i t)"
    and kept_event: "ae_EventType e \<notin> fire_types \<Longrightarrow> akeeps P (CreateEvent e)"
    and kept_silence: "akeeps P (CreateSilence s)"
    and kept_delivery: "dl_Status d = DeliveryStatusPending \<Longrightarrow> akeeps P (CreateDelivery d)"
    and kept_delivery_status: "akeeps P (UpdateDeliveryStatus i st n er sa fa)"
    and kept_rule_new: "akeeps P (repo_CreateRule r)"
    and kept_rule_edit: "akeeps P (repo_UpdateRule i r)"
    and kept_rule_switch: "akeeps P (UpdateRuleEnabled i b)"
    and kept_rule_delete: "akeeps P (repo_DeleteRule i)"
begin

lemma read_kept: "akeeps P (astmt (\<lambda>db. (f db, db)))"
  by (rule keeps_stmt) (auto intro: kept_faults)

lemma found_kept: "akeeps P (astmt (\<lambda>db. found (f db) db))"
  using read_kept[of "\<lambda>db. case f db of None \<Rightarrow> Err AlertNotFound | Some a \<Rightarrow> Ok a"] by (simp add: found_def)

lemma reads_kept [keep_intros]:
  "akeeps P (GetIncidentByID i)" "akeeps P (GetIncidentByDedupeKey k)" "akeeps P (ListActiveSilences t)"
  "akeeps P (CountEventsByType ty since rule sev)" "akeeps P (GetRuleByID i)" "akeeps P (GetChannelByName nm)" "akeeps P (GetChannelByID i)"
  "akeeps P ListEnabledChannels" "akeeps P (ListRetriableDeliveries n before l)"
  by (simp_all add: GetIncidentByID_def GetIncidentByDedupeKey_def ListActiveSilences_def CountEventsByType_def GetRuleByID_def
      GetChannelByName_def GetChannelByID_def ListEnabledChannels_def ListRetriableDeliveries_def read_kept found_kept)

lemma rule_key_kept [keep_intros]: "akeeps P (GetRuleByKey k)"
proof (cases "k = []")
  case True
  then show ?thesis by (simp add: akeeps_def GetRuleByKey_def)
next
  case False
  have "akeeps P (astmt (\<lambda>db. found (find_rule_key db k) db))" by (rule found_kept)
  with False show ?thesis by (simp add: akeeps_def GetRuleByKey_def)
qed

lemma effect_kept [keep_intros]: "akeeps P (aeffect e)"
  by (rule akeepsI) (simp add: aeffect_def kept_trace)

lemmas writes_kept [keep_intros] = kept_firing kept_notified kept_silence kept_delivery kept_delivery_status
  kept_rule_new kept_rule_edit kept_rule_switch kept_rule_delete

lemma event_kept [keep_intros]: "ae_EventType e \<notin> fire_types \<Longrightarrow> akeeps P (createEvent e)"
  by (simp add: createEvent_def kept_event)

lemma silence_match_kept [keep_intros]: "akeeps P (matchSilence inc t)"
  unfolding matchSilence_def by (intro keep_intros)

lemma RecordFiring_kept [keep_intros]: "akeeps P (RecordFiring al u fi)"
  unfolding RecordFiring_core after_firing_def tell_workflows_def by (intro keep_intros)

lemma GetIncident_kept [keep_intros]: "akeeps P (GetIncident u i)"
  unfolding GetIncident_def by (intro keep_intros)

lemma rules_kept:
  "akeeps P (CreateRule rl u ri by)" "akeeps P (UpdateRule rl u i ri)" "akeeps P (SetRuleEnabled u i b)" "akeeps P (DeleteRule u i)"
  unfolding CreateRule_def UpdateRule_def SetRuleEnabled_def DeleteRule_def by (intro keep_intros)+

lemma wire_kept: "P db \<Longrightarrow> P (snd (wire s msg db))"
  using kept_trace[of "db\<lparr>ad_replies := rs\<rparr>" for rs] kept_trace[of db] kept_replies[of db]
  by (auto simp: wire_def split: list.splits) (metis kept_replies kept_trace alert_db.update_convs)

lemma send_names_kept: "P db \<Longrightarrow> P (snd (send_names r msg ns db))"
proof (induction ns arbitrary: db)
  case (Cons n ns)
  show ?case
  proof (cases "n \<in> set (nr_channels r)")
    case True
    obtain er db1 where w: "wire (NamedSender n) msg db = (er, db1)" by fastforce
    with wire_kept[OF Cons.prems, of "NamedSender n" msg] have "P db1" by simp
    with Cons.IH[of db1] True w show ?thesis by (auto simp: Let_def split: prod.splits)
  next
    case False
    with Cons.IH[OF Cons.prems] show ?thesis by (auto simp: Let_def split: prod.splits)
  qed
qed simp

lemma router_kept: "P db \<Longrightarrow> P (snd (Router_Send r msg ns db))" "P db \<Longrightarrow> P (snd (Router_SendVia r msg s db))"
  unfolding Router_Send_def Router_SendVia_def Let_def by (auto intro: send_names_kept wire_kept)

lemma channel_send_kept: "P db \<Longrightarrow> P (snd (channel_send al r msg ch db))"
  unfolding channel_send_def by (auto intro: router_kept split: sum.splits)

lemmas send_kept = router_kept channel_send_kept

lemma after_send_kept:
  assumes "\<And>db. P db \<Longrightarrow> P (snd (sd db))" "\<And>er. akeeps P (k er)"
  shows "akeeps P (\<lambda>db. let (er, db1) = sd db in k er db1)"
  using assms by (auto simp: akeeps_def split: prod.splits) (metis snd_conv)

lemma notified_kept [keep_intros]: "akeeps P (MarkNotified i t)"
  unfolding MarkNotified_def by (intro keep_intros)

lemma suppressed_kept [keep_intros]: "akeeps P (RecordRepeatSuppressed i t reason)"
  unfolding RecordRepeatSuppressed_def by (intro keep_intros) (simp add: fire_types_def event_type_defs)

lemma deliveries_kept [keep_intros]: "akeeps P (RecordDelivery i c)" "akeeps P (FinishDelivery d i n er t)"
  unfolding RecordDelivery_def FinishDelivery_def by (intro keep_intros; simp add: fire_types_def event_type_defs)+

lemma channels_kept [keep_intros]: "akeeps P (ChannelsFor al r inc)" "akeeps P (resolve_names ns)" "akeeps P (resolveChannels al inc opts)"
proof -
  show c: "akeeps P (ChannelsFor al r inc)" for r unfolding ChannelsFor_def pinnedIDs_def by (intro keep_intros)
  have n: "akeeps P (resolve_names ns)" for ns unfolding resolve_names_def by (induction ns) (auto intro!: keep_intros)
  then show "akeeps P (resolve_names ns)" .
  show "akeeps P (resolveChannels al inc opts)" unfolding resolveChannels_def by (intro keep_intros c n)
qed

lemma gates_kept [keep_intros]: "akeeps P (dampened inc t)" "akeeps P (Suppress inc)"
  unfolding dampened_def lookupRuleForIncident_def Suppress_def activeIncident_def by (intro keep_intros)+

lemma notify_channel_kept [keep_intros]: "akeeps P (notify_channel al r msg i t ch)"
  unfolding notify_channel_def
  by (intro keep_intros after_send_kept send_kept) (simp_all)

lemma notify_channels_kept [keep_intros]: "akeeps P (notify_channels al r msg i t chs)"
  by (induction chs) (auto intro!: keep_intros)

lemma MaybeNotify_kept [keep_intros]: "akeeps P (MaybeNotify al u res msg opts)"
  unfolding MaybeNotify_def gated_notify_def notify_all_def by (intro keep_intros) (simp_all add: fire_types_def event_type_defs)

lemma retry_kept: "akeeps P (retry_runOnce w r)"
proof -
  have "akeeps P (retry_send r d inc ch now)" for d inc ch now
    unfolding retry_send_def by (intro after_send_kept send_kept keep_intros kept_event) (simp_all add: fire_types_def event_type_defs)
  then show ?thesis unfolding retry_runOnce_def retryOne_def by (intro keep_intros)
qed

lemma fire_one_kept [keep_intros]: "akeeps P (fire_one pl e fi)"
  unfolding fire_one_def pipeline_notify_def by (intro keep_intros)

lemma vector_rule_kept: "P (snd s) \<Longrightarrow> P (snd (runVectorRule pl rule scope sm a now s))"
  unfolding runVectorRule_def by (auto split: prom_answer.splits intro: akeepsD[OF keeps_each] fire_one_kept)

lemma webhook_kept: "akeeps P (IngestAlertmanager al u alerts)"
proof -
  have w: "akeeps P (astmt (\<lambda>db. (Ok (), db\<lparr>ad_scenarios := f db\<rparr>)))" for f by (rule keeps_stmt) (auto intro: kept_faults kept_scenarios)
  have demo: "akeeps P (uc_CorrelateDemoScenario u fp m)" for fp m
    unfolding uc_CorrelateDemoScenario_def CorrelateDemoScenario_def first_scenario_def by (intro keep_intros read_kept w)
  have one: "akeeps P (ingest_alert al u a)" for a
    unfolding ingest_alert_def recordWebhookReceipt_def by (intro keep_intros demo) (simp add: fire_types_def event_type_defs)
  have "akeeps P (ingest_all al u as n)" for as n
    by (induction as arbitrary: n) (auto intro!: keep_intros one)
  then show ?thesis unfolding IngestAlertmanager_def by (intro keep_intros)
qed

end

locale alert_kept = alert_steady +
  assumes kept_status: "akeeps P (UpdateIncidentStatus i st actor t)"
begin

lemmas status_kept [keep_intros] = kept_status

lemma SystemResolve_kept [keep_intros]: "akeeps P (SystemResolveIncident u k reason t)"
  unfolding SystemResolveIncident_def by (intro keep_intros) (simp_all add: event_type_defs fire_types_def)

lemma transition_kept:
  "ty \<notin> fire_types \<Longrightarrow> akeeps P (transition u i ty st operator note)"
  unfolding transition_def by (intro keep_intros) simp_all

lemma operators_kept:
  "akeeps P (AckIncident u i operator note)" "akeeps P (ResolveIncident u i operator note)"
  unfolding AckIncident_def ResolveIncident_def by (simp_all add: transition_kept fire_types_def event_type_defs)

lemma SilenceIncident_kept: "akeeps P (SilenceIncident al u i operator until reason)"
  unfolding SilenceIncident_def by (intro keep_intros) (simp_all add: fire_types_def event_type_defs)

lemma sweep_kept: "P db \<Longrightarrow> P (snd (sweepRecovery e rule fired reason now db))"
proof -
  have "akeeps P (aeach (\<lambda>k. abind (SystemResolveIncident (pe_usecase e) k reason now) (\<lambda>_. areturn ())) ks)" for ks
    by (intro keep_intros)
  then show "P db \<Longrightarrow> ?thesis" by (simp add: sweepRecovery_def akeepsD)
qed

lemma fire_and_sweep_kept: "P db \<Longrightarrow> P (snd (fire_and_sweep pl rule reason inputs now e db))"
  unfolding fire_and_sweep_def by (rule sweep_kept) (rule akeepsD[OF keeps_each], rule fire_one_kept)

lemma rule_steps_kept:
  "P (snd s) \<Longrightarrow> P (snd (evaluate_raw pl pq now r1 s))" "P (snd s) \<Longrightarrow> P (snd (evaluate_anomaly pl pq now r2 s))"
  "P (snd s) \<Longrightarrow> P (snd (evaluate_forecast pl pq now r3 s))" "P (snd s) \<Longrightarrow> P (snd (evaluate_burn pl pq now r4 s))"
  "P (snd s) \<Longrightarrow> P (snd (evaluate_log pl kind word lq now r5 s))" "P (snd s) \<Longrightarrow> P (snd (evaluate_trace pl kind word summary pq now r6 s))"
  unfolding evaluate_raw_def evaluate_anomaly_def evaluate_forecast_def evaluate_burn_def evaluate_log_def evaluate_trace_def
  by (auto split: prom_answer.splits option.splits prod.splits
      intro: fire_and_sweep_kept vector_rule_kept akeepsD[OF fire_one_kept] akeepsD[OF SystemResolve_kept])

lemma fold_kept: "(\<And>x s. P (snd s) \<Longrightarrow> P (snd (f x s))) \<Longrightarrow> P (snd s) \<Longrightarrow> P (snd (fold f xs s))"
  by (induction xs arbitrary: s) auto

lemma evaluate_kept: "P (snd s) \<Longrightarrow> P (snd (pipeline_evaluate pl sn prom logq now s))"
  unfolding pipeline_evaluate_def evaluatePromQuery_def evaluateMetricAnomaly_def evaluateMetricForecast_def evaluateMetricBurnRate_def
    evaluateLogMatch_def evaluateLogVolume_def evaluateTraceLatency_def evaluateTraceErrorRate_def Let_def
  by (auto split: option.splits intro!: fold_kept rule_steps_kept)

end

section \<open>Sequences of requests\<close>

text \<open>
  A request to the alerting code, with its arguments: those of operators, of producers of firings, of the
  administration of rules, a tick of the evaluator and a run of the retry worker. \<open>World\<close> is what happens outside:
  the clock is set, demonstrations come and go, and which statements fail and what senders answer from now on is chosen.
\<close>

datatype alert_request =
  Ack nat nat string
| Close nat nat string
| Mute nat nat string string
| Fire FiringInput
| Missed string string SchedulerMissedRun
| Webhook "AlertmanagerAlert list option"
| NewRule RuleInput "nat option"
| EditRule nat RuleInput
| SwitchRule nat bool
| DropRule nat
| Tick rulesSnapshot "(string \<Rightarrow> prom_answer) option" "(string \<Rightarrow> loki_answer) option" instant
| Retry RetryWorker notify_router
| World instant "bool list" "string option list" "ScenarioRun list"

definition on_db :: "'a alert_op \<Rightarrow> pipeline \<times> alert_db \<Rightarrow> pipeline \<times> alert_db" where
  "on_db m s = (fst s, snd (m (snd s)))"

fun alert_perform :: "pipe_lib \<Rightarrow> alert_request \<Rightarrow> pipeline \<times> alert_db \<Rightarrow> pipeline \<times> alert_db" where
  "alert_perform pl (Ack i op note) s = on_db (AckIncident (pe_usecase (fst s)) i op note) s"
| "alert_perform pl (Close i op note) s = on_db (ResolveIncident (pe_usecase (fst s)) i op note) s"
| "alert_perform pl (Mute i op until reason) s = on_db (SilenceIncident (alert_lib.truncate pl) (pe_usecase (fst s)) i op until reason) s"
| "alert_perform pl (Fire fi) s = on_db (fire_one pl (fst s) fi) s"
| "alert_perform pl (Missed desc source m) s = on_db (RecordSchedulerMissedRun (alert_lib.truncate pl) (pe_usecase (fst s)) desc source m) s"
| "alert_perform pl (Webhook as) s = on_db (IngestAlertmanager (alert_lib.truncate pl) (pe_usecase (fst s)) as) s"
| "alert_perform pl (NewRule ri by) s = on_db (CreateRule (rule_lib.truncate pl) (pe_usecase (fst s)) ri by) s"
| "alert_perform pl (EditRule i ri) s = on_db (UpdateRule (rule_lib.truncate pl) (pe_usecase (fst s)) i ri) s"
| "alert_perform pl (SwitchRule i b) s = on_db (SetRuleEnabled (pe_usecase (fst s)) i b) s"
| "alert_perform pl (DropRule i) s = on_db (DeleteRule (pe_usecase (fst s)) i) s"
| "alert_perform pl (Tick sn prom logq now) s = pipeline_evaluate pl sn prom logq now s"
| "alert_perform pl (Retry w r) s = on_db (retry_runOnce w r) s"
| "alert_perform pl (World t fs rs sc) s = (fst s, (snd s)\<lparr>ad_now := t, ad_faults := fs, ad_replies := rs, ad_scenarios := sc\<rparr>)"

definition alert_run_all :: "pipe_lib \<Rightarrow> alert_request list \<Rightarrow> pipeline \<times> alert_db \<Rightarrow> pipeline \<times> alert_db" where
  "alert_run_all pl rs s = fold (alert_perform pl) rs s"

locale alert_lasting = alert_kept +
  assumes kept_world: "P db \<Longrightarrow> P (db\<lparr>ad_now := t, ad_faults := fs, ad_replies := rs, ad_scenarios := sc\<rparr>)"
begin

lemma on_db_kept: "akeeps P m \<Longrightarrow> P (snd s) \<Longrightarrow> P (snd (on_db m s))"
  by (simp add: on_db_def akeepsD)

lemma missed_kept: "akeeps P (RecordSchedulerMissedRun al u desc source m)"
  unfolding RecordSchedulerMissedRun_def by (intro keep_intros)

lemma perform_kept: "P (snd s) \<Longrightarrow> P (snd (alert_perform pl r s))"
  by (cases r) (auto intro!: on_db_kept evaluate_kept kept_world operators_kept SilenceIncident_kept fire_one_kept missed_kept webhook_kept
      rules_kept retry_kept)

lemma run_kept: "P (snd s) \<Longrightarrow> P (snd (alert_run_all pl rs s))"
  unfolding alert_run_all_def by (rule fold_kept) (rule perform_kept)

end

section \<open>The invariant\<close>

definition firings :: "alert_db \<Rightarrow> nat \<Rightarrow> nat" where
  "firings db i = length (filter (\<lambda>e. ae_IncidentID e = i \<and> ae_EventType e \<in> fire_types) (ad_events db))"

definition incident_ok :: "alert_db \<Rightarrow> Incident \<Rightarrow> bool" where
  "incident_ok db x = (ai_ID x < ad_nextIncident db \<and> validateIncidentStatus (ai_Status x) \<and> firings db (ai_ID x) \<le> ai_EventCount x \<and>
     (ai_Status x = IncidentStatusResolved \<longrightarrow> ai_ResolvedAt x \<noteq> None) \<and>
     (ai_Status x = IncidentStatusAcknowledged \<longrightarrow> ai_AcknowledgedAt x \<noteq> None) \<and>
     (ai_Status x = IncidentStatusSilenced \<longrightarrow> ai_SilencedUntil x \<noteq> None))"

definition alerts_ok :: "alert_db \<Rightarrow> bool" where
  "alerts_ok db = (distinct (map ai_ID (ad_incidents db)) \<and> distinct (map ai_DedupeKey (ad_incidents db)) \<and>
     (\<forall>x\<in>set (ad_incidents db). incident_ok db x) \<and>
     (\<forall>e\<in>set (ad_events db). ae_EventType e \<in> fire_types \<longrightarrow> ae_IncidentID e < ad_nextIncident db) \<and>
     distinct (map ar_ID (ad_rules db)) \<and> distinct (map ar_RuleKey (ad_rules db)) \<and> (\<forall>r\<in>set (ad_rules db). ar_ID r < ad_nextRule db) \<and>
     distinct (map dl_ID (ad_deliveries db)) \<and>
     (\<forall>d\<in>set (ad_deliveries db). dl_ID d < ad_nextDelivery db \<and> validateDeliveryStatus (dl_Status d)))"

text \<open>The invariant looks at the tables only.\<close>

lemma incident_ok_frame [simp]:
  "incident_ok (db\<lparr>ad_faults := fs\<rparr>) = incident_ok db" "incident_ok (db\<lparr>ad_trace := tr\<rparr>) = incident_ok db"
  "incident_ok (db\<lparr>ad_replies := rs\<rparr>) = incident_ok db" "incident_ok (db\<lparr>ad_incidents := is\<rparr>) = incident_ok db"
  "incident_ok (db\<lparr>ad_silences := ss, ad_nextSilence := n\<rparr>) = incident_ok db" "incident_ok (db\<lparr>ad_rules := rl\<rparr>) = incident_ok db"
  "incident_ok (db\<lparr>ad_rules := rl, ad_nextRule := n\<rparr>) = incident_ok db"
  "incident_ok (db\<lparr>ad_deliveries := ds\<rparr>) = incident_ok db" "incident_ok (db\<lparr>ad_deliveries := ds, ad_nextDelivery := n\<rparr>) = incident_ok db"
  "incident_ok (db\<lparr>ad_now := t\<rparr>) = incident_ok db" "incident_ok (db\<lparr>ad_scenarios := sr\<rparr>) = incident_ok db"
  by (rule ext, simp add: incident_ok_def firings_def)+

lemma alerts_ok_outside [simp]:
  "alerts_ok (db\<lparr>ad_faults := fs\<rparr>) = alerts_ok db" "alerts_ok (db\<lparr>ad_trace := tr\<rparr>) = alerts_ok db"
  "alerts_ok (db\<lparr>ad_replies := rs\<rparr>) = alerts_ok db" "alerts_ok (db\<lparr>ad_now := t\<rparr>) = alerts_ok db"
  "alerts_ok (db\<lparr>ad_scenarios := sr\<rparr>) = alerts_ok db"
  by (simp_all add: alerts_ok_def)

lemma ok_stmt: "(\<And>db. alerts_ok db \<Longrightarrow> alerts_ok (snd (act db))) \<Longrightarrow> akeeps alerts_ok (astmt act)"
  by (rule keeps_stmt) simp_all

lemma map_update_same: "(\<And>x. g (f x) = g x) \<Longrightarrow> map g (map (\<lambda>x. if c x then f x else x) xs) = map g xs"
  by (induction xs) auto

lemma update_incident_ok:
  assumes "alerts_ok db" "\<And>x. ai_ID (f x) = ai_ID x" "\<And>x. ai_DedupeKey (f x) = ai_DedupeKey x" "\<And>x. incident_ok db x \<Longrightarrow> incident_ok db (f x)"
  shows "alerts_ok (snd (update_incident i f db))"
  using assms(1) unfolding update_incident_def alerts_ok_def
  by (auto simp: map_update_same[of ai_ID f] map_update_same[of ai_DedupeKey f] assms(2,3,4) simp del: map_map)

lemma status_update_ok: "validateIncidentStatus st \<Longrightarrow> incident_ok db x \<Longrightarrow> incident_ok db (status_update st actor t x)"
  by (auto simp: incident_ok_def status_update_def Let_def status_defs)

lemma status_update_id [simp]:
  "ai_ID (status_update st actor t x) = ai_ID x" "ai_DedupeKey (status_update st actor t x) = ai_DedupeKey x"
  "ai_EventCount (status_update st actor t x) = ai_EventCount x"
  by (auto simp: status_update_def Let_def)

lemma status_ok: "akeeps alerts_ok (UpdateIncidentStatus i st actor t)"
proof (rule akeepsI)
  fix db :: alert_db assume "alerts_ok db"
  moreover have "akeeps alerts_ok (astmt (update_incident i (status_update st actor (or_now t db))))" if "validateIncidentStatus st"
    using that by (intro ok_stmt update_incident_ok status_update_ok) simp_all
  ultimately show "alerts_ok (snd (UpdateIncidentStatus i st actor t db))"
    by (simp add: UpdateIncidentStatus_def Let_def akeepsD)
qed

lemma notified_ok: "akeeps alerts_ok (MarkIncidentNotified i t)"
proof (rule akeepsI)
  fix db :: alert_db assume "alerts_ok db"
  moreover have "akeeps alerts_ok (astmt (update_incident i (\<lambda>x. x\<lparr>ai_LastNotifiedAt := Some (or_now t db), ai_UpdatedAt := ad_now db\<rparr>)))"
    by (intro ok_stmt update_incident_ok) (simp_all add: incident_ok_def)
  ultimately show "alerts_ok (snd (MarkIncidentNotified i t db))" by (simp add: MarkIncidentNotified_def akeepsD)
qed

lemma event_ok: "ae_EventType e \<notin> fire_types \<Longrightarrow> akeeps alerts_ok (CreateEvent e)"
  unfolding CreateEvent_def by (rule ok_stmt) (auto simp: alerts_ok_def incident_ok_def firings_def)

lemma small_writes_ok:
  "akeeps alerts_ok (CreateSilence s)"
  "akeeps alerts_ok (repo_CreateRule r)" "akeeps alerts_ok (repo_UpdateRule i r)" "akeeps alerts_ok (UpdateRuleEnabled i b)"
  "akeeps alerts_ok (repo_DeleteRule i)"
  unfolding CreateSilence_def repo_CreateRule_def repo_UpdateRule_def UpdateRuleEnabled_def repo_DeleteRule_def
  by ((rule ok_stmt, force simp: alerts_ok_def Let_def update_rule_def map_update_same distinct_map_filter simp del: map_map)+)

lemma delivery_ok: "dl_Status d = DeliveryStatusPending \<Longrightarrow> akeeps alerts_ok (CreateDelivery d)"
  unfolding CreateDelivery_def by (rule ok_stmt) (force simp: alerts_ok_def validateDeliveryStatus_def)

lemma delivery_status_ok: "akeeps alerts_ok (UpdateDeliveryStatus i st n er sa fa)"
proof (cases "validateDeliveryStatus st")
  case True
  have "akeeps alerts_ok (astmt (\<lambda>db. if i \<in> dl_ID ` set (ad_deliveries db)
       then (Ok (), db\<lparr>ad_deliveries := map (\<lambda>d. if dl_ID d = i then d\<lparr>dl_Status := st, dl_AttemptCount := n,
              dl_ErrorMessage := er, dl_SentAt := sa, dl_FinishedAt := fa\<rparr> else d) (ad_deliveries db)\<rparr>)
       else (Err AlertNotFound, db)))"
    using True by (intro ok_stmt) (auto simp: alerts_ok_def map_update_same[of dl_ID] simp del: map_map)
  with True show ?thesis by (simp add: akeeps_def UpdateDeliveryStatus_def)
next
  case False
  then show ?thesis by (simp add: akeeps_def UpdateDeliveryStatus_def)
qed

text \<open>A recorded firing leaves room for its event: the count of the incident is ahead of its events.\<close>

definition room :: "alert_db \<Rightarrow> nat \<Rightarrow> bool" where
  "room db i = (\<exists>x\<in>set (ad_incidents db). ai_ID x = i \<and> firings db i < ai_EventCount x)"

definition upsert_post :: "(alert_error, Incident \<times> bool \<times> bool) result \<times> alert_db \<Rightarrow> bool" where
  "upsert_post r = (alerts_ok (snd r) \<and> (\<forall>inc n ro. fst r = Ok (inc, n, ro) \<longrightarrow> room (snd r) (ai_ID inc)))"

lemma room_frame [simp]: "room (db\<lparr>ad_faults := fs\<rparr>) i = room db i"
  by (simp add: room_def firings_def)

lemma fire_update_ok:
  assumes ok: "alerts_ok db" and i: "\<And>x. ai_ID (f x) = ai_ID x" and k: "\<And>x. ai_DedupeKey (f x) = ai_DedupeKey x"
    and c: "\<And>x. ai_EventCount (f x) = ai_EventCount x + 1" and o: "\<And>db x. incident_ok db x \<Longrightarrow> incident_ok db (f x)"
    and run: "astmt (update_incident n f) db = (r, db')"
  shows "alerts_ok db' \<and> (r = Ok () \<longrightarrow> room db' n)"
proof -
  have "alerts_ok (snd (update_incident n f d)) \<and> (fst (update_incident n f d) = Ok () \<longrightarrow> room (snd (update_incident n f d)) n)" if d: "alerts_ok d" for d
  proof (intro conjI impI)
    show "alerts_ok (snd (update_incident n f d))" using d i k o by (rule update_incident_ok)
    assume "fst (update_incident n f d) = Ok ()"
    then obtain x where x: "x \<in> set (ad_incidents d)" "ai_ID x = n" by (auto simp: update_incident_def split: if_splits)
    with d have "firings d n \<le> ai_EventCount x" by (auto simp: alerts_ok_def incident_ok_def)
    moreover have "f x \<in> set (ad_incidents (snd (update_incident n f d)))" using x by (force simp: update_incident_def)
    moreover have "firings (snd (update_incident n f d)) n = firings d n" by (simp add: update_incident_def firings_def)
    ultimately show "room (snd (update_incident n f d)) n" using x(2) i[of x] c[of x] unfolding room_def by (intro bexI[of _ "f x"]) simp_all
  qed
  from astmt_post[of alerts_ok db "\<lambda>p. alerts_ok (snd p) \<and> (fst p = Ok () \<longrightarrow> room (snd p) n)" "update_incident n f", OF ok _ this]
  show ?thesis unfolding run by simp
qed

lemma bump_ok: "incident_ok db x \<Longrightarrow> incident_ok db (bump_update now t sm v th x)"
  by (auto simp: incident_ok_def bump_update_def)

lemma reopen_ok: "incident_ok db x \<Longrightarrow> incident_ok db (reopen_update now t sm v th x)"
  by (auto simp: incident_ok_def reopen_update_def bump_update_def status_defs validateIncidentStatus_def)

lemma refire_post:
  assumes "alerts_ok db" "refire fi t ex db = (r, db')"
  shows "alerts_ok db' \<and> (\<forall>inc ro. r = Ok (inc, ro) \<longrightarrow> ai_ID inc = ai_ID ex \<and> room db' (ai_ID ex))"
proof (cases "ai_Status ex = IncidentStatusResolved")
  case True
  obtain r1 db1 where u: "ReopenIncident (ai_ID ex) t (fi_Summary fi) (fi_Value fi) (fi_Threshold fi) db = (r1, db1)" by fastforce
  with assms(1) have "alerts_ok db1 \<and> (r1 = Ok () \<longrightarrow> room db1 (ai_ID ex))"
    by (intro fire_update_ok[of db "reopen_update (ad_now db) (or_now t db) (fi_Summary fi) (fi_Value fi) (fi_Threshold fi)"])
      (auto simp: ReopenIncident_def reopen_ok, simp_all add: reopen_update_def bump_update_def)
  with True u assms(2) show ?thesis by (cases r1) (auto simp: refire_def alert_run)
next
  case False
  obtain r1 db1 where u: "BumpIncidentFiring (ai_ID ex) t (fi_Summary fi) (fi_Value fi) (fi_Threshold fi) db = (r1, db1)" by fastforce
  with assms(1) have "alerts_ok db1 \<and> (r1 = Ok () \<longrightarrow> room db1 (ai_ID ex))"
    by (intro fire_update_ok[of db "bump_update (ad_now db) (or_now t db) (fi_Summary fi) (fi_Value fi) (fi_Threshold fi)"])
      (auto simp: BumpIncidentFiring_def bump_ok, simp_all add: bump_update_def)
  with False u assms(2) show ?thesis by (cases r1) (auto simp: refire_def alert_run)
qed

lemma new_incident_key [simp]: "ai_DedupeKey (new_incident al fi key t) = key" "ai_ID (new_incident al fi key t) = 0"
  by (simp_all add: new_incident_def)

lemma create_post:
  assumes "alerts_ok db" "CreateIncident (new_incident al fi key t) db = (r, db')"
  shows "alerts_ok db' \<and> (\<forall>inc. r = Ok inc \<longrightarrow> room db' (ai_ID inc))"
proof -
  let ?act = "\<lambda>d. if key \<in> ai_DedupeKey ` set (ad_incidents d) then (Err DbFailure, d)
     else (let y = (new_incident al fi key t)\<lparr>ai_ID := ad_nextIncident d,
             ai_Status := col_default IncidentStatusOpen (ai_Status (new_incident al fi key t)), ai_CreatedAt := ad_now d, ai_UpdatedAt := ad_now d\<rparr>
           in (Ok y, d\<lparr>ad_incidents := ad_incidents d @ [y], ad_nextIncident := ad_nextIncident d + 1\<rparr>))"
  have "alerts_ok (snd (?act d)) \<and> (\<forall>inc. fst (?act d) = Ok inc \<longrightarrow> room (snd (?act d)) (ai_ID inc))" if d: "alerts_ok d" for d
  proof (cases "key \<in> ai_DedupeKey ` set (ad_incidents d)")
    case False
    have "\<forall>e\<in>set (ad_events d). ae_EventType e \<in> fire_types \<longrightarrow> ae_IncidentID e \<noteq> ad_nextIncident d" using d by (auto simp: alerts_ok_def)
    then have f: "firings d (ad_nextIncident d) = 0" by (auto simp: firings_def filter_empty_conv)
    have "\<forall>x\<in>set (ad_incidents d). ai_ID x < ad_nextIncident d" using d by (auto simp: alerts_ok_def incident_ok_def)
    with d False f show ?thesis
      by (auto simp: alerts_ok_def incident_ok_def room_def firings_def new_incident_def Let_def validateIncidentStatus_def status_defs less_Suc_eq)
  qed (simp add: d)
  note post = astmt_post[of alerts_ok db "\<lambda>p. alerts_ok (snd p) \<and> (\<forall>inc. fst p = Ok inc \<longrightarrow> room (snd p) (ai_ID inc))" ?act, OF assms(1) _ this]
  have "CreateIncident (new_incident al fi key t) db = astmt ?act db"
    unfolding CreateIncident_def CreateAlertIncident_def by (simp only: new_incident_key)
  with assms(2) have run: "astmt ?act db = (r, db')" by simp
  from post show ?thesis unfolding run by simp
qed

lemma get_key_same:
  assumes "GetIncidentByDedupeKey k db = (r, db')"
  shows "\<exists>fs. db' = db\<lparr>ad_faults := fs\<rparr>"
proof (cases "ad_faults db")
  case Nil
  with assms have "db' = db" unfolding GetIncidentByDedupeKey_def by (simp add: astmt_calm found_def split: option.splits)
  then show ?thesis by (intro exI[of _ "ad_faults db"]) simp
next
  case (Cons f fs)
  with assms show ?thesis unfolding GetIncidentByDedupeKey_def by (auto simp: astmt_def found_def Let_def split: if_splits)
qed

lemma upsert_ok:
  assumes "alerts_ok db"
  shows "upsert_post (upsert_incident al fi key t db)"
proof -
  have onto: "upsert_post (abind (refire fi t ex) (\<lambda>(incident, reopened). areturn (incident, False, reopened)) d)" if "alerts_ok d" for ex d
  proof -
    obtain r d' where r: "refire fi t ex d = (r, d')" by fastforce
    with refire_post[OF that this] show ?thesis by (cases r) (auto simp: upsert_post_def alert_run)
  qed
  obtain r1 db1 where g: "GetIncidentByDedupeKey key db = (r1, db1)" by fastforce
  with assms have ok1: "alerts_ok db1" by (auto dest!: get_key_same)
  obtain r2 db2 where c: "CreateIncident (new_incident al fi key t) db1 = (r2, db2)" by fastforce
  from create_post[OF ok1 this] have ok2: "alerts_ok db2" "\<And>inc. r2 = Ok inc \<Longrightarrow> room db2 (ai_ID inc)" by auto
  obtain r3 db3 where g3: "GetIncidentByDedupeKey key db2 = (r3, db3)" by fastforce
  with ok2(1) have ok3: "alerts_ok db3" by (auto dest!: get_key_same)
  show ?thesis
  proof (cases r1)
    case (Inr ex)
    with g onto[OF ok1] show ?thesis by (simp add: upsert_incident_def atry_def Let_def)
  next
    case e1: (Inl e)
    show ?thesis
    proof (cases r2)
      case (Inr inc)
      with e1 g c ok1 ok2 show ?thesis by (simp add: upsert_incident_def atry_def areturn_def araise_def upsert_post_def Let_def)
    next
      case (Inl e2)
      with e1 g c g3 ok1 ok3 onto[OF ok3] show ?thesis
        by (cases r3) (simp_all add: upsert_incident_def atry_def araise_def upsert_post_def Let_def)
    qed
  qed
qed

lemma firings_app: "firings (db\<lparr>ad_events := ad_events db @ [e], ad_nextEvent := n\<rparr>) i
    = firings db i + (if ae_IncidentID e = i \<and> ae_EventType e \<in> fire_types then 1 else 0)"
  by (simp add: firings_def)

lemma append_event_ok:
  assumes d: "alerts_ok d" and r: "room d (ae_IncidentID e)" and k: "ae_EventType e \<in> fire_types"
  shows "alerts_ok (d\<lparr>ad_events := ad_events d @ [e\<lparr>ae_ID := ad_nextEvent d, ae_ActorType := a, ae_CreatedAt := ad_now d\<rparr>], ad_nextEvent := ad_nextEvent d + 1\<rparr>)"
    (is "alerts_ok ?d")
proof -
  obtain y where y: "y \<in> set (ad_incidents d)" "ai_ID y = ae_IncidentID e" "firings d (ae_IncidentID e) < ai_EventCount y"
    using r by (auto simp: room_def)
  have one: "x = y" if "x \<in> set (ad_incidents d)" "ai_ID x = ae_IncidentID e" for x
    using that y d by (auto simp: alerts_ok_def distinct_map inj_on_def)
  have inc: "incident_ok ?d x" if x: "x \<in> set (ad_incidents d)" for x
  proof -
    have "incident_ok d x" using d x by (simp add: alerts_ok_def)
    moreover have "firings ?d (ai_ID x) \<le> ai_EventCount x"
      using calculation one[OF x] y(3) by (auto simp: firings_app incident_ok_def)
    ultimately show ?thesis by (simp add: incident_ok_def)
  qed
  have "ae_IncidentID e < ad_nextIncident d" using d y by (auto simp: alerts_ok_def incident_ok_def)
  with d inc show ?thesis by (auto simp: alerts_ok_def)
qed

lemma firing_event_ok:
  assumes "alerts_ok db" "room db (ai_ID inc)"
  shows "alerts_ok (snd (CreateEvent (firing_event al fi inc ro t) db))"
  unfolding CreateEvent_def
proof (rule astmt_post[of "\<lambda>d. alerts_ok d \<and> room d (ai_ID inc)" db "\<lambda>p. alerts_ok (snd p)"])
  fix d assume d: "alerts_ok d \<and> room d (ai_ID inc)"
  have e: "ae_IncidentID (firing_event al fi inc ro t) = ai_ID inc" "ae_EventType (firing_event al fi inc ro t) \<in> fire_types"
    by (simp_all add: firing_event_def fire_types_def)
  with d append_event_ok[of d "firing_event al fi inc ro t"]
  show "alerts_ok (snd (Ok (), d\<lparr>ad_events := ad_events d @ [(firing_event al fi inc ro t)\<lparr>ae_ID := ad_nextEvent d,
       ae_ActorType := col_default ActorTypeSystem (ae_ActorType (firing_event al fi inc ro t)), ae_CreatedAt := ad_now d\<rparr>],
       ad_nextEvent := ad_nextEvent d + 1\<rparr>))" by simp
qed (use assms in simp_all)

lemma fire_core_ok: "akeeps alerts_ok (fire_core al fi key t)"
proof (rule akeepsI)
  fix db :: alert_db assume ok: "alerts_ok db"
  obtain r db' where u: "upsert_incident al fi key t db = (r, db')" by fastforce
  with upsert_ok[OF ok, of al fi key t] have p: "upsert_post (r, db')" by simp
  show "alerts_ok (snd (fire_core al fi key t db))"
  proof (cases r)
    case (Inl e)
    with u p show ?thesis by (simp add: fire_core_def abind_def upsert_post_def)
  next
    case (Inr x)
    obtain inc n ro where x: "x = (inc, n, ro)" by (cases x)
    with p Inr have "alerts_ok db'" "room db' (ai_ID inc)" by (auto simp: upsert_post_def)
    from firing_event_ok[OF this] u Inr x show ?thesis
      by (auto simp: fire_core_def alert_run createEvent_def split: prod.splits) (metis snd_conv)
  qed
qed

interpretation ok: alert_lasting alerts_ok
  by unfold_locales (simp_all add: fire_core_ok status_ok notified_ok event_ok small_writes_ok delivery_ok delivery_status_ok)

lemma alerts_ok_start: "alerts_ok alert_db0"
  by (simp add: alerts_ok_def alert_db0_def)

text \<open>
  C6. From the empty database on, whatever requests arrive, in which order, and whatever statements and senders
  fail: no two incidents have an identifier or a dedupe key in common, nor two rules a key; the status of
  an incident is known and carries its time stamp; no incident has more firing events than firings counted.
\<close>

theorem alerts_stay_consistent: "alerts_ok (snd (alert_run_all pl rs (e, alert_db0)))"
  by (rule ok.run_kept) (simp add: alerts_ok_start)

section \<open>History\<close>

definition same_incident :: "Incident \<Rightarrow> Incident \<Rightarrow> bool" where
  "same_incident x y = (ai_ID y = ai_ID x \<and> ai_DedupeKey y = ai_DedupeKey x \<and> ai_FirstFiredAt y = ai_FirstFiredAt x \<and>
     ai_Severity y = ai_Severity x \<and> ai_EventCount x \<le> ai_EventCount y)"

definition extends :: "alert_db \<Rightarrow> alert_db \<Rightarrow> bool" where
  "extends db0 db = (prefix (ad_events db0) (ad_events db) \<and> prefix (ad_silences db0) (ad_silences db) \<and>
     (\<forall>x\<in>set (ad_incidents db0). \<exists>y\<in>set (ad_incidents db). same_incident x y))"

lemma same_incident_refl [simp]: "same_incident x x"
  by (simp add: same_incident_def)

lemma extends_refl: "extends db db"
  by (simp add: extends_def) (blast intro: same_incident_refl)

lemma extends_trans: "extends a b \<Longrightarrow> extends b c \<Longrightarrow> extends a c"
  unfolding extends_def same_incident_def by (metis order_trans prefix_order.order_trans)

lemma extends_frame [simp]:
  "extends a (db\<lparr>ad_faults := fs\<rparr>) = extends a db" "extends a (db\<lparr>ad_trace := tr\<rparr>) = extends a db"
  "extends a (db\<lparr>ad_replies := rs\<rparr>) = extends a db" "extends a (db\<lparr>ad_now := t\<rparr>) = extends a db"
  "extends a (db\<lparr>ad_scenarios := sr\<rparr>) = extends a db"
  "extends a (db\<lparr>ad_rules := rl\<rparr>) = extends a db" "extends a (db\<lparr>ad_rules := rl, ad_nextRule := n\<rparr>) = extends a db"
  "extends a (db\<lparr>ad_deliveries := ds\<rparr>) = extends a db" "extends a (db\<lparr>ad_deliveries := ds, ad_nextDelivery := n\<rparr>) = extends a db"
  by (simp_all add: extends_def)

lemma extends_stmt: "(\<And>db. extends db (snd (act db))) \<Longrightarrow> akeeps (extends a) (astmt act)"
  by (rule keeps_stmt) (simp, erule extends_trans)

lemma update_incident_extends:
  assumes "\<And>x. same_incident x (f x)"
  shows "extends db (snd (update_incident i f db))"
proof -
  let ?g = "\<lambda>x. if ai_ID x = i then f x else x"
  have "\<exists>y\<in>?g ` set (ad_incidents db). same_incident x y" if "x \<in> set (ad_incidents db)" for x
    using that assms[of x] by (intro bexI[of _ "?g x"]) auto
  then show ?thesis by (simp add: update_incident_def extends_refl) (simp add: extends_def)
qed

lemma update_extends: "(\<And>x. same_incident x (f x)) \<Longrightarrow> akeeps (extends a) (astmt (update_incident i f))"
  by (rule extends_stmt) (rule update_incident_extends)

lemma status_extends: "akeeps (extends a) (UpdateIncidentStatus i st actor t)"
proof (rule akeepsI)
  fix db assume "extends a db"
  with akeepsD[OF update_extends[of "status_update st actor (or_now t db)" a i] this] show "extends a (snd (UpdateIncidentStatus i st actor t db))"
    by (simp add: UpdateIncidentStatus_def Let_def same_incident_def status_update_def)
qed

lemma stamped_extends:
  "akeeps (extends a) (MarkIncidentNotified i t)" "akeeps (extends a) (ReopenIncident i t sm v th)" "akeeps (extends a) (BumpIncidentFiring i t sm v th)"
  unfolding akeeps_def MarkIncidentNotified_def ReopenIncident_def BumpIncidentFiring_def
  by (auto intro!: akeepsD[OF update_extends] simp: same_incident_def reopen_update_def bump_update_def)

lemma append_extends:
  "akeeps (extends a) (CreateEvent e)" "akeeps (extends a) (CreateSilence sl)" "akeeps (extends a) (CreateIncident x)"
  unfolding CreateEvent_def CreateSilence_def CreateIncident_def CreateAlertIncident_def
  by (rule extends_stmt, force simp: extends_def Let_def intro: same_incident_refl)+

lemma others_extends:
  "akeeps (extends a) (CreateDelivery d)" "akeeps (extends a) (repo_CreateRule r)" "akeeps (extends a) (repo_UpdateRule i r)"
  "akeeps (extends a) (UpdateRuleEnabled i b)" "akeeps (extends a) (repo_DeleteRule i)" "akeeps (extends a) (GetIncidentByDedupeKey k)"
  unfolding CreateDelivery_def repo_CreateRule_def repo_UpdateRule_def UpdateRuleEnabled_def repo_DeleteRule_def GetIncidentByDedupeKey_def
  by (rule extends_stmt, simp add: Let_def update_rule_def found_def extends_refl)+

lemma delivery_extends: "akeeps (extends a) (UpdateDeliveryStatus i st n er sa fa)"
proof (rule akeepsI)
  fix db assume "extends a db"
  moreover have "akeeps (extends a) (astmt (\<lambda>db. if i \<in> dl_ID ` set (ad_deliveries db)
       then (Ok (), db\<lparr>ad_deliveries := map (\<lambda>d. if dl_ID d = i then d\<lparr>dl_Status := st, dl_AttemptCount := n,
              dl_ErrorMessage := er, dl_SentAt := sa, dl_FinishedAt := fa\<rparr> else d) (ad_deliveries db)\<rparr>)
       else (Err AlertNotFound, db)))"
    by (rule extends_stmt) (simp add: extends_refl)
  ultimately show "extends a (snd (UpdateDeliveryStatus i st n er sa fa db))" by (simp add: UpdateDeliveryStatus_def akeepsD)
qed

lemma fire_core_extends: "akeeps (extends a) (fire_core al fi key t)"
  unfolding fire_core_def upsert_incident_def refire_def createEvent_def
  by (intro keep_intros stamped_extends append_extends others_extends)

interpretation ext: alert_lasting "extends a" for a
  by unfold_locales (simp_all add: fire_core_extends status_extends stamped_extends append_extends others_extends delivery_extends)

text \<open>
  C29. History is never rewritten: whatever requests arrive, and whatever fails, the events and silences recorded stay, in
  their order, and so does every incident, with its identifier, key, severity and the time it first fired, its
  count of firings never falling.
\<close>

theorem alert_history_kept: "extends db (snd (alert_run_all pl rs (e, db)))"
  by (rule ext.run_kept) (simp add: extends_refl)

end
