(* ===== verification/Alert_Tick.thy ===== *)
theory Alert_Tick
  imports Alert_Invariant
begin

text \<open>
  What a tick of the evaluator achieves when no statement fails, and when notifications are sent and incidents
  silenced. \<open>alert_kept\<close> is interpreted on the absence of failures, \<open>alert_steady\<close> on an incident being active: it
  stays so under firings and notifications, of its own and of others.
\<close>

section \<open>Active incidents\<close>

definition incident_active :: "alert_db \<Rightarrow> string \<Rightarrow> bool" where
  "incident_active db k = (case find_key db k of None \<Rightarrow> False | Some x \<Rightarrow> ai_Status x \<noteq> IncidentStatusResolved)"

definition calm_active :: "string \<Rightarrow> alert_db \<Rightarrow> bool" where
  "calm_active k db = (ad_faults db = [] \<and> incident_active db k)"

lemma active_frame [simp]:
  "incident_active (db\<lparr>ad_faults := fs\<rparr>) k = incident_active db k" "incident_active (db\<lparr>ad_trace := tr\<rparr>) k = incident_active db k"
  "incident_active (db\<lparr>ad_replies := rs\<rparr>) k = incident_active db k" "incident_active (db\<lparr>ad_rules := rl\<rparr>) k = incident_active db k"
  "incident_active (db\<lparr>ad_rules := rl, ad_nextRule := n\<rparr>) k = incident_active db k"
  "incident_active (db\<lparr>ad_deliveries := ds\<rparr>) k = incident_active db k" "incident_active (db\<lparr>ad_scenarios := sr\<rparr>) k = incident_active db k"
  "incident_active (db\<lparr>ad_deliveries := ds, ad_nextDelivery := n\<rparr>) k = incident_active db k"
  "incident_active (db\<lparr>ad_events := es, ad_nextEvent := n\<rparr>) k = incident_active db k"
  "incident_active (db\<lparr>ad_silences := ss, ad_nextSilence := n\<rparr>) k = incident_active db k"
  by (simp_all add: incident_active_def find_key_def)

lemma find_key_update:
  assumes "\<And>x. ai_DedupeKey (f x) = ai_DedupeKey x"
  shows "find_key (snd (update_incident i f db)) k = map_option (\<lambda>x. if ai_ID x = i then f x else x) (find_key db k)"
proof (cases "i \<in> ai_ID ` set (ad_incidents db)")
  case True
  with assms show ?thesis by (simp add: update_incident_def find_key_def find_map_same)
next
  case False
  then show ?thesis by (cases "find_key db k") (auto simp: update_incident_def find_key_def dest: find_Some_mem)
qed

lemma update_active:
  assumes "\<And>x. ai_DedupeKey (f x) = ai_DedupeKey x" "\<And>x. ai_Status x \<noteq> IncidentStatusResolved \<Longrightarrow> ai_Status (f x) \<noteq> IncidentStatusResolved"
    "incident_active db k"
  shows "incident_active (snd (update_incident i f db)) k"
  using assms by (auto simp: incident_active_def find_key_update split: option.splits)

lemma calm_active_stmt:
  "(\<And>db. incident_active db k \<Longrightarrow> incident_active (snd (act db)) k) \<Longrightarrow> (\<And>db. ad_faults (snd (act db)) = ad_faults db) \<Longrightarrow> akeeps (calm_active k) (astmt act)"
  by (rule keeps_stmt) (simp_all add: calm_active_def)

lemma update_faults [simp]: "ad_faults (snd (update_incident i f db)) = ad_faults db" "ad_faults (snd (update_rule i g db)) = ad_faults db"
  by (simp_all add: update_incident_def update_rule_def)

lemma refires_active:
  "akeeps (calm_active k) (MarkIncidentNotified i t)" "akeeps (calm_active k) (ReopenIncident i t sm v th)"
  "akeeps (calm_active k) (BumpIncidentFiring i t sm v th)"
  unfolding akeeps_def MarkIncidentNotified_def ReopenIncident_def BumpIncidentFiring_def
  by (intro allI impI akeepsD[OF calm_active_stmt], erule update_active[rotated 2];
      simp add: reopen_update_def bump_update_def status_defs)+

lemma find_app: "find P (xs @ ys) = (case find P xs of None \<Rightarrow> find P ys | Some x \<Rightarrow> Some x)"
  by (induction xs) auto

lemma others_active:
  "akeeps (calm_active k) (CreateEvent e)" "akeeps (calm_active k) (CreateSilence sl)" "akeeps (calm_active k) (CreateIncident x)"
  "akeeps (calm_active k) (CreateDelivery d)" "akeeps (calm_active k) (repo_CreateRule r)" "akeeps (calm_active k) (repo_UpdateRule i r)"
  "akeeps (calm_active k) (UpdateRuleEnabled i b)" "akeeps (calm_active k) (repo_DeleteRule i)" "akeeps (calm_active k) (GetIncidentByDedupeKey k')"
  unfolding CreateEvent_def CreateSilence_def CreateIncident_def CreateAlertIncident_def CreateDelivery_def repo_CreateRule_def
    repo_UpdateRule_def UpdateRuleEnabled_def repo_DeleteRule_def GetIncidentByDedupeKey_def
  by (rule calm_active_stmt; simp add: Let_def update_rule_def found_def;
      simp add: incident_active_def find_key_def find_app split: option.splits)+

lemma delivery_stmt:
  assumes "\<And>db ds. P db \<Longrightarrow> P (db\<lparr>ad_deliveries := ds\<rparr>)" "\<And>db. P db \<Longrightarrow> P (db\<lparr>ad_faults := tl (ad_faults db)\<rparr>)"
  shows "akeeps P (UpdateDeliveryStatus i st n er sa fa)"
proof (rule akeepsI)
  fix db assume "P db"
  moreover have "akeeps P (astmt (\<lambda>db. if i \<in> dl_ID ` set (ad_deliveries db)
       then (Ok (), db\<lparr>ad_deliveries := map (\<lambda>d. if dl_ID d = i then d\<lparr>dl_Status := st, dl_AttemptCount := n,
              dl_ErrorMessage := er, dl_SentAt := sa, dl_FinishedAt := fa\<rparr> else d) (ad_deliveries db)\<rparr>)
       else (Err AlertNotFound, db)))"
    using assms by (intro keeps_stmt) simp_all
  ultimately show "P (snd (UpdateDeliveryStatus i st n er sa fa db))" by (simp add: UpdateDeliveryStatus_def akeepsD)
qed

lemma fire_core_active: "akeeps (calm_active k) (fire_core al fi key t)"
  unfolding fire_core_def upsert_incident_def refire_def createEvent_def by (intro keep_intros refires_active others_active)

interpretation act: alert_steady "calm_active k" for k
proof unfold_locales
  show "akeeps (calm_active k) (UpdateDeliveryStatus i st n er sa fa)" for i st n er sa fa
    by (rule delivery_stmt) (simp_all add: calm_active_def)
qed (simp_all add: refires_active others_active fire_core_active, simp_all add: calm_active_def)

section \<open>Without failures\<close>

definition calm :: "alert_db \<Rightarrow> bool" where
  "calm db = (ad_faults db = [])"

lemma calm_stmt: "(\<And>db. ad_faults (snd (act db)) = ad_faults db) \<Longrightarrow> akeeps calm (astmt act)"
  by (rule keeps_stmt) (simp_all add: calm_def)

lemma writes_calm:
  "akeeps calm (CreateEvent e)" "akeeps calm (CreateSilence sl)" "akeeps calm (CreateIncident x)"
  "akeeps calm (CreateDelivery d)" "akeeps calm (repo_CreateRule r)" "akeeps calm (repo_UpdateRule i rw)"
  "akeeps calm (UpdateRuleEnabled i b)" "akeeps calm (repo_DeleteRule i)" "akeeps calm (GetIncidentByDedupeKey k)"
  unfolding CreateEvent_def CreateSilence_def CreateIncident_def CreateAlertIncident_def CreateDelivery_def repo_CreateRule_def
    repo_UpdateRule_def UpdateRuleEnabled_def repo_DeleteRule_def GetIncidentByDedupeKey_def
  by (rule calm_stmt, simp add: Let_def found_def)+

lemma stamps_calm:
  "akeeps calm (MarkIncidentNotified i t)" "akeeps calm (ReopenIncident i t sm v th)" "akeeps calm (BumpIncidentFiring i t sm v th)"
  "akeeps calm (UpdateIncidentStatus i st actor t)"
  unfolding akeeps_def MarkIncidentNotified_def ReopenIncident_def BumpIncidentFiring_def UpdateIncidentStatus_def Let_def
  by (auto intro!: akeepsD[OF calm_stmt])

lemma fire_core_calm: "akeeps calm (fire_core al fi key t)"
  unfolding fire_core_def upsert_incident_def refire_def createEvent_def by (intro keep_intros stamps_calm writes_calm)

interpretation calm: alert_kept calm
proof unfold_locales
  show "akeeps calm (UpdateDeliveryStatus i st n er sa fa)" for i st n er sa fa by (rule delivery_stmt) (simp_all add: calm_def)
qed (simp_all add: stamps_calm writes_calm fire_core_calm, simp_all add: calm_def)

text \<open>A firing whose statements succeed leaves its incident active.\<close>

abbreviation fired_keys :: "FiringInput list \<Rightarrow> string set" where
  "fired_keys fis \<equiv> fi_DedupeKey ` {fi \<in> set fis. validateFiring fi = None}"

lemma find_keyD: "find_key db k = Some x \<Longrightarrow> x \<in> set (ad_incidents db) \<and> ai_DedupeKey x = k"
  by (auto simp: find_key_def dest: find_Some_mem)

lemma refire_opens:
  assumes "calm db" "find_key db key = Some x"
  shows "\<exists>inc ro db'. refire fi t x db = (Ok (inc, ro), db') \<and> calm_active key db'"
proof -
  let ?f = "if ai_Status x = IncidentStatusResolved then reopen_update (ad_now db) (or_now t db) (fi_Summary fi) (fi_Value fi) (fi_Threshold fi)
    else bump_update (ad_now db) (or_now t db) (fi_Summary fi) (fi_Value fi) (fi_Threshold fi)"
  obtain r db' where u: "update_incident (ai_ID x) ?f db = (r, db')" by fastforce
  then have "r = Ok ()" using find_keyD[OF assms(2)] by (auto simp: update_incident_def split: if_splits)
  have "find_key (snd (update_incident (ai_ID x) ?f db)) key = Some (?f x)"
    using assms(2) by (subst find_key_update) (simp_all add: reopen_update_def bump_update_def)
  then have "incident_active db' key" unfolding u by (simp add: incident_active_def reopen_update_def bump_update_def status_defs)
  moreover have "ad_faults (snd (update_incident (ai_ID x) ?f db)) = []" using assms(1) by (simp only: update_faults calm_def)
  ultimately have "calm_active key db'" unfolding u by (simp add: calm_active_def)
  with u \<open>r = Ok ()\<close> assms(1) show ?thesis
    by (cases "ai_Status x = IncidentStatusResolved")
      (auto simp: refire_def ReopenIncident_def BumpIncidentFiring_def abind_def areturn_def astmt_calm calm_def)
qed

lemma upsert_opens:
  assumes "calm db"
  shows "\<exists>r db'. upsert_incident al fi key t db = (Ok r, db') \<and> calm_active key db'"
proof (cases "find_key db key")
  case (Some x)
  from refire_opens[OF assms Some, of fi t] obtain inc ro db' where "refire fi t x db = (Ok (inc, ro), db')" "calm_active key db'" by blast
  with assms Some show ?thesis
    by (auto simp: upsert_incident_def GetIncidentByDedupeKey_def found_def astmt_calm calm_def alert_run Let_def)
next
  case None
  then have "key \<notin> ai_DedupeKey ` set (ad_incidents db)" by (auto simp: find_key_def find_None_iff)
  with None assms show ?thesis
    by (simp add: upsert_incident_def GetIncidentByDedupeKey_def CreateIncident_def CreateAlertIncident_def found_def astmt_calm calm_def alert_run Let_def
        calm_active_def incident_active_def find_key_def find_app)
      (auto simp: new_incident_def status_defs)
qed

lemma fire_opens:
  assumes "calm db" "uc_repo (pe_usecase e)" "validateFiring fi = None" "fi_DedupeKey fi \<noteq> []"
  shows "calm_active (fi_DedupeKey fi) (snd (fire_one pl e fi db))"
proof -
  let ?al = "alert_lib.truncate pl" and ?t = "if fi_OccurredAt fi = 0 then ad_now db else fi_OccurredAt fi"
  from upsert_opens[OF assms(1), of ?al fi "fi_DedupeKey fi" ?t] obtain inc n ro db1
    where u: "upsert_incident ?al fi (fi_DedupeKey fi) ?t db = (Ok (inc, n, ro), db1)" "calm_active (fi_DedupeKey fi) db1" by auto
  let ?rest = "\<lambda>r. case r of Err _ \<Rightarrow> areturn () | Ok res \<Rightarrow> pipeline_notify pl e res (fi_Summary fi) (fi_ScopeType fi) (fi_OccurredAt fi)"
  let ?later = "atry (atry (createEvent (firing_event ?al fi inc ro ?t)) (\<lambda>_. after_firing ?al (pe_usecase e) ?t (inc, n, ro))) ?rest"
  have "fire_one pl e fi db = ?later db1"
    using u(1) assms by (simp add: fire_one_def RecordFiring_def when_wired_def effective_key_def atry_def abind_def anow_def Let_def)
  moreover have "akeeps (calm_active (fi_DedupeKey fi)) ?later"
    unfolding after_firing_def tell_workflows_def pipeline_notify_def createEvent_def
    by (intro keep_intros others_active act.silence_match_kept act.effect_kept act.MaybeNotify_kept)
  ultimately show ?thesis using u(2) by (simp add: akeepsD)
qed

text \<open>A system resolution closes the incident of its key, opens none, and leaves the incidents of other keys alone.\<close>

lemma status_active:
  assumes "incident_active (snd (UpdateIncidentStatus i IncidentStatusResolved actor t db)) k"
  shows "incident_active db k"
proof -
  let ?f = "status_update IncidentStatusResolved actor (or_now t db)"
  have u: "incident_active d k" if "incident_active (snd (update_incident i ?f d)) k" for d
    using that by (cases "find_key d k") (auto simp: incident_active_def find_key_update status_update_def Let_def split: if_splits)
  have "(\<lambda>p. incident_active (snd p) k \<longrightarrow> incident_active db k) (astmt (update_incident i ?f) db)"
    by (rule astmt_post[of "\<lambda>d. incident_active d k \<longrightarrow> incident_active db k"]) (use u in auto)
  with assms show ?thesis by (simp add: UpdateIncidentStatus_def validateIncidentStatus_def Let_def)
qed

lemma event_active [simp]: "incident_active (snd (createEvent e db)) k = incident_active db k"
  by (simp add: createEvent_def CreateEvent_def astmt_def Let_def split: list.splits)

lemma get_active [simp]: "incident_active (snd (GetIncidentByDedupeKey k' db)) k = incident_active db k"
  by (simp add: GetIncidentByDedupeKey_def astmt_def found_def Let_def split: list.splits)

lemma resolve_inactive: "akeeps (\<lambda>db. \<not> incident_active db k) (SystemResolveIncident u k' reason t)"
proof -
  have "akeeps (\<lambda>db. \<not> incident_active db k) (UpdateIncidentStatus i IncidentStatusResolved actor t)" for i actor t
    by (rule akeepsI) (use status_active in blast)
  moreover have "akeeps (\<lambda>db. \<not> incident_active db k) (createEvent e)" "akeeps (\<lambda>db. \<not> incident_active db k) (GetIncidentByDedupeKey k')" for e
    by (simp_all add: akeeps_def)
  ultimately show ?thesis unfolding SystemResolveIncident_def by (intro keep_intros)
qed

lemma resolve_run:
  assumes "calm db" "uc_repo u" "k \<noteq> []"
  shows "snd (SystemResolveIncident u k reason t db) = (let t' = (if t = 0 then ad_now db else t) in case find_key db k of None \<Rightarrow> db
    | Some x \<Rightarrow> if ai_Status x = IncidentStatusResolved then db
        else snd (createEvent (blank_event\<lparr>ae_IncidentID := ai_ID x, ae_EventType := EventTypeResolved,
                ae_StatusAfter := IncidentStatusResolved, ae_Severity := ai_Severity x, ae_Title := ai_Title x,
                ae_ActorType := ActorTypeSystem, ae_Reason := reason, ae_OccurredAt := t'\<rparr>)
               (snd (update_incident (ai_ID x) (status_update IncidentStatusResolved None (or_now t' db)) db))))"
proof (cases "find_key db k")
  case None
  with assms show ?thesis
    by (simp add: SystemResolveIncident_def when_wired_def GetIncidentByDedupeKey_def found_def astmt_calm calm_def alert_run Let_def)
next
  case (Some x)
  have "update_incident (ai_ID x) f db = (Ok (), snd (update_incident (ai_ID x) f db))" for f
    using find_keyD[OF Some] by (simp add: update_incident_def)
  then have "UpdateIncidentStatus (ai_ID x) IncidentStatusResolved None t' db
      = (Ok (), snd (update_incident (ai_ID x) (status_update IncidentStatusResolved None (or_now t' db)) db))" for t'
    using assms(1) by (simp add: UpdateIncidentStatus_def validateIncidentStatus_def astmt_calm calm_def)
  then have u: "abind (UpdateIncidentStatus (ai_ID x) IncidentStatusResolved None t') f db
      = f () (snd (update_incident (ai_ID x) (status_update IncidentStatusResolved None (or_now t' db)) db))" for t' and f :: "unit \<Rightarrow> bool alert_op"
    by (simp add: abind_def)
  from assms Some show ?thesis
    by (simp add: SystemResolveIncident_def when_wired_def GetIncidentByDedupeKey_def found_def astmt_calm calm_def atry_def anow_def areturn_def
        Let_def u case_prod_unfold)
qed

lemma resolve_closes:
  assumes "calm db" "uc_repo u" "k \<noteq> []"
  shows "\<not> incident_active (snd (SystemResolveIncident u k reason t db)) k"
proof (cases "find_key db k")
  case (Some x)
  then show ?thesis
    by (simp add: resolve_run[OF assms] Let_def) (simp add: incident_active_def find_key_update status_update_def Let_def status_defs)
qed (simp add: resolve_run[OF assms] incident_active_def)

lemma resolve_other:
  assumes "calm db" "uc_repo u" "k' \<noteq> []" "alerts_ok db" "k \<noteq> k'" "incident_active db k"
  shows "incident_active (snd (SystemResolveIncident u k' reason t db)) k"
proof (cases "find_key db k'")
  case (Some y)
  from assms(6) obtain x where x: "find_key db k = Some x" by (auto simp: incident_active_def split: option.splits)
  have "ai_ID x \<noteq> ai_ID y" using find_keyD[OF x] find_keyD[OF Some] assms(4,5) by (auto simp: alerts_ok_def distinct_map inj_on_def)
  with Some x assms(6) show ?thesis
    by (simp add: resolve_run[OF assms(1-3)] Let_def) (simp add: incident_active_def find_key_update)
qed (use assms in \<open>simp add: resolve_run[OF assms(1-3)]\<close>)

section \<open>A tick\<close>

lemma aeach_Cons: "snd (aeach f (x # xs) db) = snd (aeach f xs (snd (f x db)))"
  by (simp add: atry_def case_prod_unfold)

lemma fires_open:
  assumes "calm db" "uc_repo (pe_usecase e)" "k \<in> fired_keys fis" "k \<noteq> []"
  shows "calm_active k (snd (aeach (fire_one pl e) fis db))"
  using assms
proof (induction fis arbitrary: db)
  case (Cons fi fis)
  let ?db = "snd (fire_one pl e fi db)"
  have c: "calm ?db" by (rule akeepsD[OF calm.fire_one_kept Cons.prems(1)])
  show ?case
  proof (cases "k = fi_DedupeKey fi \<and> validateFiring fi = None")
    case True
    with Cons.prems have "calm_active k ?db" by (auto intro: fire_opens)
    then show ?thesis unfolding aeach_Cons by (rule akeepsD[OF keeps_each[OF act.fire_one_kept]])
  next
    case False
    then have "k \<in> fired_keys fis" using Cons.prems(3) by auto
    with Cons c show ?thesis unfolding aeach_Cons by simp
  qed
qed simp

abbreviation close_all :: "AlertUsecase \<Rightarrow> string \<Rightarrow> instant \<Rightarrow> string list \<Rightarrow> unit alert_op" where
  "close_all u reason now \<equiv> aeach (\<lambda>k. abind (SystemResolveIncident u k reason now) (\<lambda>_. areturn ()))"

lemma snd_close: "snd (abind m (\<lambda>_. areturn ()) db) = snd (m db)"
  by (simp add: abind_def areturn_def split: prod.splits sum.splits)

lemma sweep_tracks:
  assumes "calm db" "alerts_ok db" "uc_repo u" "[] \<notin> set ks" "k \<in> set ks \<or> incident_active db k"
  shows "incident_active (snd (close_all u reason now ks db)) k = (k \<notin> set ks)"
  using assms
proof (induction ks arbitrary: db)
  case Nil
  then show ?case by (simp add: areturn_def)
next
  case (Cons k' ks)
  let ?db = "snd (SystemResolveIncident u k' reason now db)"
  have c: "calm ?db" "alerts_ok ?db"
    using Cons.prems(1,2) by (blast intro: akeepsD[OF calm.SystemResolve_kept] akeepsD[OF ok.SystemResolve_kept])+
  have run: "snd (close_all u reason now (k' # ks) db) = snd (close_all u reason now ks ?db)" unfolding aeach_Cons snd_close ..
  show ?case
  proof (cases "k = k'")
    case True
    have "\<not> incident_active ?db k" unfolding True by (rule resolve_closes) (use Cons.prems in auto)
    then have "\<not> incident_active (snd (close_all u reason now ks ?db)) k"
      by (rule akeepsD[OF keeps_each[OF keeps_bind[OF resolve_inactive keeps_return]]])
    with True show ?thesis unfolding run by simp
  next
    case False
    with Cons.prems have "k \<in> set ks \<or> incident_active ?db k" by (auto intro: resolve_other)
    with Cons.IH[OF c Cons.prems(3)] Cons.prems(4) False show ?thesis unfolding run by simp
  qed
qed

lemma input_key [simp]: "fi_DedupeKey (base_input rule scope m summary now) \<noteq> []"
  by (simp add: base_input_def)

lemma raw_key [simp]: "fi_DedupeKey (raw_input pl rule now ent) \<noteq> []"
  by (simp add: raw_input_def Let_def case_prod_unfold)

lemma fire_and_sweep_tracks:
  assumes "calm db" "alerts_ok db" "uc_repo (pe_usecase e)" "[] \<notin> set (prev_keys e rule)" "k \<noteq> []"
    and "k \<in> fired_keys fis \<or> k \<in> set (prev_keys e rule) - fi_DedupeKey ` set fis"
  shows "incident_active (snd (fire_and_sweep pl rule reason fis now e db)) k = (k \<in> fi_DedupeKey ` set fis)"
proof -
  let ?db = "snd (aeach (fire_one pl e) fis db)"
  have "calm ?db" by (rule akeepsD[OF keeps_each[OF calm.fire_one_kept] assms(1)])
  moreover have "alerts_ok ?db" by (rule akeepsD[OF keeps_each[OF ok.fire_one_kept] assms(2)])
  moreover have "incident_active ?db k" if "k \<in> fired_keys fis"
    using fires_open[OF assms(1,3) that assms(5), of pl] by (simp add: calm_active_def)
  ultimately show ?thesis using assms(3,4,6) unfolding fire_and_sweep_def sweepRecovery_def snd_conv
    by (subst sweep_tracks) auto
qed


definition demo_pipe_lib :: pipe_lib where
  "demo_pipe_lib = \<lparr>al_Marshal = (\<lambda>_. None), al_labels = (\<lambda>_. None), al_ids = (\<lambda>_. None), al_ParseDuration = (\<lambda>s. if s = ''1h'' then Some 3600 else None),
     al_ParseRFC3339 = (\<lambda>_. None), al_sha256_hex = (\<lambda>s. s),
     rl_Unmarshal = (\<lambda>s. None), rl_Sscanf = (\<lambda>_. None), rl_fmt_g = (\<lambda>_. ''9''), rl_fmt_q = (\<lambda>s. s), rl_int = (\<lambda>_. 0), rl_float = (\<lambda>n. Fin (of_int n)), rl_mul = (\<lambda>a b. a),
     pl_ParseFloat = (\<lambda>_. Fin 0), pl_fmt_f = (\<lambda>_ _. ''9''), pl_sub = (\<lambda>a b. a), pl_div = (\<lambda>a b. a)\<rparr>"

definition demo_raw :: MetricRawRule where
  "demo_raw = \<lparr>rb_ID = 1, rb_RuleKey = ''down'', rb_Name = ''down'', rb_Severity = ''critical'', rb_ScopeType = ''global'',
     rb_RunbookURL = [], rb_Labels = [], mr_Expr = ''up == 0''\<rparr>"

definition demo_evaluator :: pipeline where
  "demo_evaluator = NewPipelineEvaluator demo_usecase \<lparr>no_Notifier = None, no_Resolver = None, no_DefaultChannels = [], no_Cooldown = 0, no_Inhibitor = False\<rparr>"

definition demo_answer :: "string \<Rightarrow> string \<Rightarrow> prom_answer" where
  "demo_answer job q = PromVector [([(''job'', job)], Some ''0'')]"

text \<open>The first tick finds series \<open>a\<close>, the second \<open>b\<close>.\<close>

definition demo_tick :: "pipeline \<times> alert_db" where
  "demo_tick = evaluate_raw demo_pipe_lib (demo_answer ''a'') 5 demo_raw (demo_evaluator, alert_db0)"


end
