(* ===== verification/Alert_Gates.thy ===== *)
theory Alert_Gates
  imports Alert_Tick
begin

text \<open>
  What keeps a notification from being sent, and where silences and recovery go further than they should: silencing
  one incident, an outage of the metrics server, and failed deliveries to a channel of the database.
\<close>

section \<open>Notifications\<close>

definition quiet :: "alert_effect list \<Rightarrow> alert_db \<Rightarrow> bool" where
  "quiet tr db = (ad_trace db = tr)"

lemma event_quiet: "akeeps (quiet tr) (createEvent e)" "akeeps (quiet tr) (RecordRepeatSuppressed i t reason)"
proof -
  show "akeeps (quiet tr) (createEvent e)" for e
    unfolding createEvent_def CreateEvent_def by (rule keeps_stmt) (simp_all add: quiet_def)
  then show "akeeps (quiet tr) (RecordRepeatSuppressed i t reason)" unfolding RecordRepeatSuppressed_def by (intro keep_intros)
qed

text \<open>The firings of the incident's rule that the send policy counts at time \<open>t\<close>.\<close>

definition recent_fires :: "alert_db \<Rightarrow> Incident \<Rightarrow> AlertRule \<Rightarrow> instant \<Rightarrow> nat" where
  "recent_fires db inc rule t =
    length (filter (event_counted db EventTypeFiring (t - ar_NotifyWindowSeconds rule * nanos) (ai_Rule inc) []) (ad_events db))"

definition enough_fires :: "alert_db \<Rightarrow> Incident \<Rightarrow> instant \<Rightarrow> bool" where
  "enough_fires db inc t = (ai_Rule inc = [] \<or> (case find_rule_key db (ai_Rule inc) of None \<Rightarrow> True | Some rule \<Rightarrow>
     ar_NotifyWindowSeconds rule > 0 \<and> ar_NotifyMinFires rule > 0 \<longrightarrow> ar_NotifyMinFires rule \<le> int (recent_fires db inc rule t)))"

definition inhibited :: "alert_db \<Rightarrow> Incident \<Rightarrow> bool" where
  "inhibited db inc =
    (if ai_ScopeType inc = RuleScopeHost \<and> ai_Rule inc \<noteq> ''edge_offline'' \<and> ai_DeviceID inc \<noteq> None
     then incident_active db (''host:'' @ dec (the (ai_DeviceID inc)) @ '':edge_offline'')
     else if ai_ScopeType inc = RuleScopeMonitoringPipeline \<and> HasPrefix (ai_DedupeKey inc) ''pipeline:scrape_down:''
     then incident_active db ''pipeline:prom_ingest_fail'' else False)"

lemma dampened_calm:
  assumes "calm db"
  shows "\<exists>x. dampened inc t db = (Ok x, db) \<and> (x = None) = enough_fires db inc t"
  using assms
  by (auto simp: dampened_def lookupRuleForIncident_def GetRuleByKey_def CountEventsByType_def found_def calm_def astmt_calm alert_run
      enough_fires_def recent_fires_def split: option.splits)

lemma activeIncident_calm:
  assumes "calm db"
  shows "\<exists>x. activeIncident key db = (Ok x, db) \<and> (x \<noteq> None) = incident_active db key"
  using assms by (auto simp: activeIncident_def GetIncidentByDedupeKey_def found_def calm_def astmt_calm alert_run incident_active_def split: option.splits)

lemma Suppress_calm:
  assumes "calm db"
  shows "\<exists>x. Suppress inc db = (Ok x, db) \<and> (x \<noteq> None) = inhibited db inc"
  using activeIncident_calm[OF assms, of "''host:'' @ dec (the (ai_DeviceID inc)) @ '':edge_offline''"]
    activeIncident_calm[OF assms, of "''pipeline:prom_ingest_fail''"]
  by (auto simp: Suppress_def inhibited_def abind_def areturn_def split: option.splits)

text \<open>The time a notification is judged at.\<close>

definition notify_time :: "Message \<Rightarrow> alert_db \<Rightarrow> instant" where
  "notify_time msg db = (if nm_OccurredAt msg = 0 then ad_now db else nm_OccurredAt msg)"

text \<open>The cooldown counts from the last notification of the incident; without one, or without a cooldown, it is over.\<close>

definition cooldown_over :: "Incident \<Rightarrow> int \<Rightarrow> instant \<Rightarrow> bool" where
  "cooldown_over inc cooldown t \<longleftrightarrow> (\<forall>last. ai_LastNotifiedAt inc = Some last \<and> last \<noteq> 0 \<and> 0 < cooldown \<longrightarrow> last + cooldown \<le> t)"

text \<open>The gates that hold whatever fails, and those that are read from the database.\<close>

definition firm_gates :: "AlertUsecase \<Rightarrow> FiringResult \<Rightarrow> Message \<Rightarrow> NotifyOpts \<Rightarrow> alert_db \<Rightarrow> bool" where
  "firm_gates u res msg opts db \<longleftrightarrow> uc_repo u \<and> no_Notifier opts \<noteq> None \<and> \<not> fr_Silenced res \<and>
     cooldown_over (fr_Incident res) (no_Cooldown opts) (notify_time msg db)"

definition soft_gates :: "FiringResult \<Rightarrow> Message \<Rightarrow> NotifyOpts \<Rightarrow> alert_db \<Rightarrow> bool" where
  "soft_gates res msg opts db \<longleftrightarrow>
     enough_fires db (fr_Incident res) (notify_time msg db) \<and> \<not> (no_Inhibitor opts \<and> inhibited db (fr_Incident res))"

lemma CooldownExceeded_iff: "CooldownExceeded inc cooldown t = cooldown_over inc cooldown t"
  by (auto simp: CooldownExceeded_def cooldown_over_def split: option.splits)

lemma suppressed_quiet: "ad_trace (snd (atry (RecordRepeatSuppressed i t reason) (\<lambda>_. areturn ()) db)) = ad_trace db"
  "ad_trace (snd (atry (createEvent e) (\<lambda>_. areturn ()) db)) = ad_trace db"
proof -
  have "akeeps (quiet tr) (atry (RecordRepeatSuppressed i t reason) (\<lambda>_. areturn ()))" "akeeps (quiet tr) (atry (createEvent e) (\<lambda>_. areturn ()))" for tr
    by (intro keep_intros event_quiet)+
  from this(1)[of "ad_trace db", THEN akeepsD, of db] this(2)[of "ad_trace db", THEN akeepsD, of db]
  show "ad_trace (snd (atry (RecordRepeatSuppressed i t reason) (\<lambda>_. areturn ()) db)) = ad_trace db"
    "ad_trace (snd (atry (createEvent e) (\<lambda>_. areturn ()) db)) = ad_trace db" by (simp_all add: quiet_def)
qed

lemma gated_calm:
  assumes "calm db"
  shows "if enough_fires db inc t \<and> \<not> (no_Inhibitor opts \<and> inhibited db inc)
    then gated_notify al r msg inc t opts db = notify_all al r msg inc t opts db
    else ad_trace (snd (gated_notify al r msg inc t opts db)) = ad_trace db"
proof -
  obtain x where d: "dampened inc t db = (Ok x, db)" "(x = None) = enough_fires db inc t" using dampened_calm[OF assms] by blast
  obtain y where s: "Suppress inc db = (Ok y, db)" "(y \<noteq> None) = inhibited db inc" using Suppress_calm[OF assms] by blast
  show ?thesis using d s suppressed_quiet by (cases x; cases y) (auto simp: gated_notify_def abind_def areturn_def)
qed


definition demo_router :: notify_router where
  "demo_router = \<lparr>nr_enabled = True, nr_defaults = [''ops''], nr_channels = [''ops'']\<rparr>"

definition demo_opts :: NotifyOpts where
  "demo_opts = \<lparr>no_Notifier = Some demo_router, no_Resolver = None, no_DefaultChannels = [''ops''], no_Cooldown = 600 * nanos, no_Inhibitor = True\<rparr>"

definition demo_incident :: Incident where
  "demo_incident = (new_incident (alert_lib.truncate demo_pipe_lib) (raw_input demo_pipe_lib demo_raw 5 ([(''job'', ''a'')], Some ''0'')) ''pipeline:down:job=a'' 5)
     \<lparr>ai_ID := 1\<rparr>"

definition demo_firing :: "Incident \<Rightarrow> FiringResult" where
  "demo_firing inc = \<lparr>fr_Incident = inc, fr_IsNew = True, fr_IsReopen = False, fr_Silenced = False, fr_SilencedBy = None\<rparr>"


section \<open>Silences\<close>

text \<open>
  What silencing an incident leaves behind: a silence that is active up to the end asked for and matches every incident of the
  same kind of scope, while the incident itself is marked silenced until now.
\<close>

lemma silence_effect:
  assumes c: "calm db" and run: "SilenceIncident al u i operator until reason db = (Ok (), db')"
    and inc: "find_incident db i = Some inc" and ends: "parseSilenceUntil al (ad_now db) until = Some ends"
  shows "\<exists>s\<in>set (ad_silences db'). (\<forall>t. ad_now db \<le> t \<and> t < ends \<longrightarrow> silence_active t s) \<and>
      (\<forall>x. ai_ScopeType x = ai_ScopeType inc \<longrightarrow> silenceMatches s x)"
    and "\<exists>y. find_incident db' i = Some y \<and> ai_SilencedUntil y = Some (ad_now db)"
proof -
  let ?f = "status_update IncidentStatusSilenced (Some operator) (ad_now db)"
  let ?row = "silence_row inc (TrimSpace reason) operator (ad_now db) ends"
  have i: "i \<in> ai_ID ` set (ad_incidents db)" using inc by (auto simp: find_incident_def find_Some_iff)
  have g: "GetIncident u i db = (Ok inc, db)" if "uc_repo u" "i \<noteq> 0"
    using that c inc by (simp add: GetIncident_def when_wired_def GetIncidentByID_def found_def astmt_calm calm_def)
  have or: "or_now (ad_now db) db = ad_now db" by (simp add: or_now_def)
  have st: "UpdateIncidentStatus i IncidentStatusSilenced (Some operator) (ad_now db) db
      = (Ok (), db\<lparr>ad_incidents := map (\<lambda>x. if ai_ID x = i then ?f x else x) (ad_incidents db)\<rparr>)"
    using c i by (simp add: UpdateIncidentStatus_def validateIncidentStatus_def astmt_calm calm_def update_incident_def or)
  from run have w: "uc_repo u" "i \<noteq> 0"
    by (auto simp: SilenceIncident_def when_wired_def GetIncident_def abind_def araise_def split: if_splits)
  have db': "\<exists>es n. db' = db\<lparr>ad_incidents := map (\<lambda>x. if ai_ID x = i then ?f x else x) (ad_incidents db),
      ad_silences := ad_silences db @ [?row\<lparr>as_ID := ad_nextSilence db, as_Status := col_default SilenceStatusActive (as_Status ?row)\<rparr>], ad_nextSilence := ad_nextSilence db + 1, ad_events := es, ad_nextEvent := n\<rparr>"
    using run w ends c
    by (auto simp: SilenceIncident_def when_wired_def g[OF w] st anow_def Let_def araise_def
        abind_def CreateSilence_def createEvent_def CreateEvent_def astmt_def calm_def split: if_splits)
  then show "\<exists>s\<in>set (ad_silences db'). (\<forall>t. ad_now db \<le> t \<and> t < ends \<longrightarrow> silence_active t s) \<and>
      (\<forall>x. ai_ScopeType x = ai_ScopeType inc \<longrightarrow> silenceMatches s x)"
    by (auto simp: silence_row_def silence_active_def silenceMatches_def)
  have "find_incident db' i = map_option (\<lambda>x. if ai_ID x = i then ?f x else x) (find_incident db i)"
    using db' by (auto simp: find_incident_def find_map_same)
  moreover have "ai_ID inc = i" using inc by (auto simp: find_incident_def find_Some_iff)
  ultimately show "\<exists>y. find_incident db' i = Some y \<and> ai_SilencedUntil y = Some (ad_now db)"
    using inc by (simp add: status_update_def Let_def status_defs)
qed

lemma match_silenced:
  assumes "calm db" "s \<in> set (ad_silences db)" "silence_active t s" "silenceMatches s x" "t \<noteq> 0"
  shows "\<exists>sid. matchSilence x t db = (Ok (True, sid), db)"
proof -
  have "find (\<lambda>s. silenceMatches s x) (rev (filter (silence_active t) (ad_silences db))) \<noteq> None"
    using assms(2-4) by (auto simp: find_None_iff)
  then show ?thesis using assms(1,5)
    by (auto simp: matchSilence_def ListActiveSilences_def astmt_calm calm_def alert_run or_now_def)
qed

text \<open>A recorded firing asks for the silences of its incident at its time, in a database that extends the one it began with.\<close>

lemma firing_silenced:
  assumes "RecordFiring al u fi db = (Ok res, db')"
  shows "\<exists>db1 sid. extends db db1 \<and> (calm db \<longrightarrow> calm db1) \<and>
    fst (matchSilence (fr_Incident res) (if fi_OccurredAt fi = 0 then ad_now db else fi_OccurredAt fi) db1) = Ok (fr_Silenced res, sid)"
proof -
  let ?t = "if fi_OccurredAt fi = 0 then ad_now db else fi_OccurredAt fi"
  from assms obtain x n ro db1 where f: "fire_core al fi (effective_key fi) ?t db = (Ok (x, n, ro), db1)" and a: "after_firing al u ?t (x, n, ro) db1 = (Ok res, db')"
    by (auto simp: RecordFiring_core when_wired_def anow_def abind_def araise_def Let_def split: if_splits option.splits prod.splits sum.splits)
  from a obtain sid where "fst (matchSilence x ?t db1) = Ok (fr_Silenced res, sid)" and x: "fr_Incident res = x"
    by (auto simp: after_firing_def abind_def areturn_def split: prod.splits sum.splits)
  moreover have "extends db db1" using akeepsD[OF fire_core_extends extends_refl] f by (metis snd_conv)
  moreover have "calm db1" if "calm db" using akeepsD[OF fire_core_calm that] f by (metis snd_conv)
  ultimately show ?thesis by blast
qed


text \<open>The silence was asked for \<open>pipeline:down:job=a\<close>; an unrelated rule of the same scope falls under it.\<close>

definition demo_other :: FiringInput where
  "demo_other = (base_input (demo_raw\<lparr>rb_RuleKey := ''disk''\<rparr>) ''global'' [(''job'', ''z'')] ''disk full'' 20)"

definition demo_silenced :: alert_db where
  "demo_silenced = snd (SilenceIncident (alert_lib.truncate demo_pipe_lib) demo_usecase 1 7 ''1h'' ''planned'' (snd demo_tick))"


section \<open>Outages\<close>

text \<open>
  C37. While the metrics server cannot be reached, a raw metric rule is left alone, but a burn-rate rule has its active incident
  resolved, as if the objective were met again.
\<close>

theorem burn_rate_outage_resolves:
  assumes "calm db" "uc_repo (pe_usecase e)" "\<forall>q. pq q = PromError" "mb_Burns rule \<noteq> []" "incident_active db (burn_key rule)"
  shows "evaluate_raw pl pq now raw (e, db) = (e, db) \<and> \<not> incident_active (snd (evaluate_burn pl pq now rule (e, db))) (burn_key rule)"
proof -
  obtain w mult bs where "mb_Burns rule = (w, mult) # bs" using assms(4) by (metis neq_Nil_conv surj_pair)
  then have "evaluate_burn pl pq now rule (e, db)
      = (e, snd (SystemResolveIncident (pe_usecase e) (burn_key rule) ''burn_rate cleared: burn_rate query failed'' now db))"
    using assms(3) by (simp add: evaluate_burn_def)
  moreover have "burn_key rule \<noteq> []" by (simp add: burn_key_def)
  ultimately show ?thesis using resolve_closes[OF assms(1,2)] assms(3) by (simp add: evaluate_raw_def)
qed

definition demo_burn :: MetricBurnRateRule where
  "demo_burn = \<lparr>rb_ID = 2, rb_RuleKey = ''slo'', rb_Name = ''slo'', rb_Severity = ''critical'', rb_ScopeType = ''global'', rb_RunbookURL = [], rb_Labels = [],
     mb_SLI = ''good/all'', mb_SLO = Fin 99, mb_Burns = [(''5m'', Fin 14)]\<rparr>"

definition demo_burning :: alert_db where
  "demo_burning = snd (evaluate_burn demo_pipe_lib (demo_answer ''a'') 5 demo_burn (demo_evaluator, alert_db0))"

theorem burn_rate_outage_resolves_witness:
  "incident_active demo_burning (burn_key demo_burn) \<and>
   \<not> incident_active (snd (evaluate_burn demo_pipe_lib (\<lambda>_. PromError) 9 demo_burn (demo_evaluator, demo_burning))) (burn_key demo_burn)"
proof -
  have "calm demo_burning" unfolding demo_burning_def by (rule calm.rule_steps_kept) (simp add: calm_def alert_db0_def)
  moreover have "uc_repo (pe_usecase demo_evaluator)" "mb_Burns demo_burn \<noteq> []" "incident_active demo_burning (burn_key demo_burn)"
    by code_simp+
  ultimately show ?thesis
    using burn_rate_outage_resolves[of demo_burning demo_evaluator "\<lambda>_. PromError" demo_burn demo_pipe_lib 9 demo_raw] by simp
qed

end
