(* ===== verification/Guard_Redact.thy ===== *)
theory Guard_Redact
  imports Go_Json Go_Net
begin

text \<open>
  Sensitivity levels and redaction (\<^verbatim>\<open>internal/dataguard/sensitivity.go\<close> and
  \<^verbatim>\<open>internal/dataguard/redact.go\<close>). A sensitivity is the string the code keeps it as. The redactor
  scans text for the name of a sensitive field followed by a separator, and replaces the value; the
  scan is written over the rest of the text and the byte before it instead of indices. SHA-256 in
  hexadecimal and the formatting verb \<^verbatim>\<open>%v\<close> are arguments.
\<close>

section \<open>Sensitivity levels\<close>

definition SensPublic :: string where "SensPublic = ''Public''"
definition SensInternal :: string where "SensInternal = ''Internal''"
definition SensConfidential :: string where "SensConfidential = ''Confidential''"
definition SensRestricted :: string where "SensRestricted = ''Restricted''"
definition SensTopSecret :: string where "SensTopSecret = ''TopSecret''"

lemmas sens_defs = SensPublic_def SensInternal_def SensConfidential_def SensRestricted_def SensTopSecret_def

definition sens_rank :: "(string \<times> int) list" where
  "sens_rank = [(SensPublic, 0), (SensInternal, 1), (SensConfidential, 2), (SensRestricted, 3), (SensTopSecret, 4)]"

definition Parse :: "string \<Rightarrow> string option" where
  "Parse s = (let v = TrimSpace s in if map_of sens_rank v = None then None else Some v)"

definition IsValid :: "string \<Rightarrow> bool" where
  "IsValid s = (Parse s \<noteq> None)"

text \<open>A missing key of the rank table reads as zero.\<close>

definition rank_of :: "string \<Rightarrow> int" where
  "rank_of s = (case map_of sens_rank s of None \<Rightarrow> 0 | Some r \<Rightarrow> r)"

definition Compare :: "string \<Rightarrow> string \<Rightarrow> int" where
  "Compare s other = rank_of s - rank_of other"

definition IsZeroTamper :: "string \<Rightarrow> bool" where
  "IsZeroTamper s = (s = SensRestricted \<or> s = SensTopSecret)"

section \<open>Redactors\<close>

definition SensitiveFieldNames :: "string list" where
  "SensitiveFieldNames = [''password'', ''passwd'', ''token'', ''api_key'', ''apikey'', ''secret'', ''email'', ''phone'',
     ''credit_card'', ''ssn'', ''id_card'', ''passport'', ''tax_id'']"

definition RedactionMarker :: string where "RedactionMarker = ''<redacted:''"
definition RedactionMarkerSuffix :: string where "RedactionMarkerSuffix = ''>''"

definition RedactModeNone :: string where "RedactModeNone = ''none''"
definition RedactModeSummary :: string where "RedactModeSummary = ''summary''"
definition RedactModeAll :: string where "RedactModeAll = ''all''"

lemmas mode_defs = RedactModeNone_def RedactModeSummary_def RedactModeAll_def

definition ModeForSensitivity :: "string \<Rightarrow> string" where
  "ModeForSensitivity s =
    (if s = SensPublic then RedactModeNone else if s = SensInternal then RedactModeSummary else RedactModeAll)"

record redactor =
  rd_mode :: string
  rd_sensitiveNames :: "string list"
  rd_stripDigits :: bool

definition NewRedactor :: "string \<Rightarrow> bool \<Rightarrow> redactor" where
  "NewRedactor mode stripDigits =
    \<lparr>rd_mode = (if mode \<noteq> RedactModeNone \<and> mode \<noteq> RedactModeSummary \<and> mode \<noteq> RedactModeAll then RedactModeAll else mode),
     rd_sensitiveNames = SensitiveFieldNames, rd_stripDigits = stripDigits\<rparr>"

definition NewRedactorForSensitivity :: "string \<Rightarrow> redactor" where
  "NewRedactorForSensitivity s = NewRedactor (ModeForSensitivity s) (s = SensTopSecret)"

definition RedactFieldName :: "redactor \<Rightarrow> string \<Rightarrow> string option" where
  "RedactFieldName r name = (if rd_mode r = RedactModeNone then None else find (Contains (ToLower name)) (rd_sensitiveNames r))"

section \<open>Values\<close>

record fmt_lib =
  fm_sha256 :: "string \<Rightarrow> string"
  fm_v :: "json \<Rightarrow> string"

definition stringifyValue :: "fmt_lib \<Rightarrow> json \<Rightarrow> string" where
  "stringifyValue lib v = (case v of JStr s \<Rightarrow> s | _ \<Rightarrow> fm_v lib v)"

definition redact_text :: "fmt_lib \<Rightarrow> string \<Rightarrow> string \<Rightarrow> string \<Rightarrow> string" where
  "redact_text lib str category mode =
    (if mode = RedactModeSummary then RedactionMarker @ category @ '':'' @ take 8 (fm_sha256 lib str) @ RedactionMarkerSuffix
     else RedactionMarker @ category @ RedactionMarkerSuffix)"

definition redactValue :: "fmt_lib \<Rightarrow> json \<Rightarrow> string \<Rightarrow> string \<Rightarrow> string" where
  "redactValue lib v category mode = redact_text lib (stringifyValue lib v) category mode"

section \<open>Scanning text\<close>

definition equalASCIILower :: "string \<Rightarrow> string \<Rightarrow> bool" where
  "equalASCIILower a b = (length a = length b \<and> list_all2 (\<lambda>x y. lower_char x = lower_char y) a b)"

text \<open>The position of the needle in the rest of the text.\<close>

fun indexCaseInsensitive :: "string \<Rightarrow> string \<Rightarrow> nat option" where
  "indexCaseInsensitive hay needle =
    (if needle = [] then Some 0
     else if length needle > length hay then None
     else if equalASCIILower (take (length needle) hay) needle then Some 0
     else (case hay of [] \<Rightarrow> None | c # cs \<Rightarrow> map_option Suc (indexCaseInsensitive cs needle)))"

declare indexCaseInsensitive.simps [simp del]

text \<open>The byte before the token, \<open>None\<close> at the start of the text.\<close>

definition isBoundary :: "char option \<Rightarrow> bool" where
  "isBoundary prev = (case prev of None \<Rightarrow> True
     | Some c \<Rightarrow> c \<in> {SPACE, TAB, LF, CHR 0x0D, DQUOTE, CHR ''{'', CHR '','', CHR '';'', CHR ''(''})"

definition isValueBoundary :: "bool \<Rightarrow> char \<Rightarrow> bool" where
  "isValueBoundary inQuote c =
    (if inQuote then c = DQUOTE
     else c \<in> {SPACE, TAB, LF, CHR 0x0D, CHR '','', CHR '';'', CHR '')'', CHR ''}'', DQUOTE, CHR ''<'', CHR ''>''})"

definition blank :: "char \<Rightarrow> bool" where
  "blank c = (c = SPACE \<or> c = TAB)"

text \<open>
  After the separator: whether a quoted value opens, the text up to the start of the value, and
  the text from the value on.
\<close>

definition value_start :: "char \<Rightarrow> string \<Rightarrow> bool \<times> string \<times> string" where
  "value_start sep r =
    (if sep = DQUOTE then (True, [], r)
     else (let ws = takeWhile blank r; r1 = dropWhile blank r in
       (case r1 of c # r2 \<Rightarrow> (if c = DQUOTE then (True, ws @ [DQUOTE], r2) else (False, ws, r1))
        | [] \<Rightarrow> (False, ws, []))))"

definition skip_close :: "bool \<Rightarrow> string \<Rightarrow> string" where
  "skip_close quoted r = (case r of c # cs \<Rightarrow> (if quoted \<and> c = DQUOTE then cs else r) | [] \<Rightarrow> [])"

lemma indexCaseInsensitive_bound: "indexCaseInsensitive s p = Some i \<Longrightarrow> i + length p \<le> length s"
proof (induction s p arbitrary: i rule: indexCaseInsensitive.induct)
  case (1 hay needle)
  then show ?case
    by (subst (asm) (2) indexCaseInsensitive.simps) (fastforce split: if_splits list.splits)
qed

lemma skip_close_length [simp]: "length (skip_close q r) \<le> length r"
  by (simp add: skip_close_def split: list.splits)

lemma value_start_length: "value_start sep r = (q, ws, r2) \<Longrightarrow> length r2 \<le> length r"
proof -
  have "length (dropWhile blank r) \<le> length r" by (rule length_dropWhile_le)
  then show "value_start sep r = (q, ws, r2) \<Longrightarrow> length r2 \<le> length r"
    by (auto simp: value_start_def Let_def split: if_splits list.splits) (metis length_Cons)
qed

lemma redact_scan_rest:
  assumes "indexCaseInsensitive s pat = Some idx" "pat \<noteq> []"
  shows "length (drop (idx + length pat) s) < length s"
  using indexCaseInsensitive_bound[OF assms(1)] assms(2) by (cases pat) auto

lemma dropWhile_Cons_length: "dropWhile P xs = y # ys \<Longrightarrow> length ys < length xs"
  by (metis length_dropWhile_le less_le_trans length_Cons lessI)

text \<open>
  One pass for one field name. An occurrence inside a word, or without a separator, is copied; a value
  runs to its boundary, and the closing quote of a quoted value is dropped.
\<close>

function redact_scan :: "fmt_lib \<Rightarrow> string \<Rightarrow> string \<Rightarrow> char option \<Rightarrow> string \<Rightarrow> string" where
  "redact_scan lib pat mode prev s =
    (if pat = [] then s
     else case indexCaseInsensitive s pat of
       None \<Rightarrow> s
     | Some idx \<Rightarrow>
       (let before = take idx s; tok = take (length pat) (drop idx s); after = drop (idx + length pat) s;
            here = (if idx = 0 then prev else Some (s ! (idx - 1)));
            ws = takeWhile blank after
        in if \<not> isBoundary here then before @ tok @ redact_scan lib pat mode (Some (last tok)) after
           else (case dropWhile blank after of
               [] \<Rightarrow> before @ tok @ after
             | sep # r \<Rightarrow>
                 if sep \<noteq> CHR ''='' \<and> sep \<noteq> CHR '':'' \<and> sep \<noteq> DQUOTE
                 then before @ tok @ redact_scan lib pat mode (Some (last tok)) after
                 else (let (quoted, open_text, r2) = value_start sep r;
                           v = takeWhile (\<lambda>c. \<not> isValueBoundary quoted c) r2;
                           r3 = skip_close quoted (dropWhile (\<lambda>c. \<not> isValueBoundary quoted c) r2)
                       in before @ tok @ ws @ [sep] @ open_text @ redact_text lib v pat mode @
                          redact_scan lib pat mode (Some (last (take (length s - length r3) s))) r3))))"
  by auto

termination
proof (relation "measure (\<lambda>(lib, pat, mode, prev, s). length s)", goal_cases)
  case 1
  then show ?case by simp
next
  case (2 lib pat mode prev s idx)
  then show ?case using redact_scan_rest[of s pat idx] by simp
next
  case (3 lib pat mode prev s idx)
  then show ?case using redact_scan_rest[of s pat idx] by simp
next
  case (4 lib pat mode prev s idx before tok after here ws sep r p quoted y open_text r2 v r3)
  have r3: "r3 = skip_close quoted (dropWhile (\<lambda>c. \<not> isValueBoundary quoted c) r2)" by (rule 4)
  have "length r3 \<le> length r2"
    unfolding r3 by (rule order_trans[OF skip_close_length length_dropWhile_le])
  also have "\<dots> \<le> length r" using value_start_length[of sep r quoted open_text r2] 4 by simp
  also have "length r < length after" using 4 dropWhile_Cons_length by metis
  also have "length after < length s" using redact_scan_rest[of s pat idx] 4 by simp
  finally show ?case by simp
qed

declare redact_scan.simps [simp del]

definition redactPattern :: "fmt_lib \<Rightarrow> string \<Rightarrow> string \<Rightarrow> string \<Rightarrow> string" where
  "redactPattern lib s pat mode = redact_scan lib pat mode None s"

function redactDigits :: "string \<Rightarrow> string" where
  "redactDigits [] = []"
| "redactDigits (c # cs) =
    (if is_digit c
     then (let run = takeWhile is_digit (c # cs) in
       (if length run \<ge> 4 then RedactionMarker @ ''number'' @ RedactionMarkerSuffix else run) @ redactDigits (dropWhile is_digit (c # cs)))
     else c # redactDigits cs)"
  by pat_completeness auto

termination
  by (relation "measure length") (auto simp: less_Suc_eq_le length_dropWhile_le)

definition RedactString :: "fmt_lib \<Rightarrow> redactor \<Rightarrow> string \<Rightarrow> string" where
  "RedactString lib r s =
    (if rd_mode r = RedactModeNone \<or> s = [] then s
     else (let out = fold (\<lambda>pat t. redactPattern lib t pat (rd_mode r)) (rd_sensitiveNames r) s in
       if rd_stripDigits r then redactDigits out else out))"

section \<open>Structured data\<close>

lemma nested_size: "(k, JObj nested) \<in> set m \<Longrightarrow> size_list (size_prod (\<lambda>x. 0) size) nested < size_list (size_prod (\<lambda>x. 0) size) m"
  by (induction m) (auto simp: less_Suc_eq)

text \<open>Nested maps are visited; other values, lists among them, are copied.\<close>

function RedactMap :: "fmt_lib \<Rightarrow> redactor \<Rightarrow> (string \<times> json) list \<Rightarrow> (string \<times> json) list" where
  "RedactMap lib r m = map (\<lambda>kv. case kv of (k, v) \<Rightarrow>
     (case RedactFieldName r k of
        Some cat \<Rightarrow> (k, JStr (redactValue lib v cat (rd_mode r)))
      | None \<Rightarrow> (case v of JObj nested \<Rightarrow> (k, JObj (RedactMap lib r nested)) | _ \<Rightarrow> (k, v)))) m"
  by auto

termination
  by (relation "measure (\<lambda>(lib, r, m). size_list (size_prod (\<lambda>x. 0) size) m)") (auto dest: nested_size)

declare RedactMap.simps [simp del]

section \<open>Digits\<close>

lemma digit_sublist_split:
  assumes "sublist d (a @ c # b)" "\<not> is_digit c" "\<forall>x\<in>set d. is_digit x"
  shows "sublist d a \<or> sublist d b"
proof -
  have nc: "c \<notin> set d" using assms(2,3) by auto
  from assms(1) obtain u v where e: "a @ c # b = u @ d @ v" by (auto simp: sublist_def)
  from e obtain w where "a = u @ w \<and> w @ c # b = d @ v \<or> a @ w = u \<and> c # b = w @ d @ v"
    by (auto simp: append_eq_append_conv2)
  then show ?thesis
  proof
    assume w: "a = u @ w \<and> w @ c # b = d @ v"
    then obtain x where "w = d @ x \<or> w @ x = d \<and> c # b = x @ v" by (auto simp: append_eq_append_conv2)
    with nc have "prefix d w" by (auto simp: Cons_eq_append_conv prefix_def)
    with w show ?thesis by (auto simp: sublist_def prefix_def)
  next
    assume w: "a @ w = u \<and> c # b = w @ d @ v"
    then show ?thesis using nc by (cases "d = []") (auto simp: Cons_eq_append_conv sublist_def)
  qed
qed

lemma redactDigits_rest:
  "dropWhile is_digit s = [] \<or> (\<exists>c cs. \<not> is_digit c \<and> redactDigits (dropWhile is_digit s) = c # redactDigits cs)"
proof (cases "dropWhile is_digit s")
  case (Cons c cs)
  then have "\<not> is_digit c" by (metis dropWhile_eq_Cons_conv)
  with Cons show ?thesis by auto
qed simp

lemma redactDigits_runs: "sublist d (redactDigits s) \<Longrightarrow> \<forall>x\<in>set d. is_digit x \<Longrightarrow> length d < 4"
proof (induction s rule: redactDigits.induct)
  case (2 c cs)
  show ?case
  proof (cases "is_digit c")
    case False
    then have "sublist d ([] @ c # redactDigits cs)" using 2 by simp
    from digit_sublist_split[OF this False] 2 False show ?thesis by auto
  next
    case True
    let ?run = "takeWhile is_digit (c # cs)" and ?rest = "redactDigits (dropWhile is_digit (c # cs))"
    note IH = 2(1)[OF True refl]
    show ?thesis
    proof (cases "length ?run \<ge> 4")
      case long: True
      then have e: "redactDigits (c # cs) = ''<redacted:number'' @ CHR ''>'' # ?rest"
        using True by (simp add: RedactionMarker_def RedactionMarkerSuffix_def)
      from 2(3) have "sublist d ''<redacted:number'' \<or> sublist d ?rest"
        unfolding e by (rule digit_sublist_split) (use 2 in \<open>simp_all add: is_digit_def\<close>)
      moreover have "d = []" if "sublist d ''<redacted:number''"
      proof -
        have "set d \<subseteq> set ''<redacted:number''" using that by (rule set_mono_sublist)
        with 2(4) show ?thesis by (cases d) (auto simp: is_digit_def)
      qed
      ultimately show ?thesis using IH 2(4) by auto
    next
      case short: False
      then have e: "redactDigits (c # cs) = ?run @ ?rest" using True by simp
      from redactDigits_rest[of "c # cs"] show ?thesis
      proof
        assume "dropWhile is_digit (c # cs) = []"
        then have "sublist d ?run" using 2(3) e by simp
        then show ?thesis using short sublist_length_le[of d ?run] by linarith
      next
        assume "\<exists>c' cs'. \<not> is_digit c' \<and> ?rest = c' # redactDigits cs'"
        then obtain c' cs' where r: "\<not> is_digit c'" "?rest = c' # redactDigits cs'" by blast
        from 2(3) have "sublist d (?run @ c' # redactDigits cs')" unfolding e r(2) .
        from digit_sublist_split[OF this r(1) 2(4)] show ?thesis
          using short sublist_length_le[of d ?run] IH 2(4) r(2) by (auto simp: sublist_Cons_right)
      qed
    qed
  qed
qed simp

text \<open>
  At the highest level no run of four or more digits survives in text: every digit sequence of the
  redacted text has at most three digits, also across the seams between replaced and copied text.
\<close>

theorem top_secret_no_long_numbers:
  assumes "sublist d (RedactString lib (NewRedactorForSensitivity SensTopSecret) s)" "\<forall>x\<in>set d. is_digit x"
  shows "length d < 4"
  using assms by (cases "s = []")
    (auto simp: RedactString_def NewRedactorForSensitivity_def NewRedactor_def ModeForSensitivity_def sens_defs mode_defs
      intro: redactDigits_runs)

section \<open>Structured data: non-interference\<close>

text \<open>
  Which names are sensitive, as the documentation lists them: a name that contains one of thirteen words, in
  any mixture of upper and lower case letters.
\<close>

definition same_letter :: "char \<Rightarrow> char \<Rightarrow> bool" where
  "same_letter c p = (c = p \<or> (65 \<le> (of_char c :: nat) \<and> (of_char c :: nat) \<le> 90 \<and> of_char p = (of_char c :: nat) + 32))"

definition sensitive_words :: "string list" where
  "sensitive_words = [''api_key'', ''apikey'', ''credit_card'', ''email'', ''id_card'', ''passport'', ''passwd'',
     ''password'', ''phone'', ''secret'', ''ssn'', ''tax_id'', ''token'']"

definition sensitive_name :: "string \<Rightarrow> bool" where
  "sensitive_name k = list_ex (\<lambda>w. list_ex (\<lambda>i. list_all2 same_letter (take (length w) (drop i k)) w) [0..<Suc (length k)]) sensitive_words"

lemma lower_char_same: "\<not> (65 \<le> (of_char p :: nat) \<and> (of_char p :: nat) \<le> 90) \<Longrightarrow> (lower_char c = p) = same_letter c p"
proof -
  have "(char_of ((of_char c :: nat) + 32) = p) = (of_char p = (of_char c :: nat) + 32)" if "(of_char c :: nat) \<le> 90"
  proof
    assume "char_of ((of_char c :: nat) + 32) = p"
    then have "of_char p = (of_char (char_of ((of_char c :: nat) + 32)) :: nat)" by simp
    also have "\<dots> = of_char c + 32" using that by simp
    finally show "of_char p = (of_char c :: nat) + 32" .
  next
    assume "of_char p = (of_char c :: nat) + 32"
    then show "char_of ((of_char c :: nat) + 32) = p" by (metis char_of_char)
  qed
  then show "\<not> (65 \<le> (of_char p :: nat) \<and> (of_char p :: nat) \<le> 90) \<Longrightarrow> (lower_char c = p) = same_letter c p"
    by (auto simp: lower_char_def same_letter_def)
qed

lemma sublist_position: "sublist w k \<longleftrightarrow> (\<exists>i \<le> length k. take (length w) (drop i k) = w)"
proof
  assume "sublist w k"
  then obtain a b where "k = a @ w @ b" by (auto simp: sublist_def)
  then show "\<exists>i \<le> length k. take (length w) (drop i k) = w" by (intro exI[of _ "length a"]) simp
next
  assume "\<exists>i \<le> length k. take (length w) (drop i k) = w"
  then show "sublist w k" by (metis sublist_drop sublist_take sublist_order.order.trans)
qed

lemma sublist_lower:
  assumes "\<forall>p\<in>set w. \<not> (65 \<le> (of_char p :: nat) \<and> (of_char p :: nat) \<le> 90)"
  shows "sublist w (ToLower k) \<longleftrightarrow> list_ex (\<lambda>i. list_all2 same_letter (take (length w) (drop i k)) w) [0..<Suc (length k)]"
proof -
  have "(take (length w) (drop i (ToLower k)) = w) = list_all2 same_letter (take (length w) (drop i k)) w" for i
    using assms lower_char_same
    by (auto simp: ToLower_def list_all2_conv_all_nth list_eq_iff_nth_eq drop_map take_map simp del: length_take)
  then show ?thesis by (auto simp: sublist_position list_ex_iff less_Suc_eq_le ToLower_def simp del: upt_Suc)
qed

lemma RedactFieldName_sensitive:
  assumes "rd_mode r \<noteq> RedactModeNone" "rd_sensitiveNames r = SensitiveFieldNames"
  shows "RedactFieldName r k = None \<longleftrightarrow> \<not> sensitive_name k"
proof -
  have low: "\<forall>w\<in>set sensitive_words. \<forall>p\<in>set w. \<not> (65 \<le> (of_char p :: nat) \<and> (of_char p :: nat) \<le> 90)" by code_simp
  have same: "set SensitiveFieldNames = set sensitive_words" by (auto simp: SensitiveFieldNames_def sensitive_words_def)
  have "RedactFieldName r k = None \<longleftrightarrow> (\<forall>w\<in>set sensitive_words. \<not> sublist w (ToLower k))"
    using assms by (simp add: RedactFieldName_def find_None_iff_all same Contains_sublist)
  also have "\<dots> \<longleftrightarrow> \<not> sensitive_name k" using sublist_lower low by (auto simp: sensitive_name_def list_ex_iff)
  finally show ?thesis .
qed

text \<open>What remains of a map when the values of its sensitive fields are blanked, in the map and in the maps nested in it;
  other values, lists among them, remain as they are.\<close>

function public_part :: "(string \<times> json) list \<Rightarrow> (string \<times> json) list" where
  "public_part m = map (\<lambda>kv. case kv of (k, v) \<Rightarrow>
     if sensitive_name k then (k, JNull)
     else (case v of JObj nested \<Rightarrow> (k, JObj (public_part nested)) | _ \<Rightarrow> (k, v))) m"
  by auto

termination
  by (relation "measure (size_list (size_prod (\<lambda>x. 0) size))") (auto dest: nested_size)

declare public_part.simps [simp del]

lemma RedactMap_public_part:
  assumes "rd_mode r = RedactModeAll" "rd_sensitiveNames r = SensitiveFieldNames"
  shows "RedactMap lib r (public_part m) = RedactMap lib r m"
  using assms
proof (induction lib r m rule: RedactMap.induct)
  case (1 lib r m)
  have none: "RedactFieldName r k = None \<longleftrightarrow> \<not> sensitive_name k" for k
    using 1(2,3) by (intro RedactFieldName_sensitive) (simp_all add: mode_defs)
  have "RedactMap lib r (public_part m) = map (\<lambda>kv. case kv of (k, v) \<Rightarrow>
     (case RedactFieldName r k of
        Some cat \<Rightarrow> (k, JStr (redactValue lib JNull cat (rd_mode r)))
      | None \<Rightarrow> (case v of JObj nested \<Rightarrow> (k, JObj (RedactMap lib r (public_part nested))) | _ \<Rightarrow> (k, v)))) m"
    by (subst RedactMap.simps, subst public_part.simps) (auto simp: none[symmetric] split: option.splits json.splits)
  also have "\<dots> = RedactMap lib r m"
    by (subst (2) RedactMap.simps)
      (auto simp: redactValue_def redact_text_def mode_defs 1(2,3) 1(1)[OF _ refl] split: option.splits json.splits)
  finally show ?case .
qed

text \<open>
  C24. Redacting a map for any level but public and internal does not depend on the values of its sensitive
  fields (those whose name contains, in upper or lower case, one of the listed words), in the map and in the maps nested in
  it: two maps that agree once those values are blanked redact to the same map. A map inside a list is not
  visited by the code, and its fields are copied.
\<close>

theorem redact_map_noninterference:
  assumes "lvl \<noteq> SensPublic" "lvl \<noteq> SensInternal" "public_part m = public_part m'"
  shows "RedactMap lib (NewRedactorForSensitivity lvl) m = RedactMap lib (NewRedactorForSensitivity lvl) m'"
proof -
  have "rd_mode (NewRedactorForSensitivity lvl) = RedactModeAll" "rd_sensitiveNames (NewRedactorForSensitivity lvl) = SensitiveFieldNames"
    using assms(1,2) by (simp_all add: NewRedactorForSensitivity_def NewRedactor_def ModeForSensitivity_def mode_defs)
  from RedactMap_public_part[OF this] assms(3) show ?thesis by metis
qed

text \<open>The exception: a list is copied with whatever maps it holds.\<close>

theorem redact_map_copies_lists:
  "RedactMap lib (NewRedactorForSensitivity SensTopSecret) [(''items'', JArr [JObj [(''password'', JStr v)]])] =
    [(''items'', JArr [JObj [(''password'', JStr v)]])]"
proof -
  have "RedactFieldName (NewRedactorForSensitivity SensTopSecret) ''items'' = None" by code_simp
  then show ?thesis by (simp add: RedactMap.simps)
qed

section \<open>Text: fields and values\<close>

lemma equalASCIILower_iff: "equalASCIILower a b \<longleftrightarrow> ToLower a = ToLower b"
  by (auto simp: equalASCIILower_def ToLower_def list_all2_conv_all_nth list_eq_iff_nth_eq)

text \<open>The first occurrence is found at a position before which no other one starts.\<close>

lemma indexCaseInsensitive_hit:
  assumes "pat \<noteq> []" "equalASCIILower tok pat" "\<And>i. i < length pre \<Longrightarrow> \<not> equalASCIILower (take (length pat) (drop i (pre @ tok @ suf))) pat"
  shows "indexCaseInsensitive (pre @ tok @ suf) pat = Some (length pre)"
  using assms(3)
proof (induction pre)
  case Nil
  have "length tok = length pat" using assms(2) by (simp add: equalASCIILower_def)
  then show ?case using assms(1,2) by (subst indexCaseInsensitive.simps) simp
next
  case (Cons c pre)
  have l: "length tok = length pat" using assms(2) by (simp add: equalASCIILower_def)
  have "indexCaseInsensitive (pre @ tok @ suf) pat = Some (length pre)"
    using Cons.prems[of "Suc _"] by (intro Cons.IH) simp
  then show ?case using Cons.prems[of 0] assms(1) l by (subst indexCaseInsensitive.simps) simp
qed

text \<open>
  A field written as name, separator and unquoted value: whatever the value is, at a confidential or
  higher level its text is replaced by the marker of the field, and the scan goes on behind it. The
  conditions say that this is the first occurrence of the name, at the start of a word, and
  that the value runs up to a boundary.
\<close>

theorem redact_field_value:
  assumes "pat \<noteq> []" "equalASCIILower tok pat" "\<And>i. i < length pre \<Longrightarrow> \<not> equalASCIILower (take (length pat) (drop i (pre @ tok @ [sep] @ v @ suf))) pat"
    and "isBoundary (if pre = [] then None else Some (last pre))"
    and "sep = CHR ''='' \<or> sep = CHR '':''" "\<forall>c\<in>set v. \<not> isValueBoundary False c \<and> \<not> blank c" "v \<noteq> []" "suf = [] \<or> isValueBoundary False (hd suf)"
  shows "redactPattern lib (pre @ tok @ [sep] @ v @ suf) pat RedactModeAll =
    pre @ tok @ [sep] @ RedactionMarker @ pat @ RedactionMarkerSuffix @ redact_scan lib pat RedactModeAll (Some (last v)) suf"
proof -
  have l: "length tok = length pat" using assms(2) by (simp add: equalASCIILower_def)
  have idx: "indexCaseInsensitive (pre @ tok @ [sep] @ v @ suf) pat = Some (length pre)"
    by (rule indexCaseInsensitive_hit[OF assms(1,2,3)])
  have here: "(if length pre = 0 then None else Some ((pre @ tok @ [sep] @ v @ suf) ! (length pre - 1))) = (if pre = [] then None else Some (last pre))"
    by (auto simp: nth_append last_conv_nth)
  have nb: "\<not> blank sep" "sep \<noteq> DQUOTE" using assms(5) by (auto simp: blank_def)
  obtain c cs where v: "v = c # cs" using assms(7) by (cases v) auto
  have c: "\<not> blank c" "c \<noteq> DQUOTE" using assms(6) v by (auto simp: isValueBoundary_def)
  have start: "value_start sep (v @ suf) = (False, [], v @ suf)" using nb c v by (simp add: value_start_def)
  have tw: "takeWhile (\<lambda>c. \<not> isValueBoundary False c) (v @ suf) = v" "dropWhile (\<lambda>c. \<not> isValueBoundary False c) (v @ suf) = suf"
    using assms(6,8) by (auto simp: takeWhile_append dropWhile_append takeWhile_eq_all_conv dropWhile_eq_Nil_conv) (cases suf; auto)+
  have sep: "(sep \<noteq> CHR ''='' \<and> sep \<noteq> CHR '':'' \<and> sep \<noteq> DQUOTE) = False" using assms(5) by auto
  have skip: "skip_close False suf = suf" by (simp add: skip_close_def split: list.splits)
  let ?s = "pre @ tok @ [sep] @ v @ suf"
  have lst: "last (take (length ?s - length suf) ?s) = last v" using assms(7) by simp
  have split: "take (length pre) ?s = pre" "take (length pat) (drop (length pre) ?s) = tok" "drop (length pre + length pat) ?s = sep # v @ suf"
    using l by simp_all
  show ?thesis
    unfolding redactPattern_def redact_scan.simps[of lib pat RedactModeAll None ?s] idx option.case Let_def split here lst[symmetric]
    using assms(1,4) nb sep start tw skip
    by (auto simp add: redact_text_def mode_defs simp del: length_append)
qed

text \<open>
  A field of a JSON object, with its name in quotes: the closing quote of the name is taken for the
  separator, the colon for the value, and the scan goes on with the value itself as ordinary text.
  The value is not replaced, at any level.
\<close>

theorem redact_json_field_leaks:
  assumes "pat \<in> set SensitiveFieldNames"
  shows "redactPattern lib ([DQUOTE] @ pat @ [DQUOTE, CHR '':'', DQUOTE] @ v) pat mode =
    [DQUOTE] @ pat @ [DQUOTE] @ redact_text lib '':'' pat mode @ redact_scan lib pat mode (Some DQUOTE) v"
proof -
  have ne: "pat \<noteq> []" and hd: "lower_char (hd pat) \<noteq> DQUOTE" using assms
    by (auto simp: SensitiveFieldNames_def lower_char_def)
  let ?s = "[DQUOTE] @ pat @ [DQUOTE, CHR '':'', DQUOTE] @ v"
  have "\<not> equalASCIILower (take (length pat) (drop i ?s)) pat" if "i < length [DQUOTE]" for i
    using that ne hd by (cases pat) (auto simp: equalASCIILower_def lower_char_def)
  then have idx: "indexCaseInsensitive ?s pat = Some (Suc 0)"
    using indexCaseInsensitive_hit[OF ne, of pat "[DQUOTE]" "[DQUOTE, CHR '':'', DQUOTE] @ v"]
    by (simp add: equalASCIILower_iff)
  have nb: "\<not> blank DQUOTE" by (simp add: blank_def)
  have lst: "last (take (4 + length pat) (DQUOTE # pat @ DQUOTE # CHR '':'' # DQUOTE # v)) = DQUOTE"
    by (simp add: eval_nat_numeral)
  show ?thesis
    unfolding redactPattern_def redact_scan.simps[of lib pat mode None ?s] idx option.case Let_def
    using ne nb by (simp add: lst isBoundary_def value_start_def isValueBoundary_def skip_close_def)
qed

section \<open>Examples\<close>

definition demo_fmt :: fmt_lib where
  "demo_fmt = \<lparr>fm_sha256 = \<lambda>_. ''0123456789'', fm_v = \<lambda>_. ''v''\<rparr>"

theorem redact_json_field_leaks_witness:
  "\<forall>lib. redactPattern lib (DQUOTE # ''password'' @ [DQUOTE, CHR '':'', DQUOTE] @ ''hunter2'') ''password'' RedactModeAll =
    DQUOTE # ''password'' @ DQUOTE # ''<redacted:password>hunter2''"
proof
  fix lib
  have "redact_scan lib ''password'' RedactModeAll (Some DQUOTE) ''hunter2'' = ''hunter2''"
    by (subst redact_scan.simps) (simp add: indexCaseInsensitive.simps)
  then show "redactPattern lib (DQUOTE # ''password'' @ [DQUOTE, CHR '':'', DQUOTE] @ ''hunter2'') ''password'' RedactModeAll =
    DQUOTE # ''password'' @ DQUOTE # ''<redacted:password>hunter2''"
    using redact_json_field_leaks[of "''password''" lib "''hunter2''" RedactModeAll]
    by (simp add: SensitiveFieldNames_def redact_text_def mode_defs RedactionMarker_def RedactionMarkerSuffix_def)
qed

theorem redact_field_value_witness:
  "\<forall>lib. redactPattern lib ''a Token=abc;x'' ''token'' RedactModeAll = ''a Token=<redacted:token>;x''"
proof
  fix lib
  have tok: "equalASCIILower ''Token'' ''token''" by code_simp
  have "\<not> equalASCIILower (take (length ''token'') (drop i (''a '' @ ''Token'' @ ''='' @ ''abc'' @ '';x''))) ''token''"
    if "i < length ''a ''" for i using that by (cases i rule: nat.exhaust) (auto simp: equalASCIILower_def lower_char_def less_Suc_eq)
  then have "redactPattern lib (''a '' @ ''Token'' @ [CHR ''=''] @ ''abc'' @ '';x'') ''token'' RedactModeAll =
      ''a '' @ ''Token'' @ [CHR ''=''] @ RedactionMarker @ ''token'' @ RedactionMarkerSuffix @ redact_scan lib ''token'' RedactModeAll (Some (last ''abc'')) '';x''"
    by (intro redact_field_value tok) (auto simp: isBoundary_def isValueBoundary_def blank_def)
  moreover have "redact_scan lib ''token'' RedactModeAll (Some (last ''abc'')) '';x'' = '';x''"
    by (subst redact_scan.simps) (simp add: indexCaseInsensitive.simps)
  ultimately show "redactPattern lib ''a Token=abc;x'' ''token'' RedactModeAll = ''a Token=<redacted:token>;x''"
    by (simp add: RedactionMarker_def RedactionMarkerSuffix_def)
qed

theorem redact_map_noninterference_witness:
  "\<forall>lib. RedactMap lib (NewRedactorForSensitivity SensRestricted) [(''n'', JObj [(''userPassword'', JStr ''a''), (''x'', JInt 1)])] =
    RedactMap lib (NewRedactorForSensitivity SensRestricted) [(''n'', JObj [(''userPassword'', JInt 7), (''x'', JInt 1)])]"
proof
  fix lib
  have f: "sensitive_name ''userPassword''" "\<not> sensitive_name ''n''" by code_simp+
  show "RedactMap lib (NewRedactorForSensitivity SensRestricted) [(''n'', JObj [(''userPassword'', JStr ''a''), (''x'', JInt 1)])] =
    RedactMap lib (NewRedactorForSensitivity SensRestricted) [(''n'', JObj [(''userPassword'', JInt 7), (''x'', JInt 1)])]"
    by (rule redact_map_noninterference) (simp_all add: sens_defs public_part.simps f)
qed

theorem top_secret_no_long_numbers_witness:
  "RedactString demo_fmt (NewRedactorForSensitivity SensTopSecret) ''123 45678'' = ''123 <redacted:number>'' \<and> length ''123'' < 4"
proof -
  have r: "RedactString demo_fmt (NewRedactorForSensitivity SensTopSecret) ''123 45678'' = ''123 <redacted:number>''"
    by code_simp
  have "length ''123'' < 4"
    by (rule top_secret_no_long_numbers[of _ demo_fmt "''123 45678''"]) (simp_all add: r is_digit_def)
  with r show ?thesis by simp
qed

end
