(* ===== verification/Guard_Label.thy ===== *)
theory Guard_Label
  imports Guard_Redact
begin

text \<open>
  Sensitivity labels of resources: the heuristics that propose them
  (\<^verbatim>\<open>internal/dataguard/heuristic/heuristic.go\<close>), the table that keeps them
  (\<^verbatim>\<open>internal/dataguard/store\<close>) and the manager above it (\<^verbatim>\<open>internal/dataguard/label/label.go\<close>).
  The table is the list of its rows; saving a row replaces the one with its key. A statement may fail, as
  the script \<open>gd_faults\<close> decides, and then changes nothing. The clock and the lookup of parent
  resources are arguments. Audit lines only go to the log.
\<close>

section \<open>Heuristics\<close>

record Resource =
  rs_Type :: string
  rs_ID :: string
  rs_Parent :: string
  rs_Name :: string
  rs_Extra :: "(string \<times> string) list"

record Match =
  mt_Sensitivity :: string
  mt_Confidence :: rat
  mt_Reason :: string

definition pg_columns :: "(string \<times> string) list" where
  "pg_columns = map (\<lambda>c. (c, SensRestricted)) [''id_card'', ''credit_card'', ''ssn'', ''passport'', ''tax_id'']"

definition pg_column_match :: "Resource \<Rightarrow> (string \<times> string) option" where
  "pg_column_match res = (case map_of (rs_Extra res) ''column'' of None \<Rightarrow> None | Some n \<Rightarrow> find (\<lambda>(c, s). EqualFold n c) pg_columns)"

definition pgEngine_Match :: "Resource \<Rightarrow> Match option" where
  "pgEngine_Match res = (let name = ToLower (rs_Name res) in
     case pg_column_match res of
       Some (col, sens) \<Rightarrow> Some \<lparr>mt_Sensitivity = sens, mt_Confidence = 95/100, mt_Reason = ''PG column matches sensitive pattern: '' @ col\<rparr>
     | None \<Rightarrow>
         if HasSuffix name ''_pii'' \<or> HasSuffix name ''_personal''
         then Some \<lparr>mt_Sensitivity = SensConfidential, mt_Confidence = 85/100, mt_Reason = ''PG table name matches PII pattern''\<rparr>
         else if Contains name ''payment'' \<or> Contains name ''billing''
         then Some \<lparr>mt_Sensitivity = SensConfidential, mt_Confidence = 80/100, mt_Reason = ''PG table name contains payment/billing''\<rparr>
         else None)"

definition redisEngine_Match :: "Resource \<Rightarrow> Match option" where
  "redisEngine_Match res =
    map_option (\<lambda>p. \<lparr>mt_Sensitivity = SensConfidential, mt_Confidence = 80/100, mt_Reason = ''Redis key prefix matches sensitive pattern: '' @ p\<rparr>)
      (find (\<lambda>p. HasPrefix (ToLower (rs_Name res)) p) [''payment:'', ''session:'', ''user:'', ''auth:'', ''token:''])"

definition k8sEngine_Match :: "Resource \<Rightarrow> Match option" where
  "k8sEngine_Match res =
    (let kind = ToLower (case map_of (rs_Extra res) ''kind'' of None \<Rightarrow> [] | Some k \<Rightarrow> k); ns = ToLower (rs_Name res)
     in if kind = ''secret'' then Some \<lparr>mt_Sensitivity = SensTopSecret, mt_Confidence = 1, mt_Reason = ''K8s Secret resource''\<rparr>
        else if ns = ''kube-system'' \<or> ns = ''istio-system''
        then Some \<lparr>mt_Sensitivity = SensRestricted, mt_Confidence = 90/100, mt_Reason = ''K8s system namespace''\<rparr>
        else None)"

definition gitEngine_Match :: "Resource \<Rightarrow> Match option" where
  "gitEngine_Match res =
    (if Contains (ToLower (rs_Name res)) ''payment''
     then Some \<lparr>mt_Sensitivity = SensConfidential, mt_Confidence = 75/100, mt_Reason = ''Git repo name contains payment''\<rparr> else None)"

definition CompositeEngine_Match :: "Resource \<Rightarrow> Match option" where
  "CompositeEngine_Match res =
    (if rs_Type res = ''pg'' then pgEngine_Match res
     else if rs_Type res = ''redis'' then redisEngine_Match res
     else if rs_Type res = ''k8s'' then k8sEngine_Match res
     else if rs_Type res = ''git'' then gitEngine_Match res
     else None)"

section \<open>The table\<close>

definition SourceHeuristic :: string where "SourceHeuristic = ''heuristic''"
definition SourceManual :: string where "SourceManual = ''manual''"
definition SourceInherited :: string where "SourceInherited = ''inherited''"
definition SourceOverride :: string where "SourceOverride = ''override''"

lemmas source_defs = SourceHeuristic_def SourceManual_def SourceInherited_def SourceOverride_def

record DataSensitivityLabel =
  lb_ResourceType :: string
  lb_ResourceID :: string
  lb_Sensitivity :: string
  lb_ComplianceTags :: string
  lb_LabelSource :: string
  lb_Confidence :: rat
  lb_LabeledBy :: string
  lb_Notes :: string
  lb_CreatedAt :: instant
  lb_UpdatedAt :: instant

datatype guard_error = LabelNotFound | LabelDriver string | NilLabel | InvalidSensitivity string

record guard_db =
  gd_labels :: "DataSensitivityLabel list"
  gd_faults :: "string option list"

definition gstmt :: "(guard_db \<Rightarrow> (guard_error, 'a) result \<times> guard_db) \<Rightarrow> guard_db \<Rightarrow> (guard_error, 'a) result \<times> guard_db" where
  "gstmt act db = (case gd_faults db of
     [] \<Rightarrow> act db
   | None # fs \<Rightarrow> act (db\<lparr>gd_faults := fs\<rparr>)
   | Some e # fs \<Rightarrow> (Err (LabelDriver e), db\<lparr>gd_faults := fs\<rparr>))"

definition label_key :: "DataSensitivityLabel \<Rightarrow> string \<times> string" where
  "label_key l = (lb_ResourceType l, lb_ResourceID l)"

fun save_row :: "DataSensitivityLabel \<Rightarrow> DataSensitivityLabel list \<Rightarrow> DataSensitivityLabel list" where
  "save_row l [] = [l]"
| "save_row l (r # rs) = (if label_key r = label_key l then l # rs else r # save_row l rs)"

definition lookup_label :: "guard_db \<Rightarrow> string \<Rightarrow> string \<Rightarrow> DataSensitivityLabel option" where
  "lookup_label db t i = find (\<lambda>l. label_key l = (t, i)) (gd_labels db)"

definition label_Create :: "DataSensitivityLabel \<Rightarrow> guard_db \<Rightarrow> (guard_error, unit) result \<times> guard_db" where
  "label_Create l = gstmt (\<lambda>db. (Ok (), db\<lparr>gd_labels := save_row l (gd_labels db)\<rparr>))"

definition label_Get :: "string \<Rightarrow> string \<Rightarrow> guard_db \<Rightarrow> (guard_error, DataSensitivityLabel) result \<times> guard_db" where
  "label_Get t i = gstmt (\<lambda>db. (case lookup_label db t i of None \<Rightarrow> Err LabelNotFound | Some l \<Rightarrow> Ok l, db))"

definition label_Delete :: "string \<Rightarrow> string \<Rightarrow> guard_db \<Rightarrow> (guard_error, unit) result \<times> guard_db" where
  "label_Delete t i = gstmt (\<lambda>db.
     if lookup_label db t i = None then (Err LabelNotFound, db)
     else (Ok (), db\<lparr>gd_labels := filter (\<lambda>l. label_key l \<noteq> (t, i)) (gd_labels db)\<rparr>))"

text \<open>Rows with the same time of update come in the order of insertion.\<close>

definition page :: "int \<Rightarrow> int \<Rightarrow> DataSensitivityLabel list \<Rightarrow> DataSensitivityLabel list" where
  "page limit offset ls =
    take (nat (if limit \<le> 0 then 100 else limit)) (drop (nat offset) (sort_key (\<lambda>l. - lb_UpdatedAt l) ls))"

definition label_List :: "string \<Rightarrow> string \<Rightarrow> int \<Rightarrow> int \<Rightarrow> guard_db \<Rightarrow> (guard_error, DataSensitivityLabel list \<times> nat) result \<times> guard_db" where
  "label_List sens source limit offset db0 =
    (let sel = (\<lambda>db. filter (\<lambda>l. (sens = [] \<or> lb_Sensitivity l = sens) \<and> (source = [] \<or> lb_LabelSource l = source)) (gd_labels db)) in
     case gstmt (\<lambda>db. (Ok (length (sel db)), db)) db0 of
       (Err e, db) \<Rightarrow> (Err e, db)
     | (Ok n, db) \<Rightarrow> gstmt (\<lambda>db. (Ok (page limit offset (sel db), n), db)) db)"

definition label_ListByResourceType :: "string \<Rightarrow> string \<Rightarrow> int \<Rightarrow> int \<Rightarrow> guard_db \<Rightarrow> (guard_error, DataSensitivityLabel list) result \<times> guard_db" where
  "label_ListByResourceType t sens limit offset = gstmt (\<lambda>db.
     (Ok (page limit offset (filter (\<lambda>l. lb_ResourceType l = t \<and> (sens = [] \<or> lb_Sensitivity l = sens)) (gd_labels db))), db))"

section \<open>The manager\<close>

record LabelManager =
  lm_resolver :: "(string \<Rightarrow> string \<Rightarrow> (string, (string \<times> string) list) result) option"
  lm_engine :: "Resource \<Rightarrow> Match option"

definition heuristic_label :: "Resource \<Rightarrow> Match \<Rightarrow> instant \<Rightarrow> DataSensitivityLabel" where
  "heuristic_label res m now =
    \<lparr>lb_ResourceType = rs_Type res, lb_ResourceID = rs_ID res, lb_Sensitivity = mt_Sensitivity m, lb_ComplianceTags = [],
     lb_LabelSource = SourceHeuristic, lb_Confidence = mt_Confidence m, lb_LabeledBy = ''heuristic'',
     lb_Notes = (if mt_Confidence m < 85/100 then mt_Reason m @ '' | needs_admin_review'' else mt_Reason m),
     lb_CreatedAt = now, lb_UpdatedAt = now\<rparr>"

definition ApplyHeuristic :: "LabelManager \<Rightarrow> instant \<Rightarrow> Resource \<Rightarrow> guard_db \<Rightarrow> (guard_error, DataSensitivityLabel option) result \<times> guard_db" where
  "ApplyHeuristic lm now res db = (case lm_engine lm res of
     None \<Rightarrow> (Ok None, db)
   | Some m \<Rightarrow>
       if mt_Confidence m < 70/100 then (Ok None, db)
       else (let l = heuristic_label res m now in
         case label_Create l db of (Err e, db1) \<Rightarrow> (Err e, db1) | (Ok _, db1) \<Rightarrow> (Ok (Some l), db1)))"

definition CreateManual :: "instant \<Rightarrow> DataSensitivityLabel option \<Rightarrow> string \<Rightarrow> guard_db \<Rightarrow> (guard_error, DataSensitivityLabel) result \<times> guard_db" where
  "CreateManual now lo caller db = (case lo of
     None \<Rightarrow> (Err NilLabel, db)
   | Some l \<Rightarrow>
       if Parse (lb_Sensitivity l) = None then (Err (InvalidSensitivity (lb_Sensitivity l)), db)
       else (let l1 = l\<lparr>lb_LabelSource := SourceManual, lb_LabeledBy := caller,
                 lb_Confidence := (if lb_Confidence l = 0 then 1 else lb_Confidence l), lb_CreatedAt := now, lb_UpdatedAt := now\<rparr>
             in case label_Create l1 db of (Err e, db1) \<Rightarrow> (Err e, db1) | (Ok _, db1) \<Rightarrow> (Ok l1, db1)))"

definition UpdateOverride :: "instant \<Rightarrow> string \<Rightarrow> string \<Rightarrow> string \<Rightarrow> string \<Rightarrow> string \<Rightarrow> guard_db \<Rightarrow> (guard_error, DataSensitivityLabel) result \<times> guard_db" where
  "UpdateOverride now t i newSens caller reason db0 =
    (if Parse newSens = None then (Err (InvalidSensitivity newSens), db0)
     else (case label_Get t i db0 of (old, db1) \<Rightarrow>
       (let prev = (case old of Ok o1 \<Rightarrow> lb_Sensitivity o1 | Err _ \<Rightarrow> []);
            l = \<lparr>lb_ResourceType = t, lb_ResourceID = i, lb_Sensitivity = newSens, lb_ComplianceTags = [], lb_LabelSource = SourceOverride,
                 lb_Confidence = 1, lb_LabeledBy = caller, lb_Notes = ''override_of='' @ prev @ '' | '' @ reason, lb_CreatedAt = now, lb_UpdatedAt = now\<rparr>
        in case label_Create l db1 of (Err e, db2) \<Rightarrow> (Err e, db2) | (Ok _, db2) \<Rightarrow> (Ok l, db2))))"

definition authoritative :: "DataSensitivityLabel \<Rightarrow> bool" where
  "authoritative l = (lb_LabelSource l = SourceManual \<or> lb_LabelSource l = SourceOverride)"

definition confident_heuristic :: "DataSensitivityLabel \<Rightarrow> bool" where
  "confident_heuristic l = (lb_LabelSource l = SourceHeuristic \<and> 85/100 \<le> lb_Confidence l)"

text \<open>An error of \<^verbatim>\<open>Parse\<close> is dropped and leaves the empty sensitivity.\<close>

definition parsed :: "DataSensitivityLabel \<Rightarrow> string" where
  "parsed l = (case Parse (lb_Sensitivity l) of None \<Rightarrow> [] | Some s \<Rightarrow> s)"

text \<open>The first parent whose label counts; a parent that cannot be read is skipped.\<close>

fun resolve_parents :: "(string \<times> string) list \<Rightarrow> guard_db \<Rightarrow> (string \<times> rat) option \<times> guard_db" where
  "resolve_parents [] db = (None, db)"
| "resolve_parents ((t, i) # ps) db0 = (case label_Get t i db0 of
     (Err _, db) \<Rightarrow> resolve_parents ps db
   | (Ok l, db) \<Rightarrow>
       if authoritative l \<or> lb_LabelSource l = SourceInherited \<or> confident_heuristic l then (Some (parsed l, lb_Confidence l), db)
       else resolve_parents ps db)"

text \<open>The effective sensitivity, its confidence and whether it is inherited.\<close>

definition ResolveEffective :: "LabelManager \<Rightarrow> string \<Rightarrow> string \<Rightarrow> guard_db \<Rightarrow> (guard_error, string \<times> rat \<times> bool) result \<times> guard_db" where
  "ResolveEffective lm t i db0 = (case label_Get t i db0 of
     (Err (LabelDriver e), db) \<Rightarrow> (Err (LabelDriver e), db)
   | (got, db) \<Rightarrow>
       (let own = (case got of Ok l \<Rightarrow> if authoritative l \<or> confident_heuristic l then Some l else None | Err _ \<Rightarrow> None) in
        case own of
          Some l \<Rightarrow> (Ok (parsed l, lb_Confidence l, False), db)
        | None \<Rightarrow>
            (let parents = (case lm_resolver lm of None \<Rightarrow> [] | Some f \<Rightarrow> (case f t i of Err _ \<Rightarrow> [] | Ok ps \<Rightarrow> ps)) in
             case resolve_parents parents db of
               (Some (s, c), db1) \<Rightarrow> (Ok (s, c, True), db1)
             | (None, db1) \<Rightarrow> (Ok (SensInternal, 50/100, False), db1))))"

definition inherited_label :: "DataSensitivityLabel \<Rightarrow> string \<Rightarrow> string \<Rightarrow> instant \<Rightarrow> DataSensitivityLabel" where
  "inherited_label parent childType cid now =
    (let origin = lb_ResourceType parent @ '':'' @ lb_ResourceID parent in
     \<lparr>lb_ResourceType = childType, lb_ResourceID = cid, lb_Sensitivity = lb_Sensitivity parent, lb_ComplianceTags = [],
      lb_LabelSource = SourceInherited, lb_Confidence = lb_Confidence parent, lb_LabeledBy = ''inherit:'' @ origin,
      lb_Notes = ''inherited_from='' @ origin, lb_CreatedAt = now, lb_UpdatedAt = now\<rparr>)"

fun inherit_children :: "DataSensitivityLabel \<Rightarrow> string \<Rightarrow> instant \<Rightarrow> string list \<Rightarrow> nat \<Rightarrow> guard_db \<Rightarrow> nat \<times> guard_error err \<times> guard_db" where
  "inherit_children parent ct now [] n db = (n, None, db)"
| "inherit_children parent ct now (cid # cids) n db0 = (case label_Get ct cid db0 of (existing, db1) \<Rightarrow>
     if (case existing of Ok e \<Rightarrow> authoritative e | Err _ \<Rightarrow> False) then inherit_children parent ct now cids n db1
     else (case label_Create (inherited_label parent ct cid now) db1 of
         (Err e, db2) \<Rightarrow> (n, Some e, db2)
       | (Ok _, db2) \<Rightarrow> inherit_children parent ct now cids (n + 1) db2))"

definition InheritFromParent :: "instant \<Rightarrow> string \<Rightarrow> string \<Rightarrow> string \<Rightarrow> string list \<Rightarrow> guard_db \<Rightarrow> nat \<times> guard_error err \<times> guard_db" where
  "InheritFromParent now pt pid ct cids db0 = (case label_Get pt pid db0 of
     (Err e, db) \<Rightarrow> (0, Some e, db)
   | (Ok parent, db) \<Rightarrow> inherit_children parent ct now cids 0 db)"

section \<open>Rows and statements\<close>

lemma find_save_row: "find (\<lambda>r. label_key r = k) (save_row l rs) = (if label_key l = k then Some l else find (\<lambda>r. label_key r = k) rs)"
  by (induction rs) auto

lemma keys_save_row: "label_key ` set (save_row l rs) = insert (label_key l) (label_key ` set rs)"
  by (induction rs) auto

lemma distinct_save_row: "distinct (map label_key rs) \<Longrightarrow> distinct (map label_key (save_row l rs))"
proof (induction rs)
  case (Cons r rs)
  then have "label_key r \<notin> label_key ` set (save_row l rs)" if "label_key r \<noteq> label_key l"
    using that by (auto simp: keys_save_row)
  with Cons show ?case by auto
qed simp

lemma set_save_row: "set (save_row l rs) \<subseteq> insert l (set rs)"
  by (induction rs) auto

lemma lookup_cong [guard_simps]: "lookup_label (db\<lparr>gd_faults := fs\<rparr>) = lookup_label db"
  by (simp add: lookup_label_def fun_eq_iff)

lemma lookup_saved [guard_simps]:
  "lookup_label (db\<lparr>gd_labels := save_row l (gd_labels db)\<rparr>) t i = (if label_key l = (t, i) then Some l else lookup_label db t i)"
  by (simp add: lookup_label_def find_save_row)

lemma lookup_Some: "lookup_label db t i = Some l \<Longrightarrow> l \<in> set (gd_labels db) \<and> label_key l = (t, i)"
  unfolding lookup_label_def by (drule find_Some_mem) simp

lemma label_Get_nofault [guard_simps]:
  "gd_faults db = [] \<Longrightarrow> label_Get t i db = (case lookup_label db t i of None \<Rightarrow> Err LabelNotFound | Some l \<Rightarrow> Ok l, db)"
  by (simp add: label_Get_def gstmt_def)

lemma label_Create_nofault [guard_simps]:
  "gd_faults db = [] \<Longrightarrow> label_Create l db = (Ok (), db\<lparr>gd_labels := save_row l (gd_labels db)\<rparr>)"
  by (simp add: label_Create_def gstmt_def)

lemma heuristic_label_key [simp]: "label_key (heuristic_label res m now) = (rs_Type res, rs_ID res)"
  by (simp add: heuristic_label_def label_key_def)

section \<open>Labels are overwritten, protected, inherited\<close>

text \<open>
  Automatic labelling replaces whatever label the resource has, a manual or an overriding one
  included: after it the row is the heuristic one.
\<close>

theorem apply_heuristic_overwrites:
  assumes "lm_engine lm res = Some m" "70/100 \<le> mt_Confidence m" "gd_faults db = []"
  shows "lookup_label (snd (ApplyHeuristic lm now res db)) (rs_Type res) (rs_ID res) = Some (heuristic_label res m now)"
  using assms by (simp add: ApplyHeuristic_def Let_def guard_simps)

definition protected_label :: "guard_db \<Rightarrow> string \<Rightarrow> string \<Rightarrow> bool" where
  "protected_label db t i = (case lookup_label db t i of None \<Rightarrow> False | Some l \<Rightarrow> authoritative l)"

lemma inherited_label_key [simp]: "label_key (inherited_label p ct cid now) = (ct, cid)" "\<not> authoritative (inherited_label p ct cid now)"
  by (simp_all add: inherited_label_def label_key_def authoritative_def Let_def source_defs)

lemma inherit_children_spec:
  assumes "gd_faults db = []"
  shows "inherit_children parent ct now cids n db = (m, e, db') \<Longrightarrow>
    gd_faults db' = [] \<and> e = None \<and> m = n + length (filter (\<lambda>c. \<not> protected_label db ct c) cids) \<and>
    lookup_label db' t i = (if t = ct \<and> i \<in> set cids \<and> \<not> protected_label db ct i then Some (inherited_label parent ct i now) else lookup_label db t i)"
  using assms
proof (induction cids arbitrary: n db)
  case (Cons c cs)
  show ?case
  proof (cases "protected_label db ct c")
    case True
    then have "inherit_children parent ct now (c # cs) n db = inherit_children parent ct now cs n db"
      using Cons.prems by (auto simp: guard_simps protected_label_def split: option.splits)
    with Cons True show ?thesis by auto
  next
    case False
    let ?db = "db\<lparr>gd_labels := save_row (inherited_label parent ct c now) (gd_labels db)\<rparr>"
    have "inherit_children parent ct now (c # cs) n db = inherit_children parent ct now cs (n + 1) ?db"
      using Cons.prems False by (auto simp: guard_simps protected_label_def split: option.splits)
    moreover have p: "protected_label ?db ct x = protected_label db ct x" for x
      using False by (auto simp: protected_label_def guard_simps split: option.splits)
    ultimately have "gd_faults db' = [] \<and> e = None \<and> m = (n + 1) + length (filter (\<lambda>c. \<not> protected_label db ct c) cs) \<and>
      lookup_label db' t i = (if t = ct \<and> i \<in> set cs \<and> \<not> protected_label db ct i then Some (inherited_label parent ct i now) else lookup_label ?db t i)"
      using Cons.IH[of "n + 1" ?db] Cons.prems by simp
    then show ?thesis using False by (auto simp: guard_simps)
  qed
qed simp

text \<open>
  Without failing statements, inheriting a parent's label gives it to exactly the listed children
  that have no manual or overriding label, counts them, and leaves every other row as it was.
\<close>

theorem inherit_protects_manual:
  assumes "gd_faults db = []" "lookup_label db pt pid = Some parent"
    and "InheritFromParent now pt pid ct cids db = (n, e, db')"
  shows "e = None \<and> n = length (filter (\<lambda>c. \<not> protected_label db ct c) cids) \<and>
    lookup_label db' t i = (if t = ct \<and> i \<in> set cids \<and> \<not> protected_label db ct i then Some (inherited_label parent ct i now) else lookup_label db t i)"
  using assms inherit_children_spec[OF assms(1), of parent ct now cids 0 n e db' t i]
  by (simp add: InheritFromParent_def guard_simps)

text \<open>
  Reading the label of the child before writing the inherited one drops errors: when that read
  fails, a manual label is replaced.
\<close>

lemma inherit_read_failure:
  assumes "gd_faults db = [Some err]"
  shows "lookup_label (snd (snd (inherit_children parent ct now [cid] 0 db))) ct cid = Some (inherited_label parent ct cid now)"
  using assms by (simp add: label_Get_def label_Create_def gstmt_def lookup_label_def find_save_row)

text \<open>
  A label a resource has inherited does not count when its effective sensitivity is resolved: without
  a way to look up parents, which is how the program is put together, the resource has the default
  sensitivity whatever was inherited.
\<close>

theorem inherited_label_ignored:
  assumes "gd_faults db = []" "lookup_label db t i = Some (inherited_label parent t i now)" "lm_resolver lm = None"
  shows "ResolveEffective lm t i db = (Ok (SensInternal, 50/100, False), db)"
proof -
  have "\<not> confident_heuristic (inherited_label parent t i now)"
    by (simp add: confident_heuristic_def inherited_label_def Let_def source_defs)
  then show ?thesis using assms by (simp add: ResolveEffective_def guard_simps)
qed

text \<open>
  An override is what is resolved afterwards, whatever the parents, other labels and the resolver say.
\<close>

theorem override_resolves:
  assumes "gd_faults db = []" "Parse sens = Some v"
  shows "fst (ResolveEffective lm t i (snd (UpdateOverride now t i sens caller reason db))) = Ok (v, 1, False)"
  using assms by (simp add: UpdateOverride_def Let_def guard_simps label_key_def ResolveEffective_def authoritative_def source_defs parsed_def)

section \<open>Every label has a known sensitivity\<close>

definition labels_ok :: "guard_db \<Rightarrow> bool" where
  "labels_ok db = (distinct (map label_key (gd_labels db)) \<and> (\<forall>l\<in>set (gd_labels db). IsValid (lb_Sensitivity l)))"

lemma labels_ok_faults: "labels_ok (db\<lparr>gd_faults := fs\<rparr>) = labels_ok db"
  by (simp add: labels_ok_def)

lemma gstmt_keeps:
  assumes "labels_ok db" "\<And>d. gd_labels d = gd_labels db \<Longrightarrow> labels_ok (snd (act d))"
  shows "labels_ok (snd (gstmt act db))"
  using assms by (simp add: gstmt_def labels_ok_faults split: list.splits option.splits)

lemma label_Create_ok: "labels_ok db \<Longrightarrow> IsValid (lb_Sensitivity l) \<Longrightarrow> labels_ok (snd (label_Create l db))"
  unfolding label_Create_def using set_save_row[of l "gd_labels db"]
  by (intro gstmt_keeps) (auto simp: labels_ok_def distinct_save_row)

lemma label_Delete_ok: "labels_ok db \<Longrightarrow> labels_ok (snd (label_Delete t i db))"
  unfolding label_Delete_def by (intro gstmt_keeps) (auto simp: labels_ok_def lookup_label_def distinct_map_filter)

lemma label_Get_db: "label_Get t i db = (r, db') \<Longrightarrow> gd_labels db' = gd_labels db"
  by (auto simp: label_Get_def gstmt_def split: list.splits option.splits)

lemma label_Get_row: "label_Get t i db = (Ok l, db') \<Longrightarrow> l \<in> set (gd_labels db)"
  by (auto simp: label_Get_def gstmt_def lookup_label_def split: list.splits option.splits dest!: find_Some_mem)

lemma labels_ok_cong: "gd_labels db' = gd_labels db \<Longrightarrow> labels_ok db' = labels_ok db"
  by (simp add: labels_ok_def)

lemma engine_valid: "CompositeEngine_Match res = Some m \<Longrightarrow> IsValid (mt_Sensitivity m)"
proof -
  have v: "IsValid SensConfidential" "IsValid SensRestricted" "IsValid SensTopSecret" by code_simp+
  have c: "pg_column_match res = Some (c, s) \<Longrightarrow> s = SensRestricted" for c s
    by (auto simp: pg_column_match_def pg_columns_def split: option.splits if_splits)
  assume "CompositeEngine_Match res = Some m"
  then show ?thesis
    by (auto simp: CompositeEngine_Match_def pgEngine_Match_def redisEngine_Match_def k8sEngine_Match_def gitEngine_Match_def Let_def
        v dest!: c split: if_splits option.splits)
qed

lemma ApplyHeuristic_ok:
  assumes "labels_ok db" "lm_engine lm = CompositeEngine_Match"
  shows "labels_ok (snd (ApplyHeuristic lm now res db))"
proof (cases "CompositeEngine_Match res")
  case (Some m)
  have "IsValid (lb_Sensitivity (heuristic_label res m now))" using engine_valid[OF Some] by (simp add: heuristic_label_def)
  from label_Create_ok[OF assms(1) this] show ?thesis
    using assms Some by (auto simp: ApplyHeuristic_def Let_def split: sum.splits prod.splits)
qed (use assms in \<open>simp add: ApplyHeuristic_def\<close>)

lemma CreateManual_ok: "labels_ok db \<Longrightarrow> labels_ok (snd (CreateManual now lo caller db))"
proof (cases lo)
  case (Some l)
  let ?l1 = "l\<lparr>lb_LabelSource := SourceManual, lb_LabeledBy := caller,
    lb_Confidence := (if lb_Confidence l = 0 then 1 else lb_Confidence l), lb_CreatedAt := now, lb_UpdatedAt := now\<rparr>"
  assume "labels_ok db"
  then show ?thesis using Some label_Create_ok[of db ?l1]
    by (auto simp: CreateManual_def Let_def IsValid_def split: sum.splits prod.splits)
qed (simp add: CreateManual_def)

lemma UpdateOverride_ok: "labels_ok db \<Longrightarrow> labels_ok (snd (UpdateOverride now t i sens caller reason db))"
proof -
  assume ok: "labels_ok db"
  obtain r db1 where g: "label_Get t i db = (r, db1)" by force
  have ok1: "labels_ok db1" using labels_ok_cong[OF label_Get_db[OF g]] ok by simp
  let ?l = "\<lparr>lb_ResourceType = t, lb_ResourceID = i, lb_Sensitivity = sens, lb_ComplianceTags = [], lb_LabelSource = SourceOverride,
    lb_Confidence = 1, lb_LabeledBy = caller, lb_Notes = ''override_of='' @ (case r of Ok o1 \<Rightarrow> lb_Sensitivity o1 | Err _ \<Rightarrow> []) @ '' | '' @ reason,
    lb_CreatedAt = now, lb_UpdatedAt = now\<rparr>"
  show ?thesis
  proof (cases "Parse sens = None")
    case False
    obtain q db2 where w: "label_Create ?l db1 = (q, db2)" by force
    have "labels_ok (snd (label_Create ?l db1))" using False by (intro label_Create_ok[OF ok1]) (simp add: IsValid_def)
    with w have "labels_ok db2" by simp
    with False g w show ?thesis by (cases q) (simp_all add: UpdateOverride_def Let_def ok)
  qed (simp add: UpdateOverride_def ok)
qed

lemma inherit_children_ok: "labels_ok db \<Longrightarrow> IsValid (lb_Sensitivity parent) \<Longrightarrow> labels_ok (snd (snd (inherit_children parent ct now cids n db)))"
proof (induction cids arbitrary: n db)
  case (Cons c cs)
  obtain r db1 where g: "label_Get ct c db = (r, db1)" by force
  have ok1: "labels_ok db1" using labels_ok_cong[OF label_Get_db[OF g]] Cons by simp
  obtain q db2 where w: "label_Create (inherited_label parent ct c now) db1 = (q, db2)" by force
  have "IsValid (lb_Sensitivity (inherited_label parent ct c now))" using Cons by (simp add: inherited_label_def Let_def)
  from label_Create_ok[OF ok1 this] w have ok2: "labels_ok db2" by simp
  show ?case using g w Cons.IH[OF ok1] Cons.IH[OF ok2] Cons.prems ok2 by (auto split: sum.splits)
qed simp

lemma InheritFromParent_ok: "labels_ok db \<Longrightarrow> labels_ok (snd (snd (InheritFromParent now pt pid ct cids db)))"
proof -
  assume ok: "labels_ok db"
  obtain r db1 where g: "label_Get pt pid db = (r, db1)" by force
  have ok1: "labels_ok db1" using labels_ok_cong[OF label_Get_db[OF g]] ok by simp
  show ?thesis
  proof (cases r)
    case (Inr parent)
    have "IsValid (lb_Sensitivity parent)" using label_Get_row g Inr ok by (fastforce simp: labels_ok_def)
    from inherit_children_ok[OF ok1 this] g Inr show ?thesis by (simp add: InheritFromParent_def)
  qed (use g ok1 in \<open>simp add: InheritFromParent_def\<close>)
qed

text \<open>A request to the manager, with the time it is served at.\<close>

datatype guard_op =
    OpHeuristic instant Resource
  | OpManual instant "DataSensitivityLabel option" string
  | OpOverride instant string string string string string
  | OpInherit instant string string string "string list"
  | OpDelete string string

fun guard_run :: "LabelManager \<Rightarrow> guard_op \<Rightarrow> guard_db \<Rightarrow> guard_db" where
  "guard_run lm (OpHeuristic now res) db = snd (ApplyHeuristic lm now res db)"
| "guard_run lm (OpManual now l caller) db = snd (CreateManual now l caller db)"
| "guard_run lm (OpOverride now t i s caller reason) db = snd (UpdateOverride now t i s caller reason db)"
| "guard_run lm (OpInherit now pt pid ct cids) db = snd (snd (InheritFromParent now pt pid ct cids db))"
| "guard_run lm (OpDelete t i) db = snd (label_Delete t i db)"

lemma guard_run_ok: "labels_ok db \<Longrightarrow> lm_engine lm = CompositeEngine_Match \<Longrightarrow> labels_ok (fold (guard_run lm) ops db)"
proof (induction ops arbitrary: db)
  case (Cons x xs)
  then have "labels_ok (guard_run lm x db)"
    by (cases x) (simp_all add: ApplyHeuristic_ok CreateManual_ok UpdateOverride_ok InheritFromParent_ok label_Delete_ok)
  with Cons show ?case by simp
qed simp

lemma parsed_valid: "IsValid (lb_Sensitivity l) \<Longrightarrow> map_of sens_rank (parsed l) \<noteq> None"
  by (auto simp: IsValid_def parsed_def Parse_def Let_def split: if_splits option.splits)

lemma resolve_parents_valid:
  "labels_ok db \<Longrightarrow> resolve_parents ps db = (Some (s, c), db') \<Longrightarrow> map_of sens_rank s \<noteq> None"
proof (induction ps arbitrary: db)
  case (Cons p ps)
  obtain t i where p: "p = (t, i)" by force
  obtain r db1 where g: "label_Get t i db = (r, db1)" by force
  have ok1: "labels_ok db1" using labels_ok_cong[OF label_Get_db[OF g]] Cons by simp
  show ?case
  proof (cases r)
    case (Inr l)
    then have "IsValid (lb_Sensitivity l)" using label_Get_row g Cons.prems(1) by (fastforce simp: labels_ok_def)
    then show ?thesis using Cons.prems Cons.IH[OF ok1] g p Inr by (auto dest: parsed_valid split: if_splits)
  qed (use Cons.prems Cons.IH[OF ok1] g p in simp)
qed simp

text \<open>
  C30. From a table of labels with known sensitivities, whatever requests are served and whichever
  statements fail, the table keeps one label per resource, and the effective sensitivity of any resource
  is one of the five levels.
\<close>

theorem effective_sensitivity_known:
  assumes "labels_ok db" "lm_engine lm = CompositeEngine_Match"
    and "ResolveEffective lm t i (fold (guard_run lm) ops db) = (Ok (s, c, inh), db')"
  shows "map_of sens_rank s \<noteq> None \<and> distinct (map label_key (gd_labels (fold (guard_run lm) ops db)))"
proof -
  let ?d = "fold (guard_run lm) ops db"
  have ok: "labels_ok ?d" by (rule guard_run_ok[OF assms(1,2)])
  obtain r db1 where g: "label_Get t i ?d = (r, db1)" by force
  have ok1: "labels_ok db1" using labels_ok_cong[OF label_Get_db[OF g]] ok by simp
  have own: "map_of sens_rank (parsed l) \<noteq> None" if "r = Ok l" for l
    using label_Get_row[of t i ?d l db1] g that ok by (intro parsed_valid) (simp add: labels_ok_def)
  have "map_of sens_rank SensInternal \<noteq> None" by (simp add: sens_rank_def sens_defs)
  with own resolve_parents_valid[OF ok1] assms(3) g have "map_of sens_rank s \<noteq> None"
    by (auto simp: ResolveEffective_def Let_def split: sum.splits guard_error.splits option.splits prod.splits if_splits)
  then show ?thesis using ok by (simp add: labels_ok_def)
qed

section \<open>A small table\<close>

definition demo_label :: "string \<Rightarrow> string \<Rightarrow> string \<Rightarrow> DataSensitivityLabel" where
  "demo_label i sens source = \<lparr>lb_ResourceType = ''pg'', lb_ResourceID = i, lb_Sensitivity = sens, lb_ComplianceTags = [], lb_LabelSource = source,
     lb_Confidence = 1, lb_LabeledBy = ''op'', lb_Notes = [], lb_CreatedAt = 0, lb_UpdatedAt = 0\<rparr>"

definition demo_guard_db :: guard_db where
  "demo_guard_db = \<lparr>gd_labels = [demo_label ''a'' SensTopSecret SourceManual, demo_label ''b'' SensPublic SourceHeuristic], gd_faults = []\<rparr>"

definition demo_lm :: LabelManager where
  "demo_lm = \<lparr>lm_resolver = None, lm_engine = CompositeEngine_Match\<rparr>"

definition demo_resource :: Resource where
  "demo_resource = \<lparr>rs_Type = ''pg'', rs_ID = ''a'', rs_Parent = [], rs_Name = ''billing'', rs_Extra = []\<rparr>"

lemma demo_lookup:
  "lookup_label demo_guard_db ''pg'' ''a'' = Some (demo_label ''a'' SensTopSecret SourceManual)"
  "lookup_label demo_guard_db ''pg'' ''b'' = Some (demo_label ''b'' SensPublic SourceHeuristic)"
  "gd_faults demo_guard_db = []"
  by (simp_all add: lookup_label_def demo_guard_db_def demo_label_def label_key_def)

lemma demo_protected: "protected_label demo_guard_db ''pg'' ''a''" "\<not> protected_label demo_guard_db ''pg'' ''b''"
  by (simp_all add: protected_label_def demo_lookup) (simp_all add: authoritative_def demo_label_def source_defs)

lemma demo_match: "CompositeEngine_Match demo_resource = Some \<lparr>mt_Sensitivity = SensConfidential, mt_Confidence = 80/100, mt_Reason = ''PG table name contains payment/billing''\<rparr>"
  by code_simp

theorem apply_heuristic_overwrites_witness:
  "lb_LabelSource (the (lookup_label demo_guard_db ''pg'' ''a'')) = SourceManual \<and>
   lookup_label (snd (ApplyHeuristic demo_lm 5 demo_resource demo_guard_db)) ''pg'' ''a'' =
     Some (heuristic_label demo_resource \<lparr>mt_Sensitivity = SensConfidential, mt_Confidence = 80/100, mt_Reason = ''PG table name contains payment/billing''\<rparr> 5)"
  using apply_heuristic_overwrites[of demo_lm demo_resource _ demo_guard_db 5]
  by (simp add: demo_match demo_lookup demo_lm_def) (simp add: demo_resource_def demo_label_def)

theorem inherit_protects_manual_witness:
  "\<exists>n e db'. InheritFromParent 5 ''pg'' ''a'' ''pg'' [''a'', ''b''] demo_guard_db = (n, e, db') \<and> n = 1 \<and>
    lookup_label db' ''pg'' ''a'' = Some (demo_label ''a'' SensTopSecret SourceManual) \<and>
    lookup_label db' ''pg'' ''b'' = Some (inherited_label (demo_label ''a'' SensTopSecret SourceManual) ''pg'' ''b'' 5)"
proof -
  obtain n e db' where r: "InheritFromParent 5 ''pg'' ''a'' ''pg'' [''a'', ''b''] demo_guard_db = (n, e, db')" by (metis prod_cases3)
  from inherit_protects_manual[OF demo_lookup(3,1) r, of "''pg''" "''a''"] inherit_protects_manual[OF demo_lookup(3,1) r, of "''pg''" "''b''"] r
  show ?thesis by (simp add: demo_protected demo_lookup)
qed

theorem inherited_label_ignored_witness:
  "fst (ResolveEffective demo_lm ''pg'' ''b'' (demo_guard_db\<lparr>gd_labels := [inherited_label (demo_label ''a'' SensTopSecret SourceManual) ''pg'' ''b'' 5]\<rparr>)) =
    Ok (SensInternal, 50/100, False)"
  by (subst inherited_label_ignored) (simp_all add: lookup_label_def demo_lm_def demo_guard_db_def)

theorem override_resolves_witness:
  "fst (ResolveEffective demo_lm ''pg'' ''b'' (snd (UpdateOverride 5 ''pg'' ''b'' SensRestricted ''op'' ''why'' demo_guard_db))) = Ok (SensRestricted, 1, False)"
proof -
  have "Parse SensRestricted = Some SensRestricted" by code_simp
  then show ?thesis by (rule override_resolves[OF demo_lookup(3)])
qed

theorem effective_sensitivity_known_witness:
  "map_of sens_rank SensTopSecret \<noteq> None \<and> distinct (map label_key (gd_labels (fold (guard_run demo_lm) [OpDelete ''pg'' ''b''] demo_guard_db)))"
proof -
  have v: "IsValid SensTopSecret" "IsValid SensPublic" "Parse SensTopSecret = Some SensTopSecret" by code_simp+
  then have ok: "labels_ok demo_guard_db" by (simp add: labels_ok_def demo_guard_db_def demo_label_def label_key_def)
  have "ResolveEffective demo_lm ''pg'' ''a'' (fold (guard_run demo_lm) [OpDelete ''pg'' ''b''] demo_guard_db) =
      (Ok (SensTopSecret, 1, False), snd (label_Delete ''pg'' ''b'' demo_guard_db))"
    by (simp add: label_Delete_def gstmt_def demo_lookup(2,3))
      (simp add: ResolveEffective_def guard_simps lookup_label_def demo_guard_db_def demo_label_def label_key_def authoritative_def source_defs parsed_def v)
  from effective_sensitivity_known[OF ok _ this] show ?thesis by (simp add: demo_lm_def)
qed

end
