(* ===== verification/Iam_Model.thy ===== *)
theory Iam_Model
  imports Guard_Redact
begin

text \<open>
  Identity and access management: its entities (\<^verbatim>\<open>internal/iam/model\<close>) and the database all its
  stores share. A table is the list of its rows in the order of their identifiers; the rules of the policy
  engine are a table too, because its adapter keeps them in the same database. Each statement consumes
  one entry of \<open>id_faults\<close>: a failing statement reports an error and changes nothing.
  Identifiers are naturals counted up by the database.
\<close>

section \<open>Roles\<close>

definition RoleAdmin :: string where "RoleAdmin = ''admin''"
definition RoleUser :: string where "RoleUser = ''user''"
definition RoleViewer :: string where "RoleViewer = ''viewer''"

definition IsValidRole :: "string \<Rightarrow> bool" where
  "IsValidRole r = (r = RoleAdmin \<or> r = RoleUser \<or> r = RoleViewer)"

definition RoleCanMutate :: "string \<Rightarrow> bool" where
  "RoleCanMutate r = (r \<noteq> RoleViewer)"

definition StatusActive :: string where "StatusActive = ''active''"
definition StatusDisabled :: string where "StatusDisabled = ''disabled''"

definition MembershipRoleAdmin :: string where "MembershipRoleAdmin = ''org_admin''"
definition MembershipRoleMember :: string where "MembershipRoleMember = ''member''"
definition MembershipRoleViewer :: string where "MembershipRoleViewer = ''viewer''"

definition IsValidMembershipRole :: "string \<Rightarrow> bool" where
  "IsValidMembershipRole r = (r = MembershipRoleAdmin \<or> r = MembershipRoleMember \<or> r = MembershipRoleViewer)"

lemmas role_defs = RoleAdmin_def RoleUser_def RoleViewer_def StatusActive_def StatusDisabled_def
  MembershipRoleAdmin_def MembershipRoleMember_def MembershipRoleViewer_def

section \<open>Entities\<close>

record User =
  us_ID :: nat
  us_Email :: string
  us_PassHash :: string
  us_DisplayName :: string
  us_Phone :: string
  us_Role :: string
  us_IsSuperuser :: bool
  us_Status :: string

record Org =
  or_ID :: nat
  or_Name :: string
  or_Description :: string
  or_ParentID :: "nat option"

record OrgMembership =
  om_ID :: nat
  om_UserID :: nat
  om_OrgID :: nat
  om_Role :: string

type_synonym p_rule = "string \<times> string \<times> string \<times> string"
type_synonym g_rule = "string \<times> string \<times> string"

record iam_db =
  id_users :: "User list"
  id_nextUser :: nat
  id_orgs :: "Org list"
  id_nextOrg :: nat
  id_members :: "OrgMembership list"
  id_nextMember :: nat
  id_p :: "p_rule list"
  id_g :: "g_rule list"
  id_tiers :: "((nat \<times> nat) \<times> string) list"
  id_faults :: "string option list"

datatype iam_error =
    IamNotFound
  | IamUnauthorized
  | IamForbidden
  | IamConflict
  | IamInvalid string
  | IamDriver string
  | NilTierRepo
  | ErrTierUnmet

definition istmt :: "(iam_db \<Rightarrow> (iam_error, 'a) result \<times> iam_db) \<Rightarrow> iam_db \<Rightarrow> (iam_error, 'a) result \<times> iam_db" where
  "istmt act db = (case id_faults db of
     [] \<Rightarrow> act db
   | None # fs \<Rightarrow> act (db\<lparr>id_faults := fs\<rparr>)
   | Some e # fs \<Rightarrow> (Err (IamDriver e), db\<lparr>id_faults := fs\<rparr>))"

text \<open>The driver's message for a violated unique index.\<close>

definition unique_error :: iam_error where "unique_error = IamDriver ''UNIQUE constraint failed''"

lemma istmt_nofault [guard_simps]: "id_faults db = [] \<Longrightarrow> istmt act db = act db"
  by (simp add: istmt_def)

text \<open>A property of the database that a statement keeps, and that ignores the script of failures.\<close>

lemma istmt_keeps:
  assumes "P db" "\<And>d fs. P d \<Longrightarrow> P (d\<lparr>id_faults := fs\<rparr>)" "\<And>d. P d \<Longrightarrow> P (snd (act d))"
  shows "P (snd (istmt act db))"
  using assms by (simp add: istmt_def split: list.splits option.splits)

end
