(* ===== verification/Iam_Authz.thy ===== *)
theory Iam_Authz
  imports Iam_Model
begin

text \<open>
  Authorization (\<^verbatim>\<open>internal/iam/biz/authz\<close>) and the memberships it mirrors
  (\<^verbatim>\<open>internal/iam/biz/membership\<close>, \<^verbatim>\<open>internal/iam/data/membership/store\<close>). The policy
  engine is Casbin: the matcher is written out from \<^verbatim>\<open>model.conf\<close>; its role manager and its
  \<^verbatim>\<open>keyMatch\<close> function are the record \<open>casbin\<close>, and \<open>casbin_ok\<close> is what their documentation
  promises for rules without nested roles. Managing a rule is one statement; adding a rule that is
  there does nothing.
\<close>

section \<open>The policy engine\<close>

record casbin =
  cb_hasLink :: "g_rule list \<Rightarrow> string \<Rightarrow> string \<Rightarrow> string \<Rightarrow> bool"
  cb_keyMatch :: "string \<Rightarrow> string \<Rightarrow> bool"

definition flat_roles :: "g_rule list \<Rightarrow> bool" where
  "flat_roles gs = (\<forall>(u, r, d)\<in>set gs. r \<notin> fst ` set gs)"

definition casbin_ok :: "casbin \<Rightarrow> bool" where
  "casbin_ok cb =
    ((\<forall>gs u r d. flat_roles gs \<longrightarrow> cb_hasLink cb gs u r d = (u = r \<or> (u, r, d) \<in> set gs)) \<and>
     (\<forall>k pat. CHR ''*'' \<notin> set pat \<longrightarrow> cb_keyMatch cb k pat = (k = pat)))"

definition matcher :: "casbin \<Rightarrow> g_rule list \<Rightarrow> string \<Rightarrow> string \<Rightarrow> string \<Rightarrow> string \<Rightarrow> p_rule \<Rightarrow> bool" where
  "matcher cb gs rsub rdom robj ract p = (case p of (psub, pdom, pobj, pact) \<Rightarrow>
     cb_hasLink cb gs rsub psub rdom \<and> (pdom = ''*'' \<or> rdom = pdom) \<and> (pobj = ''*'' \<or> cb_keyMatch cb robj pobj) \<and>
     (pact = ''*'' \<or> ract = pact))"

definition Enforce :: "casbin \<Rightarrow> iam_db \<Rightarrow> string \<Rightarrow> string \<Rightarrow> string \<Rightarrow> string \<Rightarrow> bool" where
  "Enforce cb db rsub rdom robj ract = list_ex (matcher cb (id_g db) rsub rdom robj ract) (id_p db)"

definition AddPolicy :: "p_rule \<Rightarrow> iam_db \<Rightarrow> (iam_error, bool) result \<times> iam_db" where
  "AddPolicy p = istmt (\<lambda>db. if p \<in> set (id_p db) then (Ok False, db) else (Ok True, db\<lparr>id_p := id_p db @ [p]\<rparr>))"

definition AddGroupingPolicy :: "g_rule \<Rightarrow> iam_db \<Rightarrow> (iam_error, bool) result \<times> iam_db" where
  "AddGroupingPolicy g = istmt (\<lambda>db. if g \<in> set (id_g db) then (Ok False, db) else (Ok True, db\<lparr>id_g := id_g db @ [g]\<rparr>))"

definition RemoveGroupingPolicy :: "g_rule \<Rightarrow> iam_db \<Rightarrow> (iam_error, bool) result \<times> iam_db" where
  "RemoveGroupingPolicy g = istmt (\<lambda>db. (Ok (g \<in> set (id_g db)), db\<lparr>id_g := filter (\<lambda>h. h \<noteq> g) (id_g db)\<rparr>))"

text \<open>The rules that agree with the given values; the empty string matches everything.\<close>

definition GetFilteredGroupingPolicy :: "string \<Rightarrow> string \<Rightarrow> string \<Rightarrow> iam_db \<Rightarrow> (iam_error, g_rule list) result \<times> iam_db" where
  "GetFilteredGroupingPolicy u r d = istmt (\<lambda>db.
     (Ok (filter (\<lambda>(gu, gr, gd). (u = [] \<or> gu = u) \<and> (r = [] \<or> gr = r) \<and> (d = [] \<or> gd = d)) (id_g db)), db))"

section \<open>The enforcer\<close>

definition uidStr :: "nat \<Rightarrow> string" where "uidStr i = dec i"
definition oidStr :: "nat \<Rightarrow> string" where "oidStr i = dec i"

definition rolePolicies :: "p_rule list" where
  "rolePolicies =
    [(MembershipRoleAdmin, ''*'', ''org:*'', ''*''), (MembershipRoleAdmin, ''*'', ''member:*'', ''*''), (MembershipRoleAdmin, ''*'', ''*'', ''*''),
     (MembershipRoleMember, ''*'', ''*'', ''read''), (MembershipRoleMember, ''*'', ''*'', ''write''), (MembershipRoleMember, ''*'', ''device:shell'', ''exec''),
     (MembershipRoleViewer, ''*'', ''*'', ''read''), (''superuser'', ''*'', ''*'', ''*'')]"

text \<open>A loop of statements that stops at the first failure.\<close>

fun each :: "('a \<Rightarrow> iam_db \<Rightarrow> (iam_error, 'b) result \<times> iam_db) \<Rightarrow> 'a list \<Rightarrow> iam_db \<Rightarrow> iam_error err \<times> iam_db" where
  "each f [] db = (None, db)"
| "each f (x # xs) db = (case f x db of (Err e, db1) \<Rightarrow> (Some e, db1) | (Ok _, db1) \<Rightarrow> each f xs db1)"

definition SeedRolePolicies :: "iam_db \<Rightarrow> iam_error err \<times> iam_db" where
  "SeedRolePolicies = each AddPolicy rolePolicies"

definition HydrateMemberships :: "OrgMembership list \<Rightarrow> iam_db \<Rightarrow> iam_error err \<times> iam_db" where
  "HydrateMemberships ms = each (\<lambda>m. AddGroupingPolicy (uidStr (om_UserID m), om_Role m, oidStr (om_OrgID m))) ms"

definition remove_filtered :: "string \<Rightarrow> string \<Rightarrow> iam_db \<Rightarrow> iam_error err \<times> iam_db" where
  "remove_filtered u d db = (case GetFilteredGroupingPolicy u [] d db of
     (Err e, db1) \<Rightarrow> (Some e, db1)
   | (Ok gs, db1) \<Rightarrow> each RemoveGroupingPolicy gs db1)"

definition SyncMembership :: "nat \<Rightarrow> nat \<Rightarrow> string \<Rightarrow> iam_db \<Rightarrow> iam_error err \<times> iam_db" where
  "SyncMembership u o' role db = (case remove_filtered (uidStr u) (oidStr o') db of
     (Some e, db1) \<Rightarrow> (Some e, db1)
   | (None, db1) \<Rightarrow> each AddGroupingPolicy [(uidStr u, role, oidStr o')] db1)"

definition RevokeMembership :: "nat \<Rightarrow> nat \<Rightarrow> iam_db \<Rightarrow> iam_error err \<times> iam_db" where
  "RevokeMembership u o' = remove_filtered (uidStr u) (oidStr o')"

definition RevokeAllForOrg :: "nat \<Rightarrow> iam_db \<Rightarrow> iam_error err \<times> iam_db" where
  "RevokeAllForOrg o' = remove_filtered [] (oidStr o')"

definition RevokeAllForUser :: "nat \<Rightarrow> iam_db \<Rightarrow> iam_error err \<times> iam_db" where
  "RevokeAllForUser u = remove_filtered (uidStr u) []"

definition Allow :: "casbin \<Rightarrow> iam_db \<Rightarrow> nat \<Rightarrow> nat \<Rightarrow> string \<Rightarrow> string \<Rightarrow> bool" where
  "Allow cb db u o' obj act = Enforce cb db (uidStr u) (oidStr o') obj act"

definition userDomains :: "nat \<Rightarrow> iam_db \<Rightarrow> (iam_error, string list) result \<times> iam_db" where
  "userDomains u db = (case GetFilteredGroupingPolicy (uidStr u) [] [] db of
     (Err e, db1) \<Rightarrow> (Err e, db1)
   | (Ok gs, db1) \<Rightarrow> (Ok (rev (remdups (rev (map (\<lambda>(gu, gr, gd). gd) gs)))), db1))"

definition AllowAnyOrg :: "casbin \<Rightarrow> nat \<Rightarrow> string \<Rightarrow> string \<Rightarrow> iam_db \<Rightarrow> bool \<times> iam_db" where
  "AllowAnyOrg cb u obj act db = (case userDomains u db of
     (Err e, db1) \<Rightarrow> (False, db1)
   | (Ok ds, db1) \<Rightarrow> (list_ex (\<lambda>d. Enforce cb db1 (uidStr u) d obj act) ds, db1))"

definition ParseUint :: "string \<Rightarrow> nat option" where
  "ParseUint s = (if s \<noteq> [] \<and> list_all is_digit s \<and> dec_value s < 2 ^ 64 then Some (dec_value s) else None)"

definition UserOrgs :: "nat \<Rightarrow> iam_db \<Rightarrow> (iam_error, nat list) result \<times> iam_db" where
  "UserOrgs u db = (case userDomains u db of
     (Err e, db1) \<Rightarrow> (Err e, db1)
   | (Ok ds, db1) \<Rightarrow> (Ok (List.map_filter ParseUint ds), db1))"

section \<open>Sensitivity tiers\<close>

definition TierPublic :: string where "TierPublic = ''public_reader''"
definition TierInternal :: string where "TierInternal = ''internal_reader''"
definition TierConfidential :: string where "TierConfidential = ''confidential_reader''"
definition TierRestricted :: string where "TierRestricted = ''restricted_reader''"
definition TierTopSecret :: string where "TierTopSecret = ''topsecret_reader''"

lemmas tier_defs = TierPublic_def TierInternal_def TierConfidential_def TierRestricted_def TierTopSecret_def

definition tierRanking :: "string \<Rightarrow> int" where
  "tierRanking t =
    (if t = TierPublic then 0 else if t = TierInternal then 1 else if t = TierConfidential then 2
     else if t = TierRestricted then 3 else if t = TierTopSecret then 4 else -1)"

definition TierForSensitivity :: "string \<Rightarrow> string" where
  "TierForSensitivity s =
    (if s = SensRestricted then TierRestricted else if s = SensConfidential then TierConfidential
     else if s = SensInternal then TierInternal else if s = SensPublic then TierPublic
     else if s = SensTopSecret then TierTopSecret else TierPublic)"

definition user_rank :: "string \<Rightarrow> int" where
  "user_rank t = (if t = [] then 0 else tierRanking t)"

definition MeetsSensitivity :: "string \<Rightarrow> string \<Rightarrow> bool" where
  "MeetsSensitivity userTier required = (user_rank userTier \<ge> user_rank required)"

definition tier_Get :: "nat \<Rightarrow> nat \<Rightarrow> iam_db \<Rightarrow> (iam_error, string) result \<times> iam_db" where
  "tier_Get u o' = istmt (\<lambda>db. (Ok (case map_of (id_tiers db) (u, o') of None \<Rightarrow> [] | Some t \<Rightarrow> t), db))"

definition tier_Set :: "nat \<Rightarrow> nat \<Rightarrow> string \<Rightarrow> iam_db \<Rightarrow> (iam_error, unit) result \<times> iam_db" where
  "tier_Set u o' t = istmt (\<lambda>db. (Ok (), db\<lparr>id_tiers := ((u, o'), t) # filter (\<lambda>e. fst e \<noteq> (u, o')) (id_tiers db)\<rparr>))"

definition tier_Delete :: "nat \<Rightarrow> nat \<Rightarrow> iam_db \<Rightarrow> (iam_error, unit) result \<times> iam_db" where
  "tier_Delete u o' = istmt (\<lambda>db. (Ok (), db\<lparr>id_tiers := filter (\<lambda>e. fst e \<noteq> (u, o')) (id_tiers db)\<rparr>))"

text \<open>\<open>wired\<close> says whether there is a repository of tiers.\<close>

definition AllowWithSensitivity :: "casbin \<Rightarrow> bool \<Rightarrow> nat \<Rightarrow> nat \<Rightarrow> string \<Rightarrow> string \<Rightarrow> string \<Rightarrow> iam_db \<Rightarrow> (iam_error, bool) result \<times> iam_db" where
  "AllowWithSensitivity cb wired u o' obj act sens db =
    (if \<not> Allow cb db u o' obj act then (Ok False, db)
     else if sens = [] \<or> sens = SensPublic \<or> sens = SensInternal then (Ok True, db)
     else (let required = TierForSensitivity sens in
       if \<not> wired then (Ok True, db)
       else (case tier_Get u o' db of
           (Err e, db1) \<Rightarrow> (Err e, db1)
         | (Ok tier, db1) \<Rightarrow> (if MeetsSensitivity tier required then Ok True else Err ErrTierUnmet, db1))))"

definition GrantSensitivityTier :: "bool \<Rightarrow> nat \<Rightarrow> nat \<Rightarrow> string \<Rightarrow> nat \<Rightarrow> iam_db \<Rightarrow> (iam_error, unit) result \<times> iam_db" where
  "GrantSensitivityTier wired u o' tier grantedBy db = (if \<not> wired then (Err NilTierRepo, db) else tier_Set u o' tier db)"

definition RevokeSensitivityTier :: "bool \<Rightarrow> nat \<Rightarrow> nat \<Rightarrow> iam_db \<Rightarrow> (iam_error, unit) result \<times> iam_db" where
  "RevokeSensitivityTier wired u o' db = (if \<not> wired then (Err NilTierRepo, db) else tier_Delete u o' db)"

section \<open>Memberships\<close>

definition is_member :: "nat \<Rightarrow> nat \<Rightarrow> OrgMembership \<Rightarrow> bool" where
  "is_member u o' m = (om_UserID m = u \<and> om_OrgID m = o')"

definition insert_member :: "nat \<Rightarrow> nat \<Rightarrow> string \<Rightarrow> iam_db \<Rightarrow> (iam_error, OrgMembership) result \<times> iam_db" where
  "insert_member u o' role = istmt (\<lambda>db.
     if \<exists>m\<in>set (id_members db). is_member u o' m then (Err unique_error, db)
     else (let m = \<lparr>om_ID = id_nextMember db, om_UserID = u, om_OrgID = o', om_Role = role\<rparr>
           in (Ok m, db\<lparr>id_members := id_members db @ [m], id_nextMember := id_nextMember db + 1\<rparr>)))"

definition member_Upsert :: "nat \<Rightarrow> nat \<Rightarrow> string \<Rightarrow> iam_db \<Rightarrow> (iam_error, OrgMembership) result \<times> iam_db" where
  "member_Upsert u o' role db0 = (case istmt (\<lambda>db. (Ok (find (is_member u o') (id_members db)), db)) db0 of
     (Err e, db) \<Rightarrow> (Err e, db)
   | (Ok (Some m), db) \<Rightarrow>
       if om_Role m = role then (Ok m, db)
       else istmt (\<lambda>d. (Ok (m\<lparr>om_Role := role\<rparr>), d\<lparr>id_members := map (\<lambda>x. if om_ID x = om_ID m then x\<lparr>om_Role := role\<rparr> else x) (id_members d)\<rparr>)) db
   | (Ok None, db) \<Rightarrow> insert_member u o' role db)"

definition member_Delete :: "nat \<Rightarrow> nat \<Rightarrow> iam_db \<Rightarrow> (iam_error, unit) result \<times> iam_db" where
  "member_Delete u o' = istmt (\<lambda>db.
     if find (is_member u o') (id_members db) = None then (Err IamNotFound, db)
     else (Ok (), db\<lparr>id_members := filter (\<lambda>m. \<not> is_member u o' m) (id_members db)\<rparr>))"

definition member_DeleteByOrg :: "nat \<Rightarrow> iam_db \<Rightarrow> (iam_error, unit) result \<times> iam_db" where
  "member_DeleteByOrg o' = istmt (\<lambda>db. (Ok (), db\<lparr>id_members := filter (\<lambda>m. om_OrgID m \<noteq> o') (id_members db)\<rparr>))"

definition member_DeleteByUser :: "nat \<Rightarrow> iam_db \<Rightarrow> (iam_error, unit) result \<times> iam_db" where
  "member_DeleteByUser u = istmt (\<lambda>db. (Ok (), db\<lparr>id_members := filter (\<lambda>m. om_UserID m \<noteq> u) (id_members db)\<rparr>))"

definition AddOrUpdate :: "nat \<Rightarrow> nat \<Rightarrow> string \<Rightarrow> iam_db \<Rightarrow> (iam_error, OrgMembership) result \<times> iam_db" where
  "AddOrUpdate u o' role db =
    (if \<not> IsValidMembershipRole role then (Err (IamInvalid ''invalid role''), db)
     else (case member_Upsert u o' role db of
         (Err e, db1) \<Rightarrow> (Err e, db1)
       | (Ok m, db1) \<Rightarrow> (case SyncMembership u o' role db1 of (Some e, db2) \<Rightarrow> (Err e, db2) | (None, db2) \<Rightarrow> (Ok m, db2))))"

definition Remove :: "nat \<Rightarrow> nat \<Rightarrow> iam_db \<Rightarrow> iam_error err \<times> iam_db" where
  "Remove u o' db = (case member_Delete u o' db of
     (Err e, db1) \<Rightarrow> (Some e, db1)
   | (Ok _, db1) \<Rightarrow> RevokeMembership u o' db1)"

section \<open>Rules without failures\<close>

lemma each_remove:
  "id_faults db = [] \<Longrightarrow> each RemoveGroupingPolicy gs db = (None, db\<lparr>id_g := filter (\<lambda>h. h \<notin> set gs) (id_g db)\<rparr>)"
proof (induction gs arbitrary: db)
  case (Cons g gs)
  then show ?case by (simp add: RemoveGroupingPolicy_def guard_simps conj_commute)
qed simp

lemma remove_filtered_nofault [guard_simps]:
  assumes "id_faults db = []"
  shows "remove_filtered u d db = (None, db\<lparr>id_g := filter (\<lambda>(gu, gr, gd). \<not> ((u = [] \<or> gu = u) \<and> (d = [] \<or> gd = d))) (id_g db)\<rparr>)"
proof -
  have "filter (\<lambda>h. h \<notin> set (filter (\<lambda>(gu, gr, gd). (u = [] \<or> gu = u) \<and> (d = [] \<or> gd = d)) gs)) gs =
      filter (\<lambda>(gu, gr, gd). \<not> ((u = [] \<or> gu = u) \<and> (d = [] \<or> gd = d))) gs" for gs :: "g_rule list"
    by (rule filter_cong) auto
  then show ?thesis using assms by (simp add: remove_filtered_def GetFilteredGroupingPolicy_def guard_simps each_remove)
qed

lemma dec_is_digit: "c \<in> set (dec n) \<Longrightarrow> is_digit c"
proof (induction n rule: dec.induct)
  case (1 n)
  have "is_digit (char_of (48 + k))" if "k < 10" for k :: nat
  proof -
    have "k = 0 \<or> k = 1 \<or> k = 2 \<or> k = 3 \<or> k = 4 \<or> k = 5 \<or> k = 6 \<or> k = 7 \<or> k = 8 \<or> k = 9" using that by presburger
    then show ?thesis by (auto simp: is_digit_def)
  qed
  with 1 show ?case by (subst (asm) (2) dec.simps) (auto split: if_splits)
qed

lemma role_not_id: "IsValidMembershipRole r \<Longrightarrow> dec n \<noteq> r" "dec n \<noteq> ''superuser''"
  using dec_is_digit[of "hd r" n] dec_is_digit[of "CHR ''s''" n] dec_ne[of n]
  by (auto simp: IsValidMembershipRole_def role_defs is_digit_def)

section \<open>The policy matrix\<close>

definition role_allows :: "string \<Rightarrow> string \<Rightarrow> string \<Rightarrow> bool" where
  "role_allows role obj act =
    (role = MembershipRoleAdmin \<or>
     role = MembershipRoleMember \<and> (act = ''read'' \<or> act = ''write'' \<or> obj = ''device:shell'' \<and> act = ''exec'') \<or>
     role = MembershipRoleViewer \<and> act = ''read'')"

definition grant_of :: "OrgMembership \<Rightarrow> g_rule" where
  "grant_of m = (uidStr (om_UserID m), om_Role m, oidStr (om_OrgID m))"

text \<open>
  The membership table is consistent, the rules of the engine are the fixed matrix and the mirror of the
  table, and no statement fails.
\<close>

definition iam_ok :: "iam_db \<Rightarrow> bool" where
  "iam_ok db =
    (distinct (map (\<lambda>m. (om_UserID m, om_OrgID m)) (id_members db)) \<and> distinct (map om_ID (id_members db)) \<and>
     (\<forall>m\<in>set (id_members db). IsValidMembershipRole (om_Role m) \<and> om_ID m < id_nextMember db) \<and>
     set (id_p db) = set rolePolicies \<and> set (id_g db) = grant_of ` set (id_members db) \<and> id_faults db = [])"

definition member_allows :: "iam_db \<Rightarrow> nat \<Rightarrow> nat \<Rightarrow> string \<Rightarrow> string \<Rightarrow> bool" where
  "member_allows db u o' obj act = (\<exists>m\<in>set (id_members db). is_member u o' m \<and> role_allows (om_Role m) obj act)"

lemma iam_ok_flat: "iam_ok db \<Longrightarrow> flat_roles (id_g db)"
  using role_not_id(1) by (fastforce simp: iam_ok_def flat_roles_def grant_of_def uidStr_def)

lemma grant_iff: "iam_ok db \<Longrightarrow> (uidStr u, r, oidStr o') \<in> set (id_g db) \<longleftrightarrow> (\<exists>m\<in>set (id_members db). is_member u o' m \<and> om_Role m = r)"
  by (auto simp: iam_ok_def grant_of_def uidStr_def oidStr_def dec_inj is_member_def)

lemma Allow_members:
  assumes "casbin_ok cb" "iam_ok db"
  shows "Allow cb db u o' obj act = member_allows db u o' obj act"
proof -
  define M where "M r = (\<exists>m\<in>set (id_members db). is_member u o' m \<and> om_Role m = r)" for r
  have link: "cb_hasLink cb (id_g db) (uidStr u) r (oidStr o') = M r" if "IsValidMembershipRole r \<or> r = ''superuser''" for r
    using assms(1) iam_ok_flat[OF assms(2)] role_not_id(1)[of r u] role_not_id(2)[of u] that grant_iff[OF assms(2)]
    by (auto simp: casbin_ok_def uidStr_def M_def)
  have roles: "IsValidMembershipRole MembershipRoleAdmin" "IsValidMembershipRole MembershipRoleMember" "IsValidMembershipRole MembershipRoleViewer"
    by (simp_all add: IsValidMembershipRole_def)
  have key: "cb_keyMatch cb obj ''device:shell'' = (obj = ''device:shell'')" using assms(1) by (simp add: casbin_ok_def)
  have p: "set (id_p db) = set rolePolicies" using assms(2) by (simp add: iam_ok_def)
  have su: "\<not> M ''superuser''"
    using assms(2) by (auto simp: M_def iam_ok_def IsValidMembershipRole_def role_defs)
  have "member_allows db u o' obj act =
      (M MembershipRoleAdmin \<or> M MembershipRoleMember \<and> (act = ''read'' \<or> act = ''write'' \<or> obj = ''device:shell'' \<and> act = ''exec'') \<or>
       M MembershipRoleViewer \<and> act = ''read'')"
    unfolding member_allows_def role_allows_def M_def by blast
  moreover have "Allow cb db u o' obj act = (\<exists>p\<in>set rolePolicies. matcher cb (id_g db) (uidStr u) (oidStr o') obj act p)"
    by (simp add: Allow_def Enforce_def list_ex_iff p)
  ultimately show ?thesis
    using su by (auto simp: rolePolicies_def matcher_def link roles key)
qed

section \<open>Keeping the mirror\<close>

lemma sync_rules [guard_simps]:
  assumes "id_faults db = []"
  shows "SyncMembership u o' role db =
    (None, db\<lparr>id_g := filter (\<lambda>(gu, gr, gd). \<not> (gu = uidStr u \<and> gd = oidStr o')) (id_g db) @ [(uidStr u, role, oidStr o')]\<rparr>)"
  using assms by (auto simp: SyncMembership_def guard_simps AddGroupingPolicy_def uidStr_def oidStr_def)

lemma grants_without:
  assumes "iam_ok db"
  shows "set (filter (\<lambda>(gu, gr, gd). \<not> (gu = uidStr u \<and> gd = oidStr o')) (id_g db)) = grant_of ` {m \<in> set (id_members db). \<not> is_member u o' m}"
  using assms by (auto simp: iam_ok_def grant_of_def is_member_def uidStr_def oidStr_def dec_inj)

lemma Remove_ok:
  assumes "iam_ok db"
  shows "iam_ok (snd (Remove u o' db))"
proof (cases "find (is_member u o') (id_members db)")
  case None
  then show ?thesis using assms by (simp add: Remove_def member_Delete_def guard_simps iam_ok_def)
next
  case (Some m)
  let ?d = "db\<lparr>id_members := filter (\<lambda>m. \<not> is_member u o' m) (id_members db),
    id_g := filter (\<lambda>(gu, gr, gd). \<not> (gu = uidStr u \<and> gd = oidStr o')) (id_g db)\<rparr>"
  have "Remove u o' db = (None, ?d)"
    using assms Some by (simp add: Remove_def member_Delete_def guard_simps iam_ok_def RevokeMembership_def) (simp add: uidStr_def oidStr_def)
  then show ?thesis using assms grants_without[OF assms, of u o'] by (simp add: iam_ok_def distinct_map_filter)
qed

lemma upsert_members:
  assumes "iam_ok db" "member_Upsert u o' role db = (Ok m, db1)" "IsValidMembershipRole role"
  shows "id_g db1 = id_g db \<and> id_p db1 = id_p db \<and> id_faults db1 = [] \<and>
    distinct (map (\<lambda>m. (om_UserID m, om_OrgID m)) (id_members db1)) \<and> distinct (map om_ID (id_members db1)) \<and>
    (\<forall>x\<in>set (id_members db1). IsValidMembershipRole (om_Role x) \<and> om_ID x < id_nextMember db1) \<and>
    grant_of ` set (id_members db1) = insert (uidStr u, role, oidStr o') (grant_of ` {x \<in> set (id_members db). \<not> is_member u o' x})"
proof (cases "find (is_member u o') (id_members db)")
  case None
  then have no: "\<forall>x\<in>set (id_members db). \<not> is_member u o' x" by (simp add: find_None_iff_all)
  let ?m = "\<lparr>om_ID = id_nextMember db, om_UserID = u, om_OrgID = o', om_Role = role\<rparr>"
  have "db1 = db\<lparr>id_members := id_members db @ [?m], id_nextMember := id_nextMember db + 1\<rparr>"
    using assms(1,2) None no by (auto simp: member_Upsert_def insert_member_def istmt_nofault iam_ok_def Let_def)
  then show ?thesis using assms(1,3) no
    by (auto simp: iam_ok_def grant_of_def is_member_def less_Suc_eq image_iff)
next
  case (Some x)
  then have x: "x \<in> set (id_members db)" "is_member u o' x" by (auto dest: find_Some_mem)
  let ?f = "\<lambda>y. if om_ID y = om_ID x then y\<lparr>om_Role := role\<rparr> else y"
  have m: "db1 = db\<lparr>id_members := map ?f (id_members db)\<rparr>"
  proof (cases "om_Role x = role")
    case True
    have "?f y = y" if "y \<in> set (id_members db)" for y
    proof (cases "om_ID y = om_ID x")
      case True
      then have "y = x" using that x(1) assms(1) by (auto simp: iam_ok_def distinct_map inj_on_def)
      then show ?thesis using \<open>om_Role x = role\<close> by simp
    qed simp
    then have "map ?f (id_members db) = id_members db" by (rule map_idI)
    with True Some assms(1,2) show ?thesis by (simp add: member_Upsert_def istmt_nofault iam_ok_def)
  next
    case False
    with Some assms(1,2) show ?thesis by (auto simp: member_Upsert_def istmt_nofault iam_ok_def)
  qed
  have same: "om_ID y = om_ID x \<longleftrightarrow> is_member u o' y" if "y \<in> set (id_members db)" for y
    using that x assms(1) by (auto simp: iam_ok_def distinct_map inj_on_def is_member_def)
  have keys: "map (\<lambda>m. (om_UserID m, om_OrgID m)) (map ?f (id_members db)) = map (\<lambda>m. (om_UserID m, om_OrgID m)) (id_members db)"
    "map om_ID (map ?f (id_members db)) = map om_ID (id_members db)" by simp_all
  have g: "grant_of ` set (map ?f (id_members db)) = insert (uidStr u, role, oidStr o') (grant_of ` {y \<in> set (id_members db). \<not> is_member u o' y})"
  proof -
    have "grant_of (?f y) = (if is_member u o' y then (uidStr u, role, oidStr o') else grant_of y)" if "y \<in> set (id_members db)" for y
      using same[OF that] by (auto simp: grant_of_def is_member_def)
    then have "grant_of ` set (map ?f (id_members db)) = (\<lambda>y. if is_member u o' y then (uidStr u, role, oidStr o') else grant_of y) ` set (id_members db)"
      unfolding set_map image_image by (rule image_cong[OF refl])
    also have "\<dots> = insert (uidStr u, role, oidStr o') (grant_of ` {y \<in> set (id_members db). \<not> is_member u o' y})" using x by auto
    finally show ?thesis .
  qed
  have c: "distinct (map (\<lambda>m. (om_UserID m, om_OrgID m)) (map ?f (id_members db)))" "distinct (map om_ID (map ?f (id_members db)))"
    unfolding keys using assms(1) by (simp_all add: iam_ok_def)
  have v: "\<forall>y\<in>set (map ?f (id_members db)). IsValidMembershipRole (om_Role y) \<and> om_ID y < id_nextMember db"
    using assms(1,3) by (auto simp: iam_ok_def)
  show ?thesis
    unfolding m using c v g assms(1) by (simp add: iam_ok_def del: map_map set_map)
qed

lemma AddOrUpdate_ok:
  assumes "iam_ok db"
  shows "iam_ok (snd (AddOrUpdate u o' role db))"
proof (cases "IsValidMembershipRole role")
  case True
  obtain r db1 where w: "member_Upsert u o' role db = (r, db1)" by force
  show ?thesis
  proof (cases r)
    case (Inl e)
    have "db1 = db"
      using w Inl assms by (auto simp: member_Upsert_def insert_member_def istmt_nofault iam_ok_def Let_def split: option.splits if_splits)
    then show ?thesis using w Inl True assms by (simp add: AddOrUpdate_def)
  next
    case (Inr m)
    note U = upsert_members[OF assms w[unfolded Inr] True]
    have "AddOrUpdate u o' role db =
        (Ok m, db1\<lparr>id_g := filter (\<lambda>(gu, gr, gd). \<not> (gu = uidStr u \<and> gd = oidStr o')) (id_g db1) @ [(uidStr u, role, oidStr o')]\<rparr>)"
      using w Inr True U by (simp add: AddOrUpdate_def guard_simps)
    then show ?thesis
      using U grants_without[OF assms, of u o'] assms by (simp add: iam_ok_def)
  qed
qed (use assms in \<open>simp add: AddOrUpdate_def\<close>)

datatype member_op = OpAdd nat nat string | OpRemove nat nat

fun member_run :: "member_op \<Rightarrow> iam_db \<Rightarrow> iam_db" where
  "member_run (OpAdd u o' role) db = snd (AddOrUpdate u o' role db)"
| "member_run (OpRemove u o') db = snd (Remove u o' db)"

lemma member_run_ok: "iam_ok db \<Longrightarrow> iam_ok (fold member_run ops db)"
proof (induction ops arbitrary: db)
  case (Cons x xs)
  then have "iam_ok (member_run x db)" by (cases x) (simp_all add: AddOrUpdate_ok Remove_ok)
  with Cons show ?case by simp
qed simp

text \<open>
  C7. The policy engine implements the membership table: after any sequence of requests to add, change and
  remove members, served without failing statements, the enforcer allows an action in an organization
  exactly when the user's membership there has a role that permits it. Organization admins may do
  anything, members read and write everything and open device shells, viewers read.
\<close>

theorem authz_refines_memberships:
  assumes "casbin_ok cb" "iam_ok db"
  shows "Allow cb (fold member_run ops db) u o' obj act = member_allows (fold member_run ops db) u o' obj act"
  by (rule Allow_members[OF assms(1) member_run_ok[OF assms(2)]])

text \<open>
  A removal whose membership row is deleted but whose grant cannot be removed from the policy engine
  leaves the user's access in place; asking again fails because the row is gone, and does not touch
  the grant.
\<close>

theorem remove_drift:
  assumes "casbin_ok cb" "iam_ok db" "m \<in> set (id_members db)"
    and "db' = snd (Remove (om_UserID m) (om_OrgID m) (db\<lparr>id_faults := [None, None, Some e]\<rparr>))"
    and "role_allows (om_Role m) obj act"
  shows "\<not> member_allows db' (om_UserID m) (om_OrgID m) obj act \<and> Allow cb db' (om_UserID m) (om_OrgID m) obj act \<and>
    Remove (om_UserID m) (om_OrgID m) db' = (Some IamNotFound, db')"
proof -
  let ?u = "om_UserID m" and ?o = "om_OrgID m"
  have mem: "is_member ?u ?o m" by (simp add: is_member_def)
  obtain y where found: "find (is_member ?u ?o) (id_members db) = Some y"
    using assms(3) mem find_None_iff_all[of "is_member ?u ?o" "id_members db"] by (cases "find (is_member ?u ?o) (id_members db)") auto
  have g: "grant_of m \<in> set (id_g db)" using assms(2,3) by (auto simp: iam_ok_def)
  let ?d = "db\<lparr>id_members := filter (\<lambda>m. \<not> is_member ?u ?o m) (id_members db), id_faults := []\<rparr>"
  let ?gs = "filter (\<lambda>(gu, gr, gd). gu = uidStr ?u \<and> gd = oidStr ?o) (id_g db)"
  obtain h hs where gs: "?gs = h # hs" using g by (cases ?gs) (auto simp: filter_empty_conv grant_of_def)
  have d: "db' = ?d"
    using found gs unfolding assms(4)
    by (simp add: Remove_def member_Delete_def istmt_def RevokeMembership_def remove_filtered_def GetFilteredGroupingPolicy_def
        RemoveGroupingPolicy_def uidStr_def oidStr_def)
  have "Allow cb db' ?u ?o obj act = Allow cb db ?u ?o obj act" by (simp add: d Allow_def Enforce_def)
  also have "\<dots>" using Allow_members[OF assms(1,2), of ?u ?o obj act] assms(3,5) mem by (auto simp: member_allows_def)
  finally have "Allow cb db' ?u ?o obj act" by simp
  moreover have "\<not> member_allows db' ?u ?o obj act" by (simp add: d member_allows_def)
  moreover have "Remove ?u ?o db' = (Some IamNotFound, db')"
    by (simp add: d Remove_def member_Delete_def istmt_def find_None_iff_all)
  ultimately show ?thesis by simp
qed

section \<open>The sensitivity gate\<close>

lemma rank_tier: "map_of sens_rank s \<noteq> None \<Longrightarrow> user_rank (TierForSensitivity s) = rank_of s"
  by (auto simp: sens_rank_def TierForSensitivity_def user_rank_def tierRanking_def rank_of_def sens_defs tier_defs split: if_splits)

text \<open>
  With a table of tiers that can be read, a resource of a known sensitivity is open to exactly the users
  that the policies allow and, above the internal level, whose tier in the organization is at least
  as high as the sensitivity; everyone else is refused with the tier error. A user without an entry reads
  at the public level.
\<close>

theorem sensitivity_gate:
  assumes "id_faults db = []" "map_of sens_rank sens \<noteq> None"
  shows "AllowWithSensitivity cb True u o' obj act sens db =
    (if \<not> Allow cb db u o' obj act then Ok False
     else if rank_of sens \<le> 1 \<or> rank_of sens \<le> user_rank (case map_of (id_tiers db) (u, o') of None \<Rightarrow> [] | Some t \<Rightarrow> t) then Ok True
     else Err ErrTierUnmet, db)"
proof -
  have low: "(sens = [] \<or> sens = SensPublic \<or> sens = SensInternal) = (rank_of sens \<le> 1)"
    using assms(2) by (auto simp: sens_rank_def rank_of_def sens_defs split: if_splits)
  show ?thesis
    using assms(1) rank_tier[OF assms(2)]
    by (simp add: AllowWithSensitivity_def low MeetsSensitivity_def tier_Get_def istmt_def Let_def)
qed

text \<open>
  A sensitivity that is not one of the five levels is treated as public: every user the policies
  allow passes, whatever the tier, while redaction treats it as the highest level.
\<close>

theorem unknown_sensitivity_open:
  assumes "id_faults db = []" "map_of sens_rank sens = None" "Allow cb db u o' obj act"
    and "map_of (id_tiers db) (u, o') = None"
  shows "AllowWithSensitivity cb True u o' obj act sens db = (Ok True, db) \<and> ModeForSensitivity sens = RedactModeAll"
proof -
  have "sens \<noteq> SensPublic \<and> sens \<noteq> SensInternal \<and> TierForSensitivity sens = TierPublic"
    using assms(2) by (auto simp: sens_rank_def TierForSensitivity_def sens_defs split: if_splits)
  then show ?thesis using assms
    by (simp add: AllowWithSensitivity_def ModeForSensitivity_def MeetsSensitivity_def tier_Get_def istmt_def user_rank_def tierRanking_def tier_defs Let_def)
qed

section \<open>A small deployment\<close>

definition demo_casbin :: casbin where
  "demo_casbin = \<lparr>cb_hasLink = \<lambda>gs u r d. u = r \<or> (u, r, d) \<in> set gs, cb_keyMatch = \<lambda>k pat. k = pat\<rparr>"

definition demo_member :: OrgMembership where
  "demo_member = \<lparr>om_ID = 1, om_UserID = 42, om_OrgID = 7, om_Role = MembershipRoleMember\<rparr>"

definition demo_iam :: iam_db where
  "demo_iam = \<lparr>id_users = [], id_nextUser = 43, id_orgs = [], id_nextOrg = 8, id_members = [demo_member], id_nextMember = 2,
     id_p = rolePolicies, id_g = [grant_of demo_member], id_tiers = [((42, 7), TierConfidential)], id_faults = []\<rparr>"

lemma demo_casbin_ok: "casbin_ok demo_casbin"
  by (simp add: casbin_ok_def demo_casbin_def)

lemma demo_iam_ok: "iam_ok demo_iam" "id_faults demo_iam = []"
  by (simp_all add: iam_ok_def demo_iam_def demo_member_def IsValidMembershipRole_def)

lemma demo_allowed: "Allow demo_casbin demo_iam 42 7 ''edge:1'' ''write''"
  by (simp add: Allow_members[OF demo_casbin_ok demo_iam_ok(1)] member_allows_def)
    (simp add: demo_iam_def demo_member_def is_member_def role_allows_def)

theorem authz_refines_memberships_witness:
  "Allow demo_casbin (fold member_run [OpRemove 42 7] demo_iam) 42 7 ''edge:1'' ''read'' = False"
  using authz_refines_memberships[OF demo_casbin_ok demo_iam_ok(1), of "[OpRemove 42 7]" 42 7 "''edge:1''" "''read''"]
  by (simp add: Remove_def member_Delete_def guard_simps demo_iam_ok RevokeMembership_def)
    (simp add: member_allows_def demo_iam_def demo_member_def is_member_def uidStr_def guard_simps)

theorem remove_drift_witness:
  "let db' = snd (Remove 42 7 (demo_iam\<lparr>id_faults := [None, None, Some ''io'']\<rparr>)) in
    Allow demo_casbin db' 42 7 ''edge:1'' ''write'' \<and> Remove 42 7 db' = (Some IamNotFound, db')"
proof -
  have "demo_member \<in> set (id_members demo_iam)" "role_allows (om_Role demo_member) ''edge:1'' ''write''"
    by (simp_all add: demo_iam_def demo_member_def role_allows_def)
  from remove_drift[OF demo_casbin_ok demo_iam_ok(1) this(1) refl this(2), of "''io''"] show ?thesis
    by (simp add: Let_def) (simp add: demo_member_def)
qed

theorem sensitivity_gate_witness:
  "fst (AllowWithSensitivity demo_casbin True 42 7 ''edge:1'' ''write'' SensConfidential demo_iam) = Ok True \<and>
   fst (AllowWithSensitivity demo_casbin True 42 7 ''edge:1'' ''write'' SensRestricted demo_iam) = Err ErrTierUnmet"
proof -
  have k: "map_of sens_rank SensConfidential = Some 2" "map_of sens_rank SensRestricted = Some 3" by (simp_all add: sens_rank_def sens_defs)
  have t: "map_of (id_tiers demo_iam) (42, 7) = Some TierConfidential" by (simp add: demo_iam_def)
  show ?thesis
    using sensitivity_gate[OF demo_iam_ok(2), of SensConfidential demo_casbin 42 7 "''edge:1''" "''write''"]
      sensitivity_gate[OF demo_iam_ok(2), of SensRestricted demo_casbin 42 7 "''edge:1''" "''write''"]
    by (simp add: k t demo_allowed rank_of_def user_rank_def tierRanking_def tier_defs)
qed

theorem unknown_sensitivity_open_witness:
  "fst (AllowWithSensitivity demo_casbin True 42 7 ''edge:1'' ''write'' ''restricted'' (demo_iam\<lparr>id_tiers := []\<rparr>)) = Ok True"
proof -
  have "Allow demo_casbin (demo_iam\<lparr>id_tiers := []\<rparr>) 42 7 ''edge:1'' ''write''"
    using demo_allowed by (simp add: Allow_def Enforce_def)
  moreover have "map_of sens_rank ''restricted'' = None" by (simp add: sens_rank_def sens_defs)
  ultimately show ?thesis
    using unknown_sensitivity_open[of "demo_iam\<lparr>id_tiers := []\<rparr>" "''restricted''" demo_casbin 42 7 "''edge:1''" "''write''"]
    by (simp add: demo_iam_ok)
qed

end
