(* ===== verification/Iam_Org.thy ===== *)
theory Iam_Org
  imports Iam_Authz
begin

text \<open>
  Organizations: their store (\<^verbatim>\<open>internal/iam/data/org/store\<close>) and service
  (\<^verbatim>\<open>internal/iam/biz/org\<close>). Organizations form a tree by their parent; the service refuses to move
  one below itself by walking up from the new parent, at most 1024 steps.
\<close>

section \<open>Store\<close>

definition org_Create :: "Org \<Rightarrow> iam_db \<Rightarrow> (iam_error, Org) result \<times> iam_db" where
  "org_Create x = istmt (\<lambda>db.
     if or_Name x \<in> or_Name ` set (id_orgs db) then (Err unique_error, db)
     else (let y = x\<lparr>or_ID := id_nextOrg db\<rparr> in (Ok y, db\<lparr>id_orgs := id_orgs db @ [y], id_nextOrg := id_nextOrg db + 1\<rparr>)))"

definition org_GetByID :: "nat \<Rightarrow> iam_db \<Rightarrow> (iam_error, Org) result \<times> iam_db" where
  "org_GetByID i = istmt (\<lambda>db. (case find (\<lambda>x. or_ID x = i) (id_orgs db) of None \<Rightarrow> Err IamNotFound | Some x \<Rightarrow> Ok x, db))"

definition org_GetByName :: "string \<Rightarrow> iam_db \<Rightarrow> (iam_error, Org) result \<times> iam_db" where
  "org_GetByName n = istmt (\<lambda>db. (case find (\<lambda>x. or_Name x = n) (id_orgs db) of None \<Rightarrow> Err IamNotFound | Some x \<Rightarrow> Ok x, db))"

definition org_List :: "iam_db \<Rightarrow> (iam_error, Org list) result \<times> iam_db" where
  "org_List = istmt (\<lambda>db. (Ok (id_orgs db), db))"

definition org_Update :: "nat \<Rightarrow> string \<Rightarrow> string \<Rightarrow> nat option \<Rightarrow> iam_db \<Rightarrow> (iam_error, unit) result \<times> iam_db" where
  "org_Update i name descr parent = istmt (\<lambda>db.
     if i \<notin> or_ID ` set (id_orgs db) then (Err IamNotFound, db)
     else if \<exists>x\<in>set (id_orgs db). or_ID x \<noteq> i \<and> or_Name x = name then (Err unique_error, db)
     else (Ok (), db\<lparr>id_orgs := map (\<lambda>x. if or_ID x = i then x\<lparr>or_Name := name, or_Description := descr, or_ParentID := parent\<rparr> else x) (id_orgs db)\<rparr>))"

definition org_CountChildren :: "nat \<Rightarrow> iam_db \<Rightarrow> (iam_error, nat) result \<times> iam_db" where
  "org_CountChildren i = istmt (\<lambda>db. (Ok (length (filter (\<lambda>x. or_ParentID x = Some i) (id_orgs db))), db))"

definition org_Delete :: "nat \<Rightarrow> iam_db \<Rightarrow> (iam_error, unit) result \<times> iam_db" where
  "org_Delete i = istmt (\<lambda>db.
     if i \<notin> or_ID ` set (id_orgs db) then (Err IamNotFound, db)
     else (Ok (), db\<lparr>id_orgs := filter (\<lambda>x. or_ID x \<noteq> i) (id_orgs db)\<rparr>))"

section \<open>Service\<close>

text \<open>The name of the platform's root organization, in UTF-8.\<close>

definition defaultSeedName :: string where
  "defaultSeedName = [CHR 0xE9, CHR 0xBB, CHR 0x98, CHR 0xE8, CHR 0xAE, CHR 0xA4, CHR 0xE7, CHR 0xBB, CHR 0x84, CHR 0xE7, CHR 0xBB, CHR 0x87]"

record OrgCreateInput =
  oc_Name :: string
  oc_Description :: string
  oc_ParentID :: "nat option"

definition create_parent :: "nat option \<Rightarrow> iam_db \<Rightarrow> (iam_error, nat option) result \<times> iam_db" where
  "create_parent p db = (case p of
     Some i \<Rightarrow> (case org_GetByID i db of (Err _, db1) \<Rightarrow> (Err (IamInvalid ''parent org not found''), db1) | (Ok _, db1) \<Rightarrow> (Ok (Some i), db1))
   | None \<Rightarrow> (case org_GetByName defaultSeedName db of (Err _, db1) \<Rightarrow> (Ok None, db1) | (Ok seed, db1) \<Rightarrow> (Ok (Some (or_ID seed)), db1)))"

definition svc_Create :: "OrgCreateInput \<Rightarrow> iam_db \<Rightarrow> (iam_error, Org) result \<times> iam_db" where
  "svc_Create inp db =
    (let name = TrimSpace (oc_Name inp) in
     if name = [] then (Err (IamInvalid ''name required''), db)
     else if length name > 128 then (Err (IamInvalid ''name too long (max 128)''), db)
     else (case create_parent (oc_ParentID inp) db of
         (Err e, db1) \<Rightarrow> (Err e, db1)
       | (Ok parent, db1) \<Rightarrow>
           org_Create \<lparr>or_ID = 0, or_Name = name, or_Description = TrimSpace (oc_Description inp), or_ParentID = parent\<rparr> db1))"

definition EnsureSeed :: "string \<Rightarrow> string \<Rightarrow> iam_db \<Rightarrow> (iam_error, Org) result \<times> iam_db" where
  "EnsureSeed name descr db = (case org_GetByName name db of
     (Ok x, db1) \<Rightarrow> (Ok x, db1)
   | (Err _, db1) \<Rightarrow> (case org_Create \<lparr>or_ID = 0, or_Name = name, or_Description = descr, or_ParentID = None\<rparr> db1 of
         (Ok x, db2) \<Rightarrow> (Ok x, db2)
       | (Err e, db2) \<Rightarrow> (case org_GetByName name db2 of (Ok again, db3) \<Rightarrow> (Ok again, db3) | (Err _, db3) \<Rightarrow> (Err e, db3))))"

record OrgUpdateInput =
  ou_Name :: string
  ou_Description :: string
  ou_SetParent :: bool
  ou_ParentID :: "nat option"

text \<open>Up from \<open>cur\<close>: is \<open>i\<close> met within the given number of steps? A failing read ends the walk.\<close>

fun cycle_walk :: "nat \<Rightarrow> nat \<Rightarrow> nat \<Rightarrow> iam_db \<Rightarrow> bool \<times> iam_db" where
  "cycle_walk 0 i cur db = (False, db)"
| "cycle_walk (Suc n) i cur db = (case org_GetByID cur db of
     (Err _, db1) \<Rightarrow> (False, db1)
   | (Ok ancestor, db1) \<Rightarrow>
       if or_ID ancestor = i then (True, db1)
       else (case or_ParentID ancestor of None \<Rightarrow> (False, db1) | Some p \<Rightarrow> cycle_walk n i p db1))"

definition check_parent :: "nat \<Rightarrow> nat \<Rightarrow> iam_db \<Rightarrow> iam_error err \<times> iam_db" where
  "check_parent i p db =
    (if p = i then (Some (IamInvalid ''org cannot be its own parent''), db)
     else (case org_GetByID p db of
         (Err _, db1) \<Rightarrow> (Some (IamInvalid ''parent org not found''), db1)
       | (Ok _, db1) \<Rightarrow> (case cycle_walk 1024 i p db1 of
             (True, db2) \<Rightarrow> (Some (IamInvalid ''cycle detected; cannot reparent under a descendant''), db2)
           | (False, db2) \<Rightarrow> (None, db2))))"

definition save_org :: "nat \<Rightarrow> string \<Rightarrow> string \<Rightarrow> nat option \<Rightarrow> iam_db \<Rightarrow> (iam_error, Org) result \<times> iam_db" where
  "save_org i name descr parent db = (case org_Update i name descr parent db of
     (Err e, db1) \<Rightarrow> (Err e, db1)
   | (Ok _, db1) \<Rightarrow> org_GetByID i db1)"

definition svc_Update :: "nat \<Rightarrow> OrgUpdateInput \<Rightarrow> iam_db \<Rightarrow> (iam_error, Org) result \<times> iam_db" where
  "svc_Update i inp db =
    (let name = TrimSpace (ou_Name inp); descr = TrimSpace (ou_Description inp) in
     if name = [] then (Err (IamInvalid ''name required''), db)
     else (case org_GetByID i db of
         (Err e, db1) \<Rightarrow> (Err e, db1)
       | (Ok current, db1) \<Rightarrow>
           if \<not> ou_SetParent inp then save_org i name descr (or_ParentID current) db1
           else (case ou_ParentID inp of
               None \<Rightarrow> save_org i name descr None db1
             | Some p \<Rightarrow> (case check_parent i p db1 of
                   (Some e, db2) \<Rightarrow> (Err e, db2)
                 | (None, db2) \<Rightarrow> save_org i name descr (Some p) db2))))"

definition svc_Delete :: "nat \<Rightarrow> iam_db \<Rightarrow> (iam_error, unit) result \<times> iam_db" where
  "svc_Delete i db = (case org_CountChildren i db of
     (Err e, db1) \<Rightarrow> (Err e, db1)
   | (Ok n, db1) \<Rightarrow>
       if n > 0 then (Err (IamInvalid ''org has sub-org(s); move them first''), db1)
       else (case member_DeleteByOrg i db1 of
           (Err e, db2) \<Rightarrow> (Err e, db2)
         | (Ok _, db2) \<Rightarrow> (case RevokeAllForOrg i db2 of
               (Some e, db3) \<Rightarrow> (Err e, db3)
             | (None, db3) \<Rightarrow> org_Delete i db3)))"

section \<open>The tree\<close>

definition parent_rel :: "Org list \<Rightarrow> (nat \<times> nat) set" where
  "parent_rel os = {(or_ID x, p) | x p. x \<in> set os \<and> or_ParentID x = Some p}"

definition forest :: "iam_db \<Rightarrow> bool" where
  "forest db =
    (distinct (map or_ID (id_orgs db)) \<and> (\<forall>x\<in>set (id_orgs db). or_ID x < id_nextOrg db) \<and>
     (\<forall>x\<in>set (id_orgs db). \<forall>p. or_ParentID x = Some p \<longrightarrow> p \<in> or_ID ` set (id_orgs db)) \<and> acyclic (parent_rel (id_orgs db)))"

lemma parent_rel_finite: "finite (parent_rel os)" "card (parent_rel os) \<le> length os"
proof -
  have e: "parent_rel os \<subseteq> (\<lambda>x. (or_ID x, the (or_ParentID x))) ` set os" by (force simp: parent_rel_def)
  then show "finite (parent_rel os)" by (rule finite_subset) simp
  have "card (parent_rel os) \<le> card ((\<lambda>x. (or_ID x, the (or_ParentID x))) ` set os)" by (rule card_mono[OF _ e]) simp
  also have "\<dots> \<le> card (set os)" by (rule card_image_le) simp
  also have "\<dots> \<le> length os" by (rule card_length)
  finally show "card (parent_rel os) \<le> length os" .
qed

lemma get_org: "id_faults db = [] \<Longrightarrow> distinct (map or_ID (id_orgs db)) \<Longrightarrow> x \<in> set (id_orgs db) \<Longrightarrow> org_GetByID (or_ID x) db = (Ok x, db)"
  by (simp add: org_GetByID_def guard_simps find_distinct_key)

lemma get_org_db: "id_faults db = [] \<Longrightarrow> snd (org_GetByID i db) = db" "id_faults db = [] \<Longrightarrow> snd (org_GetByName n db) = db"
  by (simp_all add: org_GetByID_def org_GetByName_def guard_simps)

lemma get_org_Ok: "id_faults db = [] \<Longrightarrow> org_GetByID i db = (Ok x, db') \<Longrightarrow> x \<in> set (id_orgs db) \<and> or_ID x = i"
  by (auto simp: org_GetByID_def guard_simps split: option.splits dest!: find_Some_mem)

lemma walk_db: "id_faults db = [] \<Longrightarrow> snd (cycle_walk n i cur db) = db"
proof (induction n i cur db rule: cycle_walk.induct)
  case (2 n i cur db)
  then show ?case using get_org_db(1)[of db cur] by (cases "org_GetByID cur db") (auto split: sum.splits option.splits)
qed simp

text \<open>The walk meets every ancestor that is fewer steps away than it may take.\<close>

lemma walk_meets:
  assumes "id_faults db = []" "distinct (map or_ID (id_orgs db))" "i \<in> or_ID ` set (id_orgs db)"
  shows "(cur, i) \<in> parent_rel (id_orgs db) ^^ k \<Longrightarrow> k < n \<Longrightarrow> fst (cycle_walk n i cur db)"
proof (induction k arbitrary: cur n)
  case 0
  then obtain x m where "x \<in> set (id_orgs db)" "or_ID x = i" "cur = i" "n = Suc m" using assms(3) by (cases n) auto
  then show ?case using get_org[OF assms(1,2)] by auto
next
  case (Suc k)
  then obtain z where z: "(cur, z) \<in> parent_rel (id_orgs db)" "(z, i) \<in> parent_rel (id_orgs db) ^^ k" by (meson relpow_Suc_D2)
  obtain m where n: "n = Suc m" "k < m" using Suc.prems(2) by (cases n) auto
  from z(1) obtain x where x: "x \<in> set (id_orgs db)" "or_ID x = cur" "or_ParentID x = Some z" by (auto simp: parent_rel_def)
  have "org_GetByID cur db = (Ok x, db)" using get_org[OF assms(1,2) x(1)] x(2) by simp
  then show ?case using Suc.IH[OF z(2) n(2)] n(1) x by simp
qed

lemma walk_complete:
  assumes "id_faults db = []" "forest db" "length (id_orgs db) < 1024" "i \<in> or_ID ` set (id_orgs db)" "\<not> fst (cycle_walk 1024 i p db)"
  shows "(p, i) \<notin> (parent_rel (id_orgs db))\<^sup>*"
proof
  let ?R = "parent_rel (id_orgs db)"
  assume "(p, i) \<in> ?R\<^sup>*"
  then obtain k where "(p, i) \<in> ?R ^^ k" by (auto dest: rtrancl_imp_relpow)
  then obtain m where "(p, i) \<in> ?R ^^ m" "m \<le> card ?R"
    using relpow_finite_bounded[OF parent_rel_finite(1), of k "id_orgs db"] by auto
  have ds: "distinct (map or_ID (id_orgs db))" using assms(2) by (simp add: forest_def)
  have "m < 1024" using \<open>m \<le> card ?R\<close> parent_rel_finite(2)[of "id_orgs db"] assms(3) by linarith
  then have "fst (cycle_walk 1024 i p db)" by (rule walk_meets[OF assms(1) ds assms(4) \<open>(p, i) \<in> ?R ^^ m\<close>])
  with assms(5) show False by (rule notE)
qed

section \<open>Requests keep the tree\<close>

lemma parent_rel_map: "(a, b) \<in> parent_rel (map f os) \<longleftrightarrow> (\<exists>x\<in>set os. a = or_ID (f x) \<and> or_ParentID (f x) = Some b)"
  by (auto simp: parent_rel_def)

lemma parent_rel_update:
  "i \<in> or_ID ` set os \<Longrightarrow>
   parent_rel (map (\<lambda>x. if or_ID x = i then x\<lparr>or_Name := n, or_Description := d, or_ParentID := q\<rparr> else x) os) =
    {(a, b) \<in> parent_rel os. a \<noteq> i} \<union> {(i, p) | p. q = Some p}"
proof -
  assume i: "i \<in> or_ID ` set os"
  let ?f = "\<lambda>x. if or_ID x = i then x\<lparr>or_Name := n, or_Description := d, or_ParentID := q\<rparr> else x"
  have "(a, b) \<in> parent_rel (map ?f os) \<longleftrightarrow> (\<exists>x\<in>set os. a = or_ID x \<and> (if or_ID x = i then q else or_ParentID x) = Some b)" for a b
    unfolding parent_rel_map by (rule bex_cong) auto
  moreover have "(\<exists>x\<in>set os. a = or_ID x \<and> (if or_ID x = i then q else or_ParentID x) = Some b) \<longleftrightarrow>
      (a, b) \<in> {(a, b) \<in> parent_rel os. a \<noteq> i} \<union> {(i, p) | p. q = Some p}" for a b
    using i unfolding parent_rel_def by (auto split: if_splits)
  ultimately show ?thesis by (simp add: set_eq_iff)
qed

lemma org_Update_forest:
  assumes "forest db" "id_faults db = []"
    and "\<And>p. q = Some p \<Longrightarrow> p \<in> or_ID ` set (id_orgs db) \<and> (p, i) \<notin> (parent_rel (id_orgs db))\<^sup>* \<or> (i, p) \<in> parent_rel (id_orgs db)"
  shows "forest (snd (org_Update i n d q db))"
proof (cases "i \<in> or_ID ` set (id_orgs db) \<and> \<not> (\<exists>x\<in>set (id_orgs db). or_ID x \<noteq> i \<and> or_Name x = n)")
  case True
  let ?f = "\<lambda>x. if or_ID x = i then x\<lparr>or_Name := n, or_Description := d, or_ParentID := q\<rparr> else x"
  let ?R = "parent_rel (id_orgs db)" and ?R' = "{(a, b) \<in> parent_rel (id_orgs db). a \<noteq> i}"
  have e: "snd (org_Update i n d q db) = db\<lparr>id_orgs := map ?f (id_orgs db)\<rparr>" using True assms(2) by (auto simp: org_Update_def guard_simps)
  have ids: "map or_ID (map ?f (id_orgs db)) = map or_ID (id_orgs db)" by simp
  then have idset: "or_ID ` set (map ?f (id_orgs db)) = or_ID ` set (id_orgs db)" by (metis list.set_map)
  have sub: "?R' \<subseteq> ?R" by auto
  have ac: "acyclic ?R" using assms(1) by (simp add: forest_def)
  have "acyclic (?R' \<union> {(i, p) | p. q = Some p})"
  proof (cases q)
    case None
    then show ?thesis using acyclic_subset[OF ac sub] by simp
  next
    case (Some p)
    from assms(3)[OF Some] have "(p, i) \<notin> ?R'\<^sup>*"
    proof
      assume "p \<in> or_ID ` set (id_orgs db) \<and> (p, i) \<notin> ?R\<^sup>*"
      then show ?thesis using rtrancl_mono[OF sub] by auto
    next
      assume "(i, p) \<in> ?R"
      then have "(p, i) \<notin> ?R\<^sup>*" using ac by (meson acyclic_def rtrancl_into_trancl2)
      then show ?thesis using rtrancl_mono[OF sub] by auto
    qed
    then show ?thesis using Some acyclic_subset[OF ac sub] by (simp add: acyclic_insert)
  qed
  then have "acyclic (parent_rel (map ?f (id_orgs db)))" using True by (simp add: parent_rel_update)
  moreover have "\<forall>x\<in>set (map ?f (id_orgs db)). \<forall>p. or_ParentID x = Some p \<longrightarrow> p \<in> or_ID ` set (map ?f (id_orgs db))"
    unfolding idset using assms(1,3) by (auto simp: forest_def parent_rel_def)
  moreover have "distinct (map or_ID (map ?f (id_orgs db)))" unfolding ids using assms(1) by (simp add: forest_def)
  moreover have "\<forall>x\<in>set (map ?f (id_orgs db)). or_ID x < id_nextOrg db" using assms(1) by (auto simp: forest_def)
  ultimately show ?thesis unfolding e forest_def by (simp del: map_map set_map)
qed (use assms in \<open>auto simp: org_Update_def guard_simps\<close>)

lemma parent_rel_snoc: "parent_rel (os @ [y]) = parent_rel os \<union> {(or_ID y, p) | p. or_ParentID y = Some p}"
  unfolding parent_rel_def by auto

lemma org_Create_forest:
  assumes "forest db" "id_faults db = []" "\<And>p. or_ParentID x = Some p \<Longrightarrow> p \<in> or_ID ` set (id_orgs db)"
  shows "forest (snd (org_Create x db))" "length (id_orgs (snd (org_Create x db))) \<le> Suc (length (id_orgs db))" "id_faults (snd (org_Create x db)) = []"
proof -
  let ?y = "x\<lparr>or_ID := id_nextOrg db\<rparr>" and ?R = "parent_rel (id_orgs db)"
  have new: "id_nextOrg db \<notin> or_ID ` set (id_orgs db)" using assms(1) by (auto simp: forest_def)
  have rel: "parent_rel (id_orgs db @ [?y]) = ?R \<union> {(id_nextOrg db, p) | p. or_ParentID x = Some p}" by (simp add: parent_rel_snoc)
  have rng: "id_nextOrg db \<notin> Range ?R" using assms(1) new by (auto simp: forest_def parent_rel_def)
  have "acyclic (parent_rel (id_orgs db @ [?y]))"
  proof (cases "or_ParentID x")
    case (Some p)
    have "(p, id_nextOrg db) \<notin> ?R\<^sup>*"
    proof
      assume "(p, id_nextOrg db) \<in> ?R\<^sup>*"
      then show False using rng new assms(3)[OF Some] by (cases rule: rtranclE) auto
    qed
    then show ?thesis using assms(1) Some unfolding rel by (simp add: forest_def acyclic_insert)
  qed (use assms(1) rel in \<open>simp add: forest_def\<close>)
  then have "forest (db\<lparr>id_orgs := id_orgs db @ [?y], id_nextOrg := id_nextOrg db + 1\<rparr>)"
    using assms(1,3) new by (auto simp: forest_def less_Suc_eq)
  then show "forest (snd (org_Create x db))" "length (id_orgs (snd (org_Create x db))) \<le> Suc (length (id_orgs db))" "id_faults (snd (org_Create x db)) = []"
    using assms(1,2) by (simp_all add: org_Create_def guard_simps Let_def)
qed

lemma svc_Create_forest:
  assumes "forest db" "id_faults db = []"
  shows "forest (snd (svc_Create inp db)) \<and> length (id_orgs (snd (svc_Create inp db))) \<le> Suc (length (id_orgs db)) \<and> id_faults (snd (svc_Create inp db)) = []"
proof -
  obtain r db1 where c: "create_parent (oc_ParentID inp) db = (r, db1)" by force
  have d: "db1 = db" using c assms(2)
    by (auto simp: create_parent_def org_GetByID_def org_GetByName_def guard_simps split: option.splits)
  have p: "p \<in> or_ID ` set (id_orgs db)" if "r = Ok (Some p)" for p
    using c that assms(2)
    by (auto simp: create_parent_def org_GetByID_def org_GetByName_def guard_simps split: option.splits dest!: find_Some_mem)
  show ?thesis
  proof (cases r)
    case (Inr q)
    let ?x = "\<lparr>or_ID = 0, or_Name = TrimSpace (oc_Name inp), or_Description = TrimSpace (oc_Description inp), or_ParentID = q\<rparr>"
    have "or_ParentID ?x = Some k \<Longrightarrow> k \<in> or_ID ` set (id_orgs db)" for k using p Inr by simp
    note C = org_Create_forest[OF assms, of ?x, OF this]
    show ?thesis using C c d Inr assms by (simp add: svc_Create_def Let_def)
  qed (use c d assms in \<open>simp add: svc_Create_def Let_def\<close>)
qed

lemma org_Update_size: "id_faults db = [] \<Longrightarrow> length (id_orgs (snd (org_Update i n d q db))) = length (id_orgs db) \<and> id_faults (snd (org_Update i n d q db)) = []"
  by (simp add: org_Update_def guard_simps)

lemma save_org_forest:
  assumes "forest db" "id_faults db = []"
    and "\<And>p. q = Some p \<Longrightarrow> p \<in> or_ID ` set (id_orgs db) \<and> (p, i) \<notin> (parent_rel (id_orgs db))\<^sup>* \<or> (i, p) \<in> parent_rel (id_orgs db)"
  shows "forest (snd (save_org i n d q db)) \<and> length (id_orgs (snd (save_org i n d q db))) = length (id_orgs db) \<and> id_faults (snd (save_org i n d q db)) = []"
proof -
  obtain r db1 where u: "org_Update i n d q db = (r, db1)" by force
  have "forest db1" "length (id_orgs db1) = length (id_orgs db)" "id_faults db1 = []"
    using org_Update_forest[OF assms(1,2), of q i n d] assms(3) org_Update_size[OF assms(2), of i n d q] u by simp_all
  then show ?thesis using u get_org_db(1)[of db1 i] by (auto simp: save_org_def split: sum.splits)
qed

lemma svc_Update_forest:
  assumes "forest db" "id_faults db = []" "length (id_orgs db) < 1024"
  shows "forest (snd (svc_Update i inp db)) \<and> length (id_orgs (snd (svc_Update i inp db))) = length (id_orgs db) \<and> id_faults (snd (svc_Update i inp db)) = []"
proof -
  obtain r where g: "org_GetByID i db = (r, db)" using get_org_db(1)[OF assms(2), of i] by (metis prod.collapse)
  show ?thesis
  proof (cases r)
    case (Inr x)
    then have x: "x \<in> set (id_orgs db)" "or_ID x = i" using get_org_Ok[OF assms(2)] g by auto
    have keep: "(i, p) \<in> parent_rel (id_orgs db)" if "or_ParentID x = Some p" for p using x that by (auto simp: parent_rel_def)
    have move: "p \<in> or_ID ` set (id_orgs db) \<and> (p, i) \<notin> (parent_rel (id_orgs db))\<^sup>* \<and> db2 = db" if ch: "check_parent i p db = (None, db2)" for p db2
    proof -
      obtain y where y: "org_GetByID p db = (Ok y, db)"
        using ch get_org_db(1)[OF assms(2), of p]
        by (cases "org_GetByID p db"; cases "fst (org_GetByID p db)") (auto simp: check_parent_def split: if_splits)
      have w: "\<not> fst (cycle_walk 1024 i p db)" "db2 = db"
        using that y walk_db[OF assms(2), of 1024 i p] by (auto simp: check_parent_def split: if_splits prod.splits bool.splits)
      have "i \<in> or_ID ` set (id_orgs db)" using x by auto
      from walk_complete[OF assms(2,1,3) this w(1)] w(2) get_org_Ok[OF assms(2) y] show ?thesis by auto
    qed
    have fail: "db2 = db" if "check_parent i p db = (Some e, db2)" for p e db2
      using that get_org_db(1)[OF assms(2), of p] walk_db[OF assms(2), of 1024 i p]
      by (auto simp: check_parent_def split: if_splits sum.splits prod.splits bool.splits)
    show ?thesis
    proof (cases "TrimSpace (ou_Name inp) = []")
      case False
      show ?thesis
      proof (cases "ou_SetParent inp")
        case no: False
        then show ?thesis using False g Inr save_org_forest[OF assms(1,2), of "or_ParentID x"] keep by (simp add: svc_Update_def Let_def)
      next
        case yes: True
        show ?thesis
        proof (cases "ou_ParentID inp")
          case None
          then show ?thesis using False yes g Inr save_org_forest[OF assms(1,2), of None] by (simp add: svc_Update_def Let_def)
        next
          case (Some p)
          obtain e db2 where c: "check_parent i p db = (e, db2)" by force
          then show ?thesis
            using False yes g Inr Some move[of p db2] fail[of p _ db2] assms save_org_forest[OF assms(1,2), of "Some p"]
            by (cases e) (auto simp: svc_Update_def Let_def)
        qed
      qed
    qed (use assms in \<open>simp add: svc_Update_def\<close>)
  qed (use g assms in \<open>simp add: svc_Update_def Let_def\<close>)
qed

lemma svc_Delete_forest:
  assumes "forest db" "id_faults db = []"
  shows "forest (snd (svc_Delete i db)) \<and> length (id_orgs (snd (svc_Delete i db))) \<le> length (id_orgs db) \<and> id_faults (snd (svc_Delete i db)) = []"
proof (cases "\<exists>x\<in>set (id_orgs db). or_ParentID x = Some i")
  case True
  then have "filter (\<lambda>x. or_ParentID x = Some i) (id_orgs db) \<noteq> []" by (auto simp: filter_empty_conv)
  then show ?thesis using assms by (simp add: svc_Delete_def org_CountChildren_def guard_simps)
next
  case False
  then have no: "filter (\<lambda>x. or_ParentID x = Some i) (id_orgs db) = []" by (auto simp: filter_empty_conv)
  let ?os = "filter (\<lambda>x. or_ID x \<noteq> i) (id_orgs db)"
  have "parent_rel ?os \<subseteq> parent_rel (id_orgs db)" by (auto simp: parent_rel_def)
  then have "acyclic (parent_rel ?os)" using assms(1) by (auto simp: forest_def intro: acyclic_subset)
  moreover have "p \<in> or_ID ` set ?os" if "x \<in> set ?os" "or_ParentID x = Some p" for x p
  proof -
    have "x \<in> set (id_orgs db)" using that(1) by simp
    moreover have "\<forall>y\<in>set (id_orgs db). \<forall>q. or_ParentID y = Some q \<longrightarrow> q \<in> or_ID ` set (id_orgs db)"
      using assms(1) unfolding forest_def by blast
    ultimately have "p \<in> or_ID ` set (id_orgs db)" using that(2) by blast
    moreover have "p \<noteq> i" using that False by auto
    ultimately show ?thesis by auto
  qed
  ultimately have f: "forest (d\<lparr>id_orgs := ?os\<rparr>)" if "id_nextOrg d = id_nextOrg db" for d
    using assms(1) that by (auto simp: forest_def distinct_map_filter)
  show ?thesis
    using assms no f by (auto simp: svc_Delete_def org_CountChildren_def member_DeleteByOrg_def RevokeAllForOrg_def org_Delete_def guard_simps)
      (simp add: forest_def)
qed

datatype org_op = OrgCreate OrgCreateInput | OrgUpdate nat OrgUpdateInput | OrgDelete nat

fun org_run :: "org_op \<Rightarrow> iam_db \<Rightarrow> iam_db" where
  "org_run (OrgCreate inp) db = snd (svc_Create inp db)"
| "org_run (OrgUpdate i inp) db = snd (svc_Update i inp db)"
| "org_run (OrgDelete i) db = snd (svc_Delete i db)"

text \<open>
  C16. Organizations stay a forest: from a consistent table, after any requests to create, change, move and
  delete organizations served without failing statements, identifiers are unique, every parent exists and
  no organization is an ancestor of itself. The walk of 1024 steps is long enough as long as there are
  fewer than 1024 organizations.
\<close>

theorem organizations_stay_forest:
  assumes "forest db" "id_faults db = []" "length (id_orgs db) + length ops < 1024"
  shows "forest (fold org_run ops db)"
  using assms
proof (induction ops arbitrary: db)
  case (Cons x xs)
  have "forest (org_run x db) \<and> id_faults (org_run x db) = [] \<and> length (id_orgs (org_run x db)) \<le> Suc (length (id_orgs db))"
    using svc_Create_forest[OF Cons.prems(1,2)] svc_Update_forest[OF Cons.prems(1,2)] svc_Delete_forest[OF Cons.prems(1,2)] Cons.prems(3)
    by (cases x) (fastforce intro: le_SucI)+
  then show ?case using Cons.prems(3) Cons.IH[of "org_run x db"] by simp
qed simp

text \<open>
  A read that fails during the walk ends it as if the root had been reached: moving an organization
  below its own child then succeeds, and the two are each other's ancestors.
\<close>

theorem org_cycle_on_read_failure:
  assumes "forest db" "x \<in> set (id_orgs db)" "c \<in> set (id_orgs db)" "or_ParentID c = Some (or_ID x)" "or_ID c \<noteq> or_ID x"
    and "TrimSpace name \<noteq> []" "\<forall>y\<in>set (id_orgs db). or_Name y \<noteq> TrimSpace name"
  shows "\<not> acyclic (parent_rel (id_orgs (snd (svc_Update (or_ID x)
    \<lparr>ou_Name = name, ou_Description = descr, ou_SetParent = True, ou_ParentID = Some (or_ID c)\<rparr>
    (db\<lparr>id_faults := [None, None, Some e]\<rparr>)))))"
proof -
  have ds: "distinct (map or_ID (id_orgs db))" using assms(1) by (simp add: forest_def)
  have fx: "find (\<lambda>y. or_ID y = or_ID x) (id_orgs db) = Some x" and fc: "find (\<lambda>y. or_ID y = or_ID c) (id_orgs db) = Some c"
    using find_distinct_key[OF ds] assms(2,3) by blast+
  let ?f = "\<lambda>y. if or_ID y = or_ID x then y\<lparr>or_Name := TrimSpace name, or_Description := TrimSpace descr, or_ParentID := Some (or_ID c)\<rparr> else y"
  have "cycle_walk (Suc n) (or_ID x) (or_ID c) (db\<lparr>id_faults := [Some e]\<rparr>) = (False, db\<lparr>id_faults := []\<rparr>)" for n
    by (simp add: org_GetByID_def istmt_def)
  note walk = this
  have "(1024 :: nat) = Suc 1023" by simp
  then have w: "cycle_walk 1024 (or_ID x) (or_ID c) (db\<lparr>id_faults := [Some e]\<rparr>) = (False, db\<lparr>id_faults := []\<rparr>)"
    by (simp only: walk)
  have ch: "check_parent (or_ID x) (or_ID c) (db\<lparr>id_faults := [None, Some e]\<rparr>) = (None, db\<lparr>id_faults := []\<rparr>)"
    using assms(5) fc w by (simp add: check_parent_def org_GetByID_def istmt_def)
  have "id_orgs (snd (svc_Update (or_ID x) \<lparr>ou_Name = name, ou_Description = descr, ou_SetParent = True, ou_ParentID = Some (or_ID c)\<rparr>
      (db\<lparr>id_faults := [None, None, Some e]\<rparr>))) = map ?f (id_orgs db)" (is "?l = _")
    using assms(2,6,7) fx ch by (auto simp: svc_Update_def save_org_def org_GetByID_def org_Update_def istmt_def Let_def)
  then have "parent_rel ?l = {(a, b) \<in> parent_rel (id_orgs db). a \<noteq> or_ID x} \<union> {(or_ID x, p) | p. Some (or_ID c) = Some p}"
    by (simp only:) (rule parent_rel_update, use assms(2) in simp)
  then have "(or_ID x, or_ID c) \<in> parent_rel ?l" "(or_ID c, or_ID x) \<in> parent_rel ?l"
    using assms(3,4,5) by (auto simp: parent_rel_def)
  then show ?thesis by (meson acyclic_def trancl.simps)
qed

text \<open>
  Deleting an organization takes the access it gave: when it succeeds without failing statements, nobody
  is allowed anything in it any more, and the other organizations' grants are as before.
\<close>

theorem org_delete_revokes:
  assumes "casbin_ok cb" "iam_ok db" "svc_Delete i db = (Ok (), db')"
  shows "Allow cb db' u i obj act = False \<and> (k \<noteq> i \<longrightarrow> Allow cb db' u k obj act = Allow cb db u k obj act)"
proof -
  have nf: "id_faults db = []" using assms(2) by (simp add: iam_ok_def)
  let ?ms = "filter (\<lambda>m. om_OrgID m \<noteq> i) (id_members db)"
  have d: "id_members db' = ?ms" "id_p db' = id_p db" "id_faults db' = []" "id_nextMember db' = id_nextMember db"
    "id_g db' = filter (\<lambda>(gu, gr, gd). gd \<noteq> oidStr i) (id_g db)"
    using assms(3) nf
    by (auto simp: svc_Delete_def org_CountChildren_def member_DeleteByOrg_def RevokeAllForOrg_def org_Delete_def guard_simps oidStr_def split: if_splits)
  have "set (id_g db') = grant_of ` set ?ms"
    unfolding d using assms(2) by (auto simp: iam_ok_def grant_of_def oidStr_def dec_inj)
  then have ok: "iam_ok db'" using assms(2) d by (simp add: iam_ok_def distinct_map_filter)
  show ?thesis
    unfolding Allow_members[OF assms(1) ok] Allow_members[OF assms(1,2)]
    by (auto simp: member_allows_def is_member_def d(1))
qed

section \<open>A small tree\<close>

definition demo_root :: Org where
  "demo_root = \<lparr>or_ID = 1, or_Name = ''root'', or_Description = [], or_ParentID = None\<rparr>"

definition demo_child :: Org where
  "demo_child = \<lparr>or_ID = 7, or_Name = ''team'', or_Description = [], or_ParentID = Some 1\<rparr>"

definition demo_tree :: iam_db where
  "demo_tree = demo_iam\<lparr>id_orgs := [demo_root, demo_child]\<rparr>"

lemma demo_tree_orgs: "id_orgs demo_tree = [demo_root, demo_child]" "id_faults demo_tree = []" "iam_ok demo_tree"
  using demo_iam_ok by (simp_all add: demo_tree_def iam_ok_def)

lemma demo_tree_forest: "forest demo_tree"
proof -
  have "parent_rel (id_orgs demo_tree) = {(7, 1)}"
    using parent_rel_map[of _ _ "\<lambda>x. x" "[demo_root, demo_child]"]
    by (auto simp: demo_tree_orgs demo_root_def demo_child_def)
  moreover have "acyclic {(7 :: nat, 1 :: nat)}" by (simp add: acyclic_insert, simp add: acyclic_def)
  ultimately show ?thesis
    unfolding forest_def by (simp add: demo_tree_def demo_iam_def demo_root_def demo_child_def)
qed

theorem organizations_stay_forest_witness:
  "forest (fold org_run [OrgUpdate 1 \<lparr>ou_Name = ''root'', ou_Description = [], ou_SetParent = True, ou_ParentID = Some 7\<rparr>, OrgDelete 7] demo_tree)"
  by (rule organizations_stay_forest[OF demo_tree_forest demo_tree_orgs(2)]) (simp add: demo_tree_orgs)

theorem org_cycle_on_read_failure_witness:
  "\<not> acyclic (parent_rel (id_orgs (snd (svc_Update 1 \<lparr>ou_Name = ''top'', ou_Description = [], ou_SetParent = True, ou_ParentID = Some 7\<rparr>
    (demo_tree\<lparr>id_faults := [None, None, Some ''io'']\<rparr>)))))"
proof -
  have t: "TrimSpace ''top'' = ''top''" by code_simp
  have "demo_root \<in> set (id_orgs demo_tree)" "demo_child \<in> set (id_orgs demo_tree)" "or_ParentID demo_child = Some (or_ID demo_root)"
    "or_ID demo_child \<noteq> or_ID demo_root" "TrimSpace ''top'' \<noteq> []" "\<forall>y\<in>set (id_orgs demo_tree). or_Name y \<noteq> TrimSpace ''top''"
    by (simp_all add: demo_tree_orgs t) (simp_all add: demo_root_def demo_child_def)
  from org_cycle_on_read_failure[OF demo_tree_forest this, of "[]" "''io''"] show ?thesis
    by (simp add: demo_root_def demo_child_def)
qed

theorem org_delete_revokes_witness:
  "Allow demo_casbin demo_tree 42 7 ''edge:1'' ''read'' \<and> \<not> Allow demo_casbin (snd (svc_Delete 7 demo_tree)) 42 7 ''edge:1'' ''read''"
proof -
  have d: "svc_Delete 7 demo_tree = (Ok (), snd (svc_Delete 7 demo_tree))"
    by (simp add: svc_Delete_def org_CountChildren_def member_DeleteByOrg_def RevokeAllForOrg_def org_Delete_def guard_simps demo_tree_orgs)
      (simp add: demo_root_def demo_child_def)
  have "Allow demo_casbin demo_tree 42 7 ''edge:1'' ''read''"
    by (simp add: Allow_members[OF demo_casbin_ok demo_tree_orgs(3)] member_allows_def)
      (simp add: demo_tree_def demo_iam_def demo_member_def is_member_def role_allows_def)
  then show ?thesis using org_delete_revokes[OF demo_casbin_ok demo_tree_orgs(3) d] by blast
qed

end
