(* ===== verification/Iam_User.thy ===== *)
theory Iam_User
  imports Iam_Org
begin

text \<open>
  Users and their tokens: claims, signing and the bearer middleware (\<^verbatim>\<open>internal/pkg/auth\<close>), the
  authorization middleware (\<^verbatim>\<open>internal/pkg/authzmw\<close>), the user store and usecase
  (\<^verbatim>\<open>internal/iam/data/user/sqlite\<close>, \<^verbatim>\<open>internal/iam/biz/user\<close>) and the login throttle of
  \<^verbatim>\<open>internal/iam/server/http.go\<close>. Password hashing and the signature scheme are the record
  \<open>crypto\<close>: dates in a token have a precision of one second, a token is what signing makes of claims, never empty,
  and verifying one gives its claims back until they expire (\<open>crypto_ok\<close>).
\<close>

section \<open>Claims and signing\<close>

record AgentTeamsServiceClaims =
  at_TenantID :: string
  at_Service :: string
  at_Worker :: string
  at_Role :: string
  at_AllowedTools :: "string list"

record Claims =
  cl_UserID :: nat
  cl_Email :: string
  cl_Role :: string
  cl_IsSuperuser :: bool
  cl_TokenType :: string
  cl_AgentTeams :: "AgentTeamsServiceClaims option"
  cl_Issuer :: string
  cl_Audience :: "string list"
  cl_Subject :: string
  cl_IssuedAt :: instant
  cl_ExpiresAt :: instant

record crypto =
  cy_date :: "instant \<Rightarrow> instant"
  cy_sign :: "string \<Rightarrow> Claims \<Rightarrow> string option"
  cy_verify :: "string \<Rightarrow> instant \<Rightarrow> string \<Rightarrow> Claims option"
  cy_hash :: "string \<Rightarrow> string option"
  cy_check :: "string \<Rightarrow> string \<Rightarrow> bool"

definition second :: int where "second = 1000000000"

text \<open>
  Claims travel as JSON: texts come back as they were when they are valid UTF-8, dates when they are whole seconds
  between 1970 and \<open>2 ^ 53\<close> seconds later, where \<^verbatim>\<open>float64\<close> is exact.
\<close>

definition claims_text :: "Claims \<Rightarrow> string list" where
  "claims_text c = [cl_Email c, cl_Role c, cl_TokenType c, cl_Issuer c, cl_Subject c] @ cl_Audience c @
     (case cl_AgentTeams c of None \<Rightarrow> [] | Some s \<Rightarrow> [at_TenantID s, at_Service s, at_Worker s, at_Role s] @ at_AllowedTools s)"

definition date_ok :: "instant \<Rightarrow> bool" where
  "date_ok t = (0 \<le> t \<and> t < 2 ^ 53 * second)"

definition claims_exact :: "Claims \<Rightarrow> bool" where
  "claims_exact c = (list_all utf8_valid (claims_text c) \<and>
     date_ok (cl_IssuedAt c) \<and> cl_IssuedAt c mod second = 0 \<and> date_ok (cl_ExpiresAt c) \<and> cl_ExpiresAt c mod second = 0)"

definition crypto_ok :: "crypto \<Rightarrow> bool" where
  "crypto_ok cy = ((\<forall>t. cy_date cy t = t - t mod second) \<and>
     (\<forall>secret c tok now. cy_sign cy secret c = Some tok \<longrightarrow> tok \<noteq> [] \<and>
       (claims_exact c \<longrightarrow> cy_verify cy secret now tok = (if now < cl_ExpiresAt c then Some c else None))))"

record Signer =
  sg_secret :: string
  sg_accessTTL :: int
  sg_refreshTTL :: int

definition AgentTeamsTokenIssuer :: string where "AgentTeamsTokenIssuer = ''opskeeper-agentteams''"
definition AgentTeamsTokenAudience :: string where "AgentTeamsTokenAudience = ''opskeeper-mcp''"
definition AgentTeamsTokenType :: string where "AgentTeamsTokenType = ''agentteams_service''"
definition AgentTeamsServiceName :: string where "AgentTeamsServiceName = ''agentteams''"

lemmas token_defs = AgentTeamsTokenIssuer_def AgentTeamsTokenAudience_def AgentTeamsTokenType_def AgentTeamsServiceName_def

definition AgentTeamsWorkerForRole :: "string \<Rightarrow> string" where
  "AgentTeamsWorkerForRole role = ''opskeeper-'' @ role"

definition AgentTeamsWorkerBoundToRole :: "string \<Rightarrow> string \<Rightarrow> bool" where
  "AgentTeamsWorkerBoundToRole worker role = (role \<noteq> [] \<and> worker = AgentTeamsWorkerForRole role)"

text \<open>The tools of each role.\<close>

definition AgentTeamsWorkerPermissions :: "(string \<times> string list) list" where
  "AgentTeamsWorkerPermissions =
    [(''alerter'', [''loop.correlate'', ''incident.record'']),
     (''investigator'', [''loop.correlate'', ''loop.investigate'', ''query_knowledge'', ''query_promql'', ''query_incidents'',
        ''get_incident_detail'', ''get_host_load'', ''get_host_processes'', ''analyze_database_status'', ''incident.record'']),
     (''critic'', [''query_knowledge'']),
     (''reviewer'', [''query_knowledge'', ''query_incidents'', ''get_incident_detail'', ''incident.timeline'', ''incident.record'']),
     (''repairer'', [''recovery.execute'', ''query_knowledge'', ''incident.record'']),
     (''verifier'', [''recovery.verify'', ''query_knowledge'', ''incident.record'']),
     (''reporter'', [''knowledge.write'', ''incident.record''])]"

definition AgentTeamsRoleAllows :: "string \<Rightarrow> string \<Rightarrow> bool" where
  "AgentTeamsRoleAllows role tool =
    (if role = ''worker'' \<or> role = ''admin'' \<or> role = ''manager'' then True
     else (case map_of AgentTeamsWorkerPermissions role of None \<Rightarrow> False | Some ts \<Rightarrow> tool \<in> set ts))"

definition sign :: "crypto \<Rightarrow> Signer \<Rightarrow> instant \<Rightarrow> Claims \<Rightarrow> int \<Rightarrow> string option" where
  "sign cy sg now c ttl = cy_sign cy (sg_secret sg) (c\<lparr>cl_IssuedAt := cy_date cy now, cl_ExpiresAt := cy_date cy (now + ttl)\<rparr>)"

definition SignAccess :: "crypto \<Rightarrow> Signer \<Rightarrow> instant \<Rightarrow> Claims \<Rightarrow> string option" where
  "SignAccess cy sg now c = (if cl_AgentTeams c \<noteq> None then None else sign cy sg now c (sg_accessTTL sg))"

definition SignRefresh :: "crypto \<Rightarrow> Signer \<Rightarrow> instant \<Rightarrow> Claims \<Rightarrow> string option" where
  "SignRefresh cy sg now c = (if cl_AgentTeams c \<noteq> None then None else sign cy sg now c (sg_refreshTTL sg))"

definition service_claims :: "AgentTeamsServiceClaims \<Rightarrow> Claims" where
  "service_claims s = \<lparr>cl_UserID = 0, cl_Email = [], cl_Role = [], cl_IsSuperuser = False, cl_TokenType = AgentTeamsTokenType,
     cl_AgentTeams = Some s, cl_Issuer = AgentTeamsTokenIssuer, cl_Audience = [AgentTeamsTokenAudience], cl_Subject = [],
     cl_IssuedAt = 0, cl_ExpiresAt = 0\<rparr>"

definition SignAgentTeamsService :: "crypto \<Rightarrow> Signer \<Rightarrow> instant \<Rightarrow> AgentTeamsServiceClaims \<Rightarrow> int \<Rightarrow> string option" where
  "SignAgentTeamsService cy sg now s ttl =
    (if at_TenantID s = [] \<or> at_Worker s = [] \<or> at_Role s = [] \<or> at_AllowedTools s = [] then None
     else if at_Service s \<noteq> AgentTeamsServiceName then None
     else if \<not> AgentTeamsWorkerBoundToRole (at_Worker s) (at_Role s) then None
     else if [] \<in> set (at_AllowedTools s) \<or> \<not> distinct (at_AllowedTools s) \<or> \<not> list_all (AgentTeamsRoleAllows (at_Role s)) (at_AllowedTools s) then None
     else if ttl \<le> 0 \<or> ttl > 900 * second then None
     else sign cy sg now (service_claims s) ttl)"

definition Verify :: "crypto \<Rightarrow> Signer \<Rightarrow> instant \<Rightarrow> string \<Rightarrow> Claims option" where
  "Verify cy sg now tok = cy_verify cy (sg_secret sg) now tok"

section \<open>Middleware\<close>

record Tenant =
  tn_UserID :: nat
  tn_Email :: string
  tn_Role :: string
  tn_IsSuperuser :: bool
  tn_AgentTeams :: "AgentTeamsServiceClaims option"

definition validAgentTeamsRequest :: "Claims \<Rightarrow> string \<Rightarrow> bool" where
  "validAgentTeamsRequest c path =
    ((path = ''/v1/mcp'' \<or> path = ''/api/v1/mcp'') \<and> cl_TokenType c = AgentTeamsTokenType \<and> cl_Issuer c = AgentTeamsTokenIssuer \<and>
     cl_Audience c = [AgentTeamsTokenAudience] \<and> cl_UserID c = 0 \<and> cl_Role c = [] \<and> \<not> cl_IsSuperuser c)"

text \<open>The tenant a request runs as, or the HTTP status it is refused with.\<close>

definition auth_Middleware :: "crypto \<Rightarrow> Signer \<Rightarrow> instant \<Rightarrow> string \<Rightarrow> string \<Rightarrow> (nat, Tenant) result" where
  "auth_Middleware cy sg now path tok =
    (if tok = [] then Err 401
     else (case Verify cy sg now tok of
         None \<Rightarrow> Err 401
       | Some c \<Rightarrow>
           if cl_AgentTeams c \<noteq> None \<and> \<not> validAgentTeamsRequest c path then Err 403
           else Ok \<lparr>tn_UserID = cl_UserID c, tn_Email = cl_Email c, tn_Role = cl_Role c,
                    tn_IsSuperuser = (cl_IsSuperuser c \<or> cl_Role c = ''admin''), tn_AgentTeams = cl_AgentTeams c\<rparr>))"

text \<open>\<open>wired\<close> says whether there is an enforcer.\<close>

definition authz_Require :: "casbin \<Rightarrow> bool \<Rightarrow> string \<Rightarrow> string \<Rightarrow> Tenant option \<Rightarrow> iam_db \<Rightarrow> nat err \<times> iam_db" where
  "authz_Require cb wired obj act t db = (case t of
     None \<Rightarrow> (Some 401, db)
   | Some tn \<Rightarrow>
       if tn_IsSuperuser tn then (None, db)
       else if \<not> wired then (None, db)
       else (case AllowAnyOrg cb (tn_UserID tn) obj act db of (ok, db1) \<Rightarrow> (if ok then None else Some 403, db1)))"

section \<open>User store\<close>

definition user_Create :: "User \<Rightarrow> iam_db \<Rightarrow> (iam_error, User) result \<times> iam_db" where
  "user_Create x = istmt (\<lambda>db.
     if us_Email x \<in> us_Email ` set (id_users db) then (Err unique_error, db)
     else (let y = x\<lparr>us_ID := id_nextUser db\<rparr> in (Ok y, db\<lparr>id_users := id_users db @ [y], id_nextUser := id_nextUser db + 1\<rparr>)))"

definition user_GetByEmail :: "string \<Rightarrow> iam_db \<Rightarrow> (iam_error, User) result \<times> iam_db" where
  "user_GetByEmail e = istmt (\<lambda>db. (case find (\<lambda>x. us_Email x = e) (id_users db) of None \<Rightarrow> Err IamNotFound | Some x \<Rightarrow> Ok x, db))"

definition user_GetByID :: "nat \<Rightarrow> iam_db \<Rightarrow> (iam_error, User) result \<times> iam_db" where
  "user_GetByID i = istmt (\<lambda>db. (case find (\<lambda>x. us_ID x = i) (id_users db) of None \<Rightarrow> Err IamNotFound | Some x \<Rightarrow> Ok x, db))"

definition user_Delete :: "nat \<Rightarrow> iam_db \<Rightarrow> (iam_error, unit) result \<times> iam_db" where
  "user_Delete i = istmt (\<lambda>db.
     if i \<notin> us_ID ` set (id_users db) then (Err IamNotFound, db)
     else (Ok (), db\<lparr>id_users := filter (\<lambda>x. us_ID x \<noteq> i) (id_users db)\<rparr>))"

definition user_update :: "nat \<Rightarrow> (User \<Rightarrow> User) \<Rightarrow> iam_db \<Rightarrow> (iam_error, unit) result \<times> iam_db" where
  "user_update i f = istmt (\<lambda>db.
     if i \<notin> us_ID ` set (id_users db) then (Err IamNotFound, db)
     else (Ok (), db\<lparr>id_users := map (\<lambda>x. if us_ID x = i then f x else x) (id_users db)\<rparr>))"

definition UpdateRole :: "nat \<Rightarrow> string \<Rightarrow> iam_db \<Rightarrow> (iam_error, unit) result \<times> iam_db" where
  "UpdateRole i role = user_update i (\<lambda>x. x\<lparr>us_Role := role\<rparr>)"

definition UpdateStatus :: "nat \<Rightarrow> string \<Rightarrow> iam_db \<Rightarrow> (iam_error, unit) result \<times> iam_db" where
  "UpdateStatus i st = user_update i (\<lambda>x. x\<lparr>us_Status := st\<rparr>)"

definition UpdateSuperuser :: "nat \<Rightarrow> bool \<Rightarrow> iam_db \<Rightarrow> (iam_error, unit) result \<times> iam_db" where
  "UpdateSuperuser i b = user_update i (\<lambda>x. x\<lparr>us_IsSuperuser := b\<rparr>)"

definition UpdatePassHash :: "nat \<Rightarrow> string \<Rightarrow> iam_db \<Rightarrow> (iam_error, unit) result \<times> iam_db" where
  "UpdatePassHash i h = user_update i (\<lambda>x. x\<lparr>us_PassHash := h\<rparr>)"

definition repo_UpdateProfile :: "nat \<Rightarrow> string \<Rightarrow> string \<Rightarrow> iam_db \<Rightarrow> (iam_error, unit) result \<times> iam_db" where
  "repo_UpdateProfile i n p = user_update i (\<lambda>x. x\<lparr>us_DisplayName := n, us_Phone := p\<rparr>)"

section \<open>User usecase\<close>

record TokenPair =
  tp_Access :: string
  tp_Refresh :: string
  tp_Role :: string
  tp_UserID :: nat

definition norm_email :: "string \<Rightarrow> string" where
  "norm_email e = TrimSpace (ToLower e)"

text \<open>Nobody has the address yet; a failing lookup is an error.\<close>

definition check_email_free :: "string \<Rightarrow> iam_db \<Rightarrow> iam_error err \<times> iam_db" where
  "check_email_free email db = (case user_GetByEmail email db of
     (Ok _, db1) \<Rightarrow> (Some IamConflict, db1)
   | (Err e, db1) \<Rightarrow> (if e = IamNotFound then None else Some e, db1))"

definition insert_user :: "crypto \<Rightarrow> string \<Rightarrow> User \<Rightarrow> iam_db \<Rightarrow> (iam_error, User) result \<times> iam_db" where
  "insert_user cy password x db = (case check_email_free (us_Email x) db of
     (Some e, db1) \<Rightarrow> (Err e, db1)
   | (None, db1) \<Rightarrow> (case cy_hash cy password of
         None \<Rightarrow> (Err (IamDriver ''hash password''), db1)
       | Some ph \<Rightarrow> (case user_Create (x\<lparr>us_PassHash := ph\<rparr>) db1 of
             (Err e, db2) \<Rightarrow> (Err e, db2)
           | (Ok y, db2) \<Rightarrow> (Ok (y\<lparr>us_PassHash := []\<rparr>), db2))))"

definition Register :: "crypto \<Rightarrow> string \<Rightarrow> string \<Rightarrow> string \<Rightarrow> iam_db \<Rightarrow> (iam_error, User) result \<times> iam_db" where
  "Register cy email0 password role0 db =
    (let email = norm_email email0; role = (if role0 = [] then RoleUser else role0) in
     if email = [] \<or> password = [] then (Err (IamInvalid ''email and password required''), db)
     else if \<not> IsValidRole role then (Err (IamInvalid ''unknown role''), db)
     else insert_user cy password \<lparr>us_ID = 0, us_Email = email, us_PassHash = [], us_DisplayName = [], us_Phone = [], us_Role = role,
       us_IsSuperuser = False, us_Status = StatusActive\<rparr> db)"

record UserCreateInput =
  ui_Email :: string
  ui_Password :: string
  ui_DisplayName :: string
  ui_Phone :: string
  ui_Role :: string

definition local_part :: "string \<Rightarrow> string" where
  "local_part email = (case IndexStr email ''@'' of Some (Suc n) \<Rightarrow> take (Suc n) email | _ \<Rightarrow> email)"

definition user_svc_Create :: "crypto \<Rightarrow> UserCreateInput \<Rightarrow> iam_db \<Rightarrow> (iam_error, User) result \<times> iam_db" where
  "user_svc_Create cy inp db =
    (let email = norm_email (ui_Email inp); role = (if ui_Role inp = [] then RoleUser else ui_Role inp); dn = TrimSpace (ui_DisplayName inp) in
     if email = [] then (Err (IamInvalid ''email required''), db)
     else if ui_Password inp = [] then (Err (IamInvalid ''password required''), db)
     else if \<not> IsValidRole role then (Err (IamInvalid ''unknown role''), db)
     else insert_user cy (ui_Password inp) \<lparr>us_ID = 0, us_Email = email, us_PassHash = [],
       us_DisplayName = (if dn = [] then local_part email else dn), us_Phone = TrimSpace (ui_Phone inp), us_Role = role,
       us_IsSuperuser = (role = RoleAdmin), us_Status = StatusActive\<rparr> db)"

definition base_claims :: "User \<Rightarrow> Claims" where
  "base_claims x = \<lparr>cl_UserID = us_ID x, cl_Email = us_Email x, cl_Role = us_Role x, cl_IsSuperuser = us_IsSuperuser x, cl_TokenType = [],
     cl_AgentTeams = None, cl_Issuer = [], cl_Audience = [], cl_Subject = dec (us_ID x), cl_IssuedAt = 0, cl_ExpiresAt = 0\<rparr>"

definition issuePair :: "crypto \<Rightarrow> Signer \<Rightarrow> instant \<Rightarrow> User \<Rightarrow> (iam_error, TokenPair) result" where
  "issuePair cy sg now x = (case SignAccess cy sg now (base_claims x) of
     None \<Rightarrow> Err (IamDriver ''sign access'')
   | Some a \<Rightarrow> (case SignRefresh cy sg now (base_claims x) of
         None \<Rightarrow> Err (IamDriver ''sign refresh'')
       | Some r \<Rightarrow> Ok \<lparr>tp_Access = a, tp_Refresh = r, tp_Role = us_Role x, tp_UserID = us_ID x\<rparr>))"

definition Login :: "crypto \<Rightarrow> Signer \<Rightarrow> instant \<Rightarrow> string \<Rightarrow> string \<Rightarrow> iam_db \<Rightarrow> (iam_error, TokenPair) result \<times> iam_db" where
  "Login cy sg now email0 password db =
    (let email = norm_email email0 in
     if email = [] \<or> password = [] then (Err (IamInvalid ''email and password required''), db)
     else (case user_GetByEmail email db of
         (Err e, db1) \<Rightarrow> (Err (if e = IamNotFound then IamUnauthorized else e), db1)
       | (Ok x, db1) \<Rightarrow>
           if us_Status x \<noteq> StatusActive then (Err IamUnauthorized, db1)
           else if \<not> cy_check cy password (us_PassHash x) then (Err IamUnauthorized, db1)
           else (issuePair cy sg now x, db1)))"

definition Refresh :: "crypto \<Rightarrow> Signer \<Rightarrow> instant \<Rightarrow> string \<Rightarrow> iam_db \<Rightarrow> (iam_error, TokenPair) result \<times> iam_db" where
  "Refresh cy sg now tok db =
    (if tok = [] then (Err (IamInvalid ''refresh_token required''), db)
     else (case Verify cy sg now tok of
         None \<Rightarrow> (Err IamUnauthorized, db)
       | Some c \<Rightarrow> (case user_GetByID (cl_UserID c) db of
             (Err e, db1) \<Rightarrow> (Err (if e = IamNotFound then IamUnauthorized else e), db1)
           | (Ok x, db1) \<Rightarrow> (if us_Status x \<noteq> StatusActive then Err IamUnauthorized else issuePair cy sg now x, db1))))"

record AgentTeamsTokenRequest =
  tr_TenantID :: string
  tr_Worker :: string
  tr_Role :: string
  tr_AllowedTools :: "string list"
  tr_TTLSeconds :: int

definition IssueAgentTeamsToken :: "crypto \<Rightarrow> Signer \<Rightarrow> instant \<Rightarrow> string \<Rightarrow> AgentTeamsTokenRequest \<Rightarrow> (iam_error, string \<times> int) result" where
  "IssueAgentTeamsToken cy sg now requesterRole req =
    (if requesterRole \<noteq> RoleAdmin then Err IamForbidden
     else (let tenant = TrimSpace (tr_TenantID req); worker = TrimSpace (tr_Worker req); role = TrimSpace (tr_Role req);
               ttl = (if tr_TTLSeconds req = 0 then 900 else tr_TTLSeconds req); tools = map TrimSpace (tr_AllowedTools req)
       in if tenant = [] \<or> worker = [] \<or> role = [] \<or> tr_AllowedTools req = [] then Err (IamInvalid ''tenant_id, worker, role, and allowed_tools are required'')
          else if \<not> AgentTeamsWorkerBoundToRole worker role then Err (IamInvalid ''worker must equal opskeeper-<role>'')
          else if ttl < 60 \<or> ttl > 900 then Err (IamInvalid ''ttl_seconds must be between 60 and 900'')
          else if \<not> list_all (AgentTeamsRoleAllows role) tools then Err (IamInvalid ''tool is not allowed for role'')
          else (case SignAgentTeamsService cy sg now
                  \<lparr>at_TenantID = tenant, at_Service = AgentTeamsServiceName, at_Worker = worker, at_Role = role, at_AllowedTools = tools\<rparr> (ttl * second) of
              None \<Rightarrow> Err (IamDriver ''sign agentteams token'')
            | Some tok \<Rightarrow> Ok (tok, ttl))))"

definition BootstrapAdmin :: "crypto \<Rightarrow> string \<Rightarrow> string \<Rightarrow> iam_db \<Rightarrow> iam_error err \<times> iam_db" where
  "BootstrapAdmin cy email0 password db =
    (let email = norm_email email0 in
     if email = [] \<or> password = [] then (None, db)
     else (case istmt (\<lambda>d. (Ok (length (id_users d)), d)) db of
         (Err e, db1) \<Rightarrow> (Some e, db1)
       | (Ok n, db1) \<Rightarrow>
           if n > 0 then (None, db1)
           else (case cy_hash cy password of
               None \<Rightarrow> (Some (IamDriver ''hash password''), db1)
             | Some ph \<Rightarrow> (case user_Create \<lparr>us_ID = 0, us_Email = email, us_PassHash = ph, us_DisplayName = ''admin'', us_Phone = [],
                     us_Role = RoleAdmin, us_IsSuperuser = True, us_Status = StatusActive\<rparr> db1 of
                   (Err e, db2) \<Rightarrow> (Some e, db2)
                 | (Ok _, db2) \<Rightarrow> (None, db2)))))"

definition SetRole :: "nat \<Rightarrow> string \<Rightarrow> iam_db \<Rightarrow> (iam_error, unit) result \<times> iam_db" where
  "SetRole i role db =
    (if \<not> IsValidRole role then (Err (IamInvalid ''unknown role''), db)
     else (case UpdateRole i role db of
         (Err e, db1) \<Rightarrow> (Err e, db1)
       | (Ok _, db1) \<Rightarrow> (Ok (), snd (UpdateSuperuser i (role = RoleAdmin) db1))))"

definition UpdateProfile :: "nat \<Rightarrow> string \<Rightarrow> string \<Rightarrow> iam_db \<Rightarrow> (iam_error, unit) result \<times> iam_db" where
  "UpdateProfile i n p db =
    (let dn = TrimSpace n; ph = TrimSpace p in
     if length dn > 128 then (Err (IamInvalid ''display_name too long (max 128)''), db)
     else if length ph > 32 then (Err (IamInvalid ''phone too long (max 32)''), db)
     else repo_UpdateProfile i dn ph db)"

definition SetStatus :: "nat \<Rightarrow> string \<Rightarrow> iam_db \<Rightarrow> (iam_error, unit) result \<times> iam_db" where
  "SetStatus i st db =
    (if st \<noteq> StatusActive \<and> st \<noteq> StatusDisabled then (Err (IamInvalid ''unknown status''), db) else UpdateStatus i st db)"

definition ResetPassword :: "crypto \<Rightarrow> nat \<Rightarrow> string \<Rightarrow> iam_db \<Rightarrow> (iam_error, unit) result \<times> iam_db" where
  "ResetPassword cy i password db =
    (if password = [] then (Err (IamInvalid ''password required''), db)
     else (case cy_hash cy password of None \<Rightarrow> (Err (IamDriver ''hash password''), db) | Some ph \<Rightarrow> UpdatePassHash i ph db))"

text \<open>The boot migration of one row: legacy admins become superusers, empty names get the local part.\<close>

definition ensure_user :: "User \<Rightarrow> iam_db \<Rightarrow> (iam_error, unit) result \<times> iam_db" where
  "ensure_user x db = (case (if us_Role x = RoleAdmin \<and> \<not> us_IsSuperuser x then UpdateSuperuser (us_ID x) True db else (Ok (), db)) of
     (Err e, db1) \<Rightarrow> (Err e, db1)
   | (Ok _, db1) \<Rightarrow> (Ok (), if TrimSpace (us_DisplayName x) = [] then snd (repo_UpdateProfile (us_ID x) (local_part (us_Email x)) (us_Phone x) db1) else db1))"

definition EnsureSuperuser :: "iam_db \<Rightarrow> iam_error err \<times> iam_db" where
  "EnsureSuperuser db = (case istmt (\<lambda>d. (Ok (id_users d), d)) db of
     (Err e, db1) \<Rightarrow> (Some e, db1)
   | (Ok xs, db1) \<Rightarrow> each ensure_user xs db1)"

section \<open>Login throttle\<close>

record throttleSlot = ts_count :: int  ts_windowAt :: instant

record loginThrottle =
  lt_byIP :: "string \<Rightarrow> throttleSlot option"
  lt_byEmail :: "string \<Rightarrow> throttleSlot option"

definition loginIPLimit :: int where "loginIPLimit = 20"
definition loginIPWindow :: int where "loginIPWindow = 300 * second"
definition loginEmailLimit :: int where "loginEmailLimit = 6"
definition loginEmailWindow :: int where "loginEmailWindow = 900 * second"

definition exceeded :: "throttleSlot option \<Rightarrow> instant \<Rightarrow> int \<Rightarrow> int \<Rightarrow> bool" where
  "exceeded s now limit window = (case s of None \<Rightarrow> False | Some sl \<Rightarrow> \<not> now - ts_windowAt sl > window \<and> ts_count sl \<ge> limit)"

definition bump :: "throttleSlot option \<Rightarrow> instant \<Rightarrow> int \<Rightarrow> throttleSlot" where
  "bump s now window = (case s of
     None \<Rightarrow> \<lparr>ts_count = 1, ts_windowAt = now\<rparr>
   | Some sl \<Rightarrow> if now - ts_windowAt sl > window then \<lparr>ts_count = 1, ts_windowAt = now\<rparr> else sl\<lparr>ts_count := ts_count sl + 1\<rparr>)"

definition throttle_check :: "loginThrottle \<Rightarrow> instant \<Rightarrow> string \<Rightarrow> string \<Rightarrow> bool" where
  "throttle_check t now ip email =
    (\<not> exceeded (lt_byIP t ip) now loginIPLimit loginIPWindow \<and> \<not> exceeded (lt_byEmail t email) now loginEmailLimit loginEmailWindow)"

definition recordFailure :: "instant \<Rightarrow> string \<Rightarrow> string \<Rightarrow> loginThrottle \<Rightarrow> loginThrottle" where
  "recordFailure now ip email t =
    t\<lparr>lt_byIP := (lt_byIP t)(ip := Some (bump (lt_byIP t ip) now loginIPWindow)),
      lt_byEmail := (lt_byEmail t)(email := Some (bump (lt_byEmail t email) now loginEmailWindow))\<rparr>"

definition recordSuccess :: "string \<Rightarrow> loginThrottle \<Rightarrow> loginThrottle" where
  "recordSuccess email t = t\<lparr>lt_byEmail := (lt_byEmail t)(email := None)\<rparr>"

text \<open>
  One login request: \<open>None\<close> when the throttle refuses it, otherwise the outcome of checking the password.
\<close>

definition login :: "crypto \<Rightarrow> Signer \<Rightarrow> instant \<Rightarrow> string \<Rightarrow> string \<Rightarrow> string \<Rightarrow> loginThrottle \<Rightarrow> iam_db \<Rightarrow>
    (iam_error, TokenPair) result option \<times> loginThrottle \<times> iam_db" where
  "login cy sg now ip email password t db =
    (let key = ToLower (TrimSpace email) in
     if \<not> throttle_check t now ip key then (None, t, db)
     else (case Login cy sg now email password db of
         (Err e, db1) \<Rightarrow> (Some (Err e), recordFailure now ip key t, db1)
       | (Ok pair, db1) \<Rightarrow> (Some (Ok pair), recordSuccess key t, db1)))"

section \<open>Logging in\<close>

definition tenant_of :: "User \<Rightarrow> Tenant" where
  "tenant_of x = \<lparr>tn_UserID = us_ID x, tn_Email = us_Email x, tn_Role = us_Role x,
     tn_IsSuperuser = (us_IsSuperuser x \<or> us_Role x = RoleAdmin), tn_AgentTeams = None\<rparr>"

lemma sign_verify:
  assumes "crypto_ok cy" "sign cy sg now c ttl = Some tok" "list_all utf8_valid (claims_text c)" "date_ok now" "date_ok (now + ttl)"
  shows "Verify cy sg t tok = (if t < cy_date cy (now + ttl)
    then Some (c\<lparr>cl_IssuedAt := cy_date cy now, cl_ExpiresAt := cy_date cy (now + ttl)\<rparr>) else None)" "tok \<noteq> []"
    "cy_date cy (now + ttl) \<le> now + ttl" "now + ttl < cy_date cy (now + ttl) + second"
proof -
  let ?c = "c\<lparr>cl_IssuedAt := cy_date cy now, cl_ExpiresAt := cy_date cy (now + ttl)\<rparr>"
  have d: "cy_date cy u = u - u mod second" for u using assms(1) by (simp add: crypto_ok_def)
  have m: "0 \<le> u mod second" "u mod second < second" for u :: int by (simp_all add: second_def)
  have whole: "date_ok (cy_date cy u) \<and> cy_date cy u mod second = 0" if "date_ok u" for u
  proof -
    have "0 \<le> u - u mod second" using that zmod_le_nonneg_dividend[of u second] by (simp add: date_ok_def)
    moreover have "(u - u mod second) mod second = 0" by (simp add: minus_mod_eq_mult_div)
    ultimately show ?thesis using that m(1)[of u] unfolding d date_ok_def by linarith
  qed
  have "claims_exact ?c" using whole assms(3-5) by (simp add: claims_exact_def claims_text_def)
  then have "tok \<noteq> [] \<and> cy_verify cy (sg_secret sg) t tok = (if t < cl_ExpiresAt ?c then Some ?c else None)"
    using assms(1,2) unfolding crypto_ok_def sign_def by blast
  then show "Verify cy sg t tok = (if t < cy_date cy (now + ttl) then Some ?c else None)" "tok \<noteq> []"
    by (simp_all add: Verify_def)
  show "cy_date cy (now + ttl) \<le> now + ttl" "now + ttl < cy_date cy (now + ttl) + second"
    using m[of "now + ttl"] by (simp_all add: d)
qed

text \<open>The pair of a user with well-formed texts, issued at an ordinary time.\<close>

definition pair_exact :: "Signer \<Rightarrow> instant \<Rightarrow> User \<Rightarrow> bool" where
  "pair_exact sg now x = (list_all utf8_valid (claims_text (base_claims x)) \<and> date_ok now \<and> date_ok (now + sg_accessTTL sg) \<and>
     date_ok (now + sg_refreshTTL sg))"

lemma pair_bearer:
  assumes "crypto_ok cy" "issuePair cy sg now x = Ok p" "pair_exact sg now x"
  shows "auth_Middleware cy sg t path (tp_Access p) = (if t < cy_date cy (now + sg_accessTTL sg) then Ok (tenant_of x) else Err 401)"
    "auth_Middleware cy sg t path (tp_Refresh p) = (if t < cy_date cy (now + sg_refreshTTL sg) then Ok (tenant_of x) else Err 401)"
    "t < cy_date cy (now + sg_accessTTL sg) \<Longrightarrow> \<exists>c. Verify cy sg t (tp_Access p) = Some c \<and> cl_UserID c = us_ID x"
    "tp_Access p \<noteq> []"
proof -
  have c: "cl_AgentTeams (base_claims x) = None" by (simp add: base_claims_def)
  from assms(2) have a: "sign cy sg now (base_claims x) (sg_accessTTL sg) = Some (tp_Access p)"
    and r: "sign cy sg now (base_claims x) (sg_refreshTTL sg) = Some (tp_Refresh p)"
    by (auto simp: issuePair_def SignAccess_def SignRefresh_def c split: option.splits)
  have e: "list_all utf8_valid (claims_text (base_claims x))" "date_ok now" "date_ok (now + sg_accessTTL sg)" "date_ok (now + sg_refreshTTL sg)"
    using assms(3) by (simp_all add: pair_exact_def)
  note A = sign_verify[OF assms(1) a e(1,2,3)] and R = sign_verify[OF assms(1) r e(1,2,4)]
  show "auth_Middleware cy sg t path (tp_Access p) = (if t < cy_date cy (now + sg_accessTTL sg) then Ok (tenant_of x) else Err 401)"
    using A(1)[of t] A(2) by (simp add: auth_Middleware_def base_claims_def tenant_of_def RoleAdmin_def)
  show "auth_Middleware cy sg t path (tp_Refresh p) = (if t < cy_date cy (now + sg_refreshTTL sg) then Ok (tenant_of x) else Err 401)"
    using R(1)[of t] R(2) by (simp add: auth_Middleware_def base_claims_def tenant_of_def RoleAdmin_def)
  show "t < cy_date cy (now + sg_accessTTL sg) \<Longrightarrow> \<exists>c. Verify cy sg t (tp_Access p) = Some c \<and> cl_UserID c = us_ID x" "tp_Access p \<noteq> []"
    using A(1)[of t] A(2) by (simp_all add: base_claims_def)
qed

text \<open>
  Logging in succeeds only for an active user with the given address whose stored hash the password
  matches, and until it expires the access token makes requests run as exactly that user.
\<close>

theorem login_sound:
  assumes "crypto_ok cy" "Login cy sg now email password db = (Ok p, db')" "\<forall>x\<in>set (id_users db). pair_exact sg now x"
  shows "\<exists>x\<in>set (id_users db). us_Email x = norm_email email \<and> us_Status x = StatusActive \<and> cy_check cy password (us_PassHash x) \<and>
    (\<forall>t path. auth_Middleware cy sg t path (tp_Access p) =
      (if t < cy_date cy (now + sg_accessTTL sg) then Ok (tenant_of x) else Err 401))"
proof -
  from assms(2) obtain x db1 where x: "user_GetByEmail (norm_email email) db = (Ok x, db1)" "us_Status x = StatusActive"
    "cy_check cy password (us_PassHash x)" "issuePair cy sg now x = Ok p"
    by (auto simp: Login_def Let_def split: if_splits sum.splits prod.splits)
  then have "x \<in> set (id_users db) \<and> us_Email x = norm_email email"
    by (auto simp: user_GetByEmail_def istmt_def split: list.splits option.splits dest!: find_Some_mem)
  with x assms(3) pair_bearer(1)[OF assms(1) x(4)] show ?thesis by blast
qed

text \<open>
  The two tokens of a pair are interchangeable: for its much longer life the refresh token is accepted
  as a bearer token on every path, with the rights the user had when it was issued, and the access token
  renews the pair.
\<close>

theorem refresh_token_is_bearer:
  assumes "crypto_ok cy" "issuePair cy sg now x = Ok p" "pair_exact sg now x" "id_faults db = []"
    and "find (\<lambda>y. us_ID y = us_ID x) (id_users db) = Some x" "us_Status x = StatusActive"
  shows "(t < cy_date cy (now + sg_refreshTTL sg) \<longrightarrow> auth_Middleware cy sg t path (tp_Refresh p) = Ok (tenant_of x)) \<and>
    (t < cy_date cy (now + sg_accessTTL sg) \<longrightarrow> Refresh cy sg t (tp_Access p) db = (issuePair cy sg t x, db))"
proof -
  have "Refresh cy sg t (tp_Access p) db = (issuePair cy sg t x, db)" if "t < cy_date cy (now + sg_accessTTL sg)"
    using pair_bearer(3)[OF assms(1-3) that] pair_bearer(4)[OF assms(1-3)] assms(4-6)
    by (auto simp: Refresh_def user_GetByID_def guard_simps)
  then show ?thesis using pair_bearer(2)[OF assms(1-3)] by simp
qed

section \<open>Service tokens\<close>

text \<open>The texts of a request as they are signed; a request decoded from JSON has well-formed ones.\<close>

definition request_text :: "AgentTeamsTokenRequest \<Rightarrow> string list" where
  "request_text req = map TrimSpace ([tr_TenantID req, tr_Worker req, tr_Role req] @ tr_AllowedTools req)"

text \<open>
  C23. A service token is issued only to an admin. It names the worker bound to its role, and its tools are the
  distinct tools that were asked for, each listed for the role (the roles worker, admin and manager may ask for
  any). Requests that carry it are accepted on the two tool endpoints only and run without a user, a role or
  superuser rights; from its expiry on, at most fifteen minutes after it was issued, they are refused
  everywhere. Dates have a precision of one second, so a token expires up to a second early.
\<close>

theorem service_token_confined:
  assumes "crypto_ok cy" "IssueAgentTeamsToken cy sg now requester req = Ok (tok, ttl)"
    and "list_all utf8_valid (request_text req)" "date_ok now" "date_ok (now + 900 * second)"
  shows "requester = RoleAdmin \<and> 60 \<le> ttl \<and> ttl \<le> 900 \<and>
    (\<exists>s expiry. at_Worker s = ''opskeeper-'' @ at_Role s \<and> distinct (at_AllowedTools s) \<and>
      at_Role s = TrimSpace (tr_Role req) \<and> at_AllowedTools s = map TrimSpace (tr_AllowedTools req) \<and>
      (\<forall>tool\<in>set (at_AllowedTools s). at_Role s \<in> {''worker'', ''admin'', ''manager''} \<or>
        (\<exists>ts. (at_Role s, ts) \<in> set AgentTeamsWorkerPermissions \<and> tool \<in> set ts)) \<and>
      now + ttl * second - second < expiry \<and> expiry \<le> now + ttl * second \<and>
      (\<forall>t path. auth_Middleware cy sg t path tok =
        (if expiry \<le> t then Err 401
         else if path = ''/v1/mcp'' \<or> path = ''/api/v1/mcp''
         then Ok \<lparr>tn_UserID = 0, tn_Email = [], tn_Role = [], tn_IsSuperuser = False, tn_AgentTeams = Some s\<rparr> else Err 403)))"
proof -
  define s where "s = \<lparr>at_TenantID = TrimSpace (tr_TenantID req), at_Service = AgentTeamsServiceName, at_Worker = TrimSpace (tr_Worker req),
    at_Role = TrimSpace (tr_Role req), at_AllowedTools = map TrimSpace (tr_AllowedTools req)\<rparr>"
  from assms(2) have h: "requester = RoleAdmin" "60 \<le> ttl" "ttl \<le> 900" "SignAgentTeamsService cy sg now s (ttl * second) = Some tok"
    by (auto simp: IssueAgentTeamsToken_def Let_def s_def split: if_splits option.splits)
  from h(4) have b: "AgentTeamsWorkerBoundToRole (at_Worker s) (at_Role s)" "distinct (at_AllowedTools s)"
    "list_all (AgentTeamsRoleAllows (at_Role s)) (at_AllowedTools s)" "sign cy sg now (service_claims s) (ttl * second) = Some tok"
    by (auto simp: SignAgentTeamsService_def split: if_splits)
  have fixed: "list_all utf8_valid [[], AgentTeamsTokenType, AgentTeamsTokenIssuer, AgentTeamsTokenAudience, AgentTeamsServiceName]" by code_simp
  have texts: "list_all utf8_valid (claims_text (service_claims s))"
    using assms(3) fixed by (simp add: claims_text_def service_claims_def s_def request_text_def)
  have date: "date_ok (now + ttl * second)" using assms(4,5) h(2,3) by (simp add: date_ok_def second_def)
  note V = sign_verify[OF assms(1) b(4) texts assms(4) date]
  have "auth_Middleware cy sg t path tok =
        (if cy_date cy (now + ttl * second) \<le> t then Err 401
         else if path = ''/v1/mcp'' \<or> path = ''/api/v1/mcp''
         then Ok \<lparr>tn_UserID = 0, tn_Email = [], tn_Role = [], tn_IsSuperuser = False, tn_AgentTeams = Some s\<rparr> else Err 403)" for t path
    using V(1)[of t] V(2) by (simp add: auth_Middleware_def validAgentTeamsRequest_def service_claims_def)
  moreover have "at_Role s \<in> {''worker'', ''admin'', ''manager''} \<or> (\<exists>ts. (at_Role s, ts) \<in> set AgentTeamsWorkerPermissions \<and> tool \<in> set ts)"
    if "tool \<in> set (at_AllowedTools s)" for tool
    using that b(3) map_of_SomeD[of AgentTeamsWorkerPermissions "at_Role s"]
    by (fastforce simp: list_all_iff AgentTeamsRoleAllows_def split: if_splits option.splits)
  moreover have "at_Worker s = ''opskeeper-'' @ at_Role s" using b(1) by (simp add: AgentTeamsWorkerBoundToRole_def AgentTeamsWorkerForRole_def)
  ultimately show ?thesis using h(1-3) b(2) V(3,4)
    by (intro conjI exI[of _ s] exI[of _ "cy_date cy (now + ttl * second)"]) (simp_all add: s_def)
qed

section \<open>Administration\<close>

text \<open>
  Disabling the only administrator succeeds and leaves no administrator who could log in, although the
  documentation says it is rejected.
\<close>

theorem disable_last_admin:
  assumes "id_faults db = []" "x \<in> set (id_users db)" "\<forall>y\<in>set (id_users db). us_Role y = RoleAdmin \<longrightarrow> us_ID y = us_ID x"
  shows "fst (SetStatus (us_ID x) StatusDisabled db) = Ok () \<and>
    \<not> (\<exists>y\<in>set (id_users (snd (SetStatus (us_ID x) StatusDisabled db))). us_Role y = RoleAdmin \<and> us_Status y = StatusActive)"
  using assms by (auto simp: SetStatus_def UpdateStatus_def user_update_def guard_simps role_defs)

text \<open>
  Deleting a user keeps the user's memberships and grants: the policy engine allows the deleted user
  whatever it allowed before, in every organization.
\<close>

theorem user_delete_keeps_grants:
  assumes "user_Delete i db = (Ok (), db')"
  shows "i \<notin> us_ID ` set (id_users db') \<and> id_members db' = id_members db \<and> Allow cb db' u k obj act = Allow cb db u k obj act"
  using assms by (auto simp: user_Delete_def istmt_def Allow_def Enforce_def split: list.splits option.splits if_splits)

section \<open>Guessing passwords\<close>

fun login_run :: "crypto \<Rightarrow> Signer \<Rightarrow> string \<Rightarrow> (instant \<times> string \<times> string) list \<Rightarrow> loginThrottle \<Rightarrow> iam_db \<Rightarrow> (iam_error, TokenPair) result option list" where
  "login_run cy sg email [] t db = []"
| "login_run cy sg email ((now, ip, password) # as) t db = (case login cy sg now ip email password t db of
     (r, t1, db1) \<Rightarrow> r # login_run cy sg email as t1 db1)"

text \<open>How many more failures the slot of the address admits until the end of the interval that starts at \<open>T\<close>.\<close>

definition budget :: "instant \<Rightarrow> throttleSlot option \<Rightarrow> int" where
  "budget T sl = (case sl of
     None \<Rightarrow> loginEmailLimit
   | Some s \<Rightarrow> max 0 (loginEmailLimit - ts_count s) + (if ts_windowAt s < T then loginEmailLimit else 0))"

lemma budget_step:
  assumes "\<not> exceeded sl now loginEmailLimit loginEmailWindow" "T \<le> now" "now \<le> T + loginEmailWindow"
  shows "budget T (Some (bump sl now loginEmailWindow)) + 1 \<le> budget T sl"
  using assms by (auto simp: budget_def bump_def exceeded_def loginEmailLimit_def loginEmailWindow_def second_def split: option.splits)

lemma budget_nonneg: "0 \<le> budget T sl"
  by (simp add: budget_def loginEmailLimit_def split: option.splits)

definition failed_guess :: "(iam_error, TokenPair) result option \<Rightarrow> bool" where
  "failed_guess r = (case r of Some (Err _) \<Rightarrow> True | _ \<Rightarrow> False)"

definition logged_in :: "(iam_error, TokenPair) result option \<Rightarrow> bool" where
  "logged_in r = (case r of Some (Ok _) \<Rightarrow> True | _ \<Rightarrow> False)"

lemma guess_simps [simp]:
  "\<not> failed_guess None" "failed_guess (Some (Err e))" "\<not> failed_guess (Some (Ok p))"
  "\<not> logged_in None" "\<not> logged_in (Some (Err e))" "logged_in (Some (Ok p))"
  by (simp_all add: failed_guess_def logged_in_def)

lemma login_run_budget:
  assumes "\<forall>(now, ip, pw)\<in>set as. T \<le> now \<and> now \<le> T + loginEmailWindow"
  shows "int (length (filter failed_guess (login_run cy sg email as t db))) \<le>
    budget T (lt_byEmail t (ToLower (TrimSpace email))) + 6 * int (length (filter logged_in (login_run cy sg email as t db)))"
  using assms
proof (induction as arbitrary: t db)
  case (Cons a as)
  obtain now ip pw where a: "a = (now, ip, pw)" by (cases a) auto
  obtain r t1 db1 where l: "login cy sg now ip email pw t db = (r, t1, db1)" by (metis prod_cases3)
  let ?k = "ToLower (TrimSpace email)" and ?rest = "login_run cy sg email as t1 db1"
  have ih: "int (length (filter failed_guess ?rest)) \<le> budget T (lt_byEmail t1 ?k) + 6 * int (length (filter logged_in ?rest))"
    using Cons by auto
  consider "r = None" "t1 = t" | p where "r = Some (Ok p)" "t1 = recordSuccess ?k t"
    | e where "r = Some (Err e)" "t1 = recordFailure now ip ?k t" "throttle_check t now ip ?k"
    using l by (auto simp: login_def Let_def split: if_splits sum.splits prod.splits)
  then show ?case
  proof cases
    case 1
    then show ?thesis using ih a l by simp
  next
    case (2 p)
    then have "budget T (lt_byEmail t1 ?k) = 6" by (simp add: recordSuccess_def budget_def loginEmailLimit_def)
    then show ?thesis using ih a l 2 budget_nonneg[of T "lt_byEmail t ?k"] by simp
  next
    case (3 e)
    then have "budget T (lt_byEmail t1 ?k) + 1 \<le> budget T (lt_byEmail t ?k)"
      using budget_step[of "lt_byEmail t ?k" now T] Cons.prems a by (simp add: recordFailure_def throttle_check_def)
    then show ?thesis using ih a l 3 by simp
  qed
qed (simp add: budget_nonneg)

text \<open>
  C31. Take the login requests for one account within any fifteen minutes, handled one after the other and from however
  many addresses. At most twelve of them reach the password check and fail, and six more for every successful login
  among them (which forgets the failures before it); the throttle refuses the rest.
\<close>

theorem login_guesses_bounded:
  assumes "\<forall>(now, ip, pw)\<in>set as. T \<le> now \<and> now \<le> T + 900 * second"
    and "\<forall>s. lt_byEmail t (ToLower (TrimSpace email)) = Some s \<longrightarrow> 0 \<le> ts_count s"
  shows "length (filter failed_guess (login_run cy sg email as t db)) \<le>
    12 + 6 * length (filter logged_in (login_run cy sg email as t db))"
proof -
  have "budget T (lt_byEmail t (ToLower (TrimSpace email))) \<le> 12"
    using assms(2) by (auto simp: budget_def loginEmailLimit_def split: option.splits)
  with login_run_budget[OF assms(1)[folded loginEmailWindow_def], of cy sg email t db] show ?thesis by linarith
qed

section \<open>A small user base\<close>

definition demo_user :: User where
  "demo_user = \<lparr>us_ID = 1, us_Email = ''a@b'', us_PassHash = ''h'', us_DisplayName = ''a'', us_Phone = [], us_Role = RoleAdmin,
     us_IsSuperuser = True, us_Status = StatusActive\<rparr>"

definition demo_signer :: Signer where
  "demo_signer = \<lparr>sg_secret = ''k'', sg_accessTTL = 10 * second, sg_refreshTTL = 20 * second\<rparr>"

definition demo_service :: AgentTeamsServiceClaims where
  "demo_service = \<lparr>at_TenantID = ''t'', at_Service = AgentTeamsServiceName, at_Worker = ''opskeeper-critic'', at_Role = ''critic'',
     at_AllowedTools = [''query_knowledge'']\<rparr>"

text \<open>A signature scheme that knows three tokens.\<close>

definition demo_tokens :: "(string \<times> Claims) list" where
  "demo_tokens = [(''a'', (base_claims demo_user)\<lparr>cl_IssuedAt := 0, cl_ExpiresAt := 10 * second\<rparr>),
     (''r'', (base_claims demo_user)\<lparr>cl_IssuedAt := 0, cl_ExpiresAt := 20 * second\<rparr>),
     (''s'', (service_claims demo_service)\<lparr>cl_IssuedAt := 0, cl_ExpiresAt := 60 * second\<rparr>)]"

definition demo_crypto :: crypto where
  "demo_crypto = \<lparr>cy_date = \<lambda>t. t - t mod second, cy_sign = \<lambda>_ c. map_option fst (find (\<lambda>e. snd e = c) demo_tokens),
     cy_verify = \<lambda>_ now tok. (case map_of demo_tokens tok of None \<Rightarrow> None | Some c \<Rightarrow> if now < cl_ExpiresAt c then Some c else None),
     cy_hash = \<lambda>_. Some ''h'', cy_check = \<lambda>pw h. pw = ''pw''\<rparr>"

lemma demo_crypto_ok: "crypto_ok demo_crypto"
proof -
  have "tok \<noteq> [] \<and> map_of demo_tokens tok = Some c" if "find (\<lambda>e. snd e = c) demo_tokens = Some (tok, c')" for tok c c'
    using that by (auto simp: demo_tokens_def split: if_splits)
  then show ?thesis by (fastforce simp: crypto_ok_def demo_crypto_def)
qed

definition demo_users :: iam_db where
  "demo_users = demo_tree\<lparr>id_users := [demo_user]\<rparr>"

lemma demo_users_rows: "id_users demo_users = [demo_user]" "id_faults demo_users = []"
  by (simp_all add: demo_users_def demo_tree_orgs)

lemma demo_date: "cy_date demo_crypto t = t - t mod second"
  by (simp add: demo_crypto_def)

lemma demo_pair: "issuePair demo_crypto demo_signer 0 demo_user = Ok \<lparr>tp_Access = ''a'', tp_Refresh = ''r'', tp_Role = RoleAdmin, tp_UserID = 1\<rparr>"
  by (simp add: issuePair_def SignAccess_def SignRefresh_def sign_def demo_crypto_def demo_signer_def demo_tokens_def base_claims_def second_def)
    (simp add: demo_user_def)

lemma demo_ttl: "sg_accessTTL demo_signer = 10 * second" "sg_refreshTTL demo_signer = 20 * second"
  by (simp_all add: demo_signer_def)

lemma demo_exact: "pair_exact demo_signer 0 demo_user"
  by code_simp

lemma demo_login: "Login demo_crypto demo_signer 0 '' A@b'' ''pw'' demo_users = (Ok \<lparr>tp_Access = ''a'', tp_Refresh = ''r'', tp_Role = RoleAdmin, tp_UserID = 1\<rparr>, demo_users)"
proof -
  have n: "norm_email '' A@b'' = ''a@b''" by code_simp
  have "cy_check demo_crypto ''pw'' (us_PassHash demo_user)" by (simp add: demo_crypto_def)
  then show ?thesis
    using demo_pair by (simp add: Login_def n user_GetByEmail_def guard_simps demo_users_rows Let_def) (simp add: demo_user_def)
qed

theorem login_sound_witness:
  "auth_Middleware demo_crypto demo_signer 9 ''/v1/edges'' ''a'' = Ok (tenant_of demo_user)"
proof -
  have "\<forall>x\<in>set (id_users demo_users). pair_exact demo_signer 0 x" by (simp add: demo_users_rows demo_exact)
  from login_sound[OF demo_crypto_ok demo_login this] have
    "\<forall>t path. auth_Middleware demo_crypto demo_signer t path ''a'' =
       (if t < cy_date demo_crypto (0 + sg_accessTTL demo_signer) then Ok (tenant_of demo_user) else Err 401)"
    by (auto simp: demo_users_rows)
  then show ?thesis by (simp add: demo_ttl demo_date second_def)
qed

theorem refresh_token_is_bearer_witness:
  "auth_Middleware demo_crypto demo_signer (15 * second) ''/v1/edges'' ''r'' = Ok (tenant_of demo_user)"
  using refresh_token_is_bearer[OF demo_crypto_ok demo_pair demo_exact, of demo_users "15 * second" "''/v1/edges''"]
  by (simp add: demo_users_rows demo_ttl demo_date second_def) (simp add: demo_user_def)

definition demo_token_request :: AgentTeamsTokenRequest where
  "demo_token_request = \<lparr>tr_TenantID = ''t'', tr_Worker = ''opskeeper-critic'', tr_Role = ''critic'', tr_AllowedTools = [''query_knowledge''], tr_TTLSeconds = 60\<rparr>"

lemma demo_token: "IssueAgentTeamsToken demo_crypto demo_signer 0 RoleAdmin demo_token_request = Ok (''s'', 60)"
proof -
  have t: "TrimSpace ''t'' = ''t''" "TrimSpace ''opskeeper-critic'' = ''opskeeper-critic''" "TrimSpace ''critic'' = ''critic''"
    "TrimSpace ''query_knowledge'' = ''query_knowledge''" "AgentTeamsRoleAllows ''critic'' ''query_knowledge''"
    "AgentTeamsWorkerBoundToRole ''opskeeper-critic'' ''critic''" by code_simp+
  have "SignAgentTeamsService demo_crypto demo_signer 0 demo_service (60 * second) = Some ''s''"
    by (simp add: SignAgentTeamsService_def demo_service_def t sign_def demo_date)
      (simp add: second_def demo_crypto_def demo_tokens_def base_claims_def service_claims_def demo_service_def)
  then show ?thesis by (simp add: IssueAgentTeamsToken_def demo_token_request_def t Let_def) (simp add: demo_service_def)
qed

theorem service_token_confined_witness:
  "auth_Middleware demo_crypto demo_signer 1 ''/v1/edges'' ''s'' = Err 403 \<and>
   auth_Middleware demo_crypto demo_signer (60 * second) ''/v1/mcp'' ''s'' = Err 401"
proof -
  have "list_all utf8_valid (request_text demo_token_request)" "date_ok 0" "date_ok (0 + 900 * second)" by code_simp+
  from service_token_confined[OF demo_crypto_ok demo_token this] obtain expiry u where
    e: "59 * second < expiry" "expiry \<le> 60 * second" and
    a: "\<forall>t path. auth_Middleware demo_crypto demo_signer t path ''s'' = (if expiry \<le> t then Err 401
       else if path = ''/v1/mcp'' \<or> path = ''/api/v1/mcp'' then Ok u else Err 403)" by (elim conjE exE) auto
  show ?thesis using e by (simp add: a second_def)
qed

theorem disable_last_admin_witness:
  "fst (SetStatus 1 StatusDisabled demo_users) = Ok ()"
  using disable_last_admin[of demo_users demo_user] by (simp add: demo_users_rows) (simp add: demo_user_def)

theorem user_delete_keeps_grants_witness:
  "id_users (snd (user_Delete 1 demo_users)) = [] \<and>
   Allow demo_casbin (snd (user_Delete 1 demo_users)) 42 7 ''edge:1'' ''read'' = Allow demo_casbin demo_users 42 7 ''edge:1'' ''read''"
proof -
  have d: "user_Delete 1 demo_users = (Ok (), demo_users\<lparr>id_users := []\<rparr>)"
    by (simp add: user_Delete_def guard_simps demo_users_rows) (simp add: demo_user_def)
  show ?thesis unfolding d using user_delete_keeps_grants[OF d] by simp
qed

theorem login_guesses_bounded_witness:
  "length (filter failed_guess (login_run demo_crypto demo_signer ''a@b'' (replicate 20 (0, ''ip'', ''x''))
    \<lparr>lt_byIP = \<lambda>_. None, lt_byEmail = \<lambda>_. None\<rparr> demo_users)) \<le> 12"
proof -
  have n: "norm_email ''a@b'' = ''a@b''" by code_simp
  have l: "Login demo_crypto demo_signer 0 ''a@b'' ''x'' demo_users = (Err IamUnauthorized, demo_users)"
    by (simp add: Login_def n user_GetByEmail_def guard_simps demo_users_rows Let_def) (simp add: demo_user_def demo_crypto_def)
  have none: "filter logged_in (login_run demo_crypto demo_signer ''a@b'' (replicate k (0, ''ip'', ''x'')) t demo_users) = []" for k t
    by (induction k arbitrary: t) (auto simp: login_def l Let_def)
  have "length (filter failed_guess (login_run demo_crypto demo_signer ''a@b'' (replicate 20 (0, ''ip'', ''x''))
      \<lparr>lt_byIP = \<lambda>_. None, lt_byEmail = \<lambda>_. None\<rparr> demo_users)) \<le>
    12 + 6 * length (filter logged_in (login_run demo_crypto demo_signer ''a@b'' (replicate 20 (0, ''ip'', ''x''))
      \<lparr>lt_byIP = \<lambda>_. None, lt_byEmail = \<lambda>_. None\<rparr> demo_users))"
    by (rule login_guesses_bounded[where T = 0]) (auto simp: second_def)
  then show ?thesis unfolding none by simp
qed

end
