(* ===== verification/Lead_Lock.thy ===== *)
theory Lead_Lock
  imports Go_Strings
begin

text \<open>
  The distributed lock (\<^verbatim>\<open>internal/pkg/redislock/lock.go\<close>). Redis is the record \<open>redis\<close> of the
  commands the code issues, over a store of any type; \<open>redis_ok\<close> states their documented effect on
  the value that a key shows at an instant. A command reaches the server or not, and its reply may be lost
  after it took effect: the argument \<open>net\<close> says which. The two Lua scripts are the source's own and
  run atomically. Instants and durations are nanoseconds.
\<close>

section \<open>Redis\<close>

record 'r redis =
  rd_get :: "instant \<Rightarrow> string \<Rightarrow> 'r \<Rightarrow> string option"
  rd_setnx :: "instant \<Rightarrow> string \<Rightarrow> string \<Rightarrow> int \<Rightarrow> 'r \<Rightarrow> bool \<times> 'r"
  rd_del :: "instant \<Rightarrow> string \<Rightarrow> 'r \<Rightarrow> int \<times> 'r"
  rd_pexpire :: "instant \<Rightarrow> string \<Rightarrow> int \<Rightarrow> 'r \<Rightarrow> int \<times> 'r"

definition millisecond :: int where "millisecond = 1000000"
definition second :: int where "second = 1000 * millisecond"

text \<open>Times to live travel as whole milliseconds.\<close>

definition lease :: "int \<Rightarrow> int" where "lease d = d div millisecond * millisecond"

text \<open>
  What the protocol relies on. \<open>SET NX PX\<close> stores a value that disappears after its time to live and
  leaves a present key alone; \<open>PEXPIRE\<close> replaces the time to live of a present key, in
  milliseconds, and a time that is not positive deletes it; a key that has gone does not come back by
  itself; a command touches no other key.
\<close>

definition redis_expiry :: "'r redis \<Rightarrow> bool" where
  "redis_expiry rd \<longleftrightarrow> (\<forall>t u k r. t \<le> u \<longrightarrow> rd_get rd u k r = rd_get rd t k r \<or> rd_get rd u k r = None)"

definition redis_setnx :: "'r redis \<Rightarrow> bool" where
  "redis_setnx rd \<longleftrightarrow> (\<forall>t k v d r. millisecond \<le> d \<longrightarrow>
     fst (rd_setnx rd t k v d r) = (rd_get rd t k r = None) \<and>
     (\<forall>u\<ge>t. rd_get rd u k (snd (rd_setnx rd t k v d r)) =
        (if rd_get rd t k r \<noteq> None then rd_get rd u k r else if u < t + lease d then Some v else None)))"

definition redis_del :: "'r redis \<Rightarrow> bool" where
  "redis_del rd \<longleftrightarrow> (\<forall>t k r. fst (rd_del rd t k r) = (if rd_get rd t k r = None then 0 else 1) \<and>
     (\<forall>u\<ge>t. rd_get rd u k (snd (rd_del rd t k r)) = None))"

definition redis_pexpire :: "'r redis \<Rightarrow> bool" where
  "redis_pexpire rd \<longleftrightarrow> (\<forall>t k ms r. fst (rd_pexpire rd t k ms r) = (if rd_get rd t k r = None then 0 else 1) \<and>
     (\<forall>u\<ge>t. rd_get rd u k (snd (rd_pexpire rd t k ms r)) = (if u < t + ms * millisecond then rd_get rd t k r else None)))"

definition redis_other_keys :: "'r redis \<Rightarrow> bool" where
  "redis_other_keys rd \<longleftrightarrow> (\<forall>t u k k' v d ms r. t \<le> u \<longrightarrow> k' \<noteq> k \<longrightarrow>
     rd_get rd u k' (snd (rd_setnx rd t k v d r)) = rd_get rd u k' r \<and>
     rd_get rd u k' (snd (rd_del rd t k r)) = rd_get rd u k' r \<and>
     rd_get rd u k' (snd (rd_pexpire rd t k ms r)) = rd_get rd u k' r)"

definition redis_ok :: "'r redis \<Rightarrow> bool" where
  "redis_ok rd \<longleftrightarrow> redis_expiry rd \<and> redis_setnx rd \<and> redis_del rd \<and> redis_pexpire rd \<and> redis_other_keys rd"

datatype redis_error = RCanceled | RDeadlineExceeded | ROther string

datatype net = NetOk | NetDown redis_error | NetLost redis_error

definition redis_call :: "net \<Rightarrow> ('r \<Rightarrow> 'a \<times> 'r) \<Rightarrow> 'r \<Rightarrow> (redis_error, 'a) result \<times> 'r" where
  "redis_call n f r = (case n of
     NetOk \<Rightarrow> (Ok (fst (f r)), snd (f r))
   | NetDown e \<Rightarrow> (Err e, r)
   | NetLost e \<Rightarrow> (Err e, snd (f r)))"

section \<open>Owners and locks\<close>

definition KeyPrefix :: string where "KeyPrefix = ''opskeeper:lock:''"

record Owner =
  ow_ID :: string
  ow_Hostname :: string

definition Owner_String :: "Owner \<Rightarrow> string" where
  "Owner_String o' = (if ow_Hostname o' = [] then ow_ID o' else ow_ID o' @ '':'' @ ow_Hostname o')"

definition NewOwner :: "string \<Rightarrow> string \<Rightarrow> Owner" where
  "NewOwner host uuid = \<lparr>ow_ID = uuid, ow_Hostname = host\<rparr>"

datatype lock_error =
    ErrLockHeld
  | ErrNotOwner
  | ErrLockUnavailable string
  | CtxError redis_error
  | LockArgument string

record 'r Lock =
  lk_cli :: "'r redis"
  lk_key :: string
  lk_owner :: Owner
  lk_ttl :: int

text \<open>Errors of the context are passed on, every other failure of a command is \<open>ErrLockUnavailable\<close>.\<close>

definition wrap_redis :: "redis_error \<Rightarrow> lock_error" where
  "wrap_redis e = (case e of ROther m \<Rightarrow> ErrLockUnavailable m | _ \<Rightarrow> CtxError e)"

definition lock_args :: "'r redis option \<Rightarrow> string \<Rightarrow> int \<Rightarrow> lock_error option" where
  "lock_args cli key ttl =
    (if cli = None then Some (LockArgument ''redislock: redis client is nil'')
     else if key = [] then Some (LockArgument ''redislock: key is empty'')
     else if ttl \<le> 0 then Some (LockArgument ''redislock: ttl must be > 0'')
     else None)"

definition TryAcquire :: "'r redis option \<Rightarrow> string \<Rightarrow> Owner \<Rightarrow> int \<Rightarrow> instant \<Rightarrow> net \<Rightarrow> 'r \<Rightarrow> (lock_error, 'r Lock) result \<times> 'r" where
  "TryAcquire cli key own ttl now n r = (case lock_args cli key ttl of
     Some e \<Rightarrow> (Err e, r)
   | None \<Rightarrow>
       (let fullKey = KeyPrefix @ key in
        case redis_call n (rd_setnx (the cli) now fullKey (Owner_String own) ttl) r of
          (Err e, r1) \<Rightarrow> (Err (wrap_redis e), r1)
        | (Ok ok, r1) \<Rightarrow>
            if \<not> ok then (Err ErrLockHeld, r1)
            else (Ok \<lparr>lk_cli = the cli, lk_key = fullKey, lk_owner = own, lk_ttl = ttl\<rparr>, r1)))"

text \<open>
  The blocking form. One entry of the schedule is one round of the loop: what other clients do to the
  store before it, the instant and fate of the command, the instant of the deadline test, and the error of
  the context at its test and during the pause of 50 ms. \<open>None\<close> is a call still waiting when the
  schedule ends.
\<close>

record 'r attempt =
  at_env :: "'r \<Rightarrow> 'r"
  at_now :: instant
  at_net :: net
  at_check :: instant
  at_ctx :: "redis_error option"
  at_sleep :: "redis_error option"

fun acquire_loop :: "'r redis option \<Rightarrow> string \<Rightarrow> Owner \<Rightarrow> int \<Rightarrow> int \<Rightarrow> instant \<Rightarrow> 'r attempt list \<Rightarrow> 'r \<Rightarrow> (lock_error, 'r Lock) result option \<times> 'r" where
  "acquire_loop cli key own ttl wait deadline [] r = (None, r)"
| "acquire_loop cli key own ttl wait deadline (a # as) r =
    (case TryAcquire cli key own ttl (at_now a) (at_net a) (at_env a r) of
       (Ok l, r1) \<Rightarrow> (Some (Ok l), r1)
     | (Err e, r1) \<Rightarrow>
         if e \<noteq> ErrLockHeld then (Some (Err e), r1)
         else if 0 < wait \<and> deadline < at_check a then (Some (Err ErrLockHeld), r1)
         else (case at_ctx a of
             Some c \<Rightarrow> (Some (Err (CtxError c)), r1)
           | None \<Rightarrow> (case at_sleep a of
               Some c \<Rightarrow> (Some (Err (CtxError c)), r1)
             | None \<Rightarrow> acquire_loop cli key own ttl wait deadline as r1)))"

definition Acquire :: "'r redis option \<Rightarrow> string \<Rightarrow> Owner \<Rightarrow> int \<Rightarrow> int \<Rightarrow> instant \<Rightarrow> 'r attempt list \<Rightarrow> 'r \<Rightarrow> (lock_error, 'r Lock) result option \<times> 'r" where
  "Acquire cli key own ttl wait now as r = (case lock_args cli key ttl of
     Some e \<Rightarrow> (Some (Err e), r)
   | None \<Rightarrow> acquire_loop cli key own ttl wait (now + wait) as r)"

section \<open>The scripts\<close>

definition releaseScript :: "'r redis \<Rightarrow> instant \<Rightarrow> string \<Rightarrow> string \<Rightarrow> 'r \<Rightarrow> int \<times> 'r" where
  "releaseScript rd now k arg r = (if rd_get rd now k r = Some arg then rd_del rd now k r else (0, r))"

definition renewScript :: "'r redis \<Rightarrow> instant \<Rightarrow> string \<Rightarrow> string \<Rightarrow> int \<Rightarrow> 'r \<Rightarrow> int \<times> 'r" where
  "renewScript rd now k arg ms r = (if rd_get rd now k r = Some arg then rd_pexpire rd now k ms r else (0, r))"

text \<open>\<^verbatim>\<open>Renew\<close> returns its error and the handle with the new time to live.\<close>

definition Renew :: "'r Lock option \<Rightarrow> int \<Rightarrow> instant \<Rightarrow> net \<Rightarrow> 'r \<Rightarrow> lock_error err \<times> 'r Lock option \<times> 'r" where
  "Renew lo ttl now n r = (case lo of
     None \<Rightarrow> (Some (LockArgument ''redislock: Renew on nil Lock''), None, r)
   | Some l \<Rightarrow>
       if ttl \<le> 0 then (Some (LockArgument ''redislock: ttl must be > 0''), Some l, r)
       else (case redis_call n (renewScript (lk_cli l) now (lk_key l) (Owner_String (lk_owner l)) (ttl div millisecond)) r of
           (Err e, r1) \<Rightarrow> (Some (wrap_redis e), Some l, r1)
         | (Ok res, r1) \<Rightarrow> if res \<noteq> 1 then (Some ErrNotOwner, Some l, r1) else (None, Some (l\<lparr>lk_ttl := ttl\<rparr>), r1)))"

definition Exists :: "'r redis \<Rightarrow> instant \<Rightarrow> string \<Rightarrow> 'r \<Rightarrow> bool \<times> 'r" where
  "Exists rd now k r = (rd_get rd now k r \<noteq> None, r)"

definition Release :: "'r Lock option \<Rightarrow> instant \<Rightarrow> net \<Rightarrow> net \<Rightarrow> 'r \<Rightarrow> lock_error err \<times> 'r" where
  "Release lo now n1 n2 r = (case lo of
     None \<Rightarrow> (None, r)
   | Some l \<Rightarrow>
       (case redis_call n1 (releaseScript (lk_cli l) now (lk_key l) (Owner_String (lk_owner l))) r of
          (Err e, r1) \<Rightarrow> (Some (wrap_redis e), r1)
        | (Ok res, r1) \<Rightarrow>
            if res = 1 then (None, r1)
            else (case redis_call n2 (Exists (lk_cli l) now (lk_key l)) r1 of
                (Err e, r2) \<Rightarrow> (None, r2)
              | (Ok present, r2) \<Rightarrow> (if present then Some ErrNotOwner else None, r2))))"

definition IsHeldBy :: "'r redis \<Rightarrow> string \<Rightarrow> Owner \<Rightarrow> instant \<Rightarrow> net \<Rightarrow> 'r \<Rightarrow> (lock_error, bool) result \<times> 'r" where
  "IsHeldBy rd key own now n r =
    (case redis_call n (\<lambda>r. (rd_get rd now (KeyPrefix @ key) r, r)) r of
       (Err e, r1) \<Rightarrow> (Err (ErrLockUnavailable (case e of ROther m \<Rightarrow> m | RCanceled \<Rightarrow> ''context canceled'' | RDeadlineExceeded \<Rightarrow> ''context deadline exceeded'')), r1)
     | (Ok v, r1) \<Rightarrow> (Ok (v = Some (Owner_String own)), r1))"

section \<open>Effect on the store\<close>

text \<open>
  What any operation of the owner \<open>v\<close> on the key \<open>k\<close> may do to the store: nothing visible, or, when the
  key was free or the owner's own, leave the owner's value for at most \<open>T\<close>. The value of another owner
  is never touched.
\<close>

definition owner_effect :: "'r redis \<Rightarrow> string \<Rightarrow> string \<Rightarrow> int \<Rightarrow> instant \<Rightarrow> 'r \<Rightarrow> 'r \<Rightarrow> bool" where
  "owner_effect rd v k T now r r' \<longleftrightarrow>
    (\<forall>k' u. k' \<noteq> k \<longrightarrow> now \<le> u \<longrightarrow> rd_get rd u k' r' = rd_get rd u k' r) \<and>
    ((\<forall>u\<ge>now. rd_get rd u k r' = rd_get rd u k r) \<or>
     (rd_get rd now k r \<in> {None, Some v} \<and>
      (\<exists>e\<le>T. \<forall>u\<ge>now. rd_get rd u k r' = (if u < now + e then Some v else None))))"

lemma owner_effect_refl [simp]: "owner_effect rd v k T now r r"
  by (simp add: owner_effect_def)

lemma owner_effect_mono: "owner_effect rd v k T now r r' \<Longrightarrow> T \<le> T' \<Longrightarrow> owner_effect rd v k T' now r r'"
  unfolding owner_effect_def by (meson order_trans)

lemma owner_effect_trans:
  assumes "owner_effect rd v k T now r r1" "owner_effect rd v k T now r1 r2"
  shows "owner_effect rd v k T now r r2"
proof -
  have o: "\<forall>k' u. k' \<noteq> k \<longrightarrow> now \<le> u \<longrightarrow> rd_get rd u k' r2 = rd_get rd u k' r"
    using assms unfolding owner_effect_def by metis
  from assms(2) consider (same) "\<forall>u\<ge>now. rd_get rd u k r2 = rd_get rd u k r1"
    | (own) "rd_get rd now k r1 \<in> {None, Some v}" "\<exists>e\<le>T. \<forall>u\<ge>now. rd_get rd u k r2 = (if u < now + e then Some v else None)"
    unfolding owner_effect_def by blast
  then show ?thesis
  proof cases
    case same
    then show ?thesis using o assms(1) unfolding owner_effect_def by auto
  next
    case own
    then have "rd_get rd now k r \<in> {None, Some v}" using assms(1) unfolding owner_effect_def by auto
    then show ?thesis using own(2) o unfolding owner_effect_def by blast
  qed
qed

lemma owner_effect_keeps:
  assumes "owner_effect rd v k T now r r'" "rd_get rd now k' r = Some w" "k' \<noteq> k \<or> w \<noteq> v" "now \<le> u"
  shows "rd_get rd u k' r' = rd_get rd u k' r"
  using assms unfolding owner_effect_def by (cases "k' = k") auto

lemma owner_effect_bound:
  assumes "owner_effect rd v k T now r r'" "now + T \<le> u" "rd_get rd u k' r = None" "0 \<le> T"
  shows "rd_get rd u k' r' = None"
proof -
  from assms(2,4) have "now \<le> u" by simp
  then show ?thesis using assms unfolding owner_effect_def by (cases "k' = k") auto
qed

lemma redis_mono:
  assumes "redis_ok rd" "t \<le> u"
  shows "rd_get rd u k r = rd_get rd t k r \<or> rd_get rd u k r = None"
proof -
  from assms(1) have "redis_expiry rd" by (simp add: redis_ok_def)
  from this[unfolded redis_expiry_def, rule_format, OF assms(2)] show ?thesis .
qed

lemma setnx_law:
  assumes "redis_ok rd" "millisecond \<le> d"
  shows "fst (rd_setnx rd t k v d r) = (rd_get rd t k r = None)"
    and "t \<le> u \<Longrightarrow> rd_get rd u k (snd (rd_setnx rd t k v d r)) =
      (if rd_get rd t k r \<noteq> None then rd_get rd u k r else if u < t + lease d then Some v else None)"
proof -
  from assms(1) have "redis_setnx rd" by (simp add: redis_ok_def)
  from this[unfolded redis_setnx_def, rule_format, OF assms(2), of t k v r] show "fst (rd_setnx rd t k v d r) = (rd_get rd t k r = None)"
    and "t \<le> u \<Longrightarrow> rd_get rd u k (snd (rd_setnx rd t k v d r)) =
      (if rd_get rd t k r \<noteq> None then rd_get rd u k r else if u < t + lease d then Some v else None)" by simp_all
qed

lemma redis_others:
  assumes "redis_ok rd" "t \<le> u" "k' \<noteq> k"
  shows "rd_get rd u k' (snd (rd_setnx rd t k v d r)) = rd_get rd u k' r"
    and "rd_get rd u k' (snd (rd_del rd t k r)) = rd_get rd u k' r"
    and "rd_get rd u k' (snd (rd_pexpire rd t k ms r)) = rd_get rd u k' r"
proof -
  from assms(1) have "redis_other_keys rd" by (simp add: redis_ok_def)
  from this[unfolded redis_other_keys_def, rule_format, OF assms(2,3)]
  show "rd_get rd u k' (snd (rd_setnx rd t k v d r)) = rd_get rd u k' r"
    and "rd_get rd u k' (snd (rd_del rd t k r)) = rd_get rd u k' r"
    and "rd_get rd u k' (snd (rd_pexpire rd t k ms r)) = rd_get rd u k' r" by blast+
qed

lemma del_law: "redis_ok rd \<Longrightarrow> t \<le> u \<Longrightarrow> rd_get rd u k (snd (rd_del rd t k r)) = None"
  by (simp add: redis_ok_def redis_del_def)

lemma pexpire_law:
  assumes "redis_ok rd"
  shows "fst (rd_pexpire rd t k ms r) = (if rd_get rd t k r = None then 0 else 1)"
    and "t \<le> u \<Longrightarrow> rd_get rd u k (snd (rd_pexpire rd t k ms r)) = (if u < t + ms * millisecond then rd_get rd t k r else None)"
proof -
  from assms have "redis_pexpire rd" by (simp add: redis_ok_def)
  from this[unfolded redis_pexpire_def, rule_format, of t k ms r]
  show "fst (rd_pexpire rd t k ms r) = (if rd_get rd t k r = None then 0 else 1)"
    and "t \<le> u \<Longrightarrow> rd_get rd u k (snd (rd_pexpire rd t k ms r)) = (if u < t + ms * millisecond then rd_get rd t k r else None)" by simp_all
qed

lemma setnx_effect:
  assumes "redis_ok rd" "millisecond \<le> d"
  shows "owner_effect rd v k (lease d) t r (snd (rd_setnx rd t k v d r))"
proof -
  have "rd_get rd t k r = None \<Longrightarrow> \<exists>e\<le>lease d. \<forall>u\<ge>t. rd_get rd u k (snd (rd_setnx rd t k v d r)) = (if u < t + e then Some v else None)"
    by (rule exI[of _ "lease d"]) (simp add: setnx_law(2)[OF assms])
  then show ?thesis unfolding owner_effect_def
    by (cases "rd_get rd t k r") (auto simp: setnx_law(2)[OF assms] redis_others(1)[OF assms(1)])
qed

lemma release_effect:
  assumes "redis_ok rd" "0 \<le> T"
  shows "owner_effect rd v k T t r (snd (releaseScript rd t k v r))"
proof (cases "rd_get rd t k r = Some v")
  case True
  have "\<forall>u\<ge>t. rd_get rd u k (snd (rd_del rd t k r)) = (if u < t + 0 then Some v else None)"
    using del_law[OF assms(1)] by simp
  then show ?thesis unfolding owner_effect_def releaseScript_def
    using True assms(2) redis_others(2)[OF assms(1)] by auto
qed (simp add: releaseScript_def)

lemma renew_effect:
  assumes "redis_ok rd"
  shows "owner_effect rd v k (ms * millisecond) t r (snd (renewScript rd t k v ms r))"
proof (cases "rd_get rd t k r = Some v")
  case True
  have "\<forall>u\<ge>t. rd_get rd u k (snd (rd_pexpire rd t k ms r)) = (if u < t + ms * millisecond then Some v else None)"
    using pexpire_law(2)[OF assms] True by simp
  then show ?thesis unfolding owner_effect_def renewScript_def
    using True redis_others(3)[OF assms] by auto
qed (simp add: renewScript_def)

lemma redis_call_store:
  "snd (redis_call n f r) = r \<or> snd (redis_call n f r) = snd (f r)"
  by (auto simp: redis_call_def split: net.splits)

lemma redis_call_Ok: "redis_call n f r = (Ok a, r') \<Longrightarrow> f r = (a, r')"
  by (auto simp: redis_call_def split: net.splits)

lemma owner_effect_call:
  assumes "owner_effect rd v k T now r (snd (f r))"
  shows "owner_effect rd v k T now r (snd (redis_call n f r))"
  using redis_call_store[of n f r] assms by auto

section \<open>The operations\<close>

lemma lease_nonneg: "0 \<le> d \<Longrightarrow> 0 \<le> lease d"
  by (simp add: lease_def millisecond_def pos_imp_zdiv_nonneg_iff)

lemma TryAcquire_effect:
  assumes "redis_ok rd" "millisecond \<le> ttl"
  shows "owner_effect rd (Owner_String own) (KeyPrefix @ key) (lease ttl) now r (snd (TryAcquire (Some rd) key own ttl now n r))"
proof -
  let ?f = "rd_setnx rd now (KeyPrefix @ key) (Owner_String own) ttl"
  have "snd (TryAcquire (Some rd) key own ttl now n r) = r \<or>
    snd (TryAcquire (Some rd) key own ttl now n r) = snd (redis_call n ?f r)"
    by (auto simp: TryAcquire_def Let_def split: option.splits prod.splits sum.splits)
  then show ?thesis using owner_effect_call[of rd _ _ _ now r ?f n] setnx_effect[OF assms] by auto
qed

lemma TryAcquire_Ok:
  assumes "redis_ok rd" "millisecond \<le> ttl" "TryAcquire (Some rd) key own ttl now n r = (Ok l, r')"
  shows "l = \<lparr>lk_cli = rd, lk_key = KeyPrefix @ key, lk_owner = own, lk_ttl = ttl\<rparr>"
    and "now \<le> u \<Longrightarrow> rd_get rd u (KeyPrefix @ key) r' = (if u < now + lease ttl then Some (Owner_String own) else None)"
proof -
  let ?f = "rd_setnx rd now (KeyPrefix @ key) (Owner_String own) ttl"
  from assms(3) have c: "redis_call n ?f r = (Ok True, r')" and l: "l = \<lparr>lk_cli = rd, lk_key = KeyPrefix @ key, lk_owner = own, lk_ttl = ttl\<rparr>"
    by (auto simp: TryAcquire_def Let_def split: option.splits prod.splits sum.splits if_splits)
  from redis_call_Ok[OF c] have f: "?f r = (True, r')" .
  then have none: "rd_get rd now (KeyPrefix @ key) r = None"
    using setnx_law(1)[OF assms(1,2), of now "KeyPrefix @ key" "Owner_String own" r] by simp
  show "l = \<lparr>lk_cli = rd, lk_key = KeyPrefix @ key, lk_owner = own, lk_ttl = ttl\<rparr>" by (rule l)
  show "now \<le> u \<Longrightarrow> rd_get rd u (KeyPrefix @ key) r' = (if u < now + lease ttl then Some (Owner_String own) else None)"
    using setnx_law(2)[OF assms(1,2), of now u "KeyPrefix @ key" "Owner_String own" r] f none by simp
qed

lemma TryAcquire_free:
  assumes "redis_ok rd" "millisecond \<le> ttl" "key \<noteq> []" "rd_get rd now (KeyPrefix @ key) r = None"
  shows "\<exists>l r'. TryAcquire (Some rd) key own ttl now NetOk r = (Ok l, r')"
proof -
  have "\<not> ttl \<le> 0" using assms(2) by (simp add: millisecond_def)
  then show ?thesis using setnx_law(1)[OF assms(1,2), of now "KeyPrefix @ key" "Owner_String own" r] assms(3,4)
    by (auto simp: TryAcquire_def lock_args_def redis_call_def Let_def)
qed

lemma Renew_effect:
  assumes "redis_ok (lk_cli l)" "0 < ttl"
  shows "owner_effect (lk_cli l) (Owner_String (lk_owner l)) (lk_key l) (lease ttl) now r (snd (snd (Renew (Some l) ttl now n r)))"
proof -
  let ?f = "renewScript (lk_cli l) now (lk_key l) (Owner_String (lk_owner l)) (ttl div millisecond)"
  have "snd (snd (Renew (Some l) ttl now n r)) = snd (redis_call n ?f r)"
    using assms(2) by (auto simp: Renew_def split: prod.splits sum.splits)
  then show ?thesis
    using owner_effect_call[of "lk_cli l" _ _ _ now r ?f n] renew_effect[OF assms(1)] by (simp add: lease_def)
qed

lemma Renew_Ok:
  assumes "redis_ok (lk_cli l)" "Renew (Some l) ttl now n r = (None, lo, r')"
  shows "lo = Some (l\<lparr>lk_ttl := ttl\<rparr>)"
    and "now \<le> u \<Longrightarrow> rd_get (lk_cli l) u (lk_key l) r' = (if u < now + lease ttl then Some (Owner_String (lk_owner l)) else None)"
proof -
  let ?f = "renewScript (lk_cli l) now (lk_key l) (Owner_String (lk_owner l)) (ttl div millisecond)"
  from assms(2) have c: "redis_call n ?f r = (Ok 1, r')" and l: "lo = Some (l\<lparr>lk_ttl := ttl\<rparr>)"
    by (auto simp: Renew_def split: prod.splits sum.splits if_splits)
  from redis_call_Ok[OF c] have f: "?f r = (1, r')" .
  then have own: "rd_get (lk_cli l) now (lk_key l) r = Some (Owner_String (lk_owner l))" and
    p: "r' = snd (rd_pexpire (lk_cli l) now (lk_key l) (ttl div millisecond) r)"
    by (auto simp: renewScript_def split: if_splits)
  show "lo = Some (l\<lparr>lk_ttl := ttl\<rparr>)" by (rule l)
  show "now \<le> u \<Longrightarrow> rd_get (lk_cli l) u (lk_key l) r' = (if u < now + lease ttl then Some (Owner_String (lk_owner l)) else None)"
    using pexpire_law(2)[OF assms(1), of now u] own p by (simp add: lease_def)
qed

lemma Release_effect:
  assumes "redis_ok (lk_cli l)" "0 \<le> T"
  shows "owner_effect (lk_cli l) (Owner_String (lk_owner l)) (lk_key l) T now r (snd (Release (Some l) now n1 n2 r))"
proof -
  let ?f = "releaseScript (lk_cli l) now (lk_key l) (Owner_String (lk_owner l))"
  have e: "snd (redis_call n2 (Exists (lk_cli l) now (lk_key l)) r1) = r1" for r1
    using redis_call_store[of n2 "Exists (lk_cli l) now (lk_key l)" r1] by (auto simp: Exists_def)
  have "snd (Release (Some l) now n1 n2 r) = snd (redis_call n1 ?f r)"
    using e by (auto simp: Release_def split: prod.splits sum.splits) (metis snd_conv)+
  then show ?thesis
    using owner_effect_call[of "lk_cli l" _ _ T now r ?f n1] release_effect[OF assms] by simp
qed

section \<open>Renewing below a millisecond\<close>

text \<open>
  \<^verbatim>\<open>Renew\<close> accepts any positive time to live, but sends it as whole milliseconds: renewing a held
  lock for less than a millisecond reports success and deletes the lock.
\<close>

theorem renew_submillisecond_drops:
  assumes "redis_ok rd" "0 < ttl" "ttl < millisecond"
    and "l = \<lparr>lk_cli = rd, lk_key = KeyPrefix @ key, lk_owner = own, lk_ttl = d\<rparr>"
    and "rd_get rd now (KeyPrefix @ key) r = Some (Owner_String own)"
  shows "\<exists>r'. Renew (Some l) ttl now NetOk r = (None, Some (l\<lparr>lk_ttl := ttl\<rparr>), r') \<and> rd_get rd now (KeyPrefix @ key) r' = None"
proof -
  have z: "ttl div millisecond = 0" using assms(2,3) by simp
  show ?thesis using assms(2,4,5) z pexpire_law(1)[OF assms(1), of now "KeyPrefix @ key" 0 r] pexpire_law(2)[OF assms(1), of now now "KeyPrefix @ key" 0 r]
    by (auto simp: Renew_def redis_call_def renewScript_def)
qed

section \<open>A concrete store\<close>

text \<open>Redis as a finite map from keys to values with the instant of their expiry.\<close>

type_synonym demo_store = "string \<Rightarrow> (string \<times> instant) option"

definition demo_get :: "instant \<Rightarrow> string \<Rightarrow> demo_store \<Rightarrow> string option" where
  "demo_get t k r = (case r k of None \<Rightarrow> None | Some (v, e) \<Rightarrow> if t < e then Some v else None)"

definition demo_redis :: "demo_store redis" where
  "demo_redis = \<lparr>
     rd_get = demo_get,
     rd_setnx = (\<lambda>t k v d r. if demo_get t k r = None then (True, r(k \<mapsto> (v, t + lease d))) else (False, r)),
     rd_del = (\<lambda>t k r. (if demo_get t k r = None then 0 else 1, r(k := None))),
     rd_pexpire = (\<lambda>t k ms r. case demo_get t k r of
        None \<Rightarrow> (0, r) | Some v \<Rightarrow> (1, r(k \<mapsto> (v, t + ms * millisecond))))\<rparr>"

lemma demo_redis_sel [simp]:
  "rd_get demo_redis = demo_get"
  "rd_setnx demo_redis t k v d r = (if demo_get t k r = None then (True, r(k \<mapsto> (v, t + lease d))) else (False, r))"
  "rd_del demo_redis t k r = (if demo_get t k r = None then 0 else 1, r(k := None))"
  "rd_pexpire demo_redis t k ms r = (case demo_get t k r of
     None \<Rightarrow> (0, r) | Some v \<Rightarrow> (1, r(k \<mapsto> (v, t + ms * millisecond))))"
  by (simp_all add: demo_redis_def)

lemma demo_get_upd [simp]:
  "demo_get t k (r(k' \<mapsto> (v, e))) = (if k = k' then (if t < e then Some v else None) else demo_get t k r)"
  "demo_get t k (r(k' := None)) = (if k = k' then None else demo_get t k r)"
  by (simp_all add: demo_get_def)

lemma demo_get_mono: "t \<le> u \<Longrightarrow> demo_get u k r = demo_get t k r \<or> demo_get u k r = None"
  by (auto simp: demo_get_def split: option.splits)

lemma demo_redis_ok: "redis_ok demo_redis"
proof -
  have n: "demo_get t k r = None \<Longrightarrow> t \<le> u \<Longrightarrow> demo_get u k r = None" for t u k r
    using demo_get_mono[of t u k r] by auto
  have "redis_expiry demo_redis" unfolding redis_expiry_def using demo_get_mono by simp
  moreover have "redis_setnx demo_redis" unfolding redis_setnx_def by simp
  moreover have "redis_del demo_redis" unfolding redis_del_def by simp
  moreover have "redis_pexpire demo_redis" unfolding redis_pexpire_def by (auto split: option.splits dest: n)
  moreover have "redis_other_keys demo_redis" unfolding redis_other_keys_def by (auto split: option.splits)
  ultimately show ?thesis by (simp add: redis_ok_def)
qed

definition demo_lock_store :: demo_store where
  "demo_lock_store = [''opskeeper:lock:r'' \<mapsto> (''a'', 10 * second)]"

theorem renew_submillisecond_drops_witness:
  "\<exists>r'. Renew (Some \<lparr>lk_cli = demo_redis, lk_key = KeyPrefix @ ''r'', lk_owner = \<lparr>ow_ID = ''a'', ow_Hostname = []\<rparr>, lk_ttl = second\<rparr>)
      500000 0 NetOk demo_lock_store =
     (None, Some \<lparr>lk_cli = demo_redis, lk_key = KeyPrefix @ ''r'', lk_owner = \<lparr>ow_ID = ''a'', ow_Hostname = []\<rparr>, lk_ttl = 500000\<rparr>, r') \<and>
     rd_get demo_redis 0 (KeyPrefix @ ''r'') r' = None"
proof -
  have g: "rd_get demo_redis 0 (KeyPrefix @ ''r'') demo_lock_store = Some (Owner_String \<lparr>ow_ID = ''a'', ow_Hostname = []\<rparr>)"
    by (simp add: demo_get_def demo_lock_store_def KeyPrefix_def Owner_String_def second_def millisecond_def)
  show ?thesis using renew_submillisecond_drops[OF demo_redis_ok _ _ refl g, of 500000 second] by (simp add: millisecond_def)
qed

end
