(* ===== verification/Lead_Elect.thy ===== *)
theory Lead_Elect
  imports Lead_Lock "HOL-Library.AList"
begin

text \<open>
  Leader election (\<^verbatim>\<open>internal/pkg/leader/manager.go\<close>, \<^verbatim>\<open>elector.go\<close>). Each registered role has one
  election loop per process; its control point, the local variables that outlive a point and the calls it
  makes to the worker and the subscribers are fields of the role's state beside those of the source. The
  loop is cut at the places where it waits: \<open>elect_step\<close> runs it from one wait to the next, for what
  happened there. A cluster is any number of processes over one Redis; \<open>cl_step\<close> interleaves their
  loops, shutdown signals and the passing of time, so that a ticker may fire as late as it likes.
\<close>

section \<open>State\<close>

record Subscribers =
  su_OnBecome :: bool
  su_OnLose :: bool

datatype worker_call = StartCall | CancelCall | StopCall | BecomeCall nat | LoseCall nat

datatype 'r epc = NotRun | AtTop | Sleeping bool instant | Starting "'r Lock" | Leading "'r Lock" | Exited

text \<open>
  \<open>Sleeping held u\<close> is a pause whose timer fires at \<open>u\<close>, after a held lock or after a failure.
  \<open>es_since\<close> is for specification only: the instant at which the store last confirmed the lock. The
  callbacks are arguments of the source; the model keeps whether they are present.
\<close>

record 'r electorState =
  es_start :: bool
  es_stop :: bool
  es_subs :: "Subscribers list"
  es_isLeader :: bool
  es_running :: bool
  es_errStr :: string
  es_pc :: "'r epc"
  es_backoff :: int
  es_since :: instant
  es_calls :: "worker_call list"

record 'r Manager =
  mg_cli :: "'r redis option"
  mg_ttl :: int
  mg_renewInterval :: int
  mg_startTimeout :: int
  mg_instanceID :: string
  mg_owner :: Owner
  mg_roles :: "(string \<times> 'r electorState) list"
  mg_draining :: bool
  mg_quit :: bool
  mg_ctx :: bool

datatype leader_option = WithTTL int | WithRenewInterval int | WithInstanceID string | WithStartTimeout int

fun apply_option :: "leader_option \<Rightarrow> 'r Manager \<Rightarrow> 'r Manager" where
  "apply_option (WithTTL d) m = m\<lparr>mg_ttl := d\<rparr>"
| "apply_option (WithRenewInterval d) m = m\<lparr>mg_renewInterval := d\<rparr>"
| "apply_option (WithInstanceID i) m = m\<lparr>mg_instanceID := i\<rparr>"
| "apply_option (WithStartTimeout d) m = m\<lparr>mg_startTimeout := d\<rparr>"

definition NewManager :: "'r redis option \<Rightarrow> string \<Rightarrow> string \<Rightarrow> string \<Rightarrow> leader_option list \<Rightarrow> 'r Manager" where
  "NewManager cli host uuid1 uuid2 opts = fold apply_option opts
     \<lparr>mg_cli = cli, mg_ttl = 15 * second, mg_renewInterval = 5 * second, mg_startTimeout = 5 * second,
      mg_instanceID = host @ ''-'' @ take 8 uuid1, mg_owner = NewOwner host uuid2, mg_roles = [],
      mg_draining = False, mg_quit = False, mg_ctx = False\<rparr>"

definition new_state :: "bool \<Rightarrow> bool \<Rightarrow> 'r electorState" where
  "new_state start stop = \<lparr>es_start = start, es_stop = stop, es_subs = [], es_isLeader = False, es_running = False,
     es_errStr = [], es_pc = NotRun, es_backoff = second, es_since = 0, es_calls = []\<rparr>"

text \<open>\<open>None\<close> is the panic of a wrong registration.\<close>

definition leader_Register :: "string \<Rightarrow> bool \<Rightarrow> bool \<Rightarrow> 'r Manager \<Rightarrow> 'r Manager option" where
  "leader_Register role start stop m =
    (if \<not> start \<and> \<not> stop then None
     else if map_of (mg_roles m) role \<noteq> None then None
     else Some (m\<lparr>mg_roles := AList.update role (new_state start stop) (mg_roles m)\<rparr>))"

definition Subscribe :: "string \<Rightarrow> Subscribers \<Rightarrow> 'r Manager \<Rightarrow> 'r Manager option" where
  "Subscribe role su m = (case map_of (mg_roles m) role of
     None \<Rightarrow> None
   | Some es \<Rightarrow> Some (m\<lparr>mg_roles := AList.update role (es\<lparr>es_subs := es_subs es @ [su]\<rparr>) (mg_roles m)\<rparr>))"

definition IsLeaderAny :: "'r Manager \<Rightarrow> bool" where
  "IsLeaderAny m = list_ex (\<lambda>(role, es). es_isLeader es) (mg_roles m)"

definition IsLeader :: "string \<Rightarrow> 'r Manager \<Rightarrow> bool" where
  "IsLeader role m = (case map_of (mg_roles m) role of None \<Rightarrow> False | Some es \<Rightarrow> es_isLeader es)"

definition WorkersRunning :: "'r Manager \<Rightarrow> (string \<times> bool) list" where
  "WorkersRunning m = map (\<lambda>(role, es). (role, es_running es)) (mg_roles m)"

definition MarkDraining :: "'r Manager \<Rightarrow> 'r Manager" where
  "MarkDraining m = m\<lparr>mg_draining := True\<rparr>"

definition leader_Run :: "'r Manager \<Rightarrow> 'r Manager" where
  "leader_Run m = m\<lparr>mg_roles := map (\<lambda>(role, es). (role, es\<lparr>es_pc := AtTop\<rparr>)) (mg_roles m)\<rparr>"

text \<open>\<^verbatim>\<open>Close\<close> signals and then waits for every loop; \<open>Close_returns\<close> is the end of that wait.\<close>

definition Close :: "'r Manager \<Rightarrow> 'r Manager" where
  "Close m = MarkDraining (m\<lparr>mg_quit := True\<rparr>)"

definition Close_returns :: "'r Manager \<Rightarrow> bool" where
  "Close_returns m = list_all (\<lambda>(role, es). es_pc es = NotRun \<or> es_pc es = Exited) (mg_roles m)"

datatype resign_error = ResignTimeout | ResignCtx string

text \<open>
  The polling loop of \<^verbatim>\<open>ResignAll\<close>: one entry is one round, with the answer of \<open>IsLeaderAny\<close>, the
  instant of the deadline test and the error of the context during the pause of 100 ms; \<open>None\<close> is a
  call still waiting.
\<close>

fun waitForLeaderExit :: "instant \<Rightarrow> (bool \<times> instant \<times> string option) list \<Rightarrow> resign_error option option" where
  "waitForLeaderExit deadline [] = None"
| "waitForLeaderExit deadline ((leader, now, ctx) # polls) =
    (if \<not> leader then Some None
     else if deadline < now then Some (Some ResignTimeout)
     else (case ctx of Some e \<Rightarrow> Some (Some (ResignCtx e)) | None \<Rightarrow> waitForLeaderExit deadline polls))"

definition ResignAll :: "instant \<Rightarrow> instant option \<Rightarrow> (bool \<times> instant \<times> string option) list \<Rightarrow> 'r Manager \<Rightarrow> resign_error option option \<times> 'r Manager" where
  "ResignAll now ctxDeadline polls m =
    (let d = now + 30 * second;
         deadline = (case ctxDeadline of Some c \<Rightarrow> if c < d then c else d | None \<Rightarrow> d)
     in (waitForLeaderExit deadline polls, MarkDraining m))"

section \<open>The election loop\<close>

definition maxBackoff :: int where "maxBackoff = 30 * second"

definition redis_error_text :: "redis_error \<Rightarrow> string" where
  "redis_error_text e = (case e of RCanceled \<Rightarrow> ''context canceled''
     | RDeadlineExceeded \<Rightarrow> ''context deadline exceeded'' | ROther m \<Rightarrow> m)"

definition lock_Error :: "lock_error \<Rightarrow> string" where
  "lock_Error e = (case e of
     ErrLockHeld \<Rightarrow> ''redislock: lock is held by another owner''
   | ErrNotOwner \<Rightarrow> ''redislock: caller is not the owner''
   | ErrLockUnavailable m \<Rightarrow> ''redislock: redis unavailable: '' @ m
   | CtxError c \<Rightarrow> redis_error_text c
   | LockArgument m \<Rightarrow> m)"

definition notifyBecome :: "Subscribers list \<Rightarrow> worker_call list" where
  "notifyBecome subs = map BecomeCall (filter (\<lambda>i. su_OnBecome (subs ! i)) [0..<length subs])"

definition notifyLose :: "Subscribers list \<Rightarrow> worker_call list" where
  "notifyLose subs = map LoseCall (filter (\<lambda>i. su_OnLose (subs ! i)) [0..<length subs])"

text \<open>The head of the loop: the exit tests and one attempt.\<close>

definition elect_top :: "'r Manager \<Rightarrow> instant \<Rightarrow> string \<Rightarrow> net \<Rightarrow> 'r electorState \<Rightarrow> 'r \<Rightarrow> 'r electorState \<times> 'r" where
  "elect_top m now role n es r =
    (if mg_quit m \<or> mg_ctx m \<or> mg_draining m then (es\<lparr>es_pc := Exited\<rparr>, r)
     else (case TryAcquire (mg_cli m) role (mg_owner m) (mg_ttl m) now n r of
         (Err e, r1) \<Rightarrow>
           (if e = ErrLockHeld then (es\<lparr>es_pc := Sleeping True (now + es_backoff es)\<rparr>, r1)
            else (es\<lparr>es_errStr := lock_Error e, es_pc := Sleeping False (now + es_backoff es)\<rparr>, r1))
       | (Ok l, r1) \<Rightarrow>
           (es\<lparr>es_backoff := second, es_calls := es_calls es @ (if es_start es then [StartCall] else []),
               es_pc := Starting l, es_since := now\<rparr>, r1)))"

definition elect_wake :: "bool \<Rightarrow> 'r electorState \<Rightarrow> 'r electorState" where
  "elect_wake held es = es\<lparr>es_pc := AtTop, es_backoff :=
     (if held \<and> es_backoff es < maxBackoff
      then (if maxBackoff < es_backoff es * 2 then maxBackoff else es_backoff es * 2) else es_backoff es)\<rparr>"

definition elect_started :: "instant \<Rightarrow> string option \<Rightarrow> net \<Rightarrow> net \<Rightarrow> 'r Lock \<Rightarrow> 'r electorState \<Rightarrow> 'r \<Rightarrow> 'r electorState \<times> 'r" where
  "elect_started now startErr n1 n2 l es r = (case startErr of
     Some e \<Rightarrow> (es\<lparr>es_errStr := e, es_isLeader := False, es_running := False,
         es_calls := es_calls es @ [CancelCall], es_pc := Sleeping False (now + es_backoff es)\<rparr>, snd (Release (Some l) now n1 n2 r))
   | None \<Rightarrow> (es\<lparr>es_errStr := [], es_isLeader := True, es_running := True,
         es_calls := es_calls es @ notifyBecome (es_subs es), es_pc := Leading l\<rparr>, r))"

text \<open>What follows the renewal loop, which returns whether the lock was lost.\<close>

definition elect_end :: "instant \<Rightarrow> bool \<Rightarrow> 'r electorState \<Rightarrow> 'r electorState" where
  "elect_end now lost es = es\<lparr>es_isLeader := False, es_running := False,
     es_calls := es_calls es @ [CancelCall] @ (if es_stop es then [StopCall] else []) @ notifyLose (es_subs es),
     es_pc := (if lost then Sleeping False (now + es_backoff es) else Exited)\<rparr>"

definition renew_tick :: "'r Manager \<Rightarrow> instant \<Rightarrow> net \<Rightarrow> net \<Rightarrow> net \<Rightarrow> 'r Lock \<Rightarrow> 'r electorState \<Rightarrow> 'r \<Rightarrow> 'r electorState \<times> 'r" where
  "renew_tick m now n n1 n2 l es r = (case Renew (Some l) (mg_ttl m) now n r of
     (Some e, lo, r1) \<Rightarrow> (elect_end now True es, r1)
   | (None, lo, r1) \<Rightarrow>
       if mg_draining m then (elect_end now False es, snd (Release lo now n1 n2 r1))
       else (es\<lparr>es_pc := Leading (the lo), es_since := now\<rparr>, r1))"

definition renew_resign :: "instant \<Rightarrow> net \<Rightarrow> net \<Rightarrow> 'r Lock \<Rightarrow> 'r electorState \<Rightarrow> 'r \<Rightarrow> 'r electorState \<times> 'r" where
  "renew_resign now n1 n2 l es r = (elect_end now False es, snd (Release (Some l) now n1 n2 r))"

datatype elect_event =
    EvAttempt net
  | EvWake
  | EvCtxDone
  | EvStarted "string option" net net
  | EvStartTimeout
  | EvTicker net net net
  | EvResign net net

definition elect_step :: "'r Manager \<Rightarrow> instant \<Rightarrow> string \<Rightarrow> elect_event \<Rightarrow> 'r electorState \<Rightarrow> 'r \<Rightarrow> ('r electorState \<times> 'r) option" where
  "elect_step m now role ev es r = (case es_pc es of
     AtTop \<Rightarrow> (case ev of EvAttempt n \<Rightarrow> Some (elect_top m now role n es r) | _ \<Rightarrow> None)
   | Sleeping held u \<Rightarrow> (case ev of
         EvWake \<Rightarrow> if u \<le> now then Some (elect_wake held es, r) else None
       | EvCtxDone \<Rightarrow> if mg_ctx m then Some (es\<lparr>es_pc := Exited\<rparr>, r) else None
       | _ \<Rightarrow> None)
   | Starting l \<Rightarrow> (case ev of
         EvStarted e n1 n2 \<Rightarrow> if e \<noteq> None \<and> \<not> es_start es then None else Some (elect_started now e n1 n2 l es r)
       | EvStartTimeout \<Rightarrow> Some (elect_started now None NetOk NetOk l es r)
       | _ \<Rightarrow> None)
   | Leading l \<Rightarrow> (case ev of
         EvTicker n n1 n2 \<Rightarrow> Some (renew_tick m now n n1 n2 l es r)
       | EvResign n1 n2 \<Rightarrow> if mg_quit m \<or> mg_ctx m then Some (renew_resign now n1 n2 l es r) else None
       | _ \<Rightarrow> None)
   | _ \<Rightarrow> None)"

section \<open>The cluster\<close>

record 'r cluster =
  cl_clock :: instant
  cl_store :: 'r
  cl_mgrs :: "'r Manager list"

definition put_role :: "string \<Rightarrow> 'r electorState \<Rightarrow> 'r Manager \<Rightarrow> 'r Manager" where
  "put_role role es m = m\<lparr>mg_roles := AList.update role es (mg_roles m)\<rparr>"

definition role_at :: "'r cluster \<Rightarrow> nat \<Rightarrow> string \<Rightarrow> 'r electorState option" where
  "role_at s i role = (if i < length (cl_mgrs s) then map_of (mg_roles (cl_mgrs s ! i)) role else None)"

inductive cl_step :: "'r cluster \<Rightarrow> 'r cluster \<Rightarrow> bool" where
  Pass: "0 \<le> d \<Longrightarrow> cl_step s (s\<lparr>cl_clock := cl_clock s + d\<rparr>)"
| Elect: "role_at s i role = Some es \<Longrightarrow>
    elect_step (cl_mgrs s ! i) (cl_clock s) role ev es (cl_store s) = Some (es', r') \<Longrightarrow>
    cl_step s (s\<lparr>cl_store := r', cl_mgrs := (cl_mgrs s)[i := put_role role es' (cl_mgrs s ! i)]\<rparr>)"
| Drain: "i < length (cl_mgrs s) \<Longrightarrow> cl_step s (s\<lparr>cl_mgrs := (cl_mgrs s)[i := MarkDraining (cl_mgrs s ! i)]\<rparr>)"
| Shut: "i < length (cl_mgrs s) \<Longrightarrow> cl_step s (s\<lparr>cl_mgrs := (cl_mgrs s)[i := Close (cl_mgrs s ! i)]\<rparr>)"
| Cancel: "i < length (cl_mgrs s) \<Longrightarrow> cl_step s (s\<lparr>cl_mgrs := (cl_mgrs s)[i := (cl_mgrs s ! i)\<lparr>mg_ctx := True\<rparr>]\<rparr>)"

section \<open>Leases\<close>

text \<open>
  A process that holds a lock is within its lease while less than the time to live has passed since the
  store last confirmed it. The invariant of one role of one process: its lock is its own, and during the
  lease the store shows its name. The flags agree with the control point, and no timer is set further than
  the longest pause ahead.
\<close>

definition held_lock :: "'r electorState \<Rightarrow> 'r Lock option" where
  "held_lock es = (case es_pc es of Starting l \<Rightarrow> Some l | Leading l \<Rightarrow> Some l | _ \<Rightarrow> None)"

definition in_lease :: "'r Manager \<Rightarrow> instant \<Rightarrow> 'r electorState \<Rightarrow> bool" where
  "in_lease m now es \<longleftrightarrow> held_lock es \<noteq> None \<and> now < es_since es + lease (mg_ttl m)"

definition lease_ok :: "'r redis \<Rightarrow> 'r Manager \<Rightarrow> string \<Rightarrow> instant \<Rightarrow> 'r \<Rightarrow> 'r electorState \<Rightarrow> bool" where
  "lease_ok rd m role now r es \<longleftrightarrow> (\<forall>l. held_lock es = Some l \<longrightarrow>
     l = \<lparr>lk_cli = rd, lk_key = KeyPrefix @ role, lk_owner = mg_owner m, lk_ttl = mg_ttl m\<rparr> \<and>
     (\<forall>u. now \<le> u \<longrightarrow> u < es_since es + lease (mg_ttl m) \<longrightarrow>
        rd_get rd u (KeyPrefix @ role) r = Some (Owner_String (mg_owner m))))"

definition flags_ok :: "instant \<Rightarrow> 'r electorState \<Rightarrow> bool" where
  "flags_ok now es \<longleftrightarrow> es_isLeader es = (\<exists>l. es_pc es = Leading l) \<and> es_running es = es_isLeader es \<and>
     second \<le> es_backoff es \<and> es_backoff es \<le> maxBackoff \<and> (\<forall>held u. es_pc es = Sleeping held u \<longrightarrow> u \<le> now + maxBackoff)"

definition mgr_ok :: "'r redis \<Rightarrow> int \<Rightarrow> 'r Manager \<Rightarrow> bool" where
  "mgr_ok rd T m \<longleftrightarrow> mg_cli m = Some rd \<and> millisecond \<le> mg_ttl m \<and> lease (mg_ttl m) \<le> T"

lemma mgr_ok_T: "mgr_ok rd T m \<Longrightarrow> 0 \<le> T \<and> 0 < mg_ttl m"
  using lease_nonneg[of "mg_ttl m"] by (auto simp: mgr_ok_def millisecond_def)

lemma held_lock_pc [simp]:
  "es_pc es = Starting l \<Longrightarrow> held_lock es = Some l"
  "es_pc es = Leading l \<Longrightarrow> held_lock es = Some l"
  "es_pc es = Sleeping b u \<Longrightarrow> held_lock es = None"
  "es_pc es = AtTop \<Longrightarrow> held_lock es = None"
  "es_pc es = Exited \<Longrightarrow> held_lock es = None"
  "es_pc es = NotRun \<Longrightarrow> held_lock es = None"
  by (simp_all add: held_lock_def)

lemma elect_end_held [simp]: "held_lock (elect_end now lost es) = None"
  by (simp add: elect_end_def held_lock_def)

lemma lease_ok_none [simp]: "held_lock es = None \<Longrightarrow> lease_ok rd m role now r es"
  by (simp add: lease_ok_def)

lemma lease_ok_lock:
  assumes "lease_ok rd m role now r es" "held_lock es = Some l"
  shows "l = \<lparr>lk_cli = rd, lk_key = KeyPrefix @ role, lk_owner = mg_owner m, lk_ttl = mg_ttl m\<rparr>"
  using assms unfolding lease_ok_def by blast

text \<open>The effect of a step on the store is that of its owner on its key, and it keeps the lease of its role.\<close>

definition fair_step :: "'r redis \<Rightarrow> int \<Rightarrow> 'r Manager \<Rightarrow> string \<Rightarrow> instant \<Rightarrow> 'r \<Rightarrow> 'r electorState \<times> 'r \<Rightarrow> bool" where
  "fair_step rd T m role now r x \<longleftrightarrow>
     owner_effect rd (Owner_String (mg_owner m)) (KeyPrefix @ role) T now r (snd x) \<and> lease_ok rd m role now (snd x) (fst x)"

lemma release_fair:
  assumes "redis_ok rd" "mgr_ok rd T m" "lk_cli l = rd" "lk_key l = KeyPrefix @ role" "lk_owner l = mg_owner m"
  shows "owner_effect rd (Owner_String (mg_owner m)) (KeyPrefix @ role) T now r (snd (Release (Some l) now n1 n2 r))"
  using Release_effect[of l T now r n1 n2] assms mgr_ok_T[OF assms(2)] by simp

lemma elect_top_fair:
  assumes "redis_ok rd" "mgr_ok rd T m" "lease_ok rd m role now r es" "es_pc es = AtTop"
  shows "fair_step rd T m role now r (elect_top m now role n es r)"
proof -
  from assms(2) have c: "mg_cli m = Some rd" and t: "millisecond \<le> mg_ttl m" and T: "lease (mg_ttl m) \<le> T"
    by (auto simp: mgr_ok_def)
  obtain res r1 where tr: "TryAcquire (Some rd) role (mg_owner m) (mg_ttl m) now n r = (res, r1)" by fastforce
  have e: "owner_effect rd (Owner_String (mg_owner m)) (KeyPrefix @ role) T now r r1"
    using owner_effect_mono[OF TryAcquire_effect[OF assms(1) t, of "mg_owner m" role now r n] T] tr by simp
  show ?thesis
  proof (cases res)
    case (Inl a)
    then show ?thesis using e tr c by (simp add: fair_step_def elect_top_def)
  next
    case (Inr l)
    note ok = TryAcquire_Ok[OF assms(1) t tr[unfolded Inr]]
    have "lease_ok rd m role now r1 (es\<lparr>es_backoff := second, es_calls := c', es_pc := Starting l, es_since := now\<rparr>)" for c'
      unfolding lease_ok_def using ok by (simp add: held_lock_def)
    then show ?thesis using e tr c Inr by (simp add: fair_step_def elect_top_def)
  qed
qed

lemma elect_started_fair:
  assumes "redis_ok rd" "mgr_ok rd T m" "lease_ok rd m role now r es" "es_pc es = Starting l"
  shows "fair_step rd T m role now r (elect_started now e n1 n2 l es r)"
proof (cases e)
  case None
  have "lease_ok rd m role now r (es\<lparr>es_errStr := [], es_isLeader := True, es_running := True,
         es_calls := c, es_pc := Leading l\<rparr>)" for c
    using assms(3,4) by (simp add: lease_ok_def held_lock_def)
  then show ?thesis using None by (simp add: fair_step_def elect_started_def)
next
  case (Some a)
  have l: "l = \<lparr>lk_cli = rd, lk_key = KeyPrefix @ role, lk_owner = mg_owner m, lk_ttl = mg_ttl m\<rparr>"
    using lease_ok_lock[OF assms(3)] assms(4) by simp
  then show ?thesis using Some release_fair[OF assms(1,2), of l role now r n1 n2]
    by (simp add: fair_step_def elect_started_def held_lock_def)
qed

lemma renew_tick_fair:
  assumes "redis_ok rd" "mgr_ok rd T m" "lease_ok rd m role now r es" "es_pc es = Leading l"
  shows "fair_step rd T m role now r (renew_tick m now n n1 n2 l es r)"
proof -
  have l: "l = \<lparr>lk_cli = rd, lk_key = KeyPrefix @ role, lk_owner = mg_owner m, lk_ttl = mg_ttl m\<rparr>"
    using lease_ok_lock[OF assms(3)] assms(4) by simp
  obtain e lo r1 where rn: "Renew (Some l) (mg_ttl m) now n r = (e, lo, r1)" by (metis prod_cases3)
  have T: "lease (mg_ttl m) \<le> T" using assms(2) by (simp add: mgr_ok_def)
  have cli: "redis_ok (lk_cli l)" using assms(1) l by simp
  have "owner_effect (lk_cli l) (Owner_String (lk_owner l)) (lk_key l) (lease (mg_ttl m)) now r r1"
    using Renew_effect[OF cli, of "mg_ttl m" now r n] mgr_ok_T[OF assms(2)] rn by simp
  then have eff: "owner_effect rd (Owner_String (mg_owner m)) (KeyPrefix @ role) T now r r1"
    using owner_effect_mono[OF _ T] l by simp
  show ?thesis
  proof (cases e)
    case (Some a)
    then show ?thesis using rn eff by (simp add: fair_step_def renew_tick_def)
  next
    case None
    note ok = Renew_Ok[OF cli rn[unfolded None]]
    have lo: "lo = Some l" using ok(1) l by simp
    show ?thesis
    proof (cases "mg_draining m")
      case True
      have "owner_effect rd (Owner_String (mg_owner m)) (KeyPrefix @ role) T now r1 (snd (Release (Some l) now n1 n2 r1))"
        by (rule release_fair[OF assms(1,2)]) (simp_all add: l)
      then show ?thesis using rn None True lo owner_effect_trans[OF eff] by (simp add: fair_step_def renew_tick_def)
    next
      case False
      have "lease_ok rd m role now r1 (es\<lparr>es_pc := Leading l, es_since := now\<rparr>)"
        unfolding lease_ok_def using ok(2) l by (simp add: held_lock_def)
      then show ?thesis using rn None False lo eff by (simp add: fair_step_def renew_tick_def)
    qed
  qed
qed

lemma renew_resign_fair:
  assumes "redis_ok rd" "mgr_ok rd T m" "lease_ok rd m role now r es" "es_pc es = Leading l"
  shows "fair_step rd T m role now r (renew_resign now n1 n2 l es r)"
proof -
  have "l = \<lparr>lk_cli = rd, lk_key = KeyPrefix @ role, lk_owner = mg_owner m, lk_ttl = mg_ttl m\<rparr>"
    using lease_ok_lock[OF assms(3)] assms(4) by simp
  then show ?thesis using release_fair[OF assms(1,2), of l role now r n1 n2] by (simp add: fair_step_def renew_resign_def)
qed

lemmas loop_fair = elect_top_fair elect_started_fair renew_tick_fair renew_resign_fair

lemma elect_step_fair:
  assumes "redis_ok rd" "mgr_ok rd T m" "lease_ok rd m role now r es" "elect_step m now role ev es r = Some x"
  shows "fair_step rd T m role now r x"
  using assms(4) loop_fair[OF assms(1-3)]
  by (auto simp: elect_step_def split: epc.splits elect_event.splits if_splits)
     (auto simp: fair_step_def elect_wake_def lease_ok_def held_lock_def)

lemma elect_step_flags:
  assumes "flags_ok now es" "elect_step m now role ev es r = Some (es', r')"
  shows "flags_ok now es'"
proof -
  have b: "second \<le> maxBackoff" "0 < second" by (simp_all add: maxBackoff_def second_def millisecond_def)
  show ?thesis using assms b
    by (auto simp: elect_step_def elect_top_def elect_wake_def elect_started_def renew_tick_def renew_resign_def elect_end_def
        flags_ok_def Let_def split: epc.splits elect_event.splits if_splits prod.splits sum.splits option.splits)
qed

section \<open>The invariant of the cluster\<close>

definition cl_inv :: "'r redis \<Rightarrow> int \<Rightarrow> 'r cluster \<Rightarrow> bool" where
  "cl_inv rd T s \<longleftrightarrow> list_all (mgr_ok rd T) (cl_mgrs s) \<and> distinct (map (Owner_String \<circ> mg_owner) (cl_mgrs s)) \<and>
     (\<forall>i role es. role_at s i role = Some es \<longrightarrow>
        lease_ok rd (cl_mgrs s ! i) role (cl_clock s) (cl_store s) es \<and> flags_ok (cl_clock s) es) \<and>
     (\<forall>role u. cl_clock s + T \<le> u \<longrightarrow> rd_get rd u (KeyPrefix @ role) (cl_store s) = None)"

text \<open>A fresh cluster: no loop holds a lock, the lock keys in the store outlive no time to live.\<close>

definition cl_init :: "'r redis \<Rightarrow> int \<Rightarrow> 'r cluster \<Rightarrow> bool" where
  "cl_init rd T s \<longleftrightarrow> list_all (mgr_ok rd T) (cl_mgrs s) \<and> distinct (map (Owner_String \<circ> mg_owner) (cl_mgrs s)) \<and>
     (\<forall>i role es. role_at s i role = Some es \<longrightarrow> (es_pc es = AtTop \<or> es_pc es = NotRun) \<and> flags_ok (cl_clock s) es) \<and>
     (\<forall>role u. cl_clock s + T \<le> u \<longrightarrow> rd_get rd u (KeyPrefix @ role) (cl_store s) = None)"

lemma cl_init_inv: "cl_init rd T s \<Longrightarrow> cl_inv rd T s"
  unfolding cl_init_def cl_inv_def by (metis held_lock_pc(4,6) lease_ok_none)

lemma cl_invD:
  assumes "cl_inv rd T s" "role_at s i role = Some es"
  shows "i < length (cl_mgrs s)" "mgr_ok rd T (cl_mgrs s ! i)"
    "lease_ok rd (cl_mgrs s ! i) role (cl_clock s) (cl_store s) es" "flags_ok (cl_clock s) es"
  using assms by (auto simp: cl_inv_def role_at_def list_all_length split: if_splits)

lemma owners_differ:
  assumes "cl_inv rd T s" "i < length (cl_mgrs s)" "j < length (cl_mgrs s)" "i \<noteq> j"
  shows "Owner_String (mg_owner (cl_mgrs s ! i)) \<noteq> Owner_String (mg_owner (cl_mgrs s ! j))"
  using assms unfolding cl_inv_def by (auto simp: distinct_conv_nth)

lemma lease_ok_later:
  assumes "lease_ok rd m role now r es" "now \<le> now'"
  shows "lease_ok rd m role now' r es"
  using assms unfolding lease_ok_def by auto

lemma lease_ok_cong:
  assumes "mg_owner m' = mg_owner m" "mg_ttl m' = mg_ttl m"
  shows "lease_ok rd m' role now r es = lease_ok rd m role now r es"
  using assms by (simp add: lease_ok_def)

text \<open>Another owner's step leaves a lease alone.\<close>

lemma lease_ok_other:
  assumes "lease_ok rd m role now r es" "owner_effect rd v k T now r r'"
    and "KeyPrefix @ role \<noteq> k \<or> Owner_String (mg_owner m) \<noteq> v"
  shows "lease_ok rd m role now r' es"
proof -
  have "rd_get rd u (KeyPrefix @ role) r' = Some (Owner_String (mg_owner m))"
    if h: "held_lock es = Some l" and u: "now \<le> u" "u < es_since es + lease (mg_ttl m)" for l u
  proof -
    from assms(1) h have *: "rd_get rd w (KeyPrefix @ role) r = Some (Owner_String (mg_owner m))"
      if "now \<le> w" "w < es_since es + lease (mg_ttl m)" for w using that unfolding lease_ok_def by blast
    from *[of now] u have "rd_get rd now (KeyPrefix @ role) r = Some (Owner_String (mg_owner m))" by simp
    from owner_effect_keeps[OF assms(2) this assms(3) u(1)] show ?thesis using *[OF u] by simp
  qed
  then show ?thesis using assms(1) unfolding lease_ok_def by blast
qed

lemma role_at_put:
  assumes "i < length (cl_mgrs s)"
  shows "role_at (s\<lparr>cl_store := r', cl_mgrs := (cl_mgrs s)[i := put_role role es' (cl_mgrs s ! i)]\<rparr>) j role' =
    (if j = i \<and> role' = role then Some es' else role_at s j role')"
  using assms by (auto simp: role_at_def put_role_def update_conv' nth_list_update)

lemma mgr_fields_put:
  assumes "i < length (cl_mgrs s)"
  shows "mg_owner ((cl_mgrs s)[i := put_role role es' (cl_mgrs s ! i)] ! j) = mg_owner (cl_mgrs s ! j)"
    and "mg_ttl ((cl_mgrs s)[i := put_role role es' (cl_mgrs s ! i)] ! j) = mg_ttl (cl_mgrs s ! j)"
  using assms by (cases "j = i"; simp add: put_role_def)+

lemma map_owner_put:
  assumes "i < length ms" "mg_owner m = mg_owner (ms ! i)"
  shows "map (Owner_String \<circ> mg_owner) (ms[i := m]) = map (Owner_String \<circ> mg_owner) ms"
  using assms by (auto simp: map_update intro!: nth_equalityI simp: nth_list_update)

lemma mgr_ok_put:
  assumes "list_all (mgr_ok rd T) ms" "i < length ms" "mg_cli m = mg_cli (ms ! i)" "mg_ttl m = mg_ttl (ms ! i)"
  shows "list_all (mgr_ok rd T) (ms[i := m])"
  using assms by (auto simp: list_all_length nth_list_update mgr_ok_def)

lemma cl_inv_elect:
  assumes "redis_ok rd" "cl_inv rd T s" "role_at s i role = Some es"
    and st: "elect_step (cl_mgrs s ! i) (cl_clock s) role ev es (cl_store s) = Some (es', r')"
  shows "cl_inv rd T (s\<lparr>cl_store := r', cl_mgrs := (cl_mgrs s)[i := put_role role es' (cl_mgrs s ! i)]\<rparr>)"
proof -
  note d = cl_invD[OF assms(2,3)]
  from elect_step_fair[OF assms(1) d(2,3) st]
  have eff: "owner_effect rd (Owner_String (mg_owner (cl_mgrs s ! i))) (KeyPrefix @ role) T (cl_clock s) (cl_store s) r'"
    and own: "lease_ok rd (cl_mgrs s ! i) role (cl_clock s) r' es'" by (auto simp: fair_step_def)
  have others: "lease_ok rd (cl_mgrs s ! j) role' (cl_clock s) r' es2 \<and> flags_ok (cl_clock s) es2"
    if "role_at s j role' = Some es2" "\<not> (j = i \<and> role' = role)" for j role' es2
  proof -
    note d2 = cl_invD[OF assms(2) that(1)]
    have "KeyPrefix @ role' \<noteq> KeyPrefix @ role \<or> Owner_String (mg_owner (cl_mgrs s ! j)) \<noteq> Owner_String (mg_owner (cl_mgrs s ! i))"
      using owners_differ[OF assms(2) d2(1) d(1)] that(2) by auto
    with lease_ok_other[OF d2(3) eff] d2(4) show ?thesis by blast
  qed
  have bnd: "rd_get rd u (KeyPrefix @ role') r' = None" if "cl_clock s + T \<le> u" for role' u
    using owner_effect_bound[OF eff that] assms(2) that mgr_ok_T[OF d(2)] by (simp add: cl_inv_def)
  let ?m = "put_role role es' (cl_mgrs s ! i)"
  let ?s = "s\<lparr>cl_store := r', cl_mgrs := (cl_mgrs s)[i := ?m]\<rparr>"
  have "lease_ok rd (cl_mgrs ?s ! j) role' (cl_clock ?s) (cl_store ?s) es2 \<and> flags_ok (cl_clock ?s) es2"
    if "role_at ?s j role' = Some es2" for j role' es2
    using that others own elect_step_flags[OF d(4) st]
    by (simp add: role_at_put[OF d(1)] lease_ok_cong[OF mgr_fields_put[OF d(1)]] split: if_splits)
  moreover have "list_all (mgr_ok rd T) (cl_mgrs ?s) \<and> distinct (map (Owner_String \<circ> mg_owner) (cl_mgrs ?s))"
    using assms(2) mgr_ok_put[OF _ d(1), of rd T ?m] map_owner_put[OF d(1), of ?m] by (simp add: cl_inv_def put_role_def)
  ultimately show ?thesis using bnd unfolding cl_inv_def by simp
qed

lemma cl_inv_flag:
  assumes "cl_inv rd T s" "i < length (cl_mgrs s)"
    and "mg_roles m = mg_roles (cl_mgrs s ! i)" "mg_owner m = mg_owner (cl_mgrs s ! i)"
    and "mg_ttl m = mg_ttl (cl_mgrs s ! i)" "mg_cli m = mg_cli (cl_mgrs s ! i)"
  shows "cl_inv rd T (s\<lparr>cl_mgrs := (cl_mgrs s)[i := m]\<rparr>)"
proof -
  have r: "role_at (s\<lparr>cl_mgrs := (cl_mgrs s)[i := m]\<rparr>) j role = role_at s j role" for j role
    using assms(2,3) by (auto simp: role_at_def nth_list_update)
  have f: "mg_owner ((cl_mgrs s)[i := m] ! j) = mg_owner (cl_mgrs s ! j)" "mg_ttl ((cl_mgrs s)[i := m] ! j) = mg_ttl (cl_mgrs s ! j)" for j
    using assms(2,4,5) by (cases "j = i"; simp)+
  show ?thesis using assms(1) unfolding cl_inv_def
    by (simp add: r lease_ok_cong[OF f] map_owner_put[OF assms(2,4)] mgr_ok_put[OF _ assms(2,6,5)])
qed

lemma cl_inv_pass:
  assumes "cl_inv rd T s" "0 \<le> d"
  shows "cl_inv rd T (s\<lparr>cl_clock := cl_clock s + d\<rparr>)"
proof -
  have "role_at (s\<lparr>cl_clock := cl_clock s + d\<rparr>) j role = role_at s j role" for j role by (simp add: role_at_def)
  moreover have "lease_ok rd m role (cl_clock s + d) r es" if "lease_ok rd m role (cl_clock s) r es" for m role r es
    using lease_ok_later[OF that] assms(2) by simp
  moreover have "flags_ok (cl_clock s + d) es" if "flags_ok (cl_clock s) es" for es :: "'a electorState"
    using that assms(2) unfolding flags_ok_def by force
  ultimately show ?thesis using assms unfolding cl_inv_def by auto
qed

lemma cl_inv_step:
  assumes "redis_ok rd" "cl_step s s'" "cl_inv rd T s"
  shows "cl_inv rd T s'"
  using assms(2,3)
proof (induction rule: cl_step.induct)
  case (Elect s i role es ev es' r')
  show ?case by (rule cl_inv_elect[OF assms(1) Elect.prems Elect.hyps])
qed (auto intro: cl_inv_pass cl_inv_flag simp: MarkDraining_def Close_def)

lemma cl_inv_reach:
  assumes "redis_ok rd" "cl_step\<^sup>*\<^sup>* s0 s" "cl_init rd T s0"
  shows "cl_inv rd T s"
  using assms(2) by (induction rule: rtranclp_induct) (auto intro: cl_init_inv[OF assms(3)] cl_inv_step[OF assms(1)])

section \<open>Exclusion\<close>

text \<open>
  C3. In every reachable state of a cluster, however its processes, signals, lost replies and delays
  interleave, a process within its lease for a role is the one whose name the store shows, and no other
  process is within its lease for that role.
\<close>

theorem leader_lease_exclusive:
  assumes "redis_ok rd" "cl_init rd T s0" "cl_step\<^sup>*\<^sup>* s0 s"
    and "role_at s i role = Some es" "in_lease (cl_mgrs s ! i) (cl_clock s) es"
  shows "rd_get rd (cl_clock s) (KeyPrefix @ role) (cl_store s) = Some (Owner_String (mg_owner (cl_mgrs s ! i))) \<and>
    (\<forall>j es2. role_at s j role = Some es2 \<longrightarrow> in_lease (cl_mgrs s ! j) (cl_clock s) es2 \<longrightarrow> j = i)"
proof -
  have inv: "cl_inv rd T s" by (rule cl_inv_reach[OF assms(1,3,2)])
  have own: "rd_get rd (cl_clock s) (KeyPrefix @ role) (cl_store s) = Some (Owner_String (mg_owner (cl_mgrs s ! j)))"
    if "role_at s j role = Some e" "in_lease (cl_mgrs s ! j) (cl_clock s) e" for j e
    using cl_invD(3)[OF inv that(1)] that(2) unfolding lease_ok_def in_lease_def by auto
  have "j = i" if "role_at s j role = Some es2" "in_lease (cl_mgrs s ! j) (cl_clock s) es2" for j es2
    using own[OF assms(4,5)] own[OF that] owners_differ[OF inv] cl_invD(1)[OF inv assms(4)] cl_invD(1)[OF inv that(1)] by auto
  then show ?thesis using own[OF assms(4,5)] by blast
qed

section \<open>Takeover\<close>

lemma elect_steps:
  assumes "role_at s i role = Some es" "elect_step (cl_mgrs s ! i) (cl_clock s) role ev es (cl_store s) = Some (es', r')"
    and "s' = s\<lparr>cl_store := r', cl_mgrs := (cl_mgrs s)[i := put_role role es' (cl_mgrs s ! i)]\<rparr>"
  shows "cl_step s s'" "role_at s' j role' = (if j = i \<and> role' = role then Some es' else role_at s j role')"
    "cl_clock s' = cl_clock s" "cl_store s' = r'"
    "mg_quit (cl_mgrs s' ! j) = mg_quit (cl_mgrs s ! j)" "mg_ctx (cl_mgrs s' ! j) = mg_ctx (cl_mgrs s ! j)"
    "mg_draining (cl_mgrs s' ! j) = mg_draining (cl_mgrs s ! j)" "mg_ttl (cl_mgrs s' ! j) = mg_ttl (cl_mgrs s ! j)"
    "mg_startTimeout (cl_mgrs s' ! j) = mg_startTimeout (cl_mgrs s ! j)"
proof -
  have i: "i < length (cl_mgrs s)" using assms(1) by (auto simp: role_at_def split: if_splits)
  show "cl_step s s'" unfolding assms(3) by (rule cl_step.Elect[OF assms(1,2)])
  show "role_at s' j role' = (if j = i \<and> role' = role then Some es' else role_at s j role')"
    unfolding assms(3) by (rule role_at_put[OF i])
  show "cl_clock s' = cl_clock s" "cl_store s' = r'" by (simp_all add: assms(3))
  show "mg_quit (cl_mgrs s' ! j) = mg_quit (cl_mgrs s ! j)" "mg_ctx (cl_mgrs s' ! j) = mg_ctx (cl_mgrs s ! j)"
    "mg_draining (cl_mgrs s' ! j) = mg_draining (cl_mgrs s ! j)" "mg_ttl (cl_mgrs s' ! j) = mg_ttl (cl_mgrs s ! j)"
    "mg_startTimeout (cl_mgrs s' ! j) = mg_startTimeout (cl_mgrs s ! j)"
    using i by (cases "j = i"; simp add: assms(3) put_role_def)+
qed

text \<open>What a step of one role leaves to the others.\<close>

definition same_rest :: "nat \<Rightarrow> string \<Rightarrow> 'r cluster \<Rightarrow> 'r cluster \<Rightarrow> bool" where
  "same_rest i role s s' \<longleftrightarrow> cl_clock s' = cl_clock s \<and>
     (\<forall>j role'. \<not> (j = i \<and> role' = role) \<longrightarrow> role_at s' j role' = role_at s j role') \<and>
     (\<forall>j. mg_quit (cl_mgrs s' ! j) = mg_quit (cl_mgrs s ! j) \<and> mg_ctx (cl_mgrs s' ! j) = mg_ctx (cl_mgrs s ! j) \<and>
       mg_draining (cl_mgrs s' ! j) = mg_draining (cl_mgrs s ! j) \<and> mg_ttl (cl_mgrs s' ! j) = mg_ttl (cl_mgrs s ! j) \<and>
       mg_startTimeout (cl_mgrs s' ! j) = mg_startTimeout (cl_mgrs s ! j))"

lemma elect_goes:
  assumes "role_at s i role = Some es" "elect_step (cl_mgrs s ! i) (cl_clock s) role ev es (cl_store s) = Some (es', r')"
  shows "\<exists>s'. cl_step s s' \<and> same_rest i role s s' \<and> role_at s' i role = Some es' \<and> cl_store s' = r'"
  using elect_steps[OF assms refl] unfolding same_rest_def
  by (intro exI[of _ "s\<lparr>cl_store := r', cl_mgrs := (cl_mgrs s)[i := put_role role es' (cl_mgrs s ! i)]\<rparr>"]) simp

lemma lease_pos: "millisecond \<le> d \<Longrightarrow> 0 < lease d"
  by (simp add: lease_def millisecond_def pos_imp_zdiv_pos_iff)

text \<open>An attempt outside shutdown acquires the lock or pauses for the current pause; a vacant lock it gets.\<close>

lemma attempt_outcome:
  assumes "es_pc es = AtTop" "\<not> mg_quit m" "\<not> mg_ctx m" "\<not> mg_draining m"
  shows "\<exists>es' r'. elect_step m now role (EvAttempt n) es r = Some (es', r') \<and>
    ((\<exists>l. es_pc es' = Starting l) \<or> (\<exists>held. es_pc es' = Sleeping held (now + es_backoff es)))"
  using assms by (auto simp: elect_step_def elect_top_def split: prod.split sum.split)

lemma vacant_acquired:
  assumes "redis_ok rd" "mgr_ok rd T m" "es_pc es = AtTop" "role \<noteq> []" "\<not> mg_quit m" "\<not> mg_ctx m" "\<not> mg_draining m"
    and "rd_get rd now (KeyPrefix @ role) r = None"
  shows "\<exists>es' r' l. elect_step m now role (EvAttempt NetOk) es r = Some (es', r') \<and> es_pc es' = Starting l \<and> in_lease m now es' \<and>
    (\<forall>u\<ge>now. rd_get rd u (KeyPrefix @ role) r' = (if u < now + lease (mg_ttl m) then Some (Owner_String (mg_owner m)) else None))"
proof -
  have m: "mg_cli m = Some rd" "millisecond \<le> mg_ttl m" using assms(2) by (auto simp: mgr_ok_def)
  from TryAcquire_free[OF assms(1) m(2) assms(4,8), of "mg_owner m"] obtain l r' where
    t: "TryAcquire (Some rd) role (mg_owner m) (mg_ttl m) now NetOk r = (Ok l, r')" by blast
  then obtain es' where st: "elect_step m now role (EvAttempt NetOk) es r = Some (es', r')"
    and es': "es_pc es' = Starting l" "es_since es' = now"
    using assms(3,5-7) m(1) by (simp add: elect_step_def elect_top_def)
  have "in_lease m now es'" using es' lease_pos[OF m(2)] by (simp add: in_lease_def)
  then show ?thesis using TryAcquire_Ok(2)[OF assms(1) m(2) t] st es'(1) by blast
qed

lemma attempt_acquires:
  assumes "redis_ok rd" "cl_inv rd T s" "role_at s i role = Some es" "es_pc es = AtTop" "role \<noteq> []"
    and "\<not> mg_quit (cl_mgrs s ! i)" "\<not> mg_ctx (cl_mgrs s ! i)" "\<not> mg_draining (cl_mgrs s ! i)"
    and "rd_get rd (cl_clock s) (KeyPrefix @ role) (cl_store s) = None"
  shows "\<exists>s' es' l. cl_step s s' \<and> same_rest i role s s' \<and> role_at s' i role = Some es' \<and> es_pc es' = Starting l \<and>
    in_lease (cl_mgrs s' ! i) (cl_clock s') es' \<and>
    rd_get rd (cl_clock s + lease (mg_ttl (cl_mgrs s ! i))) (KeyPrefix @ role) (cl_store s') = None"
proof -
  let ?m = "cl_mgrs s ! i"
  have m: "mgr_ok rd T ?m" using cl_invD(2)[OF assms(2,3)] .
  then have pos: "0 < lease (mg_ttl ?m)" using lease_pos by (simp add: mgr_ok_def)
  from vacant_acquired[OF assms(1) m assms(4-9)] obtain es' r' l where
    st: "elect_step ?m (cl_clock s) role (EvAttempt NetOk) es (cl_store s) = Some (es', r')" and l: "es_pc es' = Starting l" "in_lease ?m (cl_clock s) es'"
    and g: "\<forall>u\<ge>cl_clock s. rd_get rd u (KeyPrefix @ role) r' = (if u < cl_clock s + lease (mg_ttl ?m) then Some (Owner_String (mg_owner ?m)) else None)"
    by blast
  from elect_goes[OF assms(3) st] obtain s' where s': "cl_step s s'" "same_rest i role s s'" "role_at s' i role = Some es'" "cl_store s' = r'"
    by blast
  have "in_lease (cl_mgrs s' ! i) (cl_clock s') es'" using s'(2) l(2) by (simp add: in_lease_def same_rest_def)
  moreover have "rd_get rd (cl_clock s + lease (mg_ttl ?m)) (KeyPrefix @ role) (cl_store s') = None"
    using g s'(4) pos by simp
  ultimately show ?thesis using s' l(1) by blast
qed

lemma start_leads:
  assumes "role_at s i role = Some es" "es_pc es = Starting l"
  shows "\<exists>s' es'. cl_step s s' \<and> same_rest i role s s' \<and> role_at s' i role = Some es' \<and> es_isLeader es'"
proof -
  obtain es' where "elect_step (cl_mgrs s ! i) (cl_clock s) role (EvStarted None NetOk NetOk) es (cl_store s) = Some (es', cl_store s)"
    and "es_isLeader es'" using assms(2) by (simp add: elect_step_def elect_started_def)
  with elect_goes[OF assms(1)] show ?thesis by blast
qed

text \<open>
  C10. A vacant role is taken over. In every reachable state a process that waits for a role and is not
  shutting down is either pausing, with a timer that fires at most 30 seconds ahead, before which the loop
  does nothing and after which it goes back to its head; or at its head, where the one thing it does is an
  attempt: whatever becomes of the command it ends up holding the lock or pausing for at most 30 seconds, and
  if the key is vacant when the command runs and the reply arrives, then this very attempt gives it the
  lease, with its name in the store for the time to live. And what the store shows of a role now has
  vanished once the longest time to live has passed, unless somebody writes it again.
\<close>

theorem leader_takeover:
  assumes "redis_ok rd" "cl_init rd T s0" "cl_step\<^sup>*\<^sup>* s0 s" "role_at s i role = Some es" "role \<noteq> []"
    and "m = cl_mgrs s ! i" "\<not> mg_quit m" "\<not> mg_ctx m" "\<not> mg_draining m"
  shows "(\<forall>held u. es_pc es = Sleeping held u \<longrightarrow> u \<le> cl_clock s + 30 * second \<and> es_pc (elect_wake held es) = AtTop \<and>
      (\<forall>ev now r. elect_step m now role ev es r = (if ev = EvWake \<and> u \<le> now then Some (elect_wake held es, r) else None))) \<and>
    (es_pc es = AtTop \<longrightarrow>
      (\<forall>ev now r. elect_step m now role ev es r \<noteq> None \<longleftrightarrow> (\<exists>n. ev = EvAttempt n)) \<and>
      (\<forall>n now r es' r'. elect_step m now role (EvAttempt n) es r = Some (es', r') \<longrightarrow>
         (\<exists>l. es_pc es' = Starting l) \<or> (\<exists>held u. es_pc es' = Sleeping held u \<and> u \<le> now + 30 * second)) \<and>
      (\<forall>now r. rd_get rd now (KeyPrefix @ role) r = None \<longrightarrow>
         (\<exists>es' r' l. elect_step m now role (EvAttempt NetOk) es r = Some (es', r') \<and> es_pc es' = Starting l \<and> in_lease m now es' \<and>
            (\<forall>u. now \<le> u \<and> u < now + lease (mg_ttl m) \<longrightarrow> rd_get rd u (KeyPrefix @ role) r' = Some (Owner_String (mg_owner m)))))) \<and>
    (\<forall>u\<ge>cl_clock s + T. rd_get rd u (KeyPrefix @ role) (cl_store s) = None)"
proof -
  have inv: "cl_inv rd T s" by (rule cl_inv_reach[OF assms(1,3,2)])
  note d = cl_invD[OF inv assms(4), folded assms(6)]
  have bo: "es_backoff es \<le> 30 * second" using d(4) by (simp add: flags_ok_def maxBackoff_def)
  have sleep: "u \<le> cl_clock s + 30 * second \<and> es_pc (elect_wake held es) = AtTop \<and>
      (\<forall>ev now r. elect_step m now role ev es r = (if ev = EvWake \<and> u \<le> now then Some (elect_wake held es, r) else None))"
    if "es_pc es = Sleeping held u" for held u
    using that d(4) assms(8) by (auto simp: flags_ok_def maxBackoff_def elect_wake_def elect_step_def split: elect_event.split)
  have only: "elect_step m now role ev es r \<noteq> None \<longleftrightarrow> (\<exists>n. ev = EvAttempt n)" if "es_pc es = AtTop" for ev now r
    using that by (auto simp: elect_step_def split: elect_event.split)
  have outcome: "(\<exists>l. es_pc es' = Starting l) \<or> (\<exists>held u. es_pc es' = Sleeping held u \<and> u \<le> now + 30 * second)"
    if "es_pc es = AtTop" "elect_step m now role (EvAttempt n) es r = Some (es', r')" for n now r es' r'
    using attempt_outcome[OF that(1) assms(7-9), of now role n r] that(2) bo by fastforce
  have got: "\<exists>es' r' l. elect_step m now role (EvAttempt NetOk) es r = Some (es', r') \<and> es_pc es' = Starting l \<and> in_lease m now es' \<and>
      (\<forall>u. now \<le> u \<and> u < now + lease (mg_ttl m) \<longrightarrow> rd_get rd u (KeyPrefix @ role) r' = Some (Owner_String (mg_owner m)))"
    if "es_pc es = AtTop" "rd_get rd now (KeyPrefix @ role) r = None" for now r
    using vacant_acquired[OF assms(1) d(2) that(1) assms(5,7-9) that(2)] by fastforce
  have "\<forall>u\<ge>cl_clock s + T. rd_get rd u (KeyPrefix @ role) (cl_store s) = None" using inv unfolding cl_inv_def by blast
  then show ?thesis using sleep only outcome got by blast
qed

section \<open>Departures\<close>

text \<open>
  \<^verbatim>\<open>ResignAll\<close> does not wait for a role whose worker is still starting: it returns without an error,
  and the process then becomes leader.
\<close>

theorem resign_all_misses_starting:
  assumes "map_of (mg_roles m) role = Some es" "es_pc es = Starting l" "\<not> IsLeaderAny m"
  shows "\<exists>m'. ResignAll now dl [(IsLeaderAny m, now, None)] m = (Some None, m') \<and> map_of (mg_roles m') role = Some es \<and>
    (\<exists>es'. elect_step m' now role EvStartTimeout es r = Some (es', r) \<and> es_isLeader es' \<and> es_running es')"
  using assms by (auto simp: ResignAll_def MarkDraining_def elect_step_def elect_started_def Let_def)

text \<open>Two processes that run one role with the default settings but for the time to live.\<close>

definition one_role :: "'r redis \<Rightarrow> int \<Rightarrow> string \<Rightarrow> string \<Rightarrow> 'r Manager" where
  "one_role rd ttl role uuid = leader_Run (the (leader_Register role True True (NewManager (Some rd) ''node'' uuid uuid [WithTTL ttl])))"

definition pair_cluster :: "'r redis \<Rightarrow> int \<Rightarrow> string \<Rightarrow> 'r \<Rightarrow> 'r cluster" where
  "pair_cluster rd ttl role r = \<lparr>cl_clock = 0, cl_store = r, cl_mgrs = [one_role rd ttl role ''a'', one_role rd ttl role ''b'']\<rparr>"

lemma one_role_sel [simp]:
  "mg_cli (one_role rd ttl role uuid) = Some rd" "mg_ttl (one_role rd ttl role uuid) = ttl"
  "mg_owner (one_role rd ttl role uuid) = \<lparr>ow_ID = uuid, ow_Hostname = ''node''\<rparr>"
  "mg_roles (one_role rd ttl role uuid) = [(role, (new_state True True)\<lparr>es_pc := AtTop\<rparr>)]"
  "\<not> mg_quit (one_role rd ttl role uuid)" "\<not> mg_ctx (one_role rd ttl role uuid)" "\<not> mg_draining (one_role rd ttl role uuid)"
  "mg_startTimeout (one_role rd ttl role uuid) = 5 * second"
  by (simp_all add: one_role_def leader_Run_def leader_Register_def NewManager_def NewOwner_def)

lemma pair_cluster_roles:
  "role_at (pair_cluster rd ttl role r) i role' = (if i < 2 \<and> role' = role then Some ((new_state True True)\<lparr>es_pc := AtTop\<rparr>) else None)"
  by (auto simp: role_at_def pair_cluster_def nth_Cons split: nat.splits)

lemma pair_cluster_mgr:
  assumes "i < 2"
  shows "\<not> mg_quit (cl_mgrs (pair_cluster rd ttl role r) ! i)" "\<not> mg_ctx (cl_mgrs (pair_cluster rd ttl role r) ! i)"
    "\<not> mg_draining (cl_mgrs (pair_cluster rd ttl role r) ! i)" "mg_ttl (cl_mgrs (pair_cluster rd ttl role r) ! i) = ttl"
    "mg_startTimeout (cl_mgrs (pair_cluster rd ttl role r) ! i) = 5 * second"
  using assms by (auto simp: pair_cluster_def less_Suc_eq numeral_2_eq_2)

lemma pair_cluster_init:
  assumes "millisecond \<le> ttl" "\<forall>role' u. lease ttl \<le> u \<longrightarrow> rd_get rd u (KeyPrefix @ role') r = None"
  shows "cl_init rd (lease ttl) (pair_cluster rd ttl role r)"
proof -
  have "flags_ok 0 ((new_state True True)\<lparr>es_pc := AtTop\<rparr>)"
    by (simp add: flags_ok_def new_state_def maxBackoff_def second_def millisecond_def)
  then show ?thesis using assms
    by (auto simp: cl_init_def pair_cluster_roles) (auto simp: pair_cluster_def mgr_ok_def Owner_String_def)
qed

text \<open>
  The lock is not confirmed again when the worker has started: if the worker of one process needs as long as
  the time to live to start, which is within the start timeout when the time to live is at most five
  seconds, then another process may take the lock meanwhile and both call themselves leader.
\<close>

theorem slow_start_two_leaders:
  assumes "redis_ok rd" "millisecond \<le> ttl" "ttl \<le> 5 * second" "role \<noteq> []"
    and "\<forall>role' u. 0 \<le> u \<longrightarrow> rd_get rd u (KeyPrefix @ role') r = None"
  shows "\<exists>s. cl_step\<^sup>*\<^sup>* (pair_cluster rd ttl role r) s \<and> cl_clock s = lease ttl \<and> lease ttl \<le> mg_startTimeout (cl_mgrs s ! 0) \<and>
    (\<exists>e0 e1. role_at s 0 role = Some e0 \<and> es_isLeader e0 \<and> role_at s 1 role = Some e1 \<and> es_isLeader e1)"
proof -
  let ?s = "pair_cluster rd ttl role r"
  have lp: "0 < lease ttl" "lease ttl \<le> ttl" using lease_pos[OF assms(2)]
    by (simp_all add: lease_def millisecond_def minus_mod_eq_div_mult[symmetric])
  have "\<forall>role' u. lease ttl \<le> u \<longrightarrow> rd_get rd u (KeyPrefix @ role') r = None" using assms(5) lp(1) by auto
  then have inv: "cl_inv rd (lease ttl) ?s" by (rule cl_init_inv[OF pair_cluster_init[OF assms(2)]])
  let ?n = "(new_state True True)\<lparr>es_pc := AtTop\<rparr>"
  have n: "es_pc ?n = AtTop" by simp
  have r0: "role_at ?s 0 role = Some ?n" "role_at ?s 1 role = Some ?n" by (simp_all add: pair_cluster_roles)
  have c0: "cl_clock ?s = 0" "cl_store ?s = r" by (simp_all add: pair_cluster_def)
  from attempt_acquires[OF assms(1) inv r0(1) n assms(4)] assms(5) pair_cluster_mgr[of 0 rd ttl role r] c0
  obtain s1 e0 l where s1: "cl_step ?s s1" "same_rest 0 role ?s s1" "role_at s1 0 role = Some e0" "es_pc e0 = Starting l"
    "rd_get rd (lease ttl) (KeyPrefix @ role) (cl_store s1) = None" by auto
  let ?s2 = "s1\<lparr>cl_clock := cl_clock s1 + lease ttl\<rparr>"
  have p: "cl_step s1 ?s2" by (rule cl_step.Pass) (use lp in simp)
  have inv2: "cl_inv rd (lease ttl) ?s2" using inv cl_inv_step[OF assms(1) s1(1)] cl_inv_step[OF assms(1) p] by blast
  have at2: "role_at ?s2 j q = role_at s1 j q" for j q by (simp add: role_at_def)
  have r1: "role_at ?s2 1 role = Some ?n" using s1(2) r0(2) at2 by (simp add: same_rest_def)
  have c2: "cl_clock ?s2 = lease ttl" using s1(2) c0 by (simp add: same_rest_def)
  have free2: "rd_get rd (cl_clock ?s2) (KeyPrefix @ role) (cl_store ?s2) = None" using s1(5) c2 by simp
  from attempt_acquires[OF assms(1) inv2 r1 n assms(4) _ _ _ free2] s1(2) pair_cluster_mgr[of 1 rd ttl role r]
  obtain s3 e1 l1 where s3: "cl_step ?s2 s3" "same_rest 1 role ?s2 s3" "role_at s3 1 role = Some e1" "es_pc e1 = Starting l1"
    by (auto simp: same_rest_def)
  have r3: "role_at s3 0 role = Some e0" using s3(2) s1(3) at2 by (simp add: same_rest_def)
  from start_leads[OF s3(3,4)] obtain s4 e1' where s4: "cl_step s3 s4" "same_rest 1 role s3 s4" "role_at s4 1 role = Some e1'" "es_isLeader e1'" by blast
  have r4: "role_at s4 0 role = Some e0" using s4(2) r3 by (simp add: same_rest_def)
  from start_leads[OF r4 s1(4)] obtain s5 e0' where s5: "cl_step s4 s5" "same_rest 0 role s4 s5" "role_at s5 0 role = Some e0'" "es_isLeader e0'" by blast
  have "cl_step\<^sup>*\<^sup>* ?s s5" using s1(1) p s3(1) s4(1) s5(1) by (meson rtranclp.rtrancl_into_rtrancl rtranclp.rtrancl_refl)
  moreover have "cl_clock s5 = lease ttl" "mg_startTimeout (cl_mgrs s5 ! 0) = 5 * second"
    using c2 s1(2) s3(2) s4(2) s5(2) pair_cluster_mgr(5)[of 0 rd ttl role r] by (simp_all add: same_rest_def)
  moreover have "role_at s5 1 role = Some e1'" using s5(2) s4(3) by (simp add: same_rest_def)
  ultimately show ?thesis using s5(3,4) s4(4) lp(2) assms(3) by (intro exI[of _ s5]) auto
qed

section \<open>Concrete runs\<close>

definition demo_pair :: "demo_store cluster" where
  "demo_pair = pair_cluster demo_redis (15 * second) ''scheduler:flow'' (\<lambda>k. None)"

definition demo_led :: "demo_store cluster" where
  "demo_led = (let m = cl_mgrs demo_pair ! 0; es = the (role_at demo_pair 0 ''scheduler:flow'');
     (es', r') = the (elect_step m 0 ''scheduler:flow'' (EvAttempt NetOk) es (\<lambda>k. None))
     in demo_pair\<lparr>cl_store := r', cl_mgrs := (cl_mgrs demo_pair)[0 := put_role ''scheduler:flow'' es' m]\<rparr>)"

lemma demo_empty: "demo_get u k (\<lambda>k. None) = None" by (simp add: demo_get_def)

lemma demo_pair_init: "cl_init demo_redis (lease (15 * second)) demo_pair"
  unfolding demo_pair_def by (rule pair_cluster_init) (simp_all add: demo_empty second_def millisecond_def)

lemma demo_led_facts:
  "cl_step demo_pair demo_led"
  "\<exists>es. role_at demo_led 0 ''scheduler:flow'' = Some es \<and> in_lease (cl_mgrs demo_led ! 0) (cl_clock demo_led) es"
  "role_at demo_led 1 ''scheduler:flow'' = Some ((new_state True True)\<lparr>es_pc := AtTop\<rparr>)"
  "cl_mgrs demo_led ! 1 = one_role demo_redis (15 * second) ''scheduler:flow'' ''b''"
  "cl_clock demo_led = 0"
proof -
  let ?n = "(new_state True True)\<lparr>es_pc := AtTop\<rparr> :: demo_store electorState"
  have r: "role_at demo_pair 0 ''scheduler:flow'' = Some ?n" "role_at demo_pair 1 ''scheduler:flow'' = Some ?n"
    by (simp_all add: demo_pair_def pair_cluster_roles)
  have f: "cl_store demo_pair = (\<lambda>k. None)" "cl_clock demo_pair = 0"
    "cl_mgrs demo_pair = [one_role demo_redis (15 * second) ''scheduler:flow'' ''a'', one_role demo_redis (15 * second) ''scheduler:flow'' ''b'']"
    by (simp_all add: demo_pair_def pair_cluster_def)
  obtain es' r' l where st: "elect_step (cl_mgrs demo_pair ! 0) (cl_clock demo_pair) ''scheduler:flow'' (EvAttempt NetOk) ?n (cl_store demo_pair) = Some (es', r')"
    and e: "es_pc es' = Starting l" "es_since es' = 0"
    by (simp add: f elect_step_def elect_top_def TryAcquire_def lock_args_def redis_call_def demo_empty second_def millisecond_def Let_def)
  have led: "demo_led = demo_pair\<lparr>cl_store := r', cl_mgrs := (cl_mgrs demo_pair)[0 := put_role ''scheduler:flow'' es' (cl_mgrs demo_pair ! 0)]\<rparr>"
    unfolding demo_led_def using st by (simp add: r f)
  note s = elect_steps[OF r(1) st led]
  show "cl_step demo_pair demo_led" by (rule s(1))
  have "in_lease (cl_mgrs demo_led ! 0) (cl_clock demo_led) es'"
    using s(8)[of 0] s(3) e by (simp add: in_lease_def f lease_def second_def millisecond_def)
  then show "\<exists>es. role_at demo_led 0 ''scheduler:flow'' = Some es \<and> in_lease (cl_mgrs demo_led ! 0) (cl_clock demo_led) es"
    using s(2)[of 0 "''scheduler:flow''"] by auto
  show "role_at demo_led 1 ''scheduler:flow'' = Some ((new_state True True)\<lparr>es_pc := AtTop\<rparr>)" using s(2)[of 1] r(2) by simp
  show "cl_mgrs demo_led ! 1 = one_role demo_redis (15 * second) ''scheduler:flow'' ''b''" by (simp add: led f)
  show "cl_clock demo_led = 0" by (simp add: led f)
qed

theorem leader_lease_exclusive_witness:
  "\<exists>es. role_at demo_led 0 ''scheduler:flow'' = Some es \<and>
    rd_get demo_redis (cl_clock demo_led) (KeyPrefix @ ''scheduler:flow'') (cl_store demo_led) = Some (Owner_String (mg_owner (cl_mgrs demo_led ! 0)))"
  using leader_lease_exclusive[OF demo_redis_ok demo_pair_init r_into_rtranclp[of cl_step, OF demo_led_facts(1)], of 0 "''scheduler:flow''"]
    demo_led_facts(2) by blast

theorem leader_takeover_witness:
  "\<exists>es es' r' l. role_at demo_led 1 ''scheduler:flow'' = Some es \<and>
     rd_get demo_redis (20 * second) (KeyPrefix @ ''scheduler:flow'') (cl_store demo_led) = None \<and>
     elect_step (cl_mgrs demo_led ! 1) (20 * second) ''scheduler:flow'' (EvAttempt NetOk) es (cl_store demo_led) = Some (es', r') \<and>
     es_pc es' = Starting l \<and> in_lease (cl_mgrs demo_led ! 1) (20 * second) es'"
proof -
  have m: "\<not> mg_quit (cl_mgrs demo_led ! 1)" "\<not> mg_ctx (cl_mgrs demo_led ! 1)" "\<not> mg_draining (cl_mgrs demo_led ! 1)"
    unfolding demo_led_facts(4) by simp_all
  have c: "cl_clock demo_led + lease (15 * second) \<le> 20 * second"
    by (simp add: demo_led_facts(5) lease_def second_def millisecond_def)
  have r: "''scheduler:flow'' \<noteq> []" by simp
  note t = leader_takeover[OF demo_redis_ok demo_pair_init r_into_rtranclp[of cl_step, OF demo_led_facts(1)] demo_led_facts(3) r refl m]
  have v: "rd_get demo_redis (20 * second) (KeyPrefix @ ''scheduler:flow'') (cl_store demo_led) = None"
    using t[THEN conjunct2, THEN conjunct2] c by blast
  have top: "es_pc ((new_state True True)\<lparr>es_pc := AtTop\<rparr> :: demo_store electorState) = AtTop" by simp
  from t[THEN conjunct2, THEN conjunct1, rule_format, OF top, THEN conjunct2, THEN conjunct2, rule_format, OF v] v
  show ?thesis using demo_led_facts(3) by blast
qed

definition demo_starting :: "demo_store Manager" where
  "demo_starting = put_role ''r'' ((new_state True True)\<lparr>es_pc := Starting \<lparr>lk_cli = demo_redis, lk_key = ''opskeeper:lock:r'',
     lk_owner = \<lparr>ow_ID = ''a'', ow_Hostname = []\<rparr>, lk_ttl = second\<rparr>\<rparr>) (one_role demo_redis second ''r'' ''a'')"

theorem resign_all_misses_starting_witness:
  "\<exists>m'. ResignAll 0 None [(IsLeaderAny demo_starting, 0, None)] demo_starting = (Some None, m')"
proof -
  have m: "map_of (mg_roles demo_starting) ''r'' = Some ((new_state True True)\<lparr>es_pc := Starting \<lparr>lk_cli = demo_redis, lk_key = ''opskeeper:lock:r'',
     lk_owner = \<lparr>ow_ID = ''a'', ow_Hostname = []\<rparr>, lk_ttl = second\<rparr>\<rparr>)" by (simp add: demo_starting_def put_role_def)
  have "\<not> IsLeaderAny demo_starting" by (simp add: IsLeaderAny_def demo_starting_def put_role_def new_state_def)
  from resign_all_misses_starting[OF m _ this, of _ 0 None] show ?thesis by auto
qed

theorem slow_start_two_leaders_witness:
  "\<exists>s. cl_step\<^sup>*\<^sup>* (pair_cluster demo_redis (3 * second) ''r'' (\<lambda>k. None)) s \<and>
    (\<exists>e0 e1. role_at s 0 ''r'' = Some e0 \<and> es_isLeader e0 \<and> role_at s 1 ''r'' = Some e1 \<and> es_isLeader e1)"
proof -
  have a: "millisecond \<le> 3 * second" "3 * second \<le> 5 * second" by (simp_all add: second_def millisecond_def)
  have r: "\<forall>role' u. 0 \<le> u \<longrightarrow> rd_get demo_redis u (KeyPrefix @ role') (\<lambda>k. None) = None" by (simp add: demo_empty)
  have "''r'' \<noteq> []" by simp
  from slow_start_two_leaders[OF demo_redis_ok a this r] show ?thesis by auto
qed

end
