(* ===== verification/Preview_Model.thy ===== *)
theory Preview_Model
  imports Go_Json
begin

text \<open>
  Repair previews (\<^verbatim>\<open>internal/control/repairpreview\<close>): a run replays a fixed workload on disposable
  copies of a database, once as it is and once per candidate repair, and each candidate is judged by what
  was measured. This theory holds the data and their rules (\<^verbatim>\<open>model.go\<close>, \<^verbatim>\<open>workload.go\<close>), what readers of
  an archive get (\<^verbatim>\<open>readback.go\<close>) and the helpers of the runner that name schemas and compare sizes.
  An instant is counted from Go's zero time, so that \<^verbatim>\<open>IsZero\<close> is the test for \<open>0\<close>. JSON encoding, SHA-256
  and YAML decoding are the record \<open>preview_lib\<close>.
\<close>

section \<open>Runs and candidates\<close>

definition DecisionPass :: string where "DecisionPass = ''PASS''"
definition DecisionFail :: string where "DecisionFail = ''FAIL''"
definition DecisionReject :: string where "DecisionReject = ''REJECTED_BY_PREVIEW''"

definition BaselineCandidateID :: string where "BaselineCandidateID = ''baseline''"
definition BaselineKind :: string where "BaselineKind = ''baseline''"
definition BaselineAction :: string where "BaselineAction = ''baseline''"

record Candidate =
  ca_ID :: string
  ca_RunID :: string
  ca_TenantID :: string
  ca_IncidentID :: string
  ca_CandidateID :: string
  ca_Name :: string
  ca_Kind :: string
  ca_Action :: string
  ca_ChangeSummary :: string
  ca_Branch :: string
  ca_ResultChecksum :: string
  ca_Consistent :: bool
  ca_AverageLatencyMS :: gofloat
  ca_MedianLatencyMS :: gofloat
  ca_P95LatencyMS :: gofloat
  ca_SampleCount :: int
  ca_TPS :: gofloat
  ca_ErrorCount :: int
  ca_WriteImpact :: string
  ca_StorageDeltaBytes :: int
  ca_BusinessProbePass :: bool
  ca_Decision :: string
  ca_RejectionReason :: string

record PRun =
  rn_ID :: string
  rn_TenantID :: string
  rn_IncidentID :: string
  rn_ScenarioID :: string
  rn_IdempotencyKey :: string
  rn_TargetFingerprint :: string
  rn_BindingFingerprint :: string
  rn_BranchPrefix :: string
  rn_SeedFingerprint :: string
  rn_WorkloadFingerprint :: string
  rn_WorkloadRevision :: string
  rn_ControlledLoad :: bool
  rn_IsolationBoundary :: string
  rn_Status :: string
  rn_StartedAt :: instant
  rn_FinishedAt :: instant
  rn_ErrorSummary :: string
  rn_ArtifactRef :: string
  rn_Candidates :: "Candidate list"
  rn_CreatedAt :: instant
  rn_UpdatedAt :: instant

definition IsBaseline :: "Candidate \<Rightarrow> bool" where
  "IsBaseline c = (ca_CandidateID c = BaselineCandidateID \<or> ca_Kind c = BaselineKind)"

abbreviation negative :: "gofloat \<Rightarrow> bool" where "negative x \<equiv> flt_less x (Fin 0)"

text \<open>The text of the error, \<open>None\<close> when the candidate is valid.\<close>

definition candidate_Validate :: "Candidate \<Rightarrow> string option" where
  "candidate_Validate c =
    (if ca_ID c = [] then Some ''id is required''
     else if ca_RunID c = [] \<or> ca_TenantID c = [] \<or> ca_IncidentID c = [] \<or> ca_CandidateID c = []
       then Some ''run, tenant, incident, and candidate ids are required''
     else if ca_Name c = [] \<or> ca_Kind c = [] \<or> ca_Action c = [] \<or> ca_ChangeSummary c = [] \<or> ca_Branch c = []
       then Some ''name, kind, action, change summary, and branch are required''
     else if negative (ca_AverageLatencyMS c) \<or> negative (ca_MedianLatencyMS c) \<or> negative (ca_P95LatencyMS c)
       then Some ''latency metrics cannot be negative''
     else if ca_SampleCount c \<le> 0 then Some ''sample count must be positive''
     else if negative (ca_TPS c) \<or> ca_ErrorCount c < 0 \<or> ca_StorageDeltaBytes c < 0
       then Some ''throughput, error, and storage metrics cannot be negative''
     else if ca_ResultChecksum c = [] then Some ''result checksum is required''
     else if ca_WriteImpact c = [] then Some ''write impact is required''
     else None)"

definition allowedWriteImpact :: "string \<Rightarrow> bool" where
  "allowedWriteImpact w = (w = ''none'' \<or> w = ''preview_only'' \<or> w = ''bounded'')"

definition Evaluate :: "Candidate \<Rightarrow> string \<times> string" where
  "Evaluate c = (case candidate_Validate c of
     Some e \<Rightarrow> (DecisionFail, e)
   | None \<Rightarrow>
       if IsBaseline c then (DecisionPass, [])
       else if \<not> ca_BusinessProbePass c then (DecisionReject, ''business probe failed'')
       else if \<not> ca_Consistent c then (DecisionReject, ''checksum divergence from baseline'')
       else if \<not> allowedWriteImpact (ca_WriteImpact c)
         then (DecisionReject, ''write impact exceeds preview boundary: '' @ ca_WriteImpact c)
       else (DecisionPass, []))"

fun validate_candidates :: "PRun \<Rightarrow> Candidate list \<Rightarrow> string option" where
  "validate_candidates r [] = None"
| "validate_candidates r (c # cs) =
    (if ca_TenantID c \<noteq> rn_TenantID r \<or> ca_IncidentID c \<noteq> rn_IncidentID r \<or> ca_RunID c \<noteq> rn_ID r
     then Some ''repair preview: candidate bindings must match run''
     else (case candidate_Validate c of
         Some e \<Rightarrow> Some (''candidate '' @ ca_CandidateID c @ '': '' @ e)
       | None \<Rightarrow> validate_candidates r cs))"

definition run_Validate :: "PRun \<Rightarrow> string option" where
  "run_Validate r =
    (if rn_TenantID r = [] then Some ''repair preview: tenant id is required''
     else if rn_IncidentID r = [] then Some ''repair preview: incident id is required''
     else if rn_ID r = [] then Some ''repair preview: id is required''
     else if rn_BranchPrefix r = [] then Some ''repair preview: branch prefix is required''
     else if rn_SeedFingerprint r = [] then Some ''repair preview: seed fingerprint is required''
     else if rn_WorkloadFingerprint r = [] \<or> rn_WorkloadRevision r = []
       then Some ''repair preview: workload fingerprint and revision are required''
     else if \<not> rn_ControlledLoad r then Some ''repair preview: controlled load is required''
     else if rn_IsolationBoundary r = [] then Some ''repair preview: isolation boundary is required''
     else if rn_Status r = [] then Some ''repair preview: status is required''
     else if rn_StartedAt r = 0 then Some ''repair preview: started_at is required''
     else if rn_FinishedAt r \<noteq> 0 \<and> rn_FinishedAt r < rn_StartedAt r
       then Some ''repair preview: finished_at precedes started_at''
     else validate_candidates r (rn_Candidates r))"

section \<open>Error summaries\<close>

text \<open>
  The two regular expressions of \<^verbatim>\<open>SanitizeErrorSummary\<close>. Each is a function that matches at the front of
  a text and gives the replacement and the rest; in both the character classes on either side of each
  separator are disjoint, so a greedy match is the only one. Case folding is that of ASCII.
\<close>

definition re_space :: "char \<Rightarrow> bool" where
  "re_space c = (c \<in> {CHR '' '', CHR 0x09, CHR 0x0A, CHR 0x0C, CHR 0x0D})"

fun re_replace :: "(string \<Rightarrow> (string \<times> string) option) \<Rightarrow> string \<Rightarrow> string" where
  "re_replace m [] = []"
| "re_replace m (c # cs) = (case m (c # cs) of
     Some (rep, rest) \<Rightarrow> if length rest \<le> length cs then rep @ re_replace m rest else c # re_replace m cs
   | None \<Rightarrow> c # re_replace m cs)"

definition fold_prefix :: "string list \<Rightarrow> string \<Rightarrow> string option" where
  "fold_prefix ws s = map_option (\<lambda>w. take (length w) s) (find (\<lambda>w. HasPrefix (ToLower s) w) ws)"

definition sensitiveErrorPattern :: "string \<Rightarrow> (string \<times> string) option" where
  "sensitiveErrorPattern s =
    (case fold_prefix [''password'', ''passwd'', ''token'', ''secret'', ''api_key'', ''api-key'', ''apikey''] s of
       None \<Rightarrow> None
     | Some w \<Rightarrow>
         (case dropWhile re_space (drop (length w) s) of
            [] \<Rightarrow> None
          | sep # r \<Rightarrow>
              (let v = dropWhile re_space r; stop = (\<lambda>c. re_space c \<or> c = CHR '','' \<or> c = CHR '';'') in
               if sep \<noteq> CHR ''='' \<or> takeWhile (\<lambda>c. \<not> stop c) v = [] then None
               else Some (w @ ''=[redacted]'', dropWhile (\<lambda>c. \<not> stop c) v))))"

definition connectionSecretPattern :: "string \<Rightarrow> (string \<times> string) option" where
  "connectionSecretPattern s =
    (case fold_prefix [''postgresql://'', ''postgres://'', ''mysql://'', ''redis://'', ''https://'', ''http://''] s of
       None \<Rightarrow> None
     | Some w \<Rightarrow>
         (let r = drop (length w) s; user = (\<lambda>c. c \<noteq> CHR '':'' \<and> c \<noteq> CHR ''/'' \<and> \<not> re_space c) in
          if takeWhile user r = [] then None
          else (case dropWhile user r of
              [] \<Rightarrow> None
            | colon # p \<Rightarrow>
                (let pass = (\<lambda>c. c \<noteq> CHR ''@'' \<and> \<not> re_space c) in
                 if colon \<noteq> CHR '':'' \<or> takeWhile pass p = [] then None
                 else (case dropWhile pass p of
                     [] \<Rightarrow> None
                   | amp # rest \<Rightarrow> if amp = CHR ''@'' then Some (w @ ''[redacted]@'', rest) else None)))))"

definition SanitizeErrorSummary :: "string \<Rightarrow> string" where
  "SanitizeErrorSummary s = re_replace sensitiveErrorPattern (re_replace connectionSecretPattern (take 2000 (TrimSpace s)))"

section \<open>Workloads\<close>

record WorkloadBinding =
  wb_RunID :: string
  wb_TenantID :: string
  wb_IncidentID :: string
  wb_ScenarioID :: string
  wb_IdempotencyKey :: string
  wb_TargetFingerprint :: string

record QuerySpec =
  qs_Name :: string
  qs_SQL :: string

record BusinessProbeSpec =
  bp_Name :: string
  bp_Query :: string
  bp_ExpectedMinimum :: int

record CandidateSpec =
  cs_CandidateID :: string
  cs_Name :: string
  cs_Kind :: string
  cs_Action :: string
  cs_ChangeSummary :: string

record WorkloadSpec =
  ws_Revision :: string
  ws_Seed :: string
  ws_WarmupQueries :: int
  ws_Samples :: int
  ws_Concurrency :: int
  ws_QueryTimeoutMS :: int
  ws_Labels :: "(string \<times> string) list"
  ws_Queries :: "QuerySpec list"
  ws_BusinessProbe :: BusinessProbeSpec
  ws_Candidates :: "CandidateSpec list"

record preview_lib =
  pb_decodeYAML :: "string \<Rightarrow> (string, WorkloadSpec) result"
  pb_marshalSpec :: "WorkloadSpec \<Rightarrow> string option"
  pb_marshalBinding :: "WorkloadBinding \<Rightarrow> string option"
  pb_sha256hex :: "string \<Rightarrow> string"

definition credential_label :: "string \<Rightarrow> bool" where
  "credential_label name = (let l = ToLower name in
     Contains l ''dsn'' \<or> Contains l ''password'' \<or> Contains l ''token'' \<or> Contains l ''secret'' \<or> Contains l ''api_key'')"

datatype workload_error =
    WlField string
  | WlQuery nat
  | WlCandidate nat
  | WlDecode string

fun first_bad :: "('a \<Rightarrow> bool) \<Rightarrow> nat \<Rightarrow> 'a list \<Rightarrow> nat option" where
  "first_bad bad i [] = None"
| "first_bad bad i (x # xs) = (if bad x then Some i else first_bad bad (Suc i) xs)"

definition spec_Validate :: "WorkloadSpec \<Rightarrow> workload_error option" where
  "spec_Validate w =
    (if ws_Revision w = [] then Some (WlField ''revision is required'')
     else if ws_Seed w = [] then Some (WlField ''seed is required'')
     else if ws_Samples w \<le> 0 then Some (WlField ''samples must be positive'')
     else if ws_Concurrency w \<le> 0 \<or> ws_Concurrency w > ws_Samples w
       then Some (WlField ''concurrency must be positive and no greater than samples'')
     else if ws_QueryTimeoutMS w \<le> 0 then Some (WlField ''query timeout must be positive'')
     else if ws_WarmupQueries w < 0 then Some (WlField ''warmup queries cannot be negative'')
     else if ws_Queries w = [] then Some (WlField ''at least one query is required'')
     else if list_ex (\<lambda>(name, v). credential_label name) (ws_Labels w) then Some (WlField ''credential labels are not allowed'')
     else (case first_bad (\<lambda>q. qs_Name q = [] \<or> qs_SQL q = []) 0 (ws_Queries w) of
         Some i \<Rightarrow> Some (WlQuery i)
       | None \<Rightarrow>
           if bp_Name (ws_BusinessProbe w) = [] \<or> bp_Query (ws_BusinessProbe w) = [] \<or> bp_ExpectedMinimum (ws_BusinessProbe w) < 0
             then Some (WlField ''complete business probe is required'')
           else if ws_Candidates w = [] then Some (WlField ''at least one candidate is required'')
           else map_option WlCandidate (first_bad (\<lambda>c. cs_CandidateID c = [] \<or> cs_Name c = [] \<or> cs_Kind c = [] \<or>
             cs_Action c = [] \<or> cs_ChangeSummary c = []) 0 (ws_Candidates w))))"

definition LoadWorkload :: "preview_lib \<Rightarrow> string \<Rightarrow> (workload_error, WorkloadSpec) result" where
  "LoadWorkload lib data = (case pb_decodeYAML lib data of
     Err e \<Rightarrow> Err (WlDecode e)
   | Ok w \<Rightarrow> (case spec_Validate w of Some e \<Rightarrow> Err e | None \<Rightarrow> Ok w))"

definition sha_text :: "preview_lib \<Rightarrow> string \<Rightarrow> string" where
  "sha_text lib s = ''sha256:'' @ pb_sha256hex lib s"

definition WorkloadFingerprint :: "preview_lib \<Rightarrow> WorkloadSpec \<Rightarrow> string" where
  "WorkloadFingerprint lib w = (case pb_marshalSpec lib w of None \<Rightarrow> ''sha256:unavailable'' | Some s \<Rightarrow> sha_text lib s)"

definition SeedFingerprint :: "preview_lib \<Rightarrow> WorkloadSpec \<Rightarrow> string" where
  "SeedFingerprint lib w = (if HasPrefix (ws_Seed w) ''sha256:'' then ws_Seed w else sha_text lib (ws_Seed w))"

definition binding_Fingerprint :: "preview_lib \<Rightarrow> WorkloadBinding \<Rightarrow> string" where
  "binding_Fingerprint lib b = (case pb_marshalBinding lib b of None \<Rightarrow> [] | Some s \<Rightarrow> sha_text lib s)"

definition run_binding :: "PRun \<Rightarrow> string \<Rightarrow> string \<Rightarrow> string \<Rightarrow> WorkloadBinding" where
  "run_binding r scenario key target = \<lparr>wb_RunID = rn_ID r, wb_TenantID = rn_TenantID r, wb_IncidentID = rn_IncidentID r,
     wb_ScenarioID = scenario, wb_IdempotencyKey = key, wb_TargetFingerprint = target\<rparr>"

definition RunBindingMatches :: "preview_lib \<Rightarrow> PRun \<Rightarrow> string \<Rightarrow> string \<Rightarrow> string \<Rightarrow> bool" where
  "RunBindingMatches lib r scenario key target =
    (rn_ScenarioID r = scenario \<and> rn_IdempotencyKey r = key \<and> rn_TargetFingerprint r = target \<and>
     rn_BindingFingerprint r = binding_Fingerprint lib (run_binding r scenario key target))"

section \<open>Reading an archive back\<close>

record CompactSummary =
  sm_IncidentID :: string
  sm_RunID :: string
  sm_SeedFingerprint :: string
  sm_WorkloadFingerprint :: string
  sm_ControlledLoad :: bool
  sm_IsolationBoundary :: string
  sm_Baseline :: "Candidate option"
  sm_Passing :: "Candidate option"
  sm_Rejected :: "Candidate option"

text \<open>
  A candidate variable of the loop counts as unset while its candidate id is empty; the zero value is
  \<open>None\<close>.
\<close>

definition unset :: "Candidate option \<Rightarrow> bool" where
  "unset c = (case c of None \<Rightarrow> True | Some x \<Rightarrow> ca_CandidateID x = [])"

fun pick :: "Candidate option \<times> Candidate option \<times> Candidate option \<Rightarrow> Candidate list \<Rightarrow> Candidate option \<times> Candidate option \<times> Candidate option" where
  "pick (b, p, j) [] = (b, p, j)"
| "pick (b, p, j) (c # cs) =
    (if IsBaseline c \<and> unset b then pick (Some c, p, j) cs
     else if ca_Decision c = DecisionPass \<and> unset p then pick (b, Some c, j) cs
     else if ca_Decision c \<noteq> DecisionPass \<and> unset j then pick (b, p, Some c) cs
     else pick (b, p, j) cs)"

fun BuildCompactSummary :: "PRun list \<Rightarrow> CompactSummary option" where
  "BuildCompactSummary [] = None"
| "BuildCompactSummary (r # rs) =
    (case pick (None, None, None) (rn_Candidates r) of (b, p, j) \<Rightarrow>
       if unset b \<or> unset p then BuildCompactSummary rs
       else Some \<lparr>sm_IncidentID = rn_IncidentID r, sm_RunID = rn_ID r, sm_SeedFingerprint = rn_SeedFingerprint r,
         sm_WorkloadFingerprint = rn_WorkloadFingerprint r, sm_ControlledLoad = rn_ControlledLoad r,
         sm_IsolationBoundary = rn_IsolationBoundary r, sm_Baseline = b, sm_Passing = p, sm_Rejected = j\<rparr>)"

definition first_baseline :: "Candidate list \<Rightarrow> Candidate option" where
  "first_baseline cs = find (\<lambda>c. IsBaseline c \<and> ca_CandidateID c \<noteq> []) cs"

fun bound_runs :: "nat \<Rightarrow> PRun list \<Rightarrow> PRun list" where
  "bound_runs budget [] = []"
| "bound_runs budget (r # rs) =
    (let others = take budget (filter (\<lambda>c. \<not> IsBaseline c) (rn_Candidates r));
         bounded = (case first_baseline (rn_Candidates r) of Some b \<Rightarrow> b # others | None \<Rightarrow> others);
         left = budget - length others
     in r\<lparr>rn_Candidates := bounded\<rparr> # (if left = 0 then [] else bound_runs left rs))"

definition BoundArchiveRuns :: "PRun list \<Rightarrow> PRun list" where
  "BoundArchiveRuns rs = bound_runs 12 (take 3 rs)"

definition TotalCandidates :: "PRun list \<Rightarrow> nat" where
  "TotalCandidates rs = sum_list (map (\<lambda>r. length (filter (\<lambda>c. \<not> IsBaseline c) (rn_Candidates r))) rs)"

section \<open>Helpers of the runner\<close>

text \<open>Sizes are 64-bit: the difference wraps, and the smallest value is its own negation.\<close>

definition storageDeltaBytes :: "64 word \<Rightarrow> 64 word \<Rightarrow> 64 word" where
  "storageDeltaBytes baseline candidate = (let d = candidate - baseline in if sint d < 0 then - d else d)"

definition label_char :: "char \<Rightarrow> bool" where
  "label_char c = ((97 \<le> (of_char c :: nat) \<and> (of_char c :: nat) \<le> 122) \<or> (48 \<le> (of_char c :: nat) \<and> (of_char c :: nat) \<le> 57))"

text \<open>
  The label of a branch as the name of a schema. The source reads runes and the model bytes: each byte of a rune
  outside ASCII writes at most the one underscore the rune does.
\<close>

fun schema_label :: "string \<Rightarrow> string \<Rightarrow> string" where
  "schema_label b [] = b"
| "schema_label b (c # cs) =
    (if length b \<ge> 47 then b
     else if label_char c then schema_label (b @ [c]) cs
     else if b \<noteq> [] \<and> last b \<noteq> CHR ''_'' then schema_label (b @ ''_'') cs
     else schema_label b cs)"

definition safeSchemaLabel :: "string \<Rightarrow> string" where
  "safeSchemaLabel label = (let us = (\<lambda>c. c = CHR ''_'') in
     rev (dropWhile us (rev (dropWhile us (schema_label [] (ToLower label))))))"

definition schema_name :: "string \<Rightarrow> string \<Rightarrow> string" where
  "schema_name shortHash label = ''rp_'' @ shortHash @ ''_'' @ safeSchemaLabel label"

section \<open>Judgement\<close>

lemma decisions_neq [simp]:
  "DecisionFail \<noteq> DecisionPass" "DecisionReject \<noteq> DecisionPass" "DecisionPass \<noteq> DecisionFail" "DecisionPass \<noteq> DecisionReject"
  by (simp_all add: DecisionPass_def DecisionFail_def DecisionReject_def)

text \<open>What a candidate must have shown to pass; the baseline, and what calls itself one, need not show anything.\<close>

definition proven :: "Candidate \<Rightarrow> bool" where
  "proven c \<longleftrightarrow> ca_BusinessProbePass c \<and> ca_Consistent c \<and> allowedWriteImpact (ca_WriteImpact c)"

lemma Evaluate_pass: "fst (Evaluate c) = DecisionPass \<longleftrightarrow> candidate_Validate c = None \<and> (IsBaseline c \<or> proven c)"
  by (auto simp: Evaluate_def proven_def split: option.splits)

lemma validate_candidates_None:
  "validate_candidates r cs = None \<longleftrightarrow> (\<forall>c\<in>set cs. ca_TenantID c = rn_TenantID r \<and> ca_IncidentID c = rn_IncidentID r \<and>
     ca_RunID c = rn_ID r \<and> candidate_Validate c = None)"
  by (induction cs) (auto split: option.splits)

lemma run_Validate_None:
  assumes "run_Validate r = None"
  shows "rn_TenantID r \<noteq> []" "rn_IncidentID r \<noteq> []" "rn_ID r \<noteq> []" "validate_candidates r (rn_Candidates r) = None"
  using assms by (auto simp: run_Validate_def split: if_splits)

section \<open>Archives are bounded\<close>

lemma bound_runs_length: "length (bound_runs n rs) \<le> length rs"
  by (induction n rs rule: bound_runs.induct) (auto simp: Let_def)

lemma others_not_baseline: "filter (\<lambda>c. \<not> IsBaseline c) (take n (filter (\<lambda>c. \<not> IsBaseline c) cs)) = take n (filter (\<lambda>c. \<not> IsBaseline c) cs)"
  by (rule filter_True) (auto dest: in_set_takeD)

lemma first_baseline_is: "first_baseline cs = Some b \<Longrightarrow> b \<in> set cs \<and> IsBaseline b \<and> ca_CandidateID b \<noteq> []"
  unfolding first_baseline_def using find_Some_mem by fastforce

lemma bound_runs_total: "TotalCandidates (bound_runs n rs) \<le> n"
proof (induction n rs rule: bound_runs.induct)
  case (2 budget r rs)
  let ?o = "take budget (filter (\<lambda>c. \<not> IsBaseline c) (rn_Candidates r))"
  have o: "length (filter (\<lambda>c. \<not> IsBaseline c) (case first_baseline (rn_Candidates r) of Some b \<Rightarrow> b # ?o | None \<Rightarrow> ?o)) = length ?o"
    by (auto simp: others_not_baseline split: option.split dest: first_baseline_is)
  let ?rest = "if budget - length ?o = 0 then [] else bound_runs (budget - length ?o) rs"
  have "TotalCandidates ?rest \<le> budget - length ?o" using 2[OF refl refl refl] by (simp add: TotalCandidates_def)
  moreover have "TotalCandidates (bound_runs budget (r # rs)) = length ?o + TotalCandidates ?rest"
    using o by (simp add: TotalCandidates_def Let_def)
  moreover have "length ?o \<le> budget" by simp
  ultimately show ?case by linarith
qed (simp add: TotalCandidates_def)

lemma bound_runs_one_baseline:
  "r \<in> set (bound_runs n rs) \<Longrightarrow> length (filter IsBaseline (rn_Candidates r)) \<le> 1"
proof (induction n rs rule: bound_runs.induct)
  case (2 budget q rs)
  let ?o = "take budget (filter (\<lambda>c. \<not> IsBaseline c) (rn_Candidates q))"
  have "filter IsBaseline ?o = []" by (auto simp: filter_empty_conv dest: in_set_takeD)
  then have "length (filter IsBaseline (case first_baseline (rn_Candidates q) of Some b \<Rightarrow> b # ?o | None \<Rightarrow> ?o)) \<le> 1"
    by (auto split: option.split)
  with 2 show ?case by (auto simp: Let_def split: if_splits)
qed simp

text \<open>
  What a reader of an incident's archive gets is bounded: at most three runs, at most twelve candidates
  over all of them, and at most one baseline in each.
\<close>

theorem archive_bounded:
  "length (BoundArchiveRuns rs) \<le> 3 \<and> TotalCandidates (BoundArchiveRuns rs) \<le> 12 \<and>
   (\<forall>r. r \<in> set (BoundArchiveRuns rs) \<longrightarrow> length (filter IsBaseline (rn_Candidates r)) \<le> 1)"
proof -
  have "length (BoundArchiveRuns rs) \<le> length (take 3 rs)" unfolding BoundArchiveRuns_def by (rule bound_runs_length)
  then show ?thesis using bound_runs_total[of 12 "take 3 rs"] bound_runs_one_baseline[of _ 12 "take 3 rs"]
    by (auto simp: BoundArchiveRuns_def)
qed

theorem archive_bounded_witness:
  "length (BoundArchiveRuns []) \<le> 3"
  using archive_bounded[of "[]"] by simp

section \<open>Schema names\<close>

lemma schema_label_chars:
  "\<forall>c\<in>set b. label_char c \<or> c = CHR ''_'' \<Longrightarrow> \<forall>c\<in>set (schema_label b s). label_char c \<or> c = CHR ''_''"
  by (induction b s rule: schema_label.induct) auto

lemma schema_label_length: "length b \<le> 47 \<Longrightarrow> length (schema_label b s) \<le> 47"
  by (induction b s rule: schema_label.induct) auto

text \<open>
  The name of a preview schema, which the runner pastes into its SQL, consists of lower-case letters,
  digits and underscores whatever the candidate is called, and its label has at most 47 characters.
\<close>

theorem schema_name_plain:
  "(\<forall>c. c \<in> set (safeSchemaLabel label) \<longrightarrow> label_char c \<or> c = CHR ''_'') \<and> length (safeSchemaLabel label) \<le> 47"
proof -
  let ?l = "schema_label [] (ToLower label)" and ?us = "\<lambda>c. c = CHR ''_''"
  have "set (safeSchemaLabel label) \<subseteq> set ?l" unfolding safeSchemaLabel_def Let_def
    by (auto dest!: set_dropWhileD)
  moreover have "length (safeSchemaLabel label) \<le> length ?l"
    using length_dropWhile_le[of ?us "rev (dropWhile ?us ?l)"] length_dropWhile_le[of ?us ?l]
    by (simp add: safeSchemaLabel_def Let_def)
  moreover have "\<forall>c\<in>set ?l. label_char c \<or> c = CHR ''_''" by (rule schema_label_chars) simp
  moreover have "length ?l \<le> 47" by (rule schema_label_length) simp
  ultimately show ?thesis by auto
qed

theorem schema_name_plain_witness:
  "safeSchemaLabel ''Resize pool; DROP'' = ''resize_pool_drop'' \<and> length (safeSchemaLabel ''Resize pool; DROP'') \<le> 47"
proof -
  have "safeSchemaLabel ''Resize pool; DROP'' = ''resize_pool_drop''" by code_simp
  then show ?thesis using schema_name_plain[of "''Resize pool; DROP''"] by blast
qed

end
