(* ===== verification/Preview_Store.thy ===== *)
theory Preview_Store
  imports Preview_Model "HOL-Library.Multiset"
begin

text \<open>
  The store of repair previews (\<^verbatim>\<open>internal/control/repairpreview/repository.go\<close>, the constraints of
  \<^verbatim>\<open>migrate.go\<close>) and the gate that a recovery must pass (\<^verbatim>\<open>gate.go\<close>). Tables are lists of rows in
  insertion order; one entry of \<open>pd_faults\<close> decides whether a statement fails, and with which
  message. A transaction that ends with an error leaves the tables as they were. The collation of the
  database is the argument \<open>le\<close> of the reads that order by strings.
\<close>

section \<open>Rows\<close>

record runRow =
  rr_ID :: string
  rr_RunID :: string
  rr_TenantID :: string
  rr_IncidentID :: string
  rr_BranchPrefix :: string
  rr_SeedFingerprint :: string
  rr_WorkloadFingerprint :: string
  rr_WorkloadRevision :: string
  rr_ControlledLoad :: bool
  rr_IsolationBoundary :: string
  rr_Status :: string
  rr_StartedAt :: instant
  rr_FinishedAt :: "instant option"
  rr_ErrorSummary :: string
  rr_ArtifactRef :: string
  rr_CreatedAt :: instant
  rr_UpdatedAt :: instant

record runBindingRow =
  rb_RunID :: string
  rb_BindingFingerprint :: string
  rb_ScenarioID :: string
  rb_IdempotencyKey :: string
  rb_TargetFingerprint :: string

record candidateRow =
  cw_Candidate :: Candidate
  cw_CreatedAt :: instant

record preview_db =
  pd_runs :: "runRow list"
  pd_candidates :: "candidateRow list"
  pd_bindings :: "runBindingRow list"
  pd_faults :: "string option list"

datatype preview_error =
    PvInvalid string
  | PvBinding string
  | ErrDuplicateRun
  | ErrCandidateNotFound
  | PvNotFound
  | PvStaleWorkload
  | PvNotEligible
  | PvRead
  | PvDriver string

definition runRowFromRun :: "PRun \<Rightarrow> runRow" where
  "runRowFromRun r = \<lparr>rr_ID = rn_ID r, rr_RunID = rn_ID r, rr_TenantID = rn_TenantID r, rr_IncidentID = rn_IncidentID r,
     rr_BranchPrefix = rn_BranchPrefix r, rr_SeedFingerprint = rn_SeedFingerprint r,
     rr_WorkloadFingerprint = rn_WorkloadFingerprint r, rr_WorkloadRevision = rn_WorkloadRevision r,
     rr_ControlledLoad = rn_ControlledLoad r, rr_IsolationBoundary = rn_IsolationBoundary r, rr_Status = rn_Status r,
     rr_StartedAt = rn_StartedAt r, rr_FinishedAt = (if rn_FinishedAt r = 0 then None else Some (rn_FinishedAt r)),
     rr_ErrorSummary = SanitizeErrorSummary (rn_ErrorSummary r), rr_ArtifactRef = rn_ArtifactRef r,
     rr_CreatedAt = rn_CreatedAt r, rr_UpdatedAt = rn_UpdatedAt r\<rparr>"

definition finishedAtFromRow :: "runRow \<Rightarrow> instant" where
  "finishedAtFromRow row = (case rr_FinishedAt row of None \<Rightarrow> 0 | Some t \<Rightarrow> t)"

definition runFromRow :: "runRow \<Rightarrow> PRun" where
  "runFromRow row = \<lparr>rn_ID = rr_ID row, rn_TenantID = rr_TenantID row, rn_IncidentID = rr_IncidentID row,
     rn_ScenarioID = [], rn_IdempotencyKey = [], rn_TargetFingerprint = [], rn_BindingFingerprint = [],
     rn_BranchPrefix = rr_BranchPrefix row, rn_SeedFingerprint = rr_SeedFingerprint row,
     rn_WorkloadFingerprint = rr_WorkloadFingerprint row, rn_WorkloadRevision = rr_WorkloadRevision row,
     rn_ControlledLoad = rr_ControlledLoad row, rn_IsolationBoundary = rr_IsolationBoundary row, rn_Status = rr_Status row,
     rn_StartedAt = rr_StartedAt row, rn_FinishedAt = finishedAtFromRow row, rn_ErrorSummary = rr_ErrorSummary row,
     rn_ArtifactRef = rr_ArtifactRef row, rn_Candidates = [], rn_CreatedAt = rr_CreatedAt row, rn_UpdatedAt = rr_UpdatedAt row\<rparr>"

definition runBindingRowFromRun :: "preview_lib \<Rightarrow> PRun \<Rightarrow> (preview_error, runBindingRow option) result" where
  "runBindingRowFromRun lib r =
    (if rn_ScenarioID r = [] \<and> rn_IdempotencyKey r = [] \<and> rn_TargetFingerprint r = [] \<and> rn_BindingFingerprint r = [] then Ok None
     else if rn_ScenarioID r = [] \<or> rn_IdempotencyKey r = [] \<or> rn_TargetFingerprint r = []
       then Err (PvBinding ''repair preview: incomplete run binding'')
     else if binding_Fingerprint lib (run_binding r (rn_ScenarioID r) (rn_IdempotencyKey r) (rn_TargetFingerprint r)) \<noteq> rn_BindingFingerprint r
       then Err (PvBinding ''repair preview: run binding fingerprint mismatch'')
     else Ok (Some \<lparr>rb_RunID = rn_ID r, rb_BindingFingerprint = rn_BindingFingerprint r, rb_ScenarioID = rn_ScenarioID r,
       rb_IdempotencyKey = rn_IdempotencyKey r, rb_TargetFingerprint = rn_TargetFingerprint r\<rparr>))"

section \<open>Statements\<close>

definition isUniqueConstraintError :: "string \<Rightarrow> bool" where
  "isUniqueConstraintError message = (let m = ToLower message in
     Contains m ''unique constraint'' \<or> Contains m ''duplicate key value'' \<or> Contains m ''duplicate entry'')"

text \<open>A statement: its failure, or its effect. Inserting a row that violates a unique key reports it.\<close>

definition pv_stmt :: "preview_db \<Rightarrow> string option \<times> preview_db" where
  "pv_stmt db = (case pd_faults db of [] \<Rightarrow> (None, db) | f # fs \<Rightarrow> (f, db\<lparr>pd_faults := fs\<rparr>))"

definition pv_insert :: "(preview_db \<Rightarrow> bool) \<Rightarrow> (preview_db \<Rightarrow> preview_db) \<Rightarrow> preview_db \<Rightarrow> preview_error err \<times> preview_db" where
  "pv_insert clash put db0 = (case pv_stmt db0 of
     (Some msg, db) \<Rightarrow> (Some (if isUniqueConstraintError msg then ErrDuplicateRun else PvDriver msg), db)
   | (None, db) \<Rightarrow> if clash db then (Some ErrDuplicateRun, db) else (None, put db))"

definition create_run :: "runRow \<Rightarrow> preview_db \<Rightarrow> preview_error err \<times> preview_db" where
  "create_run row = pv_insert (\<lambda>db. list_ex (\<lambda>x. rr_ID x = rr_ID row \<or>
       (rr_TenantID x = rr_TenantID row \<and> rr_IncidentID x = rr_IncidentID row \<and> rr_RunID x = rr_RunID row)) (pd_runs db))
     (\<lambda>db. db\<lparr>pd_runs := pd_runs db @ [row]\<rparr>)"

definition create_candidate :: "candidateRow \<Rightarrow> preview_db \<Rightarrow> preview_error err \<times> preview_db" where
  "create_candidate row = pv_insert (\<lambda>db. list_ex (\<lambda>x. ca_ID (cw_Candidate x) = ca_ID (cw_Candidate row) \<or>
       (ca_RunID (cw_Candidate x) = ca_RunID (cw_Candidate row) \<and> ca_CandidateID (cw_Candidate x) = ca_CandidateID (cw_Candidate row))) (pd_candidates db))
     (\<lambda>db. db\<lparr>pd_candidates := pd_candidates db @ [row]\<rparr>)"

definition create_binding :: "runBindingRow \<Rightarrow> preview_db \<Rightarrow> preview_error err \<times> preview_db" where
  "create_binding row = pv_insert (\<lambda>db. list_ex (\<lambda>x. rb_RunID x = rb_RunID row) (pd_bindings db))
     (\<lambda>db. db\<lparr>pd_bindings := pd_bindings db @ [row]\<rparr>)"

fun create_candidates :: "candidateRow list \<Rightarrow> preview_db \<Rightarrow> preview_error err \<times> preview_db" where
  "create_candidates [] db = (None, db)"
| "create_candidates (c # cs) db = (case create_candidate c db of
     (Some e, db1) \<Rightarrow> (Some e, db1)
   | (None, db1) \<Rightarrow> create_candidates cs db1)"

section \<open>Saving\<close>

definition judged :: "Candidate \<Rightarrow> Candidate" where
  "judged c = c\<lparr>ca_Decision := fst (Evaluate c), ca_RejectionReason := snd (Evaluate c)\<rparr>"

definition save_tx :: "runRow \<Rightarrow> candidateRow list \<Rightarrow> runBindingRow option \<Rightarrow> preview_db \<Rightarrow> preview_error err \<times> preview_db" where
  "save_tx row cands bind db = (case create_run row db of
     (Some e, db1) \<Rightarrow> (Some e, db1)
   | (None, db1) \<Rightarrow> (case create_candidates cands db1 of
       (Some e, db2) \<Rightarrow> (Some e, db2)
     | (None, db2) \<Rightarrow> (case bind of None \<Rightarrow> (None, db2) | Some b \<Rightarrow> create_binding b db2)))"

definition Save :: "preview_lib \<Rightarrow> instant \<Rightarrow> PRun \<Rightarrow> preview_db \<Rightarrow> preview_error err \<times> preview_db" where
  "Save lib now r db = (case run_Validate r of
     Some e \<Rightarrow> (Some (PvInvalid e), db)
   | None \<Rightarrow>
       (let r1 = r\<lparr>rn_CreatedAt := (if rn_CreatedAt r = 0 then now else rn_CreatedAt r), rn_UpdatedAt := now,
              rn_ErrorSummary := SanitizeErrorSummary (rn_ErrorSummary r)\<rparr>;
            rows = map (\<lambda>c. \<lparr>cw_Candidate = judged c, cw_CreatedAt = now\<rparr>) (rn_Candidates r1)
        in case runBindingRowFromRun lib r1 of
             Err e \<Rightarrow> (Some e, db)
           | Ok bind \<Rightarrow> (case save_tx (runRowFromRun r1) rows bind db of
               (Some e, db1) \<Rightarrow> (Some e, db\<lparr>pd_faults := pd_faults db1\<rparr>)
             | (None, db1) \<Rightarrow> (None, db1))))"

section \<open>Reading\<close>

fun insert_by :: "('a \<Rightarrow> 'a \<Rightarrow> bool) \<Rightarrow> 'a \<Rightarrow> 'a list \<Rightarrow> 'a list" where
  "insert_by before x [] = [x]"
| "insert_by before x (y # ys) = (if before x y then x # y # ys else y # insert_by before x ys)"

definition order_by :: "('a \<Rightarrow> 'a \<Rightarrow> bool) \<Rightarrow> 'a list \<Rightarrow> 'a list" where
  "order_by before xs = foldr (insert_by before) xs []"

type_synonym collation = "string \<Rightarrow> string \<Rightarrow> bool"

definition run_before :: "collation \<Rightarrow> runRow \<Rightarrow> runRow \<Rightarrow> bool" where
  "run_before le x y = (rr_StartedAt y < rr_StartedAt x \<or> (rr_StartedAt x = rr_StartedAt y \<and> le (rr_ID y) (rr_ID x)))"

definition candidate_before :: "collation \<Rightarrow> candidateRow \<Rightarrow> candidateRow \<Rightarrow> bool" where
  "candidate_before le x y = (let a = cw_Candidate x; b = cw_Candidate y in
     (le (ca_CandidateID a) (ca_CandidateID b) \<and> \<not> le (ca_CandidateID b) (ca_CandidateID a)) \<or>
     (le (ca_CandidateID a) (ca_CandidateID b) \<and> le (ca_ID a) (ca_ID b)))"

definition page_limit :: "int \<Rightarrow> nat" where
  "page_limit limit = nat (let l = (if limit \<le> 0 then 20 else limit) in if l > 50 then 50 else l)"

definition with_binding :: "runBindingRow list \<Rightarrow> PRun \<Rightarrow> PRun" where
  "with_binding binds r = (case find (\<lambda>b. rb_RunID b = rn_ID r) (rev binds) of
     None \<Rightarrow> r
   | Some b \<Rightarrow> r\<lparr>rn_ScenarioID := rb_ScenarioID b, rn_IdempotencyKey := rb_IdempotencyKey b,
       rn_TargetFingerprint := rb_TargetFingerprint b, rn_BindingFingerprint := rb_BindingFingerprint b\<rparr>)"

definition with_candidates :: "candidateRow list \<Rightarrow> PRun \<Rightarrow> PRun" where
  "with_candidates cands r = r\<lparr>rn_Candidates := map cw_Candidate (filter (\<lambda>c. ca_RunID (cw_Candidate c) = rn_ID r) cands)\<rparr>"

definition ListByIncident :: "collation \<Rightarrow> string \<Rightarrow> string \<Rightarrow> int \<Rightarrow> preview_db \<Rightarrow> (preview_error, PRun list) result \<times> preview_db" where
  "ListByIncident le tenantID incidentID limit db0 =
    (if tenantID = [] \<or> incidentID = [] then (Err (PvInvalid ''repair preview: tenant and incident ids are required''), db0)
     else (case pv_stmt db0 of
         (Some e, db1) \<Rightarrow> (Err (PvDriver e), db1)
       | (None, db1) \<Rightarrow>
           (let rows = take (page_limit limit) (order_by (run_before le)
                  (filter (\<lambda>x. rr_TenantID x = tenantID \<and> rr_IncidentID x = incidentID) (pd_runs db1)));
                ids = map rr_ID rows
            in case (if rows = [] then (None, db1) else pv_stmt db1) of
                 (Some e, db2) \<Rightarrow> (Err (PvDriver e), db2)
               | (None, db2) \<Rightarrow>
                   (let cands = order_by (candidate_before le) (filter (\<lambda>c. ca_RunID (cw_Candidate c) \<in> set ids) (pd_candidates db2))
                    in case pv_stmt db2 of
                         (Some e, db3) \<Rightarrow> (Err (PvDriver e), db3)
                       | (None, db3) \<Rightarrow>
                           (let binds = filter (\<lambda>b. rb_RunID b \<in> set ids) (pd_bindings db3)
                            in (Ok (map (\<lambda>row. with_candidates cands (with_binding binds (runFromRow row))) rows), db3))))))"

text \<open>\<^verbatim>\<open>First\<close> orders by the primary key.\<close>

definition FindEligible :: "collation \<Rightarrow> string \<Rightarrow> string \<Rightarrow> string \<Rightarrow> string \<Rightarrow> string \<Rightarrow> preview_db \<Rightarrow> (preview_error, Candidate) result \<times> preview_db" where
  "FindEligible le tenantID incidentID runID candidateID action db0 =
    (if tenantID = [] \<or> incidentID = [] \<or> runID = [] \<or> candidateID = [] \<or> action = [] then (Err ErrCandidateNotFound, db0)
     else if candidateID = BaselineCandidateID \<or> action = BaselineAction then (Err ErrCandidateNotFound, db0)
     else (case pv_stmt db0 of
         (Some e, db) \<Rightarrow> (Err (PvDriver e), db)
       | (None, db) \<Rightarrow>
           (case order_by (\<lambda>x y. le (ca_ID (cw_Candidate x)) (ca_ID (cw_Candidate y)))
                (filter (\<lambda>x. let c = cw_Candidate x in ca_TenantID c = tenantID \<and> ca_IncidentID c = incidentID \<and> ca_RunID c = runID \<and>
                   ca_CandidateID c = candidateID \<and> ca_Action c = action \<and> ca_Decision c = DecisionPass) (pd_candidates db)) of
              [] \<Rightarrow> (Err ErrCandidateNotFound, db)
            | row # _ \<Rightarrow> (Ok (cw_Candidate row), db))))"

section \<open>The gate\<close>

text \<open>The gate's checks on what the list returned; then the store is asked once more.\<close>

definition gate_select :: "string \<Rightarrow> string \<Rightarrow> string \<Rightarrow> string \<Rightarrow> string \<Rightarrow> string \<Rightarrow> PRun list \<Rightarrow> (preview_error, Candidate) result" where
  "gate_select expected tenantID incidentID runID candidateID action runs =
    (case find (\<lambda>r. rn_TenantID r = tenantID \<and> rn_IncidentID r = incidentID \<and> rn_ID r = runID) runs of
       None \<Rightarrow> Err PvNotFound
     | Some r \<Rightarrow>
         if expected \<noteq> [] \<and> rn_WorkloadFingerprint r \<noteq> expected then Err PvStaleWorkload
         else (case find (\<lambda>c. ca_TenantID c = tenantID \<and> ca_IncidentID c = incidentID \<and> ca_RunID c = runID \<and> ca_CandidateID c = candidateID) (rn_Candidates r) of
             None \<Rightarrow> Err PvNotFound
           | Some c \<Rightarrow> if ca_Action c \<noteq> action \<or> ca_Decision c \<noteq> DecisionPass then Err PvNotEligible else Ok c))"

record preview_gate =
  gt_repository :: bool
  gt_expected :: string

definition Eligible :: "collation \<Rightarrow> preview_gate \<Rightarrow> string \<Rightarrow> string \<Rightarrow> string \<Rightarrow> string \<Rightarrow> string \<Rightarrow> preview_db \<Rightarrow> preview_error err \<times> preview_db" where
  "Eligible le g tenantID incidentID runID candidateID action db =
    (if tenantID = [] \<or> incidentID = [] \<or> runID = [] \<or> candidateID = [] \<or> action = [] then (Some PvNotFound, db)
     else if \<not> gt_repository g then (Some PvNotFound, db)
     else if candidateID = BaselineCandidateID \<or> action = BaselineAction then (Some PvNotEligible, db)
     else (case ListByIncident le tenantID incidentID 50 db of
         (Err e, db1) \<Rightarrow> (Some PvRead, db1)
       | (Ok runs, db1) \<Rightarrow>
           (case gate_select (gt_expected g) tenantID incidentID runID candidateID action runs of
              Err e \<Rightarrow> (Some e, db1)
            | Ok c \<Rightarrow>
                (case FindEligible le tenantID incidentID runID candidateID action db1 of
                   (Err e, db2) \<Rightarrow> (Some PvNotEligible, db2)
                 | (Ok c2, db2) \<Rightarrow> if ca_ID c2 \<noteq> ca_ID c \<or> ca_Decision c2 \<noteq> DecisionPass then (Some PvNotEligible, db2) else (None, db2)))))"

section \<open>Statements and tables\<close>

text \<open>Two databases with the same tables; statements that read only consume outcomes.\<close>

definition same_tables :: "preview_db \<Rightarrow> preview_db \<Rightarrow> bool" where
  "same_tables db db' \<longleftrightarrow> pd_runs db' = pd_runs db \<and> pd_candidates db' = pd_candidates db \<and> pd_bindings db' = pd_bindings db"

lemma same_tables_refl [simp]: "same_tables db db"
  by (simp add: same_tables_def)

lemma same_tables_trans: "same_tables a b \<Longrightarrow> same_tables b c \<Longrightarrow> same_tables a c"
  by (simp add: same_tables_def)

lemma pv_stmt_tables: "pv_stmt db = (f, db') \<Longrightarrow> same_tables db db'"
  by (auto simp: pv_stmt_def same_tables_def split: list.splits)

lemma ListByIncident_tables: "ListByIncident le t i n db = (res, db') \<Longrightarrow> same_tables db db'"
  by (auto simp: ListByIncident_def Let_def split: if_splits prod.splits option.splits
      dest!: pv_stmt_tables intro: same_tables_trans)

lemma insert_by_mset: "mset (insert_by b x xs) = add_mset x (mset xs)"
  by (induction xs) auto

lemma order_by_mset [simp]: "mset (order_by b xs) = mset xs"
  unfolding order_by_def by (induction xs) (auto simp: insert_by_mset)

lemma order_by_set [simp]: "set (order_by b xs) = set xs"
  by (metis order_by_mset set_mset_mset)

lemma order_by_length [simp]: "length (order_by b xs) = length xs"
  by (metis order_by_mset size_mset)

section \<open>What is stored\<close>

definition cw_ID :: "candidateRow \<Rightarrow> string" where "cw_ID row = ca_ID (cw_Candidate row)"

lemma Evaluate_verdict: "Evaluate (c\<lparr>ca_Decision := d, ca_RejectionReason := e\<rparr>) = Evaluate c"
  by (simp add: Evaluate_def candidate_Validate_def IsBaseline_def)

lemma Evaluate_judged [simp]: "Evaluate (judged c) = Evaluate c"
  unfolding judged_def by (rule Evaluate_verdict)

lemma judged_sel [simp]:
  "ca_ID (judged c) = ca_ID c" "ca_RunID (judged c) = ca_RunID c" "ca_CandidateID (judged c) = ca_CandidateID c"
  "ca_Decision (judged c) = fst (Evaluate c)"
  by (simp_all add: judged_def)

text \<open>
  The invariant of the store: identifiers are unique, every candidate carries the verdict that its own
  measurements deserve, and candidates and bindings belong to stored runs.
\<close>

definition pv_ok :: "preview_db \<Rightarrow> bool" where
  "pv_ok db \<longleftrightarrow> distinct (map rr_ID (pd_runs db)) \<and> distinct (map cw_ID (pd_candidates db)) \<and>
     (\<forall>row\<in>set (pd_candidates db). ca_Decision (cw_Candidate row) = fst (Evaluate (cw_Candidate row)) \<and>
        ca_RunID (cw_Candidate row) \<in> rr_ID ` set (pd_runs db)) \<and>
     (\<forall>b\<in>set (pd_bindings db). rb_RunID b \<in> rr_ID ` set (pd_runs db))"

lemma pv_ok_same: "same_tables db db' \<Longrightarrow> pv_ok db' = pv_ok db"
  by (simp add: pv_ok_def same_tables_def)

lemma pv_insert_ok:
  assumes "pv_insert clash put db = (None, db')"
  obtains db1 where "same_tables db db1" "\<not> clash db1" "db' = put db1"
  using assms by (auto simp: pv_insert_def split: prod.splits option.splits if_splits dest!: pv_stmt_tables)

lemma create_run_ok:
  assumes "create_run row db = (None, db')"
  shows "pd_runs db' = pd_runs db @ [row]" "rr_ID row \<notin> rr_ID ` set (pd_runs db)"
    "pd_candidates db' = pd_candidates db" "pd_bindings db' = pd_bindings db"
  using assms unfolding create_run_def by (auto elim!: pv_insert_ok simp: same_tables_def list_ex_iff)

lemma create_binding_ok:
  assumes "create_binding row db = (None, db')"
  shows "pd_bindings db' = pd_bindings db @ [row]" "pd_runs db' = pd_runs db" "pd_candidates db' = pd_candidates db"
  using assms unfolding create_binding_def by (auto elim!: pv_insert_ok simp: same_tables_def)

lemma create_candidate_ok:
  assumes "create_candidate row db = (None, db')"
  shows "pd_candidates db' = pd_candidates db @ [row]" "cw_ID row \<notin> cw_ID ` set (pd_candidates db)"
    "pd_runs db' = pd_runs db" "pd_bindings db' = pd_bindings db"
  using assms unfolding create_candidate_def by (auto elim!: pv_insert_ok simp: same_tables_def list_ex_iff cw_ID_def)

lemma create_candidates_ok:
  assumes "create_candidates rows db = (None, db')" "distinct (map cw_ID (pd_candidates db))"
  shows "pd_candidates db' = pd_candidates db @ rows \<and> pd_runs db' = pd_runs db \<and> pd_bindings db' = pd_bindings db \<and>
    distinct (map cw_ID (pd_candidates db'))"
  using assms
proof (induction rows arbitrary: db)
  case (Cons c rows)
  from Cons.prems(1) obtain db1 where c: "create_candidate c db = (None, db1)" and r: "create_candidates rows db1 = (None, db')"
    by (auto split: prod.splits option.splits)
  note ok = create_candidate_ok[OF c]
  have "distinct (map cw_ID (pd_candidates db1))" using ok(1,2) Cons.prems(2) by auto
  from Cons.IH[OF r this] ok(1,3,4) show ?case
    by (metis append.assoc append_Cons append_Nil)
qed simp

lemma Save_ok:
  assumes "Save lib now r db = (None, db')" "distinct (map cw_ID (pd_candidates db))"
  obtains row bind where "run_Validate r = None" "rr_ID row = rn_ID r" "rr_TenantID row = rn_TenantID r" "rr_IncidentID row = rn_IncidentID r"
    "rr_WorkloadFingerprint row = rn_WorkloadFingerprint r" "rr_ID row \<notin> rr_ID ` set (pd_runs db)" "pd_runs db' = pd_runs db @ [row]"
    "pd_candidates db' = pd_candidates db @ map (\<lambda>c. \<lparr>cw_Candidate = judged c, cw_CreatedAt = now\<rparr>) (rn_Candidates r)"
    "distinct (map cw_ID (pd_candidates db'))"
    "pd_bindings db' = pd_bindings db @ bind" "\<forall>b\<in>set bind. rb_RunID b = rn_ID r"
proof -
  let ?r1 = "r\<lparr>rn_CreatedAt := (if rn_CreatedAt r = 0 then now else rn_CreatedAt r), rn_UpdatedAt := now,
              rn_ErrorSummary := SanitizeErrorSummary (rn_ErrorSummary r)\<rparr>"
  let ?rows = "map (\<lambda>c. \<lparr>cw_Candidate = judged c, cw_CreatedAt = now\<rparr>) (rn_Candidates r)"
  have v: "run_Validate r = None" using assms(1) by (auto simp: Save_def split: option.splits)
  from assms(1) v obtain bo where bo: "runBindingRowFromRun lib ?r1 = Ok bo" and tx: "save_tx (runRowFromRun ?r1) ?rows bo db = (None, db')"
    by (auto simp: Save_def Let_def split: sum.splits prod.splits option.splits)
  from tx obtain db1 db2 where c1: "create_run (runRowFromRun ?r1) db = (None, db1)" and c2: "create_candidates ?rows db1 = (None, db2)"
    and c3: "(case bo of None \<Rightarrow> (None, db2) | Some b \<Rightarrow> create_binding b db2) = (None, db')"
    by (auto simp: save_tx_def split: prod.splits option.splits)
  note k1 = create_run_ok[OF c1]
  have k2: "pd_candidates db2 = pd_candidates db1 @ ?rows \<and> pd_runs db2 = pd_runs db1 \<and> pd_bindings db2 = pd_bindings db1 \<and>
    distinct (map cw_ID (pd_candidates db2))"
    by (rule create_candidates_ok[OF c2]) (simp add: k1(3) assms(2))
  have row: "rr_ID (runRowFromRun ?r1) = rn_ID r" "rr_TenantID (runRowFromRun ?r1) = rn_TenantID r"
    "rr_IncidentID (runRowFromRun ?r1) = rn_IncidentID r" "rr_WorkloadFingerprint (runRowFromRun ?r1) = rn_WorkloadFingerprint r"
    by (simp_all add: runRowFromRun_def)
  have b: "\<exists>bind. pd_bindings db' = pd_bindings db2 @ bind \<and> (\<forall>b\<in>set bind. rb_RunID b = rn_ID r) \<and> pd_runs db' = pd_runs db2 \<and>
    pd_candidates db' = pd_candidates db2"
  proof (cases bo)
    case (Some b)
    have "rb_RunID b = rn_ID r" using bo Some by (auto simp: runBindingRowFromRun_def split: if_splits)
    then show ?thesis using create_binding_ok[of b db2 db'] c3 Some by (intro exI[of _ "[b]"]) simp
  qed (use c3 in simp)
  then obtain bind where bind: "pd_bindings db' = pd_bindings db2 @ bind" "\<forall>b\<in>set bind. rb_RunID b = rn_ID r" "pd_runs db' = pd_runs db2"
    "pd_candidates db' = pd_candidates db2" by blast
  have r: "pd_runs db' = pd_runs db @ [runRowFromRun ?r1]" using bind(3) k1(1) k2 by argo
  have c: "pd_candidates db' = pd_candidates db @ ?rows" using bind(4) k1(3) k2 by argo
  have d: "distinct (map cw_ID (pd_candidates db'))" using bind(4) k2 by argo
  have e: "pd_bindings db' = pd_bindings db @ bind" using bind(1) k1(4) k2 by argo
  show ?thesis by (rule that[OF v row k1(2) r c d e bind(2)])
qed

lemma Save_keeps:
  assumes "pv_ok db" "Save lib now r db = (e, db')"
  shows "pv_ok db'"
proof (cases e)
  case (Some x)
  then have "same_tables db db'" using assms(2)
    by (auto simp: Save_def Let_def same_tables_def split: option.splits sum.splits prod.splits)
  then show ?thesis using pv_ok_same assms(1) by blast
next
  case None
  have d: "distinct (map cw_ID (pd_candidates db))" using assms(1) by (simp add: pv_ok_def)
  from Save_ok[OF assms(2)[unfolded None] d] obtain row bind where
    k: "run_Validate r = None" "rr_ID row = rn_ID r" "rr_ID row \<notin> rr_ID ` set (pd_runs db)" "pd_runs db' = pd_runs db @ [row]"
    "pd_candidates db' = pd_candidates db @ map (\<lambda>c. \<lparr>cw_Candidate = judged c, cw_CreatedAt = now\<rparr>) (rn_Candidates r)"
    "distinct (map cw_ID (pd_candidates db'))" "pd_bindings db' = pd_bindings db @ bind" "\<forall>b\<in>set bind. rb_RunID b = rn_ID r"
    by this
  have c: "ca_RunID c = rn_ID r" if "c \<in> set (rn_Candidates r)" for c
    using run_Validate_None(4)[OF k(1)] that by (simp add: validate_candidates_None)
  have "ca_Decision (cw_Candidate q) = fst (Evaluate (cw_Candidate q)) \<and> ca_RunID (cw_Candidate q) \<in> rr_ID ` set (pd_runs db')"
    if "q \<in> set (pd_candidates db')" for q
    using that assms(1) c k(2,4,5) by (auto simp: pv_ok_def)
  moreover have "rb_RunID b \<in> rr_ID ` set (pd_runs db')" if "b \<in> set (pd_bindings db')" for b
    using that assms(1) k(2,4,7,8) by (auto simp: pv_ok_def)
  ultimately show ?thesis using assms(1) k(3,4,6) by (simp add: pv_ok_def)
qed

text \<open>Any sequence of saves, under any failures.\<close>

fun save_all :: "preview_lib \<Rightarrow> (instant \<times> PRun) list \<Rightarrow> preview_db \<Rightarrow> preview_db" where
  "save_all lib [] db = db"
| "save_all lib ((now, r) # rs) db = save_all lib rs (snd (Save lib now r db))"

definition empty_preview :: "string option list \<Rightarrow> preview_db" where
  "empty_preview faults = \<lparr>pd_runs = [], pd_candidates = [], pd_bindings = [], pd_faults = faults\<rparr>"

lemma save_all_ok: "pv_ok db \<Longrightarrow> pv_ok (save_all lib rs db)"
proof (induction lib rs db rule: save_all.induct)
  case (2 lib now r rs db)
  then show ?case using Save_keeps[OF 2(2), of lib now r] by (metis save_all.simps(2) prod.collapse)
qed simp

lemma empty_ok: "pv_ok (empty_preview fs)"
  by (simp add: pv_ok_def empty_preview_def)

section \<open>The gate is sound\<close>

lemma FindEligible_Ok:
  assumes "FindEligible le t i r c a db = (Ok x, db')"
  shows "c \<noteq> BaselineCandidateID" "\<exists>row\<in>set (pd_candidates db). cw_Candidate row = x \<and> ca_TenantID x = t \<and> ca_IncidentID x = i \<and>
    ca_RunID x = r \<and> ca_CandidateID x = c \<and> ca_Action x = a \<and> ca_Decision x = DecisionPass"
proof -
  let ?P = "\<lambda>x. let c' = cw_Candidate x in ca_TenantID c' = t \<and> ca_IncidentID c' = i \<and> ca_RunID c' = r \<and>
                   ca_CandidateID c' = c \<and> ca_Action c' = a \<and> ca_Decision c' = DecisionPass"
  from assms show "c \<noteq> BaselineCandidateID" by (auto simp: FindEligible_def split: if_splits)
  from assms obtain db1 row rest where s: "pv_stmt db = (None, db1)" and x: "x = cw_Candidate row" and
    o: "order_by (\<lambda>x y. le (ca_ID (cw_Candidate x)) (ca_ID (cw_Candidate y))) (filter ?P (pd_candidates db1)) = row # rest"
    by (auto simp: FindEligible_def split: if_splits prod.splits option.splits list.splits)
  have "row \<in> set (order_by (\<lambda>x y. le (ca_ID (cw_Candidate x)) (ca_ID (cw_Candidate y))) (filter ?P (pd_candidates db1)))"
    unfolding o by simp
  then have "row \<in> set (filter ?P (pd_candidates db1))" by (simp only: order_by_set)
  then show "\<exists>row\<in>set (pd_candidates db). cw_Candidate row = x \<and> ca_TenantID x = t \<and> ca_IncidentID x = i \<and>
    ca_RunID x = r \<and> ca_CandidateID x = c \<and> ca_Action x = a \<and> ca_Decision x = DecisionPass"
    using pv_stmt_tables[OF s] x by (auto simp: same_tables_def Let_def)
qed

lemma ListByIncident_run:
  assumes "ListByIncident le t i n db = (Ok runs, db')" "r \<in> set runs"
  shows "\<exists>row\<in>set (pd_runs db). rr_ID row = rn_ID r \<and> rr_TenantID row = t \<and> rr_IncidentID row = i \<and> rr_WorkloadFingerprint row = rn_WorkloadFingerprint r"
proof -
  let ?F = "\<lambda>x. rr_TenantID x = t \<and> rr_IncidentID x = i"
  from assms(1) obtain db1 cands binds where s: "pv_stmt db = (None, db1)" and
    runs: "runs = map (\<lambda>row. with_candidates cands (with_binding binds (runFromRow row)))
       (take (page_limit n) (order_by (run_before le) (filter ?F (pd_runs db1))))"
    by (auto simp: ListByIncident_def Let_def split: if_splits prod.splits option.splits)
  from assms(2) runs obtain row where row: "row \<in> set (take (page_limit n) (order_by (run_before le) (filter ?F (pd_runs db1))))"
    and r: "r = with_candidates cands (with_binding binds (runFromRow row))" by auto
  have "row \<in> set (filter ?F (pd_runs db1))" using in_set_takeD[OF row] by simp
  moreover have "rn_ID r = rr_ID row" "rn_WorkloadFingerprint r = rr_WorkloadFingerprint row"
    by (simp_all add: r with_candidates_def with_binding_def runFromRow_def split: option.split)
  ultimately show ?thesis using pv_stmt_tables[OF s] by (auto simp: same_tables_def)
qed

text \<open>What an open gate guarantees of the stored preview.\<close>

definition preview_backs :: "preview_db \<Rightarrow> string \<Rightarrow> string \<Rightarrow> string \<Rightarrow> string \<Rightarrow> string \<Rightarrow> string \<Rightarrow> bool" where
  "preview_backs db expected t i r cid a \<longleftrightarrow>
    (\<exists>row\<in>set (pd_runs db). rr_ID row = r \<and> rr_TenantID row = t \<and> rr_IncidentID row = i \<and>
       (expected = [] \<or> rr_WorkloadFingerprint row = expected)) \<and>
    (\<exists>row\<in>set (pd_candidates db). let c = cw_Candidate row in ca_TenantID c = t \<and> ca_IncidentID c = i \<and> ca_RunID c = r \<and>
       ca_CandidateID c = cid \<and> ca_Action c = a \<and> candidate_Validate c = None \<and> (proven c \<or> ca_Kind c = BaselineKind))"

lemma Eligible_backs:
  assumes "pv_ok db" "Eligible le g t i r cid a db = (None, db')"
  shows "preview_backs db (gt_expected g) t i r cid a \<and> same_tables db db'"
proof -
  from assms(2) obtain runs db1 c where l: "ListByIncident le t i 50 db = (Ok runs, db1)" and
    g: "gate_select (gt_expected g) t i r cid a runs = Ok c" and
    f: "\<exists>c2. FindEligible le t i r cid a db1 = (Ok c2, db')"
    by (auto simp: Eligible_def split: if_splits prod.splits sum.splits)
  from g obtain run where run: "run \<in> set runs" "rn_TenantID run = t" "rn_IncidentID run = i" "rn_ID run = r"
    "gt_expected g = [] \<or> rn_WorkloadFingerprint run = gt_expected g"
    by (auto simp: gate_select_def split: option.splits if_splits dest!: find_Some_mem)
  from f obtain c2 where f: "FindEligible le t i r cid a db1 = (Ok c2, db')" by blast
  note tb = ListByIncident_tables[OF l]
  from FindEligible_Ok[OF f] tb obtain row where row: "row \<in> set (pd_candidates db)" "cw_Candidate row = c2" and
    c2: "cid \<noteq> BaselineCandidateID" "ca_TenantID c2 = t" "ca_IncidentID c2 = i" "ca_RunID c2 = r" "ca_CandidateID c2 = cid"
      "ca_Action c2 = a" "ca_Decision c2 = DecisionPass" by (auto simp: same_tables_def)
  have "fst (Evaluate c2) = DecisionPass" using assms(1) row c2(7) by (auto simp: pv_ok_def)
  then have "candidate_Validate c2 = None \<and> (proven c2 \<or> ca_Kind c2 = BaselineKind)"
    using c2(1,5) by (auto simp: Evaluate_pass IsBaseline_def)
  moreover have "same_tables db1 db'" using f
    by (auto simp: FindEligible_def split: if_splits prod.splits option.splits list.splits dest!: pv_stmt_tables)
  ultimately show ?thesis using ListByIncident_run[OF l run(1)] run(4,5) row c2 same_tables_trans[OF tb]
    unfolding preview_backs_def Let_def by auto
qed

text \<open>
  C22. An open gate is backed by a preview: whatever was saved before and whichever statements failed, when the gate
  lets a repair through, its run is stored for this tenant and incident with the expected workload, and
  its candidate is stored with this action, is valid, and passed the business probe with results
  consistent with the baseline and a bounded write impact, unless its kind is \<^verbatim>\<open>baseline\<close>.
\<close>

theorem preview_gate_sound:
  assumes "db = save_all lib saves (empty_preview faults)"
    and "Eligible le g tenant incident run cand action db = (None, db')"
  shows "preview_backs db (gt_expected g) tenant incident run cand action"
proof -
  have "pv_ok db" unfolding assms(1) by (rule save_all_ok[OF empty_ok])
  then show ?thesis using Eligible_backs[OF _ assms(2)] by blast
qed

section \<open>Saving and listing\<close>

lemma ListByIncident_nofault:
  assumes "t \<noteq> []" "i \<noteq> []" "pd_faults db = []"
  shows "ListByIncident le t i n db = (Ok (map (\<lambda>row. with_candidates
      (order_by (candidate_before le) (filter (\<lambda>c. ca_RunID (cw_Candidate c) \<in> set (map rr_ID (take (page_limit n) (order_by (run_before le)
         (filter (\<lambda>x. rr_TenantID x = t \<and> rr_IncidentID x = i) (pd_runs db)))))) (pd_candidates db)))
      (with_binding (filter (\<lambda>b. rb_RunID b \<in> set (map rr_ID (take (page_limit n) (order_by (run_before le)
         (filter (\<lambda>x. rr_TenantID x = t \<and> rr_IncidentID x = i) (pd_runs db)))))) (pd_bindings db)) (runFromRow row)))
      (take (page_limit n) (order_by (run_before le) (filter (\<lambda>x. rr_TenantID x = t \<and> rr_IncidentID x = i) (pd_runs db))))), db)"
  using assms by (simp add: ListByIncident_def pv_stmt_def Let_def)

lemma mset_filter_in:
  "mset (filter P (order_by b (filter Q xs))) = mset (filter (\<lambda>x. Q x \<and> P x) xs)"
proof -
  have "mset (filter P (order_by b (filter Q xs))) = filter_mset P (mset (filter Q xs))"
    by (metis mset_filter order_by_mset)
  also have "\<dots> = mset (filter (\<lambda>x. Q x \<and> P x) xs)" by (metis mset_filter filter_filter)
  finally show ?thesis .
qed


section \<open>A candidate that calls itself baseline\<close>

text \<open>
  The gate refuses the baseline by its id and action only, while the judgement exempts every candidate
  whose kind is \<^verbatim>\<open>baseline\<close>: such a candidate with another id and a real action becomes eligible although
  its business probe failed and its results differ from the baseline.
\<close>

theorem baseline_kind_bypasses_preview:
  assumes "run_Validate r = None" "rn_Candidates r = [c]" "ca_Kind c = BaselineKind"
    and "ca_CandidateID c \<noteq> BaselineCandidateID" "ca_Action c \<noteq> BaselineAction"
    and "\<not> ca_BusinessProbePass c" "\<not> ca_Consistent c"
    and "rn_ScenarioID r = []" "rn_IdempotencyKey r = []" "rn_TargetFingerprint r = []" "rn_BindingFingerprint r = []"
  shows "\<exists>db. Save lib now r (empty_preview []) = (None, db) \<and>
    Eligible le \<lparr>gt_repository = True, gt_expected = rn_WorkloadFingerprint r\<rparr> (rn_TenantID r) (rn_IncidentID r) (rn_ID r) (ca_CandidateID c) (ca_Action c) db = (None, db)"
proof -
  have v: "candidate_Validate c = None" "ca_TenantID c = rn_TenantID r" "ca_IncidentID c = rn_IncidentID r" "ca_RunID c = rn_ID r"
    using run_Validate_None(4)[OF assms(1)] unfolding validate_candidates_None assms(2) by simp_all
  have ne: "ca_CandidateID c \<noteq> []" "ca_Action c \<noteq> []" using v(1) by (auto simp: candidate_Validate_def split: if_splits)
  have e: "Evaluate c = (DecisionPass, [])" using v(1) assms(3) by (simp add: Evaluate_def IsBaseline_def)
  obtain db where s: "Save lib now r (empty_preview []) = (None, db)"
    by (simp add: Save_def assms(1,2,8-11) Let_def runBindingRowFromRun_def save_tx_def create_run_def create_candidate_def
        pv_insert_def pv_stmt_def empty_preview_def)
  then obtain row where db: "pd_runs db = [row]" "pd_candidates db = [\<lparr>cw_Candidate = judged c, cw_CreatedAt = now\<rparr>]" "pd_faults db = []" "pd_bindings db = []"
    and row: "rr_ID row = rn_ID r" "rr_TenantID row = rn_TenantID r" "rr_IncidentID row = rn_IncidentID r" "rr_WorkloadFingerprint row = rn_WorkloadFingerprint r"
    by (auto simp: Save_def assms(1,2,8-11) Let_def runBindingRowFromRun_def save_tx_def create_run_def create_candidate_def
        pv_insert_def pv_stmt_def empty_preview_def runRowFromRun_def)
  note ids = run_Validate_None(1-3)[OF assms(1)]
  have p: "page_limit 50 = 50" by (simp add: page_limit_def)
  obtain r' where l: "ListByIncident le (rn_TenantID r) (rn_IncidentID r) 50 db = (Ok [r'], db)" and
    r': "rn_TenantID r' = rn_TenantID r" "rn_IncidentID r' = rn_IncidentID r" "rn_ID r' = rn_ID r"
      "rn_WorkloadFingerprint r' = rn_WorkloadFingerprint r" "rn_Candidates r' = [judged c]"
    using ListByIncident_nofault[OF ids(1,2) db(3), of le 50]
    by (simp add: db row p order_by_def v(4) with_candidates_def with_binding_def runFromRow_def)
  have j: "ca_TenantID (judged c) = rn_TenantID r" "ca_IncidentID (judged c) = rn_IncidentID r" "ca_RunID (judged c) = rn_ID r"
    "ca_CandidateID (judged c) = ca_CandidateID c" "ca_Action (judged c) = ca_Action c" "ca_Decision (judged c) = DecisionPass"
    using v e by (simp_all add: judged_def)
  have g: "gate_select (rn_WorkloadFingerprint r) (rn_TenantID r) (rn_IncidentID r) (rn_ID r) (ca_CandidateID c) (ca_Action c) [r'] = Ok (judged c)"
    by (simp add: gate_select_def r' j del: judged_sel)
  have f: "FindEligible le (rn_TenantID r) (rn_IncidentID r) (rn_ID r) (ca_CandidateID c) (ca_Action c) db = (Ok (judged c), db)"
    using ids ne assms(4,5) j by (simp add: FindEligible_def pv_stmt_def db order_by_def Let_def del: judged_sel)
  show ?thesis using s ids ne assms(4,5) by (intro exI[of _ db]) (simp add: Eligible_def l g f j del: judged_sel)
qed

section \<open>Concrete previews\<close>

definition demo_plib :: preview_lib where
  "demo_plib = \<lparr>pb_decodeYAML = (\<lambda>s. Err ''unused''), pb_marshalSpec = (\<lambda>w. None), pb_marshalBinding = (\<lambda>b. Some (wb_RunID b)), pb_sha256hex = (\<lambda>s. s)\<rparr>"

definition demo_candidate :: Candidate where
  "demo_candidate = \<lparr>ca_ID = ''c-1'', ca_RunID = ''run-1'', ca_TenantID = ''t'', ca_IncidentID = ''inc'', ca_CandidateID = ''resize'',
     ca_Name = ''n'', ca_Kind = ''config'', ca_Action = ''resize_pool'', ca_ChangeSummary = ''s'', ca_Branch = ''b'',
     ca_ResultChecksum = ''x'', ca_Consistent = True, ca_AverageLatencyMS = Fin 1, ca_MedianLatencyMS = Fin 1, ca_P95LatencyMS = Fin 1,
     ca_SampleCount = 1, ca_TPS = Fin 1, ca_ErrorCount = 0, ca_WriteImpact = ''none'', ca_StorageDeltaBytes = 0,
     ca_BusinessProbePass = True, ca_Decision = [], ca_RejectionReason = []\<rparr>"

definition demo_prun :: "Candidate \<Rightarrow> PRun" where
  "demo_prun c = \<lparr>rn_ID = ''run-1'', rn_TenantID = ''t'', rn_IncidentID = ''inc'', rn_ScenarioID = [], rn_IdempotencyKey = [],
     rn_TargetFingerprint = [], rn_BindingFingerprint = [], rn_BranchPrefix = ''p'', rn_SeedFingerprint = ''s'',
     rn_WorkloadFingerprint = ''w'', rn_WorkloadRevision = ''1'', rn_ControlledLoad = True, rn_IsolationBoundary = ''i'',
     rn_Status = ''finished'', rn_StartedAt = 1, rn_FinishedAt = 2, rn_ErrorSummary = [], rn_ArtifactRef = [],
     rn_Candidates = [c], rn_CreatedAt = 0, rn_UpdatedAt = 0\<rparr>"

definition demo_preview_db :: preview_db where
  "demo_preview_db = save_all demo_plib [(5, demo_prun demo_candidate)] (empty_preview [])"

theorem preview_gate_sound_witness:
  "preview_backs demo_preview_db ''w'' ''t'' ''inc'' ''run-1'' ''resize'' ''resize_pool''"
proof -
  have e: "fst (Eligible (\<lambda>x y. True) \<lparr>gt_repository = True, gt_expected = ''w''\<rparr> ''t'' ''inc'' ''run-1'' ''resize'' ''resize_pool'' demo_preview_db) = None"
    by code_simp
  then obtain db' where "Eligible (\<lambda>x y. True) \<lparr>gt_repository = True, gt_expected = ''w''\<rparr> ''t'' ''inc'' ''run-1'' ''resize'' ''resize_pool'' demo_preview_db = (None, db')"
    by (metis prod.collapse)
  from preview_gate_sound[OF demo_preview_db_def this] show ?thesis by simp
qed


theorem baseline_kind_bypasses_preview_witness:
  "\<exists>db. Eligible (\<lambda>x y. True) \<lparr>gt_repository = True, gt_expected = ''w''\<rparr> ''t'' ''inc'' ''run-1'' ''resize'' ''resize_pool'' db = (None, db)"
proof -
  let ?c = "demo_candidate\<lparr>ca_Kind := ''baseline'', ca_BusinessProbePass := False, ca_Consistent := False\<rparr>"
  have v: "run_Validate (demo_prun ?c) = None" by code_simp
  have k: "ca_Kind ?c = BaselineKind" by (simp add: BaselineKind_def)
  have i: "ca_CandidateID ?c \<noteq> BaselineCandidateID" "ca_Action ?c \<noteq> BaselineAction"
    by (simp_all add: demo_candidate_def BaselineCandidateID_def BaselineAction_def)
  from baseline_kind_bypasses_preview[OF v _ k i, of demo_plib 5 "\<lambda>x y. True"] show ?thesis
    by (auto simp: demo_prun_def demo_candidate_def)
qed

end
