(* ===== verification/Recov_Execute.thy ===== *)
theory Recov_Execute
  imports Hitl_AgentTeams Preview_Store
begin

text \<open>
  The tool that changes things: \<^verbatim>\<open>recovery.execute\<close>
  (\<^verbatim>\<open>internal/manager/biz/aiops/tools/recovery_execute_basetool.go\<close>) and the reservation of approved proposals
  it relies on (\<^verbatim>\<open>internal/manager/data/hitl/store/recovery_audit.go\<close>, wired by \<^verbatim>\<open>cmd/opskeeper/main.go\<close>).
  Here the proposals, the repair previews and the hosts meet: an agent's repair has to be approved by
  people, backed by a preview, and is then performed once.

  The restart dispatcher, the process fixture and the pool fixture are interfaces of the source; what
  they answer is the record \<open>rec_ext\<close>, one per call. The changes a call asks them for are its trace.
  JSON is the record \<open>rec_codec\<close>.
\<close>

section \<open>Reservations\<close>

record RecoveryApprovalQuery =
  rq_ProposalID :: string
  rq_SessionID :: string
  rq_Kind :: string
  rq_Action :: string
  rq_Resource :: string
  rq_Execution :: RecoveryExecutionParameters
  rq_Now :: instant

datatype rec_error =
    RcStore hitl_error
  | RcForbidden
  | RcDecode
  | RcMarshal

definition recoveryExecutionLeaseDuration :: int where "recoveryExecutionLeaseDuration = 5 * Minute"

type_synonym params_codec = "RecoveryExecutionParameters \<Rightarrow> string option"

definition ReserveApprovedForRecovery :: "codec \<Rightarrow> params_codec \<Rightarrow> RecoveryApprovalQuery \<Rightarrow> hitl_db \<Rightarrow> rec_error err \<times> hitl_db" where
  "ReserveApprovedForRecovery cd pj q db =
    (if rq_ProposalID q = [] \<or> rq_SessionID q = [] \<or> rq_Kind q = [] \<or> rq_Action q = [] \<or> rq_Resource q = [] \<or>
        rx_Command (rq_Execution q) = [] \<or> rq_Now q = 0 then (Some (RcStore ErrInvalid), db)
     else (case Get (rq_ProposalID q) db of
         (Err e, db1) \<Rightarrow> (Some (RcStore e), db1)
       | (Ok p, db1) \<Rightarrow>
           if p_Kind p \<noteq> rq_Kind q \<or> p_SessionID p \<noteq> rq_SessionID q \<or> p_State p \<noteq> StateApproved then (Some RcForbidden, db1)
           else if (case p_ExpiresAt p of None \<Rightarrow> True | Some t \<Rightarrow> t \<le> rq_Now q) then (Some RcForbidden, db1)
           else (case cd_decode cd (p_PayloadJSON p) of
               None \<Rightarrow> (Some RcDecode, db1)
             | Some pl \<Rightarrow>
                 if pl_IncidentID pl \<noteq> rq_SessionID q \<or> pl_Action pl \<noteq> rq_Action q \<or> pl_Resource pl \<noteq> rq_Resource q
                   then (Some RcForbidden, db1)
                 else (case (pj (pl_Parameters pl), pj (rq_Execution q)) of
                     (Some approved, Some requested) \<Rightarrow>
                       if approved \<noteq> requested then (Some RcForbidden, db1)
                       else (case Transition (p_ID p) StateApproved
                             ((to_state StateExecuting)\<lparr>f_ExecutionLeaseExpiresAt := Some (rq_Now q + recoveryExecutionLeaseDuration)\<rparr>) db1 of
                           (Some e, db2) \<Rightarrow> (Some (RcStore e), db2)
                         | (None, db2) \<Rightarrow> (None, db2))
                   | _ \<Rightarrow> (Some RcMarshal, db1)))))"

definition executionLeaseExpired :: "Proposal \<Rightarrow> instant \<Rightarrow> bool" where
  "executionLeaseExpired p now = (case p_ExecutionLeaseExpiresAt p of None \<Rightarrow> False | Some t \<Rightarrow> t \<le> now)"

definition store_err :: "hitl_error err \<times> hitl_db \<Rightarrow> rec_error err \<times> hitl_db" where
  "store_err x = (map_option RcStore (fst x), snd x)"

definition CompleteRecoveryExecution :: "string \<Rightarrow> bool \<Rightarrow> string \<Rightarrow> instant \<Rightarrow> hitl_db \<Rightarrow> rec_error err \<times> hitl_db" where
  "CompleteRecoveryExecution pid success resultJSON now db =
    (if pid = [] \<or> now = 0 then (Some (RcStore ErrInvalid), db)
     else (case Get pid db of
         (Err e, db1) \<Rightarrow> (Some (RcStore e), db1)
       | (Ok p, db1) \<Rightarrow>
           (let late = success \<and> executionLeaseExpired p now;
                to = (if success \<and> \<not> late then StateExecuted else StateFailed);
                reason = (if \<not> success then ''recovery execution failed''
                          else if late then ''recovery execution lease expired'' else ''recovery executed'');
                res = (if late then [] else resultJSON)
            in store_err (Transition pid StateExecuting
                 ((to_state to)\<lparr>f_Reason := Some reason, f_ResultJSON := Some res, f_ExecutedAt := Some now\<rparr>) db1))))"

definition RecoverExpiredRecoveryExecution :: "string \<Rightarrow> instant \<Rightarrow> hitl_db \<Rightarrow> rec_error err \<times> hitl_db" where
  "RecoverExpiredRecoveryExecution pid now db =
    (if pid = [] \<or> now = 0 then (Some (RcStore ErrInvalid), db)
     else (case Get pid db of
         (Err e, db1) \<Rightarrow> (Some (RcStore e), db1)
       | (Ok p, db1) \<Rightarrow>
           if p_State p \<noteq> StateExecuting \<or> \<not> executionLeaseExpired p now then (Some (RcStore ErrConflict), db1)
           else store_err (Transition pid StateExecuting
             ((to_state StateFailed)\<lparr>f_Reason := Some ''recovery execution lease expired'', f_ExecutedAt := Some now\<rparr>) db1)))"

section \<open>The tool\<close>

record RecoveryExecuteArgs =
  ra_IncidentID :: string
  ra_ProposalID :: string
  ra_SkillID :: string
  ra_Target :: string
  ra_ResourceType :: string
  ra_Parameters :: string

record recoveryExecuteParameters =
  xp_Command :: string
  xp_DeviceID :: uint64
  xp_Service :: string
  xp_Reason :: string
  xp_IncidentID :: string
  xp_FixtureManifestID :: string
  xp_PoolManifestID :: string
  xp_PreviewRunID :: string
  xp_PreviewCandidateID :: string
  xp_SkipAudit :: bool

record HostFixtureStatus =
  hf_ManifestID :: string
  hf_IncidentID :: string
  hf_Resource :: string
  hf_Status :: string

record PoolFixtureStatus =
  pf_ManifestID :: string
  pf_IncidentID :: string
  pf_Resource :: string
  pf_Status :: string
  pf_FailedProbe :: string

record recoveryExecuteEnvelope =
  ev_SchemaVersion :: string
  ev_IncidentID :: string
  ev_Executed :: bool
  ev_Command :: string
  ev_RestartedAt :: instant
  ev_ResultJSON :: string

datatype mutation =
    MRestart uint64 string string
  | MKill string string
  | MResize string string string

text \<open>
  \<open>rc_params\<close> is the strict decoder of the parameters, with whether the input ended there;
  \<open>rc_env\<close> encodes the answer, \<open>rc_valid\<close> is \<^verbatim>\<open>json.Valid\<close>.
\<close>

record rec_codec =
  rc_args :: "string \<Rightarrow> (string, RecoveryExecuteArgs) result"
  rc_params :: "string \<Rightarrow> (string, recoveryExecuteParameters \<times> bool) result"
  rc_env :: "recoveryExecuteEnvelope \<Rightarrow> string option"
  rc_valid :: "string \<Rightarrow> bool"
  rc_payload :: codec
  rc_canonical :: params_codec

record rec_ext =
  xt_now :: instant
  xt_done :: instant
  xt_hostStatus :: "string \<Rightarrow> string \<Rightarrow> (string, HostFixtureStatus) result"
  xt_poolStatus :: "string \<Rightarrow> string \<Rightarrow> (string, PoolFixtureStatus) result"
  xt_mutate :: "mutation \<Rightarrow> (string, string) result"

text \<open>What is wired into the tool.\<close>

record RecoveryExecuteTool =
  tl_dispatcher :: bool
  tl_terminator :: bool
  tl_poolRecoverer :: bool
  tl_auditRepo :: bool
  tl_previewGate :: "preview_gate option"

datatype tool_error =
    TeArgs string
  | TeProposalRequired
  | TeAuditRequired
  | TeFixture string
  | TePool string
  | TeTarget
  | TeGateRequired
  | TePreview preview_error
  | TeReserve rec_error
  | TeMarshal
  | TeExec string
  | TeComplete rec_error
  | TeExecAndComplete tool_error rec_error

abbreviation "ActRestart \<equiv> ''restart_service''"
abbreviation "ActKill \<equiv> ''kill_process''"
abbreviation "ActResize \<equiv> ''resize_pool''"

definition decode_call :: "rec_codec \<Rightarrow> string \<Rightarrow> (tool_error, RecoveryExecuteArgs \<times> recoveryExecuteParameters) result" where
  "decode_call rc argsJSON = (case rc_args rc argsJSON of
     Err e \<Rightarrow> Err (TeArgs e)
   | Ok a \<Rightarrow>
       if ra_IncidentID a = [] then Err (TeArgs ''incident_id required'')
       else if ra_SkillID a = [] then Err (TeArgs ''skill_id required'')
       else if ra_Target a = [] then Err (TeArgs ''target required'')
       else if ra_ResourceType a = [] then Err (TeArgs ''resource_type required'')
       else if ra_Parameters a = [] then Err (TeArgs ''parameters required'')
       else (case rc_params rc (ra_Parameters a) of
           Err e \<Rightarrow> Err (TeArgs e)
         | Ok (x, eof) \<Rightarrow>
             if \<not> eof then Err (TeArgs ''bad parameters: expected exactly one JSON object'')
             else if xp_Command x = [] then Err (TeArgs ''parameters.command required'')
             else Ok (a, x)))"

text \<open>The shape each command must have; \<open>agent\<close> says that the caller is an AgentTeams worker.\<close>

definition check_command :: "RecoveryExecuteTool \<Rightarrow> bool \<Rightarrow> recoveryExecuteParameters \<Rightarrow> tool_error option" where
  "check_command t agent x =
    (let c = xp_Command x in
     if agent \<and> (c = ActRestart \<or> c = ActKill \<or> c = ActResize) \<and> (xp_PreviewRunID x = [] \<or> xp_PreviewCandidateID x = [])
       then Some (TeArgs ''preview_run_id and preview_candidate_id are required for this AgentTeams command'')
     else if xp_SkipAudit x \<and> (agent \<or> c = ActKill \<or> c = ActResize)
       then Some (TeArgs ''skip_audit is forbidden for this caller and command'')
     else if c \<noteq> ActRestart \<and> c \<noteq> ActKill \<and> c \<noteq> ActResize \<and> c \<noteq> ''noop''
       then Some (TeArgs ''unknown parameters.command'')
     else if c = ActRestart then
       (if xp_DeviceID x = 0 \<or> xp_Service x = [] \<or> xp_Reason x = [] \<or> xp_IncidentID x \<noteq> [] \<or> xp_FixtureManifestID x \<noteq> [] \<or> xp_PoolManifestID x \<noteq> []
          then Some (TeArgs ''restart_service requires device_id, service, and reason only'')
        else if \<not> tl_dispatcher t then Some (TeArgs ''inner dispatcher (host_restart_service) not wired'') else None)
     else if c = ActKill then
       (if xp_IncidentID x = [] \<or> xp_FixtureManifestID x = [] \<or> xp_Reason x = [] \<or> xp_DeviceID x \<noteq> 0 \<or> xp_Service x \<noteq> [] \<or> xp_PoolManifestID x \<noteq> []
          then Some (TeArgs ''kill_process requires incident_id, fixture_manifest_id, and reason only'')
        else if \<not> tl_terminator t then Some (TeArgs ''host fixture terminator not wired'') else None)
     else if c = ActResize then
       (if xp_IncidentID x = [] \<or> xp_PoolManifestID x = [] \<or> xp_Reason x = [] \<or> xp_DeviceID x \<noteq> 0 \<or> xp_Service x \<noteq> [] \<or> xp_FixtureManifestID x \<noteq> []
          then Some (TeArgs ''resize_pool requires incident_id, pool_manifest_id, and reason only'')
        else if \<not> tl_poolRecoverer t then Some (TeArgs ''pool fixture recovery executor not wired'') else None)
     else if agent then Some (TeArgs ''agentteams callers support only restart_service|kill_process|resize_pool'') else None)"

definition gated :: "RecoveryExecuteTool \<Rightarrow> bool \<Rightarrow> recoveryExecuteParameters \<Rightarrow> bool" where
  "gated t agent x = ((\<not> xp_SkipAudit x \<and> tl_auditRepo t) \<or> agent \<or> xp_Command x = ActKill \<or> xp_Command x = ActResize)"

text \<open>The fixture that a destructive command names must be the incident's own, and in need of it.\<close>

definition check_fixture :: "rec_ext \<Rightarrow> RecoveryExecuteArgs \<Rightarrow> recoveryExecuteParameters \<Rightarrow> tool_error option" where
  "check_fixture xt a x =
    (if xp_Command x = ActKill then
       (case xt_hostStatus xt (ra_IncidentID a) (xp_FixtureManifestID x) of
          Err e \<Rightarrow> Some (TeFixture e)
        | Ok s \<Rightarrow>
            if ra_ResourceType a \<noteq> ''host'' \<or> ra_Target a \<noteq> hf_Resource s \<or> hf_ManifestID s \<noteq> xp_FixtureManifestID x \<or>
               hf_IncidentID s \<noteq> ra_IncidentID a \<or> xp_IncidentID x \<noteq> ra_IncidentID a \<or> hf_Status s \<noteq> ''running''
            then Some TeTarget else None)
     else if xp_Command x = ActResize then
       (case xt_poolStatus xt (ra_IncidentID a) (xp_PoolManifestID x) of
          Err e \<Rightarrow> Some (TePool e)
        | Ok s \<Rightarrow>
            if ra_ResourceType a \<noteq> ''pg'' \<or> ra_Target a \<noteq> pf_Resource s \<or> pf_ManifestID s \<noteq> xp_PoolManifestID x \<or>
               pf_IncidentID s \<noteq> ra_IncidentID a \<or> xp_IncidentID x \<noteq> ra_IncidentID a \<or> pf_Status s \<noteq> ''running'' \<or> pf_FailedProbe s \<noteq> ''failed''
            then Some TeTarget else None)
     else None)"

definition execution_params :: "recoveryExecuteParameters \<Rightarrow> RecoveryExecutionParameters" where
  "execution_params x = \<lparr>rx_Command = xp_Command x, rx_DeviceID = xp_DeviceID x, rx_Service = xp_Service x, rx_Reason = xp_Reason x,
     rx_IncidentID = xp_IncidentID x, rx_FixtureManifestID = xp_FixtureManifestID x, rx_PoolManifestID = xp_PoolManifestID x,
     rx_PreviewRunID = xp_PreviewRunID x, rx_PreviewCandidateID = xp_PreviewCandidateID x\<rparr>"

definition approval_query :: "RecoveryExecuteArgs \<Rightarrow> recoveryExecuteParameters \<Rightarrow> instant \<Rightarrow> RecoveryApprovalQuery" where
  "approval_query a x now = \<lparr>rq_ProposalID = ra_ProposalID a, rq_SessionID = ra_IncidentID a, rq_Kind = KindAgentTeams,
     rq_Action = xp_Command x, rq_Resource = ra_Target a, rq_Execution = execution_params x, rq_Now = now\<rparr>"

record rec_dbs =
  rs_hitl :: hitl_db
  rs_preview :: preview_db

text \<open>The preview gate for an AgentTeams caller of the tenant, then the reservation.\<close>

definition pass_preview :: "collation \<Rightarrow> RecoveryExecuteTool \<Rightarrow> string option \<Rightarrow> RecoveryExecuteArgs \<Rightarrow> recoveryExecuteParameters \<Rightarrow> rec_dbs \<Rightarrow> tool_error option \<times> rec_dbs" where
  "pass_preview le t caller a x dbs = (case caller of
     None \<Rightarrow> (None, dbs)
   | Some tenant \<Rightarrow>
       (case tl_previewGate t of
          None \<Rightarrow> (Some TeGateRequired, dbs)
        | Some g \<Rightarrow>
            (case Eligible le g tenant (ra_IncidentID a) (xp_PreviewRunID x) (xp_PreviewCandidateID x) (xp_Command x) (rs_preview dbs) of
               (Some e, pdb) \<Rightarrow> (Some (TePreview e), dbs\<lparr>rs_preview := pdb\<rparr>)
             | (None, pdb) \<Rightarrow> (None, dbs\<lparr>rs_preview := pdb\<rparr>))))"

definition pass_gate :: "collation \<Rightarrow> rec_codec \<Rightarrow> RecoveryExecuteTool \<Rightarrow> rec_ext \<Rightarrow> string option \<Rightarrow> RecoveryExecuteArgs \<Rightarrow> recoveryExecuteParameters \<Rightarrow> rec_dbs \<Rightarrow> tool_error option \<times> rec_dbs" where
  "pass_gate le rc t xt caller a x dbs =
    (if ra_ProposalID a = [] then (Some TeProposalRequired, dbs)
     else if \<not> tl_auditRepo t then (Some TeAuditRequired, dbs)
     else (case check_fixture xt a x of
         Some e \<Rightarrow> (Some e, dbs)
       | None \<Rightarrow>
           (case pass_preview le t caller a x dbs of
              (Some e, dbs1) \<Rightarrow> (Some e, dbs1)
            | (None, dbs1) \<Rightarrow>
                (case ReserveApprovedForRecovery (rc_payload rc) (rc_canonical rc) (approval_query a x (xt_now xt)) (rs_hitl dbs1) of
                   (Some e, hdb) \<Rightarrow> (Some (TeReserve e), dbs1\<lparr>rs_hitl := hdb\<rparr>)
                 | (None, hdb) \<Rightarrow> (None, dbs1\<lparr>rs_hitl := hdb\<rparr>)))))"

definition completeReservedProposal :: "RecoveryExecuteTool \<Rightarrow> rec_ext \<Rightarrow> string \<Rightarrow> bool \<Rightarrow> string \<Rightarrow> rec_dbs \<Rightarrow> rec_error err \<times> rec_dbs" where
  "completeReservedProposal t xt pid success resultJSON dbs =
    (if pid = [] \<or> \<not> tl_auditRepo t then (None, dbs)
     else (case CompleteRecoveryExecution pid success resultJSON (xt_done xt) (rs_hitl dbs) of (e, hdb) \<Rightarrow> (e, dbs\<lparr>rs_hitl := hdb\<rparr>)))"

definition finishReservedProposal :: "RecoveryExecuteTool \<Rightarrow> rec_ext \<Rightarrow> string \<Rightarrow> string \<Rightarrow> tool_error \<Rightarrow> rec_dbs \<Rightarrow> tool_error \<times> rec_dbs" where
  "finishReservedProposal t xt pid resultJSON cause dbs =
    (case completeReservedProposal t xt pid False resultJSON dbs of
       (Some e, dbs1) \<Rightarrow> (TeExecAndComplete cause e, dbs1)
     | (None, dbs1) \<Rightarrow> (cause, dbs1))"

definition answer :: "rec_codec \<Rightarrow> RecoveryExecuteTool \<Rightarrow> rec_ext \<Rightarrow> RecoveryExecuteArgs \<Rightarrow> recoveryExecuteEnvelope \<Rightarrow> rec_dbs \<Rightarrow> (tool_error, string) result \<times> rec_dbs" where
  "answer rc t xt a env dbs = (case rc_env rc env of
     None \<Rightarrow> (case finishReservedProposal t xt (ra_ProposalID a) [] TeMarshal dbs of (e, dbs1) \<Rightarrow> (Err e, dbs1))
   | Some out \<Rightarrow>
       (case completeReservedProposal t xt (ra_ProposalID a) True out dbs of
          (Some e, dbs1) \<Rightarrow> (Err (TeComplete e), dbs1)
        | (None, dbs1) \<Rightarrow> (Ok out, dbs1)))"

definition mutation_of :: "RecoveryExecuteArgs \<Rightarrow> recoveryExecuteParameters \<Rightarrow> mutation" where
  "mutation_of a x =
    (if xp_Command x = ActKill then MKill (ra_IncidentID a) (xp_FixtureManifestID x)
     else if xp_Command x = ActResize then MResize (ra_IncidentID a) (xp_PoolManifestID x) (xp_Reason x)
     else MRestart (xp_DeviceID x) (xp_Service x) (xp_Reason x))"

definition exec_error :: "recoveryExecuteParameters \<Rightarrow> string \<Rightarrow> string" where
  "exec_error x e = ''recovery.execute: '' @
    (if xp_Command x = ActKill then ''terminate case-owned fixture process: ''
     else if xp_Command x = ActResize then ''recover incident-owned PostgreSQL pool: '' else ''dispatch: '') @ e"

text \<open>
  The call performed: for a restart the raw answer is kept only when it is JSON; the encoding of the
  restart's own arguments, two strings and a number, does not fail.
\<close>

definition perform :: "rec_codec \<Rightarrow> RecoveryExecuteTool \<Rightarrow> rec_ext \<Rightarrow> RecoveryExecuteArgs \<Rightarrow> recoveryExecuteParameters \<Rightarrow> rec_dbs \<Rightarrow> (tool_error, string) result \<times> rec_dbs \<times> mutation list" where
  "perform rc t xt a x dbs =
    (let env = \<lparr>ev_SchemaVersion = ''v1'', ev_IncidentID = ra_IncidentID a, ev_Executed = True, ev_Command = xp_Command x,
           ev_RestartedAt = xt_now xt, ev_ResultJSON = []\<rparr>
     in if xp_Command x = ''noop'' then (case answer rc t xt a env dbs of (r, dbs1) \<Rightarrow> (r, dbs1, []))
        else (case xt_mutate xt (mutation_of a x) of
            Err e \<Rightarrow> (case finishReservedProposal t xt (ra_ProposalID a) (exec_error x e) (TeExec e) dbs of (f, dbs1) \<Rightarrow> (Err f, dbs1, [mutation_of a x]))
          | Ok out \<Rightarrow>
              (let keep = xp_Command x \<noteq> ActRestart \<or> rc_valid rc out in
               case answer rc t xt a (env\<lparr>ev_ResultJSON := if keep then out else []\<rparr>) dbs of (r, dbs1) \<Rightarrow> (r, dbs1, [mutation_of a x]))))"

definition InvokableRun :: "collation \<Rightarrow> rec_codec \<Rightarrow> RecoveryExecuteTool \<Rightarrow> rec_ext \<Rightarrow> string option \<Rightarrow> string \<Rightarrow> rec_dbs \<Rightarrow> (tool_error, string) result \<times> rec_dbs \<times> mutation list" where
  "InvokableRun le rc t xt caller argsJSON dbs = (case decode_call rc argsJSON of
     Err e \<Rightarrow> (Err e, dbs, [])
   | Ok (a, x) \<Rightarrow>
       (case check_command t (caller \<noteq> None) x of
          Some e \<Rightarrow> (Err e, dbs, [])
        | None \<Rightarrow>
            if gated t (caller \<noteq> None) x
            then (case pass_gate le rc t xt caller a x dbs of
                (Some e, dbs1) \<Rightarrow> (Err e, dbs1, [])
              | (None, dbs1) \<Rightarrow> perform rc t xt a x dbs1)
            else perform rc t xt a x dbs))"

section \<open>The audit interface\<close>

text \<open>
  What the tool relies on of \<^verbatim>\<open>MutatingProposalAuditRepo\<close>: a successful reservation takes an approved
  proposal out of that state, and nothing behind the interface approves one. For its clients: whatever
  reservations, completions and recoveries of leases are issued, in any order, a proposal is reserved at
  most once.
\<close>

fun audit_trace :: "('q \<Rightarrow> 's \<Rightarrow> 'e option \<times> 's) \<Rightarrow> ('c \<Rightarrow> 's \<Rightarrow> 'e option \<times> 's) \<Rightarrow> ('q + 'c) list \<Rightarrow> 's \<Rightarrow> ('q \<times> 'e option) list" where
  "audit_trace reserve finish [] s = []"
| "audit_trace reserve finish (Inl q # ops) s = (case reserve q s of (r, s1) \<Rightarrow> (q, r) # audit_trace reserve finish ops s1)"
| "audit_trace reserve finish (Inr c # ops) s = audit_trace reserve finish ops (snd (finish c s))"

locale proposal_audit =
  fixes ok :: "'s \<Rightarrow> bool"
    and approved :: "'s \<Rightarrow> string \<Rightarrow> bool"
    and pid :: "'q \<Rightarrow> string"
    and reserve :: "'q \<Rightarrow> 's \<Rightarrow> 'e option \<times> 's"
    and finish :: "'c \<Rightarrow> 's \<Rightarrow> 'e option \<times> 's"
  assumes reserve_law: "ok s \<Longrightarrow> reserve q s = (r, s') \<Longrightarrow>
      ok s' \<and> (approved s' i \<longrightarrow> approved s i) \<and> (r = None \<longrightarrow> approved s (pid q) \<and> \<not> approved s' (pid q))"
    and finish_law: "ok s \<Longrightarrow> finish c s = (r, s') \<Longrightarrow> ok s' \<and> (approved s' i \<longrightarrow> approved s i)"
begin

lemma reserved_count:
  "ok s \<Longrightarrow> length (filter (\<lambda>(q, r). pid q = i \<and> r = None) (audit_trace reserve finish ops s)) \<le> (if approved s i then 1 else 0)"
proof (induction ops arbitrary: s)
  case (Cons x ops)
  show ?case
  proof (cases x)
    case (Inl q)
    obtain r s1 where r: "reserve q s = (r, s1)" by fastforce
    note law = reserve_law[OF Cons.prems r]
    have "length (filter (\<lambda>(q, r). pid q = i \<and> r = None) (audit_trace reserve finish ops s1)) \<le> (if approved s1 i then 1 else 0)"
      using Cons.IH law by blast
    then show ?thesis using law[of i] Inl r by (auto split: if_splits)
  next
    case (Inr c)
    obtain r s1 where r: "finish c s = (r, s1)" by fastforce
    note law = finish_law[OF Cons.prems r]
    have "length (filter (\<lambda>(q, r). pid q = i \<and> r = None) (audit_trace reserve finish ops s1)) \<le> (if approved s1 i then 1 else 0)"
      using Cons.IH law by blast
    then show ?thesis using law[of i] Inr r by (auto split: if_splits)
  qed
qed simp

end

section \<open>The store keeps the audit contract\<close>

definition is_approved :: "hitl_db \<Rightarrow> string \<Rightarrow> bool" where
  "is_approved db i = (case find_proposal db i of None \<Rightarrow> False | Some p \<Rightarrow> p_State p = StateApproved)"

lemma Transition_approved:
  assumes "db_ok db" "Transition i from f db = (r, db')" "f_ToState f \<noteq> StateApproved"
  shows "db_ok db' \<and> (is_approved db' j \<longrightarrow> is_approved db j) \<and> (r = None \<longrightarrow> \<not> is_approved db' i)"
proof (cases r)
  case (Some e)
  then have t: "t_proposal db' = t_proposal db" using Transition_err assms(2) by blast
  then show ?thesis using assms(1) db_ok_keeps[OF t] find_proposal_keeps[OF t] Some by (simp add: is_approved_def)
next
  case None
  from Transition_ok[OF assms(1)] assms(2) None obtain p now where "db_ok db'" "find_proposal db i = Some p"
    "find_proposal db' = (find_proposal db)(i \<mapsto> apply_fields now f p)" by blast
  then show ?thesis using assms(3) by (auto simp: is_approved_def)
qed

lemma Get_same:
  assumes "Get i db = (g, db')"
  shows "db_ok db' = db_ok db" "is_approved db' j = is_approved db j" "find_proposal db' = find_proposal db"
    "g = Ok p \<Longrightarrow> find_proposal db i = Some p"
proof -
  have t: "t_proposal db' = t_proposal db" using Get_keeps[OF assms] by blast
  show "db_ok db' = db_ok db" "is_approved db' j = is_approved db j" "find_proposal db' = find_proposal db"
    using db_ok_keeps[OF t] find_proposal_keeps[OF t] by (simp_all add: is_approved_def)
  show "g = Ok p \<Longrightarrow> find_proposal db i = Some p" using Get_keeps[OF assms] by blast
qed

lemma states_executing [simp]:
  "StateExecuting \<noteq> StateApproved" "StateExecuted \<noteq> StateApproved" "StateFailed \<noteq> StateApproved"
  by (simp_all add: state_defs)

lemma to_state_target [simp]: "f_ToState (to_state s) = s"
  by (simp add: to_state_def)

text \<open>What a successful reservation found.\<close>

definition approved_for :: "codec \<Rightarrow> params_codec \<Rightarrow> RecoveryApprovalQuery \<Rightarrow> Proposal \<Rightarrow> AgentTeamsPayload \<Rightarrow> bool" where
  "approved_for cd pj q p pl \<longleftrightarrow> p_State p = StateApproved \<and> p_Kind p = rq_Kind q \<and> p_SessionID p = rq_SessionID q \<and>
     (\<exists>t. p_ExpiresAt p = Some t \<and> rq_Now q < t) \<and> cd_decode cd (p_PayloadJSON p) = Some pl \<and>
     pl_IncidentID pl = rq_SessionID q \<and> pl_Action pl = rq_Action q \<and> pl_Resource pl = rq_Resource q \<and>
     pj (pl_Parameters pl) = pj (rq_Execution q) \<and> pj (rq_Execution q) \<noteq> None"

lemma Reserve_None:
  assumes "ReserveApprovedForRecovery cd pj q db = (None, db')"
  obtains p pl db1 f where "Get (rq_ProposalID q) db = (Ok p, db1)" "approved_for cd pj q p pl"
    "Transition (p_ID p) StateApproved f db1 = (None, db')" "f_ToState f = StateExecuting"
proof -
  let ?f = "(to_state StateExecuting)\<lparr>f_ExecutionLeaseExpiresAt := Some (rq_Now q + recoveryExecutionLeaseDuration)\<rparr>"
  from assms obtain p db1 where g: "Get (rq_ProposalID q) db = (Ok p, db1)"
    by (auto simp: ReserveApprovedForRecovery_def split: if_splits prod.splits sum.splits)
  from assms g obtain pl where a: "approved_for cd pj q p pl" and t: "Transition (p_ID p) StateApproved ?f db1 = (None, db')"
    by (auto simp: ReserveApprovedForRecovery_def approved_for_def split: if_splits option.splits prod.splits)
  show ?thesis by (rule that[OF g a t]) simp
qed

lemma Reserve_store:
  assumes "ReserveApprovedForRecovery cd pj q db = (r, db')"
  shows "db' = db \<or> (\<exists>g db1. Get (rq_ProposalID q) db = (g, db1) \<and> (db' = db1 \<or>
    (\<exists>p f e. g = Ok p \<and> Transition (p_ID p) StateApproved f db1 = (e, db') \<and> f_ToState f = StateExecuting)))"
proof -
  let ?f = "(to_state StateExecuting)\<lparr>f_ExecutionLeaseExpiresAt := Some (rq_Now q + recoveryExecutionLeaseDuration)\<rparr>"
  have f: "f_ToState ?f = StateExecuting" by simp
  obtain g db1 where g: "Get (rq_ProposalID q) db = (g, db1)" by fastforce
  have "db' = db \<or> db' = db1 \<or> (\<exists>p e. g = Ok p \<and> Transition (p_ID p) StateApproved ?f db1 = (e, db'))"
    using assms g by (auto simp: ReserveApprovedForRecovery_def split: if_splits option.splits prod.splits sum.splits)
  then show ?thesis using g f by blast
qed

lemma find_id: "find_proposal db i = Some p \<Longrightarrow> p_ID p = i"
  unfolding find_proposal_def by (auto dest: find_Some_mem)

lemma Reserve_law:
  assumes "db_ok db" "ReserveApprovedForRecovery cd pj q db = (r, db')"
  shows "db_ok db' \<and> (is_approved db' i \<longrightarrow> is_approved db i) \<and>
    (r = None \<longrightarrow> is_approved db (rq_ProposalID q) \<and> \<not> is_approved db' (rq_ProposalID q))"
proof -
  from Reserve_store[OF assms(2)] have 1: "db_ok db' \<and> (is_approved db' i \<longrightarrow> is_approved db i)"
  proof (elim disjE exE conjE)
    fix g db1 assume g: "Get (rq_ProposalID q) db = (g, db1)"
    show ?thesis if "db' = db1" using that Get_same[OF g] assms(1) by simp
    fix p f e assume "Transition (p_ID p) StateApproved f db1 = (e, db')" "f_ToState f = StateExecuting"
    then show ?thesis using Transition_approved[of db1 "p_ID p" StateApproved f e db' i] Get_same[OF g] assms(1) by simp
  qed (use assms(1) in simp)
  have 2: "is_approved db (rq_ProposalID q) \<and> \<not> is_approved db' (rq_ProposalID q)" if r: "r = None"
  proof -
    from Reserve_None[OF assms(2)[unfolded r]] obtain p pl db1 f where g: "Get (rq_ProposalID q) db = (Ok p, db1)" "approved_for cd pj q p pl"
      "Transition (p_ID p) StateApproved f db1 = (None, db')" "f_ToState f = StateExecuting" .
    have p: "find_proposal db (rq_ProposalID q) = Some p" by (rule Get_same(4)[OF g(1) refl])
    have "\<not> is_approved db' (p_ID p)" using Transition_approved[OF _ g(3)] g(4) Get_same(1)[OF g(1)] assms(1) by simp
    then show ?thesis using p find_id[OF p] g(2) by (simp add: is_approved_def approved_for_def)
  qed
  show ?thesis using 1 2 by blast
qed

datatype audit_end = AComplete string bool string instant | AExpire string instant

definition audit_finish :: "audit_end \<Rightarrow> hitl_db \<Rightarrow> rec_error err \<times> hitl_db" where
  "audit_finish c db = (case c of
     AComplete i success res now \<Rightarrow> CompleteRecoveryExecution i success res now db
   | AExpire i now \<Rightarrow> RecoverExpiredRecoveryExecution i now db)"

lemma finish_store:
  assumes "audit_finish c db = (r, db')"
  shows "db' = db \<or> (\<exists>i g db1. Get i db = (g, db1) \<and> (db' = db1 \<or>
    (\<exists>f e. Transition i StateExecuting f db1 = (e, db') \<and> f_ToState f \<noteq> StateApproved)))"
proof (cases c)
  case (AComplete i success res now)
  obtain g db1 where g: "Get i db = (g, db1)" by fastforce
  have "db' = db \<or> db' = db1 \<or> (\<exists>f e. Transition i StateExecuting f db1 = (e, db') \<and> f_ToState f \<noteq> StateApproved)"
  proof (cases "i = [] \<or> now = 0")
    case False
    show ?thesis
    proof (cases g)
      case (Inr p)
      define f where "f = (to_state (if success \<and> \<not> (success \<and> executionLeaseExpired p now) then StateExecuted else StateFailed))
        \<lparr>f_Reason := Some (if \<not> success then ''recovery execution failed''
           else if success \<and> executionLeaseExpired p now then ''recovery execution lease expired'' else ''recovery executed''),
         f_ResultJSON := Some (if success \<and> executionLeaseExpired p now then [] else res), f_ExecutedAt := Some now\<rparr>"
      have "db' = snd (Transition i StateExecuting f db1)"
        using assms AComplete False g Inr by (simp add: audit_finish_def CompleteRecoveryExecution_def Let_def store_err_def f_def)
      moreover have "f_ToState f \<noteq> StateApproved" by (simp add: f_def)
      ultimately show ?thesis by (metis prod.collapse)
    qed (use assms AComplete False g in \<open>simp add: audit_finish_def CompleteRecoveryExecution_def\<close>)
  qed (use assms AComplete in \<open>auto simp: audit_finish_def CompleteRecoveryExecution_def\<close>)
  then show ?thesis using g by blast
next
  case (AExpire i now)
  obtain g db1 where g: "Get i db = (g, db1)" by fastforce
  have "db' = db \<or> db' = db1 \<or> (\<exists>f e. Transition i StateExecuting f db1 = (e, db') \<and> f_ToState f \<noteq> StateApproved)"
  proof -
    define f where "f = (to_state StateFailed)\<lparr>f_Reason := Some ''recovery execution lease expired'', f_ExecutedAt := Some now\<rparr>"
    have "db' = db \<or> db' = db1 \<or> db' = snd (Transition i StateExecuting f db1)"
      using assms AExpire g by (auto simp: audit_finish_def RecoverExpiredRecoveryExecution_def store_err_def f_def split: if_splits sum.splits)
    moreover have "f_ToState f \<noteq> StateApproved" by (simp add: f_def)
    ultimately show ?thesis by (metis prod.collapse)
  qed
  then show ?thesis using g by blast
qed

lemma finish_keeps:
  assumes "db_ok db" "audit_finish c db = (r, db')"
  shows "db_ok db' \<and> (is_approved db' i \<longrightarrow> is_approved db i)"
  using finish_store[OF assms(2)]
proof (elim disjE exE conjE)
  fix k g db1 assume g: "Get k db = (g, db1)"
  show ?thesis if "db' = db1" using that Get_same[OF g] assms(1) by simp
  fix f e assume "Transition k StateExecuting f db1 = (e, db')" "f_ToState f \<noteq> StateApproved"
  then show ?thesis using Transition_approved[of db1 k StateExecuting f e db' i] Get_same[OF g] assms(1) by simp
qed (use assms(1) in simp)

interpretation audit: proposal_audit db_ok is_approved rq_ProposalID "ReserveApprovedForRecovery cd pj" audit_finish for cd pj
  by unfold_locales (use Reserve_law finish_keeps in blast)+

text \<open>
  C20. One approval, one execution: over any sequence of reservations, completions and recoveries of expired
  leases, in any order and under any statement failures, a proposal is reserved successfully at most once.
\<close>

theorem approval_reserved_once:
  assumes "db_ok db"
  shows "length (filter (\<lambda>(q, r). rq_ProposalID q = i \<and> r = None) (audit_trace (ReserveApprovedForRecovery cd pj) audit_finish ops db)) \<le> 1"
  using audit.reserved_count[OF assms, of i cd pj ops] by (simp split: if_splits)

section \<open>No repair without preview and approval\<close>

definition params_mutation :: "string \<Rightarrow> RecoveryExecutionParameters \<Rightarrow> mutation" where
  "params_mutation incident r =
    (if rx_Command r = ActKill then MKill incident (rx_FixtureManifestID r)
     else if rx_Command r = ActResize then MResize incident (rx_PoolManifestID r) (rx_Reason r)
     else MRestart (rx_DeviceID r) (rx_Service r) (rx_Reason r))"

lemma mutation_of_params: "mutation_of a x = params_mutation (ra_IncidentID a) (execution_params x)"
  by (simp add: mutation_of_def params_mutation_def execution_params_def)

lemma complete_keeps:
  assumes "completeReservedProposal t xt i ok res dbs = (e, dbs')" "db_ok (rs_hitl dbs)" "\<not> is_approved (rs_hitl dbs) j"
  shows "\<not> is_approved (rs_hitl dbs') j"
proof (cases "i = [] \<or> \<not> tl_auditRepo t")
  case False
  obtain r hdb where c: "CompleteRecoveryExecution i ok res (xt_done xt) (rs_hitl dbs) = (r, hdb)" by fastforce
  then have "audit_finish (AComplete i ok res (xt_done xt)) (rs_hitl dbs) = (r, hdb)" by (simp add: audit_finish_def)
  from finish_keeps[OF assms(2) this] have "\<not> is_approved hdb j" using assms(3) by blast
  then show ?thesis using assms(1) False c by (auto simp: completeReservedProposal_def)
qed (use assms in \<open>auto simp: completeReservedProposal_def\<close>)

lemma answer_keeps:
  assumes "answer rc t xt a env dbs = (r, dbs')" "db_ok (rs_hitl dbs)" "\<not> is_approved (rs_hitl dbs) j"
  shows "\<not> is_approved (rs_hitl dbs') j"
  using assms by (auto simp: answer_def finishReservedProposal_def split: option.splits prod.splits dest: complete_keeps)

lemma perform_keeps:
  assumes "perform rc t xt a x dbs = (r, dbs', ms)" "db_ok (rs_hitl dbs)" "\<not> is_approved (rs_hitl dbs) j"
  shows "\<not> is_approved (rs_hitl dbs') j" "ms \<noteq> [] \<Longrightarrow> ms = [mutation_of a x]"
  using assms by (auto simp: perform_def Let_def finishReservedProposal_def split: if_splits sum.splits prod.splits option.splits
      dest: answer_keeps complete_keeps)

lemma pass_gate_None:
  assumes "pass_gate le rc t xt (Some tenant) a x dbs = (None, dbs')"
  obtains g pdb where "tl_previewGate t = Some g"
    "Eligible le g tenant (ra_IncidentID a) (xp_PreviewRunID x) (xp_PreviewCandidateID x) (xp_Command x) (rs_preview dbs) = (None, pdb)"
    "ReserveApprovedForRecovery (rc_payload rc) (rc_canonical rc) (approval_query a x (xt_now xt)) (rs_hitl dbs) = (None, rs_hitl dbs')"
  using assms by (auto simp: pass_gate_def pass_preview_def split: if_splits option.splits prod.splits)

text \<open>
  C2. An agent's repair is the approved and previewed one: when a call of \<^verbatim>\<open>recovery.execute\<close> by an AgentTeams
  worker changes anything, it makes exactly one change, the one that the parameters of a proposal describe
  which people had approved for this incident and resource and which has not expired; the preview that
  those parameters name backs that command for the worker's tenant; and the proposal no longer counts as
  approved afterwards, whether the change succeeded or not. The canonical form of parameters is assumed to
  determine them.
\<close>

theorem recovery_execute_gated:
  assumes "db_ok (rs_hitl dbs)" "rs_preview dbs = save_all lib saves (empty_preview pvFaults)"
    and "\<And>u v. rc_canonical rc u = rc_canonical rc v \<Longrightarrow> rc_canonical rc u \<noteq> None \<Longrightarrow> u = v"
    and "InvokableRun le rc t xt (Some tenant) argsJSON dbs = (res, dbs', ms)" "ms \<noteq> []"
  shows "\<exists>g p pl. tl_previewGate t = Some g \<and> find_proposal (rs_hitl dbs) (p_ID p) = Some p \<and> p_State p = StateApproved \<and>
    p_Kind p = KindAgentTeams \<and> (\<exists>e. p_ExpiresAt p = Some e \<and> xt_now xt < e) \<and>
    cd_decode (rc_payload rc) (p_PayloadJSON p) = Some pl \<and> pl_IncidentID pl = p_SessionID p \<and> pl_Action pl = rx_Command (pl_Parameters pl) \<and>
    ms = [params_mutation (pl_IncidentID pl) (pl_Parameters pl)] \<and>
    preview_backs (rs_preview dbs) (gt_expected g) tenant (pl_IncidentID pl) (rx_PreviewRunID (pl_Parameters pl))
      (rx_PreviewCandidateID (pl_Parameters pl)) (rx_Command (pl_Parameters pl)) \<and>
    \<not> is_approved (rs_hitl dbs') (p_ID p)"
proof -
  from assms(4,5) obtain a x dbs1 where gate: "pass_gate le rc t xt (Some tenant) a x dbs = (None, dbs1)"
    and run: "perform rc t xt a x dbs1 = (res, dbs', ms)"
    by (auto simp: InvokableRun_def gated_def split: sum.splits prod.splits option.splits if_splits)
  from pass_gate_None[OF gate] obtain g pdb where g: "tl_previewGate t = Some g"
    and el: "Eligible le g tenant (ra_IncidentID a) (xp_PreviewRunID x) (xp_PreviewCandidateID x) (xp_Command x) (rs_preview dbs) = (None, pdb)"
    and rv: "ReserveApprovedForRecovery (rc_payload rc) (rc_canonical rc) (approval_query a x (xt_now xt)) (rs_hitl dbs) = (None, rs_hitl dbs1)" .
  from Reserve_None[OF rv] obtain p pl db1 f where gp: "Get (rq_ProposalID (approval_query a x (xt_now xt))) (rs_hitl dbs) = (Ok p, db1)"
    and ap: "approved_for (rc_payload rc) (rc_canonical rc) (approval_query a x (xt_now xt)) p pl"
    and tr: "Transition (p_ID p) StateApproved f db1 = (None, rs_hitl dbs1)" "f_ToState f = StateExecuting" .
  have p: "find_proposal (rs_hitl dbs) (p_ID p) = Some p"
    using Get_same(4)[OF gp refl] find_id by metis
  have after: "db_ok (rs_hitl dbs1)" "\<not> is_approved (rs_hitl dbs1) (p_ID p)"
    using Transition_approved[OF _ tr(1)] tr(2) Get_same(1)[OF gp] assms(1) by auto
  have params: "pl_Parameters pl = execution_params x" using ap by (intro assms(3)) (auto simp: approved_for_def approval_query_def)
  have q: "rq_SessionID (approval_query a x n) = ra_IncidentID a" "rq_Action (approval_query a x n) = xp_Command x"
    "rq_Kind (approval_query a x n) = KindAgentTeams" "rq_Now (approval_query a x n) = n" for n by (simp_all add: approval_query_def)
  have e: "rx_Command (execution_params x) = xp_Command x" "rx_PreviewRunID (execution_params x) = xp_PreviewRunID x"
    "rx_PreviewCandidateID (execution_params x) = xp_PreviewCandidateID x" by (simp_all add: execution_params_def)
  have "pv_ok (rs_preview dbs)" unfolding assms(2) by (rule save_all_ok[OF empty_ok])
  from Eligible_backs[OF this el] have
    "preview_backs (rs_preview dbs) (gt_expected g) tenant (ra_IncidentID a) (xp_PreviewRunID x) (xp_PreviewCandidateID x) (xp_Command x)" by blast
  moreover have "ms = [params_mutation (ra_IncidentID a) (execution_params x)]"
    using perform_keeps(2)[OF run after(1,2) assms(5)] by (simp add: mutation_of_params)
  moreover have "\<not> is_approved (rs_hitl dbs') (p_ID p)" by (rule perform_keeps(1)[OF run after])
  ultimately show ?thesis using g p ap unfolding approved_for_def q by (intro exI[of _ g] exI[of _ p] exI[of _ pl]) (simp add: params e)
qed

section \<open>A drill that ends another execution\<close>


section \<open>Concrete calls\<close>

definition demo_xparams :: recoveryExecuteParameters where
  "demo_xparams = \<lparr>xp_Command = ActResize, xp_DeviceID = 0, xp_Service = [], xp_Reason = ''pool exhausted'', xp_IncidentID = ''inc'',
     xp_FixtureManifestID = [], xp_PoolManifestID = ''pool-0001'', xp_PreviewRunID = ''run-1'', xp_PreviewCandidateID = ''resize'', xp_SkipAudit = False\<rparr>"

definition demo_args :: "string \<Rightarrow> RecoveryExecuteArgs" where
  "demo_args params = \<lparr>ra_IncidentID = ''inc'', ra_ProposalID = ''p-1'', ra_SkillID = ''s'', ra_Target = ''pg:pool-fixture'', ra_ResourceType = ''pg'',
     ra_Parameters = params\<rparr>"

definition demo_restart :: recoveryExecuteParameters where
  "demo_restart = \<lparr>xp_Command = ActRestart, xp_DeviceID = 3, xp_Service = ''nginx'', xp_Reason = ''drill'', xp_IncidentID = [],
     xp_FixtureManifestID = [], xp_PoolManifestID = [], xp_PreviewRunID = [], xp_PreviewCandidateID = [], xp_SkipAudit = True\<rparr>"

text \<open>A canonical form that determines the parameters: every field, with its length.\<close>

definition framed :: "string \<Rightarrow> string" where
  "framed s = replicate (length s) (CHR ''#'') @ ''|'' @ s"

definition demo_canonical :: params_codec where
  "demo_canonical r = Some (concat (map framed [dec (unat (rx_DeviceID r)), rx_Command r, rx_Service r, rx_Reason r, rx_IncidentID r,
     rx_FixtureManifestID r, rx_PoolManifestID r, rx_PreviewRunID r, rx_PreviewCandidateID r]))"

lemma framed_append: "framed s @ u = framed t @ v \<longleftrightarrow> s = t \<and> u = v"
proof
  assume e: "framed s @ u = framed t @ v"
  have tw: "takeWhile (\<lambda>c. c = CHR ''#'') (framed w @ z) = replicate (length w) (CHR ''#'')" for w z
    unfolding framed_def by (induction "length w" arbitrary: w) (simp_all add: takeWhile_append takeWhile_replicate)
  have l: "length s = length t" using arg_cong[OF e, of "\<lambda>x. length (takeWhile (\<lambda>c. c = CHR ''#'') x)"] tw by simp
  with e show "s = t \<and> u = v" by (simp add: framed_def)
qed simp

lemma demo_canonical_inj: "demo_canonical u = demo_canonical v \<Longrightarrow> demo_canonical u \<noteq> None \<Longrightarrow> u = v"
proof -
  assume "demo_canonical u = demo_canonical v"
  then have "dec (unat (rx_DeviceID u)) = dec (unat (rx_DeviceID v)) \<and> rx_Command u = rx_Command v \<and> rx_Service u = rx_Service v \<and>
    rx_Reason u = rx_Reason v \<and> rx_IncidentID u = rx_IncidentID v \<and> rx_FixtureManifestID u = rx_FixtureManifestID v \<and>
    rx_PoolManifestID u = rx_PoolManifestID v \<and> rx_PreviewRunID u = rx_PreviewRunID v \<and> rx_PreviewCandidateID u = rx_PreviewCandidateID v"
    unfolding demo_canonical_def
    by (simp add: framed_append framed_append[of _ "[]" _ "[]", simplified])
  then show "u = v" by (cases u; cases v) (simp add: dec_inj word_unat_eq_iff)
qed

definition demo_rc :: rec_codec where
  "demo_rc = \<lparr>rc_args = (\<lambda>s. Ok (demo_args s)), rc_params = (\<lambda>s. Ok (if s = ''drill'' then demo_restart else demo_xparams, True)),
     rc_env = (\<lambda>e. Some ''{}''), rc_valid = (\<lambda>s. True),
     rc_payload = demo_codec\<lparr>cd_decode := (\<lambda>s. Some (demo_payload\<lparr>pl_Action := ActResize, pl_Resource := ''pg:pool-fixture'',
        pl_Parameters := execution_params demo_xparams\<rparr>))\<rparr>,
     rc_canonical = demo_canonical\<rparr>"

definition demo_tool :: RecoveryExecuteTool where
  "demo_tool = \<lparr>tl_dispatcher = True, tl_terminator = True, tl_poolRecoverer = True, tl_auditRepo = True,
     tl_previewGate = Some \<lparr>gt_repository = True, gt_expected = ''w''\<rparr>\<rparr>"

definition demo_ext :: rec_ext where
  "demo_ext = \<lparr>xt_now = 10, xt_done = 20, xt_hostStatus = (\<lambda>i m. Err ''none''),
     xt_poolStatus = (\<lambda>i m. Ok \<lparr>pf_ManifestID = m, pf_IncidentID = i, pf_Resource = ''pg:pool-fixture'', pf_Status = ''running'', pf_FailedProbe = ''failed''\<rparr>),
     xt_mutate = (\<lambda>m. Ok ''done'')\<rparr>"

definition demo_dbs :: "string \<Rightarrow> rec_dbs" where
  "demo_dbs state = \<lparr>rs_hitl = \<lparr>t_proposal = [zero_proposal\<lparr>p_ID := ''p-1'', p_Kind := KindAgentTeams, p_SessionID := ''inc'',
       p_State := state, p_ExpiresAt := Some 100\<rparr>], t_state = Map.empty, faults = [], clock = 5, uuids = []\<rparr>,
     rs_preview = demo_preview_db\<rparr>"

lemma demo_dbs_ok: "db_ok (rs_hitl (demo_dbs state))"
  by (simp add: demo_dbs_def db_ok_def keys_of_def zero_proposal_def)

theorem recovery_execute_gated_witness:
  "\<exists>dbs'. InvokableRun (\<lambda>x y. True) demo_rc demo_tool demo_ext (Some ''t'') ''go'' (demo_dbs StateApproved) =
      (Ok ''{}'', dbs', [MResize ''inc'' ''pool-0001'' ''pool exhausted'']) \<and>
    (\<exists>p. find_proposal (rs_hitl (demo_dbs StateApproved)) (p_ID p) = Some p \<and> \<not> is_approved (rs_hitl dbs') (p_ID p))"
proof -
  let ?r = "InvokableRun (\<lambda>x y. True) demo_rc demo_tool demo_ext (Some ''t'') ''go'' (demo_dbs StateApproved)"
  obtain res dbs' ms where r: "?r = (res, dbs', ms)" by (metis prod_cases3)
  have "fst ?r = Ok ''{}'' \<and> snd (snd ?r) = [MResize ''inc'' ''pool-0001'' ''pool exhausted'']" by code_simp
  then have f: "res = Ok ''{}''" "ms = [MResize ''inc'' ''pool-0001'' ''pool exhausted'']" using r by simp_all
  have pv: "rs_preview (demo_dbs StateApproved) = save_all demo_plib [(5, demo_prun demo_candidate)] (empty_preview [])"
    by (simp add: demo_dbs_def demo_preview_db_def)
  have inj: "\<And>u v. rc_canonical demo_rc u = rc_canonical demo_rc v \<Longrightarrow> rc_canonical demo_rc u \<noteq> None \<Longrightarrow> u = v"
    using demo_canonical_inj by (simp add: demo_rc_def)
  have "ms \<noteq> []" using f(2) by simp
  from recovery_execute_gated[OF demo_dbs_ok pv inj r this] obtain p where
    "find_proposal (rs_hitl (demo_dbs StateApproved)) (p_ID p) = Some p" "\<not> is_approved (rs_hitl dbs') (p_ID p)" by blast
  then show ?thesis using r f by blast
qed

theorem approval_reserved_once_witness:
  "length (filter (\<lambda>(q, r). rq_ProposalID q = ''p-1'' \<and> r = None) (audit_trace (ReserveApprovedForRecovery (rc_payload demo_rc) demo_canonical) audit_finish
     [Inl (approval_query (demo_args []) demo_xparams 10), Inr (AComplete ''p-1'' True ''{}'' 20), Inl (approval_query (demo_args []) demo_xparams 30)]
     (rs_hitl (demo_dbs StateApproved)))) \<le> 1"
  by (rule approval_reserved_once[OF demo_dbs_ok])


end
