(* ===== verification/Hitl_Reach.thy ===== *)
theory Hitl_Reach
  imports Recov_Execute
begin

text \<open>
  The writers of the proposal table together: the service (\<^verbatim>\<open>biz/hitl/proposal.go\<close>), the AgentTeams
  operations (\<^verbatim>\<open>biz/hitl/agentteams.go\<close>) and the reservations of the recovery tool
  (\<^verbatim>\<open>data/hitl/store/recovery_audit.go\<close>). \<open>hitl_reach\<close> runs them in any order on the database store, and
  the invariant of \<open>Hitl_Service\<close> is kept by each of them.

  The operations run one at a time: two interleaved pauses can lose a resume token
  (\<open>pause_race_loses_token\<close>). Calls are within the documented domain (\<open>op_wf\<close>, and \<open>recorded_as_documented\<close> for
  \<open>SetResult\<close>, whose state argument is otherwise written as it is given).
\<close>

section \<open>Reachable databases\<close>

text \<open>
  \<open>SetResult\<close> is documented to record the result of an approved or executing proposal without a transition:
  it is called with the current state, or on a proposal that was decided and with a state that needs a decision.
\<close>

definition recorded_as_documented :: "hitl_db \<Rightarrow> string \<Rightarrow> string \<Rightarrow> bool" where
  "recorded_as_documented db i st = (case find_proposal db i of None \<Rightarrow> True
     | Some p \<Rightarrow> st = p_State p \<or> p_State p \<in> set decided_states \<and> st \<in> set decided_states)"

text \<open>Between two operations the environment may change the clock, the identifiers to come and the failures the
  driver will report.\<close>

inductive hitl_reach :: "hitl_db \<Rightarrow> bool" where
  init: "t_proposal db = [] \<Longrightarrow> t_state db = Map.empty \<Longrightarrow> hitl_reach db"
| env: "hitl_reach db \<Longrightarrow> hitl_reach (db\<lparr>faults := fs, clock := c, uuids := us\<rparr>)"
| op: "hitl_reach db \<Longrightarrow> op_wf op \<Longrightarrow> run_op store_repo now op db = (r, db') \<Longrightarrow> hitl_reach db'"
| load: "hitl_reach db \<Longrightarrow> LoadResumeToken store_repo decode i db = (tok, db') \<Longrightarrow> hitl_reach db'"
| set_result: "hitl_reach db \<Longrightarrow> recorded_as_documented db i st \<Longrightarrow>
    service_SetResult store_repo i st res tm db = (r, db') \<Longrightarrow> hitl_reach db'"
| create_agentteams: "hitl_reach db \<Longrightarrow> CreateAgentTeams store_repo cd now inp db = (sn, db') \<Longrightarrow> hitl_reach db'"
| decide_agentteams: "hitl_reach db \<Longrightarrow> TransitionAgentTeams store_repo cd now tin db = (sn, db') \<Longrightarrow> hitl_reach db'"
| reserve: "hitl_reach db \<Longrightarrow> ReserveApprovedForRecovery cd pj q db = (e, db') \<Longrightarrow> hitl_reach db'"
| complete: "hitl_reach db \<Longrightarrow> CompleteRecoveryExecution i ok res now db = (e, db') \<Longrightarrow> hitl_reach db'"
| expire: "hitl_reach db \<Longrightarrow> RecoverExpiredRecoveryExecution i now db = (e, db') \<Longrightarrow> hitl_reach db'"

section \<open>Every writer keeps the invariant\<close>

context hitl_repo
begin

lemma load_token_inv:
  assumes "LoadResumeToken repo decode i s = (tok, s')" "good s"
  shows "good s' \<and> props s' = props s \<and> rows s' = rows s"
proof -
  obtain g s1 where gt: "rp_Get repo i s = (g, s1)" by (cases "rp_Get repo i s")
  obtain l s2 where ld: "rp_LoadState repo i s1 = (l, s2)" by (cases "rp_LoadState repo i s1")
  have "s' = s1 \<or> s' = s2"
    using assms(1) gt ld by (auto simp: LoadResumeToken_def split: sum.splits if_splits option.splits)
  with get[OF assms(2) gt] load[OF _ ld] show ?thesis by auto
qed

lemma create_agentteams_inv:
  assumes "CreateAgentTeams repo cd now inp s = (sn, s')" "good s" "hitl_inv (props s) (rows s)"
  shows "good s' \<and> hitl_inv (props s') (rows s')"
proof -
  let ?p = "agentteams_proposal cd inp"
  obtain q s1 where cr: "rp_CreateAgentTeamsIdempotent repo ?p s = (q, s1)"
    by (cases "rp_CreateAgentTeamsIdempotent repo ?p s")
  have same: "s' = s \<or> s' = s1"
    using assms(1) cr by (auto simp: CreateAgentTeams_def split: if_splits sum.splits option.splits)
  have "good s1 \<and> hitl_inv (props s1) (rows s1)"
  proof (cases q)
    case (Inl e)
    with idempotent_err[OF assms(2)] cr assms(3) show ?thesis by simp
  next
    case (Inr p')
    have "p_State (with_defaults t (BeforeCreate u ?p)) = StatePending" for t u by (simp add: agentteams_proposal_def)
    with idempotent_ok[OF assms(2), of ?p p' s1] cr Inr assms(3) inv_create[OF assms(3), of p'] show ?thesis by auto
  qed
  with same assms(2,3) show ?thesis by blast
qed

lemma decide_agentteams_inv:
  assumes "TransitionAgentTeams repo cd now inp s = (sn, s')" "good s" "hitl_inv (props s) (rows s)"
  shows "good s' \<and> hitl_inv (props s') (rows s')"
proof (cases "transition_input_ok inp")
  case False
  with assms show ?thesis by (simp add: TransitionAgentTeams_def)
next
  case True
  let ?f = "decision_fields inp now"
  obtain g s1 where gt: "rp_Get repo (ti_ID inp) s = (g, s1)" by (cases "rp_Get repo (ti_ID inp) s")
  note g1 = get[OF assms(2) gt]
  have "ti_ToState inp \<noteq> StatePaused" "ti_ToState inp \<noteq> StateResumed"
    using True by (auto simp: transition_input_ok_def validTransitionTarget_def)
  then have tr: "good s2 \<and> hitl_inv (props s2) (rows s2)" if "rp_Transition repo j StatePending ?f s1 = (t, s2)" for j t s2
    using g1 assms(3) by (intro transition_inv[OF that]) (auto simp: decision_fields_def)
  have gets: "good s3 \<and> hitl_inv (props s3) (rows s3)" if "rp_Get repo j s2 = (g', s3)" "good s2" "hitl_inv (props s2) (rows s2)"
    for j g' s2 s3 using get[OF that(2,1)] that(3) by simp
  consider "s' = s1" | j t s2 where "rp_Transition repo j StatePending ?f s1 = (t, s2)" "s' = s2 \<or> (\<exists>g'. rp_Get repo (ti_ID inp) s2 = (g', s'))"
    using assms(1) gt True
    by (auto simp: TransitionAgentTeams_def after_conflict_def Snapshot_def split: sum.splits option.splits if_splits prod.splits)
  then show ?thesis using g1 assms(3) tr gets by cases (simp, blast)
qed

end

lemma store_transition_inv:
  assumes "Transition i frm f db = (r, db')" "db_ok db" "hitl_inv (find_proposal db) (t_state db)"
    and "f_ToState f \<notin> {StatePaused, StateApproved, StateResumed}"
  shows "db_ok db' \<and> hitl_inv (find_proposal db') (t_state db')"
  using store.transition_inv[of i frm f db r db'] assms by (simp add: store_repo_def)

lemma Get_inv:
  "Get i db = (g, db') \<Longrightarrow> db_ok db \<Longrightarrow> hitl_inv (find_proposal db) (t_state db) \<Longrightarrow>
     db_ok db' \<and> hitl_inv (find_proposal db') (t_state db')"
  using store.get[of db i g db'] by (simp add: store_repo_def)

lemma set_result_inv:
  assumes "SetResult i st res tm db = (r, db')" "db_ok db" "hitl_inv (find_proposal db) (t_state db)"
    and "recorded_as_documented db i st"
  shows "db_ok db' \<and> hitl_inv (find_proposal db') (t_state db')"
proof -
  note eff = SetResult_effect[OF assms(2,1)]
  have "row_inv p (t_state db' k)" if "find_proposal db' k = Some p" for k p
    using that SetResult_find[OF assms(1), of k] eff assms(3,4)
    by (fastforce simp: hitl_inv_def row_inv_def recorded_as_documented_def decided_states_def)
  with eff show ?thesis by (simp add: hitl_inv_def)
qed

lemma reserve_inv:
  assumes "ReserveApprovedForRecovery cd pj q db = (e, db')" "db_ok db" "hitl_inv (find_proposal db) (t_state db)"
  shows "db_ok db' \<and> hitl_inv (find_proposal db') (t_state db')"
proof -
  obtain g db1 where gt: "Get (rq_ProposalID q) db = (g, db1)" by (cases "Get (rq_ProposalID q) db")
  note g1 = Get_inv[OF gt assms(2,3)]
  let ?f = "(to_state StateExecuting)\<lparr>f_ExecutionLeaseExpiresAt := Some (rq_Now q + recoveryExecutionLeaseDuration)\<rparr>"
  consider "db' = db" | "db' = db1" | j t where "Transition j StateApproved ?f db1 = (t, db')"
    using assms(1) gt by (auto simp: ReserveApprovedForRecovery_def split: sum.splits option.splits if_splits prod.splits)
  then show ?thesis
  proof cases
    case 3
    with g1 show ?thesis by (intro store_transition_inv) (auto simp: state_defs)
  qed (use g1 assms in simp_all)
qed

lemma complete_recovery_inv:
  assumes "CompleteRecoveryExecution i ok res now db = (e, db')" "db_ok db" "hitl_inv (find_proposal db) (t_state db)"
  shows "db_ok db' \<and> hitl_inv (find_proposal db') (t_state db')"
proof -
  obtain g db1 where gt: "Get i db = (g, db1)" by (cases "Get i db")
  note g1 = Get_inv[OF gt assms(2,3)]
  consider "db' = db" | "db' = db1" | f where "db' = snd (Transition i StateExecuting f db1)" "f_ToState f \<in> {StateExecuted, StateFailed}"
    using assms(1) gt by (auto simp: CompleteRecoveryExecution_def Let_def store_err_def split: sum.splits if_splits)
  then show ?thesis
  proof cases
    case 3
    with g1 show ?thesis
      by (intro store_transition_inv[of i StateExecuting _ db1 "fst (Transition i StateExecuting f db1)"]) (auto simp: prod_eq_iff)
  qed (use g1 assms in simp_all)
qed

lemma expire_recovery_inv:
  assumes "RecoverExpiredRecoveryExecution i now db = (e, db')" "db_ok db" "hitl_inv (find_proposal db) (t_state db)"
  shows "db_ok db' \<and> hitl_inv (find_proposal db') (t_state db')"
proof -
  obtain g db1 where gt: "Get i db = (g, db1)" by (cases "Get i db")
  note g1 = Get_inv[OF gt assms(2,3)]
  consider "db' = db" | "db' = db1" | f where "db' = snd (Transition i StateExecuting f db1)" "f_ToState f = StateFailed"
    using assms(1) gt by (auto simp: RecoverExpiredRecoveryExecution_def store_err_def split: sum.splits if_splits)
  then show ?thesis
  proof cases
    case 3
    with g1 show ?thesis
      by (intro store_transition_inv[of i StateExecuting _ db1 "fst (Transition i StateExecuting f db1)"]) (auto simp: prod_eq_iff)
  qed (use g1 assms in simp_all)
qed

lemma hitl_reach_inv: "hitl_reach db \<Longrightarrow> db_ok db \<and> hitl_inv (find_proposal db) (t_state db)"
proof (induction rule: hitl_reach.induct)
  case (init db)
  then show ?case by (simp add: db_ok_def keys_of_def hitl_inv_def find_proposal_def)
next
  case (env db fs c us)
  then show ?case by (simp add: db_ok_def find_proposal_def)
next
  case (op db op now r db')
  then show ?case using store.run_op_inv by blast
next
  case (load db decode i tok db')
  then show ?case using store.load_token_inv by metis
next
  case (set_result db i st res tm r db')
  then show ?case using set_result_inv by (simp add: service_SetResult_def store_repo_def)
next
  case (create_agentteams db cd now inp sn db')
  then show ?case using store.create_agentteams_inv by blast
next
  case (decide_agentteams db cd now tin sn db')
  then show ?case using store.decide_agentteams_inv by blast
qed (use reserve_inv complete_recovery_inv expire_recovery_inv in blast)+

section \<open>The property\<close>

text \<open>
  C5. Invariant of the proposal life cycle. Start from empty tables and run, one at a time and in any order, the operations
  of the service, of the AgentTeams channel and of the recovery tool, whatever statements fail and when. New proposals are
  created pending, \<open>Complete\<close> is given a final state, and \<open>SetResult\<close> is used as it is documented. Then
  identifiers and idempotency keys are unique; a paused proposal has its resume token saved; and a proposal that is
  approved, resumed, executing, executed, failed or rolled back carries the user who approved or resumed it.
\<close>

theorem hitl_reachable_invariant:
  assumes "hitl_reach db" and "find_proposal db i = Some p"
  shows "distinct (map p_ID (t_proposal db)) \<and> distinct (keys_of (t_proposal db))
    \<and> (p_State p = StatePaused \<longrightarrow> t_state db i \<noteq> None)
    \<and> (p_State p \<in> {StateApproved, StateResumed, StateExecuting, StateExecuted, StateFailed, StateRolledBack}
        \<longrightarrow> p_ApprovedBy p \<noteq> None \<or> p_ResumedBy p \<noteq> None)"
  using hitl_reach_inv[OF assms(1)] assms(2)
  by (auto simp: db_ok_def hitl_inv_def row_inv_def decided_states_def)

lemma demo_pending_reach: "hitl_reach demo_pending"
proof (rule hitl_reach.op[of empty_db "OpCreate (Some demo_proposal)" 0 None])
  show "hitl_reach empty_db" by (rule hitl_reach.init) (simp_all add: empty_db_def)
  show "op_wf (OpCreate (Some demo_proposal))" by (simp add: op_wf_def demo_proposal_def zero_proposal_def)
  have "fst (CreateProposal store_repo (Some demo_proposal) empty_db) = None" by code_simp
  then show "run_op store_repo 0 (OpCreate (Some demo_proposal)) empty_db = (None, demo_pending)"
    by (simp add: run_op_def demo_pending_def prod_eq_iff)
qed

theorem hitl_reachable_invariant_witness:
  "p_State (the (find_proposal (snd (Pause store_repo 9 ''id-1'' demo_pause demo_pending)) ''id-1'')) = StatePaused
   \<and> t_state (snd (Pause store_repo 9 ''id-1'' demo_pause demo_pending)) ''id-1'' \<noteq> None"
proof -
  let ?db = "snd (Pause store_repo 9 ''id-1'' demo_pause demo_pending)"
  have st: "map_option p_State (find_proposal ?db ''id-1'') = Some StatePaused" by code_simp
  then obtain p where p: "find_proposal ?db ''id-1'' = Some p" "p_State p = StatePaused" by auto
  have "hitl_reach ?db"
    by (rule hitl_reach.op[OF demo_pending_reach, of "OpPause ''id-1'' demo_pause" 9 "fst (Pause store_repo 9 ''id-1'' demo_pause demo_pending)"])
       (simp_all add: op_wf_def run_op_def)
  from hitl_reachable_invariant[OF this p(1)] p show ?thesis by simp
qed

end
