(* ===== verification/Spec2Isabelle.thy ===== *)
theory Spec2Isabelle
  imports Cmd_Sandbox Hitl_AgentTeams Hitl_Policy Loop_Orchestrator Flow_Progress Flow_Sched
    Alert_Gates Guard_Label Iam_User Lead_Elect Hitl_Reach
begin

text \<open>
  A verification of the decision and orchestration core of opskeeper. Paths below are relative to
  \<^verbatim>\<open>src/\<close>.

  \<^bold>\<open>The program.\<close> A manager watches a fleet of hosts through edge agents, investigates alerts with
  language-model agents and repairs what it may repair. The parts that carry the logic which keeps this
  safe are modelled here:

  \<^item> the edge agent's command sandbox decides which shell commands an agent may run on a host
    (\<^verbatim>\<open>internal/edgeagent/cmdpolicy\<close>, \<^verbatim>\<open>host_files\<close>, \<^verbatim>\<open>bash\<close>);
  \<^item> human-in-the-loop proposals: an action with effects waits for a decision, may pause and resume
    (\<^verbatim>\<open>internal/manager/{model,data,biz}/hitl\<close>);
  \<^item> the closed loop walks an incident through detection, correlation, investigation, critique, approval,
    recovery and postmortem, with an append-only event log (\<^verbatim>\<open>internal/manager/biz/loop\<close> and its stores);
  \<^item> workflows: user-drawn graphs of trigger, agent, tool, condition and notification nodes, executed
    concurrently, started by hand, by alerts or by time (\<^verbatim>\<open>internal/manager/biz/flow\<close>);
  \<^item> alerts: rules are saved, compiled and evaluated against a metrics and a log server; what fires becomes
    an incident with a history, is silenced, notified and resolved (\<^verbatim>\<open>internal/manager/biz/alert\<close>,
    \<^verbatim>\<open>internal/manager/{model,data}/alert\<close>, \<^verbatim>\<open>internal/pkg/notify\<close>);
  \<^item> repair previews: candidate repairs are replayed on disposable copies of a database and judged by what
    was measured (\<^verbatim>\<open>internal/control/repairpreview\<close>);
  \<^item> recovery execution: the agents' tool that performs an approved repair, and the reservation of the
    approval it performs (\<^verbatim>\<open>internal/manager/biz/aiops/tools/recovery_execute_basetool.go\<close>,
    \<^verbatim>\<open>internal/manager/data/hitl/store/recovery_audit.go\<close>);
  \<^item> identity and access: organizations, memberships, authorization, users, tokens (\<^verbatim>\<open>internal/iam\<close>,
    \<^verbatim>\<open>internal/pkg/auth\<close>, \<^verbatim>\<open>internal/pkg/authzmw\<close>);
  \<^item> data classification: sensitivity labels and redaction (\<^verbatim>\<open>internal/dataguard\<close>);
  \<^item> the distributed lock and leader election that keep background work on one manager of several
    (\<^verbatim>\<open>internal/pkg/redislock\<close>, \<^verbatim>\<open>internal/pkg/leader\<close>).

  They meet in a few places. A tool call that reaches a host passes the command sandbox, whether a workflow
  or an agent makes it. An action with effects becomes a proposal; the recovery tool performs it only when
  people approved it and a preview backs it, and only once. Sensitivities decide both what is redacted and
  which resources a member may open. A firing alert tells the workflows it may start. Scheduled flows run on the elected leader.

  \<^bold>\<open>The theories.\<close>

  \<^item> \<open>Prelude\<close>, \<open>Go_Strings\<close>, \<open>Go_Net\<close>, \<open>Go_Json\<close>: shared types, the named collections, and what the
    programs use of Go's strings, paths, URLs, dynamic values and floats.
  \<^item> \<open>Cmd_Parse\<close> (\<^verbatim>\<open>parse.go\<close>), \<open>Cmd_Policy\<close> (\<^verbatim>\<open>policy.go\<close>, \<^verbatim>\<open>types.go\<close>), \<open>Cmd_Baseline\<close> (the table of
    \<^verbatim>\<open>DefaultReadOnly\<close>), \<open>Host_Paths\<close> (\<^verbatim>\<open>host_files/sandbox.go\<close>), \<open>Cmd_Sandbox\<close> (\<^verbatim>\<open>sandbox.go\<close> and the
    \<^verbatim>\<open>bash.exec\<close> handler). Shown: the tokenizer admits no unquoted metacharacter and inverts quoting;
    \<open>Decide\<close> equals its documented rule, over every segment of a pipeline; only decided commands start,
    from resolved paths; paths under denied directories and foreign hosts are refused; and where the
    code departs from its comments.
  \<^item> \<open>Hitl_Model\<close>, \<open>Hitl_Repo\<close> (the \<open>Repo\<close> interface as the locale \<open>hitl_repo\<close>), \<open>Hitl_Store\<close> (its
    interpretation on the two tables), \<open>Hitl_Service\<close>, \<open>Hitl_Policy\<close>, \<open>Hitl_AgentTeams\<close>. Shown: an
    invariant of every database the service can reach under any statement failures, decisions happen once
    and follow the state table, AgentTeams decisions are bound to the payload they saw, pausing saves a
    token that resuming finds, and the exact conditions of pausing and of dual signatures.
  \<^item> \<open>Loop_Model\<close>, \<open>Loop_Contract\<close>, \<open>Loop_Phases\<close>, \<open>Loop_Walk\<close>, \<open>Loop_Trace\<close>, \<open>Loop_Repos\<close> (locales
    \<open>event_log\<close> and \<open>engine_order\<close>, interpreted on the in-memory and the database repository),
    \<open>Loop_Orchestrator\<close>. The workers are parameters: every theorem holds for every worker. Shown: a walk
    ends, its events refine an abstract walker, recovery only follows approval, rollbacks are bounded, the
    log's keys are distinct and a crash resumes at the phase it interrupted.
  \<^item> \<open>Flow_Graph\<close> (\<^verbatim>\<open>graph.go\<close> and the registry), \<open>Flow_Expr\<close> (\<^verbatim>\<open>expr.go\<close>), \<open>Flow_Nodes\<close> (\<^verbatim>\<open>nodes.go\<close>,
    \<^verbatim>\<open>noderegistry.go\<close>, \<^verbatim>\<open>http_node.go\<close>), \<open>Flow_Engine\<close> (\<^verbatim>\<open>engine.go\<close> as a labelled step relation),
    \<open>Flow_Runs\<close> and \<open>Flow_Progress\<close> (its invariants; the locale \<open>bounded_runs\<close> and its interpretation),
    \<open>Flow_Store\<close> (\<^verbatim>\<open>data/flow/store\<close>), \<open>Flow_Usecase\<close> (\<^verbatim>\<open>usecase.go\<close>, \<^verbatim>\<open>dispatcher.go\<close>),
    \<open>Flow_Sched\<close> (\<^verbatim>\<open>scheduler.go\<close>). Shown:
    validation accepts exactly the acyclic well-typed graphs; in every interleaving a node executes at
    most once, at most four at a time, and a finished run executed exactly the closure of its entries under
    the fired ports; every run ends; definitions stay valid; an alert starts one run per matching flow;
    a tick of the clock fires exactly the due triggers and leaves every cursor in the future.
  \<^item> \<open>Alert_Model\<close> (\<^verbatim>\<open>model.go\<close> and the operations on the database), \<open>Alert_Store\<close> (\<^verbatim>\<open>repo.go\<close>), \<open>Alert_Usecase\<close>
    (the lifecycle in \<^verbatim>\<open>usecase.go\<close>, \<^verbatim>\<open>webhook.go\<close>), \<open>Alert_Notify\<close> (\<^verbatim>\<open>notify.go\<close>, \<^verbatim>\<open>router.go\<close>, \<^verbatim>\<open>inhibit.go\<close>,
    \<^verbatim>\<open>retry.go\<close>, \<open>MaybeNotify\<close>), \<open>Alert_Rules\<close> (saving rules), \<open>Alert_Compile\<close> (\<^verbatim>\<open>rules.go\<close>), \<open>Alert_Pipeline\<close>
    (\<^verbatim>\<open>pipeline.go\<close> and the evaluators), \<open>Alert_Invariant\<close> (the locales \<open>alert_steady\<close>, \<open>alert_kept\<close> and
    \<open>alert_lasting\<close>: what the statements of the store keep, every operation keeps), \<open>Alert_Tick\<close>, \<open>Alert_Gates\<close>.
    Shown: under any sequence of requests and failures the database stays consistent and its history is
    not rewritten; a tick makes the incidents of a rule follow the answer; a notification passes every gate;
    a saved rule is evaluated; and where silences, outages and edits of rules go wrong.
  \<^item> \<open>Preview_Model\<close> (\<^verbatim>\<open>model.go\<close>, \<^verbatim>\<open>workload.go\<close>, \<^verbatim>\<open>readback.go\<close>, the pure helpers of \<^verbatim>\<open>runner.go\<close>),
    \<open>Preview_Store\<close> (\<^verbatim>\<open>repository.go\<close>, \<^verbatim>\<open>gate.go\<close>). Shown: a saved run is listed with exactly its
    candidates and the verdicts they deserve; the gate opens only for a stored candidate that passed,
    except for the kind \<^verbatim>\<open>baseline\<close>, which slips through.
  \<^item> \<open>Recov_Execute\<close>, above \<open>Hitl_AgentTeams\<close> and \<open>Preview_Store\<close>; the audit interface of the tool is
    the locale \<open>proposal_audit\<close>, interpreted on the proposal store. Shown: a proposal is reserved at most
    once over any sequence of reservations, completions and lease recoveries; whatever an agent worker
    changes is what one approved, unexpired and previewed proposal describes; and the path on which a
    drill completes an execution it did not start.
  \<^item> \<open>Guard_Redact\<close> (\<^verbatim>\<open>sensitivity.go\<close>, \<^verbatim>\<open>redact.go\<close>), \<open>Guard_Label\<close> (\<^verbatim>\<open>heuristic\<close>, \<^verbatim>\<open>store\<close>,
    \<^verbatim>\<open>label\<close>). Shown: what a redacted map reveals does not depend on its sensitive fields; the effective
    sensitivity is always one of the five levels.
  \<^item> \<open>Iam_Model\<close>, \<open>Iam_Authz\<close> (authorization and memberships), \<open>Iam_Org\<close>, \<open>Iam_User\<close> (users, tokens,
    middleware, the login throttle). Shown: the policy engine allows exactly what the membership table
    says, and how a failed statement lets them drift apart; organizations stay a forest; service tokens are
    confined to their tools and lifetime; password guesses are bounded.
  \<^item> \<open>Lead_Lock\<close> (\<^verbatim>\<open>lock.go\<close>), \<open>Lead_Elect\<close> (\<^verbatim>\<open>manager.go\<close>, \<^verbatim>\<open>elector.go\<close> as a step relation of a
    cluster). Shown: no two processes are within their lease at one instant; a vacant role is taken at a
    bounded distance; and the windows in which two processes believe they lead.

  \<^bold>\<open>Conventions.\<close> A Go string is the list of its bytes; the programs only test ASCII characters, and case
  folding is that of ASCII. A struct is a record, an error a constructor of the component's error type, a
  nil pointer or map \<open>None\<close>. Files, processes, DNS, databases, clocks, random identifiers, codecs
  (JSON, YAML, SHA-256), cron, language models and tools are parameters or arguments. What the code relies
  on of them is named: \<open>redis_ok\<close> for the commands of Redis, \<open>casbin_ok\<close> for the policy engine,
  \<open>crypto_ok\<close> for password hashing and signatures, \<open>rule_json_ok\<close> and \<open>rule_int_ok\<close> for the round trip of
  JSON and the conversion of floats. A database
  statement may fail wherever the program runs one, as a script of faults decides. Logging and metrics are
  left out. The walker's loop has the source's own bound of 32 iterations, of which at most 13 are used;
  the cycle check and the tokenizers end by a measure on their input; runs of the workflow engine
  have a measure on the graph, so that no fuel is needed.

  \<^bold>\<open>Not modelled.\<close> Investigation and deduplication of alerts by language models, single sign-on, the knowledge base, the chat runtime and
  its tools other than \<^verbatim>\<open>recovery.execute\<close>, edge plugins, MCP, reports, the HTTP servers and the web
  client: they are wide rather than deep, and mostly move data between the database, language models and
  the wire. The replay of a preview's workload runs SQL on a live database and only its judgement is modelled.
  Concrete phase workers of the closed loop call models and tools; the walker is verified for all of them.
\<close>

end
